(* ===== verification/Prelude.thy ===== *)
theory Prelude
  imports Main "HOL-Library.Char_ord" "HOL-Library.List_Lexorder" "HOL-Library.Product_Lexorder"
    "HOL-Library.Multiset" "HOL-Library.Sublist"
begin

text \<open>
  The Go notions every component uses: byte strings with the functions of package strings that the
  sources call, decimal rendering, maps as association lists, sort.Slice, and the collections of
  lemmas the component proofs share.
\<close>

named_theorems map_laws \<open>lookup laws of Go maps\<close>
named_theorems inv_intros \<open>preservation of the component invariants\<close>

section \<open>Strings\<close>

text \<open>
  A Go string is a sequence of bytes, here a list of characters.  strings.TrimSpace removes the
  Unicode white space at both ends; the byte sequences below are the UTF-8 encodings of the code
  points for which unicode.IsSpace holds.
\<close>

definition go_spaces :: "string list" where
  "go_spaces =
     [[CHR 0x09], [CHR 0x0A], [CHR 0x0B], [CHR 0x0C], [CHR 0x0D], [CHR 0x20],
      [CHR 0xC2, CHR 0x85], [CHR 0xC2, CHR 0xA0], [CHR 0xE1, CHR 0x9A, CHR 0x80],
      [CHR 0xE2, CHR 0x80, CHR 0x80], [CHR 0xE2, CHR 0x80, CHR 0x81], [CHR 0xE2, CHR 0x80, CHR 0x82],
      [CHR 0xE2, CHR 0x80, CHR 0x83], [CHR 0xE2, CHR 0x80, CHR 0x84], [CHR 0xE2, CHR 0x80, CHR 0x85],
      [CHR 0xE2, CHR 0x80, CHR 0x86], [CHR 0xE2, CHR 0x80, CHR 0x87], [CHR 0xE2, CHR 0x80, CHR 0x88],
      [CHR 0xE2, CHR 0x80, CHR 0x89], [CHR 0xE2, CHR 0x80, CHR 0x8A], [CHR 0xE2, CHR 0x80, CHR 0xA8],
      [CHR 0xE2, CHR 0x80, CHR 0xA9], [CHR 0xE2, CHR 0x80, CHR 0xAF], [CHR 0xE2, CHR 0x81, CHR 0x9F],
      [CHR 0xE3, CHR 0x80, CHR 0x80]]"

function trim_left :: "string list \<Rightarrow> string \<Rightarrow> string" where
  "trim_left ws s =
     (case find (\<lambda>w. w \<noteq> [] \<and> prefix w s) ws of
        None \<Rightarrow> s
      | Some w \<Rightarrow> trim_left ws (drop (length w) s))"
  by pat_completeness auto
termination
  by (relation "measure (\<lambda>(ws, s). length s)")
    (auto simp: find_Some_iff prefix_def)

declare trim_left.simps [simp del]

definition trim_space :: "string \<Rightarrow> string" where
  "trim_space s = rev (trim_left (map rev go_spaces) (rev (trim_left go_spaces s)))"

definition is_blank :: "string \<Rightarrow> bool" where
  "is_blank s \<longleftrightarrow> trim_space s = []"

lemma trim_left_Nil [simp]: "trim_left ws [] = []"
  by (subst trim_left.simps) (auto split: option.splits simp: find_Some_iff)

lemma trim_left_suffix: "suffix (trim_left ws s) s"
proof (induction ws s rule: trim_left.induct)
  case (1 ws s)
  show ?case
  proof (cases "find (\<lambda>w. w \<noteq> [] \<and> prefix w s) ws")
    case None
    then show ?thesis by (subst trim_left.simps) simp
  next
    case (Some w)
    then have "suffix (trim_left ws (drop (length w) s)) (drop (length w) s)" by (rule "1.IH")
    then have "suffix (trim_left ws (drop (length w) s)) s"
      by (rule suffix_order.trans) (rule suffix_drop)
    with Some show ?thesis by (subst trim_left.simps) simp
  qed
qed

lemma trim_left_idem: "trim_left ws (trim_left ws s) = trim_left ws s"
proof (induction ws s rule: trim_left.induct)
  case (1 ws s)
  then show ?case
    by (cases "find (\<lambda>w. w \<noteq> [] \<and> prefix w s) ws") (simp_all add: trim_left.simps [of ws s])
qed

lemma trim_space_Nil [simp]: "trim_space [] = []"
  by (simp add: trim_space_def)

lemma is_blank_Nil [simp]: "is_blank []"
  by (simp add: is_blank_def)

lemma not_blank_nonempty: "\<not> is_blank s \<Longrightarrow> s \<noteq> []"
  by auto

text \<open>A string whose first byte starts no white space sequence is trimmed on the right only, and
  so on: the usual case of identifiers.\<close>

lemma trim_left_plain:
  assumes "\<And>w. w \<in> set ws \<Longrightarrow> w \<noteq> [] \<Longrightarrow> hd w \<noteq> c"
  shows "trim_left ws (c # s) = c # s"
proof -
  have "find (\<lambda>w. w \<noteq> [] \<and> prefix w (c # s)) ws = None"
    using assms by (fastforce simp: find_None_iff prefix_Cons)
  then show ?thesis by (subst trim_left.simps) simp
qed

lemma trim_space_plain:
  assumes "hd s \<notin> set (map hd go_spaces)" "last s \<notin> set (map last go_spaces)"
  shows "trim_space s = s"
proof (cases s)
  case Nil
  then show ?thesis by simp
next
  case (Cons c cs)
  have l: "trim_left go_spaces s = s"
    using assms(1) unfolding Cons by (intro trim_left_plain) auto
  obtain d ds where r: "rev s = d # ds" using Cons by (cases "rev s") auto
  then have "d = last s" by (metis hd_rev list.sel(1))
  with assms(2) have "trim_left (map rev go_spaces) (d # ds) = d # ds"
    by (intro trim_left_plain) (auto simp: hd_rev, metis imageI)
  with l r have "trim_left (map rev go_spaces) (rev (trim_left go_spaces s)) = rev s" by simp
  then show ?thesis by (simp add: trim_space_def)
qed

text \<open>fmt's %d and strconv.Quote (%q) on the bytes the sources print.\<close>

fun show_nat :: "nat \<Rightarrow> string" where
  "show_nat n = (if n < 10 then [char_of (48 + n)]
                 else show_nat (n div 10) @ [char_of (48 + n mod 10)])"

declare show_nat.simps [simp del]

definition show_int :: "int \<Rightarrow> string" where
  "show_int i = (if i < 0 then CHR ''-'' # show_nat (nat (- i)) else show_nat (nat i))"

definition quote_char :: "char \<Rightarrow> string" where
  "quote_char c =
     (if c = CHR 0x22 then [CHR 0x5C, CHR 0x22]
      else if c = CHR 0x5C then [CHR 0x5C, CHR 0x5C]
      else if c = CHR 0x07 then [CHR 0x5C, CHR ''a'']
      else if c = CHR 0x08 then [CHR 0x5C, CHR ''b'']
      else if c = CHR 0x0C then [CHR 0x5C, CHR ''f'']
      else if c = CHR 0x0A then [CHR 0x5C, CHR ''n'']
      else if c = CHR 0x0D then [CHR 0x5C, CHR ''r'']
      else if c = CHR 0x09 then [CHR 0x5C, CHR ''t'']
      else if c = CHR 0x0B then [CHR 0x5C, CHR ''v'']
      else [c])"

definition go_quote :: "string \<Rightarrow> string" where
  "go_quote s = CHR 0x22 # concat (map quote_char s) @ [CHR 0x22]"

section \<open>Maps\<close>

text \<open>
  A Go map is an association list with distinct keys.  Its list order stands for an order in which
  range visits it, which Go leaves open.
\<close>

type_synonym ('k, 'v) gomap = "('k \<times> 'v) list"

fun map_put :: "'k \<Rightarrow> 'v \<Rightarrow> ('k, 'v) gomap \<Rightarrow> ('k, 'v) gomap" where
  "map_put k v [] = [(k, v)]"
| "map_put k v ((k', v') # m) = (if k' = k then (k, v) # m else (k', v') # map_put k v m)"

definition map_del :: "'k \<Rightarrow> ('k, 'v) gomap \<Rightarrow> ('k, 'v) gomap" where
  "map_del k m = filter (\<lambda>(k', _). k' \<noteq> k) m"

abbreviation map_keys :: "('k, 'v) gomap \<Rightarrow> 'k list" where
  "map_keys m \<equiv> map fst m"

abbreviation map_ok :: "('k, 'v) gomap \<Rightarrow> bool" where
  "map_ok m \<equiv> distinct (map fst m)"

text \<open>The contract of a finite map, as the sources use it.\<close>

locale finite_map =
  fixes lookup :: "'m \<Rightarrow> 'k \<Rightarrow> 'v option"
    and put :: "'k \<Rightarrow> 'v \<Rightarrow> 'm \<Rightarrow> 'm"
    and del :: "'k \<Rightarrow> 'm \<Rightarrow> 'm"
    and keys :: "'m \<Rightarrow> 'k list"
    and ok :: "'m \<Rightarrow> bool"
  assumes lookup_put: "lookup (put k v m) = (lookup m)(k \<mapsto> v)"
    and lookup_del: "lookup (del k m) = (lookup m)(k := None)"
    and keys_dom: "set (keys m) = dom (lookup m)"
    and ok_put: "ok m \<Longrightarrow> ok (put k v m)"
    and ok_del: "ok m \<Longrightarrow> ok (del k m)"
begin

lemma lookup_put_same: "lookup (put k v m) k = Some v"
  by (simp add: lookup_put)

lemma lookup_put_other: "k' \<noteq> k \<Longrightarrow> lookup (put k v m) k' = lookup m k'"
  by (simp add: lookup_put)

lemma keys_put: "set (keys (put k v m)) = insert k (set (keys m))"
  by (simp add: keys_dom lookup_put)

lemma keys_del: "set (keys (del k m)) = set (keys m) - {k}"
  by (auto simp: keys_dom lookup_del)

lemma in_keys_iff: "k \<in> set (keys m) \<longleftrightarrow> lookup m k \<noteq> None"
  by (auto simp: keys_dom)

lemma del_put: "lookup (del k (put k v m)) = lookup (del k m)"
  by (simp add: lookup_del lookup_put)

end

lemma map_of_put: "map_of (map_put k v m) = (map_of m)(k \<mapsto> v)"
  by (induction m rule: map_put.induct) auto

lemma map_of_del: "map_of (map_del k m) = (map_of m)(k := None)"
  by (induction m) (auto simp: map_del_def)

lemma keys_map_put: "set (map_keys (map_put k v m)) = insert k (set (map_keys m))"
  by (induction m rule: map_put.induct) auto

lemma map_ok_put: "map_ok m \<Longrightarrow> map_ok (map_put k v m)"
  by (induction m rule: map_put.induct) (auto simp: keys_map_put simp del: set_map)

lemma map_ok_del: "map_ok m \<Longrightarrow> map_ok (map_del k m)"
  by (induction m) (auto simp: map_del_def)

interpretation gm: finite_map map_of map_put map_del map_keys map_ok
  by unfold_locales
    (auto simp: map_of_put map_of_del map_ok_put map_ok_del dom_map_of_conv_image_fst)

lemmas gomap_simps [map_laws] =
  gm.lookup_put gm.lookup_del gm.keys_put gm.keys_del gm.ok_put gm.ok_del

lemma map_of_ok_mem: "map_ok m \<Longrightarrow> (k, v) \<in> set m \<longleftrightarrow> map_of m k = Some v"
  by (metis map_of_SomeD map_of_is_SomeI)

section \<open>sort.Slice\<close>

text \<open>
  sort.Slice with a less function.  It sorts by insertion, as Go does for short slices; for longer
  ones Go leaves the order of elements that compare equal open, and the theorems that depend on the
  order assume distinct keys.
\<close>

fun slice_insert :: "('a \<Rightarrow> 'a \<Rightarrow> bool) \<Rightarrow> 'a \<Rightarrow> 'a list \<Rightarrow> 'a list" where
  "slice_insert lt x [] = [x]"
| "slice_insert lt x (y # ys) = (if lt y x then y # slice_insert lt x ys else x # y # ys)"

fun sort_slice :: "('a \<Rightarrow> 'a \<Rightarrow> bool) \<Rightarrow> 'a list \<Rightarrow> 'a list" where
  "sort_slice lt [] = []"
| "sort_slice lt (x # xs) = slice_insert lt x (sort_slice lt xs)"

text \<open>A less function that compares keys of a linear order: the contract sort.Slice needs.\<close>

locale key_order =
  fixes lt :: "'a \<Rightarrow> 'a \<Rightarrow> bool"
    and key :: "'a \<Rightarrow> 'b :: linorder"
  assumes less_key: "lt x y \<longleftrightarrow> key x < key y"
begin

lemma slice_insert_key: "slice_insert lt x ys = insort_key key x ys"
  by (induction ys) (auto simp: less_key)

lemma sort_slice_key: "sort_slice lt xs = sort_key key xs"
  by (induction xs) (simp_all add: slice_insert_key)

lemma mset_sort_slice: "mset (sort_slice lt xs) = mset xs"
  by (simp add: sort_slice_key)

lemma set_sort_slice: "set (sort_slice lt xs) = set xs"
  by (simp add: sort_slice_key)

lemma length_sort_slice: "length (sort_slice lt xs) = length xs"
  by (simp add: sort_slice_key)

lemma sorted_sort_slice: "sorted (map key (sort_slice lt xs))"
  by (simp add: sort_slice_key)

lemma distinct_sort_slice: "distinct (sort_slice lt xs) = distinct xs"
  by (simp add: sort_slice_key)

lemma sort_slice_perm:
  assumes "mset xs = mset ys" "inj_on key (set xs)"
  shows "sort_slice lt xs = sort_slice lt ys"
  unfolding sort_slice_key by (rule sort_key_inj_key_eq) (use assms in simp_all)

end

lemma mset_slice_insert: "mset (slice_insert lt x xs) = add_mset x (mset xs)"
  by (induction xs) auto

lemma mset_sort_any: "mset (sort_slice lt xs) = mset xs"
  by (induction xs) (auto simp: mset_slice_insert)

lemma set_sort_any [simp]: "set (sort_slice lt xs) = set xs"
  by (metis mset_sort_any set_mset_mset)

section \<open>Lists and counts\<close>

lemma count_filter_le: "length (filter P (filter Q xs)) \<le> length (filter P xs)"
  by (induction xs) auto

lemma length_filter_append1:
  "length (filter P (xs @ [x])) = length (filter P xs) + (if P x then 1 else 0)"
  by simp

lemma exists_last_nth: "xs \<noteq> [] \<Longrightarrow> last xs \<in> set xs"
  by (rule last_in_set)

section \<open>strings.Split and strings.Join on one character\<close>

fun split_on :: "char \<Rightarrow> string \<Rightarrow> string list" where
  "split_on c [] = [[]]"
| "split_on c (x # xs) =
     (if x = c then [] # split_on c xs
      else (case split_on c xs of [] \<Rightarrow> [[x]] | p # ps \<Rightarrow> (x # p) # ps))"

fun join_on :: "char \<Rightarrow> string list \<Rightarrow> string" where
  "join_on c [] = []"
| "join_on c [p] = p"
| "join_on c (p # q # ps) = p @ c # join_on c (q # ps)"

lemma split_on_not_Nil [simp]: "split_on c s \<noteq> []"
  by (cases s) (auto split: list.splits)

lemma split_on_single: "c \<notin> set p \<Longrightarrow> split_on c p = [p]"
  by (induction p) auto

lemma split_on_append: "c \<notin> set p \<Longrightarrow> split_on c (p @ c # s) = p # split_on c s"
  by (induction p) auto

lemma split_join: "ps \<noteq> [] \<Longrightarrow> \<forall>p\<in>set ps. c \<notin> set p \<Longrightarrow> split_on c (join_on c ps) = ps"
  by (induction c ps rule: join_on.induct) (simp_all add: split_on_single split_on_append)

lemma join_split: "join_on c (split_on c s) = s"
proof (induction s)
  case (Cons x xs)
  show ?case
  proof (cases "split_on c xs")
    case Nil
    then show ?thesis by simp
  next
    case (Cons p ps)
    then show ?thesis using Cons.IH by (cases ps) auto
  qed
qed simp

lemma split_on_parts: "p \<in> set (split_on c s) \<Longrightarrow> c \<notin> set p"
  by (induction s arbitrary: p) (auto split: list.splits if_splits)

end
