(* ===== verification/Values.thy ===== *)
theory Values
  imports Prelude
begin

text \<open>
  The dynamic values of the task configs and node results (Go's interface{} as the YAML and JSON
  decoders produce it), and the key by which cli/internal/taskconfig compares them
  (comparableValueKey, ValuesEqual).
\<close>

section \<open>Dynamic values\<close>

text \<open>
  A float64 is NaN, an infinity, minus zero, an integral value, or a proper dyadic fraction
  m / 2^k with m odd and k > 0.
\<close>

datatype gofloat = FNaN | FInf bool | FNegZero | FInt int | FFrac int nat

text \<open>
  VInt stands for the integer kinds (int, int8, ..., uint64), whose value is the argument; VList is
  []interface{}, VStrs is []string and VMap is map[string]interface{}.
\<close>

datatype gval =
    VNil
  | VBool bool
  | VInt int
  | VFloat gofloat
  | VStr string
  | VStrs "string list"
  | VList "gval list"
  | VMap "(string \<times> gval) list"

text \<open>
  What a run of the program takes from its surroundings: the order in which range visits the keys of
  a map, the texts fmt gives a value for %v and a fraction for %g, encoding/json's text of a value,
  and which commands exec.LookPath finds.
\<close>

record go_env =
  map_order :: "string list \<Rightarrow> string list"
  fmt_v :: "gval \<Rightarrow> string"
  fmt_g :: "gofloat \<Rightarrow> string"
  marshal_json :: "gval \<Rightarrow> string option"
  look_path :: "string \<Rightarrow> bool"

text \<open>
  What Go documents of them: range visits every key once, and encoding/json has no text for NaN and
  the infinities.
\<close>

definition env_ok :: "go_env \<Rightarrow> bool" where
  "env_ok env \<longleftrightarrow>
     (\<forall>ks. mset (map_order env ks) = mset ks) \<and>
     marshal_json env (VFloat FNaN) = None \<and> (\<forall>b. marshal_json env (VFloat (FInf b)) = None)"

lemma env_ok_set: "env_ok env \<Longrightarrow> set (map_order env ks) = set ks"
  by (metis env_ok_def set_mset_mset)

lemma env_ok_distinct: "env_ok env \<Longrightarrow> distinct (map_order env ks) = distinct ks"
  by (metis env_ok_def mset_eq_imp_distinct_iff)

lemma env_ok_length: "env_ok env \<Longrightarrow> length (map_order env ks) = length ks"
  by (metis env_ok_def mset_eq_length)

text \<open>A concrete environment, for the witnesses.\<close>

definition plain_env :: go_env where
  "plain_env =
     \<lparr>map_order = (\<lambda>ks. ks), fmt_v = (\<lambda>_. ''v''), fmt_g = (\<lambda>_. ''0.5''),
      marshal_json = (\<lambda>v. if v = VNil then Some ''null'' else None), look_path = (\<lambda>c. c = ''codex'')\<rparr>"

lemma env_ok_plain [simp]: "env_ok plain_env"
  by (simp add: env_ok_def plain_env_def)

section \<open>Comparable keys\<close>

text \<open>
  int64(v) of an integral float64.  Out of range the conversion is implementation defined; amd64
  gives the least int64.
\<close>

definition float_to_int64 :: "int \<Rightarrow> int" where
  "float_to_int64 i = (if - (2 ^ 63) \<le> i \<and> i < 2 ^ 63 then i else - (2 ^ 63))"

fun normalizeFloatKey :: "go_env \<Rightarrow> gofloat \<Rightarrow> string option" where
  "normalizeFloatKey env FNaN = None"
| "normalizeFloatKey env (FInf b) = None"
| "normalizeFloatKey env FNegZero = Some (''number:'' @ show_int (float_to_int64 0))"
| "normalizeFloatKey env (FInt i) = Some (''number:'' @ show_int (float_to_int64 i))"
| "normalizeFloatKey env (FFrac m k) = Some (''number:'' @ fmt_g env (FFrac m k))"

fun comparableValueKey :: "go_env \<Rightarrow> gval \<Rightarrow> string option" where
  "comparableValueKey env (VBool b) = Some (if b then ''bool:true'' else ''bool:false'')"
| "comparableValueKey env (VStr s) = Some (''string:'' @ s)"
| "comparableValueKey env (VInt i) = Some (''number:'' @ show_int i)"
| "comparableValueKey env (VFloat f) = normalizeFloatKey env f"
| "comparableValueKey env v = marshal_json env v"

fun isIntegerValue :: "gval \<Rightarrow> bool" where
  "isIntegerValue (VInt i) = True"
| "isIntegerValue (VFloat FNaN) = False"
| "isIntegerValue (VFloat (FInf b)) = True"
| "isIntegerValue (VFloat FNegZero) = True"
| "isIntegerValue (VFloat (FInt i)) = True"
| "isIntegerValue (VFloat (FFrac m k)) = False"
| "isIntegerValue v = False"

fun isNumberValue :: "gval \<Rightarrow> bool" where
  "isNumberValue (VInt i) = True"
| "isNumberValue (VFloat f) = True"
| "isNumberValue v = False"

fun isBoolValue :: "gval \<Rightarrow> bool" where
  "isBoolValue (VBool b) = True"
| "isBoolValue v = False"

fun isStringValue :: "gval \<Rightarrow> bool" where
  "isStringValue (VStr s) = True"
| "isStringValue v = False"

definition ValuesEqual :: "go_env \<Rightarrow> gval \<Rightarrow> gval \<Rightarrow> bool" where
  "ValuesEqual env left right =
     (case (comparableValueKey env left, comparableValueKey env right) of
        (Some leftKey, Some rightKey) \<Rightarrow> leftKey = rightKey
      | _ \<Rightarrow>
          (case (marshal_json env left, marshal_json env right) of
             (Some leftJSON, Some rightJSON) \<Rightarrow> leftJSON = rightJSON
           | _ \<Rightarrow> False))"

lemma env_ok_json: "env_ok env \<Longrightarrow> normalizeFloatKey env f = None \<Longrightarrow> marshal_json env (VFloat f) = None"
  by (cases f) (auto simp: env_ok_def)

lemma ValuesEqual_sym: "ValuesEqual env a b = ValuesEqual env b a"
  by (auto simp: ValuesEqual_def split: option.splits)

lemma ValuesEqual_keys:
  "comparableValueKey env a = Some k \<Longrightarrow> comparableValueKey env b = Some l \<Longrightarrow>
     ValuesEqual env a b \<longleftrightarrow> k = l"
  by (simp add: ValuesEqual_def)

lemma ValuesEqual_trans_key:
  "comparableValueKey env a = Some k \<Longrightarrow> comparableValueKey env b = Some k \<Longrightarrow> ValuesEqual env a b"
  by (simp add: ValuesEqual_def)

lemma isIntegerValue_isNumberValue: "isIntegerValue v \<Longrightarrow> isNumberValue v"
  by (cases v rule: isIntegerValue.cases) auto

lemma isBoolValue_key:
  "isBoolValue v \<Longrightarrow> comparableValueKey env v = Some ''bool:true'' \<or> comparableValueKey env v = Some ''bool:false''"
  by (cases v) auto

lemma isStringValue_key: "isStringValue v \<Longrightarrow> \<exists>s. v = VStr s \<and> comparableValueKey env v = Some (''string:'' @ s)"
  by (cases v) auto

end
