(* ===== verification/Schema.thy ===== *)
theory Schema
  imports Values
begin

text \<open>
  The JSON schemas of cli/internal/taskconfig: the type JSONSchema of config.go, the value check of
  schema_validate.go (ValidateValue), and the two checks of the schemas themselves
  (validateSchema, validateAgentStructuredOutputSchema).  A declarative reading of a schema
  (conforms) says what ValidateValue accepts.
\<close>

section \<open>The type\<close>

text \<open>
  A *JSONSchema is an option: None is the nil pointer.  A nil Properties map and an empty one behave
  alike (the code replaces the first by the second before it reads it), so both are the empty list.
\<close>

datatype JSONSchema = JSONSchema
  (Type: string)
  (AdditionalProperties: "bool option")
  (Required: "string list")
  (Properties: "(string \<times> JSONSchema option) list")
  (Items: "JSONSchema option")
  (Enum: "gval list")
  (OneOf: "JSONSchema option list")
  (MaxItems: "int option")
  (MinItems: "int option")

section \<open>ValidateValue\<close>

text \<open>A position in the value: $ followed by .key and [index] segments.\<close>

datatype path_seg = Field string | Index nat

type_synonym value_path = "path_seg list"

datatype value_error =
    HasNoSchema value_path
  | MatchesNoSchema value_path
  | MustBeObject value_path
  | IsRequired value_path string
  | NotAllowed value_path string
  | MustBeArray value_path
  | TooFewItems value_path int
  | TooManyItems value_path int
  | MustBeString value_path
  | MustBeBoolean value_path
  | MustBeInteger value_path
  | MustBeNumber value_path
  | UnsupportedType value_path string
  | MustBeOneOf value_path

fun missing_key :: "(string \<times> gval) list \<Rightarrow> string list \<Rightarrow> string option" where
  "missing_key obj [] = None"
| "missing_key obj (key # keys) =
     (if map_of obj key = None then Some key else missing_key obj keys)"

fun enum_error :: "go_env \<Rightarrow> gval list \<Rightarrow> gval \<Rightarrow> value_path \<Rightarrow> value_error option" where
  "enum_error env candidates value path =
     (if candidates \<noteq> [] \<and> \<not> list_ex (\<lambda>candidate. ValuesEqual env candidate value) candidates
      then Some (MustBeOneOf path) else None)"

definition scalar_error :: "go_env \<Rightarrow> string \<Rightarrow> gval list \<Rightarrow> gval \<Rightarrow> value_path \<Rightarrow> value_error option" where
  "scalar_error env ty candidates value path =
     (if ty = ''string'' then
        (if \<not> isStringValue value then Some (MustBeString path) else enum_error env candidates value path)
      else if ty = ''boolean'' then
        (if \<not> isBoolValue value then Some (MustBeBoolean path) else enum_error env candidates value path)
      else if ty = ''integer'' then
        (if \<not> isIntegerValue value then Some (MustBeInteger path) else enum_error env candidates value path)
      else if ty = ''number'' then
        (if \<not> isNumberValue value then Some (MustBeNumber path) else enum_error env candidates value path)
      else Some (UnsupportedType path ty))"

definition items_length_error :: "JSONSchema \<Rightarrow> gval list \<Rightarrow> value_path \<Rightarrow> value_error option" where
  "items_length_error schema items path =
     (case MinItems schema of
        Some n \<Rightarrow> if int (length items) < n then Some (TooFewItems path n) else
          (case MaxItems schema of
             Some m \<Rightarrow> if m < int (length items) then Some (TooManyItems path m) else None
           | None \<Rightarrow> None)
      | None \<Rightarrow>
          (case MaxItems schema of
             Some m \<Rightarrow> if m < int (length items) then Some (TooManyItems path m) else None
           | None \<Rightarrow> None))"

lemma size_oneOf: "OneOf schema \<noteq> [] \<Longrightarrow> size_list (size_option size) (OneOf schema) < size schema"
  by (cases schema) simp

text \<open>
  The switch of validateValue, its three loops as functions: over the alternatives of oneOf
  (validateOneOf), the entries of the object (validateEntries) and the items of the array
  (validateItems).
\<close>

function (sequential)
  validateValue :: "go_env \<Rightarrow> JSONSchema option \<Rightarrow> gval \<Rightarrow> value_path \<Rightarrow> value_error option"
  and validateOneOf :: "go_env \<Rightarrow> JSONSchema option list \<Rightarrow> gval \<Rightarrow> value_path \<Rightarrow> bool"
  and validateEntries ::
    "go_env \<Rightarrow> JSONSchema \<Rightarrow> (string \<times> gval) list \<Rightarrow> value_path \<Rightarrow> value_error option"
  and validateItems ::
    "go_env \<Rightarrow> JSONSchema option \<Rightarrow> gval list \<Rightarrow> nat \<Rightarrow> value_path \<Rightarrow> value_error option"
where
  "validateValue env None value path = Some (HasNoSchema path)"
| "validateValue env (Some schema) value path =
     (if OneOf schema \<noteq> [] then
        (if validateOneOf env (OneOf schema) value path then None else Some (MatchesNoSchema path))
      else if Type schema = ''object'' then
        (case value of
           VMap obj \<Rightarrow>
             (case missing_key obj (Required schema) of
                Some key \<Rightarrow> Some (IsRequired path key)
              | None \<Rightarrow> validateEntries env schema obj path)
         | _ \<Rightarrow> Some (MustBeObject path))
      else if Type schema = ''array'' then
        (case value of
           VList items \<Rightarrow>
             (case items_length_error schema items path of
                Some err \<Rightarrow> Some err
              | None \<Rightarrow> validateItems env (Items schema) items 0 path)
         | _ \<Rightarrow> Some (MustBeArray path))
      else scalar_error env (Type schema) (Enum schema) value path)"
| "validateOneOf env [] value path = False"
| "validateOneOf env (inner # rest) value path =
     (if validateValue env inner value path = None then True else validateOneOf env rest value path)"
| "validateEntries env schema [] path = None"
| "validateEntries env schema ((key, v) # obj) path =
     (case map_of (Properties schema) key of
        None \<Rightarrow>
          if AdditionalProperties schema = Some False then Some (NotAllowed path key)
          else validateEntries env schema obj path
      | Some child \<Rightarrow>
          (case validateValue env child v (path @ [Field key]) of
             Some err \<Rightarrow> Some err
           | None \<Rightarrow> validateEntries env schema obj path))"
| "validateItems env schema [] idx path = None"
| "validateItems env schema (item # items) idx path =
     (case validateValue env schema item (path @ [Index idx]) of
        Some err \<Rightarrow> Some err
      | None \<Rightarrow> validateItems env schema items (Suc idx) path)"
  by pat_completeness auto
termination
  by (relation "measures [\<lambda>x. case x of
        Inl (Inl (env, s, v, p)) \<Rightarrow> size v
      | Inl (Inr (env, ss, v, p)) \<Rightarrow> size v
      | Inr (Inl (env, s, obj, p)) \<Rightarrow> size_list (size_prod (\<lambda>_. 0) size) obj
      | Inr (Inr (env, s, vs, i, p)) \<Rightarrow> size_list size vs,
      \<lambda>x. case x of
        Inl (Inl (env, s, v, p)) \<Rightarrow> size_option size s
      | Inl (Inr (env, ss, v, p)) \<Rightarrow> size_list (size_option size) ss
      | _ \<Rightarrow> 0]")
    (auto simp: size_oneOf less_Suc_eq intro: size_oneOf)

declare validateValue.simps(2) [simp del]

definition ValidateValue :: "go_env \<Rightarrow> JSONSchema option \<Rightarrow> gval \<Rightarrow> value_error option" where
  "ValidateValue env schema value = validateValue env schema value []"

section \<open>Checking the schemas\<close>

text \<open>A position in a schema, below the label "node ... result_schema".\<close>

datatype schema_seg = Prop string | ItemsSeg | Alternative nat

type_synonym schema_path = "schema_seg list"

datatype schema_error =
    SchemaIsRequired schema_path
  | MustDeclareType schema_path
  | ItemsIsRequired schema_path
  | SchemaUnsupportedType schema_path string
  | CannotUseOneOf schema_path
  | MustForbidAdditional schema_path
  | MustRequireProperty schema_path string
  | RequiredNotInProperties schema_path string

definition scalar_types :: "string list" where
  "scalar_types = [''string'', ''boolean'', ''number'', ''integer'']"

lemma size_Items: "size_option size (Items schema) \<le> size schema"
  by (cases schema) simp

lemma size_Properties:
  "size_list (size_prod (\<lambda>_. 0) (size_option size)) (Properties schema) < size schema"
  by (cases schema) simp

lemma size_Items_less: "size_option size (Items schema) < Suc (size schema)"
  by (cases schema) simp

lemma size_OneOf_less: "size_list (size_option size) (OneOf schema) < Suc (size schema)"
  by (cases schema) simp

lemma size_Properties_less:
  "size_list (size_prod (\<lambda>_. 0) (size_option size)) (Properties schema) < Suc (size schema)"
  by (cases schema) simp

lemmas schema_sizes = size_Items_less size_OneOf_less size_Properties_less

function (sequential)
  validateSchema :: "schema_path \<Rightarrow> JSONSchema option \<Rightarrow> schema_error option"
  and validateAlternatives :: "schema_path \<Rightarrow> nat \<Rightarrow> JSONSchema option list \<Rightarrow> schema_error option"
  and validateProperties ::
    "schema_path \<Rightarrow> (string \<times> JSONSchema option) list \<Rightarrow> schema_error option"
where
  "validateSchema label None = Some (SchemaIsRequired label)"
| "validateSchema label (Some schema) =
     (if Type schema = [] \<and> OneOf schema = [] then Some (MustDeclareType label)
      else if OneOf schema \<noteq> [] then validateAlternatives label 0 (OneOf schema)
      else if Type schema = ''object'' then validateProperties label (Properties schema)
      else if Type schema = ''array'' then
        (if Items schema = None then Some (ItemsIsRequired label)
         else validateSchema (label @ [ItemsSeg]) (Items schema))
      else if Type schema \<in> set scalar_types then None
      else Some (SchemaUnsupportedType label (Type schema)))"
| "validateAlternatives label idx [] = None"
| "validateAlternatives label idx (inner # rest) =
     (case validateSchema (label @ [Alternative idx]) inner of
        Some err \<Rightarrow> Some err
      | None \<Rightarrow> validateAlternatives label (Suc idx) rest)"
| "validateProperties label [] = None"
| "validateProperties label ((key, child) # props) =
     (case validateSchema (label @ [Prop key]) child of
        Some err \<Rightarrow> Some err
      | None \<Rightarrow> validateProperties label props)"
  by pat_completeness auto

termination
  by (relation "measure (\<lambda>x. case x of
        Inl (l, s) \<Rightarrow> size_option size s
      | Inr (Inl (l, i, ss)) \<Rightarrow> size_list (size_option size) ss
      | Inr (Inr (l, ps)) \<Rightarrow> size_list (size_prod (\<lambda>_. 0) (size_option size)) ps)")
    (auto simp: schema_sizes)

function (sequential)
  validateAgentStructuredOutputSchema ::
    "go_env \<Rightarrow> schema_path \<Rightarrow> JSONSchema option \<Rightarrow> schema_error option"
  and validateAgentProperties ::
    "go_env \<Rightarrow> schema_path \<Rightarrow> (string \<times> JSONSchema option) list \<Rightarrow> schema_error option"
where
  "validateAgentStructuredOutputSchema env label None = Some (SchemaIsRequired label)"
| "validateAgentStructuredOutputSchema env label (Some schema) =
     (if OneOf schema \<noteq> [] then Some (CannotUseOneOf label)
      else if Type schema = ''object'' then
        (if AdditionalProperties schema \<noteq> Some False then Some (MustForbidAdditional label)
         else
           (case find (\<lambda>key. key \<notin> set (Required schema)) (map fst (Properties schema)) of
              Some key \<Rightarrow> Some (MustRequireProperty label key)
            | None \<Rightarrow>
                (case find (\<lambda>key. key \<notin> set (map fst (Properties schema)))
                        (map_order env (remdups (Required schema))) of
                   Some key \<Rightarrow> Some (RequiredNotInProperties label key)
                 | None \<Rightarrow> validateAgentProperties env label (Properties schema))))
      else if Type schema = ''array'' then
        (if Items schema = None then Some (ItemsIsRequired label)
         else validateAgentStructuredOutputSchema env (label @ [ItemsSeg]) (Items schema))
      else if Type schema \<in> set scalar_types then None
      else Some (SchemaUnsupportedType label (Type schema)))"
| "validateAgentProperties env label [] = None"
| "validateAgentProperties env label ((key, child) # props) =
     (case validateAgentStructuredOutputSchema env (label @ [Prop key]) child of
        Some err \<Rightarrow> Some err
      | None \<Rightarrow> validateAgentProperties env label props)"
  by pat_completeness auto
termination
  by (relation "measure (\<lambda>x. case x of
        Inl (e, l, s) \<Rightarrow> size_option size s
      | Inr (e, l, ps) \<Rightarrow> size_list (size_prod (\<lambda>_. 0) (size_option size)) ps)")
    (auto simp: schema_sizes)

section \<open>What a schema means\<close>

definition scalar_kind :: "string \<Rightarrow> gval \<Rightarrow> bool" where
  "scalar_kind ty v \<longleftrightarrow>
     (ty = ''string'' \<and> isStringValue v) \<or> (ty = ''boolean'' \<and> isBoolValue v) \<or>
     (ty = ''integer'' \<and> isIntegerValue v) \<or> (ty = ''number'' \<and> isNumberValue v)"

inductive conforms :: "go_env \<Rightarrow> JSONSchema \<Rightarrow> gval \<Rightarrow> bool" for env where
  conforms_oneOf:
    "Some t \<in> set (OneOf s) \<Longrightarrow> conforms env t v \<Longrightarrow> conforms env s v"
| conforms_object:
    "OneOf s = [] \<Longrightarrow> Type s = ''object'' \<Longrightarrow> set (Required s) \<subseteq> fst ` set obj \<Longrightarrow>
     \<forall>e\<in>set obj. (map_of (Properties s) (fst e) = None \<and> AdditionalProperties s \<noteq> Some False) \<or>
       (\<exists>t. map_of (Properties s) (fst e) = Some (Some t) \<and> conforms env t (snd e)) \<Longrightarrow>
     conforms env s (VMap obj)"
| conforms_array:
    "OneOf s = [] \<Longrightarrow> Type s = ''array'' \<Longrightarrow>
     \<forall>n. MinItems s = Some n \<longrightarrow> n \<le> int (length xs) \<Longrightarrow>
     \<forall>n. MaxItems s = Some n \<longrightarrow> int (length xs) \<le> n \<Longrightarrow>
     \<forall>x\<in>set xs. \<exists>t. Items s = Some t \<and> conforms env t x \<Longrightarrow>
     conforms env s (VList xs)"
| conforms_scalar:
    "OneOf s = [] \<Longrightarrow> scalar_kind (Type s) v \<Longrightarrow>
     Enum s = [] \<or> (\<exists>c\<in>set (Enum s). ValuesEqual env c v) \<Longrightarrow> conforms env s v"

lemma missing_key_None: "missing_key obj keys = None \<longleftrightarrow> set keys \<subseteq> fst ` set obj"
  by (induction keys) (auto simp: map_of_eq_None_iff)

lemma scalar_error_None:
  "scalar_error env ty cs v p = None \<longleftrightarrow>
     scalar_kind ty v \<and> (cs = [] \<or> (\<exists>c\<in>set cs. ValuesEqual env c v))"
  by (auto simp: scalar_error_def scalar_kind_def list_ex_iff)

lemma items_length_error_None:
  "items_length_error s xs p = None \<longleftrightarrow>
     (\<forall>n. MinItems s = Some n \<longrightarrow> n \<le> int (length xs)) \<and>
     (\<forall>n. MaxItems s = Some n \<longrightarrow> int (length xs) \<le> n)"
  by (auto simp: items_length_error_def split: option.splits)

definition entry_conforms :: "go_env \<Rightarrow> JSONSchema \<Rightarrow> string \<times> gval \<Rightarrow> bool" where
  "entry_conforms env s e \<longleftrightarrow>
     (map_of (Properties s) (fst e) = None \<and> AdditionalProperties s \<noteq> Some False) \<or>
     (\<exists>t. map_of (Properties s) (fst e) = Some (Some t) \<and> conforms env t (snd e))"

lemma conforms_by_type:
  assumes "OneOf s = []"
  shows "conforms env s v \<longleftrightarrow>
    (if Type s = ''object'' then
       (\<exists>obj. v = VMap obj \<and> set (Required s) \<subseteq> fst ` set obj \<and>
         (\<forall>e\<in>set obj. entry_conforms env s e))
     else if Type s = ''array'' then
       (\<exists>xs. v = VList xs \<and> (\<forall>n. MinItems s = Some n \<longrightarrow> n \<le> int (length xs)) \<and>
         (\<forall>n. MaxItems s = Some n \<longrightarrow> int (length xs) \<le> n) \<and>
         (\<forall>x\<in>set xs. \<exists>t. Items s = Some t \<and> conforms env t x))
     else scalar_kind (Type s) v \<and> (Enum s = [] \<or> (\<exists>c\<in>set (Enum s). ValuesEqual env c v)))"
  using assms
  by (subst conforms.simps) (auto simp: scalar_kind_def entry_conforms_def)

lemma conforms_by_oneOf:
  assumes "OneOf s \<noteq> []"
  shows "conforms env s v \<longleftrightarrow> (\<exists>t. Some t \<in> set (OneOf s) \<and> conforms env t v)"
  using assms by (subst conforms.simps) auto

lemma validate_sound_complete:
  "validateValue env so v p = None \<longleftrightarrow> (\<exists>s. so = Some s \<and> conforms env s v)"
  "validateOneOf env ss v p \<longleftrightarrow> (\<exists>s. Some s \<in> set ss \<and> conforms env s v)"
  "validateEntries env s obj p = None \<longleftrightarrow>
     (\<forall>e\<in>set obj. entry_conforms env s e)"
  "validateItems env so xs i p = None \<longleftrightarrow> (\<forall>x\<in>set xs. \<exists>t. so = Some t \<and> conforms env t x)"
proof (induction env so v p and env ss v p and env s obj p and env so xs i p
    rule: validateValue_validateOneOf_validateEntries_validateItems.induct)
  case (2 env schema x path)
  consider (one) "OneOf schema \<noteq> []"
    | (object) "OneOf schema = []" "Type schema = ''object''"
    | (array) "OneOf schema = []" "Type schema = ''array''"
    | (scalar) "OneOf schema = []" "Type schema \<noteq> ''object''" "Type schema \<noteq> ''array''"
    by blast
  then show ?case
  proof cases
    case one
    then show ?thesis using 2 by (simp add: validateValue.simps conforms_by_oneOf)
  next
    case object
    then show ?thesis using 2
      by (cases x) (simp_all add: validateValue.simps conforms_by_type flip: missing_key_None split: option.split)
  next
    case array
    then show ?thesis using 2 items_length_error_None [of schema "case x of VList xs \<Rightarrow> xs | _ \<Rightarrow> []" path]
      by (cases x) (auto simp: validateValue.simps conforms_by_type split: option.split)
  next
    case scalar
    then show ?thesis by (simp add: validateValue.simps conforms_by_type scalar_error_None)
  qed
next
  case (6 env schema key v obj path)
  then show ?case
    by (cases "map_of (Properties schema) key")
      (force simp: entry_conforms_def split: option.splits if_splits)+
qed (auto split: option.splits)

text \<open>
  C15: ValidateValue accepts a value exactly when the value has the shape the schema declares: it
  conforms to one of the alternatives of oneOf, or to the object, array or scalar the type names.
\<close>

theorem ValidateValue_iff_conforms:
  "ValidateValue env (Some s) v = None \<longleftrightarrow> conforms env s v"
  by (simp add: ValidateValue_def validate_sound_complete(1))

section \<open>What the schema checks give\<close>

lemma validateAlternatives_None:
  "validateAlternatives l i ss = None \<Longrightarrow> s \<in> set ss \<Longrightarrow> \<exists>l'. validateSchema l' s = None"
  by (induction ss arbitrary: i) (auto split: option.splits)

lemma validateProperties_None:
  "validateProperties l ps = None \<Longrightarrow> map_of ps k = Some c \<Longrightarrow> \<exists>l'. validateSchema l' c = None"
  by (induction ps) (auto split: option.splits if_splits)

definition schema_accepted :: "JSONSchema option \<Rightarrow> bool" where
  "schema_accepted so \<longleftrightarrow> (\<exists>l. validateSchema l so = None)"

lemma schema_accepted_None [simp]: "\<not> schema_accepted None"
  by (simp add: schema_accepted_def)

lemma schema_accepted_oneOf:
  "schema_accepted (Some s) \<Longrightarrow> t \<in> set (OneOf s) \<Longrightarrow> schema_accepted t"
  by (auto simp: schema_accepted_def split: if_splits dest: validateAlternatives_None)

lemma schema_accepted_property:
  "schema_accepted (Some s) \<Longrightarrow> OneOf s = [] \<Longrightarrow> Type s = ''object'' \<Longrightarrow>
     map_of (Properties s) k = Some c \<Longrightarrow> schema_accepted c"
  by (auto simp: schema_accepted_def split: if_splits dest: validateProperties_None)

lemma schema_accepted_items:
  "schema_accepted (Some s) \<Longrightarrow> OneOf s = [] \<Longrightarrow> Type s = ''array'' \<Longrightarrow> schema_accepted (Items s)"
  by (auto simp: schema_accepted_def split: if_splits)

lemma schema_accepted_type:
  "schema_accepted (Some s) \<Longrightarrow> OneOf s = [] \<Longrightarrow>
     Type s \<in> {''object'', ''array''} \<union> set scalar_types"
  by (auto simp: schema_accepted_def split: if_splits)

fun schema_fault :: "value_error \<Rightarrow> bool" where
  "schema_fault (HasNoSchema p) = True"
| "schema_fault (UnsupportedType p ty) = True"
| "schema_fault e = False"

lemma scalar_error_no_fault:
  "ty \<in> set scalar_types \<Longrightarrow> scalar_error env ty cs v p = Some e \<Longrightarrow> \<not> schema_fault e"
  by (auto simp: scalar_types_def scalar_error_def split: if_splits)

lemma items_length_error_no_fault:
  "items_length_error s xs p = Some e \<Longrightarrow> \<not> schema_fault e"
  by (auto simp: items_length_error_def split: option.splits if_splits)

lemma validate_no_fault:
  "schema_accepted so \<Longrightarrow> validateValue env so v p = Some e \<Longrightarrow> \<not> schema_fault e"
  "validateOneOf env ss v p \<Longrightarrow> True"
  "schema_accepted (Some s) \<Longrightarrow> OneOf s = [] \<Longrightarrow> Type s = ''object'' \<Longrightarrow>
     validateEntries env s obj p = Some e \<Longrightarrow> \<not> schema_fault e"
  "schema_accepted so \<Longrightarrow> validateItems env so xs i p = Some e \<Longrightarrow> \<not> schema_fault e"
proof (induction env so v p and env ss v p and env s obj p and env so xs i p
    arbitrary: e and and e and e
    rule: validateValue_validateOneOf_validateEntries_validateItems.induct)
  case (2 env schema x path)
  consider (one) "OneOf schema \<noteq> []"
    | (object) "OneOf schema = []" "Type schema = ''object''"
    | (array) "OneOf schema = []" "Type schema = ''array''"
    | (scalar) "OneOf schema = []" "Type schema \<in> set scalar_types"
      "Type schema \<noteq> ''object''" "Type schema \<noteq> ''array''"
    using schema_accepted_type [OF "2.prems"(1)] by auto
  then show ?case
  proof cases
    case one
    then show ?thesis using 2 by (auto simp: validateValue.simps split: if_splits)
  next
    case object
    then show ?thesis using 2
      by (cases x) (auto simp: validateValue.simps split: option.splits)
  next
    case array
    then show ?thesis using 2 schema_accepted_items [of schema]
      by (cases x) (auto simp: validateValue.simps items_length_error_no_fault split: option.splits)
  next
    case scalar
    then show ?thesis using "2.prems"(2) by (auto simp: validateValue.simps dest: scalar_error_no_fault)
  qed
next
  case (6 env schema key v obj path)
  then show ?case
    by (auto split: option.splits if_splits dest: schema_accepted_property)
qed (auto split: option.splits)

text \<open>
  A schema that validateSchema accepts never makes ValidateValue fail for a fault of the schema
  itself (a missing schema or an unsupported type), whatever value it is given: every error is one
  of the value.
\<close>

theorem accepted_schema_has_no_faults:
  assumes "validateSchema label (Some s) = None" and "ValidateValue env (Some s) v = Some e"
  shows "\<not> schema_fault e"
    using validate_no_fault(1) [of "Some s" env v "[]" e] assms
  by (auto simp: schema_accepted_def ValidateValue_def simp del: validateSchema.simps)

definition approval_schema :: JSONSchema where
  "approval_schema =
     JSONSchema ''object'' (Some False) [''approved'']
       [(''approved'', Some (JSONSchema ''boolean'' None [] [] None [] [] None None))]
       None [] [] None None"

theorem accepted_schema_has_no_faults_witness:
  "\<not> schema_fault (IsRequired [] ''approved'')"
  by (rule accepted_schema_has_no_faults [of "[]" approval_schema plain_env "VMap []"])
    (simp_all add: approval_schema_def ValidateValue_def validateValue.simps scalar_types_def)

lemma agent_schema_object:
  assumes "validateAgentStructuredOutputSchema env l (Some s) = None" "Type s = ''object''"
  shows "OneOf s = []" "AdditionalProperties s = Some False"
    "env_ok env \<Longrightarrow> set (Required s) = fst ` set (Properties s)"
  using assms by (auto split: if_splits option.splits simp: find_None_iff env_ok_set)

text \<open>
  A value that conforms to an object schema accepted for agent output carries every declared
  property and no other one, so a condition on a declared field finds it.
\<close>

theorem agent_output_has_exactly_the_declared_keys:
  assumes "env_ok env" and "validateAgentStructuredOutputSchema env label (Some s) = None"
    and "Type s = ''object''" and "ValidateValue env (Some s) (VMap obj) = None"
  shows "fst ` set obj = fst ` set (Properties s)"
proof -
  note s = agent_schema_object [OF assms(2,3)]
  from assms(4) have "conforms env s (VMap obj)" 
    by (simp add: ValidateValue_def validate_sound_complete(1))
  with s(1) assms(3) have c: "set (Required s) \<subseteq> fst ` set obj" "\<forall>e\<in>set obj. entry_conforms env s e"
    by (auto simp: conforms_by_type)
  have "fst ` set obj \<subseteq> fst ` set (Properties s)"
    using c(2) s(2) by (force simp: entry_conforms_def dest: map_of_SomeD)
  with c(1) s(3) [OF assms(1)] show ?thesis by simp
qed

theorem agent_output_has_exactly_the_declared_keys_witness:
  "fst ` set [(''approved'', VBool True)] = fst ` set (Properties approval_schema)"
  by (rule agent_output_has_exactly_the_declared_keys [of plain_env "[]"])
    (simp_all add: approval_schema_def ValidateValue_def validateValue.simps scalar_types_def
      scalar_error_def plain_env_def env_ok_def)

end
