(* ===== verification/TaskConfig.thy ===== *)
theory TaskConfig
  imports Schema
begin

text \<open>
  Task configurations (cli/internal/taskconfig/config.go): the types, the decoding steps after YAML
  (validateRawConfig, toConfig, applyDefaults), the validator Validate with its edge-group and
  condition checks, and the resolution of runtimes.  A validated configuration is well formed.
\<close>

section \<open>Types\<close>

text \<open>The string enumerations: a constructor per constant, and one for any other string.\<close>

datatype NodeType = NodeTypeUnset | NodeTypeAgent | NodeTypeHuman | NodeTypeTerminal | NodeTypeOther string

datatype Join = JoinUnset | JoinAll | JoinAny | JoinOther string

datatype EdgeConditionKind = ConditionNone | ConditionWhen | ConditionElse | ConditionOther string

record ClarificationConfig =
  MaxQuestions :: int
  MaxOptionsPerQuestion :: int
  MinOptionsPerQuestion :: int

record NodeRef =
  RefName :: string
  RefMaxIterations :: int
  RefJoin :: Join

record EdgeCondition =
  Kind :: EdgeConditionKind
  CondField :: string
  Equals :: gval

record Edge =
  From :: string
  To :: string
  When :: EdgeCondition

record Topology =
  MaxIterations :: int
  Entry :: string
  Nodes :: "NodeRef list"
  Edges :: "Edge list"

record NodeDefinition =
  DefType :: NodeType
  SystemPrompt :: string
  MaxClarificationRounds :: int
  DefRuntime :: string
  DefModel :: string
  DefThinkingLevel :: string
  ResultSchema :: JSONSchema

record Config =
  Version :: int
  Description :: string
  Runtime :: string
  Model :: string
  ThinkingLevel :: string
  Clarification :: ClarificationConfig
  Topo :: Topology
  NodeDefinitions :: "(string, NodeDefinition) gomap"

text \<open>The zero values the code falls back to when a lookup finds nothing.\<close>

definition zero_schema :: JSONSchema where
  "zero_schema = JSONSchema [] None [] [] None [] [] None None"

definition zero_definition :: NodeDefinition where
  "zero_definition =
     \<lparr>DefType = NodeTypeUnset, SystemPrompt = [], MaxClarificationRounds = 0, DefRuntime = [],
      DefModel = [], DefThinkingLevel = [], ResultSchema = zero_schema\<rparr>"

definition zero_ref :: NodeRef where
  "zero_ref = \<lparr>RefName = [], RefMaxIterations = 0, RefJoin = JoinUnset\<rparr>"

definition node_definition :: "Config \<Rightarrow> string \<Rightarrow> NodeDefinition" where
  "node_definition cfg name =
     (case map_of (NodeDefinitions cfg) name of None \<Rightarrow> zero_definition | Some d \<Rightarrow> d)"

text \<open>topology_helpers.go\<close>

definition topology_node :: "Topology \<Rightarrow> string \<Rightarrow> NodeRef" where
  "topology_node t name =
     (case find (\<lambda>node. RefName node = name) (Nodes t) of None \<Rightarrow> zero_ref | Some node \<Rightarrow> node)"

definition JoinOrDefault :: "NodeRef \<Rightarrow> Join" where
  "JoinOrDefault n = (if RefJoin n = JoinUnset then JoinAll else RefJoin n)"

section \<open>Edge conditions in YAML\<close>

text \<open>
  A yaml.Node, of which the code reads the kind, the scalar value and the values of the content
  nodes; Decode (of the YAML package) is the argument decode of UnmarshalYAML.
\<close>

datatype YamlKind = ZeroNode | ScalarNode | MappingNode | OtherNode

record YamlNode =
  YKind :: YamlKind
  YValue :: string
  YContent :: "string list"

datatype condition_error =
    UnsupportedScalar string
  | NotMappingOrElse
  | UnsupportedConditionField string
  | DecodeError

fun keys_at_even :: "string list \<Rightarrow> string list" where
  "keys_at_even [] = []"
| "keys_at_even [k] = [k]"
| "keys_at_even (k # v # rest) = k # keys_at_even rest"

definition zero_condition :: EdgeCondition where
  "zero_condition = \<lparr>Kind = ConditionNone, CondField = [], Equals = VNil\<rparr>"

definition UnmarshalYAML ::
  "(YamlNode \<Rightarrow> (string \<times> gval) option) \<Rightarrow> YamlNode \<Rightarrow> condition_error + EdgeCondition" where
  "UnmarshalYAML decode node =
     (if YKind node = ZeroNode then Inr zero_condition
      else if YKind node = ScalarNode then
        (if YValue node \<noteq> ''else'' then Inl (UnsupportedScalar (YValue node))
         else Inr (zero_condition\<lparr>Kind := ConditionElse\<rparr>))
      else if YKind node \<noteq> MappingNode then Inl NotMappingOrElse
      else
        (case find (\<lambda>key. key \<notin> {''field'', ''equals''}) (keys_at_even (YContent node)) of
           Some key \<Rightarrow> Inl (UnsupportedConditionField key)
         | None \<Rightarrow>
             (case decode node of
                None \<Rightarrow> Inl DecodeError
              | Some (field, equals) \<Rightarrow>
                  Inr \<lparr>Kind = ConditionWhen, CondField = field, Equals = equals\<rparr>)))"

definition MarshalYAML :: "EdgeCondition \<Rightarrow> gval" where
  "MarshalYAML c =
     (case Kind c of
        ConditionElse \<Rightarrow> VStr ''else''
      | ConditionWhen \<Rightarrow> VMap [(''field'', VStr (CondField c)), (''equals'', Equals c)]
      | _ \<Rightarrow> VNil)"

section \<open>Raw configurations\<close>

record rawClarificationConfig =
  rawMaxQuestions :: "int option"
  rawMaxOptionsPerQuestion :: "int option"
  rawMinOptionsPerQuestion :: "int option"

record rawNodeRef =
  rawRefName :: string
  rawRefMaxIterations :: "int option"
  rawRefJoin :: Join

record rawTopology =
  rawMaxIterations :: "int option"
  rawEntry :: string
  rawNodes :: "rawNodeRef list"
  rawEdges :: "Edge list"

record rawNodeDefinition =
  rawType :: NodeType
  rawSystemPrompt :: "string option"
  rawMaxClarificationRounds :: "int option"
  rawDefRuntime :: "string option"
  rawDefModel :: "string option"
  rawDefThinkingLevel :: "string option"
  rawResultSchema :: JSONSchema

record rawConfig =
  rawVersion :: "int option"
  rawDescription :: "string option"
  rawRuntime :: "string option"
  rawModel :: "string option"
  rawThinkingLevel :: "string option"
  rawClarification :: "rawClarificationConfig option"
  rawTopo :: "rawTopology option"
  rawNodeDefinitions :: "(string, rawNodeDefinition) gomap"

section \<open>Errors\<close>

text \<open>One type per check; the names of the offending nodes and edges are the arguments.\<close>

datatype raw_error =
    VersionRequired
  | TopologyRequired
  | RawMaxIterationsNotPositive
  | RawMaxQuestionsNotPositive
  | RawMaxOptionsNotPositive
  | RawMinOptionsNotPositive
  | RawOptionBoundsInvalid
  | RawNodeIterationsNotPositive string
  | HumanDefinesSystemPrompt string
  | HumanDefinesClarificationRounds string
  | NonAgentDefinesRuntime string
  | NonAgentDefinesModel string
  | NonAgentDefinesThinkingLevel string

datatype definition_error =
    InvalidNodeType
  | TerminalDefinesSystemPrompt
  | TerminalDefinesClarificationRounds
  | AgentNeedsSystemPrompt
  | HumanHasSystemPrompt
  | HumanHasClarificationRounds
  | ResultSchemaNotRootObject
  | ResultSchemaAllowsAdditional
  | ResultSchemaReservesType
  | BadResultSchema schema_error

datatype condition_field_error =
    ConditionNeedsRootObject
  | ConditionFieldMissing
  | ConditionFieldUsesOneOf
  | ConditionFieldNotScalar

datatype equals_error =
    EqualsNotBoolean
  | EqualsNotString
  | EqualsNotInteger
  | EqualsNotNumber
  | UnsupportedConditionFieldType string

datatype group_error =
    MultipleElseEdges
  | EmptyWhenField string
  | DifferentConditionFields
  | BadConditionField condition_field_error
  | BadEqualsValue equals_error
  | EqualsNotComparable
  | DuplicateBranch
  | InvalidConditionKind string
  | MixesConditions
  | ElseWithoutConditions
  | BooleanNotCovered
  | EnumNotComparable
  | EnumNotCovered
  | OpenDomainNeedsElse

datatype topology_error =
    EntryNotDeclared string
  | NodesRequired
  | NodeNameRequired
  | DuplicateNode string
  | InvalidJoin string
  | NegativeNodeIterations string
  | EdgeFromNotDeclared string
  | EdgeToNotDeclared string
  | EdgeValueNotComparable
  | DuplicateEdge string string
  | JoinNeedsTwoEdges string
  | TerminalHasOutgoing string
  | AgentHasNoOutgoing string
  | NoTerminalNode

datatype config_error =
    YamlDecodeError
  | BadRawConfig raw_error
  | UnsupportedVersion int
  | RuntimeNotSupported string
  | EntryRequired
  | MaxIterationsNotPositive
  | OptionBoundsInvalid
  | MaxQuestionsNotPositive
  | BadTopology topology_error
  | NodeDefinitionsRequired
  | MissingNodeDefinition string
  | BadNodeDefinition string definition_error
  | NodeRuntimeNotSupported string string
  | DefinitionNotDeclared string
  | BadEdgeGroup string group_error

end
