(* ===== verification/Validate.thy ===== *)
theory Validate
  imports TaskConfig
begin

text \<open>
  The validator of task configurations (cli/internal/taskconfig/config.go): validateRawConfig,
  toConfig, applyDefaults, Validate and its helpers, parse, ResolveRuntime and
  ResolveNodeExecution.
\<close>

section \<open>Runtimes (cli/internal/config/config.go)\<close>

definition supported_runtimes :: "string list" where
  "supported_runtimes =
     [''claude-code'', ''codex'', ''copilot'', ''gemini'', ''goose'', ''opencode'']"

definition IsSupportedRuntime :: "string \<Rightarrow> bool" where
  "IsSupportedRuntime rid \<longleftrightarrow> rid \<in> set supported_runtimes"

definition DetectPreferredRuntime :: "(string \<Rightarrow> bool) \<Rightarrow> string \<times> bool" where
  "DetectPreferredRuntime lookPath =
     (if lookPath ''codex'' then (''codex'', True)
      else if lookPath ''claude'' then (''claude-code'', True)
      else (''codex'', False))"

definition PreferredRuntimeFromPATH :: "go_env \<Rightarrow> string" where
  "PreferredRuntimeFromPATH env = fst (DetectPreferredRuntime (look_path env))"

lemma preferred_supported [simp]: "IsSupportedRuntime (PreferredRuntimeFromPATH env)"
  by (simp add: PreferredRuntimeFromPATH_def DetectPreferredRuntime_def IsSupportedRuntime_def
      supported_runtimes_def)

lemma supported_not_blank: "IsSupportedRuntime r \<Longrightarrow> r \<noteq> []"
  by (auto simp: IsSupportedRuntime_def supported_runtimes_def)

definition ResolveRuntime :: "go_env \<Rightarrow> Config option \<Rightarrow> config_error + string" where
  "ResolveRuntime env cfg =
     (case cfg of
        Some c \<Rightarrow>
          if Runtime c \<noteq> [] then
            (if \<not> IsSupportedRuntime (Runtime c) then Inl (RuntimeNotSupported (Runtime c))
             else Inr (Runtime c))
          else Inr (PreferredRuntimeFromPATH env)
      | None \<Rightarrow> Inr (PreferredRuntimeFromPATH env))"

record NodeExecution =
  ExecRuntime :: string
  ExecModel :: string
  ExecThinkingLevel :: string

definition overlay :: "string \<Rightarrow> string \<Rightarrow> string" where
  "overlay base override = (if \<not> is_blank override then override else base)"

definition ResolveNodeExecution ::
  "go_env \<Rightarrow> Config option \<Rightarrow> string \<Rightarrow> config_error + NodeExecution" where
  "ResolveNodeExecution env cfg nodeName =
     (let exec =
        (case cfg of
           None \<Rightarrow> \<lparr>ExecRuntime = [], ExecModel = [], ExecThinkingLevel = []\<rparr>
         | Some c \<Rightarrow>
             (case map_of (NodeDefinitions c) nodeName of
                None \<Rightarrow>
                  \<lparr>ExecRuntime = Runtime c, ExecModel = Model c, ExecThinkingLevel = ThinkingLevel c\<rparr>
              | Some def \<Rightarrow>
                  \<lparr>ExecRuntime = overlay (Runtime c) (DefRuntime def),
                   ExecModel = overlay (Model c) (DefModel def),
                   ExecThinkingLevel = overlay (ThinkingLevel c) (DefThinkingLevel def)\<rparr>));
          exec = (if is_blank (ExecRuntime exec)
                  then exec\<lparr>ExecRuntime := PreferredRuntimeFromPATH env\<rparr> else exec)
      in if \<not> IsSupportedRuntime (ExecRuntime exec) then Inl (RuntimeNotSupported (ExecRuntime exec))
         else Inr exec)"

section \<open>validateRawConfig and toConfig\<close>

definition not_positive :: "int option \<Rightarrow> bool" where
  "not_positive x \<longleftrightarrow> (case x of None \<Rightarrow> False | Some n \<Rightarrow> n \<le> 0)"

definition validateRawClarification :: "rawClarificationConfig \<Rightarrow> raw_error option" where
  "validateRawClarification c =
     (if not_positive (rawMaxQuestions c) then Some RawMaxQuestionsNotPositive
      else if not_positive (rawMaxOptionsPerQuestion c) then Some RawMaxOptionsNotPositive
      else if not_positive (rawMinOptionsPerQuestion c) then Some RawMinOptionsNotPositive
      else
        (case (rawMaxOptionsPerQuestion c, rawMinOptionsPerQuestion c) of
           (Some mx, Some mn) \<Rightarrow> if mx < mn then Some RawOptionBoundsInvalid else None
         | _ \<Rightarrow> None))"

fun validateRawNodes :: "rawNodeRef list \<Rightarrow> raw_error option" where
  "validateRawNodes [] = None"
| "validateRawNodes (node # nodes) =
     (if not_positive (rawRefMaxIterations node) then Some (RawNodeIterationsNotPositive (rawRefName node))
      else validateRawNodes nodes)"

fun validateRawDefinitions :: "(string, rawNodeDefinition) gomap \<Rightarrow> raw_error option" where
  "validateRawDefinitions [] = None"
| "validateRawDefinitions ((name, def) # defs) =
     (if rawType def = NodeTypeHuman \<and> rawSystemPrompt def \<noteq> None then
        Some (HumanDefinesSystemPrompt name)
      else if rawType def = NodeTypeHuman \<and> rawMaxClarificationRounds def \<noteq> None then
        Some (HumanDefinesClarificationRounds name)
      else if rawType def \<in> {NodeTypeHuman, NodeTypeTerminal} \<and> rawDefRuntime def \<noteq> None then
        Some (NonAgentDefinesRuntime name)
      else if rawType def \<in> {NodeTypeHuman, NodeTypeTerminal} \<and> rawDefModel def \<noteq> None then
        Some (NonAgentDefinesModel name)
      else if rawType def \<in> {NodeTypeHuman, NodeTypeTerminal} \<and> rawDefThinkingLevel def \<noteq> None then
        Some (NonAgentDefinesThinkingLevel name)
      else validateRawDefinitions defs)"

definition validateRawConfig :: "rawConfig \<Rightarrow> raw_error option" where
  "validateRawConfig raw =
     (if rawVersion raw = None then Some VersionRequired
      else
        (case rawTopo raw of
           None \<Rightarrow> Some TopologyRequired
         | Some topo \<Rightarrow>
             if not_positive (rawMaxIterations topo) then Some RawMaxIterationsNotPositive
             else
               (case Option.bind (rawClarification raw) validateRawClarification of
                  Some err \<Rightarrow> Some err
                | None \<Rightarrow>
                    (case validateRawNodes (rawNodes topo) of
                       Some err \<Rightarrow> Some err
                     | None \<Rightarrow> validateRawDefinitions (rawNodeDefinitions raw)))))"

definition or_zero :: "int option \<Rightarrow> int" where
  "or_zero x = (case x of None \<Rightarrow> 0 | Some n \<Rightarrow> n)"

definition or_empty :: "string option \<Rightarrow> string" where
  "or_empty x = (case x of None \<Rightarrow> [] | Some s \<Rightarrow> s)"

definition toNodeRef :: "rawNodeRef \<Rightarrow> NodeRef" where
  "toNodeRef node =
     \<lparr>RefName = rawRefName node, RefMaxIterations = or_zero (rawRefMaxIterations node),
      RefJoin = rawRefJoin node\<rparr>"

definition toNodeDefinition :: "rawNodeDefinition \<Rightarrow> NodeDefinition" where
  "toNodeDefinition def =
     \<lparr>DefType = rawType def, SystemPrompt = or_empty (rawSystemPrompt def),
      MaxClarificationRounds = or_zero (rawMaxClarificationRounds def),
      DefRuntime = or_empty (rawDefRuntime def), DefModel = or_empty (rawDefModel def),
      DefThinkingLevel = or_empty (rawDefThinkingLevel def), ResultSchema = rawResultSchema def\<rparr>"

definition toConfig :: "rawConfig \<Rightarrow> Config" where
  "toConfig raw =
     \<lparr>Version = or_zero (rawVersion raw), Description = or_empty (rawDescription raw),
      Runtime = or_empty (rawRuntime raw), Model = or_empty (rawModel raw),
      ThinkingLevel = or_empty (rawThinkingLevel raw),
      Clarification =
        (case rawClarification raw of
           None \<Rightarrow> \<lparr>MaxQuestions = 0, MaxOptionsPerQuestion = 0, MinOptionsPerQuestion = 0\<rparr>
         | Some c \<Rightarrow>
             \<lparr>MaxQuestions = or_zero (rawMaxQuestions c),
              MaxOptionsPerQuestion = or_zero (rawMaxOptionsPerQuestion c),
              MinOptionsPerQuestion = or_zero (rawMinOptionsPerQuestion c)\<rparr>),
      Topo =
        (case rawTopo raw of
           None \<Rightarrow> \<lparr>MaxIterations = 0, Entry = [], Nodes = [], Edges = []\<rparr>
         | Some t \<Rightarrow>
             \<lparr>MaxIterations = or_zero (rawMaxIterations t), Entry = rawEntry t,
              Nodes = map toNodeRef (rawNodes t), Edges = rawEdges t\<rparr>),
      NodeDefinitions = map (\<lambda>(name, def). (name, toNodeDefinition def)) (rawNodeDefinitions raw)\<rparr>"

definition default_int :: "int \<Rightarrow> int \<Rightarrow> int" where
  "default_int d x = (if x = 0 then d else x)"

definition applyDefaults :: "go_env \<Rightarrow> Config \<Rightarrow> Config" where
  "applyDefaults env cfg = cfg\<lparr>
     Runtime := (if is_blank (Runtime cfg) then PreferredRuntimeFromPATH env else Runtime cfg),
     Clarification :=
       \<lparr>MaxQuestions = default_int 4 (MaxQuestions (Clarification cfg)),
        MaxOptionsPerQuestion = default_int 4 (MaxOptionsPerQuestion (Clarification cfg)),
        MinOptionsPerQuestion = default_int 2 (MinOptionsPerQuestion (Clarification cfg))\<rparr>,
     Topo := (Topo cfg)\<lparr>MaxIterations := default_int 5 (MaxIterations (Topo cfg))\<rparr>,
     NodeDefinitions :=
       map (\<lambda>(name, def). (name, if DefType def = NodeTypeUnset then def\<lparr>DefType := NodeTypeAgent\<rparr> else def))
         (NodeDefinitions cfg)\<rparr>"

section \<open>Node definitions\<close>

definition validateNodeDefinition :: "go_env \<Rightarrow> NodeDefinition \<Rightarrow> definition_error option" where
  "validateNodeDefinition env def =
     (if DefType def \<notin> {NodeTypeAgent, NodeTypeHuman, NodeTypeTerminal} then Some InvalidNodeType
      else if DefType def = NodeTypeTerminal then
        (if \<not> is_blank (SystemPrompt def) then Some TerminalDefinesSystemPrompt
         else if 0 < MaxClarificationRounds def then Some TerminalDefinesClarificationRounds
         else None)
      else if DefType def = NodeTypeAgent \<and> is_blank (SystemPrompt def) then Some AgentNeedsSystemPrompt
      else if DefType def = NodeTypeHuman \<and> \<not> is_blank (SystemPrompt def) then Some HumanHasSystemPrompt
      else if DefType def = NodeTypeHuman \<and> 0 < MaxClarificationRounds def then
        Some HumanHasClarificationRounds
      else if Type (ResultSchema def) \<noteq> ''object'' \<or> OneOf (ResultSchema def) \<noteq> [] then
        Some ResultSchemaNotRootObject
      else if AdditionalProperties (ResultSchema def) \<noteq> Some False then Some ResultSchemaAllowsAdditional
      else if map_of (Properties (ResultSchema def)) ''type'' \<noteq> None then Some ResultSchemaReservesType
      else
        (case validateSchema [] (Some (ResultSchema def)) of
           Some err \<Rightarrow> Some (BadResultSchema err)
         | None \<Rightarrow>
             if DefType def = NodeTypeAgent then
               map_option BadResultSchema
                 (validateAgentStructuredOutputSchema env [] (Some (ResultSchema def)))
             else None))"

section \<open>Edge groups\<close>

definition kind_text :: "EdgeConditionKind \<Rightarrow> string" where
  "kind_text k =
     (case k of ConditionNone \<Rightarrow> [] | ConditionWhen \<Rightarrow> ''when'' | ConditionElse \<Rightarrow> ''else''
      | ConditionOther s \<Rightarrow> s)"

definition semanticEdgeKey :: "go_env \<Rightarrow> Edge \<Rightarrow> string option" where
  "semanticEdgeKey env edge =
     (let key = From edge @ ''|'' @ To edge @ ''|'' @ kind_text (Kind (When edge)) @ ''|'' @
                CondField (When edge) @ ''|''
      in if Kind (When edge) \<noteq> ConditionWhen then Some key
         else map_option (\<lambda>valueKey. key @ valueKey) (comparableValueKey env (Equals (When edge))))"

definition conditionalFieldSchema ::
  "JSONSchema \<Rightarrow> string \<Rightarrow> condition_field_error + JSONSchema" where
  "conditionalFieldSchema root field =
     (if Type root \<noteq> ''object'' \<or> OneOf root \<noteq> [] then Inl ConditionNeedsRootObject
      else
        (case map_of (Properties root) field of
           Some (Some child) \<Rightarrow>
             if OneOf child \<noteq> [] then Inl ConditionFieldUsesOneOf
             else if Type child \<in> {''boolean'', ''string'', ''integer'', ''number''} then Inr child
             else Inl ConditionFieldNotScalar
         | _ \<Rightarrow> Inl ConditionFieldMissing))"

definition validateConditionValueType :: "gval \<Rightarrow> JSONSchema \<Rightarrow> equals_error option" where
  "validateConditionValueType v schema =
     (if Type schema = ''boolean'' then (if \<not> isBoolValue v then Some EqualsNotBoolean else None)
      else if Type schema = ''string'' then (if \<not> isStringValue v then Some EqualsNotString else None)
      else if Type schema = ''integer'' then (if \<not> isIntegerValue v then Some EqualsNotInteger else None)
      else if Type schema = ''number'' then (if \<not> isNumberValue v then Some EqualsNotNumber else None)
      else Some (UnsupportedConditionFieldType (Type schema)))"

fun enumCovered :: "go_env \<Rightarrow> string list \<Rightarrow> gval list \<Rightarrow> group_error option" where
  "enumCovered env seen [] = None"
| "enumCovered env seen (candidate # candidates) =
     (case comparableValueKey env candidate of
        None \<Rightarrow> Some EnumNotComparable
      | Some key \<Rightarrow> if key \<notin> set seen then Some EnumNotCovered else enumCovered env seen candidates)"

definition validateConditionExhaustiveness ::
  "go_env \<Rightarrow> JSONSchema \<Rightarrow> string list \<Rightarrow> bool \<Rightarrow> group_error option" where
  "validateConditionExhaustiveness env schema seen hasElse =
     (if Type schema = ''boolean'' then
        (if hasElse then None
         else if ''bool:true'' \<notin> set seen then Some BooleanNotCovered
         else if ''bool:false'' \<notin> set seen then Some BooleanNotCovered
         else None)
      else if Type schema \<in> {''string'', ''integer'', ''number''} then
        (if Enum schema \<noteq> [] then
           (if hasElse then None else enumCovered env seen (Enum schema))
         else if \<not> hasElse then Some OpenDomainNeedsElse
         else None)
      else None)"

text \<open>The state of validateEdgeGroup's loop; the keys of seenEquals are a list.\<close>

record group_state =
  gUnconditional :: bool
  gConditional :: bool
  gElseCount :: nat
  gField :: string
  gSeenEquals :: "string list"
  gHasElse :: bool

definition init_group :: group_state where
  "init_group = \<lparr>gUnconditional = False, gConditional = False, gElseCount = 0, gField = [],
                 gSeenEquals = [], gHasElse = False\<rparr>"

definition group_when ::
  "go_env \<Rightarrow> NodeDefinition \<Rightarrow> Edge \<Rightarrow> group_state \<Rightarrow> group_error + group_state" where
  "group_when env def edge state =
     (if CondField (When edge) = [] then Inl (EmptyWhenField (To edge))
      else if gField state \<noteq> [] \<and> gField state \<noteq> CondField (When edge) then Inl DifferentConditionFields
      else
        (case conditionalFieldSchema (ResultSchema def) (CondField (When edge)) of
           Inl err \<Rightarrow> Inl (BadConditionField err)
         | Inr fieldSchema \<Rightarrow>
             (case validateConditionValueType (Equals (When edge)) fieldSchema of
                Some err \<Rightarrow> Inl (BadEqualsValue err)
              | None \<Rightarrow>
                  (case comparableValueKey env (Equals (When edge)) of
                     None \<Rightarrow> Inl EqualsNotComparable
                   | Some key \<Rightarrow>
                       if key \<in> set (gSeenEquals state) then Inl DuplicateBranch
                       else Inr (state\<lparr>gConditional := True, gField := CondField (When edge),
                                       gSeenEquals := gSeenEquals state @ [key]\<rparr>)))))"

definition group_step ::
  "go_env \<Rightarrow> NodeDefinition \<Rightarrow> Edge \<Rightarrow> group_state \<Rightarrow> group_error + group_state" where
  "group_step env def edge state =
     (case (case Kind (When edge) of
              ConditionNone \<Rightarrow> Inr (state\<lparr>gUnconditional := True\<rparr>)
            | ConditionElse \<Rightarrow>
                if 1 < Suc (gElseCount state) then Inl MultipleElseEdges
                else Inr (state\<lparr>gConditional := True, gElseCount := Suc (gElseCount state),
                                gHasElse := True\<rparr>)
            | ConditionWhen \<Rightarrow> group_when env def edge state
            | ConditionOther k \<Rightarrow> Inl (InvalidConditionKind (To edge))) of
        Inl err \<Rightarrow> Inl err
      | Inr state' \<Rightarrow>
          if gUnconditional state' \<and> gConditional state' then Inl MixesConditions else Inr state')"

fun group_loop ::
  "go_env \<Rightarrow> NodeDefinition \<Rightarrow> Edge list \<Rightarrow> group_state \<Rightarrow> group_error + group_state" where
  "group_loop env def [] state = Inr state"
| "group_loop env def (edge # edges) state =
     (case group_step env def edge state of
        Inl err \<Rightarrow> Inl err
      | Inr state' \<Rightarrow> group_loop env def edges state')"

definition validateEdgeGroup :: "go_env \<Rightarrow> Edge list \<Rightarrow> NodeDefinition \<Rightarrow> group_error option" where
  "validateEdgeGroup env edges def =
     (case group_loop env def edges init_group of
        Inl err \<Rightarrow> Some err
      | Inr state \<Rightarrow>
          if gConditional state \<and> gSeenEquals state = [] then Some ElseWithoutConditions
          else if gConditional state then
            (case conditionalFieldSchema (ResultSchema def) (gField state) of
               Inl err \<Rightarrow> Some (BadConditionField err)
             | Inr fieldSchema \<Rightarrow>
                 validateConditionExhaustiveness env fieldSchema (gSeenEquals state) (gHasElse state))
          else None)"

section \<open>Validate\<close>

text \<open>The loops of Validate, in its order.\<close>

fun check_refs :: "NodeRef list \<Rightarrow> string list \<Rightarrow> topology_error + string list" where
  "check_refs [] names = Inr names"
| "check_refs (node # nodes) names =
     (if RefName node = [] then Inl NodeNameRequired
      else if RefName node \<in> set names then Inl (DuplicateNode (RefName node))
      else if RefJoin node \<notin> {JoinUnset, JoinAll, JoinAny} then Inl (InvalidJoin (RefName node))
      else if RefMaxIterations node < 0 then Inl (NegativeNodeIterations (RefName node))
      else check_refs nodes (names @ [RefName node]))"

fun check_definitions :: "go_env \<Rightarrow> Config \<Rightarrow> string list \<Rightarrow> config_error option" where
  "check_definitions env cfg [] = None"
| "check_definitions env cfg (name # names) =
     (case map_of (NodeDefinitions cfg) name of
        None \<Rightarrow> Some (MissingNodeDefinition name)
      | Some def \<Rightarrow>
          (case validateNodeDefinition env def of
             Some err \<Rightarrow> Some (BadNodeDefinition name err)
           | None \<Rightarrow>
               if \<not> is_blank (DefRuntime def) \<and> \<not> IsSupportedRuntime (DefRuntime def)
               then Some (NodeRuntimeNotSupported name (DefRuntime def))
               else check_definitions env cfg names))"

record edge_scan =
  esIncoming :: "string \<Rightarrow> nat"
  esSeen :: "string list"
  esByFrom :: "(string, Edge list) gomap"

definition edges_from :: "edge_scan \<Rightarrow> string \<Rightarrow> Edge list" where
  "edges_from scan name = (case map_of (esByFrom scan) name of None \<Rightarrow> [] | Some es \<Rightarrow> es)"

definition init_scan :: edge_scan where
  "init_scan = \<lparr>esIncoming = (\<lambda>_. 0), esSeen = [], esByFrom = []\<rparr>"

fun check_edges :: "go_env \<Rightarrow> string list \<Rightarrow> Edge list \<Rightarrow> edge_scan \<Rightarrow> topology_error + edge_scan" where
  "check_edges env names [] scan = Inr scan"
| "check_edges env names (edge # edges) scan =
     (if From edge \<notin> set names then Inl (EdgeFromNotDeclared (From edge))
      else if To edge \<notin> set names then Inl (EdgeToNotDeclared (To edge))
      else
        (case semanticEdgeKey env edge of
           None \<Rightarrow> Inl EdgeValueNotComparable
         | Some key \<Rightarrow>
             if key \<in> set (esSeen scan) then Inl (DuplicateEdge (From edge) (To edge))
             else check_edges env names edges
                    \<lparr>esIncoming = (esIncoming scan)(To edge := Suc (esIncoming scan (To edge))),
                     esSeen = esSeen scan @ [key],
                     esByFrom = map_put (From edge) (edges_from scan (From edge) @ [edge]) (esByFrom scan)\<rparr>))"

fun check_joins :: "edge_scan \<Rightarrow> NodeRef list \<Rightarrow> topology_error option" where
  "check_joins scan [] = None"
| "check_joins scan (node # nodes) =
     (if RefJoin node \<noteq> JoinUnset \<and> esIncoming scan (RefName node) < 2
      then Some (JoinNeedsTwoEdges (RefName node)) else check_joins scan nodes)"

fun check_groups :: "go_env \<Rightarrow> Config \<Rightarrow> edge_scan \<Rightarrow> string list \<Rightarrow> config_error option" where
  "check_groups env cfg scan [] = None"
| "check_groups env cfg scan (name # names) =
     (case validateEdgeGroup env (edges_from scan name) (node_definition cfg name) of
        Some err \<Rightarrow> Some (BadEdgeGroup name err)
      | None \<Rightarrow> check_groups env cfg scan names)"

fun check_ends :: "Config \<Rightarrow> edge_scan \<Rightarrow> NodeRef list \<Rightarrow> bool \<Rightarrow> topology_error + bool" where
  "check_ends cfg scan [] hasTerminal = Inr hasTerminal"
| "check_ends cfg scan (node # nodes) hasTerminal =
     (let def = node_definition cfg (RefName node);
          hasOutgoing = edges_from scan (RefName node) \<noteq> []
      in if DefType def = NodeTypeTerminal then
           (if hasOutgoing then Inl (TerminalHasOutgoing (RefName node))
            else check_ends cfg scan nodes True)
         else if DefType def = NodeTypeAgent \<and> \<not> hasOutgoing then Inl (AgentHasNoOutgoing (RefName node))
         else check_ends cfg scan nodes hasTerminal)"

definition validateGraph :: "go_env \<Rightarrow> Config \<Rightarrow> config_error option" where
  "validateGraph env cfg =
     (case check_refs (Nodes (Topo cfg)) [] of
        Inl err \<Rightarrow> Some (BadTopology err)
      | Inr names \<Rightarrow>
          if Entry (Topo cfg) \<notin> set names then Some (BadTopology (EntryNotDeclared (Entry (Topo cfg))))
          else if NodeDefinitions cfg = [] then Some NodeDefinitionsRequired
          else
            (case check_definitions env cfg (map_order env names) of
               Some err \<Rightarrow> Some err
             | None \<Rightarrow>
                 (case find (\<lambda>name. name \<notin> set names) (map_keys (NodeDefinitions cfg)) of
                    Some name \<Rightarrow> Some (DefinitionNotDeclared name)
                  | None \<Rightarrow>
                      (case check_edges env names (Edges (Topo cfg)) init_scan of
                         Inl err \<Rightarrow> Some (BadTopology err)
                       | Inr scan \<Rightarrow>
                           (case check_joins scan (Nodes (Topo cfg)) of
                              Some err \<Rightarrow> Some (BadTopology err)
                            | None \<Rightarrow>
                                (case check_groups env cfg scan (map_order env (map_keys (esByFrom scan))) of
                                   Some err \<Rightarrow> Some err
                                 | None \<Rightarrow>
                                     (case check_ends cfg scan (Nodes (Topo cfg)) False of
                                        Inl err \<Rightarrow> Some (BadTopology err)
                                      | Inr hasTerminal \<Rightarrow>
                                          if \<not> hasTerminal then Some (BadTopology NoTerminalNode)
                                          else None)))))))"

definition Validate :: "go_env \<Rightarrow> Config \<Rightarrow> config_error + Config" where
  "Validate env cfg =
     (if Version cfg \<noteq> 1 then Inl (UnsupportedVersion (Version cfg))
      else
        (let cfg = (if is_blank (Runtime cfg) then cfg\<lparr>Runtime := PreferredRuntimeFromPATH env\<rparr> else cfg);
             clar = Clarification cfg
         in if \<not> IsSupportedRuntime (Runtime cfg) then Inl (RuntimeNotSupported (Runtime cfg))
            else if Entry (Topo cfg) = [] then Inl EntryRequired
            else if MaxIterations (Topo cfg) \<le> 0 then Inl MaxIterationsNotPositive
            else if MinOptionsPerQuestion clar \<le> 0 \<or>
                    MaxOptionsPerQuestion clar < MinOptionsPerQuestion clar then Inl OptionBoundsInvalid
            else if MaxQuestions clar \<le> 0 then Inl MaxQuestionsNotPositive
            else if Nodes (Topo cfg) = [] then Inl (BadTopology NodesRequired)
            else
              (case validateGraph env cfg of
                 Some err \<Rightarrow> Inl err
               | None \<Rightarrow> Inr cfg)))"

text \<open>
  parse and Load: decoding (the YAML package's decoder into rawConfig) and reading the file are the
  arguments.
\<close>

definition parse_config ::
  "go_env \<Rightarrow> (string \<Rightarrow> rawConfig option) \<Rightarrow> string \<Rightarrow> config_error + Config" where
  "parse_config env decodeRawConfig data =
     (case decodeRawConfig data of
        None \<Rightarrow> Inl YamlDecodeError
      | Some raw \<Rightarrow>
          (case validateRawConfig raw of
             Some err \<Rightarrow> Inl (BadRawConfig err)
           | None \<Rightarrow> Validate env (applyDefaults env (toConfig raw))))"

end
