(* ===== verification/WellFormed.thy ===== *)
theory WellFormed
  imports Validate
begin

text \<open>
  What Validate accepts: the well-formed configurations, declaratively, and the shape of the edge
  groups that validateEdgeGroup accepts.
\<close>

section \<open>The loops of Validate\<close>

abbreviation edges_of :: "Config \<Rightarrow> string \<Rightarrow> Edge list" where
  "edges_of cfg name \<equiv> filter (\<lambda>e. From e = name) (Edges (Topo cfg))"

abbreviation node_names :: "Config \<Rightarrow> string list" where
  "node_names cfg \<equiv> map RefName (Nodes (Topo cfg))"

definition ref_ok :: "NodeRef \<Rightarrow> bool" where
  "ref_ok node \<longleftrightarrow> RefName node \<noteq> [] \<and> RefJoin node \<in> {JoinUnset, JoinAll, JoinAny} \<and> 0 \<le> RefMaxIterations node"

lemma check_refs_iff:
  "distinct names \<Longrightarrow>
     check_refs nodes names = Inr out \<longleftrightarrow>
     out = names @ map RefName nodes \<and> distinct out \<and> (\<forall>n\<in>set nodes. ref_ok n)"
proof (induction nodes arbitrary: names)
  case (Cons node nodes)
  then show ?case
    by (cases "RefName node \<in> set names") (auto simp: ref_ok_def)
qed auto

lemma check_definitions_iff:
  "check_definitions env cfg names = None \<longleftrightarrow>
     (\<forall>n\<in>set names. \<exists>d. map_of (NodeDefinitions cfg) n = Some d \<and>
        validateNodeDefinition env d = None \<and> (is_blank (DefRuntime d) \<or> IsSupportedRuntime (DefRuntime d)))"
  by (induction names) (auto split: option.splits)

lemma edges_from_put:
  "edges_from (scan\<lparr>esByFrom := map_put k es (esByFrom scan)\<rparr>) n = (if n = k then es else edges_from scan n)"
  by (simp add: edges_from_def map_of_put)

lemma check_edges_iff:
  assumes "distinct (esSeen scan)"
  shows "(\<exists>scan'. check_edges env names edges scan = Inr scan') \<longleftrightarrow>
     (\<forall>e\<in>set edges. From e \<in> set names \<and> To e \<in> set names) \<and>
     None \<notin> semanticEdgeKey env ` set edges \<and>
     distinct (map Some (esSeen scan) @ map (semanticEdgeKey env) edges)"
  using assms
proof (induction edges arbitrary: scan)
  case Nil
  then show ?case by (simp add: distinct_map)
next
  case (Cons e edges)
  let ?scan = "\<lambda>key. \<lparr>esIncoming = (esIncoming scan)(To e := Suc (esIncoming scan (To e))),
     esSeen = esSeen scan @ [key],
     esByFrom = map_put (From e) (edges_from scan (From e) @ [e]) (esByFrom scan)\<rparr>"
  show ?case
  proof (cases "semanticEdgeKey env e")
    case None
    then show ?thesis by simp
  next
    case (Some key)
    show ?thesis
    proof (cases "key \<in> set (esSeen scan)")
      case True
      with Some show ?thesis by auto
    next
      case False
      with Cons.prems have "distinct (esSeen (?scan key))" by simp
      note IH = Cons.IH [OF this]
      have "map Some (esSeen (?scan key)) @ map (semanticEdgeKey env) edges =
            map Some (esSeen scan) @ map (semanticEdgeKey env) (e # edges)"
        using Some by simp
      with IH Some False show ?thesis by (simp del: map_append distinct_append)
    qed
  qed
qed

lemma check_edges_scan:
  "check_edges env names edges scan = Inr scan' \<Longrightarrow>
     edges_from scan' n = edges_from scan n @ filter (\<lambda>e. From e = n) edges"
  "check_edges env names edges scan = Inr scan' \<Longrightarrow>
     esIncoming scan' n = esIncoming scan n + length (filter (\<lambda>e. To e = n) edges)"
  "check_edges env names edges scan = Inr scan' \<Longrightarrow>
     set (map_keys (esByFrom scan')) = set (map_keys (esByFrom scan)) \<union> From ` set edges"
  by (induction env names edges scan rule: check_edges.induct)
    (auto simp: edges_from_def map_of_put keys_map_put split: if_splits option.splits simp del: set_map)

lemma check_joins_iff:
  "check_joins scan nodes = None \<longleftrightarrow>
     (\<forall>n\<in>set nodes. RefJoin n \<noteq> JoinUnset \<longrightarrow> 2 \<le> esIncoming scan (RefName n))"
  by (induction nodes) auto

lemma check_groups_iff:
  "check_groups env cfg scan names = None \<longleftrightarrow>
     (\<forall>n\<in>set names. validateEdgeGroup env (edges_from scan n) (node_definition cfg n) = None)"
  by (induction names) (auto split: option.splits)

lemma check_ends_iff:
  "check_ends cfg scan nodes b = Inr b' \<longleftrightarrow>
     (\<forall>n\<in>set nodes.
        (DefType (node_definition cfg (RefName n)) = NodeTypeTerminal \<longrightarrow> edges_from scan (RefName n) = []) \<and>
        (DefType (node_definition cfg (RefName n)) = NodeTypeAgent \<longrightarrow> edges_from scan (RefName n) \<noteq> [])) \<and>
     b' = (b \<or> (\<exists>n\<in>set nodes. DefType (node_definition cfg (RefName n)) = NodeTypeTerminal))"
  by (induction nodes arbitrary: b) (auto simp: Let_def)

lemma validateEdgeGroup_Nil [simp]: "validateEdgeGroup env [] def = None"
  by (simp add: validateEdgeGroup_def init_group_def)

section \<open>Well-formed configurations\<close>

definition well_formed_graph :: "go_env \<Rightarrow> Config \<Rightarrow> bool" where
  "well_formed_graph env cfg \<longleftrightarrow>
     distinct (node_names cfg) \<and> (\<forall>n\<in>set (Nodes (Topo cfg)). ref_ok n) \<and>
     Entry (Topo cfg) \<in> set (node_names cfg) \<and>
     set (map_keys (NodeDefinitions cfg)) = set (node_names cfg) \<and>
     (\<forall>n\<in>set (node_names cfg).
        validateNodeDefinition env (node_definition cfg n) = None \<and>
        (is_blank (DefRuntime (node_definition cfg n)) \<or> IsSupportedRuntime (DefRuntime (node_definition cfg n)))) \<and>
     (\<forall>e\<in>set (Edges (Topo cfg)). From e \<in> set (node_names cfg) \<and> To e \<in> set (node_names cfg)) \<and>
     None \<notin> semanticEdgeKey env ` set (Edges (Topo cfg)) \<and>
     distinct (map (semanticEdgeKey env) (Edges (Topo cfg))) \<and>
     (\<forall>n\<in>set (Nodes (Topo cfg)). RefJoin n \<noteq> JoinUnset \<longrightarrow>
        2 \<le> length (filter (\<lambda>e. To e = RefName n) (Edges (Topo cfg)))) \<and>
     (\<forall>n\<in>set (node_names cfg). validateEdgeGroup env (edges_of cfg n) (node_definition cfg n) = None) \<and>
     (\<forall>n\<in>set (node_names cfg).
        (DefType (node_definition cfg n) = NodeTypeTerminal \<longrightarrow> edges_of cfg n = []) \<and>
        (DefType (node_definition cfg n) = NodeTypeAgent \<longrightarrow> edges_of cfg n \<noteq> [])) \<and>
     (\<exists>n\<in>set (node_names cfg). DefType (node_definition cfg n) = NodeTypeTerminal)"

definition well_formed_config :: "go_env \<Rightarrow> Config \<Rightarrow> bool" where
  "well_formed_config env cfg \<longleftrightarrow>
     Version cfg = 1 \<and> IsSupportedRuntime (Runtime cfg) \<and> Entry (Topo cfg) \<noteq> [] \<and>
     0 < MaxIterations (Topo cfg) \<and> 0 < MinOptionsPerQuestion (Clarification cfg) \<and>
     MinOptionsPerQuestion (Clarification cfg) \<le> MaxOptionsPerQuestion (Clarification cfg) \<and>
     0 < MaxQuestions (Clarification cfg) \<and> well_formed_graph env cfg"

lemma node_definition_Some: "map_of (NodeDefinitions cfg) n = Some d \<Longrightarrow> node_definition cfg n = d"
  by (simp add: node_definition_def)

lemma check_definitions_iff':
  assumes "set names = set (map_keys (NodeDefinitions cfg))"
  shows "check_definitions env cfg names = None \<longleftrightarrow>
     (\<forall>n\<in>set names. validateNodeDefinition env (node_definition cfg n) = None \<and>
        (is_blank (DefRuntime (node_definition cfg n)) \<or> IsSupportedRuntime (DefRuntime (node_definition cfg n))))"
proof -
  have "\<exists>d. map_of (NodeDefinitions cfg) n = Some d" if "n \<in> set names" for n
    using that assms by (auto simp: gm.keys_dom [symmetric] domIff simp del: set_map)
       (metis gm.in_keys_iff not_None_eq)
  then show ?thesis unfolding check_definitions_iff
    by (metis node_definition_Some option.inject)
qed

lemma check_edges_init_iff:
  "(\<exists>scan. check_edges env names edges init_scan = Inr scan) \<longleftrightarrow>
     (\<forall>e\<in>set edges. From e \<in> set names \<and> To e \<in> set names) \<and>
     None \<notin> semanticEdgeKey env ` set edges \<and> distinct (map (semanticEdgeKey env) edges)"
  using check_edges_iff [of init_scan env names edges] by (simp add: init_scan_def)

lemma check_edges_init_scan:
  assumes "check_edges env names (Edges (Topo cfg)) init_scan = Inr scan"
  shows "edges_from scan n = edges_of cfg n"
    "esIncoming scan n = length (filter (\<lambda>e. To e = n) (Edges (Topo cfg)))"
    "set (map_keys (esByFrom scan)) = From ` set (Edges (Topo cfg))"
  using check_edges_scan(1,2) [OF assms, of n] check_edges_scan(3) [OF assms]
  by (simp_all add: init_scan_def edges_from_def)

lemma validateGraph_iff:
  assumes env: "env_ok env"
  shows "validateGraph env cfg = None \<longleftrightarrow> well_formed_graph env cfg"
proof (cases "check_refs (Nodes (Topo cfg)) []")
  case (Inl err)
  then have "\<not> (distinct (node_names cfg) \<and> (\<forall>n\<in>set (Nodes (Topo cfg)). ref_ok n))"
    using check_refs_iff [of "[]" "Nodes (Topo cfg)" "node_names cfg"] by auto
  with Inl show ?thesis by (auto simp: validateGraph_def well_formed_graph_def)
next
  case (Inr names)
  then have names: "names = node_names cfg" "distinct (node_names cfg)"
      "\<forall>n\<in>set (Nodes (Topo cfg)). ref_ok n"
    using check_refs_iff [of "[]" "Nodes (Topo cfg)" names] by auto
  note order = env_ok_set [OF env]
  show ?thesis
  proof (cases "set (map_keys (NodeDefinitions cfg)) = set names")
    case keys: False
    have "validateGraph env cfg \<noteq> None"
    proof
      assume v: "validateGraph env cfg = None"
      then have d: "check_definitions env cfg (map_order env names) = None"
        and u: "find (\<lambda>name. name \<notin> set names) (map_keys (NodeDefinitions cfg)) = None"
        using Inr by (auto simp: validateGraph_def split: if_splits option.splits)
      from d have "set names \<subseteq> set (map_keys (NodeDefinitions cfg))"
        unfolding check_definitions_iff order by (metis gm.in_keys_iff option.discI subsetI)
      with u keys show False by (auto simp: find_None_iff)
    qed
    with keys names(1) show ?thesis by (auto simp: well_formed_graph_def)
  next
    case keys: True
    then have find_None: "find (\<lambda>name. name \<notin> set names) (map_keys (NodeDefinitions cfg)) = None"
      by (auto simp: find_None_iff)
    have nonempty: "Entry (Topo cfg) \<in> set names \<Longrightarrow> NodeDefinitions cfg \<noteq> []"
      using keys by auto
    note defs = check_definitions_iff' [of "map_order env names" cfg env, unfolded order, OF keys [symmetric]]
    show ?thesis
    proof (cases "check_edges env names (Edges (Topo cfg)) init_scan")
      case (Inl err)
      then have "\<not> (\<exists>scan. check_edges env names (Edges (Topo cfg)) init_scan = Inr scan)" by simp
      then have "\<not> well_formed_graph env cfg"
        unfolding check_edges_init_iff names(1) by (simp only: well_formed_graph_def simp_thms) blast
      with Inl Inr find_None show ?thesis
        by (auto simp: validateGraph_def split: option.splits)
    next
      case scan: (Inr scan)
      then have edges: "(\<forall>e\<in>set (Edges (Topo cfg)). From e \<in> set names \<and> To e \<in> set names) \<and>
          None \<notin> semanticEdgeKey env ` set (Edges (Topo cfg)) \<and>
          distinct (map (semanticEdgeKey env) (Edges (Topo cfg)))"
        unfolding check_edges_init_iff [symmetric] by blast
      note sc = check_edges_init_scan [OF scan]
      have groups: "check_groups env cfg scan (map_order env (map_keys (esByFrom scan))) = None \<longleftrightarrow>
          (\<forall>n\<in>set names. validateEdgeGroup env (edges_of cfg n) (node_definition cfg n) = None)"
      proof -
        have "edges_of cfg n = []" if "n \<notin> From ` set (Edges (Topo cfg))" for n
          using that by (auto simp: filter_empty_conv)
        moreover have "From ` set (Edges (Topo cfg)) \<subseteq> set names" using edges by auto
        ultimately show ?thesis
          unfolding check_groups_iff order sc by (metis subsetD validateEdgeGroup_Nil)
      qed
      have "validateGraph env cfg = None \<longleftrightarrow>
          Entry (Topo cfg) \<in> set names \<and> check_definitions env cfg (map_order env names) = None \<and>
          check_joins scan (Nodes (Topo cfg)) = None \<and>
          check_groups env cfg scan (map_order env (map_keys (esByFrom scan))) = None \<and>
          check_ends cfg scan (Nodes (Topo cfg)) False = Inr True"
        using Inr find_None nonempty scan
        by (auto simp: validateGraph_def split: option.splits sum.splits)
      then show ?thesis
        unfolding defs groups check_joins_iff check_ends_iff sc well_formed_graph_def
        using names edges keys by auto
    qed
  qed
qed


section \<open>A configuration of the kind the repository bundles\<close>

text \<open>plan, then a human approval that either ends the task or sends it back to plan.\<close>

definition when_edge :: "string \<Rightarrow> string \<Rightarrow> string \<Rightarrow> gval \<Rightarrow> Edge" where
  "when_edge a b field v =
     \<lparr>From = a, To = b, When = \<lparr>Kind = ConditionWhen, CondField = field, Equals = v\<rparr>\<rparr>"

definition plain_edge :: "string \<Rightarrow> string \<Rightarrow> Edge" where
  "plain_edge a b = \<lparr>From = a, To = b, When = zero_condition\<rparr>"

definition plain_node :: "string \<Rightarrow> NodeRef" where
  "plain_node n = \<lparr>RefName = n, RefMaxIterations = 0, RefJoin = JoinUnset\<rparr>"

definition plan_schema :: JSONSchema where
  "plan_schema = JSONSchema ''object'' (Some False) [] [] None [] [] None None"

definition demo_topology :: Topology where
  "demo_topology =
     \<lparr>MaxIterations = 3, Entry = ''plan'',
      Nodes = [plain_node ''plan'', plain_node ''approve'', plain_node ''done''],
      Edges = [plain_edge ''plan'' ''approve'',
               when_edge ''approve'' ''done'' ''approved'' (VBool True),
               when_edge ''approve'' ''plan'' ''approved'' (VBool False)]\<rparr>"

definition demo_config :: Config where
  "demo_config =
     \<lparr>Version = 1, Description = [], Runtime = ''codex'', Model = [], ThinkingLevel = [],
      Clarification = \<lparr>MaxQuestions = 4, MaxOptionsPerQuestion = 4, MinOptionsPerQuestion = 2\<rparr>,
      Topo = demo_topology,
      NodeDefinitions =
        [(''plan'', zero_definition\<lparr>DefType := NodeTypeAgent, SystemPrompt := ''p'', ResultSchema := plan_schema\<rparr>),
         (''approve'', zero_definition\<lparr>DefType := NodeTypeHuman, ResultSchema := approval_schema\<rparr>),
         (''done'', zero_definition\<lparr>DefType := NodeTypeTerminal\<rparr>)]\<rparr>"

lemma blank_p: "\<not> is_blank ''p''" and blank_codex: "\<not> is_blank ''codex''"
  by (simp_all add: is_blank_def trim_space_plain go_spaces_def)

lemmas demo_simps =
  demo_config_def demo_topology_def plain_node_def plain_edge_def when_edge_def zero_condition_def
  zero_definition_def zero_schema_def plan_schema_def approval_schema_def plain_env_def
  node_definition_def scalar_types_def

lemmas validate_simps =
  validateNodeDefinition_def validateEdgeGroup_def group_step_def group_when_def init_group_def
  conditionalFieldSchema_def validateConditionValueType_def validateConditionExhaustiveness_def
  semanticEdgeKey_def kind_text_def edges_from_def init_scan_def

lemma demo_graph: "validateGraph plain_env demo_config = None"
  by (simp add: validateGraph_def demo_simps validate_simps blank_p)

lemma demo_validates: "Validate plain_env demo_config = Inr demo_config"
  using demo_graph
  by (simp add: Validate_def demo_config_def demo_topology_def blank_codex IsSupportedRuntime_def
      supported_runtimes_def)


lemma demo_well_formed: "well_formed_config plain_env demo_config"
  using demo_graph validateGraph_iff [OF env_ok_plain, of demo_config]
  by (simp add: well_formed_config_def demo_config_def demo_topology_def IsSupportedRuntime_def
      supported_runtimes_def)

section \<open>Accepted edge groups\<close>

lemma group_step_Inr:
  assumes "group_step env def e st = Inr st'"
  shows "(Kind (When e) = ConditionNone \<and> \<not> gConditional st \<and> st' = st\<lparr>gUnconditional := True\<rparr>) \<or>
    (Kind (When e) = ConditionElse \<and> \<not> gUnconditional st \<and> gElseCount st = 0 \<and>
      st' = st\<lparr>gConditional := True, gElseCount := 1, gHasElse := True\<rparr>) \<or>
    (Kind (When e) = ConditionWhen \<and> \<not> gUnconditional st \<and> CondField (When e) \<noteq> [] \<and>
      (gField st = [] \<or> gField st = CondField (When e)) \<and>
      (\<exists>t key. conditionalFieldSchema (ResultSchema def) (CondField (When e)) = Inr t \<and>
        validateConditionValueType (Equals (When e)) t = None \<and>
        comparableValueKey env (Equals (When e)) = Some key \<and> key \<notin> set (gSeenEquals st) \<and>
        st' = st\<lparr>gConditional := True, gField := CondField (When e),
                 gSeenEquals := gSeenEquals st @ [key]\<rparr>))"
  using assms
  by (auto simp: group_step_def group_when_def split: EdgeConditionKind.splits if_splits sum.splits option.splits)

text \<open>The final state of the loop, read off the edges.\<close>

abbreviation when_edges :: "Edge list \<Rightarrow> Edge list" where
  "when_edges es \<equiv> filter (\<lambda>e. Kind (When e) = ConditionWhen) es"

lemma group_loop_flags:
  "group_loop env def es st = Inr st' \<Longrightarrow>
     (gUnconditional st' \<longleftrightarrow> gUnconditional st \<or> (\<exists>e\<in>set es. Kind (When e) = ConditionNone)) \<and>
     (gConditional st' \<longleftrightarrow> gConditional st \<or> (\<exists>e\<in>set es. Kind (When e) \<noteq> ConditionNone)) \<and>
     (gHasElse st' \<longleftrightarrow> gHasElse st \<or> (\<exists>e\<in>set es. Kind (When e) = ConditionElse)) \<and>
     (\<not> (gUnconditional st \<and> gConditional st) \<longrightarrow> \<not> (gUnconditional st' \<and> gConditional st')) \<and>
     (\<forall>e\<in>set es. Kind (When e) \<in> {ConditionNone, ConditionWhen, ConditionElse})"
proof (induction es arbitrary: st)
  case (Cons x es)
  from Cons.prems obtain st1 where step: "group_step env def x st = Inr st1"
    and rest: "group_loop env def es st1 = Inr st'" by (auto split: sum.splits)
  from group_step_Inr [OF step] Cons.IH [OF rest] show ?case by (elim disjE) force+
qed simp

lemma group_loop_seen:
  "group_loop env def es st = Inr st' \<Longrightarrow>
     map Some (gSeenEquals st') =
       map Some (gSeenEquals st) @ map (\<lambda>e. comparableValueKey env (Equals (When e))) (when_edges es) \<and>
     (distinct (gSeenEquals st) \<longrightarrow> distinct (gSeenEquals st'))"
proof (induction es arbitrary: st)
  case (Cons x es)
  from Cons.prems obtain st1 where step: "group_step env def x st = Inr st1"
    and rest: "group_loop env def es st1 = Inr st'" by (auto split: sum.splits)
  from group_step_Inr [OF step] Cons.IH [OF rest] show ?case by (elim disjE) auto
qed simp

lemma group_loop_field:
  "group_loop env def es st = Inr st' \<Longrightarrow>
     (gField st \<noteq> [] \<longrightarrow> gField st' = gField st) \<and>
     (\<forall>e\<in>set (when_edges es). CondField (When e) = gField st' \<and> gField st' \<noteq> [])"
proof (induction es arbitrary: st)
  case (Cons x es)
  from Cons.prems obtain st1 where step: "group_step env def x st = Inr st1"
    and rest: "group_loop env def es st1 = Inr st'" by (auto split: sum.splits)
  from group_step_Inr [OF step] Cons.IH [OF rest] show ?case by (elim disjE) auto
qed simp

text \<open>
  An accepted group is unconditional throughout, or branches on one scalar field of the result
  schema, with pairwise different keys that exhaust the field or leave the rest to else.
\<close>

definition conditional_group ::
  "go_env \<Rightarrow> NodeDefinition \<Rightarrow> Edge list \<Rightarrow> string \<Rightarrow> JSONSchema \<Rightarrow> string list \<Rightarrow> bool" where
  "conditional_group env def es field t keys \<longleftrightarrow>
     field \<noteq> [] \<and> conditionalFieldSchema (ResultSchema def) field = Inr t \<and>
     (\<forall>e\<in>set es. Kind (When e) \<in> {ConditionWhen, ConditionElse}) \<and>
     (\<forall>e\<in>set (when_edges es). CondField (When e) = field) \<and>
     map (\<lambda>e. comparableValueKey env (Equals (When e))) (when_edges es) = map Some keys \<and>
     distinct keys \<and> keys \<noteq> [] \<and>
     validateConditionExhaustiveness env t keys (\<exists>e\<in>set es. Kind (When e) = ConditionElse) = None"

lemma validateEdgeGroup_cases:
  assumes "validateEdgeGroup env es def = None"
  shows "(\<forall>e\<in>set es. Kind (When e) = ConditionNone) \<or>
    (\<exists>field t keys. conditional_group env def es field t keys)"
proof -
  from assms obtain st where loop: "group_loop env def es init_group = Inr st"
    by (auto simp: validateEdgeGroup_def split: sum.splits)
  note flags = group_loop_flags [OF loop] and seq = group_loop_seen [OF loop]
    and field = group_loop_field [OF loop]
  show ?thesis
  proof (cases "gConditional st")
    case False
    then show ?thesis using flags by (auto simp: init_group_def)
  next
    case True
    with assms loop obtain t where seen: "gSeenEquals st \<noteq> []"
      and t: "conditionalFieldSchema (ResultSchema def) (gField st) = Inr t"
      and ex: "validateConditionExhaustiveness env t (gSeenEquals st) (gHasElse st) = None"
      by (auto simp: validateEdgeGroup_def split: sum.splits if_splits)
    have keys: "map (\<lambda>e. comparableValueKey env (Equals (When e))) (when_edges es) = map Some (gSeenEquals st)"
      using seq by (simp add: init_group_def)
    with seen have "when_edges es \<noteq> []" by auto
    then obtain e where "e \<in> set (when_edges es)" by (meson list.set_sel(1))
    with field have "gField st \<noteq> []" by blast
    moreover have "\<not> (gUnconditional init_group \<and> gConditional init_group) \<longrightarrow> \<not> (gUnconditional st \<and> gConditional st)"
      using flags by blast
    with True have "\<not> gUnconditional st" by (simp add: init_group_def)
    then have "\<forall>e\<in>set es. Kind (When e) \<in> {ConditionWhen, ConditionElse}"
      using flags by blast
    moreover have "gHasElse st \<longleftrightarrow> (\<exists>e\<in>set es. Kind (When e) = ConditionElse)"
      using flags by (simp add: init_group_def)
    ultimately have "conditional_group env def es (gField st) t (gSeenEquals st)"
      using field seq seen t ex keys by (simp add: conditional_group_def init_group_def)
    then show ?thesis by blast
  qed
qed

end
