(* ===== verification/Domain.thy ===== *)
theory Domain
  imports WellFormed
begin

text \<open>
  Tasks and node runs (cli/internal/taskdomain): types.go with the derived task view, and retry.go
  with iteration counts, open failures and the recovery target.  Instants are integers, the
  nanoseconds since Go's zero time; UTC changes no instant.
\<close>

section \<open>Types (types.go)\<close>

record Task =
  TaskID :: string
  TaskDescription :: string
  ConfigAlias :: string
  ConfigPath :: string
  WorkDir :: string
  ExecutionDir :: string
  TaskCreatedAt :: int
  TaskUpdatedAt :: int

definition ExecutionWorkDir :: "Task \<Rightarrow> string" where
  "ExecutionWorkDir t = (if ExecutionDir t \<noteq> [] then ExecutionDir t else WorkDir t)"

datatype NodeRunStatus = NodeRunRunning | NodeRunDone | NodeRunFailed | NodeRunAwaitingUser

datatype TaskStatus = TaskStatusDraft | TaskStatusRunning | TaskStatusAwaitingUser | TaskStatusDone | TaskStatusFailed

record TriggeredBy =
  TrigRunID :: string
  TrigReason :: string

record ClarificationOption =
  OptionLabel :: string
  OptionDescription :: string

record ClarificationQuestion =
  Question :: string
  WhyItMatters :: string
  Options :: "ClarificationOption list"
  MultiSelect :: bool

text \<open>A request is its questions, a response the selected values of its answers.\<close>

type_synonym ClarificationRequest = "ClarificationQuestion list"
type_synonym ClarificationResponse = "gval list"

record ClarificationExchange =
  Request :: ClarificationRequest
  Response :: "ClarificationResponse option"
  RequestedAt :: int
  AnsweredAt :: "int option"

record NodeRun =
  RunID :: string
  RunTaskID :: string
  NodeName :: string
  Status :: NodeRunStatus
  SessionID :: string
  FailureReason :: string
  Result :: "(string, gval) gomap option"
  Clarifications :: "ClarificationExchange list"
  Trigger :: "TriggeredBy option"
  StartedAt :: int
  CompletedAt :: "int option"

record BlockedStep =
  StepNode :: string
  StepIteration :: int
  StepReason :: string
  StepTrigger :: "TriggeredBy option"
  StepCreatedAt :: int

datatype TaskIssueKind = TaskIssueFailedRun | TaskIssueBlockedStep

record TaskIssue =
  IssueKind :: TaskIssueKind
  IssueNode :: string
  IssueIteration :: int
  IssueReason :: string
  IssueOccurredAt :: int

record NodeRunView =
  ViewRun :: NodeRun
  ViewRunArtifacts :: "string list"

record TaskView =
  ViewTask :: Task
  ViewStatus :: TaskStatus
  CurrentNodeName :: string
  CurrentNodeType :: NodeType
  CurrentIssue :: "TaskIssue option"
  ArtifactList :: "string list"
  NodeRuns :: "NodeRunView list"
  BlockedSteps :: "BlockedStep list"

section \<open>Reasons, counts and open failures (retry.go)\<close>

definition TriggerReasonManualRetry :: string where
  "TriggerReasonManualRetry = ''manual_retry''"

definition TriggerReasonManualRetryForce :: string where
  "TriggerReasonManualRetryForce = ''manual_retry_force''"

definition TriggerReasonManualContinue :: string where
  "TriggerReasonManualContinue = ''manual_continue''"

definition TriggerReasonManualContinueForce :: string where
  "TriggerReasonManualContinueForce = ''manual_continue_force''"

definition FailureReasonInterruptedByUser :: string where
  "FailureReasonInterruptedByUser = ''interrupted_by_user''"

definition FailureReasonOrphanedAfterRestart :: string where
  "FailureReasonOrphanedAfterRestart = ''orphaned_after_restart''"

lemmas reason_defs =
  TriggerReasonManualRetry_def TriggerReasonManualRetryForce_def TriggerReasonManualContinue_def
  TriggerReasonManualContinueForce_def FailureReasonInterruptedByUser_def
  FailureReasonOrphanedAfterRestart_def

definition IsManualRetryReason :: "string \<Rightarrow> bool" where
  "IsManualRetryReason reason \<longleftrightarrow>
     reason = TriggerReasonManualRetry \<or> reason = TriggerReasonManualRetryForce"

definition IsManualContinueReason :: "string \<Rightarrow> bool" where
  "IsManualContinueReason reason \<longleftrightarrow>
     reason = TriggerReasonManualContinue \<or> reason = TriggerReasonManualContinueForce"

definition LatestBlockedStep :: "BlockedStep list \<Rightarrow> BlockedStep option" where
  "LatestBlockedStep steps = (case rev steps of [] \<Rightarrow> None | step # _ \<Rightarrow> Some step)"

fun IterationCount :: "NodeRun list \<Rightarrow> string \<Rightarrow> int" where
  "IterationCount [] nodeName = 0"
| "IterationCount (run # runs) nodeName =
     (if NodeName run = nodeName then 1 else 0) + IterationCount runs nodeName"

definition MaxIterationsForNode :: "Config \<Rightarrow> string \<Rightarrow> int" where
  "MaxIterationsForNode cfg nodeName =
     (case find (\<lambda>node. RefName node = nodeName \<and> 0 < RefMaxIterations node) (Nodes (Topo cfg)) of
        Some node \<Rightarrow> RefMaxIterations node
      | None \<Rightarrow> MaxIterations (Topo cfg))"

definition retries :: "NodeRun \<Rightarrow> string \<Rightarrow> bool" where
  "retries candidate runID \<longleftrightarrow>
     (case Trigger candidate of
        None \<Rightarrow> False
      | Some t \<Rightarrow> TrigRunID t = runID \<and> IsManualRetryReason (TrigReason t))"

definition IsOpenFailedRun :: "NodeRun list \<Rightarrow> NodeRun \<Rightarrow> bool" where
  "IsOpenFailedRun runs run \<longleftrightarrow>
     Status run = NodeRunFailed \<and> \<not> list_ex (\<lambda>candidate. retries candidate (RunID run)) runs"

definition HasOpenFailedRuns :: "NodeRun list \<Rightarrow> bool" where
  "HasOpenFailedRuns runs \<longleftrightarrow> list_ex (IsOpenFailedRun runs) runs"

definition LatestOpenFailedRun :: "NodeRun list \<Rightarrow> NodeRun option" where
  "LatestOpenFailedRun runs = find (IsOpenFailedRun runs) (rev runs)"

datatype RecoveryTargetKind = RecoveryTargetFailedRun | RecoveryTargetBlockedStep

record RecoveryTarget =
  TargetKind :: RecoveryTargetKind
  TargetRun :: "NodeRun option"
  TargetStep :: "BlockedStep option"
  TargetNode :: string
  NextIteration :: int
  TargetMaxIterations :: int
  RetryAllowed :: bool
  ForceRetryAllowed :: bool
  TargetReason :: string

definition failedRunRecoveryTarget :: "Config \<Rightarrow> NodeRun list \<Rightarrow> NodeRun \<Rightarrow> RecoveryTarget" where
  "failedRunRecoveryTarget cfg runs run =
     (let limit = MaxIterationsForNode cfg (NodeName run);
          nextIteration = IterationCount runs (NodeName run) + 1
      in \<lparr>TargetKind = RecoveryTargetFailedRun, TargetRun = Some run, TargetStep = None,
          TargetNode = NodeName run, NextIteration = nextIteration, TargetMaxIterations = limit,
          RetryAllowed = (nextIteration \<le> limit), ForceRetryAllowed = True,
          TargetReason = (if \<not> nextIteration \<le> limit then ''max_iterations reached'' else [])\<rparr>)"

definition blockedStepRecoveryTarget :: "Config \<Rightarrow> BlockedStep \<Rightarrow> RecoveryTarget" where
  "blockedStepRecoveryTarget cfg step =
     \<lparr>TargetKind = RecoveryTargetBlockedStep, TargetRun = None, TargetStep = Some step,
      TargetNode = StepNode step, NextIteration = StepIteration step,
      TargetMaxIterations = MaxIterationsForNode cfg (StepNode step), RetryAllowed = False,
      ForceRetryAllowed = True, TargetReason = StepReason step\<rparr>"

definition latest_failed_agent :: "Config \<Rightarrow> NodeRun list \<Rightarrow> NodeRun option" where
  "latest_failed_agent cfg runs =
     (case LatestOpenFailedRun runs of
        None \<Rightarrow> None
      | Some run \<Rightarrow>
          if DefType (node_definition cfg (NodeName run)) \<noteq> NodeTypeAgent then None else Some run)"

definition finished_at :: "NodeRun \<Rightarrow> int" where
  "finished_at run = (case CompletedAt run of None \<Rightarrow> StartedAt run | Some t \<Rightarrow> t)"

definition RecoveryTargetForTask ::
  "Config \<Rightarrow> NodeRun list \<Rightarrow> BlockedStep list \<Rightarrow> RecoveryTarget option" where
  "RecoveryTargetForTask cfg runs blockedSteps =
     (case (latest_failed_agent cfg runs, LatestBlockedStep blockedSteps) of
        (None, None) \<Rightarrow> None
      | (None, Some step) \<Rightarrow> Some (blockedStepRecoveryTarget cfg step)
      | (Some run, None) \<Rightarrow> Some (failedRunRecoveryTarget cfg runs run)
      | (Some run, Some step) \<Rightarrow>
          if \<not> finished_at run < StepCreatedAt step
          then Some (failedRunRecoveryTarget cfg runs run)
          else Some (blockedStepRecoveryTarget cfg step))"

definition DisplayFailureReason :: "string \<Rightarrow> string" where
  "DisplayFailureReason reason =
     (if reason = [] then []
      else if reason = FailureReasonInterruptedByUser then ''Interrupted by user.''
      else if reason = FailureReasonOrphanedAfterRestart
        then ''Muxagent restarted while this step was running.''
      else reason)"

definition CurrentIssueForTask ::
  "Config \<Rightarrow> NodeRun list \<Rightarrow> BlockedStep list \<Rightarrow> TaskIssue option" where
  "CurrentIssueForTask cfg runs blockedSteps =
     (case RecoveryTargetForTask cfg runs blockedSteps of
        None \<Rightarrow> None
      | Some target \<Rightarrow>
          (case TargetKind target of
             RecoveryTargetBlockedStep \<Rightarrow>
               (case TargetStep target of
                  None \<Rightarrow> None
                | Some step \<Rightarrow>
                    Some \<lparr>IssueKind = TaskIssueBlockedStep, IssueNode = TargetNode target,
                          IssueIteration = NextIteration target, IssueReason = TargetReason target,
                          IssueOccurredAt = StepCreatedAt step\<rparr>)
           | RecoveryTargetFailedRun \<Rightarrow>
               (case TargetRun target of
                  None \<Rightarrow> None
                | Some run \<Rightarrow>
                    Some \<lparr>IssueKind = TaskIssueFailedRun, IssueNode = TargetNode target,
                          IssueIteration = NextIteration target - 1,
                          IssueReason = DisplayFailureReason (FailureReason run),
                          IssueOccurredAt = finished_at run\<rparr>)))"

section \<open>The task view (types.go)\<close>

definition TerminalNodes :: "Config \<Rightarrow> string \<Rightarrow> bool" where
  "TerminalNodes cfg name \<longleftrightarrow>
     list_ex (\<lambda>node. RefName node = name) (Nodes (Topo cfg)) \<and>
     \<not> list_ex (\<lambda>edge. From edge = name) (Edges (Topo cfg))"

fun string_items :: "gval list \<Rightarrow> string list" where
  "string_items [] = []"
| "string_items (VStr text # items) =
     (if text \<noteq> [] then text # string_items items else string_items items)"
| "string_items (_ # items) = string_items items"

definition ArtifactPaths :: "(string, gval) gomap option \<Rightarrow> string list" where
  "ArtifactPaths result =
     (case result of
        None \<Rightarrow> []
      | Some m \<Rightarrow>
          (case map_of m ''file_paths'' of
             Some (VStrs items) \<Rightarrow> filter (\<lambda>item. item \<noteq> []) items
           | Some (VList items) \<Rightarrow> string_items items
           | _ \<Rightarrow> []))"

definition run_before :: "NodeRun \<Rightarrow> NodeRun \<Rightarrow> bool" where
  "run_before a b =
     (if StartedAt a = StartedAt b then RunID a < RunID b else StartedAt a < StartedAt b)"

definition trigger_source :: "BlockedStep \<Rightarrow> string" where
  "trigger_source step = (case StepTrigger step of None \<Rightarrow> [] | Some t \<Rightarrow> TrigRunID t)"

definition step_before :: "BlockedStep \<Rightarrow> BlockedStep \<Rightarrow> bool" where
  "step_before a b =
     (if StepCreatedAt a = StepCreatedAt b then
        (if StepNode a = StepNode b then trigger_source a < trigger_source b
         else StepNode a < StepNode b)
      else StepCreatedAt a < StepCreatedAt b)"

definition deriveTaskStatus :: "Config \<Rightarrow> NodeRun list \<Rightarrow> BlockedStep list \<Rightarrow> TaskStatus" where
  "deriveTaskStatus cfg runs blockedSteps =
     (if list_ex (\<lambda>run. Status run = NodeRunAwaitingUser) runs then TaskStatusAwaitingUser
      else if list_ex (\<lambda>run. Status run = NodeRunRunning) runs then TaskStatusRunning
      else if blockedSteps \<noteq> [] then TaskStatusFailed
      else if HasOpenFailedRuns runs then TaskStatusFailed
      else if list_ex (\<lambda>run. Status run = NodeRunDone \<and> TerminalNodes cfg (NodeName run)) (rev runs)
        then TaskStatusDone
      else TaskStatusRunning)"

definition node_type_of :: "Config \<Rightarrow> string \<Rightarrow> NodeType" where
  "node_type_of cfg name = DefType (node_definition cfg name)"

text \<open>The running maximum of the two loops: the latest instant with its node and the node's type.\<close>

fun latest_step :: "Config \<Rightarrow> int \<Rightarrow> string \<Rightarrow> int \<times> string \<times> NodeType \<Rightarrow> int \<times> string \<times> NodeType" where
  "latest_step cfg at name (latestAt, latestName, latestType) =
     (if latestAt < at \<or> (at = latestAt \<and> latestName = []) then (at, name, node_type_of cfg name)
      else (latestAt, latestName, latestType))"

definition latest_node :: "Config \<Rightarrow> NodeRun list \<Rightarrow> BlockedStep list \<Rightarrow> string \<times> NodeType" where
  "latest_node cfg runs steps =
     snd (fold (\<lambda>step. latest_step cfg (StepCreatedAt step) (StepNode step)) steps
           (fold (\<lambda>run. latest_step cfg (StartedAt run) (NodeName run)) runs (0, [], NodeTypeUnset)))"

definition is_active :: "NodeRun \<Rightarrow> bool" where
  "is_active run \<longleftrightarrow> Status run = NodeRunAwaitingUser \<or> Status run = NodeRunRunning"

definition DeriveTaskView :: "Task \<Rightarrow> Config \<Rightarrow> NodeRun list \<Rightarrow> BlockedStep list \<Rightarrow> TaskView" where
  "DeriveTaskView task cfg runs blockedSteps =
     (let sorted = sort_slice run_before runs;
          sortedBlocked = sort_slice step_before blockedSteps;
          view = \<lparr>ViewTask = task, ViewStatus = TaskStatusDraft, CurrentNodeName = [],
                  CurrentNodeType = NodeTypeUnset, CurrentIssue = None, ArtifactList = [],
                  NodeRuns = [], BlockedSteps = sortedBlocked\<rparr>
      in if sorted = [] \<and> sortedBlocked = [] then view
         else
           (let status = deriveTaskStatus cfg sorted sortedBlocked;
                issue = CurrentIssueForTask cfg sorted sortedBlocked;
                current =
                  (case find is_active (rev sorted) of
                     Some run \<Rightarrow> (NodeName run, node_type_of cfg (NodeName run))
                   | None \<Rightarrow>
                       (case issue of
                          Some i \<Rightarrow>
                            if status = TaskStatusFailed
                            then (IssueNode i, node_type_of cfg (IssueNode i))
                            else latest_node cfg sorted sortedBlocked
                        | None \<Rightarrow> latest_node cfg sorted sortedBlocked))
            in view\<lparr>NodeRuns := map (\<lambda>run. \<lparr>ViewRun = run, ViewRunArtifacts = ArtifactPaths (Result run)\<rparr>) sorted,
                    ArtifactList := concat (map (\<lambda>run. ArtifactPaths (Result run)) sorted),
                    ViewStatus := status, CurrentIssue := issue, CurrentNodeName := fst current,
                    CurrentNodeType := snd current\<rparr>))"

section \<open>Facts about counts and sorting\<close>

interpretation run_sort: key_order run_before "\<lambda>r. (StartedAt r, RunID r)"
  by unfold_locales (auto simp: run_before_def less_prod_def)

interpretation step_sort: key_order step_before "\<lambda>s. (StepCreatedAt s, StepNode s, trigger_source s)"
  by unfold_locales (auto simp: step_before_def less_prod_def)

lemma run_key_inj: "inj_on RunID (set runs) \<Longrightarrow> inj_on (\<lambda>r. (StartedAt r, RunID r)) (set runs)"
  by (auto simp: inj_on_def)

lemma IterationCount_length:
  "IterationCount runs n = int (length (filter (\<lambda>r. NodeName r = n) runs))"
  by (induction runs) auto

lemma IterationCount_append: "IterationCount (xs @ ys) n = IterationCount xs n + IterationCount ys n"
  by (simp add: IterationCount_length)

lemma IterationCount_mset: "mset xs = mset ys \<Longrightarrow> IterationCount xs n = IterationCount ys n"
  by (metis IterationCount_length mset_filter size_mset)

lemma IterationCount_nonneg: "0 \<le> IterationCount runs n"
  by (simp add: IterationCount_length)

lemma IsOpenFailedRun_set: "set runs = set runs' \<Longrightarrow> IsOpenFailedRun runs = IsOpenFailedRun runs'"
  by (auto simp: IsOpenFailedRun_def list_ex_iff fun_eq_iff)

lemma HasOpenFailedRuns_iff: "HasOpenFailedRuns runs \<longleftrightarrow> (\<exists>r\<in>set runs. IsOpenFailedRun runs r)"
  by (simp add: HasOpenFailedRuns_def list_ex_iff)

lemma deriveTaskStatus_set:
  "set runs = set runs' \<Longrightarrow> set steps = set steps' \<Longrightarrow> deriveTaskStatus cfg runs steps = deriveTaskStatus cfg runs' steps'"
  using IsOpenFailedRun_set [of runs runs']
  by (cases steps; cases steps') (simp_all add: deriveTaskStatus_def list_ex_iff HasOpenFailedRuns_iff)

lemma LatestBlockedStep_Some:
  "LatestBlockedStep steps = Some step \<longleftrightarrow> steps \<noteq> [] \<and> step = last steps"
  by (cases steps rule: rev_cases) (auto simp: LatestBlockedStep_def)

lemma LatestBlockedStep_None: "LatestBlockedStep steps = None \<longleftrightarrow> steps = []"
  by (cases steps rule: rev_cases) (auto simp: LatestBlockedStep_def)

lemma latest_failed_agent_Some:
  assumes "latest_failed_agent cfg runs = Some run"
  shows "\<exists>pre post. runs = pre @ run # post \<and> IsOpenFailedRun runs run \<and>
    (\<forall>r\<in>set post. \<not> IsOpenFailedRun runs r) \<and> node_type_of cfg (NodeName run) = NodeTypeAgent"
proof -
  from assms have f: "find (IsOpenFailedRun runs) (rev runs) = Some run"
    and ty: "node_type_of cfg (NodeName run) = NodeTypeAgent"
    by (auto simp: latest_failed_agent_def LatestOpenFailedRun_def node_type_of_def
        split: option.splits if_splits)
  from f obtain i where i: "i < length runs" "IsOpenFailedRun runs run" "run = rev runs ! i"
    "\<forall>j<i. \<not> IsOpenFailedRun runs (rev runs ! j)"
    by (auto simp: find_Some_iff)
  let ?xs = "rev runs"
  have "?xs = take i ?xs @ run # drop (Suc i) ?xs" using i by (simp add: id_take_nth_drop)
  then have "runs = rev (drop (Suc i) ?xs) @ run # rev (take i ?xs)"
    by (metis append.assoc append_Cons append_Nil rev.simps(2) rev_append rev_rev_ident)
  moreover have "\<forall>r\<in>set (rev (take i ?xs)). \<not> IsOpenFailedRun runs r"
    using i(1,4) by (auto simp: in_set_conv_nth)
  ultimately show ?thesis using i(2) ty by blast
qed

section \<open>Properties\<close>

text \<open>
  The status of a task, case by case: awaiting the user exactly when some run awaits input;
  running exactly when some run is running and none awaits input, or when nothing has failed or is
  blocked and no terminal node has completed; failed exactly when no run is active and a step is
  blocked or a failure is open; done exactly when no run is active, no failure open, no step blocked
  and a terminal node has completed.
\<close>

theorem deriveTaskStatus_cases:
  "(deriveTaskStatus cfg runs steps = TaskStatusAwaitingUser \<longleftrightarrow>
      (\<exists>r\<in>set runs. Status r = NodeRunAwaitingUser)) \<and>
   (deriveTaskStatus cfg runs steps = TaskStatusFailed \<longleftrightarrow>
      \<not> (\<exists>r\<in>set runs. is_active r) \<and> (steps \<noteq> [] \<or> (\<exists>r\<in>set runs. IsOpenFailedRun runs r))) \<and>
   (deriveTaskStatus cfg runs steps = TaskStatusDone \<longleftrightarrow>
      \<not> (\<exists>r\<in>set runs. is_active r \<or> IsOpenFailedRun runs r) \<and> steps = [] \<and>
      (\<exists>r\<in>set runs. Status r = NodeRunDone \<and> TerminalNodes cfg (NodeName r))) \<and>
   (deriveTaskStatus cfg runs steps = TaskStatusRunning \<longleftrightarrow>
      \<not> (\<exists>r\<in>set runs. Status r = NodeRunAwaitingUser) \<and>
      ((\<exists>r\<in>set runs. Status r = NodeRunRunning) \<or>
       steps = [] \<and> \<not> (\<exists>r\<in>set runs. IsOpenFailedRun runs r) \<and>
       \<not> (\<exists>r\<in>set runs. Status r = NodeRunDone \<and> TerminalNodes cfg (NodeName r))))"
  by (intro conjI) (auto simp: deriveTaskStatus_def list_ex_iff HasOpenFailedRuns_iff is_active_def)

text \<open>
  The derived view depends only on which runs and blocked steps there are, not on the order in
  which they are handed in (run IDs, and sources of blocked steps, being unique).
\<close>

theorem DeriveTaskView_order_irrelevant:
  assumes "mset runs = mset runs'" and "mset steps = mset steps'"
    and "inj_on RunID (set runs)"
    and "inj_on (\<lambda>s. (StepCreatedAt s, StepNode s, trigger_source s)) (set steps)"
  shows "DeriveTaskView task cfg runs steps = DeriveTaskView task cfg runs' steps'"
  using run_sort.sort_slice_perm [OF assms(1) run_key_inj [OF assms(3)]]
    step_sort.sort_slice_perm [OF assms(2,4)]
  by (simp add: DeriveTaskView_def)

definition demo_run :: "string \<Rightarrow> string \<Rightarrow> NodeRunStatus \<Rightarrow> int \<Rightarrow> NodeRun" where
  "demo_run i node st t =
     \<lparr>RunID = i, RunTaskID = ''t'', NodeName = node, Status = st, SessionID = [], FailureReason = [],
      Result = Some [], Clarifications = [], Trigger = None, StartedAt = t, CompletedAt = None\<rparr>"

definition demo_task :: Task where
  "demo_task =
     \<lparr>TaskID = ''t'', TaskDescription = [], ConfigAlias = [], ConfigPath = [], WorkDir = [],
      ExecutionDir = [], TaskCreatedAt = 0, TaskUpdatedAt = 0\<rparr>"

theorem DeriveTaskView_order_irrelevant_witness:
  "DeriveTaskView demo_task demo_config
     [demo_run ''a'' ''plan'' NodeRunDone 1, demo_run ''b'' ''approve'' NodeRunAwaitingUser 2] [] =
   DeriveTaskView demo_task demo_config
     [demo_run ''b'' ''approve'' NodeRunAwaitingUser 2, demo_run ''a'' ''plan'' NodeRunDone 1] []"
  by (rule DeriveTaskView_order_irrelevant) (auto simp: demo_run_def)

text \<open>
  Starting a retry of a failed run closes that failure and no other one: after a run triggered
  by a manual retry of runID is appended, the open failures are the old ones without runID.
\<close>

theorem retry_closes_exactly_its_target:
  assumes "Trigger retry = Some t" and "IsManualRetryReason (TrigReason t)"
  shows "IsOpenFailedRun (runs @ [retry]) r \<longleftrightarrow> IsOpenFailedRun runs r \<and> RunID r \<noteq> TrigRunID t"
  using assms by (auto simp: IsOpenFailedRun_def retries_def)

theorem retry_closes_exactly_its_target_witness:
  "\<not> IsOpenFailedRun
      ([demo_run ''a'' ''plan'' NodeRunFailed 1] @
       [demo_run ''b'' ''plan'' NodeRunRunning 2\<lparr>Trigger := Some \<lparr>TrigRunID = ''a'', TrigReason = ''manual_retry''\<rparr>\<rparr>])
      (demo_run ''a'' ''plan'' NodeRunFailed 1)"
  by (subst retry_closes_exactly_its_target
        [where t = "\<lparr>TrigRunID = ''a'', TrigReason = ''manual_retry''\<rparr>"])
     (simp_all add: demo_run_def IsManualRetryReason_def reason_defs)

text \<open>
  A recovery target is real: a failed-run target is the latest open failed run of the task, at
  an agent node, and can be retried without force exactly while the node has iterations left; a
  blocked-step target is the latest blocked step and always needs force.
\<close>

theorem RecoveryTargetForTask_sound:
  assumes "RecoveryTargetForTask cfg runs steps = Some target"
  shows "(TargetKind target = RecoveryTargetFailedRun \<longrightarrow>
      (\<exists>run pre post. TargetRun target = Some run \<and> runs = pre @ run # post \<and>
         IsOpenFailedRun runs run \<and> (\<forall>r\<in>set post. \<not> IsOpenFailedRun runs r) \<and>
         node_type_of cfg (NodeName run) = NodeTypeAgent \<and>
         (RetryAllowed target \<longleftrightarrow> IterationCount runs (NodeName run) < MaxIterationsForNode cfg (NodeName run)))) \<and>
    (TargetKind target = RecoveryTargetBlockedStep \<longrightarrow>
      steps \<noteq> [] \<and> TargetStep target = Some (last steps) \<and> \<not> RetryAllowed target)"
proof (cases "latest_failed_agent cfg runs")
  case None
  with assms obtain step where "LatestBlockedStep steps = Some step"
      "target = blockedStepRecoveryTarget cfg step"
    by (auto simp: RecoveryTargetForTask_def split: option.splits)
  then show ?thesis by (auto simp: LatestBlockedStep_Some blockedStepRecoveryTarget_def)
next
  case (Some run)
  with assms have "target = failedRunRecoveryTarget cfg runs run \<or>
      (steps \<noteq> [] \<and> target = blockedStepRecoveryTarget cfg (last steps))"
    by (auto simp: RecoveryTargetForTask_def LatestBlockedStep_Some split: option.splits if_splits)
  moreover have ?thesis if "target = failedRunRecoveryTarget cfg runs run"
    using latest_failed_agent_Some [OF Some] unfolding that
    by (simp add: failedRunRecoveryTarget_def Let_def add1_zle_eq)
  ultimately show ?thesis by (auto simp: blockedStepRecoveryTarget_def)
qed

theorem RecoveryTargetForTask_sound_witness:
  "\<exists>target. RecoveryTargetForTask demo_config [demo_run ''a'' ''plan'' NodeRunFailed 1] [] = Some target \<and>
     TargetKind target = RecoveryTargetFailedRun \<and> RetryAllowed target"
proof -
  have "\<exists>target. RecoveryTargetForTask demo_config [demo_run ''a'' ''plan'' NodeRunFailed 1] [] = Some target \<and>
      TargetKind target = RecoveryTargetFailedRun"
    by (simp add: RecoveryTargetForTask_def latest_failed_agent_def LatestOpenFailedRun_def
        IsOpenFailedRun_def retries_def LatestBlockedStep_def failedRunRecoveryTarget_def Let_def
        demo_run_def demo_config_def node_definition_def zero_definition_def)
  then obtain target where t: "RecoveryTargetForTask demo_config [demo_run ''a'' ''plan'' NodeRunFailed 1] [] = Some target"
      "TargetKind target = RecoveryTargetFailedRun" by blast
  from RecoveryTargetForTask_sound [OF t(1)] t(2) have "RetryAllowed target"
    by (auto simp: Cons_eq_append_conv demo_run_def demo_config_def demo_topology_def MaxIterationsForNode_def plain_node_def)
  with t show ?thesis by blast
qed

end
