(* ===== verification/Engine.thy ===== *)
theory Engine
  imports Domain
begin

text \<open>
  The workflow engine (cli/internal/taskengine/engine.go): which node runs follow a completed run.
  Every run carries the token of the run that started its lineage; completed runs send arrivals
  along their edges, and a node starts for a token when its join is satisfied.
\<close>

section \<open>State\<close>

record arrival =
  Token :: string
  FromNode :: string
  FromRunID :: string
  ArrivalReason :: string

record Transition =
  TransTo :: string
  TransReason :: string
  TransToken :: string
  TransTrigger :: TriggeredBy

record BlockedTransition =
  BlockedTo :: string
  BlockedReason :: string
  BlockedToken :: string
  BlockedTrigger :: TriggeredBy
  BlockedFailureReason :: string

record Resolution =
  Transitions :: "Transition list"
  Blocked :: "BlockedTransition list"
  TaskDone :: bool

text \<open>
  The maps of Engine.  An inner map that is missing reads as an empty one in Go, so startedNodes and
  pending are total in the task (and the token).
\<close>

type_synonym pending_map = "(string, arrival list) gomap"

record Engine =
  runTokens :: "string \<Rightarrow> string option"
  startedNodes :: "string \<Rightarrow> string \<Rightarrow> string set"
  pending :: "string \<Rightarrow> pending_map"

definition New :: Engine where
  "New = \<lparr>runTokens = (\<lambda>_. None), startedNodes = (\<lambda>_ _. {}), pending = (\<lambda>_. [])\<rparr>"

definition HasRun :: "Engine \<Rightarrow> string \<Rightarrow> bool" where
  "HasRun e runID \<longleftrightarrow> runTokens e runID \<noteq> None"

definition run_token :: "Engine \<Rightarrow> string \<Rightarrow> string" where
  "run_token e runID = (case runTokens e runID of None \<Rightarrow> [] | Some token \<Rightarrow> token)"

definition registerRunLocked :: "Engine \<Rightarrow> string \<Rightarrow> NodeRun \<Rightarrow> string \<Rightarrow> Engine" where
  "registerRunLocked e taskID run token =
     (let token = (if token = [] then RunID run else token);
          started = startedNodes e taskID
      in e\<lparr>runTokens := (runTokens e)(RunID run \<mapsto> token),
           startedNodes := (startedNodes e)
             (taskID := started(token := insert (NodeName run) (started token)))\<rparr>)"

definition RegisterEntryRun :: "Engine \<Rightarrow> string \<Rightarrow> NodeRun \<Rightarrow> Engine" where
  "RegisterEntryRun e taskID run = registerRunLocked e taskID run (RunID run)"

definition RegisterTriggeredRun :: "Engine \<Rightarrow> string \<Rightarrow> NodeRun \<Rightarrow> string \<Rightarrow> Engine" where
  "RegisterTriggeredRun e taskID run parentRunID =
     (let token = run_token e parentRunID;
          token = (if token = [] then parentRunID else token)
      in registerRunLocked e taskID run token)"

section \<open>Edges\<close>

definition outgoingEdges :: "Config \<Rightarrow> string \<Rightarrow> Edge list" where
  "outgoingEdges cfg nodeName = filter (\<lambda>edge. From edge = nodeName) (Edges (Topo cfg))"

definition matchesCondition ::
  "go_env \<Rightarrow> (string, gval) gomap option \<Rightarrow> EdgeCondition \<Rightarrow> bool" where
  "matchesCondition env result when =
     (case result of
        None \<Rightarrow> False
      | Some m \<Rightarrow>
          (case map_of m (CondField when) of
             None \<Rightarrow> False
           | Some v \<Rightarrow> ValuesEqual env v (Equals when)))"

datatype engine_error = NoEdgeMatched

definition route :: "string \<Rightarrow> string \<Rightarrow> Transition" where
  "route target reason =
     \<lparr>TransTo = target, TransReason = reason, TransToken = [],
      TransTrigger = \<lparr>TrigRunID = [], TrigReason = []\<rparr>\<rparr>"

definition matched_edges :: "go_env \<Rightarrow> (string, gval) gomap option \<Rightarrow> Edge list \<Rightarrow> Edge list" where
  "matched_edges env result edges =
     filter (\<lambda>edge. Kind (When edge) = ConditionWhen \<and> matchesCondition env result (When edge)) edges"

definition evaluateEdges ::
  "go_env \<Rightarrow> (string, gval) gomap option \<Rightarrow> Edge list \<Rightarrow> engine_error + Transition list" where
  "evaluateEdges env result edges =
     (if edges = [] then Inr []
      else if list_ex (\<lambda>edge. Kind (When edge) = ConditionNone) edges then
        Inr (map (\<lambda>edge. route (To edge) (''edge: '' @ From edge @ '' -> '' @ To edge)) edges)
      else
        (let matched = matched_edges env result edges;
             elseEdge = find (\<lambda>edge. Kind (When edge) = ConditionElse) (rev edges)
         in if matched \<noteq> [] then
              Inr (map (\<lambda>edge. route (To edge)
                     (''edge: '' @ CondField (When edge) @ ''='' @ fmt_v env (Equals (When edge)))) matched)
            else
              (case elseEdge of
                 Some edge \<Rightarrow> Inr [route (To edge) ''edge: else'']
               | None \<Rightarrow> Inl NoEdgeMatched)))"

section \<open>Joins\<close>

definition incomingNodesForToken :: "string set \<Rightarrow> Config \<Rightarrow> string \<Rightarrow> string set" where
  "incomingNodesForToken started cfg target =
     set (map From (filter (\<lambda>edge. To edge = target \<and> From edge \<in> started) (Edges (Topo cfg))))"

definition token_ready :: "Config \<Rightarrow> string set \<Rightarrow> string \<Rightarrow> arrival list \<Rightarrow> bool" where
  "token_ready cfg started nodeName items =
     (if nodeName \<in> started then 0 < length items
      else
        (case JoinOrDefault (topology_node (Topo cfg) nodeName) of
           JoinAny \<Rightarrow> 0 < length items
         | _ \<Rightarrow>
             (let required = incomingNodesForToken started cfg nodeName;
                  arrived = set (map FromNode items)
              in 0 < card required \<and> card arrived = card required)))"

definition arrivals_at :: "pending_map \<Rightarrow> string \<Rightarrow> arrival list" where
  "arrivals_at pend nodeName = (case map_of pend nodeName of None \<Rightarrow> [] | Some items \<Rightarrow> items)"

definition token_items :: "string \<Rightarrow> arrival list \<Rightarrow> arrival list" where
  "token_items token items = filter (\<lambda>item. Token item = token) items"

definition take_token :: "string \<Rightarrow> string \<Rightarrow> pending_map \<Rightarrow> pending_map" where
  "take_token nodeName token pend =
     (let remaining = filter (\<lambda>item. Token item \<noteq> token) (arrivals_at pend nodeName)
      in if remaining = [] then map_del nodeName pend else map_put nodeName remaining pend)"

text \<open>
  The inner loop of consumeReadyLocked, over the tokens of one node: groups holds the node's arrivals
  as they were when the loop began.
\<close>

fun consume_tokens ::
  "Config \<Rightarrow> (string \<Rightarrow> string set) \<Rightarrow> string \<Rightarrow> (string \<Rightarrow> arrival list) \<Rightarrow> string list \<Rightarrow>
   pending_map \<Rightarrow> Transition list \<times> pending_map" where
  "consume_tokens cfg started nodeName groups [] pend = ([], pend)"
| "consume_tokens cfg started nodeName groups (token # tokens) pend =
     (case (token_ready cfg (started token) nodeName (groups token), groups token) of
        (True, first # _) \<Rightarrow>
          (let (ts, pend') = consume_tokens cfg started nodeName groups tokens
                               (take_token nodeName token pend)
           in (\<lparr>TransTo = nodeName, TransReason = ArrivalReason first, TransToken = token,
                TransTrigger = \<lparr>TrigRunID = FromRunID first, TrigReason = ArrivalReason first\<rparr>\<rparr> # ts,
               pend'))
      | _ \<Rightarrow> consume_tokens cfg started nodeName groups tokens pend)"

fun consume_nodes ::
  "go_env \<Rightarrow> Config \<Rightarrow> (string \<Rightarrow> string set) \<Rightarrow> string list \<Rightarrow> pending_map \<Rightarrow>
   Transition list \<times> pending_map" where
  "consume_nodes env cfg started [] pend = ([], pend)"
| "consume_nodes env cfg started (nodeName # nodes) pend =
     (let items = arrivals_at pend nodeName;
          (ts, pend') = consume_tokens cfg started nodeName (\<lambda>token. token_items token items)
                          (map_order env (remdups (map Token items))) pend;
          (ts', pend'') = consume_nodes env cfg started nodes pend'
      in (ts @ ts', pend''))"

definition consumeReadyLocked ::
  "go_env \<Rightarrow> Config \<Rightarrow> (string \<Rightarrow> string set) \<Rightarrow> pending_map \<Rightarrow> Transition list \<times> pending_map" where
  "consumeReadyLocked env cfg started pend =
     consume_nodes env cfg started (sort (map_keys pend)) pend"

section \<open>Completion\<close>

definition exceedsIterations :: "Config \<Rightarrow> NodeRun list \<Rightarrow> string \<Rightarrow> bool" where
  "exceedsIterations cfg runs nodeName \<longleftrightarrow>
     MaxIterationsForNode cfg nodeName \<le> IterationCount runs nodeName"

definition hasPendingArrivals :: "pending_map \<Rightarrow> bool" where
  "hasPendingArrivals pend \<longleftrightarrow> list_ex (\<lambda>(_, items). 0 < length items) pend"

fun finished_scan :: "Config \<Rightarrow> NodeRun list \<Rightarrow> bool \<Rightarrow> bool option" where
  "finished_scan cfg [] doneTerminal = Some doneTerminal"
| "finished_scan cfg (run # runs) doneTerminal =
     (case Status run of
        NodeRunRunning \<Rightarrow> None
      | NodeRunAwaitingUser \<Rightarrow> None
      | NodeRunDone \<Rightarrow> finished_scan cfg runs (if TerminalNodes cfg (NodeName run) then True else doneTerminal)
      | NodeRunFailed \<Rightarrow> finished_scan cfg runs doneTerminal)"

definition taskFinished :: "Config \<Rightarrow> NodeRun list \<Rightarrow> bool" where
  "taskFinished cfg runs =
     (case finished_scan cfg runs False of
        None \<Rightarrow> False
      | Some doneTerminal \<Rightarrow> if HasOpenFailedRuns runs then False else doneTerminal)"

definition exceeded_reason :: "string \<Rightarrow> string" where
  "exceeded_reason nodeName = ''node '' @ go_quote nodeName @ '' exceeded max_iterations''"

definition block :: "Transition \<Rightarrow> BlockedTransition" where
  "block next =
     \<lparr>BlockedTo = TransTo next, BlockedReason = TransReason next, BlockedToken = TransToken next,
      BlockedTrigger = TransTrigger next, BlockedFailureReason = exceeded_reason (TransTo next)\<rparr>"

definition add_arrival :: "string \<Rightarrow> NodeRun \<Rightarrow> Transition \<Rightarrow> pending_map \<Rightarrow> pending_map" where
  "add_arrival token run next pend =
     map_put (TransTo next)
       (arrivals_at pend (TransTo next) @
        [\<lparr>Token = token, FromNode = NodeName run, FromRunID = RunID run, ArrivalReason = TransReason next\<rparr>])
       pend"

text \<open>The engine once the completing run has a token, and that token.\<close>

definition ensure_token :: "Engine \<Rightarrow> string \<Rightarrow> NodeRun \<Rightarrow> string \<times> Engine" where
  "ensure_token e taskID run =
     (let token = run_token e (RunID run)
      in if token = [] then (RunID run, registerRunLocked e taskID run (RunID run)) else (token, e))"

definition ResolveCompletion ::
  "go_env \<Rightarrow> Engine \<Rightarrow> Config \<Rightarrow> string \<Rightarrow> NodeRun list \<Rightarrow> NodeRun \<Rightarrow>
   (engine_error + Resolution) \<times> Engine" where
  "ResolveCompletion env e cfg taskID runs run =
     (case evaluateEdges env (Result run) (outgoingEdges cfg (NodeName run)) of
        Inl err \<Rightarrow> (Inl err, e)
      | Inr arrivals \<Rightarrow>
          (let (token, e) = ensure_token e taskID run;
               pend = fold (add_arrival token run) arrivals (pending e taskID);
               (ready, pend) = consumeReadyLocked env cfg (startedNodes e taskID) pend;
               transitions = filter (\<lambda>next. \<not> exceedsIterations cfg runs (TransTo next)) ready;
               blocked = map block (filter (\<lambda>next. exceedsIterations cfg runs (TransTo next)) ready)
           in (Inr \<lparr>Transitions = transitions, Blocked = blocked,
                    TaskDone = (transitions = [] \<and> blocked = [] \<and> \<not> hasPendingArrivals pend \<and>
                                taskFinished cfg runs)\<rparr>,
               e\<lparr>pending := (pending e)(taskID := pend)\<rparr>)))"

section \<open>Blocked steps of a history\<close>

definition completionTimestamp :: "NodeRun \<Rightarrow> int" where
  "completionTimestamp run = (case CompletedAt run of Some t \<Rightarrow> t | None \<Rightarrow> StartedAt run)"

definition blockedStepKey :: "string \<Rightarrow> string \<Rightarrow> string" where
  "blockedStepKey sourceRunID nodeName = sourceRunID @ ''->'' @ nodeName"

definition isLegacyBlockedSurrogate :: "NodeRun \<Rightarrow> string \<Rightarrow> bool" where
  "isLegacyBlockedSurrogate run expectedNodeName \<longleftrightarrow>
     NodeName run = expectedNodeName \<and> Status run = NodeRunFailed \<and> Trigger run \<noteq> None \<and>
     sublist ''exceeded max_iterations'' (FailureReason run)"

text \<open>The loop state of DeriveBlockedSteps; order may hold a key more than once.\<close>

record replay =
  repEngine :: Engine
  repHistory :: "NodeRun list"
  repByID :: "string \<Rightarrow> NodeRun option"
  repOpen :: "(string, BlockedStep) gomap"
  repOrder :: "string list"

definition init_replay :: replay where
  "init_replay =
     \<lparr>repEngine = New, repHistory = [], repByID = (\<lambda>_. None), repOpen = [], repOrder = []\<rparr>"

text \<open>A run that continues or retries a blocked step closes it.\<close>

definition closed_key :: "replay \<Rightarrow> NodeRun \<Rightarrow> TriggeredBy \<Rightarrow> string option" where
  "closed_key s run t =
     (if IsManualContinueReason (TrigReason t) then Some (blockedStepKey (TrigRunID t) (NodeName run))
      else if IsManualRetryReason (TrigReason t) then
        (case repByID s (TrigRunID t) of
           None \<Rightarrow> None
         | Some parent \<Rightarrow>
             if isLegacyBlockedSurrogate parent (NodeName run)
             then map_option (\<lambda>pt. blockedStepKey (TrigRunID pt) (NodeName run)) (Trigger parent)
             else None)
      else None)"

definition close_step :: "replay \<Rightarrow> NodeRun \<Rightarrow> TriggeredBy \<Rightarrow> (string, BlockedStep) gomap" where
  "close_step s run t =
     (case closed_key s run t of None \<Rightarrow> repOpen s | Some key \<Rightarrow> map_del key (repOpen s))"

definition replay_register :: "string \<Rightarrow> NodeRun \<Rightarrow> replay \<Rightarrow> replay" where
  "replay_register taskID run s =
     (let s = (case Trigger run of
                 None \<Rightarrow> s\<lparr>repEngine := RegisterEntryRun (repEngine s) taskID run\<rparr>
               | Some t \<Rightarrow>
                   s\<lparr>repOpen := close_step s run t,
                     repEngine := RegisterTriggeredRun (repEngine s) taskID run (TrigRunID t)\<rparr>)
      in s\<lparr>repHistory := repHistory s @ [run], repByID := (repByID s)(RunID run \<mapsto> run)\<rparr>)"

text \<open>The loop over the blocked transitions of one completion; counts is blockedIterations.\<close>

definition next_iteration :: "(string \<Rightarrow> int) \<Rightarrow> NodeRun list \<Rightarrow> string \<Rightarrow> int" where
  "next_iteration counts history target =
     (if counts target = 0 then IterationCount history target + 1 else counts target)"

fun replay_blocked ::
  "NodeRun \<Rightarrow> BlockedTransition list \<Rightarrow> (string \<Rightarrow> int) \<Rightarrow> replay \<Rightarrow> replay" where
  "replay_blocked run [] counts s = s"
| "replay_blocked run (b # bs) counts s =
     (let nextIteration = next_iteration counts (repHistory s) (BlockedTo b);
          key = blockedStepKey (TrigRunID (BlockedTrigger b)) (BlockedTo b);
          order = (if map_of (repOpen s) key = None then repOrder s @ [key] else repOrder s);
          step = \<lparr>StepNode = BlockedTo b, StepIteration = nextIteration,
                  StepReason = BlockedFailureReason b, StepTrigger = Some (BlockedTrigger b),
                  StepCreatedAt = completionTimestamp run\<rparr>
      in replay_blocked run bs (counts(BlockedTo b := nextIteration + 1))
           (s\<lparr>repOrder := order, repOpen := map_put key step (repOpen s)\<rparr>))"

definition replay_run ::
  "go_env \<Rightarrow> Config \<Rightarrow> string \<Rightarrow> NodeRun \<Rightarrow> replay \<Rightarrow> engine_error + replay" where
  "replay_run env cfg taskID run s =
     (let s = replay_register taskID run s
      in if Status run \<noteq> NodeRunDone then Inr s
         else
           (case ResolveCompletion env (repEngine s) cfg taskID (repHistory s) run of
              (Inl err, e) \<Rightarrow> Inl err
            | (Inr resolution, e) \<Rightarrow>
                Inr (replay_blocked run (Blocked resolution) (\<lambda>_. 0) (s\<lparr>repEngine := e\<rparr>))))"

fun replay_loop ::
  "go_env \<Rightarrow> Config \<Rightarrow> string \<Rightarrow> NodeRun list \<Rightarrow> replay \<Rightarrow> engine_error + replay" where
  "replay_loop env cfg taskID [] s = Inr s"
| "replay_loop env cfg taskID (run # runs) s =
     (case replay_run env cfg taskID run s of
        Inl err \<Rightarrow> Inl err
      | Inr s' \<Rightarrow> replay_loop env cfg taskID runs s')"

definition blocked_before :: "BlockedStep \<Rightarrow> BlockedStep \<Rightarrow> bool" where
  "blocked_before a b =
     (if StepCreatedAt a = StepCreatedAt b
      then blockedStepKey (trigger_source a) (StepNode a) < blockedStepKey (trigger_source b) (StepNode b)
      else StepCreatedAt a < StepCreatedAt b)"

definition DeriveBlockedSteps ::
  "go_env \<Rightarrow> Config \<Rightarrow> NodeRun list \<Rightarrow> engine_error + BlockedStep list" where
  "DeriveBlockedSteps env cfg runs =
     (case sort_slice run_before runs of
        [] \<Rightarrow> Inr []
      | first # rest \<Rightarrow>
          (case replay_loop env cfg (RunTaskID first) (first # rest) init_replay of
             Inl err \<Rightarrow> Inl err
           | Inr s \<Rightarrow>
               Inr (sort_slice blocked_before
                      (List.map_filter (map_of (repOpen s)) (repOrder s)))))"

end
