(* ===== verification/Routing.thy ===== *)
theory Routing
  imports Engine
begin

text \<open>
  Routing of completed runs through the edges of a validated configuration: an agent's output always
  finds an edge, a conditional group takes exactly one, and a human payload does as long as it
  carries the field the group branches on.
\<close>

section \<open>Scalar fields\<close>

lemma scalar_key_or_json:
  assumes "env_ok env" "scalar_kind ty v"
  shows "comparableValueKey env v \<noteq> None \<or> marshal_json env v = None"
proof (cases v)
  case (VFloat f)
  then show ?thesis using env_ok_json [OF assms(1), of f] by (cases "normalizeFloatKey env f") auto
qed (use assms(2) in \<open>auto simp: scalar_kind_def\<close>)

lemma ValuesEqual_scalar:
  assumes "env_ok env" "scalar_kind ty v" "comparableValueKey env w = Some k"
  shows "ValuesEqual env v w \<longleftrightarrow> comparableValueKey env v = Some k"
  using scalar_key_or_json [OF assms(1,2)] assms(3)
  by (auto simp: ValuesEqual_def split: option.splits)

lemma enumCovered_None:
  "enumCovered env seen cs = None \<longleftrightarrow> (\<forall>c\<in>set cs. \<exists>k\<in>set seen. comparableValueKey env c = Some k)"
  by (induction cs) (auto split: option.splits)

lemma conditionalFieldSchema_Inr:
  assumes "conditionalFieldSchema root field = Inr t"
  shows "Type root = ''object''" "OneOf root = []" "map_of (Properties root) field = Some (Some t)"
    "OneOf t = []" "Type t \<in> {''boolean'', ''string'', ''integer'', ''number''}"
  using assms by (auto simp: conditionalFieldSchema_def split: if_splits option.splits)

text \<open>A value of the field's schema has one of the keys the group covers, or there is an else edge.\<close>

lemma exhaustive_covers:
  assumes "env_ok env" "OneOf t = []" "Type t \<in> {''boolean'', ''string'', ''integer'', ''number''}"
    and "validateConditionExhaustiveness env t keys hasElse = None" "\<not> hasElse" "conforms env t v"
  shows "\<exists>k\<in>set keys. comparableValueKey env v = Some k"
proof -
  from assms(2,3,6) have sk: "scalar_kind (Type t) v"
    and en: "Enum t = [] \<or> (\<exists>c\<in>set (Enum t). ValuesEqual env c v)"
    by (auto simp: conforms_by_type)
  show ?thesis
  proof (cases "Type t = ''boolean''")
    case True
    with sk have "isBoolValue v" by (auto simp: scalar_kind_def)
    with True assms(4,5) show ?thesis using isBoolValue_key [of v env]
      by (auto simp: validateConditionExhaustiveness_def split: if_splits)
  next
    case False
    with assms(3-5) have "Enum t \<noteq> []" "enumCovered env keys (Enum t) = None"
      by (auto simp: validateConditionExhaustiveness_def split: if_splits)
    with en obtain c k where "ValuesEqual env c v" "k \<in> set keys" "comparableValueKey env c = Some k"
      by (auto simp: enumCovered_None)
    with ValuesEqual_scalar [OF assms(1) sk] show ?thesis by (auto simp: ValuesEqual_sym)
  qed
qed

section \<open>Groups\<close>

lemma matched_edges_when:
  assumes "conditional_group env def es field t keys" "map_of obj field = Some v"
    "env_ok env" "scalar_kind ty v"
  shows "matched_edges env (Some obj) es =
    filter (\<lambda>e. comparableValueKey env (Equals (When e)) = comparableValueKey env v) (when_edges es)"
proof -
  have "Kind (When e) = ConditionWhen \<and> matchesCondition env (Some obj) (When e) \<longleftrightarrow>
      Kind (When e) = ConditionWhen \<and> comparableValueKey env (Equals (When e)) = comparableValueKey env v"
    if e: "e \<in> set es" for e
  proof (cases "Kind (When e) = ConditionWhen")
    case True
    with e assms(1) have f: "CondField (When e) = field"
      and "comparableValueKey env (Equals (When e)) \<in> set (map Some keys)"
      unfolding conditional_group_def by (simp, metis (mono_tags, lifting) True e filter_set image_eqI list.set_map mem_Collect_eq set_filter)
    then obtain k where k: "comparableValueKey env (Equals (When e)) = Some k" by auto
    with f assms(2) ValuesEqual_scalar [OF assms(3,4) k] True show ?thesis
      by (auto simp: matchesCondition_def)
  qed simp
  then show ?thesis unfolding matched_edges_def filter_filter
    by (intro filter_cong) auto
qed

lemma distinct_map_filter_one:
  assumes "distinct (map f xs)" "y \<in> f ` set xs"
  shows "\<exists>x. filter (\<lambda>x. f x = y) xs = [x]"
  using assms
proof (induction xs)
  case (Cons x xs)
  show ?case
  proof (cases "f x = y")
    case True
    with Cons.prems(1) have "\<forall>z\<in>set xs. f z \<noteq> y" by simp (metis image_eqI)
    then have "filter (\<lambda>x. f x = y) xs = []" by (simp add: filter_empty_conv)
    with True show ?thesis by simp
  qed (use Cons in auto)
qed simp

lemma length_filter_distinct_map:
  assumes "distinct (map f xs)"
  shows "length (filter (\<lambda>x. f x = y) xs) \<le> 1"
proof (cases "y \<in> f ` set xs")
  case True
  from distinct_map_filter_one [OF assms this] show ?thesis by auto
next
  case False
  then have "filter (\<lambda>x. f x = y) xs = []" by (auto simp: filter_empty_conv)
  then show ?thesis by simp
qed

lemma conditional_group_routes:
  assumes g: "conditional_group env def es field t keys" and v: "map_of obj field = Some v"
    and c: "conforms env t v" and env: "env_ok env"
  shows "\<exists>e\<in>set es. \<exists>reason. evaluateEdges env (Some obj) es = Inr [route (To e) reason]"
proof -
  have t: "OneOf t = []" "Type t \<in> {''boolean'', ''string'', ''integer'', ''number''}"
    using g conditionalFieldSchema_Inr unfolding conditional_group_def by blast+
  then have sk: "scalar_kind (Type t) v" using c by (auto simp: conforms_by_type)
  note m = matched_edges_when [OF g v env sk]
  have d: "distinct (map (\<lambda>e. comparableValueKey env (Equals (When e))) (when_edges es))"
    and keys: "map (\<lambda>e. comparableValueKey env (Equals (When e))) (when_edges es) = map Some keys"
    and ne: "es \<noteq> []" and kinds: "\<not> list_ex (\<lambda>e. Kind (When e) = ConditionNone) es"
    and ex: "validateConditionExhaustiveness env t keys (\<exists>e\<in>set es. Kind (When e) = ConditionElse) = None"
    using g by (auto simp: conditional_group_def distinct_map list_ex_iff)
  show ?thesis
  proof (cases "matched_edges env (Some obj) es = []")
    case False
    then obtain x where "matched_edges env (Some obj) es = [x]"
      using length_filter_distinct_map [OF d, of "comparableValueKey env v"] unfolding m
      by (metis (no_types, lifting) One_nat_def length_0_conv length_Suc_conv le_Suc_eq le_zero_eq)
    moreover from this have "x \<in> set es" unfolding matched_edges_def
      by (metis (no_types, lifting) list.set_intros(1) mem_Collect_eq set_filter)
    ultimately show ?thesis using ne kinds by (auto simp: evaluateEdges_def)
  next
    case True
    then have none: "\<forall>e\<in>set (when_edges es). comparableValueKey env (Equals (When e)) \<noteq> comparableValueKey env v"
      unfolding m by (simp add: filter_empty_conv)
    have "comparableValueKey env v \<noteq> Some k" if "k \<in> set keys" for k
    proof -
      from that have "Some k \<in> set (map (\<lambda>e. comparableValueKey env (Equals (When e))) (when_edges es))"
        unfolding keys by simp
      with none show ?thesis by force
    qed
    then have "\<not> (\<exists>k\<in>set keys. comparableValueKey env v = Some k)" by blast
    then have "\<exists>e\<in>set es. Kind (When e) = ConditionElse"
      using exhaustive_covers [OF env t ex _ c] by blast
    then obtain e where e: "find (\<lambda>e. Kind (When e) = ConditionElse) (rev es) = Some e"
      by (cases "find (\<lambda>e. Kind (When e) = ConditionElse) (rev es)") (auto simp: find_None_iff)
    then have "e \<in> set (rev es)" unfolding find_Some_iff by (metis nth_mem)
    with True ne kinds e show ?thesis by (auto simp: evaluateEdges_def)
  qed
qed

lemma unconditional_group_routes:
  assumes "\<forall>e\<in>set es. Kind (When e) = ConditionNone"
  shows "\<exists>ts. evaluateEdges env result es = Inr ts \<and> map TransTo ts = map To es"
proof (cases es)
  case (Cons a list)
  with assms show ?thesis by (simp add: evaluateEdges_def route_def)
qed (simp add: evaluateEdges_def)

lemma outgoingEdges_edges_of: "outgoingEdges cfg n = edges_of cfg n"
  by (simp add: outgoingEdges_def)

lemma edges_of_node:
  assumes "well_formed_graph env cfg" "edges_of cfg n \<noteq> []"
  shows "n \<in> set (node_names cfg)"
  using assms by (auto simp: well_formed_graph_def filter_empty_conv)

lemma node_group:
  assumes "well_formed_graph env cfg" "n \<in> set (node_names cfg)"
  shows "(\<forall>e\<in>set (edges_of cfg n). Kind (When e) = ConditionNone) \<or>
    (\<exists>field t keys. conditional_group env (node_definition cfg n) (edges_of cfg n) field t keys)"
  using assms unfolding well_formed_graph_def by (intro validateEdgeGroup_cases) blast

lemma object_field:
  assumes "conforms env s (VMap obj)" "OneOf s = []" "Type s = ''object''"
    "map_of (Properties s) field = Some (Some t)" "map_of obj field = Some v"
  shows "conforms env t v"
  using assms map_of_SomeD [OF assms(5)] by (force simp: conforms_by_type entry_conforms_def)

lemma agent_schema:
  assumes "well_formed_graph env cfg" "n \<in> set (node_names cfg)" "node_type_of cfg n = NodeTypeAgent"
  shows "Type (ResultSchema (node_definition cfg n)) = ''object''"
    "OneOf (ResultSchema (node_definition cfg n)) = []"
    "validateAgentStructuredOutputSchema env [] (Some (ResultSchema (node_definition cfg n))) = None"
proof -
  have "validateNodeDefinition env (node_definition cfg n) = None"
    using assms(1,2) by (auto simp: well_formed_graph_def)
  with assms(3) show "Type (ResultSchema (node_definition cfg n)) = ''object''"
    "OneOf (ResultSchema (node_definition cfg n)) = []"
    "validateAgentStructuredOutputSchema env [] (Some (ResultSchema (node_definition cfg n))) = None"
    by (auto simp: validateNodeDefinition_def node_type_of_def split: if_splits option.splits)
qed

section \<open>Properties\<close>



text \<open>
  A human payload that passes the node's result schema and carries the field its conditional
  edges read takes exactly one of them.
\<close>

theorem human_choice_is_routed:
  assumes "env_ok env" and "well_formed_config env cfg" and "n \<in> set (node_names cfg)"
    and "ValidateValue env (Some (ResultSchema (node_definition cfg n))) (VMap obj) = None"
    and "e \<in> set (edges_of cfg n)" and "Kind (When e) = ConditionWhen"
    and "map_of obj (CondField (When e)) = Some v"
  shows "\<exists>e'\<in>set (edges_of cfg n). \<exists>reason.
    evaluateEdges env (Some obj) (outgoingEdges cfg n) = Inr [route (To e') reason]"
proof -
  from assms(2) have wf: "well_formed_graph env cfg" by (simp add: well_formed_config_def)
  let ?s = "ResultSchema (node_definition cfg n)"
  from assms(4) have conf: "conforms env ?s (VMap obj)"
    by (simp add: ValidateValue_def validate_sound_complete(1))
  from node_group [OF wf assms(3)] assms(5,6) obtain field t keys
    where g: "conditional_group env (node_definition cfg n) (edges_of cfg n) field t keys" by fastforce
  then have cs: "conditionalFieldSchema ?s field = Inr t" and f: "CondField (When e) = field"
    using assms(5,6) by (auto simp: conditional_group_def)
  note s = conditionalFieldSchema_Inr [OF cs]
  from conditional_group_routes [OF g _ object_field [OF conf s(2,1,3)] assms(1)] assms(7) f
  show ?thesis unfolding outgoingEdges_edges_of by blast
qed

theorem human_choice_is_routed_witness:
  "\<exists>e'\<in>set (edges_of demo_config ''approve''). \<exists>reason.
     evaluateEdges plain_env (Some [(''approved'', VBool True)]) (outgoingEdges demo_config ''approve'') =
       Inr [route (To e') reason]"
proof (rule human_choice_is_routed
    [where e = "when_edge ''approve'' ''done'' ''approved'' (VBool True)" and v = "VBool True"])
  show "well_formed_config plain_env demo_config" by (rule demo_well_formed)
  show "ValidateValue plain_env (Some (ResultSchema (node_definition demo_config ''approve'')))
      (VMap [(''approved'', VBool True)]) = None"
    by (simp add: ValidateValue_def validateValue.simps demo_simps scalar_error_def)
qed (simp_all add: demo_simps, simp add: plain_env_def [symmetric])

text \<open>
  A variant of the approval node whose branching field is declared but not required.  The
  configuration is still accepted.
\<close>

definition optional_schema :: JSONSchema where
  "optional_schema =
     JSONSchema ''object'' (Some False) []
       [(''approved'', Some (JSONSchema ''boolean'' None [] [] None [] [] None None))]
       None [] [] None None"

definition optional_config :: Config where
  "optional_config = demo_config\<lparr>NodeDefinitions :=
     [(''plan'', zero_definition\<lparr>DefType := NodeTypeAgent, SystemPrompt := ''p'', ResultSchema := plan_schema\<rparr>),
      (''approve'', zero_definition\<lparr>DefType := NodeTypeHuman, ResultSchema := optional_schema\<rparr>),
      (''done'', zero_definition\<lparr>DefType := NodeTypeTerminal\<rparr>)]\<rparr>"

text \<open>
  Validate accepts a human node that branches on an optional field without an else edge; an
  empty payload then passes the result schema but no edge takes it, so the completion fails.  The
  exhaustiveness check does not ask that the field be required.
\<close>

theorem optional_branch_field_is_not_exhaustive:
  "Validate plain_env optional_config = Inr optional_config \<and>
   ValidateValue plain_env (Some (ResultSchema (node_definition optional_config ''approve''))) (VMap []) = None \<and>
   evaluateEdges plain_env (Some []) (outgoingEdges optional_config ''approve'') = Inl NoEdgeMatched"
proof (intro conjI)
  have "validateGraph plain_env optional_config = None"
    by (simp add: validateGraph_def optional_config_def optional_schema_def demo_simps validate_simps blank_p)
  then show "Validate plain_env optional_config = Inr optional_config"
    by (simp add: Validate_def optional_config_def demo_config_def demo_topology_def blank_codex
        IsSupportedRuntime_def supported_runtimes_def)
  show "ValidateValue plain_env (Some (ResultSchema (node_definition optional_config ''approve''))) (VMap []) = None"
    by (simp add: ValidateValue_def validateValue.simps optional_config_def optional_schema_def demo_simps)
  show "evaluateEdges plain_env (Some []) (outgoingEdges optional_config ''approve'') = Inl NoEdgeMatched"
    by (simp add: evaluateEdges_def outgoingEdges_def matched_edges_def matchesCondition_def
        optional_config_def demo_simps)
qed

end
