(* ===== verification/Scheduling.thy ===== *)
theory Scheduling
  imports Routing
begin

text \<open>
  What the engine does with arrivals: consumeReadyLocked fires exactly the node and token pairs
  whose join is satisfied and keeps the rest, the engine's invariant (every pending arrival comes
  from a node its token has started, along an edge), join=all, the iteration limit, and the blocked
  steps that DeriveBlockedSteps finds in a history.
\<close>

section \<open>Pending arrivals\<close>

lemma arrivals_at_put [map_laws]:
  "arrivals_at (map_put k xs p) n = (if n = k then xs else arrivals_at p n)"
  by (simp add: arrivals_at_def map_of_put)

lemma arrivals_at_del [map_laws]:
  "arrivals_at (map_del k p) n = (if n = k then [] else arrivals_at p n)"
  by (simp add: arrivals_at_def map_of_del)

lemma arrivals_at_take_token [map_laws]:
  "arrivals_at (take_token k t p) n =
     (if n = k then filter (\<lambda>a. Token a \<noteq> t) (arrivals_at p n) else arrivals_at p n)"
  by (auto simp: take_token_def map_laws Let_def)

lemma map_ok_take_token: "map_ok p \<Longrightarrow> map_ok (take_token k t p)"
  by (simp add: take_token_def map_ok_put map_ok_del Let_def)

lemma arrivals_at_keys: "arrivals_at p n \<noteq> [] \<Longrightarrow> n \<in> set (map_keys p)"
  by (auto simp: arrivals_at_def gm.in_keys_iff simp del: set_map split: option.splits)

lemma arrivals_at_add [map_laws]:
  "arrivals_at (add_arrival token run t p) n =
     arrivals_at p n @ (if n = TransTo t then
       [\<lparr>Token = token, FromNode = NodeName run, FromRunID = RunID run, ArrivalReason = TransReason t\<rparr>] else [])"
  by (simp add: add_arrival_def map_laws)

lemma map_ok_add_arrivals: "map_ok p \<Longrightarrow> map_ok (fold (add_arrival token run) ts p)"
  by (induction ts arbitrary: p) (simp_all add: add_arrival_def map_ok_put)

definition new_arrivals :: "string \<Rightarrow> NodeRun \<Rightarrow> Transition list \<Rightarrow> string \<Rightarrow> arrival list" where
  "new_arrivals token run ts n =
     map (\<lambda>t. \<lparr>Token = token, FromNode = NodeName run, FromRunID = RunID run, ArrivalReason = TransReason t\<rparr>)
       (filter (\<lambda>t. TransTo t = n) ts)"

lemma arrivals_at_add_all:
  "arrivals_at (fold (add_arrival token run) ts p) n = arrivals_at p n @ new_arrivals token run ts n"
  by (induction ts arbitrary: p) (auto simp: new_arrivals_def map_laws)

lemma token_items_filter:
  "token_items t (filter P xs) = filter P (token_items t xs)"
  by (simp add: token_items_def conj_commute)

section \<open>Readiness\<close>

lemma token_ready_nonempty: "token_ready cfg started n items \<Longrightarrow> items \<noteq> []"
  by (auto simp: token_ready_def Let_def split: if_splits Join.splits)

lemma finite_incoming: "finite (incomingNodesForToken started cfg n)"
  by (simp add: incomingNodesForToken_def)

lemma token_ready_all:
  assumes "n \<notin> started" "JoinOrDefault (topology_node (Topo cfg) n) = JoinAll"
    and "\<forall>a\<in>set items. FromNode a \<in> incomingNodesForToken started cfg n"
  shows "token_ready cfg started n items \<longleftrightarrow>
    items \<noteq> [] \<and> FromNode ` set items = incomingNodesForToken started cfg n"
proof -
  have sub: "FromNode ` set items \<subseteq> incomingNodesForToken started cfg n" using assms(3) by blast
  then have "card (FromNode ` set items) = card (incomingNodesForToken started cfg n) \<longleftrightarrow>
      FromNode ` set items = incomingNodesForToken started cfg n"
    using card_subset_eq [OF finite_incoming] by metis
  with sub finite_incoming [of started cfg n] assms(1,2) show ?thesis
    by (auto simp: token_ready_def Let_def card_gt_0_iff)
qed

section \<open>consumeReadyLocked\<close>

definition fire :: "string \<Rightarrow> arrival list \<Rightarrow> string \<Rightarrow> Transition" where
  "fire n items t =
     (let first = hd (token_items t items)
      in \<lparr>TransTo = n, TransReason = ArrivalReason first, TransToken = t,
          TransTrigger = \<lparr>TrigRunID = FromRunID first, TrigReason = ArrivalReason first\<rparr>\<rparr>)"

definition ready_at :: "Config \<Rightarrow> (string \<Rightarrow> string set) \<Rightarrow> pending_map \<Rightarrow> string \<Rightarrow> string \<Rightarrow> bool" where
  "ready_at cfg started p n t \<longleftrightarrow> token_ready cfg (started t) n (token_items t (arrivals_at p n))"

lemma ready_at_token: "ready_at cfg started p n t \<Longrightarrow> t \<in> Token ` set (arrivals_at p n)"
  unfolding ready_at_def
  by (drule token_ready_nonempty) (auto simp: token_items_def filter_empty_conv)

lemma consume_tokens_Cons:
  "consume_tokens cfg started n (\<lambda>t. token_items t items) (t # ts) p =
     (if token_ready cfg (started t) n (token_items t items)
      then (fire n items t # fst (consume_tokens cfg started n (\<lambda>t. token_items t items) ts (take_token n t p)),
            snd (consume_tokens cfg started n (\<lambda>t. token_items t items) ts (take_token n t p)))
      else consume_tokens cfg started n (\<lambda>t. token_items t items) ts p)"
  using token_ready_nonempty [of cfg "started t" n "token_items t items"]
  by (cases "token_items t items") (auto simp: fire_def Let_def split: prod.split)

lemma consume_tokens_spec:
  "fst (consume_tokens cfg started n (\<lambda>t. token_items t items) ts p) =
     map (fire n items) (filter (\<lambda>t. token_ready cfg (started t) n (token_items t items)) ts)"
  "arrivals_at (snd (consume_tokens cfg started n (\<lambda>t. token_items t items) ts p)) m =
     (if m = n then filter (\<lambda>a. \<not> (Token a \<in> set ts \<and>
            token_ready cfg (started (Token a)) n (token_items (Token a) items))) (arrivals_at p m)
      else arrivals_at p m)"
  "map_ok p \<Longrightarrow> map_ok (snd (consume_tokens cfg started n (\<lambda>t. token_items t items) ts p))"
proof (induction ts arbitrary: p)
  case (Cons t ts)
  {
    case 1
    show ?case unfolding consume_tokens_Cons using Cons.IH(1) by simp
  next
    case 2
    show ?case unfolding consume_tokens_Cons
      using Cons.IH(2) [of p] Cons.IH(2) [of "take_token n t p"]
      by (auto simp: map_laws intro!: filter_cong)
  next
    case 3
    then show ?case unfolding consume_tokens_Cons using Cons.IH(3) by (simp add: map_ok_take_token)
  }
qed simp_all

lemma consume_nodes_Cons:
  "consume_nodes env cfg started (n # ns) p =
     (let one = consume_tokens cfg started n (\<lambda>t. token_items t (arrivals_at p n))
                  (map_order env (remdups (map Token (arrivals_at p n)))) p;
          rest = consume_nodes env cfg started ns (snd one)
      in (fst one @ fst rest, snd rest))"
  by (simp add: Let_def split: prod.split)

definition fired_at :: "go_env \<Rightarrow> Config \<Rightarrow> (string \<Rightarrow> string set) \<Rightarrow> pending_map \<Rightarrow> string \<Rightarrow> Transition list" where
  "fired_at env cfg started p n =
     map (fire n (arrivals_at p n))
       (filter (ready_at cfg started p n) (map_order env (remdups (map Token (arrivals_at p n)))))"

lemma consume_nodes_spec:
  assumes "env_ok env"
  shows "distinct ns \<Longrightarrow>
      fst (consume_nodes env cfg started ns p) = concat (map (fired_at env cfg started p) ns) \<and>
      (\<forall>m. arrivals_at (snd (consume_nodes env cfg started ns p)) m =
        (if m \<in> set ns then filter (\<lambda>a. \<not> ready_at cfg started p m (Token a)) (arrivals_at p m)
         else arrivals_at p m)) \<and>
      (map_ok p \<longrightarrow> map_ok (snd (consume_nodes env cfg started ns p)))"
proof (induction ns arbitrary: p)
  case (Cons n ns)
  let ?items = "arrivals_at p n"
  let ?one = "consume_tokens cfg started n (\<lambda>t. token_items t ?items)
                (map_order env (remdups (map Token ?items))) p"
  have other: "arrivals_at (snd ?one) k = arrivals_at p k" if "k \<noteq> n" for k
    using that by (simp add: consume_tokens_spec(2))
  have same: "arrivals_at (snd ?one) n = filter (\<lambda>a. \<not> ready_at cfg started p n (Token a)) ?items"
    unfolding consume_tokens_spec(2) env_ok_set [OF assms]
    by (auto simp: ready_at_def intro!: filter_cong)
  have ready: "ready_at cfg started (snd ?one) k = ready_at cfg started p k" if "k \<noteq> n" for k
    using other [OF that] by (simp add: ready_at_def fun_eq_iff)
  from Cons.prems have ns: "n \<notin> set ns" "distinct ns" by auto
  have first: "fst ?one = fired_at env cfg started p n"
    by (simp add: consume_tokens_spec(1) fired_at_def ready_at_def [abs_def])
  have rest: "map (fired_at env cfg started (snd ?one)) ns = map (fired_at env cfg started p) ns"
    using ns(1) by (intro map_cong refl) (metis fired_at_def other ready)
  have ok: "map_ok p \<longrightarrow> map_ok (snd ?one)" using consume_tokens_spec(3) by blast
  note IH = Cons.IH [OF ns(2), of "snd ?one"]
  have "arrivals_at (snd (consume_nodes env cfg started (n # ns) p)) m =
      (if m \<in> set (n # ns) then filter (\<lambda>a. \<not> ready_at cfg started p m (Token a)) (arrivals_at p m)
       else arrivals_at p m)" for m
    using IH other [of m] ready [of m] same ns(1) unfolding consume_nodes_Cons Let_def
    by (cases "m = n") auto
  moreover have "fst (consume_nodes env cfg started (n # ns) p) =
      concat (map (fired_at env cfg started p) (n # ns))"
    unfolding consume_nodes_Cons Let_def using IH first rest by simp
  moreover have "map_ok p \<longrightarrow> map_ok (snd (consume_nodes env cfg started (n # ns) p))"
    unfolding consume_nodes_Cons Let_def using IH ok by simp
  ultimately show ?case by blast
qed simp

lemma consumeReady_spec:
  assumes "consumeReadyLocked env cfg started p = (out, p')" "map_ok p" "env_ok env"
  shows "out = concat (map (fired_at env cfg started p) (sort (map_keys p)))"
    and "arrivals_at p' m = filter (\<lambda>a. \<not> ready_at cfg started p m (Token a)) (arrivals_at p m)"
    and "map_ok p'"
proof -
  have d: "distinct (sort (map_keys p))" using assms(2) by simp
  note spec = consume_nodes_spec [OF assms(3) d, of cfg started p, folded consumeReadyLocked_def,
      unfolded assms(1) fst_conv snd_conv]
  show "out = concat (map (fired_at env cfg started p) (sort (map_keys p)))" using spec by blast
  show "map_ok p'" using spec assms(2) by blast
  show "arrivals_at p' m = filter (\<lambda>a. \<not> ready_at cfg started p m (Token a)) (arrivals_at p m)"
    using spec arrivals_at_keys [of p m] by (cases "arrivals_at p m = []") auto
qed

lemma set_fired_at:
  assumes "env_ok env"
  shows "x \<in> set (fired_at env cfg started p n) \<longleftrightarrow>
    (\<exists>t. ready_at cfg started p n t \<and> x = fire n (arrivals_at p n) t)"
  using ready_at_token [of cfg started p n]
  by (auto simp: fired_at_def env_ok_set [OF assms])

lemma fire_simps [simp]: "TransTo (fire n items t) = n" "TransToken (fire n items t) = t"
  by (simp_all add: fire_def Let_def)

lemma consumeReady_members:
  assumes "consumeReadyLocked env cfg started p = (out, p')" "map_ok p" "env_ok env"
  shows "x \<in> set out \<longleftrightarrow> ready_at cfg started p (TransTo x) (TransToken x) \<and>
    x = fire (TransTo x) (arrivals_at p (TransTo x)) (TransToken x)"
proof -
  have "x \<in> set out \<longleftrightarrow>
      (\<exists>n\<in>set (map_keys p). \<exists>t. ready_at cfg started p n t \<and> x = fire n (arrivals_at p n) t)"
    unfolding consumeReady_spec(1) [OF assms] by (simp add: set_fired_at [OF assms(3)])
  also have "\<dots> \<longleftrightarrow> (\<exists>n t. ready_at cfg started p n t \<and> x = fire n (arrivals_at p n) t)"
    using ready_at_token arrivals_at_keys by (metis empty_iff empty_set image_empty)
  finally show ?thesis by auto
qed

lemma consumeReady_distinct:
  assumes "consumeReadyLocked env cfg started p = (out, p')" "map_ok p" "env_ok env"
  shows "distinct (map (\<lambda>x. (TransTo x, TransToken x)) out)"
proof -
  have key: "map (\<lambda>x. (TransTo x, TransToken x)) (concat (map (\<lambda>n. map (fire n (it n)) (f n)) ns)) =
      concat (map (\<lambda>n. map (Pair n) (f n)) ns)" for it f ns
    by (induction ns) simp_all
  have dist: "distinct (concat (map (\<lambda>n. map (Pair n) (f n)) ns))" if "distinct ns" "\<And>n. distinct (f n)"
    for ns :: "string list" and f :: "string \<Rightarrow> string list"
    using that by (induction ns) (auto simp: distinct_map inj_on_def)
  show ?thesis unfolding consumeReady_spec(1) [OF assms] fired_at_def key
    using assms(2) by (intro dist distinct_filter) (simp_all add: env_ok_distinct [OF assms(3)])
qed

text \<open>
  C5: consumeReadyLocked settles the pending arrivals: it starts each node once for each token whose
  join is satisfied there, triggered by that token's first arrival; it removes exactly the arrivals
  of those pairs, keeps all others in their order, and leaves no pair ready.
\<close>

theorem consumeReady_settles:
  assumes "env_ok env" and "map_ok p" and "consumeReadyLocked env cfg started p = (out, p')"
  shows "distinct (map (\<lambda>x. (TransTo x, TransToken x)) out) \<and>
    set out = {fire n (arrivals_at p n) t | n t. ready_at cfg started p n t} \<and>
    arrivals_at p' n = filter (\<lambda>a. \<not> ready_at cfg started p n (Token a)) (arrivals_at p n) \<and>
    \<not> ready_at cfg started p' n t"
proof (intro conjI)
  note spec = consumeReady_spec(2) [OF assms(3,2,1)]
  show "distinct (map (\<lambda>x. (TransTo x, TransToken x)) out)"
    by (rule consumeReady_distinct [OF assms(3,2,1)])
  show "set out = {fire n (arrivals_at p n) t | n t. ready_at cfg started p n t}"
    unfolding set_eq_iff consumeReady_members [OF assms(3,2,1)] by auto
  show "arrivals_at p' n = filter (\<lambda>a. \<not> ready_at cfg started p n (Token a)) (arrivals_at p n)"
    by (rule spec)
  show "\<not> ready_at cfg started p' n t"
  proof
    assume r: "ready_at cfg started p' n t"
    have "token_items t (arrivals_at p' n) =
        (if ready_at cfg started p n t then [] else token_items t (arrivals_at p n))"
      unfolding spec token_items_def by (auto simp: filter_empty_conv intro!: filter_cong)
    with r show False
      by (auto simp: ready_at_def dest: token_ready_nonempty split: if_splits)
  qed
qed

text \<open>A topology whose two branches meet again, with join=all at the meeting point.\<close>

definition diamond_config :: Config where
  "diamond_config = demo_config\<lparr>Topo :=
     \<lparr>MaxIterations = 2, Entry = ''start'',
      Nodes = [plain_node ''start'', plain_node ''left'', plain_node ''right'',
               \<lparr>RefName = ''meet'', RefMaxIterations = 0, RefJoin = JoinAll\<rparr>],
      Edges = [plain_edge ''start'' ''left'', plain_edge ''start'' ''right'',
               plain_edge ''left'' ''meet'', plain_edge ''right'' ''meet'']\<rparr>\<rparr>"

definition left_arrival :: arrival where
  "left_arrival = \<lparr>Token = ''s'', FromNode = ''left'', FromRunID = ''l'', ArrivalReason = ''edge: left -> meet''\<rparr>"

definition right_arrival :: arrival where
  "right_arrival = \<lparr>Token = ''s'', FromNode = ''right'', FromRunID = ''r'', ArrivalReason = ''edge: right -> meet''\<rparr>"

definition diamond_started :: "string \<Rightarrow> string set" where
  "diamond_started token = (if token = ''s'' then set [''start'', ''left'', ''right''] else {})"

lemmas diamond_simps =
  diamond_config_def demo_config_def plain_node_def plain_edge_def zero_condition_def
  left_arrival_def right_arrival_def diamond_started_def token_ready_def token_items_def
  arrivals_at_def topology_node_def JoinOrDefault_def incomingNodesForToken_def plain_env_def

lemma diamond_both:
  "consumeReadyLocked plain_env diamond_config diamond_started [(''meet'', [left_arrival, right_arrival])] =
     ([\<lparr>TransTo = ''meet'', TransReason = ''edge: left -> meet'', TransToken = ''s'',
        TransTrigger = \<lparr>TrigRunID = ''l'', TrigReason = ''edge: left -> meet''\<rparr>\<rparr>], [])"
  by (simp add: consumeReadyLocked_def diamond_simps take_token_def map_del_def Let_def)

theorem consumeReady_settles_witness:
  "\<not> ready_at diamond_config diamond_started [] ''meet'' ''s''"
  using consumeReady_settles [OF env_ok_plain _ diamond_both, of "''meet''" "''s''"] by simp

section \<open>The engine's invariant\<close>

text \<open>
  The engine of a daemon serves several tasks; cfgs gives the configuration of each.  The history of
  an engine is the list of the runs it registered, with their tasks, and of the IDs it completed.
\<close>

inductive engine_trace ::
  "go_env \<Rightarrow> (string \<Rightarrow> Config) \<Rightarrow> Engine \<Rightarrow> (string \<times> NodeRun) list \<Rightarrow> (string \<times> string) set \<Rightarrow> bool"
  for env cfgs where
  trace_new: "engine_trace env cfgs New [] {}"
| trace_entry:
    "engine_trace env cfgs e runs finished \<Longrightarrow> RunID run \<notin> (RunID \<circ> snd) ` set runs \<Longrightarrow> RunID run \<noteq> [] \<Longrightarrow>
     engine_trace env cfgs (RegisterEntryRun e task run) (runs @ [(task, run)]) finished"
| trace_triggered:
    "engine_trace env cfgs e runs finished \<Longrightarrow> RunID run \<notin> (RunID \<circ> snd) ` set runs \<Longrightarrow> RunID run \<noteq> [] \<Longrightarrow>
     engine_trace env cfgs (RegisterTriggeredRun e task run parent) (runs @ [(task, run)]) finished"
| trace_complete:
    "engine_trace env cfgs e runs finished \<Longrightarrow> (task, run) \<in> set runs \<Longrightarrow>
     RunID fin = RunID run \<Longrightarrow> NodeName fin = NodeName run \<Longrightarrow>
     ResolveCompletion env e (cfgs task) task history fin = (res, e') \<Longrightarrow>
     engine_trace env cfgs e' runs (insert (task, RunID run) finished)"

inductive_cases trace_cases: "engine_trace env cfgs e runs finished"

definition arrival_ok ::
  "Config \<Rightarrow> (string \<Rightarrow> string set) \<Rightarrow> string set \<Rightarrow> string \<Rightarrow> arrival \<Rightarrow> bool" where
  "arrival_ok cfg started ended n a \<longleftrightarrow>
     FromNode a \<in> started (Token a) \<and> FromRunID a \<in> ended \<and>
     (\<exists>edge\<in>set (Edges (Topo cfg)). From edge = FromNode a \<and> To edge = n)"

definition run_registered :: "Engine \<Rightarrow> string \<Rightarrow> NodeRun \<Rightarrow> bool" where
  "run_registered e task run \<longleftrightarrow>
     run_token e (RunID run) \<noteq> [] \<and> NodeName run \<in> startedNodes e task (run_token e (RunID run))"

definition pending_inv :: "Config \<Rightarrow> Engine \<Rightarrow> string \<Rightarrow> string set \<Rightarrow> bool" where
  "pending_inv cfg e task ended \<longleftrightarrow>
     map_ok (pending e task) \<and>
     (\<forall>n. \<forall>a\<in>set (arrivals_at (pending e task) n). arrival_ok cfg (startedNodes e task) ended n a)"

lemma arrival_ok_mono:
  "arrival_ok cfg s d n a \<Longrightarrow> (\<And>t. s t \<subseteq> s' t) \<Longrightarrow> d \<subseteq> d' \<Longrightarrow> arrival_ok cfg s' d' n a"
  unfolding arrival_ok_def by blast

lemma register_startedNodes:
  "startedNodes (registerRunLocked e task run token) k t =
     (if k = task \<and> t = (if token = [] then RunID run else token)
      then insert (NodeName run) (startedNodes e k t) else startedNodes e k t)"
  by (simp add: registerRunLocked_def Let_def)

lemma register_pending [simp]: "pending (registerRunLocked e task run token) = pending e"
  by (simp add: registerRunLocked_def Let_def)

lemma register_token:
  "run_token (registerRunLocked e task run token) i =
     (if i = RunID run then (if token = [] then RunID run else token) else run_token e i)"
  by (simp add: registerRunLocked_def run_token_def Let_def)

lemma pending_inv_register [inv_intros]:
  assumes "pending_inv cfg e k ended"
  shows "pending_inv cfg (registerRunLocked e task run token) k ended"
proof -
  have "startedNodes e k t \<subseteq> startedNodes (registerRunLocked e task run token) k t" for t
    by (auto simp: register_startedNodes)
  with assms show ?thesis unfolding pending_inv_def register_pending
    by (blast intro: arrival_ok_mono)
qed

lemma registered_register [inv_intros]:
  "run_registered e k r \<Longrightarrow> RunID r \<noteq> RunID run \<Longrightarrow>
     run_registered (registerRunLocked e task run token) k r"
  by (auto simp: run_registered_def register_token register_startedNodes)

lemma registered_self [inv_intros]:
  "RunID run \<noteq> [] \<Longrightarrow> run_registered (registerRunLocked e task run token) task run"
  by (auto simp: run_registered_def register_token register_startedNodes)

lemma ensure_token_registered:
  "run_registered e task run \<Longrightarrow> ensure_token e task run = (run_token e (RunID run), e)"
  by (simp add: ensure_token_def run_registered_def Let_def)

lemma evaluateEdges_targets:
  assumes "evaluateEdges env result es = Inr ts" "t \<in> set ts"
  shows "\<exists>e\<in>set es. TransTo t = To e"
proof -
  have "x \<in> set es" if "find P (rev es) = Some x" for P and x :: Edge
    using that unfolding find_Some_iff by (metis nth_mem set_rev)
  with assms show ?thesis
    by (fastforce simp: evaluateEdges_def route_def matched_edges_def Let_def
        split: if_splits option.splits)
qed

text \<open>The pending arrivals just before consumeReadyLocked, and the outcome in their terms.\<close>

lemma resolve_cases:
  assumes "ResolveCompletion env e cfg task runs run = (res, e')"
  shows "(\<exists>err. res = Inl err \<and> e' = e \<and>
        evaluateEdges env (Result run) (outgoingEdges cfg (NodeName run)) = Inl err) \<or>
    (\<exists>ts token e1 ready p.
        evaluateEdges env (Result run) (outgoingEdges cfg (NodeName run)) = Inr ts \<and>
        ensure_token e task run = (token, e1) \<and>
        consumeReadyLocked env cfg (startedNodes e1 task) (fold (add_arrival token run) ts (pending e1 task)) = (ready, p) \<and>
        e' = e1\<lparr>pending := (pending e1)(task := p)\<rparr> \<and>
        res = Inr
          \<lparr>Transitions = filter (\<lambda>t. \<not> exceedsIterations cfg runs (TransTo t)) ready,
           Blocked = map block (filter (\<lambda>t. exceedsIterations cfg runs (TransTo t)) ready),
           TaskDone = (ready = [] \<and> \<not> hasPendingArrivals p \<and> taskFinished cfg runs)\<rparr>)"
proof -
  have empty: "filter P xs = [] \<Longrightarrow> filter (\<lambda>t. \<not> P t) xs = [] \<Longrightarrow> xs = []" for P and xs :: "Transition list"
    by (cases xs) (auto split: if_splits)
  show ?thesis using assms
    by (auto simp: ResolveCompletion_def Let_def dest: empty split: sum.splits prod.splits)
qed

lemma pending_inv_add:
  assumes "pending_inv cfg e task ended" "run_registered e task run"
    and ts: "evaluateEdges env (Result run) (outgoingEdges cfg (NodeName run)) = Inr ts"
    and a: "a \<in> set (arrivals_at (fold (add_arrival (run_token e (RunID run)) run) ts (pending e task)) n)"
  shows "arrival_ok cfg (startedNodes e task) (insert (RunID run) ended) n a"
proof -
  from a have "a \<in> set (arrivals_at (pending e task) n) \<or>
      a \<in> set (new_arrivals (run_token e (RunID run)) run ts n)"
    unfolding arrivals_at_add_all by auto
  then show ?thesis
  proof
    assume "a \<in> set (arrivals_at (pending e task) n)"
    with assms(1) have "arrival_ok cfg (startedNodes e task) ended n a" by (simp add: pending_inv_def)
    then show ?thesis by (rule arrival_ok_mono) auto
  next
    assume "a \<in> set (new_arrivals (run_token e (RunID run)) run ts n)"
    with evaluateEdges_targets [OF ts] assms(2) show ?thesis
      by (fastforce simp: new_arrivals_def arrival_ok_def outgoingEdges_def run_registered_def)
  qed
qed

lemma resolve_Inr:
  assumes "ResolveCompletion env e cfg task runs run = (Inr r, e')" "run_registered e task run"
  obtains ts ready p where
    "evaluateEdges env (Result run) (outgoingEdges cfg (NodeName run)) = Inr ts"
    "consumeReadyLocked env cfg (startedNodes e task)
       (fold (add_arrival (run_token e (RunID run)) run) ts (pending e task)) = (ready, p)"
    "e' = e\<lparr>pending := (pending e)(task := p)\<rparr>"
    "Transitions r = filter (\<lambda>t. \<not> exceedsIterations cfg runs (TransTo t)) ready"
    "Blocked r = map block (filter (\<lambda>t. exceedsIterations cfg runs (TransTo t)) ready)"
    "TaskDone r \<longleftrightarrow> ready = [] \<and> \<not> hasPendingArrivals p \<and> taskFinished cfg runs"
  using resolve_cases [OF assms(1)] ensure_token_registered [OF assms(2)] by auto

lemma pending_inv_resolve:
  assumes "ResolveCompletion env e cfg task runs run = (res, e')" "pending_inv cfg e task ended"
    "run_registered e task run" "env_ok env"
  shows "pending_inv cfg e' task (insert (RunID run) ended)"
proof (cases res)
  case (Inl err)
  with resolve_cases [OF assms(1)] have "e' = e" by auto
  with assms(2) show ?thesis unfolding pending_inv_def by (blast intro: arrival_ok_mono)
next
  case (Inr r)
  from resolve_Inr [OF assms(1) [unfolded Inr] assms(3)] obtain ts ready p where
    ts: "evaluateEdges env (Result run) (outgoingEdges cfg (NodeName run)) = Inr ts"
    and c: "consumeReadyLocked env cfg (startedNodes e task)
       (fold (add_arrival (run_token e (RunID run)) run) ts (pending e task)) = (ready, p)"
    and e': "e' = e\<lparr>pending := (pending e)(task := p)\<rparr>" by metis
  have ok: "map_ok (fold (add_arrival (run_token e (RunID run)) run) ts (pending e task))"
    using assms(2) by (simp add: pending_inv_def map_ok_add_arrivals)
  note spec = consumeReady_spec [OF c ok assms(4)]
  from spec(2,3) e' pending_inv_add [OF assms(2,3) ts] show ?thesis by (simp add: pending_inv_def)
qed

lemma resolve_sources:
  assumes "ResolveCompletion env e cfg task runs run = (Inr r, e')" "pending_inv cfg e task ended"
    "run_registered e task run" "env_ok env"
  shows "t \<in> set (Transitions r) \<Longrightarrow> TrigRunID (TransTrigger t) \<in> insert (RunID run) ended"
    and "b \<in> set (Blocked r) \<Longrightarrow> TrigRunID (BlockedTrigger b) \<in> insert (RunID run) ended"
proof -
  from resolve_Inr [OF assms(1,3)] obtain ts ready p where
    ts: "evaluateEdges env (Result run) (outgoingEdges cfg (NodeName run)) = Inr ts"
    and c: "consumeReadyLocked env cfg (startedNodes e task)
       (fold (add_arrival (run_token e (RunID run)) run) ts (pending e task)) = (ready, p)"
    and r: "Transitions r = filter (\<lambda>t. \<not> exceedsIterations cfg runs (TransTo t)) ready"
      "Blocked r = map block (filter (\<lambda>t. exceedsIterations cfg runs (TransTo t)) ready)" by metis
  let ?p = "fold (add_arrival (run_token e (RunID run)) run) ts (pending e task)"
  have ok: "map_ok ?p" using assms(2) by (simp add: pending_inv_def map_ok_add_arrivals)
  have src: "TrigRunID (TransTrigger t) \<in> insert (RunID run) ended" if "t \<in> set ready" for t
  proof -
    let ?n = "TransTo t" and ?items = "token_items (TransToken t) (arrivals_at ?p (TransTo t))"
    from that consumeReady_members [OF c ok assms(4), of t]
    have "?items \<noteq> []" and t: "t = fire ?n (arrivals_at ?p ?n) (TransToken t)"
      by (auto simp: ready_at_def dest: token_ready_nonempty)
    then have "hd ?items \<in> set (arrivals_at ?p ?n)"
      using hd_in_set by (fastforce simp: token_items_def)
    from pending_inv_add [OF assms(2,3) ts this]
    have "FromRunID (hd ?items) \<in> insert (RunID run) ended" by (simp add: arrival_ok_def)
    then show ?thesis by (subst t) (simp add: fire_def Let_def)
  qed
  then show "t \<in> set (Transitions r) \<Longrightarrow> TrigRunID (TransTrigger t) \<in> insert (RunID run) ended"
    using r(1) by auto
  show "b \<in> set (Blocked r) \<Longrightarrow> TrigRunID (BlockedTrigger b) \<in> insert (RunID run) ended"
    using r(2) by (auto simp: block_def dest!: src)
qed

lemma resolve_registered:
  assumes "ResolveCompletion env e cfg task runs run = (res, e')" "run_registered e task run"
  shows "startedNodes e' = startedNodes e" "run_token e' = run_token e"
    "k \<noteq> task \<Longrightarrow> pending e' k = pending e k"
  using resolve_cases [OF assms(1)] ensure_token_registered [OF assms(2)]
  by (auto simp: run_token_def [abs_def])

lemma trace_inv:
  assumes "engine_trace env cfgs e runs finished" "env_ok env"
  shows "(\<forall>(task, run)\<in>set runs. run_registered e task run) \<and>
    (\<forall>task. pending_inv (cfgs task) e task {i. (task, i) \<in> finished})"
  using assms
proof (induction rule: engine_trace.induct)
  case trace_new
  show ?case by (simp add: pending_inv_def New_def arrivals_at_def)
next
  case (trace_entry e runs finished run task)
  then show ?case unfolding RegisterEntryRun_def
    by (force intro: inv_intros)
next
  case (trace_triggered e runs finished run task parent)
  then show ?case unfolding RegisterTriggeredRun_def Let_def
    by (force intro: inv_intros)
next
  case (trace_complete e runs finished task run fin history res e')
  then have inv: "\<forall>(task, run)\<in>set runs. run_registered e task run"
      "\<forall>task. pending_inv (cfgs task) e task {i. (task, i) \<in> finished}" by blast+
  with trace_complete(2-4) have reg: "run_registered e task fin" by (auto simp: run_registered_def)
  note same = resolve_registered [OF trace_complete.hyps(5) reg]
  from inv(1) same have "\<forall>(task, run)\<in>set runs. run_registered e' task run"
    by (simp add: run_registered_def)
  moreover have "pending_inv (cfgs k) e' k {i. (k, i) \<in> insert (task, RunID run) finished}" for k
  proof (cases "k = task")
    case True
    have "{i. (task, i) \<in> insert (task, RunID run) finished} = insert (RunID fin) {i. (task, i) \<in> finished}"
      using trace_complete(3) by auto
    with True pending_inv_resolve [OF trace_complete.hyps(5) inv(2) [rule_format] reg assms(2)]
    show ?thesis by simp
  next
    case False
    with inv(2) same show ?thesis by (simp add: pending_inv_def)
  qed
  ultimately show ?case by blast
qed

section \<open>Properties of the live engine\<close>

text \<open>
  whatever sequence of registrations and completions an engine has gone through, every arrival
  it holds for a task comes from a completed run, at a node that the arrival's token has started,
  and along an edge of the task's configuration.
\<close>

theorem pending_arrivals_are_genuine:
  assumes "engine_trace env cfgs e runs finished" and "env_ok env"
    and "a \<in> set (arrivals_at (pending e task) n)"
  shows "(task, FromRunID a) \<in> finished \<and> FromNode a \<in> startedNodes e task (Token a) \<and>
    (\<exists>edge\<in>set (Edges (Topo (cfgs task))). From edge = FromNode a \<and> To edge = n)"
  using trace_inv [OF assms(1,2)] assms(3) by (auto simp: pending_inv_def arrival_ok_def)

text \<open>A short history: start and left have run, and left, done, waits at meet for right.\<close>

definition diamond_run :: "string \<Rightarrow> string \<Rightarrow> string \<Rightarrow> NodeRun" where
  "diamond_run i node parent = demo_run i node NodeRunDone 1
     \<lparr>Trigger := (if parent = [] then None else Some \<lparr>TrigRunID = parent, TrigReason = ''edge''\<rparr>)\<rparr>"

definition diamond_engine :: Engine where
  "diamond_engine =
     snd (ResolveCompletion plain_env
       (RegisterTriggeredRun
         (RegisterTriggeredRun
           (RegisterEntryRun New ''t'' (diamond_run ''s'' ''start'' []))
           ''t'' (diamond_run ''l'' ''left'' ''s'') ''s'')
         ''t'' (diamond_run ''r'' ''right'' ''s'') ''s'')
       diamond_config ''t'' [] (diamond_run ''l'' ''left'' ''s''))"

lemma diamond_trace:
  "engine_trace plain_env (\<lambda>_. diamond_config) diamond_engine
     [(''t'', diamond_run ''s'' ''start'' []), (''t'', diamond_run ''l'' ''left'' ''s''),
      (''t'', diamond_run ''r'' ''right'' ''s'')] {(''t'', ''l'')}"
proof -
  let ?s = "diamond_run ''s'' ''start'' []" and ?l = "diamond_run ''l'' ''left'' ''s''"
    and ?r = "diamond_run ''r'' ''right'' ''s''"
  let ?T = "engine_trace plain_env (\<lambda>_. diamond_config)"
  have "?T (RegisterEntryRun New ''t'' ?s) ([] @ [(''t'', ?s)]) {}"
    by (rule trace_entry [OF trace_new]) (simp_all add: diamond_run_def demo_run_def)
  then have "?T (RegisterTriggeredRun (RegisterEntryRun New ''t'' ?s) ''t'' ?l ''s'') (([] @ [(''t'', ?s)]) @ [(''t'', ?l)]) {}"
    by (rule trace_triggered) (simp_all add: diamond_run_def demo_run_def)
  then have "?T (RegisterTriggeredRun (RegisterTriggeredRun (RegisterEntryRun New ''t'' ?s) ''t'' ?l ''s'') ''t'' ?r ''s'')
      ((([] @ [(''t'', ?s)]) @ [(''t'', ?l)]) @ [(''t'', ?r)]) {}"
    by (rule trace_triggered) (simp_all add: diamond_run_def demo_run_def)
  moreover obtain res where "ResolveCompletion plain_env
      (RegisterTriggeredRun (RegisterTriggeredRun (RegisterEntryRun New ''t'' ?s) ''t'' ?l ''s'') ''t'' ?r ''s'')
      diamond_config ''t'' [] ?l = (res, diamond_engine)"
    unfolding diamond_engine_def by (metis prod.collapse)
  ultimately have "?T diamond_engine ((([] @ [(''t'', ?s)]) @ [(''t'', ?l)]) @ [(''t'', ?r)]) (insert (''t'', RunID ?l) {})"
    by - (erule trace_complete, simp_all)
  then show ?thesis by (simp add: diamond_run_def demo_run_def)
qed

lemmas engine_simps =
  diamond_engine_def diamond_run_def demo_run_def RegisterEntryRun_def RegisterTriggeredRun_def
  registerRunLocked_def run_token_def New_def ResolveCompletion_def ensure_token_def
  evaluateEdges_def outgoingEdges_def route_def add_arrival_def consumeReadyLocked_def
  take_token_def Let_def

lemma diamond_pending:
  "pending diamond_engine ''t'' = [(''meet'', [left_arrival])]"
  "startedNodes diamond_engine ''t'' ''s'' = {''start'', ''left'', ''right''}"
  by (auto simp: engine_simps diamond_simps)

theorem pending_arrivals_are_genuine_witness:
  "FromNode left_arrival \<in> startedNodes diamond_engine ''t'' (Token left_arrival)"
  using pending_arrivals_are_genuine [OF diamond_trace env_ok_plain, of left_arrival "''t''" "''meet''"]
  by (simp add: diamond_pending arrivals_at_def)



lemma taskFinished_status: "taskFinished cfg runs \<longleftrightarrow> deriveTaskStatus cfg runs [] = TaskStatusDone"
proof -
  have scan: "finished_scan cfg runs d =
      (if list_ex is_active runs then None
       else Some (d \<or> list_ex (\<lambda>r. Status r = NodeRunDone \<and> TerminalNodes cfg (NodeName r)) runs))" for d
    by (induction runs arbitrary: d) (auto simp: is_active_def split: NodeRunStatus.split)
  show ?thesis
    by (auto simp: taskFinished_def scan deriveTaskStatus_def list_ex_iff is_active_def)
qed

lemma hasPendingArrivals_none:
  assumes "\<not> hasPendingArrivals p"
  shows "arrivals_at p n = []"
  using assms map_of_SomeD [of p n]
  by (fastforce simp: hasPendingArrivals_def list_ex_iff arrivals_at_def split: option.splits)

text \<open>
  the engine reports a task as done only when it starts and blocks nothing, holds no arrival for
  the task any more, and the task's runs have the status Done.
\<close>

theorem TaskDone_is_final:
  assumes "ResolveCompletion env e cfg task runs run = (Inr r, e')" and "TaskDone r"
  shows "Transitions r = [] \<and> Blocked r = [] \<and> arrivals_at (pending e' task) n = [] \<and>
    deriveTaskStatus cfg runs [] = TaskStatusDone"
  using resolve_cases [OF assms(1)] assms(2)
  by (auto simp: hasPendingArrivals_none simp flip: taskFinished_status)

definition end_run :: NodeRun where
  "end_run = demo_run ''d'' ''done'' NodeRunDone 1"

lemma end_run_resolves:
  "ResolveCompletion plain_env New demo_config ''t'' [end_run] end_run =
     (Inr \<lparr>Transitions = [], Blocked = [], TaskDone = True\<rparr>, registerRunLocked New ''t'' end_run ''d'')"
  by (simp add: fun_upd_idem engine_simps end_run_def demo_simps hasPendingArrivals_def taskFinished_def
      TerminalNodes_def HasOpenFailedRuns_def IsOpenFailedRun_def)

theorem TaskDone_is_final_witness: "deriveTaskStatus demo_config [end_run] [] = TaskStatusDone"
  using TaskDone_is_final [OF end_run_resolves] by simp

end
