(* ===== verification/History.thy ===== *)
theory History
  imports Scheduling
begin

text \<open>
  Iteration limits: what one completion may start, and the blocked steps that DeriveBlockedSteps
  reads off a task's history of runs by replaying it through the engine.
\<close>

section \<open>Limits of one completion\<close>


lemma IterationCount_distinct:
  assumes "distinct (map NodeName runs)"
  shows "IterationCount runs n \<le> 1"
proof -
  have "length (filter (\<lambda>r. NodeName r = n) runs) \<le> 1"
    by (rule length_filter_distinct_map [OF assms])
  then show ?thesis by (simp add: IterationCount_length)
qed

text \<open>
  while all arrivals of a task carry one token (a task has one entry run), starting one run for
  every transition of a completion leaves no node with more runs than max_iterations allows, or
  than it already had.
\<close>

theorem started_runs_stay_within_limit:
  assumes "env_ok env" and "ResolveCompletion env e cfg task runs run = (Inr r, e')"
    and "run_registered e task run" and "map_ok (pending e task)"
    and "\<forall>k. \<forall>a\<in>set (arrivals_at (pending e task) k). Token a = run_token e (RunID run)"
    and "map NodeName new = map TransTo (Transitions r)"
  shows "IterationCount (runs @ new) n \<le> max (MaxIterationsForNode cfg n) (IterationCount runs n)"
proof -
  from resolve_Inr [OF assms(2,3)] obtain ts ready p where
    c: "consumeReadyLocked env cfg (startedNodes e task)
       (fold (add_arrival (run_token e (RunID run)) run) ts (pending e task)) = (ready, p)"
    and r: "Transitions r = filter (\<lambda>t. \<not> exceedsIterations cfg runs (TransTo t)) ready" by metis
  let ?p = "fold (add_arrival (run_token e (RunID run)) run) ts (pending e task)"
  have ok: "map_ok ?p" using assms(4) by (rule map_ok_add_arrivals)
  have tok: "TransToken t = run_token e (RunID run)" if "t \<in> set ready" for t
  proof -
    from that consumeReady_members [OF c ok assms(1), of t]
    have "TransToken t \<in> Token ` set (arrivals_at ?p (TransTo t))" using ready_at_token by blast
    with assms(5) show ?thesis by (auto simp: arrivals_at_add_all new_arrivals_def)
  qed
  have "distinct (map TransTo ready)"
    using consumeReady_distinct [OF c ok assms(1)] tok
    by (auto simp: distinct_map inj_on_def)
  then have "distinct (map NodeName new)" unfolding assms(6) r by (simp add: distinct_map inj_on_def)
  then have one: "IterationCount new n \<le> 1" by (rule IterationCount_distinct)
  show ?thesis
  proof (cases "n \<in> set (map NodeName new)")
    case True
    with assms(6) r have "IterationCount runs n < MaxIterationsForNode cfg n"
      by (auto simp: exceedsIterations_def)
    with one show ?thesis by (simp add: IterationCount_append)
  next
    case False
    then have "IterationCount new n = 0" by (auto simp: IterationCount_length filter_empty_conv)
    then show ?thesis by (simp add: IterationCount_append)
  qed
qed

definition plan_run :: NodeRun where
  "plan_run = demo_run ''a'' ''plan'' NodeRunDone 1"

lemma plan_run_resolves:
  "ResolveCompletion plain_env (RegisterEntryRun New ''t'' plan_run) demo_config ''t'' [plan_run] plan_run =
     (Inr \<lparr>Transitions = [\<lparr>TransTo = ''approve'', TransReason = ''edge: plan -> approve'', TransToken = ''a'',
             TransTrigger = \<lparr>TrigRunID = ''a'', TrigReason = ''edge: plan -> approve''\<rparr>\<rparr>],
           Blocked = [], TaskDone = False\<rparr>, RegisterEntryRun New ''t'' plan_run)"
  by (simp add: engine_simps fun_upd_idem plan_run_def demo_simps diamond_simps exceedsIterations_def
      MaxIterationsForNode_def map_del_def)


theorem started_runs_stay_within_limit_witness:
  "IterationCount ([plan_run] @ [demo_run ''b'' ''approve'' NodeRunRunning 2]) ''approve'' \<le>
     max (MaxIterationsForNode demo_config ''approve'') (IterationCount [plan_run] ''approve'')"
  by (rule started_runs_stay_within_limit [OF env_ok_plain plan_run_resolves])
    (simp_all add: RegisterEntryRun_def plan_run_def demo_run_def registered_self New_def arrivals_at_def)

section \<open>Replaying a history\<close>

definition done_ids :: "NodeRun list \<Rightarrow> string set" where
  "done_ids runs = RunID ` {r \<in> set runs. Status r = NodeRunDone}"

text \<open>A blocked step a history justifies.\<close>

definition step_justified :: "Config \<Rightarrow> NodeRun list \<Rightarrow> BlockedStep \<Rightarrow> bool" where
  "step_justified cfg runs step \<longleftrightarrow>
     StepReason step = exceeded_reason (StepNode step) \<and>
     MaxIterationsForNode cfg (StepNode step) < StepIteration step \<and>
     (\<exists>t. StepTrigger step = Some t \<and> TrigRunID t \<in> done_ids runs) \<and>
     (\<exists>run\<in>set runs. Status run = NodeRunDone \<and> StepCreatedAt step = completionTimestamp run)"

definition replay_inv :: "Config \<Rightarrow> string \<Rightarrow> replay \<Rightarrow> bool" where
  "replay_inv cfg task s \<longleftrightarrow>
     pending_inv cfg (repEngine s) task (done_ids (repHistory s)) \<and>
     (\<forall>k step. map_of (repOpen s) k = Some step \<longrightarrow> step_justified cfg (repHistory s) step)"

lemma done_ids_append: "done_ids (xs @ ys) = done_ids xs \<union> done_ids ys"
  by (auto simp: done_ids_def)

lemma step_justified_mono:
  "step_justified cfg runs step \<Longrightarrow> set runs \<subseteq> set runs' \<Longrightarrow> step_justified cfg runs' step"
  unfolding step_justified_def done_ids_def by blast

lemma pending_inv_mono: "pending_inv cfg e task d \<Longrightarrow> d \<subseteq> d' \<Longrightarrow> pending_inv cfg e task d'"
  unfolding pending_inv_def by (blast intro: arrival_ok_mono)

lemma replay_register_history [simp]:
  "repHistory (replay_register task run s) = repHistory s @ [run]"
  by (simp add: replay_register_def Let_def split: option.split)

lemma replay_register_open:
  "map_of (repOpen (replay_register task run s)) k = Some step \<Longrightarrow> map_of (repOpen s) k = Some step"
  by (auto simp: replay_register_def close_step_def map_of_del Let_def split: option.splits if_splits)

lemma replay_register_inv [inv_intros]:
  assumes "replay_inv cfg task s"
  shows "replay_inv cfg task (replay_register task run s)"
proof -
  from assms have p: "pending_inv cfg (repEngine s) task (done_ids (repHistory s @ [run]))"
    unfolding replay_inv_def by (auto simp: done_ids_append intro: pending_inv_mono)
  then have "pending_inv cfg (repEngine (replay_register task run s)) task (done_ids (repHistory s @ [run]))"
    by (auto simp: replay_register_def RegisterEntryRun_def RegisterTriggeredRun_def Let_def
        split: option.split intro: inv_intros)
  moreover have "step_justified cfg (repHistory s @ [run]) step"
    if "map_of (repOpen (replay_register task run s)) k = Some step" for k step
  proof -
    from replay_register_open [OF that] assms have "step_justified cfg (repHistory s) step"
      by (auto simp: replay_inv_def)
    then show ?thesis by (rule step_justified_mono) auto
  qed
  ultimately show ?thesis by (simp add: replay_inv_def)
qed

lemma replay_register_self:
  "RunID run \<noteq> [] \<Longrightarrow> run_registered (repEngine (replay_register task run s)) task run"
  by (auto simp: replay_register_def RegisterEntryRun_def RegisterTriggeredRun_def Let_def
      split: option.split intro: inv_intros)

lemma replay_blocked_inv:
  assumes "replay_inv cfg task s" "run \<in> set (repHistory s)" "Status run = NodeRunDone"
    and "\<forall>b\<in>set bs. MaxIterationsForNode cfg (BlockedTo b) \<le> IterationCount (repHistory s) (BlockedTo b) \<and>
       BlockedFailureReason b = exceeded_reason (BlockedTo b) \<and>
       TrigRunID (BlockedTrigger b) \<in> done_ids (repHistory s)"
    and "\<forall>n. counts n = 0 \<or> IterationCount (repHistory s) n < counts n"
  shows "replay_inv cfg task (replay_blocked run bs counts s) \<and>
    repHistory (replay_blocked run bs counts s) = repHistory s"
  using assms
proof (induction run bs counts s rule: replay_blocked.induct)
  case (2 run b bs counts s)
  let ?n = "next_iteration counts (repHistory s) (BlockedTo b)"
  have n: "IterationCount (repHistory s) (BlockedTo b) < ?n"
    using 2(6) by (auto simp: next_iteration_def)
  let ?key = "blockedStepKey (TrigRunID (BlockedTrigger b)) (BlockedTo b)"
  let ?step = "\<lparr>StepNode = BlockedTo b, StepIteration = ?n, StepReason = BlockedFailureReason b,
    StepTrigger = Some (BlockedTrigger b), StepCreatedAt = completionTimestamp run\<rparr>"
  let ?s = "s\<lparr>repOrder := (if map_of (repOpen s) ?key = None then repOrder s @ [?key] else repOrder s),
              repOpen := map_put ?key ?step (repOpen s)\<rparr>"
  have "step_justified cfg (repHistory s) ?step"
    using n 2(3-5) by (auto simp: step_justified_def)
  with 2(2) have inv: "replay_inv cfg task ?s"
    by (auto simp: replay_inv_def map_of_put)
  have counts: "\<forall>k. (counts(BlockedTo b := ?n + 1)) k = 0 \<or>
      IterationCount (repHistory ?s) k < (counts(BlockedTo b := ?n + 1)) k"
    using n 2(6) by auto
  have "replay_inv cfg task (replay_blocked run bs (counts(BlockedTo b := ?n + 1)) ?s) \<and>
      repHistory (replay_blocked run bs (counts(BlockedTo b := ?n + 1)) ?s) = repHistory ?s"
    by (rule "2.IH" [OF refl refl refl refl inv _ _ _ counts]) (use 2(3-5) in simp_all)
  then show ?case by (simp add: Let_def)
qed simp

lemma replay_run_inv:
  assumes "replay_run env cfg task run s = Inr s'" "replay_inv cfg task s" "RunID run \<noteq> []" "env_ok env"
  shows "replay_inv cfg task s' \<and> repHistory s' = repHistory s @ [run]"
proof -
  let ?s = "replay_register task run s"
  have inv: "replay_inv cfg task ?s" by (rule inv_intros) (rule assms(2))
  show ?thesis
  proof (cases "Status run = NodeRunDone")
    case False
    with assms(1) inv show ?thesis by (auto simp: replay_run_def Let_def)
  next
    case True
    with assms(1) obtain r e where
      res: "ResolveCompletion env (repEngine ?s) cfg task (repHistory ?s) run = (Inr r, e)"
      and s': "s' = replay_blocked run (Blocked r) (\<lambda>_. 0) (?s\<lparr>repEngine := e\<rparr>)"
      by (auto simp: replay_run_def Let_def split: prod.splits sum.splits)
    have reg: "run_registered (repEngine ?s) task run" by (rule replay_register_self) (rule assms(3))
    from inv have p: "pending_inv cfg (repEngine ?s) task (done_ids (repHistory ?s))"
      by (simp add: replay_inv_def)
    have self: "insert (RunID run) (done_ids (repHistory ?s)) = done_ids (repHistory ?s)"
      using True by (auto simp: done_ids_def)
    from pending_inv_resolve [OF res p reg assms(4)] inv
    have inv': "replay_inv cfg task (?s\<lparr>repEngine := e\<rparr>)" by (simp add: self replay_inv_def del: replay_register_history)
    have b: "MaxIterationsForNode cfg (BlockedTo b) \<le> IterationCount (repHistory ?s) (BlockedTo b) \<and>
       BlockedFailureReason b = exceeded_reason (BlockedTo b) \<and>
       TrigRunID (BlockedTrigger b) \<in> done_ids (repHistory ?s)" if "b \<in> set (Blocked r)" for b
      using resolve_sources(2) [OF res p reg assms(4) that] resolve_cases [OF res] that
      unfolding self by (auto simp: exceedsIterations_def block_def)
    have "replay_inv cfg task s' \<and> repHistory s' = repHistory (?s\<lparr>repEngine := e\<rparr>)"
      unfolding s' by (rule replay_blocked_inv [OF inv']) (use True b in auto)
    then show ?thesis by simp
  qed
qed

lemma replay_loop_inv:
  assumes "replay_loop env cfg task runs s = Inr s'" "replay_inv cfg task s"
    "\<forall>r\<in>set runs. RunID r \<noteq> []" "env_ok env"
  shows "replay_inv cfg task s' \<and> repHistory s' = repHistory s @ runs"
  using assms
proof (induction runs arbitrary: s)
  case (Cons run runs)
  then obtain s1 where one: "replay_run env cfg task run s = Inr s1"
    and rest: "replay_loop env cfg task runs s1 = Inr s'" by (auto split: sum.splits)
  from replay_run_inv [OF one] Cons.prems Cons.IH [OF rest] show ?case by auto
qed simp

interpretation blocked_sort: key_order blocked_before
  "\<lambda>s. (StepCreatedAt s, blockedStepKey (trigger_source s) (StepNode s))"
  by unfold_locales (auto simp: blocked_before_def less_prod_def)

text \<open>
  every blocked step that DeriveBlockedSteps reports is justified by the history: its node has
  no iterations left for the iteration it asks for, its reason says so, its source is a completed
  run and its time is the completion time of one; the steps come in the order of their times.
\<close>

theorem DeriveBlockedSteps_sound:
  assumes "env_ok env" and "\<forall>r\<in>set runs. RunID r \<noteq> []"
    and "DeriveBlockedSteps env cfg runs = Inr steps" and "step \<in> set steps"
  shows "StepReason step = exceeded_reason (StepNode step) \<and>
    MaxIterationsForNode cfg (StepNode step) < StepIteration step \<and>
    (\<exists>r\<in>set runs. Status r = NodeRunDone \<and> trigger_source step = RunID r) \<and>
    (\<exists>r\<in>set runs. Status r = NodeRunDone \<and> StepCreatedAt step = completionTimestamp r) \<and>
    sorted (map StepCreatedAt steps)"
proof -
  have runs: "set (sort_slice run_before runs) = set runs" by (rule run_sort.set_sort_slice)
  from assms(3,4) obtain first rest where srt: "sort_slice run_before runs = first # rest"
    by (auto simp: DeriveBlockedSteps_def split: list.splits)
  with assms(3) obtain s
    where loop: "replay_loop env cfg (RunTaskID first) (first # rest) init_replay = Inr s"
      and steps: "steps = sort_slice blocked_before (List.map_filter (map_of (repOpen s)) (repOrder s))"
    by (auto simp: DeriveBlockedSteps_def split: sum.splits)
  have "replay_inv cfg (RunTaskID first) init_replay"
    by (simp add: replay_inv_def init_replay_def pending_inv_def New_def arrivals_at_def)
  moreover have "\<forall>r\<in>set (first # rest). RunID r \<noteq> []" using assms(2) runs unfolding srt by simp
  ultimately have "replay_inv cfg (RunTaskID first) s \<and> repHistory s = repHistory init_replay @ first # rest"
    using replay_loop_inv [OF loop _ _ assms(1)] by blast
  then have inv: "replay_inv cfg (RunTaskID first) s" and hist: "set (repHistory s) = set runs"
    using runs unfolding srt by (auto simp: init_replay_def)
  from assms(4) obtain k where "map_of (repOpen s) k = Some step"
    unfolding steps blocked_sort.set_sort_slice by (auto simp: List.map_filter_def)
  with inv have j: "step_justified cfg (repHistory s) step" by (auto simp: replay_inv_def)
  have "sorted (map (\<lambda>s. (StepCreatedAt s, blockedStepKey (trigger_source s) (StepNode s))) steps)"
    unfolding steps by (rule blocked_sort.sorted_sort_slice)
  then have "sorted (map StepCreatedAt steps)"
    by (auto simp: sorted_iff_nth_mono less_eq_prod_def intro: order_less_imp_le)
  with j show ?thesis unfolding step_justified_def done_ids_def hist
    by (force simp: trigger_source_def)
qed

text \<open>A task whose plan node may run once and whose approval sends it back.\<close>

definition once_config :: Config where
  "once_config = demo_config\<lparr>Topo := demo_topology\<lparr>MaxIterations := 1\<rparr>\<rparr>"

definition reject_run :: NodeRun where
  "reject_run = demo_run ''b'' ''approve'' NodeRunDone 2
     \<lparr>Trigger := Some \<lparr>TrigRunID = ''a'', TrigReason = ''edge: plan -> approve''\<rparr>,
      Result := Some [(''approved'', VBool False)]\<rparr>"

definition blocked_plan :: BlockedStep where
  "blocked_plan =
     \<lparr>StepNode = ''plan'', StepIteration = 2, StepReason = exceeded_reason ''plan'',
      StepTrigger = Some \<lparr>TrigRunID = ''b'', TrigReason = ''edge: approved=v''\<rparr>, StepCreatedAt = 2\<rparr>"

lemma once_blocked: "DeriveBlockedSteps plain_env once_config [plan_run, reject_run] = Inr [blocked_plan]"
  by (simp add: DeriveBlockedSteps_def run_before_def plan_run_def reject_run_def demo_run_def
      replay_run_def replay_register_def init_replay_def engine_simps demo_simps diamond_simps
      once_config_def map_del_def MaxIterationsForNode_def exceedsIterations_def
      matched_edges_def matchesCondition_def ValuesEqual_def next_iteration_def block_def
      completionTimestamp_def blockedStepKey_def blocked_plan_def close_step_def closed_key_def
      IsManualContinueReason_def IsManualRetryReason_def reason_defs List.map_filter_def)

theorem DeriveBlockedSteps_sound_witness:
  "MaxIterationsForNode once_config ''plan'' < StepIteration blocked_plan"
  using DeriveBlockedSteps_sound [OF env_ok_plain _ once_blocked, of blocked_plan]
  by (simp add: plan_run_def reject_run_def demo_run_def, simp add: blocked_plan_def)

text \<open>
  The blocked steps of a task do not depend on the order in which the store returns its runs.
\<close>

theorem DeriveBlockedSteps_order_irrelevant:
  assumes "mset runs = mset runs'" and "inj_on RunID (set runs)"
  shows "DeriveBlockedSteps env cfg runs = DeriveBlockedSteps env cfg runs'"
  using run_sort.sort_slice_perm [OF assms(1) run_key_inj [OF assms(2)]]
  by (simp add: DeriveBlockedSteps_def)

theorem DeriveBlockedSteps_order_irrelevant_witness:
  "DeriveBlockedSteps plain_env demo_config [plan_run, end_run] =
   DeriveBlockedSteps plain_env demo_config [end_run, plan_run]"
  by (rule DeriveBlockedSteps_order_irrelevant) (auto simp: plan_run_def end_run_def demo_run_def)

end
