(* ===== verification/EventBuffer.thy ===== *)
theory EventBuffer
  imports Values "HOL-Library.Word"
begin

unbundle bit_operations_syntax

text \<open>
  The replay buffer of the chat transport (cli/internal/agentchat/eventbuf.go): a ring of events
  with 64-bit sequence numbers, a byte budget, and replay by cursor, in one piece or in pages.  The
  ring is shown to be a bounded log, whose contract is a locale, and the replay facts rest on it.
\<close>

section \<open>State\<close>

text \<open>
  An event is its sequence number and the rest of its fields as one value, VNil for the zero event.
  MarshalEvent (json.Marshal) enters as the argument encoded: the length of the encoding, or None.
\<close>

type_synonym u64 = "64 word"

record Event =
  EvSeq :: u64
  EvBody :: gval

definition zero_event :: Event where
  "zero_event = \<lparr>EvSeq = 0, EvBody = VNil\<rparr>"

record EventBuffer =
  events :: "Event list"
  eventSizes :: "int list"
  bufSize :: nat
  head :: nat
  stored :: nat
  bytesUsed :: int
  byteBudget :: int
  bufSeq :: u64
  streamEpoch :: u64

datatype ResyncStatus = ResyncStatusOK | ResyncStatusReset | ResyncStatusGap

record ReplaySnapshot =
  ReplayEvents :: "Event list"
  ReplayStatus :: ResyncStatus
  ReplayEpoch :: u64
  ReplayedThroughSeq :: u64

record ReplayPageSnapshot =
  PageEvents :: "Event list"
  PageStatus :: ResyncStatus
  PageEpoch :: u64
  PageThroughSeq :: u64
  HasMore :: bool
  NextAfterSeq :: u64

section \<open>Epochs\<close>

definition maxJSONSafeInteger :: u64 where
  "maxJSONSafeInteger = push_bit 53 1 - 1"

definition jsonSafeEpoch :: "u64 \<Rightarrow> u64" where
  "jsonSafeEpoch v = (let epoch = v AND maxJSONSafeInteger in if epoch = 0 then 1 else epoch)"

text \<open>
  nextStreamEpoch: random is what crypto/rand gives (None when it fails), fallback the counter
  fallbackStreamEpoch, returned updated.
\<close>

definition nextStreamEpoch :: "u64 option \<Rightarrow> u64 \<Rightarrow> u64 \<times> u64" where
  "nextStreamEpoch random fallback =
     (case random of
        Some raw \<Rightarrow>
          if jsonSafeEpoch raw \<noteq> 0 then (jsonSafeEpoch raw, fallback)
          else (jsonSafeEpoch (fallback + 1), fallback + 1)
      | None \<Rightarrow> (jsonSafeEpoch (fallback + 1), fallback + 1))"

section \<open>Operations\<close>

definition DefaultEventBufferByteBudget :: int where
  "DefaultEventBufferByteBudget = 2 * 1024 * 1024"

definition NewEventBufferWithByteBudget :: "int \<Rightarrow> int \<Rightarrow> u64 \<Rightarrow> EventBuffer" where
  "NewEventBufferWithByteBudget sz budget epoch =
     (let n = nat (if sz \<le> 0 then 1024 else sz)
      in \<lparr>events = replicate n zero_event, eventSizes = replicate n 0, bufSize = n, head = 0,
          stored = 0, bytesUsed = 0, byteBudget = budget, bufSeq = 0, streamEpoch = epoch\<rparr>)"

definition NewEventBuffer :: "int \<Rightarrow> u64 \<Rightarrow> EventBuffer" where
  "NewEventBuffer sz epoch = NewEventBufferWithByteBudget sz DefaultEventBufferByteBudget epoch"

definition event_size :: "(Event \<Rightarrow> nat option) \<Rightarrow> Event \<Rightarrow> int" where
  "event_size encoded event =
     (case encoded event of Some n \<Rightarrow> if 0 < n then int n else 1 | None \<Rightarrow> 1)"

text \<open>(b.head - b.count + b.size) % b.size, where count is at most size.\<close>

definition oldest_idx :: "EventBuffer \<Rightarrow> nat" where
  "oldest_idx b = (head b + bufSize b - stored b) mod bufSize b"

definition dropOldestLocked :: "EventBuffer \<Rightarrow> EventBuffer" where
  "dropOldestLocked b =
     (if stored b = 0 then b
      else
        (let oldestIdx = oldest_idx b;
             used = bytesUsed b - eventSizes b ! oldestIdx
         in b\<lparr>bytesUsed := (if used < 0 then 0 else used),
              events := (events b)[oldestIdx := zero_event],
              eventSizes := (eventSizes b)[oldestIdx := 0],
              stored := stored b - 1\<rparr>))"

function drop_while_over :: "EventBuffer \<Rightarrow> EventBuffer" where
  "drop_while_over b =
     (if 0 < stored b \<and> byteBudget b < bytesUsed b then drop_while_over (dropOldestLocked b) else b)"
  by pat_completeness auto
termination
  by (relation "measure stored") (auto simp: dropOldestLocked_def Let_def)

declare drop_while_over.simps [simp del]

definition Push :: "(Event \<Rightarrow> nat option) \<Rightarrow> Event \<Rightarrow> EventBuffer \<Rightarrow> Event \<times> EventBuffer" where
  "Push encoded event b =
     (let seq = bufSeq b + 1;
          event = event\<lparr>EvSeq := seq\<rparr>;
          eventSize = event_size encoded event;
          full = stored b = bufSize b;
          used = (if full then bytesUsed b - eventSizes b ! head b else bytesUsed b);
          b' = b\<lparr>bufSeq := seq,
                 stored := (if full then stored b else stored b + 1),
                 events := (events b)[head b := event],
                 eventSizes := (eventSizes b)[head b := eventSize],
                 bytesUsed := used + eventSize,
                 head := (head b + 1) mod bufSize b\<rparr>
      in (event, if 0 < byteBudget b then drop_while_over b' else b'))"

definition Reset :: "u64 \<Rightarrow> EventBuffer \<Rightarrow> EventBuffer" where
  "Reset epoch b = b\<lparr>
     events := map (\<lambda>_. zero_event) (events b), eventSizes := map (\<lambda>_. 0) (eventSizes b),
     head := 0, stored := 0, bytesUsed := 0, bufSeq := 0, streamEpoch := epoch\<rparr>"

definition snapshotAllLocked :: "EventBuffer \<Rightarrow> Event list" where
  "snapshotAllLocked b =
     (if stored b = 0 then []
      else map (\<lambda>i. events b ! ((oldest_idx b + i) mod bufSize b)) [0..<stored b])"

definition replaySinceLocked :: "EventBuffer \<Rightarrow> u64 \<Rightarrow> u64 \<Rightarrow> ReplaySnapshot" where
  "replaySinceLocked b epoch afterSeq =
     (let snapshot = \<lparr>ReplayEvents = [], ReplayStatus = ResyncStatusOK,
                      ReplayEpoch = streamEpoch b, ReplayedThroughSeq = bufSeq b\<rparr>
      in if epoch = 0 \<or> epoch \<noteq> streamEpoch b then
           snapshot\<lparr>ReplayStatus := ResyncStatusReset, ReplayEvents := snapshotAllLocked b\<rparr>
         else if bufSeq b < afterSeq then
           snapshot\<lparr>ReplayStatus := ResyncStatusReset, ReplayEvents := snapshotAllLocked b\<rparr>
         else if stored b = 0 \<or> afterSeq = bufSeq b then snapshot
         else if afterSeq < EvSeq (events b ! oldest_idx b) - 1 then
           snapshot\<lparr>ReplayStatus := ResyncStatusGap, ReplayEvents := snapshotAllLocked b\<rparr>
         else
           snapshot\<lparr>ReplayEvents :=
             filter (\<lambda>event. afterSeq < EvSeq event)
               (map (\<lambda>i. events b ! ((oldest_idx b + i) mod bufSize b)) [0..<stored b])\<rparr>)"

definition ReplaySince :: "EventBuffer \<Rightarrow> u64 \<Rightarrow> u64 \<Rightarrow> ReplaySnapshot" where
  "ReplaySince b epoch afterSeq = replaySinceLocked b epoch afterSeq"

text \<open>The loop of ReplaySincePage: the events taken so far, the next cursor, the bytes, HasMore.\<close>

fun page_loop ::
  "(Event \<Rightarrow> nat option) \<Rightarrow> int \<Rightarrow> int \<Rightarrow> Event list \<Rightarrow> Event list \<Rightarrow> u64 \<Rightarrow> int \<Rightarrow>
   Event list \<times> u64 \<times> bool" where
  "page_loop encoded maxBytes maxEvents [] taken next used = (taken, next, False)"
| "page_loop encoded maxBytes maxEvents (event # rest) taken next used =
     (if maxEvents \<le> int (length taken) then (taken, next, True)
      else
        (let eventSize = event_size encoded event
         in if 0 < length taken \<and> 0 < maxBytes \<and> maxBytes < used + eventSize then (taken, next, True)
            else page_loop encoded maxBytes maxEvents rest (taken @ [event]) (EvSeq event) (used + eventSize)))"

definition ReplaySincePage ::
  "(Event \<Rightarrow> nat option) \<Rightarrow> EventBuffer \<Rightarrow> u64 \<Rightarrow> u64 \<Rightarrow> int \<Rightarrow> int \<Rightarrow> ReplayPageSnapshot" where
  "ReplaySincePage encoded b epoch afterSeq maxBytes maxEvents =
     (let snapshot = replaySinceLocked b epoch afterSeq;
          page = \<lparr>PageEvents = [], PageStatus = ReplayStatus snapshot, PageEpoch = ReplayEpoch snapshot,
                  PageThroughSeq = ReplayedThroughSeq snapshot, HasMore = False, NextAfterSeq = afterSeq\<rparr>
      in if ReplayEvents snapshot = [] then page
         else
           (let limit = (if maxEvents \<le> 0 then int (length (ReplayEvents snapshot)) else maxEvents);
                (taken, next, more) =
                  page_loop encoded maxBytes limit (ReplayEvents snapshot) [] afterSeq 0
            in page\<lparr>PageEvents := taken, NextAfterSeq := next,
                    HasMore := (more \<or> length taken < length (ReplayEvents snapshot))\<rparr>))"

section \<open>Rings\<close>

text \<open>The c entries of a ring that end just before position h, oldest first.\<close>

definition ring :: "'a list \<Rightarrow> nat \<Rightarrow> nat \<Rightarrow> 'a list" where
  "ring xs h c = map (\<lambda>i. xs ! ((h + length xs - c + i) mod length xs)) [0..<c]"

lemma mod_below_twice: "k < 2 * n \<Longrightarrow> k mod n = (if k < n then k else k - n)" for k n :: nat
  by (simp add: le_mod_geq)

lemma ring_Nil [simp]: "ring xs h 0 = []"
  by (simp add: ring_def)

lemma length_ring [simp]: "length (ring xs h c) = c"
  by (simp add: ring_def)

lemma ring_nth:
  assumes "h < length xs" "c \<le> length xs" "i < c"
  shows "ring xs h c ! i = xs ! (if h + i < c then h + length xs - c + i else h + i - c)"
  using assms by (auto simp: ring_def mod_below_twice)

lemma ring_push:
  assumes "h < length xs" "c < length xs"
  shows "ring (xs[h := x]) (Suc h mod length xs) (Suc c) = ring xs h c @ [x]"
proof (rule nth_equalityI)
  fix i assume "i < length (ring (xs[h := x]) (Suc h mod length xs) (Suc c))"
  then have i: "i < Suc c" by simp
  have h: "Suc h mod length xs < length xs" by (rule mod_less_divisor) (use assms in linarith)
  show "ring (xs[h := x]) (Suc h mod length xs) (Suc c) ! i = (ring xs h c @ [x]) ! i"
  proof (cases "i = c")
    case True
    have "ring ys (Suc h mod length xs) (Suc c) ! i = ys ! h" if "length ys = length xs" for ys :: "'a list"
      using assms h True that
      by (subst ring_nth) (auto simp: mod_Suc intro!: arg_cong [where f = "(!) ys"])
    with assms True show ?thesis by (simp add: nth_append)
  next
    case False
    with i have "i < c" by simp
    with assms h show ?thesis
      by (subst ring_nth) (auto simp: nth_append ring_nth mod_Suc nth_list_update intro!: arg_cong [where f = "(!) xs"])
  qed
qed simp

lemma ring_push_full:
  assumes "h < length xs"
  shows "ring (xs[h := x]) (Suc h mod length xs) (length xs) = tl (ring xs h (length xs)) @ [x]"
proof (rule nth_equalityI)
  fix i assume "i < length (ring (xs[h := x]) (Suc h mod length xs) (length xs))"
  then have i: "i < length xs" by simp
  have h: "Suc h mod length xs < length xs" by (rule mod_less_divisor) (use assms in linarith)
  show "ring (xs[h := x]) (Suc h mod length xs) (length xs) ! i = (tl (ring xs h (length xs)) @ [x]) ! i"
  proof (cases "Suc i = length xs")
    case True
    have "ring ys (Suc h mod length xs) (length xs) ! i = ys ! h" if "length ys = length xs" for ys :: "'a list"
      using assms h True that
      by (subst ring_nth) (auto simp: mod_Suc intro!: arg_cong [where f = "(!) ys"])
    moreover have "length (tl (ring xs h (length xs))) = i" using True by simp
    ultimately show ?thesis using assms by (simp add: nth_append)
  next
    case False
    with i have "Suc i < length xs" by simp
    with assms h show ?thesis
      by (subst ring_nth) (auto simp: nth_append nth_tl ring_nth mod_Suc nth_list_update intro!: arg_cong [where f = "(!) xs"])
  qed
qed (use assms in simp)

lemma ring_drop:
  assumes "h < length xs" "0 < c" "c \<le> length xs"
  shows "ring (xs[(h + length xs - c) mod length xs := z]) h (c - 1) = tl (ring xs h c)"
proof (rule nth_equalityI)
  fix i assume "i < length (ring (xs[(h + length xs - c) mod length xs := z]) h (c - 1))"
  then have i: "i < c - 1" by simp
  with assms show "ring (xs[(h + length xs - c) mod length xs := z]) h (c - 1) ! i = tl (ring xs h c) ! i"
    by (auto simp: nth_tl ring_nth mod_below_twice nth_list_update Suc_diff_le)
qed simp

lemma ring_hd:
  assumes "h < length xs" "0 < c" "c \<le> length xs"
  shows "xs ! ((h + length xs - c) mod length xs) = hd (ring xs h c)"
  using assms by (simp add: ring_def upt_conv_Cons)

lemma sum_list_hd: "xs \<noteq> [] \<Longrightarrow> sum_list (tl xs) = sum_list xs - hd xs" for xs :: "int list"
  by (cases xs) auto

section \<open>The buffer as a bounded log\<close>

text \<open>
  The contract of a bounded log of numbered entries: adding one numbers it with the next number and
  keeps a suffix.  limit bounds the numbers.
\<close>

locale bounded_log =
  fixes entries :: "'b \<Rightarrow> 'e list"
    and last_no :: "'b \<Rightarrow> nat"
    and push :: "'e \<Rightarrow> 'b \<Rightarrow> 'b"
    and stamp :: "nat \<Rightarrow> 'e \<Rightarrow> 'e"
    and number :: "'e \<Rightarrow> nat"
    and ok :: "'b \<Rightarrow> bool"
    and limit :: nat
  assumes push_entries: "ok b \<Longrightarrow> \<exists>k. entries (push e b) = drop k (entries b @ [stamp (Suc (last_no b)) e])"
    and push_last: "ok b \<Longrightarrow> Suc (last_no b) < limit \<Longrightarrow> last_no (push e b) = Suc (last_no b)"
    and push_ok: "ok b \<Longrightarrow> ok (push e b)"
    and number_stamp: "n < limit \<Longrightarrow> number (stamp n e) = n"
begin

definition consecutive :: "'b \<Rightarrow> bool" where
  "consecutive b \<longleftrightarrow> length (entries b) \<le> last_no b \<and>
     map number (entries b) = [Suc (last_no b) - length (entries b)..<Suc (last_no b)]"

lemma consecutive_push:
  assumes "ok b" "consecutive b" "Suc (last_no b) < limit"
  shows "consecutive (push e b)"
proof -
  obtain k where k: "entries (push e b) = drop k (entries b @ [stamp (Suc (last_no b)) e])"
    using push_entries [OF assms(1)] by blast
  have "map number (entries b @ [stamp (Suc (last_no b)) e]) =
      [Suc (last_no b) - length (entries b)..<Suc (Suc (last_no b))]"
    using assms by (simp add: consecutive_def number_stamp)
  then have "map number (entries (push e b)) =
      [Suc (last_no b) - length (entries b) + k..<Suc (Suc (last_no b))]"
    unfolding k drop_map [symmetric] by (metis drop_upt)
  moreover have "length (entries (push e b)) = Suc (length (entries b)) - k" by (simp add: k)
  ultimately show ?thesis
    using assms by (cases "k \<le> length (entries b)") (auto simp: consecutive_def push_last Suc_diff_le)
qed

lemma replay_complete:
  assumes "consecutive b" "last_no b - length (entries b) \<le> after"
  shows "map number (filter (\<lambda>e. after < number e) (entries b)) = [Suc after..<Suc (last_no b)]"
proof -
  have "filter (\<lambda>n. after < n) [lo..<hi] = [Suc after..<hi]" if "lo \<le> Suc after" for lo hi
    using that by (induction hi) auto
  then have "filter (\<lambda>n. after < n) (map number (entries b)) = [Suc after..<Suc (last_no b)]"
    using assms unfolding consecutive_def by (metis Suc_diff_le diff_le_self le_SucI not_less_eq_eq order_trans)
  then show ?thesis by (simp add: filter_map comp_def)
qed

end

definition buffered :: "EventBuffer \<Rightarrow> Event list" where
  "buffered b = ring (events b) (head b) (stored b)"

definition buffer_ok :: "(Event \<Rightarrow> nat option) \<Rightarrow> EventBuffer \<Rightarrow> bool" where
  "buffer_ok encoded b \<longleftrightarrow>
     0 < bufSize b \<and> length (events b) = bufSize b \<and> length (eventSizes b) = bufSize b \<and>
     head b < bufSize b \<and> stored b \<le> bufSize b \<and>
     ring (eventSizes b) (head b) (stored b) = map (event_size encoded) (buffered b) \<and>
     bytesUsed b = sum_list (map (event_size encoded) (buffered b))"

lemma length_buffered [simp]: "length (buffered b) = stored b"
  by (simp add: buffered_def)

lemma event_size_pos: "0 < event_size encoded e"
  by (simp add: event_size_def split: option.split)

lemma sum_event_sizes: "0 \<le> sum_list (map (event_size encoded) es)"
  by (rule sum_list_nonneg) (use event_size_pos in \<open>auto intro: less_imp_le\<close>)

lemma snapshotAll_buffered:
  assumes "buffer_ok encoded b"
  shows "snapshotAllLocked b = buffered b"
    "map (\<lambda>i. events b ! ((oldest_idx b + i) mod bufSize b)) [0..<stored b] = buffered b"
  using assms by (auto simp: snapshotAllLocked_def buffered_def ring_def buffer_ok_def oldest_idx_def mod_add_left_eq)

lemma oldest_buffered:
  assumes "buffer_ok encoded b" "0 < stored b"
  shows "events b ! oldest_idx b = hd (buffered b)" "eventSizes b ! oldest_idx b = event_size encoded (hd (buffered b))"
proof -
  have "ring (eventSizes b) (head b) (stored b) = map (event_size encoded) (buffered b)" "buffered b \<noteq> []"
    using assms by (auto simp: buffer_ok_def simp flip: length_0_conv)
  with assms ring_hd [of "head b" "events b" "stored b"] ring_hd [of "head b" "eventSizes b" "stored b"]
  show "events b ! oldest_idx b = hd (buffered b)" "eventSizes b ! oldest_idx b = event_size encoded (hd (buffered b))"
    by (simp_all add: oldest_idx_def buffered_def buffer_ok_def hd_map)
qed

text \<open>The fields dropping does not touch.\<close>

definition same_stream :: "EventBuffer \<Rightarrow> EventBuffer \<Rightarrow> bool" where
  "same_stream b b' \<longleftrightarrow> bufSeq b' = bufSeq b \<and> streamEpoch b' = streamEpoch b \<and>
     byteBudget b' = byteBudget b \<and> bufSize b' = bufSize b"

lemma drop_oldest:
  assumes ok: "buffer_ok encoded b" and "0 < stored b"
  shows "buffer_ok encoded (dropOldestLocked b)" "buffered (dropOldestLocked b) = tl (buffered b)"
    "same_stream b (dropOldestLocked b)"
proof -
  have ne: "buffered b \<noteq> []" using assms(2) by (simp flip: length_greater_0_conv)
  have bytes: "bytesUsed b - eventSizes b ! oldest_idx b = sum_list (map (event_size encoded) (tl (buffered b)))"
    using ok ne oldest_buffered(2) [OF assms] by (cases "buffered b") (auto simp: buffer_ok_def)
  then have used: "\<not> bytesUsed b - eventSizes b ! oldest_idx b < 0"
    using sum_event_sizes [of encoded "tl (buffered b)"] by simp
  have idx: "oldest_idx b = (head b + length (events b) - stored b) mod length (events b)"
    "oldest_idx b = (head b + length (eventSizes b) - stored b) mod length (eventSizes b)"
    using ok by (simp_all add: oldest_idx_def buffer_ok_def)
  show *: "buffered (dropOldestLocked b) = tl (buffered b)"
    using assms ring_drop [of "head b" "events b" "stored b" zero_event] idx(1)
    by (simp add: buffered_def dropOldestLocked_def Let_def buffer_ok_def)
  have "ring (eventSizes (dropOldestLocked b)) (head b) (stored b - 1) = tl (ring (eventSizes b) (head b) (stored b))"
    using assms ring_drop [of "head b" "eventSizes b" "stored b" 0] idx(2)
    by (simp add: dropOldestLocked_def Let_def buffer_ok_def)
  with ok assms(2) * bytes used show "buffer_ok encoded (dropOldestLocked b)"
    unfolding buffer_ok_def by (simp add: dropOldestLocked_def Let_def map_tl) linarith
  show "same_stream b (dropOldestLocked b)"
    by (simp add: same_stream_def dropOldestLocked_def Let_def)
qed

lemma drop_while_over:
  assumes "buffer_ok encoded b"
  shows "buffer_ok encoded (drop_while_over b) \<and> (\<exists>k. buffered (drop_while_over b) = drop k (buffered b)) \<and>
    same_stream b (drop_while_over b) \<and>
    (0 < byteBudget b \<longrightarrow> bytesUsed (drop_while_over b) \<le> byteBudget b)"
  using assms
proof (induction b rule: drop_while_over.induct)
  case (1 b)
  show ?case
  proof (cases "0 < stored b \<and> byteBudget b < bytesUsed b")
    case False
    then have eq: "drop_while_over b = b" by (subst drop_while_over.simps) auto
    have "stored b = 0 \<Longrightarrow> bytesUsed b = 0"
      using 1(2) by (simp add: buffer_ok_def flip: length_buffered)
    with False 1(2) show ?thesis
      unfolding eq by (auto simp: same_stream_def intro: exI [of _ 0])
  next
    case True
    then have eq: "drop_while_over b = drop_while_over (dropOldestLocked b)"
      by (subst drop_while_over.simps) simp
    note d = drop_oldest [OF 1(2)]
    have ok: "buffer_ok encoded (dropOldestLocked b)" and tl: "buffered (dropOldestLocked b) = tl (buffered b)"
      and same: "same_stream b (dropOldestLocked b)" using d True by simp_all
    note IH = "1.IH" [OF True ok]
    then obtain k where "buffered (drop_while_over b) = drop (Suc k) (buffered b)"
      unfolding eq tl by (auto simp: drop_Suc)
    moreover have "same_stream b (drop_while_over b)" "byteBudget (dropOldestLocked b) = byteBudget b"
      using IH same unfolding eq by (simp_all add: same_stream_def)
    ultimately show ?thesis using IH unfolding eq by auto
  qed
qed

lemma push_ring:
  assumes "buffer_ok encoded b"
  shows "fst (Push encoded e b) = e\<lparr>EvSeq := bufSeq b + 1\<rparr> \<and>
    buffer_ok encoded (snd (Push encoded e b)) \<and>
    (\<exists>k. buffered (snd (Push encoded e b)) = drop k (buffered b @ [e\<lparr>EvSeq := bufSeq b + 1\<rparr>])) \<and>
    bufSeq (snd (Push encoded e b)) = bufSeq b + 1 \<and> streamEpoch (snd (Push encoded e b)) = streamEpoch b \<and>
    (0 < byteBudget b \<longrightarrow> bytesUsed (snd (Push encoded e b)) \<le> byteBudget b)"
proof -
  let ?e = "e\<lparr>EvSeq := bufSeq b + 1\<rparr>" and ?full = "stored b = bufSize b"
  let ?b = "b\<lparr>bufSeq := bufSeq b + 1,
     stored := (if ?full then stored b else stored b + 1),
     events := (events b)[head b := ?e],
     eventSizes := (eventSizes b)[head b := event_size encoded ?e],
     bytesUsed := (if ?full then bytesUsed b - eventSizes b ! head b else bytesUsed b) + event_size encoded ?e,
     head := (head b + 1) mod bufSize b\<rparr>"
  have push: "Push encoded e b = (?e, if 0 < byteBudget b then drop_while_over ?b else ?b)"
    by (simp add: Push_def Let_def)
  let ?k = "if ?full then 1 else 0 :: nat"
  have ok: "0 < bufSize b" "length (events b) = bufSize b" "length (eventSizes b) = bufSize b"
    "head b < bufSize b" "stored b \<le> bufSize b"
    and sizes: "ring (eventSizes b) (head b) (stored b) = map (event_size encoded) (buffered b)"
    and used: "bytesUsed b = sum_list (map (event_size encoded) (buffered b))"
    using assms by (auto simp: buffer_ok_def)
  have ev: "buffered ?b = drop ?k (buffered b @ [?e])"
    using ok ring_push [of "head b" "events b" "stored b" ?e] ring_push_full [of "head b" "events b" ?e]
    by (auto simp: buffered_def drop_Suc simp flip: length_greater_0_conv)
  have sz: "ring (eventSizes ?b) (head ?b) (stored ?b) = drop ?k (ring (eventSizes b) (head b) (stored b) @ [event_size encoded ?e])"
    using ok ring_push [of "head b" "eventSizes b" "stored b" "event_size encoded ?e"]
      ring_push_full [of "head b" "eventSizes b" "event_size encoded ?e"]
    by (auto simp: drop_Suc simp flip: length_greater_0_conv)
  have "oldest_idx b = head b" if ?full using that ok by (simp add: oldest_idx_def)
  with oldest_buffered(2) [OF assms] ok have hd: "eventSizes b ! head b = event_size encoded (hd (buffered b))" if ?full
    using that by simp
  have bytes: "bytesUsed ?b = sum_list (map (event_size encoded) (buffered ?b))"
  proof (cases ?full)
    case True
    then have "buffered b \<noteq> []" using ok by (simp flip: length_greater_0_conv)
    then show ?thesis unfolding ev using True used hd by (cases "buffered b") auto
  next
    case False
    then show ?thesis unfolding ev using used by simp
  qed
  have "buffer_ok encoded ?b" unfolding buffer_ok_def
    using ok sz bytes ev sizes by (simp add: drop_map [symmetric])
  note d = drop_while_over [OF this]
  show ?thesis
  proof (cases "0 < byteBudget b")
    case False
    have "\<exists>k. buffered ?b = drop k (buffered b @ [?e])" using ev by blast
    with False push \<open>buffer_ok encoded ?b\<close> show ?thesis by simp
  next
    case True
    from d obtain j where "buffered (drop_while_over ?b) = drop j (buffered ?b)" by blast
    then have "\<exists>k. buffered (drop_while_over ?b) = drop k (buffered b @ [?e])"
      unfolding ev by (metis drop_drop)
    with True push d show ?thesis by (simp add: same_stream_def)
  qed
qed

interpretation buffer_log: bounded_log buffered "\<lambda>b. unat (bufSeq b)" "\<lambda>e b. snd (Push encoded e b)"
  "\<lambda>n e. e\<lparr>EvSeq := of_nat n\<rparr>" "\<lambda>e. unat (EvSeq e)" "buffer_ok encoded" "2 ^ 64" for encoded
proof unfold_locales
  fix b e assume "buffer_ok encoded b"
  from push_ring [OF this, of e]
  show "\<exists>k. buffered (snd (Push encoded e b)) = drop k (buffered b @ [e\<lparr>EvSeq := of_nat (Suc (unat (bufSeq b)))\<rparr>])"
    by (simp add: add.commute)
next
  fix b e assume "buffer_ok encoded b" "Suc (unat (bufSeq b)) < 2 ^ 64"
  with push_ring [of encoded b e] show "unat (bufSeq (snd (Push encoded e b))) = Suc (unat (bufSeq b))"
    by (simp add: unat_word_ariths)
next
  fix b e assume "buffer_ok encoded b"
  with push_ring show "buffer_ok encoded (snd (Push encoded e b))" by blast
next
  fix n e assume "n < (2 ^ 64 :: nat)"
  then show "unat (EvSeq (e\<lparr>EvSeq := of_nat n\<rparr>)) = n" by (simp add: unat_of_nat)
qed

section \<open>Reachable buffers\<close>

text \<open>The states of a buffer in use, up to the last 64-bit sequence number.\<close>

inductive buffer_reaches :: "(Event \<Rightarrow> nat option) \<Rightarrow> EventBuffer \<Rightarrow> bool" for encoded where
  reaches_new: "buffer_reaches encoded (NewEventBufferWithByteBudget sz budget epoch)"
| reaches_push: "buffer_reaches encoded b \<Longrightarrow> Suc (unat (bufSeq b)) < 2 ^ 64 \<Longrightarrow>
    buffer_reaches encoded (snd (Push encoded e b))"
| reaches_reset: "buffer_reaches encoded b \<Longrightarrow> buffer_reaches encoded (Reset epoch b)"

lemma empty_buffer_ok:
  assumes "0 < bufSize b" "length (events b) = bufSize b" "length (eventSizes b) = bufSize b"
    "head b = 0" "stored b = 0" "bytesUsed b = 0"
  shows "buffer_ok encoded b" "buffer_log.consecutive b"
proof -
  have nil: "buffered b = []" using assms(5) by (simp add: buffered_def)
  with assms show "buffer_ok encoded b" by (simp add: buffer_ok_def)
  from nil show "buffer_log.consecutive b" by (simp add: buffer_log.consecutive_def)
qed

lemma reaches_inv:
  assumes "buffer_reaches encoded b"
  shows "buffer_ok encoded b \<and> buffer_log.consecutive b"
  using assms
proof (induction rule: buffer_reaches.induct)
  case (reaches_new sz budget epoch)
  show ?case
    by (intro conjI; rule empty_buffer_ok) (simp_all add: NewEventBufferWithByteBudget_def Let_def)
next
  case (reaches_push b e)
  then show ?case using buffer_log.push_ok buffer_log.consecutive_push by blast
next
  case (reaches_reset b epoch)
  then show ?case
    by (intro conjI; intro empty_buffer_ok) (simp_all add: Reset_def buffer_ok_def)
qed

lemma seq_minus_one:
  assumes "0 < unat (s :: u64)"
  shows "a < s - 1 \<longleftrightarrow> Suc (unat a) < unat s"
proof -
  from assms have "unat (s - 1) = unat s - 1" by (subst unat_minus_one) auto
  with assms show ?thesis by (auto simp: word_less_nat_alt)
qed

section \<open>Properties\<close>

text \<open>
  in every reachable buffer the buffered events carry consecutive sequence numbers that end at
  the current one, and their encoded sizes add up to bytesUsed; after a push with a byte budget,
  bytesUsed is within it.
\<close>

theorem buffer_keeps_consecutive_events:
  assumes "buffer_reaches encoded b"
  shows "map (unat \<circ> EvSeq) (snapshotAllLocked b) =
      [Suc (unat (bufSeq b)) - length (snapshotAllLocked b)..<Suc (unat (bufSeq b))] \<and>
    bytesUsed b = sum_list (map (event_size encoded) (snapshotAllLocked b)) \<and>
    (0 < byteBudget b \<longrightarrow> bytesUsed (snd (Push encoded e b)) \<le> byteBudget b)"
proof -
  from reaches_inv [OF assms] have ok: "buffer_ok encoded b" and cons: "buffer_log.consecutive b" by blast+
  from push_ring [OF ok, of e] have "0 < byteBudget b \<longrightarrow> bytesUsed (snd (Push encoded e b)) \<le> byteBudget b"
    by blast
  moreover have "bytesUsed b = sum_list (map (event_size encoded) (buffered b))" using ok by (simp add: buffer_ok_def)
  ultimately show ?thesis
    using cons unfolding snapshotAll_buffered(1) [OF ok] buffer_log.consecutive_def comp_def by blast
qed


text \<open>A buffer of two slots with three pushed events, each one byte.\<close>

definition demo_event :: Event where
  "demo_event = \<lparr>EvSeq = 0, EvBody = VStr ''x''\<rparr>"

definition demo_buffer :: EventBuffer where
  "demo_buffer =
     snd (Push (\<lambda>_. Some 1) demo_event (snd (Push (\<lambda>_. Some 1) demo_event
       (snd (Push (\<lambda>_. Some 1) demo_event (NewEventBufferWithByteBudget 2 10 7))))))"

lemmas buffer_simps =
  Push_def NewEventBufferWithByteBudget_def event_size_def drop_while_over.simps demo_event_def
  snapshotAllLocked_def oldest_idx_def ReplaySince_def replaySinceLocked_def zero_event_def

lemma demo_reaches: "buffer_reaches (\<lambda>_. Some 1) demo_buffer"
  unfolding demo_buffer_def
  by (intro buffer_reaches.intros) (simp_all add: buffer_simps Let_def)

lemma demo_buffered:
  "snapshotAllLocked demo_buffer = [demo_event\<lparr>EvSeq := 2\<rparr>, demo_event\<lparr>EvSeq := 3\<rparr>]"
  "bufSeq demo_buffer = 3" "streamEpoch demo_buffer = 7" "byteBudget demo_buffer = 10"
  by (simp_all add: demo_buffer_def buffer_simps Let_def upt_rec numeral_eq_Suc)

theorem buffer_keeps_consecutive_events_witness:
  "bytesUsed (snd (Push (\<lambda>_. Some 1) demo_event demo_buffer)) \<le> 10"
  using buffer_keeps_consecutive_events [OF demo_reaches, of demo_event] by (simp add: demo_buffered)


text \<open>
  an event larger than the byte budget empties the buffer, and a client that then asks to resume
  from any earlier cursor of the current stream is answered OK with no events, as if it had missed
  nothing: the empty buffer is tested before the gap.
\<close>

theorem oversized_event_is_lost_without_gap:
  assumes "buffer_reaches encoded b" and "Suc (unat (bufSeq b)) < 2 ^ 64" and "0 < byteBudget b"
    and "byteBudget b < event_size encoded (e\<lparr>EvSeq := bufSeq b + 1\<rparr>)"
    and "streamEpoch b \<noteq> 0" and "after \<le> bufSeq b"
  shows "ReplaySince (snd (Push encoded e b)) (streamEpoch b) after =
    \<lparr>ReplayEvents = [], ReplayStatus = ResyncStatusOK, ReplayEpoch = streamEpoch b,
     ReplayedThroughSeq = bufSeq b + 1\<rparr>"
proof -
  let ?b = "snd (Push encoded e b)" and ?e = "e\<lparr>EvSeq := bufSeq b + 1\<rparr>"
  from reaches_inv [OF assms(1)] have "buffer_ok encoded b" by blast
  from push_ring [OF this, of e] obtain k where k: "buffered ?b = drop k (buffered b @ [?e])"
    and ok: "buffer_ok encoded ?b" and bytes: "bytesUsed ?b \<le> byteBudget b"
    and seq: "bufSeq ?b = bufSeq b + 1" "streamEpoch ?b = streamEpoch b" using assms(3) by blast
  have "buffered ?b = []"
  proof (rule ccontr)
    assume "buffered ?b \<noteq> []"
    then have "k \<le> length (buffered b)" unfolding k by simp arith
    then have "buffered ?b = drop k (buffered b) @ [?e]" unfolding k by simp
    moreover have "bytesUsed ?b = sum_list (map (event_size encoded) (buffered ?b))"
      using ok by (simp add: buffer_ok_def)
    ultimately have "event_size encoded ?e \<le> bytesUsed ?b"
      using sum_event_sizes [of encoded "drop k (buffered b)"] by simp
    with bytes assms(4) show False by simp
  qed
  then have "stored ?b = 0" by (metis length_buffered list.size(3))
  moreover have "\<not> bufSeq b + 1 < after"
    using assms(2,6) by (simp add: word_less_nat_alt word_le_nat_alt unat_word_ariths)
  ultimately show ?thesis using assms(5)
    by (simp add: ReplaySince_def replaySinceLocked_def seq Let_def)
qed

theorem oversized_event_is_lost_without_gap_witness:
  "ReplaySince (snd (Push (\<lambda>_. Some 5) demo_event (NewEventBufferWithByteBudget 8 4 7))) 7 0 =
     \<lparr>ReplayEvents = [], ReplayStatus = ResyncStatusOK, ReplayEpoch = 7, ReplayedThroughSeq = 1\<rparr>"
  using oversized_event_is_lost_without_gap
    [OF reaches_new [of "\<lambda>_. Some 5" 8 4 7], of demo_event 0]
  by (simp add: NewEventBufferWithByteBudget_def event_size_def Let_def)

section \<open>Paging\<close>

lemma filter_consecutive:
  assumes "map f xs = [lo..<hi]" "lo \<le> Suc a"
  shows "filter (\<lambda>x. a < f x) xs = drop (Suc a - lo) xs"
  using assms
proof (induction xs arbitrary: lo)
  case (Cons x xs)
  then have "lo < hi" by (metis list.distinct(1) list.simps(9) not_le_imp_less upt_conv_Nil)
  with Cons.prems(1) have x: "f x = lo" and xs: "map f xs = [Suc lo..<hi]"
    by (auto simp: upt_conv_Cons simp del: upt_Suc)
  show ?case
  proof (cases "lo = Suc a")
    case True
    have "a < f y" if "y \<in> set xs" for y
    proof -
      from that have "f y \<in> set (map f xs)" by simp
      with xs True show ?thesis by simp
    qed
    then have "\<forall>y\<in>set xs. a < f y" by blast
    with True x show ?thesis by (simp add: filter_id_conv)
  next
    case False
    with Cons.prems(2) have "Suc lo \<le> Suc a" "Suc a - lo = Suc (Suc a - Suc lo)" by auto
    with Cons.IH [OF xs] x show ?thesis by simp
  qed
qed simp

lemma replay_within:
  assumes "buffer_ok encoded b" "buffer_log.consecutive b" "streamEpoch b \<noteq> 0" "after \<le> bufSeq b"
    "unat (bufSeq b) - stored b \<le> unat after"
  shows "ReplaySince b (streamEpoch b) after =
    \<lparr>ReplayEvents = drop (Suc (unat after) - (Suc (unat (bufSeq b)) - stored b)) (buffered b),
     ReplayStatus = ResyncStatusOK, ReplayEpoch = streamEpoch b, ReplayedThroughSeq = bufSeq b\<rparr>"
proof (cases "stored b = 0 \<or> after = bufSeq b")
  case True
  then have "drop (Suc (unat after) - (Suc (unat (bufSeq b)) - stored b)) (buffered b) = []"
    using assms(2) by (auto simp: buffer_log.consecutive_def)
  with True assms(3,4) show ?thesis by (simp add: ReplaySince_def replaySinceLocked_def Let_def not_less)
next
  case False
  let ?s = "EvSeq (events b ! oldest_idx b)"
  have pos: "0 < stored b" using False by simp
  have le: "stored b \<le> unat (bufSeq b)" using assms(2) by (simp add: buffer_log.consecutive_def)
  have "unat ?s = hd (map (\<lambda>e. unat (EvSeq e)) (buffered b))"
    using oldest_buffered(1) [OF assms(1) pos] pos by (simp add: hd_map flip: length_greater_0_conv)
  also have "\<dots> = Suc (unat (bufSeq b)) - stored b"
    using assms(2) pos by (simp add: buffer_log.consecutive_def del: upt_Suc)
  finally have "\<not> after < ?s - 1" using seq_minus_one [of ?s after] le assms(5) by auto
  moreover have "filter (\<lambda>e. unat after < unat (EvSeq e)) (buffered b) =
      drop (Suc (unat after) - (Suc (unat (bufSeq b)) - stored b)) (buffered b)"
    by (rule filter_consecutive [where hi = "Suc (unat (bufSeq b))"])
      (use assms(2,5) le in \<open>simp_all add: buffer_log.consecutive_def del: upt_Suc\<close>)
  ultimately show ?thesis
    using False assms(3,4) snapshotAll_buffered(2) [OF assms(1)]
    by (simp add: ReplaySince_def replaySinceLocked_def Let_def not_less word_less_nat_alt word_le_nat_alt)
qed

lemma page_loop_spec:
  "\<exists>n\<le>length rest. page_loop encoded maxBytes maxEvents rest taken cursor used =
     (taken @ take n rest, (if n = 0 then cursor else EvSeq (rest ! (n - 1))), n < length rest) \<and>
     (taken = [] \<longrightarrow> rest \<noteq> [] \<longrightarrow> 0 < maxEvents \<longrightarrow> 0 < n) \<and>
     (int (length taken) \<le> maxEvents \<longrightarrow> int (length taken + n) \<le> maxEvents)"
proof (induction rest arbitrary: taken cursor used)
  case (Cons e rest)
  show ?case
  proof (cases "maxEvents \<le> int (length taken) \<or>
      (taken \<noteq> [] \<and> 0 < maxBytes \<and> maxBytes < used + event_size encoded e)")
    case True
    then show ?thesis by (intro exI [of _ 0]) (auto simp: Let_def)
  next
    case False
    from Cons.IH [of "taken @ [e]" "EvSeq e" "used + event_size encoded e"] obtain n where n: "n \<le> length rest"
      "page_loop encoded maxBytes maxEvents rest (taken @ [e]) (EvSeq e) (used + event_size encoded e) =
        ((taken @ [e]) @ take n rest, if n = 0 then EvSeq e else EvSeq (rest ! (n - 1)), n < length rest)"
      "int (length (taken @ [e])) \<le> maxEvents \<longrightarrow> int (length (taken @ [e]) + n) \<le> maxEvents" by blast
    then show ?thesis using False
      by (intro exI [of _ "Suc n"]) (auto simp: Let_def nth_Cons split: nat.split)
  qed
qed simp

lemma replay_epoch: "ReplayEpoch (replaySinceLocked b epoch after) = streamEpoch b"
  by (simp add: replaySinceLocked_def Let_def)

text \<open>What a replay returns is a final part of the buffer, whatever its status.\<close>

lemma replay_suffix:
  assumes "buffer_ok encoded b" "buffer_log.consecutive b" "streamEpoch b \<noteq> 0"
  shows "\<exists>j. j \<le> stored b \<and> ReplayEvents (ReplaySince b epoch after) = drop j (buffered b)"
proof (cases "epoch = streamEpoch b \<and> after \<le> bufSeq b \<and> unat (bufSeq b) - stored b \<le> unat after")
  case True
  from replay_within [OF assms, of after] True have
    "ReplayEvents (ReplaySince b epoch after) =
       drop (Suc (unat after) - (Suc (unat (bufSeq b)) - stored b)) (buffered b)" by simp
  moreover have "Suc (unat after) - (Suc (unat (bufSeq b)) - stored b) \<le> stored b"
    using True by (simp add: word_le_nat_alt) linarith
  ultimately show ?thesis by blast
next
  case False
  show ?thesis
  proof (cases "epoch = streamEpoch b \<and> after \<le> bufSeq b")
    case outside: False
    then have "ReplayEvents (ReplaySince b epoch after) = buffered b"
      using snapshotAll_buffered(1) [OF assms(1)]
      by (auto simp: ReplaySince_def replaySinceLocked_def Let_def not_less)
    then show ?thesis by (intro exI [of _ 0]) simp
  next
    case inside: True
    then have lt: "unat after < unat (bufSeq b) - stored b" using False by simp
    show ?thesis
    proof (cases "stored b = 0")
      case True
      with inside assms(3) have "ReplayEvents (ReplaySince b epoch after) = []"
        by (simp add: ReplaySince_def replaySinceLocked_def snapshotAllLocked_def Let_def not_less)
      moreover have "buffered b = []" using True by (simp add: buffered_def)
      ultimately show ?thesis by auto
    next
      case pos: False
      let ?s = "EvSeq (events b ! oldest_idx b)"
      have "unat ?s = hd (map (\<lambda>e. unat (EvSeq e)) (buffered b))"
        using oldest_buffered(1) [OF assms(1)] pos by (simp add: hd_map flip: length_greater_0_conv)
      also have "\<dots> = Suc (unat (bufSeq b)) - stored b"
        using assms(2) pos by (simp add: buffer_log.consecutive_def del: upt_Suc)
      finally have "after < ?s - 1" using seq_minus_one [of ?s after] lt by auto
      moreover have "after \<noteq> bufSeq b" using lt by auto
      ultimately have "ReplayEvents (ReplaySince b epoch after) = buffered b"
        using inside assms(3) pos snapshotAll_buffered(1) [OF assms(1)]
        by (simp add: ReplaySince_def replaySinceLocked_def Let_def not_less)
      then show ?thesis by (intro exI [of _ 0]) simp
    qed
  qed
qed

text \<open>
  paging loses nothing and always moves on: a page is a non-empty initial part of the whole
  replay (when that is not empty), says whether more follows, and asking again from its cursor in
  its epoch gives exactly the rest.
\<close>

theorem paging_loses_nothing:
  assumes "buffer_reaches encoded b" and "streamEpoch b \<noteq> 0"
    and "page = ReplaySincePage encoded b epoch after maxBytes maxEvents"
    and "ReplayEvents (ReplaySince b epoch after) \<noteq> []"
  shows "PageEvents page \<noteq> [] \<and>
    PageEvents page @ ReplayEvents (ReplaySince b (PageEpoch page) (NextAfterSeq page)) =
      ReplayEvents (ReplaySince b epoch after) \<and>
    (HasMore page \<longleftrightarrow> ReplayEvents (ReplaySince b (PageEpoch page) (NextAfterSeq page)) \<noteq> []) \<and>
    (0 < maxEvents \<longrightarrow> int (length (PageEvents page)) \<le> maxEvents)"
proof -
  from reaches_inv [OF assms(1)] have ok: "buffer_ok encoded b" and cons: "buffer_log.consecutive b" by blast+
  let ?evs = "ReplayEvents (ReplaySince b epoch after)"
  let ?limit = "if maxEvents \<le> 0 then int (length ?evs) else maxEvents"
  obtain j where j: "j \<le> stored b" "?evs = drop j (buffered b)"
    using replay_suffix [OF ok cons assms(2)] by blast
  obtain n where n: "n \<le> length ?evs" "0 < n" "int n \<le> ?limit"
    "page_loop encoded maxBytes ?limit ?evs [] after 0 = (take n ?evs, EvSeq (?evs ! (n - 1)), n < length ?evs)"
    using page_loop_spec [of ?evs encoded maxBytes ?limit "[]" after 0] assms(4) by (auto split: if_splits)
  then have page: "PageEvents page = take n ?evs" "NextAfterSeq page = EvSeq (?evs ! (n - 1))"
    "HasMore page \<longleftrightarrow> n < length ?evs" "PageEpoch page = streamEpoch b"
    using assms(4) unfolding assms(3) ReplaySince_def
    by (simp_all add: ReplaySincePage_def Let_def replay_epoch)
  have le: "stored b \<le> unat (bufSeq b)" using cons by (simp add: buffer_log.consecutive_def)
  have "?evs ! (n - 1) = buffered b ! (j + (n - 1))" using j n by simp
  moreover have "unat (EvSeq (buffered b ! (j + (n - 1)))) = Suc (unat (bufSeq b)) - stored b + (j + (n - 1))"
  proof -
    have i: "j + (n - 1) < stored b" using j n by simp
    then have "unat (EvSeq (buffered b ! (j + (n - 1)))) = map (\<lambda>e. unat (EvSeq e)) (buffered b) ! (j + (n - 1))"
      by simp
    also have "\<dots> = [Suc (unat (bufSeq b)) - stored b..<Suc (unat (bufSeq b))] ! (j + (n - 1))"
      using cons by (simp add: buffer_log.consecutive_def del: upt_Suc)
    also have "\<dots> = Suc (unat (bufSeq b)) - stored b + (j + (n - 1))"
      using i le by (simp del: upt_Suc)
    finally show ?thesis .
  qed
  ultimately have "unat (NextAfterSeq page) = Suc (unat (bufSeq b)) - stored b + (j + (n - 1))"
    unfolding page(2) by simp
  then have nxt: "unat (NextAfterSeq page) = unat (bufSeq b) - stored b + (j + n)" using n(2) le by simp
  have "j + n \<le> stored b" using n(1) j by simp
  with nxt le have after: "NextAfterSeq page \<le> bufSeq b" by (simp add: word_le_nat_alt)
  have "ReplayEvents (ReplaySince b (streamEpoch b) (NextAfterSeq page)) = drop (j + n) (buffered b)"
    using replay_within [OF ok cons assms(2) after] nxt le by (simp add: Suc_diff_le)
  then have rest: "ReplayEvents (ReplaySince b (PageEpoch page) (NextAfterSeq page)) = drop n ?evs"
    unfolding page(4) j(2) by (simp add: add.commute)
  show ?thesis unfolding rest page(1,3) using n assms(4) by auto
qed

theorem paging_loses_nothing_witness:
  "PageEvents (ReplaySincePage (\<lambda>_. Some 1) demo_buffer 0 0 0 1) \<noteq> []"
proof -
  have "ReplayEvents (ReplaySince demo_buffer 0 0) \<noteq> []"
    by (simp add: ReplaySince_def replaySinceLocked_def demo_buffered Let_def)
  from paging_loses_nothing [OF demo_reaches _ refl this, of 0 1] show ?thesis
    by (simp add: demo_buffered)
qed

text \<open>
  Every stream epoch is between 1 and 2^53 - 1, so that JSON clients read it exactly and 0 stays
  free to mean no cursor; it is the low 53 bits of the random value unless these are 0.
\<close>

theorem stream_epoch_is_json_safe:
  "1 \<le> unat (fst (nextStreamEpoch random fallback)) \<and>
   unat (fst (nextStreamEpoch random fallback)) \<le> 2 ^ 53 - 1 \<and>
   unat (jsonSafeEpoch v) = (if unat v mod 2 ^ 53 = 0 then 1 else unat v mod 2 ^ 53)"
proof -
  have "maxJSONSafeInteger = mask 53" by (simp add: maxJSONSafeInteger_def mask_eq_exp_minus_1 push_bit_eq_mult)
  then have "v AND maxJSONSafeInteger = take_bit 53 v" for v by (simp only: take_bit_eq_mask)
  then have "unat (v AND maxJSONSafeInteger) = take_bit 53 (unat v)" for v
    by (simp only: unsigned_take_bit_eq)
  then have masked: "unat (v AND maxJSONSafeInteger) = unat v mod 2 ^ 53" for v
    by (simp only: take_bit_eq_mod)
  have "v AND maxJSONSafeInteger = 0 \<longleftrightarrow> unat v mod 2 ^ 53 = 0" for v
    by (metis masked unat_0 unat_eq_zero)
  then have safe: "unat (jsonSafeEpoch v) = (if unat v mod 2 ^ 53 = 0 then 1 else unat v mod 2 ^ 53)" for v
    by (simp add: jsonSafeEpoch_def Let_def masked)
  have "1 \<le> unat (jsonSafeEpoch v) \<and> unat (jsonSafeEpoch v) \<le> 2 ^ 53 - 1" for v
    unfolding safe using mod_less_divisor [of "2 ^ 53" "unat v"] by auto
  then show ?thesis using safe by (simp add: nextStreamEpoch_def split: option.split)
qed

end
