(* ===== verification/RelayBase.thy ===== *)
theory RelayBase
  imports Values
begin

text \<open>
  What the relay services share (relay/internal): the surroundings of a call, splitting and joining
  of signed messages, the messages of infra/crypto/sign.go, the rows of domain/, and the
  repositories over them (repository/dao).
\<close>

section \<open>Surroundings\<close>

text \<open>
  UUIDs are numbers, uuid.Nil is 0.  A call takes the instant (time.Now, in nanoseconds since Go's
  zero time), the UUID and base64 codecs, Ed25519 verification and SHA-256 with its base64 text as
  functions; byte slices are strings.
\<close>

type_synonym uuid = nat

record relay_env =
  now :: int
  parse_uuid :: "string \<Rightarrow> uuid option"
  show_uuid :: "uuid \<Rightarrow> string"
  b64_encode :: "string \<Rightarrow> string"
  b64_decode :: "string \<Rightarrow> string option"
  b64url_decode :: "string \<Rightarrow> string option"
  ed25519_verify :: "string \<Rightarrow> string \<Rightarrow> string \<Rightarrow> bool"
  sha256_text :: "string \<Rightarrow> string"

section \<open>strconv.ParseInt, time.Unix\<close>

fun digits_value :: "string \<Rightarrow> int \<Rightarrow> int option" where
  "digits_value [] acc = Some acc"
| "digits_value (c # cs) acc =
     (if CHR ''0'' \<le> c \<and> c \<le> CHR ''9''
      then digits_value cs (10 * acc + (int (of_char c) - 48)) else None)"

text \<open>strconv.ParseInt(value, 10, 64)\<close>

definition parse_int64 :: "string \<Rightarrow> int option" where
  "parse_int64 s =
     (let neg = (case s of c # _ \<Rightarrow> c = CHR ''-'' | [] \<Rightarrow> False);
          ds = (case s of c # cs \<Rightarrow> if c = CHR ''-'' \<or> c = CHR ''+'' then cs else s | [] \<Rightarrow> [])
      in if ds = [] then None
         else
           (case digits_value ds 0 of
              None \<Rightarrow> None
            | Some n \<Rightarrow>
                let v = (if neg then - n else n)
                in if - (2 ^ 63) \<le> v \<and> v < 2 ^ 63 then Some v else None))"

text \<open>time.Unix(raw, 0): the seconds since year 1 wrap around in an int64.\<close>

definition go_unix :: "int \<Rightarrow> int" where
  "go_unix raw = ((raw + 62135596800 + 2 ^ 63) mod 2 ^ 64 - 2 ^ 63) * 1000000000"

section \<open>Signatures and signed messages (infra/crypto)\<close>

definition VerifySignature :: "relay_env \<Rightarrow> string \<Rightarrow> string \<Rightarrow> string \<Rightarrow> bool" where
  "VerifySignature env publicKey message signature =
     (if length publicKey \<noteq> 32 then False
      else if length signature \<noteq> 64 then False
      else ed25519_verify env publicKey message signature)"

definition HashKeyFingerprint :: "relay_env \<Rightarrow> string \<Rightarrow> string" where
  "HashKeyFingerprint env pub = sha256_text env pub"

definition HashBytes :: "relay_env \<Rightarrow> string \<Rightarrow> string" where
  "HashBytes env data = sha256_text env data"

abbreviation bar :: char where
  "bar \<equiv> CHR 0x7C"

definition BuildApprovalMessage :: "string \<Rightarrow> string \<Rightarrow> string \<Rightarrow> string \<Rightarrow> int \<Rightarrow> string" where
  "BuildApprovalMessage requestID machineSignPubB64 machineEncPubB64 relayChallengeB64 expiresAt =
     join_on bar [''muxagent-approve-v1'', requestID, machineSignPubB64, machineEncPubB64,
                  relayChallengeB64, show_int expiresAt]"

definition BuildMachineAuthMessage :: "string \<Rightarrow> string \<Rightarrow> string" where
  "BuildMachineAuthMessage machineID nonceB64 =
     join_on bar [''muxagent-machine-auth-v1'', machineID, nonceB64]"

definition BuildSessionInitMessage :: "string \<Rightarrow> string \<Rightarrow> string" where
  "BuildSessionInitMessage machineID clientEphemeralPubB64 =
     join_on bar [''muxagent-session-init-v1'', machineID, clientEphemeralPubB64]"

definition BuildSessionAckMessage :: "string \<Rightarrow> string \<Rightarrow> string" where
  "BuildSessionAckMessage machineID machineEphemeralPubB64 =
     join_on bar [''muxagent-session-ack-v1'', machineID, machineEphemeralPubB64]"

record KeyringUpdatePayload =
  PayMasterID :: string
  PaySeq :: int
  PayPrevHash :: string
  PayAction :: string
  PayTargetSignPub :: string
  PayTargetEncPub :: string
  PaySigner :: string

definition payload_fields :: "KeyringUpdatePayload \<Rightarrow> string list" where
  "payload_fields p =
     [PayMasterID p, show_int (PaySeq p), PayPrevHash p, PayAction p, PayTargetSignPub p,
      PayTargetEncPub p, PaySigner p]"

definition BuildKeyringUpdateMessage :: "KeyringUpdatePayload \<Rightarrow> string" where
  "BuildKeyringUpdateMessage p = join_on bar (''muxagent-keyring-update-v1'' # payload_fields p)"

section \<open>Rows\<close>

record Machine =
  MachineID :: uuid
  MachineMaster :: uuid
  MachineSignKeyFingerprint :: string
  MachineSignPub :: string
  MachineEncPub :: string
  MachineHostname :: string
  MachineLastSeenAt :: int
  MachineRevokedAt :: "int option"

record MasterKey =
  KeyMaster :: uuid
  MasterSignKeyFingerprint :: string
  MasterSignPub :: string
  MasterEncPub :: string
  KeyRevokedAt :: "int option"
  AddedBy :: "string option"
  KeyringSeqAdded :: int

record MasterIdentity =
  IdentityID :: uuid
  KeyringSeq :: int
  KeyringHeadHash :: string

record KeyringUpdate =
  UpdMaster :: uuid
  UpdSeq :: int
  UpdPrevHash :: string
  UpdHash :: string
  UpdAction :: string
  UpdTargetFingerprint :: string
  UpdTargetSignPub :: string
  UpdTargetEncPub :: string
  UpdSigner :: string
  UpdSignature :: string

record AuthRequest =
  ReqID :: uuid
  ReqMachine :: uuid
  ReqSignPub :: string
  ReqEncPub :: string
  ReqHostname :: string
  ReqExpiresAt :: int
  ReqChallenge :: string
  ReqPollToken :: string
  ReqApprovedAt :: "int option"
  ReqApprovedBy :: "string option"
  ReqApprovalSignature :: string

text \<open>
  The database: its tables, and whether it answers.  Every statement fails with DatabaseError while
  it does not.
\<close>

record db =
  dbUp :: bool
  Machines :: "Machine list"
  MasterKeys :: "MasterKey list"
  MasterIdentities :: "MasterIdentity list"
  KeyringUpdates :: "KeyringUpdate list"
  AuthRequests :: "AuthRequest list"

datatype repo_error = RecordNotFound | DuplicateKey | DatabaseError

definition select_one :: "db \<Rightarrow> (db \<Rightarrow> 'r list) \<Rightarrow> ('r \<Rightarrow> bool) \<Rightarrow> repo_error + 'r" where
  "select_one d table P =
     (if \<not> dbUp d then Inl DatabaseError
      else (case find P (table d) of None \<Rightarrow> Inl RecordNotFound | Some row \<Rightarrow> Inr row))"

text \<open>Machines\<close>

definition machines_FindByID :: "db \<Rightarrow> uuid \<Rightarrow> repo_error + Machine" where
  "machines_FindByID d i = select_one d Machines (\<lambda>m. MachineID m = i)"

definition machines_Create :: "db \<Rightarrow> Machine \<Rightarrow> repo_error + db" where
  "machines_Create d m =
     (if \<not> dbUp d then Inl DatabaseError
      else if list_ex (\<lambda>x. MachineID x = MachineID m \<or>
                MachineSignKeyFingerprint x = MachineSignKeyFingerprint m) (Machines d)
        then Inl DatabaseError
      else Inr (d\<lparr>Machines := Machines d @ [m]\<rparr>))"

definition machines_UpdateLastSeenAndHostname :: "db \<Rightarrow> uuid \<Rightarrow> int \<Rightarrow> string \<Rightarrow> repo_error + db" where
  "machines_UpdateLastSeenAndHostname d i lastSeen hostname =
     (if \<not> dbUp d then Inl DatabaseError
      else Inr (d\<lparr>Machines := map (\<lambda>m. if MachineID m = i
                   then m\<lparr>MachineLastSeenAt := lastSeen, MachineHostname := hostname\<rparr> else m) (Machines d)\<rparr>))"

text \<open>Master keys, unique by fingerprint\<close>

definition masterKeys_FindByFingerprint :: "db \<Rightarrow> string \<Rightarrow> repo_error + MasterKey" where
  "masterKeys_FindByFingerprint d fp = select_one d MasterKeys (\<lambda>k. MasterSignKeyFingerprint k = fp)"

definition masterKeys_FindByMasterAndFingerprint :: "db \<Rightarrow> uuid \<Rightarrow> string \<Rightarrow> repo_error + MasterKey" where
  "masterKeys_FindByMasterAndFingerprint d master fp =
     select_one d MasterKeys (\<lambda>k. KeyMaster k = master \<and> MasterSignKeyFingerprint k = fp)"

definition masterKeys_ListByMasterID :: "db \<Rightarrow> uuid \<Rightarrow> repo_error + MasterKey list" where
  "masterKeys_ListByMasterID d master =
     (if \<not> dbUp d then Inl DatabaseError else Inr (filter (\<lambda>k. KeyMaster k = master) (MasterKeys d)))"

definition masterKeys_Create :: "db \<Rightarrow> MasterKey \<Rightarrow> repo_error + db" where
  "masterKeys_Create d k =
     (if \<not> dbUp d then Inl DatabaseError
      else if list_ex (\<lambda>x. MasterSignKeyFingerprint x = MasterSignKeyFingerprint k) (MasterKeys d)
        then Inl DatabaseError
      else Inr (d\<lparr>MasterKeys := MasterKeys d @ [k]\<rparr>))"

definition masterKeys_Revoke :: "db \<Rightarrow> uuid \<Rightarrow> string \<Rightarrow> int \<Rightarrow> repo_error + db" where
  "masterKeys_Revoke d master fp at =
     (if \<not> dbUp d then Inl DatabaseError
      else Inr (d\<lparr>MasterKeys := map (\<lambda>k. if KeyMaster k = master \<and> MasterSignKeyFingerprint k = fp \<and>
                     KeyRevokedAt k = None then k\<lparr>KeyRevokedAt := Some at\<rparr> else k) (MasterKeys d)\<rparr>))"

text \<open>Master identities\<close>

definition identities_FindByID :: "db \<Rightarrow> uuid \<Rightarrow> repo_error + MasterIdentity" where
  "identities_FindByID d i = select_one d MasterIdentities (\<lambda>m. IdentityID m = i)"

definition identities_Create :: "db \<Rightarrow> MasterIdentity \<Rightarrow> repo_error + db" where
  "identities_Create d m =
     (if \<not> dbUp d then Inl DatabaseError
      else if list_ex (\<lambda>x. IdentityID x = IdentityID m) (MasterIdentities d) then Inl DatabaseError
      else Inr (d\<lparr>MasterIdentities := MasterIdentities d @ [m]\<rparr>))"

definition identities_UpdateKeyringState :: "db \<Rightarrow> uuid \<Rightarrow> int \<Rightarrow> string \<Rightarrow> repo_error + db" where
  "identities_UpdateKeyringState d i seq headHash =
     (if \<not> dbUp d then Inl DatabaseError
      else Inr (d\<lparr>MasterIdentities := map (\<lambda>m. if IdentityID m = i
                   then m\<lparr>KeyringSeq := seq, KeyringHeadHash := headHash\<rparr> else m) (MasterIdentities d)\<rparr>))"

text \<open>Keyring updates, unique by master and sequence number\<close>

definition updates_Create :: "db \<Rightarrow> KeyringUpdate \<Rightarrow> repo_error + db" where
  "updates_Create d u =
     (if \<not> dbUp d then Inl DatabaseError
      else if list_ex (\<lambda>x. UpdMaster x = UpdMaster u \<and> UpdSeq x = UpdSeq u) (KeyringUpdates d)
        then Inl DuplicateKey
      else Inr (d\<lparr>KeyringUpdates := KeyringUpdates d @ [u]\<rparr>))"

definition update_before :: "KeyringUpdate \<Rightarrow> KeyringUpdate \<Rightarrow> bool" where
  "update_before a b \<longleftrightarrow> UpdSeq a < UpdSeq b"

definition updates_ListByMasterIDFromSeq :: "db \<Rightarrow> uuid \<Rightarrow> int \<Rightarrow> int \<Rightarrow> repo_error + KeyringUpdate list" where
  "updates_ListByMasterIDFromSeq d master fromSeq limit =
     (if \<not> dbUp d then Inl DatabaseError
      else
        (let rows = sort_slice update_before
               (filter (\<lambda>u. UpdMaster u = master \<and> fromSeq < UpdSeq u) (KeyringUpdates d))
         in Inr (if 0 < limit then take (nat limit) rows else rows)))"

interpretation update_sort: key_order update_before UpdSeq
  by unfold_locales (simp add: update_before_def)

text \<open>Auth requests\<close>

definition requests_FindByID :: "db \<Rightarrow> uuid \<Rightarrow> repo_error + AuthRequest" where
  "requests_FindByID d i = select_one d AuthRequests (\<lambda>r. ReqID r = i)"

definition requests_Create :: "db \<Rightarrow> AuthRequest \<Rightarrow> repo_error + db" where
  "requests_Create d r =
     (if \<not> dbUp d then Inl DatabaseError
      else if list_ex (\<lambda>x. ReqID x = ReqID r) (AuthRequests d) then Inl DatabaseError
      else Inr (d\<lparr>AuthRequests := AuthRequests d @ [r]\<rparr>))"

text \<open>gorm's Save updates the row of the primary key, or inserts it.\<close>

definition requests_Update :: "db \<Rightarrow> AuthRequest \<Rightarrow> repo_error + db" where
  "requests_Update d r =
     (if \<not> dbUp d then Inl DatabaseError
      else if list_ex (\<lambda>x. ReqID x = ReqID r) (AuthRequests d)
        then Inr (d\<lparr>AuthRequests := map (\<lambda>x. if ReqID x = ReqID r then r else x) (AuthRequests d)\<rparr>)
      else Inr (d\<lparr>AuthRequests := AuthRequests d @ [r]\<rparr>))"

definition requests_DeleteExpired :: "db \<Rightarrow> int \<Rightarrow> repo_error + db" where
  "requests_DeleteExpired d cutoff =
     (if \<not> dbUp d then Inl DatabaseError
      else Inr (d\<lparr>AuthRequests :=
        filter (\<lambda>r. \<not> (ReqExpiresAt r < cutoff \<and> ReqApprovedAt r = None)) (AuthRequests d)\<rparr>))"

definition requests_NullifyExpiredPollTokens :: "db \<Rightarrow> int \<Rightarrow> repo_error + db" where
  "requests_NullifyExpiredPollTokens d cutoff =
     (if \<not> dbUp d then Inl DatabaseError
      else Inr (d\<lparr>AuthRequests :=
        map (\<lambda>r. if ReqApprovedAt r \<noteq> None \<and> ReqExpiresAt r < cutoff then r\<lparr>ReqPollToken := []\<rparr> else r)
          (AuthRequests d)\<rparr>))"

section \<open>Messages are unambiguous\<close>

lemma select_one_Inr: "select_one d table P = Inr r \<Longrightarrow> dbUp d \<and> r \<in> set (table d) \<and> P r"
  by (auto simp: select_one_def find_Some_iff split: if_splits option.splits)

text \<open>The master a machine belongs to.\<close>

definition master_of :: "db \<Rightarrow> uuid \<Rightarrow> uuid option" where
  "master_of d m = map_option MachineMaster (find (\<lambda>x. MachineID x = m) (Machines d))"

lemma master_of_update:
  "machines_UpdateLastSeenAndHostname d i t h = Inr d' \<Longrightarrow> master_of d' = master_of d"
proof (rule ext)
  fix m
  assume u: "machines_UpdateLastSeenAndHostname d i t h = Inr d'"
  have "map_option MachineMaster (find (\<lambda>x. MachineID x = m)
      (map (\<lambda>m. if MachineID m = i then m\<lparr>MachineLastSeenAt := t, MachineHostname := h\<rparr> else m) ms)) =
    map_option MachineMaster (find (\<lambda>x. MachineID x = m) ms)" for ms
    by (induction ms) auto
  with u show "master_of d' m = master_of d m"
    by (auto simp: machines_UpdateLastSeenAndHostname_def master_of_def split: if_splits)
qed

lemma machine_row_master: "machines_FindByID d m = Inr row \<Longrightarrow> master_of d m = Some (MachineMaster row)"
  by (auto simp: machines_FindByID_def select_one_def master_of_def split: if_splits option.splits)

lemma join_on_inj:
  assumes "join_on c ps = join_on c qs" "ps \<noteq> []" "qs \<noteq> []"
    "\<forall>p\<in>set ps. c \<notin> set p" "\<forall>q\<in>set qs. c \<notin> set q"
  shows "ps = qs"
  using assms split_join by metis

lemma show_nat_no_bar: "bar \<notin> set (show_nat n)"
proof (induction n rule: show_nat.induct)
  case (1 n)
  have digit: "char_of (48 + k) \<noteq> bar" if "k < 10" for k :: nat
  proof
    assume "char_of (48 + k) = bar"
    then have "of_char (char_of (48 + k) :: char) = (124 :: nat)" by simp
    with that show False by simp
  qed
  show ?case
  proof (cases "n < 10")
    case True
    with digit [of n] show ?thesis by (subst show_nat.simps) auto
  next
    case False
    with 1 digit [of "n mod 10"] show ?thesis by (subst show_nat.simps) auto
  qed
qed

lemma show_int_no_bar: "bar \<notin> set (show_int i)"
  using show_nat_no_bar by (auto simp: show_int_def)

end
