(* ===== verification/Tokens.thy ===== *)
theory Tokens
  imports RelayBase
begin

text \<open>
  The signed tokens of the relay (relay/internal/service/ws_tokens.go): connect tokens and machine
  tokens signed by a master key, machine access tokens signed by the machine's key.
\<close>

section \<open>Verification\<close>

definition TokenPrefixConnect :: string where
  "TokenPrefixConnect = ''muxagent-connect-token-v1''"

definition TokenPrefixMachine :: string where
  "TokenPrefixMachine = ''muxagent-machine-token-v1''"

definition TokenPrefixMachineAccess :: string where
  "TokenPrefixMachineAccess = ''muxagent-machine-access-v1''"

record ConnectTokenClaims =
  ConnMasterID :: uuid
  ConnFingerprint :: string
  ConnExpiresAt :: int

record MachineTokenClaims =
  MachMasterID :: uuid
  MachMachineID :: uuid
  MachFingerprint :: string
  MachExpiresAt :: int

record MachineAccessTokenClaims =
  AccMasterID :: uuid
  AccMachineID :: uuid
  AccFingerprint :: string
  AccExpiresAt :: int

datatype token_error =
    InvalidTokenFormat
  | InvalidConnectToken
  | InvalidMachineToken
  | InvalidMachineAccessToken
  | TokenExpired
  | MasterKeyRevoked
  | TokenMachineRevoked
  | TokenDatabaseError

definition decodeToken :: "relay_env \<Rightarrow> string \<Rightarrow> token_error + (string \<times> string)" where
  "decodeToken env token =
     (case split_on (CHR ''.'') token of
        [a, b] \<Rightarrow>
          (case b64url_decode env a of
             None \<Rightarrow> Inl InvalidTokenFormat
           | Some payload \<Rightarrow>
               (case b64url_decode env b of
                  None \<Rightarrow> Inl InvalidTokenFormat
                | Some sig \<Rightarrow> Inr (payload, sig)))
      | _ \<Rightarrow> Inl InvalidTokenFormat)"

definition parseUnix :: "string \<Rightarrow> int option" where
  "parseUnix v = map_option go_unix (parse_int64 v)"

definition verifySignature ::
  "relay_env \<Rightarrow> db \<Rightarrow> uuid \<Rightarrow> string \<Rightarrow> string \<Rightarrow> string \<Rightarrow> token_error \<Rightarrow> token_error option" where
  "verifySignature env d masterID fingerprint payload sig invalidErr =
     (case masterKeys_FindByMasterAndFingerprint d masterID fingerprint of
        Inl RecordNotFound \<Rightarrow> Some invalidErr
      | Inl _ \<Rightarrow> Some TokenDatabaseError
      | Inr masterKey \<Rightarrow>
          if KeyRevokedAt masterKey \<noteq> None then Some MasterKeyRevoked
          else if \<not> VerifySignature env (MasterSignPub masterKey) payload sig then Some invalidErr
          else None)"

definition VerifyConnectToken :: "relay_env \<Rightarrow> db \<Rightarrow> string \<Rightarrow> token_error + ConnectTokenClaims" where
  "VerifyConnectToken env d token =
     (case decodeToken env token of
        Inl err \<Rightarrow> Inl err
      | Inr (payload, sig) \<Rightarrow>
          (case split_on bar payload of
             [kind, master, fingerprint, expiry] \<Rightarrow>
               if kind \<noteq> TokenPrefixConnect then Inl InvalidTokenFormat
               else
                 (case parse_uuid env master of
                    None \<Rightarrow> Inl InvalidConnectToken
                  | Some masterID \<Rightarrow>
                      (case parseUnix expiry of
                         None \<Rightarrow> Inl InvalidConnectToken
                       | Some expiresAt \<Rightarrow>
                           if expiresAt < now env then Inl TokenExpired
                           else
                             (case verifySignature env d masterID fingerprint payload sig InvalidConnectToken of
                                Some err \<Rightarrow> Inl err
                              | None \<Rightarrow>
                                  Inr \<lparr>ConnMasterID = masterID, ConnFingerprint = fingerprint,
                                       ConnExpiresAt = expiresAt\<rparr>)))
           | _ \<Rightarrow> Inl InvalidTokenFormat))"

definition VerifyMachineToken :: "relay_env \<Rightarrow> db \<Rightarrow> string \<Rightarrow> token_error + MachineTokenClaims" where
  "VerifyMachineToken env d token =
     (case decodeToken env token of
        Inl err \<Rightarrow> Inl err
      | Inr (payload, sig) \<Rightarrow>
          (case split_on bar payload of
             [kind, master, machine, fingerprint, expiry] \<Rightarrow>
               if kind \<noteq> TokenPrefixMachine then Inl InvalidTokenFormat
               else
                 (case (parse_uuid env master, parse_uuid env machine, parseUnix expiry) of
                    (Some masterID, Some machineID, Some expiresAt) \<Rightarrow>
                      if expiresAt < now env then Inl TokenExpired
                      else
                        (case verifySignature env d masterID fingerprint payload sig InvalidMachineToken of
                           Some err \<Rightarrow> Inl err
                         | None \<Rightarrow>
                             Inr \<lparr>MachMasterID = masterID, MachMachineID = machineID,
                                  MachFingerprint = fingerprint, MachExpiresAt = expiresAt\<rparr>)
                  | _ \<Rightarrow> Inl InvalidMachineToken)
           | _ \<Rightarrow> Inl InvalidTokenFormat))"

definition VerifyMachineAccessToken ::
  "relay_env \<Rightarrow> db \<Rightarrow> string \<Rightarrow> token_error + MachineAccessTokenClaims" where
  "VerifyMachineAccessToken env d token =
     (case decodeToken env token of
        Inl err \<Rightarrow> Inl err
      | Inr (payload, sig) \<Rightarrow>
          (case split_on bar payload of
             [kind, master, machine, fingerprint, expiry] \<Rightarrow>
               if kind \<noteq> TokenPrefixMachineAccess then Inl InvalidTokenFormat
               else
                 (case (parse_uuid env master, parse_uuid env machine, parseUnix expiry) of
                    (Some masterID, Some machineID, Some expiresAt) \<Rightarrow>
                      if expiresAt < now env then Inl TokenExpired
                      else
                        (case machines_FindByID d machineID of
                           Inl RecordNotFound \<Rightarrow> Inl InvalidMachineAccessToken
                         | Inl _ \<Rightarrow> Inl TokenDatabaseError
                         | Inr m \<Rightarrow>
                             if MachineMaster m \<noteq> masterID then Inl InvalidMachineAccessToken
                             else if MachineSignKeyFingerprint m \<noteq> fingerprint then Inl InvalidMachineAccessToken
                             else if MachineRevokedAt m \<noteq> None then Inl TokenMachineRevoked
                             else if \<not> VerifySignature env (MachineSignPub m) payload sig
                               then Inl InvalidMachineAccessToken
                             else
                               Inr \<lparr>AccMasterID = masterID, AccMachineID = machineID,
                                    AccFingerprint = fingerprint, AccExpiresAt = expiresAt\<rparr>)
                  | _ \<Rightarrow> Inl InvalidMachineAccessToken)
           | _ \<Rightarrow> Inl InvalidTokenFormat))"

section \<open>Facts\<close>

text \<open>A master key that vouches for a payload: present, of the master, not revoked, and its signature.\<close>

definition master_signed :: "relay_env \<Rightarrow> db \<Rightarrow> uuid \<Rightarrow> string \<Rightarrow> string \<Rightarrow> string \<Rightarrow> bool" where
  "master_signed env d master fingerprint payload sig \<longleftrightarrow>
     (\<exists>key\<in>set (MasterKeys d). KeyMaster key = master \<and> MasterSignKeyFingerprint key = fingerprint \<and>
        KeyRevokedAt key = None \<and> VerifySignature env (MasterSignPub key) payload sig)"

lemma verifySignature_None:
  "verifySignature env d master fp payload sig err = None \<Longrightarrow> master_signed env d master fp payload sig"
  by (auto simp: verifySignature_def masterKeys_FindByMasterAndFingerprint_def master_signed_def
      dest: select_one_Inr split: sum.splits repo_error.splits if_splits)

lemma connect_token_shape:
  assumes "VerifyConnectToken env d token = Inr claims"
  obtains payload sig master expiry where
    "decodeToken env token = Inr (payload, sig)"
    "split_on bar payload = [TokenPrefixConnect, master, ConnFingerprint claims, expiry]"
    "parse_uuid env master = Some (ConnMasterID claims)"
    "parseUnix expiry = Some (ConnExpiresAt claims)" "now env \<le> ConnExpiresAt claims"
    "master_signed env d (ConnMasterID claims) (ConnFingerprint claims) payload sig"
  using assms
  by (auto simp: VerifyConnectToken_def not_less dest: verifySignature_None
      split: sum.splits prod.splits list.splits if_splits option.splits)

lemma machine_token_shape:
  assumes "VerifyMachineToken env d token = Inr claims"
  obtains payload sig master machine expiry where
    "decodeToken env token = Inr (payload, sig)"
    "split_on bar payload = [TokenPrefixMachine, master, machine, MachFingerprint claims, expiry]"
    "parse_uuid env master = Some (MachMasterID claims)" "parse_uuid env machine = Some (MachMachineID claims)"
    "parseUnix expiry = Some (MachExpiresAt claims)" "now env \<le> MachExpiresAt claims"
    "master_signed env d (MachMasterID claims) (MachFingerprint claims) payload sig"
  using assms
  by (auto simp: VerifyMachineToken_def not_less dest: verifySignature_None
      split: sum.splits prod.splits list.splits if_splits option.splits)

section \<open>Properties\<close>

text \<open>
  an accepted connect token is genuine: its payload spells out exactly the claims, it has not
  expired, and a key of the claimed master with the claimed fingerprint, not revoked, has signed
  that payload.
\<close>

theorem VerifyConnectToken_sound:
  assumes "VerifyConnectToken env d token = Inr claims"
  shows "\<exists>payload sig master expiry. decodeToken env token = Inr (payload, sig) \<and>
    payload = join_on bar [''muxagent-connect-token-v1'', master, ConnFingerprint claims, expiry] \<and>
    parse_uuid env master = Some (ConnMasterID claims) \<and>
    parseUnix expiry = Some (ConnExpiresAt claims) \<and> now env \<le> ConnExpiresAt claims \<and>
    (\<exists>key\<in>set (MasterKeys d). KeyMaster key = ConnMasterID claims \<and>
       MasterSignKeyFingerprint key = ConnFingerprint claims \<and> KeyRevokedAt key = None \<and>
       VerifySignature env (MasterSignPub key) payload sig)"
proof -
  from assms obtain payload sig master expiry where p: "decodeToken env token = Inr (payload, sig)"
    "split_on bar payload = [TokenPrefixConnect, master, ConnFingerprint claims, expiry]"
    "parse_uuid env master = Some (ConnMasterID claims)"
    "parseUnix expiry = Some (ConnExpiresAt claims)" "now env \<le> ConnExpiresAt claims"
    "master_signed env d (ConnMasterID claims) (ConnFingerprint claims) payload sig"
    by (rule connect_token_shape)
  moreover have "payload = join_on bar [''muxagent-connect-token-v1'', master, ConnFingerprint claims, expiry]"
    using join_split [of bar payload] p(2) by (simp add: TokenPrefixConnect_def)
  ultimately show ?thesis unfolding master_signed_def by blast
qed

text \<open>A relay with one master, one key and one machine, whose codecs are the identity.\<close>

definition demo_key :: MasterKey where
  "demo_key = \<lparr>KeyMaster = 1, MasterSignKeyFingerprint = ''k'', MasterSignPub = replicate 32 CHR ''p'',
     MasterEncPub = ''e'', KeyRevokedAt = None, AddedBy = None, KeyringSeqAdded = 1\<rparr>"

definition demo_machine :: Machine where
  "demo_machine = \<lparr>MachineID = 2, MachineMaster = 1, MachineSignKeyFingerprint = ''m'',
     MachineSignPub = replicate 32 CHR ''q'', MachineEncPub = ''e'', MachineHostname = ''h'',
     MachineLastSeenAt = 0, MachineRevokedAt = None\<rparr>"

definition demo_db :: db where
  "demo_db = \<lparr>dbUp = True, Machines = [demo_machine], MasterKeys = [demo_key],
     MasterIdentities = [\<lparr>IdentityID = 1, KeyringSeq = 1, KeyringHeadHash = ''h1''\<rparr>],
     KeyringUpdates = [], AuthRequests = []\<rparr>"

definition demo_env :: relay_env where
  "demo_env = \<lparr>now = 0, parse_uuid = (\<lambda>s. if s = ''1'' then Some 1 else if s = ''2'' then Some 2 else None),
     show_uuid = show_nat, b64_encode = (\<lambda>s. s), b64_decode = Some, b64url_decode = Some,
     ed25519_verify = (\<lambda>_ _ _. True), sha256_text = (\<lambda>s. s)\<rparr>"

definition demo_sig :: string where
  "demo_sig = replicate 64 CHR ''s''"

definition demo_connect_token :: string where
  "demo_connect_token = ''muxagent-connect-token-v1|1|k|9.'' @ demo_sig"

definition demo_machine_token :: string where
  "demo_machine_token = ''muxagent-machine-token-v1|1|2|k|9.'' @ demo_sig"

lemmas token_simps =
  VerifyConnectToken_def VerifyMachineToken_def decodeToken_def verifySignature_def parseUnix_def
  parse_int64_def go_unix_def TokenPrefixConnect_def TokenPrefixMachine_def
  masterKeys_FindByMasterAndFingerprint_def select_one_def VerifySignature_def
  demo_db_def demo_env_def demo_key_def demo_connect_token_def demo_machine_token_def

lemma split_demo_sig: "split_on (CHR ''.'') demo_sig = [demo_sig]"
  by (rule split_on_single) (simp add: demo_sig_def)

lemma length_demo_sig [simp]: "length demo_sig = 64"
  by (simp add: demo_sig_def)

lemma demo_connect:
  "VerifyConnectToken demo_env demo_db demo_connect_token =
     Inr \<lparr>ConnMasterID = 1, ConnFingerprint = ''k'', ConnExpiresAt = go_unix 9\<rparr>"
  by (simp add: token_simps split_demo_sig)

lemma demo_machine_accepted:
  "VerifyMachineToken demo_env demo_db demo_machine_token =
     Inr \<lparr>MachMasterID = 1, MachMachineID = 2, MachFingerprint = ''k'', MachExpiresAt = go_unix 9\<rparr>"
  by (simp add: token_simps split_demo_sig)

theorem VerifyConnectToken_sound_witness:
  "\<exists>payload sig. decodeToken demo_env demo_connect_token = Inr (payload, sig) \<and>
     (\<exists>key\<in>set (MasterKeys demo_db). VerifySignature demo_env (MasterSignPub key) payload sig)"
  using VerifyConnectToken_sound [OF demo_connect] by blast

text \<open>
  the three kinds of token cannot stand in for each other: a token that is accepted as a connect
  token is rejected as a machine token and as a machine access token, and likewise around.
\<close>

theorem token_kinds_are_disjoint:
  "(case VerifyConnectToken env d token of Inl _ \<Rightarrow> True
    | Inr _ \<Rightarrow> VerifyMachineToken env d token = Inl InvalidTokenFormat \<and>
              VerifyMachineAccessToken env d token = Inl InvalidTokenFormat) \<and>
   (case VerifyMachineToken env d token of Inl _ \<Rightarrow> True
    | Inr _ \<Rightarrow> VerifyConnectToken env d token = Inl InvalidTokenFormat \<and>
              VerifyMachineAccessToken env d token = Inl InvalidTokenFormat)"
proof (intro conjI)
  show "case VerifyConnectToken env d token of Inl _ \<Rightarrow> True
    | Inr _ \<Rightarrow> VerifyMachineToken env d token = Inl InvalidTokenFormat \<and>
              VerifyMachineAccessToken env d token = Inl InvalidTokenFormat"
  proof (cases "VerifyConnectToken env d token")
    case (Inr claims)
    then show ?thesis
      by (rule connect_token_shape)
        (simp add: Inr VerifyMachineToken_def VerifyMachineAccessToken_def)
  qed simp
  show "case VerifyMachineToken env d token of Inl _ \<Rightarrow> True
    | Inr _ \<Rightarrow> VerifyConnectToken env d token = Inl InvalidTokenFormat \<and>
              VerifyMachineAccessToken env d token = Inl InvalidTokenFormat"
  proof (cases "VerifyMachineToken env d token")
    case (Inr claims)
    then show ?thesis
      by (rule machine_token_shape)
        (simp add: Inr VerifyConnectToken_def VerifyMachineAccessToken_def
          TokenPrefixMachine_def TokenPrefixMachineAccess_def)
  qed simp
qed

text \<open>
  the converse: a token with a well-formed connect payload, unexpired, and signed with the
  master's key is accepted with the claims it spells out.
\<close>

theorem VerifyConnectToken_complete:
  assumes "dbUp d" and "find (\<lambda>k. KeyMaster k = master \<and> MasterSignKeyFingerprint k = fp) (MasterKeys d) = Some key"
    and "KeyRevokedAt key = None" and "parse_uuid env m = Some master" and "parseUnix expiry = Some t"
    and "now env \<le> t" and "bar \<notin> set m \<union> set fp \<union> set expiry"
    and "payload = join_on bar [''muxagent-connect-token-v1'', m, fp, expiry]"
    and "VerifySignature env (MasterSignPub key) payload sig"
    and "CHR ''.'' \<notin> set a \<union> set b" and "b64url_decode env a = Some payload" and "b64url_decode env b = Some sig"
  shows "VerifyConnectToken env d (join_on (CHR ''.'') [a, b]) =
    Inr \<lparr>ConnMasterID = master, ConnFingerprint = fp, ConnExpiresAt = t\<rparr>"
proof -
  have "split_on (CHR ''.'') (join_on (CHR ''.'') [a, b]) = [a, b]"
    by (rule split_join) (use assms(10) in auto)
  then have dec: "decodeToken env (join_on (CHR ''.'') [a, b]) = Inr (payload, sig)"
    by (simp only: decodeToken_def list.case assms(11,12) option.case)
  have "split_on bar payload = [''muxagent-connect-token-v1'', m, fp, expiry]"
    unfolding assms(8) by (rule split_join) (use assms(7) in auto)
  moreover have "verifySignature env d master fp payload sig InvalidConnectToken = None"
    using assms(1-3,9) by (simp add: verifySignature_def masterKeys_FindByMasterAndFingerprint_def select_one_def)
  ultimately show ?thesis
    unfolding VerifyConnectToken_def dec using assms(4-6) by (simp add: TokenPrefixConnect_def)
qed

theorem VerifyConnectToken_complete_witness:
  "VerifyConnectToken demo_env demo_db
     (join_on (CHR ''.'') [''muxagent-connect-token-v1|1|k|9'', demo_sig]) =
   Inr \<lparr>ConnMasterID = 1, ConnFingerprint = ''k'', ConnExpiresAt = go_unix 9\<rparr>"
  by (rule VerifyConnectToken_complete [where m = "''1''" and expiry = "''9''" and key = demo_key and sig = demo_sig
        and payload = "''muxagent-connect-token-v1|1|k|9''"])
    (simp_all add: token_simps demo_sig_def)

end
