(* ===== verification/Sessions.thy ===== *)
theory Sessions
  imports RelayBase
begin

text \<open>
  The relay's in-memory tables: the session registry (relay/internal/service/ws_session_registry.go),
  one session per machine, pending for at most 30 seconds until the machine acknowledges it, and the
  hub of connections (ws_hub.go).  The registry's contract is a locale; what the WebSocket service
  relies on is proved from it.
\<close>

section \<open>Errors of the WebSocket service (errors.go)\<close>

datatype ws_error =
    ErrUnknownMachine
  | ErrMachineRevoked
  | ErrInvalidMachineToken
  | ErrMachineBusy
  | ErrMachineNotConnected
  | ErrUnauthorizedMachine
  | ErrUnauthorizedSession
  | ErrInvalidSessionInit
  | ErrInvalidRequest
  | ErrToken string
  | ErrDatabase

section \<open>The session registry\<close>

definition pendingSessionTTL :: int where
  "pendingSessionTTL = 30 * 1000000000"

datatype sessionState = Pending | Active

record sessionEntry =
  clientID :: uuid
  sessState :: sessionState
  createdAt :: int

type_synonym registry = "(uuid, sessionEntry) gomap"

definition NewSessionRegistry :: registry where
  "NewSessionRegistry = []"

definition isExpired :: "int \<Rightarrow> sessionEntry \<Rightarrow> bool" where
  "isExpired t entry =
     (if sessState entry \<noteq> Pending then False else pendingSessionTTL < t - createdAt entry)"

definition BeginSession ::
  "int \<Rightarrow> uuid \<Rightarrow> uuid \<Rightarrow> bool \<Rightarrow> registry \<Rightarrow> ws_error option \<times> registry" where
  "BeginSession t machineID client force r =
     (let start = (\<lambda>r. (None, map_put machineID
                     \<lparr>clientID = client, sessState = Pending, createdAt = t\<rparr> r))
      in case map_of r machineID of
           None \<Rightarrow> start r
         | Some entry \<Rightarrow>
             if isExpired t entry \<or> force then start (map_del machineID r)
             else (Some ErrMachineBusy, r))"

definition ActivateSession :: "int \<Rightarrow> uuid \<Rightarrow> registry \<Rightarrow> ws_error option \<times> registry" where
  "ActivateSession t machineID r =
     (case map_of r machineID of
        None \<Rightarrow> (Some ErrUnauthorizedSession, r)
      | Some entry \<Rightarrow>
          if isExpired t entry then (Some ErrUnauthorizedSession, map_del machineID r)
          else (None, map_put machineID (entry\<lparr>sessState := Active\<rparr>) r))"

definition EndSession :: "uuid \<Rightarrow> registry \<Rightarrow> registry" where
  "EndSession machineID r = map_del machineID r"

definition EndSessionsForClient :: "uuid \<Rightarrow> registry \<Rightarrow> registry" where
  "EndSessionsForClient client r = filter (\<lambda>(_, entry). clientID entry \<noteq> client) r"

definition GetSessionClient :: "int \<Rightarrow> uuid \<Rightarrow> registry \<Rightarrow> uuid option \<times> registry" where
  "GetSessionClient t machineID r =
     (case map_of r machineID of
        None \<Rightarrow> (None, r)
      | Some entry \<Rightarrow>
          if isExpired t entry then (None, EndSession machineID r) else (Some (clientID entry), r))"

definition GetActiveSessionClient :: "int \<Rightarrow> uuid \<Rightarrow> registry \<Rightarrow> uuid option \<times> registry" where
  "GetActiveSessionClient t machineID r =
     (case map_of r machineID of
        None \<Rightarrow> (None, r)
      | Some entry \<Rightarrow>
          if sessState entry \<noteq> Active then (None, r)
          else if isExpired t entry then (None, EndSession machineID r)
          else (Some (clientID entry), r))"

section \<open>The contract of the registry\<close>

text \<open>
  live t r m is the session a machine has at instant t: its client, and whether it is active.  An
  expired session is as good as none.
\<close>

locale session_registry =
  fixes ok :: "'r \<Rightarrow> bool"
    and live :: "int \<Rightarrow> 'r \<Rightarrow> uuid \<Rightarrow> (uuid \<times> bool) option"
    and begin_session :: "int \<Rightarrow> uuid \<Rightarrow> uuid \<Rightarrow> bool \<Rightarrow> 'r \<Rightarrow> ws_error option \<times> 'r"
    and activate :: "int \<Rightarrow> uuid \<Rightarrow> 'r \<Rightarrow> ws_error option \<times> 'r"
    and end_session :: "uuid \<Rightarrow> 'r \<Rightarrow> 'r"
    and end_client :: "uuid \<Rightarrow> 'r \<Rightarrow> 'r"
    and session_client :: "int \<Rightarrow> uuid \<Rightarrow> 'r \<Rightarrow> uuid option \<times> 'r"
    and active_client :: "int \<Rightarrow> uuid \<Rightarrow> 'r \<Rightarrow> uuid option \<times> 'r"
  assumes begin_busy: "live t r m \<noteq> None \<Longrightarrow> \<not> force \<Longrightarrow> begin_session t m c force r = (Some ErrMachineBusy, r)"
    and begin_free: "live t r m = None \<or> force \<Longrightarrow> fst (begin_session t m c force r) = None \<and>
      live t (snd (begin_session t m c force r)) = (live t r)(m \<mapsto> (c, False))"
    and activate_live: "live t r m = Some (c, a) \<Longrightarrow> fst (activate t m r) = None \<and>
      live t (snd (activate t m r)) = (live t r)(m \<mapsto> (c, True))"
    and activate_none: "live t r m = None \<Longrightarrow> fst (activate t m r) = Some ErrUnauthorizedSession \<and>
      live t (snd (activate t m r)) = live t r"
    and end_live: "live t (end_session m r) = (live t r)(m := None)"
    and end_client_live: "ok r \<Longrightarrow> live t (end_client c r) m =
      (case live t r m of None \<Rightarrow> None | Some (c', a) \<Rightarrow> if c' = c then None else Some (c', a))"
    and session_client_live: "fst (session_client t m r) = map_option fst (live t r m) \<and>
      live t (snd (session_client t m r)) = live t r"
    and active_client_live: "fst (active_client t m r) =
        (case live t r m of Some (c, True) \<Rightarrow> Some c | _ \<Rightarrow> None) \<and>
      live t (snd (active_client t m r)) = live t r"
    and active_stays: "live t r m = Some (c, True) \<Longrightarrow> live t' r m = Some (c, True)"
    and ok_begin: "ok r \<Longrightarrow> ok (snd (begin_session t m c force r))"
    and ok_activate: "ok r \<Longrightarrow> ok (snd (activate t m r))"
    and ok_end: "ok r \<Longrightarrow> ok (end_session m r)"
    and ok_end_client: "ok r \<Longrightarrow> ok (end_client c r)"
    and ok_session_client: "ok r \<Longrightarrow> ok (snd (session_client t m r))"
    and ok_active_client: "ok r \<Longrightarrow> ok (snd (active_client t m r))"
begin

text \<open>Without force nobody takes over a live session; with force the taker must be acknowledged anew.\<close>

lemma no_takeover:
  "live t r m = Some (c, a) \<Longrightarrow> live t (snd (begin_session t m c' False r)) m = Some (c, a)"
  by (simp add: begin_busy)

lemma takeover_is_pending:
  "fst (active_client t m (snd (begin_session t m c True r))) = None"
  using begin_free [of t r m True c] by (simp add: active_client_live)

lemma begin_then_activate:
  assumes "fst (begin_session t m c force r) = None"
  shows "fst (active_client t m (snd (activate t m (snd (begin_session t m c force r))))) = Some c"
proof -
  from assms have "live t r m = None \<or> force" using begin_busy by (metis fst_conv option.distinct(1))
  from begin_free [OF this] have "live t (snd (begin_session t m c force r)) m = Some (c, False)" by simp
  from activate_live [OF this] show ?thesis by (simp add: active_client_live)
qed

lemma ended_client_owns_nothing:
  "ok r \<Longrightarrow> live t (end_client c r) m \<noteq> Some (c, a)"
  by (auto simp: end_client_live split: option.splits)

lemma other_machines_kept:
  assumes "m' \<noteq> m"
  shows "live t (snd (begin_session t m c force r)) m' = live t r m'"
    and "live t (snd (activate t m r)) m' = live t r m'"
    and "live t (end_session m r) m' = live t r m'"
proof -
  show "live t (snd (begin_session t m c force r)) m' = live t r m'"
    using assms begin_busy [of t r m force c] begin_free [of t r m force c]
    by (cases "live t r m = None \<or> force") auto
  show "live t (snd (activate t m r)) m' = live t r m'"
    using assms activate_live [of t r m] activate_none [of t r m]
    by (cases "live t r m") auto
  show "live t (end_session m r) m' = live t r m'" using assms by (simp add: end_live)
qed

end

definition live_session :: "int \<Rightarrow> registry \<Rightarrow> uuid \<Rightarrow> (uuid \<times> bool) option" where
  "live_session t r m =
     (case map_of r m of
        None \<Rightarrow> None
      | Some entry \<Rightarrow>
          if isExpired t entry then None else Some (clientID entry, sessState entry = Active))"

lemma map_of_end_client:
  "map_ok r \<Longrightarrow> map_of (EndSessionsForClient c r) m =
     (case map_of r m of None \<Rightarrow> None | Some e \<Rightarrow> if clientID e = c then None else Some e)"
proof (induction r)
  case (Cons x r)
  obtain k e where x: "x = (k, e)" by (cases x)
  with Cons.prems have "map_of r k = None" by (simp add: map_of_eq_None_iff)
  with Cons x show ?case by (auto simp: EndSessionsForClient_def split: option.splits)
qed (simp add: EndSessionsForClient_def)

lemma map_ok_end_client: "map_ok r \<Longrightarrow> map_ok (EndSessionsForClient c r)"
  by (simp add: EndSessionsForClient_def distinct_map_filter)

lemma fresh_not_expired: "\<not> isExpired t \<lparr>clientID = c, sessState = Pending, createdAt = t\<rparr>"
  by (simp add: isExpired_def pendingSessionTTL_def)

interpretation registry: session_registry map_ok live_session BeginSession ActivateSession EndSession
  EndSessionsForClient GetSessionClient GetActiveSessionClient
proof unfold_locales
  fix t t' :: int and r :: registry and m c :: uuid and force a
  show "live_session t r m \<noteq> None \<Longrightarrow> \<not> force \<Longrightarrow> BeginSession t m c force r = (Some ErrMachineBusy, r)"
    by (auto simp: live_session_def BeginSession_def Let_def split: option.splits if_splits)
  show "live_session t r m = None \<or> force \<Longrightarrow> fst (BeginSession t m c force r) = None \<and>
      live_session t (snd (BeginSession t m c force r)) = (live_session t r)(m \<mapsto> (c, False))"
    by (auto simp: live_session_def BeginSession_def Let_def map_laws fresh_not_expired fun_eq_iff
        split: option.splits if_splits)
  show "live_session t r m = Some (c, a) \<Longrightarrow> fst (ActivateSession t m r) = None \<and>
      live_session t (snd (ActivateSession t m r)) = (live_session t r)(m \<mapsto> (c, True))"
    by (auto simp: live_session_def ActivateSession_def map_laws fun_eq_iff isExpired_def
        split: option.splits if_splits)
  show "live_session t r m = None \<Longrightarrow> fst (ActivateSession t m r) = Some ErrUnauthorizedSession \<and>
      live_session t (snd (ActivateSession t m r)) = live_session t r"
    by (auto simp: live_session_def ActivateSession_def map_laws fun_eq_iff split: option.splits if_splits)
  show "live_session t (EndSession m r) = (live_session t r)(m := None)"
    by (auto simp: live_session_def EndSession_def map_laws fun_eq_iff)
  show "map_ok r \<Longrightarrow> live_session t (EndSessionsForClient c r) m =
      (case live_session t r m of None \<Rightarrow> None | Some (c', a) \<Rightarrow> if c' = c then None else Some (c', a))"
    by (auto simp: live_session_def map_of_end_client split: option.splits)
  show "fst (GetSessionClient t m r) = map_option fst (live_session t r m) \<and>
      live_session t (snd (GetSessionClient t m r)) = live_session t r"
    by (auto simp: live_session_def GetSessionClient_def EndSession_def map_laws fun_eq_iff split: option.splits)
  show "fst (GetActiveSessionClient t m r) =
        (case live_session t r m of Some (c, True) \<Rightarrow> Some c | _ \<Rightarrow> None) \<and>
      live_session t (snd (GetActiveSessionClient t m r)) = live_session t r"
    by (auto simp: live_session_def GetActiveSessionClient_def EndSession_def map_laws fun_eq_iff
        split: option.splits if_splits sessionState.splits)
  show "live_session t r m = Some (c, True) \<Longrightarrow> live_session t' r m = Some (c, True)"
    by (auto simp: live_session_def isExpired_def split: option.splits if_splits)
  show "map_ok r \<Longrightarrow> map_ok (snd (BeginSession t m c force r))"
    by (auto simp: BeginSession_def Let_def map_ok_put map_ok_del split: option.splits)
  show "map_ok r \<Longrightarrow> map_ok (snd (ActivateSession t m r))"
    by (auto simp: ActivateSession_def map_ok_put map_ok_del split: option.splits)
  show "map_ok r \<Longrightarrow> map_ok (EndSession m r)"
    by (simp add: EndSession_def map_ok_del)
  show "map_ok r \<Longrightarrow> map_ok (EndSessionsForClient c r)" by (rule map_ok_end_client)
  show "map_ok r \<Longrightarrow> map_ok (snd (GetSessionClient t m r))"
    by (auto simp: GetSessionClient_def EndSession_def map_ok_del split: option.splits)
  show "map_ok r \<Longrightarrow> map_ok (snd (GetActiveSessionClient t m r))"
    by (auto simp: GetActiveSessionClient_def EndSession_def map_ok_del split: option.splits)
qed

section \<open>The hub\<close>

text \<open>A connection is identified by a number, the address of its lockedConn.\<close>

record clientConn =
  ClientMaster :: uuid
  ClientFingerprint :: string
  ClientConn :: nat

record machineConn =
  HubMaster :: uuid
  HubHostname :: string
  HubConn :: nat

record WSHub =
  hubClients :: "(uuid, clientConn) gomap"
  hubMachines :: "(uuid, machineConn) gomap"

definition NewWSHub :: WSHub where
  "NewWSHub = \<lparr>hubClients = [], hubMachines = []\<rparr>"

definition RegisterClient :: "uuid \<Rightarrow> uuid \<Rightarrow> string \<Rightarrow> nat \<Rightarrow> WSHub \<Rightarrow> WSHub" where
  "RegisterClient i masterID fingerprint conn h =
     h\<lparr>hubClients := map_put i \<lparr>ClientMaster = masterID, ClientFingerprint = fingerprint, ClientConn = conn\<rparr>
                       (hubClients h)\<rparr>"

definition UnregisterClient :: "uuid \<Rightarrow> WSHub \<Rightarrow> WSHub" where
  "UnregisterClient i h = h\<lparr>hubClients := map_del i (hubClients h)\<rparr>"

definition RegisterMachine ::
  "uuid \<Rightarrow> uuid \<Rightarrow> string \<Rightarrow> nat \<Rightarrow> WSHub \<Rightarrow> machineConn option \<times> WSHub" where
  "RegisterMachine i masterID hostname conn h =
     (map_of (hubMachines h) i,
      h\<lparr>hubMachines := map_put i \<lparr>HubMaster = masterID, HubHostname = hostname, HubConn = conn\<rparr>
                         (hubMachines h)\<rparr>)"

definition UnregisterMachine :: "uuid \<Rightarrow> WSHub \<Rightarrow> WSHub" where
  "UnregisterMachine i h = h\<lparr>hubMachines := map_del i (hubMachines h)\<rparr>"

definition UnregisterMachineIfCurrent :: "uuid \<Rightarrow> nat \<Rightarrow> WSHub \<Rightarrow> machineConn option \<times> WSHub" where
  "UnregisterMachineIfCurrent i conn h =
     (case map_of (hubMachines h) i of
        None \<Rightarrow> (None, h)
      | Some current \<Rightarrow>
          if HubConn current \<noteq> conn then (None, h)
          else (Some current, UnregisterMachine i h))"

definition GetClient :: "uuid \<Rightarrow> WSHub \<Rightarrow> clientConn option" where
  "GetClient i h = map_of (hubClients h) i"

definition GetMachine :: "uuid \<Rightarrow> WSHub \<Rightarrow> machineConn option" where
  "GetMachine i h = map_of (hubMachines h) i"

definition GetClientsByMasterID :: "uuid \<Rightarrow> WSHub \<Rightarrow> clientConn list" where
  "GetClientsByMasterID masterID h =
     filter (\<lambda>c. ClientMaster c = masterID) (map snd (hubClients h))"

section \<open>Properties\<close>

text \<open>
  A machine serves one client at a time: while its session is live, another client cannot begin
  one without force and changes nothing by trying; a forced take-over leaves no active session until
  the machine acknowledges the new client.
\<close>

theorem sessions_are_exclusive:
  "(case live_session t r m of None \<Rightarrow> True
    | Some _ \<Rightarrow> BeginSession t m c False r = (Some ErrMachineBusy, r)) \<and>
   fst (GetActiveSessionClient t m (snd (BeginSession t m c True r))) = None"
  using registry.takeover_is_pending [of t m c r] registry.begin_busy [of t r m False c]
  by (auto split: option.split)

text \<open>
  a session that has begun and is not acknowledged within 30 seconds is gone: no lookup finds
  it, an acknowledgement is refused, and any client may begin a new one; an active session does not
  expire.
\<close>

theorem pending_sessions_expire:
  assumes "fst (BeginSession t m c force r) = None" and "t + 30000000000 < t'"
  shows "fst (GetSessionClient t' m (snd (BeginSession t m c force r))) = None \<and>
    fst (ActivateSession t' m (snd (BeginSession t m c force r))) = Some ErrUnauthorizedSession \<and>
    fst (BeginSession t' m c' False (snd (BeginSession t m c force r))) = None \<and>
    fst (GetActiveSessionClient t' m (snd (ActivateSession t m (snd (BeginSession t m c force r))))) = Some c"
proof -
  let ?r = "snd (BeginSession t m c force r)"
  have entry: "map_of ?r m = Some \<lparr>clientID = c, sessState = Pending, createdAt = t\<rparr>"
    using assms(1) by (auto simp: BeginSession_def Let_def map_laws split: option.splits if_splits)
  with assms(2) have dead: "live_session t' ?r m = None"
    by (simp add: live_session_def isExpired_def pendingSessionTTL_def)
  have "live_session t ?r m = Some (c, False)"
    using entry fresh_not_expired by (simp add: live_session_def)
  from registry.activate_live [OF this] have "live_session t (snd (ActivateSession t m ?r)) m = Some (c, True)"
    by simp
  from registry.active_stays [OF this, of t'] dead show ?thesis
    using registry.session_client_live [of t' m ?r] registry.activate_none [of t' ?r m]
      registry.begin_free [of t' ?r m False c'] registry.active_client_live [of t' m "snd (ActivateSession t m ?r)"]
    by simp
qed

theorem pending_sessions_expire_witness:
  "fst (GetSessionClient 31000000000 2 (snd (BeginSession 0 2 7 False NewSessionRegistry))) = None"
  using pending_sessions_expire [of 0 2 7 False NewSessionRegistry 31000000000]
  by (simp add: BeginSession_def NewSessionRegistry_def Let_def)

end
