(* ===== verification/Relay.thy ===== *)
theory Relay
  imports Tokens Sessions
begin

text \<open>
  The relay's WebSocket service (relay/internal/service/ws_service.go): what a connection does with
  each inbound frame (registration, machine challenge, session setup, forwarding), and the cleanup
  when it ends, over the hub, the session registry and the database.
\<close>

section \<open>Messages and surroundings\<close>

datatype WSRole = RoleUnset | RoleClient | RoleMachine | RoleOther string

record registerMessage =
  RegType :: string
  RegRole :: WSRole
  RegMachineID :: string
  RegHostname :: string
  RegConnectToken :: string

record challengeResponseMessage =
  RespType :: string
  RespSignature :: string

record sessionInitMessage =
  InitType :: string
  InitMachineID :: string
  InitMachineToken :: string
  InitEphemeralPub :: string
  InitSignature :: string
  InitForce :: bool

record sessionAckMessage =
  AckType :: string
  AckMachineID :: string
  AckEphemeralPub :: string
  AckSignature :: string

record sessionEndMessage =
  EndType :: string
  EndMachineID :: string

record encryptedMessage =
  EncMachineID :: string
  EncHint :: "string option"

text \<open>
  The surroundings of one frame: base, which connections take a write, the UUID uuid.New gives and
  the nonce rand.Read gives (None when it fails), whether the bandwidth limiter lets the frame pass,
  and encoding/json's decoding of the frame into each of the message types.
\<close>

record ws_env =
  base :: relay_env
  writable :: "nat \<Rightarrow> bool"
  new_uuid :: uuid
  new_nonce :: "string option"
  bandwidth_ok :: bool
  dec_type :: "string \<Rightarrow> string option"
  dec_register :: "string \<Rightarrow> registerMessage option"
  dec_response :: "string \<Rightarrow> challengeResponseMessage option"
  dec_init :: "string \<Rightarrow> sessionInitMessage option"
  dec_ack :: "string \<Rightarrow> sessionAckMessage option"
  dec_end :: "string \<Rightarrow> sessionEndMessage option"
  dec_encrypted :: "string \<Rightarrow> encryptedMessage option"

text \<open>What the service puts on the wire, and the log of its effects.\<close>

datatype ws_frame =
    RawFrame string
  | ErrorFrame string
  | ChallengeFrame string
  | RegisteredClientFrame string
  | RegisteredMachineFrame string
  | SessionEndFrame string
  | StatusFrame bool string string

datatype ws_effect = Sent nat ws_frame | Closed nat | Pushed uuid string

record relay =
  rHub :: WSHub
  rSessions :: registry
  rDb :: db
  rLog :: "ws_effect list"

definition put_log :: "ws_effect \<Rightarrow> relay \<Rightarrow> relay" where
  "put_log e s = s\<lparr>rLog := rLog s @ [e]\<rparr>"

text \<open>A write succeeds or fails with the connection; the result says which.\<close>

definition ws_write :: "ws_env \<Rightarrow> nat \<Rightarrow> ws_frame \<Rightarrow> relay \<Rightarrow> bool \<times> relay" where
  "ws_write env c f s = (if writable env c then (True, put_log (Sent c f) s) else (False, s))"

definition sendWSError :: "ws_env \<Rightarrow> nat \<Rightarrow> string \<Rightarrow> relay \<Rightarrow> bool \<times> relay" where
  "sendWSError env c message s = ws_write env c (ErrorFrame message) s"

fun token_error_text :: "token_error \<Rightarrow> string" where
  "token_error_text InvalidTokenFormat = ''invalid token format''"
| "token_error_text InvalidConnectToken = ''invalid connect_token''"
| "token_error_text InvalidMachineToken = ''invalid machine_token''"
| "token_error_text InvalidMachineAccessToken = ''invalid machine_access_token''"
| "token_error_text TokenExpired = ''token expired''"
| "token_error_text MasterKeyRevoked = ''master key revoked''"
| "token_error_text TokenMachineRevoked = ''machine revoked''"
| "token_error_text TokenDatabaseError = ''database error''"

fun ws_error_text :: "ws_error \<Rightarrow> string" where
  "ws_error_text ErrUnknownMachine = ''unknown machine''"
| "ws_error_text ErrMachineRevoked = ''machine revoked''"
| "ws_error_text ErrInvalidMachineToken = ''invalid machine_token''"
| "ws_error_text ErrMachineBusy = ''machine already has an active session''"
| "ws_error_text ErrMachineNotConnected = ''machine not connected''"
| "ws_error_text ErrUnauthorizedMachine = ''machine does not belong to master identity''"
| "ws_error_text ErrUnauthorizedSession = ''unauthorized session''"
| "ws_error_text ErrInvalidSessionInit = ''invalid session-init''"
| "ws_error_text ErrInvalidRequest = ''invalid request''"
| "ws_error_text (ErrToken text) = text"
| "ws_error_text ErrDatabase = ''database error''"

definition validateWSHostname :: "string \<Rightarrow> string option" where
  "validateWSHostname hostname = (if 255 < length hostname then Some ''hostname too long'' else None)"

fun send_all :: "ws_env \<Rightarrow> ws_frame \<Rightarrow> clientConn list \<Rightarrow> relay \<Rightarrow> relay" where
  "send_all env f [] s = s"
| "send_all env f (c # cs) s = send_all env f cs (snd (ws_write env (ClientConn c) f s))"

definition notifyMachineStatus :: "ws_env \<Rightarrow> uuid \<Rightarrow> uuid \<Rightarrow> string \<Rightarrow> bool \<Rightarrow> relay \<Rightarrow> relay" where
  "notifyMachineStatus env masterID machineID hostname online s =
     send_all env (StatusFrame online (show_uuid (base env) machineID) hostname)
       (GetClientsByMasterID masterID (rHub s)) s"

section \<open>Sessions and forwarding\<close>

definition set_sessions :: "registry \<Rightarrow> relay \<Rightarrow> relay" where
  "set_sessions r s = s\<lparr>rSessions := r\<rparr>"

definition end_relay_session :: "uuid \<Rightarrow> relay \<Rightarrow> relay" where
  "end_relay_session m s = s\<lparr>rSessions := EndSession m (rSessions s)\<rparr>"

text \<open>The checks of handleSessionInit before the session begins.\<close>

definition check_session_init ::
  "ws_env \<Rightarrow> ConnectTokenClaims \<Rightarrow> sessionInitMessage \<Rightarrow> db \<Rightarrow> ws_error + uuid" where
  "check_session_init env claims msg d =
     (if InitMachineID msg = [] \<or> InitMachineToken msg = [] \<or> InitEphemeralPub msg = [] \<or>
         InitSignature msg = [] then Inl ErrInvalidSessionInit
      else
        (case parse_uuid (base env) (InitMachineID msg) of
           None \<Rightarrow> Inl ErrInvalidSessionInit
         | Some machineID \<Rightarrow>
             (case VerifyMachineToken (base env) d (InitMachineToken msg) of
                Inl err \<Rightarrow> Inl (ErrToken (token_error_text err))
              | Inr tokenClaims \<Rightarrow>
                  if MachMasterID tokenClaims \<noteq> ConnMasterID claims \<or> MachMachineID tokenClaims \<noteq> machineID
                  then Inl ErrInvalidMachineToken
                  else if MachFingerprint tokenClaims \<noteq> ConnFingerprint claims then Inl ErrInvalidMachineToken
                  else
                    (case machines_FindByID d machineID of
                       Inl RecordNotFound \<Rightarrow> Inl ErrUnknownMachine
                     | Inl _ \<Rightarrow> Inl ErrDatabase
                     | Inr m \<Rightarrow>
                         if MachineRevokedAt m \<noteq> None then Inl ErrMachineRevoked
                         else if MachineMaster m \<noteq> ConnMasterID claims then Inl ErrUnauthorizedMachine
                         else
                           (case masterKeys_FindByMasterAndFingerprint d (ConnMasterID claims)
                                   (MachFingerprint tokenClaims) of
                              Inl _ \<Rightarrow> Inl ErrInvalidMachineToken
                            | Inr signerKey \<Rightarrow>
                                (case b64_decode (base env) (InitSignature msg) of
                                   None \<Rightarrow> Inl ErrInvalidSessionInit
                                 | Some sig \<Rightarrow>
                                     if \<not> VerifySignature (base env) (MasterSignPub signerKey)
                                            (BuildSessionInitMessage (show_uuid (base env) machineID)
                                               (InitEphemeralPub msg)) sig
                                     then Inl ErrInvalidSessionInit else Inr machineID))))))"

definition handleSessionInit ::
  "ws_env \<Rightarrow> uuid \<Rightarrow> ConnectTokenClaims \<Rightarrow> sessionInitMessage \<Rightarrow> string \<Rightarrow> relay \<Rightarrow> ws_error option \<times> relay" where
  "handleSessionInit env client claims msg raw s =
     (case check_session_init env claims msg (rDb s) of
        Inl err \<Rightarrow> (Some err, s)
      | Inr machineID \<Rightarrow>
          (case BeginSession (now (base env)) machineID client (InitForce msg) (rSessions s) of
             (Some err, r) \<Rightarrow> (Some err, set_sessions r s)
           | (None, r) \<Rightarrow>
               let s = set_sessions r s
               in (case GetMachine machineID (rHub s) of
                     None \<Rightarrow> (Some ErrMachineNotConnected, end_relay_session machineID s)
                   | Some mc \<Rightarrow>
                       (case ws_write env (HubConn mc) (RawFrame raw) s of
                          (False, s) \<Rightarrow> (Some ErrMachineNotConnected, end_relay_session machineID s)
                        | (True, s) \<Rightarrow> (None, s)))))"

definition handleSessionAck ::
  "ws_env \<Rightarrow> uuid \<Rightarrow> sessionAckMessage \<Rightarrow> string \<Rightarrow> relay \<Rightarrow> ws_error option \<times> relay" where
  "handleSessionAck env machineID msg raw s =
     (if AckMachineID msg = [] \<or> AckEphemeralPub msg = [] \<or> AckSignature msg = []
      then (Some ErrInvalidSessionInit, s)
      else if parse_uuid (base env) (AckMachineID msg) \<noteq> Some machineID then (Some ErrInvalidSessionInit, s)
      else
        (case GetSessionClient (now (base env)) machineID (rSessions s) of
           (None, r) \<Rightarrow> (Some ErrUnauthorizedSession, set_sessions r s)
         | (Some client, r) \<Rightarrow>
             let s = set_sessions r s
             in (case machines_FindByID (rDb s) machineID of
                   Inl _ \<Rightarrow> (Some ErrUnknownMachine, s)
                 | Inr m \<Rightarrow>
                     (case b64_decode (base env) (AckSignature msg) of
                        None \<Rightarrow> (Some ErrInvalidSessionInit, s)
                      | Some sig \<Rightarrow>
                          if \<not> VerifySignature (base env) (MachineSignPub m)
                                 (BuildSessionAckMessage (show_uuid (base env) machineID)
                                    (AckEphemeralPub msg)) sig
                          then (Some ErrInvalidSessionInit, s)
                          else
                            (case ActivateSession (now (base env)) machineID (rSessions s) of
                               (Some err, r) \<Rightarrow> (Some err, set_sessions r s)
                             | (None, r) \<Rightarrow>
                                 let s = set_sessions r s
                                 in (case GetClient client (rHub s) of
                                       None \<Rightarrow> (Some ErrUnauthorizedSession, end_relay_session machineID s)
                                     | Some cc \<Rightarrow>
                                         (case ws_write env (ClientConn cc) (RawFrame raw) s of
                                            (False, s) \<Rightarrow>
                                              (Some ErrUnauthorizedSession, end_relay_session machineID s)
                                          | (True, s) \<Rightarrow> (None, s))))))))"

text \<open>GetActiveSessionClient with its effect on the registry: is client the active owner?\<close>

definition owns_active :: "ws_env \<Rightarrow> uuid \<Rightarrow> uuid \<Rightarrow> relay \<Rightarrow> bool \<times> relay" where
  "owns_active env machineID client s =
     (case GetActiveSessionClient (now (base env)) machineID (rSessions s) of
        (owner, r) \<Rightarrow> (owner = Some client, set_sessions r s))"

definition handleSessionEnd ::
  "ws_env \<Rightarrow> uuid \<Rightarrow> sessionEndMessage \<Rightarrow> string \<Rightarrow> relay \<Rightarrow> ws_error option \<times> relay" where
  "handleSessionEnd env client msg raw s =
     (if EndMachineID msg = [] then (Some ErrInvalidSessionInit, s)
      else
        (case parse_uuid (base env) (EndMachineID msg) of
           None \<Rightarrow> (Some ErrInvalidSessionInit, s)
         | Some machineID \<Rightarrow>
             (case owns_active env machineID client s of
                (False, s) \<Rightarrow> (Some ErrUnauthorizedSession, s)
              | (True, s) \<Rightarrow>
                  let s = end_relay_session machineID s
                  in (case GetMachine machineID (rHub s) of
                        None \<Rightarrow> (None, s)
                      | Some mc \<Rightarrow> (None, snd (ws_write env (HubConn mc) (RawFrame raw) s))))))"

definition forwardClientMessage ::
  "ws_env \<Rightarrow> string \<Rightarrow> uuid \<Rightarrow> relay \<Rightarrow> ws_error option \<times> relay" where
  "forwardClientMessage env raw client s =
     (case dec_encrypted env raw of
        None \<Rightarrow> (Some ErrInvalidRequest, s)
      | Some msg \<Rightarrow>
          if EncMachineID msg = [] then (Some ErrInvalidRequest, s)
          else
            (case parse_uuid (base env) (EncMachineID msg) of
               None \<Rightarrow> (Some ErrInvalidRequest, s)
             | Some machineID \<Rightarrow>
                 (case owns_active env machineID client s of
                    (False, s) \<Rightarrow> (Some ErrUnauthorizedSession, s)
                  | (True, s) \<Rightarrow>
                      (case GetMachine machineID (rHub s) of
                         None \<Rightarrow> (Some ErrMachineNotConnected, s)
                       | Some mc \<Rightarrow>
                           (case ws_write env (HubConn mc) (RawFrame raw) s of
                              (False, s) \<Rightarrow> (Some ErrMachineNotConnected, end_relay_session machineID s)
                            | (True, s) \<Rightarrow> (None, s))))))"

definition tryPushNotification :: "ws_env \<Rightarrow> string \<Rightarrow> uuid \<Rightarrow> relay \<Rightarrow> relay" where
  "tryPushNotification env raw machineID s =
     (case dec_encrypted env raw of
        None \<Rightarrow> s
      | Some msg \<Rightarrow>
          (case EncHint msg of
             None \<Rightarrow> s
           | Some hint \<Rightarrow>
               (case GetMachine machineID (rHub s) of
                  None \<Rightarrow> s
                | Some mc \<Rightarrow> put_log (Pushed (HubMaster mc) hint) s)))"

definition forwardMachineMessage ::
  "ws_env \<Rightarrow> string \<Rightarrow> uuid \<Rightarrow> relay \<Rightarrow> ws_error option \<times> relay" where
  "forwardMachineMessage env raw machineID s =
     (let s = tryPushNotification env raw machineID s
      in case GetActiveSessionClient (now (base env)) machineID (rSessions s) of
           (None, r) \<Rightarrow> (Some ErrUnauthorizedSession, set_sessions r s)
         | (Some client, r) \<Rightarrow>
             let s = set_sessions r s
             in (case GetClient client (rHub s) of
                   None \<Rightarrow> (Some ErrUnauthorizedSession, end_relay_session machineID s)
                 | Some cc \<Rightarrow>
                     (case ws_write env (ClientConn cc) (RawFrame raw) s of
                        (False, s) \<Rightarrow> (Some ErrUnauthorizedSession, end_relay_session machineID s)
                      | (True, s) \<Rightarrow> (None, s))))"

section \<open>A connection\<close>

text \<open>The variables of HandleConnection; pendingNonce is None when nil.\<close>

record conn_state =
  csRole :: WSRole
  csClient :: uuid
  csClaims :: ConnectTokenClaims
  csMachine :: uuid
  pendingNonce :: "string option"
  pendingMachine :: uuid
  pendingMaster :: uuid
  pendingSignPub :: string
  pendingHostname :: string

definition new_conn :: conn_state where
  "new_conn =
     \<lparr>csRole = RoleUnset, csClient = 0,
      csClaims = \<lparr>ConnMasterID = 0, ConnFingerprint = [], ConnExpiresAt = 0\<rparr>, csMachine = 0,
      pendingNonce = None, pendingMachine = 0, pendingMaster = 0, pendingSignPub = [], pendingHostname = []\<rparr>"

text \<open>
  One turn of the loop yields whether the loop goes on, the variables and the relay.  answer sends an
  error and goes on if it could be sent.
\<close>

type_synonym turn = "bool \<times> conn_state \<times> relay"

definition answer :: "ws_env \<Rightarrow> nat \<Rightarrow> string \<Rightarrow> conn_state \<Rightarrow> relay \<Rightarrow> turn" where
  "answer env c message cs s =
     (case sendWSError env c message s of (sent, s) \<Rightarrow> (sent, cs, s))"

definition answer_result ::
  "ws_env \<Rightarrow> nat \<Rightarrow> conn_state \<Rightarrow> ws_error option \<times> relay \<Rightarrow> turn" where
  "answer_result env c cs res =
     (case res of (None, s) \<Rightarrow> (True, cs, s) | (Some err, s) \<Rightarrow> answer env c (ws_error_text err) cs s)"

definition register_machine ::
  "ws_env \<Rightarrow> nat \<Rightarrow> registerMessage \<Rightarrow> conn_state \<Rightarrow> relay \<Rightarrow> turn" where
  "register_machine env c msg cs s =
     (if RegMachineID msg = [] then answer env c ''machine_id required'' cs s
      else
        (case parse_uuid (base env) (RegMachineID msg) of
           None \<Rightarrow> answer env c ''invalid machine_id'' cs s
         | Some parsedID \<Rightarrow>
             (case machines_FindByID (rDb s) parsedID of
                Inl _ \<Rightarrow> answer env c ''unknown machine'' cs s
              | Inr m \<Rightarrow>
                  if MachineRevokedAt m \<noteq> None then answer env c ''machine revoked'' cs s
                  else
                    (case validateWSHostname (RegHostname msg) of
                       Some err \<Rightarrow> answer env c err cs s
                     | None \<Rightarrow>
                         (case new_nonce env of
                            None \<Rightarrow> answer env c ''failed to generate challenge'' cs s
                          | Some nonce \<Rightarrow>
                              let cs = cs\<lparr>pendingNonce := Some nonce, pendingMachine := parsedID,
                                          pendingMaster := MachineMaster m, pendingSignPub := MachineSignPub m,
                                          pendingHostname := RegHostname msg\<rparr>
                              in (case ws_write env c (ChallengeFrame (b64_encode (base env) nonce)) s of
                                    (sent, s) \<Rightarrow> (sent, cs, s)))))))"

definition register_client ::
  "ws_env \<Rightarrow> nat \<Rightarrow> registerMessage \<Rightarrow> conn_state \<Rightarrow> relay \<Rightarrow> turn" where
  "register_client env c msg cs s =
     (if RegConnectToken msg = [] then answer env c ''connect_token required'' cs s
      else
        (case VerifyConnectToken (base env) (rDb s) (RegConnectToken msg) of
           Inl err \<Rightarrow> answer env c (token_error_text err) cs s
         | Inr claims \<Rightarrow>
             let cs = cs\<lparr>csClient := new_uuid env, csRole := RoleClient, csClaims := claims\<rparr>;
                 s = s\<lparr>rHub := RegisterClient (new_uuid env) (ConnMasterID claims) (ConnFingerprint claims) c (rHub s)\<rparr>
             in (case ws_write env c (RegisteredClientFrame (show_uuid (base env) (ConnMasterID claims))) s of
                   (True, s) \<Rightarrow> (True, cs, s)
                 | (False, s) \<Rightarrow> (False, cs, s\<lparr>rHub := UnregisterClient (new_uuid env) (rHub s)\<rparr>))))"

definition handle_register :: "ws_env \<Rightarrow> nat \<Rightarrow> string \<Rightarrow> conn_state \<Rightarrow> relay \<Rightarrow> turn" where
  "handle_register env c raw cs s =
     (if csRole cs \<noteq> RoleUnset then answer env c ''already registered'' cs s
      else
        (case dec_register env raw of
           None \<Rightarrow> answer env c ''invalid register message'' cs s
         | Some msg \<Rightarrow>
             if RegType msg \<noteq> ''register'' then answer env c ''invalid register type'' cs s
             else
               (case RegRole msg of
                  RoleMachine \<Rightarrow> register_machine env c msg cs s
                | RoleClient \<Rightarrow> register_client env c msg cs s
                | _ \<Rightarrow> answer env c ''invalid role'' cs s)))"

text \<open>The challenge is answered: the machine is registered, replacing an earlier connection.\<close>

definition complete_machine :: "ws_env \<Rightarrow> nat \<Rightarrow> conn_state \<Rightarrow> relay \<Rightarrow> turn" where
  "complete_machine env c cs s =
     (case machines_UpdateLastSeenAndHostname (rDb s) (pendingMachine cs) (now (base env)) (pendingHostname cs) of
        Inl _ \<Rightarrow> (False, cs, snd (sendWSError env c ''failed to register machine'' s))
      | Inr d \<Rightarrow>
          let machineID = pendingMachine cs;
              (replaced, h) = RegisterMachine machineID (pendingMaster cs) (pendingHostname cs) c (rHub s);
              s = s\<lparr>rDb := d, rHub := h\<rparr>;
              s = (case replaced of None \<Rightarrow> s | Some old \<Rightarrow> put_log (Closed (HubConn old)) s);
              s = notifyMachineStatus env (pendingMaster cs) machineID (pendingHostname cs) True s;
              cs = cs\<lparr>csRole := RoleMachine, csMachine := machineID, pendingNonce := None,
                      pendingMachine := 0, pendingSignPub := []\<rparr>
          in (case ws_write env c (RegisteredMachineFrame (show_uuid (base env) machineID)) s of
                (True, s) \<Rightarrow> (True, cs, s)
              | (False, s) \<Rightarrow> (False, cs, s\<lparr>rHub := snd (UnregisterMachineIfCurrent machineID c (rHub s))\<rparr>)))"

definition handle_response :: "ws_env \<Rightarrow> nat \<Rightarrow> string \<Rightarrow> conn_state \<Rightarrow> relay \<Rightarrow> turn" where
  "handle_response env c raw cs s =
     (case pendingNonce cs of
        None \<Rightarrow> answer env c ''no pending challenge'' cs s
      | Some nonce \<Rightarrow>
          if pendingMachine cs = 0 then answer env c ''no pending challenge'' cs s
          else
            (case dec_response env raw of
               None \<Rightarrow> answer env c ''invalid challenge response'' cs s
             | Some msg \<Rightarrow>
                 if RespType msg \<noteq> ''challengeResponse'' then answer env c ''invalid challenge response type'' cs s
                 else if RespSignature msg = [] then answer env c ''signature required'' cs s
                 else
                   (case b64_decode (base env) (RespSignature msg) of
                      None \<Rightarrow> answer env c ''invalid signature'' cs s
                    | Some sig \<Rightarrow>
                        if \<not> VerifySignature (base env) (pendingSignPub cs)
                               (BuildMachineAuthMessage (show_uuid (base env) (pendingMachine cs))
                                  (b64_encode (base env) nonce)) sig
                        then answer env c ''invalid signature'' cs s
                        else complete_machine env c cs s)))"

definition handle_init :: "ws_env \<Rightarrow> nat \<Rightarrow> string \<Rightarrow> conn_state \<Rightarrow> relay \<Rightarrow> turn" where
  "handle_init env c raw cs s =
     (if csRole cs \<noteq> RoleClient then answer env c ''client role required'' cs s
      else
        (case dec_init env raw of
           None \<Rightarrow> answer env c ''invalid session-init'' cs s
         | Some msg \<Rightarrow>
             if InitType msg \<noteq> ''session-init'' then answer env c ''invalid session-init type'' cs s
             else answer_result env c cs (handleSessionInit env (csClient cs) (csClaims cs) msg raw s)))"

definition handle_ack :: "ws_env \<Rightarrow> nat \<Rightarrow> string \<Rightarrow> conn_state \<Rightarrow> relay \<Rightarrow> turn" where
  "handle_ack env c raw cs s =
     (if csRole cs \<noteq> RoleMachine then answer env c ''machine role required'' cs s
      else
        (case dec_ack env raw of
           None \<Rightarrow> answer env c ''invalid session-ack'' cs s
         | Some msg \<Rightarrow>
             if AckType msg \<noteq> ''session-ack'' then answer env c ''invalid session-ack type'' cs s
             else answer_result env c cs (handleSessionAck env (csMachine cs) msg raw s)))"

definition handle_end :: "ws_env \<Rightarrow> nat \<Rightarrow> string \<Rightarrow> conn_state \<Rightarrow> relay \<Rightarrow> turn" where
  "handle_end env c raw cs s =
     (if csRole cs \<noteq> RoleClient then answer env c ''client role required'' cs s
      else
        (case dec_end env raw of
           None \<Rightarrow> answer env c ''invalid session-end'' cs s
         | Some msg \<Rightarrow>
             if EndType msg \<noteq> ''session-end'' then answer env c ''invalid session-end type'' cs s
             else answer_result env c cs (handleSessionEnd env (csClient cs) msg raw s)))"

definition handle_forward :: "ws_env \<Rightarrow> nat \<Rightarrow> string \<Rightarrow> conn_state \<Rightarrow> relay \<Rightarrow> turn" where
  "handle_forward env c raw cs s =
     (case csRole cs of
        RoleClient \<Rightarrow> answer_result env c cs (forwardClientMessage env raw (csClient cs) s)
      | RoleMachine \<Rightarrow> answer_result env c cs (forwardMachineMessage env raw (csMachine cs) s)
      | _ \<Rightarrow> answer env c ''registration required'' cs s)"

definition receive :: "ws_env \<Rightarrow> nat \<Rightarrow> string \<Rightarrow> conn_state \<Rightarrow> relay \<Rightarrow> turn" where
  "receive env c raw cs s =
     (if \<not> bandwidth_ok env then (False, cs, s)
      else
        (case dec_type env raw of
           None \<Rightarrow> answer env c ''invalid JSON'' cs s
         | Some ty \<Rightarrow>
             if ty = [] then answer env c ''invalid message type'' cs s
             else if csRole cs = RoleUnset \<and> ty \<noteq> ''register'' \<and> ty \<noteq> ''challengeResponse''
               then answer env c ''registration required'' cs s
             else if ty = ''register'' then handle_register env c raw cs s
             else if ty = ''challengeResponse'' then handle_response env c raw cs s
             else if ty = ''session-init'' then handle_init env c raw cs s
             else if ty = ''session-ack'' then handle_ack env c raw cs s
             else if ty = ''session-end'' then handle_end env c raw cs s
             else if ty = ''rpc'' \<or> ty = ''response'' \<or> ty = ''event'' then handle_forward env c raw cs s
             else if ty = ''error'' then (True, cs, s)
             else answer env c ''unknown message type'' cs s))"

text \<open>The deferred function of HandleConnection.\<close>

definition notify_session_end :: "ws_env \<Rightarrow> uuid \<Rightarrow> relay \<Rightarrow> relay" where
  "notify_session_end env machineID s =
     (case GetSessionClient (now (base env)) machineID (rSessions s) of
        (None, r) \<Rightarrow> set_sessions r s
      | (Some client, r) \<Rightarrow>
          let s = set_sessions r s
          in (case GetClient client (rHub s) of
                None \<Rightarrow> s
              | Some cc \<Rightarrow>
                  snd (ws_write env (ClientConn cc) (SessionEndFrame (show_uuid (base env) machineID)) s)))"

definition cleanup :: "ws_env \<Rightarrow> nat \<Rightarrow> conn_state \<Rightarrow> relay \<Rightarrow> relay" where
  "cleanup env c cs s =
     (case csRole cs of
        RoleClient \<Rightarrow>
          if csClient cs \<noteq> 0
          then s\<lparr>rHub := UnregisterClient (csClient cs) (rHub s),
                 rSessions := EndSessionsForClient (csClient cs) (rSessions s)\<rparr>
          else s
      | RoleMachine \<Rightarrow>
          if csMachine cs \<noteq> 0 then
            (case UnregisterMachineIfCurrent (csMachine cs) c (rHub s) of
               (None, _) \<Rightarrow> s
             | (Some mc, h) \<Rightarrow>
                 let s = s\<lparr>rHub := h\<rparr>;
                     s = notifyMachineStatus env (HubMaster mc) (csMachine cs) (HubHostname mc) False s;
                     s = notify_session_end env (csMachine cs) s
                 in end_relay_session (csMachine cs) s)
          else s
      | _ \<Rightarrow> s)"

end
