(* ===== verification/Authorization.thy ===== *)
theory Authorization
  imports Relay
begin

text \<open>
  What the relay's WebSocket service guarantees: a step relation over all open connections with its
  invariant, under which sessions only join clients and machines of one master, become active only
  by the machine's signed acknowledgement, and carry messages only between their two ends.
\<close>

section \<open>Effects of one frame\<close>

definition shrinks :: "registry \<Rightarrow> registry \<Rightarrow> bool" where
  "shrinks r r' \<longleftrightarrow> (map_ok r \<longrightarrow> map_ok r') \<and> (\<forall>m e. map_of r' m = Some e \<longrightarrow> map_of r m = Some e)"

lemma shrinks_refl [simp]: "shrinks r r"
  by (simp add: shrinks_def)

lemma shrinks_end [simp]: "shrinks r (EndSession m r)"
  by (simp add: shrinks_def EndSession_def map_laws)

lemma shrinks_end2 [simp]: "shrinks r r' \<Longrightarrow> shrinks r (EndSession m r')"
  by (simp add: shrinks_def EndSession_def map_laws)

lemma shrinks_get: "GetSessionClient t m r = (x, r') \<Longrightarrow> shrinks r r'"
  by (auto simp: GetSessionClient_def split: option.splits if_splits)

lemma shrinks_get_active: "GetActiveSessionClient t m r = (x, r') \<Longrightarrow> shrinks r r'"
  by (auto simp: GetActiveSessionClient_def split: option.splits if_splits)

text \<open>A step that leaves the hub and the database alone and at most ends sessions.\<close>

definition quiet :: "relay \<Rightarrow> relay \<Rightarrow> bool" where
  "quiet s s' \<longleftrightarrow> rHub s' = rHub s \<and> rDb s' = rDb s \<and> shrinks (rSessions s) (rSessions s')"

lemma quiet_refl [simp]: "quiet s s"
  by (simp add: quiet_def)

lemma quiet_trans: "quiet s t \<Longrightarrow> quiet t u \<Longrightarrow> quiet s u"
  by (auto simp: quiet_def shrinks_def)

lemma write_tables [simp]:
  "rHub (snd (ws_write env c f s)) = rHub s" "rDb (snd (ws_write env c f s)) = rDb s"
  "rSessions (snd (ws_write env c f s)) = rSessions s"
  by (simp_all add: ws_write_def put_log_def)

lemma write_eq:
  "ws_write env c f s = (b, s') \<longleftrightarrow> b = writable env c \<and> s' = (if b then put_log (Sent c f) s else s)"
  by (auto simp: ws_write_def)

lemma put_log_tables [simp]:
  "rHub (put_log e s) = rHub s" "rDb (put_log e s) = rDb s" "rSessions (put_log e s) = rSessions s"
  "rLog (put_log e s) = rLog s @ [e]"
  by (simp_all add: put_log_def)

lemma set_sessions_tables [simp]:
  "rHub (set_sessions r s) = rHub s" "rDb (set_sessions r s) = rDb s"
  "rSessions (set_sessions r s) = r" "rLog (set_sessions r s) = rLog s"
  by (simp_all add: set_sessions_def)

lemma end_session_tables [simp]:
  "rHub (end_relay_session m s) = rHub s" "rDb (end_relay_session m s) = rDb s"
  "rSessions (end_relay_session m s) = EndSession m (rSessions s)" "rLog (end_relay_session m s) = rLog s"
  by (simp_all add: end_relay_session_def)

lemma send_all_tables [simp]:
  "rHub (send_all env f cs s) = rHub s" "rDb (send_all env f cs s) = rDb s"
  "rSessions (send_all env f cs s) = rSessions s"
  by (induction cs arbitrary: s) simp_all

lemma notify_tables [simp]:
  "rHub (notifyMachineStatus env a b h onl s) = rHub s" "rDb (notifyMachineStatus env a b h onl s) = rDb s"
  "rSessions (notifyMachineStatus env a b h onl s) = rSessions s"
  by (simp_all add: notifyMachineStatus_def)

lemma push_tables [simp]:
  "rHub (tryPushNotification env raw m s) = rHub s" "rDb (tryPushNotification env raw m s) = rDb s"
  "rSessions (tryPushNotification env raw m s) = rSessions s"
  by (auto simp: tryPushNotification_def split: option.splits)

lemma owns_active_eq:
  "owns_active env m c s = (b, s') \<Longrightarrow> quiet s s' \<and> rLog s' = rLog s \<and>
     (b \<longleftrightarrow> live_session (now (base env)) (rSessions s) m = Some (c, True))"
  using registry.active_client_live [of "now (base env)" m "rSessions s"]
  by (auto simp: owns_active_def quiet_def dest: shrinks_get_active split: prod.splits option.splits bool.splits)

lemma quiet_answer: "answer env c msg cs s = (k, cs', s') \<Longrightarrow> cs' = cs \<and> quiet s s'"
  by (auto simp: answer_def sendWSError_def ws_write_def quiet_def split: if_splits)

lemma quiet_answer_result:
  "answer_result env c cs res = (k, cs', s') \<Longrightarrow> cs' = cs \<and> quiet (snd res) s'"
  by (auto simp: answer_result_def dest: quiet_answer split: prod.splits option.splits)

lemma handleSessionEnd_quiet: "quiet s (snd (handleSessionEnd env c msg raw s))"
  by (auto simp: handleSessionEnd_def write_eq Let_def quiet_def dest!: owns_active_eq
      split: option.splits prod.splits bool.splits)

lemma forwardClientMessage_quiet: "quiet s (snd (forwardClientMessage env raw c s))"
  by (auto simp: forwardClientMessage_def write_eq quiet_def dest!: owns_active_eq
      split: option.splits prod.splits bool.splits)

lemma forwardMachineMessage_quiet: "quiet s (snd (forwardMachineMessage env raw m s))"
  by (auto simp: forwardMachineMessage_def write_eq Let_def quiet_def dest!: shrinks_get_active
      split: option.splits prod.splits bool.splits)

lemma handleSessionInit_effect:
  assumes "handleSessionInit env c claims msg raw s = (x, s')"
  shows "rHub s' = rHub s \<and> rDb s' = rDb s \<and> (map_ok (rSessions s) \<longrightarrow> map_ok (rSessions s')) \<and>
    (\<forall>m e. map_of (rSessions s') m = Some e \<longrightarrow> map_of (rSessions s) m = Some e \<or>
       check_session_init env claims msg (rDb s) = Inr m \<and>
       e = \<lparr>clientID = c, sessState = Pending, createdAt = now (base env)\<rparr>)"
  using assms
  by (auto simp: handleSessionInit_def BeginSession_def EndSession_def Let_def write_eq map_laws
      map_ok_put map_ok_del split: sum.splits option.splits prod.splits bool.splits if_splits)

text \<open>The machine's own signature over an acknowledgement.\<close>

definition ack_signed :: "ws_env \<Rightarrow> db \<Rightarrow> uuid \<Rightarrow> sessionAckMessage \<Rightarrow> bool" where
  "ack_signed env d m msg \<longleftrightarrow>
     (\<exists>row sig. machines_FindByID d m = Inr row \<and> b64_decode (base env) (AckSignature msg) = Some sig \<and>
        VerifySignature (base env) (MachineSignPub row)
          (BuildSessionAckMessage (show_uuid (base env) m) (AckEphemeralPub msg)) sig)"

lemma handleSessionAck_effect:
  assumes "handleSessionAck env mid msg raw s = (x, s')"
  shows "rHub s' = rHub s \<and> rDb s' = rDb s \<and> (map_ok (rSessions s) \<longrightarrow> map_ok (rSessions s')) \<and>
    (\<forall>m e. map_of (rSessions s') m = Some e \<longrightarrow> map_of (rSessions s) m = Some e \<or>
       m = mid \<and> ack_signed env (rDb s) mid msg \<and>
       sessState e = Active \<and> (\<exists>e0. map_of (rSessions s) m = Some e0 \<and> clientID e = clientID e0))"
  using assms
  by (auto simp: handleSessionAck_def GetSessionClient_def ActivateSession_def EndSession_def Let_def
      write_eq map_laws map_ok_put map_ok_del ack_signed_def
      split: sum.splits option.splits prod.splits bool.splits if_splits)


text \<open>What one frame can do to the connection and the tables, by the kind of its effect.\<close>

definition did_quiet :: "conn_state \<Rightarrow> relay \<Rightarrow> conn_state \<Rightarrow> relay \<Rightarrow> bool" where
  "did_quiet cs s cs' s' \<longleftrightarrow> cs' = cs \<and> quiet s s'"

definition did_init :: "ws_env \<Rightarrow> string \<Rightarrow> conn_state \<Rightarrow> relay \<Rightarrow> conn_state \<Rightarrow> relay \<Rightarrow> bool" where
  "did_init env raw cs s cs' s' \<longleftrightarrow> csRole cs = RoleClient \<and> cs' = cs \<and>
     (\<exists>msg x s1. dec_init env raw = Some msg \<and>
        handleSessionInit env (csClient cs) (csClaims cs) msg raw s = (x, s1) \<and> quiet s1 s')"

definition did_ack :: "ws_env \<Rightarrow> string \<Rightarrow> conn_state \<Rightarrow> relay \<Rightarrow> conn_state \<Rightarrow> relay \<Rightarrow> bool" where
  "did_ack env raw cs s cs' s' \<longleftrightarrow> csRole cs = RoleMachine \<and> cs' = cs \<and>
     (\<exists>msg x s1. dec_ack env raw = Some msg \<and>
        handleSessionAck env (csMachine cs) msg raw s = (x, s1) \<and> quiet s1 s')"

definition did_challenge :: "conn_state \<Rightarrow> relay \<Rightarrow> conn_state \<Rightarrow> relay \<Rightarrow> bool" where
  "did_challenge cs s cs' s' \<longleftrightarrow> csRole cs = RoleUnset \<and> quiet s s' \<and>
     (\<exists>i m n h. machines_FindByID (rDb s) i = Inr m \<and>
        cs' = cs\<lparr>pendingNonce := Some n, pendingMachine := i, pendingMaster := MachineMaster m,
                 pendingSignPub := MachineSignPub m, pendingHostname := h\<rparr>)"

definition did_client :: "ws_env \<Rightarrow> nat \<Rightarrow> bool \<Rightarrow> conn_state \<Rightarrow> relay \<Rightarrow> conn_state \<Rightarrow> relay \<Rightarrow> bool" where
  "did_client env c k cs s cs' s' \<longleftrightarrow> csRole cs = RoleUnset \<and>
     (\<exists>claims. cs' = cs\<lparr>csClient := new_uuid env, csRole := RoleClient, csClaims := claims\<rparr> \<and>
        rDb s' = rDb s \<and> rSessions s' = rSessions s \<and>
        rHub s' = (let h = RegisterClient (new_uuid env) (ConnMasterID claims) (ConnFingerprint claims) c (rHub s)
                   in if k then h else UnregisterClient (new_uuid env) h))"

text \<open>The pending challenge is answered with the key the machine has on record.\<close>

definition challenge_signed :: "ws_env \<Rightarrow> string \<Rightarrow> conn_state \<Rightarrow> bool" where
  "challenge_signed env raw cs \<longleftrightarrow>
     (\<exists>nonce msg sig. pendingNonce cs = Some nonce \<and> dec_response env raw = Some msg \<and>
        b64_decode (base env) (RespSignature msg) = Some sig \<and>
        VerifySignature (base env) (pendingSignPub cs)
          (BuildMachineAuthMessage (show_uuid (base env) (pendingMachine cs)) (b64_encode (base env) nonce)) sig)"

definition did_machine :: "nat \<Rightarrow> bool \<Rightarrow> conn_state \<Rightarrow> relay \<Rightarrow> conn_state \<Rightarrow> relay \<Rightarrow> bool" where
  "did_machine c k cs s cs' s' \<longleftrightarrow> pendingNonce cs \<noteq> None \<and> pendingMachine cs \<noteq> 0 \<and>
     cs' = cs\<lparr>csRole := RoleMachine, csMachine := pendingMachine cs, pendingNonce := None,
              pendingMachine := 0, pendingSignPub := []\<rparr> \<and>
     rSessions s' = rSessions s \<and>
     (\<exists>t. machines_UpdateLastSeenAndHostname (rDb s) (pendingMachine cs) t (pendingHostname cs) = Inr (rDb s')) \<and>
     rHub s' =
       (let h = snd (RegisterMachine (pendingMachine cs) (pendingMaster cs) (pendingHostname cs) c (rHub s))
        in if k then h else snd (UnregisterMachineIfCurrent (pendingMachine cs) c h))"

lemma handle_register_effect:
  assumes "handle_register env c raw cs s = (k, cs', s')"
  shows "did_quiet cs s cs' s' \<or> did_challenge cs s cs' s' \<or> did_client env c k cs s cs' s'"
proof -
  have m: "did_quiet cs s cs' s' \<or> did_challenge cs s cs' s'"
    if "csRole cs = RoleUnset" "register_machine env c msg cs s = (k, cs', s')" for msg
    using that
    by (auto simp: register_machine_def did_quiet_def did_challenge_def write_eq quiet_def[of _ "put_log _ _"] Let_def dest!: quiet_answer
        split: if_splits option.splits sum.splits prod.splits)
  have cl: "did_quiet cs s cs' s' \<or> did_client env c k cs s cs' s'"
    if "csRole cs = RoleUnset" "register_client env c msg cs s = (k, cs', s')" for msg
    using that
    by (auto simp: register_client_def did_quiet_def did_client_def write_eq Let_def dest!: quiet_answer
        split: if_splits option.splits sum.splits prod.splits bool.splits)
  from assms show ?thesis
    by (auto simp: handle_register_def did_quiet_def dest: m cl quiet_answer
        split: if_splits option.splits WSRole.splits)
qed

lemma complete_machine_effect:
  assumes "complete_machine env c cs s = (k, cs', s')" "pendingNonce cs \<noteq> None" "pendingMachine cs \<noteq> 0"
  shows "did_quiet cs s cs' s' \<or> did_machine c k cs s cs' s'"
  using assms
  by (auto simp: complete_machine_def did_quiet_def did_machine_def write_eq Let_def sendWSError_def
      ws_write_def quiet_def split: if_splits option.splits sum.splits prod.splits bool.splits)

lemma handle_response_effect:
  assumes "handle_response env c raw cs s = (k, cs', s')"
  shows "did_quiet cs s cs' s' \<or> did_machine c k cs s cs' s' \<and> challenge_signed env raw cs"
  using assms complete_machine_effect [of env c cs s k cs' s']
  by (auto simp: handle_response_def did_quiet_def challenge_signed_def dest: quiet_answer
      split: if_splits option.splits)

lemma receive_effect:
  assumes "receive env c raw cs s = (k, cs', s')"
  shows "did_quiet cs s cs' s' \<or> did_init env raw cs s cs' s' \<or> did_ack env raw cs s cs' s' \<or>
    did_challenge cs s cs' s' \<or> did_client env c k cs s cs' s' \<or>
    did_machine c k cs s cs' s' \<and> challenge_signed env raw cs"
proof -
  have init: "did_quiet cs s cs' s' \<or> did_init env raw cs s cs' s'" if "handle_init env c raw cs s = (k, cs', s')"
    using that
    by (cases "handleSessionInit env (csClient cs) (csClaims cs) (the (dec_init env raw)) raw s")
      (fastforce simp: handle_init_def did_quiet_def did_init_def dest: quiet_answer quiet_answer_result
        split: if_splits option.splits)
  have ack: "did_quiet cs s cs' s' \<or> did_ack env raw cs s cs' s'" if "handle_ack env c raw cs s = (k, cs', s')"
    using that
    by (cases "handleSessionAck env (csMachine cs) (the (dec_ack env raw)) raw s")
      (fastforce simp: handle_ack_def did_quiet_def did_ack_def dest: quiet_answer quiet_answer_result
        split: if_splits option.splits)
  have fin: "did_quiet cs s cs' s'" if "handle_end env c raw cs s = (k, cs', s')"
    using that
    by (auto simp: handle_end_def did_quiet_def dest!: quiet_answer quiet_answer_result
        dest: quiet_trans [OF handleSessionEnd_quiet] split: if_splits option.splits)
  have fwd: "did_quiet cs s cs' s'" if "handle_forward env c raw cs s = (k, cs', s')"
    using that
    by (auto simp: handle_forward_def did_quiet_def dest!: quiet_answer quiet_answer_result
        dest: quiet_trans [OF forwardClientMessage_quiet] quiet_trans [OF forwardMachineMessage_quiet] split: WSRole.splits)
  have ans: "did_quiet cs s cs' s'" if "answer env c msg cs s = (k, cs', s')" for msg
    using that by (auto simp: did_quiet_def dest: quiet_answer)
  have same: "did_quiet cs s cs s" by (simp add: did_quiet_def)
  from assms show ?thesis
    unfolding receive_def
    using init ack fin fwd ans same handle_register_effect [of env c raw cs s k cs' s']
      handle_response_effect [of env c raw cs s k cs' s']
    by (auto split: if_splits option.splits)
qed


section \<open>All connections\<close>

text \<open>
  The open connections with their variables, and whether their loop has ended with the deferred
  function still to run.
\<close>

record world =
  wConns :: "nat \<Rightarrow> (conn_state \<times> bool) option"
  wRelay :: relay

text \<open>uuid.New: not Nil, and never seen before.\<close>

definition fresh_uuid :: "uuid \<Rightarrow> world \<Rightarrow> bool" where
  "fresh_uuid u w \<longleftrightarrow> u \<noteq> 0 \<and> map_of (hubClients (rHub (wRelay w))) u = None \<and>
     (\<forall>c cs b. wConns w c = Some (cs, b) \<longrightarrow> csClient cs \<noteq> u)"

text \<open>
  A connection opens; one frame of an open connection is handled; an open connection ends, by its
  loop or by a read error, and is cleaned up; another service writes to the database, where no
  machine changes its master.
\<close>

inductive relay_step :: "world \<Rightarrow> world \<Rightarrow> bool" where
  step_open: "wConns w c = None \<Longrightarrow> relay_step w (w\<lparr>wConns := (wConns w)(c \<mapsto> (new_conn, False))\<rparr>)"
| step_frame: "wConns w c = Some (cs, False) \<Longrightarrow> fresh_uuid (new_uuid env) w \<Longrightarrow>
    receive env c raw cs (wRelay w) = (k, cs', s') \<Longrightarrow>
    relay_step w \<lparr>wConns = (wConns w)(c \<mapsto> (cs', \<not> k)), wRelay = s'\<rparr>"
| step_close: "wConns w c = Some (cs, b) \<Longrightarrow>
    relay_step w \<lparr>wConns = (wConns w)(c := None), wRelay = cleanup env c cs (wRelay w)\<rparr>"
| step_db: "(\<And>m x. master_of (rDb (wRelay w)) m = Some x \<Longrightarrow> master_of d m = Some x) \<Longrightarrow>
    relay_step w (w\<lparr>wRelay := (wRelay w)\<lparr>rDb := d\<rparr>\<rparr>)"

definition relay_start :: "db \<Rightarrow> world" where
  "relay_start d = \<lparr>wConns = (\<lambda>_. None),
     wRelay = \<lparr>rHub = NewWSHub, rSessions = NewSessionRegistry, rDb = d, rLog = []\<rparr>\<rparr>"

inductive relay_reaches :: "db \<Rightarrow> world \<Rightarrow> bool" for d where
  relay_reaches_start: "relay_reaches d (relay_start d)"
| relay_reaches_step: "relay_reaches d w \<Longrightarrow> relay_step w w' \<Longrightarrow> relay_reaches d w'"

text \<open>The invariant: of the tables, of the sessions, of the machines, and of one connection.\<close>

definition tables_ok :: "relay \<Rightarrow> bool" where
  "tables_ok s \<longleftrightarrow> map_ok (rSessions s) \<and> map_ok (hubClients (rHub s)) \<and> map_ok (hubMachines (rHub s))"

definition sessions_ok :: "relay \<Rightarrow> bool" where
  "sessions_ok s \<longleftrightarrow> (\<forall>m e. map_of (rSessions s) m = Some e \<longrightarrow>
     (\<exists>cc. map_of (hubClients (rHub s)) (clientID e) = Some cc \<and>
        master_of (rDb s) m = Some (ClientMaster cc)))"

definition machines_ok :: "relay \<Rightarrow> bool" where
  "machines_ok s \<longleftrightarrow> (\<forall>m mc. map_of (hubMachines (rHub s)) m = Some mc \<longrightarrow>
     master_of (rDb s) m = Some (HubMaster mc))"

definition conn_ok :: "nat \<Rightarrow> conn_state \<Rightarrow> bool \<Rightarrow> relay \<Rightarrow> bool" where
  "conn_ok c cs closing s \<longleftrightarrow>
     (csClient cs \<noteq> 0 \<longrightarrow> (\<forall>cc. map_of (hubClients (rHub s)) (csClient cs) = Some cc \<longrightarrow>
        ClientConn cc = c \<and> ClientMaster cc = ConnMasterID (csClaims cs))) \<and>
     (csRole cs = RoleClient \<longrightarrow> csClient cs \<noteq> 0 \<and>
        (closing \<or> map_of (hubClients (rHub s)) (csClient cs) \<noteq> None)) \<and>
     (pendingNonce cs \<noteq> None \<longrightarrow> pendingMachine cs \<noteq> 0 \<longrightarrow>
        master_of (rDb s) (pendingMachine cs) = Some (pendingMaster cs)) \<and>
     (csRole cs = RoleMachine \<longrightarrow> master_of (rDb s) (csMachine cs) \<noteq> None)"

definition relay_inv :: "world \<Rightarrow> bool" where
  "relay_inv w \<longleftrightarrow> tables_ok (wRelay w) \<and> sessions_ok (wRelay w) \<and> machines_ok (wRelay w) \<and>
     (\<forall>c cs b. wConns w c = Some (cs, b) \<longrightarrow> conn_ok c cs b (wRelay w))"

lemma check_session_init_master:
  "check_session_init env claims msg d = Inr m \<Longrightarrow> master_of d m = Some (ConnMasterID claims)"
  by (auto simp: check_session_init_def dest: machine_row_master
      split: if_splits option.splits sum.splits repo_error.splits)


section \<open>Every step keeps the invariant\<close>

lemma conn_ok_cong:
  "hubClients (rHub s') = hubClients (rHub s) \<Longrightarrow> master_of (rDb s') = master_of (rDb s) \<Longrightarrow>
   conn_ok c cs b s' = conn_ok c cs b s"
  by (simp add: conn_ok_def)

lemma conn_ok_closing: "conn_ok c cs b s \<Longrightarrow> conn_ok c cs True s"
  by (auto simp: conn_ok_def)

lemma conn_ok_any: "conn_ok c cs False s \<Longrightarrow> conn_ok c cs b s"
  by (cases b) (auto intro: conn_ok_closing)

lemma quiet_keeps:
  "quiet s s' \<Longrightarrow> tables_ok s \<Longrightarrow> sessions_ok s \<Longrightarrow> machines_ok s \<Longrightarrow>
   tables_ok s' \<and> sessions_ok s' \<and> machines_ok s' \<and> conn_ok c cs b s' = conn_ok c cs b s"
  by (auto simp: quiet_def shrinks_def tables_ok_def sessions_ok_def machines_ok_def conn_ok_def)

text \<open>A frame's outcome for the tables and its connection, with the other connections undisturbed.\<close>

definition keeps :: "nat \<Rightarrow> conn_state \<Rightarrow> bool \<Rightarrow> relay \<Rightarrow> (nat \<Rightarrow> conn_state \<Rightarrow> bool \<Rightarrow> bool) \<Rightarrow> relay \<Rightarrow> bool" where
  "keeps c cs' b s others s' \<longleftrightarrow> tables_ok s' \<and> sessions_ok s' \<and> machines_ok s' \<and> conn_ok c cs' b s' \<and>
     (\<forall>c2 cs2 b2. others c2 cs2 b2 \<longrightarrow> conn_ok c2 cs2 b2 s \<longrightarrow> conn_ok c2 cs2 b2 s')"

lemma init_keeps:
  assumes "did_init env raw cs s cs' s'" "tables_ok s" "sessions_ok s" "machines_ok s" "conn_ok c cs False s"
  shows "keeps c cs' b s P s'"
proof -
  from assms(1) obtain msg x s1 where r: "csRole cs = RoleClient" and cs: "cs' = cs"
    and i: "handleSessionInit env (csClient cs) (csClaims cs) msg raw s = (x, s1)" and q: "quiet s1 s'"
    by (auto simp: did_init_def)
  note e = handleSessionInit_effect [OF i]
  from assms(5) r obtain cc where cc: "map_of (hubClients (rHub s)) (csClient cs) = Some cc"
    "ClientMaster cc = ConnMasterID (csClaims cs)" by (auto simp: conn_ok_def)
  have s1: "sessions_ok s1"
    unfolding sessions_ok_def
  proof (intro allI impI)
    fix m en assume en: "map_of (rSessions s1) m = Some en"
    from e en consider "map_of (rSessions s) m = Some en"
      | "check_session_init env (csClaims cs) msg (rDb s) = Inr m" "clientID en = csClient cs"
      by fastforce
    then show "\<exists>cc. map_of (hubClients (rHub s1)) (clientID en) = Some cc \<and>
        master_of (rDb s1) m = Some (ClientMaster cc)"
    proof cases
      case 1
      with assms(3) e show ?thesis by (simp add: sessions_ok_def)
    next
      case 2
      with cc e check_session_init_master show ?thesis by simp
    qed
  qed
  moreover have "tables_ok s1" "machines_ok s1" using assms(2,4) e by (simp_all add: tables_ok_def machines_ok_def)
  moreover have "conn_ok c2 cs2 b2 s1 = conn_ok c2 cs2 b2 s" for c2 cs2 b2
    using e by (simp add: conn_ok_def)
  ultimately show ?thesis
    using quiet_keeps [OF q] assms(5) cs conn_ok_any unfolding keeps_def by blast
qed

lemma ack_keeps:
  assumes "did_ack env raw cs s cs' s'" "tables_ok s" "sessions_ok s" "machines_ok s" "conn_ok c cs False s"
  shows "keeps c cs' b s P s'"
proof -
  from assms(1) obtain msg x s1 where cs: "cs' = cs"
    and i: "handleSessionAck env (csMachine cs) msg raw s = (x, s1)" and q: "quiet s1 s'"
    by (auto simp: did_ack_def)
  note e = handleSessionAck_effect [OF i]
  have "sessions_ok s1"
    using assms(3) e unfolding sessions_ok_def by metis
  moreover have "tables_ok s1" "machines_ok s1" using assms(2,4) e by (simp_all add: tables_ok_def machines_ok_def)
  moreover have "conn_ok c2 cs2 b2 s1 = conn_ok c2 cs2 b2 s" for c2 cs2 b2
    using e by (simp add: conn_ok_def)
  ultimately show ?thesis
    using quiet_keeps [OF q] assms(5) cs conn_ok_any unfolding keeps_def by blast
qed

lemma challenge_keeps:
  assumes "did_challenge cs s cs' s'" "tables_ok s" "sessions_ok s" "machines_ok s" "conn_ok c cs False s"
  shows "keeps c cs' b s P s'"
proof -
  from assms(1) have q: "quiet s s'" by (simp add: did_challenge_def)
  have "conn_ok c cs' False s"
    using assms(1,5) by (auto simp: did_challenge_def conn_ok_def dest: machine_row_master)
  with quiet_keeps [OF q assms(2-4)] conn_ok_any show ?thesis unfolding keeps_def by blast
qed

lemma client_keeps:
  assumes "did_client env c k cs s cs' s'" "tables_ok s" "sessions_ok s" "machines_ok s" "conn_ok c cs False s"
    and fresh: "new_uuid env \<noteq> 0" "map_of (hubClients (rHub s)) (new_uuid env) = None"
  shows "keeps c cs' (\<not> k) s (\<lambda>_ cs2 _. csClient cs2 \<noteq> new_uuid env) s'"
proof -
  let ?u = "new_uuid env"
  from assms(1) obtain claims where a: "csRole cs = RoleUnset"
    "cs' = cs\<lparr>csClient := ?u, csRole := RoleClient, csClaims := claims\<rparr>"
    "rDb s' = rDb s" "rSessions s' = rSessions s"
    and h: "rHub s' = (let h = RegisterClient ?u (ConnMasterID claims) (ConnFingerprint claims) c (rHub s)
                   in if k then h else UnregisterClient ?u h)"
    by (auto simp: did_client_def)
  have other: "map_of (hubClients (rHub s')) v = map_of (hubClients (rHub s)) v" if "v \<noteq> ?u" for v
    using h that by (simp add: RegisterClient_def UnregisterClient_def Let_def map_laws)
  have own: "map_of (hubClients (rHub s')) ?u = (if k then Some \<lparr>ClientMaster = ConnMasterID claims,
      ClientFingerprint = ConnFingerprint claims, ClientConn = c\<rparr> else None)"
    using h by (simp add: RegisterClient_def UnregisterClient_def Let_def map_laws)
  have mach: "hubMachines (rHub s') = hubMachines (rHub s)"
    using h by (simp add: RegisterClient_def UnregisterClient_def Let_def)
  have "tables_ok s'"
    using assms(2) a h mach
    by (auto simp: tables_ok_def RegisterClient_def UnregisterClient_def Let_def map_ok_put map_ok_del)
  moreover have "sessions_ok s'"
    unfolding sessions_ok_def
  proof (intro allI impI)
    fix m e assume "map_of (rSessions s') m = Some e"
    with a(4) assms(3) obtain cc where cc: "map_of (hubClients (rHub s)) (clientID e) = Some cc"
      "master_of (rDb s) m = Some (ClientMaster cc)" by (auto simp: sessions_ok_def)
    with fresh have "clientID e \<noteq> ?u" by auto
    with cc other a(3) show "\<exists>cc. map_of (hubClients (rHub s')) (clientID e) = Some cc \<and>
        master_of (rDb s') m = Some (ClientMaster cc)" by simp
  qed
  moreover have "machines_ok s'" using assms(4) a(3) mach by (simp add: machines_ok_def)
  moreover have "conn_ok c cs' (\<not> k) s'"
    using assms(5) a own fresh by (auto simp: conn_ok_def)
  moreover have "conn_ok c2 cs2 b2 s'" if "csClient cs2 \<noteq> ?u" "conn_ok c2 cs2 b2 s" for c2 cs2 b2
    using that other a(3) by (auto simp: conn_ok_def)
  ultimately show ?thesis unfolding keeps_def by blast
qed

lemma machine_keeps:
  assumes "did_machine c k cs s cs' s'" "tables_ok s" "sessions_ok s" "machines_ok s" "conn_ok c cs False s"
  shows "keeps c cs' b s P s'"
proof -
  let ?m = "pendingMachine cs"
  from assms(1) have p: "pendingNonce cs \<noteq> None" "?m \<noteq> 0" and ses: "rSessions s' = rSessions s"
    and cs: "cs' = cs\<lparr>csRole := RoleMachine, csMachine := ?m, pendingNonce := None,
                     pendingMachine := 0, pendingSignPub := []\<rparr>"
    and h: "rHub s' = (let h = snd (RegisterMachine ?m (pendingMaster cs) (pendingHostname cs) c (rHub s))
                      in if k then h else snd (UnregisterMachineIfCurrent ?m c h))"
    by (auto simp: did_machine_def)
  from assms(1) have db: "master_of (rDb s') = master_of (rDb s)"
    by (auto simp: did_machine_def dest: master_of_update)
  have cl: "hubClients (rHub s') = hubClients (rHub s)"
    using h by (auto simp: RegisterMachine_def UnregisterMachineIfCurrent_def UnregisterMachine_def Let_def
        split: option.splits)
  have mo: "master_of (rDb s) ?m = Some (pendingMaster cs)" using assms(5) p by (simp add: conn_ok_def)
  have "tables_ok s'"
    using assms(2) ses h
    by (auto simp: tables_ok_def RegisterMachine_def UnregisterMachineIfCurrent_def UnregisterMachine_def
        Let_def map_ok_put map_ok_del split: option.splits)
  moreover have "sessions_ok s'" using assms(3) ses db cl by (simp add: sessions_ok_def)
  moreover have "machines_ok s'"
    using assms(4) mo h db
    by (auto simp: machines_ok_def RegisterMachine_def UnregisterMachineIfCurrent_def UnregisterMachine_def
        Let_def map_laws split: option.splits if_splits)
  moreover have "conn_ok c cs' b s'" using assms(5) cs db cl mo by (auto simp: conn_ok_def)
  ultimately show ?thesis using conn_ok_cong [OF cl db] unfolding keeps_def by blast
qed

lemma frame_keeps:
  assumes "receive env c raw cs s = (k, cs', s')" "tables_ok s" "sessions_ok s" "machines_ok s"
    "conn_ok c cs False s" "new_uuid env \<noteq> 0" "map_of (hubClients (rHub s)) (new_uuid env) = None"
  shows "keeps c cs' (\<not> k) s (\<lambda>_ cs2 _. csClient cs2 \<noteq> new_uuid env) s'"
  using receive_effect [OF assms(1)]
proof (elim disjE conjE)
  assume "did_quiet cs s cs' s'"
  then have q: "cs' = cs" "quiet s s'" by (simp_all add: did_quiet_def)
  with quiet_keeps [OF q(2) assms(2-4)] conn_ok_any [OF assms(5)] show ?thesis by (simp add: keeps_def)
qed (rule init_keeps [OF _ assms(2-5)] ack_keeps [OF _ assms(2-5)] challenge_keeps [OF _ assms(2-5)]
    client_keeps [OF _ assms(2-7)] machine_keeps [OF _ assms(2-5)], assumption)+

text \<open>The deferred function.\<close>

lemma get_session_shrinks: "shrinks r (snd (GetSessionClient t m r))"
  using shrinks_get [of t m r] by (cases "GetSessionClient t m r") auto

lemma notify_session_end_quiet: "quiet s (notify_session_end env m s)"
  using get_session_shrinks [of "rSessions s" "now (base env)" m]
  by (auto simp: notify_session_end_def quiet_def Let_def split: prod.splits option.splits)

lemma cleanup_client:
  assumes "csRole cs = RoleClient" "csClient cs \<noteq> 0"
  shows "rHub (cleanup env c cs s) = UnregisterClient (csClient cs) (rHub s)"
    "rSessions (cleanup env c cs s) = EndSessionsForClient (csClient cs) (rSessions s)"
    "rDb (cleanup env c cs s) = rDb s"
  using assms by (simp_all add: cleanup_def)

lemma cleanup_other:
  assumes "csRole cs \<noteq> RoleClient"
  shows "rDb (cleanup env c cs s) = rDb s \<and> hubClients (rHub (cleanup env c cs s)) = hubClients (rHub s) \<and>
    (hubMachines (rHub (cleanup env c cs s)) = hubMachines (rHub s) \<or>
     hubMachines (rHub (cleanup env c cs s)) = map_del (csMachine cs) (hubMachines (rHub s))) \<and>
    shrinks (rSessions s) (rSessions (cleanup env c cs s))"
proof -
  have q: "quiet (notifyMachineStatus env a m h onl (s\<lparr>rHub := hub\<rparr>))
      (notify_session_end env m (notifyMachineStatus env a m h onl (s\<lparr>rHub := hub\<rparr>)))" for a m h onl hub
    by (rule notify_session_end_quiet)
  show ?thesis
    using assms q
    by (auto simp: cleanup_def Let_def UnregisterMachineIfCurrent_def UnregisterMachine_def quiet_def
        split: WSRole.splits option.splits prod.splits if_splits)
qed

lemma cleanup_keeps:
  assumes "tables_ok s" "sessions_ok s" "machines_ok s" "conn_ok c cs b s"
  shows "tables_ok (cleanup env c cs s) \<and> sessions_ok (cleanup env c cs s) \<and> machines_ok (cleanup env c cs s) \<and>
    (\<forall>c2 cs2 b2. c2 \<noteq> c \<longrightarrow> conn_ok c2 cs2 b2 s \<longrightarrow> conn_ok c2 cs2 b2 (cleanup env c cs s))"
proof (cases "csRole cs = RoleClient")
  case True
  with assms(4) have nz: "csClient cs \<noteq> 0" by (simp add: conn_ok_def)
  note cl = cleanup_client [OF True nz]
  have ses: "map_of (EndSessionsForClient (csClient cs) (rSessions s)) m = Some e \<longleftrightarrow>
      map_of (rSessions s) m = Some e \<and> clientID e \<noteq> csClient cs" for m e
  proof -
    have "map_ok (rSessions s)" using assms(1) by (simp add: tables_ok_def)
    from map_of_end_client [OF this] show ?thesis by (simp split: option.splits) blast
  qed
  have "conn_ok c2 cs2 b2 (cleanup env c cs s)" if "c2 \<noteq> c" "conn_ok c2 cs2 b2 s" for c2 cs2 b2
    using that assms(4) nz True by (auto simp: conn_ok_def cl UnregisterClient_def map_laws)
  moreover have "tables_ok (cleanup env c cs s)"
    using assms(1) by (simp add: tables_ok_def cl UnregisterClient_def map_ok_del map_ok_end_client)
  moreover have "sessions_ok (cleanup env c cs s)"
    using assms(2) by (simp add: sessions_ok_def cl ses UnregisterClient_def map_laws)
  moreover have "machines_ok (cleanup env c cs s)"
    using assms(3) by (simp add: machines_ok_def cl UnregisterClient_def)
  ultimately show ?thesis by blast
next
  case False
  note cl = cleanup_other [OF this, of env c s]
  have m: "map_of (hubMachines (rHub (cleanup env c cs s))) m = Some mc \<Longrightarrow>
      map_of (hubMachines (rHub s)) m = Some mc" for m mc
    using cl by (auto simp: map_laws split: if_splits)
  from cl have "tables_ok (cleanup env c cs s)"
    using assms(1) by (auto simp: tables_ok_def map_ok_del shrinks_def)
  moreover from cl have "sessions_ok (cleanup env c cs s)"
    using assms(2) by (auto simp: sessions_ok_def shrinks_def)
  moreover from cl m have "machines_ok (cleanup env c cs s)"
    using assms(3) by (auto simp: machines_ok_def)
  ultimately show ?thesis using cl by (simp add: conn_ok_def)
qed

lemma relay_step_inv: "relay_step w w' \<Longrightarrow> relay_inv w \<Longrightarrow> relay_inv w'"
proof (induction rule: relay_step.induct)
  case (step_open w c)
  then show ?case by (auto simp: relay_inv_def conn_ok_def new_conn_def)
next
  case (step_frame w c cs env raw k cs' s')
  from step_frame.prems have i: "tables_ok (wRelay w)" "sessions_ok (wRelay w)" "machines_ok (wRelay w)"
    "conn_ok c cs False (wRelay w)" using step_frame.hyps(1) by (auto simp: relay_inv_def)
  have f: "new_uuid env \<noteq> 0" "map_of (hubClients (rHub (wRelay w))) (new_uuid env) = None"
    "\<And>c cs b. wConns w c = Some (cs, b) \<Longrightarrow> csClient cs \<noteq> new_uuid env"
    using step_frame.hyps(2) by (auto simp: fresh_uuid_def)
  have "keeps c cs' (\<not> k) (wRelay w) (\<lambda>_ cs2 _. csClient cs2 \<noteq> new_uuid env) s'"
    by (rule frame_keeps [OF step_frame.hyps(3) i f(1,2)])
  with f(3) step_frame.prems show ?case by (auto simp: relay_inv_def keeps_def)
next
  case (step_close w c cs b env)
  then have i: "tables_ok (wRelay w)" "sessions_ok (wRelay w)" "machines_ok (wRelay w)"
    "conn_ok c cs b (wRelay w)" by (auto simp: relay_inv_def)
  from cleanup_keeps [OF i, of env] step_close.prems show ?case by (auto simp: relay_inv_def)
next
  case (step_db w d)
  then show ?case
    by (auto simp: relay_inv_def tables_ok_def sessions_ok_def machines_ok_def conn_ok_def) (metis option.exhaust)+
qed

lemma relay_reaches_inv: "relay_reaches d w \<Longrightarrow> relay_inv w"
proof (induction rule: relay_reaches.induct)
  case relay_reaches_start
  then show ?case
    by (simp add: relay_inv_def relay_start_def tables_ok_def sessions_ok_def machines_ok_def
        NewWSHub_def NewSessionRegistry_def)
next
  case (relay_reaches_step w w')
  then show ?case using relay_step_inv by blast
qed


section \<open>What a frame puts on the wire\<close>

text \<open>c' is the other end of a session between a client and a machine of one master.\<close>

definition same_master :: "conn_state \<Rightarrow> relay \<Rightarrow> nat \<Rightarrow> bool" where
  "same_master cs s c' \<longleftrightarrow>
     (\<exists>m master. master_of (rDb s) m = Some master \<and>
        (csRole cs = RoleClient \<and> ConnMasterID (csClaims cs) = master \<and>
           (\<exists>mc. GetMachine m (rHub s) = Some mc \<and> HubConn mc = c' \<and> HubMaster mc = master) \<or>
         csRole cs = RoleMachine \<and> csMachine cs = m \<and>
           (\<exists>i cc. GetClient i (rHub s) = Some cc \<and> ClientConn cc = c' \<and> ClientMaster cc = master)))"

definition logs :: "(ws_effect \<Rightarrow> bool) \<Rightarrow> relay \<Rightarrow> relay \<Rightarrow> bool" where
  "logs P s s' \<longleftrightarrow> (\<exists>es. rLog s' = rLog s @ es \<and> (\<forall>e\<in>set es. P e))"

lemma logs_refl [simp]: "rLog s' = rLog s \<Longrightarrow> logs P s s'"
  by (simp add: logs_def)

lemma logs_put: "logs P s s' \<Longrightarrow> P e \<Longrightarrow> logs P s (put_log e s')"
  by (auto simp: logs_def)

lemma logs_hub: "logs P s s' \<Longrightarrow> logs P s (s'\<lparr>rHub := h\<rparr>)"
  by (simp add: logs_def)

lemma logs_trans: "logs P s t \<Longrightarrow> logs P t u \<Longrightarrow> logs P s u"
  unfolding logs_def by (metis append.assoc set_append UnE)

definition relayed_ok :: "string \<Rightarrow> (nat \<Rightarrow> bool) \<Rightarrow> ws_effect \<Rightarrow> bool" where
  "relayed_ok raw to e \<longleftrightarrow> (\<forall>c r. e = Sent c (RawFrame r) \<longrightarrow> r = raw \<and> to c)"

lemma relayed_other [simp]:
  "relayed_ok raw to (Closed c)" "relayed_ok raw to (Pushed i h)" "relayed_ok raw to (Sent c (ErrorFrame t))"
  "relayed_ok raw to (Sent c (ChallengeFrame t))" "relayed_ok raw to (Sent c (RegisteredClientFrame t))"
  "relayed_ok raw to (Sent c (RegisteredMachineFrame t))" "relayed_ok raw to (Sent c (StatusFrame b t u))"
  "relayed_ok raw to (Sent c (RawFrame r)) \<longleftrightarrow> r = raw \<and> to c"
  by (auto simp: relayed_ok_def)

lemma logs_write: "relayed_ok raw to (Sent c f) \<Longrightarrow> logs (relayed_ok raw to) s (snd (ws_write env c f s))"
  by (auto simp: ws_write_def intro: logs_put)

lemma logs_answer: "answer env c t cs s = (k, cs', s') \<Longrightarrow> logs (relayed_ok raw to) s s'"
  by (auto simp: answer_def sendWSError_def ws_write_def intro: logs_put split: if_splits)

lemma logs_answer_result:
  "answer_result env c cs res = (k, cs', s') \<Longrightarrow> logs (relayed_ok raw to) s (snd res) \<Longrightarrow>
   logs (relayed_ok raw to) s s'"
  by (auto simp: answer_result_def dest: logs_answer [where raw = raw and to = to] intro: logs_trans
      split: prod.splits option.splits)

lemma logs_send_all: "logs (relayed_ok raw to) s (send_all env (StatusFrame b t u) cs s)"
proof (induction cs arbitrary: s)
  case (Cons x cs)
  show ?case using logs_trans [OF logs_write Cons.IH] by simp
qed simp


lemma same_master_client:
  assumes "machines_ok s" "csRole cs = RoleClient" "master_of (rDb s) m = Some (ConnMasterID (csClaims cs))"
    "map_of (hubMachines (rHub s)) m = Some mc"
  shows "same_master cs s (HubConn mc)"
  using assms unfolding same_master_def machines_ok_def GetMachine_def by fastforce

lemma owned_machine:
  assumes "sessions_ok s" "conn_ok c cs False s" "csRole cs = RoleClient"
    "live_session t (rSessions s) m = Some (csClient cs, a)"
  shows "master_of (rDb s) m = Some (ConnMasterID (csClaims cs))"
proof -
  from assms(4) obtain e where "map_of (rSessions s) m = Some e" "clientID e = csClient cs"
    by (auto simp: live_session_def split: option.splits if_splits)
  with assms(1) obtain cc where "map_of (hubClients (rHub s)) (csClient cs) = Some cc"
    "master_of (rDb s) m = Some (ClientMaster cc)" unfolding sessions_ok_def by metis
  with assms(2,3) show ?thesis by (simp add: conn_ok_def)
qed

lemma same_master_init:
  "machines_ok s \<Longrightarrow> csRole cs = RoleClient \<Longrightarrow> map_of (hubMachines (rHub s)) m = Some mc \<Longrightarrow>
   check_session_init env (csClaims cs) msg (rDb s) = Inr m \<Longrightarrow> same_master cs s (HubConn mc)"
  by (rule same_master_client [OF _ _ check_session_init_master])

lemma same_master_owner:
  "machines_ok s \<Longrightarrow> csRole cs = RoleClient \<Longrightarrow> map_of (hubMachines (rHub s)) m = Some mc \<Longrightarrow>
   live_session t (rSessions s) m = Some (csClient cs, a) \<Longrightarrow> sessions_ok s \<Longrightarrow> conn_ok c cs False s \<Longrightarrow>
   same_master cs s (HubConn mc)"
  by (rule same_master_client [OF _ _ owned_machine])

lemma same_master_machine:
  assumes "sessions_ok s" "csRole cs = RoleMachine"
    "live_session t (rSessions s) (csMachine cs) = Some (i, a)" "map_of (hubClients (rHub s)) i = Some cc"
  shows "same_master cs s (ClientConn cc)"
proof -
  from assms(3) obtain e where "map_of (rSessions s) (csMachine cs) = Some e" "clientID e = i"
    by (auto simp: live_session_def split: option.splits if_splits)
  with assms(1,4) have "master_of (rDb s) (csMachine cs) = Some (ClientMaster cc)"
    unfolding sessions_ok_def by fastforce
  with assms(2,4) show ?thesis unfolding same_master_def GetClient_def by auto
qed

lemma get_active_live:
  "GetActiveSessionClient t m r = (Some i, r') \<Longrightarrow> live_session t r m = Some (i, True)"
  using registry.active_client_live [of t m r] by (auto split: option.splits bool.splits)

lemma get_session_live: "GetSessionClient t m r = (Some i, r') \<Longrightarrow> \<exists>a. live_session t r m = Some (i, a)"
  using registry.session_client_live [of t m r] by (cases "live_session t r m") auto

lemma logs_init:
  assumes "machines_ok s" "csRole cs = RoleClient"
  shows "logs (relayed_ok raw (same_master cs s)) s
    (snd (handleSessionInit env (csClient cs) (csClaims cs) msg raw s))"
  using assms
  by (auto simp: handleSessionInit_def Let_def write_eq GetMachine_def
      intro!: logs_put intro: same_master_init
      split: sum.splits option.splits prod.splits bool.splits)

lemma logs_ack:
  assumes "sessions_ok s" "csRole cs = RoleMachine"
  shows "logs (relayed_ok raw (same_master cs s)) s (snd (handleSessionAck env (csMachine cs) msg raw s))"
  using assms
  by (auto simp: handleSessionAck_def Let_def write_eq GetClient_def intro!: logs_put
      intro: same_master_machine dest!: get_session_live
      split: sum.splits option.splits prod.splits bool.splits)

lemma logs_end:
  assumes "sessions_ok s" "machines_ok s" "conn_ok c cs False s" "csRole cs = RoleClient"
  shows "logs (relayed_ok raw (same_master cs s)) s (snd (handleSessionEnd env (csClient cs) msg raw s))"
  using assms
  by (auto simp: handleSessionEnd_def Let_def ws_write_def GetMachine_def quiet_def intro!: logs_put
      intro: same_master_owner dest!: owns_active_eq
      split: option.splits prod.splits bool.splits)

lemma logs_forward_client:
  assumes "sessions_ok s" "machines_ok s" "conn_ok c cs False s" "csRole cs = RoleClient"
  shows "logs (relayed_ok raw (same_master cs s)) s (snd (forwardClientMessage env raw (csClient cs) s))"
  using assms
  by (auto simp: forwardClientMessage_def Let_def write_eq GetMachine_def quiet_def intro!: logs_put
      intro: same_master_owner dest!: owns_active_eq
      split: option.splits prod.splits bool.splits)

lemma logs_push: "logs (relayed_ok raw to) s (tryPushNotification env raw m s)"
  by (auto simp: tryPushNotification_def intro: logs_put split: option.splits)

lemma logs_forward_machine:
  assumes "sessions_ok s" "csRole cs = RoleMachine"
  shows "logs (relayed_ok raw (same_master cs s)) s (snd (forwardMachineMessage env raw (csMachine cs) s))"
proof -
  let ?s = "tryPushNotification env raw (csMachine cs) s"
  have "logs (relayed_ok raw (same_master cs s)) ?s (snd (forwardMachineMessage env raw (csMachine cs) s))"
    using assms
    by (auto simp: forwardMachineMessage_def Let_def write_eq GetClient_def intro!: logs_put
        intro: same_master_machine dest!: get_active_live
        split: sum.splits option.splits prod.splits bool.splits)
  with logs_push show ?thesis by (rule logs_trans)
qed

lemma logs_register:
  assumes "handle_register env c raw cs s = (k, cs', s')"
  shows "logs (relayed_ok raw to) s s'"
  using assms
  by (auto simp: handle_register_def register_machine_def register_client_def write_eq Let_def
      intro!: logs_put dest: logs_answer [where raw = raw and to = to]
      split: if_splits option.splits sum.splits prod.splits bool.splits WSRole.splits)

lemma logs_complete:
  assumes "complete_machine env c cs s = (k, cs', s')"
  shows "logs (relayed_ok raw to) s s'"
proof -
  have n: "logs (relayed_ok raw to) s (notifyMachineStatus env a m h onl t)" if "logs (relayed_ok raw to) s t" for a m h onl t
    using logs_trans [OF that logs_send_all] by (simp add: notifyMachineStatus_def)
  have "logs (relayed_ok raw to) s (s\<lparr>rDb := d, rHub := h\<rparr>)" for d h by simp
  then show ?thesis
    using assms
    by (auto simp: complete_machine_def sendWSError_def ws_write_def Let_def intro!: logs_put logs_hub n
      split: if_splits option.splits sum.splits prod.splits bool.splits)
qed

lemma logs_response:
  "handle_response env c raw cs s = (k, cs', s') \<Longrightarrow> logs (relayed_ok raw to) s s'"
  by (auto simp: handle_response_def dest: logs_complete logs_answer [where raw = raw and to = to]
      split: if_splits option.splits)


lemma receive_logs:
  assumes "receive env c raw cs s = (k, cs', s')" "sessions_ok s" "machines_ok s" "conn_ok c cs False s"
  shows "logs (relayed_ok raw (same_master cs s)) s s'"
proof -
  let ?L = "logs (relayed_ok raw (same_master cs s)) s s'"
  have init: ?L if "handle_init env c raw cs s = (k, cs', s')"
    using that
    by (auto simp: handle_init_def dest: logs_answer logs_answer_result [OF _ logs_init [OF assms(3)]] split: if_splits option.splits)
  have ack: ?L if "handle_ack env c raw cs s = (k, cs', s')"
    using that
    by (auto simp: handle_ack_def dest: logs_answer logs_answer_result [OF _ logs_ack [OF assms(2)]] split: if_splits option.splits)
  have fin: ?L if "handle_end env c raw cs s = (k, cs', s')"
    using that
    by (auto simp: handle_end_def dest: logs_answer logs_answer_result [OF _ logs_end [OF assms(2-4)]] split: if_splits option.splits)
  have fwd: ?L if "handle_forward env c raw cs s = (k, cs', s')"
    using that
    by (auto simp: handle_forward_def dest: logs_answer
        logs_answer_result [OF _ logs_forward_client [OF assms(2-4)]]
        logs_answer_result [OF _ logs_forward_machine [OF assms(2)]] split: WSRole.splits)
  from assms(1) show ?thesis
    unfolding receive_def
    using init ack fin fwd logs_register [of env c raw cs s k cs' s']
      logs_response [of env c raw cs s k cs' s']
    by (auto dest: logs_answer split: if_splits option.splits)
qed

section \<open>Properties\<close>

text \<open>
  C7: the relay never carries a frame from one master's devices to another's.  In every reachable
  state, whatever frame a connection sends, every relayed frame that results is that very frame, and
  it goes either from a client to the registered connection of a machine that belongs to the master
  the client's connect token was issued for, or from a machine to a registered client of the
  machine's master.
\<close>

theorem frames_stay_within_a_master:
  assumes "relay_reaches d w" and "wConns w c = Some (cs, False)"
    and "receive env c raw cs (wRelay w) = (k, cs', s')"
    and "rLog s' = rLog (wRelay w) @ es" and "Sent c' (RawFrame r) \<in> set es"
  shows "r = raw \<and> (\<exists>m master. master_of (rDb (wRelay w)) m = Some master \<and>
    (csRole cs = RoleClient \<and> ConnMasterID (csClaims cs) = master \<and>
       (\<exists>mc. GetMachine m (rHub (wRelay w)) = Some mc \<and> HubConn mc = c' \<and> HubMaster mc = master) \<or>
     csRole cs = RoleMachine \<and> csMachine cs = m \<and>
       (\<exists>i cc. GetClient i (rHub (wRelay w)) = Some cc \<and> ClientConn cc = c' \<and> ClientMaster cc = master)))"
proof -
  from relay_reaches_inv [OF assms(1)] assms(2)
  have "sessions_ok (wRelay w)" "machines_ok (wRelay w)" "conn_ok c cs False (wRelay w)"
    by (auto simp: relay_inv_def)
  from receive_logs [OF assms(3) this] assms(4,5)
  have "r = raw \<and> same_master cs (wRelay w) c'" by (auto simp: logs_def)
  then show ?thesis unfolding same_master_def .
qed

text \<open>
  in every reachable state a session joins a machine with a client that is still registered and
  belongs to the machine's master: no session outlives its client's registration, and none crosses
  masters.
\<close>

theorem sessions_join_one_master:
  assumes "relay_reaches d w" and "map_of (rSessions (wRelay w)) m = Some e"
  shows "\<exists>cc. GetClient (clientID e) (rHub (wRelay w)) = Some cc \<and>
    master_of (rDb (wRelay w)) m = Some (ClientMaster cc)"
  using relay_reaches_inv [OF assms(1)] assms(2)
  unfolding relay_inv_def sessions_ok_def GetClient_def by blast

text \<open>
  C17: a session becomes active only by a frame on the machine's own connection that carries an
  acknowledgement signed with the machine's key, and it stays with the client that began it.
\<close>

theorem activation_needs_the_machines_signature:
  assumes "receive env c raw cs s = (k, cs', s')"
    and "map_of (rSessions s') m = Some e" and "sessState e = Active" and "map_of (rSessions s) m \<noteq> Some e"
  shows "csRole cs = RoleMachine \<and> csMachine cs = m \<and>
    (\<exists>e0. map_of (rSessions s) m = Some e0 \<and> clientID e = clientID e0) \<and>
    (\<exists>msg row sig. dec_ack env raw = Some msg \<and> machines_FindByID (rDb s) m = Inr row \<and>
       b64_decode (base env) (AckSignature msg) = Some sig \<and>
       VerifySignature (base env) (MachineSignPub row)
         (BuildSessionAckMessage (show_uuid (base env) m) (AckEphemeralPub msg)) sig)"
  using receive_effect [OF assms(1)]
proof (elim disjE conjE)
  assume "did_init env raw cs s cs' s'"
  then obtain msg x s1 where "handleSessionInit env (csClient cs) (csClaims cs) msg raw s = (x, s1)" "quiet s1 s'"
    by (auto simp: did_init_def)
  with handleSessionInit_effect [of env "csClient cs" "csClaims cs" msg raw s x s1] assms(2-4)
  show ?thesis by (fastforce simp: quiet_def shrinks_def)
next
  assume "did_ack env raw cs s cs' s'"
  then obtain msg x s1 where i: "csRole cs = RoleMachine" "dec_ack env raw = Some msg"
    "handleSessionAck env (csMachine cs) msg raw s = (x, s1)" "quiet s1 s'"
    by (auto simp: did_ack_def)
  with assms(2) have "map_of (rSessions s1) m = Some e" by (auto simp: quiet_def shrinks_def)
  with handleSessionAck_effect [OF i(3)] assms(4)
  have "m = csMachine cs" "ack_signed env (rDb s) m msg"
    "\<exists>e0. map_of (rSessions s) m = Some e0 \<and> clientID e = clientID e0" by auto
  with i show ?thesis unfolding ack_signed_def by blast
qed (use assms(2,4) in \<open>auto simp: did_quiet_def did_challenge_def did_client_def did_machine_def quiet_def shrinks_def\<close>)

lemma machine_token_key:
  assumes "VerifyMachineToken env d token = Inr tok"
    "masterKeys_FindByMasterAndFingerprint d (MachMasterID tok) (MachFingerprint tok) = Inr key"
  shows "KeyRevokedAt key = None"
  using assms
  by (auto simp: VerifyMachineToken_def verifySignature_def
      split: sum.splits prod.splits list.splits if_splits option.splits)

lemma check_session_init_sound:
  assumes "check_session_init env claims msg d = Inr m"
  shows "\<exists>row tok sig. VerifyMachineToken (base env) d (InitMachineToken msg) = Inr tok \<and>
    MachMachineID tok = m \<and> MachMasterID tok = ConnMasterID claims \<and>
    MachFingerprint tok = ConnFingerprint claims \<and>
    machines_FindByID d m = Inr row \<and> MachineRevokedAt row = None \<and> MachineMaster row = ConnMasterID claims \<and>
    b64_decode (base env) (InitSignature msg) = Some sig \<and>
    master_signed (base env) d (ConnMasterID claims) (ConnFingerprint claims)
      (BuildSessionInitMessage (show_uuid (base env) m) (InitEphemeralPub msg)) sig"
proof -
  from assms obtain tok row key sig where t: "VerifyMachineToken (base env) d (InitMachineToken msg) = Inr tok"
    "MachMachineID tok = m" "MachMasterID tok = ConnMasterID claims" "MachFingerprint tok = ConnFingerprint claims"
    "machines_FindByID d m = Inr row" "MachineRevokedAt row = None" "MachineMaster row = ConnMasterID claims"
    "b64_decode (base env) (InitSignature msg) = Some sig"
    and k: "masterKeys_FindByMasterAndFingerprint d (ConnMasterID claims) (ConnFingerprint claims) = Inr key"
    and v: "VerifySignature (base env) (MasterSignPub key)
      (BuildSessionInitMessage (show_uuid (base env) m) (InitEphemeralPub msg)) sig"
    by (auto simp: check_session_init_def split: if_splits option.splits sum.splits repo_error.splits)
  from machine_token_key [OF t(1)] t k have "KeyRevokedAt key = None" by simp
  with k v have "master_signed (base env) d (ConnMasterID claims) (ConnFingerprint claims)
      (BuildSessionInitMessage (show_uuid (base env) m) (InitEphemeralPub msg)) sig"
    unfolding master_signed_def masterKeys_FindByMasterAndFingerprint_def by (blast dest: select_one_Inr)
  with t show ?thesis by blast
qed

text \<open>
  C16: a session begins only by a registered client's frame, for itself, with a valid machine token
  for that machine whose master and key are those of the client's connect token, for a machine of that
  master that is not revoked, and with the key exchange signed by that same key, which is not revoked.
\<close>

theorem session_begins_authorized:
  assumes "receive env c raw cs s = (k, cs', s')"
    and "map_of (rSessions s') m = Some e" and "sessState e = Pending" and "map_of (rSessions s) m \<noteq> Some e"
  shows "csRole cs = RoleClient \<and> clientID e = csClient cs \<and>
    (\<exists>msg row tok sig. dec_init env raw = Some msg \<and>
       VerifyMachineToken (base env) (rDb s) (InitMachineToken msg) = Inr tok \<and>
       MachMachineID tok = m \<and> MachMasterID tok = ConnMasterID (csClaims cs) \<and>
       MachFingerprint tok = ConnFingerprint (csClaims cs) \<and>
       machines_FindByID (rDb s) m = Inr row \<and> MachineRevokedAt row = None \<and>
       MachineMaster row = ConnMasterID (csClaims cs) \<and>
       b64_decode (base env) (InitSignature msg) = Some sig \<and>
       master_signed (base env) (rDb s) (ConnMasterID (csClaims cs)) (ConnFingerprint (csClaims cs))
         (BuildSessionInitMessage (show_uuid (base env) m) (InitEphemeralPub msg)) sig)"
  using receive_effect [OF assms(1)]
proof (elim disjE conjE)
  assume "did_init env raw cs s cs' s'"
  then obtain msg x s1 where i: "csRole cs = RoleClient" "dec_init env raw = Some msg"
    "handleSessionInit env (csClient cs) (csClaims cs) msg raw s = (x, s1)" "quiet s1 s'"
    by (auto simp: did_init_def)
  with assms(2) have "map_of (rSessions s1) m = Some e" by (auto simp: quiet_def shrinks_def)
  with handleSessionInit_effect [OF i(3)] assms(4)
  have "check_session_init env (csClaims cs) msg (rDb s) = Inr m \<and>
    e = \<lparr>clientID = csClient cs, sessState = Pending, createdAt = now (base env)\<rparr>" by blast
  with i check_session_init_sound [of env "csClaims cs" msg "rDb s" m] show ?thesis by simp
next
  assume "did_ack env raw cs s cs' s'"
  then obtain msg x s1 where i: "handleSessionAck env (csMachine cs) msg raw s = (x, s1)" "quiet s1 s'"
    by (auto simp: did_ack_def)
  with assms(2) have "map_of (rSessions s1) m = Some e" by (auto simp: quiet_def shrinks_def)
  with handleSessionAck_effect [OF i(1)] assms(4) have "sessState e = Active" by blast
  with assms(3) show ?thesis by simp
qed (use assms(2,4) in \<open>auto simp: did_quiet_def did_challenge_def did_client_def did_machine_def quiet_def shrinks_def\<close>)


text \<open>
  a machine's registration changes hands only by a frame on the connection that takes it over,
  which answers the connection's pending challenge with a signature of the machine's key over the
  nonce; the registration then names the machine's master and this connection.
\<close>

theorem machine_registers_by_signing_the_nonce:
  assumes "receive env c raw cs s = (k, cs', s')"
    and "GetMachine m (rHub s') = Some mc" and "GetMachine m (rHub s) \<noteq> Some mc"
  shows "m = pendingMachine cs \<and> HubConn mc = c \<and> HubMaster mc = pendingMaster cs \<and>
    csRole cs' = RoleMachine \<and> csMachine cs' = m \<and> pendingNonce cs' = None \<and>
    (\<exists>nonce msg sig. pendingNonce cs = Some nonce \<and> dec_response env raw = Some msg \<and>
       b64_decode (base env) (RespSignature msg) = Some sig \<and>
       VerifySignature (base env) (pendingSignPub cs)
         (BuildMachineAuthMessage (show_uuid (base env) m) (b64_encode (base env) nonce)) sig)"
  using receive_effect [OF assms(1)]
proof (elim disjE conjE)
  assume "did_init env raw cs s cs' s'"
  then show ?thesis
    using assms(2,3) handleSessionInit_effect unfolding did_init_def quiet_def by metis
next
  assume "did_ack env raw cs s cs' s'"
  then show ?thesis
    using assms(2,3) handleSessionAck_effect unfolding did_ack_def quiet_def by metis
next
  assume d: "did_machine c k cs s cs' s'" and sig: "challenge_signed env raw cs"
  have "m = pendingMachine cs \<and> HubConn mc = c \<and> HubMaster mc = pendingMaster cs"
    using d assms(2,3)
    by (auto simp: did_machine_def GetMachine_def RegisterMachine_def UnregisterMachineIfCurrent_def
        UnregisterMachine_def Let_def map_laws split: if_splits option.splits)
  with d sig show ?thesis by (auto simp: did_machine_def challenge_signed_def)
qed (use assms(2,3) in \<open>auto simp: did_quiet_def did_challenge_def did_client_def quiet_def GetMachine_def
    RegisterClient_def UnregisterClient_def Let_def split: if_splits\<close>)

text \<open>
  forwarding a client's message either hands that very frame, and nothing else, to the connected
  machine it names, and then the client owns the machine's active session; or it reports an error
  and sends nothing, an unauthorized session exactly when the client does not own an active session
  of the machine, an unconnected machine only when the machine's connection is missing or takes no
  write.
\<close>

theorem forwardClientMessage_delivers_or_refuses:
  "(case forwardClientMessage env raw i s of
      (None, s') \<Rightarrow> \<exists>msg m mc. dec_encrypted env raw = Some msg \<and> parse_uuid (base env) (EncMachineID msg) = Some m \<and>
        live_session (now (base env)) (rSessions s) m = Some (i, True) \<and>
        GetMachine m (rHub s) = Some mc \<and> rLog s' = rLog s @ [Sent (HubConn mc) (RawFrame raw)] \<and>
        rHub s' = rHub s
    | (Some ErrUnauthorizedSession, s') \<Rightarrow> rLog s' = rLog s \<and>
        (\<exists>msg m. dec_encrypted env raw = Some msg \<and> parse_uuid (base env) (EncMachineID msg) = Some m \<and>
           live_session (now (base env)) (rSessions s) m \<noteq> Some (i, True))
    | (Some ErrMachineNotConnected, s') \<Rightarrow> rLog s' = rLog s \<and>
        (\<exists>msg m. dec_encrypted env raw = Some msg \<and> parse_uuid (base env) (EncMachineID msg) = Some m \<and>
           live_session (now (base env)) (rSessions s) m = Some (i, True) \<and>
           (GetMachine m (rHub s) = None \<or>
            (\<exists>mc. GetMachine m (rHub s) = Some mc \<and> writable env (HubConn mc) = False)))
    | (Some ErrInvalidRequest, s') \<Rightarrow> s' = s \<and>
        (case dec_encrypted env raw of None \<Rightarrow> True
         | Some msg \<Rightarrow> EncMachineID msg = [] \<or> parse_uuid (base env) (EncMachineID msg) = None)
    | (Some _, s') \<Rightarrow> False)"
  by (auto simp: forwardClientMessage_def write_eq quiet_def dest!: owns_active_eq
      split: option.splits prod.splits bool.splits)


section \<open>A run\<close>

text \<open>
  A client on connection 10 and a machine on connection 11 register, the client begins a session and
  the machine acknowledges it.
\<close>

definition demo_ws :: "uuid \<Rightarrow> WSRole \<Rightarrow> ws_env" where
  "demo_ws u role = \<lparr>base = demo_env, writable = (\<lambda>_. True), new_uuid = u, new_nonce = Some ''n'',
     bandwidth_ok = True, dec_type = Some,
     dec_register = (\<lambda>_. Some \<lparr>RegType = ''register'', RegRole = role, RegMachineID = ''2'', RegHostname = ''h'',
       RegConnectToken = demo_connect_token\<rparr>),
     dec_response = (\<lambda>_. Some \<lparr>RespType = ''challengeResponse'', RespSignature = demo_sig\<rparr>),
     dec_init = (\<lambda>_. Some \<lparr>InitType = ''session-init'', InitMachineID = ''2'',
       InitMachineToken = demo_machine_token, InitEphemeralPub = ''e'', InitSignature = demo_sig, InitForce = False\<rparr>),
     dec_ack = (\<lambda>_. Some \<lparr>AckType = ''session-ack'', AckMachineID = ''2'', AckEphemeralPub = ''f'',
       AckSignature = demo_sig\<rparr>),
     dec_end = (\<lambda>_. None), dec_encrypted = (\<lambda>_. Some \<lparr>EncMachineID = ''2'', EncHint = None\<rparr>)\<rparr>"

definition demo_client :: conn_state where
  "demo_client = new_conn\<lparr>csClient := 7, csRole := RoleClient,
     csClaims := \<lparr>ConnMasterID = 1, ConnFingerprint = ''k'', ConnExpiresAt = go_unix 9\<rparr>\<rparr>"

definition demo_pending :: "conn_state \<Rightarrow> conn_state" where
  "demo_pending cs = cs\<lparr>pendingNonce := Some ''n'', pendingMachine := 2, pendingMaster := 1,
     pendingSignPub := replicate 32 CHR ''q'', pendingHostname := ''h''\<rparr>"

definition demo_joined :: "conn_state \<Rightarrow> conn_state" where
  "demo_joined cs = cs\<lparr>csRole := RoleMachine, csMachine := 2, pendingNonce := None, pendingMachine := 0,
     pendingSignPub := []\<rparr>"

definition demo_relay :: "nat option \<Rightarrow> nat option \<Rightarrow> registry \<Rightarrow> ws_effect list \<Rightarrow> relay" where
  "demo_relay c m r l = \<lparr>rHub = \<lparr>hubClients = (case c of None \<Rightarrow> [] | Some c \<Rightarrow>
       [(7, \<lparr>ClientMaster = 1, ClientFingerprint = ''k'', ClientConn = c\<rparr>)]),
     hubMachines = (case m of None \<Rightarrow> [] | Some c \<Rightarrow> [(2, \<lparr>HubMaster = 1, HubHostname = ''h'', HubConn = c\<rparr>)])\<rparr>,
     rSessions = r, rDb = demo_db, rLog = l\<rparr>"

lemmas run_simps =
  demo_ws_def demo_client_def demo_pending_def demo_joined_def demo_relay_def new_conn_def receive_def
  handle_register_def register_machine_def register_client_def handle_response_def complete_machine_def
  handle_init_def handle_ack_def ws_write_def put_log_def answer_result_def
  machines_FindByID_def machines_UpdateLastSeenAndHostname_def select_one_def validateWSHostname_def
  RegisterClient_def RegisterMachine_def notifyMachineStatus_def GetClientsByMasterID_def
  GetMachine_def GetClient_def Let_def VerifySignature_def

lemma demo_rows [simp]:
  "dbUp demo_db" "Machines demo_db = [demo_machine]" "MachineID demo_machine = 2" "MachineMaster demo_machine = 1"
  "MachineRevokedAt demo_machine = None" "MachineSignPub demo_machine = replicate 32 CHR ''q''"
  "demo_machine\<lparr>MachineLastSeenAt := 0, MachineHostname := ''h''\<rparr> = demo_machine"
  "demo_db\<lparr>Machines := [demo_machine]\<rparr> = demo_db" "now demo_env = 0"
  "parse_uuid demo_env ''2'' = Some 2" "b64_encode demo_env x = x" "b64_decode demo_env x = Some x"
  "ed25519_verify demo_env k m g" "demo_sig \<noteq> []" "demo_connect_token \<noteq> []" "demo_machine_token \<noteq> []"
  by (simp_all add: demo_db_def demo_machine_def demo_env_def demo_sig_def demo_connect_token_def
      demo_machine_token_def)

lemma run_client:
  "receive (demo_ws 7 RoleClient) c ''register'' new_conn (demo_relay None m r l) =
     (True, demo_client, demo_relay (Some c) m r (l @ [Sent c (RegisteredClientFrame (show_nat 1))]))"
  "receive (demo_ws 7 RoleClient) c ''register'' (demo_pending new_conn) (demo_relay None m r l) =
     (True, demo_pending demo_client, demo_relay (Some c) m r (l @ [Sent c (RegisteredClientFrame (show_nat 1))]))"
  by (simp add: run_simps demo_connect, simp add: demo_env_def)+

lemma run_challenge:
  "receive (demo_ws u RoleMachine) c ''register'' new_conn (demo_relay i m r l) =
     (True, demo_pending new_conn, demo_relay i m r (l @ [Sent c (ChallengeFrame ''n'')]))"
  by (simp add: run_simps)

lemma run_response:
  "receive (demo_ws u RoleMachine) c ''challengeResponse'' (demo_pending cs) (demo_relay i None r l) =
     (True, demo_joined (demo_pending cs), demo_relay i (Some c) r (l @
        (case i of None \<Rightarrow> [] | Some k \<Rightarrow> [Sent k (StatusFrame True (show_nat 2) ''h'')]) @
        [Sent c (RegisteredMachineFrame (show_nat 2))]))"
  by (simp add: run_simps split: option.split) (simp add: demo_env_def)

lemma demo_check:
  "check_session_init (demo_ws u role) (csClaims demo_client)
     \<lparr>InitType = ''session-init'', InitMachineID = ''2'', InitMachineToken = demo_machine_token,
      InitEphemeralPub = ''e'', InitSignature = demo_sig, InitForce = False\<rparr> demo_db = Inr 2"
  by (simp add: check_session_init_def run_simps demo_machine_accepted
      masterKeys_FindByMasterAndFingerprint_def) (simp add: demo_db_def demo_key_def VerifySignature_def demo_env_def)

definition demo_session :: "sessionState \<Rightarrow> registry" where
  "demo_session st = [(2, \<lparr>clientID = 7, sessState = st, createdAt = 0\<rparr>)]"

lemma run_init:
  "receive (demo_ws u role) c ''session-init'' demo_client (demo_relay (Some k) (Some m) [] l) =
     (True, demo_client, demo_relay (Some k) (Some m) (demo_session Pending)
        (l @ [Sent m (RawFrame ''session-init'')]))"
  using demo_check [of u role]
  by (simp add: run_simps handleSessionInit_def BeginSession_def set_sessions_def demo_session_def)

lemma run_ack:
  "receive (demo_ws u role) c ''session-ack'' (demo_joined (demo_pending new_conn))
       (demo_relay (Some k) (Some m) (demo_session Pending) l) =
     (True, demo_joined (demo_pending new_conn), demo_relay (Some k) (Some m) (demo_session Active)
        (l @ [Sent k (RawFrame ''session-ack'')]))"
  by (simp add: run_simps handleSessionAck_def GetSessionClient_def ActivateSession_def isExpired_def
      pendingSessionTTL_def set_sessions_def demo_session_def)

text \<open>The worlds of the run.\<close>

lemma demo_start: "relay_start demo_db = \<lparr>wConns = (\<lambda>_. None), wRelay = demo_relay None None [] []\<rparr>"
  by (simp add: relay_start_def demo_relay_def NewWSHub_def NewSessionRegistry_def)

lemma reaches_open:
  "relay_reaches d \<lparr>wConns = f, wRelay = s\<rparr> \<Longrightarrow> f c = None \<Longrightarrow>
   relay_reaches d \<lparr>wConns = f(c \<mapsto> (new_conn, False)), wRelay = s\<rparr>"
  using relay_reaches_step [OF _ step_open [of "\<lparr>wConns = f, wRelay = s\<rparr>" c]] by simp

lemma reaches_frame:
  "relay_reaches d \<lparr>wConns = f, wRelay = s\<rparr> \<Longrightarrow> f c = Some (cs, False) \<Longrightarrow>
   receive env c raw cs s = (k, cs', s') \<Longrightarrow> fresh_uuid (new_uuid env) \<lparr>wConns = f, wRelay = s\<rparr> \<Longrightarrow>
   relay_reaches d \<lparr>wConns = f(c \<mapsto> (cs', \<not> k)), wRelay = s'\<rparr>"
  using relay_reaches_step [OF _ step_frame [of "\<lparr>wConns = f, wRelay = s\<rparr>" c cs env raw k cs' s']] by simp

lemma reaches_close:
  "relay_reaches d \<lparr>wConns = f, wRelay = s\<rparr> \<Longrightarrow> f c = Some (cs, b) \<Longrightarrow>
   relay_reaches d \<lparr>wConns = f(c := None), wRelay = cleanup env c cs s\<rparr>"
  using relay_reaches_step [OF _ step_close [of "\<lparr>wConns = f, wRelay = s\<rparr>" c cs b env]] by simp

text \<open>No open connection uses a client number.\<close>

definition unused :: "(nat \<Rightarrow> (conn_state \<times> bool) option) \<Rightarrow> uuid \<Rightarrow> bool" where
  "unused f u \<longleftrightarrow> (\<forall>c cs b. f c = Some (cs, b) \<longrightarrow> csClient cs \<noteq> u)"

lemma unused_simps [simp]:
  "unused (\<lambda>_. None) u" "unused f u \<Longrightarrow> csClient cs \<noteq> u \<Longrightarrow> unused (f(c \<mapsto> (cs, b))) u"
  by (auto simp: unused_def)

lemma demo_fresh [simp]:
  "fresh_uuid u \<lparr>wConns = f, wRelay = demo_relay i m r l\<rparr> \<longleftrightarrow> u \<noteq> 0 \<and> (i = None \<or> u \<noteq> 7) \<and> unused f u"
  by (auto simp: fresh_uuid_def demo_relay_def unused_def split: option.splits)

lemma demo_fields [simp]:
  "csClient new_conn = 0" "csClient demo_client = 7" "csClient (demo_pending cs) = csClient cs"
  "csClient (demo_joined cs) = csClient cs" "csRole (demo_joined cs) = RoleMachine"
  "csMachine (demo_joined cs) = 2" "new_uuid (demo_ws u role) = u" "csRole demo_client = RoleClient"
  by (simp_all add: new_conn_def demo_client_def demo_pending_def demo_joined_def demo_ws_def)

lemma demo_registered:
  "\<exists>l. relay_reaches demo_db \<lparr>wConns = (\<lambda>_. None)(10 \<mapsto> (demo_client, False),
      11 \<mapsto> (demo_joined (demo_pending new_conn), False)), wRelay = demo_relay (Some 10) (Some 11) [] l\<rparr>"
proof -
  let ?f = "(\<lambda>_. None)(10 \<mapsto> (new_conn, False))" and ?g = "(\<lambda>_. None)(10 \<mapsto> (demo_client, False))"
  have "relay_reaches demo_db \<lparr>wConns = (\<lambda>_. None), wRelay = demo_relay None None [] []\<rparr>"
    using relay_reaches_start [of demo_db] by (simp add: demo_start)
  then have "relay_reaches demo_db \<lparr>wConns = ?f, wRelay = demo_relay None None [] []\<rparr>"
    by (rule reaches_open) simp
  from reaches_frame [OF this _ run_client(1) [where c = 10]] obtain l where
    "relay_reaches demo_db \<lparr>wConns = ?g, wRelay = demo_relay (Some 10) None [] l\<rparr>"
    by auto
  from reaches_open [OF this, of 11] have
    "relay_reaches demo_db \<lparr>wConns = ?g(11 \<mapsto> (new_conn, False)), wRelay = demo_relay (Some 10) None [] l\<rparr>"
    by simp
  from reaches_frame [OF this _ run_challenge [where c = 11 and u = 8]] obtain l where
    "relay_reaches demo_db \<lparr>wConns = ?g(11 \<mapsto> (demo_pending new_conn, False)), wRelay = demo_relay (Some 10) None [] l\<rparr>"
    by auto
  from reaches_frame [OF this _ run_response [where c = 11 and u = 8 and cs = new_conn]] show ?thesis
    by auto
qed

lemma demo_begun:
  "\<exists>l. relay_reaches demo_db \<lparr>wConns = (\<lambda>_. None)(10 \<mapsto> (demo_client, False),
      11 \<mapsto> (demo_joined (demo_pending new_conn), False)),
      wRelay = demo_relay (Some 10) (Some 11) (demo_session Pending) l\<rparr>"
proof -
  let ?f = "(\<lambda>_. None)(10 \<mapsto> (demo_client, False), 11 \<mapsto> (demo_joined (demo_pending new_conn), False))"
  obtain l where r: "relay_reaches demo_db \<lparr>wConns = ?f, wRelay = demo_relay (Some 10) (Some 11) [] l\<rparr>"
    using demo_registered by blast
  have "fresh_uuid (new_uuid (demo_ws 8 RoleClient)) \<lparr>wConns = ?f, wRelay = demo_relay (Some 10) (Some 11) [] l\<rparr>"
    by simp
  from reaches_frame [OF r _ run_init [where c = 10] this] show ?thesis by (auto simp: fun_upd_twist)
qed


section \<open>Witnesses\<close>

lemma demo_claims [simp]: "ConnMasterID (csClaims demo_client) = 1"
  by (simp add: demo_client_def)

theorem frames_stay_within_a_master_witness:
  "\<exists>w. relay_reaches demo_db w \<and> (\<exists>m mc. master_of (rDb (wRelay w)) m = Some 1 \<and>
     GetMachine m (rHub (wRelay w)) = Some mc \<and> HubConn mc = 11 \<and> HubMaster mc = 1)"
proof -
  obtain l where r: "relay_reaches demo_db \<lparr>wConns = (\<lambda>_. None)(10 \<mapsto> (demo_client, False),
      11 \<mapsto> (demo_joined (demo_pending new_conn), False)), wRelay = demo_relay (Some 10) (Some 11) [] l\<rparr>"
    using demo_registered by blast
  let ?w = "\<lparr>wConns = (\<lambda>_. None)(10 \<mapsto> (demo_client, False),
      11 \<mapsto> (demo_joined (demo_pending new_conn), False)), wRelay = demo_relay (Some 10) (Some 11) [] l\<rparr>"
  have "receive (demo_ws 8 RoleClient) 10 ''session-init'' demo_client (wRelay ?w) =
     (True, demo_client, demo_relay (Some 10) (Some 11) (demo_session Pending)
        (l @ [Sent 11 (RawFrame ''session-init'')]))"
    by (simp add: run_init)
  from frames_stay_within_a_master [OF r _ this, of "[Sent 11 (RawFrame ''session-init'')]" 11 "''session-init''"]
  have "\<exists>m mc. master_of (rDb (wRelay ?w)) m = Some 1 \<and>
     GetMachine m (rHub (wRelay ?w)) = Some mc \<and> HubConn mc = 11 \<and> HubMaster mc = 1"
    by (simp add: demo_relay_def)
  with r show ?thesis by blast
qed

theorem sessions_join_one_master_witness:
  "\<exists>w cc. relay_reaches demo_db w \<and> GetClient 7 (rHub (wRelay w)) = Some cc \<and>
     master_of demo_db 2 = Some (ClientMaster cc)"
proof -
  obtain l where r: "relay_reaches demo_db \<lparr>wConns = (\<lambda>_. None)(10 \<mapsto> (demo_client, False),
      11 \<mapsto> (demo_joined (demo_pending new_conn), False)),
      wRelay = demo_relay (Some 10) (Some 11) (demo_session Pending) l\<rparr>"
    using demo_begun by blast
  from sessions_join_one_master [OF r, of 2 "\<lparr>clientID = 7, sessState = Pending, createdAt = 0\<rparr>"] r
  show ?thesis by (auto simp: demo_relay_def demo_session_def)
qed

theorem activation_needs_the_machines_signature_witness:
  "csRole (demo_joined (demo_pending new_conn)) = RoleMachine \<and>
     (\<exists>row. machines_FindByID demo_db 2 = Inr row)"
  using activation_needs_the_machines_signature
    [OF run_ack [of 8 RoleMachine 11 10 11 "[]"], of 2 "\<lparr>clientID = 7, sessState = Active, createdAt = 0\<rparr>"]
  by (auto simp: demo_relay_def demo_session_def)

theorem session_begins_authorized_witness:
  "\<exists>row. machines_FindByID demo_db 2 = Inr row \<and> MachineMaster row = ConnMasterID (csClaims demo_client)"
  using session_begins_authorized
    [OF run_init [of 8 RoleClient 10 10 11 "[]"], of 2 "\<lparr>clientID = 7, sessState = Pending, createdAt = 0\<rparr>"]
  by (auto simp: demo_relay_def demo_session_def)

theorem machine_registers_by_signing_the_nonce_witness:
  "pendingMachine (demo_pending new_conn) = 2 \<and> pendingMaster (demo_pending new_conn) = 1"
  using machine_registers_by_signing_the_nonce
    [OF run_response [of 8 11 new_conn None "[]" "[]"], of 2 "\<lparr>HubMaster = 1, HubHostname = ''h'', HubConn = 11\<rparr>"]
  by (simp add: demo_relay_def GetMachine_def demo_pending_def)

text \<open>
  a connection that asked for a machine challenge and then registered as a client may still
  answer the challenge, as the service does not check the role there.  It then counts as a machine,
  so that when it closes its client stays in the hub: with no connection left, a client is still
  registered.
\<close>

theorem closed_connection_stays_registered:
  "\<exists>w. relay_reaches demo_db w \<and> wConns w = (\<lambda>_. None) \<and>
     GetClient 7 (rHub (wRelay w)) =
       Some \<lparr>ClientMaster = 1, ClientFingerprint = ''k'', ClientConn = 10\<rparr>"
proof -
  have "relay_reaches demo_db \<lparr>wConns = (\<lambda>_. None), wRelay = demo_relay None None [] []\<rparr>"
    using relay_reaches_start [of demo_db] by (simp add: demo_start)
  from reaches_open [OF this, of 10] have
    "relay_reaches demo_db \<lparr>wConns = (\<lambda>_. None)(10 \<mapsto> (new_conn, False)), wRelay = demo_relay None None [] []\<rparr>"
    by simp
  from reaches_frame [OF this _ run_challenge [where c = 10 and u = 8]] obtain l where
    "relay_reaches demo_db \<lparr>wConns = (\<lambda>_. None)(10 \<mapsto> (demo_pending new_conn, False)), wRelay = demo_relay None None [] l\<rparr>"
    by auto
  from reaches_frame [OF this _ run_client(2) [where c = 10]] obtain l where
    "relay_reaches demo_db \<lparr>wConns = (\<lambda>_. None)(10 \<mapsto> (demo_pending demo_client, False)), wRelay = demo_relay (Some 10) None [] l\<rparr>"
    by auto
  from reaches_frame [OF this _ run_response [where c = 10 and u = 8 and cs = demo_client]] obtain l where
    "relay_reaches demo_db \<lparr>wConns = (\<lambda>_. None)(10 \<mapsto> (demo_joined (demo_pending demo_client), False)),
       wRelay = demo_relay (Some 10) (Some 10) [] l\<rparr>"
    by auto
  from reaches_close [OF this, of 10 "demo_joined (demo_pending demo_client)" False "demo_ws 8 RoleClient"]
  have r: "relay_reaches demo_db \<lparr>wConns = (\<lambda>_. None),
      wRelay = cleanup (demo_ws 8 RoleClient) 10 (demo_joined (demo_pending demo_client)) (demo_relay (Some 10) (Some 10) [] l)\<rparr>"
    by simp
  have "hubClients (rHub (cleanup (demo_ws 8 RoleClient) 10 (demo_joined (demo_pending demo_client))
      (demo_relay (Some 10) (Some 10) [] l))) = [(7, \<lparr>ClientMaster = 1, ClientFingerprint = ''k'', ClientConn = 10\<rparr>)]"
    using cleanup_other [of "demo_joined (demo_pending demo_client)" "demo_ws 8 RoleClient" 10]
    by (simp add: demo_relay_def)
  with r show ?thesis by (intro exI conjI) (auto simp: GetClient_def)
qed

end
