(* ===== verification/Keyring.thy ===== *)
theory Keyring
  imports RelayBase
begin

text \<open>
  The keyring of a master identity (relay/internal/service/keyring.go with its HTTP handler in
  api/keyring.go): an append-only chain of signed updates, each naming its predecessor's hash.
\<close>

section \<open>Errors, transactions and data\<close>

datatype relay_error =
    ErrAuthRequestNotFound
  | ErrAuthRequestExpired
  | ErrInvalidMasterApprovalSignature
  | ErrMasterIdentityNotFound
  | ErrMasterKeyRevoked
  | ErrMasterEncPubMismatch
  | ErrMasterIDMismatch
  | ErrKeyringUpdateRequired
  | ErrInvalidMasterID
  | ErrMasterIdentityExists
  | ErrMachineAlreadyBound
  | ErrBoundMachineRevoked
  | ErrInvalidAction
  | ErrKeyringUpdateConflict
  | ErrSignerMasterKeyNotFound
  | ErrInvalidKeyringUpdateSignature
  | ErrMasterKeyAlreadyExists
  | ErrMasterKeyNotFoundForRevoke
  | ErrKeyringUpdateMasterIDMissing
  | ErrKeyringUpdateMasterIDMismatch
  | ErrKeyringUpdateSeqInvalid
  | ErrKeyringUpdatePrevHashInvalid
  | ErrKeyringUpdateActionInvalid
  | ErrKeyringUpdateTargetMasterSignMismatch
  | ErrKeyringUpdateTargetMasterEncMismatch
  | ErrKeyringUpdateSignerFingerprintMismatch
  | ErrRepository repo_error
  | ErrRandom

text \<open>TxRunner.InTx: the writes of a failed transaction are undone.\<close>

definition InTx :: "(db \<Rightarrow> 'e + ('a \<times> db)) \<Rightarrow> db \<Rightarrow> ('e + 'a) \<times> db" where
  "InTx fn d = (case fn d of Inl err \<Rightarrow> (Inl err, d) | Inr (x, d') \<Rightarrow> (Inr x, d'))"

text \<open>The result of a repository call, with the error for a missing row.\<close>

definition found :: "relay_error \<Rightarrow> repo_error + 'a \<Rightarrow> relay_error + 'a" where
  "found missing r =
     (case r of Inr x \<Rightarrow> Inr x | Inl RecordNotFound \<Rightarrow> Inl missing | Inl err \<Rightarrow> Inl (ErrRepository err))"

definition wrote :: "repo_error + 'a \<Rightarrow> relay_error + 'a" where
  "wrote r = (case r of Inr x \<Rightarrow> Inr x | Inl err \<Rightarrow> Inl (ErrRepository err))"

definition and_then :: "'e + 'a \<Rightarrow> ('a \<Rightarrow> 'e + 'b) \<Rightarrow> 'e + 'b" where
  "and_then r k = (case r of Inl err \<Rightarrow> Inl err | Inr x \<Rightarrow> k x)"

record MasterKeyState =
  StFingerprint :: string
  StSignPub :: string
  StEncPub :: string
  StRevokedAt :: "int option"

record KeyringState =
  StMasterID :: string
  StSeq :: int
  StHeadHash :: string
  StKeys :: "MasterKeyState list"

record KeyringUpdateInput =
  InMasterID :: string
  InSeq :: int
  InPrevHash :: string
  InAction :: string
  InTargetSignPub :: string
  InTargetEncPub :: string
  InSigner :: string
  InSignature :: string

definition KeyringActionAdd :: string where
  "KeyringActionAdd = ''add''"

definition KeyringActionRevoke :: string where
  "KeyringActionRevoke = ''revoke''"

section \<open>The service\<close>

definition key_state :: "relay_env \<Rightarrow> MasterKey \<Rightarrow> MasterKeyState" where
  "key_state env key =
     \<lparr>StFingerprint = MasterSignKeyFingerprint key, StSignPub = b64_encode env (MasterSignPub key),
      StEncPub = b64_encode env (MasterEncPub key), StRevokedAt = KeyRevokedAt key\<rparr>"

definition GetKeyringState :: "relay_env \<Rightarrow> db \<Rightarrow> uuid \<Rightarrow> relay_error + KeyringState" where
  "GetKeyringState env d masterID =
     and_then (found ErrMasterIdentityNotFound (identities_FindByID d masterID)) (\<lambda>identity.
     and_then (wrote (masterKeys_ListByMasterID d masterID)) (\<lambda>keys.
       Inr \<lparr>StMasterID = show_uuid env masterID, StSeq = KeyringSeq identity,
            StHeadHash = KeyringHeadHash identity, StKeys = map (key_state env) keys\<rparr>))"

definition GetKeyringUpdates :: "db \<Rightarrow> uuid \<Rightarrow> int \<Rightarrow> int \<Rightarrow> relay_error + KeyringUpdate list" where
  "GetKeyringUpdates d masterID fromSeq limit =
     and_then (found ErrMasterIdentityNotFound (identities_FindByID d masterID)) (\<lambda>_.
       wrote (updates_ListByMasterIDFromSeq d masterID fromSeq limit))"

definition update_message :: "relay_env \<Rightarrow> KeyringUpdateInput \<Rightarrow> string" where
  "update_message env input = BuildKeyringUpdateMessage
     \<lparr>PayMasterID = InMasterID input, PaySeq = InSeq input, PayPrevHash = InPrevHash input,
      PayAction = InAction input, PayTargetSignPub = b64_encode env (InTargetSignPub input),
      PayTargetEncPub = b64_encode env (InTargetEncPub input), PaySigner = InSigner input\<rparr>"

definition new_update :: "relay_env \<Rightarrow> uuid \<Rightarrow> KeyringUpdateInput \<Rightarrow> KeyringUpdate" where
  "new_update env masterID input =
     \<lparr>UpdMaster = masterID, UpdSeq = InSeq input, UpdPrevHash = InPrevHash input,
      UpdHash = HashBytes env (update_message env input), UpdAction = InAction input,
      UpdTargetFingerprint = HashKeyFingerprint env (InTargetSignPub input),
      UpdTargetSignPub = InTargetSignPub input, UpdTargetEncPub = InTargetEncPub input,
      UpdSigner = InSigner input, UpdSignature = InSignature input\<rparr>"

text \<open>The key that the update adds or revokes.\<close>

definition apply_add :: "relay_env \<Rightarrow> uuid \<Rightarrow> KeyringUpdateInput \<Rightarrow> db \<Rightarrow> relay_error + db" where
  "apply_add env masterID input d =
     (let fingerprint = HashKeyFingerprint env (InTargetSignPub input)
      in case masterKeys_FindByFingerprint d fingerprint of
           Inr _ \<Rightarrow> Inl ErrMasterKeyAlreadyExists
         | Inl RecordNotFound \<Rightarrow>
             wrote (masterKeys_Create d
               \<lparr>KeyMaster = masterID, MasterSignKeyFingerprint = fingerprint,
                MasterSignPub = InTargetSignPub input, MasterEncPub = InTargetEncPub input,
                KeyRevokedAt = None, AddedBy = Some (InSigner input), KeyringSeqAdded = InSeq input\<rparr>)
         | Inl err \<Rightarrow> Inl (ErrRepository err))"

definition apply_revoke :: "relay_env \<Rightarrow> uuid \<Rightarrow> KeyringUpdateInput \<Rightarrow> db \<Rightarrow> relay_error + db" where
  "apply_revoke env masterID input d =
     (let fingerprint = HashKeyFingerprint env (InTargetSignPub input)
      in and_then (found ErrMasterKeyNotFoundForRevoke (masterKeys_FindByMasterAndFingerprint d masterID fingerprint))
           (\<lambda>_. wrote (masterKeys_Revoke d masterID fingerprint (now env))))"

definition update_keyring :: "relay_env \<Rightarrow> uuid \<Rightarrow> KeyringUpdateInput \<Rightarrow> db \<Rightarrow> relay_error + (unit \<times> db)" where
  "update_keyring env masterID input d =
     (if InAction input \<noteq> KeyringActionAdd \<and> InAction input \<noteq> KeyringActionRevoke then Inl ErrInvalidAction
      else
        and_then (found ErrMasterIdentityNotFound (identities_FindByID d masterID)) (\<lambda>identity.
        if InSeq input \<noteq> KeyringSeq identity + 1 \<or> InPrevHash input \<noteq> KeyringHeadHash identity
        then Inl ErrKeyringUpdateConflict
        else
          and_then (found ErrSignerMasterKeyNotFound
              (masterKeys_FindByMasterAndFingerprint d masterID (InSigner input))) (\<lambda>signerKey.
          if KeyRevokedAt signerKey \<noteq> None then Inl ErrSignerMasterKeyNotFound
          else if \<not> VerifySignature env (MasterSignPub signerKey) (update_message env input) (InSignature input)
            then Inl ErrInvalidKeyringUpdateSignature
          else
            (case updates_Create d (new_update env masterID input) of
               Inl DuplicateKey \<Rightarrow> Inl ErrKeyringUpdateConflict
             | Inl err \<Rightarrow> Inl (ErrRepository err)
             | Inr d \<Rightarrow>
                 and_then (if InAction input = KeyringActionAdd then apply_add env masterID input d
                           else apply_revoke env masterID input d) (\<lambda>d.
                 and_then (wrote (identities_UpdateKeyringState d masterID (InSeq input)
                             (HashBytes env (update_message env input)))) (\<lambda>d.
                 Inr ((), d)))))))"

definition UpdateKeyring ::
  "relay_env \<Rightarrow> uuid \<Rightarrow> KeyringUpdateInput \<Rightarrow> db \<Rightarrow> (relay_error + unit) \<times> db" where
  "UpdateKeyring env masterID input d = InTx (update_keyring env masterID input) d"

section \<open>The HTTP handler\<close>

record keyringUpdateRequest =
  RqSeq :: int
  RqPrevHash :: string
  RqAction :: string
  RqTargetSignPub :: string
  RqTargetEncPub :: string
  RqSigner :: string
  RqSignature :: string

datatype response_code =
    CodeSuccess
  | CodeInvalidRequest
  | CodeNotFound
  | CodeInternalError
  | CodeConflict
  | CodeInvalidSignature
  | CodeInvalidPublicKey

definition of_length :: "nat \<Rightarrow> string option \<Rightarrow> string option" where
  "of_length n x = (case x of None \<Rightarrow> None | Some s \<Rightarrow> if length s = n then Some s else None)"

fun update_error_code :: "relay_error \<Rightarrow> response_code" where
  "update_error_code ErrMasterIdentityNotFound = CodeNotFound"
| "update_error_code ErrInvalidAction = CodeInvalidRequest"
| "update_error_code ErrMasterKeyNotFoundForRevoke = CodeInvalidRequest"
| "update_error_code ErrKeyringUpdateConflict = CodeConflict"
| "update_error_code ErrMasterKeyAlreadyExists = CodeConflict"
| "update_error_code ErrSignerMasterKeyNotFound = CodeInvalidSignature"
| "update_error_code ErrInvalidKeyringUpdateSignature = CodeInvalidSignature"
| "update_error_code _ = CodeInternalError"

text \<open>KeyringHandler.Update; the body is None when its JSON does not decode.\<close>

definition keyring_Update ::
  "relay_env \<Rightarrow> string \<Rightarrow> keyringUpdateRequest option \<Rightarrow> db \<Rightarrow> response_code \<times> db" where
  "keyring_Update env param body d =
     (case parse_uuid env param of
        None \<Rightarrow> (CodeInvalidRequest, d)
      | Some masterID \<Rightarrow>
          (case body of
             None \<Rightarrow> (CodeInvalidRequest, d)
           | Some input \<Rightarrow>
               (case of_length 32 (b64_decode env (RqTargetSignPub input)) of
                  None \<Rightarrow> (CodeInvalidPublicKey, d)
                | Some targetSignPub \<Rightarrow>
                    (let enc = (if RqTargetEncPub input = [] then Some []
                                else of_length 32 (b64_decode env (RqTargetEncPub input)))
                     in case enc of
                          None \<Rightarrow> (CodeInvalidPublicKey, d)
                        | Some targetEncPub \<Rightarrow>
                            if RqTargetEncPub input = [] \<and> RqAction input = KeyringActionAdd
                            then (CodeInvalidRequest, d)
                            else
                              (case of_length 64 (b64_decode env (RqSignature input)) of
                                 None \<Rightarrow> (CodeInvalidSignature, d)
                               | Some sig \<Rightarrow>
                                   (case UpdateKeyring env masterID
                                      \<lparr>InMasterID = show_uuid env masterID, InSeq = RqSeq input,
                                       InPrevHash = RqPrevHash input, InAction = RqAction input,
                                       InTargetSignPub = targetSignPub, InTargetEncPub = targetEncPub,
                                       InSigner = RqSigner input, InSignature = sig\<rparr> d of
                                      (Inl err, d) \<Rightarrow> (update_error_code err, d)
                                    | (Inr _, d) \<Rightarrow> (CodeSuccess, d)))))))"


section \<open>Effect of an update\<close>

lemma and_then_Inr: "and_then r k = Inr y \<longleftrightarrow> (\<exists>x. r = Inr x \<and> k x = Inr y)"
  by (auto simp: and_then_def split: sum.splits)

lemma found_Inr: "found e r = Inr x \<longleftrightarrow> r = Inr x"
  by (auto simp: found_def split: sum.splits repo_error.splits)

lemma wrote_Inr: "wrote r = Inr x \<longleftrightarrow> r = Inr x"
  by (auto simp: wrote_def split: sum.splits)

text \<open>The keys after an update.\<close>

definition keys_after :: "relay_env \<Rightarrow> uuid \<Rightarrow> KeyringUpdateInput \<Rightarrow> MasterKey list \<Rightarrow> MasterKey list" where
  "keys_after env m input keys =
     (let fp = HashKeyFingerprint env (InTargetSignPub input)
      in if InAction input = KeyringActionAdd
         then keys @ [\<lparr>KeyMaster = m, MasterSignKeyFingerprint = fp, MasterSignPub = InTargetSignPub input,
                       MasterEncPub = InTargetEncPub input, KeyRevokedAt = None,
                       AddedBy = Some (InSigner input), KeyringSeqAdded = InSeq input\<rparr>]
         else map (\<lambda>k. if KeyMaster k = m \<and> MasterSignKeyFingerprint k = fp \<and> KeyRevokedAt k = None
                       then k\<lparr>KeyRevokedAt := Some (now env)\<rparr> else k) keys)"

text \<open>What an accepted update has checked, and the database it leaves.\<close>

definition update_checked :: "relay_env \<Rightarrow> uuid \<Rightarrow> KeyringUpdateInput \<Rightarrow> db \<Rightarrow> bool" where
  "update_checked env m input d \<longleftrightarrow>
     (\<exists>identity key. identities_FindByID d m = Inr identity \<and> InSeq input = KeyringSeq identity + 1 \<and>
        InPrevHash input = KeyringHeadHash identity \<and>
        masterKeys_FindByMasterAndFingerprint d m (InSigner input) = Inr key \<and> KeyRevokedAt key = None \<and>
        VerifySignature env (MasterSignPub key) (update_message env input) (InSignature input) \<and>
        (if InAction input = KeyringActionAdd
         then \<not> (\<exists>k\<in>set (MasterKeys d). MasterSignKeyFingerprint k = HashKeyFingerprint env (InTargetSignPub input))
         else InAction input = KeyringActionRevoke \<and>
           (\<exists>k\<in>set (MasterKeys d). KeyMaster k = m \<and>
              MasterSignKeyFingerprint k = HashKeyFingerprint env (InTargetSignPub input))))"

definition update_applied :: "relay_env \<Rightarrow> uuid \<Rightarrow> KeyringUpdateInput \<Rightarrow> db \<Rightarrow> db" where
  "update_applied env m input d =
     d\<lparr>KeyringUpdates := KeyringUpdates d @ [new_update env m input],
       MasterKeys := keys_after env m input (MasterKeys d),
       MasterIdentities := map (\<lambda>i. if IdentityID i = m
         then i\<lparr>KeyringSeq := InSeq input, KeyringHeadHash := HashBytes env (update_message env input)\<rparr> else i)
         (MasterIdentities d)\<rparr>"

lemma apply_add_Inr:
  assumes "apply_add env m input d = Inr d'" "InAction input = KeyringActionAdd"
  shows "d' = d\<lparr>MasterKeys := keys_after env m input (MasterKeys d)\<rparr> \<and>
    \<not> (\<exists>k\<in>set (MasterKeys d). MasterSignKeyFingerprint k = HashKeyFingerprint env (InTargetSignPub input))"
  using assms
  by (auto simp: apply_add_def keys_after_def Let_def wrote_Inr masterKeys_Create_def list_ex_iff
      split: sum.splits repo_error.splits if_splits)

lemma apply_revoke_Inr:
  assumes "apply_revoke env m input d = Inr d'" "InAction input \<noteq> KeyringActionAdd"
  shows "d' = d\<lparr>MasterKeys := keys_after env m input (MasterKeys d)\<rparr> \<and>
    (\<exists>k\<in>set (MasterKeys d). KeyMaster k = m \<and>
       MasterSignKeyFingerprint k = HashKeyFingerprint env (InTargetSignPub input))"
  using assms
  by (auto simp: apply_revoke_def keys_after_def Let_def wrote_Inr and_then_Inr found_Inr masterKeys_Revoke_def
      masterKeys_FindByMasterAndFingerprint_def dest!: select_one_Inr split: if_splits)

lemma apply_Inr:
  assumes "(if InAction input = KeyringActionAdd then apply_add env m input d else apply_revoke env m input d) = Inr d'"
    "InAction input = KeyringActionAdd \<or> InAction input = KeyringActionRevoke"
  shows "d' = d\<lparr>MasterKeys := keys_after env m input (MasterKeys d)\<rparr> \<and>
    (if InAction input = KeyringActionAdd
     then \<not> (\<exists>k\<in>set (MasterKeys d). MasterSignKeyFingerprint k = HashKeyFingerprint env (InTargetSignPub input))
     else InAction input = KeyringActionRevoke \<and>
       (\<exists>k\<in>set (MasterKeys d). KeyMaster k = m \<and>
          MasterSignKeyFingerprint k = HashKeyFingerprint env (InTargetSignPub input)))"
proof (cases "InAction input = KeyringActionAdd")
  case True
  with assms apply_add_Inr [of env m input d d'] show ?thesis by simp
next
  case False
  with assms apply_revoke_Inr [of env m input d d'] show ?thesis by simp
qed

lemma update_keyring_Inr:
  assumes "update_keyring env m input d = Inr (u, d')"
  shows "update_checked env m input d \<and> d' = update_applied env m input d"
proof -
  let ?u = "new_update env m input"
  from assms obtain identity key d1 d2 where
    act: "InAction input = KeyringActionAdd \<or> InAction input = KeyringActionRevoke"
    and i: "identities_FindByID d m = Inr identity" "InSeq input = KeyringSeq identity + 1"
      "InPrevHash input = KeyringHeadHash identity"
    and k: "masterKeys_FindByMasterAndFingerprint d m (InSigner input) = Inr key" "KeyRevokedAt key = None"
      "VerifySignature env (MasterSignPub key) (update_message env input) (InSignature input)"
    and c: "updates_Create d ?u = Inr d1"
    and a: "(if InAction input = KeyringActionAdd then apply_add env m input d1
             else apply_revoke env m input d1) = Inr d2"
    and f: "identities_UpdateKeyringState d2 m (InSeq input) (HashBytes env (update_message env input)) = Inr d'"
    unfolding update_keyring_def
    by (auto simp: and_then_Inr found_Inr wrote_Inr split: if_splits sum.splits repo_error.splits)
  from c have d1: "d1 = d\<lparr>KeyringUpdates := KeyringUpdates d @ [?u]\<rparr>"
    by (auto simp: updates_Create_def split: if_splits)
  note ap = apply_Inr [OF a act]
  from f have "d' = d2\<lparr>MasterIdentities := map (\<lambda>i. if IdentityID i = m
         then i\<lparr>KeyringSeq := InSeq input, KeyringHeadHash := HashBytes env (update_message env input)\<rparr> else i)
         (MasterIdentities d2)\<rparr>"
    by (auto simp: identities_UpdateKeyringState_def split: if_splits)
  with ap d1 have "d' = update_applied env m input d" by (simp add: update_applied_def)
  moreover have "update_checked env m input d"
    using i k ap d1 unfolding update_checked_def by auto
  ultimately show ?thesis by blast
qed

lemma UpdateKeyring_cases:
  "(\<exists>err. UpdateKeyring env m input d = (Inl err, d)) \<or>
   UpdateKeyring env m input d = (Inr (), update_applied env m input d) \<and> update_checked env m input d"
proof (cases "update_keyring env m input d")
  case (Inl err)
  then show ?thesis by (simp add: UpdateKeyring_def InTx_def)
next
  case (Inr x)
  then obtain d' where x: "x = ((), d')" by (cases x) auto
  from update_keyring_Inr [OF Inr [unfolded x]] Inr x show ?thesis
    by (simp add: UpdateKeyring_def InTx_def)
qed


section \<open>The chain\<close>

definition updates_of :: "db \<Rightarrow> uuid \<Rightarrow> KeyringUpdate list" where
  "updates_of d m = filter (\<lambda>u. UpdMaster u = m) (KeyringUpdates d)"

fun chain :: "int \<Rightarrow> string \<Rightarrow> KeyringUpdate list \<Rightarrow> bool" where
  "chain s h [] \<longleftrightarrow> True"
| "chain s h (u # us) \<longleftrightarrow> UpdSeq u = s + 1 \<and> UpdPrevHash u = h \<and> chain (s + 1) (UpdHash u) us"

fun chain_head :: "string \<Rightarrow> KeyringUpdate list \<Rightarrow> string" where
  "chain_head h [] = h"
| "chain_head h (u # us) = chain_head (UpdHash u) us"

lemma chain_append:
  "chain s h (us @ [u]) \<longleftrightarrow> chain s h us \<and> UpdSeq u = s + int (length us) + 1 \<and> UpdPrevHash u = chain_head h us"
  by (induction us arbitrary: s h) (auto simp: algebra_simps)

lemma chain_head_append: "chain_head h (us @ [u]) = UpdHash u"
  by (induction us arbitrary: h) auto

text \<open>An update is genuine: its hash and its signature are those of the message it spells out.\<close>

definition stored_message :: "relay_env \<Rightarrow> uuid \<Rightarrow> KeyringUpdate \<Rightarrow> string" where
  "stored_message env m u = BuildKeyringUpdateMessage
     \<lparr>PayMasterID = show_uuid env m, PaySeq = UpdSeq u, PayPrevHash = UpdPrevHash u, PayAction = UpdAction u,
      PayTargetSignPub = b64_encode env (UpdTargetSignPub u), PayTargetEncPub = b64_encode env (UpdTargetEncPub u),
      PaySigner = UpdSigner u\<rparr>"

definition genuine :: "relay_env \<Rightarrow> db \<Rightarrow> uuid \<Rightarrow> KeyringUpdate \<Rightarrow> bool" where
  "genuine env d m u \<longleftrightarrow> UpdHash u = HashBytes env (stored_message env m u) \<and>
     (\<exists>key\<in>set (MasterKeys d). KeyMaster key = m \<and> MasterSignKeyFingerprint key = UpdSigner u \<and>
        VerifySignature env (MasterSignPub key) (stored_message env m u) (UpdSignature u))"

definition identity_of :: "db \<Rightarrow> uuid \<Rightarrow> MasterIdentity option" where
  "identity_of d m = find (\<lambda>i. IdentityID i = m) (MasterIdentities d)"

definition keyring_ok :: "relay_env \<Rightarrow> db \<Rightarrow> uuid \<Rightarrow> bool" where
  "keyring_ok env d m \<longleftrightarrow>
     (case identity_of d m of
        None \<Rightarrow> updates_of d m = []
      | Some i \<Rightarrow>
          chain 0 [] (updates_of d m) \<and> KeyringSeq i = int (length (updates_of d m)) \<and>
          KeyringHeadHash i = chain_head [] (updates_of d m) \<and> (\<forall>u\<in>set (updates_of d m). genuine env d m u))"

definition keys_ok :: "relay_env \<Rightarrow> db \<Rightarrow> bool" where
  "keys_ok env d \<longleftrightarrow> distinct (map MasterSignKeyFingerprint (MasterKeys d)) \<and>
     (\<forall>k\<in>set (MasterKeys d). MasterSignKeyFingerprint k = HashKeyFingerprint env (MasterSignPub k))"

text \<open>Keys are never dropped or changed but for their revocation.\<close>

definition keys_kept :: "db \<Rightarrow> db \<Rightarrow> bool" where
  "keys_kept d d' \<longleftrightarrow> (\<forall>k\<in>set (MasterKeys d). \<exists>k'\<in>set (MasterKeys d').
     KeyMaster k' = KeyMaster k \<and> MasterSignKeyFingerprint k' = MasterSignKeyFingerprint k \<and>
     MasterSignPub k' = MasterSignPub k)"

lemma keys_kept_refl [simp]: "keys_kept d d"
  by (auto simp: keys_kept_def)

lemma keys_kept_set: "set (MasterKeys d) \<subseteq> set (MasterKeys d') \<Longrightarrow> keys_kept d d'"
  by (auto simp: keys_kept_def)

lemma genuine_kept: "genuine env d m u \<Longrightarrow> keys_kept d d' \<Longrightarrow> genuine env d' m u"
  unfolding genuine_def keys_kept_def by metis

lemma keyring_ok_other:
  assumes "keyring_ok env d m" "updates_of d' m = updates_of d m" "identity_of d' m = identity_of d m"
    "keys_kept d d'"
  shows "keyring_ok env d' m"
  using assms genuine_kept by (auto simp: keyring_ok_def split: option.splits)

lemma now_irrelevant [simp]:
  "HashBytes (env\<lparr>now := t\<rparr>) x = HashBytes env x" "HashKeyFingerprint (env\<lparr>now := t\<rparr>) x = HashKeyFingerprint env x"
  "VerifySignature (env\<lparr>now := t\<rparr>) k x y = VerifySignature env k x y"
  "update_message (env\<lparr>now := t\<rparr>) input = update_message env input"
  "new_update (env\<lparr>now := t\<rparr>) m input = new_update env m input"
  by (simp_all add: HashBytes_def HashKeyFingerprint_def VerifySignature_def update_message_def new_update_def)

lemma identity_of_applied:
  "identity_of (update_applied env m input d) m' =
     (if m' = m then map_option (\<lambda>i. i\<lparr>KeyringSeq := InSeq input,
          KeyringHeadHash := HashBytes env (update_message env input)\<rparr>) (identity_of d m)
      else identity_of d m')"
proof -
  have "find (\<lambda>i. IdentityID i = m') (map (\<lambda>i. if IdentityID i = m
         then i\<lparr>KeyringSeq := InSeq input, KeyringHeadHash := HashBytes env (update_message env input)\<rparr> else i) is) =
      (if m' = m then map_option (\<lambda>i. i\<lparr>KeyringSeq := InSeq input,
          KeyringHeadHash := HashBytes env (update_message env input)\<rparr>) (find (\<lambda>i. IdentityID i = m) is)
       else find (\<lambda>i. IdentityID i = m') is)" for "is"
    by (induction "is") auto
  from this [of "MasterIdentities d"] show ?thesis by (simp add: identity_of_def update_applied_def)
qed

lemma updates_of_applied:
  "updates_of (update_applied env m input d) m' =
     updates_of d m' @ (if m' = m then [new_update env m input] else [])"
  by (simp add: updates_of_def update_applied_def new_update_def)

lemma keys_after_set:
  "set (keys_after env m input ks) =
     (if InAction input = KeyringActionAdd
      then insert \<lparr>KeyMaster = m, MasterSignKeyFingerprint = HashKeyFingerprint env (InTargetSignPub input),
             MasterSignPub = InTargetSignPub input, MasterEncPub = InTargetEncPub input,
             KeyRevokedAt = None, AddedBy = Some (InSigner input), KeyringSeqAdded = InSeq input\<rparr> (set ks)
      else (\<lambda>k. if KeyMaster k = m \<and> MasterSignKeyFingerprint k = HashKeyFingerprint env (InTargetSignPub input) \<and>
               KeyRevokedAt k = None then k\<lparr>KeyRevokedAt := Some (now env)\<rparr> else k) ` set ks)"
  unfolding keys_after_def Let_def by (simp only: if_distrib [of set] set_append set_map list.set) simp

lemma applied_keys [simp]: "MasterKeys (update_applied env m input d) = keys_after env m input (MasterKeys d)"
  by (simp add: update_applied_def)

lemma keys_kept_applied: "keys_kept d (update_applied env m input d)"
  unfolding keys_kept_def
proof
  fix k assume k: "k \<in> set (MasterKeys d)"
  let ?k = "if KeyMaster k = m \<and> MasterSignKeyFingerprint k = HashKeyFingerprint env (InTargetSignPub input) \<and>
      KeyRevokedAt k = None then k\<lparr>KeyRevokedAt := Some (now env)\<rparr> else k"
  show "\<exists>k'\<in>set (MasterKeys (update_applied env m input d)). KeyMaster k' = KeyMaster k \<and>
      MasterSignKeyFingerprint k' = MasterSignKeyFingerprint k \<and> MasterSignPub k' = MasterSignPub k"
  proof (cases "InAction input = KeyringActionAdd")
    case True
    with k show ?thesis by (simp add: keys_after_set) blast
  next
    case False
    with k have "?k \<in> set (MasterKeys (update_applied env m input d))"
      by (simp only: applied_keys keys_after_set if_False) (rule imageI)
    then show ?thesis by (rule bexI [rotated]) simp
  qed
qed

lemma find_identity: "identities_FindByID d m = Inr i \<longleftrightarrow> dbUp d \<and> identity_of d m = Some i"
  by (auto simp: identities_FindByID_def select_one_def identity_of_def split: option.splits)

lemma keyring_ok_applied:
  assumes ok: "keyring_ok env d m'" and chk: "update_checked env m input d" and id: "InMasterID input = show_uuid env m"
  shows "keyring_ok env (update_applied env m input d) m'"
proof (cases "m' = m")
  case False
  then show ?thesis
    by (intro keyring_ok_other [OF ok] keys_kept_applied) (simp_all add: updates_of_applied identity_of_applied)
next
  case True
  let ?d = "update_applied env m input d" and ?u = "new_update env m input" and ?us = "updates_of d m"
  from chk obtain i key where i: "identity_of d m = Some i" "InSeq input = KeyringSeq i + 1"
      "InPrevHash input = KeyringHeadHash i"
    and k: "masterKeys_FindByMasterAndFingerprint d m (InSigner input) = Inr key"
      "VerifySignature env (MasterSignPub key) (update_message env input) (InSignature input)"
    by (auto simp: update_checked_def find_identity)
  from ok i True have c: "chain 0 [] ?us" "KeyringSeq i = int (length ?us)" "KeyringHeadHash i = chain_head [] ?us"
    "\<forall>u\<in>set ?us. genuine env d m u" by (auto simp: keyring_ok_def)
  have "stored_message env m ?u = update_message env input"
    by (simp add: stored_message_def update_message_def new_update_def id)
  moreover have "key \<in> set (MasterKeys d)" "KeyMaster key = m" "MasterSignKeyFingerprint key = InSigner input"
    using select_one_Inr [OF k(1) [unfolded masterKeys_FindByMasterAndFingerprint_def]] by simp_all
  ultimately have "genuine env d m ?u"
    using k(2) unfolding genuine_def by (auto simp: new_update_def)
  with c(4) have "\<forall>u\<in>set (?us @ [?u]). genuine env ?d m u"
    using genuine_kept [OF _ keys_kept_applied] by auto
  moreover have "chain 0 [] (?us @ [?u])" using c i by (simp add: chain_append new_update_def)
  ultimately show ?thesis
    using True i c by (simp add: keyring_ok_def identity_of_applied updates_of_applied chain_head_append)
      (simp add: new_update_def)
qed

lemma keys_ok_applied:
  assumes "keys_ok env d" "update_checked env m input d"
  shows "keys_ok env (update_applied env m input d)"
proof (cases "InAction input = KeyringActionAdd")
  case True
  with assms(2) have "\<not> (\<exists>k\<in>set (MasterKeys d).
      MasterSignKeyFingerprint k = HashKeyFingerprint env (InTargetSignPub input))"
    unfolding update_checked_def by auto
  with True assms(1) show ?thesis
    by (auto simp: keys_ok_def update_applied_def keys_after_def Let_def image_iff)
next
  case False
  have "map MasterSignKeyFingerprint (keys_after env m input ks) = map MasterSignKeyFingerprint ks" for ks
    using False by (simp add: keys_after_def Let_def)
  moreover have "\<forall>k\<in>set (keys_after env m input (MasterKeys d)).
      MasterSignKeyFingerprint k = HashKeyFingerprint env (MasterSignPub k)"
    using False assms(1) by (auto simp: keys_after_set keys_ok_def)
  ultimately show ?thesis using assms(1) by (simp add: keys_ok_def update_applied_def)
qed

end
