(* ===== verification/Pairing.thy ===== *)
theory Pairing
  imports Keyring
begin

text \<open>
  Pairing of machines (relay/internal/service/auth.go): requests of machines, their approval by a
  master key, the signed status, and the clean-up of requests.
\<close>

section \<open>Data\<close>

text \<open>
  The surroundings: those of the relay, the relay's public key and its Ed25519 signing, and what
  uuid.New and rand.Read give for a new request (None when rand.Read fails).
\<close>

record auth_env =
  core :: relay_env
  relaySignPub :: string
  relay_sign :: "string \<Rightarrow> string"
  new_request :: uuid
  new_challenge :: "string option"
  new_poll_token :: "string option"

datatype AuthStatusState = AuthStatusPending | AuthStatusApproved | AuthStatusExpired

fun state_text :: "AuthStatusState \<Rightarrow> string" where
  "state_text AuthStatusPending = ''pending''"
| "state_text AuthStatusApproved = ''approved''"
| "state_text AuthStatusExpired = ''expired''"

record AuthStatus =
  AsState :: AuthStatusState
  AsRequestID :: string
  AsMachineID :: string
  AsMachineSignPub :: string
  AsMachineEncPub :: string
  AsHostname :: string
  AsChallenge :: string
  AsExpiresAt :: int
  AsApprovedAt :: "int option"
  AsApprovedBy :: string
  AsApprovalSignature :: string
  AsMasterID :: string
  AsKeyring :: "KeyringState option"
  AsRelayPubKey :: string
  AsRelaySignature :: string
  AsPollToken :: string

record AuthApproveInput =
  ApMasterID :: string
  ApSignPub :: string
  ApEncPub :: string
  ApSignature :: string
  ApKeyringUpdate :: "KeyringUpdateInput option"

definition AuthRequestTTL :: int where
  "AuthRequestTTL = 300000000000"

text \<open>time.Time.Unix\<close>

definition to_unix :: "int \<Rightarrow> int" where
  "to_unix t = t div 1000000000 - 62135596800"

section \<open>The signed status\<close>

definition key_less :: "MasterKeyState \<Rightarrow> MasterKeyState \<Rightarrow> bool" where
  "key_less a b \<longleftrightarrow> StFingerprint a < StFingerprint b"

text \<open>
  sortMasterKeys: the inner loop, with x the element at i, and the outer loop.
\<close>

fun exchange_least :: "MasterKeyState \<Rightarrow> MasterKeyState list \<Rightarrow> MasterKeyState \<times> MasterKeyState list" where
  "exchange_least x [] = (x, [])"
| "exchange_least x (y # ys) =
     (if key_less y x then (case exchange_least y ys of (m, r) \<Rightarrow> (m, x # r))
      else (case exchange_least x ys of (m, r) \<Rightarrow> (m, y # r)))"

lemma length_exchange: "length (snd (exchange_least x ys)) = length ys"
  by (induction x ys rule: exchange_least.induct) (auto split: prod.splits)

function sortMasterKeys :: "MasterKeyState list \<Rightarrow> MasterKeyState list" where
  "sortMasterKeys [] = []"
| "sortMasterKeys (x # xs) = (case exchange_least x xs of (m, r) \<Rightarrow> m # sortMasterKeys r)"
  by pat_completeness auto

termination
proof (relation "measure length")
  fix x :: MasterKeyState and xs m r
  assume "(m, r) = exchange_least x xs"
  with length_exchange [of x xs] have "length r = length xs" by (metis snd_conv)
  then show "(r, x # xs) \<in> measure length" by simp
qed simp

fun joinStrings :: "string list \<Rightarrow> string \<Rightarrow> string" where
  "joinStrings [] sep = []"
| "joinStrings [p] sep = p"
| "joinStrings (p # q # ps) sep = p @ sep @ joinStrings (q # ps) sep"

definition key_text :: "MasterKeyState \<Rightarrow> string" where
  "key_text key = StFingerprint key @ '','' @ StSignPub key @ '','' @ StEncPub key @ '','' @
     show_int (case StRevokedAt key of None \<Rightarrow> 0 | Some t \<Rightarrow> to_unix t)"

definition buildAuthStatusSignaturePayload :: "AuthStatus \<Rightarrow> string \<Rightarrow> string" where
  "buildAuthStatusSignaturePayload status requestID =
     (let (seq, head, keysField) =
        (case AsKeyring status of
           None \<Rightarrow> (0, [], [])
         | Some k \<Rightarrow> (StSeq k, StHeadHash k, joinStrings (map key_text (sortMasterKeys (StKeys k))) '';''))
      in ''muxagent-auth-status-v1'' @ [bar] @ requestID @ [bar] @ state_text (AsState status) @ [bar] @
         AsMachineID status @ [bar] @ AsMachineSignPub status @ [bar] @ AsMachineEncPub status @ [bar] @
         AsHostname status @ [bar] @ AsChallenge status @ [bar] @ show_int (to_unix (AsExpiresAt status)) @ [bar] @
         AsApprovedBy status @ [bar] @ AsApprovalSignature status @ [bar] @
         AsMasterID status @ [bar] @ show_int seq @ [bar] @ head @ [bar] @ keysField)"

section \<open>The service\<close>

definition CreateAuthRequest ::
  "auth_env \<Rightarrow> uuid \<Rightarrow> string \<Rightarrow> string \<Rightarrow> string \<Rightarrow> db \<Rightarrow> (relay_error + AuthRequest) \<times> db" where
  "CreateAuthRequest env machineID signPub encPub hostname d =
     (case (new_challenge env, new_poll_token env) of
        (Some challenge, Some pollToken) \<Rightarrow>
          let req = \<lparr>ReqID = new_request env, ReqMachine = machineID, ReqSignPub = signPub, ReqEncPub = encPub,
                     ReqHostname = hostname, ReqExpiresAt = now (core env) + AuthRequestTTL,
                     ReqChallenge = challenge, ReqPollToken = pollToken, ReqApprovedAt = None,
                     ReqApprovedBy = None, ReqApprovalSignature = []\<rparr>
          in (case requests_Create d req of
                Inl err \<Rightarrow> (Inl (ErrRepository err), d)
              | Inr d' \<Rightarrow> (Inr req, d'))
      | _ \<Rightarrow> (Inl ErrRandom, d))"

definition loadKeyringState :: "relay_env \<Rightarrow> db \<Rightarrow> uuid \<Rightarrow> relay_error + KeyringState" where
  "loadKeyringState env d masterID =
     and_then (found ErrMasterIdentityNotFound (identities_FindByID d masterID)) (\<lambda>identity.
     and_then (wrote (masterKeys_ListByMasterID d masterID)) (\<lambda>keys.
       Inr \<lparr>StMasterID = show_uuid env masterID, StSeq = KeyringSeq identity,
            StHeadHash = KeyringHeadHash identity, StKeys = map (key_state env) keys\<rparr>))"

definition request_status :: "relay_env \<Rightarrow> AuthRequest \<Rightarrow> AuthStatus" where
  "request_status env r =
     \<lparr>AsState = (if ReqApprovedAt r \<noteq> None then AuthStatusApproved
                 else if ReqExpiresAt r < now env then AuthStatusExpired else AuthStatusPending),
      AsRequestID = show_uuid env (ReqID r), AsMachineID = show_uuid env (ReqMachine r),
      AsMachineSignPub = b64_encode env (ReqSignPub r), AsMachineEncPub = b64_encode env (ReqEncPub r),
      AsHostname = ReqHostname r, AsChallenge = b64_encode env (ReqChallenge r),
      AsExpiresAt = ReqExpiresAt r, AsApprovedAt = None, AsApprovedBy = [], AsApprovalSignature = [],
      AsMasterID = [], AsKeyring = None, AsRelayPubKey = [], AsRelaySignature = [],
      AsPollToken = ReqPollToken r\<rparr>"

definition sign_status :: "auth_env \<Rightarrow> AuthRequest \<Rightarrow> AuthStatus \<Rightarrow> AuthStatus" where
  "sign_status env r status =
     (let status = status\<lparr>AsRelayPubKey := b64_encode (core env) (relaySignPub env)\<rparr>
      in status\<lparr>AsRelaySignature := b64_encode (core env) (relay_sign env
           (buildAuthStatusSignaturePayload status (show_uuid (core env) (ReqID r))))\<rparr>)"

definition getAuthStatus :: "auth_env \<Rightarrow> db \<Rightarrow> uuid \<Rightarrow> relay_error + AuthStatus" where
  "getAuthStatus env d requestID =
     and_then (found ErrAuthRequestNotFound (requests_FindByID d requestID)) (\<lambda>r.
       let status = request_status (core env) r
       in case (ReqApprovedAt r, ReqApprovedBy r) of
            (Some at, Some by) \<Rightarrow>
              let status = status\<lparr>AsApprovedAt := Some at, AsApprovedBy := by,
                                  AsApprovalSignature := b64_encode (core env) (ReqApprovalSignature r)\<rparr>
              in (case masterKeys_FindByFingerprint d by of
                    Inr masterKey \<Rightarrow>
                      and_then (loadKeyringState (core env) d (KeyMaster masterKey)) (\<lambda>keyring.
                        Inr (sign_status env r (status\<lparr>AsMasterID := show_uuid (core env) (KeyMaster masterKey),
                                                        AsKeyring := Some keyring\<rparr>)))
                  | Inl RecordNotFound \<Rightarrow> Inr (sign_status env r status)
                  | Inl err \<Rightarrow> Inl (ErrRepository err))
          | _ \<Rightarrow> Inr status)"

definition GetAuthStatus :: "auth_env \<Rightarrow> db \<Rightarrow> uuid \<Rightarrow> string \<Rightarrow> relay_error + AuthStatus" where
  "GetAuthStatus env d requestID pollToken =
     and_then (getAuthStatus env d requestID) (\<lambda>status.
       if AsState status = AuthStatusApproved \<and>
          (AsExpiresAt status < now (core env) \<or> pollToken = [] \<or> pollToken \<noteq> AsPollToken status)
       then Inr (status\<lparr>AsKeyring := None, AsMasterID := [], AsRelayPubKey := [], AsRelaySignature := [],
                        AsApprovalSignature := [], AsApprovedBy := []\<rparr>)
       else Inr status)"


definition validateInitialKeyringUpdate ::
  "relay_env \<Rightarrow> KeyringUpdateInput \<Rightarrow> uuid \<Rightarrow> string \<Rightarrow> string \<Rightarrow> relay_error option" where
  "validateInitialKeyringUpdate env update masterID signPub encPub =
     (if InMasterID update = [] then Some ErrKeyringUpdateMasterIDMissing
      else if InMasterID update \<noteq> show_uuid env masterID then Some ErrKeyringUpdateMasterIDMismatch
      else if InSeq update \<noteq> 1 then Some ErrKeyringUpdateSeqInvalid
      else if InPrevHash update \<noteq> [] then Some ErrKeyringUpdatePrevHashInvalid
      else if InAction update \<noteq> KeyringActionAdd then Some ErrKeyringUpdateActionInvalid
      else if InTargetSignPub update \<noteq> signPub then Some ErrKeyringUpdateTargetMasterSignMismatch
      else if InTargetEncPub update \<noteq> encPub then Some ErrKeyringUpdateTargetMasterEncMismatch
      else if InSigner update \<noteq> HashKeyFingerprint env signPub then Some ErrKeyringUpdateSignerFingerprintMismatch
      else None)"

text \<open>The master of the approval: of its key when that is known, else a new one.\<close>

definition known_master ::
  "relay_env \<Rightarrow> AuthApproveInput \<Rightarrow> MasterKey \<Rightarrow> relay_error + uuid" where
  "known_master env input key =
     (if KeyRevokedAt key \<noteq> None then Inl ErrMasterKeyRevoked
      else if MasterEncPub key \<noteq> ApEncPub input then Inl ErrMasterEncPubMismatch
      else if ApMasterID input \<noteq> [] \<and>
        (case parse_uuid env (ApMasterID input) of None \<Rightarrow> False | Some m \<Rightarrow> m \<noteq> KeyMaster key)
        then Inl ErrMasterIDMismatch
      else Inr (KeyMaster key))"

definition first_master ::
  "relay_env \<Rightarrow> AuthApproveInput \<Rightarrow> string \<Rightarrow> db \<Rightarrow> relay_error + (uuid \<times> db)" where
  "first_master env input fingerprint d =
     (case ApKeyringUpdate input of
        None \<Rightarrow> Inl ErrKeyringUpdateRequired
      | Some update \<Rightarrow>
          if ApMasterID input = [] \<and> InMasterID update = [] then Inl ErrKeyringUpdateMasterIDMissing
          else
            (case parse_uuid env (if ApMasterID input = [] then InMasterID update else ApMasterID input) of
               None \<Rightarrow> Inl ErrInvalidMasterID
             | Some masterID \<Rightarrow>
                 (case identities_FindByID d masterID of
                    Inr _ \<Rightarrow> Inl ErrMasterIdentityExists
                  | Inl RecordNotFound \<Rightarrow>
                      (case validateInitialKeyringUpdate env update masterID (ApSignPub input) (ApEncPub input) of
                         Some err \<Rightarrow> Inl err
                       | None \<Rightarrow>
                           let updateMsg = update_message env update
                           in if \<not> VerifySignature env (ApSignPub input) updateMsg (InSignature update)
                              then Inl ErrInvalidKeyringUpdateSignature
                              else
                                and_then (wrote (identities_Create d \<lparr>IdentityID = masterID,
                                   KeyringSeq = InSeq update, KeyringHeadHash = HashBytes env updateMsg\<rparr>)) (\<lambda>d.
                                and_then (wrote (masterKeys_Create d
                                  \<lparr>KeyMaster = masterID, MasterSignKeyFingerprint = fingerprint,
                                   MasterSignPub = ApSignPub input, MasterEncPub = ApEncPub input,
                                   KeyRevokedAt = None, AddedBy = Some fingerprint,
                                   KeyringSeqAdded = InSeq update\<rparr>)) (\<lambda>d.
                                and_then (wrote (updates_Create d
                                  \<lparr>UpdMaster = masterID, UpdSeq = InSeq update, UpdPrevHash = InPrevHash update,
                                   UpdHash = HashBytes env updateMsg, UpdAction = InAction update,
                                   UpdTargetFingerprint = fingerprint, UpdTargetSignPub = ApSignPub input,
                                   UpdTargetEncPub = ApEncPub input, UpdSigner = InSigner update,
                                   UpdSignature = InSignature update\<rparr>)) (\<lambda>d.
                                Inr (masterID, d)))))
                  | Inl err \<Rightarrow> Inl (ErrRepository err))))"

definition bind_machine :: "relay_env \<Rightarrow> AuthRequest \<Rightarrow> uuid \<Rightarrow> db \<Rightarrow> relay_error + db" where
  "bind_machine env r masterID d =
     (case machines_FindByID d (ReqMachine r) of
        Inr m \<Rightarrow>
          if MachineMaster m \<noteq> masterID then Inl ErrMachineAlreadyBound
          else if MachineRevokedAt m \<noteq> None then Inl ErrBoundMachineRevoked
          else Inr d
      | Inl RecordNotFound \<Rightarrow>
          wrote (machines_Create d
            \<lparr>MachineID = ReqMachine r, MachineMaster = masterID,
             MachineSignKeyFingerprint = HashKeyFingerprint env (ReqSignPub r),
             MachineSignPub = ReqSignPub r, MachineEncPub = ReqEncPub r, MachineHostname = [],
             MachineLastSeenAt = now env, MachineRevokedAt = None\<rparr>)
      | Inl err \<Rightarrow> Inl (ErrRepository err))"

definition approval_message :: "relay_env \<Rightarrow> AuthRequest \<Rightarrow> string" where
  "approval_message env r =
     BuildApprovalMessage (show_uuid env (ReqID r)) (b64_encode env (ReqSignPub r)) (b64_encode env (ReqEncPub r))
       (b64_encode env (ReqChallenge r)) (to_unix (ReqExpiresAt r))"

definition approve_request ::
  "auth_env \<Rightarrow> uuid \<Rightarrow> AuthApproveInput \<Rightarrow> db \<Rightarrow> relay_error + (AuthStatus \<times> db)" where
  "approve_request env requestID input d =
     (let core = core env
      in and_then (found ErrAuthRequestNotFound (requests_FindByID d requestID)) (\<lambda>r.
         if ReqApprovedAt r \<noteq> None
         then and_then (getAuthStatus env d requestID) (\<lambda>status. Inr (status, d))
         else if ReqExpiresAt r < now core then Inl ErrAuthRequestExpired
         else if \<not> VerifySignature core (ApSignPub input) (approval_message core r) (ApSignature input)
           then Inl ErrInvalidMasterApprovalSignature
         else
           let fingerprint = HashKeyFingerprint core (ApSignPub input)
           in and_then
                (case masterKeys_FindByFingerprint d fingerprint of
                   Inr key \<Rightarrow> and_then (known_master core input key) (\<lambda>m. Inr (m, d))
                 | Inl RecordNotFound \<Rightarrow> first_master core input fingerprint d
                 | Inl err \<Rightarrow> Inl (ErrRepository err)) (\<lambda>(masterID, d).
              and_then (bind_machine core r masterID d) (\<lambda>d.
              and_then (wrote (requests_Update d (r\<lparr>ReqApprovedAt := Some (now core),
                  ReqApprovedBy := Some fingerprint, ReqApprovalSignature := ApSignature input\<rparr>))) (\<lambda>d.
              and_then (getAuthStatus env d requestID) (\<lambda>status.
              Inr (status, d)))))))"

definition ApproveAuthRequest ::
  "auth_env \<Rightarrow> uuid \<Rightarrow> AuthApproveInput \<Rightarrow> db \<Rightarrow> (relay_error + AuthStatus) \<times> db" where
  "ApproveAuthRequest env requestID input d = InTx (approve_request env requestID input) d"

text \<open>One tick of StartCleanup; its errors are dropped.\<close>

definition cleanup_tick :: "relay_env \<Rightarrow> db \<Rightarrow> db" where
  "cleanup_tick env d =
     (let cutoff = now env - 60000000000;
          d = (case requests_DeleteExpired d cutoff of Inl _ \<Rightarrow> d | Inr d \<Rightarrow> d)
      in (case requests_NullifyExpiredPollTokens d cutoff of Inl _ \<Rightarrow> d | Inr d \<Rightarrow> d))"

end
