(* ===== verification/Identity.thy ===== *)
theory Identity
  imports Pairing Tokens
begin

text \<open>
  What the pairing and keyring services guarantee together: the steps they make on the relay's
  database, the keyring of every master as a verifiable chain, and who may bind a machine.
\<close>

section \<open>Effect of an approval\<close>

definition first_key :: "string \<Rightarrow> uuid \<Rightarrow> AuthApproveInput \<Rightarrow> KeyringUpdateInput \<Rightarrow> MasterKey" where
  "first_key fp m input update =
     \<lparr>KeyMaster = m, MasterSignKeyFingerprint = fp, MasterSignPub = ApSignPub input,
      MasterEncPub = ApEncPub input, KeyRevokedAt = None, AddedBy = Some fp, KeyringSeqAdded = InSeq update\<rparr>"

definition first_update ::
  "relay_env \<Rightarrow> string \<Rightarrow> uuid \<Rightarrow> AuthApproveInput \<Rightarrow> KeyringUpdateInput \<Rightarrow> KeyringUpdate" where
  "first_update env fp m input update =
     \<lparr>UpdMaster = m, UpdSeq = InSeq update, UpdPrevHash = InPrevHash update,
      UpdHash = HashBytes env (update_message env update), UpdAction = InAction update,
      UpdTargetFingerprint = fp, UpdTargetSignPub = ApSignPub input, UpdTargetEncPub = ApEncPub input,
      UpdSigner = InSigner update, UpdSignature = InSignature update\<rparr>"

definition founded :: "relay_env \<Rightarrow> string \<Rightarrow> uuid \<Rightarrow> AuthApproveInput \<Rightarrow> KeyringUpdateInput \<Rightarrow> db \<Rightarrow> db" where
  "founded env fp m input update d =
     d\<lparr>MasterIdentities := MasterIdentities d @ [\<lparr>IdentityID = m, KeyringSeq = InSeq update,
         KeyringHeadHash = HashBytes env (update_message env update)\<rparr>],
       MasterKeys := MasterKeys d @ [first_key fp m input update],
       KeyringUpdates := KeyringUpdates d @ [first_update env fp m input update]\<rparr>"

lemma first_master_Inr:
  assumes "first_master env input fp d = Inr (m, d')"
  obtains update where "ApKeyringUpdate input = Some update"
    "validateInitialKeyringUpdate env update m (ApSignPub input) (ApEncPub input) = None"
    "VerifySignature env (ApSignPub input) (update_message env update) (InSignature update)"
    "identity_of d m = None" "\<not> (\<exists>k\<in>set (MasterKeys d). MasterSignKeyFingerprint k = fp)"
    "d' = founded env fp m input update d"
proof -
  let ?id = "\<lambda>update. \<lparr>IdentityID = m, KeyringSeq = InSeq update,
      KeyringHeadHash = HashBytes env (update_message env update)\<rparr>"
  from assms obtain update d1 d2 where u: "ApKeyringUpdate input = Some update"
    "identities_FindByID d m = Inl RecordNotFound"
    "validateInitialKeyringUpdate env update m (ApSignPub input) (ApEncPub input) = None"
    "VerifySignature env (ApSignPub input) (update_message env update) (InSignature update)"
    and c: "identities_Create d (?id update) = Inr d1" "masterKeys_Create d1 (first_key fp m input update) = Inr d2"
      "updates_Create d2 (first_update env fp m input update) = Inr d'"
    unfolding first_master_def
    by (auto simp: Let_def and_then_Inr wrote_Inr first_key_def first_update_def
        split: option.splits if_splits sum.splits repo_error.splits)
  from c(1) have d1: "d1 = d\<lparr>MasterIdentities := MasterIdentities d @ [?id update]\<rparr>"
    by (auto simp: identities_Create_def split: if_splits)
  from c(2) d1 have d2: "d2 = d1\<lparr>MasterKeys := MasterKeys d @ [first_key fp m input update]\<rparr>"
    and n: "\<not> (\<exists>k\<in>set (MasterKeys d). MasterSignKeyFingerprint k = fp)"
    by (auto simp: masterKeys_Create_def first_key_def list_ex_iff split: if_splits)
  from c(3) d1 d2 have "d' = founded env fp m input update d"
    by (auto simp: updates_Create_def founded_def split: if_splits)
  moreover have "identity_of d m = None"
    using u(2) by (auto simp: identities_FindByID_def select_one_def identity_of_def split: if_splits option.splits)
  ultimately show ?thesis using that u n by blast
qed

definition bound_machine :: "relay_env \<Rightarrow> AuthRequest \<Rightarrow> uuid \<Rightarrow> Machine" where
  "bound_machine env r m =
     \<lparr>MachineID = ReqMachine r, MachineMaster = m, MachineSignKeyFingerprint = HashKeyFingerprint env (ReqSignPub r),
      MachineSignPub = ReqSignPub r, MachineEncPub = ReqEncPub r, MachineHostname = [],
      MachineLastSeenAt = now env, MachineRevokedAt = None\<rparr>"

lemma bind_machine_Inr:
  assumes "bind_machine env r m d = Inr d'"
  shows "(\<exists>row. machines_FindByID d (ReqMachine r) = Inr row \<and> MachineMaster row = m \<and>
            MachineRevokedAt row = None \<and> d' = d) \<or>
    machines_FindByID d (ReqMachine r) = Inl RecordNotFound \<and>
      d' = d\<lparr>Machines := Machines d @ [bound_machine env r m]\<rparr>"
  using assms
  by (auto simp: bind_machine_def wrote_Inr machines_Create_def bound_machine_def
      split: sum.splits repo_error.splits if_splits)

text \<open>The approved request in the table.\<close>

definition approved :: "relay_env \<Rightarrow> AuthApproveInput \<Rightarrow> AuthRequest \<Rightarrow> AuthRequest" where
  "approved env input r = r\<lparr>ReqApprovedAt := Some (now env),
     ReqApprovedBy := Some (HashKeyFingerprint env (ApSignPub input)), ReqApprovalSignature := ApSignature input\<rparr>"

lemma requests_Update_Inr:
  "requests_Update d r = Inr d' \<Longrightarrow> \<exists>rs. d' = d\<lparr>AuthRequests := rs\<rparr>"
  by (auto simp: requests_Update_def split: if_splits)

lemma approve_Inr:
  assumes "approve_request env i input d = Inr (status, d')"
  obtains (again) r where "requests_FindByID d i = Inr r" "ReqApprovedAt r \<noteq> None" "d' = d"
    "getAuthStatus env d i = Inr status"
  | (first) r m d1 d2 where "requests_FindByID d i = Inr r" "ReqApprovedAt r = None"
    "now (core env) \<le> ReqExpiresAt r"
    "VerifySignature (core env) (ApSignPub input) (approval_message (core env) r) (ApSignature input)"
    "(\<exists>key. masterKeys_FindByFingerprint d (HashKeyFingerprint (core env) (ApSignPub input)) = Inr key \<and>
        known_master (core env) input key = Inr m \<and> d1 = d) \<or>
     first_master (core env) input (HashKeyFingerprint (core env) (ApSignPub input)) d = Inr (m, d1)"
    "bind_machine (core env) r m d1 = Inr d2" "requests_Update d2 (approved (core env) input r) = Inr d'"
    "getAuthStatus env d' i = Inr status"
proof (cases "requests_FindByID d i")
  case (Inl e)
  with assms show ?thesis by (simp add: approve_request_def found_def and_then_def split: repo_error.splits)
next
  case (Inr r)
  show ?thesis
  proof (cases "ReqApprovedAt r = None")
    case False
    with assms Inr show ?thesis by (intro again) (auto simp: approve_request_def Let_def and_then_Inr found_Inr)
  next
    case True
    from assms Inr True obtain m d1 d2 where
      f: "now (core env) \<le> ReqExpiresAt r"
      "VerifySignature (core env) (ApSignPub input) (approval_message (core env) r) (ApSignature input)"
      and k: "(case masterKeys_FindByFingerprint d (HashKeyFingerprint (core env) (ApSignPub input)) of
                Inr key \<Rightarrow> and_then (known_master (core env) input key) (\<lambda>m. Inr (m, d))
              | Inl RecordNotFound \<Rightarrow> first_master (core env) input (HashKeyFingerprint (core env) (ApSignPub input)) d
              | Inl err \<Rightarrow> Inl (ErrRepository err)) = Inr (m, d1)"
      and b: "bind_machine (core env) r m d1 = Inr d2" "requests_Update d2 (approved (core env) input r) = Inr d'"
      "getAuthStatus env d' i = Inr status"
      unfolding approve_request_def approved_def
      by (auto simp: Let_def and_then_Inr found_Inr wrote_Inr split: if_splits)
    from k have "(\<exists>key. masterKeys_FindByFingerprint d (HashKeyFingerprint (core env) (ApSignPub input)) = Inr key \<and>
        known_master (core env) input key = Inr m \<and> d1 = d) \<or>
     first_master (core env) input (HashKeyFingerprint (core env) (ApSignPub input)) d = Inr (m, d1)"
      by (auto simp: and_then_Inr split: sum.splits repo_error.splits)
    with first Inr True f b show ?thesis by blast
  qed
qed


section \<open>Steps of the services on the database\<close>

inductive db_step :: "relay_env \<Rightarrow> db \<Rightarrow> db \<Rightarrow> bool" for env where
  db_update: "db_step env d (snd (keyring_Update (env\<lparr>now := t\<rparr>) param body d))"
| db_approve: "core a = env\<lparr>now := t\<rparr> \<Longrightarrow> db_step env d (snd (ApproveAuthRequest a i input d))"
| db_create: "core a = env\<lparr>now := t\<rparr> \<Longrightarrow> db_step env d (snd (CreateAuthRequest a m sign enc hostname d))"
| db_tick: "db_step env d (cleanup_tick (env\<lparr>now := t\<rparr>) d)"
| db_seen: "machines_UpdateLastSeenAndHostname d m t hostname = Inr d' \<Longrightarrow> db_step env d d'"
| db_up: "db_step env d (d\<lparr>dbUp := b\<rparr>)"

definition empty_db :: db where
  "empty_db = \<lparr>dbUp = True, Machines = [], MasterKeys = [], MasterIdentities = [], KeyringUpdates = [],
     AuthRequests = []\<rparr>"

inductive db_reaches :: "relay_env \<Rightarrow> db \<Rightarrow> bool" for env where
  db_start: "db_reaches env empty_db"
| db_next: "db_reaches env d \<Longrightarrow> db_step env d d' \<Longrightarrow> db_reaches env d'"

text \<open>The keyring tables.\<close>

definition same_keyrings :: "db \<Rightarrow> db \<Rightarrow> bool" where
  "same_keyrings d d' \<longleftrightarrow> MasterIdentities d' = MasterIdentities d \<and> MasterKeys d' = MasterKeys d \<and>
     KeyringUpdates d' = KeyringUpdates d"

lemma same_keyrings_ok:
  assumes "same_keyrings d d'"
  shows "keyring_ok env d' m \<longleftrightarrow> keyring_ok env d m" and "keys_ok env d' \<longleftrightarrow> keys_ok env d"
proof -
  have "updates_of d' m = updates_of d m" "genuine env d' m = genuine env d m" "identity_of d' m = identity_of d m"
    using assms by (simp_all add: same_keyrings_def updates_of_def genuine_def identity_of_def fun_eq_iff)
  then show "keyring_ok env d' m \<longleftrightarrow> keyring_ok env d m"
    by (simp add: keyring_ok_def split: option.split)
  show "keys_ok env d' \<longleftrightarrow> keys_ok env d" using assms by (simp add: same_keyrings_def keys_ok_def)
qed

lemma find_append:
  "find P (xs @ ys) = (case find P xs of None \<Rightarrow> find P ys | Some x \<Rightarrow> Some x)"
  by (induction xs) auto

text \<open>A handler's step: nothing, or one update of the keyring it names.\<close>

lemma snd_response:
  "snd (case r of (Inl err, d) \<Rightarrow> (f err, d) | (Inr x, d) \<Rightarrow> (c, d)) = snd r"
  by (cases r; cases "fst r") auto

lemma keyring_Update_calls:
  "snd (keyring_Update env param body d) = d \<or>
   (\<exists>m input. snd (keyring_Update env param body d) = snd (UpdateKeyring env m input d) \<and>
      InMasterID input = show_uuid env m)"
  unfolding keyring_Update_def Let_def
  by (simp add: snd_response split: option.split)
    (intro conjI impI allI disjI2 exI, (rule refl | simp)+)

lemma keyring_Update_cases:
  "snd (keyring_Update env param body d) = d \<or>
   (\<exists>m input. InMasterID input = show_uuid env m \<and> update_checked env m input d \<and>
      snd (keyring_Update env param body d) = update_applied env m input d)"
  using keyring_Update_calls [of env param body d]
proof (elim disjE exE conjE)
  fix m input
  assume "snd (keyring_Update env param body d) = snd (UpdateKeyring env m input d)" "InMasterID input = show_uuid env m"
  moreover from UpdateKeyring_cases [of env m input d] have "snd (UpdateKeyring env m input d) = d \<or>
      update_checked env m input d \<and> snd (UpdateKeyring env m input d) = update_applied env m input d" by auto
  ultimately show ?thesis by metis
qed simp

lemma founded_keys_ok:
  assumes "keys_ok env d" "fp = HashKeyFingerprint env (ApSignPub input)"
    "\<not> (\<exists>k\<in>set (MasterKeys d). MasterSignKeyFingerprint k = fp)"
  shows "keys_ok env (founded env' fp m input update d)"
  using assms by (auto simp: keys_ok_def founded_def first_key_def image_iff)

lemma founded_keyring_ok:
  assumes ok: "keyring_ok env d m'" and fp: "fp = HashKeyFingerprint env (ApSignPub input)"
    and v: "validateInitialKeyringUpdate env update m (ApSignPub input) (ApEncPub input) = None"
    and sig: "VerifySignature env (ApSignPub input) (update_message env update) (InSignature update)"
    and new: "identity_of d m = None"
  shows "keyring_ok env (founded env fp m input update d) m'"
proof (cases "m' = m")
  case False
  have id: "identity_of (founded env fp m input update d) m' = identity_of d m'"
    using False by (simp add: identity_of_def founded_def find_append split: option.split)
  have "updates_of (founded env fp m input update d) m' = updates_of d m'"
    using False by (auto simp: updates_of_def founded_def first_update_def)
  with id show ?thesis
    by (intro keyring_ok_other [OF ok] keys_kept_set) (auto simp: founded_def)
next
  case True
  let ?d = "founded env fp m input update d" and ?u = "first_update env fp m input update"
  from v have u: "InMasterID update = show_uuid env m" "InSeq update = 1" "InPrevHash update = []"
    "InTargetSignPub update = ApSignPub input" "InTargetEncPub update = ApEncPub input" "InSigner update = fp"
    by (auto simp: validateInitialKeyringUpdate_def fp split: if_splits)
  from ok new True have "updates_of d m = []" by (simp add: keyring_ok_def)
  then have us: "updates_of ?d m = [?u]" by (simp add: updates_of_def founded_def first_update_def)
  have id: "identity_of ?d m = Some \<lparr>IdentityID = m, KeyringSeq = 1,
      KeyringHeadHash = HashBytes env (update_message env update)\<rparr>"
    using new u by (simp add: identity_of_def founded_def find_append)
  have msg: "stored_message env m ?u = update_message env update"
    by (simp add: stored_message_def update_message_def first_update_def u)
  have "first_key fp m input update \<in> set (MasterKeys ?d)" by (simp add: founded_def)
  moreover have "KeyMaster (first_key fp m input update) = m"
    "MasterSignKeyFingerprint (first_key fp m input update) = UpdSigner ?u"
    "VerifySignature env (MasterSignPub (first_key fp m input update)) (stored_message env m ?u) (UpdSignature ?u)"
    using sig msg u by (simp_all add: first_key_def first_update_def)
  ultimately have "genuine env ?d m ?u"
    using msg unfolding genuine_def by (auto simp: first_update_def)
  with True us id u show ?thesis by (simp add: keyring_ok_def) (simp add: first_update_def u)
qed


lemma same_keyrings_trans: "same_keyrings d d' \<Longrightarrow> same_keyrings d' d'' \<Longrightarrow> same_keyrings d d''"
  by (simp add: same_keyrings_def)

lemma bind_update_same:
  assumes "bind_machine env r m d1 = Inr d2" "requests_Update d2 r' = Inr d'"
  shows "same_keyrings d1 d'"
  using bind_machine_Inr [OF assms(1)] requests_Update_Inr [OF assms(2)] by (auto simp: same_keyrings_def)

lemma validate_now: "validateInitialKeyringUpdate (env\<lparr>now := t\<rparr>) u m sp ep = validateInitialKeyringUpdate env u m sp ep"
  by (simp add: validateInitialKeyringUpdate_def)

lemma genuine_now: "genuine (env\<lparr>now := t\<rparr>) = genuine env"
  by (simp add: genuine_def stored_message_def fun_eq_iff)

lemma keyrings_now: "keyring_ok (env\<lparr>now := t\<rparr>) = keyring_ok env" "keys_ok (env\<lparr>now := t\<rparr>) = keys_ok env"
  unfolding fun_eq_iff keyring_ok_def keys_ok_def genuine_now by simp_all

lemma approve_keeps_keyrings:
  assumes "core a = env\<lparr>now := t\<rparr>" "keyring_ok env d m'" "keys_ok env d"
  shows "keyring_ok env (snd (ApproveAuthRequest a i input d)) m' \<and>
    keys_ok env (snd (ApproveAuthRequest a i input d))"
proof (cases "approve_request a i input d")
  case (Inl e)
  with assms show ?thesis by (simp add: ApproveAuthRequest_def InTx_def)
next
  case (Inr x)
  then obtain status d' where x: "x = (status, d')" by (cases x)
  with Inr have d': "snd (ApproveAuthRequest a i input d) = d'" by (simp add: ApproveAuthRequest_def InTx_def)
  from Inr [unfolded x] have "keyring_ok env d' m' \<and> keys_ok env d'"
  proof (cases rule: approve_Inr)
    case (again r)
    with assms show ?thesis by simp
  next
    case (first r m d1 d2)
    let ?fp = "HashKeyFingerprint env (ApSignPub input)"
    from bind_update_same [OF first(6,7)] have same: "same_keyrings d1 d'" .
    have "keyring_ok env d1 m' \<and> keys_ok env d1"
    proof (cases "d1 = d")
      case True
      with assms show ?thesis by simp
    next
      case False
      with first(5) assms(1) have "first_master (env\<lparr>now := t\<rparr>) input ?fp d = Inr (m, d1)" by auto
      then obtain update where u:
        "validateInitialKeyringUpdate (env\<lparr>now := t\<rparr>) update m (ApSignPub input) (ApEncPub input) = None"
        "VerifySignature env (ApSignPub input) (update_message env update) (InSignature update)"
        "identity_of d m = None" "\<not> (\<exists>k\<in>set (MasterKeys d). MasterSignKeyFingerprint k = ?fp)"
        "d1 = founded (env\<lparr>now := t\<rparr>) ?fp m input update d"
        by (rule first_master_Inr) simp
      have "founded (env\<lparr>now := t\<rparr>) ?fp m input update d = founded env ?fp m input update d"
        by (simp add: founded_def first_update_def)
      moreover have "validateInitialKeyringUpdate env update m (ApSignPub input) (ApEncPub input) = None"
        using u(1) by (simp add: validate_now)
      ultimately show ?thesis
        using founded_keyring_ok [OF assms(2) refl _ u(2,3)] founded_keys_ok [OF assms(3) refl u(4)] u(5) by simp
    qed
    with same_keyrings_ok [OF same] show ?thesis by simp
  qed
  with d' show ?thesis by simp
qed

lemma update_keeps_keyrings:
  assumes "keyring_ok env d m'" "keys_ok env d"
  shows "keyring_ok env (snd (keyring_Update (env\<lparr>now := t\<rparr>) param body d)) m' \<and>
    keys_ok env (snd (keyring_Update (env\<lparr>now := t\<rparr>) param body d))"
  using keyring_Update_cases [of "env\<lparr>now := t\<rparr>" param body d]
proof (elim disjE exE conjE)
  fix m input
  assume u: "InMasterID input = show_uuid (env\<lparr>now := t\<rparr>) m" "update_checked (env\<lparr>now := t\<rparr>) m input d"
    "snd (keyring_Update (env\<lparr>now := t\<rparr>) param body d) = update_applied (env\<lparr>now := t\<rparr>) m input d"
  from keyring_ok_applied [OF _ u(2,1), of m'] keys_ok_applied [OF _ u(2)] assms u(3)
  show ?thesis by (simp only: keyrings_now)
qed (use assms in simp)

lemma db_step_keyrings:
  assumes "db_step env d d'" "keyring_ok env d m" "keys_ok env d"
  shows "keyring_ok env d' m \<and> keys_ok env d'"
  using assms
proof (cases rule: db_step.cases)
  case (db_update t param body)
  with update_keeps_keyrings assms show ?thesis by simp
next
  case (db_approve a t i input)
  with approve_keeps_keyrings assms show ?thesis by simp
next
  case (db_create a t m sign enc hostname)
  then have "same_keyrings d d'"
    by (auto simp: same_keyrings_def CreateAuthRequest_def requests_Create_def Let_def split: option.splits)
  with same_keyrings_ok assms show ?thesis by blast
next
  case (db_tick t)
  then have "same_keyrings d d'"
    by (simp add: same_keyrings_def cleanup_tick_def requests_DeleteExpired_def requests_NullifyExpiredPollTokens_def Let_def)
  with same_keyrings_ok assms show ?thesis by blast
next
  case (db_seen m t hostname)
  then have "same_keyrings d d'"
    by (auto simp: same_keyrings_def machines_UpdateLastSeenAndHostname_def split: if_splits)
  with same_keyrings_ok assms show ?thesis by blast
next
  case (db_up b)
  then have "same_keyrings d d'" by (simp add: same_keyrings_def)
  with same_keyrings_ok assms show ?thesis by blast
qed

lemma db_reaches_keyrings: "db_reaches env d \<Longrightarrow> keyring_ok env d m \<and> keys_ok env d"
proof (induction rule: db_reaches.induct)
  case db_start
  show ?case by (simp add: keyring_ok_def keys_ok_def empty_db_def identity_of_def updates_of_def)
next
  case (db_next d d')
  with db_step_keyrings show ?case by blast
qed

section \<open>Machines keep their master\<close>

lemma master_of_machines: "Machines d' = Machines d \<Longrightarrow> master_of d' = master_of d"
  by (simp add: master_of_def fun_eq_iff)

lemma approve_machines:
  assumes "core a = env\<lparr>now := t\<rparr>" "master_of d m = Some x"
  shows "master_of (snd (ApproveAuthRequest a i input d)) m = Some x"
proof (cases "approve_request a i input d")
  case (Inl e)
  with assms show ?thesis by (simp add: ApproveAuthRequest_def InTx_def)
next
  case (Inr y)
  then obtain status d' where y: "y = (status, d')" by (cases y)
  with Inr have d': "snd (ApproveAuthRequest a i input d) = d'" by (simp add: ApproveAuthRequest_def InTx_def)
  from Inr [unfolded y] have "master_of d' m = Some x"
  proof (cases rule: approve_Inr)
    case (again r)
    with assms show ?thesis by simp
  next
    case (first r m1 d1 d2)
    from first(5) have "Machines d1 = Machines d"
      by (auto elim!: first_master_Inr simp: founded_def)
    with assms(2) have "master_of d1 m = Some x" using master_of_machines by metis
    with bind_machine_Inr [OF first(6)] have "master_of d2 m = Some x"
      by (auto simp: master_of_def find_append)
    with requests_Update_Inr [OF first(7)] show ?thesis by (auto simp: master_of_def)
  qed
  with d' show ?thesis by simp
qed

lemma db_step_masters:
  assumes "db_step env d d'" "master_of d m = Some x"
  shows "master_of d' m = Some x"
  using assms
proof (cases rule: db_step.cases)
  case (db_update t param body)
  with keyring_Update_cases [of "env\<lparr>now := t\<rparr>" param body d] assms(2) show ?thesis
    by (auto simp: update_applied_def master_of_def)
next
  case (db_approve a t i input)
  with approve_machines assms(2) show ?thesis by simp
next
  case (db_create a t m sign enc hostname)
  with assms(2) show ?thesis
    by (auto simp: CreateAuthRequest_def requests_Create_def Let_def master_of_def split: option.splits)
next
  case (db_tick t)
  with assms(2) show ?thesis
    by (simp add: cleanup_tick_def requests_DeleteExpired_def requests_NullifyExpiredPollTokens_def Let_def master_of_def)
next
  case (db_seen m t hostname)
  with master_of_update assms(2) show ?thesis by metis
next
  case (db_up b)
  with assms(2) show ?thesis by (simp add: master_of_def)
qed


section \<open>Keys stay as they are\<close>

lemma revoked_key_step:
  assumes "db_step env d d'" "key \<in> set (MasterKeys d)" "KeyRevokedAt key \<noteq> None"
  shows "key \<in> set (MasterKeys d')"
  using assms
proof (cases rule: db_step.cases)
  case (db_update t param body)
  have "key \<in> set (keys_after (env\<lparr>now := t\<rparr>) m input (MasterKeys d))" for m input
    using assms(2,3) by (auto simp: keys_after_set image_iff split: if_splits)
  with db_update keyring_Update_cases [of "env\<lparr>now := t\<rparr>" param body d] assms(2) show ?thesis by auto
next
  case (db_approve a t i input)
  show ?thesis
  proof (cases "approve_request a i input d")
    case (Inl e)
    with db_approve assms(2) show ?thesis by (simp add: ApproveAuthRequest_def InTx_def)
  next
    case (Inr y)
    then obtain status d2 where y: "y = (status, d2)" by (cases y)
    with Inr db_approve have d': "d' = d2" by (simp add: ApproveAuthRequest_def InTx_def)
    from Inr [unfolded y] have "key \<in> set (MasterKeys d2)"
    proof (cases rule: approve_Inr)
      case (again r)
      with assms(2) show ?thesis by simp
    next
      case (first r m d3 d4)
      from first(5) have "set (MasterKeys d) \<subseteq> set (MasterKeys d3)"
        by (auto elim!: first_master_Inr simp: founded_def)
      with bind_update_same [OF first(6,7)] assms(2) show ?thesis by (auto simp: same_keyrings_def)
    qed
    with d' show ?thesis by simp
  qed
next
  case (db_create a t m sign enc hostname)
  with assms(2) show ?thesis
    by (auto simp: CreateAuthRequest_def requests_Create_def Let_def split: option.splits)
next
  case (db_tick t)
  with assms(2) show ?thesis
    by (simp add: cleanup_tick_def requests_DeleteExpired_def requests_NullifyExpiredPollTokens_def Let_def)
next
  case (db_seen m t hostname)
  with assms(2) show ?thesis by (auto simp: machines_UpdateLastSeenAndHostname_def split: if_splits)
next
  case (db_up b)
  with assms(2) show ?thesis by simp
qed

lemma revoked_key_steps:
  "(db_step env)\<^sup>*\<^sup>* d d' \<Longrightarrow> key \<in> set (MasterKeys d) \<Longrightarrow> KeyRevokedAt key \<noteq> None \<Longrightarrow> key \<in> set (MasterKeys d')"
  by (induction rule: rtranclp_induct) (auto intro: revoked_key_step)

lemma db_reaches_steps: "(db_step env)\<^sup>*\<^sup>* d d' \<Longrightarrow> db_reaches env d \<Longrightarrow> db_reaches env d'"
  by (induction rule: rtranclp_induct) (auto intro: db_next)

section \<open>The chain as it is served\<close>

lemma chain_bound: "chain s h us \<Longrightarrow> u \<in> set us \<Longrightarrow> s < UpdSeq u"
  by (induction us arbitrary: s h) fastforce+

lemma chain_filter:
  "chain s h us \<Longrightarrow> 0 \<le> k \<Longrightarrow> filter (\<lambda>u. s + k < UpdSeq u) us = drop (nat k) us"
proof (induction us arbitrary: s h k)
  case (Cons u us)
  show ?case
  proof (cases "k = 0")
    case True
    have "filter (\<lambda>u. s < UpdSeq u) (u # us) = u # us"
      using chain_bound [OF Cons.prems(1)] by (intro filter_True) blast
    with True show ?thesis by simp
  next
    case False
    with Cons.prems have "filter (\<lambda>u. s + 1 + (k - 1) < UpdSeq u) us = drop (nat (k - 1)) us"
      by (intro Cons.IH) auto
    moreover have "nat k = Suc (nat (k - 1))" using False Cons.prems(2) by simp
    ultimately show ?thesis using Cons.prems False by simp
  qed
qed simp

lemma chain_sorted: "chain s h us \<Longrightarrow> sorted (map UpdSeq us)"
  by (induction us arbitrary: s h) (fastforce dest: chain_bound)+

lemma sort_slice_chain: "chain 0 [] us \<Longrightarrow> sort_slice update_before (drop n us) = drop n us"
  unfolding update_sort.sort_slice_key
  by (rule sort_key_id_if_sorted) (simp add: drop_map [symmetric] sorted_wrt_drop chain_sorted)


section \<open>A run\<close>

text \<open>A machine asks to be paired, and a new master approves it.\<close>

definition demo_auth :: auth_env where
  "demo_auth = \<lparr>core = demo_env, relaySignPub = ''r'', relay_sign = (\<lambda>s. s), new_request = 5,
     new_challenge = Some ''c'', new_poll_token = Some ''t''\<rparr>"

definition demo_first :: KeyringUpdateInput where
  "demo_first = \<lparr>InMasterID = ''1'', InSeq = 1, InPrevHash = [], InAction = ''add'',
     InTargetSignPub = replicate 32 CHR ''p'', InTargetEncPub = ''e'', InSigner = replicate 32 CHR ''p'',
     InSignature = demo_sig\<rparr>"

definition demo_approval :: AuthApproveInput where
  "demo_approval = \<lparr>ApMasterID = ''1'', ApSignPub = replicate 32 CHR ''p'', ApEncPub = ''e'',
     ApSignature = demo_sig, ApKeyringUpdate = Some demo_first\<rparr>"

definition demo_request :: AuthRequest where
  "demo_request = \<lparr>ReqID = 5, ReqMachine = 2, ReqSignPub = replicate 32 CHR ''q'', ReqEncPub = ''e'',
     ReqHostname = ''h'', ReqExpiresAt = 300000000000, ReqChallenge = ''c'', ReqPollToken = ''t'',
     ReqApprovedAt = None, ReqApprovedBy = None, ReqApprovalSignature = []\<rparr>"

definition requested_db :: db where
  "requested_db = empty_db\<lparr>AuthRequests := [demo_request]\<rparr>"

definition approved_db :: db where
  "approved_db = \<lparr>dbUp = True, Machines = [bound_machine demo_env demo_request 1],
     MasterKeys = [first_key (replicate 32 CHR ''p'') 1 demo_approval demo_first],
     MasterIdentities = [\<lparr>IdentityID = 1, KeyringSeq = 1, KeyringHeadHash = update_message demo_env demo_first\<rparr>],
     KeyringUpdates = [first_update demo_env (replicate 32 CHR ''p'') 1 demo_approval demo_first],
     AuthRequests = [approved demo_env demo_approval demo_request]\<rparr>"

lemma demo_requested: "snd (CreateAuthRequest demo_auth 2 (replicate 32 CHR ''q'') ''e'' ''h'' empty_db) = requested_db"
  by (simp add: CreateAuthRequest_def demo_auth_def requests_Create_def empty_db_def requested_db_def
      demo_request_def demo_env_def AuthRequestTTL_def Let_def)

lemmas pairing_simps =
  ApproveAuthRequest_def InTx_def approve_request_def and_then_def found_def wrote_def Let_def
  requests_FindByID_def select_one_def requested_db_def demo_request_def empty_db_def demo_auth_def
  VerifySignature_def demo_approval_def demo_first_def HashKeyFingerprint_def masterKeys_FindByFingerprint_def
  first_master_def identities_FindByID_def validateInitialKeyringUpdate_def KeyringActionAdd_def
  identities_Create_def masterKeys_Create_def updates_Create_def bind_machine_def machines_FindByID_def
  machines_Create_def requests_Update_def getAuthStatus_def

lemma demo_codecs [simp]:
  "now demo_env = 0" "parse_uuid demo_env ''1'' = Some 1" "show_uuid demo_env = show_nat"
  "b64_encode demo_env x = x" "b64_decode demo_env x = Some x" "ed25519_verify demo_env k x y" "sha256_text demo_env x = x"
  by (simp_all add: demo_env_def)

lemma show_one: "show_nat 1 = ''1''" "show_nat (Suc 0) = ''1''"
  by (simp_all add: show_nat.simps char_of_def bit_0)

lemma demo_approved:
  "\<exists>status. ApproveAuthRequest demo_auth 5 demo_approval requested_db = (Inr status, approved_db)"
  by (simp add: pairing_simps loadKeyringState_def masterKeys_ListByMasterID_def HashBytes_def show_one
      approved_db_def bound_machine_def first_key_def first_update_def approved_def)

lemma demo_core: "core demo_auth = demo_env\<lparr>now := 0\<rparr>"
  by (simp add: demo_auth_def demo_env_def)

lemma approved_reachable: "db_reaches demo_env approved_db"
proof -
  have "db_step demo_env empty_db requested_db"
    using db_create [OF demo_core] demo_requested by metis
  moreover obtain status where "ApproveAuthRequest demo_auth 5 demo_approval requested_db = (Inr status, approved_db)"
    using demo_approved by blast
  then have "db_step demo_env requested_db approved_db"
    using db_approve [OF demo_core, of requested_db 5 demo_approval] by simp
  ultimately show ?thesis by (blast intro: db_start db_next)
qed


section \<open>Properties\<close>

text \<open>
  C12: in every state the services can reach, a master's keyring is an unbroken, verifiable chain: its
  updates are numbered from 1, each names its predecessor's hash, the identity holds the number and
  the hash of the last one, every hash is that of the message the stored update spells out, and
  every message carries the signature of a key of that master.
\<close>

theorem keyring_is_a_verifiable_chain:
  assumes "db_reaches env d" and "identity_of d m = Some i"
  shows "chain 0 [] (updates_of d m) \<and> KeyringSeq i = int (length (updates_of d m)) \<and>
    KeyringHeadHash i = chain_head [] (updates_of d m) \<and>
    (\<forall>u\<in>set (updates_of d m). UpdHash u = HashBytes env (stored_message env m u) \<and>
       (\<exists>key\<in>set (MasterKeys d). KeyMaster key = m \<and> MasterSignKeyFingerprint key = UpdSigner u \<and>
          MasterSignKeyFingerprint key = HashKeyFingerprint env (MasterSignPub key) \<and>
          VerifySignature env (MasterSignPub key) (stored_message env m u) (UpdSignature u)))"
  using db_reaches_keyrings [OF assms(1), of m] assms(2)
  unfolding keyring_ok_def keys_ok_def genuine_def by fastforce

theorem keyring_is_a_verifiable_chain_witness:
  "\<exists>i. identity_of approved_db 1 = Some i \<and> KeyringSeq i = 1 \<and> chain 0 [] (updates_of approved_db 1)"
proof -
  have i: "identity_of approved_db 1 =
      Some \<lparr>IdentityID = 1, KeyringSeq = 1, KeyringHeadHash = update_message demo_env demo_first\<rparr>"
    by (simp add: identity_of_def approved_db_def)
  from keyring_is_a_verifiable_chain [OF approved_reachable i] i show ?thesis by simp
qed

text \<open>
  a client that pages through the keyring gets the chain: from any number it has seen, the
  updates served are exactly those that follow it, in order, up to the limit.
\<close>

theorem GetKeyringUpdates_serves_the_chain:
  assumes "db_reaches env d" and "dbUp d" and "identity_of d m = Some i" and "0 \<le> seen" and "0 < limit"
  shows "GetKeyringUpdates d m seen limit = Inr (take (nat limit) (drop (nat seen) (updates_of d m)))"
proof -
  from db_reaches_keyrings [OF assms(1), of m] assms(3) have c: "chain 0 [] (updates_of d m)"
    by (simp add: keyring_ok_def)
  have "filter (\<lambda>u. UpdMaster u = m \<and> seen < UpdSeq u) (KeyringUpdates d) =
      filter (\<lambda>u. 0 + seen < UpdSeq u) (updates_of d m)"
    by (simp add: updates_of_def conj_commute)
  also have "\<dots> = drop (nat seen) (updates_of d m)" by (rule chain_filter [OF c assms(4)])
  finally show ?thesis
    using assms(2,3,5) sort_slice_chain [OF c, of "nat seen"] find_identity [of d m i]
    by (simp add: GetKeyringUpdates_def updates_ListByMasterIDFromSeq_def found_def wrote_def and_then_def)
qed

theorem GetKeyringUpdates_serves_the_chain_witness:
  "GetKeyringUpdates approved_db 1 0 10 = Inr (take 10 (updates_of approved_db 1))"
proof -
  have i: "identity_of approved_db 1 =
      Some \<lparr>IdentityID = 1, KeyringSeq = 1, KeyringHeadHash = update_message demo_env demo_first\<rparr>"
    by (simp add: identity_of_def approved_db_def)
  from GetKeyringUpdates_serves_the_chain [OF approved_reachable _ i, of 0 10] show ?thesis
    by (simp add: approved_db_def)
qed

text \<open>
  an update of a keyring either fails and leaves the database as it was, or it was signed by a
  key of the master that is not revoked, over the message that names its number and its
  predecessor's hash, these being the next number and the current head; then exactly that update is
  appended, the head becomes its hash, and one key is added or revoked.
\<close>

theorem UpdateKeyring_appends_signed_updates:
  "(case UpdateKeyring env m input d of
      (Inl _, d') \<Rightarrow> d' = d
    | (Inr _, d') \<Rightarrow>
        (\<exists>i key. identity_of d m = Some i \<and> InSeq input = KeyringSeq i + 1 \<and> InPrevHash input = KeyringHeadHash i \<and>
           key \<in> set (MasterKeys d) \<and> KeyMaster key = m \<and> MasterSignKeyFingerprint key = InSigner input \<and>
           KeyRevokedAt key = None \<and>
           VerifySignature env (MasterSignPub key) (update_message env input) (InSignature input) \<and>
           identity_of d' m = Some (i\<lparr>KeyringSeq := KeyringSeq i + 1,
             KeyringHeadHash := HashBytes env (update_message env input)\<rparr>)) \<and>
        KeyringUpdates d' = KeyringUpdates d @ [new_update env m input] \<and>
        MasterKeys d' = keys_after env m input (MasterKeys d) \<and>
        Machines d' = Machines d \<and> AuthRequests d' = AuthRequests d)"
  using UpdateKeyring_cases [of env m input d]
proof (elim disjE exE conjE)
  assume u: "UpdateKeyring env m input d = (Inr (), update_applied env m input d)" "update_checked env m input d"
  then obtain i key where k: "identity_of d m = Some i" "InSeq input = KeyringSeq i + 1"
    "InPrevHash input = KeyringHeadHash i"
    "masterKeys_FindByMasterAndFingerprint d m (InSigner input) = Inr key" "KeyRevokedAt key = None"
    "VerifySignature env (MasterSignPub key) (update_message env input) (InSignature input)"
    by (auto simp: update_checked_def find_identity)
  from select_one_Inr [OF k(4) [unfolded masterKeys_FindByMasterAndFingerprint_def]]
  have "key \<in> set (MasterKeys d)" "KeyMaster key = m" "MasterSignKeyFingerprint key = InSigner input" by simp_all
  with k identity_of_applied [of env m input d m] u show ?thesis by (auto simp: update_applied_def)
qed simp

text \<open>an accepted keyring update cannot be played again, however often the service is asked.\<close>

theorem accepted_update_cannot_be_replayed:
  assumes "UpdateKeyring env m input d = (Inr u, d')"
  shows "UpdateKeyring env' m input d' = (Inl ErrKeyringUpdateConflict, d')"
proof -
  from UpdateKeyring_cases [of env m input d] assms
  have d': "d' = update_applied env m input d" and c: "update_checked env m input d" by auto
  from c obtain i where i: "dbUp d" "identity_of d m = Some i" by (auto simp: update_checked_def find_identity)
  then have "identities_FindByID d' m = Inr (i\<lparr>KeyringSeq := InSeq input,
      KeyringHeadHash := HashBytes env (update_message env input)\<rparr>)"
    by (simp add: find_identity d' identity_of_applied) (simp add: update_applied_def)
  with c show ?thesis
    by (auto simp: UpdateKeyring_def InTx_def update_keyring_def and_then_def found_def update_checked_def
        split: if_splits)
qed

definition demo_second :: KeyringUpdateInput where
  "demo_second = \<lparr>InMasterID = ''1'', InSeq = 2, InPrevHash = update_message demo_env demo_first, InAction = ''add'',
     InTargetSignPub = replicate 32 CHR ''s'', InTargetEncPub = ''e'', InSigner = replicate 32 CHR ''p'',
     InSignature = demo_sig\<rparr>"

lemma demo_second_accepted:
  "UpdateKeyring demo_env 1 demo_second approved_db = (Inr (), update_applied demo_env 1 demo_second approved_db)"
proof -
  have "\<exists>u d'. UpdateKeyring demo_env 1 demo_second approved_db = (Inr u, d')"
    by (simp add: UpdateKeyring_def pairing_simps update_keyring_def demo_second_def approved_db_def
        masterKeys_FindByMasterAndFingerprint_def apply_add_def identities_UpdateKeyringState_def
        first_key_def first_update_def new_update_def)
  with UpdateKeyring_cases [of demo_env 1 demo_second approved_db] show ?thesis by auto
qed

theorem accepted_update_cannot_be_replayed_witness:
  "UpdateKeyring demo_env 1 demo_second (update_applied demo_env 1 demo_second approved_db) =
     (Inl ErrKeyringUpdateConflict, update_applied demo_env 1 demo_second approved_db)"
  by (rule accepted_update_cannot_be_replayed [OF demo_second_accepted])


text \<open>
  C36: revocation is final: once a key is revoked, no later state of the database, whatever the
  services do in between, lets a connect token of that key pass.
\<close>

theorem revoked_key_stays_powerless:
  assumes "db_reaches env d" and "(db_step env)\<^sup>*\<^sup>* d d'"
    and "key \<in> set (MasterKeys d)" and "KeyRevokedAt key \<noteq> None"
  shows "case VerifyConnectToken env' d' token of Inl _ \<Rightarrow> True
    | Inr claims \<Rightarrow> ConnFingerprint claims \<noteq> MasterSignKeyFingerprint key"
proof (cases "VerifyConnectToken env' d' token")
  case (Inr claims)
  then obtain payload sig where "master_signed env' d' (ConnMasterID claims) (ConnFingerprint claims) payload sig"
    by (rule connect_token_shape)
  then obtain k where k: "k \<in> set (MasterKeys d')" "MasterSignKeyFingerprint k = ConnFingerprint claims"
    "KeyRevokedAt k = None" by (auto simp: master_signed_def)
  from revoked_key_steps [OF assms(2-4)] have "key \<in> set (MasterKeys d')" .
  moreover from db_reaches_keyrings [OF db_reaches_steps [OF assms(2,1)]]
  have "distinct (map MasterSignKeyFingerprint (MasterKeys d'))" by (simp add: keys_ok_def)
  ultimately have "k = key" if "ConnFingerprint claims = MasterSignKeyFingerprint key"
    using k(1,2) that by (auto simp: distinct_map dest: inj_onD)
  with k(3) assms(4) Inr show ?thesis by auto
qed simp

text \<open>The master revokes its only key.\<close>

definition demo_revoke :: keyringUpdateRequest where
  "demo_revoke = \<lparr>RqSeq = 2, RqPrevHash = update_message demo_env demo_first, RqAction = ''revoke'',
     RqTargetSignPub = replicate 32 CHR ''p'', RqTargetEncPub = [], RqSigner = replicate 32 CHR ''p'',
     RqSignature = demo_sig\<rparr>"

definition revoked_key :: MasterKey where
  "revoked_key = (first_key (replicate 32 CHR ''p'') 1 demo_approval demo_first)\<lparr>KeyRevokedAt := Some 0\<rparr>"

lemma demo_revoked: "MasterKeys (snd (keyring_Update demo_env ''1'' (Some demo_revoke) approved_db)) = [revoked_key]"
  by (simp add: keyring_Update_def demo_revoke_def of_length_def UpdateKeyring_def pairing_simps update_keyring_def
      approved_db_def masterKeys_FindByMasterAndFingerprint_def apply_revoke_def masterKeys_Revoke_def
      identities_UpdateKeyringState_def first_key_def first_update_def new_update_def revoked_key_def
      KeyringActionRevoke_def HashBytes_def)

theorem revoked_key_stays_powerless_witness:
  "case VerifyConnectToken demo_env (snd (keyring_Update demo_env ''1'' (Some demo_revoke) approved_db)) demo_connect_token of
     Inl _ \<Rightarrow> True | Inr claims \<Rightarrow> ConnFingerprint claims \<noteq> replicate 32 CHR ''p''"
proof -
  let ?d = "snd (keyring_Update demo_env ''1'' (Some demo_revoke) approved_db)"
  have "demo_env\<lparr>now := 0\<rparr> = demo_env" by (simp add: demo_env_def)
  with db_update [of demo_env approved_db 0 "''1''" "Some demo_revoke"] have "db_step demo_env approved_db ?d" by simp
  with approved_reachable have r: "db_reaches demo_env ?d" by (rule db_next)
  have "MasterSignKeyFingerprint revoked_key = replicate 32 CHR ''p''" "KeyRevokedAt revoked_key \<noteq> None"
    by (simp_all add: revoked_key_def first_key_def)
  with revoked_key_stays_powerless [OF r rtranclp.rtrancl_refl, of revoked_key demo_env demo_connect_token] demo_revoked
  show ?thesis by (auto split: sum.splits)
qed

text \<open>
  a machine is bound by its own request and a master's signature: the first approval of a
  request succeeds only before the request expires, with a signature over the request's ID, the
  machine's keys, the challenge and the expiry; afterwards the machine of the request belongs to the
  master of the approving key, which is not revoked, and a machine that was known keeps its row.
\<close>

theorem approval_binds_the_machine:
  assumes "ApproveAuthRequest env i input d = (Inr status, d')"
    and "requests_FindByID d i = Inr r" and "ReqApprovedAt r = None"
  shows "now (core env) \<le> ReqExpiresAt r \<and>
    VerifySignature (core env) (ApSignPub input) (approval_message (core env) r) (ApSignature input) \<and>
    (\<exists>key\<in>set (MasterKeys d'). KeyRevokedAt key = None \<and>
       MasterSignKeyFingerprint key = HashKeyFingerprint (core env) (ApSignPub input) \<and>
       master_of d' (ReqMachine r) = Some (KeyMaster key)) \<and>
    (Machines d' = Machines d \<or>
     machines_FindByID d (ReqMachine r) = Inl RecordNotFound \<and>
     (\<exists>m. Machines d' = Machines d @ [bound_machine (core env) r m]))"
proof -
  let ?fp = "HashKeyFingerprint (core env) (ApSignPub input)"
  from assms(1) have "approve_request env i input d = Inr (status, d')"
    by (auto simp: ApproveAuthRequest_def InTx_def split: sum.splits prod.splits)
  then show ?thesis
  proof (cases rule: approve_Inr)
    case (again r')
    with assms(2,3) show ?thesis by simp
  next
    case (first r' m d1 d2)
    with assms(2) have r: "r' = r" by simp
    have key: "\<exists>key\<in>set (MasterKeys d1). KeyRevokedAt key = None \<and> MasterSignKeyFingerprint key = ?fp \<and> KeyMaster key = m"
      and m1: "Machines d1 = Machines d" and up: "dbUp d1 = dbUp d"
      using first(5)
      by (auto elim!: first_master_Inr simp: founded_def first_key_def known_master_def masterKeys_FindByFingerprint_def
          dest: select_one_Inr split: if_splits)
    from first(7) have d': "MasterKeys d' = MasterKeys d2" "Machines d' = Machines d2"
      using requests_Update_Inr by fastforce+
    from bind_machine_Inr [OF first(6)] r have
      "(\<exists>row. machines_FindByID d1 (ReqMachine r) = Inr row \<and> MachineMaster row = m \<and> d2 = d1) \<or>
       machines_FindByID d1 (ReqMachine r) = Inl RecordNotFound \<and>
       d2 = d1\<lparr>Machines := Machines d1 @ [bound_machine (core env) r m]\<rparr>" by auto
    moreover have "machines_FindByID d1 = machines_FindByID d"
      using m1 up by (simp add: machines_FindByID_def select_one_def fun_eq_iff)
    ultimately have "master_of d2 (ReqMachine r) = Some m \<and> MasterKeys d2 = MasterKeys d1 \<and>
      (Machines d2 = Machines d \<or> machines_FindByID d (ReqMachine r) = Inl RecordNotFound \<and>
         Machines d2 = Machines d @ [bound_machine (core env) r m])"
      using m1 up
      by (auto simp: machine_row_master master_of_def find_append bound_machine_def machines_FindByID_def
          select_one_def split: option.splits if_splits)
    moreover from d' have "master_of d' = master_of d2" by (simp add: master_of_def fun_eq_iff)
    ultimately show ?thesis using first(3,4) r key d' by auto
  qed
qed

theorem approval_binds_the_machine_witness:
  "master_of approved_db 2 = Some 1"
proof -
  obtain status where s: "ApproveAuthRequest demo_auth 5 demo_approval requested_db = (Inr status, approved_db)"
    using demo_approved by blast
  from approval_binds_the_machine [OF s, of demo_request] show ?thesis
    by (auto simp: requests_FindByID_def select_one_def requested_db_def empty_db_def demo_request_def
        approved_db_def first_key_def)
qed

text \<open>
  a status answer reveals who approved the request, the master, its keyring or the relay's
  signature only to a caller who presents the request's poll token, and only until the request
  expires.
\<close>

theorem status_is_redacted_without_the_poll_token:
  assumes "GetAuthStatus env d i token = Inr status" and "requests_FindByID d i = Inr r"
    and "AsKeyring status \<noteq> None \<or> AsMasterID status \<noteq> [] \<or> AsRelaySignature status \<noteq> [] \<or>
      AsApprovalSignature status \<noteq> [] \<or> AsApprovedBy status \<noteq> []"
  shows "ReqApprovedAt r \<noteq> None \<and> token \<noteq> [] \<and> token = ReqPollToken r \<and> now (core env) \<le> ReqExpiresAt r"
proof -
  from assms(1,2) obtain st where st: "getAuthStatus env d i = Inr st"
    and k: "(if AsState st = AuthStatusApproved \<and>
          (AsExpiresAt st < now (core env) \<or> token = [] \<or> token \<noteq> AsPollToken st)
       then Inr (st\<lparr>AsKeyring := None, AsMasterID := [], AsRelayPubKey := [], AsRelaySignature := [],
                AsApprovalSignature := [], AsApprovedBy := []\<rparr>) else Inr st) = (Inr status :: relay_error + AuthStatus)"
    unfolding GetAuthStatus_def and_then_Inr by blast
  from k have s: "status = (if AsState st = AuthStatusApproved \<and>
          (AsExpiresAt st < now (core env) \<or> token = [] \<or> token \<noteq> AsPollToken st)
       then st\<lparr>AsKeyring := None, AsMasterID := [], AsRelayPubKey := [], AsRelaySignature := [],
                AsApprovalSignature := [], AsApprovedBy := []\<rparr> else st)"
    by (metis (mono_tags, lifting) sum.inject(2))
  have f: "AsPollToken st = ReqPollToken r \<and> AsExpiresAt st = ReqExpiresAt r \<and>
      AsState st = AsState (request_status (core env) r) \<and> (st = request_status (core env) r \<or> ReqApprovedAt r \<noteq> None)"
    using st assms(2)
    by (auto simp: getAuthStatus_def and_then_Inr found_Inr Let_def sign_status_def request_status_def
        split: option.splits sum.splits repo_error.splits)
  show ?thesis
  proof (cases "ReqApprovedAt r = None")
    case True
    with f have "st = request_status (core env) r" by simp
    with True s assms(3) show ?thesis by (simp add: request_status_def split: if_splits)
  next
    case False
    with f have "AsState st = AuthStatusApproved" by (simp add: request_status_def)
    with s f assms(3) False show ?thesis by (auto split: if_splits)
  qed
qed

theorem status_is_redacted_without_the_poll_token_witness:
  "\<exists>status. GetAuthStatus demo_auth approved_db 5 ''t'' = Inr status \<and> AsKeyring status \<noteq> None \<and>
     ''t'' = ReqPollToken (approved demo_env demo_approval demo_request)"
proof -
  let ?r = "approved demo_env demo_approval demo_request"
  have r: "requests_FindByID approved_db 5 = Inr ?r"
    by (simp add: requests_FindByID_def select_one_def approved_db_def approved_def demo_request_def)
  obtain status where s: "GetAuthStatus demo_auth approved_db 5 ''t'' = Inr status" "AsKeyring status \<noteq> None"
    by (simp add: GetAuthStatus_def pairing_simps approved_db_def approved_def first_key_def
        loadKeyringState_def masterKeys_ListByMasterID_def sign_status_def request_status_def)
  from status_is_redacted_without_the_poll_token [OF s(1) r] s show ?thesis by blast
qed

lemma exchange_least_spec:
  "exchange_least x ys = (m, r) \<Longrightarrow> add_mset m (mset r) = add_mset x (mset ys) \<and>
     StFingerprint m \<le> StFingerprint x \<and> (\<forall>k\<in>set r. StFingerprint m \<le> StFingerprint k)"
proof (induction x ys arbitrary: m r rule: exchange_least.induct)
  case (2 x y ys)
  show ?case
  proof (cases "key_less y x")
    case True
    with "2.prems" obtain r' where r: "exchange_least y ys = (m, r')" "r = x # r'" by (auto split: prod.splits)
    from "2.IH"(1) [OF True r(1)] True r(2) show ?thesis by (auto simp: key_less_def)
  next
    case False
    with "2.prems" obtain r' where r: "exchange_least x ys = (m, r')" "r = y # r'" by (auto split: prod.splits)
    from "2.IH"(2) [OF False r(1)] False r(2) show ?thesis by (auto simp: key_less_def)
  qed
qed simp


lemma sortMasterKeys_spec:
  "mset (sortMasterKeys ks) = mset ks \<and> sorted (map StFingerprint (sortMasterKeys ks))"
proof (induction ks rule: sortMasterKeys.induct)
  case (2 x xs)
  obtain m r where e: "exchange_least x xs = (m, r)" by (cases "exchange_least x xs")
  note spec = exchange_least_spec [OF e]
  from "2.IH" [OF e [symmetric]] have ih: "mset (sortMasterKeys r) = mset r"
    "sorted (map StFingerprint (sortMasterKeys r))" by simp_all
  from ih(1) have "set (sortMasterKeys r) = set r" by (metis set_mset_mset)
  with spec e ih show ?case by simp
qed simp

text \<open>
  The text the relay signs for a status does not depend on the order in which the database
  lists the master's keys: any two listings of the same keys give the same text (fingerprints being
  unique).
\<close>

theorem status_signature_ignores_key_order:
  assumes "AsKeyring s1 = Some k1" and "s2 = s1\<lparr>AsKeyring := Some (k1\<lparr>StKeys := keys\<rparr>)\<rparr>"
    and "mset keys = mset (StKeys k1)" and "distinct (map StFingerprint keys)"
  shows "buildAuthStatusSignaturePayload s2 i = buildAuthStatusSignaturePayload s1 i"
proof -
  have "sortMasterKeys keys = sortMasterKeys (StKeys k1)"
  proof (rule map_sorted_distinct_set_unique [of StFingerprint])
    have m: "mset (sortMasterKeys keys) = mset keys" "mset (sortMasterKeys (StKeys k1)) = mset keys"
      using sortMasterKeys_spec assms(3) by auto
    then have sets: "set (sortMasterKeys keys) = set keys" "set (sortMasterKeys (StKeys k1)) = set keys"
      by (metis set_mset_mset)+
    then show "set (sortMasterKeys keys) = set (sortMasterKeys (StKeys k1))" by simp
    show "inj_on StFingerprint (set (sortMasterKeys keys) \<union> set (sortMasterKeys (StKeys k1)))"
      using sets assms(4) by (simp add: distinct_map)
    show "sorted (map StFingerprint (sortMasterKeys keys))" "sorted (map StFingerprint (sortMasterKeys (StKeys k1)))"
      using sortMasterKeys_spec by blast+
    have "distinct (map StFingerprint ks)" if "mset ks = mset keys" for ks
      using that assms(4) by (metis mset_map mset_eq_imp_distinct_iff)
    with m show "distinct (map StFingerprint (sortMasterKeys keys))"
      "distinct (map StFingerprint (sortMasterKeys (StKeys k1)))" by blast+
  qed
  with assms(1,2) show ?thesis by (simp add: buildAuthStatusSignaturePayload_def)
qed


definition demo_key_state :: "string \<Rightarrow> MasterKeyState" where
  "demo_key_state fp = \<lparr>StFingerprint = fp, StSignPub = ''p'', StEncPub = ''e'', StRevokedAt = None\<rparr>"

definition demo_keyring :: KeyringState where
  "demo_keyring = \<lparr>StMasterID = ''1'', StSeq = 2, StHeadHash = ''h'', StKeys = [demo_key_state ''a'', demo_key_state ''b'']\<rparr>"

definition demo_status :: AuthStatus where
  "demo_status = (request_status demo_env demo_request)\<lparr>AsKeyring := Some demo_keyring\<rparr>"

theorem status_signature_ignores_key_order_witness:
  "buildAuthStatusSignaturePayload
     (demo_status\<lparr>AsKeyring := Some (demo_keyring\<lparr>StKeys := [demo_key_state ''b'', demo_key_state ''a'']\<rparr>)\<rparr>) ''5'' =
   buildAuthStatusSignaturePayload demo_status ''5''"
  by (rule status_signature_ignores_key_order [of demo_status demo_keyring _ "[demo_key_state ''b'', demo_key_state ''a'']"])
    (simp_all add: demo_status_def demo_keyring_def demo_key_state_def)

text \<open>
  The signed text does not determine its fields: the machine's host name, which the requester
  chooses freely, may contain the separator, so two statuses with different host names and
  challenges share one text, and a signature of the relay on the one is a signature on the other.
\<close>

theorem status_signature_is_ambiguous:
  "buildAuthStatusSignaturePayload (demo_status\<lparr>AsHostname := ''h|x'', AsChallenge := ''y''\<rparr>) i =
     buildAuthStatusSignaturePayload (demo_status\<lparr>AsHostname := ''h'', AsChallenge := ''x|y''\<rparr>) i"
  by (simp add: buildAuthStatusSignaturePayload_def)

end
