(* ===== verification/Json.thy ===== *)
theory Json
  imports Values
begin

text \<open>
  What encoding/json makes of a dynamic value that is marshalled and unmarshalled again into an
  interface{}: numbers become float64, []string becomes []interface{}, NaN and the infinities have no
  text.  js is what the encoder makes of a string: the same string when it is valid UTF-8, one with
  replacement characters otherwise.
\<close>

fun bit_len :: "nat \<Rightarrow> nat" where
  "bit_len n = (if n = 0 then 0 else Suc (bit_len (n div 2)))"

declare bit_len.simps [simp del]

text \<open>The float64 nearest to an integer, ties to even.\<close>

definition round53 :: "nat \<Rightarrow> nat" where
  "round53 n =
     (let e = bit_len n - 53; q = n div 2 ^ e; r = n mod 2 ^ e
      in if e = 0 then n
         else (if 2 ^ (e - 1) < r \<or> (r = 2 ^ (e - 1) \<and> odd q) then q + 1 else q) * 2 ^ e)"

definition float64_of_int :: "int \<Rightarrow> gofloat" where
  "float64_of_int i = FInt (if i < 0 then - int (round53 (nat (- i))) else int (round53 (nat i)))"

fun json_float :: "gofloat \<Rightarrow> gofloat option" where
  "json_float FNaN = None"
| "json_float (FInf b) = None"
| "json_float f = Some f"

fun json_value :: "(string \<Rightarrow> string) \<Rightarrow> gval \<Rightarrow> gval option"
  and json_list :: "(string \<Rightarrow> string) \<Rightarrow> gval list \<Rightarrow> gval list option"
  and json_entries :: "(string \<Rightarrow> string) \<Rightarrow> (string \<times> gval) list \<Rightarrow> (string \<times> gval) list option" where
  "json_value js VNil = Some VNil"
| "json_value js (VBool b) = Some (VBool b)"
| "json_value js (VInt i) = Some (VFloat (float64_of_int i))"
| "json_value js (VFloat f) = map_option VFloat (json_float f)"
| "json_value js (VStr s) = Some (VStr (js s))"
| "json_value js (VStrs ss) = Some (VList (map (\<lambda>s. VStr (js s)) ss))"
| "json_value js (VList vs) = map_option VList (json_list js vs)"
| "json_value js (VMap m) = map_option VMap (json_entries js m)"
| "json_list js [] = Some []"
| "json_list js (v # vs) =
     (case (json_value js v, json_list js vs) of (Some v', Some vs') \<Rightarrow> Some (v' # vs') | _ \<Rightarrow> None)"
| "json_entries js [] = Some []"
| "json_entries js ((k, v) # m) =
     (case (json_value js v, json_entries js m) of (Some v', Some m') \<Rightarrow> Some ((js k, v') # m') | _ \<Rightarrow> None)"

text \<open>A value that has been through JSON comes back as it is.\<close>

definition json_ok :: "(string \<Rightarrow> string) \<Rightarrow> bool" where
  "json_ok js \<longleftrightarrow> (\<forall>s. js (js s) = js s) \<and> (\<forall>s. (\<forall>c\<in>set s. of_char c < (128::nat)) \<longrightarrow> js s = s)"

lemma json_ok_id [simp]: "json_ok (\<lambda>s. s)"
  by (simp add: json_ok_def)

lemma json_float_again: "json_float f = Some g \<Longrightarrow> json_float g = Some g"
  by (cases f) auto

lemma json_list_strings: "json_ok js \<Longrightarrow> json_list js (map (\<lambda>s. VStr (js s)) ss) = Some (map (\<lambda>s. VStr (js s)) ss)"
  by (induction ss) (auto simp: json_ok_def)

lemma json_again:
  assumes "json_ok js"
  shows "json_value js v = Some v' \<Longrightarrow> json_value js v' = Some v'"
    and "json_list js vs = Some vs' \<Longrightarrow> json_list js vs' = Some vs'"
    and "json_entries js m = Some m' \<Longrightarrow> json_entries js m' = Some m'"
  using assms
proof (induction js v and js vs and js m arbitrary: v' and vs' and m'
    rule: json_value_json_list_json_entries.induct)
  case (3 js i)
  then show ?case by (auto simp: float64_of_int_def)
qed (auto simp: json_ok_def json_float_again json_list_strings split: option.splits)

lemma json_entries_lookup:
  assumes "json_entries (\<lambda>s. s) m = Some m'"
  shows "map_of m' k = (case map_of m k of None \<Rightarrow> None | Some v \<Rightarrow> json_value (\<lambda>s. s) v)"
  using assms
proof (induction m arbitrary: m')
  case (Cons e m)
  then show ?case by (cases e) (auto split: option.splits)
qed simp

end
