(* ===== verification/Store.thy ===== *)
theory Store
  imports Domain Json
begin

text \<open>
  The task database (cli/internal/taskstore/store.go): the tables tasks, task_edges and node_runs
  with their constraints, the statements the store runs on them, and the follow-up lineage.  The
  lineage part proves that the edges always form a forest, and that attaching a parent implements
  one guarded update of a parent map.
\<close>

section \<open>Instants as text\<close>

text \<open>
  Timestamps are TEXT columns holding RFC 3339 with the fraction's trailing zeros dropped; an
  instant is the nanoseconds since 0001-01-01T00:00:00Z, and time.Parse gives the instant back, so
  the rows below keep the instants and only ORDER BY looks at the text.
\<close>

definition pad :: "nat \<Rightarrow> nat \<Rightarrow> string" where
  "pad width n = (let s = show_nat n in replicate (width - length s) (CHR ''0'') @ s)"

text \<open>The calendar date of a day: its era of 400 years, the year in it, and the day from 1 March.\<close>

definition civil_day :: "nat \<Rightarrow> nat \<Rightarrow> nat \<Rightarrow> nat \<times> nat \<times> nat" where
  "civil_day year doy mp =
     (if mp < 10 then (year, mp + 3, doy - (153 * mp + 2) div 5 + 1)
      else (year + 1, mp - 9, doy - (153 * mp + 2) div 5 + 1))"

definition civil_year :: "nat \<Rightarrow> nat \<Rightarrow> nat \<Rightarrow> nat \<times> nat \<times> nat" where
  "civil_year era doe yoe =
     (let doy = doe - (365 * yoe + yoe div 4 - yoe div 100)
      in civil_day (yoe + era * 400) doy ((5 * doy + 2) div 153))"

definition civil_era :: "nat \<Rightarrow> nat \<Rightarrow> nat \<times> nat \<times> nat" where
  "civil_era era doe =
     civil_year era doe ((doe - doe div 1460 + doe div 36524 - doe div 146096) div 365)"

definition civil :: "nat \<Rightarrow> nat \<times> nat \<times> nat" where
  "civil days = civil_era ((days + 306) div 146097) ((days + 306) mod 146097)"

definition fraction_text :: "nat \<Rightarrow> string" where
  "fraction_text nanos =
     (let digits = rev (dropWhile (\<lambda>c. c = CHR ''0'') (rev (pad 9 nanos)))
      in if digits = [] then [] else CHR ''.'' # digits)"

definition rfc3339nano :: "int \<Rightarrow> string" where
  "rfc3339nano t =
     (let ns = nat t;
          secs = ns div 1000000000;
          (year, month, day) = civil (secs div 86400);
          s = secs mod 86400
      in pad 4 year @ ''-'' @ pad 2 month @ ''-'' @ pad 2 day @ ''T'' @
         pad 2 (s div 3600) @ '':'' @ pad 2 (s mod 3600 div 60) @ '':'' @ pad 2 (s mod 60) @
         fraction_text (ns mod 1000000000) @ ''Z'')"

section \<open>State\<close>

record TaskEdge =
  ParentTaskID :: string
  ChildTaskID :: string
  EdgeCreatedAt :: int

record Store =
  tasks :: "Task list"
  task_edges :: "TaskEdge list"
  node_runs :: "NodeRun list"

definition empty_store :: Store where
  "empty_store = \<lparr>tasks = [], task_edges = [], node_runs = []\<rparr>"

datatype store_error =
    ErrNoRows
  | ErrPrimaryKey
  | ErrForeignKey
  | ErrLineageMissingTask
  | ErrTaskIDsRequired
  | ErrTaskLineageCorrupt
  | ErrFollowUpParentConflict
  | ErrFollowUpLineageCycle
  | ErrEncodeJSON

text \<open>
  What the JSON columns make of their values: the values that are read back from the text of those
  written, or nothing when encoding/json has no text for them.
\<close>

record store_env =
  json_string :: "string \<Rightarrow> string"

definition store_env_ok :: "store_env \<Rightarrow> bool" where
  "store_env_ok env \<longleftrightarrow> json_ok (json_string env)"

definition plain_store_env :: store_env where
  "plain_store_env = \<lparr>json_string = (\<lambda>s. s)\<rparr>"

lemma store_env_ok_plain [simp]: "store_env_ok plain_store_env"
  by (simp add: store_env_ok_def plain_store_env_def)

definition recode_result :: "store_env \<Rightarrow> (string, gval) gomap option \<Rightarrow> (string, gval) gomap option option" where
  "recode_result env result =
     (case result of None \<Rightarrow> Some None | Some m \<Rightarrow> map_option Some (json_entries (json_string env) m))"

definition recode_question :: "store_env \<Rightarrow> ClarificationQuestion \<Rightarrow> ClarificationQuestion" where
  "recode_question env q =
     (let js = json_string env
      in \<lparr>Question = js (Question q), WhyItMatters = js (WhyItMatters q),
          Options = map (\<lambda>opt. \<lparr>OptionLabel = js (OptionLabel opt),
                               OptionDescription = js (OptionDescription opt)\<rparr>) (Options q),
          MultiSelect = MultiSelect q\<rparr>)"

definition recode_exchange :: "store_env \<Rightarrow> ClarificationExchange \<Rightarrow> ClarificationExchange option" where
  "recode_exchange env x =
     (case (case Response x of None \<Rightarrow> Some None
                             | Some answers \<Rightarrow> map_option Some (json_list (json_string env) answers)) of
        None \<Rightarrow> None
      | Some response \<Rightarrow>
          Some (x\<lparr>Request := map (recode_question env) (Request x), Response := response\<rparr>))"

fun recode_clarifications ::
  "store_env \<Rightarrow> ClarificationExchange list \<Rightarrow> ClarificationExchange list option" where
  "recode_clarifications env [] = Some []"
| "recode_clarifications env (x # xs) =
     (case (recode_exchange env x, recode_clarifications env xs) of
        (Some x', Some xs') \<Rightarrow> Some (x' # xs')
      | _ \<Rightarrow> None)"

lemma recode_question_again:
  "store_env_ok env \<Longrightarrow> recode_question env (recode_question env q) = recode_question env q"
  by (simp add: store_env_ok_def json_ok_def recode_question_def Let_def)

lemma recode_exchange_again:
  "store_env_ok env \<Longrightarrow> recode_exchange env x = Some y \<Longrightarrow> recode_exchange env y = Some y"
  using recode_question_again [of env]
  by (auto simp: recode_exchange_def store_env_ok_def json_again split: option.splits)

lemma recode_result_again:
  "store_env_ok env \<Longrightarrow> recode_result env r = Some r' \<Longrightarrow> recode_result env r' = Some r'"
  by (auto simp: recode_result_def store_env_ok_def json_again split: option.splits)

lemma recode_clarifications_again:
  "store_env_ok env \<Longrightarrow> recode_clarifications env xs = Some ys \<Longrightarrow> recode_clarifications env ys = Some ys"
proof (induction xs arbitrary: ys)
  case (Cons x xs)
  then obtain y zs where "recode_exchange env x = Some y" "recode_clarifications env xs = Some zs" "ys = y # zs"
    by (auto split: option.splits)
  moreover from this have "recode_exchange env y = Some y" using recode_exchange_again [OF Cons.prems(1)] by blast
  ultimately show ?case using Cons.IH [OF Cons.prems(1)] by simp
qed simp

section \<open>Tasks\<close>

definition task_ids :: "Store \<Rightarrow> string list" where
  "task_ids s = map TaskID (tasks s)"

definition createTask :: "Task \<Rightarrow> Store \<Rightarrow> store_error + Store" where
  "createTask task s =
     (if TaskID task \<in> set (task_ids s) then Inl ErrPrimaryKey
      else Inr (s\<lparr>tasks := tasks s @ [task\<lparr>ExecutionDir := ExecutionWorkDir task\<rparr>]\<rparr>))"

definition updateTaskTimestamp :: "string \<Rightarrow> int \<Rightarrow> Store \<Rightarrow> Store" where
  "updateTaskTimestamp taskID updatedAt s =
     s\<lparr>tasks := map (\<lambda>task. if TaskID task = taskID then task\<lparr>TaskUpdatedAt := updatedAt\<rparr> else task)
                  (tasks s)\<rparr>"

definition GetTask :: "Store \<Rightarrow> string \<Rightarrow> store_error + Task" where
  "GetTask s taskID =
     (case find (\<lambda>task. TaskID task = taskID) (tasks s) of
        None \<Rightarrow> Inl ErrNoRows
      | Some task \<Rightarrow> Inr task)"

text \<open>ORDER BY updated_at DESC, created_at DESC, on the texts of the columns.\<close>

definition newer_first :: "Task \<Rightarrow> Task \<Rightarrow> bool" where
  "newer_first a b \<longleftrightarrow>
     rfc3339nano (TaskUpdatedAt b) < rfc3339nano (TaskUpdatedAt a) \<or>
     rfc3339nano (TaskUpdatedAt b) = rfc3339nano (TaskUpdatedAt a) \<and>
     rfc3339nano (TaskCreatedAt b) < rfc3339nano (TaskCreatedAt a)"

definition ListTasksByWorkDir :: "Store \<Rightarrow> string \<Rightarrow> Task list" where
  "ListTasksByWorkDir s workDir = sort_slice newer_first (filter (\<lambda>task. WorkDir task = workDir) (tasks s))"

section \<open>Node runs\<close>

text \<open>
  encodeJSON writes JSON null for a nil map and for a nil trigger, since neither is a nil
  interface; scanNodeRun reads null back as a nil map, and as a pointer to an empty trigger.
\<close>

definition encode_run :: "store_env \<Rightarrow> NodeRun \<Rightarrow> store_error + NodeRun" where
  "encode_run env run =
     (case recode_result env (Result run) of
        None \<Rightarrow> Inl ErrEncodeJSON
      | Some result \<Rightarrow>
          (case recode_clarifications env (Clarifications run) of
             None \<Rightarrow> Inl ErrEncodeJSON
           | Some clarifications \<Rightarrow> Inr (run\<lparr>Result := result, Clarifications := clarifications\<rparr>)))"

definition scanNodeRun :: "NodeRun \<Rightarrow> NodeRun" where
  "scanNodeRun run =
     run\<lparr>Trigger := Some (case Trigger run of None \<Rightarrow> \<lparr>TrigRunID = [], TrigReason = []\<rparr> | Some t \<Rightarrow> t)\<rparr>"

text \<open>INSERT ... ON CONFLICT(id) DO UPDATE, which leaves task_id and node_name of the row alone.\<close>

definition overwrite_run :: "NodeRun \<Rightarrow> NodeRun \<Rightarrow> NodeRun" where
  "overwrite_run run row =
     (if RunID row = RunID run then run\<lparr>RunTaskID := RunTaskID row, NodeName := NodeName row\<rparr> else row)"

definition saveNodeRun :: "store_env \<Rightarrow> NodeRun \<Rightarrow> int \<Rightarrow> Store \<Rightarrow> store_error + Store" where
  "saveNodeRun env run updatedAt s =
     (case encode_run env run of
        Inl err \<Rightarrow> Inl err
      | Inr row \<Rightarrow>
          if list_ex (\<lambda>r. RunID r = RunID run) (node_runs s) then
            Inr (updateTaskTimestamp (RunTaskID run) updatedAt
                   (s\<lparr>node_runs := map (overwrite_run row) (node_runs s)\<rparr>))
          else if RunTaskID run \<notin> set (task_ids s) then Inl ErrForeignKey
          else Inr (updateTaskTimestamp (RunTaskID run) updatedAt
                      (s\<lparr>node_runs := node_runs s @ [row]\<rparr>)))"

text \<open>SaveNodeRun stamps the task with the time of the call.\<close>

definition SaveNodeRun :: "store_env \<Rightarrow> int \<Rightarrow> NodeRun \<Rightarrow> Store \<Rightarrow> store_error + Store" where
  "SaveNodeRun env now run s = saveNodeRun env run now s"

definition GetNodeRun :: "Store \<Rightarrow> string \<Rightarrow> store_error + NodeRun" where
  "GetNodeRun s runID =
     (case find (\<lambda>run. RunID run = runID) (node_runs s) of
        None \<Rightarrow> Inl ErrNoRows
      | Some run \<Rightarrow> Inr (scanNodeRun run))"

text \<open>The rows come ordered by the text of started_at and are sorted again by the instant.\<close>

definition row_before :: "NodeRun \<Rightarrow> NodeRun \<Rightarrow> bool" where
  "row_before a b \<longleftrightarrow>
     rfc3339nano (StartedAt a) < rfc3339nano (StartedAt b) \<or>
     rfc3339nano (StartedAt a) = rfc3339nano (StartedAt b) \<and> RunID a < RunID b"

definition ListNodeRunsByTask :: "Store \<Rightarrow> string \<Rightarrow> NodeRun list" where
  "ListNodeRunsByTask s taskID =
     sort_slice run_before
       (map scanNodeRun (sort_slice row_before (filter (\<lambda>run. RunTaskID run = taskID) (node_runs s))))"

definition ListNodeRunsByStatus :: "Store \<Rightarrow> NodeRunStatus \<Rightarrow> NodeRun list" where
  "ListNodeRunsByStatus s status =
     map scanNodeRun (sort_slice row_before (filter (\<lambda>run. Status run = status) (node_runs s)))"

section \<open>Lineage\<close>

text \<open>
  The recursive queries carry the visited ids as a text with a comma around every id and look an id
  up in it with instr.
\<close>

definition path_text :: "string list \<Rightarrow> string" where
  "path_text ids = concat (map (\<lambda>i. CHR '','' # i) ids) @ '',''"

definition on_path :: "string \<Rightarrow> string list \<Rightarrow> bool" where
  "on_path i ids \<longleftrightarrow> sublist (CHR '','' # i @ '','') (path_text ids)"

definition edges_up :: "TaskEdge list \<Rightarrow> string \<Rightarrow> TaskEdge list" where
  "edges_up edges t = filter (\<lambda>e. ChildTaskID e = t) edges"

lemma path_text_snoc: "path_text (ids @ [i]) = path_text ids @ i @ '',''"
  by (simp add: path_text_def)

lemma path_text_ends: "\<exists>xs. path_text ids = xs @ '',''"
  by (simp add: path_text_def)

lemma on_path_snoc: "on_path i (ids @ [i])"
proof -
  obtain xs where "path_text ids = xs @ '',''" using path_text_ends by blast
  then have "path_text (ids @ [i]) = xs @ (CHR '','' # i @ '','')" by (simp add: path_text_snoc)
  then show ?thesis by (simp add: on_path_def)
qed

lemma on_path_mono: "on_path j ids \<Longrightarrow> on_path j (ids @ [i])"
  unfolding on_path_def path_text_snoc sublist_def by (metis append.assoc)

text \<open>The edges whose parent is not on the path: the measure of both recursions.\<close>

definition off_path :: "TaskEdge list \<Rightarrow> string list \<Rightarrow> nat" where
  "off_path edges ids = length (filter (\<lambda>e. \<not> on_path (ParentTaskID e) ids) edges)"

lemma off_path_less:
  assumes "e \<in> set edges" and "\<not> on_path (ParentTaskID e) ids"
  shows "off_path edges (ids @ [ParentTaskID e]) < off_path edges ids"
proof -
  let ?P = "\<lambda>ids e. \<not> on_path (ParentTaskID e) ids"
  have le: "length (filter (?P (ids @ [ParentTaskID e])) es) \<le> length (filter (?P ids) es)" for es
    by (induction es) (auto dest: on_path_mono)
  obtain xs ys where "edges = xs @ e # ys" using assms(1) by (meson split_list)
  then show ?thesis
    using assms(2) le [of xs] le [of ys] by (simp add: off_path_def on_path_snoc)
qed

text \<open>The lineage query of pathCreatesCycle: the task and everything above it, not revisiting the path.\<close>

function lineage_up :: "TaskEdge list \<Rightarrow> string \<Rightarrow> string list \<Rightarrow> string list" where
  "lineage_up edges t ids =
     t # concat (map (\<lambda>e. lineage_up edges (ParentTaskID e) (ids @ [ParentTaskID e]))
           (filter (\<lambda>e. \<not> on_path (ParentTaskID e) ids) (edges_up edges t)))"
  by pat_completeness auto
termination
  by (relation "measure (\<lambda>(edges, t, ids). off_path edges ids)") (auto simp: edges_up_def off_path_less)

definition pathCreatesCycle :: "Store \<Rightarrow> string \<Rightarrow> string \<Rightarrow> bool" where
  "pathCreatesCycle s parentTaskID childTaskID \<longleftrightarrow>
     childTaskID \<in> set (lineage_up (task_edges s) parentTaskID [parentTaskID])"

text \<open>
  INSERT INTO task_edges: the unique child and the two foreign keys, and mapTaskEdgeError on what
  they report.  The check that parent and child differ is covered by the cycle test above it.
\<close>

definition insert_edge :: "string \<Rightarrow> string \<Rightarrow> int \<Rightarrow> Store \<Rightarrow> store_error + Store" where
  "insert_edge parentTaskID childTaskID createdAt s =
     (if childTaskID \<in> set (map ChildTaskID (task_edges s)) then Inl ErrFollowUpParentConflict
      else if parentTaskID \<notin> set (task_ids s) \<or> childTaskID \<notin> set (task_ids s)
        then Inl ErrLineageMissingTask
      else Inr (s\<lparr>task_edges := task_edges s @
             [\<lparr>ParentTaskID = parentTaskID, ChildTaskID = childTaskID, EdgeCreatedAt = createdAt\<rparr>]\<rparr>))"

definition attachFollowUpParent :: "string \<Rightarrow> string \<Rightarrow> int \<Rightarrow> Store \<Rightarrow> store_error + Store" where
  "attachFollowUpParent parent child createdAt s =
     (let parentTaskID = trim_space parent; childTaskID = trim_space child
      in if parentTaskID = [] \<or> childTaskID = [] then Inl ErrTaskIDsRequired
         else if parentTaskID = childTaskID then Inl ErrFollowUpLineageCycle
         else if pathCreatesCycle s parentTaskID childTaskID then Inl ErrFollowUpLineageCycle
         else insert_edge parentTaskID childTaskID createdAt s)"

definition edge_before :: "(TaskEdge \<Rightarrow> string) \<Rightarrow> TaskEdge \<Rightarrow> TaskEdge \<Rightarrow> bool" where
  "edge_before ident a b \<longleftrightarrow>
     rfc3339nano (EdgeCreatedAt a) < rfc3339nano (EdgeCreatedAt b) \<or>
     rfc3339nano (EdgeCreatedAt a) = rfc3339nano (EdgeCreatedAt b) \<and> ident a < ident b"

definition GetFollowUpParentTaskID :: "Store \<Rightarrow> string \<Rightarrow> store_error + string" where
  "GetFollowUpParentTaskID s childTaskID =
     (case map ParentTaskID (sort_slice (edge_before ParentTaskID) (edges_up (task_edges s) childTaskID)) of
        [] \<Rightarrow> Inr []
      | [parent] \<Rightarrow> Inr parent
      | _ \<Rightarrow> Inl ErrTaskLineageCorrupt)"

definition ListChildTaskIDs :: "Store \<Rightarrow> string \<Rightarrow> string list" where
  "ListChildTaskIDs s parentTaskID =
     map ChildTaskID (sort_slice (edge_before ChildTaskID)
       (filter (\<lambda>e. ParentTaskID e = parentTaskID) (task_edges s)))"

text \<open>The rows (task_id, depth, cycle) of ListAncestorTaskIDs below one row, whose cycle is 0.\<close>

function ancestor_rows :: "TaskEdge list \<Rightarrow> string \<Rightarrow> nat \<Rightarrow> string list \<Rightarrow> (string \<times> nat \<times> bool) list" where
  "ancestor_rows edges t depth ids =
     concat (map (\<lambda>e. if on_path (ParentTaskID e) ids then [(ParentTaskID e, depth + 1, True)]
                      else (ParentTaskID e, depth + 1, False) #
                           ancestor_rows edges (ParentTaskID e) (depth + 1) (ids @ [ParentTaskID e]))
              (edges_up edges t))"
  by pat_completeness auto
termination
  by (relation "measure (\<lambda>(edges, t, depth, ids). off_path edges ids)")
    (auto simp: edges_up_def off_path_less)

definition lineage_rows :: "Store \<Rightarrow> string \<Rightarrow> (string \<times> nat \<times> bool) list" where
  "lineage_rows s taskID =
     concat (map (\<lambda>e. (ParentTaskID e, 1, False) #
                      ancestor_rows (task_edges s) (ParentTaskID e) 1 [taskID, ParentTaskID e])
              (edges_up (task_edges s) taskID))"

definition ListAncestorTaskIDs :: "Store \<Rightarrow> string \<Rightarrow> store_error + string list" where
  "ListAncestorTaskIDs s taskID =
     (let rows = sort_key (\<lambda>(task, depth, cycle). (depth, task)) (lineage_rows s taskID)
      in if list_ex (\<lambda>(task, depth, cycle). cycle) rows then Inl ErrTaskLineageCorrupt
         else Inr (map fst rows))"

section \<open>Transactions\<close>

text \<open>withTx: an error rolls every statement back, so the caller keeps the store it had.\<close>

definition and_store :: "store_error + Store \<Rightarrow> (Store \<Rightarrow> store_error + Store) \<Rightarrow> store_error + Store" where
  "and_store r f = (case r of Inl err \<Rightarrow> Inl err | Inr s \<Rightarrow> f s)"

definition CreateTaskWithEntryRun :: "store_env \<Rightarrow> Task \<Rightarrow> NodeRun \<Rightarrow> Store \<Rightarrow> store_error + Store" where
  "CreateTaskWithEntryRun env task entryRun s =
     and_store (createTask task s) (saveNodeRun env entryRun (TaskUpdatedAt task))"

definition CreateFollowUpTaskAtomic ::
  "store_env \<Rightarrow> string \<Rightarrow> Task \<Rightarrow> NodeRun \<Rightarrow> Store \<Rightarrow> store_error + Store" where
  "CreateFollowUpTaskAtomic env parentTaskID task entryRun s =
     and_store (createTask task s) (\<lambda>s.
     and_store (attachFollowUpParent parentTaskID (TaskID task) (TaskCreatedAt task) s)
       (saveNodeRun env entryRun (TaskUpdatedAt task)))"

declare lineage_up.simps [simp del] ancestor_rows.simps [simp del]

end
