(* ===== verification/Envelope.thy ===== *)
theory Envelope
  imports Store
begin

text \<open>
  What users and agents hand back: the answers to a clarification request
  (cli/internal/taskruntime/input_validation.go), the output envelope of an agent
  (cli/internal/taskexecutor/envelope.go), and the envelope of a human node's answer that recovery
  reads from disk (cli/internal/taskruntime/recovery.go, artifacts.go).  Bytes are already decoded
  by encoding/json into a map, or failed to be.
\<close>

section \<open>Clarification answers (input_validation.go)\<close>

datatype selection_error =
    SelectAtLeastOne
  | SelectSingleString
  | SelectNotEmpty
  | SelectStringsOnly
  | SelectNoEmptyStrings
  | SelectArray

datatype answer_error =
    AnswersArrayRequired
  | AnswerCount nat
  | AnswerNotObject nat
  | AnswerWithoutSelected nat
  | AnswerInvalid nat selection_error

fun strings_of_values :: "gval list \<Rightarrow> selection_error + string list" where
  "strings_of_values [] = Inr []"
| "strings_of_values (VStr value # values) =
     (let text = trim_space value
      in if text = [] then Inl SelectNoEmptyStrings
         else (case strings_of_values values of Inl err \<Rightarrow> Inl err | Inr out \<Rightarrow> Inr (text # out)))"
| "strings_of_values (_ # values) = Inl SelectStringsOnly"

fun selectedStringSlice :: "gval \<Rightarrow> selection_error + string list" where
  "selectedStringSlice (VList values) = strings_of_values values"
| "selectedStringSlice (VStrs values) = strings_of_values (map VStr values)"
| "selectedStringSlice _ = Inl SelectArray"

definition normalizeClarificationAnswer ::
  "ClarificationQuestion \<Rightarrow> gval \<Rightarrow> selection_error + gval" where
  "normalizeClarificationAnswer question selected =
     (if MultiSelect question then
        (case selectedStringSlice selected of
           Inl err \<Rightarrow> Inl err
         | Inr values \<Rightarrow> if values = [] then Inl SelectAtLeastOne else Inr (VList (map VStr values)))
      else
        (case selected of
           VStr s \<Rightarrow>
             (let text = trim_space s in if text = [] then Inl SelectNotEmpty else Inr (VStr text))
         | _ \<Rightarrow> Inl SelectSingleString))"

fun parse_answers ::
  "ClarificationQuestion list \<Rightarrow> nat \<Rightarrow> gval list \<Rightarrow> answer_error + ClarificationResponse" where
  "parse_answers questions i [] = Inr []"
| "parse_answers questions i (VMap answerMap # rest) =
     (case map_of answerMap ''selected'' of
        None \<Rightarrow> Inl (AnswerWithoutSelected i)
      | Some selected \<Rightarrow>
          (case normalizeClarificationAnswer (questions ! i) selected of
             Inl err \<Rightarrow> Inl (AnswerInvalid i err)
           | Inr normalized \<Rightarrow>
               (case parse_answers questions (Suc i) rest of
                  Inl err \<Rightarrow> Inl err
                | Inr answers \<Rightarrow> Inr (normalized # answers))))"
| "parse_answers questions i (_ # rest) = Inl (AnswerNotObject i)"

definition parseClarificationResponse ::
  "ClarificationRequest \<Rightarrow> (string, gval) gomap \<Rightarrow> answer_error + ClarificationResponse" where
  "parseClarificationResponse request payload =
     (case map_of payload ''answers'' of
        Some (VList rawAnswers) \<Rightarrow>
          if length rawAnswers \<noteq> length request then Inl (AnswerCount (length request))
          else parse_answers request 0 rawAnswers
      | _ \<Rightarrow> Inl AnswersArrayRequired)"

section \<open>The output envelope (envelope.go)\<close>

datatype ResultKind = ResultKindClarification | ResultKindResult | ResultKindOther string

record ExecResult =
  ResSessionID :: string
  ResKind :: ResultKind
  ResResult :: "(string, gval) gomap option"
  ResClarification :: "ClarificationRequest option"

datatype envelope_error =
    OutputNotJSON
  | ClarificationNotAllowed
  | ClarificationObjectRequired
  | QuestionsArrayRequired
  | QuestionNotObject
  | OptionsArrayRequired
  | OptionNotObject
  | ResultObjectRequired
  | ResultInvalid value_error
  | KindRequired

definition ClarificationConfigured :: "NodeDefinition \<Rightarrow> bool" where
  "ClarificationConfigured def \<longleftrightarrow> 0 < MaxClarificationRounds def"

definition ClarificationRemaining :: "NodeDefinition \<Rightarrow> NodeRun \<Rightarrow> bool" where
  "ClarificationRemaining def run \<longleftrightarrow>
     ClarificationConfigured def \<and> int (length (Clarifications run)) < MaxClarificationRounds def"

fun asString :: "gval option \<Rightarrow> string" where
  "asString (Some (VStr text)) = text"
| "asString _ = []"

fun asBool :: "gval option \<Rightarrow> bool" where
  "asBool (Some (VBool flag)) = flag"
| "asBool _ = False"

fun parse_options :: "gval list \<Rightarrow> envelope_error + ClarificationOption list" where
  "parse_options [] = Inr []"
| "parse_options (VMap optionMap # rest) =
     (case parse_options rest of
        Inl err \<Rightarrow> Inl err
      | Inr opts \<Rightarrow>
          Inr (\<lparr>OptionLabel = asString (map_of optionMap ''label''),
                OptionDescription = asString (map_of optionMap ''description'')\<rparr> # opts))"
| "parse_options (_ # rest) = Inl OptionNotObject"

fun parse_questions :: "gval list \<Rightarrow> envelope_error + ClarificationRequest" where
  "parse_questions [] = Inr []"
| "parse_questions (VMap questionMap # rest) =
     (case map_of questionMap ''options'' of
        Some (VList rawOptions) \<Rightarrow>
          (case parse_options rawOptions of
             Inl err \<Rightarrow> Inl err
           | Inr opts \<Rightarrow>
               (case parse_questions rest of
                  Inl err \<Rightarrow> Inl err
                | Inr questions \<Rightarrow>
                    Inr (\<lparr>Question = asString (map_of questionMap ''question''),
                          WhyItMatters = asString (map_of questionMap ''why_it_matters''),
                          Options = opts,
                          MultiSelect = asBool (map_of questionMap ''multi_select'')\<rparr> # questions)))
      | _ \<Rightarrow> Inl OptionsArrayRequired)"
| "parse_questions (_ # rest) = Inl QuestionNotObject"

definition ParseClarificationRequest :: "(string, gval) gomap \<Rightarrow> envelope_error + ClarificationRequest" where
  "ParseClarificationRequest payload =
     (case map_of payload ''questions'' of
        Some (VList questions) \<Rightarrow> parse_questions questions
      | _ \<Rightarrow> Inl QuestionsArrayRequired)"

definition ParseOutputEnvelope ::
  "go_env \<Rightarrow> NodeDefinition \<Rightarrow> NodeRun \<Rightarrow> (string, gval) gomap option \<Rightarrow> envelope_error + ExecResult" where
  "ParseOutputEnvelope env def run decoded =
     (case decoded of
        None \<Rightarrow> Inl OutputNotJSON
      | Some output \<Rightarrow>
          (let kind = asString (map_of output ''kind'')
           in if kind = ''clarification'' then
                (if \<not> ClarificationRemaining def run then Inl ClarificationNotAllowed
                 else
                   (case map_of output ''clarification'' of
                      Some (VMap payload) \<Rightarrow>
                        (case ParseClarificationRequest payload of
                           Inl err \<Rightarrow> Inl err
                         | Inr request \<Rightarrow>
                             Inr \<lparr>ResSessionID = [], ResKind = ResultKindClarification, ResResult = None,
                                  ResClarification = Some request\<rparr>)
                    | _ \<Rightarrow> Inl ClarificationObjectRequired))
              else if kind = ''result'' then
                (case map_of output ''result'' of
                   Some (VMap payload) \<Rightarrow>
                     (case ValidateValue env (Some (ResultSchema def)) (VMap payload) of
                        Some err \<Rightarrow> Inl (ResultInvalid err)
                      | None \<Rightarrow>
                          Inr \<lparr>ResSessionID = [], ResKind = ResultKindResult, ResResult = Some payload,
                               ResClarification = None\<rparr>)
                 | _ \<Rightarrow> Inl ResultObjectRequired)
              else Inl KindRequired))"

text \<open>Whether an executor resumes the session of the run, and which.\<close>

definition ResumeTargetSessionID :: "NodeRun \<Rightarrow> string" where
  "ResumeTargetSessionID run =
     (if is_blank (SessionID run) then []
      else
        (case rev (Clarifications run) of
           [] \<Rightarrow> []
         | latest # _ \<Rightarrow> if Response latest = None then [] else SessionID run))"

section \<open>The human answer on disk (artifacts.go, recovery.go)\<close>

text \<open>materializeHumanNodeArtifact: the map that is written to output.json.\<close>

definition human_envelope :: "string \<Rightarrow> NodeRun \<Rightarrow> int \<Rightarrow> (string, gval) gomap \<Rightarrow> (string, gval) gomap" where
  "human_envelope taskID run submittedAt payload =
     [(''kind'', VStr ''human_node_result''), (''task_id'', VStr taskID), (''node_run_id'', VStr (RunID run)),
      (''node_name'', VStr (NodeName run)), (''submitted_at'', VStr (rfc3339nano submittedAt)),
      (''result'', VMap payload)]"

datatype recovery_error = RecoveryResultObjectRequired | RecoveryResultInvalid value_error

text \<open>The payload, nothing when the output is not one of a human node, or an error.\<close>

definition parseHumanNodeRecoveryOutput ::
  "go_env \<Rightarrow> JSONSchema \<Rightarrow> (string, gval) gomap option \<Rightarrow>
   recovery_error + (string, gval) gomap option" where
  "parseHumanNodeRecoveryOutput env schema decoded =
     (case decoded of
        None \<Rightarrow> Inr None
      | Some output \<Rightarrow>
          if trim_space (asString (map_of output ''kind'')) \<noteq> ''human_node_result'' then Inr None
          else
            (case map_of output ''result'' of
               Some (VMap resultPayload) \<Rightarrow>
                 (case ValidateValue env (Some schema) (VMap resultPayload) of
                    Some err \<Rightarrow> Inl (RecoveryResultInvalid err)
                  | None \<Rightarrow> Inr (Some resultPayload))
             | _ \<Rightarrow> Inl RecoveryResultObjectRequired))"

definition recoverOutputEnvelope ::
  "go_env \<Rightarrow> Config \<Rightarrow> NodeRun \<Rightarrow> (string, gval) gomap option \<Rightarrow> recovery_error + ExecResult option" where
  "recoverOutputEnvelope env cfg run decoded =
     (case map_of (NodeDefinitions cfg) (NodeName run) of
        None \<Rightarrow> Inr None
      | Some def \<Rightarrow>
          if DefType def = NodeTypeHuman then
            (case parseHumanNodeRecoveryOutput env (ResultSchema def) decoded of
               Inl err \<Rightarrow> Inl err
             | Inr None \<Rightarrow> Inr None
             | Inr (Some payload) \<Rightarrow>
                 Inr (Some \<lparr>ResSessionID = [], ResKind = ResultKindResult, ResResult = Some payload,
                            ResClarification = None\<rparr>))
          else
            (case ParseOutputEnvelope env def run decoded of
               Inl err \<Rightarrow> Inr None
             | Inr result \<Rightarrow> Inr (Some result)))"

definition recoverClarifications ::
  "ClarificationExchange list \<Rightarrow> ClarificationRequest \<Rightarrow> int \<Rightarrow> ClarificationExchange list" where
  "recoverClarifications existing request requestedAt =
     (case rev existing of
        latest # earlier \<Rightarrow>
          if Response latest = None
          then rev earlier @ [latest\<lparr>Request := request, RequestedAt := requestedAt\<rparr>]
          else existing @ [\<lparr>Request = request, Response = None, RequestedAt = requestedAt, AnsweredAt = None\<rparr>]
      | [] \<Rightarrow> [\<lparr>Request = request, Response = None, RequestedAt = requestedAt, AnsweredAt = None\<rparr>])"

section \<open>Round trips\<close>

text \<open>The payload that carries a response, as the API receives it.\<close>

definition response_payload :: "ClarificationResponse \<Rightarrow> (string, gval) gomap" where
  "response_payload response =
     [(''answers'', VList (map (\<lambda>answer. VMap [(''selected'', answer)]) response))]"

text \<open>What a stored answer looks like: trimmed, not empty, a list exactly for a multi-select question.\<close>

definition answer_ok :: "ClarificationQuestion \<Rightarrow> gval \<Rightarrow> bool" where
  "answer_ok question answer \<longleftrightarrow>
     (if MultiSelect question
      then \<exists>texts. answer = VList (map VStr texts) \<and> texts \<noteq> [] \<and>
             (\<forall>t\<in>set texts. t \<noteq> [] \<and> trim_space t = t)
      else \<exists>text. answer = VStr text \<and> text \<noteq> [] \<and> trim_space text = text)"

lemma trim_left_fixed:
  "trim_left ws s = s \<longleftrightarrow> (\<forall>w\<in>set ws. w \<noteq> [] \<longrightarrow> \<not> prefix w s)"
proof
  assume fixed: "trim_left ws s = s"
  show "\<forall>w\<in>set ws. w \<noteq> [] \<longrightarrow> \<not> prefix w s"
  proof (rule ccontr)
    assume "\<not> ?thesis"
    then obtain w where w: "find (\<lambda>w. w \<noteq> [] \<and> prefix w s) ws = Some w"
      by (cases "find (\<lambda>w. w \<noteq> [] \<and> prefix w s) ws") (auto simp: find_None_iff)
    then have "w \<noteq> []" "prefix w s" by (auto simp: find_Some_iff)
    moreover have "length (trim_left ws s) \<le> length (drop (length w) s)"
      using w suffix_length_le [OF trim_left_suffix [of ws "drop (length w) s"]] by (subst trim_left.simps) simp
    moreover have "0 < length w" "length w \<le> length s" using calculation prefix_length_le by auto
    ultimately show False unfolding fixed length_drop by linarith
  qed
next
  assume "\<forall>w\<in>set ws. w \<noteq> [] \<longrightarrow> \<not> prefix w s"
  then have "find (\<lambda>w. w \<noteq> [] \<and> prefix w s) ws = None" by (auto simp: find_None_iff)
  then show "trim_left ws s = s" by (subst trim_left.simps) simp
qed

lemma trim_space_idem [simp]: "trim_space (trim_space s) = trim_space s"
proof -
  let ?t = "trim_left go_spaces s" and ?rs = "map rev go_spaces"
  let ?u = "rev (trim_left ?rs (rev ?t))"
  have "trim_left go_spaces ?t = ?t" by (rule trim_left_idem)
  moreover have "prefix ?u ?t" using trim_left_suffix [of ?rs "rev ?t"] by (simp add: suffix_to_prefix)
  ultimately have "trim_left go_spaces ?u = ?u"
    unfolding trim_left_fixed by (meson prefix_order.trans)
  then show ?thesis by (simp add: trim_space_def trim_left_idem)
qed

lemma strings_of_values_Inr:
  "strings_of_values vs = Inr texts \<Longrightarrow> \<forall>t\<in>set texts. t \<noteq> [] \<and> trim_space t = t"
proof (induction vs arbitrary: texts rule: strings_of_values.induct)
  case (2 v vs)
  from 2(2) obtain out where out: "trim_space v \<noteq> []" "strings_of_values vs = Inr out" "texts = trim_space v # out"
    by (auto simp: Let_def split: if_split_asm sum.split_asm)
  have "\<forall>t\<in>set out. t \<noteq> [] \<and> trim_space t = t" by (rule 2(1) [OF refl out(1,2)])
  then show ?case using out(1) by (auto simp: out(3))
qed simp_all

lemma strings_of_normal:
  "\<forall>t\<in>set texts. t \<noteq> [] \<and> trim_space t = t \<Longrightarrow> strings_of_values (map VStr texts) = Inr texts"
  by (induction texts) auto

lemma normalize_ok: "normalizeClarificationAnswer q v = Inr a \<Longrightarrow> answer_ok q a"
proof (cases "MultiSelect q")
  case True
  assume "normalizeClarificationAnswer q v = Inr a"
  with True obtain texts where t: "selectedStringSlice v = Inr texts" "texts \<noteq> []" "a = VList (map VStr texts)"
    by (auto simp: normalizeClarificationAnswer_def split: sum.splits if_splits)
  from t(1) have "\<forall>t\<in>set texts. t \<noteq> [] \<and> trim_space t = t"
    by (cases v) (auto dest: strings_of_values_Inr)
  with t True show ?thesis by (auto simp: answer_ok_def)
qed (auto simp: normalizeClarificationAnswer_def answer_ok_def Let_def split: gval.splits if_splits)

lemma normalize_normal: "answer_ok q a \<Longrightarrow> normalizeClarificationAnswer q a = Inr a"
  by (auto simp: answer_ok_def normalizeClarificationAnswer_def strings_of_normal split: if_splits)

lemma parse_answers_ok:
  "parse_answers qs i vs = Inr r \<Longrightarrow> length r = length vs \<and> (\<forall>j<length vs. answer_ok (qs ! (i + j)) (r ! j))"
proof (induction qs i vs arbitrary: r rule: parse_answers.induct)
  case (2 qs i m rest)
  then obtain selected a answers where
    "map_of m ''selected'' = Some selected" "normalizeClarificationAnswer (qs ! i) selected = Inr a"
    "parse_answers qs (Suc i) rest = Inr answers" "r = a # answers"
    by (auto split: option.splits sum.splits)
  with 2 show ?case by (auto simp: nth_Cons normalize_ok split: nat.splits)
qed simp_all

lemma parse_answers_normal:
  "\<forall>j<length r. answer_ok (qs ! (i + j)) (r ! j) \<Longrightarrow>
     parse_answers qs i (map (\<lambda>answer. VMap [(''selected'', answer)]) r) = Inr r"
proof (induction r arbitrary: i)
  case (Cons a r)
  have "answer_ok (qs ! i) a" using Cons.prems by force
  moreover have "\<forall>j<length r. answer_ok (qs ! (Suc i + j)) (r ! j)" using Cons.prems by force
  ultimately show ?case using Cons.IH by (simp add: normalize_normal)
qed simp

text \<open>
  the answers parseClarificationResponse accepts are one per question, each a trimmed text that
  is not empty, or a list of such for a multi-select question; and the accepted response, sent again
  as a payload, is accepted unchanged.
\<close>

theorem clarification_response_round_trip:
  assumes "parseClarificationResponse request payload = Inr response"
  shows "list_all2 answer_ok request response \<and>
    parseClarificationResponse request (response_payload response) = Inr response"
proof -
  from assms obtain raw where raw: "length raw = length request" "parse_answers request 0 raw = Inr response"
    by (auto simp: parseClarificationResponse_def split: option.splits gval.splits if_splits)
  from parse_answers_ok [OF raw(2)] raw(1) show ?thesis
    by (simp add: list_all2_conv_all_nth parseClarificationResponse_def response_payload_def parse_answers_normal)
qed

definition demo_question :: "bool \<Rightarrow> ClarificationQuestion" where
  "demo_question multi =
     \<lparr>Question = ''Which?'', WhyItMatters = ''scope'',
      Options = [\<lparr>OptionLabel = ''one'', OptionDescription = ''first''\<rparr>], MultiSelect = multi\<rparr>"

theorem clarification_response_round_trip_witness:
  "parseClarificationResponse [demo_question False, demo_question True]
     (response_payload [VStr ''one'', VList [VStr ''one'']]) = Inr [VStr ''one'', VList [VStr ''one'']]"
proof -
  have t: "trim_space '' one'' = ''one''" "trim_space ''one'' = ''one''" by code_simp+
  have "parseClarificationResponse [demo_question False, demo_question True]
      [(''answers'', VList [VMap [(''selected'', VStr '' one'')], VMap [(''selected'', VStrs [''one''])]])] =
      Inr [VStr ''one'', VList [VStr ''one'']]"
    by (simp add: parseClarificationResponse_def normalizeClarificationAnswer_def demo_question_def t)
  from clarification_response_round_trip [OF this] show ?thesis by blast
qed

text \<open>encoding/json's object for a ClarificationRequest, with the struct tags of types.go.\<close>

definition option_object :: "ClarificationOption \<Rightarrow> gval" where
  "option_object opt =
     VMap [(''label'', VStr (OptionLabel opt)), (''description'', VStr (OptionDescription opt))]"

definition question_object :: "ClarificationQuestion \<Rightarrow> gval" where
  "question_object q =
     VMap ([(''question'', VStr (Question q)), (''why_it_matters'', VStr (WhyItMatters q)),
            (''options'', VList (map option_object (Options q)))] @
           (if MultiSelect q then [(''multi_select'', VBool True)] else []))"

definition request_object :: "ClarificationRequest \<Rightarrow> (string, gval) gomap" where
  "request_object request = [(''questions'', VList (map question_object request))]"

lemma parse_options_object: "parse_options (map option_object opts) = Inr opts"
  by (induction opts) (simp_all add: option_object_def)

lemma parse_questions_object: "parse_questions (map question_object qs) = Inr qs"
  by (induction qs) (simp_all add: question_object_def parse_options_object)

text \<open>
  a clarification request that an agent's envelope carries in the encoding of its type is read
  back unchanged, whenever the node has a clarification round left.
\<close>

theorem clarification_envelope_round_trip:
  assumes "ClarificationRemaining def run"
  shows "ParseOutputEnvelope env def run
      (Some [(''kind'', VStr ''clarification''), (''clarification'', VMap (request_object request))]) =
    Inr \<lparr>ResSessionID = [], ResKind = ResultKindClarification, ResResult = None,
         ResClarification = Some request\<rparr>"
  using assms
  by (simp add: ParseOutputEnvelope_def ParseClarificationRequest_def request_object_def parse_questions_object)

theorem clarification_envelope_round_trip_witness:
  "ParseOutputEnvelope plain_env (zero_definition\<lparr>MaxClarificationRounds := 1\<rparr>) (demo_run ''r'' ''plan'' NodeRunRunning 1)
      (Some [(''kind'', VStr ''clarification''), (''clarification'', VMap (request_object [demo_question True]))]) =
    Inr \<lparr>ResSessionID = [], ResKind = ResultKindClarification, ResResult = None,
         ResClarification = Some [demo_question True]\<rparr>"
  by (rule clarification_envelope_round_trip)
    (simp add: ClarificationRemaining_def ClarificationConfigured_def zero_definition_def demo_run_def)

text \<open>
  a human answer that reached output.json before a crash is recovered from it: the JSON map read
  from the file yields exactly the payload that was submitted, when the payload came from JSON and
  passed the node's schema.
\<close>

theorem human_answer_is_recovered:
  assumes "json_ok js" and "json_entries js payload = Some payload"
    and "ValidateValue env (Some schema) (VMap payload) = None"
    and "json_entries js (human_envelope taskID run submittedAt payload) = Some output"
  shows "parseHumanNodeRecoveryOutput env schema (Some output) = Inr (Some payload)"
proof -
  have js: "js ''kind'' = ''kind''" "js ''result'' = ''result''" "js ''human_node_result'' = ''human_node_result''"
    "js ''task_id'' = ''task_id''" "js ''node_run_id'' = ''node_run_id''" "js ''node_name'' = ''node_name''"
    "js ''submitted_at'' = ''submitted_at''"
    using assms(1) unfolding json_ok_def by (simp_all add: of_char_def)
  have t: "trim_space ''human_node_result'' = ''human_node_result''"
    by (simp add: trim_space_plain go_spaces_def)
  from assms(2,4) have "map_of output ''kind'' = Some (VStr ''human_node_result'')"
    "map_of output ''result'' = Some (VMap payload)"
    by (auto simp: human_envelope_def js split: option.splits)
  with assms(3) show ?thesis by (simp add: parseHumanNodeRecoveryOutput_def t)
qed

theorem human_answer_is_recovered_witness:
  "parseHumanNodeRecoveryOutput plain_env (JSONSchema ''object'' None [''approved''] [] None [] [] None None)
     (Some (human_envelope ''t'' (demo_run ''r'' ''approve'' NodeRunAwaitingUser 1) 0 [(''approved'', VBool True)])) =
   Inr (Some [(''approved'', VBool True)])"
  by (rule human_answer_is_recovered [of "\<lambda>s. s"])
    (simp_all add: human_envelope_def ValidateValue_def validateValue.simps)

end
