(* ===== verification/Paths.thy ===== *)
theory Paths
  imports Prelude
begin

text \<open>
  Package path/filepath on Unix, as the sources use it: Clean, Join, IsAbs, Base, Dir and Rel on
  paths that are sequences of segments between slashes.
\<close>

abbreviation slash :: char where "slash \<equiv> CHR ''/''"

section \<open>filepath\<close>

definition IsAbs :: "string \<Rightarrow> bool" where
  "IsAbs path \<longleftrightarrow> (case path of c # _ \<Rightarrow> c = slash | [] \<Rightarrow> False)"

definition raw_segments :: "string \<Rightarrow> string list" where
  "raw_segments path = filter (\<lambda>s. s \<noteq> [] \<and> s \<noteq> ''.'') (split_on slash path)"

text \<open>The loop of Clean; out is the output so far, last segment first.\<close>

fun clean_segments :: "bool \<Rightarrow> string list \<Rightarrow> string list \<Rightarrow> string list" where
  "clean_segments rooted out [] = rev out"
| "clean_segments rooted out (s # segs) =
     (if s = ''..'' then
        (case out of
           [] \<Rightarrow> clean_segments rooted (if rooted then [] else [''..'']) segs
         | t # ts \<Rightarrow>
             if t = ''..'' then clean_segments rooted (''..'' # out) segs
             else clean_segments rooted ts segs)
      else clean_segments rooted (s # out) segs)"

definition path_segments :: "string \<Rightarrow> string list" where
  "path_segments path = clean_segments (IsAbs path) [] (raw_segments path)"

definition render_path :: "bool \<Rightarrow> string list \<Rightarrow> string" where
  "render_path rooted segs =
     (if rooted then slash # join_on slash segs
      else if segs = [] then ''.'' else join_on slash segs)"

definition Clean :: "string \<Rightarrow> string" where
  "Clean path = render_path (IsAbs path) (path_segments path)"

definition Join_path :: "string list \<Rightarrow> string" where
  "Join_path elems =
     (case filter (\<lambda>e. e \<noteq> []) elems of [] \<Rightarrow> [] | es \<Rightarrow> Clean (join_on slash es))"

section \<open>Segments of a cleaned path\<close>

definition seg_ok :: "string \<Rightarrow> bool" where
  "seg_ok s \<longleftrightarrow> s \<noteq> [] \<and> s \<noteq> ''.'' \<and> slash \<notin> set s"

lemma raw_segments_ok: "\<forall>s\<in>set (raw_segments p). seg_ok s"
  by (auto simp: raw_segments_def seg_ok_def dest: split_on_parts)

lemma clean_segments_subset: "set (clean_segments r out segs) \<subseteq> set out \<union> set segs \<union> {''..''}"
  by (induction r out segs rule: clean_segments.induct) (auto split: list.splits if_splits)

lemma path_segments_ok: "\<forall>s\<in>set (path_segments p). seg_ok s"
  using clean_segments_subset [of "IsAbs p" "[]" "raw_segments p"] raw_segments_ok [of p]
  by (auto simp: path_segments_def seg_ok_def)

text \<open>A cleaned path has its parent steps, if any, at the front, and none when it is rooted.\<close>

definition segs_clean :: "bool \<Rightarrow> string list \<Rightarrow> bool" where
  "segs_clean rooted segs \<longleftrightarrow>
     (\<exists>n rest. segs = replicate n ''..'' @ rest \<and> ''..'' \<notin> set rest \<and> (rooted \<longrightarrow> n = 0))"

lemma clean_segments_id:
  assumes "segs_clean r (rev out @ segs)"
  shows "clean_segments r out segs = rev out @ segs"
  using assms
proof (induction r out segs rule: clean_segments.induct)
  case (2 r out s segs)
  have "s = ''..'' \<Longrightarrow> set out \<subseteq> {''..''} \<and> \<not> r"
  proof -
    assume s: "s = ''..''"
    from "2.prems" obtain n rest where n: "rev out @ s # segs = replicate n ''..'' @ rest" "''..'' \<notin> set rest"
      "r \<longrightarrow> n = 0" by (auto simp: segs_clean_def)
    have "length out < n"
    proof (rule ccontr)
      assume "\<not> length out < n"
      then have "(rev out @ s # segs) ! length out \<in> set rest \<or> n > length out"
        using n(1) by (metis (no_types, lifting) in_set_conv_nth length_append length_replicate length_rev
            add_less_cancel_left le_add_diff_inverse length_Cons less_add_same_cancel1 linorder_not_less
            nth_append nth_append_length zero_less_Suc)
      with s n(2) \<open>\<not> length out < n\<close> show False by (metis length_rev nth_append_length)
    qed
    then have "rev out = take (length out) (replicate n ''..'')"
      using n(1) by (metis append_eq_conv_conj length_replicate length_rev less_imp_le_nat take_append
          append_Nil2 diff_is_0_eq take_0)
    then have "set (rev out) \<subseteq> {''..''}" by (metis set_replicate_conv_if set_take_subset empty_subsetI subset_trans subset_refl)
    with \<open>length out < n\<close> n(3) show ?thesis by auto
  qed
  with 2 show ?case by (auto split: list.splits)
qed simp

end
