(* ===== verification/Runtime.thy ===== *)
theory Runtime
  imports Envelope Engine Paths "HOL-Library.Word"
begin

text \<open>
  The task runtime (cli/internal/taskruntime): the Service with its store, engine and event bus, the
  commands (runtime.go, retry.go), the node runner (node_runner.go), the queries (query.go) and the
  recovery at start-up (recovery.go).  The next theories prove what its reachable states keep.
\<close>

section \<open>Texts of the errors that end in a run's failure reason\<close>

fun value_path_text :: "value_path \<Rightarrow> string" where
  "value_path_text [] = []"
| "value_path_text (Field key # path) = ''.'' @ key @ value_path_text path"
| "value_path_text (Index idx # path) = ''['' @ show_nat idx @ '']'' @ value_path_text path"

text \<open>The enum of the schema that a path leads to.\<close>

fun enum_at :: "JSONSchema option \<Rightarrow> value_path \<Rightarrow> gval list" where
  "enum_at None path = []"
| "enum_at (Some schema) [] = Enum schema"
| "enum_at (Some schema) (Field key # path) =
     (case map_of (Properties schema) key of None \<Rightarrow> [] | Some child \<Rightarrow> enum_at child path)"
| "enum_at (Some schema) (Index idx # path) = enum_at (Items schema) path"

fun value_error_text :: "go_env \<Rightarrow> JSONSchema \<Rightarrow> value_error \<Rightarrow> string" where
  "value_error_text env schema (HasNoSchema p) = ''$'' @ value_path_text p @ '' has no schema''"
| "value_error_text env schema (MatchesNoSchema p) =
     ''$'' @ value_path_text p @ '' does not match any allowed schema''"
| "value_error_text env schema (MustBeObject p) = ''$'' @ value_path_text p @ '' must be an object''"
| "value_error_text env schema (IsRequired p key) = ''$'' @ value_path_text p @ ''.'' @ key @ '' is required''"
| "value_error_text env schema (NotAllowed p key) = ''$'' @ value_path_text p @ ''.'' @ key @ '' is not allowed''"
| "value_error_text env schema (MustBeArray p) = ''$'' @ value_path_text p @ '' must be an array''"
| "value_error_text env schema (TooFewItems p n) =
     ''$'' @ value_path_text p @ '' must contain at least '' @ show_int n @ '' items''"
| "value_error_text env schema (TooManyItems p n) =
     ''$'' @ value_path_text p @ '' must contain at most '' @ show_int n @ '' items''"
| "value_error_text env schema (MustBeString p) = ''$'' @ value_path_text p @ '' must be a string''"
| "value_error_text env schema (MustBeBoolean p) = ''$'' @ value_path_text p @ '' must be a boolean''"
| "value_error_text env schema (MustBeInteger p) = ''$'' @ value_path_text p @ '' must be an integer''"
| "value_error_text env schema (MustBeNumber p) = ''$'' @ value_path_text p @ '' must be a number''"
| "value_error_text env schema (UnsupportedType p ty) =
     ''$'' @ value_path_text p @ '' has unsupported type '' @ go_quote ty"
| "value_error_text env schema (MustBeOneOf p) =
     ''$'' @ value_path_text p @ '' must be one of '' @ fmt_v env (VList (enum_at (Some schema) p))"

fun engine_error_text :: "engine_error \<Rightarrow> string" where
  "engine_error_text NoEdgeMatched = ''no conditional edges matched and no else edge is defined''"

text \<open>An error value as the runtime reads it: its text, and whether it is context.Canceled.\<close>

record run_error =
  ErrText :: string
  ErrCanceled :: bool

section \<open>State\<close>

type_synonym u64 = "64 word"

text \<open>
  A stream event of an executor; a zero EmittedAt is the zero time, and the body stands for the
  message, tool, plan or usage it carries, which the runtime passes on.
\<close>

record StreamEvent =
  SeEventID :: string
  SeSeq :: u64
  SeEmittedAt :: int
  SeSessionID :: string
  SeProvenance :: string
  SeBody :: string

record Progress =
  ProgMessage :: string
  ProgSessionID :: string
  ProgEvents :: "StreamEvent list"

record EventRecord =
  RecEvent :: StreamEvent
  RecordedAt :: int

datatype InputKind = InputKindHumanNode | InputKindClarification

record InputRequest =
  ReqKind :: InputKind
  ReqTaskID :: string
  ReqNodeRunID :: string
  ReqNodeName :: string
  ReqSchema :: "JSONSchema option"
  ReqQuestions :: "ClarificationQuestion list"
  ReqArtifactPaths :: "string list"

datatype EventType =
    EventTaskCreated
  | EventNodeStarted
  | EventNodeProgress
  | EventNodeCompleted
  | EventNodeFailed
  | EventInputRequested
  | EventTaskCompleted
  | EventTaskFailed
  | EventCommandError

text \<open>The task view with the lineage that loadTaskLineage adds to it.\<close>

record LoadedView =
  LvView :: TaskView
  LvParentTaskID :: string
  LvParentDescription :: string

record RunEvent =
  EvType :: EventType
  EvTaskID :: string
  EvNodeRunID :: string
  EvNodeName :: string
  EvView :: "LoadedView option"
  EvProgress :: "Progress option"
  EvInput :: "InputRequest option"
  EvError :: "string option"

text \<open>An agent run that executes in its goroutine; JobProgressErr is progressErr.\<close>

datatype rt_error =
    Fault string
  | StoreFailure store_error
  | ConfigUnavailable
  | ConfigRejected string
  | DeriveFailure engine_error
  | RunIDRequired
  | AliasRequired
  | PathRequired
  | ExecutionDirFailed string
  | ParentIDRequired
  | ParentNotCompleted
  | ParentWithoutLaunchMetadata
  | AliasAndPathTogether
  | FollowUpModeNeedsRepo
  | ParentWorktreeMissing
  | UnsupportedFollowUpMode
  | CheckoutBusy string
  | RunOfAnotherTask
  | RunNotAwaitingUser
  | PayloadInvalid value_error
  | AttachmentsRejected string
  | NoClarificationRequested
  | AnswersRejected answer_error
  | NothingToRetry
  | MissingFailedRunID
  | NotLatestFailedRun
  | NodeNotRetryable
  | RetryUnavailable
  | NothingToContinue
  | StepWithoutTrigger
  | UnsupportedCommand
  | UnsupportedRuntime string
  | UnrecoverableOutput recovery_error
  | NilClarification
  | TaskFailureReported run_error
  | OutOfFuel

record Job =
  JobTask :: Task
  JobConfig :: Config
  JobRun :: NodeRun
  JobProgressErr :: "rt_error option"

text \<open>
  The Service and what it stands on: the database, the materialised config of each task, the output
  files of the runs (absent, not JSON, or the decoded map), the histories of the runs, and the
  number of readings taken from the surroundings so far.
\<close>

record Service =
  svStore :: Store
  svConfigs :: "string \<Rightarrow> Config option"
  svOutputs :: "string \<Rightarrow> (string, gval) gomap option option"
  svHistory :: "string \<Rightarrow> EventRecord list option"
  svEngine :: Engine
  svEvents :: "RunEvent list"
  svJobs :: "Job list"
  svEventSeqs :: "string \<Rightarrow> u64 option"
  svShutdownReason :: string
  svTick :: nat

record ImageAttachmentInput =
  AttName :: string
  AttMIMEType :: string
  AttSizeBytes :: int
  AttDataBase64 :: string

text \<open>
  What the surroundings answer to the n-th reading: the clock, a fresh UUID, a failure of a file or
  database operation, the config Materialize writes for a task (and Load reads from it), whether
  image attachments are stored, whether a file exists, the execution directory git prepares for a
  task, the directory and root of a task's checkout, and the directory of a fork of it.
  NormalizeWorkDir resolves symbolic links; rtErrText gives the texts of errors the model keeps
  abstract.
\<close>

record rt_env =
  rtGo :: go_env
  rtStore :: store_env
  rtClock :: "nat \<Rightarrow> int"
  rtUUID :: "nat \<Rightarrow> string"
  rtFault :: "nat \<Rightarrow> string option"
  rtMaterialize :: "nat \<Rightarrow> string \<Rightarrow> string \<Rightarrow> string \<Rightarrow> string + Config"
  rtAttachments :: "nat \<Rightarrow> ImageAttachmentInput list \<Rightarrow> string option"
  rtFileExists :: "nat \<Rightarrow> string \<Rightarrow> bool"
  rtNormalize :: "string \<Rightarrow> string"
  rtExecutionDir :: "nat \<Rightarrow> string \<Rightarrow> string \<Rightarrow> string + string"
  rtCheckout :: "nat \<Rightarrow> Task \<Rightarrow> (string \<times> string) option"
  rtForkDir :: "nat \<Rightarrow> Task \<Rightarrow> string \<Rightarrow> bool \<Rightarrow> string + string"
  rtErrText :: "rt_error \<Rightarrow> string"
  rtWorkDir :: string

section \<open>Steps of a handler\<close>

text \<open>A handler takes the service, may fail, and returns the service it leaves.\<close>

type_synonym 'a rt = "Service \<Rightarrow> (rt_error + 'a) \<times> Service"

definition ret :: "'a \<Rightarrow> 'a rt" where
  "ret x s = (Inr x, s)"

definition fail :: "rt_error \<Rightarrow> 'a rt" where
  "fail e s = (Inl e, s)"

definition bind :: "'a rt \<Rightarrow> ('a \<Rightarrow> 'b rt) \<Rightarrow> 'b rt" where
  "bind m f s = (case m s of (Inl e, s') \<Rightarrow> (Inl e, s') | (Inr x, s') \<Rightarrow> f x s')"

abbreviation andThen :: "unit rt \<Rightarrow> 'b rt \<Rightarrow> 'b rt" where
  "andThen m k \<equiv> bind m (\<lambda>_. k)"

definition get_state :: "Service rt" where
  "get_state s = (Inr s, s)"

definition update_state :: "(Service \<Rightarrow> Service) \<Rightarrow> unit rt" where
  "update_state f s = (Inr (), f s)"

definition from_sum :: "('e \<Rightarrow> rt_error) \<Rightarrow> 'e + 'a \<Rightarrow> 'a rt" where
  "from_sum f r s = (case r of Inl e \<Rightarrow> (Inl (f e), s) | Inr x \<Rightarrow> (Inr x, s))"

text \<open>if err != nil { return err }, and a guard of the code.\<close>

definition guard :: "bool \<Rightarrow> rt_error \<Rightarrow> unit rt" where
  "guard ok e = (if ok then ret () else fail e)"

text \<open>A reading of the surroundings.\<close>

definition reading :: "(nat \<Rightarrow> 'a) \<Rightarrow> 'a rt" where
  "reading f s = (Inr (f (svTick s)), s\<lparr>svTick := svTick s + 1\<rparr>)"

definition io :: "rt_env \<Rightarrow> unit rt" where
  "io env = bind (reading (rtFault env)) (\<lambda>fault. case fault of None \<Rightarrow> ret () | Some msg \<Rightarrow> fail (Fault msg))"

definition publish :: "RunEvent \<Rightarrow> unit rt" where
  "publish event = update_state (\<lambda>s. s\<lparr>svEvents := svEvents s @ [event]\<rparr>)"

definition event :: "EventType \<Rightarrow> string \<Rightarrow> RunEvent" where
  "event ty taskID =
     \<lparr>EvType = ty, EvTaskID = taskID, EvNodeRunID = [], EvNodeName = [], EvView = None,
      EvProgress = None, EvInput = None, EvError = None\<rparr>"

definition run_event :: "EventType \<Rightarrow> string \<Rightarrow> NodeRun \<Rightarrow> RunEvent" where
  "run_event ty taskID run = (event ty taskID)\<lparr>EvNodeRunID := RunID run, EvNodeName := NodeName run\<rparr>"

text \<open>Statements on the database.\<close>

definition query :: "rt_env \<Rightarrow> (Store \<Rightarrow> store_error + 'a) \<Rightarrow> 'a rt" where
  "query env q = andThen (io env) (bind get_state (\<lambda>s. from_sum StoreFailure (q (svStore s))))"

definition execute :: "rt_env \<Rightarrow> (Store \<Rightarrow> store_error + Store) \<Rightarrow> unit rt" where
  "execute env f =
     bind (query env f) (\<lambda>st. update_state (\<lambda>s. s\<lparr>svStore := st\<rparr>))"

definition save_run :: "rt_env \<Rightarrow> NodeRun \<Rightarrow> unit rt" where
  "save_run env run = bind (reading (rtClock env)) (\<lambda>now. execute env (SaveNodeRun (rtStore env) now run))"

definition list_runs :: "rt_env \<Rightarrow> string \<Rightarrow> NodeRun list rt" where
  "list_runs env taskID = query env (\<lambda>st. Inr (ListNodeRunsByTask st taskID))"

definition load_config :: "rt_env \<Rightarrow> Task \<Rightarrow> Config rt" where
  "load_config env task =
     andThen (io env) (bind get_state (\<lambda>s.
       case svConfigs s (TaskID task) of None \<Rightarrow> fail ConfigUnavailable | Some cfg \<Rightarrow> ret cfg))"

text \<open>Files of a run: its directory, manifest and input, whose contents nothing below depends on.\<close>

definition persistRunManifest :: "rt_env \<Rightarrow> NodeRun \<Rightarrow> unit rt" where
  "persistRunManifest env run = andThen (guard (\<not> is_blank (RunID run)) RunIDRequired) (io env)"

definition write_input :: "rt_env \<Rightarrow> NodeRun \<Rightarrow> unit rt" where
  "write_input env run = andThen (persistRunManifest env run) (io env)"

section \<open>Queries (query.go, inherited_context.go)\<close>

definition RunDir :: "rt_env \<Rightarrow> Task \<Rightarrow> string \<Rightarrow> string" where
  "RunDir env task runID =
     Join_path [Join_path [rtNormalize env (WorkDir task), ''.muxagent'', ''tasks'', TaskID task], ''runs'', runID]"

definition ResolveRunPath :: "rt_env \<Rightarrow> Task \<Rightarrow> string \<Rightarrow> string \<Rightarrow> string" where
  "ResolveRunPath env task runID rawPath =
     (let path = trim_space rawPath
      in if path = [] then []
         else if IsAbs path then Clean path
         else Clean (Join_path [RunDir env task runID, path]))"

definition completedArtifactPaths :: "NodeRun list \<Rightarrow> string list" where
  "completedArtifactPaths runs =
     concat (map (\<lambda>run. ArtifactPaths (Result run)) (filter (\<lambda>run. Status run = NodeRunDone) runs))"

definition resolveArtifactPaths :: "rt_env \<Rightarrow> Task \<Rightarrow> NodeRun list \<Rightarrow> string list" where
  "resolveArtifactPaths env task runs =
     concat (map (\<lambda>run. map (ResolveRunPath env task (RunID run))
                    (filter (\<lambda>path. \<not> is_blank path) (ArtifactPaths (Result run))))
              (filter (\<lambda>run. Status run = NodeRunDone) runs))"

text \<open>The last occurrence of every path that exists, in the order of the paths.\<close>

fun existing_loop :: "(string \<Rightarrow> bool) \<Rightarrow> string list \<Rightarrow> string list \<Rightarrow> string list" where
  "existing_loop exists seen [] = []"
| "existing_loop exists seen (raw # paths) =
     (let path = trim_space raw
      in if path = [] \<or> path \<in> set seen \<or> \<not> exists path then existing_loop exists seen paths
         else path # existing_loop exists (path # seen) paths)"

definition existingArtifactPaths :: "(string \<Rightarrow> bool) \<Rightarrow> string list \<Rightarrow> string list" where
  "existingArtifactPaths exists paths = rev (existing_loop exists [] (rev paths))"

fun merge_loop :: "string list \<Rightarrow> string list \<Rightarrow> string list" where
  "merge_loop seen [] = []"
| "merge_loop seen (raw # paths) =
     (let path = trim_space raw
      in if path = [] \<or> path \<in> set seen then merge_loop seen paths
         else path # merge_loop (path # seen) paths)"

definition mergeArtifactPaths :: "string list \<Rightarrow> string list \<Rightarrow> string list" where
  "mergeArtifactPaths current inherited = merge_loop [] (current @ inherited)"

definition loadTaskLineage :: "rt_env \<Rightarrow> TaskView \<Rightarrow> LoadedView rt" where
  "loadTaskLineage env view =
     bind (query env (\<lambda>st. GetFollowUpParentTaskID st (TaskID (ViewTask view)))) (\<lambda>parentTaskID.
     if parentTaskID = [] then ret \<lparr>LvView = view, LvParentTaskID = [], LvParentDescription = []\<rparr>
     else
       bind (query env (\<lambda>st. GetTask st parentTaskID)) (\<lambda>parentTask.
       ret \<lparr>LvView = view, LvParentTaskID = parentTaskID,
            LvParentDescription = TaskDescription parentTask\<rparr>))"

definition LoadTaskView :: "rt_env \<Rightarrow> string \<Rightarrow> (LoadedView \<times> Config) rt" where
  "LoadTaskView env taskID =
     bind (query env (\<lambda>st. GetTask st taskID)) (\<lambda>task.
     bind (load_config env task) (\<lambda>cfg.
     bind (list_runs env taskID) (\<lambda>runs.
     bind (from_sum DeriveFailure (DeriveBlockedSteps (rtGo env) cfg runs)) (\<lambda>blockedSteps.
     bind (loadTaskLineage env (DeriveTaskView task cfg runs blockedSteps)) (\<lambda>view.
     ret (view, cfg))))))"

definition refreshTaskView :: "rt_env \<Rightarrow> string \<Rightarrow> LoadedView rt" where
  "refreshTaskView env taskID = bind (LoadTaskView env taskID) (\<lambda>(view, cfg). ret view)"

definition viewNodeRuns :: "LoadedView \<Rightarrow> NodeRun list" where
  "viewNodeRuns view = map ViewRun (NodeRuns (LvView view))"

definition loadInheritedInputArtifacts :: "rt_env \<Rightarrow> Task \<Rightarrow> string list rt" where
  "loadInheritedInputArtifacts env task =
     bind (query env (\<lambda>st. GetFollowUpParentTaskID st (TaskID task))) (\<lambda>parentTaskID.
     if parentTaskID = [] then ret []
     else
       bind (query env (\<lambda>st. GetTask st parentTaskID)) (\<lambda>parentTask.
       bind (list_runs env parentTaskID) (\<lambda>parentRuns.
       bind (reading (rtFileExists env)) (\<lambda>exists.
       ret (existingArtifactPaths exists (resolveArtifactPaths env parentTask parentRuns))))))"

definition buildInputRequest ::
  "rt_env \<Rightarrow> Task \<Rightarrow> Config \<Rightarrow> NodeRun list \<Rightarrow> NodeRun \<Rightarrow> InputRequest option rt" where
  "buildInputRequest env task cfg runs run =
     bind (loadInheritedInputArtifacts env task) (\<lambda>inherited.
     let artifacts = (if 0 < length inherited then mergeArtifactPaths (completedArtifactPaths runs) inherited
                      else completedArtifactPaths runs);
         def = node_definition cfg (NodeName run);
         request = \<lparr>ReqKind = InputKindHumanNode, ReqTaskID = RunTaskID run, ReqNodeRunID = RunID run,
                    ReqNodeName = NodeName run, ReqSchema = None, ReqQuestions = [],
                    ReqArtifactPaths = artifacts\<rparr>
     in if DefType def = NodeTypeHuman then ret (Some (request\<lparr>ReqSchema := Some (ResultSchema def)\<rparr>))
        else
          (case rev (Clarifications run) of
             [] \<Rightarrow> ret None
           | latest # _ \<Rightarrow>
               ret (Some (request\<lparr>ReqKind := InputKindClarification, ReqQuestions := Request latest\<rparr>))))"

definition BuildInputRequest :: "rt_env \<Rightarrow> string \<Rightarrow> string \<Rightarrow> InputRequest option rt" where
  "BuildInputRequest env taskID nodeRunID =
     bind (query env (\<lambda>st. GetTask st taskID)) (\<lambda>task.
     bind (load_config env task) (\<lambda>cfg.
     bind (query env (\<lambda>st. GetNodeRun st nodeRunID)) (\<lambda>run.
     andThen (guard (RunTaskID run = taskID) RunOfAnotherTask)
       (andThen (guard (Status run = NodeRunAwaitingUser) RunNotAwaitingUser)
          (bind (list_runs env taskID) (\<lambda>runs. buildInputRequest env task cfg runs run))))))"

fun load_views :: "rt_env \<Rightarrow> Task list \<Rightarrow> LoadedView list rt" where
  "load_views env [] = ret []"
| "load_views env (task # rest) =
     bind (LoadTaskView env (TaskID task)) (\<lambda>(view, cfg).
     bind (load_views env rest) (\<lambda>views. ret (view # views)))"

definition ListTaskViews :: "rt_env \<Rightarrow> string \<Rightarrow> LoadedView list rt" where
  "ListTaskViews env workDir =
     bind (query env (\<lambda>st. Inr (ListTasksByWorkDir st (rtNormalize env workDir)))) (load_views env)"

section \<open>Starting and completing runs (node_runner.go)\<close>

definition initialStatus :: "NodeDefinition \<Rightarrow> NodeRunStatus" where
  "initialStatus def =
     (case DefType def of
        NodeTypeHuman \<Rightarrow> NodeRunAwaitingUser
      | NodeTypeTerminal \<Rightarrow> NodeRunDone
      | _ \<Rightarrow> NodeRunRunning)"

definition register_all :: "string \<Rightarrow> NodeRun list \<Rightarrow> Engine \<Rightarrow> Engine" where
  "register_all taskID runs e =
     fold (\<lambda>run e. case Trigger run of
              None \<Rightarrow> RegisterEntryRun e taskID run
            | Some t \<Rightarrow> RegisterTriggeredRun e taskID run (TrigRunID t)) runs e"

definition rebuildEngineState :: "string \<Rightarrow> NodeRun list \<Rightarrow> Engine \<Rightarrow> Engine" where
  "rebuildEngineState taskID runs e = register_all taskID (sort_slice run_before runs) e"

definition update_engine :: "(Engine \<Rightarrow> Engine) \<Rightarrow> unit rt" where
  "update_engine f = update_state (\<lambda>s. s\<lparr>svEngine := f (svEngine s)\<rparr>)"

definition resolve_completion ::
  "rt_env \<Rightarrow> Config \<Rightarrow> string \<Rightarrow> NodeRun list \<Rightarrow> NodeRun \<Rightarrow> (engine_error + Resolution) rt" where
  "resolve_completion env cfg taskID runs run s =
     (case ResolveCompletion (rtGo env) (svEngine s) cfg taskID runs run of
        (r, e) \<Rightarrow> (Inr r, s\<lparr>svEngine := e\<rparr>))"

text \<open>runAgentNodeAsync: the goroutine that executes the node.\<close>

definition runAgentNodeAsync :: "Task \<Rightarrow> Config \<Rightarrow> NodeRun \<Rightarrow> unit rt" where
  "runAgentNodeAsync task cfg run =
     update_state (\<lambda>s. s\<lparr>svJobs := svJobs s @
       [\<lparr>JobTask = task, JobConfig = cfg, JobRun = run, JobProgressErr = None\<rparr>]\<rparr>)"

fun to_lower_char :: "char \<Rightarrow> char" where
  "to_lower_char c = (let n = of_char c :: nat in if 65 \<le> n \<and> n \<le> 90 then char_of (n + 32) else c)"

definition failureReasonForError :: "string \<Rightarrow> run_error \<Rightarrow> string" where
  "failureReasonForError shutdownReason err =
     (if shutdownReason \<noteq> [] \<and>
         (ErrCanceled err \<or> sublist ''context canceled'' (map to_lower_char (ErrText err)))
      then shutdownReason else ErrText err)"

definition failRun :: "rt_env \<Rightarrow> Task \<Rightarrow> Config \<Rightarrow> NodeRun \<Rightarrow> run_error \<Rightarrow> unit rt" where
  "failRun env task cfg run err =
     bind (reading (rtClock env)) (\<lambda>now.
     bind get_state (\<lambda>s.
     let run = run\<lparr>Status := NodeRunFailed, FailureReason := failureReasonForError (svShutdownReason s) err,
                   CompletedAt := Some now\<rparr>
     in
     andThen (save_run env run)
       (bind (list_runs env (TaskID task)) (\<lambda>runs.
       andThen (persistRunManifest env run)
         (bind (refreshTaskView env (TaskID task)) (\<lambda>view.
         andThen (publish ((run_event (if ViewStatus (LvView view) = TaskStatusFailed then EventTaskFailed
                                       else EventNodeFailed) (TaskID task) run)
                     \<lparr>EvView := Some view, EvError := Some (ErrText err)\<rparr>))
           (fail (TaskFailureReported err))))))))"

text \<open>startNodeInternal; completed stands for afterNodeCompletedInternal on the run.\<close>

definition startNodeInternal ::
  "rt_env \<Rightarrow> (NodeRun \<Rightarrow> unit rt) \<Rightarrow> bool \<Rightarrow> Task \<Rightarrow> Config \<Rightarrow> NodeRun \<Rightarrow> unit rt" where
  "startNodeInternal env completed emitEvents task cfg run =
     bind (refreshTaskView env (TaskID task)) (\<lambda>view.
     andThen (persistRunManifest env run)
     (case DefType (node_definition cfg (NodeName run)) of
        NodeTypeTerminal \<Rightarrow>
          bind (reading (rtClock env)) (\<lambda>now.
          let run = run\<lparr>Status := NodeRunDone, Result := Some [], CompletedAt := Some now\<rparr>
          in andThen (save_run env run) (andThen (persistRunManifest env run) (completed run)))
      | NodeTypeHuman \<Rightarrow>
          if \<not> emitEvents then ret ()
          else
            bind (buildInputRequest env task cfg (viewNodeRuns view) run) (\<lambda>inputRequest.
            publish ((run_event EventInputRequested (TaskID task) run)
              \<lparr>EvView := Some view, EvInput := inputRequest\<rparr>))
      | _ \<Rightarrow>
          andThen (if emitEvents
                   then publish ((run_event EventNodeStarted (TaskID task) run)\<lparr>EvView := Some view\<rparr>)
                   else ret ())
            (runAgentNodeAsync task cfg run)))"

definition transition_before :: "Transition \<Rightarrow> Transition \<Rightarrow> bool" where
  "transition_before a b \<longleftrightarrow>
     (if TransTo a = TransTo b then TransReason a < TransReason b else TransTo a < TransTo b)"

text \<open>The loop that saves a run for every transition and registers it.\<close>

fun save_next_runs :: "rt_env \<Rightarrow> Task \<Rightarrow> Config \<Rightarrow> Transition list \<Rightarrow> NodeRun list rt" where
  "save_next_runs env task cfg [] = ret []"
| "save_next_runs env task cfg (next # rest) =
     bind (reading (rtClock env)) (\<lambda>now.
     bind (reading (rtUUID env)) (\<lambda>runID.
     let nextRun = \<lparr>RunID = runID, RunTaskID = TaskID task, NodeName = TransTo next,
                    Status = initialStatus (node_definition cfg (TransTo next)), SessionID = [],
                    FailureReason = [], Result = None, Clarifications = [],
                    Trigger = Some (TransTrigger next), StartedAt = now, CompletedAt = None\<rparr>
     in
     andThen (save_run env nextRun)
       (andThen (update_engine (\<lambda>e. RegisterTriggeredRun e (TaskID task) nextRun (TrigRunID (TransTrigger next))))
         (bind (save_next_runs env task cfg rest) (\<lambda>runs. ret (nextRun # runs))))))"

fun for_each :: "('a \<Rightarrow> unit rt) \<Rightarrow> 'a list \<Rightarrow> unit rt" where
  "for_each f [] = ret ()"
| "for_each f (x # xs) = andThen (f x) (for_each f xs)"

definition announce_blocked :: "rt_env \<Rightarrow> bool \<Rightarrow> Task \<Rightarrow> unit rt" where
  "announce_blocked env emitEvents task =
     bind (refreshTaskView env (TaskID task)) (\<lambda>view.
     case CurrentIssue (LvView view) of
       None \<Rightarrow> ret ()
     | Some issue \<Rightarrow>
         if emitEvents \<and> ViewStatus (LvView view) = TaskStatusFailed \<and> IssueKind issue = TaskIssueBlockedStep
         then publish ((event EventTaskFailed (TaskID task))
                \<lparr>EvNodeName := IssueNode issue, EvView := Some view, EvError := Some (IssueReason issue)\<rparr>)
         else ret ())"

definition announce_done :: "rt_env \<Rightarrow> bool \<Rightarrow> Task \<Rightarrow> NodeRun \<Rightarrow> unit rt" where
  "announce_done env emitEvents task run =
     bind (refreshTaskView env (TaskID task)) (\<lambda>view.
     if emitEvents \<and> ViewStatus (LvView view) = TaskStatusDone
     then publish ((run_event EventTaskCompleted (TaskID task) run)\<lparr>EvView := Some view\<rparr>)
     else ret ())"

text \<open>
  afterNodeCompletedInternal calls startNodeInternal, which calls it again for a terminal node.  The
  fuel bounds that recursion; the theorem on termination says how much is enough.
\<close>

primrec afterNodeCompletedInternal ::
  "nat \<Rightarrow> rt_env \<Rightarrow> bool \<Rightarrow> Task \<Rightarrow> Config \<Rightarrow> NodeRun \<Rightarrow> unit rt" where
  "afterNodeCompletedInternal 0 = (\<lambda>env emitEvents task cfg run. fail OutOfFuel)"
| "afterNodeCompletedInternal (Suc fuel) = (\<lambda>env emitEvents task cfg run.
     bind (refreshTaskView env (TaskID task)) (\<lambda>view.
     andThen (if emitEvents
              then publish ((run_event EventNodeCompleted (TaskID task) run)\<lparr>EvView := Some view\<rparr>)
              else ret ())
     (bind (list_runs env (TaskID task)) (\<lambda>runs.
     andThen (update_engine (rebuildEngineState (TaskID task) runs))
     (bind (resolve_completion env cfg (TaskID task) runs run) (\<lambda>resolved.
     case resolved of
       Inl err \<Rightarrow> failRun env task cfg run \<lparr>ErrText = engine_error_text err, ErrCanceled = False\<rparr>
     | Inr resolution \<Rightarrow>
         bind (save_next_runs env task cfg (sort_slice transition_before (Transitions resolution))) (\<lambda>nextRuns.
         andThen (if Blocked resolution \<noteq> [] then announce_blocked env emitEvents task else ret ())
         (andThen (for_each (startNodeInternal env (afterNodeCompletedInternal fuel env emitEvents task cfg)
                               emitEvents task cfg) nextRuns)
         (if TaskDone resolution then announce_done env emitEvents task run else ret ())))))))))"

definition startNode :: "nat \<Rightarrow> rt_env \<Rightarrow> Task \<Rightarrow> Config \<Rightarrow> NodeRun \<Rightarrow> unit rt" where
  "startNode fuel env task cfg run =
     startNodeInternal env (afterNodeCompletedInternal fuel env True task cfg) True task cfg run"

end
