(* ===== verification/Commands.thy ===== *)
theory Commands
  imports Runtime
begin

text \<open>
  The commands of the task runtime (runtime.go, retry.go), the execution of an agent node and its
  progress (node_runner.go), the recovery at start-up (recovery.go), and the steps of the service:
  one command, one progress report, the end of one agent run, or a restart of the process.
\<close>

section \<open>Starting a task (runtime.go)\<close>

definition attempt :: "'a rt \<Rightarrow> (rt_error + 'a) rt" where
  "attempt m s = (case m s of (r, s') \<Rightarrow> (Inr r, s'))"

text \<open>An error of m runs the deferred clean-up.\<close>

definition on_error :: "unit rt \<Rightarrow> 'a rt \<Rightarrow> 'a rt" where
  "on_error cleanup m =
     bind (attempt m) (\<lambda>r. case r of Inl e \<Rightarrow> andThen cleanup (fail e) | Inr x \<Rightarrow> ret x)"

definition maxImageAttachmentCount :: nat where
  "maxImageAttachmentCount = 6"

definition persistImageAttachments :: "rt_env \<Rightarrow> ImageAttachmentInput list \<Rightarrow> unit rt" where
  "persistImageAttachments env inputs =
     (if inputs = [] then ret ()
      else if maxImageAttachmentCount < length inputs then fail (AttachmentsRejected ''too many image attachments'')
      else bind (reading (\<lambda>n. rtAttachments env n inputs)) (\<lambda>err.
             case err of None \<Rightarrow> ret () | Some msg \<Rightarrow> fail (AttachmentsRejected msg)))"

definition reported_as :: "rt_env \<Rightarrow> rt_error \<Rightarrow> run_error" where
  "reported_as env e =
     \<lparr>ErrText = (case e of
                   Fault msg \<Rightarrow> msg
                 | TaskFailureReported err \<Rightarrow> ErrText err
                 | _ \<Rightarrow> rtErrText env e), ErrCanceled = False\<rparr>"

definition entry_run :: "string \<Rightarrow> string \<Rightarrow> Config \<Rightarrow> int \<Rightarrow> NodeRun" where
  "entry_run runID taskID cfg now =
     (let entry = Entry (Topo cfg) in
      \<lparr>RunID = runID, RunTaskID = taskID, NodeName = entry,
       Status = initialStatus (node_definition cfg entry), SessionID = [], FailureReason = [],
       Result = None, Clarifications = [], Trigger = None, StartedAt = now, CompletedAt = None\<rparr>)"

definition insert_rows :: "rt_env \<Rightarrow> string \<Rightarrow> Task \<Rightarrow> NodeRun \<Rightarrow> Store \<Rightarrow> store_error + Store" where
  "insert_rows env parentTaskID task nodeRun =
     (if is_blank parentTaskID then CreateTaskWithEntryRun (rtStore env) task nodeRun
      else CreateFollowUpTaskAtomic (rtStore env) parentTaskID task nodeRun)"

text \<open>The part of startTaskWithExecution from the materialised config to the commit.\<close>

definition commit_task ::
  "rt_env \<Rightarrow> string \<Rightarrow> string \<Rightarrow> string \<Rightarrow> string \<Rightarrow> string \<Rightarrow> ImageAttachmentInput list \<Rightarrow>
   (string \<Rightarrow> string \<Rightarrow> string rt) \<Rightarrow> string \<Rightarrow> int \<Rightarrow> Config \<Rightarrow> (Task \<times> Config \<times> NodeRun) rt" where
  "commit_task env parentTaskID description configAlias configPath workDir attachments prepareExecution
     taskID now cfg =
     bind (prepareExecution taskID workDir) (\<lambda>executionDir.
     let task = \<lparr>TaskID = taskID, TaskDescription = description, ConfigAlias = configAlias,
                 ConfigPath = configPath, WorkDir = workDir, ExecutionDir = executionDir,
                 TaskCreatedAt = now, TaskUpdatedAt = now\<rparr>
     in
     bind (reading (rtUUID env)) (\<lambda>runID.
     let nodeRun = entry_run runID taskID cfg now in
     andThen (persistImageAttachments env attachments)
     (andThen (execute env (insert_rows env parentTaskID task nodeRun)) (ret (task, cfg, nodeRun)))))"

definition create_task ::
  "rt_env \<Rightarrow> string \<Rightarrow> string \<Rightarrow> string \<Rightarrow> string \<Rightarrow> string \<Rightarrow> ImageAttachmentInput list \<Rightarrow>
   (string \<Rightarrow> string \<Rightarrow> string rt) \<Rightarrow> string \<Rightarrow> int \<Rightarrow> (Task \<times> Config \<times> NodeRun) rt" where
  "create_task env parentTaskID description alias path workDir attachments prepareExecution taskID now =
     (let configAlias = trim_space alias; configPath = trim_space path in
      andThen (guard (configAlias \<noteq> []) AliasRequired)
      (andThen (guard (configPath \<noteq> []) PathRequired)
      (bind (reading (\<lambda>n. rtMaterialize env n workDir taskID configPath)) (\<lambda>materialized.
       case materialized of
         Inl msg \<Rightarrow> fail (ConfigRejected msg)
       | Inr cfg \<Rightarrow>
           andThen (update_state (\<lambda>s. s\<lparr>svConfigs := (svConfigs s)(taskID \<mapsto> cfg)\<rparr>))
             (commit_task env parentTaskID description configAlias configPath workDir attachments
                prepareExecution taskID now cfg)))))"

definition startTaskWithExecution ::
  "nat \<Rightarrow> rt_env \<Rightarrow> string \<Rightarrow> string \<Rightarrow> string \<Rightarrow> string \<Rightarrow> string \<Rightarrow> ImageAttachmentInput list \<Rightarrow>
   (string \<Rightarrow> string \<Rightarrow> string rt) \<Rightarrow> unit rt" where
  "startTaskWithExecution fuel env parentTaskID description alias path dir attachments prepareExecution =
     bind (reading (rtUUID env)) (\<lambda>taskID.
     bind (reading (rtClock env)) (\<lambda>now.
     bind (on_error (update_state (\<lambda>s. s\<lparr>svConfigs := (svConfigs s)(taskID := None)\<rparr>))
            (create_task env parentTaskID description alias path (rtNormalize env dir) attachments
               prepareExecution taskID now)) (\<lambda>(task, cfg, nodeRun).
     bind (attempt (LoadTaskView env taskID)) (\<lambda>loaded.
     let view = (case loaded of
                   Inr (view, _) \<Rightarrow> view
                 | Inl _ \<Rightarrow> \<lparr>LvView = DeriveTaskView task cfg [nodeRun] [], LvParentTaskID = [],
                            LvParentDescription = []\<rparr>)
     in
     andThen (publish ((event EventTaskCreated taskID)\<lparr>EvView := Some view\<rparr>))
     (andThen (update_engine (\<lambda>e. RegisterEntryRun e taskID nodeRun))
     (bind (attempt (startNode fuel env task cfg nodeRun)) (\<lambda>started.
      case started of
        Inr () \<Rightarrow> ret ()
      | Inl OutOfFuel \<Rightarrow> fail OutOfFuel
      | Inl e \<Rightarrow> failRun env task cfg nodeRun (reported_as env e)))))))) "

definition prepareTaskExecutionDir :: "rt_env \<Rightarrow> bool \<Rightarrow> string \<Rightarrow> string \<Rightarrow> string rt" where
  "prepareTaskExecutionDir env useWorktree taskID workDir =
     (if \<not> useWorktree then ret workDir
      else bind (reading (\<lambda>n. rtExecutionDir env n workDir taskID)) (from_sum ExecutionDirFailed))"

definition startTask ::
  "nat \<Rightarrow> rt_env \<Rightarrow> string \<Rightarrow> string \<Rightarrow> string \<Rightarrow> string \<Rightarrow> bool \<Rightarrow> ImageAttachmentInput list \<Rightarrow> unit rt" where
  "startTask fuel env description alias path workDir useWorktree attachments =
     startTaskWithExecution fuel env [] description alias path workDir attachments
       (prepareTaskExecutionDir env useWorktree)"

section \<open>Follow-up tasks\<close>

datatype FollowUpMode =
    FollowUpModeUnset
  | FollowUpModeContinueHere
  | FollowUpModeForkHead
  | FollowUpModeForkWithChanges
  | FollowUpModeOther string

definition taskUsesWorktree :: "rt_env \<Rightarrow> Task \<Rightarrow> bool" where
  "taskUsesWorktree env task \<longleftrightarrow>
     (let executionDir = trim_space (ExecutionDir task); workDir = trim_space (WorkDir task)
      in executionDir \<noteq> [] \<and> workDir \<noteq> [] \<and> rtNormalize env executionDir \<noteq> rtNormalize env workDir)"

fun resolveFollowUpMode :: "FollowUpMode \<Rightarrow> rt_error + FollowUpMode" where
  "resolveFollowUpMode FollowUpModeUnset = Inr FollowUpModeContinueHere"
| "resolveFollowUpMode FollowUpModeContinueHere = Inr FollowUpModeContinueHere"
| "resolveFollowUpMode FollowUpModeForkHead = Inr FollowUpModeForkHead"
| "resolveFollowUpMode FollowUpModeForkWithChanges = Inr FollowUpModeForkWithChanges"
| "resolveFollowUpMode (FollowUpModeOther mode) = Inl UnsupportedFollowUpMode"

fun mode_is_blank :: "FollowUpMode \<Rightarrow> bool" where
  "mode_is_blank FollowUpModeUnset = True"
| "mode_is_blank (FollowUpModeOther mode) = is_blank mode"
| "mode_is_blank _ = False"

definition resolveTaskCheckout :: "rt_env \<Rightarrow> Task \<Rightarrow> (string \<times> string) option rt" where
  "resolveTaskCheckout env task = reading (\<lambda>n. rtCheckout env n task)"

fun check_live_runs :: "rt_env \<Rightarrow> string \<Rightarrow> string \<Rightarrow> NodeRun list \<Rightarrow> string list \<Rightarrow> string list rt" where
  "check_live_runs env parentTaskID root [] seen = ret seen"
| "check_live_runs env parentTaskID root (run # runs) seen =
     (if RunTaskID run = parentTaskID \<or> RunTaskID run \<in> set seen
      then check_live_runs env parentTaskID root runs seen
      else
        bind (query env (\<lambda>st. GetTask st (RunTaskID run))) (\<lambda>task.
        bind (resolveTaskCheckout env task) (\<lambda>checkout.
        andThen (case checkout of
                   None \<Rightarrow> ret ()
                 | Some (_, checkoutRoot) \<Rightarrow> guard (checkoutRoot \<noteq> root) (CheckoutBusy (TaskID task)))
          (check_live_runs env parentTaskID root runs (RunTaskID run # seen)))))"

definition ensureCheckoutAvailableForContinueHere :: "rt_env \<Rightarrow> string \<Rightarrow> string \<Rightarrow> unit rt" where
  "ensureCheckoutAvailableForContinueHere env parentTaskID root =
     bind (query env (\<lambda>st. Inr (ListNodeRunsByStatus st NodeRunRunning))) (\<lambda>running.
     bind (check_live_runs env parentTaskID root running []) (\<lambda>seen.
     bind (query env (\<lambda>st. Inr (ListNodeRunsByStatus st NodeRunAwaitingUser))) (\<lambda>awaiting.
     bind (check_live_runs env parentTaskID root awaiting seen) (\<lambda>_. ret ()))))"

text \<open>The alias and path of the follow-up, the parent's when both are blank.\<close>

definition follow_up_config :: "Task \<Rightarrow> string \<Rightarrow> string \<Rightarrow> rt_error + string \<times> string" where
  "follow_up_config parentTask alias path =
     (let configAlias = trim_space alias; configPath = trim_space path
      in if configAlias = [] \<and> configPath = [] then Inr (ConfigAlias parentTask, ConfigPath parentTask)
         else if configAlias = [] \<or> configPath = [] then Inl AliasAndPathTogether
         else Inr (configAlias, configPath))"

definition startFollowUpTask ::
  "nat \<Rightarrow> rt_env \<Rightarrow> string \<Rightarrow> string \<Rightarrow> string \<Rightarrow> string \<Rightarrow> FollowUpMode \<Rightarrow> ImageAttachmentInput list \<Rightarrow>
   unit rt" where
  "startFollowUpTask fuel env parent description alias path requestedMode attachments =
     (let parentTaskID = trim_space parent in
      andThen (guard (parentTaskID \<noteq> []) ParentIDRequired)
      (bind (LoadTaskView env parentTaskID) (\<lambda>(parentView, _).
       andThen (guard (ViewStatus (LvView parentView) = TaskStatusDone) ParentNotCompleted)
       (let parentTask = ViewTask (LvView parentView) in
        andThen (guard (\<not> is_blank (ConfigAlias parentTask) \<and> \<not> is_blank (ConfigPath parentTask))
                   ParentWithoutLaunchMetadata)
        (bind (from_sum id (follow_up_config parentTask alias path)) (\<lambda>(configAlias, configPath).
         bind (resolveTaskCheckout env parentTask) (\<lambda>checkout.
         case checkout of
           None \<Rightarrow>
             if taskUsesWorktree env parentTask then fail ParentWorktreeMissing
             else
               andThen (guard (mode_is_blank requestedMode) FollowUpModeNeedsRepo)
                 (startTaskWithExecution fuel env parentTaskID description configAlias configPath
                    (WorkDir parentTask) attachments (prepareTaskExecutionDir env False))
         | Some (parentExecutionDir, parentCheckoutRoot) \<Rightarrow>
             bind (from_sum id (resolveFollowUpMode requestedMode)) (\<lambda>mode.
             if mode = FollowUpModeContinueHere then
               andThen (ensureCheckoutAvailableForContinueHere env (TaskID parentTask) parentCheckoutRoot)
                 (startTaskWithExecution fuel env parentTaskID description configAlias configPath
                    (WorkDir parentTask) attachments (\<lambda>_ _. ret parentExecutionDir))
             else
               andThen (io env) (andThen (io env)
                 (startTaskWithExecution fuel env parentTaskID description configAlias configPath
                    (WorkDir parentTask) attachments
                    (\<lambda>taskID _. bind (reading (\<lambda>n. rtForkDir env n parentTask taskID
                                                 (mode = FollowUpModeForkWithChanges)))
                                    (from_sum ExecutionDirFailed))))))))))))"

section \<open>Input of the user\<close>

text \<open>materializeHumanNodeArtifact: the result is the payload once output.json holds the envelope.\<close>

definition materializeHumanNodeArtifact ::
  "rt_env \<Rightarrow> Task \<Rightarrow> NodeRun \<Rightarrow> (string, gval) gomap \<Rightarrow> int \<Rightarrow> (string, gval) gomap rt" where
  "materializeHumanNodeArtifact env task run payload submittedAt =
     andThen (persistRunManifest env run)
     (andThen (write_input env run)
     (case json_entries (json_string (rtStore env)) (human_envelope (TaskID task) run submittedAt payload) of
        None \<Rightarrow> fail (StoreFailure ErrEncodeJSON)
      | Some output \<Rightarrow>
          andThen (io env)
          (andThen (update_state (\<lambda>s. s\<lparr>svOutputs := (svOutputs s)(RunID run \<mapsto> Some output)\<rparr>))
             (ret payload))))"

definition answer_latest ::
  "ClarificationExchange list \<Rightarrow> ClarificationResponse \<Rightarrow> int \<Rightarrow> ClarificationExchange list" where
  "answer_latest exchanges response answeredAt =
     (case rev exchanges of
        [] \<Rightarrow> []
      | latest # earlier \<Rightarrow>
          rev earlier @ [latest\<lparr>Response := Some response, AnsweredAt := Some answeredAt\<rparr>])"

definition submitInput ::
  "nat \<Rightarrow> rt_env \<Rightarrow> string \<Rightarrow> string \<Rightarrow> (string, gval) gomap \<Rightarrow> ImageAttachmentInput list \<Rightarrow> unit rt" where
  "submitInput fuel env taskID nodeRunID payload attachments =
     bind (query env (\<lambda>st. GetTask st taskID)) (\<lambda>task.
     bind (load_config env task) (\<lambda>cfg.
     bind (query env (\<lambda>st. GetNodeRun st nodeRunID)) (\<lambda>run.
     andThen (guard (RunTaskID run = taskID) RunOfAnotherTask)
     (andThen (guard (Status run = NodeRunAwaitingUser) RunNotAwaitingUser)
     (let def = node_definition cfg (NodeName run) in
      bind (reading (rtClock env)) (\<lambda>now.
      if DefType def = NodeTypeHuman then
        (case ValidateValue (rtGo env) (Some (ResultSchema def)) (VMap payload) of
           Some err \<Rightarrow> fail (PayloadInvalid err)
         | None \<Rightarrow>
             bind (list_runs env taskID) (\<lambda>runs.
             andThen (persistImageAttachments env attachments)
             (bind (materializeHumanNodeArtifact env task run payload now) (\<lambda>result.
              let run = run\<lparr>Result := Some result, Status := NodeRunDone, FailureReason := [],
                            CompletedAt := Some now\<rparr>
              in andThen (save_run env run)
                   (afterNodeCompletedInternal fuel env True task cfg run)))))
      else
        (case rev (Clarifications run) of
           [] \<Rightarrow> fail NoClarificationRequested
         | latest # _ \<Rightarrow>
             bind (list_runs env taskID) (\<lambda>runs.
             bind (from_sum AnswersRejected (parseClarificationResponse (Request latest) payload)) (\<lambda>response.
             let run = run\<lparr>Clarifications := answer_latest (Clarifications run) response now\<rparr>
             in
             andThen (write_input env run)
             (let run = run\<lparr>Status := NodeRunRunning, FailureReason := []\<rparr> in
              andThen (save_run env run)
              (bind (refreshTaskView env (TaskID task)) (\<lambda>view.
               andThen (publish ((run_event EventNodeStarted (TaskID task) run)\<lparr>EvView := Some view\<rparr>))
                 (runAgentNodeAsync task cfg run)))))))))))))"

section \<open>Retry and continue (retry.go)\<close>

text \<open>The new run, registered under the run that triggers it, and started.\<close>

definition launch_run :: "nat \<Rightarrow> rt_env \<Rightarrow> Task \<Rightarrow> Config \<Rightarrow> NodeRun list \<Rightarrow> string \<Rightarrow> NodeRun \<Rightarrow> unit rt" where
  "launch_run fuel env task cfg runs sourceRunID run =
     andThen (save_run env run)
     (andThen (update_engine (\<lambda>e. if HasRun e sourceRunID then e
                                  else rebuildEngineState (TaskID task) runs e))
     (andThen (update_engine (\<lambda>e. RegisterTriggeredRun e (TaskID task) run sourceRunID))
       (startNode fuel env task cfg run)))"

definition manual_run :: "Task \<Rightarrow> Config \<Rightarrow> string \<Rightarrow> string \<Rightarrow> string \<Rightarrow> string \<Rightarrow> int \<Rightarrow> NodeRun" where
  "manual_run task cfg runID nodeName sourceRunID reason now =
     \<lparr>RunID = runID, RunTaskID = TaskID task, NodeName = nodeName,
      Status = initialStatus (node_definition cfg nodeName), SessionID = [], FailureReason = [],
      Result = None, Clarifications = [],
      Trigger = Some \<lparr>TrigRunID = sourceRunID, TrigReason = reason\<rparr>, StartedAt = now,
      CompletedAt = None\<rparr>"

definition recovery_target ::
  "rt_env \<Rightarrow> string \<Rightarrow> (Task \<times> Config \<times> NodeRun list \<times> RecoveryTarget option) rt" where
  "recovery_target env taskID =
     bind (query env (\<lambda>st. GetTask st taskID)) (\<lambda>task.
     bind (load_config env task) (\<lambda>cfg.
     bind (list_runs env taskID) (\<lambda>runs.
     bind (from_sum DeriveFailure (DeriveBlockedSteps (rtGo env) cfg runs)) (\<lambda>blockedSteps.
     ret (task, cfg, runs, RecoveryTargetForTask cfg runs blockedSteps)))))"

definition retryFailedRun ::
  "nat \<Rightarrow> rt_env \<Rightarrow> Task \<Rightarrow> Config \<Rightarrow> NodeRun list \<Rightarrow> RecoveryTarget \<Rightarrow> string \<Rightarrow> bool \<Rightarrow> unit rt" where
  "retryFailedRun fuel env task cfg runs target failedRunID force =
     andThen (guard (failedRunID \<noteq> []) MissingFailedRunID)
     (case TargetRun target of
        None \<Rightarrow> fail NotLatestFailedRun
      | Some failedRun \<Rightarrow>
          andThen (guard (TargetKind target = RecoveryTargetFailedRun \<and> RunID failedRun = failedRunID)
                     NotLatestFailedRun)
          (andThen (guard (DefType (node_definition cfg (NodeName failedRun)) = NodeTypeAgent) NodeNotRetryable)
          (andThen (guard (RetryAllowed target \<or> force) RetryUnavailable)
          (bind (reading (rtClock env)) (\<lambda>now.
           bind (reading (rtUUID env)) (\<lambda>runID.
           launch_run fuel env task cfg runs (RunID failedRun)
             (manual_run task cfg runID (NodeName failedRun) (RunID failedRun)
                (if force then TriggerReasonManualRetryForce else TriggerReasonManualRetry) now)))))))"

definition retryNode :: "nat \<Rightarrow> rt_env \<Rightarrow> string \<Rightarrow> string \<Rightarrow> bool \<Rightarrow> unit rt" where
  "retryNode fuel env taskID failedRunID force =
     bind (recovery_target env taskID) (\<lambda>(task, cfg, runs, target).
     case target of
       None \<Rightarrow> fail NothingToRetry
     | Some target \<Rightarrow> retryFailedRun fuel env task cfg runs target failedRunID force)"

definition continueBlockedStep :: "nat \<Rightarrow> rt_env \<Rightarrow> string \<Rightarrow> unit rt" where
  "continueBlockedStep fuel env taskID =
     bind (recovery_target env taskID) (\<lambda>(task, cfg, runs, target).
     case target of
       None \<Rightarrow> fail NothingToContinue
     | Some target \<Rightarrow>
         (case TargetStep target of
            None \<Rightarrow> fail NothingToContinue
          | Some step \<Rightarrow>
              andThen (guard (TargetKind target = RecoveryTargetBlockedStep) NothingToContinue)
              (case StepTrigger step of
                 None \<Rightarrow> fail StepWithoutTrigger
               | Some trigger \<Rightarrow>
                   bind (reading (rtClock env)) (\<lambda>now.
                   bind (reading (rtUUID env)) (\<lambda>runID.
                   launch_run fuel env task cfg runs (TrigRunID trigger)
                     (manual_run task cfg runID (StepNode step) (TrigRunID trigger)
                        TriggerReasonManualContinueForce now))))))"

section \<open>Shutdown\<close>

definition setShutdownReason :: "string \<Rightarrow> Service \<Rightarrow> Service" where
  "setShutdownReason reason s = (if svShutdownReason s = [] then s\<lparr>svShutdownReason := reason\<rparr> else s)"

definition fail_runs :: "rt_env \<Rightarrow> string \<Rightarrow> int \<Rightarrow> NodeRun list \<Rightarrow> unit rt" where
  "fail_runs env reason now runs =
     for_each (\<lambda>run. save_run env (run\<lparr>Status := NodeRunFailed, FailureReason := reason,
                                     CompletedAt := Some now\<rparr>)) runs"

definition failActiveRunningNodeRuns :: "rt_env \<Rightarrow> string \<Rightarrow> unit rt" where
  "failActiveRunningNodeRuns env reason =
     bind (query env (\<lambda>st. Inr (ListNodeRunsByStatus st NodeRunRunning))) (\<lambda>runs.
     bind (reading (rtClock env)) (\<lambda>now. fail_runs env reason now runs))"

definition PrepareShutdown :: "rt_env \<Rightarrow> unit rt" where
  "PrepareShutdown env =
     andThen (update_state (setShutdownReason FailureReasonInterruptedByUser))
       (failActiveRunningNodeRuns env FailureReasonInterruptedByUser)"

section \<open>Commands\<close>

datatype RunCommand =
    CommandStartTask string string string string bool "ImageAttachmentInput list"
  | CommandStartFollowUp string string string string FollowUpMode "ImageAttachmentInput list"
  | CommandSubmitInput string string "(string, gval) gomap" "ImageAttachmentInput list"
  | CommandRetryNode string string bool
  | CommandContinueBlocked string
  | CommandShutdown
  | CommandOther string

fun handleCommand :: "nat \<Rightarrow> rt_env \<Rightarrow> RunCommand \<Rightarrow> unit rt" where
  "handleCommand fuel env (CommandStartTask description alias path workDir useWorktree attachments) =
     startTask fuel env description alias path (if is_blank workDir then rtWorkDir env else workDir)
       useWorktree attachments"
| "handleCommand fuel env (CommandStartFollowUp parent description alias path mode attachments) =
     startFollowUpTask fuel env parent description alias path mode attachments"
| "handleCommand fuel env (CommandSubmitInput taskID nodeRunID payload attachments) =
     submitInput fuel env taskID nodeRunID payload attachments"
| "handleCommand fuel env (CommandRetryNode taskID nodeRunID force) =
     retryNode fuel env taskID nodeRunID force"
| "handleCommand fuel env (CommandContinueBlocked taskID) = continueBlockedStep fuel env taskID"
| "handleCommand fuel env CommandShutdown = PrepareShutdown env"
| "handleCommand fuel env (CommandOther ty) = fail UnsupportedCommand"

fun command_task :: "RunCommand \<Rightarrow> string" where
  "command_task (CommandSubmitInput taskID nodeRunID payload attachments) = taskID"
| "command_task (CommandRetryNode taskID nodeRunID force) = taskID"
| "command_task (CommandContinueBlocked taskID) = taskID"
| "command_task _ = []"

fun shouldPublishCommandError :: "rt_error \<Rightarrow> bool" where
  "shouldPublishCommandError (TaskFailureReported err) = False"
| "shouldPublishCommandError _ = True"

text \<open>One turn of the loop of Run.\<close>

definition run_command :: "nat \<Rightarrow> rt_env \<Rightarrow> RunCommand \<Rightarrow> unit rt" where
  "run_command fuel env cmd =
     bind (attempt (handleCommand fuel env cmd)) (\<lambda>r.
     case r of
       Inr () \<Rightarrow> ret ()
     | Inl e \<Rightarrow>
         if shouldPublishCommandError e
         then publish ((event EventCommandError (command_task cmd))\<lparr>EvError := Some (ErrText (reported_as env e))\<rparr>)
         else ret ())"

section \<open>Progress of an agent run (node_runner.go)\<close>

definition last_seq :: "EventRecord list \<Rightarrow> u64" where
  "last_seq records = (if records = [] then 0 else SeSeq (RecEvent (last records)))"

definition currentRunEventSeq :: "rt_env \<Rightarrow> string \<Rightarrow> u64 rt" where
  "currentRunEventSeq env runID =
     bind get_state (\<lambda>s.
     case svEventSeqs s runID of
       Some current \<Rightarrow> ret current
     | None \<Rightarrow>
         andThen (io env)
         (let lastSeq = (case svHistory s runID of None \<Rightarrow> 0 | Some records \<Rightarrow> last_seq records) in
          andThen (update_state (\<lambda>s. s\<lparr>svEventSeqs := (svEventSeqs s)(runID \<mapsto> lastSeq)\<rparr>))
            (ret lastSeq)))"

definition ExecutorPersisted :: string where
  "ExecutorPersisted = ''executor_persisted''"

fun annotate_events ::
  "rt_env \<Rightarrow> int \<Rightarrow> string \<Rightarrow> u64 \<Rightarrow> StreamEvent list \<Rightarrow> (StreamEvent list \<times> u64) rt" where
  "annotate_events env now sessionID baseSeq [] = ret ([], baseSeq)"
| "annotate_events env now sessionID baseSeq (e # rest) =
     bind (if SeEventID e = [] then bind (reading (rtUUID env)) (\<lambda>u. ret (''evt_'' @ u)) else ret (SeEventID e))
       (\<lambda>eventID.
        let next = e\<lparr>SeEventID := eventID, SeSeq := baseSeq + 1,
                     SeEmittedAt := (if SeEmittedAt e = 0 then now else SeEmittedAt e),
                     SeSessionID := (if SeSessionID e = [] then sessionID else SeSessionID e),
                     SeProvenance := (if SeProvenance e = [] then ExecutorPersisted else SeProvenance e)\<rparr>
        in bind (annotate_events env now sessionID (baseSeq + 1) rest) (\<lambda>(annotated, lastSeq).
           ret (next # annotated, lastSeq)))"

definition annotateProgressEvents :: "rt_env \<Rightarrow> NodeRun \<Rightarrow> Progress \<Rightarrow> Progress rt" where
  "annotateProgressEvents env run item =
     (if ProgEvents item = [] then ret item
      else
        bind (currentRunEventSeq env (RunID run)) (\<lambda>baseSeq.
        bind (reading (rtClock env)) (\<lambda>now.
        let sessionID = (if is_blank (ProgSessionID item) then
                           (if is_blank (SessionID run) then [] else SessionID run)
                         else ProgSessionID item)
        in
        bind (annotate_events env now sessionID baseSeq (ProgEvents item)) (\<lambda>(events, lastSeq).
        andThen (update_state (\<lambda>s. s\<lparr>svEventSeqs := (svEventSeqs s)(RunID run \<mapsto> lastSeq)\<rparr>))
          (ret \<lparr>ProgMessage = ProgMessage item, ProgSessionID = sessionID, ProgEvents = events\<rparr>)))))"

text \<open>taskhistory.Append\<close>

definition append_history :: "rt_env \<Rightarrow> string \<Rightarrow> Progress \<Rightarrow> int \<Rightarrow> unit rt" where
  "append_history env runID item recordedAt =
     (if ProgEvents item = [] then ret ()
      else
        andThen (io env)
          (update_state (\<lambda>s. s\<lparr>svHistory := (svHistory s)(runID \<mapsto>
             (case svHistory s runID of None \<Rightarrow> [] | Some records \<Rightarrow> records) @
             map (\<lambda>e. \<lparr>RecEvent = e\<lparr>SeEmittedAt := (if SeEmittedAt e = 0 then recordedAt else SeEmittedAt e)\<rparr>,
                       RecordedAt = recordedAt\<rparr>) (ProgEvents item))\<rparr>)))"

definition handleNodeProgress :: "rt_env \<Rightarrow> Task \<Rightarrow> NodeRun \<Rightarrow> Progress \<Rightarrow> unit rt" where
  "handleNodeProgress env task run item =
     (if ProgMessage item = [] \<and> ProgSessionID item = [] \<and> ProgEvents item = [] then ret ()
      else
        bind (annotateProgressEvents env run item) (\<lambda>annotated.
        bind (reading (rtClock env)) (\<lambda>now.
        andThen (append_history env (RunID run) annotated now)
          (publish ((run_event EventNodeProgress (TaskID task) run)\<lparr>EvProgress := Some annotated\<rparr>)))))"

text \<open>The callback of executor.Execute: a new session id is saved first, and errors stick.\<close>

definition job_progress :: "rt_env \<Rightarrow> Job \<Rightarrow> Progress \<Rightarrow> Job rt" where
  "job_progress env job item =
     (if JobProgressErr job \<noteq> None then ret job
      else
        let run = JobRun job;
            changed = (ProgSessionID item \<noteq> [] \<and> ProgSessionID item \<noteq> SessionID run);
            run = (if changed then run\<lparr>SessionID := ProgSessionID item\<rparr> else run)
        in bind (attempt (andThen (if changed then save_run env run else ret ())
                            (handleNodeProgress env (JobTask job) run item))) (\<lambda>r.
           ret (job\<lparr>JobRun := run, JobProgressErr := (case r of Inl e \<Rightarrow> Some e | Inr _ \<Rightarrow> None)\<rparr>)))"

section \<open>Execution of an agent node (node_runner.go)\<close>

record inheritedTaskReference =
  RefDescription :: string
  RefTaskDir :: string

record inheritedContext =
  DirectParent :: inheritedTaskReference
  EarlierAncestors :: "inheritedTaskReference list"

definition TaskDir :: "rt_env \<Rightarrow> Task \<Rightarrow> string" where
  "TaskDir env task = Join_path [rtNormalize env (WorkDir task), ''.muxagent'', ''tasks'', TaskID task]"

definition normalizeInheritedTaskDescription :: "string \<Rightarrow> string" where
  "normalizeInheritedTaskDescription description =
     (let d = trim_space description in if d = [] then ''(no description)'' else d)"

definition makeInheritedTaskReference :: "rt_env \<Rightarrow> Task \<Rightarrow> inheritedTaskReference" where
  "makeInheritedTaskReference env task =
     \<lparr>RefDescription = normalizeInheritedTaskDescription (TaskDescription task),
      RefTaskDir = TaskDir env task\<rparr>"

fun ancestor_references :: "rt_env \<Rightarrow> string \<Rightarrow> string list \<Rightarrow> inheritedTaskReference list rt" where
  "ancestor_references env parentTaskID [] = ret []"
| "ancestor_references env parentTaskID (ancestorID # ids) =
     (if ancestorID = parentTaskID then ancestor_references env parentTaskID ids
      else
        bind (query env (\<lambda>st. GetTask st ancestorID)) (\<lambda>task.
        bind (ancestor_references env parentTaskID ids) (\<lambda>refs.
        ret (makeInheritedTaskReference env task # refs))))"

definition loadInheritedContext :: "rt_env \<Rightarrow> Task \<Rightarrow> inheritedContext option rt" where
  "loadInheritedContext env task =
     bind (query env (\<lambda>st. GetFollowUpParentTaskID st (TaskID task))) (\<lambda>parentTaskID.
     if parentTaskID = [] then ret None
     else
       bind (query env (\<lambda>st. GetTask st parentTaskID)) (\<lambda>parentTask.
       bind (query env (\<lambda>st. ListAncestorTaskIDs st (TaskID task))) (\<lambda>ancestorIDs.
       bind (ancestor_references env parentTaskID ancestorIDs) (\<lambda>ancestors.
       ret (Some \<lparr>DirectParent = makeInheritedTaskReference env parentTask,
                 EarlierAncestors = ancestors\<rparr>)))))"

text \<open>
  What executeAgentNode does before it hands the request to the executor; the two readings after the
  inherited context are the prompt with its template file and the image manifests.
\<close>

definition prepare_request :: "rt_env \<Rightarrow> Job \<Rightarrow> unit rt" where
  "prepare_request env job =
     (let task = JobTask job; run = JobRun job; cfg = JobConfig job in
      bind (list_runs env (TaskID task)) (\<lambda>runs.
      andThen (persistRunManifest env run)
      (bind (loadInheritedContext env task) (\<lambda>inherited.
       andThen (io env)
       (andThen (io env)
       (andThen (if taskUsesWorktree env task then io env else ret ())
       (bind (from_sum (\<lambda>_. UnsupportedRuntime (Runtime cfg))
               (ResolveNodeExecution (rtGo env) (Some cfg) (NodeName run))) (\<lambda>nodeExec.
        write_input env run))))))))"

text \<open>What the executor leaves: its result or error, and what it wrote to output.json, if anything.\<close>

record agent_outcome =
  OutWritten :: "(string, gval) gomap option option"
  OutResult :: "run_error + ExecResult"

definition plain_error :: "string \<Rightarrow> run_error" where
  "plain_error text = \<lparr>ErrText = text, ErrCanceled = False\<rparr>"

definition agent_clarifies :: "rt_env \<Rightarrow> Task \<Rightarrow> Config \<Rightarrow> NodeRun \<Rightarrow> ExecResult \<Rightarrow> unit rt" where
  "agent_clarifies env task cfg run result =
     (let def = node_definition cfg (NodeName run) in
      if MaxClarificationRounds def \<le> int (length (Clarifications run)) \<and> 0 < MaxClarificationRounds def
      then failRun env task cfg run
             (plain_error (''node '' @ go_quote (NodeName run) @ '' exceeded max_clarification_rounds''))
      else
        bind (reading (rtClock env)) (\<lambda>now.
        case ResClarification result of
          None \<Rightarrow> fail NilClarification
        | Some request \<Rightarrow>
            let run = run\<lparr>Status := NodeRunAwaitingUser, FailureReason := [],
                          Clarifications := Clarifications run @
                            [\<lparr>Request = request, Response = None, RequestedAt = now, AnsweredAt = None\<rparr>]\<rparr>
            in
            andThen (write_input env run)
            (andThen (save_run env run)
            (andThen (persistRunManifest env run)
            (bind (refreshTaskView env (TaskID task)) (\<lambda>view.
             bind (buildInputRequest env task cfg (viewNodeRuns view) run) (\<lambda>inputRequest.
             publish ((run_event EventInputRequested (TaskID task) run)
               \<lparr>EvView := Some view, EvInput := inputRequest\<rparr>))))))))"

definition agent_returns :: "nat \<Rightarrow> rt_env \<Rightarrow> Task \<Rightarrow> Config \<Rightarrow> NodeRun \<Rightarrow> ExecResult \<Rightarrow> unit rt" where
  "agent_returns fuel env task cfg run result =
     (let schema = ResultSchema (node_definition cfg (NodeName run));
          value = (case ResResult result of None \<Rightarrow> [] | Some m \<Rightarrow> m) in
      case ValidateValue (rtGo env) (Some schema) (VMap value) of
        Some err \<Rightarrow> failRun env task cfg run (plain_error (value_error_text (rtGo env) schema err))
      | None \<Rightarrow>
          andThen (if Clarifications run \<noteq> [] then write_input env run else ret ())
          (bind (reading (rtClock env)) (\<lambda>now.
           let run = run\<lparr>Result := Some value, Status := NodeRunDone, FailureReason := [],
                         CompletedAt := Some now\<rparr>
           in
           andThen (save_run env run)
           (andThen (persistRunManifest env run)
             (afterNodeCompletedInternal fuel env True task cfg run)))))"

definition executeAgentNode :: "nat \<Rightarrow> rt_env \<Rightarrow> Job \<Rightarrow> agent_outcome \<Rightarrow> unit rt" where
  "executeAgentNode fuel env job outcome =
     andThen (prepare_request env job)
     (andThen (update_state (\<lambda>s. case OutWritten outcome of
                None \<Rightarrow> s
              | Some out \<Rightarrow> s\<lparr>svOutputs := (svOutputs s)(RunID (JobRun job) \<mapsto> out)\<rparr>))
     (case JobProgressErr job of
        Some e \<Rightarrow> fail e
      | None \<Rightarrow>
          (let task = JobTask job; cfg = JobConfig job; run = JobRun job in
           case OutResult outcome of
             Inl err \<Rightarrow> failRun env task cfg run err
           | Inr result \<Rightarrow>
               (let run = (if ResSessionID result \<noteq> [] then run\<lparr>SessionID := ResSessionID result\<rparr> else run) in
                case ResKind result of
                  ResultKindClarification \<Rightarrow> agent_clarifies env task cfg run result
                | ResultKindResult \<Rightarrow> agent_returns fuel env task cfg run result
                | ResultKindOther kind \<Rightarrow>
                    failRun env task cfg run
                      (plain_error (''unsupported execution result kind '' @ go_quote kind))))))"

text \<open>The goroutine of runAgentNodeAsync, from the start of executeAgentNode to its end.\<close>

definition run_job :: "nat \<Rightarrow> rt_env \<Rightarrow> Job \<Rightarrow> agent_outcome \<Rightarrow> unit rt" where
  "run_job fuel env job outcome =
     bind (attempt (executeAgentNode fuel env job outcome)) (\<lambda>r.
     case r of
       Inr () \<Rightarrow> ret ()
     | Inl e \<Rightarrow>
         if shouldPublishCommandError e
         then publish ((run_event EventCommandError (TaskID (JobTask job)) (JobRun job))
                \<lparr>EvError := Some (ErrText (reported_as env e))\<rparr>)
         else ret ())"

section \<open>Recovery at start-up (recovery.go)\<close>

text \<open>The output of a run, when there is a file.\<close>

definition read_output :: "rt_env \<Rightarrow> NodeRun \<Rightarrow> (string, gval) gomap option option rt" where
  "read_output env run =
     bind get_state (\<lambda>s.
     case svOutputs s (RunID run) of
       None \<Rightarrow> ret None
     | Some content \<Rightarrow> andThen (io env) (ret (Some content)))"

definition load_for_recovery :: "rt_env \<Rightarrow> NodeRun \<Rightarrow> (Task \<times> Config) rt" where
  "load_for_recovery env run =
     bind (query env (\<lambda>st. GetTask st (RunTaskID run))) (\<lambda>task.
     bind (load_config env task) (\<lambda>cfg. ret (task, cfg)))"

text \<open>The recovered run is saved; when it is done, the task goes on without events.\<close>

definition settle_recovered :: "nat \<Rightarrow> rt_env \<Rightarrow> Task \<Rightarrow> Config \<Rightarrow> NodeRun \<Rightarrow> bool rt" where
  "settle_recovered fuel env task cfg run =
     andThen (save_run env run)
     (bind (list_runs env (TaskID task)) (\<lambda>runs.
      andThen (persistRunManifest env run)
      (andThen (if Status run = NodeRunDone then afterNodeCompletedInternal fuel env False task cfg run else ret ())
        (ret True))))"

definition recovered_result :: "NodeRun \<Rightarrow> ExecResult \<Rightarrow> int \<Rightarrow> NodeRun" where
  "recovered_result run result recoveredAt =
     run\<lparr>Result := Some (case ResResult result of None \<Rightarrow> [] | Some m \<Rightarrow> m), Status := NodeRunDone,
         FailureReason := [], CompletedAt := Some recoveredAt\<rparr>"

definition recoverRunningNodeRun :: "nat \<Rightarrow> rt_env \<Rightarrow> NodeRun \<Rightarrow> bool rt" where
  "recoverRunningNodeRun fuel env run =
     bind (load_for_recovery env run) (\<lambda>(task, cfg).
     bind (read_output env run) (\<lambda>output.
     case output of
       None \<Rightarrow> ret False
     | Some content \<Rightarrow>
         bind (from_sum UnrecoverableOutput (recoverOutputEnvelope (rtGo env) cfg run content)) (\<lambda>recovered.
         case recovered of
           None \<Rightarrow> ret False
         | Some result \<Rightarrow>
             andThen (io env)
             (bind (reading (rtClock env)) (\<lambda>recoveredAt.
              case ResKind result of
                ResultKindResult \<Rightarrow> settle_recovered fuel env task cfg (recovered_result run result recoveredAt)
              | ResultKindClarification \<Rightarrow>
                  settle_recovered fuel env task cfg
                    (run\<lparr>Status := NodeRunAwaitingUser, FailureReason := [], CompletedAt := None,
                         Clarifications := (case ResClarification result of
                            None \<Rightarrow> Clarifications run
                          | Some request \<Rightarrow> recoverClarifications (Clarifications run) request recoveredAt)\<rparr>)
              | ResultKindOther kind \<Rightarrow> ret False)))))"

definition recoverAwaitingUserNodeRun :: "nat \<Rightarrow> rt_env \<Rightarrow> NodeRun \<Rightarrow> bool rt" where
  "recoverAwaitingUserNodeRun fuel env run =
     bind (load_for_recovery env run) (\<lambda>(task, cfg).
     case map_of (NodeDefinitions cfg) (NodeName run) of
       None \<Rightarrow> ret False
     | Some def \<Rightarrow>
         if DefType def \<noteq> NodeTypeHuman then ret False
         else
           bind (read_output env run) (\<lambda>output.
           case output of
             None \<Rightarrow> ret False
           | Some content \<Rightarrow>
               bind (from_sum UnrecoverableOutput (recoverOutputEnvelope (rtGo env) cfg run content)) (\<lambda>recovered.
               case recovered of
                 None \<Rightarrow> ret False
               | Some result \<Rightarrow>
                   if ResKind result \<noteq> ResultKindResult then ret False
                   else
                     andThen (io env)
                     (bind (reading (rtClock env)) (\<lambda>recoveredAt.
                      settle_recovered fuel env task cfg (recovered_result run result recoveredAt))))))"

text \<open>The failure is saved; what goes wrong after that is ignored but for the manifest.\<close>

definition markRecoveredRunFailed :: "rt_env \<Rightarrow> NodeRun \<Rightarrow> string \<Rightarrow> unit rt" where
  "markRecoveredRunFailed env run reason =
     bind (reading (rtClock env)) (\<lambda>now.
     let run = run\<lparr>Status := NodeRunFailed, FailureReason := reason, CompletedAt := Some now\<rparr> in
     andThen (save_run env run)
     (bind (attempt (query env (\<lambda>st. GetTask st (RunTaskID run)))) (\<lambda>found.
      case found of
        Inl _ \<Rightarrow> ret ()
      | Inr task \<Rightarrow>
          bind (attempt (list_runs env (TaskID task))) (\<lambda>listed.
          case listed of Inl _ \<Rightarrow> ret () | Inr runs \<Rightarrow> persistRunManifest env run))))"

definition recover_or_fail :: "nat \<Rightarrow> rt_env \<Rightarrow> NodeRun \<Rightarrow> unit rt" where
  "recover_or_fail fuel env run =
     bind (attempt (recoverRunningNodeRun fuel env run)) (\<lambda>recovered.
     if recovered = Inr True then ret ()
     else markRecoveredRunFailed env run FailureReasonOrphanedAfterRestart)"

definition reconcileStaleRunning :: "nat \<Rightarrow> rt_env \<Rightarrow> unit rt" where
  "reconcileStaleRunning fuel env =
     bind (query env (\<lambda>st. Inr (ListNodeRunsByStatus st NodeRunRunning))) (\<lambda>runs.
     andThen (for_each (recover_or_fail fuel env) runs)
     (bind (query env (\<lambda>st. Inr (ListNodeRunsByStatus st NodeRunAwaitingUser))) (\<lambda>awaitingRuns.
      for_each (\<lambda>run. bind (attempt (recoverAwaitingUserNodeRun fuel env run)) (\<lambda>_. ret ())) awaitingRuns)))"

section \<open>Steps of the service\<close>

text \<open>A new process has the database and the files, and nothing else.\<close>

definition reopened :: "Service \<Rightarrow> Service" where
  "reopened s =
     s\<lparr>svEngine := New, svEvents := [], svJobs := [], svEventSeqs := (\<lambda>_. None), svShutdownReason := []\<rparr>"

definition empty_service :: Service where
  "empty_service =
     \<lparr>svStore = empty_store, svConfigs = (\<lambda>_. None), svOutputs = (\<lambda>_. None), svHistory = (\<lambda>_. None),
      svEngine = New, svEvents = [], svJobs = [], svEventSeqs = (\<lambda>_. None), svShutdownReason = [],
      svTick = 0\<rparr>"

definition remove_nth :: "nat \<Rightarrow> 'a list \<Rightarrow> 'a list" where
  "remove_nth n xs = take n xs @ drop (Suc n) xs"

inductive svc_step :: "nat \<Rightarrow> rt_env \<Rightarrow> Service \<Rightarrow> Service \<Rightarrow> bool" for fuel env where
  svc_command: "run_command fuel env cmd s = (r, s') \<Longrightarrow> svc_step fuel env s s'"
| svc_progress:
    "n < length (svJobs s) \<Longrightarrow> job_progress env (svJobs s ! n) item s = (Inr job, s') \<Longrightarrow>
     svc_step fuel env s (s'\<lparr>svJobs := (svJobs s')[n := job]\<rparr>)"
| svc_agent:
    "n < length (svJobs s) \<Longrightarrow>
     run_job fuel env (svJobs s ! n) outcome (s\<lparr>svJobs := remove_nth n (svJobs s)\<rparr>) = (r, s') \<Longrightarrow>
     svc_step fuel env s s'"
| svc_restart: "reconcileStaleRunning fuel env (reopened s) = (Inr (), s') \<Longrightarrow> svc_step fuel env s s'"
| svc_failed_restart:
    "reconcileStaleRunning fuel env (reopened s) = (Inl e, s') \<Longrightarrow> svc_step fuel env s (reopened s')"

abbreviation svc_reaches :: "nat \<Rightarrow> rt_env \<Rightarrow> Service \<Rightarrow> Service \<Rightarrow> bool" where
  "svc_reaches fuel env \<equiv> (svc_step fuel env)\<^sup>*\<^sup>*"

end
