(* ===== verification/Lineage.thy ===== *)
theory Lineage
  imports Store
begin

text \<open>
  Correctness of the task database: the constraints hold in every reachable store, the follow-up
  edges form a forest whose ancestors the recursive query lists exactly, attaching a parent is one
  guarded update of a parent map, and a node run is read back as it was written.
\<close>

section \<open>Ids and paths\<close>

text \<open>
  The ids of the program are UUID texts: not empty, with no comma and no white space around them.
\<close>

definition plain_id :: "string \<Rightarrow> bool" where
  "plain_id i \<longleftrightarrow> i \<noteq> [] \<and> CHR '','' \<notin> set i \<and> trim_space i = i"

lemma path_text_Cons: "path_text (j # ids) = CHR '','' # j @ path_text ids"
  by (simp add: path_text_def)

lemma path_text_hd: "\<exists>xs. path_text ids = CHR '','' # xs"
  by (cases ids) (auto simp: path_text_def)

lemma comma_prefix:
  assumes "CHR '','' \<notin> set i" "CHR '','' \<notin> set j"
  shows "prefix (i @ '','') (j @ CHR '','' # xs) \<longleftrightarrow> i = j"
  using assms
proof (induction i arbitrary: j)
  case Nil
  then show ?case by (cases j) auto
next
  case (Cons a i)
  then show ?case by (cases j) auto
qed

lemma sublist_comma_skip:
  "CHR '','' \<notin> set j \<Longrightarrow> sublist (CHR '','' # w) (j @ xs) \<longleftrightarrow> sublist (CHR '','' # w) xs"
  by (induction j) (auto simp: sublist_Cons_right)

lemma on_path_iff:
  assumes "CHR '','' \<notin> set i" "\<forall>j\<in>set ids. CHR '','' \<notin> set j"
  shows "on_path i ids \<longleftrightarrow> i \<in> set ids"
  using assms(2)
proof (induction ids)
  case Nil
  have "\<not> sublist (CHR '','' # i @ '','') '',''"
    using sublist_length_le [of "CHR '','' # i @ '',''" "'',''"] by auto
  then show ?case by (simp add: on_path_def path_text_def)
next
  case (Cons j ids)
  obtain xs where xs: "path_text ids = CHR '','' # xs" using path_text_hd by blast
  have "on_path i (j # ids) \<longleftrightarrow> prefix (i @ '','') (j @ CHR '','' # xs) \<or> on_path i ids"
    using Cons.prems sublist_comma_skip [of j "i @ '',''" "path_text ids"]
    by (simp add: on_path_def path_text_Cons sublist_Cons_right xs)
  then show ?case using Cons comma_prefix [of i j xs] assms(1) by auto
qed

section \<open>The invariant\<close>

definition parent_of :: "Store \<Rightarrow> string \<Rightarrow> string option" where
  "parent_of s t = map_option ParentTaskID (find (\<lambda>e. ChildTaskID e = t) (task_edges s))"

definition up :: "Store \<Rightarrow> (string \<times> string) set" where
  "up s = (\<lambda>e. (ChildTaskID e, ParentTaskID e)) ` set (task_edges s)"

definition store_inv :: "Store \<Rightarrow> bool" where
  "store_inv s \<longleftrightarrow>
     distinct (task_ids s) \<and> (\<forall>i\<in>set (task_ids s). plain_id i) \<and>
     distinct (map RunID (node_runs s)) \<and>
     (\<forall>r\<in>set (node_runs s). RunTaskID r \<in> set (task_ids s)) \<and>
     distinct (map ChildTaskID (task_edges s)) \<and>
     (\<forall>e\<in>set (task_edges s). ParentTaskID e \<in> set (task_ids s) \<and> ChildTaskID e \<in> set (task_ids s)) \<and>
     acyclic (up s)"

lemma store_inv_empty: "store_inv empty_store"
  by (simp add: store_inv_def empty_store_def task_ids_def up_def acyclic_def)

lemma find_distinct:
  "distinct (map f xs) \<Longrightarrow> x \<in> set xs \<Longrightarrow> find (\<lambda>y. f y = f x) xs = Some x"
proof (induction xs)
  case (Cons y ys)
  then show ?case by (cases "y = x") (auto simp: rev_image_eqI)
qed simp

lemma edges_up_distinct:
  assumes "distinct (map ChildTaskID es)"
  shows "edges_up es t = (case find (\<lambda>e. ChildTaskID e = t) es of None \<Rightarrow> [] | Some e \<Rightarrow> [e])"
  using assms
proof (induction es)
  case (Cons e es)
  then have "ChildTaskID e = t \<Longrightarrow> filter (\<lambda>e. ChildTaskID e = t) es = []"
    by (auto simp: filter_empty_conv) (metis image_eqI)
  with Cons show ?case by (cases "ChildTaskID e = t") (simp_all add: edges_up_def)
qed (simp add: edges_up_def)

lemma edges_up_parent:
  assumes "store_inv s"
  shows "map ParentTaskID (edges_up (task_edges s) t) =
    (case parent_of s t of None \<Rightarrow> [] | Some p \<Rightarrow> [p])"
  using assms edges_up_distinct [of "task_edges s" t]
  by (auto simp: store_inv_def parent_of_def split: option.splits)

lemma parent_of_iff:
  assumes "store_inv s"
  shows "parent_of s t = Some p \<longleftrightarrow> (t, p) \<in> up s"
proof
  assume "parent_of s t = Some p"
  then show "(t, p) \<in> up s" by (auto simp: parent_of_def up_def find_Some_iff dest: nth_mem)
next
  assume "(t, p) \<in> up s"
  then obtain e where e: "e \<in> set (task_edges s)" "ChildTaskID e = t" "ParentTaskID e = p"
    by (auto simp: up_def)
  then have "find (\<lambda>y. ChildTaskID y = t) (task_edges s) = Some e"
    using assms find_distinct [of ChildTaskID "task_edges s" e] by (simp add: store_inv_def)
  then show "parent_of s t = Some p" using e by (simp add: parent_of_def)
qed

lemma up_plain: "store_inv s \<Longrightarrow> (t, p) \<in> up s \<Longrightarrow> plain_id t \<and> plain_id p"
  by (auto simp: store_inv_def up_def)

lemma up_no_return: "store_inv s \<Longrightarrow> (t, p) \<in> up s \<Longrightarrow> (p, t) \<notin> (up s)\<^sup>*"
  by (meson acyclic_def rtrancl_into_trancl2 store_inv_def)

section \<open>The ancestors\<close>

text \<open>A step of either recursion, where the path never holds the parent.\<close>

definition path_ok :: "Store \<Rightarrow> string \<Rightarrow> string list \<Rightarrow> bool" where
  "path_ok s t ids \<longleftrightarrow> (\<forall>i\<in>set ids. plain_id i \<and> (i, t) \<in> (up s)\<^sup>*)"

lemma parent_off_path:
  assumes "store_inv s" "path_ok s t ids" "(t, p) \<in> up s"
  shows "\<not> on_path p ids" and "path_ok s p (ids @ [p])"
proof -
  have "p \<notin> set ids" using assms up_no_return [of s t p] by (auto simp: path_ok_def)
  then show "\<not> on_path p ids"
    using assms up_plain [of s t p] by (subst on_path_iff) (auto simp: path_ok_def plain_id_def)
  show "path_ok s p (ids @ [p])"
    using assms up_plain [of s t p] by (auto simp: path_ok_def intro: rtrancl.rtrancl_into_rtrancl)
qed

lemma parent_cases:
  assumes "store_inv s"
  obtains "parent_of s t = None" "edges_up (task_edges s) t = []"
  | e where "parent_of s t = Some (ParentTaskID e)" "edges_up (task_edges s) t = [e]"
      "(t, ParentTaskID e) \<in> up s"
proof (cases "parent_of s t")
  case None
  with edges_up_parent [OF assms, of t] that(1) show ?thesis by simp
next
  case (Some p)
  with edges_up_parent [OF assms, of t] obtain e where e: "edges_up (task_edges s) t = [e]" "ParentTaskID e = p"
    by auto
  with Some that(2) show ?thesis by (simp add: parent_of_iff [OF assms])
qed

lemma edges_up_mem: "edges_up es t = e # xs \<Longrightarrow> e \<in> set es"
  by (metis edges_up_def filter_is_subset list.set_intros(1) subsetD)

inductive lineage :: "(string \<Rightarrow> string option) \<Rightarrow> string \<Rightarrow> string list \<Rightarrow> bool" for parent where
  lineage_root: "parent t = None \<Longrightarrow> lineage parent t []"
| lineage_step: "parent t = Some p \<Longrightarrow> lineage parent p ps \<Longrightarrow> lineage parent t (p # ps)"

lemma lineage_simps:
  "lineage parent t ps \<longleftrightarrow>
     (case parent t of None \<Rightarrow> ps = [] | Some p \<Rightarrow> \<exists>qs. ps = p # qs \<and> lineage parent p qs)"
  by (subst lineage.simps) (auto split: option.splits)

lemma rtrancl_unfold_left:
  "(t, x) \<in> r\<^sup>* \<longleftrightarrow> x = t \<or> (\<exists>y. (t, y) \<in> r \<and> (y, x) \<in> r\<^sup>*)"
  by (blast elim: converse_rtranclE intro: converse_rtrancl_into_rtrancl)

lemma lineage_up_set:
  assumes "store_inv s" "path_ok s t ids"
  shows "set (lineage_up (task_edges s) t ids) = {x. (t, x) \<in> (up s)\<^sup>*}"
  using assms(2)
proof (induction "off_path (task_edges s) ids" arbitrary: t ids rule: less_induct)
  case less
  show ?case
  proof (cases rule: parent_cases [OF assms(1), of t])
    case 1
    then have "(t, x) \<in> (up s)\<^sup>* \<longleftrightarrow> x = t" for x
      using parent_of_iff [OF assms(1), of t] rtrancl_unfold_left [of t x] by auto
    with 1 show ?thesis by (subst lineage_up.simps) auto
  next
    case (2 e)
    note off = parent_off_path [OF assms(1) less.prems 2(3)]
    have "e \<in> set (task_edges s)" using 2(2) by (rule edges_up_mem)
    then have IH: "set (lineage_up (task_edges s) (ParentTaskID e) (ids @ [ParentTaskID e])) =
        {x. (ParentTaskID e, x) \<in> (up s)\<^sup>*}"
      using less.hyps off_path_less off by blast
    have "(t, x) \<in> (up s)\<^sup>* \<longleftrightarrow> x = t \<or> (ParentTaskID e, x) \<in> (up s)\<^sup>*" for x
    proof -
      have "(t, y) \<in> up s \<longleftrightarrow> y = ParentTaskID e" for y
        using 2(1) parent_of_iff [OF assms(1), of t y] by auto
      then show ?thesis using rtrancl_unfold_left [of t x "up s"] by auto
    qed
    with 2 off(1) IH show ?thesis by (subst lineage_up.simps) auto
  qed
qed

lemma ancestor_rows_chain:
  assumes "store_inv s" "path_ok s t ids"
  shows "\<exists>ps. lineage (parent_of s) t ps \<and>
    ancestor_rows (task_edges s) t n ids = map (\<lambda>(i, p). (p, i, False)) (enumerate (Suc n) ps)"
  using assms(2)
proof (induction "off_path (task_edges s) ids" arbitrary: t n ids rule: less_induct)
  case less
  show ?case
  proof (cases rule: parent_cases [OF assms(1), of t])
    case 1
    then show ?thesis by (subst ancestor_rows.simps) (auto intro: lineage_root exI [of _ "[]"])
  next
    case (2 e)
    note off = parent_off_path [OF assms(1) less.prems 2(3)]
    have "e \<in> set (task_edges s)" using 2(2) by (rule edges_up_mem)
    then obtain ps where "lineage (parent_of s) (ParentTaskID e) ps"
      "ancestor_rows (task_edges s) (ParentTaskID e) (Suc n) (ids @ [ParentTaskID e]) =
         map (\<lambda>(i, p). (p, i, False)) (enumerate (Suc (Suc n)) ps)"
      using less.hyps off_path_less off by blast
    with 2 off(1) show ?thesis
      by (subst ancestor_rows.simps) (auto intro!: exI [of _ "ParentTaskID e # ps"] lineage_step)
  qed
qed

lemma pathCreatesCycle_iff:
  assumes "store_inv s"
  shows "pathCreatesCycle s p c \<longleftrightarrow> (p, c) \<in> (up s)\<^sup>*"
proof (cases rule: parent_cases [OF assms, of p])
  case 1
  then have "(p, c) \<in> (up s)\<^sup>* \<longleftrightarrow> c = p"
    using parent_of_iff [OF assms, of p] rtrancl_unfold_left [of p c] by auto
  with 1 show ?thesis by (auto simp: pathCreatesCycle_def lineage_up.simps [of _ p])
next
  case (2 e)
  then have "path_ok s p [p]" using up_plain [OF assms] by (auto simp: path_ok_def)
  then show ?thesis using lineage_up_set [OF assms] by (simp add: pathCreatesCycle_def)
qed

text \<open>
  C18: the recursive query of ListAncestorTaskIDs terminates with the task's ancestors, nearest
  first, and never reports a corrupt lineage: in a store that keeps its constraints the lineage of
  every task is finite and it is exactly what the query lists.
\<close>

theorem ListAncestorTaskIDs_is_the_lineage:
  assumes "store_inv s" and "plain_id t"
  shows "\<exists>ps. ListAncestorTaskIDs s t = Inr ps \<and> lineage (parent_of s) t ps"
proof (cases rule: parent_cases [OF assms(1), of t])
  case 1
  then show ?thesis by (auto simp: ListAncestorTaskIDs_def lineage_rows_def intro: lineage_root)
next
  case (2 e)
  have "path_ok s (ParentTaskID e) [t, ParentTaskID e]"
    using 2(3) assms up_plain by (auto simp: path_ok_def)
  from ancestor_rows_chain [OF assms(1) this, of 1] obtain ps where
    ps: "lineage (parent_of s) (ParentTaskID e) ps"
      "ancestor_rows (task_edges s) (ParentTaskID e) 1 [t, ParentTaskID e] =
         map (\<lambda>(i, p). (p, i, False)) (enumerate 2 ps)" by (auto simp: numeral_2_eq_2)
  then have rows: "lineage_rows s t = map (\<lambda>(i, p). (p, i, False)) (enumerate 1 (ParentTaskID e # ps))"
    using 2(2) by (simp add: lineage_rows_def numeral_2_eq_2)
  have srt: "sorted (map (\<lambda>(task, depth, cycle). (depth, task))
      (map (\<lambda>(i, p). (p, i, False)) (enumerate n xs)))" for n and xs :: "string list"
    by (induction xs arbitrary: n) (auto simp: in_set_enumerate_eq)
  have "sort_key (\<lambda>(task, depth, cycle). (depth, task)) (lineage_rows s t) = lineage_rows s t"
    unfolding rows by (rule sort_key_id_if_sorted [OF srt])
  moreover have "map fst (lineage_rows s t) = ParentTaskID e # ps"
    "\<not> list_ex (\<lambda>(task, depth, cycle). cycle) (lineage_rows s t)"
    unfolding rows by (auto simp: list_ex_iff comp_def case_prod_beta)
  ultimately have "ListAncestorTaskIDs s t = Inr (ParentTaskID e # ps)"
    by (simp add: ListAncestorTaskIDs_def)
  then show ?thesis using 2(1) ps(1) by (auto intro: lineage_step)
qed

section \<open>Attaching a parent\<close>

text \<open>
  The specification of the follow-up relation: a partial parent map, to which one guarded update
  adds a parent.
\<close>

definition reaches_up :: "(string \<Rightarrow> string option) \<Rightarrow> string \<Rightarrow> string \<Rightarrow> bool" where
  "reaches_up parent t a \<longleftrightarrow> (t, a) \<in> {(x, y). parent x = Some y}\<^sup>*"

definition attach_spec ::
  "(string \<Rightarrow> string option) \<Rightarrow> string set \<Rightarrow> string \<Rightarrow> string \<Rightarrow>
   store_error + (string \<Rightarrow> string option)" where
  "attach_spec parent known p c =
     (if p = [] \<or> c = [] then Inl ErrTaskIDsRequired
      else if reaches_up parent p c then Inl ErrFollowUpLineageCycle
      else if parent c \<noteq> None then Inl ErrFollowUpParentConflict
      else if p \<notin> known \<or> c \<notin> known then Inl ErrLineageMissingTask
      else Inr (parent(c \<mapsto> p)))"

lemma up_as_map: "store_inv s \<Longrightarrow> {(x, y). parent_of s x = Some y} = up s"
  by (auto simp: parent_of_iff)

lemma parent_of_None: "parent_of s c = None \<longleftrightarrow> c \<notin> set (map ChildTaskID (task_edges s))"
  by (auto simp: parent_of_def find_None_iff)

lemma parent_of_attach:
  assumes "c \<notin> set (map ChildTaskID (task_edges s))"
  shows "parent_of (s\<lparr>task_edges := task_edges s @ [\<lparr>ParentTaskID = p, ChildTaskID = c, EdgeCreatedAt = at\<rparr>]\<rparr>) =
    (parent_of s)(c \<mapsto> p)"
proof
  fix t
  have "find (\<lambda>e. ChildTaskID e = t) (es @ [e]) =
      (case find (\<lambda>e. ChildTaskID e = t) es of None \<Rightarrow> if ChildTaskID e = t then Some e else None | x \<Rightarrow> x)"
    for es and e :: TaskEdge by (induction es) auto
  then show "parent_of (s\<lparr>task_edges := task_edges s @ [\<lparr>ParentTaskID = p, ChildTaskID = c, EdgeCreatedAt = at\<rparr>]\<rparr>) t =
      ((parent_of s)(c \<mapsto> p)) t"
    using assms parent_of_None [of s c] by (auto simp: parent_of_def split: option.splits)
qed

text \<open>
  C19: attachFollowUpParent implements the guarded update of the parent map: on a store that keeps
  its constraints it succeeds exactly when the specification does, with the same error otherwise,
  and the parents of the new store are the updated map.
\<close>

theorem attachFollowUpParent_refines_parent_map:
  assumes "store_inv s"
  shows "map_sum id parent_of (attachFollowUpParent p c at s) =
    attach_spec (parent_of s) (set (task_ids s)) (trim_space p) (trim_space c)"
proof -
  let ?p = "trim_space p" and ?c = "trim_space c"
  have cyc: "reaches_up (parent_of s) ?p ?c \<longleftrightarrow> pathCreatesCycle s ?p ?c"
    by (simp add: reaches_up_def up_as_map [OF assms] pathCreatesCycle_iff [OF assms])
  have self: "?p = ?c \<Longrightarrow> pathCreatesCycle s ?p ?c"
    by (simp add: pathCreatesCycle_iff [OF assms])
  show ?thesis
    using self parent_of_None [of s ?c]
    by (auto simp: attachFollowUpParent_def Let_def attach_spec_def cyc insert_edge_def parent_of_attach)
qed

section \<open>Every statement keeps the constraints\<close>

lemma stamp_simps [simp]:
  "task_ids (updateTaskTimestamp t at s) = task_ids s"
  "node_runs (updateTaskTimestamp t at s) = node_runs s"
  "task_edges (updateTaskTimestamp t at s) = task_edges s"
  "up (updateTaskTimestamp t at s) = up s"
  by (auto simp: task_ids_def updateTaskTimestamp_def up_def)

lemma update_simps [simp]:
  "task_ids (s\<lparr>node_runs := rs\<rparr>) = task_ids s" "up (s\<lparr>node_runs := rs\<rparr>) = up s"
  "task_ids (s\<lparr>task_edges := es\<rparr>) = task_ids s"
  "up (s\<lparr>tasks := ts\<rparr>) = up s" "task_ids (s\<lparr>tasks := ts\<rparr>) = map TaskID ts"
  by (auto simp: task_ids_def up_def)

lemma inv_stamp [inv_intros]: "store_inv s \<Longrightarrow> store_inv (updateTaskTimestamp t at s)"
  by (simp add: store_inv_def)

lemma inv_createTask [inv_intros]:
  "createTask task s = Inr s' \<Longrightarrow> plain_id (TaskID task) \<Longrightarrow> store_inv s \<Longrightarrow> store_inv s'"
  by (auto simp: createTask_def store_inv_def task_ids_def split: if_splits)

lemma inv_insert_edge [inv_intros]:
  assumes "insert_edge p c at s = Inr s'" "store_inv s" "\<not> pathCreatesCycle s p c"
  shows "store_inv s'"
proof -
  from assms(1) have s': "s' = s\<lparr>task_edges := task_edges s @ [\<lparr>ParentTaskID = p, ChildTaskID = c, EdgeCreatedAt = at\<rparr>]\<rparr>"
    and g: "c \<notin> set (map ChildTaskID (task_edges s))" "p \<in> set (task_ids s)" "c \<in> set (task_ids s)"
    by (auto simp: insert_edge_def split: if_splits)
  have "up s' = insert (c, p) (up s)" by (auto simp: s' up_def)
  then have "acyclic (up s')" using assms(2,3) by (simp add: pathCreatesCycle_iff acyclic_insert store_inv_def)
  with assms(2) g show ?thesis by (auto simp: store_inv_def s' task_ids_def up_def)
qed

lemma inv_attach [inv_intros]:
  "attachFollowUpParent p c at s = Inr s' \<Longrightarrow> store_inv s \<Longrightarrow> store_inv s'"
  by (auto simp: attachFollowUpParent_def Let_def intro: inv_insert_edge split: if_splits)

lemma overwrite_run_id [simp]:
  "RunID (overwrite_run row r) = RunID r" "RunTaskID (overwrite_run row r) = RunTaskID r"
  "NodeName (overwrite_run row r) = NodeName r"
  by (auto simp: overwrite_run_def)

lemma encode_run_id: "encode_run env run = Inr row \<Longrightarrow>
    RunID row = RunID run \<and> RunTaskID row = RunTaskID run \<and> NodeName row = NodeName run"
  by (auto simp: encode_run_def split: option.splits)

lemma inv_saveNodeRun [inv_intros]:
  assumes "saveNodeRun env run at s = Inr s'" "store_inv s"
  shows "store_inv s'"
proof -
  from assms(1) obtain row where row: "encode_run env run = Inr row"
    by (auto simp: saveNodeRun_def split: sum.splits)
  have "map RunID (map (overwrite_run row) (node_runs s)) = map RunID (node_runs s)" by simp
  then have "distinct (map RunID (map (overwrite_run row) (node_runs s)))"
    using assms(2) unfolding store_inv_def by metis
  then show ?thesis
    using assms encode_run_id [OF row]
    by (auto simp: saveNodeRun_def row store_inv_def list_ex_iff split: if_splits) blast
qed

text \<open>The statements the program runs, each on its own or inside a transaction.\<close>

inductive store_step :: "store_env \<Rightarrow> Store \<Rightarrow> Store \<Rightarrow> bool" for env where
  step_createTask: "plain_id (TaskID task) \<Longrightarrow> createTask task s = Inr s' \<Longrightarrow> store_step env s s'"
| step_createWithRun:
    "plain_id (TaskID task) \<Longrightarrow> CreateTaskWithEntryRun env task run s = Inr s' \<Longrightarrow> store_step env s s'"
| step_createFollowUp:
    "plain_id (TaskID task) \<Longrightarrow> CreateFollowUpTaskAtomic env p task run s = Inr s' \<Longrightarrow> store_step env s s'"
| step_attach: "attachFollowUpParent p c at s = Inr s' \<Longrightarrow> store_step env s s'"
| step_save: "saveNodeRun env run at s = Inr s' \<Longrightarrow> store_step env s s'"
| step_stamp: "store_step env s (updateTaskTimestamp t at s)"

abbreviation store_reaches :: "store_env \<Rightarrow> Store \<Rightarrow> Store \<Rightarrow> bool" where
  "store_reaches env \<equiv> (store_step env)\<^sup>*\<^sup>*"

lemma and_store_Inr: "and_store r f = Inr s' \<longleftrightarrow> (\<exists>s. r = Inr s \<and> f s = Inr s')"
  by (auto simp: and_store_def split: sum.splits)

lemma inv_step: "store_step env s s' \<Longrightarrow> store_inv s \<Longrightarrow> store_inv s'"
  by (induction rule: store_step.induct)
    (auto simp: CreateTaskWithEntryRun_def CreateFollowUpTaskAtomic_def and_store_Inr inv_stamp,
      (meson inv_createTask inv_attach inv_saveNodeRun)+)

lemma inv_reaches: "store_reaches env s s' \<Longrightarrow> store_inv s \<Longrightarrow> store_inv s'"
  by (induction rule: rtranclp_induct) (auto intro: inv_step)

text \<open>
  C20: in every store the program can build, ids are unique, every run and every follow-up edge
  refers to tasks that exist, a task has at most one parent, and no task is its own ancestor.
\<close>

theorem reachable_stores_keep_their_constraints:
  assumes "store_reaches env empty_store s"
  shows "distinct (map TaskID (tasks s)) \<and> distinct (map RunID (node_runs s)) \<and>
    (\<forall>r\<in>set (node_runs s). RunTaskID r \<in> set (map TaskID (tasks s))) \<and>
    (\<forall>e\<in>set (task_edges s). ParentTaskID e \<in> set (map TaskID (tasks s)) \<and>
       ChildTaskID e \<in> set (map TaskID (tasks s)) \<and>
       parent_of s (ChildTaskID e) = Some (ParentTaskID e) \<and>
       \<not> reaches_up (parent_of s) (ParentTaskID e) (ChildTaskID e))"
proof -
  have inv: "store_inv s" by (rule inv_reaches [OF assms store_inv_empty])
  have "parent_of s (ChildTaskID e) = Some (ParentTaskID e) \<and>
      \<not> reaches_up (parent_of s) (ParentTaskID e) (ChildTaskID e)" if "e \<in> set (task_edges s)" for e
  proof -
    from that have "(ChildTaskID e, ParentTaskID e) \<in> up s" by (auto simp: up_def)
    with inv show ?thesis
      using up_no_return by (auto simp: parent_of_iff reaches_up_def up_as_map)
  qed
  with inv show ?thesis unfolding store_inv_def task_ids_def by blast
qed

section \<open>Reading back\<close>

lemma find_Some_append: "find P xs = Some x \<Longrightarrow> find P (xs @ ys) = Some x"
  by (induction xs) (auto split: if_splits)

lemma find_append_new: "find P xs = None \<Longrightarrow> find P (xs @ ys) = find P ys"
  by (induction xs) (auto split: if_splits)

lemma find_overwrite:
  "find (\<lambda>r. RunID r = j) (map (overwrite_run row) rs) =
     map_option (overwrite_run row) (find (\<lambda>r. RunID r = j) rs)"
  by (induction rs) auto

text \<open>
  a node run that has been saved is read back as it was written, with its JSON columns recoded,
  with the task and node of an earlier row of its id, and with an empty trigger for a nil one; every
  other run is read as before.
\<close>

theorem saved_run_reads_back:
  assumes "saveNodeRun env run at s = Inr s'"
  shows "\<exists>row. encode_run env run = Inr row \<and>
    GetNodeRun s' (RunID run) = Inr (scanNodeRun
      (case GetNodeRun s (RunID run) of
         Inl _ \<Rightarrow> row
       | Inr old \<Rightarrow> row\<lparr>RunTaskID := RunTaskID old, NodeName := NodeName old\<rparr>)) \<and>
    (\<forall>j. j \<noteq> RunID run \<longrightarrow> GetNodeRun s' j = GetNodeRun s j)"
proof -
  from assms obtain row where row: "encode_run env run = Inr row"
    by (auto simp: saveNodeRun_def split: sum.splits)
  note ids = encode_run_id [OF row]
  show ?thesis
  proof (cases "find (\<lambda>r. RunID r = RunID run) (node_runs s)")
    case None
    then have new: "\<not> list_ex (\<lambda>r. RunID r = RunID run) (node_runs s)"
      by (auto simp: find_None_iff list_ex_iff)
    have "find (\<lambda>r. RunID r = j) (node_runs s @ [row]) =
        (if j = RunID run then Some row else find (\<lambda>r. RunID r = j) (node_runs s))" for j
      using None ids by (cases "find (\<lambda>r. RunID r = j) (node_runs s)") (auto simp: find_append_new find_Some_append)
    then show ?thesis using assms None by (auto simp: saveNodeRun_def row new GetNodeRun_def split: if_splits)
  next
    case (Some old)
    then have ex: "list_ex (\<lambda>r. RunID r = RunID run) (node_runs s)" "RunID old = RunID run"
      by (auto simp: find_Some_iff list_ex_iff dest: nth_mem)
    have "overwrite_run row r = r" if "find (\<lambda>r. RunID r = j) (node_runs s) = Some r" "j \<noteq> RunID run" for j r
      using that ids by (auto simp: find_Some_iff overwrite_run_def)
    then show ?thesis
      using assms Some ids ex
      by (auto simp: saveNodeRun_def row GetNodeRun_def find_overwrite overwrite_run_def scanNodeRun_def
          split: option.splits)
  qed
qed

section \<open>A concrete store\<close>

definition named_task :: "string \<Rightarrow> Task" where
  "named_task i = demo_task\<lparr>TaskID := i\<rparr>"

definition tasks_store :: Store where
  "tasks_store = empty_store\<lparr>tasks := map (\<lambda>i. (named_task i)\<lparr>ExecutionDir := []\<rparr>) [''a'', ''b'', ''c'']\<rparr>"

definition edge_of :: "string \<Rightarrow> string \<Rightarrow> TaskEdge" where
  "edge_of p c = \<lparr>ParentTaskID = p, ChildTaskID = c, EdgeCreatedAt = 0\<rparr>"

definition family_store :: Store where
  "family_store = tasks_store\<lparr>task_edges := [edge_of ''b'' ''c'', edge_of ''a'' ''b'']\<rparr>"

lemma pathCreatesCycle_root:
  "edges_up (task_edges s) p = [] \<Longrightarrow> pathCreatesCycle s p c \<longleftrightarrow> c = p"
  by (simp add: pathCreatesCycle_def lineage_up.simps [of _ p])

lemma plain_letters: "plain_id ''a''" "plain_id ''b''" "plain_id ''c''" "plain_id ''t''"
  by (simp_all add: plain_id_def trim_space_plain go_spaces_def)

lemma family_steps:
  "createTask (named_task ''a'') empty_store =
     Inr (empty_store\<lparr>tasks := [(named_task ''a'')\<lparr>ExecutionDir := []\<rparr>]\<rparr>)"
  "createTask (named_task ''b'') (empty_store\<lparr>tasks := [(named_task ''a'')\<lparr>ExecutionDir := []\<rparr>]\<rparr>) =
     Inr (empty_store\<lparr>tasks := map (\<lambda>i. (named_task i)\<lparr>ExecutionDir := []\<rparr>) [''a'', ''b'']\<rparr>)"
  "createTask (named_task ''c'')
     (empty_store\<lparr>tasks := map (\<lambda>i. (named_task i)\<lparr>ExecutionDir := []\<rparr>) [''a'', ''b'']\<rparr>) = Inr tasks_store"
  "attachFollowUpParent ''b'' ''c'' 0 tasks_store =
     Inr (tasks_store\<lparr>task_edges := [edge_of ''b'' ''c'']\<rparr>)"
  "attachFollowUpParent ''a'' ''b'' 0 (tasks_store\<lparr>task_edges := [edge_of ''b'' ''c'']\<rparr>) = Inr family_store"
  using plain_letters
  by (simp_all add: createTask_def named_task_def demo_task_def empty_store_def task_ids_def tasks_store_def
      ExecutionWorkDir_def attachFollowUpParent_def plain_id_def pathCreatesCycle_root edge_of_def
      edges_up_def insert_edge_def family_store_def Let_def)

lemma family_reachable: "store_reaches env empty_store family_store"
proof -
  have ids: "TaskID (named_task i) = i" for i by (simp add: named_task_def)
  show ?thesis
    by (rule converse_rtranclp_into_rtranclp, rule step_createTask [OF _ family_steps(1)], simp add: ids plain_letters,
        rule converse_rtranclp_into_rtranclp, rule step_createTask [OF _ family_steps(2)], simp add: ids plain_letters,
        rule converse_rtranclp_into_rtranclp, rule step_createTask [OF _ family_steps(3)], simp add: ids plain_letters,
        rule converse_rtranclp_into_rtranclp, rule step_attach [OF family_steps(4)],
        rule converse_rtranclp_into_rtranclp, rule step_attach [OF family_steps(5)], rule rtranclp.rtrancl_refl)
qed

lemma family_inv: "store_inv family_store"
  by (rule inv_reaches [OF family_reachable [of plain_store_env] store_inv_empty])

lemma family_parents:
  "parent_of family_store ''c'' = Some ''b''" "parent_of family_store ''b'' = Some ''a''"
  "parent_of family_store ''a'' = None"
  by (simp_all add: parent_of_def family_store_def edge_of_def)

lemma family_lineage: "lineage (parent_of family_store) ''c'' ps \<longleftrightarrow> ps = [''b'', ''a'']"
  using lineage_simps [of "parent_of family_store" "''c''" ps]
    lineage_simps [of "parent_of family_store" "''b''"] lineage_simps [of "parent_of family_store" "''a''"]
  by (simp add: family_parents)

theorem ListAncestorTaskIDs_is_the_lineage_witness:
  "ListAncestorTaskIDs family_store ''c'' = Inr [''b'', ''a'']"
proof -
  obtain ps where ps: "ListAncestorTaskIDs family_store ''c'' = Inr ps" "lineage (parent_of family_store) ''c'' ps"
    using ListAncestorTaskIDs_is_the_lineage [OF family_inv plain_letters(3)] by blast
  have "ps = [''b'', ''a'']"
    using ps(2) by (simp add: family_lineage)
  with ps(1) show ?thesis by simp
qed

theorem attachFollowUpParent_refines_parent_map_witness:
  "map_sum id parent_of (attachFollowUpParent ''c'' ''a'' 0 family_store) = Inl ErrFollowUpLineageCycle"
proof -
  have "reaches_up (parent_of family_store) ''c'' ''a''"
  proof -
    have "(''c'', ''b'') \<in> {(x, y). parent_of family_store x = Some y}"
      "(''b'', ''a'') \<in> {(x, y). parent_of family_store x = Some y}" by (simp_all add: family_parents)
    then show ?thesis unfolding reaches_up_def by (meson r_into_rtrancl rtrancl_trans)
  qed
  then show ?thesis
    using attachFollowUpParent_refines_parent_map [OF family_inv, of "''c''" "''a''" 0] plain_letters
    by (simp add: attach_spec_def plain_id_def)
qed

theorem reachable_stores_keep_their_constraints_witness:
  "distinct (map TaskID (tasks family_store)) \<and>
     \<not> reaches_up (parent_of family_store) ''b'' ''c''"
  using reachable_stores_keep_their_constraints [OF family_reachable [of plain_store_env]]
  by (simp add: family_store_def edge_of_def)

lemma family_save:
  "saveNodeRun plain_store_env (demo_run ''r'' ''plan'' NodeRunRunning 1\<lparr>RunTaskID := ''a''\<rparr>) 5 family_store =
     Inr (updateTaskTimestamp ''a'' 5
       (family_store\<lparr>node_runs := [demo_run ''r'' ''plan'' NodeRunRunning 1\<lparr>RunTaskID := ''a''\<rparr>]\<rparr>))"
  by (simp add: saveNodeRun_def encode_run_def recode_result_def plain_store_env_def demo_run_def family_store_def tasks_store_def
      empty_store_def task_ids_def named_task_def)

theorem saved_run_reads_back_witness:
  "GetNodeRun (updateTaskTimestamp ''a'' 5
       (family_store\<lparr>node_runs := [demo_run ''r'' ''plan'' NodeRunRunning 1\<lparr>RunTaskID := ''a''\<rparr>]\<rparr>)) ''r'' =
     Inr (demo_run ''r'' ''plan'' NodeRunRunning 1
       \<lparr>RunTaskID := ''a'', Trigger := Some \<lparr>TrigRunID = [], TrigReason = []\<rparr>\<rparr>)"
  using saved_run_reads_back [OF family_save]
  by (simp add: encode_run_def recode_result_def plain_store_env_def demo_run_def scanNodeRun_def GetNodeRun_def
      family_store_def tasks_store_def empty_store_def)

text \<open>
  The texts of two instants a tenth of a second apart compare the other way round, since the text of
  a whole second has no fraction: the task list, which says ORDER BY updated_at DESC, then shows the
  older task first.
\<close>

lemma second_texts:
  "rfc3339nano 0 = ''0001-01-01T00:00:00Z''" "rfc3339nano 100000000 = ''0001-01-01T00:00:00.1Z''"
proof -
  have civil: "civil 0 = (Suc 0, Suc 0, Suc 0)" by (simp add: civil_def civil_era_def civil_year_def civil_day_def)
  have pads: "pad 4 (Suc 0) = ''0001''" "pad 2 (Suc 0) = ''01''" "pad 2 0 = ''00''"
    by code_simp+
  have fracs: "fraction_text 0 = []" "fraction_text 100000000 = ''.1''"
    by (simp_all add: fraction_text_def pad_def Let_def show_nat.simps char_of_def bit_Suc_0_iff)
  show "rfc3339nano 0 = ''0001-01-01T00:00:00Z''"
    by (simp add: rfc3339nano_def Let_def civil pads fracs)
  show "rfc3339nano 100000000 = ''0001-01-01T00:00:00.1Z''"
    by (simp add: rfc3339nano_def Let_def civil pads fracs)
qed

lemma text_order_is_not_time_order:
  "newer_first ((named_task ''old'')\<lparr>TaskUpdatedAt := 0\<rparr>)
               ((named_task ''new'')\<lparr>TaskUpdatedAt := 100000000\<rparr>)"
  by (simp add: newer_first_def second_texts less_char_def)

end
