(* ===== verification/RuntimeLogic.thy ===== *)
theory RuntimeLogic
  imports Commands Lineage
begin

text \<open>
  How the handlers of the task runtime are verified: quiet handlers leave the database, the configs,
  the engine and the agent runs alone, and the locale invariant_logic has the proof rules for
  handlers that keep an invariant while a growing part of the state stays valid.  A judgement
  keeps holds grows b base m Q says that m, started in any state that has grown out of base, keeps the
  invariant, only grows the state, ends in Q when it succeeds and, if b holds, never runs out of fuel.
\<close>

section \<open>Quiet handlers\<close>

definition same :: "Service \<Rightarrow> Service \<Rightarrow> bool" where
  "same s s' \<longleftrightarrow>
     svStore s' = svStore s \<and> svConfigs s' = svConfigs s \<and> svEngine s' = svEngine s \<and>
     svJobs s' = svJobs s \<and> svTick s \<le> svTick s'"

definition quiet :: "'a rt \<Rightarrow> bool" where
  "quiet m \<longleftrightarrow> (\<forall>s. same s (snd (m s)) \<and> fst (m s) \<noteq> Inl OutOfFuel)"

named_theorems quiet_rules

lemma same_refl [simp]: "same s s"
  by (simp add: same_def)

lemma same_trans: "same s t \<Longrightarrow> same t u \<Longrightarrow> same s u"
  by (simp add: same_def)

lemma quietD: "quiet m \<Longrightarrow> m s = (r, s') \<Longrightarrow> same s s' \<and> r \<noteq> Inl OutOfFuel"
  unfolding quiet_def by (metis fst_conv snd_conv)

lemma quiet_ret [quiet_rules]: "quiet (ret x)"
  by (simp add: quiet_def ret_def)

lemma quiet_fail [quiet_rules]: "e \<noteq> OutOfFuel \<Longrightarrow> quiet (fail e)"
  by (simp add: quiet_def fail_def)

lemma quiet_guard [quiet_rules]: "e \<noteq> OutOfFuel \<Longrightarrow> quiet (guard c e)"
  by (simp add: guard_def quiet_ret quiet_fail)

lemma quiet_get_state [quiet_rules]: "quiet get_state"
  by (simp add: quiet_def get_state_def)

lemma quiet_bind [quiet_rules]:
  assumes "quiet m" "\<And>x. quiet (f x)"
  shows "quiet (bind m f)"
  unfolding quiet_def
proof
  fix s
  obtain r t where m: "m s = (r, t)" by (cases "m s")
  note st = quietD [OF assms(1) m]
  show "same s (snd (bind m f s)) \<and> fst (bind m f s) \<noteq> Inl OutOfFuel"
  proof (cases r)
    case (Inl e)
    with m st show ?thesis by (auto simp: bind_def)
  next
    case (Inr x)
    moreover obtain r' u where f: "f x t = (r', u)" by (cases "f x t")
    ultimately show ?thesis
      using m st quietD [OF assms(2) f] by (auto simp: bind_def intro: same_trans)
  qed
qed

lemma quiet_from_sum [quiet_rules]: "(\<And>e. r = Inl e \<Longrightarrow> f e \<noteq> OutOfFuel) \<Longrightarrow> quiet (from_sum f r)"
  by (cases r) (auto simp: quiet_def from_sum_def)

lemma quiet_reading [quiet_rules]: "quiet (reading f)"
  by (simp add: quiet_def reading_def same_def)

lemma quiet_publish [quiet_rules]: "quiet (publish e)"
  by (simp add: quiet_def publish_def update_state_def same_def)

lemma quiet_if [quiet_rules]: "(c \<Longrightarrow> quiet m) \<Longrightarrow> (\<not> c \<Longrightarrow> quiet m') \<Longrightarrow> quiet (if c then m else m')"
  by simp

lemma quiet_option [quiet_rules]:
  "(x = None \<Longrightarrow> quiet m) \<Longrightarrow> (\<And>y. x = Some y \<Longrightarrow> quiet (f y)) \<Longrightarrow>
     quiet (case x of None \<Rightarrow> m | Some y \<Rightarrow> f y)"
  by (cases x) auto

lemma quiet_sum [quiet_rules]:
  "(\<And>e. x = Inl e \<Longrightarrow> quiet (f e)) \<Longrightarrow> (\<And>y. x = Inr y \<Longrightarrow> quiet (g y)) \<Longrightarrow> quiet (case_sum f g x)"
  by (cases x) auto

lemma quiet_list [quiet_rules]:
  "quiet m \<Longrightarrow> (\<And>y ys. quiet (f y ys)) \<Longrightarrow> quiet (case x of [] \<Rightarrow> m | y # ys \<Rightarrow> f y ys)"
  by (cases x) auto

lemma quiet_prod [quiet_rules]: "(\<And>a b. quiet (f a b)) \<Longrightarrow> quiet (case_prod f x)"
  by (cases x) auto

lemma quiet_attempt [quiet_rules]: "quiet m \<Longrightarrow> quiet (attempt m)"
  by (auto simp: quiet_def attempt_def split: prod.splits) (metis snd_conv)

lemma quiet_io [quiet_rules]: "quiet (io env)"
  unfolding io_def by (intro quiet_rules) simp

lemma quiet_query [quiet_rules]: "quiet (query env q)"
  unfolding query_def by (intro quiet_rules) simp

lemma quiet_list_runs [quiet_rules]: "quiet (list_runs env taskID)"
  unfolding list_runs_def by (rule quiet_query)

lemma quiet_load_config [quiet_rules]: "quiet (load_config env task)"
  unfolding load_config_def by (intro quiet_rules) simp

lemma quiet_manifest [quiet_rules]: "quiet (persistRunManifest env run)"
  unfolding persistRunManifest_def by (intro quiet_rules) simp

lemma quiet_write_input [quiet_rules]: "quiet (write_input env run)"
  unfolding write_input_def by (intro quiet_rules)

lemma quiet_loadTaskLineage [quiet_rules]: "quiet (loadTaskLineage env view)"
  unfolding loadTaskLineage_def by (intro quiet_rules)

lemma quiet_LoadTaskView [quiet_rules]: "quiet (LoadTaskView env taskID)"
  unfolding LoadTaskView_def by (intro quiet_rules) simp

lemma quiet_refreshTaskView [quiet_rules]: "quiet (refreshTaskView env taskID)"
  unfolding refreshTaskView_def by (intro quiet_rules)

lemma quiet_inherited_artifacts [quiet_rules]: "quiet (loadInheritedInputArtifacts env task)"
  unfolding loadInheritedInputArtifacts_def by (intro quiet_rules)

lemma quiet_buildInputRequest [quiet_rules]: "quiet (buildInputRequest env task cfg runs run)"
  unfolding buildInputRequest_def Let_def by (intro quiet_rules)

lemma quiet_announce_blocked [quiet_rules]: "quiet (announce_blocked env emit task)"
  unfolding announce_blocked_def by (intro quiet_rules)

lemma quiet_announce_done [quiet_rules]: "quiet (announce_done env emit task run)"
  unfolding announce_done_def by (intro quiet_rules)

lemma quiet_images [quiet_rules]: "quiet (persistImageAttachments env inputs)"
  unfolding persistImageAttachments_def by (intro quiet_rules) simp_all

lemma quiet_prepare_dir [quiet_rules]: "quiet (prepareTaskExecutionDir env useWorktree taskID workDir)"
  unfolding prepareTaskExecutionDir_def by (intro quiet_rules) simp

lemma quiet_checkout [quiet_rules]: "quiet (resolveTaskCheckout env task)"
  unfolding resolveTaskCheckout_def by (rule quiet_reading)

lemma quiet_check_live_runs [quiet_rules]: "quiet (check_live_runs env parent root runs seen)"
proof (induction runs arbitrary: seen)
  case Nil
  show ?case by (simp add: quiet_ret)
next
  case (Cons run runs)
  show ?case
    unfolding check_live_runs.simps
    by (intro quiet_rules Cons.IH) (auto intro: quiet_rules split: prod.splits option.splits)
qed

lemma quiet_ensureCheckout [quiet_rules]: "quiet (ensureCheckoutAvailableForContinueHere env parent root)"
  unfolding ensureCheckoutAvailableForContinueHere_def by (intro quiet_rules)

lemma quiet_read_output [quiet_rules]: "quiet (read_output env run)"
  unfolding read_output_def by (intro quiet_rules)

lemma quiet_outputs [quiet_rules]: "quiet (update_state (\<lambda>s. s\<lparr>svOutputs := f s\<rparr>))"
  by (simp add: quiet_def update_state_def same_def)

lemma quiet_histories [quiet_rules]: "quiet (update_state (\<lambda>s. s\<lparr>svHistory := f s\<rparr>))"
  by (simp add: quiet_def update_state_def same_def)

lemma quiet_seqs [quiet_rules]: "quiet (update_state (\<lambda>s. s\<lparr>svEventSeqs := f s\<rparr>))"
  by (simp add: quiet_def update_state_def same_def)

lemma quiet_shutdown_reason [quiet_rules]: "quiet (update_state (setShutdownReason reason))"
  by (simp add: quiet_def update_state_def same_def setShutdownReason_def)

lemma quiet_human_artifact [quiet_rules]: "quiet (materializeHumanNodeArtifact env task run payload at)"
  unfolding materializeHumanNodeArtifact_def by (intro quiet_rules) simp

lemma quiet_event_seq [quiet_rules]: "quiet (currentRunEventSeq env runID)"
  unfolding currentRunEventSeq_def Let_def by (intro quiet_rules)

lemma quiet_annotate_events [quiet_rules]: "quiet (annotate_events env now session base es)"
  by (induction es arbitrary: base) (auto simp: Let_def intro!: quiet_rules)

lemma quiet_annotate [quiet_rules]: "quiet (annotateProgressEvents env run item)"
  unfolding annotateProgressEvents_def Let_def by (intro quiet_rules)

lemma quiet_append_history [quiet_rules]: "quiet (append_history env runID item at)"
  unfolding append_history_def by (intro quiet_rules)

lemma quiet_progress [quiet_rules]: "quiet (handleNodeProgress env task run item)"
  unfolding handleNodeProgress_def by (intro quiet_rules)

lemma quiet_ancestors [quiet_rules]: "quiet (ancestor_references env parent ids)"
  by (induction ids) (auto intro!: quiet_rules)

lemma quiet_inherited_context [quiet_rules]: "quiet (loadInheritedContext env task)"
  unfolding loadInheritedContext_def by (intro quiet_rules)

lemma quiet_prepare_request [quiet_rules]: "quiet (prepare_request env job)"
  unfolding prepare_request_def Let_def by (intro quiet_rules) simp

section \<open>Handlers that keep an invariant\<close>

lemma bind_fail: "bind (fail e) f = fail e"
  by (rule ext) (simp add: bind_def fail_def)

definition keeps ::
  "(Service \<Rightarrow> bool) \<Rightarrow> (Service \<Rightarrow> Service \<Rightarrow> bool) \<Rightarrow> bool \<Rightarrow> Service \<Rightarrow> 'a rt \<Rightarrow> ('a \<Rightarrow> Service \<Rightarrow> bool) \<Rightarrow>
   bool" where
  "keeps holds grows b base m Q \<longleftrightarrow>
     (\<forall>s. holds s \<and> grows base s \<longrightarrow>
        (case m s of (r, s') \<Rightarrow>
           holds s' \<and> grows s s' \<and> (case r of Inl e \<Rightarrow> b \<longrightarrow> e \<noteq> OutOfFuel | Inr x \<Rightarrow> Q x s')))"

locale invariant_logic =
  fixes holds :: "Service \<Rightarrow> bool" and grows :: "Service \<Rightarrow> Service \<Rightarrow> bool"
  assumes grows_refl: "grows s s"
    and grows_trans: "grows s t \<Longrightarrow> grows t u \<Longrightarrow> grows s u"
    and holds_same: "same s s' \<Longrightarrow> holds s \<Longrightarrow> holds s'"
    and grows_same: "same s s' \<Longrightarrow> grows s s'"
begin

lemma keepsI:
  assumes "\<And>s r s'. holds s \<Longrightarrow> grows base s \<Longrightarrow> m s = (r, s') \<Longrightarrow>
    holds s' \<and> grows s s' \<and> (case r of Inl e \<Rightarrow> b \<longrightarrow> e \<noteq> OutOfFuel | Inr x \<Rightarrow> Q x s')"
  shows "keeps holds grows b base m Q"
  using assms unfolding keeps_def by (auto split: prod.splits)

lemma keepsD:
  assumes "keeps holds grows b base m Q" "holds s" "grows base s" "m s = (r, s')"
  shows "holds s' \<and> grows s s' \<and> (case r of Inl e \<Rightarrow> b \<longrightarrow> e \<noteq> OutOfFuel | Inr x \<Rightarrow> Q x s')"
  using assms unfolding keeps_def by fastforce

lemma keeps_mono:
  assumes "keeps holds grows b base m Q" "grows base base'" "\<And>x s. holds s \<Longrightarrow> grows base' s \<Longrightarrow> Q x s \<Longrightarrow> Q' x s"
  shows "keeps holds grows b base' m Q'"
proof (rule keepsI)
  fix s r s'
  assume s: "holds s" "grows base' s" "m s = (r, s')"
  have "grows base s" by (rule grows_trans [OF assms(2) s(2)])
  from keepsD [OF assms(1) s(1) this s(3)] show
    "holds s' \<and> grows s s' \<and> (case r of Inl e \<Rightarrow> b \<longrightarrow> e \<noteq> OutOfFuel | Inr x \<Rightarrow> Q' x s')"
    using assms(3) grows_trans [OF s(2)] by (auto split: sum.splits)
qed

lemma keeps_later: "keeps holds grows b base m Q \<Longrightarrow> grows base base' \<Longrightarrow> keeps holds grows b base' m Q"
  by (rule keeps_mono)

lemma keeps_local:
  assumes "\<And>s. grows base s \<Longrightarrow> holds s \<Longrightarrow> keeps holds grows b s m Q"
  shows "keeps holds grows b base m Q"
  by (rule keepsI) (use keepsD [OF assms _ grows_refl] in blast)

lemma keeps_weaken: "keeps holds grows b base m Q \<Longrightarrow> keeps holds grows b base m (\<lambda>_ _. True)"
  by (rule keeps_mono [OF _ grows_refl]) simp_all

lemma keeps_quiet:
  assumes "quiet m"
  shows "keeps holds grows b base m (\<lambda>_ _. True)"
proof (rule keepsI)
  fix s r s'
  assume s: "holds s" "m s = (r, s')"
  note k = quietD [OF assms s(2)]
  show "holds s' \<and> grows s s' \<and> (case r of Inl e \<Rightarrow> b \<longrightarrow> e \<noteq> OutOfFuel | Inr x \<Rightarrow> True)"
    using k holds_same [OF _ s(1)] grows_same by (auto split: sum.splits)
qed

lemma keeps_ret: "(\<And>s. holds s \<Longrightarrow> grows base s \<Longrightarrow> Q x s) \<Longrightarrow> keeps holds grows b base (ret x) Q"
  by (rule keepsI) (auto simp: ret_def grows_refl)

lemma keeps_fail: "e \<noteq> OutOfFuel \<Longrightarrow> keeps holds grows b base (fail e) Q"
  by (rule keepsI) (auto simp: fail_def grows_refl)

lemma keeps_fuel: "\<not> b \<Longrightarrow> keeps holds grows b base (fail e) Q"
  by (rule keepsI) (auto simp: fail_def grows_refl)

lemma keeps_bind:
  assumes "keeps holds grows b base m Q'"
    and "\<And>x s. grows base s \<Longrightarrow> holds s \<Longrightarrow> Q' x s \<Longrightarrow> keeps holds grows b s (f x) Q"
  shows "keeps holds grows b base (bind m f) Q"
proof (rule keepsI)
  fix s r s'
  assume s: "holds s" "grows base s" "bind m f s = (r, s')"
  obtain r1 s1 where m: "m s = (r1, s1)" by (cases "m s")
  note k = keepsD [OF assms(1) s(1,2) m]
  show "holds s' \<and> grows s s' \<and> (case r of Inl e \<Rightarrow> b \<longrightarrow> e \<noteq> OutOfFuel | Inr x \<Rightarrow> Q x s')"
  proof (cases r1)
    case (Inl e)
    with s(3) m k show ?thesis by (auto simp: bind_def)
  next
    case (Inr x)
    with k have k1: "holds s1" "grows s s1" "Q' x s1" by auto
    from Inr s(3) m have f: "f x s1 = (r, s')" by (simp add: bind_def)
    from keepsD [OF assms(2) [OF _ k1(1) k1(3)] k1(1) grows_refl f] grows_trans [OF s(2) k1(2)]
    show ?thesis using grows_trans [OF k1(2)] by auto
  qed
qed

text \<open>A part whose result does not matter, before the rest.\<close>

lemma keeps_bind0:
  assumes "keeps holds grows b base m (\<lambda>_ _. True)" "\<And>x. keeps holds grows b base (f x) Q"
  shows "keeps holds grows b base (bind m f) Q"
  by (rule keeps_bind [OF assms(1)]) (rule keeps_later [OF assms(2)])

lemma keeps_skip: "quiet m \<Longrightarrow> (\<And>x. keeps holds grows b base (f x) Q) \<Longrightarrow> keeps holds grows b base (bind m f) Q"
  by (rule keeps_bind0 [OF keeps_quiet])

lemma keeps_attempt:
  assumes "keeps holds grows b base m Q"
  shows "keeps holds grows b base (attempt m)
    (\<lambda>r s. case r of Inl e \<Rightarrow> b \<longrightarrow> e \<noteq> OutOfFuel | Inr x \<Rightarrow> Q x s)"
proof (rule keepsI)
  fix s r s'
  assume s: "holds s" "grows base s" "attempt m s = (r, s')"
  then obtain r1 where "m s = (r1, s')" "r = Inr r1" by (auto simp: attempt_def split: prod.splits)
  with keepsD [OF assms s(1,2)] show
    "holds s' \<and> grows s s' \<and> (case r of Inl e \<Rightarrow> b \<longrightarrow> e \<noteq> OutOfFuel
       | Inr r \<Rightarrow> case r of Inl e \<Rightarrow> b \<longrightarrow> e \<noteq> OutOfFuel | Inr x \<Rightarrow> Q x s')" by auto
qed

lemma keeps_if:
  "(c \<Longrightarrow> keeps holds grows b base m Q) \<Longrightarrow> (\<not> c \<Longrightarrow> keeps holds grows b base m' Q) \<Longrightarrow>
     keeps holds grows b base (if c then m else m') Q"
  by simp

lemma keeps_option:
  "(x = None \<Longrightarrow> keeps holds grows b base m Q) \<Longrightarrow> (\<And>y. x = Some y \<Longrightarrow> keeps holds grows b base (f y) Q) \<Longrightarrow>
     keeps holds grows b base (case x of None \<Rightarrow> m | Some y \<Rightarrow> f y) Q"
  by (cases x) auto

lemma keeps_list:
  "(x = [] \<Longrightarrow> keeps holds grows b base m Q) \<Longrightarrow> (\<And>y ys. x = y # ys \<Longrightarrow> keeps holds grows b base (f y ys) Q) \<Longrightarrow>
     keeps holds grows b base (case x of [] \<Rightarrow> m | y # ys \<Rightarrow> f y ys) Q"
  by (cases x) auto

lemma keeps_sum:
  "(\<And>e. x = Inl e \<Longrightarrow> keeps holds grows b base (f e) Q) \<Longrightarrow> (\<And>y. x = Inr y \<Longrightarrow> keeps holds grows b base (g y) Q) \<Longrightarrow>
     keeps holds grows b base (case_sum f g x) Q"
  by (cases x) auto

lemma keeps_prod:
  "(\<And>a c. x = (a, c) \<Longrightarrow> keeps holds grows b base (f a c) Q) \<Longrightarrow> keeps holds grows b base (case_prod f x) Q"
  by (cases x) auto

lemma keeps_guard:
  assumes "c \<Longrightarrow> keeps holds grows b base m Q" "e \<noteq> OutOfFuel"
  shows "keeps holds grows b base (andThen (guard c e) m) Q"
proof (cases c)
  case True
  with assms(1) show ?thesis by (auto simp: guard_def intro: keeps_bind0 keeps_ret)
next
  case False
  with assms(2) show ?thesis by (simp add: guard_def bind_fail keeps_fail)
qed

lemma keeps_from_sum:
  "(\<And>e. f e \<noteq> OutOfFuel) \<Longrightarrow> (\<And>x s. r = Inr x \<Longrightarrow> Q x s) \<Longrightarrow> keeps holds grows b base (from_sum f r) Q"
  by (cases r) (rule keepsI, auto simp: from_sum_def grows_refl)+

lemma keeps_for_each:
  "(\<And>x. x \<in> set xs \<Longrightarrow> keeps holds grows b base (f x) (\<lambda>_ _. True)) \<Longrightarrow>
     keeps holds grows b base (for_each f xs) (\<lambda>_ _. True)"
  by (induction xs) (auto intro: keeps_ret keeps_bind0)

lemma keeps_query:
  "keeps holds grows b base (query env q) (\<lambda>x s. q (svStore s) = Inr x)"
proof (rule keepsI)
  fix s r s'
  assume s: "holds s" "query env q s = (r, s')"
  note k = quietD [OF quiet_query s(2)]
  have "r = Inr x \<Longrightarrow> q (svStore s') = Inr x" for x
  proof -
    assume "r = Inr x"
    with s(2) obtain t where t: "io env s = (Inr (), t)" "q (svStore t) = Inr x" "s' = t"
      by (auto simp: query_def bind_def get_state_def from_sum_def split: prod.splits sum.splits)
    then show ?thesis by simp
  qed
  with k holds_same [OF _ s(1)] show
    "holds s' \<and> grows s s' \<and> (case r of Inl e \<Rightarrow> b \<longrightarrow> e \<noteq> OutOfFuel | Inr x \<Rightarrow> q (svStore s') = Inr x)"
    by (auto simp: grows_same split: sum.splits)
qed

lemma keeps_list_runs:
  "keeps holds grows b base (list_runs env taskID) (\<lambda>runs s. runs = ListNodeRunsByTask (svStore s) taskID)"
  unfolding list_runs_def by (rule keeps_mono [OF keeps_query grows_refl]) auto

lemma keeps_load_config:
  "keeps holds grows b base (load_config env task) (\<lambda>cfg s. svConfigs s (TaskID task) = Some cfg)"
proof (rule keepsI)
  fix s r s'
  assume s: "holds s" "load_config env task s = (r, s')"
  note k = quietD [OF quiet_load_config s(2)]
  have "r = Inr x \<Longrightarrow> svConfigs s' (TaskID task) = Some x" for x
    using s(2) by (auto simp: load_config_def bind_def get_state_def ret_def fail_def
        split: prod.splits sum.splits option.splits)
  with k holds_same [OF _ s(1)] show
    "holds s' \<and> grows s s' \<and> (case r of Inl e \<Rightarrow> b \<longrightarrow> e \<noteq> OutOfFuel | Inr x \<Rightarrow> svConfigs s' (TaskID task) = Some x)"
    by (auto simp: grows_same split: sum.splits)
qed

lemma keeps_reading: "keeps holds grows b base (reading f) (\<lambda>_ _. True)"
  by (rule keeps_quiet) (rule quiet_reading)

end

end
