(* ===== verification/Provenance.thy ===== *)
theory Provenance
  imports History
begin

text \<open>
  Where the engine's transitions come from: every arrival an engine holds, every transition it
  resolves and every blocked step a history yields stems from a run of the task along an edge of
  its configuration.
\<close>

definition has_edge :: "Config \<Rightarrow> string \<Rightarrow> string \<Rightarrow> bool" where
  "has_edge cfg a b \<longleftrightarrow> (\<exists>edge\<in>set (Edges (Topo cfg)). From edge = a \<and> To edge = b)"

text \<open>A run of the set R on a node with an edge to n.\<close>

definition comes_from :: "Config \<Rightarrow> NodeRun set \<Rightarrow> string \<Rightarrow> string \<Rightarrow> bool" where
  "comes_from cfg R n runID \<longleftrightarrow> (\<exists>q\<in>R. RunID q = runID \<and> has_edge cfg (NodeName q) n)"

definition genuine :: "Config \<Rightarrow> NodeRun set \<Rightarrow> pending_map \<Rightarrow> bool" where
  "genuine cfg R p \<longleftrightarrow> map_ok p \<and> (\<forall>n. \<forall>a\<in>set (arrivals_at p n). comes_from cfg R n (FromRunID a))"

lemma comes_from_mono: "comes_from cfg R n i \<Longrightarrow> R \<subseteq> R' \<Longrightarrow> comes_from cfg R' n i"
  by (auto simp: comes_from_def)

lemma genuine_mono: "genuine cfg R p \<Longrightarrow> R \<subseteq> R' \<Longrightarrow> genuine cfg R' p"
  unfolding genuine_def by (meson comes_from_mono)

lemma genuine_empty [simp]: "genuine cfg R []"
  by (simp add: genuine_def arrivals_at_def)

lemma genuine_add:
  assumes "genuine cfg R p" "run \<in> R"
    and ts: "evaluateEdges env (Result run) (outgoingEdges cfg (NodeName run)) = Inr ts"
  shows "genuine cfg R (fold (add_arrival token run) ts p)"
  unfolding genuine_def
proof (intro conjI allI ballI)
  show "map_ok (fold (add_arrival token run) ts p)"
    using assms(1) by (simp add: genuine_def map_ok_add_arrivals)
next
  fix n a
  assume "a \<in> set (arrivals_at (fold (add_arrival token run) ts p) n)"
  then consider "a \<in> set (arrivals_at p n)" | "a \<in> set (new_arrivals token run ts n)"
    unfolding arrivals_at_add_all by auto
  then show "comes_from cfg R n (FromRunID a)"
  proof cases
    case 1
    with assms(1) show ?thesis by (simp add: genuine_def)
  next
    case 2
    with evaluateEdges_targets [OF ts] assms(2) show ?thesis
      by (fastforce simp: new_arrivals_def comes_from_def has_edge_def outgoingEdges_def)
  qed
qed

lemma genuine_fire:
  assumes "consumeReadyLocked env cfg started p = (out, p')" "env_ok env" "genuine cfg R p"
  shows "t \<in> set out \<Longrightarrow> comes_from cfg R (TransTo t) (TrigRunID (TransTrigger t))"
    and "genuine cfg R p'"
proof -
  have ok: "map_ok p" using assms(3) by (simp add: genuine_def)
  show "genuine cfg R p'"
    using assms(3) consumeReady_spec(2,3) [OF assms(1) ok assms(2)] by (auto simp: genuine_def)
  assume t: "t \<in> set out"
  let ?items = "token_items (TransToken t) (arrivals_at p (TransTo t))"
  from t consumeReady_members [OF assms(1) ok assms(2), of t]
  have "?items \<noteq> []" and f: "t = fire (TransTo t) (arrivals_at p (TransTo t)) (TransToken t)"
    by (auto simp: ready_at_def dest: token_ready_nonempty)
  then have "hd ?items \<in> set (arrivals_at p (TransTo t))"
    using hd_in_set by (fastforce simp: token_items_def)
  with assms(3) have "comes_from cfg R (TransTo t) (FromRunID (hd ?items))" by (simp add: genuine_def)
  then show "comes_from cfg R (TransTo t) (TrigRunID (TransTrigger t))"
    by (subst (2) f) (simp add: fire_def Let_def)
qed

lemma ensure_token_pending: "pending (snd (ensure_token e task run)) = pending e"
  by (simp add: ensure_token_def Let_def)

text \<open>One completion: the transitions and blocked steps stem from R, and the arrivals stay genuine.\<close>

lemma resolve_genuine:
  assumes "ResolveCompletion env e cfg task runs run = (res, e')" "env_ok env"
    and "genuine cfg R (pending e task)" "run \<in> R"
  shows "genuine cfg R (pending e' task)"
    and "k \<noteq> task \<Longrightarrow> pending e' k = pending e k"
    and "res = Inr r \<Longrightarrow> t \<in> set (Transitions r) \<Longrightarrow> comes_from cfg R (TransTo t) (TrigRunID (TransTrigger t))"
    and "res = Inr r \<Longrightarrow> b \<in> set (Blocked r) \<Longrightarrow> comes_from cfg R (BlockedTo b) (TrigRunID (BlockedTrigger b))"
proof -
  from resolve_cases [OF assms(1)] consider
    err where "res = Inl err" "e' = e"
    | ts token e1 ready p where
      "evaluateEdges env (Result run) (outgoingEdges cfg (NodeName run)) = Inr ts"
      "pending e1 = pending e"
      "consumeReadyLocked env cfg (startedNodes e1 task) (fold (add_arrival token run) ts (pending e1 task)) = (ready, p)"
      "e' = e1\<lparr>pending := (pending e1)(task := p)\<rparr>"
      "res = Inr
          \<lparr>Transitions = filter (\<lambda>t. \<not> exceedsIterations cfg runs (TransTo t)) ready,
           Blocked = map block (filter (\<lambda>t. exceedsIterations cfg runs (TransTo t)) ready),
           TaskDone = (ready = [] \<and> \<not> hasPendingArrivals p \<and> taskFinished cfg runs)\<rparr>"
    by (metis ensure_token_pending snd_conv)
  then have "genuine cfg R (pending e' task) \<and> (k \<noteq> task \<longrightarrow> pending e' k = pending e k) \<and>
      (\<forall>r. res = Inr r \<longrightarrow> (\<forall>t\<in>set (Transitions r). comes_from cfg R (TransTo t) (TrigRunID (TransTrigger t))) \<and>
         (\<forall>b\<in>set (Blocked r). comes_from cfg R (BlockedTo b) (TrigRunID (BlockedTrigger b))))"
  proof cases
    case 1
    with assms(3) show ?thesis by simp
  next
    case 2
    have g: "genuine cfg R (fold (add_arrival token run) ts (pending e1 task))"
      using genuine_add [OF assms(3,4) 2(1)] 2(2) by simp
    note fire = genuine_fire [OF 2(3) assms(2) g]
    show ?thesis using fire 2 by (auto simp: block_def)
  qed
  then show "genuine cfg R (pending e' task)" "k \<noteq> task \<Longrightarrow> pending e' k = pending e k"
    "res = Inr r \<Longrightarrow> t \<in> set (Transitions r) \<Longrightarrow> comes_from cfg R (TransTo t) (TrigRunID (TransTrigger t))"
    "res = Inr r \<Longrightarrow> b \<in> set (Blocked r) \<Longrightarrow> comes_from cfg R (BlockedTo b) (TrigRunID (BlockedTrigger b))"
    by blast+
qed

section \<open>Blocked steps of a history\<close>

definition step_from :: "Config \<Rightarrow> NodeRun set \<Rightarrow> BlockedStep \<Rightarrow> bool" where
  "step_from cfg R step \<longleftrightarrow>
     (\<exists>t. StepTrigger step = Some t \<and> comes_from cfg R (StepNode step) (TrigRunID t))"

definition replay_from :: "Config \<Rightarrow> NodeRun set \<Rightarrow> string \<Rightarrow> replay \<Rightarrow> bool" where
  "replay_from cfg R task s \<longleftrightarrow>
     genuine cfg R (pending (repEngine s) task) \<and>
     (\<forall>k step. map_of (repOpen s) k = Some step \<longrightarrow> step_from cfg R step)"

lemma pending_register [simp]:
  "pending (RegisterEntryRun e task run) = pending e"
  "pending (RegisterTriggeredRun e task run parent) = pending e"
  by (simp_all add: RegisterEntryRun_def RegisterTriggeredRun_def Let_def)

lemma replay_from_register:
  "replay_from cfg R task s \<Longrightarrow> replay_from cfg R task (replay_register task run s)"
  by (auto simp: replay_from_def replay_register_def close_step_def Let_def map_laws
      split: option.splits if_splits)

lemma replay_from_blocked:
  "replay_from cfg R task s \<Longrightarrow> \<forall>b\<in>set bs. comes_from cfg R (BlockedTo b) (TrigRunID (BlockedTrigger b)) \<Longrightarrow>
     replay_from cfg R task (replay_blocked run bs counts s)"
proof (induction run bs counts s rule: replay_blocked.induct)
  case (2 run b bs counts s)
  from 2(3) have b: "comes_from cfg R (BlockedTo b) (TrigRunID (BlockedTrigger b))" by simp
  show ?case
    unfolding replay_blocked.simps Let_def
    by (rule 2(1)) (use 2(2,3) b in \<open>auto simp: replay_from_def step_from_def map_laws split: if_splits\<close>)
qed simp

lemma replay_from_loop:
  assumes "env_ok env"
  shows "replay_loop env cfg task runs s = Inr s' \<Longrightarrow> set runs \<subseteq> R \<Longrightarrow> replay_from cfg R task s \<Longrightarrow>
    replay_from cfg R task s'"
proof (induction runs arbitrary: s)
  case (Cons run runs)
  from Cons.prems(1) obtain s1 where s1: "replay_run env cfg task run s = Inr s1"
    and rest: "replay_loop env cfg task runs s1 = Inr s'" by (auto split: sum.splits)
  let ?s = "replay_register task run s"
  have r: "replay_from cfg R task ?s" using Cons.prems(3) by (rule replay_from_register)
  have "replay_from cfg R task s1"
  proof (cases "Status run = NodeRunDone")
    case False
    with s1 r show ?thesis by (simp add: replay_run_def Let_def)
  next
    case True
    with s1 obtain res e where c: "ResolveCompletion env (repEngine ?s) cfg task (repHistory ?s) run = (Inr res, e)"
      and s1': "s1 = replay_blocked run (Blocked res) (\<lambda>_. 0) (?s\<lparr>repEngine := e\<rparr>)"
      by (auto simp: replay_run_def Let_def split: prod.splits sum.splits)
    have "run \<in> R" using Cons.prems(2) by simp
    note g = resolve_genuine [OF c assms _ this]
    show ?thesis unfolding s1'
      by (rule replay_from_blocked) (use r g in \<open>auto simp: replay_from_def\<close>)
  qed
  with Cons.IH [OF rest] Cons.prems(2) show ?case by simp
qed simp

lemma DeriveBlockedSteps_from:
  assumes "DeriveBlockedSteps env cfg runs = Inr steps" "env_ok env" "step \<in> set steps"
  shows "step_from cfg (set runs) step"
proof (cases "sort_slice run_before runs")
  case Nil
  with assms show ?thesis by (simp add: DeriveBlockedSteps_def)
next
  case (Cons first rest)
  with assms(1) obtain s where loop: "replay_loop env cfg (RunTaskID first) (first # rest) init_replay = Inr s"
    and steps: "steps = sort_slice blocked_before (List.map_filter (map_of (repOpen s)) (repOrder s))"
    by (auto simp: DeriveBlockedSteps_def split: sum.splits)
  have "set (first # rest) = set runs" using Cons set_sort_any by metis
  then have "replay_from cfg (set runs) (RunTaskID first) s"
    by (intro replay_from_loop [OF assms(2) loop]) (auto simp: replay_from_def init_replay_def New_def)
  then show ?thesis
    using assms(3) unfolding steps replay_from_def by (auto simp: List.map_filter_def)
qed

end
