(* ===== verification/Topology.thy ===== *)
theory Topology
  imports RuntimeLogic Provenance
begin

text \<open>
  Every run the service ever records follows the topology of its task: it is the entry run, it was
  triggered by a recorded run along an edge, or it is a manual retry of a recorded run on the same
  node.  And no handler runs out of fuel: completing a run recurses through terminal nodes at most
  once per remaining iteration of the configuration.
\<close>

section \<open>What a run keeps for ever\<close>

definition no_trigger :: TriggeredBy where
  "no_trigger = \<lparr>TrigRunID = [], TrigReason = []\<rparr>"

definition trig_of :: "NodeRun \<Rightarrow> TriggeredBy" where
  "trig_of run = (case Trigger run of None \<Rightarrow> no_trigger | Some t \<Rightarrow> t)"

type_synonym run_key = "string \<times> string \<times> string \<times> TriggeredBy"

definition run_key :: "NodeRun \<Rightarrow> run_key" where
  "run_key run = (RunID run, RunTaskID run, NodeName run, trig_of run)"

definition run_keys :: "Store \<Rightarrow> run_key set" where
  "run_keys st = run_key ` set (node_runs st)"

definition known :: "NodeRun \<Rightarrow> Service \<Rightarrow> bool" where
  "known run s \<longleftrightarrow> run_key run \<in> run_keys (svStore s)"

definition task_runs :: "Service \<Rightarrow> string \<Rightarrow> NodeRun set" where
  "task_runs s t = {q. known q s \<and> RunTaskID q = t}"

definition follows :: "Config \<Rightarrow> NodeRun set \<Rightarrow> NodeRun \<Rightarrow> bool" where
  "follows cfg R run \<longleftrightarrow>
     (trig_of run = no_trigger \<and> NodeName run = Entry (Topo cfg)) \<or>
     (\<exists>q\<in>R. RunID q = TrigRunID (trig_of run) \<and>
        (has_edge cfg (NodeName q) (NodeName run) \<or>
         IsManualRetryReason (TrigReason (trig_of run)) \<and> NodeName q = NodeName run))"

lemma run_key_update [simp]:
  "run_key (run\<lparr>Status := a\<rparr>) = run_key run" "run_key (run\<lparr>SessionID := b\<rparr>) = run_key run"
  "run_key (run\<lparr>FailureReason := b\<rparr>) = run_key run" "run_key (run\<lparr>Result := c\<rparr>) = run_key run"
  "run_key (run\<lparr>Clarifications := d\<rparr>) = run_key run" "run_key (run\<lparr>CompletedAt := e\<rparr>) = run_key run"
  "run_key (scanNodeRun run) = run_key run"
  by (simp_all add: run_key_def trig_of_def scanNodeRun_def no_trigger_def split: option.splits)

lemma known_update [simp]:
  "known (run\<lparr>Status := a\<rparr>) s = known run s" "known (run\<lparr>SessionID := b\<rparr>) s = known run s"
  "known (run\<lparr>FailureReason := b\<rparr>) s = known run s" "known (run\<lparr>Result := c\<rparr>) s = known run s"
  "known (run\<lparr>Clarifications := d\<rparr>) s = known run s" "known (run\<lparr>CompletedAt := e\<rparr>) s = known run s"
  "known (scanNodeRun run) s = known run s"
  by (simp_all add: known_def)

lemma scan_fields [simp]:
  "RunID (scanNodeRun run) = RunID run" "RunTaskID (scanNodeRun run) = RunTaskID run"
  "NodeName (scanNodeRun run) = NodeName run" "Status (scanNodeRun run) = Status run"
  by (simp_all add: scanNodeRun_def)

lemma row_known: "r \<in> set (node_runs (svStore s)) \<Longrightarrow> known r s"
  by (simp add: known_def run_keys_def)

lemma follows_key: "run_key r = run_key r' \<Longrightarrow> follows cfg R r = follows cfg R r'"
  by (simp add: follows_def run_key_def)

lemma follows_mono: "follows cfg R r \<Longrightarrow> R \<subseteq> R' \<Longrightarrow> follows cfg R' r"
  unfolding follows_def by blast

lemma encode_run_key: "encode_run env run = Inr row \<Longrightarrow> run_key row = run_key run"
  by (auto simp: encode_run_def split: option.splits)

lemma distinct_id:
  "distinct (map RunID rs) \<Longrightarrow> r \<in> set rs \<Longrightarrow> r' \<in> set rs \<Longrightarrow> RunID r = RunID r' \<Longrightarrow> r = r'"
  by (simp add: distinct_map inj_on_def)

lemma stamp_runs [simp]: "node_runs (updateTaskTimestamp t at st) = node_runs st"
  by (simp add: updateTaskTimestamp_def)

lemma save_known:
  assumes "saveNodeRun env run at st = Inr st'" "store_inv st" "run_key run \<in> run_keys st"
  shows "run_keys st' = run_keys st"
proof -
  from assms(1) obtain row where row: "encode_run env run = Inr row"
    by (auto simp: saveNodeRun_def split: sum.splits)
  from assms(3) obtain r0 where r0: "r0 \<in> set (node_runs st)" "run_key r0 = run_key run"
    by (auto simp: run_keys_def)
  have dist: "distinct (map RunID (node_runs st))" using assms(2) by (simp add: store_inv_def)
  have "run_key (overwrite_run row r) = run_key r" if "r \<in> set (node_runs st)" for r
  proof (cases "RunID r = RunID row")
    case False
    then show ?thesis by (simp add: overwrite_run_def)
  next
    case True
    with r0(2) encode_run_key [OF row] have "RunID r = RunID r0" by (simp add: run_key_def)
    then have "r = r0" using distinct_id [OF dist that r0(1)] by simp
    with True r0(2) encode_run_key [OF row] show ?thesis
      by (simp add: overwrite_run_def run_key_def trig_of_def)
  qed
  moreover have "RunID r0 = RunID run" using r0(2) by (simp add: run_key_def)
  then have "list_ex (\<lambda>r. RunID r = RunID run) (node_runs st)" using r0(1) by (auto simp: list_ex_iff)
  ultimately show ?thesis
    using assms(1) row by (auto simp: saveNodeRun_def run_keys_def image_image)
qed

lemma save_new:
  assumes "saveNodeRun env run at st = Inr st'" "RunID run \<notin> RunID ` set (node_runs st)"
  shows "run_keys st' = insert (run_key run) (run_keys st)"
proof -
  from assms(1) obtain row where row: "encode_run env run = Inr row"
    by (auto simp: saveNodeRun_def split: sum.splits)
  have "\<not> list_ex (\<lambda>r. RunID r = RunID run) (node_runs st)"
    using assms(2) by (auto simp: list_ex_iff) (metis image_eqI)
  with assms(1) row encode_run_key [OF row] show ?thesis
    by (auto simp: saveNodeRun_def run_keys_def split: if_splits)
qed

section \<open>The invariant\<close>

text \<open>
  What the program relies on of its surroundings: fresh UUIDs are distinct plain texts, and ranging
  over a map visits its keys.
\<close>

definition rt_env_ok :: "rt_env \<Rightarrow> bool" where
  "rt_env_ok env \<longleftrightarrow> inj (rtUUID env) \<and> (\<forall>n. plain_id (rtUUID env n)) \<and> env_ok (rtGo env)"

definition minted :: "rt_env \<Rightarrow> string \<Rightarrow> Service \<Rightarrow> bool" where
  "minted env u s \<longleftrightarrow> (\<exists>i < svTick s. u = rtUUID env i)"

definition runs_good :: "rt_env \<Rightarrow> Service \<Rightarrow> bool" where
  "runs_good env s \<longleftrightarrow>
     (\<forall>r. known r s \<longrightarrow> minted env (RunID r) s \<and>
        (\<exists>cfg. svConfigs s (RunTaskID r) = Some cfg \<and> follows cfg (task_runs s (RunTaskID r)) r))"

definition configs_good :: "rt_env \<Rightarrow> Service \<Rightarrow> bool" where
  "configs_good env s \<longleftrightarrow>
     (\<forall>t cfg. svConfigs s t = Some cfg \<longrightarrow>
        minted env t s \<and> (\<exists>n w i p. rtMaterialize env n w i p = Inr cfg))"

definition engine_good :: "Service \<Rightarrow> bool" where
  "engine_good s \<longleftrightarrow>
     (\<forall>t. case svConfigs s t of
            None \<Rightarrow> pending (svEngine s) t = []
          | Some cfg \<Rightarrow> genuine cfg (task_runs s t) (pending (svEngine s) t))"

definition placed :: "Service \<Rightarrow> Task \<Rightarrow> Config \<Rightarrow> NodeRun \<Rightarrow> bool" where
  "placed s task cfg run \<longleftrightarrow>
     known run s \<and> svConfigs s (TaskID task) = Some cfg \<and> RunTaskID run = TaskID task"

definition jobs_good :: "Service \<Rightarrow> bool" where
  "jobs_good s \<longleftrightarrow>
     (\<forall>job\<in>set (svJobs s). placed s (JobTask job) (JobConfig job) (JobRun job) \<and>
        JobProgressErr job \<noteq> Some OutOfFuel)"

definition good :: "rt_env \<Rightarrow> Service \<Rightarrow> bool" where
  "good env s \<longleftrightarrow>
     rt_env_ok env \<and> store_inv (svStore s) \<and> runs_good env s \<and> configs_good env s \<and> engine_good s \<and>
     jobs_good s"

definition grows :: "Service \<Rightarrow> Service \<Rightarrow> bool" where
  "grows s s' \<longleftrightarrow>
     run_keys (svStore s) \<subseteq> run_keys (svStore s') \<and> svConfigs s \<subseteq>\<^sub>m svConfigs s' \<and> svTick s \<le> svTick s'"

lemma grows_refl [simp]: "grows s s"
  by (simp add: grows_def)

lemma grows_trans: "grows s t \<Longrightarrow> grows t u \<Longrightarrow> grows s u"
  by (auto simp: grows_def intro: map_le_trans)

lemma known_grows: "known r s \<Longrightarrow> grows s s' \<Longrightarrow> known r s'"
  by (auto simp: known_def grows_def)

lemma config_grows: "svConfigs s t = Some cfg \<Longrightarrow> grows s s' \<Longrightarrow> svConfigs s' t = Some cfg"
  by (metis grows_def domI map_le_def)

lemma minted_grows: "minted env u s \<Longrightarrow> grows s s' \<Longrightarrow> minted env u s'"
  unfolding minted_def grows_def using order_less_le_trans by blast

lemma task_runs_grows: "grows s s' \<Longrightarrow> task_runs s t \<subseteq> task_runs s' t"
  by (auto simp: task_runs_def known_grows)

lemma placed_grows: "placed s task cfg run \<Longrightarrow> grows s s' \<Longrightarrow> placed s' task cfg run"
  unfolding placed_def using known_grows config_grows by blast

lemma placed_update [simp]:
  "placed s task cfg (run\<lparr>Status := a\<rparr>) = placed s task cfg run"
  "placed s task cfg (run\<lparr>SessionID := b\<rparr>) = placed s task cfg run"
  "placed s task cfg (run\<lparr>FailureReason := b\<rparr>) = placed s task cfg run"
  "placed s task cfg (run\<lparr>Result := c\<rparr>) = placed s task cfg run"
  "placed s task cfg (run\<lparr>Clarifications := d\<rparr>) = placed s task cfg run"
  "placed s task cfg (run\<lparr>CompletedAt := e\<rparr>) = placed s task cfg run"
  by (simp_all add: placed_def)

lemma placed_key:
  assumes "run_key run' = run_key run"
  shows "placed s task cfg run' = placed s task cfg run"
proof -
  from assms have "RunTaskID run' = RunTaskID run" by (simp add: run_key_def)
  with assms show ?thesis by (simp add: placed_def known_def)
qed

text \<open>A state with the same runs, configs and arrivals, and only known agent runs, is as good.\<close>

lemma good_cong:
  assumes "good env s" "run_keys (svStore s') = run_keys (svStore s)" "svConfigs s' = svConfigs s"
    and "pending (svEngine s') = pending (svEngine s)" "svTick s \<le> svTick s'" "store_inv (svStore s')"
    and "jobs_good s'"
  shows "good env s'"
proof -
  have k: "known r s' = known r s" for r using assms(2) by (simp add: known_def)
  have g: "grows s s'" using assms by (simp add: grows_def)
  have t: "task_runs s' = task_runs s" by (rule ext) (simp add: task_runs_def k)
  note m = minted_grows [OF _ g]
  have "runs_good env s'" "configs_good env s'"
    using assms(1) m by (auto simp: good_def runs_good_def configs_good_def k t assms(3))
  moreover have "engine_good s'"
    using assms(1) unfolding good_def engine_good_def assms(3,4) t by blast
  ultimately show ?thesis using assms(1,6,7) by (simp add: good_def)
qed

lemma jobs_grows: "jobs_good s \<Longrightarrow> grows s s' \<Longrightarrow> set (svJobs s') \<subseteq> set (svJobs s) \<Longrightarrow> jobs_good s'"
  by (auto simp: jobs_good_def intro: placed_grows)

lemma good_same: "same s s' \<Longrightarrow> good env s \<Longrightarrow> good env s'"
  by (rule good_cong) (auto simp: same_def good_def grows_def intro: jobs_grows [of s])

lemma grows_same: "same s s' \<Longrightarrow> grows s s'"
  by (simp add: same_def grows_def)

interpretation rt: invariant_logic "good env" grows for env
  by unfold_locales (auto intro: good_same grows_same grows_trans)

abbreviation sound ::
  "rt_env \<Rightarrow> bool \<Rightarrow> Service \<Rightarrow> 'a rt \<Rightarrow> ('a \<Rightarrow> Service \<Rightarrow> bool) \<Rightarrow> bool" where
  "sound env b base m Q \<equiv> keeps (good env) grows b base m Q"

abbreviation anything :: "'a \<Rightarrow> Service \<Rightarrow> bool" where
  "anything \<equiv> \<lambda>_ _. True"

section \<open>Saving runs\<close>

lemma execute_cases:
  assumes "execute env f s = (r, s')"
  obtains e where "r = Inl e" "same s s'" "e \<noteq> OutOfFuel"
  | t st' where "r = Inr ()" "same s t" "f (svStore s) = Inr st'" "s' = t\<lparr>svStore := st'\<rparr>"
proof -
  obtain r1 t where q: "query env f s = (r1, t)" by (cases "query env f s")
  note k = quietD [OF quiet_query q]
  show ?thesis
  proof (cases r1)
    case (Inl e)
    with assms q k have "r = Inl e" "same s s'" "e \<noteq> OutOfFuel" by (auto simp: execute_def bind_def)
    then show ?thesis by (rule that(1))
  next
    case (Inr st')
    with q obtain u where u: "io env s = (Inr (), u)" "f (svStore u) = Inr st'" "t = u"
      by (auto simp: query_def bind_def get_state_def from_sum_def split: prod.splits sum.splits)
    have "svStore u = svStore s" using quietD [OF quiet_io u(1)] by (simp add: same_def)
    with assms q Inr u k have "r = Inr ()" "same s t" "f (svStore s) = Inr st'" "s' = t\<lparr>svStore := st'\<rparr>"
      by (auto simp: execute_def bind_def update_state_def)
    then show ?thesis by (rule that(2))
  qed
qed

lemma save_run_cases:
  assumes "save_run env run s = (r, s')"
  obtains e where "r = Inl e" "same s s'" "e \<noteq> OutOfFuel"
  | t at st' where "r = Inr ()" "same s t" "saveNodeRun (rtStore env) run at (svStore s) = Inr st'"
      "s' = t\<lparr>svStore := st'\<rparr>"
proof -
  from assms have x: "execute env (SaveNodeRun (rtStore env) (rtClock env (svTick s)) run) (s\<lparr>svTick := svTick s + 1\<rparr>) = (r, s')"
    by (simp add: save_run_def bind_def reading_def)
  have s1: "same s (s\<lparr>svTick := svTick s + 1\<rparr>)" by (simp add: same_def)
  from x show ?thesis
  proof (cases rule: execute_cases)
    case (1 e)
    with same_trans [OF s1] that(1) show ?thesis by blast
  next
    case (2 t st')
    then show ?thesis using same_trans [OF s1 2(2)] that(2) by (simp add: SaveNodeRun_def)
  qed
qed

lemma sound_save_known:
  assumes "known run base"
  shows "sound env b base (save_run env run) anything"
proof (rule rt.keepsI)
  fix s r s'
  assume s: "good env s" "grows base s" "save_run env run s = (r, s')"
  from s(3) show "good env s' \<and> grows s s' \<and> (case r of Inl e \<Rightarrow> b \<longrightarrow> e \<noteq> OutOfFuel | Inr x \<Rightarrow> True)"
  proof (cases rule: save_run_cases)
    case (1 e)
    with s(1) show ?thesis by (simp add: good_same grows_same)
  next
    case (2 t at st')
    have "run_key run \<in> run_keys (svStore s)" using known_grows [OF assms s(2)] by (simp add: known_def)
    moreover have "store_inv (svStore s)" using s(1) by (simp add: good_def)
    ultimately have keys: "run_keys st' = run_keys (svStore s)" and inv: "store_inv st'"
      using save_known [OF 2(3)] inv_saveNodeRun [OF 2(3)] by blast+
    have g: "grows s s'" using 2 keys by (simp add: grows_def same_def)
    moreover have "good env s'"
      by (rule good_cong [OF s(1)]) (use 2 keys inv g s(1) in \<open>auto simp: same_def good_def intro: jobs_grows [of s]\<close>)
    ultimately show ?thesis using 2(1) by simp
  qed
qed

lemma unminted: "good env s \<Longrightarrow> known r s \<Longrightarrow> svTick s \<le> n \<Longrightarrow> RunID r \<noteq> rtUUID env n"
proof
  assume g: "good env s" "known r s" "svTick s \<le> n" "RunID r = rtUUID env n"
  then obtain i where "i < svTick s" "RunID r = rtUUID env i"
    unfolding good_def runs_good_def minted_def by blast
  with g show False by (auto simp: good_def rt_env_ok_def dest: injD)
qed

text \<open>A state with one more run, which has a new id and follows the topology.\<close>

lemma good_new_run:
  assumes "good env s" "run_keys (svStore s') = insert (run_key run) (run_keys (svStore s))"
    and "svConfigs s' = svConfigs s" "pending (svEngine s') = pending (svEngine s)" "svTick s \<le> svTick s'"
    and "store_inv (svStore s')" "svJobs s' = svJobs s"
    and "minted env (RunID run) s'" "svConfigs s (RunTaskID run) = Some cfg"
    and "follows cfg (task_runs s (RunTaskID run)) run"
  shows "good env s'"
proof -
  have k: "known r s' \<longleftrightarrow> known r s \<or> run_key r = run_key run" for r
    using assms(2) by (auto simp: known_def)
  have g: "grows s s'" using assms by (auto simp: grows_def)
  note sub = task_runs_grows [OF g]
  have runs: "runs_good env s'"
    unfolding runs_good_def
  proof (intro allI impI)
    fix r assume "known r s'"
    then consider "known r s" | "run_key r = run_key run" using k by blast
    then show "minted env (RunID r) s' \<and>
      (\<exists>cfg. svConfigs s' (RunTaskID r) = Some cfg \<and> follows cfg (task_runs s' (RunTaskID r)) r)"
    proof cases
      case 1
      with assms(1) obtain c where "minted env (RunID r) s" "svConfigs s (RunTaskID r) = Some c"
        "follows c (task_runs s (RunTaskID r)) r" by (auto simp: good_def runs_good_def)
      with minted_grows [OF _ g] follows_mono [OF _ sub] show ?thesis by (auto simp: assms(3))
    next
      case 2
      then have "RunID r = RunID run" "RunTaskID r = RunTaskID run" by (auto simp: run_key_def)
      with assms(8-10) follows_key [OF 2] follows_mono [OF _ sub] show ?thesis by (auto simp: assms(3))
    qed
  qed
  have "configs_good env s'"
    using assms(1) minted_grows [OF _ g] by (auto simp: good_def configs_good_def assms(3))
  moreover have "engine_good s'"
  proof -
    have e: "case svConfigs s t of None \<Rightarrow> pending (svEngine s) t = []
        | Some c \<Rightarrow> genuine c (task_runs s t) (pending (svEngine s) t)" for t
      using assms(1) by (simp add: good_def engine_good_def)
    show ?thesis
      unfolding engine_good_def assms(3,4)
    proof
      fix t
      show "case svConfigs s t of None \<Rightarrow> pending (svEngine s) t = []
        | Some c \<Rightarrow> genuine c (task_runs s' t) (pending (svEngine s) t)"
        using e [of t] genuine_mono [OF _ sub] by (cases "svConfigs s t") simp_all
    qed
  qed
  moreover have "jobs_good s'"
    using assms(1,7) g by (auto simp: good_def intro: jobs_grows [of s])
  ultimately show ?thesis using runs assms(1,6) by (simp add: good_def)
qed

lemma sound_new_run:
  assumes run: "\<And>u. RunID (run u) = u" "\<And>u. RunTaskID (run u) = t" "svConfigs base t = Some cfg"
    and follows: "\<And>u. follows cfg (task_runs base t) (run u)"
    and rest: "\<And>u s. grows base s \<Longrightarrow> good env s \<Longrightarrow> known (run u) s \<Longrightarrow> \<not> known (run u) base \<Longrightarrow>
      sound env b s (k u) Q"
  shows "sound env b base (bind (reading (rtUUID env)) (\<lambda>u. andThen (save_run env (run u)) (k u))) Q"
proof (rule rt.keepsI)
  fix s r s'
  assume s: "good env s" "grows base s"
    and m: "bind (reading (rtUUID env)) (\<lambda>u. andThen (save_run env (run u)) (k u)) s = (r, s')"
  define u where "u = rtUUID env (svTick s)"
  let ?s = "s\<lparr>svTick := svTick s + 1\<rparr>"
  have s1: "same s ?s" by (simp add: same_def)
  obtain r1 s1 where save: "save_run env (run u) ?s = (r1, s1)" by (cases "save_run env (run u) ?s")
  from save show "good env s' \<and> grows s s' \<and> (case r of Inl e \<Rightarrow> b \<longrightarrow> e \<noteq> OutOfFuel | Inr x \<Rightarrow> Q x s')"
  proof (cases rule: save_run_cases)
    case (1 e)
    with m save have "r = Inl e" "s' = s1" by (auto simp: bind_def reading_def u_def)
    with 1 same_trans [OF s1 1(2)] s(1) show ?thesis by (auto simp: grows_same intro: good_same)
  next
    case (2 v at st')
    have unknown: "\<not> known (run u) s" using unminted [OF s(1)] run(1) by (metis order_refl u_def)
    have "RunID q \<noteq> u" if "q \<in> set (node_runs (svStore s))" for q
      using unminted [OF s(1) row_known [OF that]] by (simp add: u_def)
    then have "RunID (run u) \<notin> RunID ` set (node_runs (svStore ?s))" using run(1) by auto
    with 2(3) have keys: "run_keys st' = insert (run_key (run u)) (run_keys (svStore s))"
      using save_new by fastforce
    have v: "same s v" by (rule same_trans [OF s1 2(2)])
    have inv: "store_inv st'" using 2(3) s(1) by (auto simp: good_def intro: inv_saveNodeRun)
    have cfg: "svConfigs s t = Some cfg" by (rule config_grows [OF run(3) s(2)])
    have mint: "minted env u s1"
      unfolding minted_def u_def by (rule exI [of _ "svTick s"]) (use 2 in \<open>simp add: same_def\<close>)
    have "good env s1"
      by (rule good_new_run [OF s(1), of s1 "run u" cfg])
        (use 2 keys v inv cfg mint run(1,2) follows_mono [OF follows task_runs_grows [OF s(2)]]
          in \<open>auto simp: same_def\<close>)
    moreover have g: "grows s s1" using 2 v keys by (auto simp: grows_def same_def)
    moreover have "known (run u) s1" using 2(4) keys by (simp add: known_def)
    moreover have "\<not> known (run u) base" using unknown known_grows s(2) by blast
    ultimately have "sound env b s1 (k u) Q" by (intro rest grows_trans [OF s(2)])
    moreover have "k u s1 = (r, s')" using m save 2(1) by (simp add: bind_def reading_def u_def)
    ultimately show ?thesis
      using rt.keepsD [OF _ \<open>good env s1\<close> grows_refl] grows_trans [OF g] by blast
  qed
qed

end
