(* ===== verification/Completion.thy ===== *)
theory Completion
  imports Topology
begin

text \<open>
  Completing a run: the engine's transitions become new runs that follow the topology, and the
  recursion through terminal nodes ends because each level spends an iteration that its node still
  had.
\<close>

section \<open>Iterations left\<close>

definition visits :: "Service \<Rightarrow> string \<Rightarrow> string \<Rightarrow> nat" where
  "visits s t n = card {k \<in> run_keys (svStore s). fst (snd k) = t \<and> fst (snd (snd k)) = n}"

definition targets :: "Config \<Rightarrow> string set" where
  "targets cfg = set (map To (Edges (Topo cfg)))"

definition room :: "Config \<Rightarrow> Service \<Rightarrow> string \<Rightarrow> nat" where
  "room cfg s t = (\<Sum>n\<in>targets cfg. nat (MaxIterationsForNode cfg n - int (visits s t n)))"

definition iterations :: "Config \<Rightarrow> nat" where
  "iterations cfg = (\<Sum>n\<in>targets cfg. nat (MaxIterationsForNode cfg n))"

text \<open>Enough fuel for every configuration the surroundings can materialise.\<close>

definition fueled :: "rt_env \<Rightarrow> nat \<Rightarrow> bool" where
  "fueled env fuel \<longleftrightarrow> (\<forall>n w i p cfg. rtMaterialize env n w i p = Inr cfg \<longrightarrow> iterations cfg < fuel)"

lemma finite_keys [simp]: "finite (run_keys st)"
  by (simp add: run_keys_def)

lemma visits_mono: "grows s s' \<Longrightarrow> visits s t n \<le> visits s' t n"
  unfolding visits_def grows_def by (intro card_mono) auto

lemma room_mono: "grows s s' \<Longrightarrow> room cfg s' t \<le> room cfg s t"
  unfolding room_def by (intro sum_mono nat_mono) (simp add: visits_mono)

lemma room_le_iterations: "room cfg s t \<le> iterations cfg"
  unfolding room_def iterations_def by (intro sum_mono nat_mono) simp

lemma visits_new:
  assumes "grows s s'" "known r s'" "\<not> known r s"
  shows "visits s (RunTaskID r) (NodeName r) < visits s' (RunTaskID r) (NodeName r)"
  unfolding visits_def
proof (rule psubset_card_mono)
  show "{k \<in> run_keys (svStore s). fst (snd k) = RunTaskID r \<and> fst (snd (snd k)) = NodeName r}
      \<subset> {k \<in> run_keys (svStore s'). fst (snd k) = RunTaskID r \<and> fst (snd (snd k)) = NodeName r}"
    using assms by (auto simp: grows_def known_def run_key_def)
qed simp

lemma room_less:
  assumes "grows s s'" "known r s'" "\<not> known r s" "NodeName r \<in> targets cfg"
    and "int (visits s (RunTaskID r) (NodeName r)) < MaxIterationsForNode cfg (NodeName r)"
  shows "room cfg s' (RunTaskID r) < room cfg s (RunTaskID r)"
  unfolding room_def
proof (rule sum_strict_mono_ex1)
  show "finite (targets cfg)" by (simp add: targets_def)
  show "\<forall>n\<in>targets cfg. nat (MaxIterationsForNode cfg n - int (visits s' (RunTaskID r) n))
      \<le> nat (MaxIterationsForNode cfg n - int (visits s (RunTaskID r) n))"
    using visits_mono [OF assms(1)] by (auto intro!: nat_mono)
  show "\<exists>n\<in>targets cfg. nat (MaxIterationsForNode cfg n - int (visits s' (RunTaskID r) n))
      < nat (MaxIterationsForNode cfg n - int (visits s (RunTaskID r) n))"
    using assms(4,5) visits_new [OF assms(1-3)] by (intro bexI [of _ "NodeName r"]) auto
qed

lemma list_runs_set: "set (ListNodeRunsByTask st t) = scanNodeRun ` {r \<in> set (node_runs st). RunTaskID r = t}"
  by (auto simp: ListNodeRunsByTask_def)

lemma list_runs_known: "run \<in> set (ListNodeRunsByTask (svStore s) t) \<Longrightarrow> known run s \<and> RunTaskID run = t"
  by (auto simp: list_runs_set row_known)

lemma status_runs_known: "run \<in> set (ListNodeRunsByStatus (svStore s) st) \<Longrightarrow> known run s"
  by (auto simp: ListNodeRunsByStatus_def row_known)

lemma IterationCount_visits:
  assumes "good env s"
  shows "IterationCount (ListNodeRunsByTask (svStore s) t) n = int (visits s t n)"
proof -
  let ?rows = "node_runs (svStore s)"
  let ?mine = "filter (\<lambda>r. RunTaskID r = t \<and> NodeName r = n) ?rows"
  have count: "IterationCount xs n = int (size (filter_mset (\<lambda>r. NodeName r = n) (mset xs)))" for xs
    by (simp add: IterationCount_length flip: mset_filter)
  have "mset (ListNodeRunsByTask (svStore s) t) = image_mset scanNodeRun (mset (filter (\<lambda>r. RunTaskID r = t) ?rows))"
    by (simp add: ListNodeRunsByTask_def mset_sort_any)
  then have "filter_mset (\<lambda>r. NodeName r = n) (mset (ListNodeRunsByTask (svStore s) t)) =
      image_mset scanNodeRun (mset ?mine)"
    by (simp add: filter_mset_image_mset conj_commute flip: mset_filter)
  then have "IterationCount (ListNodeRunsByTask (svStore s) t) n = int (length ?mine)"
    by (simp only: count size_image_mset size_mset)
  moreover have "length ?mine = visits s t n"
  proof -
    have dist: "distinct (map RunID ?rows)" using assms by (simp add: good_def store_inv_def)
    have "inj_on run_key (set ?rows)"
      using distinct_id [OF dist] by (auto simp: inj_on_def run_key_def)
    then have "distinct (map run_key ?mine)"
      using dist by (auto simp: distinct_map intro: inj_on_subset)
    then have "length ?mine = card (set (map run_key ?mine))"
      using distinct_card [of "map run_key ?mine"] by simp
    also have "set (map run_key ?mine) = {k \<in> run_keys (svStore s). fst (snd k) = t \<and> fst (snd (snd k)) = n}"
      by (auto simp: run_keys_def run_key_def)
    finally show ?thesis by (simp add: visits_def)
  qed
  ultimately show ?thesis by simp
qed

section \<open>The engine\<close>

lemma sound_engine:
  assumes "\<And>e. pending (f e) = pending e"
  shows "sound env b base (update_engine f) anything"
proof (rule rt.keepsI)
  fix s r s'
  assume s: "good env s" "update_engine f s = (r, s')"
  then have s': "s' = s\<lparr>svEngine := f (svEngine s)\<rparr>" "r = Inr ()" by (auto simp: update_engine_def update_state_def)
  then have g: "grows s s'" by (simp add: grows_def)
  moreover have "good env s'"
    by (rule good_cong [OF s(1)]) (use s' s(1) assms g in \<open>auto simp: good_def intro: jobs_grows [of s]\<close>)
  ultimately show "good env s' \<and> grows s s' \<and> (case r of Inl e \<Rightarrow> b \<longrightarrow> e \<noteq> OutOfFuel | Inr x \<Rightarrow> True)"
    using s' by simp
qed

lemma pending_register_all [simp]: "pending (register_all t runs e) = pending e"
  unfolding register_all_def by (induction runs arbitrary: e) (auto split: option.splits)

lemma pending_rebuild [simp]: "pending (rebuildEngineState t runs e) = pending e"
  by (simp add: rebuildEngineState_def)

definition resolved :: "Config \<Rightarrow> string \<Rightarrow> NodeRun list \<Rightarrow> engine_error + Resolution \<Rightarrow> Service \<Rightarrow> bool" where
  "resolved cfg t runs res s \<longleftrightarrow>
     (\<forall>r. res = Inr r \<longrightarrow> (\<forall>n\<in>set (Transitions r).
        comes_from cfg (task_runs s t) (TransTo n) (TrigRunID (TransTrigger n)) \<and>
        \<not> exceedsIterations cfg runs (TransTo n)))"

lemma sound_resolve:
  assumes "placed base task cfg run"
  shows "sound env b base (resolve_completion env cfg (TaskID task) runs run) (resolved cfg (TaskID task) runs)"
proof (rule rt.keepsI)
  fix s r s'
  assume s: "good env s" "grows base s" "resolve_completion env cfg (TaskID task) runs run s = (r, s')"
  let ?t = "TaskID task"
  obtain res e where c: "ResolveCompletion (rtGo env) (svEngine s) cfg ?t runs run = (res, e)"
    by (cases "ResolveCompletion (rtGo env) (svEngine s) cfg ?t runs run")
  with s(3) have r: "r = Inr res" and s': "s' = s\<lparr>svEngine := e\<rparr>" by (auto simp: resolve_completion_def)
  have p: "placed s task cfg run" by (rule placed_grows [OF assms s(2)])
  then have run: "run \<in> task_runs s ?t" and cfg: "svConfigs s ?t = Some cfg"
    by (simp_all add: placed_def task_runs_def)
  have eng: "engine_good s" and ok: "env_ok (rtGo env)" using s(1) by (simp_all add: good_def rt_env_ok_def)
  from eng cfg have gen: "genuine cfg (task_runs s ?t) (pending (svEngine s) ?t)"
    unfolding engine_good_def by (metis option.simps(5))
  note R = resolve_genuine [OF c ok gen run]
  have k: "known q s' = known q s" for q by (simp add: s' known_def)
  then have t: "task_runs s' = task_runs s" by (auto simp: task_runs_def)
  have g: "grows s s'" by (simp add: s' grows_def)
  have "engine_good s'"
    unfolding engine_good_def
  proof
    fix t'
    show "case svConfigs s' t' of None \<Rightarrow> pending (svEngine s') t' = []
        | Some c \<Rightarrow> genuine c (task_runs s' t') (pending (svEngine s') t')"
    proof (cases "t' = ?t")
      case True
      then have "genuine cfg (task_runs s' t') (pending (svEngine s') t')" using R(1) by (simp add: t) (simp add: s')
      moreover have "svConfigs s' t' = Some cfg" using True cfg by (simp add: s')
      ultimately show ?thesis by simp
    next
      case False
      then have same: "pending (svEngine s') t' = pending (svEngine s) t'" "svConfigs s' t' = svConfigs s t'"
        using R(2) by (simp_all add: s')
      show ?thesis using eng unfolding engine_good_def t same by (rule spec)
    qed
  qed
  moreover have "runs_good env s'" "configs_good env s'"
    using s(1) by (auto simp: good_def runs_good_def configs_good_def k t minted_def) (auto simp: s')
  moreover have "jobs_good s'" by (rule jobs_grows [OF _ g]) (use s(1) in \<open>auto simp: good_def s'\<close>)
  ultimately have "good env s'" using s(1) by (simp add: good_def s')
  moreover have "resolved cfg ?t runs res s'"
    unfolding resolved_def t
  proof (intro allI impI ballI conjI)
    fix r n assume rn: "res = Inr r" "n \<in> set (Transitions r)"
    show "comes_from cfg (task_runs s ?t) (TransTo n) (TrigRunID (TransTrigger n))" by (rule R(3) [OF rn])
    show "\<not> exceedsIterations cfg runs (TransTo n)" using resolve_cases [OF c] rn by auto
  qed
  ultimately show "good env s' \<and> grows s s' \<and>
      (case r of Inl e \<Rightarrow> b \<longrightarrow> e \<noteq> OutOfFuel | Inr x \<Rightarrow> resolved cfg ?t runs x s')"
    using r g by simp
qed

section \<open>The recursion\<close>

text \<open>The runs a completion saves are new, and each is one more visit of an edge's target.\<close>

definition fresh_run :: "Service \<Rightarrow> Service \<Rightarrow> Task \<Rightarrow> Config \<Rightarrow> Transition set \<Rightarrow> NodeRun \<Rightarrow> bool" where
  "fresh_run base s task cfg ts run \<longleftrightarrow>
     placed s task cfg run \<and> \<not> known run base \<and> (\<exists>t\<in>ts. NodeName run = TransTo t)"

lemma fresh_run_grows:
  "fresh_run base' s task cfg ts run \<Longrightarrow> grows base base' \<Longrightarrow> grows s s' \<Longrightarrow> ts \<subseteq> ts' \<Longrightarrow>
     fresh_run base s' task cfg ts' run"
  unfolding fresh_run_def using placed_grows known_grows by blast

lemma sound_save_next_runs:
  assumes "svConfigs base (TaskID task) = Some cfg"
    and "\<forall>t\<in>set ts. comes_from cfg (task_runs base (TaskID task)) (TransTo t) (TrigRunID (TransTrigger t))"
  shows "sound env b base (save_next_runs env task cfg ts)
    (\<lambda>runs s. \<forall>run\<in>set runs. fresh_run base s task cfg (set ts) run)"
  using assms
proof (induction ts arbitrary: base)
  case Nil
  show ?case by (simp add: rt.keeps_ret)
next
  case (Cons t ts)
  let ?run = "\<lambda>now runID. \<lparr>RunID = runID, RunTaskID = TaskID task, NodeName = TransTo t,
      Status = initialStatus (node_definition cfg (TransTo t)), SessionID = [], FailureReason = [],
      Result = None, Clarifications = [], Trigger = Some (TransTrigger t), StartedAt = now, CompletedAt = None\<rparr>"
  show ?case
    unfolding save_next_runs.simps Let_def
  proof (rule rt.keeps_skip [OF quiet_reading], rule sound_new_run)
    fix now u
    show "follows cfg (task_runs base (TaskID task)) (?run now u)"
      using Cons.prems(2) by (auto simp: follows_def trig_of_def comes_from_def)
    fix s
    assume s: "grows base s" "good env s" "known (?run now u) s" "\<not> known (?run now u) base"
    have cfg: "svConfigs s (TaskID task) = Some cfg" by (rule config_grows [OF Cons.prems(1) s(1)])
    have fresh: "fresh_run base s task cfg (set (t # ts)) (?run now u)"
      using s(3,4) cfg by (simp add: fresh_run_def placed_def)
    have edge: "\<forall>t\<in>set ts. comes_from cfg (task_runs s (TaskID task)) (TransTo t) (TrigRunID (TransTrigger t))"
      using Cons.prems(2) comes_from_mono [OF _ task_runs_grows [OF s(1)]] by simp
    show "sound env b s
      (andThen (update_engine (\<lambda>e. RegisterTriggeredRun e (TaskID task) (?run now u) (TrigRunID (TransTrigger t))))
        (bind (save_next_runs env task cfg ts) (\<lambda>runs. ret (?run now u # runs))))
      (\<lambda>runs s. \<forall>run\<in>set runs. fresh_run base s task cfg (set (t # ts)) run)"
    proof (rule rt.keeps_bind0 [OF sound_engine], simp, rule rt.keeps_bind [OF Cons.IH [OF cfg edge]], rule rt.keeps_ret)
      fix runs s1 s2
      assume st: "grows s s1" "\<forall>run\<in>set runs. fresh_run s s1 task cfg (set ts) run" "grows s1 s2"
      have "fresh_run base s2 task cfg (set (t # ts)) run" if "run \<in> set runs" for run
        by (rule fresh_run_grows [OF _ s(1) st(3)]) (use st(2) that in auto)
      moreover have "fresh_run base s2 task cfg (set (t # ts)) (?run now u)"
        by (rule fresh_run_grows [OF fresh grows_refl grows_trans [OF st(1,3)]]) simp
      ultimately show "\<forall>run\<in>set (?run now u # runs). fresh_run base s2 task cfg (set (t # ts)) run"
        by simp
    qed
  qed (use Cons.prems(1) in simp_all)
qed

lemma sound_failRun:
  assumes "known run base"
  shows "sound env b base (failRun env task cfg run err) anything"
  unfolding failRun_def Let_def
  by (intro rt.keeps_skip [OF quiet_reading] rt.keeps_skip [OF quiet_get_state]
      rt.keeps_bind0 [OF sound_save_known] rt.keeps_quiet quiet_rules) (use assms in simp_all)

lemma sound_job:
  assumes "placed base task cfg run"
  shows "sound env b base (runAgentNodeAsync task cfg run) anything"
proof (rule rt.keepsI)
  fix s r s'
  assume s: "good env s" "grows base s" "runAgentNodeAsync task cfg run s = (r, s')"
  let ?job = "\<lparr>JobTask = task, JobConfig = cfg, JobRun = run, JobProgressErr = None\<rparr>"
  from s(3) have s': "s' = s\<lparr>svJobs := svJobs s @ [?job]\<rparr>" "r = Inr ()"
    by (auto simp: runAgentNodeAsync_def update_state_def)
  then have g: "grows s s'" by (simp add: grows_def)
  have "placed s' task cfg run" by (rule placed_grows [OF assms grows_trans [OF s(2) g]])
  moreover have "jobs_good s" using s(1) by (simp add: good_def)
  ultimately have "jobs_good s'"
    using placed_grows [OF _ g] by (auto simp: jobs_good_def s'(1))
  then have "good env s'" by (intro good_cong [OF s(1)]) (use s(1) in \<open>auto simp: s' good_def\<close>)
  with g s'(2) show "good env s' \<and> grows s s' \<and> (case r of Inl e \<Rightarrow> b \<longrightarrow> e \<noteq> OutOfFuel | Inr x \<Rightarrow> True)"
    by simp
qed

lemma sound_startNodeInternal:
  assumes run: "placed base task cfg run"
    and completed: "\<And>run' s. run_key run' = run_key run \<Longrightarrow> grows base s \<Longrightarrow> good env s \<Longrightarrow>
      sound env b s (completed run') anything"
  shows "sound env b base (startNodeInternal env completed emit task cfg run) anything"
proof -
  have quietly: "quiet m \<Longrightarrow> sound env b base (andThen m (runAgentNodeAsync task cfg run)) anything" for m
    by (rule rt.keeps_skip [OF _ sound_job [OF run]])
  have known: "known run base" using run by (simp add: placed_def)
  have terminal: "sound env b base (completed (run\<lparr>Status := NodeRunDone, Result := Some [], CompletedAt := Some now\<rparr>)) anything"
    for now
    by (rule rt.keeps_local, rule completed) simp_all
  show ?thesis
    unfolding startNodeInternal_def Let_def
  proof (intro rt.keeps_skip [OF quiet_refreshTaskView] rt.keeps_skip [OF quiet_manifest])
    fix view
    show "sound env b base
      (case DefType (node_definition cfg (NodeName run)) of
        NodeTypeTerminal \<Rightarrow>
          bind (reading (rtClock env)) (\<lambda>now.
          andThen (save_run env (run\<lparr>Status := NodeRunDone, Result := Some [], CompletedAt := Some now\<rparr>))
            (andThen (persistRunManifest env (run\<lparr>Status := NodeRunDone, Result := Some [], CompletedAt := Some now\<rparr>))
              (completed (run\<lparr>Status := NodeRunDone, Result := Some [], CompletedAt := Some now\<rparr>))))
      | NodeTypeHuman \<Rightarrow>
          if \<not> emit then ret ()
          else bind (buildInputRequest env task cfg (viewNodeRuns view) run) (\<lambda>inputRequest.
            publish ((run_event EventInputRequested (TaskID task) run)\<lparr>EvView := Some view, EvInput := inputRequest\<rparr>))
      | _ \<Rightarrow>
          andThen (if emit then publish ((run_event EventNodeStarted (TaskID task) run)\<lparr>EvView := Some view\<rparr>) else ret ())
            (runAgentNodeAsync task cfg run)) anything"
    proof (cases "DefType (node_definition cfg (NodeName run))")
      case NodeTypeTerminal
      show ?thesis
        unfolding NodeTypeTerminal NodeType.case
        by (intro rt.keeps_skip [OF quiet_reading] rt.keeps_bind0 [OF sound_save_known]
            rt.keeps_skip [OF quiet_manifest] terminal) (use known in simp)
    next
      case NodeTypeHuman
      show ?thesis unfolding NodeTypeHuman NodeType.case by (intro rt.keeps_quiet quiet_rules)
    qed (simp_all only: NodeType.case, (intro quietly quiet_rules)+)
  qed
qed

text \<open>Every level of the recursion leaves less room than the one above it.\<close>

lemma room_after_fresh:
  assumes "good env s0" "runs = ListNodeRunsByTask (svStore s0) (TaskID task)"
    and "resolved cfg (TaskID task) runs (Inr r) s1" "grows s0 s1"
    and "fresh_run s1 s task cfg (set (Transitions r)) run" "grows s1 s"
  shows "room cfg s (TaskID task) < room cfg s0 (TaskID task)"
proof -
  from assms(5) obtain t where t: "t \<in> set (Transitions r)" "NodeName run = TransTo t"
    and run: "placed s task cfg run" "\<not> known run s1" by (auto simp: fresh_run_def)
  from t assms(3) have from_edge: "comes_from cfg (task_runs s1 (TaskID task)) (NodeName run) (TrigRunID (TransTrigger t))"
    and left: "\<not> exceedsIterations cfg runs (NodeName run)" by (auto simp: resolved_def)
  have "NodeName run \<in> targets cfg"
    using from_edge by (auto simp: comes_from_def has_edge_def targets_def intro: image_eqI [OF sym])
  moreover have "int (visits s0 (TaskID task) (NodeName run)) < MaxIterationsForNode cfg (NodeName run)"
    using left IterationCount_visits [OF assms(1)] by (simp add: exceedsIterations_def assms(2))
  moreover have "\<not> known run s0" using run(2) known_grows assms(4) by blast
  ultimately show ?thesis
    using room_less [OF grows_trans [OF assms(4,6)], of run cfg] run(1) by (simp add: placed_def)
qed

lemma sound_after:
  assumes "placed base task cfg run" "b \<Longrightarrow> room cfg base (TaskID task) < fuel"
  shows "sound env b base (afterNodeCompletedInternal fuel env emit task cfg run) anything"
  using assms
proof (induction fuel arbitrary: base run)
  case 0
  then show ?case by (auto intro: rt.keeps_fuel)
next
  case (Suc fuel)
  let ?t = "TaskID task"
  have fuel: "b \<Longrightarrow> room cfg s ?t \<le> fuel" if "grows base s" for s
    using Suc.prems(2) room_mono [OF that, of cfg ?t] by simp
  show ?case
    unfolding afterNodeCompletedInternal.simps
  proof (rule rt.keeps_skip [OF quiet_refreshTaskView], rule rt.keeps_skip, (intro quiet_rules),
      rule rt.keeps_bind [OF rt.keeps_list_runs], rule rt.keeps_bind0 [OF sound_engine [OF pending_rebuild]],
      rule rt.keeps_bind [OF sound_resolve])
    fix runs s0
    assume s0: "grows base s0" "good env s0" "runs = ListNodeRunsByTask (svStore s0) ?t"
    show "placed s0 task cfg run" by (rule placed_grows [OF Suc.prems(1) s0(1)])
    fix res s1
    assume s1: "grows s0 s1" "good env s1" "resolved cfg ?t runs res s1"
    have here: "placed s1 task cfg run"
      by (rule placed_grows [OF Suc.prems(1) grows_trans [OF s0(1) s1(1)]])
    show "sound env b s1 (case res of
       Inl err \<Rightarrow> failRun env task cfg run \<lparr>ErrText = engine_error_text err, ErrCanceled = False\<rparr>
     | Inr resolution \<Rightarrow>
         bind (save_next_runs env task cfg (sort_slice transition_before (Transitions resolution))) (\<lambda>nextRuns.
         andThen (if Blocked resolution \<noteq> [] then announce_blocked env emit task else ret ())
         (andThen (for_each (startNodeInternal env (afterNodeCompletedInternal fuel env emit task cfg)
                               emit task cfg) nextRuns)
         (if TaskDone resolution then announce_done env emit task run else ret ())))) anything"
    proof (rule rt.keeps_sum)
      fix err
      show "sound env b s1 (failRun env task cfg run \<lparr>ErrText = engine_error_text err, ErrCanceled = False\<rparr>) anything"
        by (rule sound_failRun) (use here in \<open>simp add: placed_def\<close>)
    next
      fix r
      assume r: "res = Inr r"
      let ?ts = "sort_slice transition_before (Transitions r)"
      have cfg: "svConfigs s1 ?t = Some cfg" using here by (simp add: placed_def)
      have edges: "\<forall>t\<in>set ?ts. comes_from cfg (task_runs s1 ?t) (TransTo t) (TrigRunID (TransTrigger t))"
        using s1(3) r by (simp add: resolved_def)
      show "sound env b s1 (bind (save_next_runs env task cfg ?ts) (\<lambda>nextRuns.
         andThen (if Blocked r \<noteq> [] then announce_blocked env emit task else ret ())
         (andThen (for_each (startNodeInternal env (afterNodeCompletedInternal fuel env emit task cfg)
                               emit task cfg) nextRuns)
         (if TaskDone r then announce_done env emit task run else ret ())))) anything"
      proof (rule rt.keeps_bind [OF sound_save_next_runs [OF cfg edges]], rule rt.keeps_skip, (intro quiet_rules),
          rule rt.keeps_bind0 [OF rt.keeps_for_each])
        fix nextRuns s next_run
        assume s: "grows s1 s" "good env s" "\<forall>run\<in>set nextRuns. fresh_run s1 s task cfg (set ?ts) run"
          and run: "next_run \<in> set nextRuns"
        have fresh: "fresh_run s1 s task cfg (set (Transitions r)) next_run" using s(3) run by simp
        have less: "room cfg s ?t < room cfg s0 ?t"
          by (rule room_after_fresh [OF s0(2,3) s1(3) [unfolded r] s1(1) fresh s(1)])
        show "sound env b s (startNodeInternal env (afterNodeCompletedInternal fuel env emit task cfg) emit task cfg next_run) anything"
        proof (rule sound_startNodeInternal)
          show here: "placed s task cfg next_run" using fresh by (simp add: fresh_run_def)
          fix run' s2
          assume s2: "run_key run' = run_key next_run" "grows s s2"
          have "placed s2 task cfg run'"
            using placed_grows [OF here s2(2)] placed_key [OF s2(1)] by simp
          then show "sound env b s2 (afterNodeCompletedInternal fuel env emit task cfg run') anything"
          proof (rule Suc.IH)
            assume b
            from fuel [OF s0(1) this] less room_mono [OF s2(2), of cfg ?t]
            show "room cfg s2 ?t < fuel" by simp
          qed
        qed
      next
        fix s
        show "sound env b s (if TaskDone r then announce_done env emit task run else ret ()) anything"
          by (intro rt.keeps_quiet quiet_rules)
      qed
    qed
  qed
qed

lemma sound_completed:
  assumes "placed base task cfg run" "b \<Longrightarrow> fueled env fuel"
  shows "sound env b base (afterNodeCompletedInternal fuel env emit task cfg run) anything"
proof (rule rt.keeps_local, rule sound_after)
  fix s
  assume s: "grows base s" "good env s"
  show p: "placed s task cfg run" by (rule placed_grows [OF assms(1) s(1)])
  assume b
  then have "iterations cfg < fuel"
    using assms(2) s(2) p unfolding good_def configs_good_def placed_def fueled_def by blast
  with room_le_iterations show "room cfg s (TaskID task) < fuel" by (rule le_less_trans)
qed

lemma sound_startNode:
  assumes "placed base task cfg run" "b \<Longrightarrow> fueled env fuel"
  shows "sound env b base (startNode fuel env task cfg run) anything"
  unfolding startNode_def
proof (rule sound_startNodeInternal [OF assms(1)])
  fix run' s
  assume "run_key run' = run_key run" "grows base s"
  then have "placed s task cfg run'" using placed_grows [OF assms(1)] placed_key by blast
  then show "sound env b s (afterNodeCompletedInternal fuel env True task cfg run') anything"
    using assms(2) by (rule sound_completed)
qed

end
