(* ===== verification/RuntimeDemo.thy ===== *)
theory RuntimeDemo
  imports Commands History
begin

text \<open>
  A task of the demo config run through the service: the command that starts it, and the end of the
  agent run of its entry node, which puts the human node behind it to the user.  The equations below
  evaluate the handlers on concrete states; the witnesses of the later theories use the states.
\<close>

section \<open>Evaluating handlers\<close>

lemma bind_eval: "m s = p \<Longrightarrow> bind m f s = (case p of (Inl e, t) \<Rightarrow> (Inl e, t) | (Inr x, t) \<Rightarrow> f x t)"
  by (simp add: bind_def)

lemma bind_weak: "m = m' \<Longrightarrow> bind m f = bind m' f"
  by simp

lemma attempt_eval: "m s = p \<Longrightarrow> attempt m s = (case p of (r, t) \<Rightarrow> (Inr r, t))"
  by (simp add: attempt_def)

lemma reading_eval: "reading f s = (Inr (f (svTick s)), s\<lparr>svTick := svTick s + 1\<rparr>)"
  by (simp add: reading_def)

lemma io_eval:
  "io env s =
     (case rtFault env (svTick s) of
        None \<Rightarrow> (Inr (), s\<lparr>svTick := svTick s + 1\<rparr>)
      | Some msg \<Rightarrow> (Inl (Fault msg), s\<lparr>svTick := svTick s + 1\<rparr>))"
  by (simp add: io_def bind_def reading_def ret_def fail_def split: option.splits)

lemma query_eval:
  "query env q s =
     (case rtFault env (svTick s) of
        Some msg \<Rightarrow> (Inl (Fault msg), s\<lparr>svTick := svTick s + 1\<rparr>)
      | None \<Rightarrow>
          (case q (svStore s) of
             Inl e \<Rightarrow> (Inl (StoreFailure e), s\<lparr>svTick := svTick s + 1\<rparr>)
           | Inr x \<Rightarrow> (Inr x, s\<lparr>svTick := svTick s + 1\<rparr>)))"
  by (simp add: query_def io_eval bind_def get_state_def from_sum_def split: option.splits sum.splits)

lemma execute_eval:
  "execute env q s =
     (case rtFault env (svTick s) of
        Some msg \<Rightarrow> (Inl (Fault msg), s\<lparr>svTick := svTick s + 1\<rparr>)
      | None \<Rightarrow>
          (case q (svStore s) of
             Inl e \<Rightarrow> (Inl (StoreFailure e), s\<lparr>svTick := svTick s + 1\<rparr>)
           | Inr st \<Rightarrow> (Inr (), s\<lparr>svTick := svTick s + 1, svStore := st\<rparr>)))"
  by (simp add: execute_def query_eval bind_def update_state_def split: option.splits sum.splits)

lemma update_eval: "update_state f s = (Inr (), f s)"
  by (simp add: update_state_def)

lemma ret_eval: "ret x s = (Inr x, s)"
  by (simp add: ret_def)

lemma fail_eval: "fail x s = (Inl x, s)"
  by (simp add: fail_def)

lemma unit_case: "(case u of () \<Rightarrow> x) = x"
  by (cases u, hypsubst, rule unit.case)

lemma View_of_derived: "ViewTask (DeriveTaskView task cfg runs steps) = task"
  by (simp add: DeriveTaskView_def Let_def)

lemmas step_eval =
  bind_eval attempt_eval reading_eval io_eval query_eval execute_eval update_eval ret_eval fail_eval
  get_state_def guard_def Let_def from_sum_def publish_def update_engine_def load_config_def
  list_runs_def save_run_def LoadTaskView_def refreshTaskView_def loadTaskLineage_def View_of_derived
  persistRunManifest_def unit_case

lemmas store_eval =
  CreateTaskWithEntryRun_def and_store_def createTask_def task_ids_def saveNodeRun_def SaveNodeRun_def
  encode_run_def recode_result_def GetTask_def updateTaskTimestamp_def ListNodeRunsByTask_def
  run_before_def row_before_def scanNodeRun_def GetFollowUpParentTaskID_def edges_up_def
  overwrite_run_def ExecutionWorkDir_def

lemmas command_eval =
  run_command_def startTask_def startTaskWithExecution_def on_error_def create_task_def commit_task_def
  prepareTaskExecutionDir_def persistImageAttachments_def insert_rows_def startNode_def
  startNodeInternal_def runAgentNodeAsync_def resolve_completion_def loadInheritedInputArtifacts_def
  buildInputRequest_def

lemmas agent_eval =
  run_job_def executeAgentNode_def prepare_request_def loadInheritedContext_def taskUsesWorktree_def
  write_input_def agent_returns_def

section \<open>The surroundings and the task\<close>

definition demo_uuid :: "nat \<Rightarrow> string" where
  "demo_uuid n =
     (if n = 0 then ''t'' else if n = 3 then ''a'' else if n = 31 then ''b''
      else replicate (Suc n) (CHR ''u''))"

definition demo_rt :: rt_env where
  "demo_rt =
     \<lparr>rtGo = plain_env, rtStore = plain_store_env, rtClock = (\<lambda>_. 0), rtUUID = demo_uuid,
      rtFault = (\<lambda>n. None), rtMaterialize = (\<lambda>_ _ _ _. Inr demo_config), rtAttachments = (\<lambda>_ _. None),
      rtFileExists = (\<lambda>_ _. False), rtNormalize = (\<lambda>w. w), rtExecutionDir = (\<lambda>_ w _. Inr w),
      rtCheckout = (\<lambda>_ _. None), rtForkDir = (\<lambda>_ _ w _. Inr w), rtErrText = (\<lambda>_. ''error''),
      rtWorkDir = ''/w''\<rparr>"

definition demo_entry :: NodeRun where
  "demo_entry =
     \<lparr>RunID = ''a'', RunTaskID = ''t'', NodeName = ''plan'', Status = NodeRunRunning, SessionID = [],
      FailureReason = [], Result = None, Clarifications = [], Trigger = None, StartedAt = 0,
      CompletedAt = None\<rparr>"

definition demo_ended :: NodeRun where
  "demo_ended =
     demo_entry\<lparr>SessionID := ''k'', Status := NodeRunDone, Result := Some [], CompletedAt := Some 0\<rparr>"

definition demo_asked :: NodeRun where
  "demo_asked =
     \<lparr>RunID = ''b'', RunTaskID = ''t'', NodeName = ''approve'', Status = NodeRunAwaitingUser,
      SessionID = [], FailureReason = [], Result = None, Clarifications = [],
      Trigger = Some \<lparr>TrigRunID = ''a'', TrigReason = ''edge: plan -> approve''\<rparr>, StartedAt = 0,
      CompletedAt = None\<rparr>"

definition demo_record :: Task where
  "demo_record =
     \<lparr>TaskID = ''t'', TaskDescription = ''d'', ConfigAlias = ''a'', ConfigPath = ''p'', WorkDir = ''/w'',
      ExecutionDir = ''/w'', TaskCreatedAt = 0, TaskUpdatedAt = 0\<rparr>"

definition demo_rows :: "NodeRun list \<Rightarrow> Store" where
  "demo_rows runs = \<lparr>tasks = [demo_record], task_edges = [], node_runs = runs\<rparr>"

definition demo_job :: Job where
  "demo_job =
     \<lparr>JobTask = demo_record, JobConfig = demo_config, JobRun = demo_entry, JobProgressErr = None\<rparr>"

definition demo_outcome :: agent_outcome where
  "demo_outcome =
     \<lparr>OutWritten = None,
      OutResult = Inr \<lparr>ResSessionID = ''k'', ResKind = ResultKindResult, ResResult = Some [],
                       ResClarification = None\<rparr>\<rparr>"

text \<open>What a state holds of the task: its rows, the engine, the jobs and the number of readings.\<close>

definition demo_state :: "Service \<Rightarrow> NodeRun list \<Rightarrow> Engine \<Rightarrow> Job list \<Rightarrow> nat \<Rightarrow> bool" where
  "demo_state s runs e jobs tick \<longleftrightarrow>
     svStore s = demo_rows runs \<and> svEngine s = e \<and> svJobs s = jobs \<and> svTick s = tick \<and>
     svConfigs s = [''t'' \<mapsto> demo_config] \<and> svShutdownReason s = []"

text \<open>A row read back has a trigger, the zero one when it was written without any.\<close>

definition demo_read :: "NodeRun \<Rightarrow> NodeRun" where
  "demo_read run = run\<lparr>Trigger := Some \<lparr>TrigRunID = [], TrigReason = []\<rparr>\<rparr>"

section \<open>What the handlers compute on the way\<close>

lemma plain_txt:
  "trim_space ''d'' = ''d''" "trim_space ''a'' = ''a''" "trim_space ''p'' = ''p''" "trim_space ''/w'' = ''/w''"
  "\<not> is_blank ''/w''" "is_blank []" "is_blank ''a'' = False" "is_blank ''b'' = False"
  by (simp_all add: trim_space_plain go_spaces_def is_blank_def)

lemma entry_demo: "entry_run ''a'' ''t'' demo_config 0 = demo_entry"
  by (simp add: entry_run_def demo_entry_def demo_simps initialStatus_def Let_def)

lemma demo_types:
  "DefType (node_definition demo_config ''plan'') = NodeTypeAgent"
  "DefType (node_definition demo_config ''approve'') = NodeTypeHuman"
  "DefType (node_definition demo_config ''done'') = NodeTypeTerminal"
  "initialStatus (node_definition demo_config ''approve'') = NodeRunAwaitingUser"
  by (simp_all add: initialStatus_def demo_simps)

lemma plan_answer: "ValidateValue plain_env (Some (ResultSchema (node_definition demo_config ''plan''))) (VMap []) = None"
  by (simp add: demo_simps ValidateValue_def validateValue.simps)

lemma plan_execution:
  "ResolveNodeExecution plain_env (Some demo_config) ''plan'' =
     Inr \<lparr>ExecRuntime = ''codex'', ExecModel = [], ExecThinkingLevel = []\<rparr>"
  by (simp add: ResolveNodeExecution_def demo_simps overlay_def Let_def blank_codex IsSupportedRuntime_def
      supported_runtimes_def)

lemmas replay_eval =
  DeriveBlockedSteps_def run_before_def replay_run_def replay_register_def init_replay_def engine_simps
  close_step_def closed_key_def IsManualContinueReason_def IsManualRetryReason_def reason_defs
  List.map_filter_def demo_simps diamond_simps exceedsIterations_def MaxIterationsForNode_def map_del_def

lemmas row_eval = demo_read_def demo_entry_def demo_ended_def demo_asked_def

lemma nothing_blocked:
  "DeriveBlockedSteps plain_env demo_config [demo_read demo_entry] = Inr []"
  "DeriveBlockedSteps plain_env demo_config [demo_read demo_ended] = Inr []"
  "DeriveBlockedSteps plain_env demo_config [demo_read demo_ended, demo_asked] = Inr []"
  by (simp_all add: replay_eval row_eval)

lemma ended_resolves:
  "ResolveCompletion plain_env (RegisterEntryRun New ''t'' demo_entry) demo_config ''t'' [demo_read demo_ended] demo_ended =
     (Inr \<lparr>Transitions = [\<lparr>TransTo = ''approve'', TransReason = ''edge: plan -> approve'', TransToken = ''a'',
             TransTrigger = \<lparr>TrigRunID = ''a'', TrigReason = ''edge: plan -> approve''\<rparr>\<rparr>],
           Blocked = [], TaskDone = False\<rparr>, RegisterEntryRun New ''t'' demo_entry)"
  by (simp add: replay_eval row_eval fun_upd_idem)

lemma ended_rebuilt:
  "rebuildEngineState ''t'' [demo_read demo_ended] (RegisterEntryRun New ''t'' demo_entry) =
     RegisterEntryRun New ''t'' demo_entry"
  by (auto simp: rebuildEngineState_def register_all_def engine_simps row_eval fun_eq_iff)

lemmas demo_facts =
  nothing_blocked [unfolded row_eval, simplified] ended_resolves [unfolded row_eval, simplified]
  ended_rebuilt [unfolded row_eval, simplified] entry_demo demo_types plan_answer plan_execution plain_txt

lemmas demo_eval =
  step_eval command_eval store_eval demo_facts demo_rt_def demo_uuid_def plain_store_env_def
  demo_state_def demo_rows_def demo_record_def

section \<open>The steps of the task\<close>

lemma demo_starts:
  "\<exists>s. run_command 20 demo_rt (CommandStartTask ''d'' ''a'' ''p'' ''/w'' False []) empty_service = (Inr (), s) \<and>
     demo_state s [demo_entry] (RegisterEntryRun New ''t'' demo_entry) [demo_job] 14"
  by (simp add: demo_eval empty_service_def empty_store_def demo_job_def row_eval cong: bind_weak)

lemma demo_continues:
  assumes "demo_state s [demo_ended] (RegisterEntryRun New ''t'' demo_entry) jobs 25"
  shows "\<exists>s'. afterNodeCompletedInternal (Suc n) demo_rt True demo_record demo_config demo_ended s = (Inr (), s') \<and>
     demo_state s' [demo_ended, demo_asked]
       (RegisterTriggeredRun (RegisterEntryRun New ''t'' demo_entry) ''t'' demo_asked ''a'') jobs 40"
  using assms by (simp add: demo_eval row_eval cong: bind_weak)

lemma demo_agent_ends:
  assumes "demo_state s [demo_entry] (RegisterEntryRun New ''t'' demo_entry) jobs 14"
  shows "\<exists>s'. run_job 20 demo_rt demo_job demo_outcome s = (Inr (), s') \<and>
     demo_state s' [demo_ended, demo_asked]
       (RegisterTriggeredRun (RegisterEntryRun New ''t'' demo_entry) ''t'' demo_asked ''a'') jobs 40"
proof -
  let ?s = "s\<lparr>svStore := demo_rows [demo_ended], svTick := 25\<rparr>"
  have "demo_state ?s [demo_ended] (RegisterEntryRun New ''t'' demo_entry) jobs 25"
    using assms by (simp add: demo_state_def)
  from demo_continues [OF this, of 19] obtain s' where
    "afterNodeCompletedInternal 20 demo_rt True demo_record demo_config demo_ended ?s = (Inr (), s')"
    and s': "demo_state s' [demo_ended, demo_asked]
       (RegisterTriggeredRun (RegisterEntryRun New ''t'' demo_entry) ''t'' demo_asked ''a'') jobs 40"
    by (auto simp del: afterNodeCompletedInternal.simps)
  then have "run_job 20 demo_rt demo_job demo_outcome s = (Inr (), s')"
    using assms
    by (simp add: agent_eval demo_eval row_eval demo_job_def demo_outcome_def cong: bind_weak)
  with s' show ?thesis by blast
qed

end
