(* ===== verification/Reachable.thy ===== *)
theory Reachable
  imports Completion RuntimeDemo
begin

text \<open>
  The commands, the progress and the end of agent runs, and the recovery at start-up keep the
  invariant of Topology, so that it holds in every state the service reaches.
\<close>

section \<open>Input of the user\<close>

lemma GetTask_id: "GetTask st t = Inr task \<Longrightarrow> TaskID task = t"
  by (auto simp: GetTask_def find_Some_iff split: option.splits)

lemma GetNodeRun_known: "GetNodeRun (svStore s) i = Inr run \<Longrightarrow> known run s"
  by (auto simp: GetNodeRun_def find_Some_iff row_known split: option.splits dest: nth_mem)

lemma sound_GetTask: "sound env b base (query env (\<lambda>st. GetTask st t)) (\<lambda>task s. TaskID task = t)"
  by (rule rt.keeps_mono [OF rt.keeps_query grows_refl]) (rule GetTask_id)

lemma sound_GetNodeRun: "sound env b base (query env (\<lambda>st. GetNodeRun st i)) known"
  by (rule rt.keeps_mono [OF rt.keeps_query grows_refl]) (rule GetNodeRun_known)

lemma sound_submitInput:
  assumes "b \<Longrightarrow> fueled env fuel"
  shows "sound env b base (submitInput fuel env taskID nodeRunID payload attachments) anything"
  unfolding submitInput_def Let_def
proof (rule rt.keeps_bind [OF sound_GetTask], rule rt.keeps_bind [OF rt.keeps_load_config],
    rule rt.keeps_bind [OF sound_GetNodeRun], rule rt.keeps_guard, rule rt.keeps_guard,
    rule rt.keeps_skip [OF quiet_reading], rule rt.keeps_if)
  fix task :: Task and s0 cfg s1 run s2 now
  assume s: "TaskID task = taskID" "svConfigs s1 (TaskID task) = Some cfg" "grows s1 s2" "known run s2"
    "RunTaskID run = taskID"
  have "svConfigs s2 (TaskID task) = Some cfg" by (rule config_grows [OF s(2,3)])
  with s have here: "placed s2 task cfg run" by (simp add: placed_def)
  let ?def = "node_definition cfg (NodeName run)"
  show "sound env b s2 (case ValidateValue (rtGo env) (Some (ResultSchema ?def)) (VMap payload) of
           Some err \<Rightarrow> fail (PayloadInvalid err)
         | None \<Rightarrow>
             bind (list_runs env taskID) (\<lambda>runs.
             andThen (persistImageAttachments env attachments)
             (bind (materializeHumanNodeArtifact env task run payload now) (\<lambda>result.
              andThen (save_run env (run\<lparr>Result := Some result, Status := NodeRunDone, FailureReason := [],
                            CompletedAt := Some now\<rparr>))
                   (afterNodeCompletedInternal fuel env True task cfg (run\<lparr>Result := Some result,
                      Status := NodeRunDone, FailureReason := [], CompletedAt := Some now\<rparr>)))))) anything"
    by (intro rt.keeps_option rt.keeps_fail rt.keeps_skip [OF quiet_list_runs] rt.keeps_skip [OF quiet_images]
        rt.keeps_skip [OF quiet_human_artifact] rt.keeps_bind0 [OF sound_save_known] sound_completed assms)
      (use here s(4) in simp_all)
  show "sound env b s2 (case rev (Clarifications run) of
           [] \<Rightarrow> fail NoClarificationRequested
         | latest # _ \<Rightarrow>
             bind (list_runs env taskID) (\<lambda>runs.
             bind (from_sum AnswersRejected (parseClarificationResponse (Request latest) payload)) (\<lambda>response.
             andThen (write_input env (run\<lparr>Clarifications := answer_latest (Clarifications run) response now\<rparr>))
             (andThen (save_run env (run\<lparr>Clarifications := answer_latest (Clarifications run) response now,
                  Status := NodeRunRunning, FailureReason := []\<rparr>))
              (bind (refreshTaskView env (TaskID task)) (\<lambda>view.
               andThen (publish ((run_event EventNodeStarted (TaskID task)
                  (run\<lparr>Clarifications := answer_latest (Clarifications run) response now,
                  Status := NodeRunRunning, FailureReason := []\<rparr>))\<lparr>EvView := Some view\<rparr>))
                 (runAgentNodeAsync task cfg (run\<lparr>Clarifications := answer_latest (Clarifications run) response now,
                  Status := NodeRunRunning, FailureReason := []\<rparr>)))))))) anything"
    by (intro rt.keeps_list rt.keeps_fail rt.keeps_skip [OF quiet_list_runs] rt.keeps_skip [OF quiet_from_sum]
        rt.keeps_skip [OF quiet_write_input] rt.keeps_bind0 [OF sound_save_known]
        rt.keeps_skip [OF quiet_refreshTaskView] rt.keeps_skip [OF quiet_publish] sound_job)
      (use here s(4) in simp_all)
qed simp_all

section \<open>Retry and continue\<close>

lemma target_run:
  assumes "RecoveryTargetForTask cfg runs steps = Some target" "TargetRun target = Some run"
  shows "run \<in> set runs"
  using assms
  by (auto simp: RecoveryTargetForTask_def failedRunRecoveryTarget_def blockedStepRecoveryTarget_def Let_def
      latest_failed_agent_def LatestOpenFailedRun_def find_Some_iff split: option.splits if_splits dest: nth_mem)
    (metis length_rev nth_mem set_rev)+

lemma target_step:
  assumes "RecoveryTargetForTask cfg runs steps = Some target" "TargetStep target = Some step"
  shows "step \<in> set steps"
  using assms
  by (auto simp: RecoveryTargetForTask_def failedRunRecoveryTarget_def blockedStepRecoveryTarget_def Let_def
      LatestBlockedStep_Some split: option.splits if_splits)

definition recovery_known :: "rt_env \<Rightarrow> string \<Rightarrow> Task \<times> Config \<times> NodeRun list \<times> RecoveryTarget option \<Rightarrow> Service \<Rightarrow> bool" where
  "recovery_known env t x s \<longleftrightarrow>
     (case x of (task, cfg, runs, target) \<Rightarrow>
        TaskID task = t \<and> svConfigs s t = Some cfg \<and> set runs \<subseteq> task_runs s t \<and>
        (\<exists>steps. DeriveBlockedSteps (rtGo env) cfg runs = Inr steps \<and>
           target = RecoveryTargetForTask cfg runs steps))"

lemma sound_recovery_target:
  "sound env b base (recovery_target env t) (recovery_known env t)"
  unfolding recovery_target_def
proof (rule rt.keeps_bind [OF sound_GetTask], rule rt.keeps_bind [OF rt.keeps_load_config],
    rule rt.keeps_bind [OF rt.keeps_list_runs])
  fix task :: Task and s0 cfg s1 runs s2
  assume s: "TaskID task = t" "svConfigs s1 (TaskID task) = Some cfg" "grows s1 s2"
    "runs = ListNodeRunsByTask (svStore s2) t"
  have cfg: "svConfigs s2 t = Some cfg" using config_grows s by metis
  have runs: "set runs \<subseteq> task_runs s2 t" using list_runs_known s(4) by (auto simp: task_runs_def)
  show "sound env b s2 (bind (from_sum DeriveFailure (DeriveBlockedSteps (rtGo env) cfg runs))
    (\<lambda>blockedSteps. ret (task, cfg, runs, RecoveryTargetForTask cfg runs blockedSteps))) (recovery_known env t)"
  proof (rule rt.keeps_bind [OF rt.keeps_from_sum [where Q = "\<lambda>x _. DeriveBlockedSteps (rtGo env) cfg runs = Inr x"]])
    fix steps s3
    assume s3: "grows s2 s3" "DeriveBlockedSteps (rtGo env) cfg runs = Inr steps"
    show "sound env b s3 (ret (task, cfg, runs, RecoveryTargetForTask cfg runs steps)) (recovery_known env t)"
    proof (rule rt.keeps_ret)
      fix s4
      assume "grows s3 s4"
      then have g: "grows s2 s4" by (rule grows_trans [OF s3(1)])
      show "recovery_known env t (task, cfg, runs, RecoveryTargetForTask cfg runs steps) s4"
        using s(1) s3(2) config_grows [OF cfg g] runs task_runs_grows [OF g, of t]
        by (auto simp: recovery_known_def)
    qed
  qed simp_all
qed

lemma follows_manual:
  assumes "q \<in> R" "RunID q = source"
    and "has_edge cfg (NodeName q) node \<or> IsManualRetryReason reason \<and> NodeName q = node"
  shows "follows cfg R (manual_run task cfg u node source reason now)"
  using assms by (auto simp: follows_def trig_of_def manual_run_def)

text \<open>A manual run that follows the topology, saved, registered and started.\<close>

lemma sound_launch:
  assumes "svConfigs base (TaskID task) = Some cfg" "b \<Longrightarrow> fueled env fuel"
    and "\<And>u now. follows cfg (task_runs base (TaskID task)) (manual_run task cfg u node source reason now)"
  shows "sound env b base (bind (reading (rtClock env)) (\<lambda>now. bind (reading (rtUUID env)) (\<lambda>runID.
     launch_run fuel env task cfg runs source (manual_run task cfg runID node source reason now)))) anything"
  unfolding launch_run_def
proof (rule rt.keeps_skip [OF quiet_reading], rule sound_new_run)
  fix now u s
  assume s: "grows base s" "known (manual_run task cfg u node source reason now) s"
  let ?run = "manual_run task cfg u node source reason now"
  have "placed s task cfg ?run"
    using s(2) config_grows [OF assms(1) s(1)] by (simp add: placed_def manual_run_def)
  then have "sound env b s (startNode fuel env task cfg ?run) anything"
    using assms(2) by (rule sound_startNode)
  then show "sound env b s
    (andThen (update_engine (\<lambda>e. if HasRun e source then e else rebuildEngineState (TaskID task) runs e))
      (andThen (update_engine (\<lambda>e. RegisterTriggeredRun e (TaskID task) ?run source))
        (startNode fuel env task cfg ?run))) anything"
    by (intro rt.keeps_bind0 [OF sound_engine]) simp_all
qed (use assms in \<open>simp_all add: manual_run_def\<close>)

lemma sound_retryNode:
  assumes "b \<Longrightarrow> fueled env fuel"
  shows "sound env b base (retryNode fuel env taskID failedRunID force) anything"
  unfolding retryNode_def
proof (rule rt.keeps_bind [OF sound_recovery_target], rule rt.keeps_prod, rule rt.keeps_prod, rule rt.keeps_prod,
    rule rt.keeps_option)
  fix x s task y cfg z runs target t
  assume x: "recovery_known env taskID x s" "x = (task, y)" "y = (cfg, z)" "z = (runs, target)" "target = Some t"
  then obtain steps where k: "TaskID task = taskID" "svConfigs s (TaskID task) = Some cfg"
    "set runs \<subseteq> task_runs s (TaskID task)" "RecoveryTargetForTask cfg runs steps = Some t"
    by (auto simp: recovery_known_def)
  show "sound env b s (retryFailedRun fuel env task cfg runs t failedRunID force) anything"
    unfolding retryFailedRun_def
  proof (intro rt.keeps_guard rt.keeps_option rt.keeps_fail sound_launch k(2) assms)
    fix run u now
    assume run: "TargetRun t = Some run"
    have "run \<in> task_runs s (TaskID task)" using target_run [OF k(4) run] k(3) by blast
    then show "follows cfg (task_runs s (TaskID task)) (manual_run task cfg u (NodeName run) (RunID run)
        (if force then TriggerReasonManualRetryForce else TriggerReasonManualRetry) now)"
      by (rule follows_manual) (simp_all add: IsManualRetryReason_def)
  qed simp_all
qed (simp_all add: rt.keeps_fail)

lemma sound_continueBlockedStep:
  assumes "b \<Longrightarrow> fueled env fuel"
  shows "sound env b base (continueBlockedStep fuel env taskID) anything"
  unfolding continueBlockedStep_def
proof (rule rt.keeps_bind [OF sound_recovery_target], rule rt.keeps_prod, rule rt.keeps_prod, rule rt.keeps_prod,
    rule rt.keeps_option)
  fix x s task y cfg z runs target t
  assume s: "good env s"
  assume x: "recovery_known env taskID x s" "x = (task, y)" "y = (cfg, z)" "z = (runs, target)" "target = Some t"
  then obtain steps where k: "TaskID task = taskID" "svConfigs s (TaskID task) = Some cfg"
    "set runs \<subseteq> task_runs s (TaskID task)" "DeriveBlockedSteps (rtGo env) cfg runs = Inr steps"
    "RecoveryTargetForTask cfg runs steps = Some t"
    by (auto simp: recovery_known_def)
  show "sound env b s (case TargetStep t of
            None \<Rightarrow> fail NothingToContinue
          | Some step \<Rightarrow>
              andThen (guard (TargetKind t = RecoveryTargetBlockedStep) NothingToContinue)
              (case StepTrigger step of
                 None \<Rightarrow> fail StepWithoutTrigger
               | Some trigger \<Rightarrow>
                   bind (reading (rtClock env)) (\<lambda>now.
                   bind (reading (rtUUID env)) (\<lambda>runID.
                   launch_run fuel env task cfg runs (TrigRunID trigger)
                     (manual_run task cfg runID (StepNode step) (TrigRunID trigger)
                        TriggerReasonManualContinueForce now))))) anything"
  proof (intro rt.keeps_guard rt.keeps_option rt.keeps_fail sound_launch k(2) assms)
    fix step trigger u now
    assume step: "TargetStep t = Some step" "StepTrigger step = Some trigger"
    have "env_ok (rtGo env)" using s by (simp add: good_def rt_env_ok_def)
    from DeriveBlockedSteps_from [OF k(4) this target_step [OF k(5) step(1)]] step(2) obtain q where
      "q \<in> set runs" "RunID q = TrigRunID trigger" "has_edge cfg (NodeName q) (StepNode step)"
      by (auto simp: step_from_def comes_from_def)
    with k(3) show "follows cfg (task_runs s (TaskID task)) (manual_run task cfg u (StepNode step)
        (TrigRunID trigger) TriggerReasonManualContinueForce now)"
      by (intro follows_manual [of q]) auto
  qed simp_all
qed (simp_all add: rt.keeps_fail)

section \<open>Starting tasks\<close>

lemma bind_cases:
  assumes "bind m f s = (r, s')"
  obtains e where "m s = (Inl e, s')" "r = Inl e" | x s1 where "m s = (Inr x, s1)" "f x s1 = (r, s')"
  using assms that by (auto simp: bind_def split: prod.splits sum.splits)

lemma insert_rows_keys:
  assumes "insert_rows env parent task run st = Inr st'" "RunID run \<notin> RunID ` set (node_runs st)"
  shows "run_keys st' = insert (run_key run) (run_keys st)"
proof -
  have attach: "attachFollowUpParent p c at st1 = Inr st2 \<Longrightarrow> node_runs st2 = node_runs st1" for p c at st1 st2
    by (auto simp: attachFollowUpParent_def insert_edge_def Let_def split: if_splits)
  have create: "createTask task st1 = Inr st2 \<Longrightarrow> node_runs st2 = node_runs st1" for st1 st2
    by (auto simp: createTask_def split: if_splits)
  have "\<exists>st1. node_runs st1 = node_runs st \<and> saveNodeRun (rtStore env) run (TaskUpdatedAt task) st1 = Inr st'"
    using assms(1) attach create
    by (fastforce simp: insert_rows_def CreateTaskWithEntryRun_def CreateFollowUpTaskAtomic_def and_store_Inr
        split: if_splits)
  then obtain st1 where st1: "node_runs st1 = node_runs st"
    "saveNodeRun (rtStore env) run (TaskUpdatedAt task) st1 = Inr st'" by blast
  then have "run_keys st' = insert (run_key run) (run_keys st1)" using assms(2) by (intro save_new) simp_all
  with st1(1) show ?thesis by (simp add: run_keys_def)
qed

lemma insert_rows_inv:
  assumes "insert_rows env parent task run st = Inr st'" "store_inv st" "plain_id (TaskID task)"
  shows "store_inv st'"
proof -
  have "store_step (rtStore env) st st'"
    using assms(1,3) by (auto simp: insert_rows_def intro: step_createWithRun step_createFollowUp split: if_splits)
  then show ?thesis using assms(2) by (rule inv_step)
qed

lemma commit_task_cases:
  assumes prep: "quiet (prepare t workDir)"
    and m: "commit_task env parent description alias path workDir attachments prepare t now cfg s = (r, s')"
  obtains e where "r = Inl e" "e \<noteq> OutOfFuel" "same s s'"
  | task m st' s1 where "r = Inr (task, cfg, entry_run (rtUUID env m) t cfg now)" "TaskID task = t"
      "svTick s \<le> m" "m < svTick s1" "same s s1"
      "insert_rows env parent task (entry_run (rtUUID env m) t cfg now) (svStore s) = Inr st'"
      "s' = s1\<lparr>svStore := st'\<rparr>"
  using m unfolding commit_task_def Let_def
proof (cases rule: bind_cases)
  case (1 e)
  with quietD [OF prep] that(1) show ?thesis by blast
next
  case (2 dir s1)
  note s1 = quietD [OF prep 2(1)]
  let ?task = "\<lparr>TaskID = t, TaskDescription = description, ConfigAlias = alias, ConfigPath = path,
      WorkDir = workDir, ExecutionDir = dir, TaskCreatedAt = now, TaskUpdatedAt = now\<rparr>"
  let ?run = "entry_run (rtUUID env (svTick s1)) t cfg now"
  let ?s1 = "s1\<lparr>svTick := svTick s1 + 1\<rparr>"
  from 2(2) have "andThen (persistImageAttachments env attachments)
      (andThen (execute env (insert_rows env parent ?task ?run)) (ret (?task, cfg, ?run))) ?s1 = (r, s')"
    by (simp add: bind_def [of "reading (rtUUID env)"] reading_def)
  then show ?thesis
  proof (cases rule: bind_cases)
    case (1 e)
    with quietD [OF quiet_images 1(1)] s1 have "same s s'" "e \<noteq> OutOfFuel" by (auto simp: same_def)
    with 1(2) that(1) show ?thesis by blast
  next
    case (2 x s2)
    note s2 = quietD [OF quiet_images 2(1)]
    from s1 s2 have ss2: "same s s2" "svTick s \<le> svTick s1" "svTick s1 < svTick s2" by (auto simp: same_def)
    from 2(2) show ?thesis
    proof (cases rule: bind_cases)
      case (1 e)
      from 1(1) show ?thesis
      proof (cases rule: execute_cases)
        case (1 e')
        with same_trans [OF ss2(1) 1(2)] that(1) \<open>r = Inl e\<close> show ?thesis by simp
      qed simp
    next
      case (2 y s3)
      from 2(1) show ?thesis
      proof (cases rule: execute_cases)
        case (2 u st')
        have "svStore s2 = svStore s" using ss2(1) by (simp add: same_def)
        moreover have "r = Inr (?task, cfg, ?run)" "s' = s3" using \<open>ret _ s3 = (r, s')\<close> by (auto simp: ret_def)
        moreover have "svTick s1 < svTick u" using 2(2) ss2(3) by (simp add: same_def)
        ultimately show ?thesis
          using that(2) [of ?task "svTick s1" u st'] 2 ss2 same_trans [OF ss2(1) 2(2)] by simp
      qed simp
    qed
  qed
qed

abbreviation drop_config :: "string \<Rightarrow> unit rt" where
  "drop_config t \<equiv> update_state (\<lambda>s. s\<lparr>svConfigs := (svConfigs s)(t := None)\<rparr>)"

text \<open>A failed creation leaves no trace, a successful one a config, a task and its entry run.\<close>

lemma create_task_cases:
  assumes prep: "quiet (prepare t workDir)" and new: "svConfigs s t = None"
    and m: "on_error (drop_config t)
      (create_task env parent description alias path workDir attachments prepare t now) s = (r, s')"
  obtains e where "r = Inl e" "e \<noteq> OutOfFuel" "same s s'"
  | task cfg m st' s1 n w i p where "r = Inr (task, cfg, entry_run (rtUUID env m) t cfg now)" "TaskID task = t"
      "rtMaterialize env n w i p = Inr cfg" "svTick s \<le> m" "m < svTick s1"
      "same (s\<lparr>svConfigs := (svConfigs s)(t \<mapsto> cfg)\<rparr>) s1"
      "insert_rows env parent task (entry_run (rtUUID env m) t cfg now) (svStore s) = Inr st'"
      "s' = s1\<lparr>svStore := st'\<rparr>"
proof -
  obtain r1 s1 where c: "create_task env parent description alias path workDir attachments prepare t now s = (r1, s1)"
    by (cases "create_task env parent description alias path workDir attachments prepare t now s")
  note fails = that(1)
  have reset: "(svConfigs s)(t := None) = svConfigs s" using new by (auto simp: fun_eq_iff)
  have failed: "thesis" if "r1 = Inl e" "e \<noteq> OutOfFuel" "svStore s1 = svStore s" "svEngine s1 = svEngine s"
    "svJobs s1 = svJobs s" "svTick s \<le> svTick s1" "(svConfigs s1)(t := None) = svConfigs s" for e
  proof -
    from m c that(1) have "r = Inl e" "s' = s1\<lparr>svConfigs := (svConfigs s1)(t := None)\<rparr>"
      by (auto simp: on_error_def attempt_def bind_def update_state_def fail_def)
    with that show thesis by (intro fails [of e]) (auto simp: same_def)
  qed
  show thesis
  proof (cases "trim_space alias = [] \<or> trim_space path = []")
    case True
    with c have "s1 = s" "r1 = Inl (if trim_space alias = [] then AliasRequired else PathRequired)"
      by (cases "trim_space alias = []"; auto simp: create_task_def Let_def guard_def bind_def ret_def fail_def)+
    then show thesis by (intro failed) (auto simp: reset split: if_splits)
  next
    case False
    let ?s = "s\<lparr>svTick := svTick s + 1\<rparr>"
    from False have eq: "create_task env parent description alias path workDir attachments prepare t now s =
        (case rtMaterialize env (svTick s) workDir t (trim_space path) of
           Inl msg \<Rightarrow> (Inl (ConfigRejected msg), ?s)
         | Inr cfg \<Rightarrow> commit_task env parent description (trim_space alias) (trim_space path) workDir attachments
             prepare t now cfg (?s\<lparr>svConfigs := (svConfigs s)(t \<mapsto> cfg)\<rparr>))"
      by (simp add: create_task_def Let_def guard_def bind_def ret_def fail_def reading_def update_state_def
          split: sum.splits)
    show thesis
    proof (cases "rtMaterialize env (svTick s) workDir t (trim_space path)")
      case (Inl msg)
      with c eq show thesis by (intro failed [of "ConfigRejected msg"]) (auto simp: reset)
    next
      case (Inr cfg)
      with c eq have "commit_task env parent description (trim_space alias) (trim_space path) workDir attachments
          prepare t now cfg (?s\<lparr>svConfigs := (svConfigs s)(t \<mapsto> cfg)\<rparr>) = (r1, s1)" by simp
      with prep show thesis
      proof (cases rule: commit_task_cases)
        case (1 e)
        then show thesis by (intro failed [of e]) (auto simp: same_def reset)
      next
        case (2 task m st' s2)
        with m c have "r = r1" "s' = s1" by (auto simp: on_error_def attempt_def bind_def ret_def)
        with 2 Inr that(2) [of task cfg m "svTick s" workDir t "trim_space path" s2 st'] show thesis
          by (auto simp: same_def)
      qed
    qed
  qed
qed

lemma engine_unminted: "good env s \<Longrightarrow> svConfigs s t = None \<Longrightarrow> pending (svEngine s) t = []"
  unfolding good_def engine_good_def by (metis option.simps(4))

lemma config_unminted:
  assumes "good env s" "svTick s \<le> n"
  shows "svConfigs s (rtUUID env n) = None"
proof (rule ccontr)
  assume "svConfigs s (rtUUID env n) \<noteq> None"
  then obtain cfg where "svConfigs s (rtUUID env n) = Some cfg" by auto
  with assms obtain i where "i < svTick s" "rtUUID env n = rtUUID env i"
    unfolding good_def configs_good_def minted_def by blast
  with assms show False by (auto simp: good_def rt_env_ok_def dest: injD)
qed

text \<open>A new task with its config, before its rows.\<close>

lemma good_new_config:
  assumes "good env s" "svConfigs s t = None" "t = rtUUID env i" "svTick s \<le> i" "i < n"
    and "rtMaterialize env k w j p = Inr cfg"
  shows "good env (s\<lparr>svConfigs := (svConfigs s)(t \<mapsto> cfg), svTick := n\<rparr>)" (is "good env ?s")
proof -
  have g: "grows s ?s" using assms by (auto simp: grows_def map_le_def)
  have k: "known q ?s = known q s" for q by (simp add: known_def)
  then have tr: "task_runs ?s = task_runs s" by (auto simp: task_runs_def)
  have min: "minted env u s \<Longrightarrow> minted env u ?s" for u by (rule minted_grows [OF _ g])
  have "runs_good env ?s"
    using assms(1) min unfolding good_def runs_good_def k tr by (auto split: if_splits dest!: spec) (use assms(2) in auto)
  moreover have "configs_good env ?s"
  proof -
    have "minted env t ?s" using assms(3,5) by (auto simp: minted_def)
    then show ?thesis using assms(1,6) min by (auto simp: good_def configs_good_def)
  qed
  moreover have "engine_good ?s"
    unfolding engine_good_def
  proof
    fix t'
    show "case svConfigs ?s t' of None \<Rightarrow> pending (svEngine ?s) t' = []
        | Some c \<Rightarrow> genuine c (task_runs ?s t') (pending (svEngine ?s) t')"
    proof (cases "t' = t")
      case True
      with engine_unminted [OF assms(1,2)] show ?thesis by simp
    next
      case False
      have "case svConfigs s t' of None \<Rightarrow> pending (svEngine s) t' = []
        | Some c \<Rightarrow> genuine c (task_runs s t') (pending (svEngine s) t')"
        using assms(1) unfolding good_def engine_good_def by blast
      with False show ?thesis by (cases "svConfigs s t'") (simp_all add: tr)
    qed
  qed
  moreover have "jobs_good ?s" by (rule jobs_grows [OF _ g]) (use assms(1) in \<open>auto simp: good_def\<close>)
  ultimately show ?thesis using assms(1) by (simp add: good_def)
qed

lemma sound_create:
  assumes prep: "\<And>t. quiet (prepare t workDir)"
    and rest: "\<And>t task cfg run s. grows base s \<Longrightarrow> good env s \<Longrightarrow> placed s task cfg run \<Longrightarrow> TaskID task = t \<Longrightarrow>
      sound env b s (rest t (task, cfg, run)) Q"
  shows "sound env b base (bind (reading (rtUUID env)) (\<lambda>t. bind (reading (rtClock env)) (\<lambda>now.
    bind (on_error (drop_config t)
      (create_task env parent description alias path workDir attachments prepare t now)) (rest t)))) Q"
proof (rule rt.keepsI)
  fix s r s'
  assume s: "good env s" "grows base s"
    and m: "bind (reading (rtUUID env)) (\<lambda>t. bind (reading (rtClock env)) (\<lambda>now.
      bind (on_error (drop_config t)
        (create_task env parent description alias path workDir attachments prepare t now)) (rest t))) s = (r, s')"
  define t where "t = rtUUID env (svTick s)"
  let ?s = "s\<lparr>svTick := svTick s + 2\<rparr>"
  let ?now = "rtClock env (svTick s + 1)"
  have ss: "same s ?s" by (simp add: same_def)
  have new: "svConfigs ?s t = None" using config_unminted [OF s(1), of "svTick s"] by (simp add: t_def)
  from m have "bind (on_error (drop_config t)
      (create_task env parent description alias path workDir attachments prepare t ?now)) (rest t) ?s = (r, s')"
    by (simp add: bind_def [of "reading _"] reading_def t_def)
  then show "good env s' \<and> grows s s' \<and> (case r of Inl e \<Rightarrow> b \<longrightarrow> e \<noteq> OutOfFuel | Inr x \<Rightarrow> Q x s')"
  proof (cases rule: bind_cases)
    case (1 e)
    note e = 1(2)
    from prep new 1(1) show ?thesis
    proof (cases rule: create_task_cases)
      case (1 e')
      with same_trans [OF ss 1(3)] e s(1) show ?thesis by (auto simp: grows_same intro: good_same)
    qed simp
  next
    case (2 x s1)
    note rest_eq = 2(2)
    from prep new 2(1) show ?thesis
    proof (cases rule: create_task_cases)
      case (2 task cfg m st' u n w i p)
      let ?run = "entry_run (rtUUID env m) t cfg ?now"
      let ?mid = "s\<lparr>svConfigs := (svConfigs s)(t \<mapsto> cfg), svTick := m\<rparr>"
      have run: "RunID ?run = rtUUID env m" "RunTaskID ?run = t" by (simp_all add: entry_run_def Let_def)
      have tick: "svTick s < m" using 2(4) by simp
      have plain: "plain_id t" using s(1) by (simp add: good_def rt_env_ok_def t_def)
      have unused: "RunID q \<noteq> rtUUID env m" if "q \<in> set (node_runs (svStore s))" for q
        using unminted [OF s(1) row_known [OF that]] tick by simp
      then have "RunID ?run \<notin> RunID ` set (node_runs (svStore s))" unfolding run(1) by (metis imageE)
      with 2(7) have keys: "run_keys st' = insert (run_key ?run) (run_keys (svStore s))"
        by (intro insert_rows_keys) simp_all
      have inv: "store_inv st'"
        using insert_rows_inv [OF 2(7)] s(1) 2(2) plain by (simp add: good_def)
      have mid: "good env ?mid"
        by (rule good_new_config [OF s(1) _ t_def order_refl tick 2(3)]) (use new in simp)
      have sc: "same (?s\<lparr>svConfigs := (svConfigs ?s)(t \<mapsto> cfg)\<rparr>) u" by (rule 2(6))
      have g1: "good env s1"
      proof (rule good_new_run [OF mid, of s1 ?run cfg])
        show "minted env (RunID ?run) s1"
          unfolding minted_def run(1) by (rule exI [of _ m]) (simp add: 2(5,8))
        show "follows cfg (task_runs ?mid (RunTaskID ?run)) ?run"
          by (simp add: follows_def trig_of_def entry_run_def Let_def)
      qed (use 2(5,8) sc keys inv run in \<open>auto simp: same_def\<close>)
      have grow: "grows s s1"
        using keys 2(8) sc new by (auto simp: grows_def same_def map_le_def)
      have "placed s1 task cfg ?run"
        using 2(2,8) sc keys run by (simp add: placed_def known_def same_def)
      then have "sound env b s1 (rest t (task, cfg, ?run)) Q"
        by (intro rest grows_trans [OF s(2) grow] g1 2(2))
      moreover have "rest t (task, cfg, ?run) s1 = (r, s')" using rest_eq 2(1) by simp
      ultimately show ?thesis using rt.keepsD [OF _ g1 grows_refl] grows_trans [OF grow] by blast
    qed simp
  qed
qed

lemma sound_startTaskWithExecution:
  assumes "\<And>t w. quiet (prepare t w)" "b \<Longrightarrow> fueled env fuel"
  shows "sound env b base
    (startTaskWithExecution fuel env parent description alias path dir attachments prepare) anything"
  unfolding startTaskWithExecution_def
proof (rule sound_create)
  fix t task cfg run s
  assume here: "placed s task cfg run"
  show "sound env b s (case (task, cfg, run) of (task, cfg, nodeRun) \<Rightarrow>
     bind (attempt (LoadTaskView env t)) (\<lambda>loaded.
     let view = (case loaded of
                   Inr (view, _) \<Rightarrow> view
                 | Inl _ \<Rightarrow> \<lparr>LvView = DeriveTaskView task cfg [nodeRun] [], LvParentTaskID = [],
                            LvParentDescription = []\<rparr>)
     in
     andThen (publish ((event EventTaskCreated t)\<lparr>EvView := Some view\<rparr>))
     (andThen (update_engine (\<lambda>e. RegisterEntryRun e t nodeRun))
     (bind (attempt (startNode fuel env task cfg nodeRun)) (\<lambda>started.
      case started of
        Inr () \<Rightarrow> ret ()
      | Inl OutOfFuel \<Rightarrow> fail OutOfFuel
      | Inl e \<Rightarrow> failRun env task cfg nodeRun (reported_as env e)))))) anything"
    unfolding Let_def prod.case
  proof (intro rt.keeps_skip [OF quiet_attempt [OF quiet_LoadTaskView]] rt.keeps_skip [OF quiet_publish]
      rt.keeps_bind0 [OF sound_engine [OF pending_register(1)]])
    fix loaded
    have known: "known run s" using here by (simp add: placed_def)
    show "sound env b s (bind (attempt (startNode fuel env task cfg run)) (\<lambda>started.
      case started of
        Inr () \<Rightarrow> ret ()
      | Inl OutOfFuel \<Rightarrow> fail OutOfFuel
      | Inl e \<Rightarrow> failRun env task cfg run (reported_as env e))) anything"
    proof (rule rt.keeps_bind [OF rt.keeps_attempt [OF sound_startNode [OF here assms(2)]]])
      fix started :: "rt_error + unit" and s1
      assume s1: "grows s s1" "case started of Inl e \<Rightarrow> b \<longrightarrow> e \<noteq> OutOfFuel | Inr x \<Rightarrow> True"
      have fails: "sound env b s1 (failRun env task cfg run err) anything" for err
        by (rule sound_failRun [OF known_grows [OF known s1(1)]])
      show "sound env b s1 (case started of
        Inr () \<Rightarrow> ret ()
      | Inl OutOfFuel \<Rightarrow> fail OutOfFuel
      | Inl e \<Rightarrow> failRun env task cfg run (reported_as env e)) anything"
      proof (cases started)
        case (Inl e)
        with s1(2) fails show ?thesis by (cases e) (simp_all add: rt.keeps_fuel)
      next
        case (Inr u)
        show ?thesis unfolding Inr by (cases u) (simp only: sum.case old.unit.case rt.keeps_ret)
      qed
    qed
  qed
qed (rule assms(1))

lemma sound_startTask:
  "(b \<Longrightarrow> fueled env fuel) \<Longrightarrow>
     sound env b base (startTask fuel env description alias path workDir useWorktree attachments) anything"
  unfolding startTask_def by (rule sound_startTaskWithExecution) (rule quiet_prepare_dir)

lemma resolve_mode_error: "resolveFollowUpMode mode = Inl e \<Longrightarrow> e = UnsupportedFollowUpMode"
  by (cases mode) auto

lemma sound_startFollowUpTask:
  assumes "b \<Longrightarrow> fueled env fuel"
  shows "sound env b base (startFollowUpTask fuel env parent description alias path mode attachments) anything"
  unfolding startFollowUpTask_def Let_def
  by (intro rt.keeps_guard rt.keeps_skip [OF quiet_LoadTaskView] rt.keeps_prod rt.keeps_skip [OF quiet_from_sum]
      rt.keeps_skip [OF quiet_checkout] rt.keeps_option rt.keeps_if rt.keeps_fail rt.keeps_skip [OF quiet_ensureCheckout]
      rt.keeps_skip [OF quiet_io] sound_startTaskWithExecution quiet_rules assms)
    (auto simp: follow_up_config_def Let_def split: if_splits dest!: resolve_mode_error)

section \<open>Shutdown, progress and the end of an agent run\<close>

lemma sound_fail_runs:
  "\<forall>run\<in>set runs. known run base \<Longrightarrow> sound env b base (fail_runs env reason now runs) anything"
  unfolding fail_runs_def by (intro rt.keeps_for_each sound_save_known) simp

lemma sound_status_runs:
  "sound env b base (query env (\<lambda>st. Inr (ListNodeRunsByStatus st status))) (\<lambda>runs s. \<forall>run\<in>set runs. known run s)"
  by (rule rt.keeps_mono [OF rt.keeps_query grows_refl]) (auto simp: status_runs_known)

lemma sound_shutdown: "sound env b base (PrepareShutdown env) anything"
  unfolding PrepareShutdown_def failActiveRunningNodeRuns_def
  by (rule rt.keeps_skip [OF quiet_shutdown_reason], rule rt.keeps_bind [OF sound_status_runs],
      rule rt.keeps_skip [OF quiet_reading], rule sound_fail_runs)

lemma sound_command:
  "(b \<Longrightarrow> fueled env fuel) \<Longrightarrow> sound env b base (handleCommand fuel env cmd) anything"
  by (cases cmd)
    (simp_all add: sound_startTask sound_startFollowUpTask sound_submitInput sound_retryNode
      sound_continueBlockedStep sound_shutdown rt.keeps_fail)

lemma sound_agent_clarifies:
  "placed base task cfg run \<Longrightarrow> sound env b base (agent_clarifies env task cfg run result) anything"
  unfolding agent_clarifies_def Let_def
  by (intro rt.keeps_if sound_failRun rt.keeps_skip [OF quiet_reading] rt.keeps_option rt.keeps_fail
      rt.keeps_skip [OF quiet_write_input] rt.keeps_bind0 [OF sound_save_known] rt.keeps_skip [OF quiet_manifest]
      rt.keeps_quiet quiet_rules) (simp_all add: placed_def)

lemma sound_agent_returns:
  "placed base task cfg run \<Longrightarrow> (b \<Longrightarrow> fueled env fuel) \<Longrightarrow>
     sound env b base (agent_returns fuel env task cfg run result) anything"
  unfolding agent_returns_def Let_def
  by (intro rt.keeps_option sound_failRun rt.keeps_bind0 [OF rt.keeps_quiet, where f = "\<lambda>_. bind _ _"] quiet_rules
      rt.keeps_skip [OF quiet_reading] rt.keeps_bind0 [OF sound_save_known] rt.keeps_skip [OF quiet_manifest]
      sound_completed) (simp_all add: placed_def)

lemma quiet_written: "quiet (update_state (\<lambda>s. case x of None \<Rightarrow> s | Some out \<Rightarrow> s\<lparr>svOutputs := f s out\<rparr>))"
  by (cases x) (simp_all add: quiet_def update_state_def same_def)

lemma sound_agent:
  assumes here: "placed base (JobTask job) (JobConfig job) (JobRun job)" and fuel: "b \<Longrightarrow> fueled env fuel"
    and err: "JobProgressErr job \<noteq> Some OutOfFuel"
  shows "sound env b base (executeAgentNode fuel env job outcome) anything"
  unfolding executeAgentNode_def Let_def
proof (intro rt.keeps_skip [OF quiet_prepare_request] rt.keeps_skip [OF quiet_written] rt.keeps_option rt.keeps_sum)
  fix e
  assume "JobProgressErr job = Some e"
  with err show "sound env b base (fail e) anything" by (auto intro: rt.keeps_fail)
next
  fix err
  show "sound env b base (failRun env (JobTask job) (JobConfig job) (JobRun job) err) anything"
    by (rule sound_failRun) (use here in \<open>simp add: placed_def\<close>)
next
  fix result :: ExecResult
  let ?run = "if ResSessionID result \<noteq> [] then JobRun job\<lparr>SessionID := ResSessionID result\<rparr> else JobRun job"
  have p: "placed base (JobTask job) (JobConfig job) ?run" using here by simp
  then have k: "known ?run base" by (simp only: placed_def)
  show "sound env b base (case ResKind result of
       ResultKindClarification \<Rightarrow> agent_clarifies env (JobTask job) (JobConfig job) ?run result
     | ResultKindResult \<Rightarrow> agent_returns fuel env (JobTask job) (JobConfig job) ?run result
     | ResultKindOther kind \<Rightarrow> failRun env (JobTask job) (JobConfig job) ?run
         (plain_error (''unsupported execution result kind '' @ go_quote kind))) anything"
    using sound_agent_clarifies [OF p] sound_agent_returns [OF p fuel] sound_failRun [OF k]
    by (cases "ResKind result") (simp_all only: ResultKind.case)
qed

lemma sound_run_job:
  assumes "placed base (JobTask job) (JobConfig job) (JobRun job)" "b \<Longrightarrow> fueled env fuel"
    and "JobProgressErr job \<noteq> Some OutOfFuel"
  shows "sound env b base (run_job fuel env job outcome) anything"
  unfolding run_job_def
proof (rule rt.keeps_bind [OF rt.keeps_attempt [OF sound_agent [OF assms]]])
  fix r :: "rt_error + unit" and s
  show "sound env b s (case r of
       Inr () \<Rightarrow> ret ()
     | Inl e \<Rightarrow>
         if shouldPublishCommandError e
         then publish ((run_event EventCommandError (TaskID (JobTask job)) (JobRun job))
                \<lparr>EvError := Some (ErrText (reported_as env e))\<rparr>)
         else ret ()) anything"
    by (intro rt.keeps_quiet quiet_rules) (auto intro: quiet_rules split: unit.splits)
qed

lemma sound_run_command: "sound env False base (run_command fuel env cmd) anything"
  unfolding run_command_def
proof (rule rt.keeps_bind [OF rt.keeps_attempt [OF sound_command]], simp)
  fix r :: "rt_error + unit" and s
  show "sound env False s (case r of
       Inr () \<Rightarrow> ret ()
     | Inl e \<Rightarrow>
         if shouldPublishCommandError e
         then publish ((event EventCommandError (command_task cmd))\<lparr>EvError := Some (ErrText (reported_as env e))\<rparr>)
         else ret ()) anything"
    by (intro rt.keeps_quiet quiet_rules) (auto intro: quiet_rules split: unit.splits)
qed

definition job_good :: "Service \<Rightarrow> Job \<Rightarrow> bool" where
  "job_good s job \<longleftrightarrow> placed s (JobTask job) (JobConfig job) (JobRun job) \<and> JobProgressErr job \<noteq> Some OutOfFuel"

lemma sound_job_progress:
  assumes "job_good base job"
  shows "sound env True base (job_progress env job item) (\<lambda>job s. job_good s job)"
proof -
  let ?changed = "ProgSessionID item \<noteq> [] \<and> ProgSessionID item \<noteq> SessionID (JobRun job)"
  let ?run = "if ?changed then JobRun job\<lparr>SessionID := ProgSessionID item\<rparr> else JobRun job"
  have p: "placed base (JobTask job) (JobConfig job) ?run" using assms by (simp add: job_good_def)
  then have k: "known ?run base" by (simp only: placed_def)
  have body: "sound env True base (andThen (if ?changed then save_run env ?run else ret ())
      (handleNodeProgress env (JobTask job) ?run item)) anything"
    by (intro rt.keeps_bind0 rt.keeps_if rt.keeps_quiet [OF quiet_progress] rt.keeps_quiet [OF quiet_ret])
      (rule sound_save_known [OF k])
  show ?thesis
    unfolding job_progress_def Let_def
  proof (rule rt.keeps_if)
    assume "JobProgressErr job \<noteq> None"
    show "sound env True base (ret job) (\<lambda>job s. job_good s job)"
      by (rule rt.keeps_ret) (use assms placed_grows in \<open>auto simp: job_good_def\<close>)
  next
    show "sound env True base (bind (attempt (andThen (if ?changed then save_run env ?run else ret ())
        (handleNodeProgress env (JobTask job) ?run item))) (\<lambda>r.
          ret (job\<lparr>JobRun := ?run, JobProgressErr := (case r of Inl e \<Rightarrow> Some e | Inr _ \<Rightarrow> None)\<rparr>)))
        (\<lambda>job s. job_good s job)"
    proof (rule rt.keeps_bind [OF rt.keeps_attempt [OF body]], rule rt.keeps_ret)
      fix r s s1
      assume "grows base s" "grows s s1" "case r of Inl e \<Rightarrow> True \<longrightarrow> e \<noteq> OutOfFuel | Inr x \<Rightarrow> True"
      then show "job_good s1 (job\<lparr>JobRun := ?run, JobProgressErr := (case r of Inl e \<Rightarrow> Some e | Inr _ \<Rightarrow> None)\<rparr>)"
        using placed_grows [OF p grows_trans] by (auto simp: job_good_def split: sum.splits)
    qed
  qed
qed

section \<open>Recovery\<close>

lemma sound_load_for_recovery:
  "sound env b base (load_for_recovery env run)
     (\<lambda>x s. case x of (task, cfg) \<Rightarrow> TaskID task = RunTaskID run \<and> svConfigs s (TaskID task) = Some cfg)"
  unfolding load_for_recovery_def
proof (rule rt.keeps_bind [OF sound_GetTask], rule rt.keeps_bind [OF rt.keeps_load_config], rule rt.keeps_ret)
  fix task :: Task and s0 cfg s1 s2
  assume a: "TaskID task = RunTaskID run" "svConfigs s1 (TaskID task) = Some cfg" "grows s1 s2"
  from a(1) config_grows [OF a(2,3)]
  show "case (task, cfg) of (task, cfg) \<Rightarrow> TaskID task = RunTaskID run \<and> svConfigs s2 (TaskID task) = Some cfg"
    by simp
qed

lemma sound_settle:
  "placed base task cfg run \<Longrightarrow> (b \<Longrightarrow> fueled env fuel) \<Longrightarrow>
     sound env b base (settle_recovered fuel env task cfg run) anything"
  unfolding settle_recovered_def
  by (intro rt.keeps_bind0 [OF sound_save_known] rt.keeps_skip [OF quiet_list_runs] rt.keeps_skip [OF quiet_manifest]
      rt.keeps_bind0 [OF rt.keeps_if] sound_completed rt.keeps_quiet [OF quiet_ret]) (simp_all add: placed_def)

lemma placed_recovered:
  "known run s \<Longrightarrow> svConfigs s (TaskID task) = Some cfg \<Longrightarrow> TaskID task = RunTaskID run \<Longrightarrow> placed s task cfg run"
  by (simp add: placed_def)

lemma sound_recoverRunning:
  assumes "known run base" "b \<Longrightarrow> fueled env fuel"
  shows "sound env b base (recoverRunningNodeRun fuel env run) anything"
  unfolding recoverRunningNodeRun_def
proof (rule rt.keeps_bind [OF sound_load_for_recovery], rule rt.keeps_prod)
  fix x :: "Task \<times> Config" and s task cfg
  assume "grows base s" "case x of (task, cfg) \<Rightarrow> TaskID task = RunTaskID run \<and> svConfigs s (TaskID task) = Some cfg"
    "x = (task, cfg)"
  then have here: "placed s task cfg run"
    using known_grows [OF assms(1)] by (auto intro: placed_recovered)
  show "sound env b s (bind (read_output env run) (\<lambda>output.
     case output of
       None \<Rightarrow> ret False
     | Some content \<Rightarrow>
         bind (from_sum UnrecoverableOutput (recoverOutputEnvelope (rtGo env) cfg run content)) (\<lambda>recovered.
         case recovered of
           None \<Rightarrow> ret False
         | Some result \<Rightarrow>
             andThen (io env)
             (bind (reading (rtClock env)) (\<lambda>recoveredAt.
              case ResKind result of
                ResultKindResult \<Rightarrow> settle_recovered fuel env task cfg (recovered_result run result recoveredAt)
              | ResultKindClarification \<Rightarrow>
                  settle_recovered fuel env task cfg
                    (run\<lparr>Status := NodeRunAwaitingUser, FailureReason := [], CompletedAt := None,
                         Clarifications := (case ResClarification result of
                            None \<Rightarrow> Clarifications run
                          | Some request \<Rightarrow> recoverClarifications (Clarifications run) request recoveredAt)\<rparr>)
              | ResultKindOther kind \<Rightarrow> ret False))))) anything"
  proof (rule rt.keeps_skip [OF quiet_read_output], intro rt.keeps_option rt.keeps_quiet [OF quiet_ret]
      rt.keeps_skip [OF quiet_io] rt.keeps_skip [OF quiet_reading],
      rule rt.keeps_skip [OF quiet_from_sum], simp, intro rt.keeps_option rt.keeps_quiet [OF quiet_ret]
      rt.keeps_skip [OF quiet_io] rt.keeps_skip [OF quiet_reading])
    fix result :: ExecResult and at
    have "placed s task cfg (recovered_result run result at)" using here by (simp add: recovered_result_def)
    then show "sound env b s (case ResKind result of
                ResultKindResult \<Rightarrow> settle_recovered fuel env task cfg (recovered_result run result at)
              | ResultKindClarification \<Rightarrow>
                  settle_recovered fuel env task cfg
                    (run\<lparr>Status := NodeRunAwaitingUser, FailureReason := [], CompletedAt := None,
                         Clarifications := (case ResClarification result of
                            None \<Rightarrow> Clarifications run
                          | Some request \<Rightarrow> recoverClarifications (Clarifications run) request at)\<rparr>)
              | ResultKindOther kind \<Rightarrow> ret False) anything"
      using here assms(2)
      by (cases "ResKind result") (simp_all only: ResultKind.case placed_update sound_settle rt.keeps_quiet quiet_ret)
  qed
qed

lemma sound_recoverAwaiting:
  assumes "known run base" "b \<Longrightarrow> fueled env fuel"
  shows "sound env b base (recoverAwaitingUserNodeRun fuel env run) anything"
  unfolding recoverAwaitingUserNodeRun_def
proof (rule rt.keeps_bind [OF sound_load_for_recovery], rule rt.keeps_prod)
  fix x :: "Task \<times> Config" and s task cfg
  assume "grows base s" "case x of (task, cfg) \<Rightarrow> TaskID task = RunTaskID run \<and> svConfigs s (TaskID task) = Some cfg"
    "x = (task, cfg)"
  then have "placed s task cfg run" using known_grows [OF assms(1)] by (auto intro: placed_recovered)
  then have here: "placed s task cfg (recovered_result run result at)" for result :: ExecResult and at
    by (simp add: recovered_result_def)
  show "sound env b s (case map_of (NodeDefinitions cfg) (NodeName run) of
       None \<Rightarrow> ret False
     | Some def \<Rightarrow>
         if DefType def \<noteq> NodeTypeHuman then ret False
         else
           bind (read_output env run) (\<lambda>output.
           case output of
             None \<Rightarrow> ret False
           | Some content \<Rightarrow>
               bind (from_sum UnrecoverableOutput (recoverOutputEnvelope (rtGo env) cfg run content)) (\<lambda>recovered.
               case recovered of
                 None \<Rightarrow> ret False
               | Some result \<Rightarrow>
                   if ResKind result \<noteq> ResultKindResult then ret False
                   else
                     andThen (io env)
                     (bind (reading (rtClock env)) (\<lambda>recoveredAt.
                      settle_recovered fuel env task cfg (recovered_result run result recoveredAt)))))) anything"
    by (intro rt.keeps_option rt.keeps_quiet [OF quiet_ret] rt.keeps_if rt.keeps_skip [OF quiet_read_output]
        rt.keeps_skip [OF quiet_from_sum] rt.keeps_skip [OF quiet_io] rt.keeps_skip [OF quiet_reading]
        sound_settle here assms(2)) simp_all
qed

lemma sound_markFailed: "known run base \<Longrightarrow> sound env b base (markRecoveredRunFailed env run reason) anything"
  unfolding markRecoveredRunFailed_def Let_def
  by (intro rt.keeps_skip [OF quiet_reading] rt.keeps_bind0 [OF sound_save_known] rt.keeps_quiet quiet_rules) simp_all

lemma sound_reconcile: "sound env False base (reconcileStaleRunning fuel env) anything"
  unfolding reconcileStaleRunning_def
proof (rule rt.keeps_bind [OF sound_status_runs], rule rt.keeps_bind0 [OF rt.keeps_for_each])
  fix runs s run
  assume "\<forall>run\<in>set runs. known run s" "run \<in> set runs"
  then have k: "known run s" by blast
  show "sound env False s (recover_or_fail fuel env run) anything"
    unfolding recover_or_fail_def
    by (rule rt.keeps_bind0 [OF rt.keeps_weaken [OF rt.keeps_attempt [OF sound_recoverRunning [OF k]]]], simp)
      (intro rt.keeps_if rt.keeps_quiet [OF quiet_ret] sound_markFailed k)
next
  fix s
  show "sound env False s (bind (query env (\<lambda>st. Inr (ListNodeRunsByStatus st NodeRunAwaitingUser))) (\<lambda>runs.
      for_each (\<lambda>run. bind (attempt (recoverAwaitingUserNodeRun fuel env run)) (\<lambda>_. ret ())) runs)) anything"
  proof (rule rt.keeps_bind [OF sound_status_runs], rule rt.keeps_for_each)
    fix runs s run
    assume "\<forall>run\<in>set runs. known run s" "run \<in> set runs"
    then have k: "known run s" by blast
    show "sound env False s (bind (attempt (recoverAwaitingUserNodeRun fuel env run)) (\<lambda>_. ret ())) anything"
      by (rule rt.keeps_bind0 [OF rt.keeps_weaken [OF rt.keeps_attempt [OF sound_recoverAwaiting [OF k]]]], simp)
        (rule rt.keeps_quiet [OF quiet_ret])
  qed
qed

section \<open>Reachable states\<close>

lemma good_empty:
  assumes "rt_env_ok env"
  shows "good env empty_service"
proof -
  have none: "node_runs empty_store = []" by (simp add: empty_store_def)
  have k: "\<not> known run empty_service" for run
    by (simp add: known_def run_keys_def empty_service_def none)
  show ?thesis
    unfolding good_def runs_good_def configs_good_def engine_good_def jobs_good_def
    by (simp add: k assms) (simp add: empty_service_def store_inv_empty New_def)
qed

lemma good_fewer_jobs:
  assumes "good env s" "set jobs \<subseteq> set (svJobs s)"
  shows "good env (s\<lparr>svJobs := jobs\<rparr>)"
proof -
  have "grows s (s\<lparr>svJobs := jobs\<rparr>)" by (simp add: grows_def)
  then have "jobs_good (s\<lparr>svJobs := jobs\<rparr>)"
    by (rule jobs_grows [rotated]) (use assms in \<open>auto simp: good_def\<close>)
  then show ?thesis by (intro good_cong [OF assms(1)]) (use assms(1) in \<open>auto simp: good_def\<close>)
qed

lemma good_reopened: "good env s \<Longrightarrow> good env (reopened s)"
  by (auto simp: good_def reopened_def runs_good_def configs_good_def engine_good_def jobs_good_def known_def
      task_runs_def New_def minted_def split: option.splits)

lemma sound_run:
  assumes "sound env b base m Q" "good env s" "grows base s" "m s = (r, s')"
  shows "good env s'"
  using rt.keepsD [OF assms] by blast

lemma set_remove_nth: "set (remove_nth n xs) \<subseteq> set xs"
  by (auto simp: remove_nth_def dest: in_set_takeD in_set_dropD)

lemma job_known: "good env s \<Longrightarrow> n < length (svJobs s) \<Longrightarrow> job_good s (svJobs s ! n)"
  by (simp add: good_def jobs_good_def job_good_def)

lemma good_step: "svc_step fuel env s s' \<Longrightarrow> good env s \<Longrightarrow> good env s'"
proof (induction rule: svc_step.induct)
  case (svc_command cmd s r s')
  show ?case by (rule sound_run [OF sound_run_command svc_command(2) grows_refl svc_command(1)])
next
  case (svc_progress n s item job s')
  note k = rt.keepsD [OF sound_job_progress [OF job_known [OF svc_progress(3,1)]] svc_progress(3) grows_refl svc_progress(2)]
  then have "good env s'" "job_good s' job" by simp_all
  moreover have "set ((svJobs s')[n := job]) \<subseteq> insert job (set (svJobs s'))" by (rule set_update_subset_insert)
  ultimately have "jobs_good (s'\<lparr>svJobs := (svJobs s')[n := job]\<rparr>)"
    unfolding good_def jobs_good_def job_good_def
    by (auto simp: placed_def known_def)
  with \<open>good env s'\<close> show ?case by (intro good_cong [OF \<open>good env s'\<close>]) (auto simp: good_def)
next
  case (svc_agent n s outcome r s')
  let ?s = "s\<lparr>svJobs := remove_nth n (svJobs s)\<rparr>"
  have g: "good env ?s" by (rule good_fewer_jobs [OF svc_agent(3) set_remove_nth])
  have "job_good ?s (svJobs s ! n)"
    using job_known [OF svc_agent(3,1)] by (simp add: job_good_def placed_def known_def)
  then have "sound env False ?s (run_job fuel env (svJobs s ! n) outcome) anything"
    by (intro sound_run_job) (simp_all add: job_good_def)
  then show ?case using g grows_refl svc_agent(2) by (rule sound_run)
next
  case (svc_restart s s')
  show ?case by (rule sound_run [OF sound_reconcile good_reopened [OF svc_restart(2)] grows_refl svc_restart(1)])
next
  case (svc_failed_restart s e s')
  show ?case
    by (rule good_reopened, rule sound_run [OF sound_reconcile good_reopened [OF svc_failed_restart(2)] grows_refl
          svc_failed_restart(1)])
qed

lemma good_reachable: "svc_reaches fuel env empty_service s \<Longrightarrow> rt_env_ok env \<Longrightarrow> good env s"
  by (induction rule: rtranclp_induct) (auto intro: good_empty good_step)

text \<open>The demo task after its entry node: the human node behind it waits for the user.\<close>

lemma demo_reached:
  "\<exists>s. svc_reaches 20 demo_rt empty_service s \<and> svStore s = demo_rows [demo_ended, demo_asked] \<and>
     svConfigs s = [''t'' \<mapsto> demo_config]"
proof -
  obtain s1 where s1: "run_command 20 demo_rt (CommandStartTask ''d'' ''a'' ''p'' ''/w'' False []) empty_service =
      (Inr (), s1)" "demo_state s1 [demo_entry] (RegisterEntryRun New ''t'' demo_entry) [demo_job] 14"
    using demo_starts by blast
  then have jobs: "svJobs s1 = [demo_job]" by (simp add: demo_state_def)
  let ?s = "s1\<lparr>svJobs := remove_nth 0 (svJobs s1)\<rparr>"
  have "demo_state ?s [demo_entry] (RegisterEntryRun New ''t'' demo_entry) [] 14"
    using s1(2) by (simp add: demo_state_def remove_nth_def)
  from demo_agent_ends [OF this] obtain s2 where s2: "run_job 20 demo_rt demo_job demo_outcome ?s = (Inr (), s2)"
    "svStore s2 = demo_rows [demo_ended, demo_asked]" "svConfigs s2 = [''t'' \<mapsto> demo_config]"
    by (auto simp: demo_state_def)
  have "svc_step 20 demo_rt empty_service s1" by (rule svc_command [OF s1(1)])
  moreover have "svc_step 20 demo_rt s1 s2"
    by (rule svc_agent [of 0]) (use s2(1) jobs in simp_all)
  ultimately show ?thesis using s2 by (meson converse_rtranclp_into_rtranclp rtranclp.rtrancl_refl)
qed

lemma demo_rt_ok: "rt_env_ok demo_rt"
proof -
  have "length (replicate (Suc n) (CHR ''u'')) \<noteq> length ''t''" if "n \<noteq> 0" for n using that by simp
  then have "inj demo_uuid"
    by (auto simp: inj_def demo_uuid_def dest: arg_cong [of _ _ length] split: if_splits)
  moreover have "plain_id (demo_uuid n)" for n
  proof -
    have "hd (demo_uuid n) \<notin> set (map hd go_spaces)" "last (demo_uuid n) \<notin> set (map last go_spaces)"
      by (auto simp: demo_uuid_def go_spaces_def last_replicate simp del: replicate.simps)
    then have "trim_space (demo_uuid n) = demo_uuid n" by (rule trim_space_plain)
    then show ?thesis by (auto simp: plain_id_def demo_uuid_def)
  qed
  ultimately show ?thesis by (simp add: rt_env_ok_def demo_rt_def)
qed

lemma demo_fueled: "fueled demo_rt 20"
  by (simp add: fueled_def demo_rt_def iterations_def targets_def demo_simps MaxIterationsForNode_def)

text \<open>
  C3: every run the service ever records follows the topology of the config its task was created
  with: it is the entry run, or a recorded run of the same task triggered it along an edge, or it is
  a manual retry of a recorded run of the same task on the same node.  This holds through commands,
  failures of the disk at any point, agent runs ending in any order, and restarts.
\<close>

theorem recorded_runs_follow_the_topology:
  assumes "rt_env_ok env" and "svc_reaches fuel env empty_service s" and "run \<in> set (node_runs (svStore s))"
  shows "\<exists>cfg. svConfigs s (RunTaskID run) = Some cfg \<and>
    (trig_of run = no_trigger \<and> NodeName run = Entry (Topo cfg) \<or>
     (\<exists>q\<in>set (node_runs (svStore s)). RunTaskID q = RunTaskID run \<and> RunID q = TrigRunID (trig_of run) \<and>
        (has_edge cfg (NodeName q) (NodeName run) \<or>
         IsManualRetryReason (TrigReason (trig_of run)) \<and> NodeName q = NodeName run)))"
proof -
  have "good env s" using assms(2,1) by (rule good_reachable)
  with row_known [OF assms(3)] obtain cfg where cfg: "svConfigs s (RunTaskID run) = Some cfg"
    "follows cfg (task_runs s (RunTaskID run)) run" unfolding good_def runs_good_def by blast
  have rows: "\<exists>q'\<in>set (node_runs (svStore s)). run_key q' = run_key q" if "q \<in> task_runs s t" for q t
    using that by (auto simp: task_runs_def known_def run_keys_def)
  have "\<exists>q'\<in>set (node_runs (svStore s)). RunTaskID q' = RunTaskID run \<and> RunID q' = RunID q \<and> NodeName q' = NodeName q"
    if "q \<in> task_runs s (RunTaskID run)" for q
    using rows [OF that] that by (fastforce simp: run_key_def task_runs_def)
  with cfg show ?thesis unfolding follows_def by metis
qed

theorem recorded_runs_follow_the_topology_witness:
  "\<exists>s. svc_reaches 20 demo_rt empty_service s \<and> demo_asked \<in> set (node_runs (svStore s)) \<and>
     (\<exists>q\<in>set (node_runs (svStore s)). RunID q = ''a'' \<and>
        (has_edge demo_config (NodeName q) ''approve'' \<or> NodeName q = ''approve''))"
proof -
  obtain s where s: "svc_reaches 20 demo_rt empty_service s" "svStore s = demo_rows [demo_ended, demo_asked]"
    "svConfigs s = [''t'' \<mapsto> demo_config]"
    using demo_reached by blast
  have run: "demo_asked \<in> set (node_runs (svStore s))" by (simp add: s(2) demo_rows_def)
  from recorded_runs_follow_the_topology [OF demo_rt_ok s(1) run]
  have "\<exists>q\<in>set (node_runs (svStore s)). RunID q = ''a'' \<and>
      (has_edge demo_config (NodeName q) ''approve'' \<or> NodeName q = ''approve'')"
    by (auto simp: trig_of_def no_trigger_def demo_asked_def s(3))
  with s(1) run show ?thesis by blast
qed

text \<open>
  C4: the recursion of afterNodeCompletedInternal ends.  With more fuel than a config has iterations
  over the targets of its edges, no command, no end of an agent run and no recovery ever runs out of
  it, in any reachable state.
\<close>

theorem handlers_never_run_out_of_fuel:
  assumes "rt_env_ok env" and "fueled env fuel" and "svc_reaches fuel env empty_service s"
  shows "fst (handleCommand fuel env cmd s) \<noteq> Inl OutOfFuel \<and>
    (\<forall>job\<in>set (svJobs s). fst (executeAgentNode fuel env job outcome s) \<noteq> Inl OutOfFuel) \<and>
    (\<forall>run\<in>set (ListNodeRunsByStatus (svStore s) status).
       fst (recoverRunningNodeRun fuel env run s) \<noteq> Inl OutOfFuel \<and>
       fst (recoverAwaitingUserNodeRun fuel env run s) \<noteq> Inl OutOfFuel)"
proof -
  have g: "good env s" using assms(3,1) by (rule good_reachable)
  have fine_bool: "fst (m s) \<noteq> Inl OutOfFuel" if "sound env True s m anything" for m :: "bool rt"
    using rt.keepsD [OF that g grows_refl, of "fst (m s)" "snd (m s)"] by auto
  have fine_unit: "fst (m s) \<noteq> Inl OutOfFuel" if "sound env True s m anything" for m :: "unit rt"
    using rt.keepsD [OF that g grows_refl, of "fst (m s)" "snd (m s)"] by auto
  have "fst (executeAgentNode fuel env job outcome s) \<noteq> Inl OutOfFuel" if "job \<in> set (svJobs s)" for job
    by (rule fine_unit [OF sound_agent]) (use that g assms(2) in \<open>auto simp: good_def jobs_good_def\<close>)
  moreover have "known run s" if "run \<in> set (ListNodeRunsByStatus (svStore s) status)" for run
    using that by (rule status_runs_known)
  ultimately show ?thesis
    using fine_unit [OF sound_command] fine_bool [OF sound_recoverRunning] fine_bool [OF sound_recoverAwaiting] assms(2)
    by blast
qed

theorem handlers_never_run_out_of_fuel_witness:
  "\<exists>s. svc_reaches 20 demo_rt empty_service s \<and>
     fst (handleCommand 20 demo_rt (CommandSubmitInput ''t'' ''b'' [(''approved'', VBool True)] []) s) \<noteq> Inl OutOfFuel"
  using demo_reached handlers_never_run_out_of_fuel [OF demo_rt_ok demo_fueled] by meson

end
