(* ===== verification/Restart.thy ===== *)
theory Restart
  imports Completion
begin

text \<open>
  What a restart of the process does to the engine.  The arrivals that wait at a join are only in the
  memory of the engine; rebuildEngineState registers the runs of the store again, but not the arrivals.
\<close>

lemma rebuilt_registers:
  assumes "q \<in> set runs" "\<forall>r\<in>set runs. RunID r \<noteq> []" "distinct (map RunID runs)"
  shows "run_registered (rebuildEngineState task runs e) task q"
proof -
  have reg: "q \<in> set rs \<or> run_registered e task q \<and> RunID q \<notin> RunID ` set rs \<Longrightarrow> distinct (map RunID rs) \<Longrightarrow>
      \<forall>r\<in>set rs. RunID r \<noteq> [] \<Longrightarrow> run_registered (register_all task rs e) task q" for rs e
  proof (induction rs arbitrary: e)
    case (Cons r rs)
    let ?e = "case Trigger r of None \<Rightarrow> RegisterEntryRun e task r
      | Some t \<Rightarrow> RegisterTriggeredRun e task r (TrigRunID t)"
    have "run_registered ?e task r"
      using Cons.prems(3)
      by (auto simp: RegisterEntryRun_def RegisterTriggeredRun_def Let_def split: option.split intro: inv_intros)
    moreover have "run_registered ?e task q" if "run_registered e task q" "RunID q \<noteq> RunID r"
      using that
      by (auto simp: RegisterEntryRun_def RegisterTriggeredRun_def Let_def split: option.split intro: inv_intros)
    ultimately have "run_registered (register_all task rs ?e) task q"
      using Cons.prems by (intro Cons.IH) auto
    then show ?case by (simp add: register_all_def)
  qed (simp add: register_all_def)
  have "mset (map RunID (sort_slice run_before runs)) = mset (map RunID runs)"
    by (simp add: run_sort.mset_sort_slice)
  then have "distinct (map RunID (sort_slice run_before runs))"
    using assms(3) by (metis mset_eq_imp_distinct_iff)
  then show ?thesis
    unfolding rebuildEngineState_def using assms(1,2) by (intro reg) simp_all
qed

text \<open>
  C38: after a restart, the engine rebuilt from the store has lost the arrivals at the joins.  When a
  run completes, a node with join=all that it leads to and that waits for another started predecessor
  is not started, whether or not that predecessor had completed before the restart.
\<close>

theorem restart_forgets_join_arrivals:
  assumes "env_ok env" and "distinct (map RunID runs)" and "\<forall>q\<in>set runs. RunID q \<noteq> []"
    and "q \<in> set runs" and "RunID q = RunID run" and "NodeName q = NodeName run"
    and "ResolveCompletion env (rebuildEngineState task runs New) cfg task history run = (Inr r, e')"
    and "JoinOrDefault (topology_node (Topo cfg) n) = JoinAll" and "n \<notin> startedNodes e' task token"
    and "p \<in> startedNodes e' task token" and "p \<noteq> NodeName run" and "has_edge cfg p n"
    and "TransTo t = n" and "TransToken t = token"
  shows "t \<notin> set (Transitions r)"
proof
  let ?e = "rebuildEngineState task runs New"
  assume t: "t \<in> set (Transitions r)"
  have "run_registered ?e task q" using assms(4,3,2) by (rule rebuilt_registers)
  then have reg: "run_registered ?e task run" using assms(5,6) by (simp add: run_registered_def)
  have none: "pending ?e task = []" by (simp add: New_def)
  then have inv: "pending_inv cfg ?e task {}" by (simp add: pending_inv_def arrivals_at_def)
  note started = resolve_registered(1) [OF assms(7) reg]
  from resolve_cases [OF assms(7)] ensure_token_registered [OF reg] obtain ts ready p' where
    ts: "evaluateEdges env (Result run) (outgoingEdges cfg (NodeName run)) = Inr ts"
    and c: "consumeReadyLocked env cfg (startedNodes ?e task)
       (fold (add_arrival (run_token ?e (RunID run)) run) ts (pending ?e task)) = (ready, p')"
    and r: "Transitions r = filter (\<lambda>t. \<not> exceedsIterations cfg history (TransTo t)) ready" by auto
  let ?p = "fold (add_arrival (run_token ?e (RunID run)) run) ts (pending ?e task)"
  let ?items = "token_items token (arrivals_at ?p n)"
  have "map_ok ?p" using inv by (intro map_ok_add_arrivals) (simp add: pending_inv_def del: pending_rebuild)
  from consumeReady_members [OF c this assms(1), of t] t
  have ready: "token_ready cfg (startedNodes ?e task token) n ?items"
    by (simp add: r assms(13,14) ready_at_def)
  have here: "FromNode a = NodeName run" if "a \<in> set ?items" for a
    proof -
    have "arrivals_at (pending ?e task) n = []" by (simp add: none arrivals_at_def del: pending_rebuild)
    with that have "a \<in> set (new_arrivals (run_token ?e (RunID run)) run ts n)"
      by (simp add: arrivals_at_add_all token_items_def del: pending_rebuild)
    then show ?thesis by (auto simp: new_arrivals_def)
  qed
  have "FromNode a \<in> incomingNodesForToken (startedNodes ?e task token) cfg n" if "a \<in> set ?items" for a
    using that pending_inv_add [OF inv reg ts, of a n]
    by (force simp: token_items_def arrival_ok_def incomingNodesForToken_def)
  with ready token_ready_all [OF assms(9) [unfolded started] assms(8)]
  have "FromNode ` set ?items = incomingNodesForToken (startedNodes ?e task token) cfg n" by blast
  moreover have "p \<in> incomingNodesForToken (startedNodes ?e task token) cfg n"
    using assms(10,12) by (auto simp: started incomingNodesForToken_def has_edge_def)
  ultimately have "p \<in> FromNode ` set ?items" by (simp only:)
  then obtain a where "a \<in> set ?items" "p = FromNode a" by (rule imageE)
  with here assms(11) show False by simp
qed


definition diamond_rows :: "NodeRun list" where
  "diamond_rows = [diamond_run ''s'' ''start'' [], diamond_run ''l'' ''left'' ''s'', diamond_run ''r'' ''right'' ''s'']"

definition diamond_rebuilt :: Engine where
  "diamond_rebuilt = snd (ResolveCompletion plain_env (rebuildEngineState ''t'' diamond_rows New) diamond_config ''t''
     diamond_rows (diamond_run ''r'' ''right'' ''s''))"

lemma live_diamond_meets:
  "fst (ResolveCompletion plain_env diamond_engine diamond_config ''t'' diamond_rows (diamond_run ''r'' ''right'' ''s'')) =
     Inr \<lparr>Transitions = [\<lparr>TransTo = ''meet'', TransReason = ''edge: left -> meet'', TransToken = ''s'',
             TransTrigger = \<lparr>TrigRunID = ''l'', TrigReason = ''edge: left -> meet''\<rparr>\<rparr>],
          Blocked = [], TaskDone = False\<rparr>"
  by (simp add: diamond_rows_def engine_simps diamond_simps map_del_def exceedsIterations_def MaxIterationsForNode_def)

definition diamond_restarted :: Engine where
  "diamond_restarted = \<lparr>runTokens = [''l'' \<mapsto> ''s'', ''r'' \<mapsto> ''s'', ''s'' \<mapsto> ''s''],
     startedNodes = (\<lambda>_ _. {})(''t'' := (\<lambda>_. {})(''s'' := {''start'', ''right'', ''left''})), pending = \<lambda>_. []\<rparr>"

lemma diamond_rebuild: "rebuildEngineState ''t'' diamond_rows New = diamond_restarted"
  by (simp add: rebuildEngineState_def register_all_def run_before_def diamond_rows_def engine_simps diamond_restarted_def)

lemma rebuilt_diamond:
  "ResolveCompletion plain_env (rebuildEngineState ''t'' diamond_rows New) diamond_config ''t''
     diamond_rows (diamond_run ''r'' ''right'' ''s'') =
   (Inr \<lparr>Transitions = [], Blocked = [], TaskDone = False\<rparr>, diamond_rebuilt)"
  "startedNodes diamond_rebuilt ''t'' ''s'' = {''start'', ''left'', ''right''}"
  unfolding diamond_rebuilt_def diamond_rebuild
  by (auto simp: diamond_restarted_def diamond_rows_def engine_simps diamond_simps map_del_def hasPendingArrivals_def)

text \<open>Without the restart the same completion starts the node at which the branches meet.\<close>

theorem restart_forgets_join_arrivals_witness:
  "\<exists>t r e'. TransTo t = ''meet'' \<and>
     fst (ResolveCompletion plain_env diamond_engine diamond_config ''t'' diamond_rows (diamond_run ''r'' ''right'' ''s'')) =
       Inr \<lparr>Transitions = [t], Blocked = [], TaskDone = False\<rparr> \<and>
     ResolveCompletion plain_env (rebuildEngineState ''t'' diamond_rows New) diamond_config ''t''
       diamond_rows (diamond_run ''r'' ''right'' ''s'') = (Inr r, e') \<and> t \<notin> set (Transitions r)"
proof -
  let ?t = "\<lparr>TransTo = ''meet'', TransReason = ''edge: left -> meet'', TransToken = ''s'',
    TransTrigger = \<lparr>TrigRunID = ''l'', TrigReason = ''edge: left -> meet''\<rparr>\<rparr>"
  have "?t \<notin> set (Transitions \<lparr>Transitions = [], Blocked = [], TaskDone = False\<rparr>)"
    by (rule restart_forgets_join_arrivals [OF env_ok_plain _ _ _ _ _ rebuilt_diamond(1),
          where q = "diamond_run ''r'' ''right'' ''s''" and n = "''meet''" and token = "''s''" and p = "''left''"])
      (auto simp: rebuilt_diamond(2) diamond_rows_def diamond_run_def demo_run_def diamond_simps has_edge_def)
  with live_diamond_meets rebuilt_diamond(1) show ?thesis by fastforce
qed

end
