(* ===== verification/Guards.thy ===== *)
theory Guards
  imports RuntimeLogic RuntimeDemo
begin

text \<open>
  The guards of the commands: what has to hold before a command changes the database, the engine or
  the agent runs.  The proofs walk along a handler to the first statement that is not quiet.
\<close>

section \<open>Walking along a handler\<close>

lemma bind_walk:
  assumes "bind m f s = (r, s')"
  obtains e where "m s = (Inl e, s')" "r = Inl e" | x t where "m s = (Inr x, t)" "f x t = (r, s')"
  using assms by (auto simp: bind_def split: prod.splits sum.splits)

lemma quiet_walk:
  assumes "bind m f s = (r, s')" "quiet m" "\<not> same s s'"
  obtains x t where "m s = (Inr x, t)" "same s t" "f x t = (r, s')" "\<not> same t s'"
proof (rule bind_walk [OF assms(1)])
  fix e assume "m s = (Inl e, s')"
  with quietD [OF assms(2)] assms(3) show thesis by blast
next
  fix x t assume m: "m s = (Inr x, t)" "f x t = (r, s')"
  moreover have "same s t" using quietD [OF assms(2) m(1)] by blast
  moreover from this have "\<not> same t s'" using assms(3) same_trans by blast
  ultimately show thesis using that by blast
qed

lemma quiet_end: "m s = (r, s') \<Longrightarrow> quiet m \<Longrightarrow> same s s'"
  using quietD by blast

lemma query_result: "query env q s = (Inr x, t) \<Longrightarrow> q (svStore s) = Inr x \<and> same s t"
  by (auto simp: query_eval same_def split: option.splits sum.splits)

lemma list_runs_result:
  "list_runs env taskID s = (Inr runs, t) \<Longrightarrow> runs = ListNodeRunsByTask (svStore s) taskID \<and> same s t"
  unfolding list_runs_def by (drule query_result) simp

lemma load_config_result:
  "load_config env task s = (Inr cfg, t) \<Longrightarrow> svConfigs s (TaskID task) = Some cfg \<and> same s t"
  using quietD [OF quiet_load_config]
  by (auto simp: load_config_def bind_def io_eval get_state_def fail_def ret_def split: option.splits)

lemma guard_result: "guard c e s = (Inr u, t) \<Longrightarrow> c"
  by (auto simp: guard_def fail_def split: if_splits)

lemma from_sum_result: "from_sum f x s = (Inr y, t) \<Longrightarrow> x = Inr y"
  by (auto simp: from_sum_def split: sum.splits)

section \<open>Retry\<close>

lemma quiet_recovery_target: "quiet (recovery_target env taskID)"
  unfolding recovery_target_def by (intro quiet_rules) simp_all

lemma recovery_target_result:
  assumes "recovery_target env taskID s = (Inr (task, cfg, runs, target), t)"
  shows "GetTask (svStore s) taskID = Inr task \<and> svConfigs s (TaskID task) = Some cfg \<and>
    runs = ListNodeRunsByTask (svStore s) taskID \<and>
    (\<exists>steps. DeriveBlockedSteps (rtGo env) cfg runs = Inr steps \<and> target = RecoveryTargetForTask cfg runs steps)"
  using assms unfolding recovery_target_def
  by (auto elim!: bind_walk dest!: query_result load_config_result list_runs_result from_sum_result
      simp: ret_def same_def)



lemma same_input: "same s t \<Longrightarrow> svStore t = svStore s" "same s t \<Longrightarrow> svConfigs t = svConfigs s"
  by (simp_all add: same_def)

text \<open>The demo task while its human node waits for the user.\<close>

definition demo_waiting :: Service where
  "demo_waiting =
     empty_service\<lparr>svStore := demo_rows [demo_ended, demo_asked], svConfigs := [''t'' \<mapsto> demo_config]\<rparr>"

lemma waiting_rows:
  "GetTask (svStore demo_waiting) ''t'' = Inr demo_record"
  "svConfigs demo_waiting (TaskID demo_record) = Some demo_config"
  "ListNodeRunsByTask (svStore demo_waiting) ''t'' = [demo_read demo_ended, demo_asked]"
  "GetNodeRun (svStore demo_waiting) ''b'' = Inr demo_asked"
  by (simp_all add: demo_waiting_def demo_rows_def demo_record_def GetTask_def GetNodeRun_def ListNodeRunsByTask_def
      run_before_def row_before_def scanNodeRun_def row_eval)


section \<open>Input of the user\<close>

text \<open>
  C10: an answer leaves everything alone unless its run belongs to the task and waits for the user, and
  the answer fits: the payload of a human node matches the node's result schema, and the answers to an
  agent's questions match the latest request.
\<close>

theorem input_is_checked_first:
  assumes "submitInput fuel env taskID nodeRunID payload attachments s = (r, s')"
  shows "same s s' \<or>
    (\<exists>task cfg run. GetTask (svStore s) taskID = Inr task \<and> svConfigs s (TaskID task) = Some cfg \<and>
       GetNodeRun (svStore s) nodeRunID = Inr run \<and> RunTaskID run = taskID \<and> Status run = NodeRunAwaitingUser \<and>
       (if DefType (node_definition cfg (NodeName run)) = NodeTypeHuman
        then ValidateValue (rtGo env) (Some (ResultSchema (node_definition cfg (NodeName run)))) (VMap payload) = None
        else \<exists>latest earlier response. rev (Clarifications run) = latest # earlier \<and>
               parseClarificationResponse (Request latest) payload = Inr response))"
proof (cases "same s s'")
  case False
  from assms [unfolded submitInput_def Let_def] False show ?thesis
    by (elim quiet_walk [OF _ quiet_query] quiet_walk [OF _ quiet_load_config] quiet_walk [OF _ quiet_guard]
        quiet_walk [OF _ quiet_reading])
      (auto elim!: quiet_walk [OF _ quiet_list_runs] quiet_walk [OF _ quiet_from_sum]
        dest!: query_result load_config_result guard_result from_sum_result
        simp: fail_def same_input split: if_splits option.splits list.splits, (rule exI, auto)?)
qed simp


theorem input_is_checked_first_witness:
  "same demo_waiting (snd (submitInput 20 demo_rt ''t'' ''b'' [(''approved'', VStr ''yes'')] [] demo_waiting))"
proof -
  obtain r s' where run: "submitInput 20 demo_rt ''t'' ''b'' [(''approved'', VStr ''yes'')] [] demo_waiting = (r, s')"
    by fastforce
  have "ValidateValue (rtGo demo_rt) (Some (ResultSchema (node_definition demo_config ''approve'')))
      (VMap [(''approved'', VStr ''yes'')]) \<noteq> None"
    by (simp add: demo_rt_def demo_simps ValidateValue_def validateValue.simps scalar_error_def)
  with input_is_checked_first [OF run] demo_types have "same demo_waiting s'"
    unfolding waiting_rows by (auto simp: waiting_rows demo_asked_def)
  with run show ?thesis by simp
qed

section \<open>Follow-up tasks\<close>

text \<open>The checkout of a task, read at some moment, was not the one with this root.\<close>

definition elsewhere :: "rt_env \<Rightarrow> Store \<Rightarrow> string \<Rightarrow> string \<Rightarrow> bool" where
  "elsewhere env st root taskID \<longleftrightarrow>
     (\<exists>task n. GetTask st taskID = Inr task \<and> (\<forall>dir. rtCheckout env n task \<noteq> Some (dir, root)))"

lemma checkout_result: "resolveTaskCheckout env task s = (Inr found, t) \<Longrightarrow> same s t \<and> (\<exists>n. found = rtCheckout env n task)"
  using quietD [OF quiet_checkout] by (auto simp: resolveTaskCheckout_def reading_eval same_def)

lemma checked_runs_are_elsewhere:
  assumes "check_live_runs env parent root runs seen s = (Inr seen', t)"
  shows "same s t \<and> set seen \<subseteq> set seen' \<and> RunTaskID ` set runs \<subseteq> insert parent (set seen') \<and>
    (\<forall>i\<in>set seen'. i \<in> set seen \<or> elsewhere env (svStore s) root i)"
  using assms
proof (induction runs arbitrary: seen s)
  case Nil
  then show ?case by (simp add: ret_def)
next
  case (Cons run runs)
  show ?case
  proof (cases "RunTaskID run = parent \<or> RunTaskID run \<in> set seen")
    case True
    with Cons.prems have "check_live_runs env parent root runs seen s = (Inr seen', t)" by auto
    from Cons.IH [OF this] True show ?thesis by auto
  next
    case False
    from Cons.prems False obtain task s1 found s2 u s3 where
      w: "query env (\<lambda>st. GetTask st (RunTaskID run)) s = (Inr task, s1)"
        "resolveTaskCheckout env task s1 = (Inr found, s2)"
        "(case found of None \<Rightarrow> ret () | Some (d, r) \<Rightarrow> guard (r \<noteq> root) (CheckoutBusy (TaskID task))) s2 = (Inr u, s3)"
        "check_live_runs env parent root runs (RunTaskID run # seen) s3 = (Inr seen', t)"
      by (auto elim!: bind_walk)
    have "same s2 s3 \<and> (\<forall>dir. found \<noteq> Some (dir, root))"
      using w(3) by (auto simp: guard_def ret_def fail_def split: option.splits if_splits)
    with query_result [OF w(1)] checkout_result [OF w(2)]
    have "same s s3" "elsewhere env (svStore s) root (RunTaskID run)"
      unfolding elsewhere_def by (blast intro: same_trans)+
    with Cons.IH [OF w(4)] show ?thesis by (auto dest: same_trans simp: same_input)
  qed
qed

text \<open>The checkout with this root has no running or waiting run but those of the parent.\<close>

definition checkout_free :: "rt_env \<Rightarrow> Store \<Rightarrow> string \<Rightarrow> string \<Rightarrow> bool" where
  "checkout_free env st parent root \<longleftrightarrow>
     (\<forall>run\<in>set (ListNodeRunsByStatus st NodeRunRunning) \<union> set (ListNodeRunsByStatus st NodeRunAwaitingUser).
        RunTaskID run = parent \<or> elsewhere env st root (RunTaskID run))"

lemma ensured_checkout_is_free:
  assumes "ensureCheckoutAvailableForContinueHere env parent root s = (Inr u, t)"
  shows "checkout_free env (svStore s) parent root"
proof -
  from assms obtain rs s1 seen s2 ws s3 seen' s4 where
    w: "query env (\<lambda>st. Inr (ListNodeRunsByStatus st NodeRunRunning)) s = (Inr rs, s1)"
      "check_live_runs env parent root rs [] s1 = (Inr seen, s2)"
      "query env (\<lambda>st. Inr (ListNodeRunsByStatus st NodeRunAwaitingUser)) s2 = (Inr ws, s3)"
      "check_live_runs env parent root ws seen s3 = (Inr seen', s4)"
    unfolding ensureCheckoutAvailableForContinueHere_def by (auto elim!: bind_walk)
  note q = query_result [OF w(1)] query_result [OF w(3)]
  note a = checked_runs_are_elsewhere [OF w(2)] and b = checked_runs_are_elsewhere [OF w(4)]
  have st: "svStore s1 = svStore s" "svStore s2 = svStore s" "svStore s3 = svStore s"
    using q a by (auto simp: same_def)
  have "\<forall>i\<in>set seen'. elsewhere env (svStore s) root i" using a b unfolding st by auto
  moreover have "RunTaskID ` (set rs \<union> set ws) \<subseteq> insert parent (set seen')" using a b by blast
  ultimately show ?thesis
    unfolding checkout_free_def using q unfolding st by auto
qed

lemma LoadTaskView_result:
  assumes "LoadTaskView env taskID s = (Inr (view, cfg), t)"
  shows "same s t \<and> (\<exists>task steps. GetTask (svStore s) taskID = Inr task \<and> svConfigs s (TaskID task) = Some cfg \<and>
    LvView view = DeriveTaskView task cfg (ListNodeRunsByTask (svStore s) taskID) steps)"
proof -
  have lineage: "LvView v = view" if "loadTaskLineage env view s = (Inr v, t)" for v view s t
    using that by (auto simp: loadTaskLineage_def ret_def elim!: bind_walk split: if_splits)
  from quietD [OF quiet_LoadTaskView assms] assms show ?thesis
    unfolding LoadTaskView_def
    by (auto elim!: bind_walk dest!: query_result load_config_result list_runs_result lineage simp: same_input ret_def)
qed


text \<open>What a follow-up needs of its parent, whose checkout is read at some moment.\<close>

definition checkout_fits :: "rt_env \<Rightarrow> Store \<Rightarrow> Task \<Rightarrow> FollowUpMode \<Rightarrow> bool" where
  "checkout_fits env st task mode \<longleftrightarrow>
     (\<exists>n. case rtCheckout env n task of
            None \<Rightarrow> \<not> taskUsesWorktree env task \<and> mode_is_blank mode
          | Some (dir, root) \<Rightarrow>
              mode \<in> {FollowUpModeForkHead, FollowUpModeForkWithChanges} \<or>
              checkout_free env st (TaskID task) root)"

lemma modes_have_fuel [simp]:
  "follow_up_config task alias path \<noteq> Inl OutOfFuel" "resolveFollowUpMode mode \<noteq> Inl OutOfFuel"
  by (auto simp: follow_up_config_def Let_def) (cases mode, auto)

lemma fits_none: "rtCheckout env n task = None \<Longrightarrow> \<not> taskUsesWorktree env task \<Longrightarrow> mode_is_blank mode \<Longrightarrow>
    checkout_fits env st task mode"
  unfolding checkout_fits_def by (rule exI [of _ n]) simp

lemma fits_some: "rtCheckout env n task = Some (dir, root) \<Longrightarrow>
    mode \<in> {FollowUpModeForkHead, FollowUpModeForkWithChanges} \<or> checkout_free env st (TaskID task) root \<Longrightarrow>
    checkout_fits env st task mode"
  unfolding checkout_fits_def by (rule exI [of _ n]) simp

lemma resolved_mode:
  "resolveFollowUpMode mode = Inr mode' \<Longrightarrow> mode' \<noteq> FollowUpModeContinueHere \<Longrightarrow>
     mode \<in> {FollowUpModeForkHead, FollowUpModeForkWithChanges}"
  by (cases mode) auto




end
