(* ===== verification/Numbers.thy ===== *)
theory Numbers
  imports RelayBase
begin

text \<open>
  Decimal numbers read back what was written: strconv.ParseInt after fmt's %d.
\<close>

lemma digits_value_append:
  "digits_value (xs @ ys) acc = Option.bind (digits_value xs acc) (digits_value ys)"
  by (induction xs arbitrary: acc) auto

lemma digit_char: "d < 10 \<Longrightarrow> CHR ''0'' \<le> (char_of (48 + d) :: char) \<and> (char_of (48 + d) :: char) \<le> CHR ''9'' \<and>
    (of_char (char_of (48 + d) :: char) :: int) = 48 + int d"
proof -
  assume d: "d < 10"
  then have "of_char (char_of (48 + d) :: char) = 48 + d" by simp
  moreover from this have "(of_char (char_of (48 + d) :: char) :: int) = 48 + int d"
    by (metis of_nat_add of_nat_numeral of_nat_of_char)
  ultimately show ?thesis using d by (simp add: less_eq_char_def)
qed

lemma digits_value_show_nat: "digits_value (show_nat n) 0 = Some (int n)"
proof (induction n rule: show_nat.induct)
  case (1 n)
  show ?case
  proof (cases "n < 10")
    case True
    with digit_char [of n] show ?thesis by (subst show_nat.simps) simp
  next
    case False
    with 1 digit_char [of "n mod 10"] show ?thesis
      by (subst show_nat.simps) (simp add: digits_value_append zdiv_int zmod_int)
  qed
qed

lemma digit_range: "c \<in> set (show_nat n) \<Longrightarrow> CHR ''0'' \<le> c \<and> c \<le> CHR ''9''"
proof (induction n rule: show_nat.induct)
  case (1 n)
  show ?case
  proof (cases "n < 10")
    case True
    then have "show_nat n = [char_of (48 + n)]" by (subst show_nat.simps) simp
    with 1 digit_char [of n] True show ?thesis by simp
  next
    case False
    then have "show_nat n = show_nat (n div 10) @ [char_of (48 + n mod 10)]" by (subst show_nat.simps) simp
    with 1 digit_char [of "n mod 10"] False show ?thesis by auto
  qed
qed

lemma show_nat_not_Nil [simp]: "show_nat n \<noteq> []"
  by (subst show_nat.simps) simp

lemma parse_show_int:
  assumes "0 \<le> n" "n < 2 ^ 63"
  shows "parse_int64 (show_int n) = Some n"
proof -
  obtain c cs where c: "show_nat (nat n) = c # cs" by (cases "show_nat (nat n)") auto
  then have "CHR ''0'' \<le> c" using digit_range [of c "nat n"] by simp
  then have "c \<noteq> CHR ''-''" "c \<noteq> CHR ''+''" by (auto simp: less_eq_char_def)
  with c digits_value_show_nat [of "nat n"] assms show ?thesis
    by (simp add: parse_int64_def show_int_def Let_def)
qed

end
