(* ===== verification/MachineKeyring.thy ===== *)
theory MachineKeyring
  imports Identity Numbers
begin

text \<open>
  The machine's copy of its master's keyring (cli/internal/keyring/keyring.go over the message
  builders of cli/internal/crypto): a snapshot taken when the machine is paired, brought up to date
  from the updates that the relay lists (KeyringHandler.ListUpdates, KeyringHandler.Get in
  relay/internal/api/keyring.go).
\<close>

section \<open>The relay's answers\<close>

record MasterKeyInfo =
  InfoFingerprint :: string
  InfoSignPub :: string
  InfoEncPub :: string
  InfoRevokedAt :: "int option"

record KeyringSnapshot =
  SnapMasterID :: string
  SnapSeq :: int
  SnapHeadHash :: string
  SnapKeys :: "MasterKeyInfo list"

definition toKeyringStateResponse :: "KeyringState \<Rightarrow> KeyringSnapshot" where
  "toKeyringStateResponse state =
     \<lparr>SnapMasterID = StMasterID state, SnapSeq = StSeq state, SnapHeadHash = StHeadHash state,
      SnapKeys = map (\<lambda>key. \<lparr>InfoFingerprint = StFingerprint key, InfoSignPub = StSignPub key,
        InfoEncPub = StEncPub key, InfoRevokedAt = map_option to_unix (StRevokedAt key)\<rparr>) (StKeys state)\<rparr>"

fun read_error_code :: "relay_error \<Rightarrow> response_code" where
  "read_error_code ErrMasterIdentityNotFound = CodeNotFound"
| "read_error_code _ = CodeInternalError"

text \<open>KeyringHandler.Get\<close>

definition keyring_Get :: "relay_env \<Rightarrow> string \<Rightarrow> db \<Rightarrow> response_code + KeyringSnapshot" where
  "keyring_Get env param d =
     (case parse_uuid env param of
        None \<Rightarrow> Inl CodeInvalidRequest
      | Some masterID \<Rightarrow>
          (case GetKeyringState env d masterID of
             Inl err \<Rightarrow> Inl (read_error_code err)
           | Inr out \<Rightarrow> Inr (toKeyringStateResponse out)))"

record keyringUpdateRecord =
  RecSeq :: int
  RecPrevHash :: string
  RecUpdateHash :: string
  RecAction :: string
  RecTargetFingerprint :: string
  RecTargetSignPub :: string
  RecTargetEncPub :: string
  RecSigner :: string
  RecSignature :: string
  RecCreatedAt :: int

record keyringUpdatesResponse =
  RespMasterID :: string
  RespFromSeq :: int
  RespToSeq :: int
  RespHeadHash :: string
  RespUpdates :: "keyringUpdateRecord list"

text \<open>
  An update as it is served; created gives the creation time of its row.  An empty encryption key
  is left out of the JSON and read back as the empty text.
\<close>

definition update_response :: "relay_env \<Rightarrow> (KeyringUpdate \<Rightarrow> int) \<Rightarrow> KeyringUpdate \<Rightarrow> keyringUpdateRecord" where
  "update_response env created u =
     \<lparr>RecSeq = UpdSeq u, RecPrevHash = UpdPrevHash u, RecUpdateHash = UpdHash u, RecAction = UpdAction u,
      RecTargetFingerprint = UpdTargetFingerprint u, RecTargetSignPub = b64_encode env (UpdTargetSignPub u),
      RecTargetEncPub = (if UpdTargetEncPub u = [] then [] else b64_encode env (UpdTargetEncPub u)),
      RecSigner = UpdSigner u, RecSignature = b64_encode env (UpdSignature u),
      RecCreatedAt = to_unix (created u)\<rparr>"

text \<open>The query parameters; strconv.Atoi reads an int of 64 bits.\<close>

definition from_seq_param :: "string \<Rightarrow> int option" where
  "from_seq_param v =
     (if v = [] then Some 0
      else (case parse_int64 v of None \<Rightarrow> None | Some parsed \<Rightarrow> Some (if 0 < parsed then parsed else 0)))"

definition limit_param :: "string \<Rightarrow> int option" where
  "limit_param v =
     (if v = [] then Some 200
      else (case parse_int64 v of
              None \<Rightarrow> None
            | Some parsed \<Rightarrow> Some (if parsed < 1 then 1 else if 1000 < parsed then 1000 else parsed)))"

text \<open>
  KeyringHandler.ListUpdates: the updates and the state are two reads, of the database as it is at
  each.
\<close>

definition ListUpdates ::
  "relay_env \<Rightarrow> (KeyringUpdate \<Rightarrow> int) \<Rightarrow> db \<Rightarrow> db \<Rightarrow> string \<Rightarrow> string \<Rightarrow> string \<Rightarrow>
     response_code + keyringUpdatesResponse" where
  "ListUpdates env created d d' param from_seq limit =
     (case parse_uuid env param of
        None \<Rightarrow> Inl CodeInvalidRequest
      | Some masterID \<Rightarrow>
          (case from_seq_param from_seq of
             None \<Rightarrow> Inl CodeInvalidRequest
           | Some fromSeq \<Rightarrow>
               (case limit_param limit of
                  None \<Rightarrow> Inl CodeInvalidRequest
                | Some lim \<Rightarrow>
                    (case GetKeyringUpdates d masterID fromSeq lim of
                       Inl err \<Rightarrow> Inl (read_error_code err)
                     | Inr updates \<Rightarrow>
                         (case GetKeyringState env d' masterID of
                            Inl err \<Rightarrow> Inl (read_error_code err)
                          | Inr state \<Rightarrow>
                              Inr \<lparr>RespMasterID = show_uuid env masterID, RespFromSeq = fromSeq,
                                   RespToSeq = StSeq state, RespHeadHash = StHeadHash state,
                                   RespUpdates = map (update_response env created) updates\<rparr>)))))"

section \<open>The manager\<close>

record Manager =
  mgrState :: KeyringSnapshot
  mgrKeys :: "string \<rightharpoonup> MasterKeyInfo"

datatype keyring_error =
    ErrInvalidToken
  | ErrTokenExpired
  | ErrUnauthorized
  | ErrInvalidUpdate
  | ErrTransport
  | ErrHttpStatus int
  | ErrBody
  | ErrCode int
  | ErrData

definition NewManager :: "KeyringSnapshot \<Rightarrow> Manager" where
  "NewManager state =
     \<lparr>mgrState = state, mgrKeys = foldl (\<lambda>ks key. ks(InfoFingerprint key \<mapsto> key)) Map.empty (SnapKeys state)\<rparr>"

definition MasterID :: "Manager \<Rightarrow> string" where
  "MasterID m = SnapMasterID (mgrState m)"

definition Seq :: "Manager \<Rightarrow> int" where
  "Seq m = SnapSeq (mgrState m)"

definition HeadHash :: "Manager \<Rightarrow> string" where
  "HeadHash m = SnapHeadHash (mgrState m)"

text \<open>State lists the keys in the order, given here, in which Go's map iteration meets them.\<close>

definition State :: "string list \<Rightarrow> Manager \<Rightarrow> KeyringSnapshot" where
  "State order m =
     \<lparr>SnapMasterID = SnapMasterID (mgrState m), SnapSeq = SnapSeq (mgrState m),
      SnapHeadHash = SnapHeadHash (mgrState m), SnapKeys = List.map_filter (mgrKeys m) order\<rparr>"

definition IsAuthorized :: "Manager \<Rightarrow> string \<Rightarrow> bool" where
  "IsAuthorized m fingerprint =
     (case mgrKeys m fingerprint of None \<Rightarrow> False | Some key \<Rightarrow> InfoRevokedAt key = None)"

definition SignPub :: "relay_env \<Rightarrow> Manager \<Rightarrow> string \<Rightarrow> string option" where
  "SignPub env m fingerprint =
     (case mgrKeys m fingerprint of
        None \<Rightarrow> None
      | Some key \<Rightarrow>
          if InfoRevokedAt key \<noteq> None then None
          else of_length 32 (b64_decode env (InfoSignPub key)))"

text \<open>crypto.Verify: ed25519.Verify refuses a signature that is not 64 bytes long.\<close>

definition crypto_Verify :: "relay_env \<Rightarrow> string \<Rightarrow> string \<Rightarrow> string \<Rightarrow> bool" where
  "crypto_Verify env publicKey message signature =
     (if length signature \<noteq> 64 then False else ed25519_verify env publicKey message signature)"

record TokenClaims =
  ClaimMasterID :: string
  ClaimMachineID :: string
  ClaimFingerprint :: string
  ClaimExpiresAt :: int

definition decode_token :: "relay_env \<Rightarrow> string \<Rightarrow> keyring_error + (string \<times> string)" where
  "decode_token env token =
     (case split_on (CHR ''.'') token of
        [a, b] \<Rightarrow>
          (case b64url_decode env a of
             None \<Rightarrow> Inl ErrInvalidToken
           | Some payload \<Rightarrow>
               (case b64url_decode env b of
                  None \<Rightarrow> Inl ErrInvalidToken
                | Some sig \<Rightarrow> Inr (payload, sig)))
      | _ \<Rightarrow> Inl ErrInvalidToken)"

definition parse_unix :: "string \<Rightarrow> int option" where
  "parse_unix raw = map_option go_unix (parse_int64 raw)"

definition Manager_VerifyMachineToken :: "relay_env \<Rightarrow> Manager \<Rightarrow> string \<Rightarrow> keyring_error + TokenClaims" where
  "Manager_VerifyMachineToken env m token =
     (case decode_token env token of
        Inl err \<Rightarrow> Inl err
      | Inr (payload, sig) \<Rightarrow>
          (case split_on bar payload of
             [kind, masterID, machineID, fingerprint, expiry] \<Rightarrow>
               if kind \<noteq> ''muxagent-machine-token-v1'' then Inl ErrInvalidToken
               else
                 (case parse_unix expiry of
                    None \<Rightarrow> Inl ErrInvalidToken
                  | Some expiresAt \<Rightarrow>
                      if expiresAt < now env then Inl ErrTokenExpired
                      else
                        (case SignPub env m fingerprint of
                           None \<Rightarrow> Inl ErrUnauthorized
                         | Some pub \<Rightarrow>
                             if \<not> crypto_Verify env pub payload sig then Inl ErrInvalidToken
                             else Inr \<lparr>ClaimMasterID = masterID, ClaimMachineID = machineID,
                                       ClaimFingerprint = fingerprint, ClaimExpiresAt = expiresAt\<rparr>))
           | _ \<Rightarrow> Inl ErrInvalidToken))"

section \<open>Sync\<close>

text \<open>
  What the HTTP request brings back: nothing, or a status and the decoded envelope (None when it
  does not decode) of a code and the decoded data (None when they do not decode).
\<close>

datatype updates_reply =
    RequestFailed
  | Responded int "(int \<times> keyringUpdatesResponse option) option"

definition record_message :: "string \<Rightarrow> keyringUpdateRecord \<Rightarrow> string" where
  "record_message masterID update = BuildKeyringUpdateMessage
     \<lparr>PayMasterID = masterID, PaySeq = RecSeq update, PayPrevHash = RecPrevHash update,
      PayAction = RecAction update, PayTargetSignPub = RecTargetSignPub update,
      PayTargetEncPub = RecTargetEncPub update, PaySigner = RecSigner update\<rparr>"

definition apply_record :: "keyringUpdateRecord \<Rightarrow> (string \<rightharpoonup> MasterKeyInfo) \<Rightarrow> (string \<rightharpoonup> MasterKeyInfo) option" where
  "apply_record update keys =
     (if RecAction update = ''add''
      then Some (keys(RecTargetFingerprint update \<mapsto>
        \<lparr>InfoFingerprint = RecTargetFingerprint update, InfoSignPub = RecTargetSignPub update,
         InfoEncPub = RecTargetEncPub update, InfoRevokedAt = None\<rparr>))
      else if RecAction update = ''revoke''
      then Some (case keys (RecTargetFingerprint update) of
                   None \<Rightarrow> keys
                 | Some key \<Rightarrow> keys(RecTargetFingerprint update \<mapsto> key\<lparr>InfoRevokedAt := Some (RecCreatedAt update)\<rparr>))
      else None)"

text \<open>One round of the loop.\<close>

definition sync_update ::
  "relay_env \<Rightarrow> string \<Rightarrow> keyringUpdateRecord \<Rightarrow> Manager \<Rightarrow> keyring_error + Manager" where
  "sync_update env masterID update m =
     (if RecSeq update \<noteq> Seq m + 1 then Inl ErrInvalidUpdate
      else if RecPrevHash update \<noteq> HeadHash m then Inl ErrInvalidUpdate
      else
        (case mgrKeys m (RecSigner update) of
           None \<Rightarrow> Inl ErrUnauthorized
         | Some signer \<Rightarrow>
             if InfoRevokedAt signer \<noteq> None then Inl ErrUnauthorized
             else
               (case of_length 32 (b64_decode env (InfoSignPub signer)) of
                  None \<Rightarrow> Inl ErrInvalidUpdate
                | Some signerPub \<Rightarrow>
                    let msg = record_message masterID update
                    in if RecUpdateHash update \<noteq> HashBytes env msg then Inl ErrInvalidUpdate
                       else
                         (case b64_decode env (RecSignature update) of
                            None \<Rightarrow> Inl ErrInvalidUpdate
                          | Some sig \<Rightarrow>
                              if \<not> crypto_Verify env signerPub msg sig then Inl ErrInvalidUpdate
                              else
                                (case apply_record update (mgrKeys m) of
                                   None \<Rightarrow> Inl ErrInvalidUpdate
                                 | Some keys \<Rightarrow>
                                     Inr (m\<lparr>mgrState := (mgrState m)\<lparr>SnapSeq := RecSeq update,
                                              SnapHeadHash := RecUpdateHash update\<rparr>,
                                            mgrKeys := keys\<rparr>))))))"

text \<open>The loop: what came before an update that is refused stays applied.\<close>

fun sync_updates ::
  "relay_env \<Rightarrow> string \<Rightarrow> keyringUpdateRecord list \<Rightarrow> Manager \<Rightarrow> keyring_error option \<times> Manager" where
  "sync_updates env masterID [] m = (None, m)"
| "sync_updates env masterID (update # updates) m =
     (case sync_update env masterID update m of
        Inl err \<Rightarrow> (Some err, m)
      | Inr m \<Rightarrow> sync_updates env masterID updates m)"

text \<open>What Sync does with the reply, on the manager as it is then.\<close>

definition sync_reply :: "relay_env \<Rightarrow> updates_reply \<Rightarrow> Manager \<Rightarrow> keyring_error option \<times> Manager" where
  "sync_reply env reply m =
     (case reply of
        RequestFailed \<Rightarrow> (Some ErrTransport, m)
      | Responded status body \<Rightarrow>
          if status \<noteq> 200 then (Some (ErrHttpStatus status), m)
          else
            (case body of
               None \<Rightarrow> (Some ErrBody, m)
             | Some (code, data) \<Rightarrow>
                 if code \<noteq> 0 then (Some (ErrCode code), m)
                 else
                   (case data of
                      None \<Rightarrow> (Some ErrData, m)
                    | Some payload \<Rightarrow>
                        sync_updates env (RespMasterID payload) (RespUpdates payload) m)))"

text \<open>Sync: http answers the request for the updates of a master from a number on.\<close>

definition Sync ::
  "relay_env \<Rightarrow> (string \<Rightarrow> string \<Rightarrow> updates_reply) \<Rightarrow> Manager \<Rightarrow> keyring_error option \<times> Manager" where
  "Sync env http m = sync_reply env (http (MasterID m) (show_int (Seq m))) m"

text \<open>The request as the relay's handler answers it: the HTTP status and the envelope.\<close>

fun status_of :: "response_code \<Rightarrow> int" where
  "status_of CodeSuccess = 200"
| "status_of CodeInvalidRequest = 400"
| "status_of CodeNotFound = 404"
| "status_of CodeInternalError = 500"
| "status_of CodeConflict = 409"
| "status_of CodeInvalidSignature = 400"
| "status_of CodeInvalidPublicKey = 400"

fun code_number :: "response_code \<Rightarrow> int" where
  "code_number CodeSuccess = 0"
| "code_number CodeInvalidRequest = 1001"
| "code_number CodeNotFound = 1002"
| "code_number CodeInternalError = 1003"
| "code_number CodeConflict = 1006"
| "code_number CodeInvalidSignature = 1007"
| "code_number CodeInvalidPublicKey = 1008"

definition relay_http ::
  "relay_env \<Rightarrow> (KeyringUpdate \<Rightarrow> int) \<Rightarrow> db \<Rightarrow> db \<Rightarrow> string \<Rightarrow> string \<Rightarrow> updates_reply" where
  "relay_http env created d d' masterID fromSeq =
     (case ListUpdates env created d d' masterID fromSeq [] of
        Inl code \<Rightarrow> Responded (status_of code) (Some (code_number code, None))
      | Inr out \<Rightarrow> Responded (status_of CodeSuccess) (Some (code_number CodeSuccess, Some out)))"


section \<open>Replaying a chain\<close>

text \<open>A key as both sides see it: its sign and encryption keys and whether it is revoked.\<close>

type_synonym seen_key = "string \<times> string \<times> bool"

definition replay_one :: "(string \<rightharpoonup> seen_key) \<Rightarrow> KeyringUpdate \<Rightarrow> (string \<rightharpoonup> seen_key)" where
  "replay_one keys u =
     (if UpdAction u = KeyringActionAdd
      then keys(UpdTargetFingerprint u \<mapsto> (UpdTargetSignPub u, UpdTargetEncPub u, False))
      else keys(UpdTargetFingerprint u :=
        map_option (\<lambda>(sign, enc, _). (sign, enc, True)) (keys (UpdTargetFingerprint u))))"

definition replay :: "KeyringUpdate list \<Rightarrow> (string \<rightharpoonup> seen_key)" where
  "replay us = foldl replay_one Map.empty us"

lemma replay_append [simp]: "replay (us @ [u]) = replay_one (replay us) u"
  by (simp add: replay_def)

text \<open>An update that a key of the replayed ring vouches for.\<close>

definition vouched :: "relay_env \<Rightarrow> uuid \<Rightarrow> (string \<rightharpoonup> seen_key) \<Rightarrow> KeyringUpdate \<Rightarrow> bool" where
  "vouched env m keys u \<longleftrightarrow>
     (\<exists>pub enc. keys (UpdSigner u) = Some (pub, enc, False) \<and>
        VerifySignature env pub (stored_message env m u) (UpdSignature u)) \<and>
     UpdHash u = HashBytes env (stored_message env m u) \<and>
     (UpdAction u = KeyringActionAdd \<or> UpdAction u = KeyringActionRevoke)"

text \<open>The rows of a master's keys, read the same way.\<close>

definition seen :: "MasterKey \<Rightarrow> seen_key" where
  "seen k = (MasterSignPub k, MasterEncPub k, KeyRevokedAt k \<noteq> None)"

definition key_rows :: "MasterKey list \<Rightarrow> uuid \<Rightarrow> (string \<rightharpoonup> seen_key)" where
  "key_rows ks m = map_of (map (\<lambda>k. (MasterSignKeyFingerprint k, seen k)) (filter (\<lambda>k. KeyMaster k = m) ks))"

lemma key_rows_Some:
  assumes "distinct (map MasterSignKeyFingerprint ks)" "k \<in> set ks" "KeyMaster k = m"
  shows "key_rows ks m (MasterSignKeyFingerprint k) = Some (seen k)"
proof -
  have "distinct (map fst (map (\<lambda>k. (MasterSignKeyFingerprint k, seen k)) (filter (\<lambda>k. KeyMaster k = m) ks)))"
    using assms(1) by (induction ks) auto
  then show ?thesis unfolding key_rows_def by (rule map_of_is_SomeI) (use assms in auto)
qed

lemma key_rows_iff:
  assumes "distinct (map MasterSignKeyFingerprint ks)"
  shows "key_rows ks m fp = Some x \<longleftrightarrow>
    (\<exists>k\<in>set ks. KeyMaster k = m \<and> MasterSignKeyFingerprint k = fp \<and> seen k = x)"
proof
  assume "key_rows ks m fp = Some x"
  then show "\<exists>k\<in>set ks. KeyMaster k = m \<and> MasterSignKeyFingerprint k = fp \<and> seen k = x"
    unfolding key_rows_def by (auto dest!: map_of_SomeD)
qed (use key_rows_Some [OF assms] in blast)

lemma key_rows_append:
  "MasterSignKeyFingerprint k \<notin> MasterSignKeyFingerprint ` set ks \<Longrightarrow>
    key_rows (ks @ [k]) m = (if KeyMaster k = m then (key_rows ks m)(MasterSignKeyFingerprint k \<mapsto> seen k) else key_rows ks m)"
proof -
  assume new: "MasterSignKeyFingerprint k \<notin> MasterSignKeyFingerprint ` set ks"
  have "map_of (xs @ [(a, b)]) = (map_of xs)(a \<mapsto> b)" if "a \<notin> fst ` set xs" for xs :: "(string \<times> seen_key) list" and a b
    using that by (induction xs) (auto simp: fun_eq_iff)
  with new show ?thesis by (auto simp: key_rows_def image_iff)
qed

text \<open>Revoking in the table revokes in the view.\<close>

lemma key_rows_revoke:
  "key_rows (map (\<lambda>k. if KeyMaster k = m \<and> MasterSignKeyFingerprint k = fp \<and> KeyRevokedAt k = None
       then k\<lparr>KeyRevokedAt := Some t\<rparr> else k) ks) m' =
   (if m' = m then (key_rows ks m)(fp := map_option (\<lambda>(sign, enc, _). (sign, enc, True)) (key_rows ks m fp))
    else key_rows ks m')"
  by (induction ks) (auto simp: key_rows_def seen_def fun_eq_iff)

section \<open>The relay's tables are a replay of its chain\<close>

text \<open>
  The first update founds the ring; every later one is vouched for by the ring it extends, and the
  key rows are what replaying all of them gives.
\<close>

definition ring_replays :: "relay_env \<Rightarrow> db \<Rightarrow> uuid \<Rightarrow> bool" where
  "ring_replays env d m \<longleftrightarrow>
     (identity_of d m \<noteq> None \<longrightarrow> updates_of d m \<noteq> []) \<and>
     key_rows (MasterKeys d) m = replay (updates_of d m) \<and>
     (\<forall>n. 0 < n \<longrightarrow> n < length (updates_of d m) \<longrightarrow>
        vouched env m (replay (take n (updates_of d m))) (updates_of d m ! n))"

lemma ring_replays_other:
  assumes "ring_replays env d m" "updates_of d' m = updates_of d m" "identity_of d' m = identity_of d m"
    "key_rows (MasterKeys d') m = key_rows (MasterKeys d) m"
  shows "ring_replays env d' m"
  using assms by (simp add: ring_replays_def)

lemma ring_replays_extended:
  assumes "ring_replays env d m" "updates_of d' m = updates_of d m @ [u]"
    "updates_of d m \<noteq> [] \<Longrightarrow> vouched env m (replay (updates_of d m)) u"
    "key_rows (MasterKeys d') m = replay_one (key_rows (MasterKeys d) m) u"
  shows "ring_replays env d' m"
  using assms unfolding ring_replays_def
  by (auto simp: nth_append less_Suc_eq)

lemma replay_new_update:
  assumes "update_checked env m input d" "keys_ok env d"
  shows "key_rows (keys_after env m input (MasterKeys d)) m' =
    (if m' = m then replay_one (key_rows (MasterKeys d) m) (new_update env m input) else key_rows (MasterKeys d) m')"
proof (cases "InAction input = KeyringActionAdd")
  case True
  with assms(1) have "HashKeyFingerprint env (InTargetSignPub input) \<notin> MasterSignKeyFingerprint ` set (MasterKeys d)"
    by (auto simp: update_checked_def)
  with True show ?thesis
    by (simp add: keys_after_def Let_def key_rows_append replay_one_def new_update_def seen_def)
next
  case False
  then show ?thesis
    by (simp add: keys_after_def Let_def key_rows_revoke replay_one_def new_update_def)
qed

lemma vouched_new_update:
  assumes "update_checked env m input d" "keys_ok env d" "InMasterID input = show_uuid env m"
    "key_rows (MasterKeys d) m = replay us"
  shows "vouched env m (replay us) (new_update env m input)"
proof -
  from assms(1) obtain key where k: "masterKeys_FindByMasterAndFingerprint d m (InSigner input) = Inr key"
    "KeyRevokedAt key = None"
    "VerifySignature env (MasterSignPub key) (update_message env input) (InSignature input)"
    and a: "InAction input = KeyringActionAdd \<or> InAction input = KeyringActionRevoke"
    by (auto simp: update_checked_def split: if_splits)
  from select_one_Inr [OF k(1) [unfolded masterKeys_FindByMasterAndFingerprint_def]]
  have "key \<in> set (MasterKeys d)" "KeyMaster key = m" "MasterSignKeyFingerprint key = InSigner input" by simp_all
  with key_rows_Some [of "MasterKeys d" key m] assms(2,4) k(2)
  have "replay us (InSigner input) = Some (MasterSignPub key, MasterEncPub key, False)"
    by (simp add: keys_ok_def seen_def)
  moreover have "stored_message env m (new_update env m input) = update_message env input"
    using assms(3) by (simp add: stored_message_def update_message_def new_update_def)
  ultimately show ?thesis using k(3) a by (simp add: vouched_def) (simp add: new_update_def)
qed

lemma update_keeps_replay:
  assumes "ring_replays env d m'" "keys_ok env d" "update_checked env m input d" "InMasterID input = show_uuid env m"
  shows "ring_replays env (update_applied env m input d) m'"
proof (cases "m' = m")
  case False
  with assms(1) replay_new_update [OF assms(3,2), of m'] show ?thesis
    by (intro ring_replays_other [OF assms(1)]) (simp_all add: updates_of_applied identity_of_applied)
next
  case True
  with assms(1) have r: "ring_replays env d m" by simp
  then have "key_rows (MasterKeys d) m = replay (updates_of d m)" by (simp add: ring_replays_def)
  note v = vouched_new_update [OF assms(3,2,4) this]
  have "key_rows (MasterKeys (update_applied env m input d)) m =
      replay_one (key_rows (MasterKeys d) m) (new_update env m input)"
    using replay_new_update [OF assms(3,2), of m] by (simp only: applied_keys if_True refl)
  moreover have "updates_of (update_applied env m input d) m = updates_of d m @ [new_update env m input]"
    by (simp only: updates_of_applied if_True refl)
  ultimately have "ring_replays env (update_applied env m input d) m"
    using ring_replays_extended [OF r] v by blast
  with True show ?thesis by simp
qed

lemma founded_rows:
  assumes "\<not> (\<exists>k\<in>set (MasterKeys d). MasterSignKeyFingerprint k = fp)"
  shows "key_rows (MasterKeys (founded env fp m input update d)) m' =
    (if m' = m then (key_rows (MasterKeys d) m)(fp \<mapsto> (ApSignPub input, ApEncPub input, False))
     else key_rows (MasterKeys d) m')"
proof -
  have "fp \<notin> MasterSignKeyFingerprint ` set (MasterKeys d)" using assms by auto
  then show ?thesis
    using key_rows_append [of "first_key fp m input update" "MasterKeys d" m']
    by (simp add: founded_def first_key_def seen_def)
qed

lemma founding_keeps_replay:
  assumes "ring_replays env d m'" "keyring_ok env d m" "identity_of d m = None"
    "\<not> (\<exists>k\<in>set (MasterKeys d). MasterSignKeyFingerprint k = fp)" "InAction update = KeyringActionAdd"
  shows "ring_replays env (founded env fp m input update d) m'"
proof (cases "m' = m")
  case False
  with founded_rows [OF assms(4), of env m input update m'] show ?thesis
    by (intro ring_replays_other [OF assms(1)]) (simp_all add: founded_def updates_of_def first_update_def identity_of_def find_append split: option.split)
next
  case True
  with assms(1) have r: "ring_replays env d m" by simp
  from assms(2,3) have us: "updates_of d m = []" by (simp add: keyring_ok_def)
  have "updates_of (founded env fp m input update d) m = updates_of d m @ [first_update env fp m input update]"
    by (simp add: founded_def updates_of_def first_update_def)
  moreover have "key_rows (MasterKeys (founded env fp m input update d)) m =
      replay_one (key_rows (MasterKeys d) m) (first_update env fp m input update)"
    using founded_rows [OF assms(4), of env m input update m] assms(5)
    by (simp add: replay_one_def first_update_def)
  ultimately have "ring_replays env (founded env fp m input update d) m"
    using ring_replays_extended [OF r] us by blast
  with True show ?thesis by simp
qed

lemma same_keyrings_replay: "same_keyrings d d' \<Longrightarrow> ring_replays env d m \<Longrightarrow> ring_replays env d' m"
  by (simp add: same_keyrings_def ring_replays_def updates_of_def identity_of_def)

lemma vouched_now [simp]: "vouched (env\<lparr>now := t\<rparr>) = vouched env"
  by (simp add: vouched_def stored_message_def fun_eq_iff)

lemma ring_replays_now [simp]: "ring_replays (env\<lparr>now := t\<rparr>) = ring_replays env"
  by (simp add: ring_replays_def fun_eq_iff)

text \<open>Every step adds at most one update at the end of a ring.\<close>

definition ring_grows :: "db \<Rightarrow> db \<Rightarrow> uuid \<Rightarrow> bool" where
  "ring_grows d d' m \<longleftrightarrow> (\<exists>us. updates_of d' m = updates_of d m @ us)"

lemma same_keyrings_grows: "same_keyrings d d' \<Longrightarrow> ring_grows d d' m"
  by (simp add: same_keyrings_def ring_grows_def updates_of_def)

lemma approve_replays:
  assumes "core a = env\<lparr>now := t\<rparr>" "keyring_ok env d m'" "\<And>m. keyring_ok env d m" "ring_replays env d m'"
  shows "ring_replays env (snd (ApproveAuthRequest a i input d)) m' \<and>
    ring_grows d (snd (ApproveAuthRequest a i input d)) m'"
proof (cases "approve_request a i input d")
  case (Inl e)
  with assms show ?thesis by (simp add: ApproveAuthRequest_def InTx_def ring_grows_def)
next
  case (Inr x)
  then obtain status d' where x: "x = (status, d')" by (cases x)
  with Inr have d': "snd (ApproveAuthRequest a i input d) = d'" by (simp add: ApproveAuthRequest_def InTx_def)
  from Inr [unfolded x] have "ring_replays env d' m' \<and> ring_grows d d' m'"
  proof (cases rule: approve_Inr)
    case (again r)
    with assms show ?thesis by (simp add: ring_grows_def)
  next
    case (first r m d1 d2)
    let ?fp = "HashKeyFingerprint env (ApSignPub input)"
    from bind_update_same [OF first(6,7)] have same: "same_keyrings d1 d'" .
    have "ring_replays env d1 m' \<and> ring_grows d d1 m'"
    proof (cases "d1 = d")
      case True
      with assms show ?thesis by (simp add: ring_grows_def)
    next
      case False
      with first(5) assms(1) have "first_master (env\<lparr>now := t\<rparr>) input ?fp d = Inr (m, d1)" by auto
      then obtain update where u:
        "validateInitialKeyringUpdate (env\<lparr>now := t\<rparr>) update m (ApSignPub input) (ApEncPub input) = None"
        "identity_of d m = None" "\<not> (\<exists>k\<in>set (MasterKeys d). MasterSignKeyFingerprint k = ?fp)"
        "d1 = founded (env\<lparr>now := t\<rparr>) ?fp m input update d"
        by (rule first_master_Inr) simp
      from u(1) have "InAction update = KeyringActionAdd"
        by (auto simp: validateInitialKeyringUpdate_def split: if_splits)
      moreover have "keyring_ok (env\<lparr>now := t\<rparr>) d m" using assms(3) by (simp only: keyrings_now)
      moreover have "ring_replays (env\<lparr>now := t\<rparr>) d m'" using assms(4) by simp
      ultimately have "ring_replays (env\<lparr>now := t\<rparr>) d1 m'"
        unfolding u(4) using u(2,3) by (intro founding_keeps_replay)
      moreover have "ring_grows d d1 m'"
        unfolding u(4) by (auto simp: ring_grows_def founded_def updates_of_def)
      ultimately show ?thesis by simp
    qed
    with same_keyrings_replay [OF same] same show ?thesis
      by (auto simp: ring_grows_def same_keyrings_def updates_of_def)
  qed
  with d' show ?thesis by simp
qed

lemma db_step_replays:
  assumes "db_step env d d'" "\<And>m. keyring_ok env d m" "keys_ok env d" "ring_replays env d m'"
  shows "ring_replays env d' m' \<and> ring_grows d d' m'"
  using assms(1)
proof (cases rule: db_step.cases)
  case (db_update t param body)
  from keyring_Update_cases [of "env\<lparr>now := t\<rparr>" param body d] show ?thesis
  proof (elim disjE exE conjE)
    assume "snd (keyring_Update (env\<lparr>now := t\<rparr>) param body d) = d"
    with db_update assms(4) show ?thesis by (simp add: ring_grows_def)
  next
    fix m input
    assume u: "InMasterID input = show_uuid (env\<lparr>now := t\<rparr>) m" "update_checked (env\<lparr>now := t\<rparr>) m input d"
      "snd (keyring_Update (env\<lparr>now := t\<rparr>) param body d) = update_applied (env\<lparr>now := t\<rparr>) m input d"
    have "keys_ok (env\<lparr>now := t\<rparr>) d" using assms(3) by (simp only: keyrings_now)
    then have "ring_replays (env\<lparr>now := t\<rparr>) d' m'"
      using update_keeps_replay [of "env\<lparr>now := t\<rparr>" d m' m input] u db_update assms(4) by simp
    moreover have "ring_grows d d' m'"
      using u(3) db_update by (simp add: ring_grows_def updates_of_applied)
    ultimately show ?thesis by simp
  qed
next
  case (db_approve a t i input)
  with approve_replays [OF db_approve(2) assms(2) assms(2) assms(4), of i input] show ?thesis by simp
next
  case (db_create a t m sign enc hostname)
  then have "same_keyrings d d'"
    by (auto simp: same_keyrings_def CreateAuthRequest_def requests_Create_def Let_def split: option.splits)
  then show ?thesis using assms(4) same_keyrings_replay same_keyrings_grows by blast
next
  case (db_tick t)
  then have "same_keyrings d d'"
    by (simp add: same_keyrings_def cleanup_tick_def requests_DeleteExpired_def
        requests_NullifyExpiredPollTokens_def Let_def)
  then show ?thesis using assms(4) same_keyrings_replay same_keyrings_grows by blast
next
  case (db_seen m t hostname)
  then have "same_keyrings d d'"
    by (auto simp: same_keyrings_def machines_UpdateLastSeenAndHostname_def split: if_splits)
  then show ?thesis using assms(4) same_keyrings_replay same_keyrings_grows by blast
next
  case (db_up b)
  then have "same_keyrings d d'" by (simp add: same_keyrings_def)
  then show ?thesis using assms(4) same_keyrings_replay same_keyrings_grows by blast
qed

lemma db_reaches_replays: "db_reaches env d \<Longrightarrow> ring_replays env d m"
proof (induction rule: db_reaches.induct)
  case db_start
  show ?case by (simp add: ring_replays_def key_rows_def updates_of_def replay_def empty_db_def identity_of_def)
next
  case (db_next d d')
  have "keyring_ok env d m" "keys_ok env d" for m
    using db_reaches_keyrings [OF db_next.hyps(1)] by blast+
  with db_step_replays [OF db_next.hyps(2)] db_next.IH show ?case by blast
qed

lemma rings_grow:
  "(db_step env)\<^sup>*\<^sup>* d d' \<Longrightarrow> db_reaches env d \<Longrightarrow> ring_grows d d' m"
proof (induction rule: rtranclp_induct)
  case base
  show ?case by (simp add: ring_grows_def)
next
  case (step d1 d2)
  have r: "db_reaches env d1" using db_reaches_steps [OF step.hyps(1) step.prems] .
  have "keyring_ok env d1 m" "keys_ok env d1" for m using db_reaches_keyrings [OF r] by blast+
  with db_step_replays [OF step.hyps(2)] db_reaches_replays [OF r] have "ring_grows d1 d2 m" by blast
  with step.IH [OF step.prems] show ?case by (auto simp: ring_grows_def)
qed

section \<open>A copy that follows the relay\<close>

text \<open>The codecs of a call read back what they wrote, for the keys, the signatures and this master.\<close>

definition codecs_ok :: "relay_env \<Rightarrow> uuid \<Rightarrow> bool" where
  "codecs_ok env m \<longleftrightarrow> (\<forall>x. b64_decode env (b64_encode env x) = Some x) \<and> b64_encode env [] = [] \<and>
     parse_uuid env (show_uuid env m) = Some m"

text \<open>What the manager knows is what the first n updates of the chain say.\<close>

definition info_view :: "MasterKeyInfo \<Rightarrow> seen_key" where
  "info_view info = (InfoSignPub info, InfoEncPub info, InfoRevokedAt info \<noteq> None)"

definition sent_view :: "relay_env \<Rightarrow> seen_key \<Rightarrow> seen_key" where
  "sent_view env k = (case k of (sign, enc, revoked) \<Rightarrow> (b64_encode env sign, b64_encode env enc, revoked))"

definition tracks :: "relay_env \<Rightarrow> uuid \<Rightarrow> KeyringUpdate list \<Rightarrow> nat \<Rightarrow> Manager \<Rightarrow> bool" where
  "tracks env m us n mgr \<longleftrightarrow>
     MasterID mgr = show_uuid env m \<and> Seq mgr = int n \<and> HeadHash mgr = chain_head [] (take n us) \<and>
     (\<forall>fp. map_option info_view (mgrKeys mgr fp) = map_option (sent_view env) (replay (take n us) fp))"

lemma chain_prefix: "chain s h (us @ vs) \<Longrightarrow> chain s h us"
  by (induction us arbitrary: s h) auto

lemma chain_nth:
  assumes "chain 0 [] us" "n < length us"
  shows "UpdSeq (us ! n) = int n + 1" and "UpdPrevHash (us ! n) = chain_head [] (take n us)"
    and "chain_head [] (take (Suc n) us) = UpdHash (us ! n)"
proof -
  have "us = (take n us @ [us ! n]) @ drop (Suc n) us" using id_take_nth_drop [OF assms(2)] by simp
  with assms(1) have "chain 0 [] (take n us @ [us ! n])" using chain_prefix by metis
  with assms(2) show "UpdSeq (us ! n) = int n + 1" "UpdPrevHash (us ! n) = chain_head [] (take n us)"
    by (simp_all add: chain_append)
  show "chain_head [] (take (Suc n) us) = UpdHash (us ! n)"
    using assms(2) by (simp add: take_Suc_conv_app_nth chain_head_append)
qed

lemma codec_decode [simp]: "codecs_ok env m \<Longrightarrow> b64_decode env (b64_encode env x) = Some x"
  by (simp add: codecs_ok_def)

lemma of_length_Some [simp]: "of_length n (Some x) = (if length x = n then Some x else None)"
  by (simp add: of_length_def)

lemma response_fields [simp]:
  "RecSeq (update_response env created u) = UpdSeq u"
  "RecPrevHash (update_response env created u) = UpdPrevHash u"
  "RecUpdateHash (update_response env created u) = UpdHash u"
  "RecAction (update_response env created u) = UpdAction u"
  "RecTargetFingerprint (update_response env created u) = UpdTargetFingerprint u"
  "RecTargetSignPub (update_response env created u) = b64_encode env (UpdTargetSignPub u)"
  "RecSigner (update_response env created u) = UpdSigner u"
  "RecSignature (update_response env created u) = b64_encode env (UpdSignature u)"
  "RecCreatedAt (update_response env created u) = to_unix (created u)"
  by (simp_all add: update_response_def)

lemma record_message_stored:
  assumes "codecs_ok env m"
  shows "record_message (show_uuid env m) (update_response env created u) = stored_message env m u"
  using assms by (simp add: record_message_def stored_message_def update_response_def codecs_ok_def)

lemma tracks_apply:
  assumes "codecs_ok env m" "UpdAction u = KeyringActionAdd \<or> UpdAction u = KeyringActionRevoke"
    "\<And>fp. map_option info_view (keys fp) = map_option (sent_view env) (ring fp)"
  shows "\<exists>keys'. apply_record (update_response env created u) keys = Some keys' \<and>
    (\<forall>fp. map_option info_view (keys' fp) = map_option (sent_view env) (replay_one ring u fp))"
  using assms(2)
proof
  assume "UpdAction u = KeyringActionAdd"
  with assms(1,3) show ?thesis
    by (auto simp: apply_record_def update_response_def replay_one_def KeyringActionAdd_def info_view_def
        sent_view_def codecs_ok_def)
next
  assume a: "UpdAction u = KeyringActionRevoke"
  let ?fp = "UpdTargetFingerprint u"
  show ?thesis
  proof (cases "keys ?fp")
    case None
    with assms(3) [of ?fp] have "ring ?fp = None" by simp
    with a None assms(3) show ?thesis
      by (auto simp: apply_record_def update_response_def replay_one_def KeyringActionAdd_def KeyringActionRevoke_def)
  next
    case (Some info)
    with assms(3) [of ?fp] obtain k where "ring ?fp = Some k" "info_view info = sent_view env k"
      by (cases "ring ?fp") auto
    with a Some assms(3) show ?thesis
      by (auto simp: apply_record_def update_response_def replay_one_def KeyringActionAdd_def
          KeyringActionRevoke_def info_view_def sent_view_def split: prod.splits)
  qed
qed

lemma tracks_update:
  assumes t: "tracks env m us n mgr" and c: "codecs_ok env m" and ch: "chain 0 [] us" and n: "n < length us"
    and v: "vouched env m (replay (take n us)) (us ! n)"
  shows "\<exists>mgr'. sync_update env (show_uuid env m) (update_response env created (us ! n)) mgr = Inr mgr' \<and>
    tracks env m us (Suc n) mgr'"
proof -
  let ?u = "us ! n" and ?r = "update_response env created (us ! n)"
  from v obtain pub enc where k: "replay (take n us) (UpdSigner ?u) = Some (pub, enc, False)"
    "VerifySignature env pub (stored_message env m ?u) (UpdSignature ?u)"
    "UpdHash ?u = HashBytes env (stored_message env m ?u)"
    "UpdAction ?u = KeyringActionAdd \<or> UpdAction ?u = KeyringActionRevoke" by (auto simp: vouched_def)
  from t have views: "\<And>fp. map_option info_view (mgrKeys mgr fp) = map_option (sent_view env) (replay (take n us) fp)"
    by (simp add: tracks_def)
  from views [of "UpdSigner ?u"] k(1) obtain info where i: "mgrKeys mgr (UpdSigner ?u) = Some info"
    "InfoRevokedAt info = None" "InfoSignPub info = b64_encode env pub"
    by (auto simp: info_view_def sent_view_def)
  obtain keys where a: "apply_record ?r (mgrKeys mgr) = Some keys"
    "\<forall>fp. map_option info_view (keys fp) = map_option (sent_view env) (replay_one (replay (take n us)) ?u fp)"
    using tracks_apply [where keys = "mgrKeys mgr" and ring = "replay (take n us)", OF c k(4) views, of created] by blast
  let ?m = "mgr\<lparr>mgrState := (mgrState mgr)\<lparr>SnapSeq := RecSeq ?r, SnapHeadHash := RecUpdateHash ?r\<rparr>, mgrKeys := keys\<rparr>"
  have "sync_update env (show_uuid env m) ?r mgr = Inr ?m"
    using t k i a(1) chain_nth(1,2) [OF ch n]
    by (simp add: sync_update_def tracks_def crypto_Verify_def VerifySignature_def codec_decode [OF c]
        record_message_stored [OF c] split: if_splits)
  moreover have "tracks env m us (Suc n) ?m"
    using t a(2) chain_nth [OF ch n] n
    by (simp add: tracks_def MasterID_def Seq_def HeadHash_def) (simp add: take_Suc_conv_app_nth)
  ultimately show ?thesis by blast
qed

lemma tracks_updates:
  assumes "codecs_ok env m" "chain 0 [] us"
    "\<forall>n. 0 < n \<longrightarrow> n < length us \<longrightarrow> vouched env m (replay (take n us)) (us ! n)"
  shows "tracks env m us n mgr \<Longrightarrow> 0 < n \<Longrightarrow> n + k \<le> length us \<Longrightarrow>
    \<exists>mgr'. sync_updates env (show_uuid env m) (map (update_response env created) (take k (drop n us))) mgr = (None, mgr') \<and>
      tracks env m us (n + k) mgr'"
proof (induction k arbitrary: n mgr)
  case (Suc k)
  then have n: "n < length us" by simp
  with Suc.prems assms(3) have "vouched env m (replay (take n us)) (us ! n)" by blast
  from tracks_update [OF Suc.prems(1) assms(1,2) n this, of created] obtain mgr1 where
    m: "sync_update env (show_uuid env m) (update_response env created (us ! n)) mgr = Inr mgr1"
    "tracks env m us (Suc n) mgr1" by blast
  from Suc.IH [OF m(2)] Suc.prems(3) obtain mgr' where
    r: "sync_updates env (show_uuid env m) (map (update_response env created) (take k (drop (Suc n) us))) mgr1 = (None, mgr')"
    "tracks env m us (Suc n + k) mgr'" by auto
  have "take (Suc k) (drop n us) = us ! n # take k (drop (Suc n) us)"
    using n by (simp add: Cons_nth_drop_Suc [symmetric])
  with m r show ?case by simp
qed simp

section \<open>Pairing, growing, syncing\<close>

lemma NewManager_keys:
  "distinct (map InfoFingerprint ks) \<Longrightarrow>
    foldl (\<lambda>m key. m(InfoFingerprint key \<mapsto> key)) M ks = M ++ map_of (map (\<lambda>k. (InfoFingerprint k, k)) ks)"
proof (induction ks arbitrary: M)
  case (Cons k ks)
  then have "InfoFingerprint k \<notin> dom (map_of (map (\<lambda>k. (InfoFingerprint k, k)) ks))"
    by (auto simp: dom_map_of_conv_image_fst)
  with Cons show ?case by (auto simp: map_add_def fun_eq_iff split: option.split)
qed simp

lemma map_of_views:
  "map_option info_view (map_of (map (\<lambda>k. (InfoFingerprint k, k)) (map f ks)) fp) =
   map_option (sent_view env) (map_of (map (\<lambda>k. (MasterSignKeyFingerprint k, seen k)) ks) fp)"
  if "\<And>k. InfoFingerprint (f k) = MasterSignKeyFingerprint k" "\<And>k. info_view (f k) = sent_view env (seen k)"
  by (induction ks) (simp_all add: that)

lemma snapshot_tracks:
  assumes "db_reaches env d" "codecs_ok env m" "keyring_Get env (show_uuid env m) d = Inr snap"
  shows "tracks env m (updates_of d m) (length (updates_of d m)) (NewManager snap) \<and> updates_of d m \<noteq> []"
proof -
  let ?info = "\<lambda>k. \<lparr>InfoFingerprint = StFingerprint (key_state env k), InfoSignPub = StSignPub (key_state env k),
    InfoEncPub = StEncPub (key_state env k), InfoRevokedAt = map_option to_unix (StRevokedAt (key_state env k))\<rparr>"
  let ?ks = "filter (\<lambda>k. KeyMaster k = m) (MasterKeys d)"
  from assms(2,3) obtain i where i: "identity_of d m = Some i" "SnapMasterID snap = show_uuid env m"
    "SnapSeq snap = KeyringSeq i" "SnapHeadHash snap = KeyringHeadHash i" "SnapKeys snap = map ?info ?ks"
    by (auto simp: keyring_Get_def GetKeyringState_def and_then_Inr found_Inr wrote_Inr find_identity codecs_ok_def
        masterKeys_ListByMasterID_def toKeyringStateResponse_def comp_def split: sum.splits if_splits)
  from db_reaches_keyrings [OF assms(1), of m] i(1) have ok: "KeyringSeq i = int (length (updates_of d m))"
    "KeyringHeadHash i = chain_head [] (updates_of d m)" "distinct (map MasterSignKeyFingerprint (MasterKeys d))"
    by (auto simp: keyring_ok_def keys_ok_def)
  from db_reaches_replays [OF assms(1), of m] i(1) have r: "updates_of d m \<noteq> []"
    "key_rows (MasterKeys d) m = replay (updates_of d m)" by (auto simp: ring_replays_def)
  have "distinct (map MasterSignKeyFingerprint ?ks)" using ok(3) by (rule distinct_map_filter)
  moreover have "map InfoFingerprint (map ?info ?ks) = map MasterSignKeyFingerprint ?ks" by (simp add: key_state_def)
  ultimately have "mgrKeys (NewManager snap) = map_of (map (\<lambda>k. (InfoFingerprint k, k)) (map ?info ?ks))"
    using NewManager_keys [of "map ?info ?ks" Map.empty] i(5) by (simp add: NewManager_def del: map_map)
  moreover have "map_option info_view (map_of (map (\<lambda>k. (InfoFingerprint k, k)) (map ?info ?ks)) fp) =
      map_option (sent_view env) (key_rows (MasterKeys d) m fp)" for fp
    unfolding key_rows_def
    by (rule map_of_views) (simp_all add: key_state_def info_view_def sent_view_def seen_def)
  ultimately show ?thesis
    using i r ok by (simp add: tracks_def MasterID_def Seq_def HeadHash_def NewManager_def del: map_map)
qed

text \<open>
  The machine's copy over time: taken from the relay when the machine is paired, then anything
  happens at the relay, and now and again the machine syncs (the two reads of the handler being
  apart in time).
\<close>

inductive copy_of :: "relay_env \<Rightarrow> uuid \<Rightarrow> db \<Rightarrow> Manager \<Rightarrow> bool" for env m where
  copy_taken: "db_reaches env d \<Longrightarrow> keyring_Get env (show_uuid env m) d = Inr snap \<Longrightarrow> copy_of env m d (NewManager snap)"
| copy_waits: "copy_of env m d mgr \<Longrightarrow> db_step env d d' \<Longrightarrow> copy_of env m d' mgr"
| copy_syncs: "copy_of env m d mgr \<Longrightarrow> (db_step env)\<^sup>*\<^sup>* d d' \<Longrightarrow>
    copy_of env m d' (snd (Sync (env\<lparr>now := t\<rparr>) (relay_http env created d d') mgr))"

lemma codecs_now:
  "b64_decode (env\<lparr>now := t\<rparr>) = b64_decode env" "HashBytes (env\<lparr>now := t\<rparr>) = HashBytes env"
  "crypto_Verify (env\<lparr>now := t\<rparr>) = crypto_Verify env"
  by (simp_all add: crypto_Verify_def HashBytes_def fun_eq_iff)

lemma sync_update_now [simp]: "sync_update (env\<lparr>now := t\<rparr>) = sync_update env"
  unfolding sync_update_def fun_eq_iff codecs_now by simp

lemma sync_updates_now [simp]: "sync_updates (env\<lparr>now := t\<rparr>) mid us mgr = sync_updates env mid us mgr"
  by (induction us arbitrary: mgr) (auto split: sum.split)

lemma relay_updates:
  assumes "db_reaches env d" "dbUp d" "identity_of d m \<noteq> None" "0 \<le> n"
  shows "GetKeyringUpdates d m n 200 = Inr (take 200 (drop (nat n) (updates_of d m)))"
proof -
  from assms(3) obtain i where i: "identity_of d m = Some i" by auto
  from db_reaches_keyrings [OF assms(1), of m] i have c: "chain 0 [] (updates_of d m)"
    by (simp add: keyring_ok_def)
  have "filter (\<lambda>u. UpdMaster u = m \<and> n < UpdSeq u) (KeyringUpdates d) = filter (\<lambda>u. 0 + n < UpdSeq u) (updates_of d m)"
    by (simp add: updates_of_def conj_commute)
  also have "\<dots> = drop (nat n) (updates_of d m)" by (rule chain_filter [OF c assms(4)])
  finally show ?thesis
    using assms(2) sort_slice_chain [OF c, of "nat n"] find_identity [of d m i] i
    by (simp add: GetKeyringUpdates_def updates_ListByMasterIDFromSeq_def found_def wrote_def and_then_def)
qed

text \<open>A sync against the relay: an error and no change, or up to 200 updates further.\<close>

lemma Sync_relay:
  assumes "db_reaches env d" "codecs_ok env m" "tracks env m (updates_of d m) n mgr" "0 < n"
    "n \<le> length (updates_of d m)" "int n < 2 ^ 63"
  shows "snd (Sync (env\<lparr>now := t\<rparr>) (relay_http env created d d') mgr) = mgr \<or>
    (\<exists>mgr'. Sync (env\<lparr>now := t\<rparr>) (relay_http env created d d') mgr = (None, mgr') \<and>
      tracks env m (updates_of d m) (min (length (updates_of d m)) (n + 200)) mgr')"
    and "dbUp d \<Longrightarrow> dbUp d' \<Longrightarrow> identity_of d m \<noteq> None \<Longrightarrow> identity_of d' m \<noteq> None \<Longrightarrow>
      fst (Sync (env\<lparr>now := t\<rparr>) (relay_http env created d d') mgr) = None \<and>
      tracks env m (updates_of d m) (min (length (updates_of d m)) (n + 200))
        (snd (Sync (env\<lparr>now := t\<rparr>) (relay_http env created d d') mgr))"
proof -
  let ?us = "updates_of d m" and ?http = "relay_http env created d d' (show_uuid env m) (show_int (int n))"
  have req: "MasterID mgr = show_uuid env m" "Seq mgr = int n" using assms(3) by (simp_all add: tracks_def)
  have par: "from_seq_param (show_int (int n)) = Some (int n)"
    using assms(4,6) parse_show_int [of "int n"] by (simp add: from_seq_param_def show_int_def)
  have uuid: "parse_uuid env (show_uuid env m) = Some m" using assms(2) by (simp add: codecs_ok_def)
  have served: "\<exists>mgr'. sync_updates env (show_uuid env m) (map (update_response env created) (take 200 (drop n ?us))) mgr =
      (None, mgr') \<and> tracks env m ?us (min (length ?us) (n + 200)) mgr'" if i: "identity_of d m \<noteq> None"
  proof -
    from db_reaches_keyrings [OF assms(1), of m] i have c: "chain 0 [] ?us" by (auto simp: keyring_ok_def)
    have k: "n + min 200 (length ?us - n) \<le> length ?us" "n + min 200 (length ?us - n) = min (length ?us) (n + 200)"
      using assms(5) by arith+
    have k3: "take (min 200 (length ?us - n)) (drop n ?us) = take 200 (drop n ?us)" by (simp add: min_def)
    from db_reaches_replays [OF assms(1), of m]
    have "\<forall>n. 0 < n \<longrightarrow> n < length ?us \<longrightarrow> vouched env m (replay (take n ?us)) (?us ! n)" by (simp add: ring_replays_def)
    from tracks_updates [OF assms(2) c this assms(3,4) k(1), of created] show ?thesis unfolding k(2) k3 .
  qed
  have sync: "Sync (env\<lparr>now := t\<rparr>) (relay_http env created d d') mgr = sync_reply (env\<lparr>now := t\<rparr>) ?http mgr"
    by (simp add: Sync_def req)
  have reply: "(\<exists>code. ?http = Responded (status_of code) (Some (code_number code, None)) \<and> code \<noteq> CodeSuccess) \<or>
      identity_of d m \<noteq> None \<and> (\<exists>out. ?http = Responded 200 (Some (0, Some out)) \<and> RespMasterID out = show_uuid env m \<and>
        RespUpdates out = map (update_response env created) (take 200 (drop n ?us)))"
  proof (cases "GetKeyringUpdates d m (int n) 200")
    case (Inl e)
    have "read_error_code e \<noteq> CodeSuccess" by (cases e rule: read_error_code.cases) auto
    with Inl show ?thesis
      by (intro disjI1 exI [of _ "read_error_code e"]) (simp add: relay_http_def ListUpdates_def uuid par limit_param_def)
  next
    case (Inr ups)
    then have i: "dbUp d" "identity_of d m \<noteq> None"
      by (auto simp: GetKeyringUpdates_def and_then_Inr found_Inr find_identity)
    with relay_updates [OF assms(1), of m "int n"] Inr have ups: "ups = take 200 (drop n ?us)" by simp
    show ?thesis
    proof (cases "GetKeyringState env d' m")
      case Inl': (Inl e)
      have "read_error_code e \<noteq> CodeSuccess" by (cases e rule: read_error_code.cases) auto
      with Inl' Inr show ?thesis
        by (intro disjI1 exI [of _ "read_error_code e"]) (simp add: relay_http_def ListUpdates_def uuid par limit_param_def)
    next
      case Inr': (Inr st)
      with Inr i ups show ?thesis by (simp add: relay_http_def ListUpdates_def uuid par limit_param_def)
    qed
  qed
  have fail: "sync_reply (env\<lparr>now := t\<rparr>) (Responded (status_of code) (Some (code_number code, None))) mgr = (e, mgr') \<Longrightarrow> mgr' = mgr"
    for code e mgr' by (cases code) (auto simp: sync_reply_def)
  show "snd (Sync (env\<lparr>now := t\<rparr>) (relay_http env created d d') mgr) = mgr \<or>
    (\<exists>mgr'. Sync (env\<lparr>now := t\<rparr>) (relay_http env created d d') mgr = (None, mgr') \<and>
      tracks env m ?us (min (length ?us) (n + 200)) mgr')"
    using reply
  proof (elim disjE exE conjE)
    fix code
    assume "?http = Responded (status_of code) (Some (code_number code, None))"
    with fail [of code] show ?thesis unfolding sync by (metis prod.collapse)
  next
    fix out
    assume "identity_of d m \<noteq> None" "?http = Responded 200 (Some (0, Some out))" "RespMasterID out = show_uuid env m"
      "RespUpdates out = map (update_response env created) (take 200 (drop n ?us))"
    with served show ?thesis unfolding sync by (simp add: sync_reply_def)
  qed
  show "fst (Sync (env\<lparr>now := t\<rparr>) (relay_http env created d d') mgr) = None \<and>
      tracks env m ?us (min (length ?us) (n + 200)) (snd (Sync (env\<lparr>now := t\<rparr>) (relay_http env created d d') mgr))"
    if up: "dbUp d" "dbUp d'" "identity_of d m \<noteq> None" "identity_of d' m \<noteq> None"
  proof -
    obtain st where "GetKeyringState env d' m = Inr st"
      using up by (auto simp: GetKeyringState_def and_then_Inr found_Inr wrote_Inr find_identity masterKeys_ListByMasterID_def)
    then have "?http = Responded 200 (Some (0, Some \<lparr>RespMasterID = show_uuid env m, RespFromSeq = int n,
        RespToSeq = StSeq st, RespHeadHash = StHeadHash st,
        RespUpdates = map (update_response env created) (take 200 (drop n ?us))\<rparr>))"
      using relay_updates [OF assms(1) up(1,3), of "int n"]
      by (simp add: relay_http_def ListUpdates_def uuid par limit_param_def)
    with served [OF up(3)] show ?thesis unfolding sync by (auto simp: sync_reply_def)
  qed
qed

lemma tracks_grown: "tracks env m us n mgr \<Longrightarrow> n \<le> length us \<Longrightarrow> tracks env m (us @ vs) n mgr"
  by (simp add: tracks_def)

lemma tracks_step:
  assumes "ring_grows d d' m" "tracks env m (updates_of d m) n mgr" "n \<le> length (updates_of d m)"
  shows "tracks env m (updates_of d' m) n mgr \<and> n \<le> length (updates_of d' m)"
proof -
  from assms(1) obtain us where "updates_of d' m = updates_of d m @ us" by (auto simp: ring_grows_def)
  with assms tracks_grown [of env m "updates_of d m" n mgr us] show ?thesis by simp
qed

lemma copy_tracks:
  assumes "copy_of env m d mgr" "codecs_ok env m" "int (length (updates_of d m)) < 2 ^ 63"
  shows "db_reaches env d \<and> (\<exists>n. 0 < n \<and> n \<le> length (updates_of d m) \<and> tracks env m (updates_of d m) n mgr)"
  using assms
proof (induction rule: copy_of.induct)
  case (copy_taken d snap)
  with snapshot_tracks [OF copy_taken.hyps(1) copy_taken.prems(1) copy_taken.hyps(2)] show ?case by auto
next
  case (copy_waits d mgr d')
  have g: "ring_grows d d' m"
  proof -
    from copy_waits.hyps(1) have "db_reaches env d"
      by (induction rule: copy_of.induct) (auto intro: db_next db_reaches_steps)
    with rings_grow [of env d d' m] copy_waits.hyps(2) show ?thesis by blast
  qed
  then have "length (updates_of d m) \<le> length (updates_of d' m)" by (auto simp: ring_grows_def)
  with copy_waits obtain n where "db_reaches env d" "0 < n" "n \<le> length (updates_of d m)"
    "tracks env m (updates_of d m) n mgr" by fastforce
  with tracks_step [OF g] db_next copy_waits.hyps(2) show ?case by blast
next
  case (copy_syncs d mgr d' t created)
  have r: "db_reaches env d" using copy_syncs.hyps(1)
    by (induction rule: copy_of.induct) (auto intro: db_next db_reaches_steps)
  with rings_grow [OF copy_syncs.hyps(2)] have g: "ring_grows d d' m" by blast
  then have "length (updates_of d m) \<le> length (updates_of d' m)" by (auto simp: ring_grows_def)
  with copy_syncs obtain n where n: "0 < n" "n \<le> length (updates_of d m)"
    "tracks env m (updates_of d m) n mgr" "int n < 2 ^ 63" by fastforce
  let ?mgr = "snd (Sync (env\<lparr>now := t\<rparr>) (relay_http env created d d') mgr)"
  have "\<exists>k. 0 < k \<and> k \<le> length (updates_of d m) \<and> tracks env m (updates_of d m) k ?mgr"
    using Sync_relay(1) [OF r copy_syncs.prems(1) n(3,1,2,4), of t created d']
  proof (elim disjE exE conjE)
    fix mgr'
    assume "Sync (env\<lparr>now := t\<rparr>) (relay_http env created d d') mgr = (None, mgr')"
      "tracks env m (updates_of d m) (min (length (updates_of d m)) (n + 200)) mgr'"
    with n(1,2) show ?thesis by (intro exI [of _ "min (length (updates_of d m)) (n + 200)"]) auto
  qed (use n in auto)
  with tracks_step [OF g] db_reaches_steps [OF copy_syncs.hyps(2) r] show ?case by blast
qed

lemma tracks_authorized:
  assumes "tracks env m us n mgr"
  shows "IsAuthorized mgr fp \<longleftrightarrow> (\<exists>sign enc. replay (take n us) fp = Some (sign, enc, False))"
proof -
  from assms have "map_option info_view (mgrKeys mgr fp) = map_option (sent_view env) (replay (take n us) fp)"
    by (simp add: tracks_def)
  then show ?thesis
    by (cases "mgrKeys mgr fp"; cases "replay (take n us) fp")
      (auto simp: IsAuthorized_def info_view_def sent_view_def)
qed

section \<open>Where trust comes from\<close>

text \<open>
  The sign keys that a manager's keys vouch for: its own that are not revoked, and those that a
  trusted key has signed an add update for.
\<close>

inductive trusted :: "relay_env \<Rightarrow> Manager \<Rightarrow> string \<Rightarrow> bool" for env m where
  trusted_own: "SignPub env m fp = Some pub \<Longrightarrow> trusted env m pub"
| trusted_added: "trusted env m signer \<Longrightarrow> PayAction p = ''add'' \<Longrightarrow>
    crypto_Verify env signer (BuildKeyringUpdateMessage p) sig \<Longrightarrow>
    b64_decode env (PayTargetSignPub p) = Some pub \<Longrightarrow> trusted env m pub"

definition all_trusted :: "relay_env \<Rightarrow> Manager \<Rightarrow> Manager \<Rightarrow> bool" where
  "all_trusted env m m' \<longleftrightarrow> (\<forall>fp pub. SignPub env m' fp = Some pub \<longrightarrow> trusted env m pub)"

lemma sync_update_Inr:
  assumes "sync_update env mid u m = Inr m'"
  obtains pub sig keys where "SignPub env m (RecSigner u) = Some pub" "RecSeq u = Seq m + 1"
    "RecPrevHash u = HeadHash m" "RecUpdateHash u = HashBytes env (record_message mid u)"
    "b64_decode env (RecSignature u) = Some sig" "crypto_Verify env pub (record_message mid u) sig"
    "apply_record u (mgrKeys m) = Some keys"
    "m' = m\<lparr>mgrState := (mgrState m)\<lparr>SnapSeq := RecSeq u, SnapHeadHash := RecUpdateHash u\<rparr>, mgrKeys := keys\<rparr>"
  using assms
  by (auto simp: sync_update_def SignPub_def Let_def split: if_splits option.splits)

lemma sync_update_trusted:
  assumes "sync_update env mid u m1 = Inr m2" "all_trusted env m m1"
  shows "all_trusted env m m2"
  using assms(1)
proof (rule sync_update_Inr)
  fix pub sig keys
  assume u: "SignPub env m1 (RecSigner u) = Some pub" "crypto_Verify env pub (record_message mid u) sig"
    "apply_record u (mgrKeys m1) = Some keys"
    "m2 = m1\<lparr>mgrState := (mgrState m1)\<lparr>SnapSeq := RecSeq u, SnapHeadHash := RecUpdateHash u\<rparr>, mgrKeys := keys\<rparr>"
  from u(1) assms(2) have p: "trusted env m pub" by (simp add: all_trusted_def)
  show ?thesis unfolding all_trusted_def
  proof (intro allI impI)
    fix fp pub'
    assume s: "SignPub env m2 fp = Some pub'"
    show "trusted env m pub'"
    proof (cases "SignPub env m1 fp = Some pub'")
      case True
      with assms(2) show ?thesis by (simp add: all_trusted_def)
    next
      case False
      with s u(3,4) have "RecAction u = ''add''" "b64_decode env (RecTargetSignPub u) = Some pub'"
        by (auto simp: apply_record_def SignPub_def of_length_def split: if_splits option.splits)
      with trusted_added [OF p _ u(2) [unfolded record_message_def], of pub'] show ?thesis by simp
    qed
  qed
qed

lemma sync_updates_trusted: "all_trusted env m m1 \<Longrightarrow> all_trusted env m (snd (sync_updates env mid us m1))"
  by (induction us arbitrary: m1) (auto split: sum.split intro: sync_update_trusted)

lemma sync_reply_trusted: "all_trusted env m m1 \<Longrightarrow> all_trusted env m (snd (sync_reply env r m1))"
  by (auto simp: sync_reply_def sync_updates_trusted split: updates_reply.split option.split)

text \<open>Any number of replies, whoever gives them.\<close>

definition after_replies :: "relay_env \<Rightarrow> updates_reply list \<Rightarrow> Manager \<Rightarrow> Manager" where
  "after_replies env replies m = fold (\<lambda>r m. snd (sync_reply env r m)) replies m"

lemma after_replies_trusted: "all_trusted env m (after_replies env replies m)"
proof -
  have "all_trusted env m m1 \<Longrightarrow> all_trusted env m (after_replies env replies m1)" for m1
    unfolding after_replies_def by (induction replies arbitrary: m1) (simp_all add: sync_reply_trusted)
  moreover have "all_trusted env m m" by (auto simp: all_trusted_def intro: trusted_own)
  ultimately show ?thesis by blast
qed

lemma accepted_token:
  assumes "Manager_VerifyMachineToken env m token = Inr claims"
  obtains payload sig expiry pub where "decode_token env token = Inr (payload, sig)"
    "payload = join_on bar [''muxagent-machine-token-v1'', ClaimMasterID claims, ClaimMachineID claims,
       ClaimFingerprint claims, expiry]"
    "parse_unix expiry = Some (ClaimExpiresAt claims)" "now env \<le> ClaimExpiresAt claims"
    "SignPub env m (ClaimFingerprint claims) = Some pub" "crypto_Verify env pub payload sig"
proof -
  from assms obtain payload sig a b c expiry t pub where d: "decode_token env token = Inr (payload, sig)"
    "split_on bar payload = [''muxagent-machine-token-v1'', a, b, c, expiry]" "parse_unix expiry = Some t"
    "\<not> t < now env" "SignPub env m c = Some pub" "crypto_Verify env pub payload sig"
    "claims = \<lparr>ClaimMasterID = a, ClaimMachineID = b, ClaimFingerprint = c, ClaimExpiresAt = t\<rparr>"
    by (auto simp: Manager_VerifyMachineToken_def split: sum.splits prod.splits list.splits if_splits option.splits)
  with join_split [of bar payload] show ?thesis by (intro that) (simp_all add: not_less)
qed

section \<open>Properties\<close>

text \<open>
  C13: the machine's copy of its master's keyring stays in step with the relay: whatever the pairing
  and keyring services have done, and however often the machine has synced since it was paired, a
  sync that reaches the relay is accepted in full; when the relay is at most 200 updates ahead (the
  handler's page) the machine then has the relay's number and head and takes exactly the keys for
  authorized that the relay has not revoked, and otherwise it is 200 updates further.
\<close>

theorem machine_copy_catches_up:
  assumes "codecs_ok env m" and "copy_of env m d mgr" and "int (length (updates_of d m)) < 2 ^ 63"
    and "identity_of d m = Some i" and "dbUp d" and "dbUp d'" and "(db_step env)\<^sup>*\<^sup>* d d'"
  shows "\<exists>mgr'. Sync (env\<lparr>now := t\<rparr>) (relay_http env created d d') mgr = (None, mgr') \<and>
    Seq mgr' = min (KeyringSeq i) (Seq mgr + 200) \<and>
    (KeyringSeq i \<le> Seq mgr + 200 \<longrightarrow>
       HeadHash mgr' = KeyringHeadHash i \<and>
       (\<forall>fp. IsAuthorized mgr' fp \<longleftrightarrow>
          (\<exists>key\<in>set (MasterKeys d). KeyMaster key = m \<and> MasterSignKeyFingerprint key = fp \<and> KeyRevokedAt key = None)))"
proof -
  let ?us = "updates_of d m" and ?http = "relay_http env created d d'"
  from copy_tracks [OF assms(2,1,3)] obtain n where n: "db_reaches env d" "0 < n" "n \<le> length ?us"
    "tracks env m ?us n mgr" by blast
  from db_reaches_keyrings [OF n(1), of m] assms(4) have ok: "KeyringSeq i = int (length ?us)"
    "KeyringHeadHash i = chain_head [] ?us" "distinct (map MasterSignKeyFingerprint (MasterKeys d))"
    by (auto simp: keyring_ok_def keys_ok_def)
  from db_reaches_replays [OF n(1), of m] have r: "key_rows (MasterKeys d) m = replay ?us" by (simp add: ring_replays_def)
  have "?us \<noteq> []" using n(2,3) by auto
  with rings_grow [OF assms(7) n(1), of m] have "updates_of d' m \<noteq> []" by (auto simp: ring_grows_def)
  with db_reaches_keyrings [OF db_reaches_steps [OF assms(7) n(1)], of m] have "identity_of d' m \<noteq> None"
    by (cases "identity_of d' m") (auto simp: keyring_ok_def)
  moreover have "int n < 2 ^ 63" using n(3) assms(3) by simp
  ultimately obtain mgr' where s: "Sync (env\<lparr>now := t\<rparr>) ?http mgr = (None, mgr')"
    "tracks env m ?us (min (length ?us) (n + 200)) mgr'"
    using Sync_relay(2) [OF n(1) assms(1) n(4,2,3), of d' t created] assms(4-6)
    by (cases "Sync (env\<lparr>now := t\<rparr>) ?http mgr") auto
  have seq: "Seq mgr = int n" using n(4) by (simp add: tracks_def)
  have "IsAuthorized mgr' fp \<longleftrightarrow> (\<exists>key\<in>set (MasterKeys d). KeyMaster key = m \<and>
      MasterSignKeyFingerprint key = fp \<and> KeyRevokedAt key = None)" if "length ?us \<le> n + 200" for fp
    using tracks_authorized [OF s(2), of fp] that key_rows_iff [OF ok(3), of m fp] r
    by (auto simp: seen_def min_def)
  moreover have "HeadHash mgr' = KeyringHeadHash i" if "length ?us \<le> n + 200"
    using s(2) that ok(2) by (simp add: tracks_def min_def)
  moreover have "Seq mgr' = min (KeyringSeq i) (Seq mgr + 200)"
    using s(2) ok(1) seq by (simp add: tracks_def)
  ultimately show ?thesis using s(1) seq ok(1) by auto
qed

abbreviation (input) demo_fp :: string where
  "demo_fp \<equiv> replicate 32 CHR ''p''"

definition demo_snapshot :: KeyringSnapshot where
  "demo_snapshot = \<lparr>SnapMasterID = ''1'', SnapSeq = 1, SnapHeadHash = update_message demo_env demo_first,
     SnapKeys = [\<lparr>InfoFingerprint = demo_fp, InfoSignPub = demo_fp, InfoEncPub = ''e'', InfoRevokedAt = None\<rparr>]\<rparr>"

definition revoked_db :: db where
  "revoked_db = snd (keyring_Update demo_env ''1'' (Some demo_revoke) approved_db)"

lemma demo_codecs_ok: "codecs_ok demo_env 1"
  by (simp add: codecs_ok_def show_one)

lemma demo_taken: "keyring_Get demo_env (show_uuid demo_env 1) approved_db = Inr demo_snapshot"
  by (simp add: keyring_Get_def show_one GetKeyringState_def pairing_simps approved_db_def
      masterKeys_ListByMasterID_def first_key_def key_state_def toKeyringStateResponse_def demo_snapshot_def)

lemma revoked_step: "db_step demo_env approved_db revoked_db"
proof -
  have "demo_env\<lparr>now := 0\<rparr> = demo_env" by (simp add: demo_env_def)
  with db_update [of demo_env approved_db 0 "''1''" "Some demo_revoke"] show ?thesis by (simp add: revoked_db_def)
qed

lemma revoked_db_tables:
  "dbUp revoked_db \<and> (\<exists>i. identity_of revoked_db 1 = Some i \<and> KeyringSeq i = 2) \<and>
   length (updates_of revoked_db 1) = 2"
  by (simp add: revoked_db_def keyring_Update_def demo_revoke_def of_length_def UpdateKeyring_def pairing_simps
      update_keyring_def approved_db_def masterKeys_FindByMasterAndFingerprint_def apply_revoke_def
      masterKeys_Revoke_def identities_UpdateKeyringState_def first_key_def first_update_def new_update_def
      KeyringActionRevoke_def HashBytes_def identity_of_def updates_of_def)

theorem machine_copy_catches_up_witness:
  "IsAuthorized (NewManager demo_snapshot) demo_fp \<and>
   (\<exists>mgr. Sync (demo_env\<lparr>now := 5\<rparr>) (relay_http demo_env (\<lambda>_. 0) revoked_db revoked_db) (NewManager demo_snapshot) =
      (None, mgr) \<and> Seq mgr = 2 \<and> (\<forall>fp. \<not> IsAuthorized mgr fp))"
proof -
  have c: "copy_of demo_env 1 revoked_db (NewManager demo_snapshot)"
    using copy_taken [OF approved_reachable demo_taken] revoked_step by (rule copy_waits)
  have seq: "Seq (NewManager demo_snapshot) = 1" by (simp add: Seq_def NewManager_def demo_snapshot_def)
  have keys: "MasterKeys revoked_db = [revoked_key]" using demo_revoked by (simp add: revoked_db_def)
  from revoked_db_tables obtain i where i: "dbUp revoked_db" "identity_of revoked_db 1 = Some i" "KeyringSeq i = 2"
    "int (length (updates_of revoked_db 1)) < 2 ^ 63" by auto
  from machine_copy_catches_up [OF demo_codecs_ok c i(4,2,1,1) rtranclp.rtrancl_refl, of 5 "\<lambda>_. 0"] seq i(3) keys
  show ?thesis
    by (auto simp: revoked_key_def first_key_def IsAuthorized_def NewManager_def demo_snapshot_def)
qed

text \<open>
  C37: the machine takes a machine token only on the word of a trusted key: whatever the relay, or anyone
  in its place, has answered to any number of syncs, an accepted token spells out its claims, has not
  expired, and is signed by a key that the machine knew when it was paired or that a chain of signed
  add updates leads back to such a key.
\<close>

theorem accepted_tokens_trace_back:
  assumes "Manager_VerifyMachineToken env (after_replies env replies m) token = Inr claims"
  shows "\<exists>payload sig expiry pub. decode_token env token = Inr (payload, sig) \<and>
    payload = join_on bar [''muxagent-machine-token-v1'', ClaimMasterID claims, ClaimMachineID claims,
      ClaimFingerprint claims, expiry] \<and>
    parse_unix expiry = Some (ClaimExpiresAt claims) \<and> now env \<le> ClaimExpiresAt claims \<and>
    trusted env m pub \<and> crypto_Verify env pub payload sig"
proof -
  from assms obtain payload sig expiry pub where "decode_token env token = Inr (payload, sig)"
    "payload = join_on bar [''muxagent-machine-token-v1'', ClaimMasterID claims, ClaimMachineID claims,
       ClaimFingerprint claims, expiry]" "parse_unix expiry = Some (ClaimExpiresAt claims)"
    "now env \<le> ClaimExpiresAt claims" "crypto_Verify env pub payload sig"
    and pub: "SignPub env (after_replies env replies m) (ClaimFingerprint claims) = Some pub"
    by (rule accepted_token)
  moreover from after_replies_trusted pub have "trusted env m pub" by (simp add: all_trusted_def)
  ultimately show ?thesis by blast
qed

definition demo_machine_keyring :: Manager where
  "demo_machine_keyring = NewManager (demo_snapshot\<lparr>SnapKeys :=
     [\<lparr>InfoFingerprint = ''k'', InfoSignPub = demo_fp, InfoEncPub = ''e'', InfoRevokedAt = None\<rparr>]\<rparr>)"

theorem accepted_tokens_trace_back_witness:
  "trusted demo_env demo_machine_keyring demo_fp \<and>
   (\<exists>claims pub. Manager_VerifyMachineToken demo_env (after_replies demo_env [RequestFailed] demo_machine_keyring)
      demo_machine_token = Inr claims \<and> trusted demo_env demo_machine_keyring pub \<and>
      ClaimMachineID claims = ''2'' \<and> go_unix 9 = ClaimExpiresAt claims)"
proof -
  let ?claims = "\<lparr>ClaimMasterID = ''1'', ClaimMachineID = ''2'', ClaimFingerprint = ''k'', ClaimExpiresAt = go_unix 9\<rparr>"
  have "after_replies demo_env [RequestFailed] demo_machine_keyring = demo_machine_keyring"
    by (simp add: after_replies_def sync_reply_def)
  then have v: "Manager_VerifyMachineToken demo_env (after_replies demo_env [RequestFailed] demo_machine_keyring)
      demo_machine_token = Inr ?claims"
    by (simp add: Manager_VerifyMachineToken_def decode_token_def token_simps split_demo_sig SignPub_def
        demo_machine_keyring_def NewManager_def parse_unix_def crypto_Verify_def of_length_def)
  have "SignPub demo_env demo_machine_keyring ''k'' = Some demo_fp"
    by (simp add: SignPub_def demo_machine_keyring_def NewManager_def)
  then have "trusted demo_env demo_machine_keyring demo_fp" by (rule trusted_own)
  with accepted_tokens_trace_back [OF v] v show ?thesis by (metis TokenClaims.select_convs(2,4))
qed


definition demo_served_revoke :: keyringUpdateRecord where
  "demo_served_revoke =
     \<lparr>RecSeq = 2, RecPrevHash = update_message demo_env demo_first,
      RecUpdateHash = record_message ''1'' \<lparr>RecSeq = 2, RecPrevHash = update_message demo_env demo_first,
        RecUpdateHash = [], RecAction = ''revoke'', RecTargetFingerprint = demo_fp, RecTargetSignPub = demo_fp,
        RecTargetEncPub = [], RecSigner = demo_fp, RecSignature = demo_sig, RecCreatedAt = 0\<rparr>,
      RecAction = ''revoke'', RecTargetFingerprint = demo_fp, RecTargetSignPub = demo_fp,
      RecTargetEncPub = [], RecSigner = demo_fp, RecSignature = demo_sig, RecCreatedAt = 0\<rparr>"


end
