(* ===== verification/RelayClient.thy ===== *)
theory RelayClient
  imports MachineKeyring
begin

text \<open>
  The machine's side of the relay connection (cli/internal/relayws: client.go, session.go,
  protocol.go, url.go): registering by signing the relay's nonce, accepting end-to-end sessions,
  and the discipline by which frames are only written under an acknowledged session.
\<close>

section \<open>Sessions\<close>

text \<open>
  What the client's calls take from outside: the surroundings of MachineKeyring, the machine's
  Ed25519 signing, X25519 and HKDF (None when they fail), SHA-256, and XChaCha20-Poly1305 with the
  associated data last.
\<close>

record client_env =
  cli :: relay_env
  machine_sign :: "string \<Rightarrow> string"
  x25519 :: "string \<Rightarrow> string \<Rightarrow> string option"
  sha256_raw :: "string \<Rightarrow> string"
  hkdf :: "string \<Rightarrow> string \<Rightarrow> string \<Rightarrow> string option"
  aead_seal :: "string \<Rightarrow> string \<Rightarrow> string \<Rightarrow> string \<Rightarrow> string"
  aead_open :: "string \<Rightarrow> string \<Rightarrow> string \<Rightarrow> string \<Rightarrow> string option"

definition SignBase64 :: "client_env \<Rightarrow> string \<Rightarrow> string" where
  "SignBase64 env message = b64_encode (cli env) (machine_sign env message)"

text \<open>A session is a pointer in the source: SessRef tells sessions apart.\<close>

record Session =
  SessRef :: nat
  SessMachineID :: string
  SessEpoch :: nat
  SessKey :: string

definition newSession :: "nat \<Rightarrow> string \<Rightarrow> string \<Rightarrow> nat \<Rightarrow> Session" where
  "newSession ref machineID key connEpoch =
     \<lparr>SessRef = ref, SessMachineID = machineID, SessEpoch = connEpoch, SessKey = key\<rparr>"

definition deriveSessionKey :: "client_env \<Rightarrow> string \<Rightarrow> string \<Rightarrow> string option" where
  "deriveSessionKey env sharedSecret transcript =
     hkdf env sharedSecret (sha256_raw env transcript) ''muxagent-session-v1''"

definition buildAAD :: "string \<Rightarrow> string \<Rightarrow> string \<Rightarrow> string" where
  "buildAAD machineID msgType msgID =
     ''muxagent-aad-v1'' @ [bar] @ machineID @ [bar] @ msgType @ [bar] @ msgID"

text \<open>Session.encrypt, with the nonce that rand.Read gives (None when it fails).\<close>

definition Session_encrypt ::
  "client_env \<Rightarrow> Session \<Rightarrow> string option \<Rightarrow> string \<Rightarrow> string \<Rightarrow> string \<Rightarrow> (string \<times> string) option" where
  "Session_encrypt env s random msgType msgID plaintext =
     (case random of
        None \<Rightarrow> None
      | Some nonce \<Rightarrow>
          (let aad = buildAAD (SessMachineID s) msgType msgID;
               ciphertext = aead_seal env (SessKey s) nonce plaintext aad
           in Some (b64_encode (cli env) nonce, b64_encode (cli env) ciphertext)))"

definition Session_decrypt ::
  "client_env \<Rightarrow> Session \<Rightarrow> string \<Rightarrow> string \<Rightarrow> string \<Rightarrow> string \<Rightarrow> string option" where
  "Session_decrypt env s msgType msgID nonceB64 ciphertextB64 =
     (case b64_decode (cli env) nonceB64 of
        None \<Rightarrow> None
      | Some nonce \<Rightarrow>
          if length nonce \<noteq> 24 then None
          else
            (case b64_decode (cli env) ciphertextB64 of
               None \<Rightarrow> None
             | Some ciphertext \<Rightarrow>
                 aead_open env (SessKey s) nonce ciphertext (buildAAD (SessMachineID s) msgType msgID)))"

section \<open>Registering\<close>

text \<open>
  What the relay sends while the client registers, read as the loop of Connect reads it: JSON
  without an envelope, a challenge (None when it does not decode), the confirmation, an error, or
  another type; the list ends where reading fails.
\<close>

datatype register_in =
    NoEnvelope
  | InChallenge "string option"
  | InRegistered
  | InError "string option"
  | InOther

datatype register_out =
    RegisterMessage string string
  | ChallengeResponse string

datatype connect_result =
    SendRegisterFailed
  | ReadRegisterFailed
  | InvalidChallenge
  | SendResponseFailed
  | RegistrationRejected "string option"
  | Cancelled
  | Connected

text \<open>The loop, with the frames written; sent tells whether a write succeeds.\<close>

fun register_loop ::
  "client_env \<Rightarrow> (register_out \<Rightarrow> bool) \<Rightarrow> bool \<Rightarrow> string \<Rightarrow> register_in list \<Rightarrow> register_out list \<times> connect_result" where
  "register_loop env sent cancelled machineID [] = ([], ReadRegisterFailed)"
| "register_loop env sent cancelled machineID (msg # msgs) =
     (case msg of
        NoEnvelope \<Rightarrow> register_loop env sent cancelled machineID msgs
      | InChallenge challenge \<Rightarrow>
          (case challenge of
             None \<Rightarrow> ([], InvalidChallenge)
           | Some nonce \<Rightarrow>
               if nonce = [] then ([], InvalidChallenge)
               else
                 (let out = ChallengeResponse (SignBase64 env (BuildMachineAuthMessage machineID nonce))
                  in if \<not> sent out then ([], SendResponseFailed)
                     else (case register_loop env sent cancelled machineID msgs of
                             (outs, res) \<Rightarrow> (out # outs, res))))
      | InRegistered \<Rightarrow> ([], if cancelled then Cancelled else Connected)
      | InError err \<Rightarrow> ([], RegistrationRejected err)
      | InOther \<Rightarrow> register_loop env sent cancelled machineID msgs)"

definition register_connection ::
  "client_env \<Rightarrow> (register_out \<Rightarrow> bool) \<Rightarrow> bool \<Rightarrow> string \<Rightarrow> string \<Rightarrow> register_in list \<Rightarrow>
     register_out list \<times> connect_result" where
  "register_connection env sent cancelled machineID hostname msgs =
     (let out = RegisterMessage machineID hostname
      in if \<not> sent out then ([], SendRegisterFailed)
         else (case register_loop env sent cancelled machineID msgs of (outs, res) \<Rightarrow> (out # outs, res)))"

section \<open>The connection state\<close>

text \<open>
  Connections are numbers.  connEpoch is a uint64 that grows by one at every connect and close; it
  is a natural number here.
\<close>

record client_state =
  machineID :: string
  credsMasterID :: string
  connection :: "nat option"
  connEpoch :: nat
  session :: "Session option"
  activeSession :: "Session option"

datatype relayws_error =
    ErrRelayNotConnected
  | ErrNoActiveSession
  | ErrStaleRelaySession
  | ErrBuild
  | ErrWrite

definition HasSession :: "client_state \<Rightarrow> bool" where
  "HasSession c \<longleftrightarrow> session c \<noteq> None \<or> activeSession c \<noteq> None"

definition detachActiveConnectionLocked :: "client_state \<Rightarrow> nat option \<times> client_state" where
  "detachActiveConnectionLocked c =
     (connection c, c\<lparr>connection := None, session := None, activeSession := None, connEpoch := connEpoch c + 1\<rparr>)"

definition publishActiveConnectionLocked :: "nat \<Rightarrow> client_state \<Rightarrow> client_state" where
  "publishActiveConnectionLocked conn c =
     c\<lparr>connEpoch := connEpoch c + 1, connection := Some conn, session := None, activeSession := None\<rparr>"

definition installSession :: "Session \<Rightarrow> client_state \<Rightarrow> relayws_error + client_state" where
  "installSession s c =
     (if connEpoch c \<noteq> SessEpoch s then Inl ErrStaleRelaySession
      else if connection c = None then Inl ErrRelayNotConnected
      else Inr (c\<lparr>session := Some s, activeSession := None\<rparr>))"

definition activateSession :: "Session \<Rightarrow> client_state \<Rightarrow> relayws_error + client_state" where
  "activateSession s c =
     (if connEpoch c \<noteq> SessEpoch s then Inl ErrStaleRelaySession
      else if connection c = None then Inl ErrRelayNotConnected
      else if session c \<noteq> Some s then Inl ErrStaleRelaySession
      else Inr (c\<lparr>activeSession := Some s\<rparr>))"

definition clearSessionLocked :: "Session \<Rightarrow> client_state \<Rightarrow> client_state" where
  "clearSessionLocked s c =
     (let c = (if session c = Some s then c\<lparr>session := None\<rparr> else c)
      in if activeSession c = Some s then c\<lparr>activeSession := None\<rparr> else c)"

definition handleSessionEnd :: "nat \<Rightarrow> string \<Rightarrow> client_state \<Rightarrow> client_state" where
  "handleSessionEnd epoch msgMachineID c =
     (if msgMachineID = [] \<or> msgMachineID \<noteq> machineID c then c
      else if connEpoch c \<noteq> epoch then c
      else c\<lparr>session := None, activeSession := None\<rparr>)"

text \<open>
  writeSessionAckAndActivate: the check before the write, and what follows a write that succeeded
  (the client and the error, if any) or failed.
\<close>

definition ack_ready :: "Session \<Rightarrow> client_state \<Rightarrow> relayws_error + nat" where
  "ack_ready s c =
     (if connEpoch c \<noteq> SessEpoch s then Inl ErrStaleRelaySession
      else (case connection c of None \<Rightarrow> Inl ErrRelayNotConnected | Some conn \<Rightarrow> Inr conn))"

definition ack_failed :: "Session \<Rightarrow> client_state \<Rightarrow> client_state" where
  "ack_failed s c = clearSessionLocked s c"

definition ack_written :: "Session \<Rightarrow> nat \<Rightarrow> client_state \<Rightarrow> relayws_error option \<times> client_state" where
  "ack_written s conn c =
     (if connEpoch c \<noteq> SessEpoch s then (Some ErrStaleRelaySession, clearSessionLocked s c)
      else if connection c \<noteq> Some conn then (Some ErrStaleRelaySession, clearSessionLocked s c)
      else if session c \<noteq> Some s then (Some ErrStaleRelaySession, c)
      else (None, c\<lparr>activeSession := Some s\<rparr>))"

text \<open>writeEncryptedForActiveSession: the reading before the message is built, and the check after.\<close>

definition enc_read :: "client_state \<Rightarrow> relayws_error + (nat \<times> nat \<times> Session)" where
  "enc_read c =
     (case connection c of
        None \<Rightarrow> Inl ErrRelayNotConnected
      | Some conn \<Rightarrow>
          (case activeSession c of
             None \<Rightarrow> Inl ErrNoActiveSession
           | Some s \<Rightarrow> Inr (connEpoch c, conn, s)))"

definition enc_recheck :: "nat \<Rightarrow> nat \<Rightarrow> Session \<Rightarrow> client_state \<Rightarrow> relayws_error option" where
  "enc_recheck epoch conn s c =
     (if connEpoch c \<noteq> epoch then Some ErrStaleRelaySession
      else if connection c = None then Some ErrRelayNotConnected
      else if connection c \<noteq> Some conn then Some ErrStaleRelaySession
      else if activeSession c = None then Some ErrNoActiveSession
      else if activeSession c \<noteq> Some s then Some ErrStaleRelaySession
      else None)"

definition protocol_ready :: "nat \<Rightarrow> client_state \<Rightarrow> relayws_error + nat" where
  "protocol_ready epoch c =
     (if connEpoch c \<noteq> epoch then Inl ErrStaleRelaySession
      else (case connection c of None \<Rightarrow> Inl ErrRelayNotConnected | Some conn \<Rightarrow> Inr conn))"

text \<open>writeForSession\<close>

definition response_ready :: "Session \<Rightarrow> client_state \<Rightarrow> relayws_error + nat" where
  "response_ready s c =
     (if connEpoch c \<noteq> SessEpoch s then Inl ErrStaleRelaySession
      else
        (case connection c of
           None \<Rightarrow> Inl ErrRelayNotConnected
         | Some conn \<Rightarrow>
             if activeSession c = None then Inl ErrNoActiveSession
             else if activeSession c \<noteq> Some s then Inl ErrStaleRelaySession
             else Inr conn))"

definition isExpectedRelayDrop :: "relayws_error \<Rightarrow> bool" where
  "isExpectedRelayDrop err \<longleftrightarrow>
     err = ErrRelayNotConnected \<or> err = ErrNoActiveSession \<or> err = ErrStaleRelaySession"

section \<open>handleSessionInit\<close>

record SessionInitMessage =
  IniMachineID :: string
  IniMachineToken :: string
  IniClientEphemeralPub :: string
  IniSignature :: string

record SessionAckMessage =
  AckMachine :: string
  AckMachineEphemeralPub :: string
  AckSig :: string

datatype init_error =
    MachineIDMismatch
  | TokenRefused keyring_error
  | MachineTokenMismatch
  | UnauthorizedSigner
  | SignatureNotBase64
  | InvalidSessionInitSignature
  | InvalidClientEphemeralPub
  | KeyGenerationFailed
  | KeyAgreementFailed

text \<open>The token, checked against the keyring as it is then.\<close>

definition check_init_token ::
  "relay_env \<Rightarrow> Manager \<Rightarrow> client_state \<Rightarrow> SessionInitMessage \<Rightarrow> init_error + TokenClaims" where
  "check_init_token env m c msg =
     (if IniMachineID msg \<noteq> machineID c then Inl MachineIDMismatch
      else
        (case Manager_VerifyMachineToken env m (IniMachineToken msg) of
           Inl err \<Rightarrow> Inl (TokenRefused err)
         | Inr claims \<Rightarrow>
             if ClaimMachineID claims \<noteq> machineID c \<or> ClaimMasterID claims \<noteq> credsMasterID c
             then Inl MachineTokenMismatch
             else Inr claims))"

text \<open>
  The rest up to the session key: the keyring is read again, the key pair is what
  GenerateX25519KeyPair gives (None when it fails).
\<close>

definition agree_session ::
  "client_env \<Rightarrow> Manager \<Rightarrow> client_state \<Rightarrow> SessionInitMessage \<Rightarrow> TokenClaims \<Rightarrow> (string \<times> string) option \<Rightarrow>
     init_error + (string \<times> string)" where
  "agree_session env m c msg claims pair =
     (case SignPub (cli env) m (ClaimFingerprint claims) of
        None \<Rightarrow> Inl UnauthorizedSigner
      | Some pub \<Rightarrow>
          (case b64_decode (cli env) (IniSignature msg) of
             None \<Rightarrow> Inl SignatureNotBase64
           | Some sigBytes \<Rightarrow>
               if \<not> crypto_Verify (cli env) pub
                    (BuildSessionInitMessage (machineID c) (IniClientEphemeralPub msg)) sigBytes
               then Inl InvalidSessionInitSignature
               else
                 (case of_length 32 (b64_decode (cli env) (IniClientEphemeralPub msg)) of
                    None \<Rightarrow> Inl InvalidClientEphemeralPub
                  | Some clientEphemeralPub \<Rightarrow>
                      (case pair of
                         None \<Rightarrow> Inl KeyGenerationFailed
                       | Some (machineEphemeralPub, machineEphemeralPriv) \<Rightarrow>
                           (case x25519 env machineEphemeralPriv clientEphemeralPub of
                              None \<Rightarrow> Inl KeyAgreementFailed
                            | Some sharedSecret \<Rightarrow>
                                (let machineEphemeralPubB64 = b64_encode (cli env) machineEphemeralPub
                                 in case deriveSessionKey env sharedSecret
                                      (IniClientEphemeralPub msg @ [bar] @ machineEphemeralPubB64 @ [bar] @ machineID c) of
                                      None \<Rightarrow> Inl KeyAgreementFailed
                                    | Some key \<Rightarrow> Inr (machineEphemeralPubB64, key)))))))"

definition session_ack :: "client_env \<Rightarrow> client_state \<Rightarrow> string \<Rightarrow> SessionAckMessage" where
  "session_ack env c machineEphemeralPubB64 =
     \<lparr>AckMachine = machineID c, AckMachineEphemeralPub = machineEphemeralPubB64,
      AckSig = SignBase64 env (BuildSessionAckMessage (machineID c) machineEphemeralPubB64)\<rparr>"

text \<open>HTTPURLFromWS\<close>

definition trim_prefix :: "string \<Rightarrow> string \<Rightarrow> string" where
  "trim_prefix s p = (if prefix p s then drop (length p) s else s)"

definition trim_suffix :: "string \<Rightarrow> string \<Rightarrow> string" where
  "trim_suffix s p = (if suffix p s then take (length s - length p) s else s)"

definition HTTPURLFromWS :: "string \<Rightarrow> string" where
  "HTTPURLFromWS wsURL =
     (let httpURL = wsURL;
          httpURL = (if prefix ''ws://'' httpURL then ''http://'' @ trim_prefix httpURL ''ws://'' else httpURL);
          httpURL = (if prefix ''wss://'' httpURL then ''https://'' @ trim_prefix httpURL ''wss://'' else httpURL)
      in trim_suffix httpURL ''/ws'')"

section \<open>Encrypted messages\<close>

record EncryptedMessage =
  EmType :: string
  EmMachineID :: string
  EmMsgID :: string
  EmNonce :: string
  EmCiphertext :: string
  EmHint :: "string option"

definition encrypted_message ::
  "client_env \<Rightarrow> Session \<Rightarrow> string option \<Rightarrow> string \<Rightarrow> string \<Rightarrow> string \<Rightarrow> string \<Rightarrow> string option \<Rightarrow>
     EncryptedMessage option" where
  "encrypted_message env s random machine msgType msgID body hint =
     map_option (\<lambda>(nonce, ciphertext). \<lparr>EmType = msgType, EmMachineID = machine, EmMsgID = msgID,
         EmNonce = nonce, EmCiphertext = ciphertext, EmHint = hint\<rparr>)
       (Session_encrypt env s random msgType msgID body)"

text \<open>deliverEvent and SendEcho: the message that the build function makes for the active session.\<close>

definition event_message ::
  "client_env \<Rightarrow> client_state \<Rightarrow> Session \<Rightarrow> string option \<Rightarrow> string \<Rightarrow> string \<Rightarrow> string \<Rightarrow> bool \<Rightarrow>
     EncryptedMessage option" where
  "event_message env c s random msgID eventType body includeHints =
     encrypted_message env s random (machineID c) ''event'' msgID body
       (if includeHints \<and> (eventType = ''approval.requested'' \<or> eventType = ''run.failed'' \<or> eventType = ''run.finished'')
        then Some eventType else None)"

definition echo_message ::
  "client_env \<Rightarrow> client_state \<Rightarrow> Session \<Rightarrow> string option \<Rightarrow> string \<Rightarrow> string \<Rightarrow> EncryptedMessage option" where
  "echo_message env c s random msgID body = encrypted_message env s random (machineID c) ''rpc'' msgID body None"

text \<open>handleRPC: the session a request is read under, and the response to it.\<close>

definition rpc_request :: "client_env \<Rightarrow> client_state \<Rightarrow> nat \<Rightarrow> EncryptedMessage \<Rightarrow> (Session \<times> string) option" where
  "rpc_request env c epoch enc =
     (case session c of
        None \<Rightarrow> None
      | Some s \<Rightarrow>
          if SessEpoch s \<noteq> epoch then None
          else (case Session_decrypt env s (EmType enc) (EmMsgID enc) (EmNonce enc) (EmCiphertext enc) of
                  None \<Rightarrow> None
                | Some plaintext \<Rightarrow> Some (s, plaintext)))"

definition response_message ::
  "client_env \<Rightarrow> client_state \<Rightarrow> Session \<Rightarrow> string option \<Rightarrow> string \<Rightarrow> string \<Rightarrow> EncryptedMessage option" where
  "response_message env c s random msgID body =
     encrypted_message env s random (machineID c) ''response'' msgID body None"

section \<open>Interleavings\<close>

text \<open>
  The operations run on several goroutines: the read loop, the requests it starts, the senders of
  events, and the loop that connects.  A step is what happens between two moments at which another
  goroutine can interfere, that is, one section under the state lock, or one write.  The write lock
  is held from the first check of a write to its end; writer tells who holds it.
\<close>

datatype log_entry =
    Opened nat
  | Detached
  | EndedByClient
  | Installed Session SessionInitMessage string
  | AckWritten nat Session SessionAckMessage
  | EncWritten nat Session EncryptedMessage

datatype write_phase =
    Acking Session nat SessionAckMessage
  | Acked Session nat
  | Building nat nat Session
  | Sending nat Session EncryptedMessage

record world =
  client :: client_state
  ring :: Manager
  writer :: "write_phase option"
  checkedTokens :: "(nat \<times> SessionInitMessage \<times> TokenClaims) list"
  agreedSessions :: "(Session \<times> SessionInitMessage \<times> string \<times> SessionAckMessage) list"
  acksToWrite :: "(Session \<times> SessionAckMessage) list"
  requests :: "(Session \<times> string) list"
  nextConn :: nat
  nextRef :: nat
  log :: "log_entry list"

definition start_world :: "string \<Rightarrow> string \<Rightarrow> Manager \<Rightarrow> world" where
  "start_world machine master m =
     \<lparr>client = \<lparr>machineID = machine, credsMasterID = master, connection = None, connEpoch = 0, session = None,
        activeSession = None\<rparr>,
      ring = m, writer = None, checkedTokens = [], agreedSessions = [], acksToWrite = [], requests = [],
      nextConn = 0, nextRef = 0, log = []\<rparr>"

inductive cstep :: "client_env \<Rightarrow> world \<Rightarrow> world \<Rightarrow> bool" for env where
  st_sync: "cstep env w (w\<lparr>ring := snd (sync_reply (cli env) reply (ring w))\<rparr>)"
| st_detach: "writer w = None \<Longrightarrow>
    cstep env w (w\<lparr>client := snd (detachActiveConnectionLocked (client w)), log := log w @ [Detached]\<rparr>)"
| st_open: "writer w = None \<Longrightarrow>
    snd (register_connection env sent False (machineID (client w)) hostname msgs) = Connected \<Longrightarrow>
    cstep env w (w\<lparr>client := publishActiveConnectionLocked (nextConn w) (client w), nextConn := nextConn w + 1,
      log := log w @ [Opened (nextConn w)]\<rparr>)"
| st_token: "check_init_token ((cli env)\<lparr>now := t\<rparr>) (ring w) (client w) msg = Inr claims \<Longrightarrow>
    epoch \<le> connEpoch (client w) \<Longrightarrow>
    cstep env w (w\<lparr>checkedTokens := (epoch, msg, claims) # checkedTokens w\<rparr>)"
| st_agree: "(epoch, msg, claims) \<in> set (checkedTokens w) \<Longrightarrow>
    agree_session env (ring w) (client w) msg claims pair = Inr (ephemeral, key) \<Longrightarrow>
    cstep env w (w\<lparr>nextRef := nextRef w + 1,
      agreedSessions := (newSession (nextRef w) (machineID (client w)) key epoch, msg,
        the (SignPub (cli env) (ring w) (ClaimFingerprint claims)), session_ack env (client w) ephemeral) #
        agreedSessions w\<rparr>)"
| st_install: "(s, msg, pub, ack) \<in> set (agreedSessions w) \<Longrightarrow> installSession s (client w) = Inr c \<Longrightarrow>
    cstep env w (w\<lparr>client := c, acksToWrite := (s, ack) # acksToWrite w, log := log w @ [Installed s msg pub]\<rparr>)"
| st_ack: "(s, ack) \<in> set (acksToWrite w) \<Longrightarrow> writer w = None \<Longrightarrow> ack_ready s (client w) = Inr conn \<Longrightarrow>
    cstep env w (w\<lparr>writer := Some (Acking s conn ack)\<rparr>)"
| st_ack_failed: "writer w = Some (Acking s conn ack) \<Longrightarrow>
    cstep env w (w\<lparr>client := ack_failed s (client w), writer := None\<rparr>)"
| st_ack_written: "writer w = Some (Acking s conn ack) \<Longrightarrow>
    cstep env w (w\<lparr>writer := Some (Acked s conn), log := log w @ [AckWritten conn s ack]\<rparr>)"
| st_activate: "writer w = Some (Acked s conn) \<Longrightarrow>
    cstep env w (w\<lparr>client := snd (ack_written s conn (client w)), writer := None\<rparr>)"
| st_enc: "writer w = None \<Longrightarrow> enc_read (client w) = Inr (epoch, conn, s) \<Longrightarrow>
    cstep env w (w\<lparr>writer := Some (Building epoch conn s)\<rparr>)"
| st_enc_built: "writer w = Some (Building epoch conn s) \<Longrightarrow>
    event_message env (client w) s random msgID eventType body hints = Some m \<or>
    echo_message env (client w) s random msgID body = Some m \<Longrightarrow>
    enc_recheck epoch conn s (client w) = None \<Longrightarrow>
    cstep env w (w\<lparr>writer := Some (Sending conn s m)\<rparr>)"
| st_enc_dropped: "writer w = Some (Building epoch conn s) \<Longrightarrow> cstep env w (w\<lparr>writer := None\<rparr>)"
| st_request: "rpc_request env (client w) epoch enc = Some (s, plaintext) \<Longrightarrow>
    cstep env w (w\<lparr>requests := (s, EmMsgID enc) # requests w\<rparr>)"
| st_response: "(s, msgID) \<in> set (requests w) \<Longrightarrow> writer w = None \<Longrightarrow>
    response_message env (client w) s random msgID body = Some m \<Longrightarrow> response_ready s (client w) = Inr conn \<Longrightarrow>
    cstep env w (w\<lparr>writer := Some (Sending conn s m)\<rparr>)"
| st_sent: "writer w = Some (Sending conn s m) \<Longrightarrow>
    cstep env w (w\<lparr>writer := None, log := log w @ [EncWritten conn s m]\<rparr>)"
| st_send_failed: "writer w = Some (Sending conn s m) \<Longrightarrow> cstep env w (w\<lparr>writer := None\<rparr>)"
| st_end: "writer w = None \<Longrightarrow> handleSessionEnd epoch machine (client w) \<noteq> client w \<Longrightarrow>
    cstep env w (w\<lparr>client := handleSessionEnd epoch machine (client w), log := log w @ [EndedByClient]\<rparr>)"

section \<open>What the log shows\<close>

text \<open>The connection that is open after a log.\<close>

fun open_after :: "nat option \<Rightarrow> log_entry \<Rightarrow> nat option" where
  "open_after conn (Opened c) = Some c"
| "open_after conn Detached = None"
| "open_after conn _ = conn"

definition open_conn :: "log_entry list \<Rightarrow> nat option" where
  "open_conn es = foldl open_after None es"

text \<open>What ends every session there is.\<close>

fun cuts :: "log_entry \<Rightarrow> bool" where
  "cuts (Opened _) = True"
| "cuts Detached = True"
| "cuts EndedByClient = True"
| "cuts _ = False"

definition acked_since :: "log_entry list \<Rightarrow> nat \<Rightarrow> Session \<Rightarrow> bool" where
  "acked_since es conn s \<longleftrightarrow>
     (\<exists>before ack after. es = before @ AckWritten conn s ack # after \<and> \<not> list_ex cuts after)"

text \<open>A session that was installed for an init message signed by the key.\<close>

definition signed_init :: "client_env \<Rightarrow> string \<Rightarrow> SessionInitMessage \<Rightarrow> string \<Rightarrow> bool" where
  "signed_init env machine msg pub \<longleftrightarrow>
     (\<exists>sig. b64_decode (cli env) (IniSignature msg) = Some sig \<and>
        crypto_Verify (cli env) pub (BuildSessionInitMessage machine (IniClientEphemeralPub msg)) sig)"

lemma open_conn_snoc [simp]: "open_conn (es @ [e]) = open_after (open_conn es) e" "open_conn [] = None"
  by (simp_all add: open_conn_def)

lemma acked_since_snoc [simp]:
  "acked_since (es @ [e]) conn s \<longleftrightarrow> (\<exists>ack. e = AckWritten conn s ack) \<or> \<not> cuts e \<and> acked_since es conn s"
proof
  assume "acked_since (es @ [e]) conn s"
  then obtain before ack after where a: "es @ [e] = before @ AckWritten conn s ack # after" "\<not> list_ex cuts after"
    by (auto simp: acked_since_def)
  show "(\<exists>ack. e = AckWritten conn s ack) \<or> \<not> cuts e \<and> acked_since es conn s"
  proof (cases after rule: rev_cases)
    case Nil
    with a show ?thesis by simp
  next
    case (snoc after' x)
    with a show ?thesis by (auto simp: acked_since_def)
  qed
next
  assume "(\<exists>ack. e = AckWritten conn s ack) \<or> \<not> cuts e \<and> acked_since es conn s"
  then show "acked_since (es @ [e]) conn s"
  proof (elim disjE exE conjE)
    fix ack assume "e = AckWritten conn s ack"
    then show ?thesis unfolding acked_since_def by (intro exI [of _ es] exI [of _ ack] exI [of _ "[]"]) simp
  next
    assume e: "\<not> cuts e" "acked_since es conn s"
    then obtain before ack after where "es = before @ AckWritten conn s ack # after" "\<not> list_ex cuts after"
      by (auto simp: acked_since_def)
    with e(1) show ?thesis unfolding acked_since_def
      by (intro exI [of _ before] exI [of _ ack] exI [of _ "after @ [e]"]) simp
  qed
qed

text \<open>What must have happened before each entry.\<close>

fun entry_ok :: "client_env \<Rightarrow> string \<Rightarrow> Manager \<Rightarrow> log_entry list \<Rightarrow> log_entry \<Rightarrow> bool" where
  "entry_ok env machine m pre (Installed s msg pub) \<longleftrightarrow> signed_init env machine msg pub \<and> trusted (cli env) m pub"
| "entry_ok env machine m pre (AckWritten conn s ack) \<longleftrightarrow>
     open_conn pre = Some conn \<and> (\<exists>msg pub. Installed s msg pub \<in> set pre)"
| "entry_ok env machine m pre (EncWritten conn s message) \<longleftrightarrow> open_conn pre = Some conn \<and> acked_since pre conn s"
| "entry_ok env machine m pre _ \<longleftrightarrow> True"

definition log_ok :: "client_env \<Rightarrow> string \<Rightarrow> Manager \<Rightarrow> log_entry list \<Rightarrow> bool" where
  "log_ok env machine m es \<longleftrightarrow> (\<forall>pre e post. es = pre @ e # post \<longrightarrow> entry_ok env machine m pre e)"

lemma log_ok_snoc [simp]: "log_ok env machine m (es @ [e]) \<longleftrightarrow> log_ok env machine m es \<and> entry_ok env machine m es e"
proof
  assume "log_ok env machine m (es @ [e])"
  then show "log_ok env machine m es \<and> entry_ok env machine m es e"
    unfolding log_ok_def by (metis append.assoc append_Cons append_Nil2)
next
  assume a: "log_ok env machine m es \<and> entry_ok env machine m es e"
  show "log_ok env machine m (es @ [e])"
    unfolding log_ok_def
  proof (intro allI impI)
    fix pre e' post
    assume s: "es @ [e] = pre @ e' # post"
    show "entry_ok env machine m pre e'"
    proof (cases post rule: rev_cases)
      case Nil
      with s a show ?thesis by simp
    next
      case (snoc post' x)
      with s a show ?thesis by (auto simp: log_ok_def)
    qed
  qed
qed

lemma log_okD: "log_ok env machine m es \<Longrightarrow> es = pre @ e # post \<Longrightarrow> entry_ok env machine m pre e"
  by (simp add: log_ok_def)

lemma log_ok_Nil [simp]: "log_ok env machine m []"
  by (simp add: log_ok_def)

definition installed :: "log_entry list \<Rightarrow> Session \<Rightarrow> bool" where
  "installed es s \<longleftrightarrow> (\<exists>msg pub. Installed s msg pub \<in> set es)"

lemma installed_snoc [simp]: "installed (es @ [e]) s \<longleftrightarrow> (\<exists>msg pub. e = Installed s msg pub) \<or> installed es s"
  by (auto simp: installed_def)

text \<open>The invariant of the client.\<close>

fun writer_ok :: "client_state \<Rightarrow> log_entry list \<Rightarrow> write_phase option \<Rightarrow> bool" where
  "writer_ok c es None \<longleftrightarrow> True"
| "writer_ok c es (Some (Acking s conn ack)) \<longleftrightarrow> connection c = Some conn \<and> installed es s"
| "writer_ok c es (Some (Acked s conn)) \<longleftrightarrow> connection c = Some conn \<and> acked_since es conn s"
| "writer_ok c es (Some (Building epoch conn s)) \<longleftrightarrow> connection c = Some conn \<and> acked_since es conn s"
| "writer_ok c es (Some (Sending conn s m)) \<longleftrightarrow> connection c = Some conn \<and> acked_since es conn s"

definition acked_open :: "log_entry list \<Rightarrow> Session \<Rightarrow> bool" where
  "acked_open es s \<longleftrightarrow> (case open_conn es of None \<Rightarrow> False | Some conn \<Rightarrow> acked_since es conn s)"

lemma acked_open_snoc:
  "acked_open es s \<Longrightarrow> \<not> cuts e \<Longrightarrow> acked_open (es @ [e]) s"
  by (cases e) (auto simp: acked_open_def split: option.splits)

definition client_ok :: "client_state \<Rightarrow> log_entry list \<Rightarrow> bool" where
  "client_ok c es \<longleftrightarrow> connection c = open_conn es \<and>
     (\<forall>s. activeSession c = Some s \<longrightarrow>
        session c = Some s \<and> acked_open es s)"

definition world_ok :: "client_env \<Rightarrow> string \<Rightarrow> Manager \<Rightarrow> world \<Rightarrow> bool" where
  "world_ok env machine m w \<longleftrightarrow>
     machineID (client w) = machine \<and> all_trusted (cli env) m (ring w) \<and> client_ok (client w) (log w) \<and>
     writer_ok (client w) (log w) (writer w) \<and> log_ok env machine m (log w) \<and>
     (\<forall>(s, msg, pub, ack)\<in>set (agreedSessions w). signed_init env machine msg pub \<and> trusted (cli env) m pub) \<and>
     (\<forall>(s, ack)\<in>set (acksToWrite w). installed (log w) s)"

lemma installed_iff: "installed es s \<longleftrightarrow> (\<exists>msg pub. Installed s msg pub \<in> set es)"
  by (simp add: installed_def)

lemma writer_ok_install:
  "writer_ok c es w \<Longrightarrow> connection c' = connection c \<Longrightarrow> writer_ok c' (es @ [Installed s msg pub]) w"
  by (cases "(c, es, w)" rule: writer_ok.cases) auto

lemma clear_machineID [simp]: "machineID (clearSessionLocked s c) = machineID c"
  by (simp add: clearSessionLocked_def Let_def)

lemma clear_ok: "client_ok c es \<Longrightarrow> client_ok (clearSessionLocked s c) es"
  by (cases "activeSession c") (auto simp: client_ok_def clearSessionLocked_def Let_def)

lemma start_ok: "world_ok env machine m (start_world machine master m)"
  by (auto simp: world_ok_def start_world_def client_ok_def all_trusted_def intro: trusted_own)

lemma agree_session_signed:
  assumes "agree_session env m c msg claims pair = Inr x"
  obtains pub where "SignPub (cli env) m (ClaimFingerprint claims) = Some pub" "signed_init env (machineID c) msg pub"
  using assms unfolding agree_session_def signed_init_def by (auto split: option.splits if_splits)

lemma cstep_ok:
  assumes "cstep env w w'" "world_ok env machine m w"
  shows "world_ok env machine m w'"
  using assms(1)
proof (cases rule: cstep.cases)
  case (st_sync reply)
  with assms(2) sync_reply_trusted [of "cli env" m "ring w" reply] show ?thesis by (simp add: world_ok_def)
next
  case st_detach
  with assms(2) show ?thesis by (simp add: world_ok_def client_ok_def detachActiveConnectionLocked_def)
next
  case (st_open hostname msgs)
  with assms(2) show ?thesis by (simp add: world_ok_def client_ok_def publishActiveConnectionLocked_def)
next
  case (st_token t msg claims epoch)
  with assms(2) show ?thesis by (simp add: world_ok_def)
next
  case (st_agree epoch msg claims pair ephemeral key)
  from st_agree(3) obtain pub where "SignPub (cli env) (ring w) (ClaimFingerprint claims) = Some pub"
    "signed_init env (machineID (client w)) msg pub" by (rule agree_session_signed)
  with st_agree(1) assms(2) show ?thesis by (auto simp: world_ok_def all_trusted_def)
next
  case (st_install s msg pub ack c)
  then have "c = (client w)\<lparr>session := Some s, activeSession := None\<rparr>" by (auto simp: installSession_def split: if_splits)
  with st_install assms(2) writer_ok_install [of "client w" "log w" "writer w" c s msg pub] show ?thesis
    by (auto simp: world_ok_def client_ok_def)
next
  case (st_ack s ack conn)
  then have "connection (client w) = Some conn" by (auto simp: ack_ready_def split: if_splits option.splits)
  with st_ack assms(2) show ?thesis by (auto simp: world_ok_def)
next
  case (st_ack_failed s conn ack)
  with assms(2) clear_ok [of "client w" "log w" s] show ?thesis by (auto simp: world_ok_def ack_failed_def)
next
  case (st_ack_written s conn ack)
  with assms(2) show ?thesis
    by (auto simp: world_ok_def client_ok_def installed_iff acked_open_def split: option.splits)
next
  case (st_activate s conn)
  with assms(2) have c: "client_ok (client w) (log w)" "connection (client w) = Some conn" "acked_since (log w) conn s"
    by (simp_all add: world_ok_def)
  then have "open_conn (log w) = Some conn" by (simp add: client_ok_def)
  with c(3) have "acked_open (log w) s" by (simp add: acked_open_def)
  with c(1) have "client_ok (snd (ack_written s conn (client w))) (log w)"
    by (simp add: ack_written_def clear_ok) (simp add: client_ok_def)
  moreover have "machineID (snd (ack_written s conn (client w))) = machineID (client w)" by (simp add: ack_written_def)
  ultimately show ?thesis using st_activate assms(2) by (simp add: world_ok_def)
next
  case (st_enc epoch conn s)
  with assms(2) show ?thesis by (auto simp: world_ok_def client_ok_def acked_open_def enc_read_def split: option.splits)
next
  case (st_enc_built epoch conn s)
  with assms(2) show ?thesis by (auto simp: world_ok_def)
next
  case (st_enc_dropped epoch conn s)
  with assms(2) show ?thesis by (auto simp: world_ok_def)
next
  case (st_request epoch enc s plaintext)
  with assms(2) show ?thesis by (simp add: world_ok_def)
next
  case (st_response s msgID random body m conn)
  with assms(2) show ?thesis
    by (auto simp: world_ok_def client_ok_def acked_open_def response_ready_def split: option.splits if_splits)
next
  case (st_sent conn s m)
  with assms(2) show ?thesis by (auto simp: world_ok_def client_ok_def acked_open_snoc)
next
  case (st_send_failed conn s m)
  with assms(2) show ?thesis by (auto simp: world_ok_def)
next
  case (st_end epoch machine)
  with assms(2) show ?thesis by (auto simp: world_ok_def client_ok_def handleSessionEnd_def split: if_splits)
qed

lemma csteps_ok: "(cstep env)\<^sup>*\<^sup>* w w' \<Longrightarrow> world_ok env machine m w \<Longrightarrow> world_ok env machine m w'"
  by (induction rule: rtranclp_induct) (auto intro: cstep_ok)

section \<open>Runs\<close>

text \<open>An init message that passes, up to the session being installed.\<close>

lemma install_run:
  assumes "check_init_token ((cli env)\<lparr>now := t\<rparr>) (ring w) (client w) msg = Inr claims"
    and "agree_session env (ring w) (client w) msg claims pair = Inr (ephemeral, key)"
    and "connection (client w) = Some conn"
    and "s = newSession (nextRef w) (machineID (client w)) key (connEpoch (client w))"
  obtains w' pub where "(cstep env)\<^sup>*\<^sup>* w w'" "client w' = (client w)\<lparr>session := Some s, activeSession := None\<rparr>"
    "writer w' = writer w" "log w' = log w @ [Installed s msg pub]"
    "(s, session_ack env (client w) ephemeral) \<in> set (acksToWrite w')" "ring w' = ring w" "nextRef w' = nextRef w + 1"
proof -
  let ?pub = "the (SignPub (cli env) (ring w) (ClaimFingerprint claims))" and ?ack = "session_ack env (client w) ephemeral"
  define w1 where "w1 = w\<lparr>checkedTokens := (connEpoch (client w), msg, claims) # checkedTokens w\<rparr>"
  define w2 where "w2 = w1\<lparr>nextRef := nextRef w1 + 1, agreedSessions := (s, msg, ?pub, ?ack) # agreedSessions w1\<rparr>"
  let ?c = "(client w)\<lparr>session := Some s, activeSession := None\<rparr>"
  define w3 where "w3 = w2\<lparr>client := ?c, acksToWrite := (s, ?ack) # acksToWrite w2, log := log w2 @ [Installed s msg ?pub]\<rparr>"
  have "cstep env w w1" unfolding w1_def using st_token [OF assms(1), of "connEpoch (client w)"] by simp
  moreover have "cstep env w1 w2" unfolding w2_def assms(4)
    using st_agree [of "connEpoch (client w)" msg claims w1 env pair ephemeral key] assms(2) by (simp add: w1_def)
  moreover have "installSession s (client w2) = Inr ?c"
    using assms(3,4) by (simp add: installSession_def newSession_def w2_def w1_def)
  then have "cstep env w2 w3" unfolding w3_def by (intro st_install) (simp_all add: w2_def)
  ultimately have "(cstep env)\<^sup>*\<^sup>* w w3" by (meson rtranclp.rtrancl_into_rtrancl rtranclp.rtrancl_refl)
  then show ?thesis by (rule that) (simp_all add: w3_def w2_def w1_def)
qed

lemma ack_run:
  assumes "(s, ack) \<in> set (acksToWrite w)" "writer w = None" "connection (client w) = Some conn"
    "session (client w) = Some s" "SessEpoch s = connEpoch (client w)"
  obtains w' where "(cstep env)\<^sup>*\<^sup>* w w'" "client w' = (client w)\<lparr>activeSession := Some s\<rparr>" "writer w' = None"
    "log w' = log w @ [AckWritten conn s ack]" "ring w' = ring w" "nextRef w' = nextRef w"
proof -
  define w1 where "w1 = w\<lparr>writer := Some (Acking s conn ack)\<rparr>"
  define w2 where "w2 = w1\<lparr>writer := Some (Acked s conn), log := log w1 @ [AckWritten conn s ack]\<rparr>"
  define w3 where "w3 = w2\<lparr>client := snd (ack_written s conn (client w2)), writer := None\<rparr>"
  have "cstep env w w1" unfolding w1_def using assms by (intro st_ack) (simp_all add: ack_ready_def)
  moreover have "cstep env w1 w2" unfolding w2_def by (intro st_ack_written) (simp add: w1_def)
  moreover have "cstep env w2 w3" unfolding w3_def by (intro st_activate) (simp add: w2_def)
  ultimately have "(cstep env)\<^sup>*\<^sup>* w w3" by (meson rtranclp.rtrancl_into_rtrancl rtranclp.rtrancl_refl)
  then show ?thesis by (rule that) (use assms in \<open>simp_all add: w3_def w2_def w1_def ack_written_def\<close>)
qed

text \<open>A sender takes the write lock, builds its message and passes the second check.\<close>

lemma sending_run:
  assumes "writer w = None" "connection (client w) = Some conn" "activeSession (client w) = Some s"
    "event_message env (client w) s random msgID eventType body hints = Some m"
  shows "(cstep env)\<^sup>*\<^sup>* w (w\<lparr>writer := Some (Sending conn s m)\<rparr>)"
proof -
  define w1 where "w1 = w\<lparr>writer := Some (Building (connEpoch (client w)) conn s)\<rparr>"
  have "cstep env w w1" unfolding w1_def using assms by (intro st_enc) (simp_all add: enc_read_def)
  moreover have "cstep env w1 (w1\<lparr>writer := Some (Sending conn s m)\<rparr>)"
    using assms by (intro st_enc_built) (auto simp: w1_def enc_recheck_def)
  ultimately show ?thesis by (simp add: w1_def)
qed

lemma sent_run:
  assumes "writer w = Some (Sending conn s m)"
  shows "cstep env w (w\<lparr>writer := None, log := log w @ [EncWritten conn s m]\<rparr>)"
  using assms by (rule st_sent)

lemma usable_run:
  assumes "check_init_token ((cli env)\<lparr>now := t\<rparr>) (ring w) (client w) msg = Inr claims"
    and "agree_session env (ring w) (client w) msg claims pair = Inr (ephemeral, key)"
    and "connection (client w) = Some conn" and "writer w = None"
    and "length nonce = 24"
    and "\<forall>x. b64_decode (cli env) (b64_encode (cli env) x) = Some x"
    and "\<forall>k n p aad. aead_open env k n (aead_seal env k n p aad) aad = Some p"
  shows "\<exists>w' s pub m. (cstep env)\<^sup>*\<^sup>* w w' \<and> SessKey s = key \<and> SessEpoch s = connEpoch (client w) \<and>
    activeSession (client w') = Some s \<and> connection (client w') = Some conn \<and> writer w' = None \<and>
    log w' = log w @ [Installed s msg pub, AckWritten conn s (session_ack env (client w) ephemeral), EncWritten conn s m] \<and>
    event_message env (client w) s (Some nonce) msgID eventType body hints = Some m \<and>
    Session_decrypt env s (EmType m) (EmMsgID m) (EmNonce m) (EmCiphertext m) = Some body"
proof -
  define s where "s = newSession (nextRef w) (machineID (client w)) key (connEpoch (client w))"
  obtain w1 pub where w1: "(cstep env)\<^sup>*\<^sup>* w w1" "client w1 = (client w)\<lparr>session := Some s, activeSession := None\<rparr>"
    "writer w1 = writer w" "log w1 = log w @ [Installed s msg pub]"
    "(s, session_ack env (client w) ephemeral) \<in> set (acksToWrite w1)"
    using install_run [OF assms(1-3) s_def] by metis
  have "SessEpoch s = connEpoch (client w1)" using w1(2) by (simp add: s_def newSession_def)
  with w1 assms(3,4) obtain w2 where w2: "(cstep env)\<^sup>*\<^sup>* w1 w2" "client w2 = (client w1)\<lparr>activeSession := Some s\<rparr>"
    "writer w2 = None" "log w2 = log w1 @ [AckWritten conn s (session_ack env (client w) ephemeral)]"
    using ack_run [of s "session_ack env (client w) ephemeral" w1 conn env] by auto
  obtain m where m: "event_message env (client w) s (Some nonce) msgID eventType body hints = Some m"
    by (simp add: event_message_def encrypted_message_def Session_encrypt_def Let_def)
  have "event_message env (client w2) s (Some nonce) msgID eventType body hints = Some m"
    using m w2(2) w1(2) by (simp add: event_message_def)
  then have "(cstep env)\<^sup>*\<^sup>* w2 (w2\<lparr>writer := Some (Sending conn s m)\<rparr>)"
    using w2 w1(2) assms(3) by (intro sending_run) simp_all
  moreover have "cstep env (w2\<lparr>writer := Some (Sending conn s m)\<rparr>) (w2\<lparr>writer := None, log := log w2 @ [EncWritten conn s m]\<rparr>)"
    using sent_run [of "w2\<lparr>writer := Some (Sending conn s m)\<rparr>" conn s m env] by simp
  ultimately have "(cstep env)\<^sup>*\<^sup>* w (w2\<lparr>writer := None, log := log w2 @ [EncWritten conn s m]\<rparr>)"
    using w1(1) w2(1) by (meson rtranclp.rtrancl_into_rtrancl rtranclp_trans)
  moreover have "Session_decrypt env s (EmType m) (EmMsgID m) (EmNonce m) (EmCiphertext m) = Some body"
    using m assms(5-7) by (auto simp: event_message_def encrypted_message_def Session_encrypt_def Session_decrypt_def Let_def)
  ultimately show ?thesis using m w2 w1 assms(3)
    by (intro exI [of _ "w2\<lparr>writer := None, log := log w2 @ [EncWritten conn s m]\<rparr>"] exI [of _ s] exI [of _ pub] exI [of _ m])
      (simp add: s_def newSession_def)
qed

section \<open>A machine and its client\<close>

definition demo_client_env :: client_env where
  "demo_client_env = \<lparr>cli = demo_env, machine_sign = (\<lambda>_. demo_sig), x25519 = (\<lambda>priv pub. Some pub),
     sha256_raw = (\<lambda>x. x), hkdf = (\<lambda>secret salt info. Some secret), aead_seal = (\<lambda>k n p aad. p),
     aead_open = (\<lambda>k n c aad. Some c)\<rparr>"

definition demo_open_world :: world where
  "demo_open_world = (let w = start_world ''2'' ''1'' demo_machine_keyring in
     w\<lparr>client := publishActiveConnectionLocked 0 (client w), nextConn := 1, log := [Opened 0]\<rparr>)"

definition demo_init :: SessionInitMessage where
  "demo_init = \<lparr>IniMachineID = ''2'', IniMachineToken = demo_machine_token,
     IniClientEphemeralPub = replicate 32 CHR ''c'', IniSignature = demo_sig\<rparr>"

definition demo_claims :: TokenClaims where
  "demo_claims = \<lparr>ClaimMasterID = ''1'', ClaimMachineID = ''2'', ClaimFingerprint = ''k'', ClaimExpiresAt = go_unix 9\<rparr>"

lemma demo_opened: "(cstep demo_client_env)\<^sup>*\<^sup>* (start_world ''2'' ''1'' demo_machine_keyring) demo_open_world"
proof -
  let ?w = "start_world ''2'' ''1'' demo_machine_keyring"
  have "snd (register_connection demo_client_env (\<lambda>_. True) False (machineID (client ?w)) ''h''
      [InChallenge (Some ''n''), InRegistered]) = Connected"
    by (simp add: register_connection_def Let_def)
  from st_open [OF _ this] show ?thesis
    by (simp add: demo_open_world_def Let_def start_world_def r_into_rtranclp)
qed

lemma demo_checked:
  assumes "machineID c = ''2''" "credsMasterID c = ''1''"
  shows "check_init_token ((cli demo_client_env)\<lparr>now := 0\<rparr>) demo_machine_keyring c demo_init = Inr demo_claims"
  using assms
  by (simp add: check_init_token_def demo_client_env_def demo_init_def demo_claims_def Manager_VerifyMachineToken_def
      decode_token_def token_simps split_demo_sig SignPub_def demo_machine_keyring_def NewManager_def parse_unix_def
      crypto_Verify_def of_length_def)

lemma demo_agreed:
  "agree_session demo_client_env demo_machine_keyring c demo_init demo_claims (Some (''e'', ''f'')) =
     Inr (''e'', replicate 32 CHR ''c'')"
  by (simp add: agree_session_def demo_client_env_def demo_init_def demo_claims_def SignPub_def
      demo_machine_keyring_def NewManager_def crypto_Verify_def deriveSessionKey_def Let_def)

lemma demo_open_facts:
  "ring demo_open_world = demo_machine_keyring" "machineID (client demo_open_world) = ''2''"
  "credsMasterID (client demo_open_world) = ''1''" "connection (client demo_open_world) = Some 0"
  "writer demo_open_world = None" "log demo_open_world = [Opened 0]"
  by (simp_all add: demo_open_world_def start_world_def publishActiveConnectionLocked_def Let_def)

lemma demo_codec: "b64_decode (cli demo_client_env) (b64_encode (cli demo_client_env) x) = Some x"
    "aead_open demo_client_env k n (aead_seal demo_client_env k n p aad) aad = Some p"
  by (simp_all add: demo_client_env_def)

lemmas demo_passes =
  demo_checked [of "client demo_open_world", unfolded demo_open_facts, OF refl refl]
  demo_agreed [of "client demo_open_world"]

section \<open>Properties\<close>

text \<open>
  C8: however the machine's goroutines interleave, and whatever the relay sends, an encrypted frame is
  written only to the connection that is open at that moment, and only under a session whose ack was
  written to that connection with no close, no reconnect and no end by the client since; the session
  was installed for an init message that names this machine, signed by a key that the machine's
  keyring at pairing leads to.
\<close>

theorem frames_stay_in_acknowledged_sessions:
  assumes "(cstep env)\<^sup>*\<^sup>* (start_world machine master m) w" and "log w = pre @ EncWritten conn s frame # post"
  shows "open_conn pre = Some conn \<and>
    (\<exists>before ack after. pre = before @ AckWritten conn s ack # after \<and> \<not> list_ex cuts after \<and>
       (\<exists>msg pub sig. Installed s msg pub \<in> set before \<and> trusted (cli env) m pub \<and>
          b64_decode (cli env) (IniSignature msg) = Some sig \<and>
          crypto_Verify (cli env) pub (BuildSessionInitMessage machine (IniClientEphemeralPub msg)) sig))"
proof -
  from csteps_ok [OF assms(1) start_ok] have ok: "log_ok env machine m (log w)" by (simp add: world_ok_def)
  from log_okD [OF this assms(2)] have e: "open_conn pre = Some conn" "acked_since pre conn s" by auto
  from e(2) obtain before ack after where a: "pre = before @ AckWritten conn s ack # after" "\<not> list_ex cuts after"
    by (auto simp: acked_since_def)
  from assms(2) a(1) have "log w = before @ AckWritten conn s ack # after @ EncWritten conn s frame # post" by simp
  from log_okD [OF ok this] obtain msg pub where i: "Installed s msg pub \<in> set before" by auto
  then obtain b1 b2 where "before = b1 @ Installed s msg pub # b2" by (auto simp: in_set_conv_decomp)
  with assms(2) a(1) have "log w = b1 @ Installed s msg pub # b2 @ AckWritten conn s ack # after @ EncWritten conn s frame # post"
    by simp
  from log_okD [OF ok this] have "signed_init env machine msg pub" "trusted (cli env) m pub" by simp_all
  with e(1) a i show ?thesis unfolding signed_init_def by blast
qed

theorem frames_stay_in_acknowledged_sessions_witness:
  "\<exists>w pre conn s frame. (cstep demo_client_env)\<^sup>*\<^sup>* (start_world ''2'' ''1'' demo_machine_keyring) w \<and>
     log w = pre @ [EncWritten conn s frame] \<and> open_conn pre = Some conn \<and>
     (\<exists>msg pub. Installed s msg pub \<in> set pre \<and> trusted demo_env demo_machine_keyring pub)"
proof -
  let ?w = demo_open_world
  from demo_passes have p: "check_init_token ((cli demo_client_env)\<lparr>now := 0\<rparr>) (ring ?w) (client ?w) demo_init = Inr demo_claims"
    "agree_session demo_client_env (ring ?w) (client ?w) demo_init demo_claims (Some (''e'', ''f'')) =
       Inr (''e'', replicate 32 CHR ''c'')" by (simp_all add: demo_open_facts)
  have n: "length (replicate 24 CHR ''n'') = 24" by simp
  from usable_run [OF p demo_open_facts(4,5) n, of "''i''" "''t''" "''b''" True] demo_codec
  obtain w s pub m where w: "(cstep demo_client_env)\<^sup>*\<^sup>* ?w w"
    "log w = log ?w @ [Installed s demo_init pub, AckWritten 0 s (session_ack demo_client_env (client ?w) ''e''), EncWritten 0 s m]"
    by blast
  let ?pre = "[Opened 0, Installed s demo_init pub, AckWritten 0 s (session_ack demo_client_env (client ?w) ''e'')]"
  have l: "log w = ?pre @ [EncWritten 0 s m]" using w(2) by (simp add: demo_open_facts)
  have r: "(cstep demo_client_env)\<^sup>*\<^sup>* (start_world ''2'' ''1'' demo_machine_keyring) w"
    using demo_opened w(1) by (rule rtranclp_trans)
  from frames_stay_in_acknowledged_sessions [OF r l] obtain before ack after msg pub where
    f: "open_conn ?pre = Some 0" "?pre = before @ AckWritten 0 s ack # after" "Installed s msg pub \<in> set before"
      "trusted (cli demo_client_env) demo_machine_keyring pub" by blast
  from f(2,3) have "Installed s msg pub \<in> set ?pre" by (metis UnCI set_append)
  with f(1,4) r l show ?thesis by (metis demo_client_env_def client_env.select_convs(1))
qed

text \<open>
  a session init that passes every check leads to a session the machine can use: with a connection
  open and nobody writing, there is a run that installs the session, writes its ack, makes it the
  active one and delivers the next event under it, and the holder of the session key reads that event
  back.
\<close>

theorem session_becomes_usable:
  assumes "check_init_token ((cli env)\<lparr>now := t\<rparr>) (ring w) (client w) msg = Inr claims"
    and "agree_session env (ring w) (client w) msg claims pair = Inr (ephemeral, key)"
    and "connection (client w) = Some conn" and "writer w = None"
    and "length nonce = 24"
    and "\<forall>x. b64_decode (cli env) (b64_encode (cli env) x) = Some x"
    and "\<forall>k n p aad. aead_open env k n (aead_seal env k n p aad) aad = Some p"
  shows "\<exists>w' s pub m. (cstep env)\<^sup>*\<^sup>* w w' \<and> SessKey s = key \<and> SessEpoch s = connEpoch (client w) \<and>
    activeSession (client w') = Some s \<and> connection (client w') = Some conn \<and> writer w' = None \<and>
    log w' = log w @ [Installed s msg pub, AckWritten conn s (session_ack env (client w) ephemeral), EncWritten conn s m] \<and>
    event_message env (client w) s (Some nonce) msgID eventType body hints = Some m \<and>
    Session_decrypt env s (EmType m) (EmMsgID m) (EmNonce m) (EmCiphertext m) = Some body"
  by (rule usable_run [OF assms])

theorem session_becomes_usable_witness:
  "\<exists>w' s pub ack m. (cstep demo_client_env)\<^sup>*\<^sup>* demo_open_world w' \<and> activeSession (client w') = Some s \<and>
     log w' = [Opened 0, Installed s demo_init pub, AckWritten 0 s ack, EncWritten 0 s m] \<and>
     Session_decrypt demo_client_env s (EmType m) (EmMsgID m) (EmNonce m) (EmCiphertext m) = Some ''body''"
proof -
  let ?w = demo_open_world
  from demo_passes have p: "check_init_token ((cli demo_client_env)\<lparr>now := 0\<rparr>) (ring ?w) (client ?w) demo_init = Inr demo_claims"
    "agree_session demo_client_env (ring ?w) (client ?w) demo_init demo_claims (Some (''e'', ''f'')) =
       Inr (''e'', replicate 32 CHR ''c'')" by (simp_all add: demo_open_facts)
  have n: "length (replicate 24 CHR ''n'') = 24" by simp
  have c: "\<forall>x. b64_decode (cli demo_client_env) (b64_encode (cli demo_client_env) x) = Some x"
    "\<forall>k n p aad. aead_open demo_client_env k n (aead_seal demo_client_env k n p aad) aad = Some p"
    using demo_codec by blast+
  from session_becomes_usable [OF p demo_open_facts(4,5) n c, of "''i''" "''t''" "''body''" True]
  show ?thesis unfolding demo_open_facts(6) append_Cons append_Nil by blast
qed

text \<open>
  the write lock does not protect the active session from installSession, which takes only the
  state lock: while a sender is between its last check and its write, a new session can be installed,
  and the frame of the old session is then written after the new session was installed and before
  its ack.
\<close>

theorem installSession_overtakes_a_sender:
  assumes "check_init_token ((cli env)\<lparr>now := t\<rparr>) (ring w) (client w) msg = Inr claims"
    and "agree_session env (ring w) (client w) msg claims pair = Inr (ephemeral, key)"
    and "connection (client w) = Some conn" and "writer w = None" and "activeSession (client w) = Some old"
    and "event_message env (client w) old random msgID eventType body hints = Some m"
  shows "\<exists>w' s pub. (cstep env)\<^sup>*\<^sup>* w w' \<and> SessRef s = nextRef w \<and> session (client w') = Some s \<and>
    activeSession (client w') = None \<and> log w' = log w @ [Installed s msg pub, EncWritten conn old m]"
proof -
  define w0 where "w0 = w\<lparr>writer := Some (Sending conn old m)\<rparr>"
  define s where "s = newSession (nextRef w0) (machineID (client w0)) key (connEpoch (client w0))"
  have c: "(cstep env)\<^sup>*\<^sup>* w w0" unfolding w0_def using assms by (intro sending_run)
  have h: "check_init_token ((cli env)\<lparr>now := t\<rparr>) (ring w0) (client w0) msg = Inr claims"
    "agree_session env (ring w0) (client w0) msg claims pair = Inr (ephemeral, key)"
    "connection (client w0) = Some conn" using assms by (simp_all add: w0_def)
  obtain w1 pub where w1: "(cstep env)\<^sup>*\<^sup>* w0 w1" "client w1 = (client w0)\<lparr>session := Some s, activeSession := None\<rparr>"
    "writer w1 = writer w0" "log w1 = log w0 @ [Installed s msg pub]"
    using install_run [OF h s_def] by metis
  have "cstep env w1 (w1\<lparr>writer := None, log := log w1 @ [EncWritten conn old m]\<rparr>)"
    using w1(3) by (intro sent_run) (simp add: w0_def)
  with c w1(1) have "(cstep env)\<^sup>*\<^sup>* w (w1\<lparr>writer := None, log := log w1 @ [EncWritten conn old m]\<rparr>)"
    by (meson rtranclp.rtrancl_into_rtrancl rtranclp_trans)
  with w1 show ?thesis
    by (intro exI [of _ "w1\<lparr>writer := None, log := log w1 @ [EncWritten conn old m]\<rparr>"] exI [of _ s] exI [of _ pub])
      (simp add: s_def newSession_def w0_def)
qed

theorem installSession_overtakes_a_sender_witness:
  "\<exists>w old s init pub0 pub ack m. (cstep demo_client_env)\<^sup>*\<^sup>* (start_world ''2'' ''1'' demo_machine_keyring) w \<and>
     old \<noteq> s \<and> session (client w) = Some s \<and> activeSession (client w) = None \<and>
     log w = [Opened 0, Installed old init pub0, AckWritten 0 old ack, Installed s init pub, EncWritten 0 old m]"
proof -
  let ?w = demo_open_world
  from demo_passes have p: "check_init_token ((cli demo_client_env)\<lparr>now := 0\<rparr>) (ring ?w) (client ?w) demo_init = Inr demo_claims"
    "agree_session demo_client_env (ring ?w) (client ?w) demo_init demo_claims (Some (''e'', ''f'')) =
       Inr (''e'', replicate 32 CHR ''c'')" by (simp_all add: demo_open_facts)
  define old where "old = newSession (nextRef ?w) (machineID (client ?w)) (replicate 32 CHR ''c'') (connEpoch (client ?w))"
  obtain w1 pub0 where w1: "(cstep demo_client_env)\<^sup>*\<^sup>* ?w w1"
    "client w1 = (client ?w)\<lparr>session := Some old, activeSession := None\<rparr>" "writer w1 = writer ?w"
    "log w1 = log ?w @ [Installed old demo_init pub0]"
    "(old, session_ack demo_client_env (client ?w) ''e'') \<in> set (acksToWrite w1)" "ring w1 = ring ?w"
    "nextRef w1 = nextRef ?w + 1"
    using install_run [OF p demo_open_facts(4) old_def] by metis
  have "SessEpoch old = connEpoch (client w1)" using w1(2) by (simp add: old_def newSession_def)
  then obtain w2 where w2: "(cstep demo_client_env)\<^sup>*\<^sup>* w1 w2" "client w2 = (client w1)\<lparr>activeSession := Some old\<rparr>"
    "writer w2 = None" "log w2 = log w1 @ [AckWritten 0 old (session_ack demo_client_env (client ?w) ''e'')]"
    "ring w2 = ring w1" "nextRef w2 = nextRef w1"
    using ack_run [OF w1(5), of 0] w1(2,3) demo_open_facts by auto
  have c: "check_init_token ((cli demo_client_env)\<lparr>now := 0\<rparr>) (ring w2) (client w2) demo_init = Inr demo_claims"
    using demo_checked [of "client w2"] w1 w2 demo_open_facts by simp
  have a: "agree_session demo_client_env (ring w2) (client w2) demo_init demo_claims (Some (''e'', ''f'')) =
       Inr (''e'', replicate 32 CHR ''c'')" using demo_agreed w1 w2 demo_open_facts by simp
  obtain m where m: "event_message demo_client_env (client w2) old (Some ''n'') ''i'' ''t'' ''b'' True = Some m"
    by (simp add: event_message_def encrypted_message_def Session_encrypt_def Let_def)
  have "connection (client w2) = Some 0" "activeSession (client w2) = Some old"
    using w1 w2 demo_open_facts by simp_all
  from installSession_overtakes_a_sender [OF c a this(1) w2(3) this(2) m] obtain w s pub where
    w: "(cstep demo_client_env)\<^sup>*\<^sup>* w2 w" "SessRef s = nextRef w2" "session (client w) = Some s"
      "activeSession (client w) = None" "log w = log w2 @ [Installed s demo_init pub, EncWritten 0 old m]" by blast
  have "(cstep demo_client_env)\<^sup>*\<^sup>* (start_world ''2'' ''1'' demo_machine_keyring) w"
    using demo_opened w1(1) w2(1) w(1) by (meson rtranclp_trans)
  moreover have "old \<noteq> s" using w(2) w1(7) w2(6) by (auto simp: old_def newSession_def)
  moreover have "log w = [Opened 0, Installed old demo_init pub0, AckWritten 0 old (session_ack demo_client_env (client ?w) ''e''),
      Installed s demo_init pub, EncWritten 0 old m]" using w(5) w2(4) w1(4) demo_open_facts(6) by simp
  ultimately show ?thesis using w(3,4) by blast
qed

end
