(* ===== verification/GitStatus.thy ===== *)
theory GitStatus
  imports Numbers
begin

text \<open>
  Git status of a checkout (cli/internal/gitstatus): running git status, parsing its porcelain v2
  output, and paging through the changed files.
\<close>

section \<open>Data\<close>

text \<open>
  What is called from outside: strings.ToLower, the JSON text of a cursor and its reading, base64url,
  and time.Parse for RFC 3339 (None when it fails).
\<close>

record git_env =
  to_lower :: "string \<Rightarrow> string"
  marshal_cursor :: "string \<Rightarrow> string \<Rightarrow> string"
  unmarshal_cursor :: "string \<Rightarrow> (string \<times> string) option"
  url64_encode :: "string \<Rightarrow> string"
  url64_decode :: "string \<Rightarrow> string option"
  parse_rfc3339 :: "string \<Rightarrow> int option"

definition BucketStaged :: string where "BucketStaged = ''staged''"
definition BucketUnstaged :: string where "BucketUnstaged = ''unstaged''"
definition BucketUntracked :: string where "BucketUntracked = ''untracked''"
definition BucketConflicted :: string where "BucketConflicted = ''conflicted''"

record FileChange =
  FcPath :: string
  FcOrigPath :: string
  FcXY :: string
  FcBucket :: string

record parsedStatus =
  psBranch :: string
  psDetached :: bool
  psUpstream :: string
  psAhead :: int
  psBehind :: int
  psHead :: string
  psStaged :: "FileChange list"
  psUnstaged :: "FileChange list"
  psUntracked :: "FileChange list"
  psConflicted :: "FileChange list"

definition empty_status :: parsedStatus where
  "empty_status = \<lparr>psBranch = [], psDetached = False, psUpstream = [], psAhead = 0, psBehind = 0, psHead = [],
     psStaged = [], psUnstaged = [], psUntracked = [], psConflicted = []\<rparr>"

text \<open>The errors of the parser; a record of one byte makes rec[2:] panic.\<close>

datatype parse_error =
    TruncatedRename
  | FieldCount nat nat
  | TokenTooLong
  | SlicePanic

section \<open>Parsing\<close>

abbreviation NUL :: char where
  "NUL \<equiv> CHR 0x00"

abbreviation newline :: char where
  "newline \<equiv> CHR 0x0A"

text \<open>
  The tokens of bufio.Scanner: what lies between separators, without an empty rest at the end.  A
  token that does not fit the buffer with its separator stops the scanner.
\<close>

definition tokens :: "char \<Rightarrow> string \<Rightarrow> string list" where
  "tokens sep raw = (let ps = split_on sep raw in if last ps = [] then butlast ps else ps)"

definition status_buffer :: nat where
  "status_buffer = 4 * 1024 * 1024"

definition worktree_buffer :: nat where
  "worktree_buffer = 1024 * 1024"

text \<open>strings.Cut at the first space, and splitFieldsN\<close>

fun cut_space :: "string \<Rightarrow> string \<times> string option" where
  "cut_space [] = ([], None)"
| "cut_space (c # cs) =
     (if c = CHR '' '' then ([], Some cs) else (case cut_space cs of (a, b) \<Rightarrow> (c # a, b)))"

fun split_fields :: "nat \<Rightarrow> string \<Rightarrow> string list" where
  "split_fields 0 rest = [rest]"
| "split_fields (Suc i) rest =
     (case cut_space rest of
        (a, None) \<Rightarrow> [a]
      | (a, Some rest) \<Rightarrow> a # split_fields i rest)"

definition splitFieldsN :: "string \<Rightarrow> nat \<Rightarrow> string list" where
  "splitFieldsN body n = split_fields (n - 1) body"

text \<open>strings.Fields\<close>

function go_fields :: "string \<Rightarrow> string \<Rightarrow> string list" where
  "go_fields cur [] = (if cur = [] then [] else [cur])"
| "go_fields cur (c # cs) =
     (case find (\<lambda>w. w \<noteq> [] \<and> prefix w (c # cs)) go_spaces of
        Some w \<Rightarrow> (if cur = [] then [] else [cur]) @ go_fields [] (drop (length w) (c # cs))
      | None \<Rightarrow> go_fields (cur @ [c]) cs)"
  by pat_completeness auto
termination
  by (relation "measure (\<lambda>(cur, s). length s)") (auto simp: find_Some_iff)

definition has_prefix :: "string \<Rightarrow> string \<Rightarrow> bool" where
  "has_prefix s p = prefix p s"

definition rest_after :: "string \<Rightarrow> string \<Rightarrow> string" where
  "rest_after s p = (if has_prefix s p then drop (length p) s else s)"

definition apply_ab :: "string \<Rightarrow> parsedStatus \<Rightarrow> parsedStatus" where
  "apply_ab f ps =
     (if length f < 2 then ps
      else
        (case parse_int64 (tl f) of
           None \<Rightarrow> ps
         | Some n \<Rightarrow>
             if hd f = CHR ''+'' then ps\<lparr>psAhead := n\<rparr>
             else if hd f = CHR ''-'' then ps\<lparr>psBehind := n\<rparr>
             else ps))"

definition parseHeader :: "string \<Rightarrow> parsedStatus \<Rightarrow> parsedStatus" where
  "parseHeader line ps =
     (if \<not> has_prefix line ''# '' then ps
      else
        (let body = drop 2 line
         in if has_prefix body ''branch.oid '' then ps\<lparr>psHead := trim_space (rest_after body ''branch.oid '')\<rparr>
            else if has_prefix body ''branch.head '' then
              (let name = trim_space (rest_after body ''branch.head '')
               in if name = ''(detached)'' then ps\<lparr>psDetached := True, psBranch := []\<rparr>
                  else ps\<lparr>psDetached := False, psBranch := name\<rparr>)
            else if has_prefix body ''branch.upstream ''
              then ps\<lparr>psUpstream := trim_space (rest_after body ''branch.upstream '')\<rparr>
            else if has_prefix body ''branch.ab ''
              then fold apply_ab (go_fields [] (trim_space (rest_after body ''branch.ab ''))) ps
            else ps))"

definition no_change :: "char \<Rightarrow> bool" where
  "no_change c \<longleftrightarrow> c = CHR ''.'' \<or> c = CHR '' '' \<or> c = CHR ''?''"

definition appendTrackedChange :: "string \<Rightarrow> string \<Rightarrow> string \<Rightarrow> parsedStatus \<Rightarrow> parsedStatus" where
  "appendTrackedChange xy path orig ps =
     (if length xy < 2 then ps
      else
        (let x = xy ! 0; y = xy ! 1;
             ps = (if no_change x then ps
                   else ps\<lparr>psStaged := psStaged ps @ [\<lparr>FcPath = path, FcOrigPath = orig, FcXY = xy, FcBucket = BucketStaged\<rparr>]\<rparr>)
         in if no_change y then ps
            else ps\<lparr>psUnstaged := psUnstaged ps @ [\<lparr>FcPath = path, FcOrigPath = orig, FcXY = xy, FcBucket = BucketUnstaged\<rparr>]\<rparr>))"

definition parseType1 :: "string \<Rightarrow> parsedStatus \<Rightarrow> parse_error + parsedStatus" where
  "parseType1 rec ps =
     (if length rec < 2 then Inl SlicePanic
      else
        (let fields = splitFieldsN (drop 2 rec) 8
         in if length fields < 8 then Inl (FieldCount (length fields) 8)
            else Inr (appendTrackedChange (fields ! 0) (fields ! 7) [] ps)))"

definition parseType2 :: "string \<Rightarrow> string \<Rightarrow> parsedStatus \<Rightarrow> parse_error + parsedStatus" where
  "parseType2 rec origPath ps =
     (if length rec < 2 then Inl SlicePanic
      else
        (let fields = splitFieldsN (drop 2 rec) 9
         in if length fields < 9 then Inl (FieldCount (length fields) 9)
            else Inr (appendTrackedChange (fields ! 0) (fields ! 8) origPath ps)))"

definition parseUnmerged :: "string \<Rightarrow> parsedStatus \<Rightarrow> parse_error + parsedStatus" where
  "parseUnmerged rec ps =
     (if length rec < 2 then Inl SlicePanic
      else
        (let fields = splitFieldsN (drop 2 rec) 10
         in if length fields < 10 then Inl (FieldCount (length fields) 10)
            else Inr (ps\<lparr>psConflicted := psConflicted ps @
              [\<lparr>FcPath = fields ! 9, FcOrigPath = [], FcXY = fields ! 0, FcBucket = BucketConflicted\<rparr>]\<rparr>)))"

definition parseUntracked :: "string \<Rightarrow> parsedStatus \<Rightarrow> parsedStatus" where
  "parseUntracked rec ps =
     (if 2 < length rec
      then ps\<lparr>psUntracked := psUntracked ps @
        [\<lparr>FcPath = drop 2 rec, FcOrigPath = [], FcXY = ''??'', FcBucket = BucketUntracked\<rparr>]\<rparr>
      else ps)"

text \<open>The loop of parsePorcelainV2 over the tokens.\<close>

fun parse_records :: "string list \<Rightarrow> parsedStatus \<Rightarrow> parse_error + parsedStatus" where
  "parse_records [] ps = Inr ps"
| "parse_records (rec # recs) ps =
     (if status_buffer \<le> length rec then Inl TokenTooLong
      else
        (case rec of
           [] \<Rightarrow> parse_records recs ps
         | c # _ \<Rightarrow>
             if c = CHR ''#'' then parse_records recs (parseHeader rec ps)
             else if c = CHR ''1'' then
               (case parseType1 rec ps of Inl err \<Rightarrow> Inl err | Inr ps \<Rightarrow> parse_records recs ps)
             else if c = CHR ''2'' then
               (case recs of
                  [] \<Rightarrow> Inl TruncatedRename
                | origPath # recs \<Rightarrow>
                    if status_buffer \<le> length origPath then Inl TruncatedRename
                    else (case parseType2 rec origPath ps of Inl err \<Rightarrow> Inl err | Inr ps \<Rightarrow> parse_records recs ps))
             else if c = CHR ''u'' then
               (case parseUnmerged rec ps of Inl err \<Rightarrow> Inl err | Inr ps \<Rightarrow> parse_records recs ps)
             else if c = CHR ''?'' then parse_records recs (parseUntracked rec ps)
             else parse_records recs ps))"

definition parsePorcelainV2 :: "string \<Rightarrow> parse_error + parsedStatus" where
  "parsePorcelainV2 raw = parse_records (tokens NUL raw) empty_status"

section \<open>Worktrees\<close>

record WorktreeEntry =
  WtPath :: string
  WtHead :: string
  WtBranch :: string
  WtDetached :: bool
  WtLocked :: bool
  WtPrunable :: bool

definition empty_entry :: WorktreeEntry where
  "empty_entry = \<lparr>WtPath = [], WtHead = [], WtBranch = [], WtDetached = False, WtLocked = False, WtPrunable = False\<rparr>"

text \<open>bufio.ScanLines drops a carriage return before the newline.\<close>

definition drop_cr :: "string \<Rightarrow> string" where
  "drop_cr line = (if line \<noteq> [] \<and> last line = CHR 0x0D then butlast line else line)"

definition worktree_line :: "string \<Rightarrow> WorktreeEntry \<Rightarrow> WorktreeEntry" where
  "worktree_line line cur =
     (case cut_space line of
        (key, rest) \<Rightarrow>
          (let v = (case rest of None \<Rightarrow> [] | Some v \<Rightarrow> v)
           in if key = ''worktree'' then cur\<lparr>WtPath := v\<rparr>
              else if key = ''HEAD'' then cur\<lparr>WtHead := v\<rparr>
              else if key = ''branch'' then cur\<lparr>WtBranch := rest_after v ''refs/heads/'', WtDetached := False\<rparr>
              else if key = ''detached'' then cur\<lparr>WtDetached := True\<rparr>
              else if key = ''locked'' then cur\<lparr>WtLocked := True\<rparr>
              else if key = ''prunable'' then cur\<lparr>WtPrunable := True\<rparr>
              else cur))"

text \<open>The loop; a line that does not fit the buffer ends it like the end of the input.\<close>

fun worktree_lines :: "string list \<Rightarrow> WorktreeEntry \<Rightarrow> bool \<Rightarrow> WorktreeEntry list" where
  "worktree_lines [] cur have = (if have then [cur] else [])"
| "worktree_lines (line # lines) cur have =
     (if worktree_buffer \<le> length line then (if have then [cur] else [])
      else if drop_cr line = [] then (if have then [cur] else []) @ worktree_lines lines empty_entry False
      else worktree_lines lines (worktree_line (drop_cr line) cur) True)"

definition parseWorktreePorcelain :: "string \<Rightarrow> WorktreeEntry list" where
  "parseWorktreePorcelain raw = worktree_lines (tokens newline raw) empty_entry False"

section \<open>Pages\<close>

text \<open>
  encoding/json replaces each byte that is not part of a valid UTF-8 sequence by the replacement
  character.  rune_size gives the length of the sequence that a string begins with.
\<close>

definition cont :: "nat \<Rightarrow> nat \<Rightarrow> string \<Rightarrow> nat \<Rightarrow> bool" where
  "cont lo hi s i \<longleftrightarrow> i < length s \<and> lo \<le> of_char (s ! i) \<and> of_char (s ! i) \<le> hi"

definition rune_size :: "string \<Rightarrow> nat option" where
  "rune_size s =
     (case s of
        [] \<Rightarrow> None
      | c # _ \<Rightarrow>
          (let b = (of_char c :: nat); tail = (\<lambda>i. cont 0x80 0xBF s i)
           in if b < 0x80 then Some 1
              else if 0xC2 \<le> b \<and> b \<le> 0xDF \<and> tail 1 then Some 2
              else if b = 0xE0 \<and> cont 0xA0 0xBF s 1 \<and> tail 2 then Some 3
              else if (0xE1 \<le> b \<and> b \<le> 0xEC \<or> 0xEE \<le> b \<and> b \<le> 0xEF) \<and> tail 1 \<and> tail 2 then Some 3
              else if b = 0xED \<and> cont 0x80 0x9F s 1 \<and> tail 2 then Some 3
              else if b = 0xF0 \<and> cont 0x90 0xBF s 1 \<and> tail 2 \<and> tail 3 then Some 4
              else if 0xF1 \<le> b \<and> b \<le> 0xF3 \<and> tail 1 \<and> tail 2 \<and> tail 3 then Some 4
              else if b = 0xF4 \<and> cont 0x80 0x8F s 1 \<and> tail 2 \<and> tail 3 then Some 4
              else None))"

lemma rune_size_pos: "rune_size s = Some n \<Longrightarrow> 0 < n"
  by (auto simp: rune_size_def Let_def split: list.splits if_splits)

function coerce_utf8 :: "string \<Rightarrow> string" where
  "coerce_utf8 [] = []"
| "coerce_utf8 (c # cs) =
     (case rune_size (c # cs) of
        None \<Rightarrow> [CHR 0xEF, CHR 0xBF, CHR 0xBD] @ coerce_utf8 cs
      | Some n \<Rightarrow> take n (c # cs) @ coerce_utf8 (drop n (c # cs)))"
  by pat_completeness auto
termination
  by (relation "measure length") (auto dest: rune_size_pos)

definition encodeFileCursor :: "git_env \<Rightarrow> string \<Rightarrow> string \<Rightarrow> string" where
  "encodeFileCursor env bucket path = url64_encode env (marshal_cursor env bucket path)"

definition decodeFileCursor :: "git_env \<Rightarrow> string \<Rightarrow> (string \<times> string) option" where
  "decodeFileCursor env s =
     (if s = [] then None
      else (case url64_decode env s of None \<Rightarrow> None | Some raw \<Rightarrow> unmarshal_cursor env raw))"

definition bucketRank :: "string \<Rightarrow> int" where
  "bucketRank b =
     (if b = BucketStaged then 0 else if b = BucketUnstaged then 1 else if b = BucketUntracked then 2
      else if b = BucketConflicted then 3 else 4)"

text \<open>The files that a cursor skips.\<close>

definition skipped :: "(string \<times> string) option \<Rightarrow> FileChange \<Rightarrow> bool" where
  "skipped cursor fc =
     (case cursor of
        None \<Rightarrow> False
      | Some (bucket, path) \<Rightarrow>
          (let rank = bucketRank (FcBucket fc); cursorRank = bucketRank bucket
           in if rank < cursorRank then True else rank = cursorRank \<and> FcPath fc \<le> path))"

text \<open>The loops of paginateFiles; None stands for the panic of out[len(out)-1] on an empty page.\<close>

fun paginate_loop ::
  "git_env \<Rightarrow> (string \<times> string) option \<Rightarrow> nat \<Rightarrow> FileChange list \<Rightarrow> FileChange list \<Rightarrow>
     (FileChange list \<times> string) option" where
  "paginate_loop env cursor limit out [] = Some (out, [])"
| "paginate_loop env cursor limit out (fc # fcs) =
     (if skipped cursor fc then paginate_loop env cursor limit out fcs
      else if limit \<le> length out then
        (if out = [] then None
         else Some (out, encodeFileCursor env (FcBucket (last out)) (FcPath (last out))))
      else paginate_loop env cursor limit (out @ [fc]) fcs)"

definition all_files :: "parsedStatus \<Rightarrow> FileChange list" where
  "all_files ps = psStaged ps @ psUnstaged ps @ psUntracked ps @ psConflicted ps"

definition paginateFiles ::
  "git_env \<Rightarrow> parsedStatus \<Rightarrow> string \<Rightarrow> nat \<Rightarrow> (FileChange list \<times> string) option" where
  "paginateFiles env ps startCursor limit =
     paginate_loop env (decodeFileCursor env startCursor) limit [] (all_files ps)"

section \<open>Running git\<close>

definition ReasonNotAGitRepo :: string where "ReasonNotAGitRepo = ''not_a_git_repo''"
definition ReasonPathMissing :: string where "ReasonPathMissing = ''path_missing''"
definition ReasonSafeDir :: string where "ReasonSafeDir = ''safe_directory''"
definition ReasonTimeout :: string where "ReasonTimeout = ''timeout''"
definition ReasonInternal :: string where "ReasonInternal = ''internal''"
definition ReasonOutputTooBig :: string where "ReasonOutputTooBig = ''output_too_big''"

text \<open>sanitizedEnv; a variable is key=value, or anything without an equals sign.\<close>

fun cut_equals :: "string \<Rightarrow> string option" where
  "cut_equals [] = None"
| "cut_equals (c # cs) = (if c = CHR ''='' then Some [] else map_option ((#) c) (cut_equals cs))"

definition sanitizedEnv :: "string list \<Rightarrow> string list" where
  "sanitizedEnv parent =
     filter (\<lambda>kv. case cut_equals kv of None \<Rightarrow> True | Some key \<Rightarrow> \<not> has_prefix key ''GIT_'') parent @
     [''GIT_ASKPASS=/bin/true'', ''GIT_TERMINAL_PROMPT=0'', ''GIT_OPTIONAL_LOCKS=0'', ''LANG=C'']"

text \<open>strings.Contains\<close>

fun contains :: "string \<Rightarrow> string \<Rightarrow> bool" where
  "contains [] sub = (sub = [])"
| "contains (c # cs) sub = (prefix sub (c # cs) \<or> contains cs sub)"

definition classifyStatusErr :: "git_env \<Rightarrow> string \<Rightarrow> string" where
  "classifyStatusErr env stderr =
     (let s = to_lower env stderr
      in if contains s ''not a git repository'' then ReasonNotAGitRepo
         else if contains s ''no such file or directory'' \<or> contains s ''cannot chdir'' then ReasonPathMissing
         else if contains s ''dubious ownership'' \<or> contains s ''safe.directory'' then ReasonSafeDir
         else ReasonInternal)"

text \<open>readAllWithLimit over what the pipe gives, read by read, and whether it then ends properly.\<close>

datatype read_error = OutputTooBig | ReadFailed

fun readAllWithLimit :: "string list \<Rightarrow> bool \<Rightarrow> nat \<Rightarrow> string \<Rightarrow> read_error + string" where
  "readAllWithLimit [] eof cap buf = (if eof then Inr buf else Inl ReadFailed)"
| "readAllWithLimit (r # reads) eof cap buf =
     (if cap < length buf + length r then Inl OutputTooBig
      else readAllWithLimit reads eof cap (buf @ r))"

text \<open>
  limitedWriter.Write: what reaches the writer and the count that is returned.  The receiver is a
  copy, so that n keeps its first value, 0.
\<close>

definition limited_write :: "nat \<Rightarrow> nat \<Rightarrow> string \<Rightarrow> string \<times> nat" where
  "limited_write cap n p =
     (if cap \<le> n then ([], length p)
      else
        (let p = (if cap < n + length p then take (cap - n) p else p)
         in (p, length p)))"

text \<open>
  io.Copy into it, chunk by chunk: a write of fewer bytes than it was given ends the copy with
  io.ErrShortWrite.  The result is what was kept and whether the copy succeeded.
\<close>

fun copy_stderr :: "nat \<Rightarrow> string list \<Rightarrow> string \<Rightarrow> string \<times> bool" where
  "copy_stderr cap [] buf = (buf, True)"
| "copy_stderr cap (chunk # chunks) buf =
     (case limited_write cap 0 chunk of
        (w, n) \<Rightarrow> if n \<noteq> length chunk then (buf @ w, False) else copy_stderr cap chunks (buf @ w))"

definition maxPorcelainBytes :: nat where
  "maxPorcelainBytes = 16 * 1024 * 1024"

definition maxStderrBytes :: nat where
  "maxStderrBytes = 8 * 1024"

text \<open>One run of a git command: what the process does.\<close>

record git_run =
  pipeOpened :: bool
  started :: bool
  stdoutReads :: "string list"
  stdoutEnds :: bool
  stderrChunks :: "string list"
  exitedOk :: bool
  deadlineExceeded :: bool

text \<open>runStatus: a reason, or the raw output; Wait fails when the process or the copy of stderr did.\<close>

definition runStatus :: "git_env \<Rightarrow> git_run \<Rightarrow> string + string" where
  "runStatus env run =
     (if \<not> pipeOpened run then Inl ReasonInternal
      else if \<not> started run then Inl ReasonInternal
      else
        (let out = readAllWithLimit (stdoutReads run) (stdoutEnds run) maxPorcelainBytes [];
             (stderr, copied) = copy_stderr maxStderrBytes (stderrChunks run) [];
             waitOk = (exitedOk run \<and> copied)
         in if deadlineExceeded run then Inl ReasonTimeout
            else (case out of
                    Inl OutputTooBig \<Rightarrow> Inl ReasonOutputTooBig
                  | Inl ReadFailed \<Rightarrow> Inl ReasonInternal
                  | Inr raw \<Rightarrow> if \<not> waitOk then Inl (classifyStatusErr env stderr) else Inr raw)))"

text \<open>headMetadata: git log's output when it ran without an error.\<close>

fun cut_at :: "char \<Rightarrow> string \<Rightarrow> string \<times> string option" where
  "cut_at sep [] = ([], None)"
| "cut_at sep (c # cs) = (if c = sep then ([], Some cs) else (case cut_at sep cs of (a, b) \<Rightarrow> (c # a, b)))"

definition headMetadata :: "git_env \<Rightarrow> string option \<Rightarrow> (string \<times> int) option" where
  "headMetadata env stdout =
     (case stdout of
        None \<Rightarrow> None
      | Some text \<Rightarrow>
          (case cut_at NUL (rev (dropWhile (\<lambda>c. c = newline) (rev text))) of
             (out, None) \<Rightarrow> Some (out, 0)
           | (subject, Some stamp) \<Rightarrow>
               (case parse_rfc3339 env stamp of
                  None \<Rightarrow> Some (subject, 0)
                | Some ts \<Rightarrow> Some (subject, ts))))"

section \<open>Snapshot\<close>

datatype git_mode = ModeSummaryOnly | ModeWithFiles

record CheckoutStatus =
  Reachable :: bool
  UnreachableReason :: string
  CkBranch :: string
  DetachedHead :: bool
  CkUpstream :: string
  AheadCount :: int
  BehindCount :: int
  HeadCommit :: string
  HeadSubject :: string
  HeadAuthoredAt :: "int option"
  StagedCount :: nat
  UnstagedCount :: nat
  UntrackedCount :: nat
  ConflictedCount :: nat
  CkFiles :: "FileChange list"
  FilesTotal :: nat
  NextFileCursor :: string

definition unreachable :: "string \<Rightarrow> CheckoutStatus" where
  "unreachable reason =
     \<lparr>Reachable = False, UnreachableReason = reason, CkBranch = [], DetachedHead = False, CkUpstream = [],
      AheadCount = 0, BehindCount = 0, HeadCommit = [], HeadSubject = [], HeadAuthoredAt = None,
      StagedCount = 0, UnstagedCount = 0, UntrackedCount = 0, ConflictedCount = 0, CkFiles = [], FilesTotal = 0,
      NextFileCursor = []\<rparr>"

definition file_limit :: "int \<Rightarrow> nat" where
  "file_limit limit =
     (let limit = (if limit \<le> 0 then 200 else limit);
          limit = (if 1000 < limit then 1000 else limit)
      in nat limit)"

definition path_less :: "FileChange \<Rightarrow> FileChange \<Rightarrow> bool" where
  "path_less a b \<longleftrightarrow> FcPath a < FcPath b"

definition sort_files :: "parsedStatus \<Rightarrow> parsedStatus" where
  "sort_files ps =
     ps\<lparr>psStaged := sort_slice path_less (psStaged ps), psUnstaged := sort_slice path_less (psUnstaged ps),
       psUntracked := sort_slice path_less (psUntracked ps), psConflicted := sort_slice path_less (psConflicted ps)\<rparr>"

text \<open>
  Snapshot: the runs of git status and, for the commit it names, of git log.  None stands for a
  panic.
\<close>

definition Snapshot ::
  "git_env \<Rightarrow> git_run \<Rightarrow> (string \<Rightarrow> string option) \<Rightarrow> git_mode \<Rightarrow> string \<Rightarrow> int \<Rightarrow> CheckoutStatus option" where
  "Snapshot env run git_log mode cursor limit =
     (case runStatus env run of
        Inl reason \<Rightarrow> Some (unreachable reason)
      | Inr raw \<Rightarrow>
          (case parsePorcelainV2 raw of
             Inl SlicePanic \<Rightarrow> None
           | Inl _ \<Rightarrow> Some (unreachable ReasonInternal)
           | Inr parsed \<Rightarrow>
               (let meta = (if psHead parsed \<noteq> [] \<and> psHead parsed \<noteq> ''(initial)''
                            then headMetadata env (git_log (psHead parsed)) else None);
                    status = \<lparr>Reachable = True, UnreachableReason = [], CkBranch = psBranch parsed,
                      DetachedHead = psDetached parsed, CkUpstream = psUpstream parsed,
                      AheadCount = psAhead parsed, BehindCount = psBehind parsed,
                      HeadCommit = (if psHead parsed = ''(initial)'' then [] else psHead parsed),
                      HeadSubject = (case meta of None \<Rightarrow> [] | Some (subject, _) \<Rightarrow> subject),
                      HeadAuthoredAt = (case meta of None \<Rightarrow> None | Some (_, ts) \<Rightarrow> if ts = 0 then None else Some ts),
                      StagedCount = length (psStaged parsed), UnstagedCount = length (psUnstaged parsed),
                      UntrackedCount = length (psUntracked parsed), ConflictedCount = length (psConflicted parsed),
                      CkFiles = [],
                      FilesTotal = length (psStaged parsed) + length (psUnstaged parsed) +
                        length (psUntracked parsed) + length (psConflicted parsed),
                      NextFileCursor = []\<rparr>
                in (case mode of
                      ModeSummaryOnly \<Rightarrow> Some status
                    | ModeWithFiles \<Rightarrow>
                        (case paginateFiles env (sort_files parsed) cursor (file_limit limit) of
                           None \<Rightarrow> None
                         | Some (files, next_cursor) \<Rightarrow>
                             Some (status\<lparr>CkFiles := files, NextFileCursor := next_cursor\<rparr>))))))"

interpretation path_sort: key_order path_less FcPath
  by unfold_locales (simp add: path_less_def)

section \<open>What git writes\<close>

text \<open>
  The entries of the porcelain v2 format, as git's documentation gives them, and their text with -z.
\<close>

datatype status_entry =
    Ordinary string "string list" string
  | Renamed string "string list" string string
  | Unmerged string "string list" string
  | Untracked string
  | Ignored string
  | OidHeader string
  | HeadHeader string
  | UpstreamHeader string
  | AbHeader nat nat

fun entry_records :: "status_entry \<Rightarrow> string list" where
  "entry_records (Ordinary xy fs path) = [''1 '' @ join_on (CHR '' '') (xy # fs @ [path])]"
| "entry_records (Renamed xy fs path orig) = [''2 '' @ join_on (CHR '' '') (xy # fs @ [path]), orig]"
| "entry_records (Unmerged xy fs path) = [''u '' @ join_on (CHR '' '') (xy # fs @ [path])]"
| "entry_records (Untracked path) = [''? '' @ path]"
| "entry_records (Ignored path) = [''! '' @ path]"
| "entry_records (OidHeader oid) = [''# branch.oid '' @ oid]"
| "entry_records (HeadHeader name) = [''# branch.head '' @ name]"
| "entry_records (UpstreamHeader name) = [''# branch.upstream '' @ name]"
| "entry_records (AbHeader ahead behind) =
     [''# branch.ab +'' @ show_nat ahead @ '' -'' @ show_nat behind]"

definition render :: "status_entry list \<Rightarrow> string" where
  "render es = concat (map (\<lambda>rec. rec @ [NUL]) (concat (map entry_records es)))"

definition plain_field :: "string \<Rightarrow> bool" where
  "plain_field f \<longleftrightarrow> CHR '' '' \<notin> set f \<and> NUL \<notin> set f"

text \<open>Names that are not trimmed: no white space at their ends, as git writes them.\<close>

definition plain_name :: "string \<Rightarrow> bool" where
  "plain_name n \<longleftrightarrow> trim_space n = n \<and> NUL \<notin> set n"

fun entry_ok :: "status_entry \<Rightarrow> bool" where
  "entry_ok (Ordinary xy fs path) \<longleftrightarrow>
     length xy = 2 \<and> plain_field xy \<and> length fs = 6 \<and> list_all plain_field fs \<and> NUL \<notin> set path"
| "entry_ok (Renamed xy fs path orig) \<longleftrightarrow>
     length xy = 2 \<and> plain_field xy \<and> length fs = 7 \<and> list_all plain_field fs \<and> NUL \<notin> set path \<and> NUL \<notin> set orig"
| "entry_ok (Unmerged xy fs path) \<longleftrightarrow>
     length xy = 2 \<and> plain_field xy \<and> length fs = 8 \<and> list_all plain_field fs \<and> NUL \<notin> set path"
| "entry_ok (Untracked path) \<longleftrightarrow> path \<noteq> [] \<and> NUL \<notin> set path"
| "entry_ok (Ignored path) \<longleftrightarrow> NUL \<notin> set path"
| "entry_ok (OidHeader oid) \<longleftrightarrow> plain_name oid"
| "entry_ok (HeadHeader name) \<longleftrightarrow> plain_name name"
| "entry_ok (UpstreamHeader name) \<longleftrightarrow> plain_name name"
| "entry_ok (AbHeader ahead behind) \<longleftrightarrow> int ahead < 2 ^ 63 \<and> int behind < 2 ^ 63"

text \<open>What an entry says.\<close>

fun tracked :: "string \<Rightarrow> string \<Rightarrow> string \<Rightarrow> parsedStatus \<Rightarrow> parsedStatus" where
  "tracked xy path orig ps =
     ps\<lparr>psStaged := psStaged ps @ (if no_change (xy ! 0) then [] else
          [\<lparr>FcPath = path, FcOrigPath = orig, FcXY = xy, FcBucket = BucketStaged\<rparr>]),
       psUnstaged := psUnstaged ps @ (if no_change (xy ! 1) then [] else
          [\<lparr>FcPath = path, FcOrigPath = orig, FcXY = xy, FcBucket = BucketUnstaged\<rparr>])\<rparr>"

fun meaning :: "status_entry \<Rightarrow> parsedStatus \<Rightarrow> parsedStatus" where
  "meaning (Ordinary xy fs path) ps = tracked xy path [] ps"
| "meaning (Renamed xy fs path orig) ps = tracked xy path orig ps"
| "meaning (Unmerged xy fs path) ps = ps\<lparr>psConflicted := psConflicted ps @
     [\<lparr>FcPath = path, FcOrigPath = [], FcXY = xy, FcBucket = BucketConflicted\<rparr>]\<rparr>"
| "meaning (Untracked path) ps = ps\<lparr>psUntracked := psUntracked ps @
     [\<lparr>FcPath = path, FcOrigPath = [], FcXY = ''??'', FcBucket = BucketUntracked\<rparr>]\<rparr>"
| "meaning (Ignored path) ps = ps"
| "meaning (OidHeader oid) ps = ps\<lparr>psHead := oid\<rparr>"
| "meaning (HeadHeader name) ps =
     (if name = ''(detached)'' then ps\<lparr>psDetached := True, psBranch := []\<rparr>
      else ps\<lparr>psDetached := False, psBranch := name\<rparr>)"
| "meaning (UpstreamHeader name) ps = ps\<lparr>psUpstream := name\<rparr>"
| "meaning (AbHeader ahead behind) ps = ps\<lparr>psAhead := int ahead, psBehind := int behind\<rparr>"

section \<open>Parsing what git writes\<close>

lemma split_records: "\<forall>r\<in>set rs. c \<notin> set r \<Longrightarrow> split_on c (concat (map (\<lambda>r. r @ [c]) rs)) = rs @ [[]]"
  by (induction rs) (simp_all add: split_on_append)

lemma tokens_render: "\<forall>r\<in>set rs. c \<notin> set r \<Longrightarrow> tokens c (concat (map (\<lambda>r. r @ [c]) rs)) = rs"
  by (simp add: tokens_def split_records Let_def)

lemma cut_space_sep: "CHR '' '' \<notin> set a \<Longrightarrow> cut_space (a @ CHR '' '' # rest) = (a, Some rest)"
  by (induction a) auto

lemma split_fields_join:
  "\<forall>f\<in>set fs. CHR '' '' \<notin> set f \<Longrightarrow> split_fields (length fs) (join_on (CHR '' '') (fs @ [path])) = fs @ [path]"
proof (induction fs)
  case (Cons f fs)
  then have "join_on (CHR '' '') ((f # fs) @ [path]) = f @ CHR '' '' # join_on (CHR '' '') (fs @ [path])"
    by (cases fs) auto
  with Cons show ?case by (simp add: cut_space_sep)
qed simp

lemma fields_of_record:
  assumes "plain_field xy" "list_all plain_field fs" "length fs = k"
  shows "splitFieldsN (join_on (CHR '' '') (xy # fs @ [path])) (k + 2) = xy # fs @ [path]"
  using split_fields_join [of "xy # fs" path] assms
  by (simp add: splitFieldsN_def plain_field_def list_all_iff)

lemma join_not_Nil: "join_on c (x # xs) = [] \<longleftrightarrow> x = [] \<and> xs = []"
  by (cases xs) auto

lemma appendTracked_meaning: "length xy = 2 \<Longrightarrow> appendTrackedChange xy path orig ps = tracked xy path orig ps"
  by (simp add: appendTrackedChange_def Let_def)

lemma header_prefix [simp]: "rest_after (p @ x) p = x" "has_prefix (p @ x) p"
  by (simp_all add: rest_after_def has_prefix_def)

lemma go_fields_word:
  assumes "\<forall>c\<in>set s. c \<notin> hd ` set go_spaces"
  shows "go_fields cur (s @ rest) = go_fields (cur @ s) rest"
  using assms
proof (induction s arbitrary: cur)
  case (Cons c s)
  have "find (\<lambda>w. w \<noteq> [] \<and> prefix w (c # s @ rest)) go_spaces = None"
    unfolding find_None_iff
  proof clarify
    fix w
    assume w: "w \<in> set go_spaces" "w \<noteq> []" "prefix w (c # s @ rest)"
    from w(2,3) have "hd w = c" by (auto simp: neq_Nil_conv)
    with w(1) have "c \<in> hd ` set go_spaces" by blast
    with Cons.prems show False by simp
  qed
  with Cons show ?case by simp
qed simp

lemma go_spaces_heads: "hd ` set go_spaces = {CHR 0x09, CHR 0x0A, CHR 0x0B, CHR 0x0C, CHR 0x0D, CHR 0x20,
    CHR 0xC2, CHR 0xE1, CHR 0xE2, CHR 0xE3}"
  by (auto simp: go_spaces_def)

lemma go_fields_space: "go_fields cur (CHR '' '' # rest) = (if cur = [] then [] else [cur]) @ go_fields [] rest"
  by (simp add: go_spaces_def)

lemma digits_plain: "c \<in> set (show_nat n) \<Longrightarrow> c \<notin> hd ` set go_spaces \<and> c \<noteq> NUL"
  using digit_range [of c n] unfolding go_spaces_heads by (auto simp: less_eq_char_def)

lemma trim_ab: "trim_space (CHR ''+'' # show_nat a @ '' -'' @ show_nat b) = CHR ''+'' # show_nat a @ '' -'' @ show_nat b"
proof (rule trim_space_plain)
  show "hd (CHR ''+'' # show_nat a @ '' -'' @ show_nat b) \<notin> set (map hd go_spaces)" by (simp add: go_spaces_def)
  have "last (CHR ''+'' # show_nat a @ '' -'' @ show_nat b) = last (show_nat b)" by simp
  moreover have "last (show_nat b) \<in> set (show_nat b)" by simp
  then have "CHR ''0'' \<le> last (show_nat b) \<and> last (show_nat b) \<le> CHR ''9''" by (rule digit_range)
  then have "last (show_nat b) \<notin> set (map last go_spaces)" by (auto simp: go_spaces_def less_eq_char_def)
  ultimately show "last (CHR ''+'' # show_nat a @ '' -'' @ show_nat b) \<notin> set (map last go_spaces)" by simp
qed

lemma fields_ab: "go_fields [] (CHR ''+'' # show_nat a @ '' -'' @ show_nat b) = [CHR ''+'' # show_nat a, CHR ''-'' # show_nat b]"
proof -
  have "\<forall>c\<in>set (CHR ''+'' # show_nat a). c \<notin> hd ` set go_spaces" "\<forall>c\<in>set (CHR ''-'' # show_nat b). c \<notin> hd ` set go_spaces"
    using digits_plain by (auto simp: go_spaces_heads)
  from go_fields_word [OF this(1), of "[]" "'' -'' @ show_nat b"] go_fields_word [OF this(2), of "[]" "[]"]
  show ?thesis by (simp add: go_fields_space del: go_fields.simps(2))
qed

lemma parse_show_nat: "int n < 2 ^ 63 \<Longrightarrow> parse_int64 (show_nat n) = Some (int n)"
  using parse_show_int [of "int n"] by (simp add: show_int_def)

lemma header_meaning:
  "entry_ok (OidHeader oid) \<Longrightarrow> parseHeader (''# branch.oid '' @ oid) ps = meaning (OidHeader oid) ps"
  "entry_ok (HeadHeader name) \<Longrightarrow> parseHeader (''# branch.head '' @ name) ps = meaning (HeadHeader name) ps"
  "entry_ok (UpstreamHeader up) \<Longrightarrow> parseHeader (''# branch.upstream '' @ up) ps = meaning (UpstreamHeader up) ps"
  by (simp_all add: parseHeader_def has_prefix_def rest_after_def plain_name_def Let_def)

lemma ab_meaning:
  assumes "entry_ok (AbHeader a b)"
  shows "parseHeader (''# branch.ab +'' @ show_nat a @ '' -'' @ show_nat b) ps = meaning (AbHeader a b) ps"
  using assms trim_ab [of a b] fields_ab [of a b] parse_show_nat [of a] parse_show_nat [of b]
  by (simp add: parseHeader_def has_prefix_def rest_after_def Let_def apply_ab_def)

lemma records_meaning:
  assumes "entry_ok e" "\<forall>r\<in>set (entry_records e). length r < status_buffer"
  shows "parse_records (entry_records e @ recs) ps = parse_records recs (meaning e ps)"
proof (cases e)
  case (Ordinary xy fs path)
  with assms fields_of_record [of xy fs 6 path] show ?thesis
    by (simp add: parseType1_def Let_def nth_append appendTracked_meaning del: tracked.simps)
next
  case (Renamed xy fs path orig)
  with assms fields_of_record [of xy fs 7 path] show ?thesis
    by (simp add: parseType2_def Let_def nth_append appendTracked_meaning del: tracked.simps)
next
  case (Unmerged xy fs path)
  with assms fields_of_record [of xy fs 8 path] show ?thesis
    by (simp add: parseUnmerged_def Let_def nth_append)
next
  case (Untracked path)
  with assms show ?thesis by (simp add: parseUntracked_def)
next
  case (Ignored path)
  with assms show ?thesis by simp
next
  case (OidHeader oid)
  with assms header_meaning(1) [of oid ps] show ?thesis by simp
next
  case (HeadHeader name)
  with assms header_meaning(2) [of name ps] show ?thesis by simp
next
  case (UpstreamHeader name)
  with assms header_meaning(3) [of name ps] show ?thesis by simp
next
  case (AbHeader a b)
  with assms ab_meaning [of a b ps] show ?thesis by simp
qed

lemma parse_entries:
  "\<forall>e\<in>set es. entry_ok e \<and> (\<forall>r\<in>set (entry_records e). length r < status_buffer) \<Longrightarrow>
    parse_records (concat (map entry_records es)) ps = Inr (fold meaning es ps)"
  by (induction es arbitrary: ps) (simp_all add: records_meaning)

lemma record_no_NUL: "entry_ok e \<Longrightarrow> r \<in> set (entry_records e) \<Longrightarrow> NUL \<notin> set r"
proof (cases e)
  assume ok: "entry_ok e" "r \<in> set (entry_records e)"
  have j: "NUL \<notin> set (join_on (CHR '' '') xs)" if "\<forall>x\<in>set xs. NUL \<notin> set x" for xs
    using that by (induction "CHR '' ''" xs rule: join_on.induct) auto
  {
    case (Ordinary xy fs path)
    with ok j [of "xy # fs @ [path]"] show ?thesis by (auto simp: plain_field_def list_all_iff)
  next
    case (Renamed xy fs path orig)
    with ok j [of "xy # fs @ [path]"] show ?thesis by (auto simp: plain_field_def list_all_iff)
  next
    case (Unmerged xy fs path)
    with ok j [of "xy # fs @ [path]"] show ?thesis by (auto simp: plain_field_def list_all_iff)
  }
qed (use digits_plain in \<open>auto simp: plain_name_def\<close>)

section \<open>Buckets\<close>

text \<open>Every file carries the name of the bucket it is in.\<close>

definition buckets_ok :: "parsedStatus \<Rightarrow> bool" where
  "buckets_ok ps \<longleftrightarrow>
     (\<forall>fc\<in>set (psStaged ps). FcBucket fc = BucketStaged) \<and> (\<forall>fc\<in>set (psUnstaged ps). FcBucket fc = BucketUnstaged) \<and>
     (\<forall>fc\<in>set (psUntracked ps). FcBucket fc = BucketUntracked) \<and>
     (\<forall>fc\<in>set (psConflicted ps). FcBucket fc = BucketConflicted)"

lemma apply_ab_buckets: "buckets_ok (fold apply_ab xs ps) = buckets_ok ps"
  by (induction xs arbitrary: ps) (simp_all add: apply_ab_def buckets_ok_def split: option.split)

lemma header_buckets: "buckets_ok ps \<Longrightarrow> buckets_ok (parseHeader line ps)"
  by (simp add: parseHeader_def Let_def apply_ab_buckets) (simp add: buckets_ok_def)

lemma tracked_buckets: "buckets_ok ps \<Longrightarrow> buckets_ok (appendTrackedChange xy path orig ps)"
  by (auto simp: appendTrackedChange_def buckets_ok_def Let_def)

lemma type_buckets:
  "parseType1 rec ps = Inr ps' \<Longrightarrow> buckets_ok ps \<Longrightarrow> buckets_ok ps'"
  "parseType2 rec orig ps = Inr ps' \<Longrightarrow> buckets_ok ps \<Longrightarrow> buckets_ok ps'"
  "parseUnmerged rec ps = Inr ps' \<Longrightarrow> buckets_ok ps \<Longrightarrow> buckets_ok ps'"
  "buckets_ok ps \<Longrightarrow> buckets_ok (parseUntracked rec ps)"
  by (auto simp: parseType1_def parseType2_def tracked_buckets Let_def split: if_splits)
    (auto simp: parseUnmerged_def parseUntracked_def buckets_ok_def Let_def split: if_splits)

lemma parse_step:
  assumes "parse_records (rec # recs) ps = Inr ps'" "buckets_ok ps"
  obtains recs1 ps1 where "length recs1 \<le> length recs" "buckets_ok ps1" "parse_records recs1 ps1 = Inr ps'"
proof -
  have "parse_records recs ps = Inr ps' \<or> parse_records recs (parseHeader rec ps) = Inr ps' \<or>
      parse_records recs (parseUntracked rec ps) = Inr ps' \<or>
      (\<exists>ps1. (parseType1 rec ps = Inr ps1 \<or> parseUnmerged rec ps = Inr ps1) \<and> parse_records recs ps1 = Inr ps') \<or>
      (\<exists>orig recs1 ps1. recs = orig # recs1 \<and> parseType2 rec orig ps = Inr ps1 \<and> parse_records recs1 ps1 = Inr ps')"
    using assms(1) unfolding parse_records.simps(2)
    by (auto simp del: parse_records.simps split: if_splits list.splits sum.splits)
  then show ?thesis
    by (elim disjE exE conjE)
      (rule that [OF _ _ , rotated 2], assumption, simp, rule assms(2) header_buckets [OF assms(2)]
        type_buckets(4) [OF assms(2)] type_buckets(1-3) [OF _ assms(2)], assumption?)+
qed

lemma parse_buckets: "parse_records recs ps = Inr ps' \<Longrightarrow> buckets_ok ps \<Longrightarrow> buckets_ok ps'"
proof (induction "length recs" arbitrary: recs ps rule: less_induct)
  case less
  show ?case
  proof (cases recs)
    case Nil
    with less.prems show ?thesis by simp
  next
    case (Cons rec recs')
    from less.prems obtain recs1 ps1 where "length recs1 \<le> length recs'" "buckets_ok ps1" "parse_records recs1 ps1 = Inr ps'"
      unfolding Cons by (rule parse_step)
    with less.hyps [of recs1 ps1] Cons show ?thesis by simp
  qed
qed

lemma sort_buckets: "buckets_ok (sort_files ps) = buckets_ok ps"
  by (simp add: buckets_ok_def sort_files_def path_sort.set_sort_slice)

section \<open>Pages in order\<close>

text \<open>Where a file stands in the list: its bucket's rank, then its path.\<close>

definition fpos :: "FileChange \<Rightarrow> int \<times> string" where
  "fpos fc = (bucketRank (FcBucket fc), FcPath fc)"

lemma skipped_fpos: "skipped (Some (b, p)) fc \<longleftrightarrow> fpos fc \<le> (bucketRank b, p)"
  by (auto simp: skipped_def fpos_def Let_def less_eq_prod_def)

lemma ranks [simp]: "bucketRank BucketStaged = 0" "bucketRank BucketUnstaged = 1" "bucketRank BucketUntracked = 2"
    "bucketRank BucketConflicted = 3"
  by (simp_all add: bucketRank_def BucketStaged_def BucketUnstaged_def BucketUntracked_def BucketConflicted_def)

definition distinct_paths :: "parsedStatus \<Rightarrow> bool" where
  "distinct_paths ps \<longleftrightarrow> distinct (map FcPath (psStaged ps)) \<and> distinct (map FcPath (psUnstaged ps)) \<and>
     distinct (map FcPath (psUntracked ps)) \<and> distinct (map FcPath (psConflicted ps))"

lemma sorted_bucket:
  assumes "distinct (map FcPath fcs)" "\<forall>fc\<in>set fcs. FcBucket fc = b"
  shows "sorted_wrt (\<lambda>x y. fpos x < fpos y) (sort_slice path_less fcs)"
proof -
  let ?s = "sort_slice path_less fcs"
  have "distinct (map FcPath ?s)"
    using assms(1) path_sort.mset_sort_slice [of fcs] by (metis mset_eq_imp_distinct_iff mset_map)
  with path_sort.sorted_sort_slice [of fcs] have "sorted_wrt (<) (map FcPath ?s)"
    by (simp add: strict_sorted_iff)
  then have "sorted_wrt (\<lambda>x y. FcPath x < FcPath y) ?s" by (simp add: sorted_wrt_map)
  moreover have "\<forall>fc\<in>set ?s. FcBucket fc = b" using assms(2) by (simp add: path_sort.set_sort_slice)
  ultimately show ?thesis
    by (rule_tac sorted_wrt_mono_rel [where P = "\<lambda>x y. FcPath x < FcPath y"]) (auto simp: fpos_def less_prod_def)
qed

lemma sorted_files:
  assumes "buckets_ok ps" "distinct_paths ps"
  shows "sorted_wrt (\<lambda>x y. fpos x < fpos y) (all_files (sort_files ps))"
proof -
  have "sorted_wrt (\<lambda>x y. fpos x < fpos y) (sort_slice path_less (psStaged ps))"
    "sorted_wrt (\<lambda>x y. fpos x < fpos y) (sort_slice path_less (psUnstaged ps))"
    "sorted_wrt (\<lambda>x y. fpos x < fpos y) (sort_slice path_less (psUntracked ps))"
    "sorted_wrt (\<lambda>x y. fpos x < fpos y) (sort_slice path_less (psConflicted ps))"
    using assms by (auto simp: distinct_paths_def buckets_ok_def intro: sorted_bucket)
  with assms(1) show ?thesis
    by (auto simp: all_files_def sort_files_def sorted_wrt_append path_sort.set_sort_slice buckets_ok_def fpos_def
        less_prod_def)
qed

lemma kept_after:
  assumes "sorted_wrt (\<lambda>x y. fpos x < fpos y) fcs" "i < length fcs" "fpos (fcs ! i) = (bucketRank b, p)"
  shows "filter (\<lambda>fc. \<not> skipped (Some (b, p)) fc) fcs = drop (Suc i) fcs"
proof -
  have t: "fpos x \<le> fpos (fcs ! i)" if x: "x \<in> set (take (Suc i) fcs)" for x
  proof -
    from x obtain j where "j \<le> i" "x = fcs ! j" using assms(2) by (auto simp: in_set_conv_nth less_Suc_eq_le)
    with assms(1,2) show ?thesis by (cases "j = i") (auto simp: sorted_wrt_iff_nth_less intro: less_imp_le)
  qed
  have d: "fpos (fcs ! i) < fpos x" if x: "x \<in> set (drop (Suc i) fcs)" for x
  proof -
    from x obtain j where "j < length fcs - Suc i" "x = fcs ! (Suc i + j)" by (auto simp: in_set_conv_nth)
    with assms(1,2) show ?thesis by (auto simp: sorted_wrt_iff_nth_less)
  qed
  have "filter (\<lambda>fc. \<not> skipped (Some (b, p)) fc) (take (Suc i) fcs @ drop (Suc i) fcs) = drop (Suc i) fcs"
    unfolding filter_append skipped_fpos assms(3) [symmetric]
    using t d by (subst filter_False, force simp: not_le) (subst filter_True, auto simp: not_le)
  then show ?thesis by (simp only: append_take_drop_id)
qed

lemma paginate_kept:
  assumes "0 < limit" "length out \<le> limit"
  shows "paginate_loop env cursor limit out fcs =
    (let kept = out @ filter (\<lambda>fc. \<not> skipped cursor fc) fcs
     in if length kept \<le> limit then Some (kept, [])
        else Some (take limit kept, encodeFileCursor env (FcBucket (kept ! (limit - 1))) (FcPath (kept ! (limit - 1)))))"
  using assms(2)
proof (induction fcs arbitrary: out)
  case (Cons fc fcs)
  show ?case
  proof (cases "skipped cursor fc \<or> length out < limit")
    case True
    with Cons show ?thesis by (auto simp: Let_def)
  next
    case False
    with Cons.prems have l: "length out = limit" "\<not> skipped cursor fc" by auto
    with assms(1) have "out \<noteq> []" "limit - 1 < limit" by auto
    with l show ?thesis by (simp add: Let_def last_conv_nth nth_append del: One_nat_def)
  qed
qed (simp add: Let_def)

text \<open>JSON and base64url read a cursor back, but for bytes that are no UTF-8.\<close>

definition cursor_codec :: "git_env \<Rightarrow> bool" where
  "cursor_codec env \<longleftrightarrow>
     (\<forall>b p. unmarshal_cursor env (marshal_cursor env b p) = Some (coerce_utf8 b, coerce_utf8 p)) \<and>
     (\<forall>x. url64_decode env (url64_encode env x) = Some x) \<and>
     (\<forall>b p. url64_encode env (marshal_cursor env b p) \<noteq> [])"

lemma cursor_back:
  "cursor_codec env \<Longrightarrow> decodeFileCursor env (encodeFileCursor env b p) = Some (coerce_utf8 b, coerce_utf8 p)"
  "cursor_codec env \<Longrightarrow> encodeFileCursor env b p \<noteq> []"
  by (simp_all add: cursor_codec_def decodeFileCursor_def encodeFileCursor_def)

lemma ascii_buckets [simp]:
  "coerce_utf8 BucketStaged = BucketStaged" "coerce_utf8 BucketUnstaged = BucketUnstaged"
  "coerce_utf8 BucketUntracked = BucketUntracked" "coerce_utf8 BucketConflicted = BucketConflicted"
  by (simp_all add: BucketStaged_def BucketUnstaged_def BucketUntracked_def BucketConflicted_def rune_size_def)

lemma bucket_text: "buckets_ok ps \<Longrightarrow> fc \<in> set (all_files ps) \<Longrightarrow> coerce_utf8 (FcBucket fc) = FcBucket fc"
  by (auto simp: buckets_ok_def all_files_def)

text \<open>The page that starts after i files.\<close>

lemma page_after:
  assumes "cursor_codec env" "sorted_wrt (\<lambda>x y. fpos x < fpos y) (all_files ps)" "0 < limit"
    and "i < length (all_files ps)" "coerce_utf8 (FcBucket (all_files ps ! i)) = FcBucket (all_files ps ! i)"
    "coerce_utf8 (FcPath (all_files ps ! i)) = FcPath (all_files ps ! i)"
    "c = encodeFileCursor env (FcBucket (all_files ps ! i)) (FcPath (all_files ps ! i))"
  shows "paginateFiles env ps c limit =
    (let rest = drop (Suc i) (all_files ps)
     in if length rest \<le> limit then Some (rest, [])
        else Some (take limit rest, encodeFileCursor env (FcBucket (rest ! (limit - 1))) (FcPath (rest ! (limit - 1)))))"
proof -
  let ?f = "all_files ps ! i"
  have "filter (\<lambda>fc. \<not> skipped (Some (FcBucket ?f, FcPath ?f)) fc) (all_files ps) = drop (Suc i) (all_files ps)"
    using assms(2,4) by (rule kept_after) (simp add: fpos_def)
  with cursor_back(1) [OF assms(1), of "FcBucket ?f" "FcPath ?f"] assms(3,5-7) show ?thesis
    by (simp add: paginateFiles_def paginate_kept)
qed

lemma page_first:
  assumes "0 < limit"
  shows "paginateFiles env ps [] limit =
    (let rest = all_files ps
     in if length rest \<le> limit then Some (rest, [])
        else Some (take limit rest, encodeFileCursor env (FcBucket (rest ! (limit - 1))) (FcPath (rest ! (limit - 1)))))"
proof -
  have "filter (\<lambda>fc. \<not> skipped None fc) (all_files ps) = all_files ps" by (simp add: skipped_def)
  with assms show ?thesis by (simp add: paginateFiles_def decodeFileCursor_def paginate_kept)
qed

section \<open>A client that pages\<close>

text \<open>The cursor after k pages, each asked for with the cursor of the one before.\<close>

fun page_cursor :: "git_env \<Rightarrow> git_run \<Rightarrow> (string \<Rightarrow> string option) \<Rightarrow> int \<Rightarrow> nat \<Rightarrow> string" where
  "page_cursor env run git_log limit 0 = []"
| "page_cursor env run git_log limit (Suc k) =
     (case Snapshot env run git_log ModeWithFiles (page_cursor env run git_log limit k) limit of
        None \<Rightarrow> []
      | Some st \<Rightarrow> NextFileCursor st)"

lemma file_limit_bounds: "0 < file_limit limit" "file_limit limit \<le> 1000"
  by (auto simp: file_limit_def Let_def)

lemma sorted_files_mset: "mset (all_files (sort_files ps)) = mset (all_files ps)"
  by (simp add: all_files_def sort_files_def path_sort.mset_sort_slice)

lemma sorted_files_length: "length (all_files (sort_files ps)) = length (all_files ps)"
  using sorted_files_mset mset_eq_length by blast

lemma snapshot_page:
  assumes "runStatus env run = Inr raw" "parsePorcelainV2 raw = Inr ps"
    "paginateFiles env (sort_files ps) cursor (file_limit limit) = Some (files, c)"
  shows "\<exists>st. Snapshot env run git_log ModeWithFiles cursor limit = Some st \<and> CkFiles st = files \<and>
    NextFileCursor st = c \<and> FilesTotal st = length (all_files ps)"
  using assms by (simp add: Snapshot_def Let_def all_files_def)

text \<open>Every page, by the number of pages before it.\<close>

lemma pages_run:
  assumes "cursor_codec env" "runStatus env run = Inr raw" "parsePorcelainV2 raw = Inr ps" "distinct_paths ps"
    "\<forall>fc\<in>set (all_files ps). coerce_utf8 (FcPath fc) = FcPath fc"
    and "files = all_files (sort_files ps)" and "L = file_limit limit"
  shows "k * L < length files \<or> k = 0 \<Longrightarrow>
    paginateFiles env (sort_files ps) (page_cursor env run git_log limit k) L =
      (if length files \<le> Suc k * L then Some (drop (k * L) files, [])
       else Some (take L (drop (k * L) files), encodeFileCursor env (FcBucket (files ! (Suc k * L - 1))) (FcPath (files ! (Suc k * L - 1)))))"
proof (induction k)
  case 0
  have "0 < L" using assms(7) file_limit_bounds by simp
  with page_first [of L env "sort_files ps"] assms(6) show ?case by (simp add: Let_def)
next
  case (Suc k)
  have L: "0 < L" using assms(7) file_limit_bounds by simp
  have b: "buckets_ok ps"
    using parse_buckets [OF assms(3) [unfolded parsePorcelainV2_def]] by (simp add: buckets_ok_def empty_status_def)
  from Suc.prems have n: "Suc k * L < length files" by simp
  then have "k * L < length files" by simp
  with Suc.IH n have p: "paginateFiles env (sort_files ps) (page_cursor env run git_log limit k) L =
      Some (take L (drop (k * L) files), encodeFileCursor env (FcBucket (files ! (Suc k * L - 1))) (FcPath (files ! (Suc k * L - 1))))"
    by simp
  let ?i = "Suc k * L - 1"
  have i: "?i < length (all_files (sort_files ps))" "Suc ?i = Suc k * L" using n L assms(6) by simp_all
  have c: "page_cursor env run git_log limit (Suc k) = encodeFileCursor env (FcBucket (files ! ?i)) (FcPath (files ! ?i))"
    using snapshot_page [OF assms(2,3) p [unfolded assms(7)], of git_log] assms(7) by auto
  have m: "all_files (sort_files ps) ! ?i \<in> set (all_files (sort_files ps))" using i(1) by (rule nth_mem)
  then have "all_files (sort_files ps) ! ?i \<in> set (all_files ps)" using sorted_files_mset mset_eq_setD by blast
  with assms(5) have "coerce_utf8 (FcPath (all_files (sort_files ps) ! ?i)) = FcPath (all_files (sort_files ps) ! ?i)" by blast
  moreover have "coerce_utf8 (FcBucket (all_files (sort_files ps) ! ?i)) = FcBucket (all_files (sort_files ps) ! ?i)"
    using bucket_text [of "sort_files ps"] b m by (simp add: sort_buckets)
  ultimately have "paginateFiles env (sort_files ps) (page_cursor env run git_log limit (Suc k)) L =
    (let rest = drop (Suc ?i) files
     in if length rest \<le> L then Some (rest, [])
        else Some (take L rest, encodeFileCursor env (FcBucket (rest ! (L - 1))) (FcPath (rest ! (L - 1)))))"
    using page_after [OF assms(1) sorted_files [OF b assms(4)] L i(1)] c assms(6) by simp
  moreover have "drop (Suc k * L) files ! (L - 1) = files ! (Suc (Suc k) * L - 1)" if "L < length files - Suc k * L"
    using that L n by (simp add: nth_drop add_ac)
  ultimately show ?case using n L i(2) by (auto simp: Let_def)
qed

section \<open>Properties\<close>


definition demo_entries :: "status_entry list" where
  "demo_entries = [HeadHeader ''main'', AbHeader 2 0, Ordinary ''MM'' [''x'', ''x'', ''x'', ''x'', ''x'', ''x''] ''a b'', Untracked ''c'']"

lemma demo_entries_ok: "\<forall>e\<in>set demo_entries. entry_ok e \<and> (\<forall>r\<in>set (entry_records e). length r < 4194304)"
proof -
  have "plain_name ''main''" unfolding plain_name_def
    by (simp add: trim_space_plain [of "''main''", simplified] go_spaces_def)
  moreover have "show_nat 2 = ''2''" "show_nat 0 = ''0''" by (simp_all add: show_nat.simps char_of_def bit_0 bit_Suc_0_iff)
  ultimately show ?thesis
    by (simp add: demo_entries_def plain_field_def)
qed



text \<open>A codec: the bucket with its length in front, then the path.\<close>

definition demo_git :: git_env where
  "demo_git = \<lparr>to_lower = (\<lambda>s. s),
     marshal_cursor = (\<lambda>b p. replicate (length (coerce_utf8 b)) CHR ''x'' @ NUL # coerce_utf8 b @ coerce_utf8 p),
     unmarshal_cursor = (\<lambda>s. case cut_at NUL s of (l, None) \<Rightarrow> None
       | (l, Some rest) \<Rightarrow> Some (take (length l) rest, drop (length l) rest)),
     url64_encode = (\<lambda>s. s), url64_decode = Some, parse_rfc3339 = (\<lambda>_. None)\<rparr>"

lemma cut_at_sep: "c \<notin> set a \<Longrightarrow> cut_at c (a @ c # b) = (a, Some b)"
  by (induction a) auto

lemma demo_git_codec: "cursor_codec demo_git"
  by (simp add: cursor_codec_def demo_git_def cut_at_sep)

definition demo_run :: "string \<Rightarrow> git_run" where
  "demo_run out = \<lparr>pipeOpened = True, started = True, stdoutReads = [out], stdoutEnds = True, stderrChunks = [],
     exitedOk = True, deadlineExceeded = False\<rparr>"

definition demo_status :: parsedStatus where
  "demo_status = fold meaning [Untracked ''b'', Untracked ''a'', Untracked ''c''] empty_status"

lemma demo_parsed: "\<exists>raw. runStatus demo_git (demo_run raw) = Inr raw \<and> parsePorcelainV2 raw = Inr demo_status"
proof -
  let ?es = "[Untracked ''b'', Untracked ''a'', Untracked ''c'']"
  have "\<forall>e\<in>set ?es. entry_ok e \<and> (\<forall>r\<in>set (entry_records e). length r < status_buffer)"
    by (simp add: status_buffer_def)
  then have "parse_records (concat (map entry_records ?es)) empty_status = Inr (fold meaning ?es empty_status)"
    by (rule parse_entries)
  moreover have "tokens NUL (render ?es) = concat (map entry_records ?es)"
    unfolding render_def by (rule tokens_render) simp
  ultimately have "parsePorcelainV2 (render ?es) = Inr demo_status" by (simp add: parsePorcelainV2_def demo_status_def)
  moreover have "length (render ?es) \<le> maxPorcelainBytes" by (simp add: render_def maxPorcelainBytes_def)
  then have "runStatus demo_git (demo_run (render ?es)) = Inr (render ?es)"
    by (simp add: runStatus_def demo_run_def Let_def)
  ultimately show ?thesis by blast
qed


text \<open>
  a name that is no valid UTF-8 stalls the client: JSON changes it in the cursor, and when the
  changed name comes before the name itself, the file is not skipped: with one file a page, asking
  with the cursor that the first page gave brings the same file and the same cursor for ever, and the
  files behind it are never seen.
\<close>

theorem undecodable_name_stalls_paging:
  assumes "cursor_codec env" and "all_files ps = f # g # rest" and "coerce_utf8 (FcBucket f) = FcBucket f"
    and "coerce_utf8 (FcPath f) < FcPath f"
    and "cursor = encodeFileCursor env (FcBucket f) (FcPath f)"
    and "\<not> skipped (Some (FcBucket f, coerce_utf8 (FcPath f))) g"
  shows "paginateFiles env ps [] 1 = Some ([f], cursor) \<and> paginateFiles env ps cursor 1 = Some ([f], cursor)"
proof -
  have "\<not> skipped (Some (FcBucket f, coerce_utf8 (FcPath f))) f" using assms(4) by (simp add: skipped_def Let_def)
  with assms cursor_back(1) [OF assms(1), of "FcBucket f" "FcPath f"] show ?thesis
    by (simp add: paginateFiles_def decodeFileCursor_def skipped_def [of None])
qed

definition stalled_status :: parsedStatus where
  "stalled_status = fold meaning [Untracked [CHR 0xF5], Untracked [CHR 0xF6]] empty_status"

theorem undecodable_name_stalls_paging_witness:
  "\<exists>f cursor. FcPath f = [CHR 0xF5] \<and> paginateFiles demo_git stalled_status [] 1 = Some ([f], cursor) \<and>
     paginateFiles demo_git stalled_status cursor 1 = Some ([f], cursor) \<and> length (all_files stalled_status) = 2"
proof -
  let ?f = "\<lambda>p. \<lparr>FcPath = p, FcOrigPath = [], FcXY = ''??'', FcBucket = BucketUntracked\<rparr>"
  have files: "all_files stalled_status = [?f [CHR 0xF5], ?f [CHR 0xF6]]"
    by (simp add: stalled_status_def all_files_def empty_status_def)
  have c: "coerce_utf8 [CHR 0xF5] = [CHR 0xEF, CHR 0xBF, CHR 0xBD]" by (simp add: rune_size_def)
  have "coerce_utf8 (FcPath (?f [CHR 0xF5])) < FcPath (?f [CHR 0xF5])"
    by (simp add: c less_char_def del: coerce_utf8.simps)
  moreover have "\<not> skipped (Some (FcBucket (?f [CHR 0xF5]), coerce_utf8 (FcPath (?f [CHR 0xF5])))) (?f [CHR 0xF6])"
    by (simp add: skipped_def Let_def c not_le less_char_def del: coerce_utf8.simps)
  ultimately show ?thesis
    using undecodable_name_stalls_paging [OF demo_git_codec files _ _ refl] files
    by (intro exI [of _ "?f [CHR 0xF5]"]) auto
qed



end
