(* ===== verification/StreamEvents.thy ===== *)
theory StreamEvents
  imports Prelude
begin

text \<open>
  The events an executor streams (cli/internal/taskexecutor/stream.go): their stable keys and how a
  later event updates an earlier one of the same key.  strings.EqualFold and strings.ToLower are
  functions of the calls.
\<close>

section \<open>Data\<close>

record text_env =
  equal_fold :: "string \<Rightarrow> string \<Rightarrow> bool"
  lower_case :: "string \<Rightarrow> string"

text \<open>Times are instants in nanoseconds; 0 is Go's zero time.\<close>

record MessagePart =
  MessageID :: string
  PartID :: string
  MessageRole :: string
  MessageType :: string
  MessageText :: string
  MessageAppend :: bool

record ToolDiff =
  DiffPath :: string
  DiffOldText :: "string option"
  DiffNewText :: string

record MCPOutputBlock =
  BlockType :: string
  BlockLabel :: string
  BlockText :: string
  BlockJSON :: string
  BlockDataURL :: string
  BlockMIMEType :: string

record MCPToolPayload =
  McpServer :: string
  McpTool :: string
  McpArgumentsJSON :: string
  McpStructuredContentJSON :: string
  McpOutputBlocks :: "MCPOutputBlock list"
  McpDebugJSON :: string

record ToolCall =
  CallID :: string
  ParentCallID :: string
  ToolName :: string
  ToolKind :: string
  ToolTitle :: string
  ToolStatus :: string
  ToolDurationMS :: int
  InputSummary :: string
  OutputText :: string
  ErrorText :: string
  ToolPaths :: "string list"
  ToolDiffs :: "ToolDiff list"
  RawInputJSON :: string
  RawOutputJSON :: string
  ToolMCP :: "MCPToolPayload option"

record PlanStep =
  StepText :: string
  StepStatus :: string

record PlanSnapshot =
  PlanID :: string
  PlanSteps :: "PlanStep list"

record UsageSnapshot =
  InputTokens :: int
  CachedInputTokens :: int
  OutputTokens :: int
  TotalTokens :: int
  UsageDurationMS :: int

record StreamEvent =
  EventID :: string
  EventSeq :: nat
  EmittedAt :: int
  EventSession :: string
  ProviderRecordID :: string
  ProviderSubindex :: int
  Provenance :: string
  EventKind :: string
  RawText :: string
  EventMessage :: "MessagePart option"
  EventTool :: "ToolCall option"
  EventPlan :: "PlanSnapshot option"
  EventUsage :: "UsageSnapshot option"

definition ExecutorPersisted :: string where
  "ExecutorPersisted = ''executor_persisted''"

section \<open>Keys\<close>

text \<open>strings.Fields\<close>

function text_fields :: "string \<Rightarrow> string \<Rightarrow> string list" where
  "text_fields cur [] = (if cur = [] then [] else [cur])"
| "text_fields cur (c # cs) =
     (case find (\<lambda>w. w \<noteq> [] \<and> prefix w (c # cs)) go_spaces of
        Some w \<Rightarrow> (if cur = [] then [] else [cur]) @ text_fields [] (drop (length w) (c # cs))
      | None \<Rightarrow> text_fields (cur @ [c]) cs)"
  by pat_completeness auto
termination
  by (relation "measure (\<lambda>(cur, s). length s)") (auto simp: find_Some_iff)

definition collapseWhitespace :: "string \<Rightarrow> string" where
  "collapseWhitespace text = join_on (CHR '' '') (text_fields [] (trim_space text))"

definition StableKey :: "StreamEvent \<Rightarrow> string" where
  "StableKey e =
     (if EventKind e = ''message'' then
        (case EventMessage e of
           None \<Rightarrow> []
         | Some m \<Rightarrow>
             if MessageID m \<noteq> [] \<or> PartID m \<noteq> []
             then ''message:'' @ MessageRole m @ '':'' @ MessageID m @ '':'' @ PartID m
             else ''message:'' @ MessageRole m @ '':'' @ MessageType m @ '':'' @ collapseWhitespace (MessageText m))
      else if EventKind e = ''tool'' then
        (case EventTool e of
           None \<Rightarrow> []
         | Some t \<Rightarrow>
             if CallID t \<noteq> [] then ''tool:'' @ CallID t
             else ''tool:'' @ ToolKind t @ '':'' @ ToolName t @ '':'' @ collapseWhitespace (InputSummary t))
      else if EventKind e = ''plan'' then
        (case EventPlan e of
           None \<Rightarrow> []
         | Some p \<Rightarrow> if PlanID p \<noteq> [] then ''plan:'' @ PlanID p else ''plan'')
      else if EventKind e = ''usage'' then ''usage''
      else if EventKind e = ''raw'' then (if RawText e \<noteq> [] then ''raw:'' @ RawText e else [])
      else [])"

section \<open>Updates\<close>

definition toolKindSpecificity :: "string \<Rightarrow> int" where
  "toolKindSpecificity kind = (if kind = [] \<or> kind = ''other'' then 0 else 1)"

definition shouldReplaceToolKind :: "string \<Rightarrow> string \<Rightarrow> bool" where
  "shouldReplaceToolKind existing new =
     (if new = [] \<or> new = existing then False
      else if existing = [] then True
      else toolKindSpecificity existing < toolKindSpecificity new)"

definition isGenericToolName :: "text_env \<Rightarrow> string \<Rightarrow> bool" where
  "isGenericToolName env name =
     (let n = lower_case env (trim_space name) in n = [] \<or> n = ''tool'' \<or> n = ''tool_result'')"

definition shouldReplaceToolName :: "text_env \<Rightarrow> string \<Rightarrow> string \<Rightarrow> bool" where
  "shouldReplaceToolName env existing new =
     (let existing = trim_space existing; new = trim_space new
      in if new = [] \<or> equal_fold env existing new then False
         else if existing = [] then True
         else isGenericToolName env existing \<and> \<not> isGenericToolName env new)"

definition toolInputSummarySpecificity :: "string \<Rightarrow> int" where
  "toolInputSummarySpecificity summary =
     (let summary = trim_space summary
      in if summary = [] then 0
         else if prefix ''{'' summary \<or> prefix ''['' summary then 1
         else 2)"

definition shouldReplaceToolInputSummary :: "string \<Rightarrow> string \<Rightarrow> bool" where
  "shouldReplaceToolInputSummary existing new =
     (let existing = trim_space existing; new = trim_space new
      in if new = [] then False
         else if existing = [] then True
         else toolInputSummarySpecificity existing < toolInputSummarySpecificity new)"

text \<open>A field that the later value replaces when it is not empty.\<close>

definition newer :: "string \<Rightarrow> string \<Rightarrow> string" where
  "newer old new = (if new \<noteq> [] then new else old)"

definition merge_message :: "MessagePart \<Rightarrow> MessagePart \<Rightarrow> MessagePart" where
  "merge_message m n =
     m\<lparr>MessageID := newer (MessageID m) (MessageID n), PartID := newer (PartID m) (PartID n),
       MessageRole := newer (MessageRole m) (MessageRole n), MessageType := newer (MessageType m) (MessageType n),
       MessageAppend := (if MessageAppend n then True else MessageAppend m),
       MessageText := (if MessageText n \<noteq> []
         then (if MessageAppend n then MessageText m @ MessageText n else MessageText n) else MessageText m)\<rparr>"

definition merge_mcp :: "MCPToolPayload \<Rightarrow> MCPToolPayload \<Rightarrow> MCPToolPayload" where
  "merge_mcp m n =
     m\<lparr>McpServer := newer (McpServer m) (McpServer n), McpTool := newer (McpTool m) (McpTool n),
       McpArgumentsJSON := newer (McpArgumentsJSON m) (McpArgumentsJSON n),
       McpStructuredContentJSON := newer (McpStructuredContentJSON m) (McpStructuredContentJSON n),
       McpOutputBlocks := (if McpOutputBlocks n \<noteq> [] then McpOutputBlocks n else McpOutputBlocks m),
       McpDebugJSON := newer (McpDebugJSON m) (McpDebugJSON n)\<rparr>"

definition merge_tool :: "text_env \<Rightarrow> ToolCall \<Rightarrow> ToolCall \<Rightarrow> ToolCall" where
  "merge_tool env t n =
     t\<lparr>CallID := newer (CallID t) (CallID n), ParentCallID := newer (ParentCallID t) (ParentCallID n),
       ToolName := (if shouldReplaceToolName env (ToolName t) (ToolName n) then ToolName n else ToolName t),
       ToolKind := (if shouldReplaceToolKind (ToolKind t) (ToolKind n) then ToolKind n else ToolKind t),
       ToolTitle := newer (ToolTitle t) (ToolTitle n), ToolStatus := newer (ToolStatus t) (ToolStatus n),
       ToolDurationMS := (if ToolDurationMS n \<noteq> 0 then ToolDurationMS n else ToolDurationMS t),
       InputSummary := (if shouldReplaceToolInputSummary (InputSummary t) (InputSummary n)
         then InputSummary n else InputSummary t),
       OutputText := newer (OutputText t) (OutputText n), ErrorText := newer (ErrorText t) (ErrorText n),
       ToolPaths := (if ToolPaths n \<noteq> [] then ToolPaths n else ToolPaths t),
       ToolDiffs := (if ToolDiffs n \<noteq> [] then ToolDiffs n else ToolDiffs t),
       RawInputJSON := newer (RawInputJSON t) (RawInputJSON n),
       RawOutputJSON := newer (RawOutputJSON t) (RawOutputJSON n),
       ToolMCP := (case ToolMCP n of
           None \<Rightarrow> ToolMCP t
         | Some p \<Rightarrow> Some (case ToolMCP t of None \<Rightarrow> p | Some q \<Rightarrow> merge_mcp q p))\<rparr>"

text \<open>A part that is set in both is merged, else the one that is set is taken.\<close>

definition merge_part :: "('a \<Rightarrow> 'a \<Rightarrow> 'a) \<Rightarrow> 'a option \<Rightarrow> 'a option \<Rightarrow> 'a option" where
  "merge_part f old new =
     (case new of None \<Rightarrow> old | Some n \<Rightarrow> Some (case old of None \<Rightarrow> n | Some m \<Rightarrow> f m n))"

definition MergeStreamEvent :: "text_env \<Rightarrow> StreamEvent \<Rightarrow> StreamEvent \<Rightarrow> StreamEvent" where
  "MergeStreamEvent env e n =
     e\<lparr>EventID := newer (EventID e) (EventID n),
       EventSeq := (if EventSeq n \<noteq> 0 then EventSeq n else EventSeq e),
       EmittedAt := (if EmittedAt n \<noteq> 0 then EmittedAt n else EmittedAt e),
       EventKind := newer (EventKind e) (EventKind n), EventSession := newer (EventSession e) (EventSession n),
       ProviderRecordID := newer (ProviderRecordID e) (ProviderRecordID n),
       ProviderSubindex := (if ProviderSubindex n \<noteq> 0 then ProviderSubindex n else ProviderSubindex e),
       Provenance := newer (Provenance e) (Provenance n), RawText := newer (RawText e) (RawText n),
       EventMessage := merge_part merge_message (EventMessage e) (EventMessage n),
       EventTool := merge_part (merge_tool env) (EventTool e) (EventTool n),
       EventPlan := merge_part (\<lambda>_ p. p) (EventPlan e) (EventPlan n),
       EventUsage := merge_part (\<lambda>_ u. u) (EventUsage e) (EventUsage n)\<rparr>"

section \<open>Merging again\<close>

lemma newer_same [simp]: "newer (newer a b) b = newer a b" "newer a [] = a"
  by (simp_all add: newer_def)

lemma kind_settled: "shouldReplaceToolKind (if shouldReplaceToolKind a b then b else a) b = False"
  by (simp add: shouldReplaceToolKind_def)

lemma summary_settled:
  "shouldReplaceToolInputSummary (if shouldReplaceToolInputSummary a b then b else a) b = False"
  by (auto simp: shouldReplaceToolInputSummary_def Let_def)

text \<open>EqualFold holds between a string and itself.\<close>

definition folds_itself :: "text_env \<Rightarrow> bool" where
  "folds_itself env \<longleftrightarrow> (\<forall>s. equal_fold env s s)"

lemma name_settled:
  "folds_itself env \<Longrightarrow> shouldReplaceToolName env (if shouldReplaceToolName env a b then b else a) b = False"
  by (auto simp: shouldReplaceToolName_def folds_itself_def Let_def)

lemma merge_mcp_again: "merge_mcp (merge_mcp m n) n = merge_mcp m n"
  by (simp add: merge_mcp_def)

lemma merge_mcp_self: "merge_mcp n n = n"
  by (simp add: merge_mcp_def newer_def)

lemma merge_tool_again: "folds_itself env \<Longrightarrow> merge_tool env (merge_tool env t n) n = merge_tool env t n"
  by (simp add: merge_tool_def kind_settled summary_settled name_settled merge_mcp_again merge_mcp_self split: option.split)

lemma merge_tool_self: "folds_itself env \<Longrightarrow> merge_tool env n n = n"
  by (cases "ToolMCP n")
    (simp_all add: merge_tool_def newer_def merge_mcp_self shouldReplaceToolKind_def shouldReplaceToolName_def
      shouldReplaceToolInputSummary_def folds_itself_def Let_def)

lemma merge_message_again: "\<not> MessageAppend n \<Longrightarrow> merge_message (merge_message m n) n = merge_message m n"
  by (simp add: merge_message_def)

lemma merge_message_self: "\<not> MessageAppend n \<Longrightarrow> merge_message n n = n"
  by (simp add: merge_message_def newer_def)

lemma merge_part_again:
  "(\<And>m n. new = Some n \<Longrightarrow> f (f m n) n = f m n) \<Longrightarrow> (\<And>n. new = Some n \<Longrightarrow> f n n = n) \<Longrightarrow>
    merge_part f (merge_part f old new) new = merge_part f old new"
  by (auto simp: merge_part_def split: option.split)

text \<open>An update that is delivered twice changes nothing more, unless it appends text.\<close>

lemma merge_again:
  assumes "folds_itself env" "\<And>m. EventMessage n = Some m \<Longrightarrow> \<not> MessageAppend m"
  shows "MergeStreamEvent env (MergeStreamEvent env e n) n = MergeStreamEvent env e n"
proof -
  have "merge_part merge_message (merge_part merge_message (EventMessage e) (EventMessage n)) (EventMessage n) =
      merge_part merge_message (EventMessage e) (EventMessage n)"
    using assms(2) by (intro merge_part_again) (auto simp: merge_message_again merge_message_self)
  moreover have "merge_part (merge_tool env) (merge_part (merge_tool env) (EventTool e) (EventTool n)) (EventTool n) =
      merge_part (merge_tool env) (EventTool e) (EventTool n)"
    using assms(1) by (intro merge_part_again) (auto simp: merge_tool_again merge_tool_self)
  moreover have "merge_part (\<lambda>_ p. p) (merge_part (\<lambda>_ p. p) (EventPlan e) (EventPlan n)) (EventPlan n) =
      merge_part (\<lambda>_ p. p) (EventPlan e) (EventPlan n)" by (rule merge_part_again) simp_all
  moreover have "merge_part (\<lambda>_ p. p) (merge_part (\<lambda>_ p. p) (EventUsage e) (EventUsage n)) (EventUsage n) =
      merge_part (\<lambda>_ p. p) (EventUsage e) (EventUsage n)" by (rule merge_part_again) simp_all
  ultimately show ?thesis by (simp add: MergeStreamEvent_def)
qed

end
