(* ===== verification/TaskHistory.thy ===== *)
theory TaskHistory
  imports StreamEvents Domain
begin

text \<open>
  The event history of a node run (cli/internal/taskhistory/history.go): the records appended to the
  run's file, the file read back, also after a torn write, and the merge of the local records with
  those recovered from the provider.  encoding/json and the provider's own files
  (provider_backfill.go) are arguments.
\<close>

section \<open>Records\<close>

text \<open>
  The nested types have the fields of the executor's, except that a message has no Append flag.
\<close>

record HistoryMessage =
  RecMessageID :: string
  RecPartID :: string
  RecRole :: string
  RecType :: string
  RecText :: string

record EventRecord =
  RecEventID :: string
  RecSeq :: nat
  RecEmittedAt :: int
  RecRecordedAt :: int
  RecSession :: string
  RecProviderID :: string
  RecSubindex :: int
  RecProvenance :: string
  RecKind :: string
  RecRaw :: string
  RecMessage :: "HistoryMessage option"
  RecTool :: "ToolCall option"
  RecPlan :: "PlanSnapshot option"
  RecUsage :: "UsageSnapshot option"

record ReadResult =
  ReadSession :: string
  ReadProvenance :: string
  ReadCompleteness :: string
  ReadLastSeq :: nat
  ReadEvents :: "EventRecord list"

definition message_record :: "MessagePart \<Rightarrow> HistoryMessage" where
  "message_record m =
     \<lparr>RecMessageID = MessageID m, RecPartID = PartID m, RecRole = MessageRole m, RecType = MessageType m,
      RecText = MessageText m\<rparr>"

definition eventRecordFromExecutor :: "StreamEvent \<Rightarrow> int \<Rightarrow> EventRecord" where
  "eventRecordFromExecutor e recordedAt =
     \<lparr>RecEventID = EventID e, RecSeq = EventSeq e,
      RecEmittedAt = (if EmittedAt e = 0 then recordedAt else EmittedAt e), RecRecordedAt = recordedAt,
      RecSession = EventSession e, RecProviderID = ProviderRecordID e, RecSubindex = ProviderSubindex e,
      RecProvenance = (if Provenance e = [] then ExecutorPersisted else Provenance e),
      RecKind = EventKind e, RecRaw = RawText e, RecMessage = map_option message_record (EventMessage e),
      RecTool = EventTool e, RecPlan = EventPlan e, RecUsage = EventUsage e\<rparr>"

definition message_part :: "HistoryMessage \<Rightarrow> MessagePart" where
  "message_part m =
     \<lparr>MessageID = RecMessageID m, PartID = RecPartID m, MessageRole = RecRole m, MessageType = RecType m,
      MessageText = RecText m, MessageAppend = False\<rparr>"

definition eventRecordToStream :: "EventRecord \<Rightarrow> StreamEvent" where
  "eventRecordToStream r =
     \<lparr>EventID = RecEventID r, EventSeq = RecSeq r, EmittedAt = RecEmittedAt r, EventSession = RecSession r,
      ProviderRecordID = RecProviderID r, ProviderSubindex = RecSubindex r, Provenance = RecProvenance r,
      EventKind = RecKind r, RawText = RecRaw r, EventMessage = map_option message_part (RecMessage r),
      EventTool = RecTool r, EventPlan = RecPlan r, EventUsage = RecUsage r\<rparr>"

definition NewEventRecords :: "int \<Rightarrow> StreamEvent list \<Rightarrow> EventRecord list" where
  "NewEventRecords recordedAt events = map (\<lambda>e. eventRecordFromExecutor e recordedAt) events"

section \<open>The file\<close>

datatype file_content = Missing | Unreadable | Content string

datatype history_error = ErrNotExist | ErrRead | ErrMkdir | ErrOpen | ErrEncode | ErrWrite | ErrDecode

text \<open>json.Marshal and json.Unmarshal at EventRecord\<close>

record json_codec =
  marshal :: "EventRecord \<Rightarrow> string option"
  unmarshal :: "string \<Rightarrow> EventRecord option"

abbreviation newline :: char where
  "newline \<equiv> CHR 0x0A"

text \<open>
  Encode writes the text of a record and a newline with one write call.  faults tells for each call
  how many bytes reach the file when the write fails or the process ends in it.
\<close>

fun write_records :: "json_codec \<Rightarrow> (nat \<Rightarrow> nat option) \<Rightarrow> EventRecord list \<Rightarrow> string \<Rightarrow> string \<times> history_error option" where
  "write_records cd faults [] file = (file, None)"
| "write_records cd faults (r # rs) file =
     (case marshal cd r of
        None \<Rightarrow> (file, Some ErrEncode)
      | Some s \<Rightarrow>
          (case faults 0 of
             Some n \<Rightarrow> (file @ take n (s @ [newline]), Some ErrWrite)
           | None \<Rightarrow> write_records cd (\<lambda>i. faults (Suc i)) rs (file @ s @ [newline])))"

text \<open>mkdirs and opens tell whether MkdirAll and OpenFile succeed.\<close>

definition Append ::
  "json_codec \<Rightarrow> bool \<Rightarrow> bool \<Rightarrow> (nat \<Rightarrow> nat option) \<Rightarrow> StreamEvent list \<Rightarrow> int \<Rightarrow> file_content \<Rightarrow>
    file_content \<times> history_error option" where
  "Append cd mkdirs opens faults events recordedAt file =
     (let records = NewEventRecords recordedAt events
      in if records = [] then (file, None)
         else if \<not> mkdirs then (file, Some ErrMkdir)
         else if \<not> opens then (file, Some ErrOpen)
         else (case file of
             Unreadable \<Rightarrow> (Unreadable, Some ErrOpen)
           | Missing \<Rightarrow> apfst Content (write_records cd faults records [])
           | Content s \<Rightarrow> apfst Content (write_records cd faults records s)))"

fun decode_lines :: "json_codec \<Rightarrow> bool \<Rightarrow> string list \<Rightarrow> EventRecord list \<Rightarrow> history_error + EventRecord list" where
  "decode_lines cd trailingNewline [] records = Inr records"
| "decode_lines cd trailingNewline (line # rest) records =
     (if is_blank line then decode_lines cd trailingNewline rest records
      else (case unmarshal cd line of
          None \<Rightarrow> if rest = [] \<and> \<not> trailingNewline then Inr records else Inl ErrDecode
        | Some record \<Rightarrow> decode_lines cd trailingNewline rest (records @ [record])))"

definition decodeRecords :: "json_codec \<Rightarrow> string \<Rightarrow> history_error + EventRecord list" where
  "decodeRecords cd data =
     decode_lines cd (data = [] \<or> last data = newline) (split_on newline data) []"

definition ReadAll :: "json_codec \<Rightarrow> file_content \<Rightarrow> history_error + EventRecord list" where
  "ReadAll cd file =
     (case file of Missing \<Rightarrow> Inl ErrNotExist | Unreadable \<Rightarrow> Inl ErrRead | Content data \<Rightarrow> decodeRecords cd data)"

definition LastSeq :: "json_codec \<Rightarrow> file_content \<Rightarrow> history_error + nat" where
  "LastSeq cd file =
     (case ReadAll cd file of
        Inl e \<Rightarrow> Inl e
      | Inr records \<Rightarrow> Inr (if records = [] then 0 else RecSeq (last records)))"

definition IsMissing :: "history_error \<Rightarrow> bool" where
  "IsMissing e \<longleftrightarrow> e = ErrNotExist"

section \<open>Merging\<close>

definition laterRecordedAt :: "int \<Rightarrow> int \<Rightarrow> int" where
  "laterRecordedAt left right = (if left < right then right else left)"

definition mergeEventRecord :: "text_env \<Rightarrow> EventRecord \<Rightarrow> EventRecord \<Rightarrow> EventRecord" where
  "mergeEventRecord env existing new =
     eventRecordFromExecutor (MergeStreamEvent env (eventRecordToStream existing) (eventRecordToStream new))
       (laterRecordedAt (RecRecordedAt existing) (RecRecordedAt new))"

definition stableEventRecordKey :: "EventRecord \<Rightarrow> string" where
  "stableEventRecordKey r = StableKey (eventRecordToStream r)"

definition mergeEventRecordKey :: "EventRecord \<Rightarrow> string" where
  "mergeEventRecordKey r =
     (case RecTool r of
        Some t \<Rightarrow>
          if RecKind r = ''tool'' \<and> CallID t \<noteq> []
          then ''tool:'' @ CallID t @ '':'' @
            (if ToolStatus t = ''completed'' \<or> ToolStatus t = ''failed'' \<or> OutputText t \<noteq> [] \<or> ErrorText t \<noteq> [] \<or>
                ToolDiffs t \<noteq> [] then ''terminal'' else ''active'')
          else stableEventRecordKey r
      | None \<Rightarrow> stableEventRecordKey r)"

definition providerRecordKey :: "EventRecord \<Rightarrow> string" where
  "providerRecordKey r =
     (if RecProviderID r = [] then [] else RecProviderID r @ ''#'' @ show_int (RecSubindex r))"

text \<open>indexByKey and indexByProviderKey; the keys of a record are entered when they are not empty.\<close>

record merge_state =
  Merged :: "EventRecord list"
  IndexByKey :: "string \<rightharpoonup> nat"
  IndexByProviderKey :: "string \<rightharpoonup> nat"

definition enter_keys :: "nat \<Rightarrow> EventRecord \<Rightarrow> merge_state \<Rightarrow> merge_state" where
  "enter_keys idx r st =
     st\<lparr>IndexByKey := (if mergeEventRecordKey r \<noteq> [] then (IndexByKey st)(mergeEventRecordKey r \<mapsto> idx) else IndexByKey st),
        IndexByProviderKey := (if providerRecordKey r \<noteq> []
          then (IndexByProviderKey st)(providerRecordKey r \<mapsto> idx) else IndexByProviderKey st)\<rparr>"

fun index_local :: "nat \<Rightarrow> EventRecord list \<Rightarrow> merge_state \<Rightarrow> merge_state" where
  "index_local idx [] st = st"
| "index_local idx (r # rs) st = index_local (Suc idx) rs (enter_keys idx r st)"

definition merge_at :: "text_env \<Rightarrow> nat \<Rightarrow> EventRecord \<Rightarrow> merge_state \<Rightarrow> merge_state" where
  "merge_at env idx r st = st\<lparr>Merged := (Merged st)[idx := mergeEventRecord env (Merged st ! idx) r]\<rparr>"

definition merge_backfill :: "text_env \<Rightarrow> EventRecord \<Rightarrow> merge_state \<Rightarrow> merge_state" where
  "merge_backfill env r st =
     (case IndexByProviderKey st (providerRecordKey r) of
        Some idx \<Rightarrow> merge_at env idx r st
      | None \<Rightarrow>
          (case (if mergeEventRecordKey r \<noteq> [] then IndexByKey st (mergeEventRecordKey r) else None) of
             Some idx \<Rightarrow> merge_at env idx r st
           | None \<Rightarrow> enter_keys (length (Merged st)) r (st\<lparr>Merged := Merged st @ [r]\<rparr>)))"

definition record_before :: "EventRecord \<Rightarrow> EventRecord \<Rightarrow> bool" where
  "record_before left right =
     (if RecEmittedAt left \<noteq> RecEmittedAt right then RecEmittedAt left < RecEmittedAt right
      else if RecSeq left \<noteq> RecSeq right then RecSeq left < RecSeq right
      else if RecRecordedAt left \<noteq> RecRecordedAt right then RecRecordedAt left < RecRecordedAt right
      else RecEventID left < RecEventID right)"

definition mergeEventRecords :: "text_env \<Rightarrow> EventRecord list \<Rightarrow> EventRecord list \<Rightarrow> EventRecord list" where
  "mergeEventRecords env local backfill =
     sort_slice record_before
       (Merged (fold (merge_backfill env) backfill
          (index_local 0 local \<lparr>Merged = local, IndexByKey = Map.empty, IndexByProviderKey = Map.empty\<rparr>)))"

text \<open>firstNonEmpty (provider_backfill.go)\<close>

fun firstNonEmpty :: "string list \<Rightarrow> string" where
  "firstNonEmpty [] = []"
| "firstNonEmpty (v # vs) = (if trim_space v \<noteq> [] then trim_space v else firstNonEmpty vs)"

definition mergeCompleteness :: "string \<Rightarrow> string \<Rightarrow> string" where
  "mergeCompleteness local backfill =
     (if local = ''complete'' \<or> backfill = ''complete'' then ''complete''
      else if local = ''open'' \<or> backfill = ''open'' then ''open''
      else firstNonEmpty [local, backfill, ''none''])"

text \<open>The session and the last sequence number that a result takes from its records.\<close>

definition take_record :: "EventRecord \<Rightarrow> ReadResult \<Rightarrow> ReadResult" where
  "take_record r res =
     res\<lparr>ReadSession := (if ReadSession res = [] \<and> RecSession r \<noteq> [] then RecSession r else ReadSession res),
         ReadLastSeq := (if RecSeq r > ReadLastSeq res then RecSeq r else ReadLastSeq res)\<rparr>"

definition loadPersistedHistory :: "json_codec \<Rightarrow> NodeRun \<Rightarrow> file_content \<Rightarrow> history_error + ReadResult" where
  "loadPersistedHistory cd run file =
     (let result = \<lparr>ReadSession = SessionID run, ReadProvenance = ''none'', ReadCompleteness = ''none'',
                    ReadLastSeq = 0, ReadEvents = []\<rparr>;
          finish = (\<lambda>records.
            if records = [] then Inr result
            else Inr (fold take_record records
              (result\<lparr>ReadProvenance := ExecutorPersisted,
                 ReadCompleteness := (if Status run = NodeRunDone \<or> Status run = NodeRunFailed \<or> Status run = NodeRunAwaitingUser
                   then ''complete'' else ''open''),
                 ReadEvents := records\<rparr>)))
      in case ReadAll cd file of
           Inl e \<Rightarrow> if IsMissing e then finish [] else Inl e
         | Inr records \<Rightarrow> finish records)"

definition mergeReadResults :: "text_env \<Rightarrow> ReadResult \<Rightarrow> ReadResult \<Rightarrow> ReadResult" where
  "mergeReadResults env local backfill =
     (if ReadEvents local = [] then backfill
      else if ReadEvents backfill = [] then local
      else
        (let events = mergeEventRecords env (ReadEvents local) (ReadEvents backfill);
             merged = fold take_record events
               \<lparr>ReadSession = firstNonEmpty [ReadSession local, ReadSession backfill],
                ReadProvenance = ReadProvenance local,
                ReadCompleteness = mergeCompleteness (ReadCompleteness local) (ReadCompleteness backfill),
                ReadLastSeq = 0, ReadEvents = events\<rparr>
         in if length events \<noteq> length (ReadEvents local) \<or> ReadCompleteness backfill \<noteq> ReadCompleteness local \<or>
               ReadSession backfill \<noteq> [] \<and> ReadSession backfill \<noteq> ReadSession local
            then merged\<lparr>ReadProvenance := ''mixed_recovered''\<rparr> else merged))"

text \<open>
  configured tells whether a configuration is at hand; backfill is the result of
  readProviderBackfill.
\<close>

definition Load ::
  "text_env \<Rightarrow> json_codec \<Rightarrow> bool \<Rightarrow> history_error + ReadResult \<Rightarrow> NodeRun \<Rightarrow> file_content \<Rightarrow> history_error + ReadResult" where
  "Load env cd configured backfill run file =
     (case loadPersistedHistory cd run file of
        Inl e \<Rightarrow> Inl e
      | Inr local \<Rightarrow>
          if \<not> configured \<or> SessionID run = [] then Inr local
          else (case backfill of
              Inl e \<Rightarrow> if ReadEvents local \<noteq> [] then Inr local else Inl e
            | Inr recovered \<Rightarrow> Inr (mergeReadResults env local recovered)))"

section \<open>JSON texts cut short\<close>

text \<open>
  A scan that every JSON text passes: how deep the brackets are open, inside or outside a string or
  behind a backslash, or done when the outermost bracket has closed.  Outside strings only
  punctuation, numbers, white space and the letters of true, false and null occur.
\<close>

datatype json_mode = Out nat | In nat | Esc nat | Done

definition json_space :: "char \<Rightarrow> bool" where
  "json_space c \<longleftrightarrow> c \<in> {CHR '' '', CHR 0x09, CHR 0x0A, CHR 0x0D}"

definition json_plain :: "char \<Rightarrow> bool" where
  "json_plain c \<longleftrightarrow> json_space c \<or> c \<in> set ''0123456789+-.,:eEtrufalsn''"

fun json_step :: "json_mode \<Rightarrow> char \<Rightarrow> json_mode option" where
  "json_step (Out d) c =
     (if c = CHR 0x22 then Some (In d)
      else if c = CHR ''{'' \<or> c = CHR ''['' then Some (Out (Suc d))
      else if c = CHR ''}'' \<or> c = CHR '']''
        then (case d of 0 \<Rightarrow> None | Suc 0 \<Rightarrow> Some Done | Suc (Suc n) \<Rightarrow> Some (Out (Suc n)))
      else if json_plain c then Some (Out d) else None)"
| "json_step (In d) c =
     (if c = CHR 0x22 then Some (Out d) else if c = CHR 0x5C then Some (Esc d) else Some (In d))"
| "json_step (Esc d) c =
     (if c = CHR 0x22 \<or> c = CHR 0x5C \<or> c \<in> set ''/bfnrtu'' then Some (In d) else None)"
| "json_step Done c = (if json_space c then Some Done else None)"

fun json_scan :: "json_mode \<Rightarrow> string \<Rightarrow> json_mode option" where
  "json_scan m [] = Some m"
| "json_scan m (c # cs) = Option.bind (json_step m c) (\<lambda>m'. json_scan m' cs)"

definition json_text :: "string \<Rightarrow> bool" where
  "json_text t \<longleftrightarrow> json_scan (Out 0) t \<in> {Some Done, Some (Out 0)}"

definition event_head :: string where
  "event_head = [CHR ''{'', CHR 0x22] @ ''event_id'' @ [CHR 0x22, CHR '':'']"

text \<open>An object whose first field is event_id, as the struct's first field is never omitted.\<close>

definition event_object :: "string \<Rightarrow> bool" where
  "event_object s \<longleftrightarrow> prefix event_head s \<and> last s = CHR ''}'' \<and> json_scan (Out 0) s = Some Done"

text \<open>
  What is used of encoding/json: a record is written as one line that holds such an object, and only
  JSON texts are read.
\<close>

definition codec_ok :: "json_codec \<Rightarrow> bool" where
  "codec_ok cd \<longleftrightarrow>
     (\<forall>r s. marshal cd r = Some s \<longrightarrow> event_object s \<and> newline \<notin> set s) \<and>
     (\<forall>t r. unmarshal cd t = Some r \<longrightarrow> json_text t)"

text \<open>A record that is read back as it was written.\<close>

definition storable :: "json_codec \<Rightarrow> EventRecord \<Rightarrow> bool" where
  "storable cd r \<longleftrightarrow> (\<exists>s. marshal cd r = Some s \<and> unmarshal cd s = Some r)"

lemma json_scan_append: "json_scan m (s @ t) = Option.bind (json_scan m s) (\<lambda>m'. json_scan m' t)"
  by (induction s arbitrary: m) (simp_all add: bind_assoc)

fun deeper :: "nat \<Rightarrow> json_mode \<Rightarrow> json_mode" where
  "deeper d (Out j) = Out (j + d)"
| "deeper d (In j) = In (j + d)"
| "deeper d (Esc j) = Esc (j + d)"
| "deeper d Done = Out d"

lemma space_plain: "json_space c \<Longrightarrow> json_plain c \<and> c \<notin> {CHR 0x22, CHR ''{'', CHR ''['', CHR ''}'', CHR '']''}"
  by (auto simp: json_plain_def json_space_def)

lemma deeper_step: "json_step m c = Some m' \<Longrightarrow> 0 < d \<Longrightarrow> json_step (deeper d m) c = Some (deeper d m')"
  by (cases m) (use space_plain [of c] in \<open>auto split: if_splits nat.splits\<close>)

lemma deeper_scan: "json_scan m t = Some m' \<Longrightarrow> 0 < d \<Longrightarrow> json_scan (deeper d m) t = Some (deeper d m')"
  by (induction t arbitrary: m) (auto simp: bind_eq_Some_conv dest: deeper_step)

fun open_mode :: "json_mode \<Rightarrow> bool" where
  "open_mode (Out d) \<longleftrightarrow> 0 < d"
| "open_mode (In d) \<longleftrightarrow> 0 < d"
| "open_mode (Esc d) \<longleftrightarrow> 0 < d"
| "open_mode Done \<longleftrightarrow> False"

lemma open_step: "json_step m c = Some m' \<Longrightarrow> open_mode m \<or> m = Done \<Longrightarrow> open_mode m' \<or> m' = Done"
  by (cases m) (auto split: if_splits nat.splits)

lemma open_scan: "json_scan m t = Some m' \<Longrightarrow> open_mode m \<or> m = Done \<Longrightarrow> open_mode m' \<or> m' = Done"
  by (induction t arbitrary: m) (auto simp: bind_eq_Some_conv dest: open_step)

lemma done_scan: "json_scan Done t = Some m \<Longrightarrow> \<forall>c\<in>set t. json_space c"
  by (induction t) (auto split: if_splits)

lemma event_object_split:
  assumes "event_object s"
  obtains t where "s = CHR ''{'' # CHR 0x22 # CHR ''e'' # CHR ''v'' # t"
  using assms by (auto simp: event_object_def event_head_def elim!: prefixE)

lemma scan_cut_short:
  assumes "event_object s" "0 < k" "k < length s"
  shows "\<exists>m. json_scan (Out 0) (take k s) = Some m \<and> open_mode m"
proof -
  obtain u where s: "s = CHR ''{'' # u" using event_object_split [OF assms(1)] by metis
  have all: "json_scan (Out 0) (take k s @ drop k s) = Some Done" using assms(1) by (simp add: event_object_def)
  then obtain m where m: "json_scan (Out 0) (take k s) = Some m" "json_scan m (drop k s) = Some Done"
    unfolding json_scan_append by (auto simp: bind_eq_Some_conv)
  have "json_scan (Out 1) (take (k - 1) u) = Some m" using m(1) assms(2) by (cases k) (simp_all add: s)
  then have "open_mode m \<or> m = Done" by (rule open_scan) simp
  moreover have "m \<noteq> Done"
  proof
    assume "m = Done"
    then have "\<forall>c\<in>set (drop k s). json_space c" using done_scan m(2) by blast
    then have "json_space (last (drop k s))" using last_in_set [of "drop k s"] assms(3) by simp
    then show False using assms(1,3) by (simp add: event_object_def json_space_def last_drop)
  qed
  ultimately show ?thesis using m(1) by blast
qed

lemma cut_short_no_text:
  assumes "event_object s" "0 < k" "k < length s"
  shows "\<not> json_text (take k s)"
  using scan_cut_short [OF assms] by (auto simp: json_text_def)

lemma continued_no_text:
  assumes "event_object s" "0 < k" "k \<le> length s" "event_object s'"
  shows "\<not> json_text (take k s @ s')"
proof -
  obtain t where t: "s' = CHR ''{'' # CHR 0x22 # CHR ''e'' # CHR ''v'' # t" by (rule event_object_split [OF assms(4)])
  have "\<exists>m. json_scan (Out 0) (take k s) = Some m \<and> (open_mode m \<or> m = Done)"
  proof (cases "k = length s")
    case True
    then show ?thesis using assms(1) by (simp add: event_object_def)
  next
    case False
    then show ?thesis using scan_cut_short [of s k] assms by force
  qed
  then obtain m where m: "json_scan (Out 0) (take k s) = Some m" "open_mode m \<or> m = Done" by blast
  have "json_scan m s' \<in> {None} \<union> {Some (Out d) | d. 0 < d}"
  proof (cases m)
    case (Out d)
    then show ?thesis using deeper_scan [of "Out 0" s' Done d] assms(4) m(2) by (auto simp: event_object_def)
  qed (simp_all add: t json_plain_def json_space_def)
  then show ?thesis using m(1) by (auto simp: json_text_def json_scan_append)
qed

section \<open>The file read back\<close>

definition record_lines :: "string list \<Rightarrow> string" where
  "record_lines ss = concat (map (\<lambda>s. s @ [newline]) ss)"

text \<open>The file that holds the records rs, each on its line.\<close>

definition history_of :: "json_codec \<Rightarrow> EventRecord list \<Rightarrow> string" where
  "history_of cd rs = record_lines (map (\<lambda>r. the (marshal cd r)) rs)"

definition holds :: "json_codec \<Rightarrow> EventRecord list \<Rightarrow> file_content \<Rightarrow> bool" where
  "holds cd rs file \<longleftrightarrow> file = Content (history_of cd rs) \<or> file = Missing \<and> rs = []"

lemma not_blank_brace: "CHR ''{'' \<in> set s \<Longrightarrow> \<not> is_blank s"
proof -
  have keep: "c \<in> set s \<Longrightarrow> \<forall>w\<in>set ws. c \<notin> set w \<Longrightarrow> c \<in> set (trim_left ws s)" for c ws s
  proof (induction ws s rule: trim_left.induct)
    case (1 ws s)
    show ?case
    proof (cases "find (\<lambda>w. w \<noteq> [] \<and> prefix w s) ws")
      case None
      with 1(2) show ?thesis by (subst trim_left.simps) simp
    next
      case (Some w)
      then obtain u where "s = w @ u" "w \<in> set ws" by (auto simp: find_Some_iff elim!: prefixE)
      with 1(1) [OF Some] 1(2,3) Some show ?thesis by (subst trim_left.simps) auto
    qed
  qed
  assume "CHR ''{'' \<in> set s"
  then have "CHR ''{'' \<in> set (trim_space s)"
    unfolding trim_space_def by (auto simp: go_spaces_def intro!: keep)
  then show ?thesis by (auto simp: is_blank_def)
qed

lemma event_object_not_blank: "event_object s \<Longrightarrow> 0 < k \<Longrightarrow> \<not> is_blank (take k s @ t)"
  by (rule not_blank_brace) (cases k; auto elim!: event_object_split)

lemma event_object_nonempty: "event_object s \<Longrightarrow> s \<noteq> []"
  by (auto elim: event_object_split)

lemma split_lines: "\<forall>s\<in>set ss. newline \<notin> set s \<Longrightarrow> split_on newline (record_lines ss @ t) = ss @ split_on newline t"
  by (induction ss) (simp_all add: record_lines_def split_on_append)

lemma storable_line:
  assumes "codec_ok cd" "storable cd r"
  shows "marshal cd r = Some (the (marshal cd r))" "unmarshal cd (the (marshal cd r)) = Some r"
    "event_object (the (marshal cd r))" "newline \<notin> set (the (marshal cd r))"
  using assms by (auto simp: codec_ok_def storable_def)

lemma decode_stored:
  assumes "codec_ok cd" "\<forall>r\<in>set rs. storable cd r"
  shows "decode_lines cd tn (map (\<lambda>r. the (marshal cd r)) rs @ rest) acc = decode_lines cd tn rest (acc @ rs)"
  using assms(2)
proof (induction rs arbitrary: acc)
  case (Cons r rs)
  note l = storable_line [OF assms(1), of r]
  have "\<not> is_blank (the (marshal cd r))"
    using event_object_not_blank [of "the (marshal cd r)" "length (the (marshal cd r))" "[]"]
      event_object_nonempty [OF l(3)] l(3) Cons.prems by simp
  then show ?case using Cons l by simp
qed simp

lemma history_of_append: "history_of cd (xs @ ys) = history_of cd xs @ history_of cd ys"
  by (simp add: history_of_def record_lines_def)

lemma last_history: "last (history_of cd rs @ [newline]) = newline"
  by simp

lemma decode_history_then:
  assumes "codec_ok cd" "\<forall>r\<in>set rs. storable cd r"
  shows "decodeRecords cd (history_of cd rs @ t) =
    decode_lines cd (history_of cd rs @ t = [] \<or> last (history_of cd rs @ t) = newline) (split_on newline t) rs"
proof -
  have "split_on newline (history_of cd rs @ t) = map (\<lambda>r. the (marshal cd r)) rs @ split_on newline t"
    unfolding history_of_def by (rule split_lines) (use assms storable_line(4) in auto)
  then show ?thesis by (simp add: decodeRecords_def decode_stored [OF assms])
qed

lemma decode_history:
  "codec_ok cd \<Longrightarrow> \<forall>r\<in>set rs. storable cd r \<Longrightarrow> decodeRecords cd (history_of cd rs) = Inr rs"
  using decode_history_then [of cd rs "[]"] by simp

text \<open>A last line that was cut is dropped, unless only its newline is missing.\<close>

lemma decode_torn:
  assumes "codec_ok cd" "\<forall>r\<in>set rs. storable cd r" "storable cd r" "k \<le> length (the (marshal cd r))"
  shows "decodeRecords cd (history_of cd rs @ take k (the (marshal cd r))) =
    Inr (if k = length (the (marshal cd r)) then rs @ [r] else rs)"
proof -
  note l = storable_line [OF assms(1,3)]
  let ?t = "take k (the (marshal cd r))"
  have nl: "newline \<notin> set ?t" using l(4) in_set_takeD by metis
  show ?thesis
  proof (cases "k = 0")
    case True
    then show ?thesis using assms l(3) by (auto simp: decode_history event_object_def event_head_def)
  next
    case False
    then have ne: "?t \<noteq> []" using l(3) by (auto simp: event_object_def event_head_def)
    then have "last ?t \<noteq> newline" using nl last_in_set by metis
    then have tn: "(history_of cd rs @ ?t = [] \<or> last (history_of cd rs @ ?t) = newline) = False"
      using ne by simp
    have nb: "\<not> is_blank ?t" using event_object_not_blank [OF l(3), of k "[]"] False by simp
    show ?thesis
    proof (cases "k = length (the (marshal cd r))")
      case True
      then show ?thesis using nb nl l(2)
        unfolding decode_history_then [OF assms(1,2)] tn by (simp add: split_on_single)
    next
      case f: False
      then have "\<not> json_text ?t" using cut_short_no_text [OF l(3)] False assms(4) by simp
      then have "unmarshal cd ?t = None" using assms(1) unfolding codec_ok_def by (metis option.exhaust)
      then show ?thesis using nb nl f
        unfolding decode_history_then [OF assms(1,2)] tn by (simp add: split_on_single)
    qed
  qed
qed

text \<open>How many of the records reach the file when the writes fail as faults says.\<close>

fun kept :: "json_codec \<Rightarrow> (nat \<Rightarrow> nat option) \<Rightarrow> EventRecord list \<Rightarrow> nat" where
  "kept cd faults [] = 0"
| "kept cd faults (r # rs) =
     (case faults 0 of
        None \<Rightarrow> Suc (kept cd (\<lambda>i. faults (Suc i)) rs)
      | Some n \<Rightarrow> if length (the (marshal cd r)) \<le> n then 1 else 0)"

lemma write_then_read:
  assumes "codec_ok cd" "\<forall>r\<in>set old. storable cd r" "\<forall>r\<in>set rs. storable cd r"
  shows "decodeRecords cd (fst (write_records cd faults rs (history_of cd old))) =
      Inr (old @ take (kept cd faults rs) rs) \<and>
    ((\<forall>i<length rs. faults i = None) \<longrightarrow>
      write_records cd faults rs (history_of cd old) = (history_of cd (old @ rs), None))"
  using assms(2,3)
proof (induction rs arbitrary: faults old)
  case Nil
  then show ?case by (simp add: decode_history assms(1))
next
  case (Cons r rs)
  have st: "storable cd r" using Cons.prems by simp
  note l = storable_line [OF assms(1) st]
  have one: "history_of cd old @ the (marshal cd r) @ [newline] = history_of cd (old @ [r])"
    by (simp add: history_of_append) (simp add: history_of_def record_lines_def)
  obtain s where s: "marshal cd r = Some s" using l(1) by blast
  have all: "(\<forall>i<length (r # rs). faults i = None) \<longleftrightarrow>
      faults 0 = None \<and> (\<forall>i<length rs. faults (Suc i) = None)" by (simp add: All_less_Suc2)
  show ?case
  proof (cases "faults 0")
    case None
    have "\<forall>r\<in>set (old @ [r]). storable cd r" using Cons.prems by auto
    from Cons.IH [OF this, of "\<lambda>i. faults (Suc i)"] Cons.prems
    show ?thesis unfolding all using None s one by simp
  next
    case (Some n)
    have "decodeRecords cd (history_of cd old @ take n (the (marshal cd r) @ [newline])) =
        Inr (if length (the (marshal cd r)) \<le> n then old @ [r] else old)"
    proof (cases "n \<le> length (the (marshal cd r))")
      case True
      then show ?thesis using decode_torn [OF assms(1) Cons.prems(1) st True] by auto
    next
      case False
      then have "history_of cd old @ take n (the (marshal cd r) @ [newline]) = history_of cd (old @ [r])"
        using one by (cases "n - length (the (marshal cd r))") auto
      then show ?thesis using False Cons.prems st by (simp add: decode_history assms(1))
    qed
    then show ?thesis unfolding all using Some s by simp
  qed
qed

lemma new_records_eq_Nil [simp]: "NewEventRecords at events = [] \<longleftrightarrow> events = []"
  by (simp add: NewEventRecords_def)

lemma holds_content: "holds cd rs file \<Longrightarrow> file = Content (history_of cd rs) \<or> file = Missing \<and> history_of cd rs = []"
  by (auto simp: holds_def history_of_def record_lines_def)


text \<open>One event and a codec that writes only its record.\<close>

definition demo_event :: StreamEvent where
  "demo_event = \<lparr>EventID = ''7'', EventSeq = 3, EmittedAt = 0, EventSession = ''s'', ProviderRecordID = [],
     ProviderSubindex = 0, Provenance = [], EventKind = ''usage'', RawText = [], EventMessage = None,
     EventTool = None, EventPlan = None, EventUsage = None\<rparr>"

definition demo_text :: string where
  "demo_text = event_head @ [CHR 0x22] @ ''7'' @ [CHR 0x22, CHR ''}'']"

definition demo_codec :: json_codec where
  "demo_codec =
     \<lparr>marshal = (\<lambda>r. if r = eventRecordFromExecutor demo_event 9 then Some demo_text else None),
      unmarshal = (\<lambda>t. if t = demo_text then Some (eventRecordFromExecutor demo_event 9) else None)\<rparr>"

lemma demo_text_object: "event_object demo_text \<and> newline \<notin> set demo_text \<and> json_text demo_text"
  by (simp add: event_object_def demo_text_def event_head_def json_text_def json_plain_def json_space_def)

lemma demo_codec_ok: "codec_ok demo_codec"
  using demo_text_object by (simp add: codec_ok_def demo_codec_def)

lemma demo_storable: "r \<in> set (NewEventRecords 9 [demo_event, demo_event]) \<Longrightarrow> storable demo_codec r"
  by (auto simp: NewEventRecords_def storable_def demo_codec_def)


lemma decode_lines_stuck:
  "\<not> is_blank l \<Longrightarrow> unmarshal cd l = None \<Longrightarrow> rest \<noteq> [] \<Longrightarrow>
    decode_lines cd tn (l # rest) acc = Inl ErrDecode"
  by simp

lemma write_grows: "\<exists>t. fst (write_records cd faults rs c) = c @ t"
  by (induction cd faults rs c rule: write_records.induct) (auto split: option.splits)

text \<open>
  The next Append after a torn one writes its first record onto the torn line.  It reports
  success, and from then on the history cannot be read, whatever is appended later; not even the
  records from before the crash.
\<close>

theorem append_after_torn_write_loses_history:
  assumes "codec_ok cd" "\<forall>r\<in>set old. storable cd r" "marshal cd torn = Some s" "0 < k" "k \<le> length s"
    "events \<noteq> []" "\<forall>r\<in>set (NewEventRecords at events). storable cd r" "\<forall>i. faults i = None"
  shows "\<exists>c. Append cd True True faults events at (Content (history_of cd old @ take k s)) = (Content c, None) \<and>
    (\<forall>later. ReadAll cd (Content (c @ later)) = Inl ErrDecode)"
proof -
  obtain e es where ev: "events = e # es" using assms(6) by (cases events) auto
  let ?r = "eventRecordFromExecutor e at"
  have st: "storable cd ?r" using assms(7) by (simp add: ev NewEventRecords_def)
  note l = storable_line [OF assms(1) st]
  let ?s' = "the (marshal cd ?r)"
  have obj: "event_object s" "newline \<notin> set s" using assms(1,3) by (auto simp: codec_ok_def)
  have complete: "\<forall>r\<in>set rs. storable cd r \<Longrightarrow> snd (write_records cd (\<lambda>i. None) rs f) = None" for rs f
    by (induction rs arbitrary: f) (use storable_line(1) [OF assms(1)] in \<open>auto split: option.split\<close>)
  obtain w where w_def:
    "w = write_records cd (\<lambda>i. None) (NewEventRecords at es) (history_of cd old @ take k s @ ?s' @ [newline])" by blast
  obtain t where t: "fst w = history_of cd old @ (take k s @ ?s') @ newline # t"
    using write_grows [of cd _ _ "history_of cd old @ take k s @ ?s' @ [newline]"] unfolding w_def by force
  have app: "Append cd True True faults events at (Content (history_of cd old @ take k s)) = apfst Content w"
    using l(1) assms(8) by (cases "marshal cd ?r") (simp_all add: Append_def NewEventRecords_def ev w_def)
  have "snd w = None" unfolding w_def using assms(7) by (intro complete) (simp add: ev NewEventRecords_def)
  moreover have "ReadAll cd (Content (fst w @ later)) = Inl ErrDecode" for later
  proof -
    have no: "unmarshal cd (take k s @ ?s') = None"
      using continued_no_text [OF obj(1) assms(4,5) l(3)] assms(1) unfolding codec_ok_def by (metis option.exhaust)
    have nl: "newline \<notin> set (take k s @ ?s')" using obj(2) l(4) in_set_takeD by fastforce
    have "split_on newline ((take k s @ ?s') @ newline # t @ later) = (take k s @ ?s') # split_on newline (t @ later)"
      using nl by (rule split_on_append)
    then show ?thesis
      using decode_history_then [OF assms(1,2), of "(take k s @ ?s') @ newline # t @ later"]
        decode_lines_stuck [OF event_object_not_blank [OF obj(1) assms(4)] no]
      unfolding ReadAll_def t by simp
  qed
  ultimately show ?thesis using app by (cases w) auto
qed

theorem append_after_torn_write_loses_history_witness:
  "\<exists>c. Append demo_codec True True (\<lambda>i. None) [demo_event] 9 (Content (demo_text @ newline # take 5 demo_text)) =
      (Content c, None) \<and> ReadAll demo_codec (Content c) = Inl ErrDecode"
proof -
  have st: "\<forall>r\<in>set (NewEventRecords 9 [demo_event]). storable demo_codec r"
    using demo_storable by (simp add: NewEventRecords_def)
  have m: "marshal demo_codec (eventRecordFromExecutor demo_event 9) = Some demo_text" by (simp add: demo_codec_def)
  have h: "history_of demo_codec (NewEventRecords 9 [demo_event]) @ take 5 demo_text = demo_text @ newline # take 5 demo_text"
    by (simp add: history_of_def record_lines_def NewEventRecords_def m)
  have "length demo_text = 16" by (simp add: demo_text_def event_head_def)
  then obtain c where c: "Append demo_codec True True (\<lambda>i. None) [demo_event] 9
        (Content (history_of demo_codec (NewEventRecords 9 [demo_event]) @ take 5 demo_text)) = (Content c, None)"
      "\<forall>later. ReadAll demo_codec (Content (c @ later)) = Inl ErrDecode"
    using append_after_torn_write_loses_history [OF demo_codec_ok st m, of 5 "[demo_event]" 9 "\<lambda>i. None"] st by auto
  then show ?thesis using c(2) [rule_format, of "[]"] unfolding h by auto
qed

section \<open>What merging keeps\<close>

interpretation record_sort: key_order record_before "\<lambda>r. (RecEmittedAt r, RecSeq r, RecRecordedAt r, RecEventID r)"
  by unfold_locales (auto simp: record_before_def less_prod_def)

text \<open>Two records of one event: they share the provider's key or the merge key.\<close>

definition same_event :: "EventRecord \<Rightarrow> EventRecord \<Rightarrow> bool" where
  "same_event a b \<longleftrightarrow>
     providerRecordKey a \<noteq> [] \<and> providerRecordKey a = providerRecordKey b \<or>
     mergeEventRecordKey a \<noteq> [] \<and> mergeEventRecordKey a = mergeEventRecordKey b"

definition merge_group :: "text_env \<Rightarrow> EventRecord list \<Rightarrow> EventRecord" where
  "merge_group env g = foldl (mergeEventRecord env) (hd g) (tl g)"

text \<open>The index of a key leads to a record that was entered with it, and every entered key has one.\<close>

definition index_ok :: "(EventRecord \<Rightarrow> string) \<Rightarrow> (string \<rightharpoonup> nat) \<Rightarrow> EventRecord list \<Rightarrow> bool" where
  "index_ok key index heads \<longleftrightarrow>
     (\<forall>k i. index k = Some i \<longrightarrow> i < length heads \<and> key (heads ! i) = k \<and> k \<noteq> []) \<and>
     (\<forall>r\<in>set heads. key r \<noteq> [] \<longrightarrow> index (key r) \<noteq> None)"

definition groups_ok :: "text_env \<Rightarrow> nat \<Rightarrow> EventRecord list list \<Rightarrow> merge_state \<Rightarrow> bool" where
  "groups_ok env n gs st \<longleftrightarrow>
     Merged st = map (merge_group env) gs \<and>
     index_ok mergeEventRecordKey (IndexByKey st) (map hd gs) \<and>
     index_ok providerRecordKey (IndexByProviderKey st) (map hd gs) \<and>
     list_all (\<lambda>g. g \<noteq> [] \<and> list_all (same_event (hd g)) (tl g)) gs \<and>
     list_all (\<lambda>i. list_all (\<lambda>j. \<not> same_event (hd (gs ! j)) (hd (gs ! i))) [0..<i]) [n..<length gs]"

lemma index_enter:
  "index_ok key index heads \<Longrightarrow>
    index_ok key (if key r \<noteq> [] then index(key r \<mapsto> length heads) else index) (heads @ [r])"
  by (auto simp: index_ok_def nth_append less_Suc_eq)

lemma merge_group_single [simp]: "merge_group env [r] = r"
  by (simp add: merge_group_def)

lemma merge_group_snoc: "g \<noteq> [] \<Longrightarrow> merge_group env (g @ [r]) = mergeEventRecord env (merge_group env g) r"
  by (cases g) (simp_all add: merge_group_def)

lemma index_local_ok:
  assumes "index_ok mergeEventRecordKey (IndexByKey st) seen" "index_ok providerRecordKey (IndexByProviderKey st) seen"
  shows "Merged (index_local (length seen) rs st) = Merged st \<and>
    index_ok mergeEventRecordKey (IndexByKey (index_local (length seen) rs st)) (seen @ rs) \<and>
    index_ok providerRecordKey (IndexByProviderKey (index_local (length seen) rs st)) (seen @ rs)"
  using assms
proof (induction rs arbitrary: seen st)
  case (Cons r rs)
  have "index_ok mergeEventRecordKey (IndexByKey (enter_keys (length seen) r st)) (seen @ [r])"
    "index_ok providerRecordKey (IndexByProviderKey (enter_keys (length seen) r st)) (seen @ [r])"
    using Cons.prems index_enter by (simp_all add: enter_keys_def)
  from Cons.IH [OF this] show ?case by (simp add: enter_keys_def)
qed simp

lemma groups_start:
  "groups_ok env (length local) (map (\<lambda>r. [r]) local)
    (index_local 0 local \<lparr>Merged = local, IndexByKey = Map.empty, IndexByProviderKey = Map.empty\<rparr>)"
  using index_local_ok [of "\<lparr>Merged = local, IndexByKey = Map.empty, IndexByProviderKey = Map.empty\<rparr>" "[]" local]
  by (simp add: groups_ok_def comp_def index_ok_def list_all_iff)

lemma index_hit:
  "index_ok key index (map hd gs) \<Longrightarrow> index k = Some i \<Longrightarrow> i < length gs \<and> key (hd (gs ! i)) = k \<and> k \<noteq> []"
  unfolding index_ok_def by (metis length_map nth_map)

lemma index_miss: "index_ok key index (map hd gs) \<Longrightarrow> g \<in> set gs \<Longrightarrow> key (hd g) \<noteq> [] \<Longrightarrow> index (key (hd g)) \<noteq> None"
  unfolding index_ok_def by auto

lemma heads_update: "gs ! i \<noteq> [] \<Longrightarrow> map hd (gs[i := gs ! i @ [r]]) = map hd gs"
  by (cases "i < length gs") (simp_all add: map_update list_update_same_conv list_update_beyond)

lemma list_all_update: "list_all P xs \<Longrightarrow> P x \<Longrightarrow> list_all P (xs[i := x])"
  unfolding list_all_iff using set_update_subset_insert [of xs i x] by blast

lemma groups_merge_at:
  assumes "groups_ok env n gs st" "idx < length gs" "same_event (hd (gs ! idx)) r"
  shows "groups_ok env n (gs[idx := gs ! idx @ [r]]) (merge_at env idx r st)"
proof -
  let ?gs = "gs[idx := gs ! idx @ [r]]"
  have ne: "gs ! idx \<noteq> []" using assms(1,2) by (auto simp: groups_ok_def list_all_length)
  then have h: "map hd ?gs = map hd gs" by (rule heads_update)
  have nth: "hd (?gs ! i) = hd (gs ! i)" if "i < length gs" for i
    using arg_cong [OF h, of "\<lambda>l. l ! i"] that by simp
  have "Merged (merge_at env idx r st) = map (merge_group env) ?gs"
    using assms(1,2) ne by (simp add: groups_ok_def merge_at_def map_update merge_group_snoc)
  moreover have "list_all (\<lambda>g. g \<noteq> [] \<and> list_all (same_event (hd g)) (tl g)) ?gs"
  proof (rule list_all_update)
    have "gs ! idx \<in> set gs" using assms(2) by simp
    then show "gs ! idx @ [r] \<noteq> [] \<and> list_all (same_event (hd (gs ! idx @ [r]))) (tl (gs ! idx @ [r]))"
      using assms(1,3) ne by (simp add: groups_ok_def list_all_iff)
  qed (use assms(1) in \<open>simp add: groups_ok_def\<close>)
  moreover have "list_all (\<lambda>i. list_all (\<lambda>j. \<not> same_event (hd (?gs ! j)) (hd (?gs ! i))) [0..<i]) [n..<length ?gs]"
    using assms(1) nth by (auto simp: groups_ok_def list_all_iff)
  ultimately show ?thesis using assms(1) unfolding groups_ok_def h by (simp add: merge_at_def)
qed

lemma groups_new:
  assumes "groups_ok env n gs st" "\<not> list_ex (\<lambda>g. same_event (hd g) r) gs"
  shows "groups_ok env n (gs @ [[r]]) (enter_keys (length (Merged st)) r (st\<lparr>Merged := Merged st @ [r]\<rparr>))"
proof -
  have len: "length (Merged st) = length (map hd gs)" using assms(1) by (simp add: groups_ok_def)
  have "list_all (\<lambda>i. list_all (\<lambda>j. \<not> same_event (hd ((gs @ [[r]]) ! j)) (hd ((gs @ [[r]]) ! i))) [0..<i]) [n..<length (gs @ [[r]])]"
    using assms by (auto simp: groups_ok_def list_all_iff list_ex_iff nth_append less_Suc_eq)
  then show ?thesis
    using assms(1) index_enter [of _ _ "map hd gs" r] unfolding groups_ok_def enter_keys_def len by simp
qed

lemma no_index_no_event:
  assumes "groups_ok env n gs st" "IndexByProviderKey st (providerRecordKey r) = None"
    "(if mergeEventRecordKey r \<noteq> [] then IndexByKey st (mergeEventRecordKey r) else None) = None"
  shows "\<not> list_ex (\<lambda>g. same_event (hd g) r) gs"
proof -
  have "\<not> same_event (hd g) r" if "g \<in> set gs" for g
  proof
    have p: "providerRecordKey (hd g) \<noteq> [] \<Longrightarrow> IndexByProviderKey st (providerRecordKey (hd g)) \<noteq> None"
      and m: "mergeEventRecordKey (hd g) \<noteq> [] \<Longrightarrow> IndexByKey st (mergeEventRecordKey (hd g)) \<noteq> None"
      using assms(1) that index_miss [of providerRecordKey "IndexByProviderKey st" gs g]
        index_miss [of mergeEventRecordKey "IndexByKey st" gs g] unfolding groups_ok_def by blast+
    assume "same_event (hd g) r"
    then show False
      unfolding same_event_def
    proof
      assume "providerRecordKey (hd g) \<noteq> [] \<and> providerRecordKey (hd g) = providerRecordKey r"
      with p assms(2) show False by metis
    next
      assume "mergeEventRecordKey (hd g) \<noteq> [] \<and> mergeEventRecordKey (hd g) = mergeEventRecordKey r"
      with m assms(3) show False by (simp split: if_splits)
    qed
  qed
  then show ?thesis by (simp add: list_ex_iff)
qed

lemma concat_update:
  "i < length gs \<Longrightarrow> mset (concat (gs[i := gs ! i @ [r]])) = add_mset r (mset (concat gs))"
proof (induction gs arbitrary: i)
  case (Cons g gs)
  then show ?case by (cases i) simp_all
qed simp

lemma groups_step:
  assumes "groups_ok env n gs st" "n \<le> length gs"
  shows "\<exists>gs'. groups_ok env n gs' (merge_backfill env r st) \<and> n \<le> length gs' \<and>
    map hd (take n gs') = map hd (take n gs) \<and> mset (concat gs') = add_mset r (mset (concat gs))"
proof -
  have at: ?thesis if "merge_backfill env r st = merge_at env idx r st" "idx < length gs" "same_event (hd (gs ! idx)) r" for idx
  proof -
    have "gs ! idx \<noteq> []" using assms(1) that(2) by (auto simp: groups_ok_def list_all_length)
    then show ?thesis
      using groups_merge_at [OF assms(1) that(2,3)] that(1,2) assms(2) concat_update [OF that(2), of r]
        heads_update [of gs idx r] by (intro exI [of _ "gs[idx := gs ! idx @ [r]]"]) (simp add: take_map [symmetric])
  qed
  show ?thesis
  proof (cases "IndexByProviderKey st (providerRecordKey r)")
    case (Some idx)
    then have "idx < length gs \<and> same_event (hd (gs ! idx)) r"
      using assms(1) index_hit [of providerRecordKey "IndexByProviderKey st" gs "providerRecordKey r" idx]
      by (simp add: groups_ok_def same_event_def)
    then show ?thesis using at Some by (simp add: merge_backfill_def)
  next
    case none: None
    show ?thesis
    proof (cases "if mergeEventRecordKey r \<noteq> [] then IndexByKey st (mergeEventRecordKey r) else None")
      case (Some idx)
      then have "idx < length gs \<and> same_event (hd (gs ! idx)) r"
        using assms(1) index_hit [of mergeEventRecordKey "IndexByKey st" gs "mergeEventRecordKey r" idx]
      by (simp add: groups_ok_def same_event_def split: if_splits)
      moreover have "merge_backfill env r st = merge_at env idx r st"
        unfolding merge_backfill_def none Some by simp
      ultimately show ?thesis using at by blast
    next
      case None
      have "merge_backfill env r st = enter_keys (length (Merged st)) r (st\<lparr>Merged := Merged st @ [r]\<rparr>)"
        unfolding merge_backfill_def none None by simp
      then show ?thesis
        using groups_new [OF assms(1) no_index_no_event [OF assms(1) none None]] assms(2)
        by (intro exI [of _ "gs @ [[r]]"]) simp
    qed
  qed
qed

lemma groups_fold:
  assumes "groups_ok env n gs st" "n \<le> length gs"
  shows "\<exists>gs'. groups_ok env n gs' (fold (merge_backfill env) rs st) \<and> n \<le> length gs' \<and>
    map hd (take n gs') = map hd (take n gs) \<and> mset (concat gs') = mset (concat gs) + mset rs"
  using assms
proof (induction rs arbitrary: gs st)
  case (Cons r rs)
  from groups_step [OF Cons.prems] obtain gs1 where g1: "groups_ok env n gs1 (merge_backfill env r st)" "n \<le> length gs1"
    "map hd (take n gs1) = map hd (take n gs)" "mset (concat gs1) = add_mset r (mset (concat gs))" by blast
  from Cons.IH [OF g1(1,2)] show ?case using g1(3,4) by auto
qed auto

text \<open>
  C24: Merging partitions the local and the recovered records.  Every local record starts a group of
  its own, a recovered record joins a group exactly when it shares a key with the record that
  started it, and each group gives one record of the result; nothing is dropped or counted twice,
  and the result is in order of time.
\<close>

theorem merge_partitions_the_records:
  "\<exists>gs. mset (mergeEventRecords env local backfill) = mset (map (merge_group env) gs) \<and>
     mset (concat gs) = mset local + mset backfill \<and> map hd (take (length local) gs) = local \<and>
     list_all (\<lambda>g. g \<noteq> [] \<and> list_all (same_event (hd g)) (tl g)) gs \<and>
     list_all (\<lambda>i. list_all (\<lambda>j. \<not> same_event (hd (gs ! j)) (hd (gs ! i))) [0..<i]) [length local..<length gs] \<and>
     sorted (map (\<lambda>r. (RecEmittedAt r, RecSeq r, RecRecordedAt r, RecEventID r)) (mergeEventRecords env local backfill))"
proof -
  from groups_fold [OF groups_start, of local env backfill] obtain gs where
    "groups_ok env (length local) gs (fold (merge_backfill env) backfill
       (index_local 0 local \<lparr>Merged = local, IndexByKey = Map.empty, IndexByProviderKey = Map.empty\<rparr>))"
    "map hd (take (length local) gs) = map hd (take (length local) (map (\<lambda>r. [r]) local))"
    "mset (concat gs) = mset (concat (map (\<lambda>r. [r]) local)) + mset backfill" by auto
  moreover have "map hd (map (\<lambda>r. [r]) xs) = xs" "concat (map (\<lambda>r. [r]) xs) = xs" for xs :: "EventRecord list"
    by (induction xs) auto
  ultimately show ?thesis
    by (intro exI [of _ gs])
      (simp add: groups_ok_def mergeEventRecords_def mset_sort_any record_sort.sorted_sort_slice take_map [symmetric])
qed

text \<open>The fields of a merged record.\<close>

lemma mergeEventRecord_fields:
  "mergeEventRecord env e n =
     \<lparr>RecEventID = newer (RecEventID e) (RecEventID n),
      RecSeq = (if RecSeq n \<noteq> 0 then RecSeq n else RecSeq e),
      RecEmittedAt = (let t = (if RecEmittedAt n \<noteq> 0 then RecEmittedAt n else RecEmittedAt e)
        in if t = 0 then laterRecordedAt (RecRecordedAt e) (RecRecordedAt n) else t),
      RecRecordedAt = laterRecordedAt (RecRecordedAt e) (RecRecordedAt n),
      RecSession = newer (RecSession e) (RecSession n), RecProviderID = newer (RecProviderID e) (RecProviderID n),
      RecSubindex = (if RecSubindex n \<noteq> 0 then RecSubindex n else RecSubindex e),
      RecProvenance = (let p = newer (RecProvenance e) (RecProvenance n) in if p = [] then ExecutorPersisted else p),
      RecKind = newer (RecKind e) (RecKind n), RecRaw = newer (RecRaw e) (RecRaw n),
      RecMessage = map_option message_record
        (merge_part merge_message (map_option message_part (RecMessage e)) (map_option message_part (RecMessage n))),
      RecTool = merge_part (merge_tool env) (RecTool e) (RecTool n),
      RecPlan = merge_part (\<lambda>_ p. p) (RecPlan e) (RecPlan n), RecUsage = merge_part (\<lambda>_ u. u) (RecUsage e) (RecUsage n)\<rparr>"
  by (simp add: mergeEventRecord_def eventRecordFromExecutor_def MergeStreamEvent_def eventRecordToStream_def Let_def)

lemma later_again [simp]: "laterRecordedAt (laterRecordedAt a b) b = laterRecordedAt a b"
  by (simp add: laterRecordedAt_def)

lemma message_part_record: "\<not> MessageAppend m \<Longrightarrow> message_part (message_record m) = m"
  by (simp add: message_part_def message_record_def)

lemma merged_message_again:
  assumes "y = map_option message_part n" "x = map_option message_part e"
  shows "merge_part merge_message (map_option message_part (map_option message_record (merge_part merge_message x y))) y =
    merge_part merge_message x y"
proof -
  have kept: "\<not> MessageAppend m" if "merge_part merge_message x y = Some m" for m
    using that assms by (auto simp: merge_part_def merge_message_def message_part_def split: option.splits)
  then have "map_option message_part (map_option message_record (merge_part merge_message x y)) = merge_part merge_message x y"
    by (cases "merge_part merge_message x y") (simp_all add: message_part_record)
  moreover have "\<not> MessageAppend m" if "y = Some m" for m using that assms(1) by (auto simp: message_part_def)
  ultimately show ?thesis
    using merge_part_again [of y merge_message x] by (simp add: merge_message_again merge_message_self)
qed

lemma merged_tool_again:
  "folds_itself env \<Longrightarrow> merge_part (merge_tool env) (merge_part (merge_tool env) x y) y = merge_part (merge_tool env) x y"
  by (rule merge_part_again) (simp_all add: merge_tool_again merge_tool_self)

text \<open>A recovered record that is merged a second time changes nothing more.\<close>

theorem recovered_record_merges_once:
  assumes "folds_itself env"
  shows "mergeEventRecord env (mergeEventRecord env existing new) new = mergeEventRecord env existing new"
proof -
  have same: "merge_part (\<lambda>_ p. p) (merge_part (\<lambda>_ p. p) x y) y = merge_part (\<lambda>_ p. p) x y" for x y :: "'b option"
    by (rule merge_part_again) simp_all
  show ?thesis
    by (rule EventRecord.equality,
        simp_all add: mergeEventRecord_fields merged_message_again merged_tool_again [OF assms] same Let_def,
        auto simp: laterRecordedAt_def newer_def split: if_splits)
qed

theorem recovered_record_merges_once_witness:
  "let env = \<lparr>equal_fold = (=), lower_case = (\<lambda>s. s)\<rparr>; old = eventRecordFromExecutor demo_event 9;
       new = old\<lparr>RecEventID := ''8'', RecSeq := 0, RecRecordedAt := 12\<rparr>
   in mergeEventRecord env (mergeEventRecord env old new) new = old\<lparr>RecEventID := ''8'', RecRecordedAt := 12\<rparr>"
  unfolding Let_def
  by (subst recovered_record_merges_once)
    (simp_all add: folds_itself_def mergeEventRecord_fields eventRecordFromExecutor_def demo_event_def newer_def
      laterRecordedAt_def merge_part_def ExecutorPersisted_def)

end
