(* ===== verification/Framing.thy ===== *)
theory Framing
  imports Numbers
begin

text \<open>
  The frames of the app server's protocol (cli/internal/appserver/framing.go): a header with the
  length of the payload, an empty line, the payload.  The stream is what the other side sends until
  it closes; strings.EqualFold and the largest slice the runtime can make are arguments.
\<close>

section \<open>Reading and writing\<close>

datatype frame_error =
    FrameEOF
  | FrameUnexpectedEOF
  | InvalidHeader string
  | InvalidLength string
  | MissingLength
  | MakePanic

abbreviation CR :: char where
  "CR \<equiv> CHR 0x0D"

abbreviation LF :: char where
  "LF \<equiv> CHR 0x0A"

text \<open>ReadString up to a newline; None at the end of the stream, where the partial line is dropped.\<close>

definition read_line :: "string \<Rightarrow> (string \<times> string) option" where
  "read_line s =
     (if LF \<in> set s then Some (takeWhile (\<lambda>c. c \<noteq> LF) s @ [LF], tl (dropWhile (\<lambda>c. c \<noteq> LF) s)) else None)"

text \<open>strings.TrimRight of a line's ending\<close>

definition trim_eol :: "string \<Rightarrow> string" where
  "trim_eol line = rev (dropWhile (\<lambda>c. c = CR \<or> c = LF) (rev line))"

lemma read_line_shorter: "read_line s = Some (line, rest) \<Longrightarrow> length rest < length s"
proof -
  assume a: "read_line s = Some (line, rest)"
  then have "LF \<in> set s" "rest = tl (dropWhile (\<lambda>c. c \<noteq> LF) s)" by (auto simp: read_line_def split: if_splits)
  then have "dropWhile (\<lambda>c. c \<noteq> LF) s \<noteq> []" by (auto simp: dropWhile_eq_Nil_conv)
  then show ?thesis
    using \<open>rest = _\<close> length_dropWhile_le [of "\<lambda>c. c \<noteq> LF" s] by (cases "dropWhile (\<lambda>c. c \<noteq> LF) s") auto
qed

text \<open>The header lines; the length is -1 until a Content-Length is met.\<close>

function read_headers :: "(string \<Rightarrow> string \<Rightarrow> bool) \<Rightarrow> int \<Rightarrow> string \<Rightarrow> frame_error + (int \<times> string)" where
  "read_headers fold_eq len s =
     (case read_line s of
        None \<Rightarrow> Inl FrameEOF
      | Some (line, rest) \<Rightarrow>
          if line = [CR, LF] then Inr (len, rest)
          else
            (let line = trim_eol line
             in if line = [] then Inr (len, rest)
                else if CHR '':'' \<notin> set line then Inl (InvalidHeader line)
                else
                  (let name = takeWhile (\<lambda>c. c \<noteq> CHR '':'') line;
                       val = tl (dropWhile (\<lambda>c. c \<noteq> CHR '':'') line)
                   in if fold_eq (trim_space name) ''Content-Length''
                      then (case parse_int64 (trim_space val) of
                              None \<Rightarrow> Inl (InvalidLength val)
                            | Some parsed \<Rightarrow> read_headers fold_eq parsed rest)
                      else read_headers fold_eq len rest)))"
  by pat_completeness auto
termination
  by (relation "measure (\<lambda>(f, len, s). length s)") (auto dest: read_line_shorter)

declare read_headers.simps [simp del]

definition readFrame :: "(string \<Rightarrow> string \<Rightarrow> bool) \<Rightarrow> int \<Rightarrow> string \<Rightarrow> frame_error + (string \<times> string)" where
  "readFrame fold_eq maxAlloc s =
     (case read_headers fold_eq (- 1) s of
        Inl err \<Rightarrow> Inl err
      | Inr (len, rest) \<Rightarrow>
          if len < 0 then Inl MissingLength
          else if maxAlloc < len then Inl MakePanic
          else if nat len \<le> length rest then Inr (take (nat len) rest, drop (nat len) rest)
          else if rest = [] then Inl FrameEOF else Inl FrameUnexpectedEOF)"

definition writeFrame :: "string \<Rightarrow> string" where
  "writeFrame payload = ''Content-Length: '' @ show_int (int (length payload)) @ [CR, LF, CR, LF] @ payload"

lemma read_headers_shorter: "read_headers fold_eq len s = Inr (n, rest) \<Longrightarrow> length rest < length s"
proof (induction s arbitrary: len rule: length_induct)
  case (1 s)
  show ?case
  proof (cases "read_line s")
    case None
    with 1 show ?thesis by (subst (asm) read_headers.simps) simp
  next
    case (Some p)
    obtain line r where p: "p = (line, r)" by (cases p)
    have r: "length r < length s" using read_line_shorter Some p by simp
    then have "read_headers fold_eq len' r = Inr (n, rest) \<Longrightarrow> length rest < length s" for len'
      using 1 less_trans by blast
    then show ?thesis
      using 1(2) Some r p
      by (subst (asm) read_headers.simps) (auto simp: Let_def split: if_splits option.splits)
  qed
qed

text \<open>The frames ServeConn reads, and the error at which it stops.\<close>

function read_frames :: "(string \<Rightarrow> string \<Rightarrow> bool) \<Rightarrow> int \<Rightarrow> string \<Rightarrow> string list \<times> frame_error" where
  "read_frames fold_eq maxAlloc s =
     (case readFrame fold_eq maxAlloc s of
        Inl err \<Rightarrow> ([], err)
      | Inr (payload, rest) \<Rightarrow> (case read_frames fold_eq maxAlloc rest of (ps, err) \<Rightarrow> (payload # ps, err)))"
  by pat_completeness auto
termination
  by (relation "measure (\<lambda>(f, m, s). length s)")
    (auto simp: readFrame_def split: sum.splits if_splits dest!: read_headers_shorter)

declare read_frames.simps [simp del]

section \<open>What is read is what was written\<close>

lemma digit_no_space: "c \<in> set (show_int (int n)) \<Longrightarrow> c \<notin> {CR, LF, CHR '':'', CHR '' ''} \<and> c \<notin> set (map hd go_spaces) \<and> c \<notin> set (map last go_spaces)"
  using digit_range [of c n] by (auto simp: show_int_def go_spaces_def less_eq_char_def)

lemma trim_padded: "trim_space (CHR '' '' # show_int (int n)) = show_int (int n)"
proof -
  let ?s = "show_int (int n)"
  have ne: "?s \<noteq> []" by (simp add: show_int_def)
  then obtain c cs where c: "?s = c # cs" by (cases ?s) auto
  have "trim_left go_spaces (CHR '' '' # ?s) = trim_left go_spaces ?s"
    by (subst trim_left.simps) (simp add: go_spaces_def)
  then have "trim_space (CHR '' '' # ?s) = trim_space ?s" by (simp add: trim_space_def)
  also have "\<dots> = ?s"
    using digit_no_space [of "hd ?s" n] digit_no_space [of "last ?s" n] ne by (intro trim_space_plain) simp_all
  finally show ?thesis .
qed

definition header :: "nat \<Rightarrow> string" where
  "header n = ''Content-Length: '' @ show_int (int n)"

lemma writeFrame_header: "writeFrame p = header (length p) @ [CR, LF, CR, LF] @ p"
  by (simp add: writeFrame_def header_def)

lemma header_chars: "LF \<notin> set (header n)" "CR \<notin> set (header n)" "header n \<noteq> []"
  using digit_no_space [of LF n] digit_no_space [of CR n] by (auto simp: header_def)

lemma read_line_at: "LF \<notin> set h \<Longrightarrow> read_line (h @ LF # t) = Some (h @ [LF], t)"
proof -
  assume "LF \<notin> set h"
  then have "takeWhile (\<lambda>c. c \<noteq> LF) (h @ LF # t) = h \<and> dropWhile (\<lambda>c. c \<noteq> LF) (h @ LF # t) = LF # t"
    by (induction h) auto
  then show ?thesis by (simp add: read_line_def)
qed

lemma trim_eol_at: "CR \<notin> set h \<Longrightarrow> LF \<notin> set h \<Longrightarrow> trim_eol (h @ [CR, LF]) = h"
  by (cases h rule: rev_cases) (auto simp: trim_eol_def)

lemma header_cut:
  "takeWhile (\<lambda>c. c \<noteq> CHR '':'') (header n) = ''Content-Length''"
  "tl (dropWhile (\<lambda>c. c \<noteq> CHR '':'') (header n)) = CHR '' '' # show_int (int n)"
  "CHR '':'' \<in> set (header n)"
  by (simp_all add: header_def)

text \<open>EqualFold holds between a string and itself.\<close>

lemma read_header:
  assumes "fold_eq ''Content-Length'' ''Content-Length''" "int n < 2 ^ 63"
  shows "read_headers fold_eq (- 1) (header n @ [CR, LF, CR, LF] @ t) = Inr (int n, t)"
proof -
  have first: "read_line (header n @ [CR, LF, CR, LF] @ t) = Some (header n @ [CR, LF], CR # LF # t)"
    using read_line_at [of "header n @ [CR]" "CR # LF # t"] header_chars [of n] by simp
  have second: "read_line (CR # LF # t) = Some ([CR, LF], t)"
    using read_line_at [of "[CR]" t] by simp
  have ne: "header n @ [CR, LF] \<noteq> [CR, LF]" using header_chars(3) [of n] by simp
  have trim: "trim_space ''Content-Length'' = ''Content-Length''"
    by (rule trim_space_plain) (simp_all add: go_spaces_def)
  have len: "read_headers fold_eq (int n) (CR # LF # t) = Inr (int n, t)"
    by (subst read_headers.simps) (simp add: second)
  show ?thesis
    unfolding read_headers.simps [of fold_eq "- 1" "header n @ [CR, LF, CR, LF] @ t"] first
    using assms ne len header_chars [of n]
    by (simp add: trim_eol_at header_cut trim trim_padded parse_show_int)
qed

lemma read_written:
  assumes "fold_eq ''Content-Length'' ''Content-Length''" "int (length p) \<le> maxAlloc" "maxAlloc < 2 ^ 63"
  shows "readFrame fold_eq maxAlloc (writeFrame p @ rest) = Inr (p, rest)"
  using read_header [of fold_eq "length p" "p @ rest"] assms by (simp add: readFrame_def writeFrame_header)

text \<open>A frame that the stream cuts short is never mistaken for another one.\<close>

lemma read_headers_no_line: "LF \<notin> set s \<Longrightarrow> read_headers fold_eq len s = Inl FrameEOF"
  by (subst read_headers.simps) (simp add: read_line_def)

lemma read_cut_short:
  assumes "fold_eq ''Content-Length'' ''Content-Length''" "int (length p) \<le> maxAlloc" "maxAlloc < 2 ^ 63"
    "k < length (writeFrame p)"
  shows "readFrame fold_eq maxAlloc (take k (writeFrame p)) \<in> {Inl FrameEOF, Inl FrameUnexpectedEOF}"
proof -
  let ?h = "header (length p)"
  consider (line) "k \<le> length ?h + 1" | (blank) "k = length ?h + 2 \<or> k = length ?h + 3" | (payload) "length ?h + 4 \<le> k"
    by linarith
  then show ?thesis
  proof cases
    case line
    then have "LF \<notin> set (take k (writeFrame p))"
      using header_chars [of "length p"] by (auto simp: writeFrame_header take_Cons dest: in_set_takeD split: nat.splits)
    then show ?thesis by (simp add: readFrame_def read_headers_no_line)
  next
    case blank
    then obtain u where u: "take k (writeFrame p) = ?h @ [CR, LF] @ u" "LF \<notin> set u"
      by (auto simp: writeFrame_header numeral_3_eq_3)
    have first: "read_line (?h @ [CR, LF] @ u) = Some (?h @ [CR, LF], u)"
      using read_line_at [of "?h @ [CR]" u] header_chars [of "length p"] by simp
    have trim: "trim_space ''Content-Length'' = ''Content-Length''"
      by (rule trim_space_plain) (simp_all add: go_spaces_def)
    have "read_headers fold_eq (- 1) (?h @ [CR, LF] @ u) = Inl FrameEOF"
      unfolding read_headers.simps [of fold_eq "- 1" "?h @ [CR, LF] @ u"] first
      using assms header_chars [of "length p"] read_headers_no_line [OF u(2)]
      by (simp add: trim_eol_at header_cut trim trim_padded parse_show_int)
    then show ?thesis unfolding u(1) by (simp add: readFrame_def)
  next
    case payload
    then have cut: "take k (writeFrame p) = ?h @ [CR, LF, CR, LF] @ take (k - length ?h - 4) p"
      by (simp add: writeFrame_header take_Cons' numeral_eq_Suc)
    have "k - length ?h - 4 < length p" using assms(4) payload by (simp add: writeFrame_header)
    then show ?thesis
      using read_header [of fold_eq "length p" "take (k - length ?h - 4) p"] assms(1-3)
      unfolding cut by (auto simp: readFrame_def)
  qed
qed

lemma read_all:
  assumes "fold_eq ''Content-Length'' ''Content-Length''" "\<forall>p\<in>set ps. int (length p) \<le> maxAlloc" "maxAlloc < 2 ^ 63"
  shows "read_frames fold_eq maxAlloc (concat (map writeFrame ps) @ t) =
    (ps @ fst (read_frames fold_eq maxAlloc t), snd (read_frames fold_eq maxAlloc t))"
  using assms(2)
proof (induction ps)
  case (Cons p ps)
  have "readFrame fold_eq maxAlloc (writeFrame p @ concat (map writeFrame ps) @ t) = Inr (p, concat (map writeFrame ps) @ t)"
    using read_written [of fold_eq p maxAlloc] assms Cons.prems by simp
  then show ?case
    using Cons by (subst read_frames.simps) simp
qed simp

text \<open>A length beyond what a slice can hold makes the reader panic before anything is allocated.\<close>

lemma huge_length_panics:
  assumes "fold_eq ''Content-Length'' ''Content-Length''" "maxAlloc < int n" "int n < 2 ^ 63"
  shows "readFrame fold_eq maxAlloc (header n @ [CR, LF, CR, LF] @ t) = Inl MakePanic"
  using read_header [of fold_eq n t] assms by (simp add: readFrame_def)

text \<open>
  C33: The server reads exactly the payloads that were written, in order; when the connection is cut
  at any byte it has read the frames that were complete, and then sees the end of the stream, never
  another frame or a malformed one.
\<close>

theorem frames_survive_a_cut_connection:
  assumes "fold_eq ''Content-Length'' ''Content-Length''" "\<forall>p\<in>set ps. int (length p) \<le> maxAlloc" "maxAlloc < 2 ^ 63"
  shows "\<exists>j err. read_frames fold_eq maxAlloc (take k (concat (map writeFrame ps))) = (take j ps, err) \<and>
    err \<in> {FrameEOF, FrameUnexpectedEOF} \<and>
    length (concat (map writeFrame (take j ps))) \<le> k \<and>
    (j < length ps \<longrightarrow> k < length (concat (map writeFrame (take (Suc j) ps))))"
  using assms(2)
proof (induction ps arbitrary: k)
  case Nil
  have "read_frames fold_eq maxAlloc [] = ([], FrameEOF)"
    by (subst read_frames.simps) (simp add: readFrame_def read_headers_no_line)
  then show ?case by simp
next
  case (Cons p ps)
  let ?n = "length (writeFrame p)"
  show ?case
  proof (cases "k < ?n")
    case True
    then obtain err where "readFrame fold_eq maxAlloc (take k (writeFrame p)) = Inl err" "err \<in> {FrameEOF, FrameUnexpectedEOF}"
      using read_cut_short [of fold_eq p maxAlloc k] assms Cons.prems by auto
    then have "read_frames fold_eq maxAlloc (take k (writeFrame p)) = ([], err)"
      by (subst read_frames.simps) simp
    then show ?thesis
      using True \<open>err \<in> _\<close> by (intro exI [of _ 0] exI [of _ err]) simp
  next
    case False
    have "\<forall>q\<in>set ps. int (length q) \<le> maxAlloc" using Cons.prems by simp
    from Cons.IH [OF this, of "k - ?n"] obtain j err where IH:
      "read_frames fold_eq maxAlloc (take (k - ?n) (concat (map writeFrame ps))) = (take j ps, err)"
      "err \<in> {FrameEOF, FrameUnexpectedEOF}" "length (concat (map writeFrame (take j ps))) \<le> k - ?n"
      "j < length ps \<longrightarrow> k - ?n < length (concat (map writeFrame (take (Suc j) ps)))" by blast
    have "read_frames fold_eq maxAlloc (take k (concat (map writeFrame (p # ps)))) = (take (Suc j) (p # ps), err)"
      using read_all [of fold_eq "[p]" maxAlloc "take (k - ?n) (concat (map writeFrame ps))"] assms Cons.prems False IH(1)
      by simp
    moreover have "Suc j < length (p # ps) \<longrightarrow> k < length (concat (map writeFrame (take (Suc (Suc j)) (p # ps))))"
    proof
      assume "Suc j < length (p # ps)"
      then have "k - ?n < length (concat (map writeFrame (take (Suc j) ps)))" using IH(4) by simp
      then show "k < length (concat (map writeFrame (take (Suc (Suc j)) (p # ps))))"
        unfolding take_Suc_Cons list.map concat.simps length_append by linarith
    qed
    moreover have "length (concat (map writeFrame (take (Suc j) (p # ps)))) \<le> k"
      unfolding take_Suc_Cons list.map concat.simps length_append using IH(3) False by linarith
    ultimately show ?thesis using IH(2) by blast
  qed
qed

theorem frames_survive_a_cut_connection_witness:
  "\<exists>j err. read_frames (=) (2 ^ 47) (take 22 (concat (map writeFrame [''{}'', ''[]'']))) = (take j [''{}'', ''[]''], err) \<and>
    length (concat (map writeFrame (take j [''{}'', ''[]'']))) \<le> 22"
proof -
  have "\<forall>p\<in>set [''{}'', ''[]'']. int (length p) \<le> 2 ^ 47" by simp
  then show ?thesis
    using frames_survive_a_cut_connection [of "(=)" "[''{}'', ''[]'']" "2 ^ 47" 22] by fastforce
qed

end
