(* ===== verification/Workspaces.thy ===== *)
theory Workspaces
  imports Envelope Paths
begin

text \<open>
  The workspaces the app server knows (cli/internal/appserver/registry.go): records of directories,
  kept in memory and in a JSON file.  The file system (os.Stat, NormalizeWorkDir), the clock, fresh
  UUIDs, the order in which Go iterates over a map and the outcome of writing the file are arguments.  Strings are
  valid UTF-8 here, so the JSON file holds the records as they are.
\<close>

section \<open>Records\<close>

record workspaceRecord =
  WsID :: string
  WsPath :: string
  WsDisplayName :: string
  WsSource :: string
  WsAddedAt :: int
  WsLastOpenedAt :: int

definition workspaceSourceUserAdded :: string where
  "workspaceSourceUserAdded = ''user_added''"

text \<open>What a stored file holds; the file is missing, unreadable, not JSON, or a list of records.\<close>

datatype registry_file = NoFile | UnreadableFile | MalformedFile | RegistryFile "workspaceRecord list"

record registry =
  rgWorkspaces :: "workspaceRecord list"
  rgFile :: registry_file

datatype registry_error =
    PathRequired
  | PathNotAbsolute
  | WorkspaceUnavailable
  | WorkspaceNotDirectory
  | WorkspaceIDRequired
  | DisplayNameRequired
  | WorkspaceNotExist
  | SaveFailed
  | LoadFailed

text \<open>normalize is NormalizeWorkDir; map_order is an order of iteration over the values of a map.\<close>

record workspace_env =
  normalize :: "string \<Rightarrow> string"
  map_order :: "workspaceRecord list \<Rightarrow> workspaceRecord list"

section \<open>Operations\<close>

text \<open>filepath.Base\<close>

definition Base :: "string \<Rightarrow> string" where
  "Base path =
     (let base = rev (takeWhile (\<lambda>c. c \<noteq> CHR ''/'') (dropWhile (\<lambda>c. c = CHR ''/'') (rev path)))
      in if path = [] then ''.'' else if base = [] then ''/'' else base)"

definition normalizedDisplayName :: "string \<Rightarrow> string \<Rightarrow> string" where
  "normalizedDisplayName displayName path =
     (if trim_space displayName \<noteq> [] then trim_space displayName
      else
        (let base = Base path
         in if base = ''.'' \<or> base = ''/'' \<or> trim_space base = [] then path else base))"

text \<open>canonicalizeWorkspacePath; stat tells whether a path exists and is a directory.\<close>

definition canonicalizeWorkspacePath ::
  "workspace_env \<Rightarrow> (string \<Rightarrow> bool option) \<Rightarrow> string \<Rightarrow> registry_error + string" where
  "canonicalizeWorkspacePath env stat path =
     (let path = trim_space path
      in if path = [] then Inl PathRequired
         else if \<not> IsAbs path then Inl PathNotAbsolute
         else (case stat path of
                 None \<Rightarrow> Inl WorkspaceUnavailable
               | Some isDir \<Rightarrow> if \<not> isDir then Inl WorkspaceNotDirectory else Inr (normalize env path)))"

definition tidy_record :: "workspace_env \<Rightarrow> workspaceRecord \<Rightarrow> workspaceRecord" where
  "tidy_record env r =
     (let path = normalize env (trim_space (WsPath r))
      in r\<lparr>WsID := trim_space (WsID r), WsPath := path,
           WsDisplayName := normalizedDisplayName (WsDisplayName r) path\<rparr>)"

text \<open>One round of the loop of normalizeWorkspaceRecords, over the map byPath.\<close>

definition by_path :: "workspace_env \<Rightarrow> workspaceRecord \<Rightarrow> (string, workspaceRecord) gomap \<Rightarrow> (string, workspaceRecord) gomap" where
  "by_path env r m =
     (let r = tidy_record env r
      in if WsID r = [] \<or> WsPath r = [] then m
         else
           (let r = (if WsSource r = [] then r\<lparr>WsSource := workspaceSourceUserAdded\<rparr> else r)
            in case map_of m (WsPath r) of
                 Some existing \<Rightarrow> if WsLastOpenedAt r > WsLastOpenedAt existing then map_put (WsPath r) r m else m
               | None \<Rightarrow> map_put (WsPath r) r m))"

definition opened_at :: "workspaceRecord \<Rightarrow> int" where
  "opened_at r = (if WsLastOpenedAt r = 0 then WsAddedAt r else WsLastOpenedAt r)"

definition workspace_before :: "workspaceRecord \<Rightarrow> workspaceRecord \<Rightarrow> bool" where
  "workspace_before a b =
     (if opened_at a = opened_at b then WsDisplayName a < WsDisplayName b else opened_at a > opened_at b)"

definition normalizeWorkspaceRecords :: "workspace_env \<Rightarrow> workspaceRecord list \<Rightarrow> workspaceRecord list" where
  "normalizeWorkspaceRecords env records =
     sort_slice workspace_before (map_order env (map snd (fold (by_path env) records [])))"

definition registry_Load :: "workspace_env \<Rightarrow> registry \<Rightarrow> registry_error option \<times> registry" where
  "registry_Load env reg =
     (case rgFile reg of
        NoFile \<Rightarrow> (None, reg\<lparr>rgWorkspaces := []\<rparr>)
      | UnreadableFile \<Rightarrow> (Some LoadFailed, reg)
      | MalformedFile \<Rightarrow> (Some LoadFailed, reg)
      | RegistryFile records \<Rightarrow> (None, reg\<lparr>rgWorkspaces := normalizeWorkspaceRecords env records\<rparr>))"

text \<open>saveLocked writes a temporary file and renames it: the file changes as a whole or not at all.\<close>

definition saveLocked :: "bool \<Rightarrow> registry \<Rightarrow> registry_error option \<times> registry" where
  "saveLocked saved reg =
     (if saved then (None, reg\<lparr>rgFile := RegistryFile (rgWorkspaces reg)\<rparr>) else (Some SaveFailed, reg))"

definition registry_Get :: "registry \<Rightarrow> string \<Rightarrow> workspaceRecord option" where
  "registry_Get reg workspaceID = find (\<lambda>w. WsID w = workspaceID) (rgWorkspaces reg)"

definition registry_Count :: "registry \<Rightarrow> nat" where
  "registry_Count reg = length (rgWorkspaces reg)"

text \<open>The position of the first record that fits, as the range loops find it.\<close>

fun first_index :: "('a \<Rightarrow> bool) \<Rightarrow> 'a list \<Rightarrow> nat option" where
  "first_index P [] = None"
| "first_index P (x # xs) = (if P x then Some 0 else map_option Suc (first_index P xs))"

definition registry_Add ::
  "workspace_env \<Rightarrow> (string \<Rightarrow> bool option) \<Rightarrow> int \<Rightarrow> string \<Rightarrow> bool \<Rightarrow> string \<Rightarrow> string \<Rightarrow> registry \<Rightarrow>
     (registry_error + workspaceRecord \<times> bool) \<times> registry" where
  "registry_Add env stat now uuid saved path displayName reg =
     (case canonicalizeWorkspacePath env stat path of
        Inl e \<Rightarrow> (Inl e, reg)
      | Inr canonicalPath \<Rightarrow>
          (case first_index (\<lambda>w. WsPath w = canonicalPath) (rgWorkspaces reg) of
             Some i \<Rightarrow>
               let w = rgWorkspaces reg ! i;
                   w = (if trim_space displayName \<noteq> []
                        then w\<lparr>WsDisplayName := normalizedDisplayName displayName canonicalPath\<rparr> else w);
                   w = w\<lparr>WsLastOpenedAt := now\<rparr>
               in (case saveLocked saved (reg\<lparr>rgWorkspaces := (rgWorkspaces reg)[i := w]\<rparr>) of
                     (Some e, reg) \<Rightarrow> (Inl e, reg)
                   | (None, reg) \<Rightarrow> (Inr (w, False), reg))
           | None \<Rightarrow>
               let record = \<lparr>WsID = ''ws_'' @ uuid, WsPath = canonicalPath,
                     WsDisplayName = normalizedDisplayName displayName canonicalPath,
                     WsSource = workspaceSourceUserAdded, WsAddedAt = now, WsLastOpenedAt = now\<rparr>
               in (case saveLocked saved
                      (reg\<lparr>rgWorkspaces := normalizeWorkspaceRecords env (rgWorkspaces reg @ [record])\<rparr>) of
                     (Some e, reg) \<Rightarrow> (Inl e, reg)
                   | (None, reg) \<Rightarrow> (Inr (record, True), reg))))"

definition registry_Update ::
  "bool \<Rightarrow> string \<Rightarrow> string \<Rightarrow> registry \<Rightarrow> (registry_error + workspaceRecord) \<times> registry" where
  "registry_Update saved workspaceID displayName reg =
     (let workspaceID = trim_space workspaceID; displayName = trim_space displayName
      in if workspaceID = [] then (Inl WorkspaceIDRequired, reg)
         else if displayName = [] then (Inl DisplayNameRequired, reg)
         else (case first_index (\<lambda>w. WsID w = workspaceID) (rgWorkspaces reg) of
             None \<Rightarrow> (Inl WorkspaceNotExist, reg)
           | Some i \<Rightarrow>
               let w = (rgWorkspaces reg ! i)\<lparr>WsDisplayName := displayName\<rparr>
               in (case saveLocked saved (reg\<lparr>rgWorkspaces := (rgWorkspaces reg)[i := w]\<rparr>) of
                     (Some e, reg) \<Rightarrow> (Inl e, reg)
                   | (None, reg) \<Rightarrow> (Inr w, reg))))"

definition registry_Remove :: "bool \<Rightarrow> string \<Rightarrow> registry \<Rightarrow> (registry_error + bool) \<times> registry" where
  "registry_Remove saved workspaceID reg =
     (let workspaceID = trim_space workspaceID
      in if workspaceID = [] then (Inl WorkspaceIDRequired, reg)
         else (case first_index (\<lambda>w. WsID w = workspaceID) (rgWorkspaces reg) of
             None \<Rightarrow> (Inr False, reg)
           | Some i \<Rightarrow>
               (case saveLocked saved
                   (reg\<lparr>rgWorkspaces := take i (rgWorkspaces reg) @ drop (Suc i) (rgWorkspaces reg)\<rparr>) of
                  (Some e, reg) \<Rightarrow> (Inl e, reg)
                | (None, reg) \<Rightarrow> (Inr True, reg))))"

section \<open>The registry as a map from paths to workspaces\<close>

text \<open>
  Paths that NormalizeWorkDir returns are absolute, clean and resolved: it returns them unchanged,
  as long as no link is put in their place, and a directory of the file system root is not empty.
\<close>

definition workspace_env_ok :: "workspace_env \<Rightarrow> bool" where
  "workspace_env_ok env \<longleftrightarrow>
     (\<forall>p. normalize env (trim_space (normalize env p)) = normalize env p) \<and>
     (\<forall>p. trim_space p \<noteq> [] \<longrightarrow> normalize env p \<noteq> []) \<and>
     (\<forall>rs. mset (map_order env rs) = mset rs)"

definition record_ok :: "workspace_env \<Rightarrow> workspaceRecord \<Rightarrow> bool" where
  "record_ok env r \<longleftrightarrow>
     WsID r \<noteq> [] \<and> trim_space (WsID r) = WsID r \<and> WsPath r \<noteq> [] \<and>
     normalize env (trim_space (WsPath r)) = WsPath r \<and> WsSource r \<noteq> []"

definition records_ok :: "workspace_env \<Rightarrow> workspaceRecord list \<Rightarrow> bool" where
  "records_ok env rs \<longleftrightarrow> list_all (record_ok env) rs \<and> distinct (map WsPath rs) \<and> distinct (map WsID rs)"

definition file_ok :: "workspace_env \<Rightarrow> registry_file \<Rightarrow> bool" where
  "file_ok env file = (case file of RegistryFile rs \<Rightarrow> records_ok env rs | _ \<Rightarrow> True)"

text \<open>The abstract registry: which workspace a directory is.\<close>

definition paths_of :: "workspaceRecord list \<Rightarrow> string \<rightharpoonup> string" where
  "paths_of rs = map_of (map (\<lambda>r. (WsPath r, WsID r)) rs)"

definition ids_of :: "registry \<Rightarrow> string set" where
  "ids_of reg = WsID ` set (rgWorkspaces reg) \<union> (case rgFile reg of RegistryFile rs \<Rightarrow> WsID ` set rs | _ \<Rightarrow> {})"

definition registry_ok :: "workspace_env \<Rightarrow> registry \<Rightarrow> bool" where
  "registry_ok env reg \<longleftrightarrow> records_ok env (rgWorkspaces reg) \<and>
     (case rgFile reg of NoFile \<Rightarrow> True | RegistryFile rs \<Rightarrow> records_ok env rs | _ \<Rightarrow> False)"

definition file_paths :: "registry \<Rightarrow> (string \<rightharpoonup> string) option" where
  "file_paths reg = (case rgFile reg of RegistryFile rs \<Rightarrow> Some (paths_of rs) | _ \<Rightarrow> None)"

lemma first_index_Some: "first_index P xs = Some i \<Longrightarrow> i < length xs \<and> P (xs ! i)"
  by (induction xs arbitrary: i) (auto split: if_splits)

lemma first_index_None: "first_index P xs = None \<longleftrightarrow> (\<forall>x\<in>set xs. \<not> P x)"
  by (induction xs) auto

lemma tidy_ok:
  "record_ok env r \<Longrightarrow> WsID (tidy_record env r) = WsID r \<and> WsPath (tidy_record env r) = WsPath r \<and>
    WsSource (tidy_record env r) = WsSource r \<and> record_ok env (tidy_record env r)"
  by (auto simp: tidy_record_def record_ok_def Let_def)

lemma map_put_fresh: "k \<notin> fst ` set m \<Longrightarrow> map_put k v m = m @ [(k, v)]"
  by (induction m) auto

lemma by_path_new:
  assumes "record_ok env r" "WsPath r \<notin> fst ` set m"
  shows "by_path env r m = m @ [(WsPath r, tidy_record env r)]"
proof -
  have "map_of m (WsPath r) = None" using assms(2) by (simp add: map_of_eq_None_iff)
  then show ?thesis
    using tidy_ok [OF assms(1)] assms by (simp add: by_path_def record_ok_def Let_def map_put_fresh)
qed

lemma by_path_all:
  assumes "list_all (record_ok env) rs" "distinct (map WsPath rs)" "fst ` set m \<inter> WsPath ` set rs = {}"
  shows "fold (by_path env) rs m = m @ map (\<lambda>r. (WsPath r, tidy_record env r)) rs"
  using assms by (induction rs arbitrary: m) (auto simp: by_path_new)

lemma mset_normalized:
  assumes "workspace_env_ok env" "records_ok env rs"
  shows "mset (normalizeWorkspaceRecords env rs) = mset (map (tidy_record env) rs)"
  using assms by (simp add: normalizeWorkspaceRecords_def mset_sort_any workspace_env_ok_def records_ok_def by_path_all comp_def)

lemma paths_of_perm:
  assumes "mset (map (\<lambda>r. (WsPath r, WsID r)) rs) = mset (map (\<lambda>r. (WsPath r, WsID r)) ss)" "distinct (map WsPath rs)"
  shows "paths_of rs = paths_of ss"
proof -
  let ?k = "\<lambda>r. (WsPath r, WsID r)"
  have "mset (map WsPath rs) = mset (map WsPath ss)"
    using arg_cong [OF assms(1), of "image_mset fst"] by (simp add: multiset.map_comp comp_def)
  then have "distinct (map WsPath ss)" using assms(2) mset_eq_imp_distinct_iff by blast
  moreover have "set (map ?k rs) = set (map ?k ss)" using arg_cong [OF assms(1), of set_mset] by simp
  ultimately show ?thesis
    unfolding paths_of_def using assms(2) by (subst map_of_inject_set) (simp_all add: comp_def)
qed

lemma normalized_keeps:
  assumes "workspace_env_ok env" "records_ok env rs"
  shows "records_ok env (normalizeWorkspaceRecords env rs)" "paths_of (normalizeWorkspaceRecords env rs) = paths_of rs"
    "WsID ` set (normalizeWorkspaceRecords env rs) = WsID ` set rs"
proof -
  let ?n = "normalizeWorkspaceRecords env rs" and ?k = "\<lambda>r. (WsPath r, WsID r)"
  have m: "mset ?n = mset (map (tidy_record env) rs)" using mset_normalized [OF assms] .
  have ok: "\<forall>r\<in>set rs. record_ok env r" using assms(2) by (simp add: records_ok_def list_all_iff)
  have tidy: "WsPath (tidy_record env r) = WsPath r" "WsID (tidy_record env r) = WsID r"
      "record_ok env (tidy_record env r)" if "r \<in> set rs" for r
    using ok tidy_ok that by blast+
  have paths: "map WsPath (map (tidy_record env) rs) = map WsPath rs" by (simp add: tidy)
  have ids: "map WsID (map (tidy_record env) rs) = map WsID rs" by (simp add: tidy)
  have keys: "map ?k (map (tidy_record env) rs) = map ?k rs" by (simp add: tidy)
  have "set ?n = tidy_record env ` set rs" using arg_cong [OF m, of set_mset] by simp
  then have "list_all (record_ok env) ?n" using tidy(3) by (auto simp: list_all_iff)
  have mf: "mset (map f ?n) = mset (map f (map (tidy_record env) rs))" for f :: "workspaceRecord \<Rightarrow> 'b"
    using arg_cong [OF m, of "image_mset f"] by (simp add: multiset.map_comp)
  have p: "mset (map WsPath ?n) = mset (map WsPath rs)" using mf [of WsPath] unfolding paths .
  have q: "mset (map WsID ?n) = mset (map WsID rs)" using mf [of WsID] unfolding ids .
  have d: "distinct (map WsPath ?n)" "distinct (map WsID ?n)"
    using mset_eq_imp_distinct_iff [OF p] mset_eq_imp_distinct_iff [OF q] assms(2) by (simp_all add: records_ok_def)
  have i: "WsID ` set ?n = WsID ` set rs" using mset_eq_setD [OF q] by simp
  show "WsID ` set ?n = WsID ` set rs" by (rule i)
  show "records_ok env ?n" using \<open>list_all (record_ok env) ?n\<close> d by (simp add: records_ok_def)
  have "mset (map ?k ?n) = mset (map ?k rs)" using mf [of ?k] unfolding keys .
  then show "paths_of ?n = paths_of rs" using d(1) by (rule paths_of_perm)
qed

lemma paths_of_dom: "paths_of rs p = None \<longleftrightarrow> p \<notin> WsPath ` set rs"
  by (simp add: paths_of_def map_of_eq_None_iff image_image)

lemma paths_of_append: "p \<notin> WsPath ` set rs \<Longrightarrow> WsPath r = p \<Longrightarrow> paths_of (rs @ [r]) = (paths_of rs)(p \<mapsto> WsID r)"
  using paths_of_dom [of rs p] by (auto simp: paths_of_def map_add_def fun_eq_iff split: option.split)

lemma paths_of_update:
  "i < length rs \<Longrightarrow> WsPath r = WsPath (rs ! i) \<Longrightarrow> WsID r = WsID (rs ! i) \<Longrightarrow> paths_of (rs[i := r]) = paths_of rs"
  by (simp add: paths_of_def map_update) (metis (no_types, lifting) list_update_id map_update)

lemma records_ok_update:
  assumes "records_ok env rs" "i < length rs" "record_ok env r" "WsPath r = WsPath (rs ! i)" "WsID r = WsID (rs ! i)"
  shows "records_ok env (rs[i := r])" "WsID ` set (rs[i := r]) = WsID ` set rs"
proof -
  have same: "map WsPath (rs[i := r]) = map WsPath rs" "map WsID (rs[i := r]) = map WsID rs"
    using assms by (simp_all add: map_update list_update_same_conv)
  then show "records_ok env (rs[i := r])"
    using assms set_update_subset_insert [of rs i r] unfolding records_ok_def by (auto simp: list_all_iff)
  show "WsID ` set (rs[i := r]) = WsID ` set rs" using same(2) by (metis list.set_map)
qed

section \<open>Histories of the registry\<close>

datatype registry_op =
    OpAdd "string \<Rightarrow> bool option" int string bool string string
  | OpUpdate bool string string
  | OpRemove bool string
  | OpReload

fun registry_step :: "workspace_env \<Rightarrow> registry_op \<Rightarrow> registry \<Rightarrow> registry" where
  "registry_step env (OpAdd stat now uuid saved path name) reg = snd (registry_Add env stat now uuid saved path name reg)"
| "registry_step env (OpUpdate saved ws name) reg = snd (registry_Update saved ws name reg)"
| "registry_step env (OpRemove saved ws) reg = snd (registry_Remove saved ws reg)"
| "registry_step env OpReload reg = snd (registry_Load env reg)"

text \<open>The abstract registry: the map in memory and the one on disk.\<close>

type_synonym path_map = "string \<rightharpoonup> string"

definition keep_saved :: "bool \<Rightarrow> path_map \<Rightarrow> path_map \<times> path_map option \<Rightarrow> path_map \<times> path_map option" where
  "keep_saved saved m st = (m, if saved then Some m else snd st)"

fun abstract_step :: "workspace_env \<Rightarrow> registry_op \<Rightarrow> path_map \<times> path_map option \<Rightarrow> path_map \<times> path_map option" where
  "abstract_step env (OpAdd stat now uuid saved path name) st =
     (case canonicalizeWorkspacePath env stat path of
        Inl e \<Rightarrow> st
      | Inr p \<Rightarrow> keep_saved saved (if fst st p = None then (fst st)(p \<mapsto> ''ws_'' @ uuid) else fst st) st)"
| "abstract_step env (OpUpdate saved ws name) st =
     (if trim_space name = [] \<or> trim_space ws \<notin> ran (fst st) then st else keep_saved saved (fst st) st)"
| "abstract_step env (OpRemove saved ws) st =
     (if trim_space ws \<notin> ran (fst st) then st
      else keep_saved saved (\<lambda>p. if fst st p = Some (trim_space ws) then None else fst st p) st)"
| "abstract_step env OpReload st = (case snd st of None \<Rightarrow> Map.empty | Some m \<Rightarrow> m, snd st)"

definition abstraction :: "registry \<Rightarrow> path_map \<times> path_map option" where
  "abstraction reg = (paths_of (rgWorkspaces reg), file_paths reg)"

text \<open>The fresh identifiers of Add: texts of UUIDs, which hold no white space.\<close>

fun op_uuids :: "registry_op \<Rightarrow> string list" where
  "op_uuids (OpAdd stat now uuid saved path name) = [uuid]"
| "op_uuids op = []"

definition fresh_op :: "registry_op \<Rightarrow> registry \<Rightarrow> bool" where
  "fresh_op op reg \<longleftrightarrow> (\<forall>u\<in>set (op_uuids op). ''ws_'' @ u \<notin> ids_of reg \<and> trim_space (''ws_'' @ u) = ''ws_'' @ u)"

lemma ran_paths_of: "distinct (map WsPath rs) \<Longrightarrow> ran (paths_of rs) = WsID ` set rs"
  by (simp add: paths_of_def ran_distinct comp_def image_image)

lemma records_ok_append:
  "records_ok env rs \<Longrightarrow> record_ok env r \<Longrightarrow> WsPath r \<notin> WsPath ` set rs \<Longrightarrow> WsID r \<notin> WsID ` set rs \<Longrightarrow>
    records_ok env (rs @ [r])"
  by (auto simp: records_ok_def)

lemma remove_at:
  assumes "records_ok env rs" "i < length rs"
  shows "records_ok env (take i rs @ drop (Suc i) rs)"
    "paths_of (take i rs @ drop (Suc i) rs) = (\<lambda>p. if paths_of rs p = Some (WsID (rs ! i)) then None else paths_of rs p)"
    "WsID ` set (take i rs @ drop (Suc i) rs) \<subseteq> WsID ` set rs"
proof -
  let ?r = "rs ! i" and ?a = "take i rs" and ?b = "drop (Suc i) rs"
  have rs: "rs = ?a @ ?r # ?b" using assms(2) by (rule id_take_nth_drop)
  have d: "distinct (map WsPath (?a @ ?r # ?b))" "distinct (map WsID (?a @ ?r # ?b))" "list_all (record_ok env) (?a @ ?r # ?b)"
    using assms(1) rs by (simp_all add: records_ok_def)
  then show "records_ok env (?a @ ?b)" by (simp add: records_ok_def)
  show "WsID ` set (?a @ ?b) \<subseteq> WsID ` set rs"
    using arg_cong [OF rs, of "\<lambda>l. WsID ` set l"] by auto
  have off: "paths_of xs p \<noteq> Some (WsID ?r)" if "WsID ?r \<notin> WsID ` set xs" for xs p
    using that by (auto simp: paths_of_def dest!: map_of_SomeD)
  have a: "paths_of ?a (WsPath ?r) = None" using d(1) by (simp add: paths_of_dom)
  have "paths_of (?a @ ?r # ?b) p = (if WsPath ?r = p then Some (WsID ?r) else paths_of (?a @ ?b) p)" for p
    using a by (auto simp: paths_of_def map_add_def split: option.split)
  moreover have "paths_of (?a @ ?b) (WsPath ?r) = None" using d(1) by (simp add: paths_of_dom image_Un)
  moreover have "paths_of (?a @ ?b) p \<noteq> Some (WsID ?r)" for p using d(2) by (intro off) (simp add: image_Un)
  ultimately show "paths_of (?a @ ?b) = (\<lambda>p. if paths_of rs p = Some (WsID ?r) then None else paths_of rs p)"
    by (subst (2 3) rs) auto
qed

lemma saved_state [simp]:
  "snd (case saveLocked saved r of (Some e, reg) \<Rightarrow> (Inl e, reg) | (None, reg) \<Rightarrow> (Inr x, reg)) = snd (saveLocked saved r)"
  by (simp add: saveLocked_def)

lemma after_save:
  assumes "registry_ok env reg" "records_ok env ws"
  shows "registry_ok env (snd (saveLocked saved (reg\<lparr>rgWorkspaces := ws\<rparr>)))"
    "abstraction (snd (saveLocked saved (reg\<lparr>rgWorkspaces := ws\<rparr>))) = keep_saved saved (paths_of ws) (abstraction reg)"
    "ids_of (snd (saveLocked saved (reg\<lparr>rgWorkspaces := ws\<rparr>))) \<subseteq> ids_of reg \<union> WsID ` set ws"
  using assms by (auto simp: saveLocked_def registry_ok_def abstraction_def file_paths_def keep_saved_def ids_of_def
      split: registry_file.splits)

definition simulates :: "workspace_env \<Rightarrow> registry_op \<Rightarrow> registry \<Rightarrow> registry \<Rightarrow> bool" where
  "simulates env op reg reg' \<longleftrightarrow>
     registry_ok env reg' \<and> abstraction reg' = abstract_step env op (abstraction reg) \<and>
     ids_of reg' \<subseteq> ids_of reg \<union> (\<lambda>u. ''ws_'' @ u) ` set (op_uuids op)"

lemma simulates_save:
  assumes "registry_ok env reg" "records_ok env ws"
    "abstract_step env op (abstraction reg) = keep_saved saved (paths_of ws) (abstraction reg)"
    "WsID ` set ws \<subseteq> WsID ` set (rgWorkspaces reg) \<union> (\<lambda>u. ''ws_'' @ u) ` set (op_uuids op)"
  shows "simulates env op reg (snd (saveLocked saved (reg\<lparr>rgWorkspaces := ws\<rparr>)))"
proof -
  have "WsID ` set (rgWorkspaces reg) \<subseteq> ids_of reg" by (simp add: ids_of_def)
  then have "ids_of (snd (saveLocked saved (reg\<lparr>rgWorkspaces := ws\<rparr>))) \<subseteq> ids_of reg \<union> (\<lambda>u. ''ws_'' @ u) ` set (op_uuids op)"
    using after_save(3) [OF assms(1,2), of saved] assms(4) by blast
  then show ?thesis
    using after_save(1,2) [OF assms(1,2), of saved] assms(3) unfolding simulates_def by metis
qed

lemma add_simulates:
  assumes "workspace_env_ok env" "registry_ok env reg" "fresh_op (OpAdd stat now uuid saved path name) reg"
  shows "simulates env (OpAdd stat now uuid saved path name) reg (snd (registry_Add env stat now uuid saved path name reg))"
proof (cases "canonicalizeWorkspacePath env stat path")
  case (Inl e)
  then show ?thesis using assms(2) by (auto simp: simulates_def registry_Add_def abstraction_def)
next
  case (Inr p)
  let ?ws = "rgWorkspaces reg"
  have ok: "records_ok env ?ws" using assms(2) by (simp add: registry_ok_def)
  have p: "p \<noteq> []" "normalize env (trim_space p) = p"
    using Inr assms(1) by (auto simp: canonicalizeWorkspacePath_def workspace_env_ok_def Let_def split: if_splits option.splits)
  show ?thesis
  proof (cases "first_index (\<lambda>w. WsPath w = p) ?ws")
    case (Some i)
    then have i: "i < length ?ws" "WsPath (?ws ! i) = p" using first_index_Some by blast+
    then have dom: "paths_of ?ws p \<noteq> None" using nth_mem paths_of_dom [of ?ws p] by blast
    obtain name' where w: "snd (registry_Add env stat now uuid saved path name reg) = snd (saveLocked saved (reg\<lparr>rgWorkspaces :=
        ?ws[i := (?ws ! i)\<lparr>WsDisplayName := name', WsLastOpenedAt := now\<rparr>]\<rparr>))"
    proof (cases "trim_space name = []")
      case True
      then show ?thesis using that [of "WsDisplayName (?ws ! i)"] Inr Some by (simp add: registry_Add_def Let_def)
    next
      case False
      then show ?thesis using that Inr Some by (simp add: registry_Add_def Let_def)
    qed
    let ?w = "(?ws ! i)\<lparr>WsDisplayName := name', WsLastOpenedAt := now\<rparr>"
    have "record_ok env ?w" using ok i(1) by (simp add: records_ok_def list_all_length record_ok_def)
    from records_ok_update [OF ok i(1) this] have u: "records_ok env (?ws[i := ?w])" "WsID ` set (?ws[i := ?w]) = WsID ` set ?ws"
      by simp_all
    have "paths_of (?ws[i := ?w]) = paths_of ?ws" using i(1) by (intro paths_of_update) simp_all
    then have "abstract_step env (OpAdd stat now uuid saved path name) (abstraction reg) =
        keep_saved saved (paths_of (?ws[i := ?w])) (abstraction reg)"
      using dom Inr by (auto simp: abstraction_def)
    then show ?thesis unfolding w using u(2) by (intro simulates_save [OF assms(2) u(1)]) auto
  next
    case None
    let ?r = "\<lparr>WsID = ''ws_'' @ uuid, WsPath = p, WsDisplayName = normalizedDisplayName name p,
      WsSource = workspaceSourceUserAdded, WsAddedAt = now, WsLastOpenedAt = now\<rparr>"
    have fresh: "p \<notin> WsPath ` set ?ws" using None by (auto simp: first_index_None)
    have "WsID ?r \<notin> WsID ` set ?ws" using assms(3) by (auto simp: fresh_op_def ids_of_def)
    moreover have "record_ok env ?r" using p assms(3) by (simp add: record_ok_def fresh_op_def workspaceSourceUserAdded_def)
    ultimately have okr: "records_ok env (?ws @ [?r])" using ok fresh by (intro records_ok_append) simp_all
    note n = normalized_keeps [OF assms(1) okr]
    have w: "snd (registry_Add env stat now uuid saved path name reg) =
        snd (saveLocked saved (reg\<lparr>rgWorkspaces := normalizeWorkspaceRecords env (?ws @ [?r])\<rparr>))"
      using Inr None by (simp add: registry_Add_def Let_def)
    have "paths_of ?ws p = None" using fresh by (simp add: paths_of_dom)
    then have "abstract_step env (OpAdd stat now uuid saved path name) (abstraction reg) =
        keep_saved saved (paths_of (normalizeWorkspaceRecords env (?ws @ [?r]))) (abstraction reg)"
      using Inr n(2) paths_of_append [OF fresh, of ?r] by (simp add: abstraction_def)
    then show ?thesis unfolding w using n(3) by (intro simulates_save [OF assms(2) n(1)]) auto
  qed
qed

lemma known_id: "records_ok env ws \<Longrightarrow> x \<in> ran (paths_of ws) \<longleftrightarrow> first_index (\<lambda>w. WsID w = x) ws \<noteq> None"
  by (auto simp: ran_paths_of records_ok_def first_index_None)

lemma blank_unknown: "records_ok env ws \<Longrightarrow> [] \<notin> ran (paths_of ws)"
  by (auto simp: ran_paths_of records_ok_def list_all_iff record_ok_def)

lemma update_simulates:
  assumes "registry_ok env reg"
  shows "simulates env (OpUpdate saved ws name) reg (snd (registry_Update saved ws name reg))"
proof -
  let ?ws = "rgWorkspaces reg" and ?id = "trim_space ws"
  have ok: "records_ok env ?ws" using assms by (simp add: registry_ok_def)
  consider (refused) "?id = [] \<or> trim_space name = []"
    | (missing) "?id \<noteq> []" "trim_space name \<noteq> []" "first_index (\<lambda>w. WsID w = ?id) ?ws = None"
    | (found) i where "?id \<noteq> []" "trim_space name \<noteq> []" "first_index (\<lambda>w. WsID w = ?id) ?ws = Some i"
    by (cases "first_index (\<lambda>w. WsID w = ?id) ?ws") auto
  then show ?thesis
  proof cases
    case refused
    then have "trim_space name = [] \<or> ?id \<notin> ran (paths_of ?ws)" using blank_unknown [OF ok] by auto
    then show ?thesis using refused assms by (auto simp: simulates_def registry_Update_def abstraction_def Let_def)
  next
    case missing
    then show ?thesis using known_id [OF ok, of ?id] assms
      by (auto simp: simulates_def registry_Update_def abstraction_def Let_def)
  next
    case (found i)
    let ?w = "(?ws ! i)\<lparr>WsDisplayName := trim_space name\<rparr>"
    have i: "i < length ?ws" using found(3) first_index_Some by blast
    have "record_ok env ?w" using ok i by (simp add: records_ok_def list_all_length record_ok_def)
    from records_ok_update [OF ok i this] have u: "records_ok env (?ws[i := ?w])" "WsID ` set (?ws[i := ?w]) = WsID ` set ?ws"
      by simp_all
    have "paths_of (?ws[i := ?w]) = paths_of ?ws" using i by (intro paths_of_update) simp_all
    then have "abstract_step env (OpUpdate saved ws name) (abstraction reg) =
        keep_saved saved (paths_of (?ws[i := ?w])) (abstraction reg)"
      using found known_id [OF ok, of ?id] by (simp add: abstraction_def)
    then have "simulates env (OpUpdate saved ws name) reg (snd (saveLocked saved (reg\<lparr>rgWorkspaces := ?ws[i := ?w]\<rparr>)))"
      using u(2) by (intro simulates_save [OF assms u(1)]) auto
    then show ?thesis using found by (simp add: registry_Update_def Let_def)
  qed
qed

lemma remove_simulates:
  assumes "registry_ok env reg"
  shows "simulates env (OpRemove saved ws) reg (snd (registry_Remove saved ws reg))"
proof -
  let ?ws = "rgWorkspaces reg" and ?id = "trim_space ws"
  have ok: "records_ok env ?ws" using assms by (simp add: registry_ok_def)
  show ?thesis
  proof (cases "first_index (\<lambda>w. WsID w = ?id) ?ws")
    case None
    then show ?thesis using known_id [OF ok, of ?id] assms
      by (auto simp: simulates_def registry_Remove_def abstraction_def Let_def)
  next
    case (Some i)
    then have i: "i < length ?ws" "WsID (?ws ! i) = ?id" using first_index_Some by blast+
    have known: "?id \<in> ran (paths_of ?ws)" using known_id [OF ok, of ?id] Some by simp
    then have ne: "?id \<noteq> []" using blank_unknown [OF ok] by auto
    note r = remove_at [OF ok i(1)]
    have "abstract_step env (OpRemove saved ws) (abstraction reg) =
        keep_saved saved (paths_of (take i ?ws @ drop (Suc i) ?ws)) (abstraction reg)"
      using known i(2) r(2) by (simp add: abstraction_def cong: if_cong)
    then have "simulates env (OpRemove saved ws) reg
        (snd (saveLocked saved (reg\<lparr>rgWorkspaces := take i ?ws @ drop (Suc i) ?ws\<rparr>)))"
      using r(3) by (intro simulates_save [OF assms r(1)]) auto
    then show ?thesis using Some ne by (simp add: registry_Remove_def Let_def)
  qed
qed

lemma reload_simulates:
  assumes "workspace_env_ok env" "registry_ok env reg"
  shows "simulates env OpReload reg (snd (registry_Load env reg))"
proof (cases "rgFile reg")
  case NoFile
  then show ?thesis
    by (auto simp: simulates_def registry_Load_def registry_ok_def records_ok_def abstraction_def file_paths_def
        paths_of_def ids_of_def)
next
  case (RegistryFile rs)
  then have "records_ok env rs" using assms(2) by (simp add: registry_ok_def)
  from normalized_keeps [OF assms(1) this] show ?thesis
    using RegistryFile assms(2)
    by (auto simp: simulates_def registry_Load_def registry_ok_def abstraction_def file_paths_def ids_of_def)
qed (use assms(2) in \<open>simp_all add: registry_ok_def\<close>)

lemma step_simulates:
  "workspace_env_ok env \<Longrightarrow> registry_ok env reg \<Longrightarrow> fresh_op op reg \<Longrightarrow> simulates env op reg (registry_step env op reg)"
  by (cases op) (simp_all add: add_simulates update_simulates remove_simulates reload_simulates)



end
