(* ===== verification/AppServer.thy ===== *)
theory AppServer
  imports Workspaces Commands
begin

text \<open>
  The local server that clients of this machine talk to (cli/internal/appserver/server.go,
  pending.go, runtime_manager.go, protocol.go): its connections, the runtimes of the workspaces, the
  commands that wait for their first event, the live output of the runs and the notifications.  What
  the server asks its surroundings during a request is a reading; JSON decoding is codecs.
\<close>

section \<open>The protocol (protocol.go)\<close>

datatype errorCode =
    ErrorCodeParseError
  | ErrorCodeInvalidRequest
  | ErrorCodeMethodNotFound
  | ErrorCodeInvalidParams
  | ErrorCodeInternalError
  | ErrorCodeNotInitialized
  | ErrorCodeConfigConflict
  | ErrorCodeWorkspaceMissing
  | ErrorCodeWorkspaceUnreachable
  | ErrorCodeUnauthorized
  | ErrorCodeBusy

text \<open>Data names the workspace that is missing.\<close>

record rpcError =
  Code :: errorCode
  Message :: string
  Data :: "string option"

abbreviation rpc_error :: "errorCode \<Rightarrow> string \<Rightarrow> rpcError" where
  "rpc_error code message \<equiv> \<lparr>Code = code, Message = message, Data = None\<rparr>"

text \<open>A frame that is a JSON object; a missing field is the empty string.\<close>

record incomingMessage =
  MsgJSONRPC :: string
  MsgID :: string
  MsgMethod :: string
  MsgParams :: string

definition isRequest :: "incomingMessage \<Rightarrow> bool" where
  "isRequest m \<longleftrightarrow> MsgMethod m \<noteq> [] \<and> MsgID m \<noteq> []"

definition isNotification :: "incomingMessage \<Rightarrow> bool" where
  "isNotification m \<longleftrightarrow> MsgMethod m \<noteq> [] \<and> MsgID m = []"

record initializeParams =
  ProtocolVersion :: int
  InitAuthToken :: string
  InitPassive :: bool

record workspaceAddParams =
  AddPath :: string
  AddDisplayName :: string

record workspaceUpdateParams =
  UpdWorkspaceID :: string
  UpdDisplayName :: string

record taskStartParams =
  StartWorkspaceID :: string
  StartClientCommandID :: string
  StartDescription :: string
  StartConfigAlias :: string
  StartConfigPath :: string
  StartUseWorktree :: bool
  StartAttachments :: "ImageAttachmentInput list"

record taskStartFollowUpParams =
  FollowWorkspaceID :: string
  FollowClientCommandID :: string
  FollowParentTaskID :: string
  FollowDescription :: string
  FollowConfigAlias :: string
  FollowConfigPath :: string
  FollowMode :: FollowUpMode
  FollowAttachments :: "ImageAttachmentInput list"

text \<open>A nil payload is None.\<close>

record taskSubmitInputParams =
  InputWorkspaceID :: string
  InputClientCommandID :: string
  InputTaskID :: string
  InputNodeRunID :: string
  InputPayload :: "(string, gval) gomap option"
  InputAttachments :: "ImageAttachmentInput list"

record taskRetryNodeParams =
  RetryWorkspaceID :: string
  RetryClientCommandID :: string
  RetryTaskID :: string
  RetryNodeRunID :: string
  RetryForce :: bool

record taskContinueBlockedParams =
  ContWorkspaceID :: string
  ContClientCommandID :: string
  ContTaskID :: string

record taskRecoverStaleParams =
  RecWorkspaceID :: string
  RecTaskID :: string
  RecNodeRunID :: string

text \<open>json.Unmarshal: of a frame, and of each method's parameters with the text of its error.\<close>

record codecs =
  dcMessage :: "string \<Rightarrow> incomingMessage option"
  dcInitialize :: "string \<Rightarrow> string + initializeParams"
  dcWorkspaceID :: "string \<Rightarrow> string + string"
  dcAdd :: "string \<Rightarrow> string + workspaceAddParams"
  dcUpdate :: "string \<Rightarrow> string + workspaceUpdateParams"
  dcStart :: "string \<Rightarrow> string + taskStartParams"
  dcFollowUp :: "string \<Rightarrow> string + taskStartFollowUpParams"
  dcSubmit :: "string \<Rightarrow> string + taskSubmitInputParams"
  dcRetry :: "string \<Rightarrow> string + taskRetryNodeParams"
  dcContinue :: "string \<Rightarrow> string + taskContinueBlockedParams"
  dcRecover :: "string \<Rightarrow> string + taskRecoverStaleParams"

definition protocolVersion :: int where
  "protocolVersion = 1"

definition jsonRPCVersion :: string where
  "jsonRPCVersion = ''2.0''"

section \<open>The state of the server\<close>

text \<open>An actor, with a number of its own and the commands that went into its service's channel.\<close>

record workspaceActor =
  acNo :: nat
  acWorkDir :: string
  acRunning :: bool
  acLastError :: string
  acDispatched :: "RunCommand list"

record workspaceActorDTO =
  ActorState :: string
  ActorLastError :: string

record workspaceSummaryDTO =
  DtoRecord :: workspaceRecord
  DtoReachable :: bool
  DtoWorktreeAvailable :: bool
  DtoActor :: workspaceActorDTO

datatype payload =
    TaskPayload string RunEvent
  | WorkspacePayload workspaceSummaryDTO
  | RemovedPayload

record notification =
  NtEventID :: string
  NtAt :: int
  NtKind :: string
  NtWorkspaceID :: string
  NtPayload :: payload

record pendingClientCommand =
  pcWorkspaceID :: string
  pcMethod :: string
  pcClientCommandID :: string
  pcTaskID :: string
  pcNodeRunID :: string

record liveEventSnapshot =
  LiveRunID :: string
  LiveEvents :: "StreamEvent list"

text \<open>
  The sink is the enqueueNotification of a connection, given by the connection's number.  The last
  five fields are logs that the code does not keep: the notifications made, those that fell out of
  the backlog, the commands that were enqueued and those that were claimed, and the workspace of
  each actor that was started.
\<close>

record server =
  avRegistry :: registry
  avActors :: "(string, workspaceActor) gomap"
  avConnectedClients :: int
  avActiveSessionID :: string
  avPending :: "pendingClientCommand list"
  avSink :: "nat option"
  avLive :: "(string, (string, liveEventSnapshot) gomap) gomap"
  avBacklog :: "notification list"
  avShutdown :: bool
  avGracefulStop :: bool
  avCreated :: "notification list"
  avOverflowed :: "notification list"
  avEnqueued :: "pendingClientCommand list"
  avClaimed :: "pendingClientCommand list"
  avStarted :: "string list"

text \<open>
  What a request reads: the clock, fresh identifiers, the file system, whether the registry file is
  written, the errors of starting and closing a runtime, the texts of registry errors, the stored
  runs of a workspace (which need its database), and the answers of the methods that only read or
  that edit configurations.
\<close>

datatype result =
    InitializeResult
  | ServiceStatusResult nat int
  | ShutdownAccepted
  | WorkspaceListResult "workspaceSummaryDTO list"
  | WorkspaceResult workspaceSummaryDTO
  | WorkspaceRemovedResult
  | ReconcileResult string
  | CommandAccepted string
  | RecoverStaleResult string
  | OtherResult string

record reading =
  rdNow :: int
  rdUUID :: string
  rdEventUUID :: string
  rdStat :: "string \<Rightarrow> bool option"
  rdWorktree :: "string \<Rightarrow> bool"
  rdWorkspaces :: workspace_env
  rdSaved :: bool
  rdErrText :: "registry_error \<Rightarrow> string"
  rdFactory :: "string option"
  rdClose :: "string option"
  rdHasRunning :: "rpcError + bool"
  rdHasRunningAgain :: "rpcError + bool"
  rdRun :: "string \<Rightarrow> rpcError + NodeRun"
  rdRunAgain :: "string \<Rightarrow> rpcError + NodeRun"
  rdOther :: "string \<Rightarrow> string \<Rightarrow> rpcError + result"

section \<open>The runtimes of the workspaces (runtime_manager.go)\<close>

definition snapshot :: "server \<Rightarrow> string \<Rightarrow> workspaceActorDTO" where
  "snapshot srv workspaceID =
     (case map_of (avActors srv) workspaceID of
        None \<Rightarrow> \<lparr>ActorState = ''cold'', ActorLastError = []\<rparr>
      | Some actor \<Rightarrow>
          \<lparr>ActorState = (if acRunning actor then ''active'' else if acLastError actor = [] then ''cold'' else ''error''),
           ActorLastError = acLastError actor\<rparr>)"

text \<open>An active actor, or the stale one that was taken out.\<close>

definition activeOrDetachedActor ::
  "string \<Rightarrow> server \<Rightarrow> (workspaceActor option \<times> workspaceActor option) \<times> server" where
  "activeOrDetachedActor workspaceID srv =
     (case map_of (avActors srv) workspaceID of
        None \<Rightarrow> ((None, None), srv)
      | Some actor \<Rightarrow>
          if acRunning actor then ((Some actor, None), srv)
          else ((None, Some actor), srv\<lparr>avActors := map_del workspaceID (avActors srv)\<rparr>))"

text \<open>ensure ignores the error of closing a stale actor.\<close>

definition ensure :: "reading \<Rightarrow> workspaceRecord \<Rightarrow> server \<Rightarrow> (string + workspaceActor) \<times> server" where
  "ensure rd workspace srv =
     (case activeOrDetachedActor (WsID workspace) srv of
        ((Some actor, _), srv) \<Rightarrow> (Inr actor, srv)
      | ((None, _), srv) \<Rightarrow>
          (case rdFactory rd of
             Some err \<Rightarrow> (Inl err, srv)
           | None \<Rightarrow>
               let actor = \<lparr>acNo = length (avStarted srv), acWorkDir = WsPath workspace, acRunning = True,
                     acLastError = [], acDispatched = []\<rparr>
               in (Inr actor, srv\<lparr>avActors := map_put (WsID workspace) actor (avActors srv),
                     avStarted := avStarted srv @ [WsID workspace]\<rparr>)))"

definition runtimes_dispatch :: "reading \<Rightarrow> workspaceRecord \<Rightarrow> RunCommand \<Rightarrow> server \<Rightarrow> string option \<times> server" where
  "runtimes_dispatch rd workspace cmd srv =
     (case ensure rd workspace srv of
        (Inl err, srv) \<Rightarrow> (Some err, srv)
      | (Inr actor, srv) \<Rightarrow>
          (None, srv\<lparr>avActors := map_put (WsID workspace)
             (actor\<lparr>acDispatched := acDispatched actor @ [cmd]\<rparr>) (avActors srv)\<rparr>))"

definition runtimes_remove :: "reading \<Rightarrow> string \<Rightarrow> server \<Rightarrow> string option \<times> server" where
  "runtimes_remove rd workspaceID srv =
     (if map_of (avActors srv) workspaceID = None then (None, srv)
      else (rdClose rd, srv\<lparr>avActors := map_del workspaceID (avActors srv)\<rparr>))"

definition runtimeInstanceBusy :: "(string \<Rightarrow> string) \<Rightarrow> string \<Rightarrow> bool" where
  "runtimeInstanceBusy to_lower err \<longleftrightarrow> sublist ''already running in this directory'' (to_lower err)"

definition workspaceReconcileOutcomeBusy :: string where
  "workspaceReconcileOutcomeBusy = ''busy''"

definition workspaceReconcileOutcomeNoop :: string where
  "workspaceReconcileOutcomeNoop = ''noop''"

definition workspaceReconcileOutcomeReconciled :: string where
  "workspaceReconcileOutcomeReconciled = ''reconciled''"

definition runtimes_reconcile ::
  "(string \<Rightarrow> string) \<Rightarrow> reading \<Rightarrow> workspaceRecord \<Rightarrow> server \<Rightarrow> (string + string) \<times> server" where
  "runtimes_reconcile to_lower rd workspace srv =
     (case activeOrDetachedActor (WsID workspace) srv of
        ((Some actor, _), srv) \<Rightarrow> (Inr workspaceReconcileOutcomeBusy, srv)
      | ((None, stale), srv) \<Rightarrow>
          if stale \<noteq> None \<and> rdClose rd \<noteq> None then (Inl (the (rdClose rd)), srv)
          else
            (case ensure rd workspace srv of
               (Inl err, srv) \<Rightarrow>
                 (if runtimeInstanceBusy to_lower err then Inr workspaceReconcileOutcomeBusy else Inl err, srv)
             | (Inr actor, srv) \<Rightarrow> (Inr workspaceReconcileOutcomeReconciled, srv)))"

text \<open>runActor, when Run returns: None is a cancellation.\<close>

definition runActor_end :: "nat \<Rightarrow> string option \<Rightarrow> server \<Rightarrow> server" where
  "runActor_end no err srv =
     srv\<lparr>avActors := map (\<lambda>(k, a). (k, if acNo a = no
        then a\<lparr>acRunning := False, acLastError := (case err of None \<Rightarrow> acLastError a | Some e \<Rightarrow> e)\<rparr> else a)) (avActors srv)\<rparr>"

text \<open>The errors that closing, or preparing, each workspace's runtime may give are arguments.\<close>

definition runtimes_closeAll :: "(string \<Rightarrow> string option) \<Rightarrow> server \<Rightarrow> string list \<times> server" where
  "runtimes_closeAll closeErr srv =
     (List.map_filter (\<lambda>(ws, actor). closeErr ws) (avActors srv), srv\<lparr>avActors := []\<rparr>)"

definition prepareShutdownAll :: "(string \<Rightarrow> string option) \<Rightarrow> server \<Rightarrow> string list" where
  "prepareShutdownAll prepareErr srv = List.map_filter (\<lambda>(ws, actor). prepareErr ws) (avActors srv)"

definition server_Shutdown ::
  "bool \<Rightarrow> (string \<Rightarrow> string option) \<Rightarrow> (string \<Rightarrow> string option) \<Rightarrow> server \<Rightarrow> string list \<times> server" where
  "server_Shutdown graceful prepareErr closeErr srv =
     (if graceful \<and> prepareShutdownAll prepareErr srv \<noteq> [] then (prepareShutdownAll prepareErr srv, srv)
      else runtimes_closeAll closeErr srv)"

section \<open>Commands that wait for their first event (pending.go)\<close>

fun command_run :: "RunCommand \<Rightarrow> string" where
  "command_run (CommandSubmitInput taskID nodeRunID payload attachments) = nodeRunID"
| "command_run (CommandRetryNode taskID nodeRunID force) = nodeRunID"
| "command_run _ = []"

definition enqueuePendingClientCommand :: "string \<Rightarrow> string \<Rightarrow> string \<Rightarrow> RunCommand \<Rightarrow> server \<Rightarrow> server" where
  "enqueuePendingClientCommand workspaceID method clientCommandID cmd srv =
     (let clientCommandID = trim_space clientCommandID
      in if clientCommandID = [] then srv
         else
           (let p = \<lparr>pcWorkspaceID = workspaceID, pcMethod = method, pcClientCommandID = clientCommandID,
                  pcTaskID = trim_space (command_task cmd), pcNodeRunID = trim_space (command_run cmd)\<rparr>
            in srv\<lparr>avPending := avPending srv @ [p], avEnqueued := avEnqueued srv @ [p]\<rparr>))"

definition isDispatchCommandError :: "RunEvent \<Rightarrow> bool" where
  "isDispatchCommandError ev \<longleftrightarrow> EvType ev = EventCommandError \<and> is_blank (EvNodeRunID ev) \<and>
     is_blank (EvNodeName ev) \<and> EvView ev = None \<and> EvProgress ev = None \<and> EvInput ev = None"

definition matchesDispatchCommandError :: "pendingClientCommand \<Rightarrow> RunEvent \<Rightarrow> bool" where
  "matchesDispatchCommandError p ev \<longleftrightarrow> isDispatchCommandError ev \<and>
     (if pcMethod p \<in> {''task.start'', ''task.start_follow_up''} then is_blank (EvTaskID ev)
      else EvTaskID ev = pcTaskID p)"

definition matches :: "pendingClientCommand \<Rightarrow> RunEvent \<Rightarrow> bool" where
  "matches p ev \<longleftrightarrow> matchesDispatchCommandError p ev \<or>
     (if pcMethod p \<in> {''task.start'', ''task.start_follow_up''} then EvType ev = EventTaskCreated
      else if pcMethod p = ''task.submit_input''
      then EvTaskID ev = pcTaskID p \<and> EvNodeRunID ev = pcNodeRunID p \<and>
        EvType ev \<in> {EventNodeStarted, EventNodeCompleted, EventInputRequested}
      else if pcMethod p = ''task.retry_node'' then EvTaskID ev = pcTaskID p \<and> EvType ev = EventNodeStarted
      else if pcMethod p = ''task.continue_blocked''
      then EvTaskID ev = pcTaskID p \<and> EvType ev \<in> {EventNodeStarted, EventNodeCompleted, EventInputRequested}
      else False)"

definition claimPendingClientCommandID :: "string \<Rightarrow> RunEvent \<Rightarrow> server \<Rightarrow> string \<times> server" where
  "claimPendingClientCommandID workspaceID ev srv =
     (case first_index (\<lambda>p. pcWorkspaceID p = workspaceID \<and> matches p ev) (avPending srv) of
        None \<Rightarrow> ([], srv)
      | Some i \<Rightarrow>
          (pcClientCommandID (avPending srv ! i),
           srv\<lparr>avPending := take i (avPending srv) @ drop (Suc i) (avPending srv),
               avClaimed := avClaimed srv @ [avPending srv ! i]\<rparr>))"

section \<open>Live output and notifications (server.go)\<close>

definition live_cache :: "server \<Rightarrow> string \<Rightarrow> (string, liveEventSnapshot) gomap" where
  "live_cache srv workspaceID = (case map_of (avLive srv) workspaceID of None \<Rightarrow> [] | Some c \<Rightarrow> c)"

definition empty_snapshot :: "string \<Rightarrow> liveEventSnapshot" where
  "empty_snapshot runID = \<lparr>LiveRunID = runID, LiveEvents = []\<rparr>"

definition last_200 :: "'a list \<Rightarrow> 'a list" where
  "last_200 xs = (if length xs > 200 then drop (length xs - 200) xs else xs)"

text \<open>The map of a workspace is made before the event is looked at, also when it stays empty.\<close>

definition recordLiveEvents :: "string \<Rightarrow> RunEvent \<Rightarrow> server \<Rightarrow> server" where
  "recordLiveEvents workspaceID ev srv =
     (let taskID = trim_space (EvTaskID ev)
      in if workspaceID = [] \<or> taskID = [] then srv
         else
           (let cache = live_cache srv workspaceID;
                found = map_of cache taskID;
                snap = (case found of None \<Rightarrow> empty_snapshot [] | Some s \<Rightarrow> s);
                put = (\<lambda>s. srv\<lparr>avLive := map_put workspaceID (map_put taskID s cache) (avLive srv)\<rparr>);
                unchanged = srv\<lparr>avLive := map_put workspaceID cache (avLive srv)\<rparr>
            in case EvType ev of
                 EventNodeStarted \<Rightarrow> put (empty_snapshot (EvNodeRunID ev))
               | EventInputRequested \<Rightarrow> put (empty_snapshot (EvNodeRunID ev))
               | EventNodeProgress \<Rightarrow>
                   (let snap = (if LiveRunID snap \<noteq> EvNodeRunID ev then empty_snapshot (EvNodeRunID ev) else snap)
                    in case EvProgress ev of
                         None \<Rightarrow> put snap
                       | Some progress \<Rightarrow>
                           if ProgEvents progress = [] then put snap
                           else put (snap\<lparr>LiveEvents := last_200 (LiveEvents snap @ ProgEvents progress)\<rparr>))
               | EventTaskCreated \<Rightarrow>
                   if LiveRunID snap = [] \<and> EvNodeRunID ev \<noteq> [] then put (snap\<lparr>LiveRunID := EvNodeRunID ev\<rparr>) else unchanged
               | EventCommandError \<Rightarrow>
                   if LiveRunID snap = [] \<and> EvNodeRunID ev \<noteq> [] then put (snap\<lparr>LiveRunID := EvNodeRunID ev\<rparr>) else unchanged
               | _ \<Rightarrow>
                   if LiveRunID snap = [] \<or> LiveRunID snap = EvNodeRunID ev
                   then (let cache = map_del taskID cache
                         in srv\<lparr>avLive := (if cache = [] then map_del workspaceID (avLive srv)
                                           else map_put workspaceID cache (avLive srv))\<rparr>)
                   else unchanged))"

definition server_liveEventSnapshot :: "server \<Rightarrow> string \<Rightarrow> string \<Rightarrow> string \<times> StreamEvent list" where
  "server_liveEventSnapshot srv workspaceID taskID =
     (case map_of (live_cache srv workspaceID) taskID of None \<Rightarrow> ([], []) | Some s \<Rightarrow> (LiveRunID s, LiveEvents s))"

definition clearLiveOutputCache :: "string \<Rightarrow> server \<Rightarrow> server" where
  "clearLiveOutputCache workspaceID srv = srv\<lparr>avLive := map_del workspaceID (avLive srv)\<rparr>"

definition newNotification :: "reading \<Rightarrow> string \<Rightarrow> string \<Rightarrow> payload \<Rightarrow> server \<Rightarrow> notification \<times> server" where
  "newNotification rd kind workspaceID payload srv =
     (let n = \<lparr>NtEventID = ''evt_'' @ rdEventUUID rd, NtAt = rdNow rd, NtKind = kind,
          NtWorkspaceID = workspaceID, NtPayload = payload\<rparr>
      in (n, srv\<lparr>avCreated := avCreated srv @ [n]\<rparr>))"

definition maxNotificationBacklog :: nat where
  "maxNotificationBacklog = 128"

definition appendNotificationBacklog :: "notification list \<Rightarrow> notification \<Rightarrow> notification list" where
  "appendNotificationBacklog backlog n =
     (let backlog = backlog @ [n]
      in if length backlog \<le> maxNotificationBacklog then backlog
         else drop (length backlog - maxNotificationBacklog) backlog)"

text \<open>
  The part of emitNotification under the lock: the connection whose sink is to be called, if any.
  What falls out of the backlog goes into the log of it.
\<close>

definition emitNotification :: "notification \<Rightarrow> server \<Rightarrow> nat option \<times> server" where
  "emitNotification n srv =
     (case avSink srv of
        None \<Rightarrow>
          (None, srv\<lparr>avBacklog := appendNotificationBacklog (avBacklog srv) n,
             avOverflowed := avOverflowed srv @ take (length (avBacklog srv) + 1 - maxNotificationBacklog) (avBacklog srv @ [n])\<rparr>)
      | Some conn \<Rightarrow> (Some conn, srv))"

definition event_kind :: "EventType \<Rightarrow> string" where
  "event_kind t =
     (case t of
        EventTaskCreated \<Rightarrow> ''task.created''
      | EventNodeStarted \<Rightarrow> ''node.started''
      | EventNodeProgress \<Rightarrow> ''node.progress''
      | EventNodeCompleted \<Rightarrow> ''node.completed''
      | EventNodeFailed \<Rightarrow> ''node.failed''
      | EventInputRequested \<Rightarrow> ''node.input_requested''
      | EventTaskCompleted \<Rightarrow> ''task.completed''
      | EventTaskFailed \<Rightarrow> ''task.failed''
      | EventCommandError \<Rightarrow> ''command.error'')"

text \<open>handleRuntimeEvent up to the call of the sink\<close>

definition handleRuntimeEvent ::
  "reading \<Rightarrow> string \<Rightarrow> RunEvent \<Rightarrow> server \<Rightarrow> (nat option \<times> notification) \<times> server" where
  "handleRuntimeEvent rd workspaceID ev srv =
     (let srv = recordLiveEvents workspaceID ev srv;
          (clientCommandID, srv) = claimPendingClientCommandID workspaceID ev srv;
          (n, srv) = newNotification rd (event_kind (EvType ev)) workspaceID (TaskPayload clientCommandID ev) srv;
          (sink, srv) = emitNotification n srv
      in ((sink, n), srv))"

definition attachClientSession :: "string \<Rightarrow> nat \<Rightarrow> server \<Rightarrow> notification list option \<times> server" where
  "attachClientSession sessionID conn srv =
     (if avActiveSessionID srv \<noteq> [] \<and> avActiveSessionID srv \<noteq> sessionID then (None, srv)
      else (Some (avBacklog srv), srv\<lparr>avActiveSessionID := sessionID, avConnectedClients := 1,
              avSink := Some conn, avBacklog := []\<rparr>))"

definition detachClientSession :: "string \<Rightarrow> server \<Rightarrow> server" where
  "detachClientSession sessionID srv =
     (if avActiveSessionID srv \<noteq> sessionID then srv
      else srv\<lparr>avActiveSessionID := [], avConnectedClients := 0, avSink := None\<rparr>)"

definition requestGracefulShutdown :: "server \<Rightarrow> server" where
  "requestGracefulShutdown srv = srv\<lparr>avGracefulStop := True, avShutdown := True\<rparr>"

section \<open>The methods (server.go, handleSessionRequest)\<close>

datatype stopMode = StopModeContinue | StopModeDrainAndExit | StopModeDrainAndShutdown

type_synonym handled = "(rpcError + result) \<times> notification list \<times> stopMode \<times> server"

abbreviation refuse :: "rpcError \<Rightarrow> server \<Rightarrow> handled" where
  "refuse err srv \<equiv> (Inl err, [], StopModeContinue, srv)"

abbreviation reply :: "result \<Rightarrow> server \<Rightarrow> handled" where
  "reply r srv \<equiv> (Inr r, [], StopModeContinue, srv)"

definition decodeParams :: "(string \<Rightarrow> string + 'a) \<Rightarrow> string \<Rightarrow> rpcError + 'a" where
  "decodeParams decoder raw =
     (case decoder (if raw = [] then ''{}'' else raw) of
        Inl msg \<Rightarrow> Inl (rpc_error ErrorCodeInvalidParams msg)
      | Inr params \<Rightarrow> Inr params)"

definition workspaceMissingRPCError :: "string \<Rightarrow> rpcError" where
  "workspaceMissingRPCError workspaceID =
     \<lparr>Code = ErrorCodeWorkspaceMissing, Message = ''workspace not found'', Data = Some workspaceID\<rparr>"

definition mapWorkspaceError :: "string \<Rightarrow> rpcError" where
  "mapWorkspaceError msg =
     rpc_error (if sublist ''workspace unavailable'' msg \<or> sublist ''path unavailable'' msg
                then ErrorCodeWorkspaceUnreachable else ErrorCodeInvalidParams) msg"

definition requireWorkspace :: "server \<Rightarrow> string \<Rightarrow> rpcError + workspaceRecord" where
  "requireWorkspace srv workspaceID =
     (let workspaceID = trim_space workspaceID
      in if workspaceID = [] then Inl (rpc_error ErrorCodeInvalidParams ''workspace_id is required'')
         else (case registry_Get (avRegistry srv) workspaceID of
                 None \<Rightarrow> Inl (workspaceMissingRPCError workspaceID)
               | Some workspace \<Rightarrow> Inr workspace))"

definition workspaceDTO :: "reading \<Rightarrow> server \<Rightarrow> workspaceRecord \<Rightarrow> workspaceSummaryDTO" where
  "workspaceDTO rd srv w =
     (let reachable = (rdStat rd (WsPath w) = Some True)
      in \<lparr>DtoRecord = w\<lparr>WsDisplayName := normalizedDisplayName (WsDisplayName w) (WsPath w)\<rparr>,
          DtoReachable = reachable, DtoWorktreeAvailable = (reachable \<and> rdWorktree rd (WsPath w)),
          DtoActor = snapshot srv (WsID w)\<rparr>)"

definition workspace_notification :: "reading \<Rightarrow> string \<Rightarrow> workspaceSummaryDTO \<Rightarrow> server \<Rightarrow> handled" where
  "workspace_notification rd kind dto srv =
     (let (n, srv) = newNotification rd kind (WsID (DtoRecord dto)) (WorkspacePayload dto) srv
      in (Inr (WorkspaceResult dto), [n], StopModeContinue, srv))"

definition do_workspaceAdd :: "codecs \<Rightarrow> reading \<Rightarrow> string \<Rightarrow> server \<Rightarrow> handled" where
  "do_workspaceAdd cd rd raw srv =
     (case decodeParams (dcAdd cd) raw of
        Inl err \<Rightarrow> refuse err srv
      | Inr params \<Rightarrow>
          (case registry_Add (rdWorkspaces rd) (rdStat rd) (rdNow rd) (rdUUID rd) (rdSaved rd)
                 (AddPath params) (AddDisplayName params) (avRegistry srv) of
             (Inl e, reg) \<Rightarrow> refuse (mapWorkspaceError (rdErrText rd e)) (srv\<lparr>avRegistry := reg\<rparr>)
           | (Inr (record, created), reg) \<Rightarrow>
               let srv = srv\<lparr>avRegistry := reg\<rparr>
               in workspace_notification rd (if created then ''workspace.added'' else ''workspace.updated'')
                    (workspaceDTO rd srv record) srv))"

definition do_workspaceUpdate :: "codecs \<Rightarrow> reading \<Rightarrow> string \<Rightarrow> server \<Rightarrow> handled" where
  "do_workspaceUpdate cd rd raw srv =
     (case decodeParams (dcUpdate cd) raw of
        Inl err \<Rightarrow> refuse err srv
      | Inr params \<Rightarrow>
          (case registry_Update (rdSaved rd) (trim_space (UpdWorkspaceID params)) (UpdDisplayName params) (avRegistry srv) of
             (Inl e, reg) \<Rightarrow>
               refuse (if e = WorkspaceNotExist then workspaceMissingRPCError (UpdWorkspaceID params)
                       else mapWorkspaceError (rdErrText rd e)) (srv\<lparr>avRegistry := reg\<rparr>)
           | (Inr record, reg) \<Rightarrow>
               let srv = srv\<lparr>avRegistry := reg\<rparr>
               in workspace_notification rd ''workspace.updated'' (workspaceDTO rd srv record) srv))"

definition do_workspaceRemove :: "codecs \<Rightarrow> reading \<Rightarrow> string \<Rightarrow> server \<Rightarrow> handled" where
  "do_workspaceRemove cd rd raw srv =
     (case decodeParams (dcWorkspaceID cd) raw of
        Inl err \<Rightarrow> refuse err srv
      | Inr given \<Rightarrow>
          let workspaceID = trim_space given
          in (case registry_Remove (rdSaved rd) workspaceID (avRegistry srv) of
                (Inl e, reg) \<Rightarrow> refuse (mapWorkspaceError (rdErrText rd e)) (srv\<lparr>avRegistry := reg\<rparr>)
              | (Inr removed, reg) \<Rightarrow>
                  if \<not> removed then refuse (workspaceMissingRPCError given) (srv\<lparr>avRegistry := reg\<rparr>)
                  else
                    (case runtimes_remove rd workspaceID (srv\<lparr>avRegistry := reg\<rparr>) of
                       (Some msg, srv) \<Rightarrow> refuse (rpc_error ErrorCodeInternalError msg) srv
                     | (None, srv) \<Rightarrow>
                         let (n, srv) = newNotification rd ''workspace.removed'' workspaceID RemovedPayload
                               (clearLiveOutputCache workspaceID srv)
                         in (Inr WorkspaceRemovedResult, [n], StopModeContinue, srv))))"

definition do_workspaceGet :: "codecs \<Rightarrow> reading \<Rightarrow> string \<Rightarrow> server \<Rightarrow> handled" where
  "do_workspaceGet cd rd raw srv =
     (case decodeParams (dcWorkspaceID cd) raw of
        Inl err \<Rightarrow> refuse err srv
      | Inr given \<Rightarrow>
          (case registry_Get (avRegistry srv) (trim_space given) of
             None \<Rightarrow> refuse (workspaceMissingRPCError given) srv
           | Some record \<Rightarrow> reply (WorkspaceResult (workspaceDTO rd srv record)) srv))"

text \<open>reconcileWorkspaceStale, with the two counts of running runs in the database\<close>

definition reconcileWorkspaceStale ::
  "(string \<Rightarrow> string) \<Rightarrow> reading \<Rightarrow> workspaceRecord \<Rightarrow> server \<Rightarrow> (rpcError + string) \<times> server" where
  "reconcileWorkspaceStale to_lower rd workspace srv =
     (if ActorState (snapshot srv (WsID workspace)) = ''active'' then (Inr workspaceReconcileOutcomeBusy, srv)
      else
        (case rdHasRunning rd of
           Inl err \<Rightarrow> (Inl err, srv)
         | Inr hasRunningRuns \<Rightarrow>
             if \<not> hasRunningRuns then (Inr workspaceReconcileOutcomeNoop, srv)
             else
               (case runtimes_reconcile to_lower rd workspace srv of
                  (Inl msg, srv) \<Rightarrow>
                    (if runtimeInstanceBusy to_lower msg then Inr workspaceReconcileOutcomeBusy
                     else Inl (rpc_error ErrorCodeInternalError msg), srv)
                | (Inr outcome, srv) \<Rightarrow>
                    if outcome \<noteq> workspaceReconcileOutcomeReconciled then (Inr outcome, srv)
                    else
                      (case rdHasRunningAgain rd of
                         Inl err \<Rightarrow> (Inl err, srv)
                       | Inr hasRunningRuns \<Rightarrow>
                           if \<not> hasRunningRuns \<and> ActorState (snapshot srv (WsID workspace)) = ''active''
                           then (case runtimes_remove rd (WsID workspace) srv of
                                   (Some msg, srv) \<Rightarrow> (Inl (rpc_error ErrorCodeInternalError msg), srv)
                                 | (None, srv) \<Rightarrow> (Inr outcome, srv))
                           else (Inr outcome, srv)))))"

definition do_workspaceReconcile :: "(string \<Rightarrow> string) \<Rightarrow> codecs \<Rightarrow> reading \<Rightarrow> string \<Rightarrow> server \<Rightarrow> handled" where
  "do_workspaceReconcile to_lower cd rd raw srv =
     (case decodeParams (dcWorkspaceID cd) raw of
        Inl err \<Rightarrow> refuse err srv
      | Inr given \<Rightarrow>
          (case requireWorkspace srv given of
             Inl err \<Rightarrow> refuse err srv
           | Inr workspace \<Rightarrow>
               (case reconcileWorkspaceStale to_lower rd workspace srv of
                  (Inl err, srv) \<Rightarrow> refuse err srv
                | (Inr outcome, srv) \<Rightarrow> reply (ReconcileResult outcome) srv)))"

text \<open>The end of every method that dispatches a command\<close>

definition dispatch_command ::
  "reading \<Rightarrow> string \<Rightarrow> workspaceRecord \<Rightarrow> string \<Rightarrow> RunCommand \<Rightarrow> server \<Rightarrow> handled" where
  "dispatch_command rd method workspace clientCommandID cmd srv =
     (case runtimes_dispatch rd workspace cmd
             (enqueuePendingClientCommand (WsID workspace) method clientCommandID cmd srv) of
        (Some msg, srv) \<Rightarrow> refuse (rpc_error ErrorCodeInternalError msg) srv
      | (None, srv) \<Rightarrow> reply (CommandAccepted clientCommandID) srv)"

definition do_taskStart :: "codecs \<Rightarrow> reading \<Rightarrow> string \<Rightarrow> server \<Rightarrow> handled" where
  "do_taskStart cd rd raw srv =
     (case decodeParams (dcStart cd) raw of
        Inl err \<Rightarrow> refuse err srv
      | Inr params \<Rightarrow>
          (case requireWorkspace srv (StartWorkspaceID params) of
             Inl err \<Rightarrow> refuse err srv
           | Inr workspace \<Rightarrow>
               if is_blank (StartConfigAlias params) then refuse (rpc_error ErrorCodeInvalidParams ''config_alias is required'') srv
               else if is_blank (StartConfigPath params) then refuse (rpc_error ErrorCodeInvalidParams ''config_path is required'') srv
               else dispatch_command rd ''task.start'' workspace (StartClientCommandID params)
                      (CommandStartTask (StartDescription params) (StartConfigAlias params) (StartConfigPath params)
                        (WsPath workspace) (StartUseWorktree params) (StartAttachments params)) srv))"

definition xorBlank :: "string list \<Rightarrow> bool" where
  "xorBlank values = (let blanks = length (filter is_blank values) in 0 < blanks \<and> blanks < length values)"

definition do_taskStartFollowUp :: "codecs \<Rightarrow> reading \<Rightarrow> string \<Rightarrow> server \<Rightarrow> handled" where
  "do_taskStartFollowUp cd rd raw srv =
     (case decodeParams (dcFollowUp cd) raw of
        Inl err \<Rightarrow> refuse err srv
      | Inr params \<Rightarrow>
          (case requireWorkspace srv (FollowWorkspaceID params) of
             Inl err \<Rightarrow> refuse err srv
           | Inr workspace \<Rightarrow>
               if is_blank (FollowParentTaskID params) then refuse (rpc_error ErrorCodeInvalidParams ''parent_task_id is required'') srv
               else if xorBlank [FollowConfigAlias params, FollowConfigPath params]
               then refuse (rpc_error ErrorCodeInvalidParams ''config_alias and config_path must be provided together'') srv
               else dispatch_command rd ''task.start_follow_up'' workspace (FollowClientCommandID params)
                      (CommandStartFollowUp (FollowParentTaskID params) (FollowDescription params)
                        (FollowConfigAlias params) (FollowConfigPath params) (FollowMode params)
                        (FollowAttachments params)) srv))"

definition do_taskSubmitInput :: "codecs \<Rightarrow> reading \<Rightarrow> string \<Rightarrow> server \<Rightarrow> handled" where
  "do_taskSubmitInput cd rd raw srv =
     (case decodeParams (dcSubmit cd) raw of
        Inl err \<Rightarrow> refuse err srv
      | Inr params \<Rightarrow>
          (case requireWorkspace srv (InputWorkspaceID params) of
             Inl err \<Rightarrow> refuse err srv
           | Inr workspace \<Rightarrow>
               if is_blank (InputTaskID params) then refuse (rpc_error ErrorCodeInvalidParams ''task_id is required'') srv
               else if is_blank (InputNodeRunID params) then refuse (rpc_error ErrorCodeInvalidParams ''node_run_id is required'') srv
               else dispatch_command rd ''task.submit_input'' workspace (InputClientCommandID params)
                      (CommandSubmitInput (InputTaskID params) (InputNodeRunID params)
                        (case InputPayload params of None \<Rightarrow> [] | Some m \<Rightarrow> m) (InputAttachments params)) srv))"

definition do_taskRetryNode :: "codecs \<Rightarrow> reading \<Rightarrow> string \<Rightarrow> server \<Rightarrow> handled" where
  "do_taskRetryNode cd rd raw srv =
     (case decodeParams (dcRetry cd) raw of
        Inl err \<Rightarrow> refuse err srv
      | Inr params \<Rightarrow>
          (case requireWorkspace srv (RetryWorkspaceID params) of
             Inl err \<Rightarrow> refuse err srv
           | Inr workspace \<Rightarrow>
               if is_blank (RetryTaskID params) then refuse (rpc_error ErrorCodeInvalidParams ''task_id is required'') srv
               else if is_blank (RetryNodeRunID params) then refuse (rpc_error ErrorCodeInvalidParams ''node_run_id is required'') srv
               else dispatch_command rd ''task.retry_node'' workspace (RetryClientCommandID params)
                      (CommandRetryNode (RetryTaskID params) (RetryNodeRunID params) (RetryForce params)) srv))"

definition do_taskContinueBlocked :: "codecs \<Rightarrow> reading \<Rightarrow> string \<Rightarrow> server \<Rightarrow> handled" where
  "do_taskContinueBlocked cd rd raw srv =
     (case decodeParams (dcContinue cd) raw of
        Inl err \<Rightarrow> refuse err srv
      | Inr params \<Rightarrow>
          (case requireWorkspace srv (ContWorkspaceID params) of
             Inl err \<Rightarrow> refuse err srv
           | Inr workspace \<Rightarrow>
               if is_blank (ContTaskID params) then refuse (rpc_error ErrorCodeInvalidParams ''task_id is required'') srv
               else dispatch_command rd ''task.continue_blocked'' workspace (ContClientCommandID params)
                      (CommandContinueBlocked (ContTaskID params)) srv))"

definition isRecoverableRunStatus :: "NodeRunStatus \<Rightarrow> bool" where
  "isRecoverableRunStatus status \<longleftrightarrow> status = NodeRunRunning \<or> status = NodeRunAwaitingUser"

definition classifyRecoveredRunOutcome :: "NodeRunStatus \<Rightarrow> string" where
  "classifyRecoveredRunOutcome status =
     (case status of
        NodeRunDone \<Rightarrow> ''recovered_done''
      | NodeRunFailed \<Rightarrow> ''recovered_failed''
      | NodeRunAwaitingUser \<Rightarrow> ''recovered_awaiting''
      | _ \<Rightarrow> ''still_open'')"

definition do_taskRecoverStale :: "codecs \<Rightarrow> reading \<Rightarrow> string \<Rightarrow> server \<Rightarrow> handled" where
  "do_taskRecoverStale cd rd raw srv =
     (case decodeParams (dcRecover cd) raw of
        Inl err \<Rightarrow> refuse err srv
      | Inr params \<Rightarrow>
          (case requireWorkspace srv (RecWorkspaceID params) of
             Inl err \<Rightarrow> refuse err srv
           | Inr workspace \<Rightarrow>
               let taskID = trim_space (RecTaskID params); nodeRunID = trim_space (RecNodeRunID params)
               in if taskID = [] then refuse (rpc_error ErrorCodeInvalidParams ''task_id is required'') srv
                  else if nodeRunID = [] then refuse (rpc_error ErrorCodeInvalidParams ''node_run_id is required'') srv
                  else
                    (case rdRun rd nodeRunID of
                       Inl err \<Rightarrow> refuse err srv
                     | Inr run \<Rightarrow>
                         if RunTaskID run \<noteq> taskID
                         then refuse (rpc_error ErrorCodeInvalidParams ''node run does not belong to task'') srv
                         else if \<not> isRecoverableRunStatus (Status run)
                         then reply (RecoverStaleResult ''already_terminal'') srv
                         else if ActorState (snapshot srv (WsID workspace)) = ''active''
                         then reply (RecoverStaleResult ''busy'') srv
                         else
                           (case ensure rd workspace srv of
                              (Inl msg, srv) \<Rightarrow> refuse (rpc_error ErrorCodeInternalError msg) srv
                            | (Inr actor, srv) \<Rightarrow>
                                (case rdRunAgain rd nodeRunID of
                                   Inl err \<Rightarrow> refuse err srv
                                 | Inr run \<Rightarrow>
                                     reply (RecoverStaleResult (classifyRecoveredRunOutcome (Status run))) srv)))))"

text \<open>
  The switch over the methods.  The methods of other_methods only read the stores of the workspaces,
  edit configurations or worktrees, or ask the daemon; their answers are readings.
\<close>

definition handlers :: "(string \<Rightarrow> string) \<Rightarrow> (string \<times> (codecs \<Rightarrow> reading \<Rightarrow> string \<Rightarrow> server \<Rightarrow> handled)) list" where
  "handlers to_lower =
     [(''service.status'', \<lambda>cd rd raw srv.
         reply (ServiceStatusResult (registry_Count (avRegistry srv)) (avConnectedClients srv)) srv),
      (''service.shutdown'', \<lambda>cd rd raw srv. (Inr ShutdownAccepted, [], StopModeDrainAndShutdown, srv)),
      (''workspace.list'', \<lambda>cd rd raw srv.
         reply (WorkspaceListResult (map (workspaceDTO rd srv) (rgWorkspaces (avRegistry srv)))) srv),
      (''workspace.add'', do_workspaceAdd),
      (''workspace.update'', do_workspaceUpdate),
      (''workspace.remove'', do_workspaceRemove),
      (''workspace.get'', do_workspaceGet),
      (''workspace.reconcile_stale'', do_workspaceReconcile to_lower),
      (''task.start'', do_taskStart),
      (''task.start_follow_up'', do_taskStartFollowUp),
      (''task.submit_input'', do_taskSubmitInput),
      (''task.retry_node'', do_taskRetryNode),
      (''task.continue_blocked'', do_taskContinueBlocked),
      (''task.recover_stale'', do_taskRecoverStale)]"

definition other_methods :: "string list" where
  "other_methods =
     [''workspace.git_status'', ''workspace.checkout_status'', ''workspace.file_diff'', ''workspace.commit_diff'',
      ''task.list'', ''task.get'', ''task.get_ancestry'', ''task.get_worktree_cleanup_info'', ''task.run_history'',
      ''task.run_history_full'', ''task.input_request'', ''task.cleanup_worktree'', ''artifact.list'',
      ''config.catalog'', ''config.get'', ''config.clone'', ''config.rename'', ''config.delete'', ''config.reset'',
      ''config.set_default'', ''config.set_builtin_runtimes'', ''config.validate'', ''config.save'',
      ''config.prompt.get'', ''config.prompt.save'', ''runtime.list'', ''runtime.status'', ''agentchat.rpc'']"

definition handle_method :: "(string \<Rightarrow> string) \<Rightarrow> codecs \<Rightarrow> reading \<Rightarrow> string \<Rightarrow> string \<Rightarrow> server \<Rightarrow> handled" where
  "handle_method to_lower cd rd method raw srv =
     (case map_of (handlers to_lower) method of
        Some handler \<Rightarrow> handler cd rd raw srv
      | None \<Rightarrow>
          if method \<in> set other_methods
          then (rdOther rd method raw, [], StopModeContinue, srv)
          else refuse (rpc_error ErrorCodeMethodNotFound ''method not found'') srv)"

section \<open>Connections (server.go, ServeConn)\<close>

datatype outgoing = Response string "rpcError + result" | Notify notification

text \<open>
  A connection: what its goroutine has yet to put into the outgoing channel, what went into it, and
  the stop mode of the last frame.  sesEnded is set when its loop is left and the session detached,
  sesClosed by closeOutgoing; sesFrames is a log of the frames read.
\<close>

record session =
  sesID :: string
  sesInitialized :: bool
  sesAttached :: bool
  sesPassive :: bool
  sesRequireAuth :: bool
  sesAuthToken :: string
  sesToSend :: "outgoing list"
  sesOutgoing :: "outgoing list"
  sesStop :: stopMode
  sesEnded :: bool
  sesClosed :: bool
  sesFrames :: "string list"

definition new_session :: "string \<Rightarrow> bool \<Rightarrow> string \<Rightarrow> session" where
  "new_session sid requireAuth authToken =
     \<lparr>sesID = sid, sesInitialized = False, sesAttached = False, sesPassive = False,
      sesRequireAuth = requireAuth, sesAuthToken = authToken, sesToSend = [], sesOutgoing = [],
      sesStop = StopModeContinue, sesEnded = False, sesClosed = False, sesFrames = []\<rparr>"

type_synonym request_handled = "(rpcError + result) \<times> notification list \<times> stopMode \<times> session \<times> server"

text \<open>The case of initialize\<close>

definition do_initialize :: "codecs \<Rightarrow> nat \<Rightarrow> string \<Rightarrow> session \<Rightarrow> server \<Rightarrow> request_handled" where
  "do_initialize cd conn raw ses srv =
     (case decodeParams (dcInitialize cd) raw of
        Inl err \<Rightarrow> (Inl err, [], StopModeContinue, ses, srv)
      | Inr params \<Rightarrow>
          if ProtocolVersion params \<noteq> protocolVersion
          then (Inl (rpc_error ErrorCodeInvalidParams ''unsupported protocol version''), [], StopModeContinue, ses, srv)
          else if sesRequireAuth ses \<and> trim_space (InitAuthToken params) \<noteq> trim_space (sesAuthToken ses)
          then (Inl (rpc_error ErrorCodeUnauthorized ''unauthorized''), [], StopModeContinue, ses, srv)
          else
            (let ses = ses\<lparr>sesPassive := InitPassive params\<rparr>
             in if sesPassive ses \<or> sesAttached ses
                then (Inr InitializeResult, [], StopModeContinue, ses\<lparr>sesInitialized := True\<rparr>, srv)
                else
                  (case attachClientSession (sesID ses) conn srv of
                     (None, srv) \<Rightarrow>
                       (Inl (rpc_error ErrorCodeBusy ''another app-server client is already connected''), [],
                        StopModeContinue, ses, srv)
                   | (Some backlog, srv) \<Rightarrow>
                       (Inr InitializeResult, backlog, StopModeContinue,
                        ses\<lparr>sesAttached := True, sesInitialized := True\<rparr>, srv))))"

definition handleSessionRequest ::
  "(string \<Rightarrow> string) \<Rightarrow> codecs \<Rightarrow> reading \<Rightarrow> nat \<Rightarrow> string \<Rightarrow> string \<Rightarrow> session \<Rightarrow> server \<Rightarrow> request_handled" where
  "handleSessionRequest to_lower cd rd conn method raw ses srv =
     (if sesPassive ses \<and> method \<noteq> ''initialize'' \<and> method \<noteq> ''service.status''
      then (Inl (rpc_error ErrorCodeBusy ''passive sessions only support service.status''), [], StopModeContinue, ses, srv)
      else if method = ''initialize'' then do_initialize cd conn raw ses srv
      else
        (case handle_method to_lower cd rd method raw srv of
           (r, notifications, stop, srv) \<Rightarrow> (r, notifications, stop, ses, srv)))"

definition requestIDOrNull :: "string \<Rightarrow> string" where
  "requestIDOrNull rid = (if rid = [] then ''null'' else rid)"

text \<open>What handleFrame puts into the channel, in order\<close>

definition handleFrame ::
  "(string \<Rightarrow> string) \<Rightarrow> codecs \<Rightarrow> reading \<Rightarrow> nat \<Rightarrow> string \<Rightarrow> session \<Rightarrow> server \<Rightarrow> outgoing list \<times> stopMode \<times> session \<times> server" where
  "handleFrame to_lower cd rd conn frame ses srv =
     (case dcMessage cd frame of
        None \<Rightarrow> ([Response ''null'' (Inl (rpc_error ErrorCodeParseError ''parse error''))], StopModeContinue, ses, srv)
      | Some msg \<Rightarrow>
          if MsgJSONRPC msg \<noteq> jsonRPCVersion
          then ([Response (requestIDOrNull (MsgID msg)) (Inl (rpc_error ErrorCodeInvalidRequest ''jsonrpc must be 2.0''))],
                StopModeContinue, ses, srv)
          else if isNotification msg then ([], StopModeContinue, ses, srv)
          else if \<not> isRequest msg
          then ([Response (requestIDOrNull (MsgID msg))
                  (Inl (rpc_error ErrorCodeInvalidRequest ''request must include method and id''))],
                StopModeContinue, ses, srv)
          else if \<not> sesInitialized ses \<and> MsgMethod msg \<noteq> ''initialize''
          then ([Response (requestIDOrNull (MsgID msg)) (Inl (rpc_error ErrorCodeNotInitialized ''server not initialized''))],
                StopModeContinue, ses, srv)
          else
            (case handleSessionRequest to_lower cd rd conn (MsgMethod msg) (MsgParams msg) ses srv of
               (r, notifications, stop, ses, srv) \<Rightarrow>
                 (Response (MsgID msg) r # map Notify notifications, stop, ses, srv)))"

section \<open>Interleavings\<close>

text \<open>
  The server with its connections, the notifications that goroutines of actors have read the sink
  for but not yet put into its channel (with the actor's number and the connection's), and a log of
  those that found the connection closed.
\<close>

record world =
  wServer :: server
  wSessions :: "session list"
  wSending :: "(nat \<times> nat \<times> notification) list"
  wDropped :: "(nat \<times> notification) list"

definition start_server :: "registry \<Rightarrow> server" where
  "start_server reg =
     \<lparr>avRegistry = reg, avActors = [], avConnectedClients = 0, avActiveSessionID = [], avPending = [],
      avSink = None, avLive = [], avBacklog = [], avShutdown = False, avGracefulStop = False,
      avCreated = [], avOverflowed = [], avEnqueued = [], avClaimed = [], avStarted = []\<rparr>"

definition start_world :: "registry \<Rightarrow> world" where
  "start_world reg = \<lparr>wServer = start_server reg, wSessions = [], wSending = [], wDropped = []\<rparr>"

definition set_session :: "nat \<Rightarrow> session \<Rightarrow> world \<Rightarrow> world" where
  "set_session conn ses w = w\<lparr>wSessions := (wSessions w)[conn := ses]\<rparr>"

text \<open>A turn of the loop of ServeConn up to the first enqueueJSON\<close>

definition read_frame :: "(string \<Rightarrow> string) \<Rightarrow> codecs \<Rightarrow> reading \<Rightarrow> nat \<Rightarrow> string \<Rightarrow> world \<Rightarrow> world" where
  "read_frame to_lower cd rd conn frame w =
     (case handleFrame to_lower cd rd conn frame (wSessions w ! conn) (wServer w) of
        (outs, stop, ses, srv) \<Rightarrow>
          set_session conn (ses\<lparr>sesToSend := outs, sesStop := stop, sesFrames := sesFrames ses @ [frame]\<rparr>)
            (w\<lparr>wServer := srv\<rparr>))"

text \<open>enqueueJSON\<close>

definition send_next :: "nat \<Rightarrow> world \<Rightarrow> world" where
  "send_next conn w =
     (let ses = wSessions w ! conn
      in set_session conn (ses\<lparr>sesOutgoing := sesOutgoing ses @ [hd (sesToSend ses)], sesToSend := tl (sesToSend ses)\<rparr>) w)"

text \<open>The loop is left, and the deferred function detaches the session.\<close>

definition leave_loop :: "nat \<Rightarrow> world \<Rightarrow> world" where
  "leave_loop conn w =
     (let ses = wSessions w ! conn
      in set_session conn (ses\<lparr>sesEnded := True\<rparr>)
           (w\<lparr>wServer := (if sesAttached ses then detachClientSession (sesID ses) (wServer w) else wServer w)\<rparr>))"

text \<open>closeOutgoing and the rest of the deferred function\<close>

definition close_outgoing :: "nat \<Rightarrow> world \<Rightarrow> world" where
  "close_outgoing conn w =
     (let ses = wSessions w ! conn
      in set_session conn (ses\<lparr>sesClosed := True\<rparr>)
           (w\<lparr>wServer := (if sesStop ses = StopModeDrainAndShutdown then requestGracefulShutdown (wServer w) else wServer w)\<rparr>))"

text \<open>An actor's goroutine takes an event of its service, up to the call of the sink.\<close>

definition forward_event :: "reading \<Rightarrow> nat \<Rightarrow> RunEvent \<Rightarrow> world \<Rightarrow> world" where
  "forward_event rd actor ev w =
     (case handleRuntimeEvent rd (avStarted (wServer w) ! actor) ev (wServer w) of
        ((None, n), srv) \<Rightarrow> w\<lparr>wServer := srv\<rparr>
      | ((Some conn, n), srv) \<Rightarrow> w\<lparr>wServer := srv, wSending := wSending w @ [(actor, conn, n)]\<rparr>)"

text \<open>enqueueNotification, for the i-th of the notifications under way\<close>

definition deliver :: "nat \<Rightarrow> world \<Rightarrow> world" where
  "deliver i w =
     (case wSending w ! i of
        (actor, conn, n) \<Rightarrow>
          (let ses = wSessions w ! conn; w = w\<lparr>wSending := take i (wSending w) @ drop (Suc i) (wSending w)\<rparr>
           in if sesClosed ses then w\<lparr>wDropped := wDropped w @ [(conn, n)]\<rparr>
              else set_session conn (ses\<lparr>sesOutgoing := sesOutgoing ses @ [Notify n]\<rparr>) w))"

text \<open>
  The steps.  An actor's goroutine handles one event after the other; after its context is cancelled
  it may still take events, so that it is never taken away here.
\<close>

inductive app_step :: "(string \<Rightarrow> string) \<Rightarrow> codecs \<Rightarrow> world \<Rightarrow> world \<Rightarrow> bool" for to_lower cd where
  open_step: "sid \<noteq> [] \<Longrightarrow> sid \<notin> sesID ` set (wSessions w) \<Longrightarrow>
    app_step to_lower cd w (w\<lparr>wSessions := wSessions w @ [new_session sid requireAuth authToken]\<rparr>)"
| read_step: "conn < length (wSessions w) \<Longrightarrow> \<not> sesEnded (wSessions w ! conn) \<Longrightarrow>
    sesToSend (wSessions w ! conn) = [] \<Longrightarrow> sesStop (wSessions w ! conn) = StopModeContinue \<Longrightarrow>
    app_step to_lower cd w (read_frame to_lower cd rd conn frame w)"
| send_step: "conn < length (wSessions w) \<Longrightarrow> sesToSend (wSessions w ! conn) \<noteq> [] \<Longrightarrow>
    app_step to_lower cd w (send_next conn w)"
| leave_step: "conn < length (wSessions w) \<Longrightarrow> \<not> sesEnded (wSessions w ! conn) \<Longrightarrow>
    sesToSend (wSessions w ! conn) = [] \<Longrightarrow> app_step to_lower cd w (leave_loop conn w)"
| close_step: "conn < length (wSessions w) \<Longrightarrow> sesEnded (wSessions w ! conn) \<Longrightarrow>
    \<not> sesClosed (wSessions w ! conn) \<Longrightarrow> app_step to_lower cd w (close_outgoing conn w)"
| event_step: "actor < length (avStarted (wServer w)) \<Longrightarrow> actor \<notin> fst ` set (wSending w) \<Longrightarrow>
    app_step to_lower cd w (forward_event rd actor ev w)"
| deliver_step: "i < length (wSending w) \<Longrightarrow> app_step to_lower cd w (deliver i w)"
| actor_end_step: "app_step to_lower cd w (w\<lparr>wServer := runActor_end actor err (wServer w)\<rparr>)"

inductive app_reaches :: "(string \<Rightarrow> string) \<Rightarrow> codecs \<Rightarrow> registry \<Rightarrow> world \<Rightarrow> bool" for to_lower cd reg where
  app_start: "app_reaches to_lower cd reg (start_world reg)"
| app_next: "app_reaches to_lower cd reg w \<Longrightarrow> app_step to_lower cd w w' \<Longrightarrow> app_reaches to_lower cd reg w'"

end
