(* ===== verification/Clients.thy ===== *)
theory Clients
  imports AppServer
begin

text \<open>
  What holds of the app server in every state that clients, runtimes and their goroutines can bring
  it to: which connection gets the notifications, who may send requests, where every notification is,
  and which event a client's command is acknowledged with.
\<close>

section \<open>What a method leaves alone\<close>

definition acknowledges :: "notification \<Rightarrow> bool" where
  "acknowledges n = (case NtPayload n of TaskPayload clientCommandID _ \<Rightarrow> clientCommandID \<noteq> [] | _ \<Rightarrow> False)"

definition live_bounded :: "server \<Rightarrow> bool" where
  "live_bounded srv \<longleftrightarrow> 
     (\<forall>ws cache task snap. (ws, cache) \<in> set (avLive srv) \<longrightarrow> (task, snap) \<in> set cache \<longrightarrow> length (LiveEvents snap) \<le> 200)"

definition actors_ok :: "server \<Rightarrow> bool" where
  "actors_ok srv \<longleftrightarrow> map_ok (avActors srv) \<and>
     (\<forall>ws a. (ws, a) \<in> set (avActors srv) \<longrightarrow> acNo a < length (avStarted srv) \<and> avStarted srv ! acNo a = ws)"

definition same_clients :: "server \<Rightarrow> server \<Rightarrow> bool" where
  "same_clients srv srv' \<longleftrightarrow> avConnectedClients srv' = avConnectedClients srv \<and>
     avActiveSessionID srv' = avActiveSessionID srv \<and> avSink srv' = avSink srv \<and>
     avBacklog srv' = avBacklog srv \<and> avOverflowed srv' = avOverflowed srv \<and> avClaimed srv' = avClaimed srv"

text \<open>A method that makes the notifications ns\<close>

definition tame :: "notification list \<Rightarrow> server \<Rightarrow> server \<Rightarrow> bool" where
  "tame ns srv srv' \<longleftrightarrow> same_clients srv srv' \<and> avCreated srv' = avCreated srv @ ns \<and>
     (\<forall>n\<in>set ns. \<not> acknowledges n) \<and>
     (\<exists>ps. avPending srv' = avPending srv @ ps \<and> avEnqueued srv' = avEnqueued srv @ ps \<and>
        (\<forall>p\<in>set ps. pcClientCommandID p \<noteq> [])) \<and>
     (\<exists>ss. avStarted srv' = avStarted srv @ ss) \<and>
     (live_bounded srv \<longrightarrow> live_bounded srv') \<and> (actors_ok srv \<longrightarrow> actors_ok srv')"

named_theorems tame_intros

lemma tame_refl [tame_intros]: "tame [] srv srv"
  by (simp add: tame_def same_clients_def)

lemma tame_trans: "tame ns a b \<Longrightarrow> tame ms b c \<Longrightarrow> tame (ns @ ms) a c"
  by (auto simp: tame_def same_clients_def)

lemma tame_then: "tame [] a b \<Longrightarrow> tame ms b c \<Longrightarrow> tame ms a c"
  using tame_trans [of "[]" a b ms c] by simp

lemma tame_registry [tame_intros]: "tame [] srv (srv\<lparr>avRegistry := reg\<rparr>)"
  by (simp add: tame_def same_clients_def live_bounded_def actors_ok_def)

lemma tame_enqueue: "tame [] srv (enqueuePendingClientCommand ws method cid cmd srv)"
  by (simp add: enqueuePendingClientCommand_def tame_def same_clients_def live_bounded_def actors_ok_def Let_def)

lemma set_map_del: "set (map_del k m) \<subseteq> set m"
  by (auto simp: map_del_def)

lemma set_map_put: "set (map_put k v m) \<subseteq> insert (k, v) (set m)"
  by (induction k v m rule: map_put.induct) auto

lemma tame_del_actor [tame_intros]: "tame [] srv (srv\<lparr>avActors := map_del ws (avActors srv)\<rparr>)"
  using set_map_del [of ws "avActors srv"]
  by (auto simp: tame_def same_clients_def live_bounded_def actors_ok_def map_ok_del)

lemma tame_put_actor:
  assumes "actors_ok srv \<Longrightarrow> acNo a < length (avStarted srv) \<and> avStarted srv ! acNo a = ws"
  shows "tame [] srv (srv\<lparr>avActors := map_put ws a (avActors srv)\<rparr>)"
  using assms set_map_put [of ws a "avActors srv"]
  by (auto simp: tame_def same_clients_def live_bounded_def actors_ok_def map_ok_put)

lemma tame_new_actor:
  assumes "acNo a = length (avStarted srv)"
  shows "tame [] srv (srv\<lparr>avActors := map_put ws a (avActors srv), avStarted := avStarted srv @ [ws]\<rparr>)"
proof -
  have "actors_ok (srv\<lparr>avActors := map_put ws a (avActors srv), avStarted := avStarted srv @ [ws]\<rparr>)" if "actors_ok srv"
    using that assms set_map_put [of ws a "avActors srv"]
    by (fastforce simp: actors_ok_def map_ok_put nth_append)
  then show ?thesis by (simp add: tame_def same_clients_def live_bounded_def)
qed

lemma tame_active: "tame [] srv (snd (activeOrDetachedActor ws srv))"
  by (auto simp: activeOrDetachedActor_def intro: tame_intros split: option.split)

lemma ensured:
  assumes "ensure rd workspace srv = (r, srv')"
  shows "tame [] srv srv'"
    "\<And>a. r = Inr a \<Longrightarrow> actors_ok srv \<Longrightarrow> acNo a < length (avStarted srv') \<and> avStarted srv' ! acNo a = WsID workspace"
proof -
  obtain o1 s1 where a: "activeOrDetachedActor (WsID workspace) srv = (o1, s1)" by fastforce
  have t: "tame [] srv s1" using tame_active [of srv "WsID workspace"] a by simp
  show "tame [] srv srv'"
    using assms a t
    by (auto simp: ensure_def Let_def split: prod.splits option.splits intro: tame_then [OF t tame_new_actor])
  fix actor assume "r = Inr actor" "actors_ok srv"
  then show "acNo actor < length (avStarted srv') \<and> avStarted srv' ! acNo actor = WsID workspace"
    using assms a
    by (auto simp: ensure_def Let_def activeOrDetachedActor_def actors_ok_def nth_append
        split: prod.splits option.splits if_splits dest!: map_of_SomeD)
qed

lemma tame_actors:
  "tame [] a b \<Longrightarrow> (actors_ok a \<Longrightarrow> actors_ok (b\<lparr>avActors := as\<rparr>)) \<Longrightarrow> tame [] a (b\<lparr>avActors := as\<rparr>)"
  by (auto simp: tame_def same_clients_def live_bounded_def)

lemma tame_dispatch:
  assumes "runtimes_dispatch rd workspace cmd srv = (r, srv')"
  shows "tame [] srv srv'"
proof -
  obtain e s1 where e: "ensure rd workspace srv = (e, s1)" by fastforce
  note t = ensured [OF e]
  show ?thesis
  proof (cases e)
    case (Inl err)
    then show ?thesis using assms e t(1) by (simp add: runtimes_dispatch_def)
  next
    case (Inr a)
    have "actors_ok (s1\<lparr>avActors := map_put (WsID workspace) (a\<lparr>acDispatched := acDispatched a @ [cmd]\<rparr>) (avActors s1)\<rparr>)"
      if "actors_ok srv"
      using t(1) t(2) [OF Inr that] that set_map_put [of "WsID workspace" "a\<lparr>acDispatched := acDispatched a @ [cmd]\<rparr>" "avActors s1"]
      by (auto simp: tame_def actors_ok_def map_ok_put)
    then show ?thesis using assms e Inr t(1) by (auto simp: runtimes_dispatch_def intro: tame_actors)
  qed
qed

lemma tame_remove: "runtimes_remove rd ws srv = (r, srv') \<Longrightarrow> tame [] srv srv'"
  by (auto simp: runtimes_remove_def intro: tame_intros split: if_splits)

lemma tame_reconcile:
  assumes "runtimes_reconcile to_lower rd workspace srv = (r, srv')"
  shows "tame [] srv srv'"
proof -
  obtain a s1 where a: "activeOrDetachedActor (WsID workspace) srv = (a, s1)" by fastforce
  have t: "tame [] srv s1" using tame_active [of srv "WsID workspace"] a by simp
  obtain e s2 where e: "ensure rd workspace s1 = (e, s2)" by fastforce
  have "tame [] srv s2" using tame_then [OF t ensured(1) [OF e]] .
  then show ?thesis
    using assms a t e by (auto simp: runtimes_reconcile_def split: prod.splits option.splits sum.splits if_splits)
qed

lemma tame_stale:
  assumes "reconcileWorkspaceStale to_lower rd workspace srv = (r, srv')"
  shows "tame [] srv srv'"
proof -
  obtain o1 s1 where o1: "runtimes_reconcile to_lower rd workspace srv = (o1, s1)" by fastforce
  obtain o2 s2 where o2: "runtimes_remove rd (WsID workspace) s1 = (o2, s2)" by fastforce
  note t = tame_reconcile [OF o1]
  have "tame [] srv s2" using tame_then [OF t tame_remove [OF o2]] .
  then show ?thesis
    using assms o1 o2 t tame_refl [of srv]
    by (auto simp: reconcileWorkspaceStale_def split: sum.splits option.splits if_splits)
qed

lemma tame_clear [tame_intros]: "tame [] srv (clearLiveOutputCache ws srv)"
  using set_map_del [of ws "avLive srv"]
  by (auto simp: tame_def same_clients_def live_bounded_def actors_ok_def clearLiveOutputCache_def)

lemma tame_new:
  "newNotification rd kind ws p srv = (n, srv') \<Longrightarrow> (\<And>cid ev. p \<noteq> TaskPayload cid ev) \<Longrightarrow> tame [n] srv srv'"
  by (cases p) (auto simp: newNotification_def tame_def same_clients_def acknowledges_def live_bounded_def actors_ok_def Let_def)

definition tame_handled :: "server \<Rightarrow> handled \<Rightarrow> bool" where
  "tame_handled srv h = (case h of (r, ns, stop, srv') \<Rightarrow> tame ns srv srv')"

lemma tame_answer [tame_intros]: "tame [] srv srv' \<Longrightarrow> tame_handled srv (r, [], stop, srv')"
  by (simp add: tame_handled_def)

lemma tame_sum [tame_intros]:
  assumes "\<And>e. x = Inl e \<Longrightarrow> tame_handled srv (f e)" "\<And>v. x = Inr v \<Longrightarrow> tame_handled srv (g v)"
  shows "tame_handled srv (case x of Inl e \<Rightarrow> f e | Inr v \<Rightarrow> g v)"
  using assms by (cases x) simp_all

lemma tame_if [tame_intros]:
  "tame_handled srv h \<Longrightarrow> tame_handled srv h' \<Longrightarrow> tame_handled srv (if c then h else h')"
  by simp

lemma tame_told:
  assumes "newNotification rd kind ws p s = (n, s')" "tame [] srv s" "\<And>cid ev. p \<noteq> TaskPayload cid ev"
  shows "tame_handled srv (r, [n], stop, s')"
  using tame_then [OF assms(2) tame_new [OF assms(1,3)]] by (simp add: tame_handled_def)

lemma tame_notified: "tame [] srv s \<Longrightarrow> tame_handled srv (workspace_notification rd kind dto s)"
  by (auto simp: workspace_notification_def Let_def intro: tame_told split: prod.split)

lemma tame_dispatched [tame_intros]: "tame_handled srv (dispatch_command rd method workspace cid cmd srv)"
proof -
  let ?s = "enqueuePendingClientCommand (WsID workspace) method cid cmd srv"
  obtain r s' where d: "runtimes_dispatch rd workspace cmd ?s = (r, s')" by fastforce
  then show ?thesis
    using tame_then [OF tame_enqueue tame_dispatch [OF d]]
    by (cases r) (auto simp: dispatch_command_def intro: tame_intros)
qed

lemma tame_workspaceAdd: "tame_handled srv (do_workspaceAdd cd rd raw srv)"
  unfolding do_workspaceAdd_def Let_def
  by (auto intro!: tame_sum tame_answer tame_notified intro: tame_intros split: prod.split sum.split)

lemma tame_workspaceUpdate: "tame_handled srv (do_workspaceUpdate cd rd raw srv)"
  unfolding do_workspaceUpdate_def Let_def
  by (auto intro!: tame_sum tame_answer tame_notified intro: tame_intros split: prod.split sum.split)

lemma tame_workspaceRemove: "tame_handled srv (do_workspaceRemove cd rd raw srv)"
proof -
  have "tame_handled srv
      (case runtimes_remove rd ws (srv\<lparr>avRegistry := reg\<rparr>) of
         (Some msg, s) \<Rightarrow> refuse (rpc_error ErrorCodeInternalError msg) s
       | (None, s) \<Rightarrow>
           let (n, s') = newNotification rd ''workspace.removed'' ws RemovedPayload (clearLiveOutputCache ws s)
           in (Inr WorkspaceRemovedResult, [n], StopModeContinue, s'))" for ws reg
  proof -
    obtain r s where r: "runtimes_remove rd ws (srv\<lparr>avRegistry := reg\<rparr>) = (r, s)" by fastforce
    have t: "tame [] srv s" using tame_then [OF tame_registry tame_remove [OF r]] .
    obtain n s' where n: "newNotification rd ''workspace.removed'' ws RemovedPayload (clearLiveOutputCache ws s) = (n, s')"
      by fastforce
    show ?thesis
      using r n t tame_told [OF n tame_then [OF t tame_clear]] by (cases r) (simp_all add: tame_answer)
  qed
  then show ?thesis
    unfolding do_workspaceRemove_def Let_def
    by (auto intro!: tame_sum tame_answer intro: tame_intros simp del: split_paired_All split: prod.split_asm sum.split prod.split)
qed

lemma tame_workspaceGet: "tame_handled srv (do_workspaceGet cd rd raw srv)"
  unfolding do_workspaceGet_def by (auto intro!: tame_intros split: option.split)

lemma tame_workspaceReconcile: "tame_handled srv (do_workspaceReconcile to_lower cd rd raw srv)"
  unfolding do_workspaceReconcile_def
  by (auto intro!: tame_sum tame_answer tame_refl intro: tame_stale split: prod.split sum.split)

lemma tame_taskStart: "tame_handled srv (do_taskStart cd rd raw srv)"
  unfolding do_taskStart_def by (intro tame_intros)

lemma tame_taskStartFollowUp: "tame_handled srv (do_taskStartFollowUp cd rd raw srv)"
  unfolding do_taskStartFollowUp_def by (intro tame_intros)

lemma tame_taskSubmitInput: "tame_handled srv (do_taskSubmitInput cd rd raw srv)"
  unfolding do_taskSubmitInput_def by (intro tame_intros)

lemma tame_taskRetryNode: "tame_handled srv (do_taskRetryNode cd rd raw srv)"
  unfolding do_taskRetryNode_def by (intro tame_intros)

lemma tame_taskContinueBlocked: "tame_handled srv (do_taskContinueBlocked cd rd raw srv)"
  unfolding do_taskContinueBlocked_def by (intro tame_intros)

lemma tame_taskRecoverStale: "tame_handled srv (do_taskRecoverStale cd rd raw srv)"
  unfolding do_taskRecoverStale_def Let_def
  by (auto intro!: tame_sum tame_if tame_answer tame_refl intro: ensured(1) split: prod.split sum.split)

lemma handlers_tame: "(method, handler) \<in> set (handlers to_lower) \<Longrightarrow> tame_handled srv (handler cd rd raw srv)"
  unfolding handlers_def
  by (auto intro: tame_workspaceAdd tame_workspaceUpdate tame_workspaceRemove tame_workspaceGet
      tame_workspaceReconcile tame_taskStart tame_taskStartFollowUp tame_taskSubmitInput tame_taskRetryNode
      tame_taskContinueBlocked tame_taskRecoverStale tame_answer tame_refl)

lemma tame_method: "tame_handled srv (handle_method to_lower cd rd method raw srv)"
  unfolding handle_method_def
  by (auto intro: tame_answer tame_refl handlers_tame [OF map_of_SomeD] split: option.split)

section \<open>What a frame does\<close>

fun notice_of :: "outgoing \<Rightarrow> notification list" where
  "notice_of (Response rid r) = []"
| "notice_of (Notify n) = [n]"

abbreviation notices :: "outgoing list \<Rightarrow> notification list" where
  "notices outs \<equiv> concat (map notice_of outs)"

lemma notices_Notify [simp]: "concat (map (notice_of \<circ> Notify) ns) = ns"
  by (induction ns) simp_all

text \<open>A frame that starts the session: an initialize of this version with the session's token\<close>

definition starts_session :: "codecs \<Rightarrow> session \<Rightarrow> string \<Rightarrow> bool" where
  "starts_session cd ses frame \<longleftrightarrow> (\<exists>msg params. dcMessage cd frame = Some msg \<and> MsgMethod msg = ''initialize'' \<and>
     decodeParams (dcInitialize cd) (MsgParams msg) = Inr params \<and> ProtocolVersion params = protocolVersion \<and>
     (sesRequireAuth ses \<longrightarrow> trim_space (InitAuthToken params) = trim_space (sesAuthToken ses)))"

lemma handleFrame_cases:
  assumes "handleFrame to_lower cd rd conn frame ses srv = (outs, stop, ses', srv')"
  obtains (refused) p where "ses' = ses\<lparr>sesPassive := p\<rparr>" "srv' = srv" "notices outs = []"
  | (started) p where "starts_session cd ses frame" "ses' = ses\<lparr>sesPassive := p, sesInitialized := True\<rparr>" "srv' = srv"
      "notices outs = []"
  | (attached) p where "starts_session cd ses frame" "\<not> sesAttached ses"
      "attachClientSession (sesID ses) conn srv = (Some (notices outs), srv')"
      "ses' = ses\<lparr>sesPassive := p, sesAttached := True, sesInitialized := True\<rparr>"
  | (handled) "sesInitialized ses" "ses' = ses" "tame (notices outs) srv srv'"
proof (cases "\<exists>msg. dcMessage cd frame = Some msg \<and> MsgJSONRPC msg = jsonRPCVersion \<and> isRequest msg \<and>
    (sesInitialized ses \<or> MsgMethod msg = ''initialize'')")
  case False
  then have "ses' = ses \<and> srv' = srv \<and> notices outs = []"
    using assms by (auto simp: handleFrame_def split: option.splits if_splits)
  then show thesis using refused [of "sesPassive ses"] by simp
next
  case True
  then obtain msg where m: "dcMessage cd frame = Some msg" "MsgJSONRPC msg = jsonRPCVersion" "isRequest msg"
    "sesInitialized ses \<or> MsgMethod msg = ''initialize''" by blast
  then have "\<not> isNotification msg" by (simp add: isRequest_def isNotification_def)
  obtain r ns where h: "handleSessionRequest to_lower cd rd conn (MsgMethod msg) (MsgParams msg) ses srv = (r, ns, stop, ses', srv')"
    and ns: "notices outs = ns"
    using assms m \<open>\<not> isNotification msg\<close> by (auto simp: handleFrame_def split: prod.splits)
  show thesis
  proof (cases "MsgMethod msg = ''initialize''")
    case True
    then have i: "do_initialize cd conn (MsgParams msg) ses srv = (r, ns, stop, ses', srv')"
      using h by (simp add: handleSessionRequest_def)
    show thesis
    proof (cases "decodeParams (dcInitialize cd) (MsgParams msg)")
      case (Inl e)
      then show thesis using i refused [of "sesPassive ses"] ns by (simp add: do_initialize_def)
    next
      case (Inr params)
      show thesis
      proof (cases "ProtocolVersion params = protocolVersion \<and>
          (sesRequireAuth ses \<longrightarrow> trim_space (InitAuthToken params) = trim_space (sesAuthToken ses))")
        case False
        then show thesis using i Inr refused [of "sesPassive ses"] ns
          by (auto simp: do_initialize_def split: if_splits)
      next
        case ok: True
        then have s: "starts_session cd ses frame" using m(1) \<open>MsgMethod msg = _\<close> Inr by (auto simp: starts_session_def)
        have "\<not> (sesRequireAuth ses \<and> trim_space (InitAuthToken params) \<noteq> trim_space (sesAuthToken ses))" using ok by blast
        note i = i [unfolded do_initialize_def Inr sum.case if_not_P [OF this] if_not_P [OF iffD2 [OF not_not conjunct1 [OF ok]]] Let_def]
        consider "InitPassive params \<or> sesAttached ses"
          | b s where "\<not> InitPassive params" "\<not> sesAttached ses" "attachClientSession (sesID ses) conn srv = (b, s)"
          by (cases "attachClientSession (sesID ses) conn srv") auto
        then show thesis
        proof cases
          case 1
          then show thesis using i ns started [OF s, of "InitPassive params"] by simp
        next
          case 2
          then show thesis
            using i ns refused [of "InitPassive params"] attached [OF s, of "InitPassive params"]
            by (cases b) (simp_all add: attachClientSession_def split: if_splits)
        qed
      qed
    qed
  next
    case False
    show thesis
    proof (cases "sesPassive ses \<and> MsgMethod msg \<noteq> ''service.status''")
      case True
      then show thesis using h False refused [of "sesPassive ses"] ns by (simp add: handleSessionRequest_def)
    next
      case pass: False
      then have "tame_handled srv (r, ns, stop, srv')"
        using h False tame_method [of srv to_lower cd rd "MsgMethod msg" "MsgParams msg"]
        by (auto simp: handleSessionRequest_def split: prod.splits)
      moreover have "ses' = ses" using h False pass by (auto simp: handleSessionRequest_def split: prod.splits)
      ultimately show thesis using handled m(4) False ns by (simp add: tame_handled_def)
    qed
  qed
qed

section \<open>The connected client\<close>

definition live :: "session \<Rightarrow> bool" where
  "live ses \<longleftrightarrow> sesAttached ses \<and> \<not> sesEnded ses"

definition sink_ok :: "server \<Rightarrow> session list \<Rightarrow> bool" where
  "sink_ok srv sss =
     (case avSink srv of
        None \<Rightarrow> avActiveSessionID srv = [] \<and> avConnectedClients srv = 0 \<and> (\<forall>i<length sss. \<not> live (sss ! i))
      | Some c \<Rightarrow> c < length sss \<and> live (sss ! c) \<and> avActiveSessionID srv = sesID (sss ! c) \<and>
          avConnectedClients srv = 1 \<and> avBacklog srv = [] \<and> (\<forall>i<length sss. live (sss ! i) \<longrightarrow> i = c))"

definition clients_ok :: "world \<Rightarrow> bool" where
  "clients_ok w \<longleftrightarrow> distinct (map sesID (wSessions w)) \<and> [] \<notin> sesID ` set (wSessions w) \<and>
     sink_ok (wServer w) (wSessions w) \<and>
     (\<forall>a c n. (a, c, n) \<in> set (wSending w) \<longrightarrow> c < length (wSessions w)) \<and>
     (\<forall>c n. (c, n) \<in> set (wDropped w) \<longrightarrow> c < length (wSessions w) \<and> sesClosed (wSessions w ! c))"

lemma map_update_same: "f y = f (xs ! i) \<Longrightarrow> map f (xs[i := y]) = map f xs"
  by (cases "i < length xs") (simp_all add: map_update list_update_same_conv list_update_beyond)

lemma sink_cong:
  assumes "sink_ok srv sss" "live s = live (sss ! c)" "sesID s = sesID (sss ! c)"
    "avActiveSessionID srv' = avActiveSessionID srv" "avConnectedClients srv' = avConnectedClients srv"
    "avSink srv' = avSink srv" "avSink srv \<noteq> None \<Longrightarrow> avBacklog srv' = avBacklog srv"
  shows "sink_ok srv' (sss[c := s])"
proof -
  have "live (sss[c := s] ! i) = live (sss ! i) \<and> sesID (sss[c := s] ! i) = sesID (sss ! i)" if "i < length sss" for i
    using that assms(2,3) by (cases "c = i") simp_all
  then show ?thesis
    using assms(1,4-7) by (cases "avSink srv") (simp_all add: sink_ok_def)
qed

lemma clients_update:
  assumes "clients_ok w" "c < length (wSessions w)" "sesID s = sesID (wSessions w ! c)"
    "sink_ok srv ((wSessions w)[c := s])" "sesClosed (wSessions w ! c) \<Longrightarrow> sesClosed s"
  shows "clients_ok (set_session c s (w\<lparr>wServer := srv\<rparr>))"
proof -
  have ids: "map sesID ((wSessions w)[c := s]) = map sesID (wSessions w)"
    using assms(3) by (rule map_update_same)
  then have "sesID ` set ((wSessions w)[c := s]) = sesID ` set (wSessions w)" by (metis list.set_map)
  then show ?thesis
    using assms ids by (auto simp: clients_ok_def set_session_def nth_list_update)
qed

lemma live_simps [simp]:
  "live (s\<lparr>sesPassive := p\<rparr>) = live s" "live (s\<lparr>sesInitialized := b\<rparr>) = live s" "live (s\<lparr>sesToSend := os\<rparr>) = live s"
  "live (s\<lparr>sesOutgoing := os\<rparr>) = live s" "live (s\<lparr>sesStop := m\<rparr>) = live s" "live (s\<lparr>sesFrames := fs\<rparr>) = live s"
  "live (s\<lparr>sesClosed := b\<rparr>) = live s" "live (s\<lparr>sesAttached := b\<rparr>) = (b \<and> \<not> sesEnded s)"
  "live (s\<lparr>sesEnded := b\<rparr>) = (sesAttached s \<and> \<not> b)"
  by (simp_all add: live_def)

lemma sink_attach:
  assumes "clients_ok w" "c < length (wSessions w)" "\<not> sesAttached (wSessions w ! c)" "\<not> sesEnded (wSessions w ! c)"
    "attachClientSession (sesID (wSessions w ! c)) c (wServer w) = (Some backlog, srv)"
    "live s" "sesID s = sesID (wSessions w ! c)"
  shows "sink_ok srv ((wSessions w)[c := s])"
proof -
  let ?ss = "wSessions w" and ?srv = "wServer w"
  have sink: "sink_ok ?srv ?ss" and ids: "distinct (map sesID ?ss)" using assms(1) by (simp_all add: clients_ok_def)
  have "avSink ?srv = None"
  proof (rule ccontr)
    assume "avSink ?srv \<noteq> None"
    then obtain d where "avSink ?srv = Some d" by blast
    then have d: "d < length ?ss" "live (?ss ! d)" "avActiveSessionID ?srv = sesID (?ss ! d)"
      using sink unfolding sink_ok_def by simp_all
    have "sesID (?ss ! d) \<in> sesID ` set ?ss" using d(1) by simp
    moreover have "[] \<notin> sesID ` set ?ss" using assms(1) unfolding clients_ok_def by blast
    ultimately have "sesID (?ss ! d) \<noteq> []" by metis
    then have "sesID (?ss ! d) = sesID (?ss ! c)"
      using assms(5) d(3) by (simp add: attachClientSession_def split: if_splits)
    then have "map sesID ?ss ! d = map sesID ?ss ! c" using d(1) assms(2) by simp
    then have "d = c" using nth_eq_iff_index_eq [OF ids] d(1) assms(2) by simp
    then show False using d(2) assms(3) by (simp add: live_def)
  qed
  then have "\<forall>i<length ?ss. \<not> live (?ss ! i)" using sink by (simp add: sink_ok_def)
  then have "live (?ss[c := s] ! i) \<longrightarrow> i = c" if "i < length ?ss" for i
    using that by (cases "i = c") simp_all
  moreover have "srv = ?srv\<lparr>avActiveSessionID := sesID (?ss ! c), avConnectedClients := 1, avSink := Some c, avBacklog := []\<rparr>"
    using assms(5) by (simp add: attachClientSession_def split: if_splits)
  ultimately show ?thesis
    using assms(2,6,7) by (simp add: sink_ok_def)
qed

lemma clients_read:
  assumes "clients_ok w" "c < length (wSessions w)" "\<not> sesEnded (wSessions w ! c)"
  shows "clients_ok (read_frame to_lower cd rd c frame w)"
proof -
  let ?ses = "wSessions w ! c"
  obtain outs stop ses' srv where h: "handleFrame to_lower cd rd c frame ?ses (wServer w) = (outs, stop, ses', srv)"
    by (metis prod_cases4)
  let ?s = "ses'\<lparr>sesToSend := outs, sesStop := stop, sesFrames := sesFrames ses' @ [frame]\<rparr>"
  have sink: "sink_ok (wServer w) (wSessions w)" using assms(1) by (simp add: clients_ok_def)
  have "sink_ok srv ((wSessions w)[c := ?s]) \<and> sesID ?s = sesID ?ses \<and> sesClosed ?s = sesClosed ?ses"
    using h
  proof (cases rule: handleFrame_cases)
    case (attached p)
    then show ?thesis using assms sink_attach [OF assms(1,2) attached(2) assms(3) attached(3)] by simp
  next
    case handled
    then show ?thesis using sink_cong [OF sink] by (simp add: tame_def same_clients_def)
  qed (use sink_cong [OF sink] in simp_all)
  then show ?thesis
    using h assms unfolding read_frame_def by (simp add: clients_update)
qed

lemma clients_send: "clients_ok w \<Longrightarrow> c < length (wSessions w) \<Longrightarrow> clients_ok (send_next c w)"
  using clients_update [of w c _ "wServer w"] sink_cong [of "wServer w" "wSessions w" _ c "wServer w"]
  by (simp add: send_next_def Let_def clients_ok_def)

lemma sink_leave:
  assumes "clients_ok w" "c < length (wSessions w)" "live (wSessions w ! c)" "\<not> live s"
  shows "sink_ok (detachClientSession (sesID (wSessions w ! c)) (wServer w)) ((wSessions w)[c := s])"
proof -
  have "sink_ok (wServer w) (wSessions w)" using assms(1) by (simp add: clients_ok_def)
  then have "avSink (wServer w) = Some c" "avActiveSessionID (wServer w) = sesID (wSessions w ! c)"
    "\<forall>i<length (wSessions w). live (wSessions w ! i) \<longrightarrow> i = c"
    using assms(2,3) by (auto simp: sink_ok_def split: option.splits)
  then have "\<not> live ((wSessions w)[c := s] ! i)" if "i < length (wSessions w)" for i
    using that assms(4) by (cases "i = c") auto
  then show ?thesis
    using \<open>avActiveSessionID (wServer w) = _\<close> by (simp add: sink_ok_def detachClientSession_def)
qed

lemma clients_leave:
  assumes "clients_ok w" "c < length (wSessions w)" "\<not> sesEnded (wSessions w ! c)"
  shows "clients_ok (leave_loop c w)"
proof (cases "sesAttached (wSessions w ! c)")
  case True
  then show ?thesis
    using assms sink_leave [OF assms(1,2), of "(wSessions w ! c)\<lparr>sesEnded := True\<rparr>"]
    by (simp add: leave_loop_def Let_def clients_update live_def)
next
  case False
  then have "sink_ok (wServer w) ((wSessions w)[c := (wSessions w ! c)\<lparr>sesEnded := True\<rparr>])"
    using assms(1) by (intro sink_cong) (simp_all add: clients_ok_def live_def)
  then show ?thesis using False assms clients_update [of w c _ "wServer w"] by (simp add: leave_loop_def Let_def)
qed

lemma clients_close: "clients_ok w \<Longrightarrow> c < length (wSessions w) \<Longrightarrow> clients_ok (close_outgoing c w)"
  unfolding close_outgoing_def Let_def
  by (rule clients_update; (rule sink_cong [where srv = "wServer w"])?)
    (simp_all add: clients_ok_def requestGracefulShutdown_def)

lemma clients_open:
  assumes "clients_ok w" "sid \<noteq> []" "sid \<notin> sesID ` set (wSessions w)"
  shows "clients_ok (w\<lparr>wSessions := wSessions w @ [new_session sid requireAuth authToken]\<rparr>)"
proof -
  let ?s = "new_session sid requireAuth authToken"
  have "sesID ?s = sid" "\<not> live ?s" by (simp_all add: new_session_def live_def)
  then have "sink_ok (wServer w) (wSessions w @ [?s])"
    using assms(1) by (auto simp: clients_ok_def sink_ok_def nth_append less_Suc_eq split: option.splits)
  then show ?thesis
    using assms \<open>sesID ?s = sid\<close> unfolding clients_ok_def by (fastforce simp: nth_append)
qed

text \<open>What an event changes: with a sink the notification is under way, without one it is kept.\<close>

lemma recordLiveEvents_clients:
  "avSink (recordLiveEvents ws ev srv) = avSink srv" "avActiveSessionID (recordLiveEvents ws ev srv) = avActiveSessionID srv"
  "avConnectedClients (recordLiveEvents ws ev srv) = avConnectedClients srv" "avBacklog (recordLiveEvents ws ev srv) = avBacklog srv"
  "avOverflowed (recordLiveEvents ws ev srv) = avOverflowed srv" "avCreated (recordLiveEvents ws ev srv) = avCreated srv"
  "avPending (recordLiveEvents ws ev srv) = avPending srv" "avEnqueued (recordLiveEvents ws ev srv) = avEnqueued srv"
  "avClaimed (recordLiveEvents ws ev srv) = avClaimed srv" "avActors (recordLiveEvents ws ev srv) = avActors srv"
  "avStarted (recordLiveEvents ws ev srv) = avStarted srv"
  by (simp_all add: recordLiveEvents_def Let_def split: EventType.split option.split)

section \<open>Events\<close>

text \<open>How a notification acknowledges a command\<close>

definition acked :: "pendingClientCommand \<Rightarrow> notification \<Rightarrow> bool" where
  "acked p n \<longleftrightarrow> (\<exists>ev. NtPayload n = TaskPayload (pcClientCommandID p) ev \<and> NtWorkspaceID n = pcWorkspaceID p \<and> matches p ev)"

definition commands_ok :: "server \<Rightarrow> bool" where
  "commands_ok srv \<longleftrightarrow> mset (avPending srv) + mset (avClaimed srv) = mset (avEnqueued srv) \<and>
     (\<forall>p\<in>set (avEnqueued srv). pcClientCommandID p \<noteq> []) \<and>
     list_all2 acked (avClaimed srv) (filter acknowledges (avCreated srv))"

text \<open>The parts of the server that an event changes: the notification n, and the sink it is for\<close>

definition event_change :: "string \<Rightarrow> RunEvent \<Rightarrow> nat option \<Rightarrow> notification \<Rightarrow> server \<Rightarrow> server \<Rightarrow> bool" where
  "event_change ws ev sink n srv srv' \<longleftrightarrow>
     avSink srv' = avSink srv \<and> avActiveSessionID srv' = avActiveSessionID srv \<and>
     avConnectedClients srv' = avConnectedClients srv \<and> avActors srv' = avActors srv \<and> avStarted srv' = avStarted srv \<and>
     avEnqueued srv' = avEnqueued srv \<and> sink = avSink srv \<and> avCreated srv' = avCreated srv @ [n] \<and>
     (if sink = None
      then mset (avBacklog srv') + mset (avOverflowed srv') = mset (avBacklog srv) + mset (avOverflowed srv) + {#n#} \<and>
        length (avBacklog srv') \<le> 128
      else avBacklog srv' = avBacklog srv \<and> avOverflowed srv' = avOverflowed srv) \<and>
     NtWorkspaceID n = ws \<and>
     (\<exists>cid. NtPayload n = TaskPayload cid ev \<and>
        (cid = [] \<and> avPending srv' = avPending srv \<and> avClaimed srv' = avClaimed srv \<or>
         (\<exists>p. mset (avPending srv') + {#p#} = mset (avPending srv) \<and> avClaimed srv' = avClaimed srv @ [p] \<and>
            cid = pcClientCommandID p \<and> pcWorkspaceID p = ws \<and> matches p ev)))"

lemma mset_take_out: "i < length xs \<Longrightarrow> mset (take i xs @ drop (Suc i) xs) + {#xs ! i#} = mset xs"
  by (subst (4) id_take_nth_drop [of i xs]) simp_all

lemma claim_change:
  assumes "claimPendingClientCommandID ws ev srv = (cid, srv')"
  obtains ps cs where "srv' = srv\<lparr>avPending := ps, avClaimed := avClaimed srv @ cs\<rparr>"
    "cs = [] \<and> cid = [] \<and> ps = avPending srv \<or>
     (\<exists>p. cs = [p] \<and> mset ps + {#p#} = mset (avPending srv) \<and> cid = pcClientCommandID p \<and> pcWorkspaceID p = ws \<and> matches p ev)"
proof (cases "first_index (\<lambda>p. pcWorkspaceID p = ws \<and> matches p ev) (avPending srv)")
  case None
  then show thesis using that [of "[]" "avPending srv"] assms by (simp add: claimPendingClientCommandID_def)
next
  case (Some i)
  let ?ps = "take i (avPending srv) @ drop (Suc i) (avPending srv)"
  show thesis
    using that [of "[avPending srv ! i]" ?ps] assms Some first_index_Some [OF Some] mset_take_out [of i "avPending srv"]
    by (auto simp: claimPendingClientCommandID_def)
qed

lemma emit_change:
  assumes "emitNotification m srv = (sink, srv')"
  obtains b ov where "srv' = srv\<lparr>avBacklog := b, avOverflowed := ov\<rparr>" "sink = avSink srv"
    "if sink = None then mset b + mset ov = mset (avBacklog srv) + mset (avOverflowed srv) + {#m#} \<and> length b \<le> 128
     else b = avBacklog srv \<and> ov = avOverflowed srv"
proof (cases "avSink srv")
  case None
  let ?b = "avBacklog srv @ [m]" and ?k = "length (avBacklog srv) + 1 - maxNotificationBacklog"
  have "mset (take ?k ?b) + mset (drop ?k ?b) = mset ?b" by (metis append_take_drop_id mset_append)
  moreover have "appendNotificationBacklog (avBacklog srv) m = drop ?k ?b"
    by (simp add: appendNotificationBacklog_def Let_def)
  moreover have "length (drop ?k ?b) \<le> 128" by (simp add: maxNotificationBacklog_def)
  ultimately show thesis
    using that [of "avOverflowed srv @ take ?k ?b" "drop ?k ?b"] assms None
    by (simp add: emitNotification_def ac_simps)
next
  case (Some conn)
  then show thesis using that [of "avOverflowed srv" "avBacklog srv"] assms by (simp add: emitNotification_def)
qed

lemma event_changes:
  assumes "handleRuntimeEvent rd ws ev srv = ((sink, n), srv')"
  shows "event_change ws ev sink n srv srv'"
proof -
  let ?s1 = "recordLiveEvents ws ev srv"
  obtain cid s2 where c: "claimPendingClientCommandID ws ev ?s1 = (cid, s2)" by fastforce
  obtain m s3 where m: "newNotification rd (event_kind (EvType ev)) ws (TaskPayload cid ev) s2 = (m, s3)" by fastforce
  have s3: "s3 = s2\<lparr>avCreated := avCreated s2 @ [m]\<rparr>" "NtWorkspaceID m = ws" "NtPayload m = TaskPayload cid ev"
    using m by (auto simp: newNotification_def Let_def)
  have e: "emitNotification m s3 = (sink, srv')" and n: "n = m"
    using assms c m by (auto simp: handleRuntimeEvent_def Let_def split: prod.splits)
  from claim_change [OF c] obtain ps cs where claim: "s2 = ?s1\<lparr>avPending := ps, avClaimed := avClaimed ?s1 @ cs\<rparr>"
    "cs = [] \<and> cid = [] \<and> ps = avPending ?s1 \<or>
     (\<exists>p. cs = [p] \<and> mset ps + {#p#} = mset (avPending ?s1) \<and> cid = pcClientCommandID p \<and> pcWorkspaceID p = ws \<and> matches p ev)" .
  from emit_change [OF e] obtain b ov where emit: "srv' = s3\<lparr>avBacklog := b, avOverflowed := ov\<rparr>" "sink = avSink s3"
    "if sink = None then mset b + mset ov = mset (avBacklog s3) + mset (avOverflowed s3) + {#m#} \<and> length b \<le> 128
     else b = avBacklog s3 \<and> ov = avOverflowed s3" .
  show ?thesis
    using claim(2) emit(2,3) s3(2,3) n unfolding event_change_def emit(1) s3(1) claim(1)
    by (auto simp: recordLiveEvents_clients split: if_splits)
qed

lemma clients_event:
  assumes "clients_ok w" "actor < length (avStarted (wServer w))"
  shows "clients_ok (forward_event rd actor ev w)"
proof -
  obtain sink n srv where h: "handleRuntimeEvent rd (avStarted (wServer w) ! actor) ev (wServer w) = ((sink, n), srv)"
    by (metis prod.exhaust)
  note c = event_changes [OF h]
  then have "sink_ok srv (wSessions w)"
    using assms(1) by (simp add: clients_ok_def sink_ok_def event_change_def split: option.splits)
  moreover have "d < length (wSessions w)" if "sink = Some d" for d
  proof -
    have "avSink (wServer w) = Some d" using c that by (simp add: event_change_def)
    then show ?thesis using assms(1) by (simp add: clients_ok_def sink_ok_def)
  qed
  ultimately show ?thesis
    using assms(1) h by (cases sink) (auto simp: forward_event_def clients_ok_def)
qed

lemma clients_deliver:
  assumes "clients_ok w" "i < length (wSending w)"
  shows "clients_ok (deliver i w)"
proof -
  obtain a c n where d: "wSending w ! i = (a, c, n)" by (metis prod_cases3)
  let ?w = "w\<lparr>wSending := take i (wSending w) @ drop (Suc i) (wSending w)\<rparr>"
  have "(a, c, n) \<in> set (wSending w)" using assms(2) d by (metis nth_mem)
  then have c: "c < length (wSessions w)" using assms(1) unfolding clients_ok_def by blast
  have "set (take i (wSending w) @ drop (Suc i) (wSending w)) \<subseteq> set (wSending w)"
    by (auto dest: in_set_takeD in_set_dropD)
  moreover have "\<forall>a c n. (a, c, n) \<in> set (wSending w) \<longrightarrow> c < length (wSessions w)"
    using assms(1) unfolding clients_ok_def by blast
  ultimately have "\<forall>a c n. (a, c, n) \<in> set (wSending ?w) \<longrightarrow> c < length (wSessions ?w)" by (simp, blast)
  then have w: "clients_ok ?w" using assms(1) unfolding clients_ok_def by simp
  show ?thesis
  proof (cases "sesClosed (wSessions w ! c)")
    case True
    have "clients_ok (?w\<lparr>wDropped := wDropped w @ [(c, n)]\<rparr>)"
      using w c True by (auto simp: clients_ok_def)
    then show ?thesis using d True by (simp add: deliver_def Let_def)
  next
    case False
    let ?s = "(wSessions w ! c)\<lparr>sesOutgoing := sesOutgoing (wSessions w ! c) @ [Notify n]\<rparr>"
    have "clients_ok (set_session c ?s (?w\<lparr>wServer := wServer w\<rparr>))"
      using w c by (intro clients_update sink_cong) (simp_all add: clients_ok_def)
    then show ?thesis using d False by (simp add: deliver_def Let_def)
  qed
qed

lemma clients_reached:
  assumes "app_reaches to_lower cd reg w"
  shows "clients_ok w"
  using assms
proof (induction rule: app_reaches.induct)
  case app_start
  show ?case by (simp add: clients_ok_def start_world_def start_server_def sink_ok_def)
next
  case (app_next w w')
  from app_next(2) app_next(3) show ?case
  proof (cases rule: app_step.cases)
    case (actor_end_step actor err)
    then show ?thesis using app_next(3)
      by (simp add: clients_ok_def sink_ok_def runActor_end_def split: option.splits)
  qed (simp_all add: clients_open clients_read clients_send clients_leave clients_close clients_event clients_deliver)
qed

section \<open>The server's own data\<close>

definition server_ok :: "server \<Rightarrow> bool" where
  "server_ok srv \<longleftrightarrow> commands_ok srv \<and> actors_ok srv \<and> live_bounded srv \<and> length (avBacklog srv) \<le> 128"

lemma tame_keeps: "tame ns srv srv' \<Longrightarrow> server_ok srv \<Longrightarrow> server_ok srv'"
  by (auto simp: tame_def same_clients_def server_ok_def commands_ok_def)

lemma live_cache_bounded:
  assumes "live_bounded srv" "(task, s) \<in> set (live_cache srv ws)"
  shows "length (LiveEvents s) \<le> 200"
proof (cases "map_of (avLive srv) ws")
  case (Some cache)
  then have "(ws, cache) \<in> set (avLive srv)" "(task, s) \<in> set cache"
    using assms(2) by (auto simp: live_cache_def dest: map_of_SomeD)
  then show ?thesis using assms(1) unfolding live_bounded_def by blast
qed (use assms(2) in \<open>simp add: live_cache_def\<close>)

lemma live_bounded_cache:
  assumes "live_bounded srv" "\<And>task s. (task, s) \<in> set cache \<Longrightarrow> length (LiveEvents s) \<le> 200"
  shows "live_bounded (srv\<lparr>avLive := map_put ws cache (avLive srv)\<rparr>)"
  unfolding live_bounded_def
proof (intro allI impI)
  fix ws' cache' task s
  assume a: "(ws', cache') \<in> set (avLive (srv\<lparr>avLive := map_put ws cache (avLive srv)\<rparr>))" "(task, s) \<in> set cache'"
  then have "(ws', cache') = (ws, cache) \<or> (ws', cache') \<in> set (avLive srv)"
    using set_map_put [of ws cache "avLive srv"] by auto
  then show "length (LiveEvents s) \<le> 200"
    using a(2) assms unfolding live_bounded_def by blast
qed

lemma live_bounded_put:
  assumes "live_bounded srv" "length (LiveEvents s) \<le> 200"
  shows "live_bounded (srv\<lparr>avLive := map_put ws (map_put task s (live_cache srv ws)) (avLive srv)\<rparr>)"
  using assms live_cache_bounded [OF assms(1), of _ _ ws] set_map_put [of task s "live_cache srv ws"]
  by (intro live_bounded_cache) auto

lemma live_found: "live_bounded srv \<Longrightarrow> map_of (live_cache srv ws) task = Some s \<Longrightarrow> length (LiveEvents s) \<le> 200"
  using live_cache_bounded map_of_SomeD by metis

lemma live_bounded_event:
  assumes "live_bounded srv"
  shows "live_bounded (recordLiveEvents ws ev srv)"
proof -
  let ?c = "live_cache srv ws" and ?t = "trim_space (EvTaskID ev)"
  let ?s = "case map_of ?c ?t of None \<Rightarrow> empty_snapshot [] | Some s \<Rightarrow> s"
  have s: "length (LiveEvents ?s) \<le> 200"
    using live_found [OF assms] by (auto simp: empty_snapshot_def split: option.split)
  have e: "length (LiveEvents (empty_snapshot r)) \<le> 200" for r by (simp add: empty_snapshot_def)
  have l: "length (last_200 xs) \<le> 200" for xs :: "StreamEvent list" by (simp add: last_200_def)
  note put = live_bounded_put [OF assms]
  have unchanged: "live_bounded (srv\<lparr>avLive := map_put ws ?c (avLive srv)\<rparr>)"
    using live_cache_bounded [OF assms] by (intro live_bounded_cache [OF assms]) blast
  have gone: "live_bounded (srv\<lparr>avLive := map_del ws (avLive srv)\<rparr>)"
    using assms set_map_del [of ws "avLive srv"] by (auto simp: live_bounded_def)
  have del: "live_bounded (srv\<lparr>avLive := map_put ws (map_del ?t ?c) (avLive srv)\<rparr>)"
    using set_map_del [of ?t ?c] live_cache_bounded [OF assms] by (intro live_bounded_cache [OF assms]) blast
  show ?thesis
    unfolding recordLiveEvents_def Let_def
    using assms s e l put unchanged gone del by (cases "EvType ev") (simp_all split: option.split)
qed

lemma commands_event:
  assumes "event_change ws ev sink n srv srv'" "commands_ok srv"
  shows "commands_ok srv'"
proof -
  from assms(1) obtain cid where n: "NtPayload n = TaskPayload cid ev" "NtWorkspaceID n = ws"
    and same: "avEnqueued srv' = avEnqueued srv" "avCreated srv' = avCreated srv @ [n]"
    and c: "cid = [] \<and> avPending srv' = avPending srv \<and> avClaimed srv' = avClaimed srv \<or>
      (\<exists>p. mset (avPending srv') + {#p#} = mset (avPending srv) \<and> avClaimed srv' = avClaimed srv @ [p] \<and>
        cid = pcClientCommandID p \<and> pcWorkspaceID p = ws \<and> matches p ev)"
    unfolding event_change_def by blast
  from c show ?thesis
  proof
    assume "cid = [] \<and> avPending srv' = avPending srv \<and> avClaimed srv' = avClaimed srv"
    then show ?thesis using assms(2) same n by (simp add: commands_ok_def acknowledges_def)
  next
    assume "\<exists>p. mset (avPending srv') + {#p#} = mset (avPending srv) \<and> avClaimed srv' = avClaimed srv @ [p] \<and>
      cid = pcClientCommandID p \<and> pcWorkspaceID p = ws \<and> matches p ev"
    then obtain p where p: "mset (avPending srv') + {#p#} = mset (avPending srv)" "avClaimed srv' = avClaimed srv @ [p]"
      "cid = pcClientCommandID p" "pcWorkspaceID p = ws" "matches p ev" by blast
    have "mset (avEnqueued srv) = mset (avPending srv') + {#p#} + mset (avClaimed srv)"
      using assms(2) p(1) by (simp add: commands_ok_def)
    then have "p \<in># mset (avEnqueued srv)" by simp
    then have "pcClientCommandID p \<noteq> []" using assms(2) by (simp add: commands_ok_def)
    moreover have "acked p n" using n p by (auto simp: acked_def)
    ultimately show ?thesis
      using assms(2) same n p \<open>mset (avEnqueued srv) = _\<close>
      by (auto simp: commands_ok_def acknowledges_def intro: list_all2_appendI)
  qed
qed

lemma backlog_event: "event_change ws ev sink n srv srv' \<Longrightarrow> length (avBacklog srv) \<le> 128 \<Longrightarrow> length (avBacklog srv') \<le> 128"
  by (auto simp: event_change_def split: if_splits)

lemma live_event:
  assumes "handleRuntimeEvent rd ws ev srv = ((sink, n), srv')"
  shows "avLive srv' = avLive (recordLiveEvents ws ev srv)"
proof -
  obtain cid s2 where c: "claimPendingClientCommandID ws ev (recordLiveEvents ws ev srv) = (cid, s2)" by fastforce
  obtain m s3 where m: "newNotification rd (event_kind (EvType ev)) ws (TaskPayload cid ev) s2 = (m, s3)" by fastforce
  have "avLive s2 = avLive (recordLiveEvents ws ev srv)"
    using c by (auto simp: claimPendingClientCommandID_def split: option.splits)
  moreover have "avLive s3 = avLive s2" using m by (auto simp: newNotification_def Let_def)
  moreover have "avLive srv' = avLive s3"
    using assms c m by (auto simp: handleRuntimeEvent_def Let_def emitNotification_def split: prod.splits option.splits)
  ultimately show ?thesis by simp
qed

lemma server_event:
  assumes "handleRuntimeEvent rd ws ev srv = ((sink, n), srv')" "server_ok srv"
  shows "server_ok srv'"
proof -
  note c = event_changes [OF assms(1)]
  have "live_bounded srv'"
    using live_bounded_event [of srv ws ev] live_event [OF assms(1)] assms(2) by (simp add: server_ok_def live_bounded_def)
  moreover have "actors_ok srv'" using c assms(2) by (simp add: event_change_def server_ok_def actors_ok_def)
  ultimately show ?thesis
    using commands_event [OF c] backlog_event [OF c] assms(2) by (simp add: server_ok_def)
qed

lemma server_attach: "attachClientSession sid c srv = (b, srv') \<Longrightarrow> server_ok srv \<Longrightarrow> server_ok srv'"
  by (auto simp: attachClientSession_def server_ok_def commands_ok_def actors_ok_def live_bounded_def split: if_splits)

lemma server_detach: "server_ok srv \<Longrightarrow> server_ok (detachClientSession sid srv)"
  by (simp add: detachClientSession_def server_ok_def commands_ok_def actors_ok_def live_bounded_def)

lemma server_shutdown: "server_ok srv \<Longrightarrow> server_ok (requestGracefulShutdown srv)"
  by (simp add: requestGracefulShutdown_def server_ok_def commands_ok_def actors_ok_def live_bounded_def)

lemma server_actor_end: "server_ok srv \<Longrightarrow> server_ok (runActor_end no err srv)"
  by (auto simp: runActor_end_def server_ok_def commands_ok_def actors_ok_def live_bounded_def comp_def case_prod_unfold
      split: if_splits)

lemma server_frame:
  assumes "handleFrame to_lower cd rd c frame ses srv = (outs, stop, ses', srv')" "server_ok srv"
  shows "server_ok srv'"
  using assms(1)
proof (cases rule: handleFrame_cases)
  case (attached p)
  show ?thesis using server_attach [OF attached(3) assms(2)] .
next
  case handled
  show ?thesis using tame_keeps [OF handled(3) assms(2)] .
qed (use assms(2) in simp_all)

lemma server_reached:
  assumes "app_reaches to_lower cd reg w"
  shows "server_ok (wServer w)"
  using assms
proof (induction rule: app_reaches.induct)
  case app_start
  show ?case
    by (simp add: server_ok_def commands_ok_def actors_ok_def live_bounded_def start_world_def start_server_def)
next
  case (app_next w w')
  from app_next(2) app_next(3) show ?case
  proof (cases rule: app_step.cases)
    case (read_step conn rd frame)
    then show ?thesis using app_next(3)
      by (auto simp: read_frame_def set_session_def intro: server_frame split: prod.split)
  next
    case (event_step actor rd ev)
    then show ?thesis using app_next(3)
      by (auto simp: forward_event_def intro: server_event split: prod.split option.split)
  next
    case (deliver_step i)
    then show ?thesis using app_next(3) by (auto simp: deliver_def Let_def set_session_def split: prod.split)
  qed (simp_all add: send_next_def leave_loop_def close_outgoing_def Let_def set_session_def server_detach
      server_shutdown server_actor_end)
qed

section \<open>Who may send requests\<close>

definition presented :: "codecs \<Rightarrow> session \<Rightarrow> bool" where
  "presented cd ses \<longleftrightarrow> sesInitialized ses \<or> sesAttached ses \<longrightarrow> (\<exists>frame\<in>set (sesFrames ses). starts_session cd ses frame)"

lemma starts_cong:
  "sesRequireAuth s = sesRequireAuth t \<Longrightarrow> sesAuthToken s = sesAuthToken t \<Longrightarrow> starts_session cd s = starts_session cd t"
  by (simp add: starts_session_def fun_eq_iff)

lemma presented_frame:
  assumes "handleFrame to_lower cd rd c frame ses srv = (outs, stop, ses', srv')" "presented cd ses"
  shows "presented cd (ses'\<lparr>sesToSend := outs, sesStop := stop, sesFrames := sesFrames ses' @ [frame]\<rparr>)"
proof -
  have f: "sesRequireAuth ses' = sesRequireAuth ses \<and> sesAuthToken ses' = sesAuthToken ses \<and> sesFrames ses' = sesFrames ses \<and>
      (sesInitialized ses' \<or> sesAttached ses' \<longrightarrow> starts_session cd ses frame \<or> sesInitialized ses \<or> sesAttached ses)"
    using assms(1) by (cases rule: handleFrame_cases) simp_all
  then have "starts_session cd (ses'\<lparr>sesToSend := outs, sesStop := stop, sesFrames := sesFrames ses' @ [frame]\<rparr>) = starts_session cd ses"
    by (intro starts_cong) simp_all
  then show ?thesis using f assms(2) by (auto simp: presented_def)
qed

lemma presented_kept:
  "presented cd (s\<lparr>sesOutgoing := os, sesToSend := os'\<rparr>) = presented cd s" "presented cd (s\<lparr>sesEnded := b\<rparr>) = presented cd s"
  "presented cd (s\<lparr>sesClosed := b\<rparr>) = presented cd s" "presented cd (s\<lparr>sesOutgoing := os\<rparr>) = presented cd s"
  by (simp_all add: presented_def starts_session_def)

lemma list_all_changed: "list_all P xs \<Longrightarrow> P x \<Longrightarrow> list_all P (xs[c := x])"
  using set_update_subset_insert [of xs c x] by (auto simp: list_all_iff)

lemma presented_reached:
  assumes "app_reaches to_lower cd reg w"
  shows "list_all (presented cd) (wSessions w)"
  using assms
proof (induction rule: app_reaches.induct)
  case app_start
  show ?case by (simp add: start_world_def)
next
  case (app_next w w')
  have at: "c < length (wSessions w) \<Longrightarrow> presented cd (wSessions w ! c)" for c
    using app_next(3) by (simp add: list_all_length)
  from app_next(2) app_next(3) show ?case
  proof (cases rule: app_step.cases)
    case (open_step sid requireAuth authToken)
    then show ?thesis using app_next(3) by (simp add: presented_def new_session_def)
  next
    case (read_step conn rd frame)
    obtain outs stop ses' srv where h: "handleFrame to_lower cd rd conn frame (wSessions w ! conn) (wServer w) = (outs, stop, ses', srv)"
      by (metis prod_cases4)
    show ?thesis using list_all_changed [OF app_next(3) presented_frame [OF h at [OF read_step(2)]], of conn] h read_step(1)
      by (simp add: read_frame_def set_session_def)
  next
    case (deliver_step i)
    obtain a c n where d: "wSending w ! i = (a, c, n)" by (metis prod_cases3)
    then have "c < length (wSessions w)"
      using clients_reached [OF app_next(1)] nth_mem [OF deliver_step(2)] unfolding clients_ok_def by metis
    then show ?thesis using deliver_step d app_next(3) at [of c]
      by (simp add: deliver_def Let_def set_session_def presented_kept list_all_changed)
  qed (use app_next(3) at in \<open>simp_all add: send_next_def leave_loop_def close_outgoing_def forward_event_def
      Let_def set_session_def presented_kept list_all_changed split: prod.split option.split\<close>)
qed

section \<open>Where the notifications are\<close>

definition held :: "session \<Rightarrow> notification list" where
  "held ses = notices (sesOutgoing ses @ sesToSend ses)"

definition placed :: "world \<Rightarrow> notification multiset" where
  "placed w = mset (avBacklog (wServer w)) + mset (avOverflowed (wServer w)) + mset (map (\<lambda>(a, c, n). n) (wSending w)) +
     mset (map snd (wDropped w)) + mset (concat (map held (wSessions w)))"

lemma concat_changed:
  "c < length xs \<Longrightarrow> mset (concat (map f (xs[c := x]))) + mset (f (xs ! c)) = mset (concat (map f xs)) + mset (f x)"
proof (induction xs arbitrary: c)
  case (Cons y ys)
  show ?case
  proof (cases c)
    case (Suc d)
    with Cons.IH [of d] Cons.prems show ?thesis by (simp add: ac_simps)
  qed (simp add: ac_simps)
qed simp

lemma placed_session:
  assumes "c < length (wSessions w)" "held s = held (wSessions w ! c)"
  shows "mset (concat (map held ((wSessions w)[c := s]))) = mset (concat (map held (wSessions w)))"
  using concat_changed [OF assms(1), of held s] assms(2) by simp

lemma moved_sum:
  fixes b b' ov ov' n r r' s d k :: "'a multiset"
  assumes "b' + ov' + n + r = b + ov + r'" "b + ov + s + d + k = r"
  shows "b' + ov' + s + d + (k + n) = r'"
  using assms(1) unfolding assms(2) [symmetric] by (simp add: ac_simps)

lemma placed_frame:
  assumes "c < length (wSessions w)" "sesToSend (wSessions w ! c) = []" "placed w = mset (avCreated (wServer w))"
  shows "placed (read_frame to_lower cd rd c frame w) = mset (avCreated (wServer (read_frame to_lower cd rd c frame w)))"
proof -
  let ?ses = "wSessions w ! c" and ?srv = "wServer w"
  obtain outs stop ses' srv where h: "handleFrame to_lower cd rd c frame ?ses ?srv = (outs, stop, ses', srv)"
    by (metis prod_cases4)
  let ?s = "ses'\<lparr>sesToSend := outs, sesStop := stop, sesFrames := sesFrames ses' @ [frame]\<rparr>"
  have "sesOutgoing ses' = sesOutgoing ?ses \<and>
      mset (avBacklog srv) + mset (avOverflowed srv) + mset (notices outs) + mset (avCreated ?srv) =
      mset (avBacklog ?srv) + mset (avOverflowed ?srv) + mset (avCreated srv)"
    using h
  proof (cases rule: handleFrame_cases)
    case (attached p)
    then show ?thesis by (auto simp: attachClientSession_def split: if_splits)
  next
    case handled
    then show ?thesis by (simp add: tame_def same_clients_def)
  qed simp_all
  moreover have "mset (concat (map held ((wSessions w)[c := ?s]))) + mset (held ?ses) =
      mset (concat (map held (wSessions w))) + mset (held ?s)"
    using assms(1) by (rule concat_changed)
  ultimately have "mset (concat (map held ((wSessions w)[c := ?s]))) = mset (concat (map held (wSessions w))) + mset (notices outs)"
    "mset (avBacklog srv) + mset (avOverflowed srv) + mset (notices outs) + mset (avCreated ?srv) =
      mset (avBacklog ?srv) + mset (avOverflowed ?srv) + mset (avCreated srv)"
    using assms(2) by (simp_all add: held_def)
  from moved_sum [OF this(2) assms(3) [unfolded placed_def]] this(1) show ?thesis
    using h unfolding placed_def by (simp add: read_frame_def set_session_def)
qed

lemma placed_reached:
  assumes "app_reaches to_lower cd reg w"
  shows "placed w = mset (avCreated (wServer w))"
  using assms
proof (induction rule: app_reaches.induct)
  case app_start
  show ?case by (simp add: placed_def start_world_def start_server_def)
next
  case (app_next w w')
  note clients = clients_reached [OF app_next(1)]
  from app_next(2) app_next(3) show ?case
  proof (cases rule: app_step.cases)
    case (open_step sid requireAuth authToken)
    then show ?thesis using app_next(3) by (simp add: placed_def held_def new_session_def)
  next
    case (read_step conn rd frame)
    then show ?thesis using placed_frame app_next(3) by blast
  next
    case (send_step conn)
    let ?s = "wSessions w ! conn"
    have "sesToSend ?s = hd (sesToSend ?s) # tl (sesToSend ?s)" using send_step(3) by simp
    then have "held (?s\<lparr>sesOutgoing := sesOutgoing ?s @ [hd (sesToSend ?s)], sesToSend := tl (sesToSend ?s)\<rparr>) = held ?s"
      by (cases "sesToSend ?s") (simp_all add: held_def)
    then show ?thesis
      using app_next(3) placed_session [OF send_step(2)] send_step(1)
      by (simp add: placed_def send_next_def Let_def set_session_def)
  next
    case (leave_step conn)
    then show ?thesis
      using app_next(3) placed_session [OF leave_step(2), of "(wSessions w ! conn)\<lparr>sesEnded := True\<rparr>"]
      by (simp add: placed_def leave_loop_def Let_def set_session_def held_def detachClientSession_def)
  next
    case (close_step conn)
    then show ?thesis
      using app_next(3) placed_session [OF close_step(2), of "(wSessions w ! conn)\<lparr>sesClosed := True\<rparr>"]
      by (simp add: placed_def close_outgoing_def Let_def set_session_def held_def requestGracefulShutdown_def)
  next
    case (event_step actor rd ev)
    obtain sink n srv where h: "handleRuntimeEvent rd (avStarted (wServer w) ! actor) ev (wServer w) = ((sink, n), srv)"
      by (metis prod.exhaust)
    note e = event_changes [OF h, unfolded event_change_def]
    then have made: "avCreated srv = avCreated (wServer w) @ [n]" by blast
    show ?thesis
    proof (cases sink)
      case None
      then have "mset (avBacklog srv) + mset (avOverflowed srv) = mset (avBacklog (wServer w)) + mset (avOverflowed (wServer w)) + {#n#}"
        using e by simp
      then have "placed (w\<lparr>wServer := srv\<rparr>) = placed w + {#n#}" unfolding placed_def by simp
      then show ?thesis using app_next(3) event_step(1) h None made by (simp add: forward_event_def)
    next
      case (Some conn)
      then have "avBacklog srv = avBacklog (wServer w)" "avOverflowed srv = avOverflowed (wServer w)" using e by simp_all
      then have "placed (w\<lparr>wServer := srv, wSending := wSending w @ [(actor, conn, n)]\<rparr>) = placed w + {#n#}"
        unfolding placed_def by simp
      then show ?thesis using app_next(3) event_step(1) h Some made by (simp add: forward_event_def)
    qed
  next
    case (deliver_step i)
    obtain a c n where d: "wSending w ! i = (a, c, n)" by (metis prod_cases3)
    then have c: "c < length (wSessions w)"
      using clients nth_mem [OF deliver_step(2)] unfolding clients_ok_def by metis
    let ?n = "\<lambda>(a, c, n). n" and ?rest = "take i (wSending w) @ drop (Suc i) (wSending w)"
    have out: "mset (map ?n ?rest) + {#n#} = mset (map ?n (wSending w))"
      using arg_cong [OF mset_take_out [OF deliver_step(2)], of "image_mset ?n"] d by simp
    let ?s = "(wSessions w ! c)\<lparr>sesOutgoing := sesOutgoing (wSessions w ! c) @ [Notify n]\<rparr>"
    have "mset (concat (map held ((wSessions w)[c := ?s]))) = mset (concat (map held (wSessions w))) + {#n#}"
      using concat_changed [OF c, of held ?s] by (simp add: held_def)
    then have kept: "placed (w\<lparr>wSending := ?rest, wSessions := (wSessions w)[c := ?s]\<rparr>) = placed w"
      by (simp add: placed_def out [symmetric] ac_simps del: mset_map)
    have dropped: "placed (w\<lparr>wSending := ?rest, wDropped := wDropped w @ [(c, n)]\<rparr>) = placed w"
      by (simp add: placed_def out [symmetric] ac_simps del: mset_map)
    show ?thesis
      using app_next(3) deliver_step(1) d kept dropped
      by (simp add: deliver_def Let_def set_session_def)
  next
    case (actor_end_step actor err)
    then show ?thesis using app_next(3) by (simp add: placed_def runActor_end_def)
  qed
qed

text \<open>
  C30: A frame changes the server's state only on a connection that has presented itself with the
  server's token, in this frame or an earlier one: in every reachable state, whatever the frame holds.
\<close>

theorem only_presented_connections_change_the_server:
  assumes "app_reaches to_lower cd reg w" "c < length (wSessions w)"
    "handleFrame to_lower cd rd c frame (wSessions w ! c) (wServer w) = (outs, stop, ses, srv)" "srv \<noteq> wServer w"
  shows "\<exists>frame'\<in>set (sesFrames (wSessions w ! c) @ [frame]). starts_session cd (wSessions w ! c) frame'"
proof -
  have p: "presented cd (wSessions w ! c)"
    using presented_reached [OF assms(1)] assms(2) by (simp add: list_all_length)
  from assms(3) show ?thesis
  proof (cases rule: handleFrame_cases)
    case handled
    then show ?thesis using p by (auto simp: presented_def)
  qed (use assms(4) in auto)
qed



text \<open>
  A passive session that asks to take over while another client is attached is refused, but no
  longer passive afterwards: its further requests are executed although it is not the attached client.
\<close>

theorem refused_takeover_lifts_the_restriction:
  assumes "dcMessage cd frame = Some msg" "MsgJSONRPC msg = jsonRPCVersion" "isRequest msg" "MsgMethod msg = ''initialize''"
    "decodeParams (dcInitialize cd) (MsgParams msg) = Inr params" "ProtocolVersion params = protocolVersion"
    "trim_space (InitAuthToken params) = trim_space (sesAuthToken ses)" "\<not> InitPassive params"
    "sesInitialized ses" "sesPassive ses" "\<not> sesAttached ses" "avActiveSessionID srv \<notin> {[], sesID ses}"
  shows "\<exists>err. Code err = ErrorCodeBusy \<and>
    handleFrame to_lower cd rd c frame ses srv = ([Response (MsgID msg) (Inl err)], StopModeContinue, ses\<lparr>sesPassive := False\<rparr>, srv) \<and>
    (\<forall>rd' method raw. method \<noteq> ''initialize'' \<longrightarrow>
      handleSessionRequest to_lower cd rd' c method raw (ses\<lparr>sesPassive := False\<rparr>) srv =
      (case handle_method to_lower cd rd' method raw srv of (r, ns, stop, srv') \<Rightarrow> (r, ns, stop, ses\<lparr>sesPassive := False\<rparr>, srv')))"
  using assms
  by (simp add: handleFrame_def handleSessionRequest_def do_initialize_def attachClientSession_def isNotification_def
      isRequest_def Let_def)

text \<open>
  A command is enqueued before its runtime is there: when the runtime cannot be started, the request
  fails, but its identifier goes to the next event that fits.
\<close>

lemma failed_dispatch_leaves_its_command:
  assumes "map_of (avActors srv) (WsID workspace) = None" "rdFactory rd = Some msg" "trim_space cid \<noteq> []"
  shows "\<exists>err srv'. dispatch_command rd method workspace cid cmd srv = refuse err srv' \<and>
    pcClientCommandID (last (avPending srv')) = trim_space cid"
  using assms
  by (auto simp: dispatch_command_def runtimes_dispatch_def ensure_def activeOrDetachedActor_def enqueuePendingClientCommand_def
      Let_def)

section \<open>Live output\<close>

text \<open>The reference: one run of a task, alone.\<close>

fun next_live :: "RunEvent \<Rightarrow> liveEventSnapshot option \<Rightarrow> liveEventSnapshot option" where
  "next_live ev found =
     (let snap = (case found of None \<Rightarrow> empty_snapshot [] | Some s \<Rightarrow> s)
      in if EvType ev \<in> {EventNodeStarted, EventInputRequested} then Some (empty_snapshot (EvNodeRunID ev))
         else if EvType ev = EventNodeProgress
         then
           (let snap = (if LiveRunID snap = EvNodeRunID ev then snap else empty_snapshot (EvNodeRunID ev))
            in Some (case EvProgress ev of
                 None \<Rightarrow> snap
               | Some p \<Rightarrow> if ProgEvents p = [] then snap
                   else snap\<lparr>LiveEvents := last_200 (LiveEvents snap @ ProgEvents p)\<rparr>))
         else if EvType ev \<in> {EventNodeCompleted, EventNodeFailed, EventTaskCompleted, EventTaskFailed}
         then (if LiveRunID snap = [] \<or> LiveRunID snap = EvNodeRunID ev then None else found)
         else if LiveRunID snap = [] \<and> EvNodeRunID ev \<noteq> [] then Some (snap\<lparr>LiveRunID := EvNodeRunID ev\<rparr>) else found)"

definition live_at :: "server \<Rightarrow> string \<Rightarrow> string \<Rightarrow> liveEventSnapshot option" where
  "live_at srv ws task = map_of (live_cache srv ws) task"

lemma live_at_put:
  "live_at (srv\<lparr>avLive := map_put ws' cache (avLive srv)\<rparr>) ws task = (if ws = ws' then map_of cache task else live_at srv ws task)"
  by (simp add: live_at_def live_cache_def map_of_put)

lemma live_at_del:
  "live_at (srv\<lparr>avLive := map_del ws' (avLive srv)\<rparr>) ws task = (if ws = ws' then None else live_at srv ws task)"
  by (simp add: live_at_def live_cache_def map_of_del)

lemma map_of_live_cache: "map_of (live_cache srv ws) task = live_at srv ws task"
  by (simp add: live_at_def)

lemma live_step:
  assumes "ws' \<noteq> []" "trim_space (EvTaskID ev) \<noteq> []"
  shows "live_at (recordLiveEvents ws' ev srv) ws task =
    (if ws = ws' \<and> task = trim_space (EvTaskID ev) then next_live ev (live_at srv ws task) else live_at srv ws task)"
proof -
  have d: "map_of (map_del (trim_space (EvTaskID ev)) (live_cache srv ws')) task = None"
    if "map_del (trim_space (EvTaskID ev)) (live_cache srv ws') = []" for task
    using that by simp
  have gone: "live_at srv ws' task = None"
    if "map_del (trim_space (EvTaskID ev)) (live_cache srv ws') = []" "task \<noteq> trim_space (EvTaskID ev)" for task
    using d [OF that(1), of task] that(2) unfolding map_of_del by (simp add: map_of_live_cache)
  show ?thesis
    using assms gone unfolding recordLiveEvents_def Let_def
    by (cases "EvType ev")
      (auto simp: live_at_put live_at_del map_of_put map_of_del map_of_live_cache Let_def split: option.splits if_splits)
qed

lemma last_200_again: "last_200 (last_200 xs @ ys) = last_200 (xs @ ys)"
  by (simp add: last_200_def ac_simps)

definition progress_events :: "RunEvent \<Rightarrow> StreamEvent list" where
  "progress_events ev = (case EvProgress ev of None \<Rightarrow> [] | Some p \<Rightarrow> ProgEvents p)"

lemma next_live_progress:
  assumes "EvType ev = EventNodeProgress" "EvNodeRunID ev = r"
  shows "next_live ev (Some \<lparr>LiveRunID = r, LiveEvents = last_200 xs\<rparr>) =
    Some \<lparr>LiveRunID = r, LiveEvents = last_200 (xs @ progress_events ev)\<rparr>"
  using assms by (simp add: progress_events_def last_200_again Let_def split: option.split)

definition of_task :: "string \<Rightarrow> string \<Rightarrow> string \<times> RunEvent \<Rightarrow> bool" where
  "of_task ws task we \<longleftrightarrow> fst we = ws \<and> trim_space (EvTaskID (snd we)) = task"

lemma live_progress:
  assumes "ws \<noteq> []" "task \<noteq> []" "\<forall>we\<in>set wes. of_task ws task we \<longrightarrow> EvType (snd we) = EventNodeProgress \<and> EvNodeRunID (snd we) = r"
    "live_at srv ws task = Some \<lparr>LiveRunID = r, LiveEvents = last_200 xs\<rparr>"
  shows "live_at (fold (\<lambda>(ws', ev). recordLiveEvents ws' ev) wes srv) ws task =
    Some \<lparr>LiveRunID = r, LiveEvents = last_200 (xs @ concat (map (progress_events \<circ> snd) (filter (of_task ws task) wes)))\<rparr>"
  using assms(3,4)
proof (induction wes arbitrary: srv xs)
  case (Cons we wes)
  obtain ws' ev where we: "we = (ws', ev)" by (cases we)
  show ?case
  proof (cases "of_task ws task we")
    case True
    then have "live_at (recordLiveEvents ws' ev srv) ws task = next_live ev (live_at srv ws task)"
      using assms(1,2) we live_step [of ws' ev srv ws task] by (simp add: of_task_def del: next_live.simps)
    also have "\<dots> = Some \<lparr>LiveRunID = r, LiveEvents = last_200 (xs @ progress_events ev)\<rparr>"
      using True Cons.prems we by (simp add: next_live_progress del: next_live.simps)
    finally show ?thesis using Cons.IH Cons.prems(1) True we by simp
  next
    case False
    have "live_at (recordLiveEvents ws' ev srv) ws task = live_at srv ws task"
    proof (cases "ws' = [] \<or> trim_space (EvTaskID ev) = []")
      case True
      then show ?thesis by (auto simp: recordLiveEvents_def Let_def)
    next
      case other: False
      then show ?thesis using False we live_step [of ws' ev srv ws task] by (auto simp: of_task_def simp del: next_live.simps)
    qed
    then show ?thesis using Cons.IH Cons.prems False we by simp
  qed
qed simp

text \<open>
  C31: The live output of a task is the output of its current run: after a run has started, and
  whatever other tasks and workspaces do in between, a client that asks gets that run and the last
  200 events of its progress; once the run has ended it gets nothing.
\<close>

theorem live_output_of_the_current_run:
  assumes "EvType e \<in> {EventNodeStarted, EventInputRequested}" "trim_space (EvTaskID e) = task" "ws \<noteq> []" "task \<noteq> []"
    "\<forall>we\<in>set wes. of_task ws task we \<longrightarrow> EvType (snd we) = EventNodeProgress \<and> EvNodeRunID (snd we) = EvNodeRunID e"
    "EvType fin \<in> {EventNodeCompleted, EventNodeFailed, EventTaskCompleted, EventTaskFailed}"
    "trim_space (EvTaskID fin) = task" "EvNodeRunID fin = EvNodeRunID e"
  shows "let srv' = fold (\<lambda>(ws', ev). recordLiveEvents ws' ev) ((ws, e) # wes) srv
    in server_liveEventSnapshot srv' ws task =
         (EvNodeRunID e, last_200 (concat (map (progress_events \<circ> snd) (filter (of_task ws task) wes)))) \<and>
       server_liveEventSnapshot (recordLiveEvents ws fin srv') ws task = ([], [])"
proof -
  let ?srv = "fold (\<lambda>(ws', ev). recordLiveEvents ws' ev) ((ws, e) # wes) srv"
  let ?out = "last_200 (concat (map (progress_events \<circ> snd) (filter (of_task ws task) wes)))"
  have "live_at (recordLiveEvents ws e srv) ws task = Some \<lparr>LiveRunID = EvNodeRunID e, LiveEvents = last_200 []\<rparr>"
    using assms(1-4) live_step [of ws e srv ws task] by (auto simp: empty_snapshot_def last_200_def)
  from live_progress [OF assms(3-5) this] have out: "live_at ?srv ws task = Some \<lparr>LiveRunID = EvNodeRunID e, LiveEvents = ?out\<rparr>"
    by simp
  moreover have "live_at (recordLiveEvents ws fin ?srv) ws task = None"
    using assms(3,4,6-8) live_step [of ws fin ?srv ws task] out by auto
  ultimately show ?thesis by (simp add: server_liveEventSnapshot_def map_of_live_cache Let_def)
qed

section \<open>Witnesses\<close>

text \<open>A client whose every frame is an initialize: passive for the frame p, active otherwise\<close>

definition demo_codecs :: codecs where
  "demo_codecs = \<lparr>dcMessage = (\<lambda>s. Some \<lparr>MsgJSONRPC = ''2.0'', MsgID = ''1'', MsgMethod = ''initialize'', MsgParams = s\<rparr>),
     dcInitialize = (\<lambda>s. Inr \<lparr>ProtocolVersion = 1, InitAuthToken = ''t'', InitPassive = (s = ''p'')\<rparr>),
     dcWorkspaceID = Inl, dcAdd = Inl, dcUpdate = Inl, dcStart = Inl, dcFollowUp = Inl, dcSubmit = Inl, dcRetry = Inl,
     dcContinue = Inl, dcRecover = Inl\<rparr>"

definition demo_registry :: registry where
  "demo_registry = \<lparr>rgWorkspaces = [], rgFile = NoFile\<rparr>"

definition demo_opened :: world where
  "demo_opened = (start_world demo_registry)\<lparr>wSessions := [new_session ''s'' True ''t'']\<rparr>"

lemma demo_opened_reached: "app_reaches to_lower cd demo_registry demo_opened"
proof -
  have "app_step to_lower cd (start_world demo_registry)
      ((start_world demo_registry)\<lparr>wSessions := wSessions (start_world demo_registry) @ [new_session ''s'' True ''t'']\<rparr>)"
    by (rule open_step) (simp_all add: start_world_def)
  then show ?thesis using app_next [OF app_start] by (simp add: demo_opened_def start_world_def)
qed

lemma demo_init:
  "handleFrame to_lower demo_codecs rd 0 ''i'' (wSessions demo_opened ! 0) (wServer demo_opened) =
     ([Response ''1'' (Inr InitializeResult)], StopModeContinue,
      (new_session ''s'' True ''t'')\<lparr>sesPassive := False, sesAttached := True, sesInitialized := True\<rparr>,
      (start_server demo_registry)\<lparr>avActiveSessionID := ''s'', avConnectedClients := 1, avSink := Some 0, avBacklog := []\<rparr>)"
  by (simp add: handleFrame_def demo_codecs_def isNotification_def isRequest_def jsonRPCVersion_def handleSessionRequest_def
      do_initialize_def decodeParams_def protocolVersion_def attachClientSession_def demo_opened_def start_world_def
      start_server_def new_session_def Let_def)

theorem only_presented_connections_change_the_server_witness:
  "\<exists>frame'\<in>set ([] @ [''i'']). starts_session demo_codecs (new_session ''s'' True ''t'') frame'"
  using only_presented_connections_change_the_server [OF demo_opened_reached _ demo_init]
  by (simp add: demo_opened_def start_world_def start_server_def new_session_def)

definition demo_attached :: "(string \<Rightarrow> string) \<Rightarrow> reading \<Rightarrow> world" where
  "demo_attached to_lower rd = read_frame to_lower demo_codecs rd 0 ''i'' demo_opened"

lemma demo_attached_reached: "app_reaches to_lower demo_codecs demo_registry (demo_attached to_lower rd)"
proof -
  have "app_step to_lower demo_codecs demo_opened (demo_attached to_lower rd)"
    unfolding demo_attached_def by (rule read_step) (simp_all add: demo_opened_def new_session_def)
  then show ?thesis using app_next [OF demo_opened_reached] by blast
qed

lemma demo_attached_parts:
  "wServer (demo_attached to_lower rd) = (start_server demo_registry)\<lparr>avActiveSessionID := ''s'', avConnectedClients := 1, avSink := Some 0, avBacklog := []\<rparr>"
  "length (wSessions (demo_attached to_lower rd)) = 1"
  unfolding demo_attached_def read_frame_def demo_init by (simp_all add: set_session_def demo_opened_def)



definition demo_passive :: session where
  "demo_passive = (new_session ''u'' True ''t'')\<lparr>sesPassive := True, sesInitialized := True\<rparr>"

theorem refused_takeover_lifts_the_restriction_witness:
  "\<forall>rd. \<exists>err. Code err = ErrorCodeBusy \<and>
    handleFrame id demo_codecs rd 1 ''i'' demo_passive (wServer (demo_attached id rd)) =
      ([Response ''1'' (Inl err)], StopModeContinue, demo_passive\<lparr>sesPassive := False\<rparr>, wServer (demo_attached id rd))"
proof
  fix rd
  let ?msg = "\<lparr>MsgJSONRPC = ''2.0'', MsgID = ''1'', MsgMethod = ''initialize'', MsgParams = ''i''\<rparr>"
    and ?params = "\<lparr>ProtocolVersion = 1, InitAuthToken = ''t'', InitPassive = False\<rparr>"
  have "dcMessage demo_codecs ''i'' = Some ?msg" "MsgJSONRPC ?msg = jsonRPCVersion" "isRequest ?msg"
    "MsgMethod ?msg = ''initialize''" "decodeParams (dcInitialize demo_codecs) (MsgParams ?msg) = Inr ?params"
    "ProtocolVersion ?params = protocolVersion" "trim_space (InitAuthToken ?params) = trim_space (sesAuthToken demo_passive)"
    "\<not> InitPassive ?params" "sesInitialized demo_passive" "sesPassive demo_passive" "\<not> sesAttached demo_passive"
    "avActiveSessionID (wServer (demo_attached id rd)) \<notin> {[], sesID demo_passive}"
    by (simp_all add: demo_codecs_def jsonRPCVersion_def isRequest_def decodeParams_def protocolVersion_def demo_passive_def
      new_session_def demo_attached_parts)
  from refused_takeover_lifts_the_restriction [OF this, of id rd 1]
  show "\<exists>err. Code err = ErrorCodeBusy \<and>
    handleFrame id demo_codecs rd 1 ''i'' demo_passive (wServer (demo_attached id rd)) =
      ([Response ''1'' (Inl err)], StopModeContinue, demo_passive\<lparr>sesPassive := False\<rparr>, wServer (demo_attached id rd))"
    by auto
qed

definition demo_event :: "EventType \<Rightarrow> StreamEvent list \<Rightarrow> RunEvent" where
  "demo_event ty out =
     \<lparr>EvType = ty, EvTaskID = ''t'', EvNodeRunID = ''r'', EvNodeName = ''n'', EvView = None,
      EvProgress = Some \<lparr>ProgMessage = [], ProgSessionID = [], ProgEvents = out\<rparr>, EvInput = None, EvError = None\<rparr>"

definition demo_stream :: "string \<Rightarrow> StreamEvent" where
  "demo_stream body = \<lparr>SeEventID = [], SeSeq = 0, SeEmittedAt = 0, SeSessionID = [], SeProvenance = [], SeBody = body\<rparr>"

theorem live_output_of_the_current_run_witness:
  "server_liveEventSnapshot (fold (\<lambda>(ws', ev). recordLiveEvents ws' ev)
      [(''w'', demo_event EventNodeStarted []), (''w'', demo_event EventNodeProgress [demo_stream ''x'', demo_stream ''y'']),
       (''v'', demo_event EventTaskFailed []), (''w'', demo_event EventNodeProgress [demo_stream ''z''])]
      (start_server demo_registry)) ''w'' ''t'' =
    (''r'', [demo_stream ''x'', demo_stream ''y'', demo_stream ''z''])"
proof -
  have t: "trim_space ''t'' = ''t''" by (rule trim_space_plain) (simp_all add: go_spaces_def)
  show ?thesis
    using live_output_of_the_current_run [of "demo_event EventNodeStarted []" "''t''" "''w''"
        "[(''w'', demo_event EventNodeProgress [demo_stream ''x'', demo_stream ''y'']), (''v'', demo_event EventTaskFailed []),
          (''w'', demo_event EventNodeProgress [demo_stream ''z''])]" "demo_event EventNodeCompleted []" "start_server demo_registry"] t
    by (simp add: demo_event_def of_task_def progress_events_def last_200_def Let_def)
qed

end
