(* ===== verification/Catalogue.thy ===== *)
theory Catalogue
  imports Validate Workspaces
begin

text \<open>
  The catalogue of task configurations (cli/internal/taskconfig/registry.go, registry_ops.go,
  builtins.go): a registry of named bundles in a JSON file, and the bundles, which are directories of
  one configuration directory.  The Unicode tables, the YAML of configurations, the embedded files of
  the builtin configurations with their hashes, and the outcome of writing are arguments.  Strings are
  valid UTF-8, so the JSON file holds a registry as it is.
\<close>

section \<open>Names and paths\<close>

datatype rune_kind = LetterOrDigit | Separator | OtherRune

text \<open>
  catRunes reads a string as its runes, each with its bytes and the case of slugifyBundlePath it is
  in.  catConfig and catPrompts are the embedded files: the configuration of a builtin, and the
  prompts by their segments below defaults/prompts.  catYaml is the YAML decoder into rawConfig,
  catMarshal yaml.Marshal, catPin the edit of the YAML node tree in applyRuntimeToConfigYAML, catHash
  the hexadecimal text of SHA-256.
\<close>

record cat_env =
  catLower :: "string \<Rightarrow> string"
  catRunes :: "string \<Rightarrow> (string \<times> rune_kind) list"
  catDir :: string
  catConfig :: "string \<Rightarrow> string"
  catPrompts :: "(string list \<times> string) list"
  catHash :: "string \<Rightarrow> string"
  catGo :: go_env
  catYaml :: "string \<Rightarrow> rawConfig option"
  catMarshal :: "Config \<Rightarrow> string option"
  catPin :: "string \<Rightarrow> string \<Rightarrow> string option"

record RegistryEntry =
  EntAlias :: string
  EntPath :: string
  EntBuiltinID :: string

record Registry =
  RgDefaultAlias :: string
  RgConfigs :: "RegistryEntry list"

datatype cat_error =
    AliasMissing
  | DuplicateAlias string
  | BundlePathRequired
  | BundlePathNotRelative
  | BundlePathOutside
  | BundlePathNotDirectory
  | DuplicatePath string
  | DuplicateBuiltin string
  | RegistryUnreadable
  | CatReadFailed
  | CatWriteFailed
  | SourceRequired
  | SourceInvalid
  | AliasExists string
  | AliasUnknown string
  | BuiltinFixed string
  | NotBuiltin string
  | BundleNotDirectory
  | YamlFailed
  | RuntimeUnsupported string
  | ConfigInvalid config_error
  | MarshalFailed
  | TriesExhausted

definition DefaultAlias :: string where
  "DefaultAlias = ''default''"

definition managedConfigFile :: string where
  "managedConfigFile = ''config.yaml''"

definition managedBuiltinRevisionFile :: string where
  "managedBuiltinRevisionFile = ''.muxagent-builtin-revision''"

definition builtinDefs :: "(string \<times> nat) list" where
  "builtinDefs = [(''default'', 10), (''plan-only'', 20), (''single-run'', 30), (''autonomous'', 40), (''yolo'', 50)]"

definition IsBuiltinID :: "string \<Rightarrow> bool" where
  "IsBuiltinID bid \<longleftrightarrow> trim_space bid \<in> set (map fst builtinDefs)"

definition builtinDisplayOrder :: "string \<Rightarrow> nat" where
  "builtinDisplayOrder bid = (case map_of builtinDefs (trim_space bid) of None \<Rightarrow> 0 | Some n \<Rightarrow> n)"

definition isBuiltinEntry :: "RegistryEntry \<Rightarrow> bool" where
  "isBuiltinEntry e \<longleftrightarrow> IsBuiltinID (EntBuiltinID e)"

definition builtinBundlePath :: "string \<Rightarrow> string" where
  "builtinBundlePath bid = ''builtin/'' @ bid"

text \<open>filepath.Ext: from the last dot of the last element\<close>

definition Ext :: "string \<Rightarrow> string" where
  "Ext path =
     (let name = rev (takeWhile (\<lambda>c. c \<noteq> slash) (rev path))
      in if CHR ''.'' \<in> set name then CHR ''.'' # rev (takeWhile (\<lambda>c. c \<noteq> CHR ''.'') (rev name)) else [])"

definition normalizeRegistryBundlePath :: "cat_env \<Rightarrow> string \<Rightarrow> cat_error + string" where
  "normalizeRegistryBundlePath env rawPath =
     (let clean = Clean (trim_space rawPath)
      in if clean = ''.'' \<or> clean = [] then Inl BundlePathRequired
         else if IsAbs clean then Inl BundlePathNotRelative
         else if clean = ''..'' \<or> prefix ''../'' clean then Inl BundlePathOutside
         else if catLower env (Ext clean) \<in> {''.yaml'', ''.yml''} then Inl BundlePathNotDirectory
         else Inr clean)"

definition canonicalRegistryBundlePathKey :: "cat_env \<Rightarrow> string \<Rightarrow> string" where
  "canonicalRegistryBundlePathKey env path = catLower env (trim_space path)"

text \<open>compareRegistryEntries, by the keys it compares in turn\<close>

definition compareRegistryEntries :: "cat_env \<Rightarrow> RegistryEntry \<Rightarrow> RegistryEntry \<Rightarrow> bool" where
  "compareRegistryEntries env left right =
     (let leftOrder = builtinDisplayOrder (EntBuiltinID left); rightOrder = builtinDisplayOrder (EntBuiltinID right);
          leftKey = catLower env (EntAlias left); rightKey = catLower env (EntAlias right)
      in if isBuiltinEntry left \<and> \<not> isBuiltinEntry right then True
         else if \<not> isBuiltinEntry left \<and> isBuiltinEntry right then False
         else if isBuiltinEntry left \<and> isBuiltinEntry right \<and> leftOrder \<noteq> rightOrder then leftOrder < rightOrder
         else if leftKey \<noteq> rightKey then leftKey < rightKey
         else EntAlias left < EntAlias right)"

text \<open>The loop of normalizeRegistry, with what it has seen\<close>

fun normalize_entries ::
  "cat_env \<Rightarrow> string list \<Rightarrow> string list \<Rightarrow> string list \<Rightarrow> RegistryEntry list \<Rightarrow> cat_error + RegistryEntry list" where
  "normalize_entries env aliases paths builtins [] = Inr []"
| "normalize_entries env aliases paths builtins (entry # entries) =
     (let alias = trim_space (EntAlias entry)
      in if alias = [] then Inl AliasMissing
         else if alias \<in> set aliases then Inl (DuplicateAlias alias)
         else
           (case normalizeRegistryBundlePath env (EntPath entry) of
              Inl err \<Rightarrow> Inl err
            | Inr path \<Rightarrow>
                let pathKey = canonicalRegistryBundlePathKey env path; builtin = IsBuiltinID (EntBuiltinID entry)
                in if pathKey \<in> set paths then Inl (DuplicatePath path)
                   else if builtin \<and> EntBuiltinID entry \<in> set builtins then Inl (DuplicateBuiltin (EntBuiltinID entry))
                   else
                     (case normalize_entries env (alias # aliases) (pathKey # paths)
                             (if builtin then EntBuiltinID entry # builtins else builtins) entries of
                        Inl err \<Rightarrow> Inl err
                      | Inr rest \<Rightarrow>
                          Inr (\<lparr>EntAlias = alias, EntPath = path,
                                EntBuiltinID = (if builtin then EntBuiltinID entry else [])\<rparr> # rest))))"

definition registryHasAlias :: "RegistryEntry list \<Rightarrow> string \<Rightarrow> bool" where
  "registryHasAlias entries alias \<longleftrightarrow> alias \<in> EntAlias ` set entries"

definition normalizeRegistry :: "cat_env \<Rightarrow> Registry \<Rightarrow> cat_error + Registry" where
  "normalizeRegistry env reg =
     (case normalize_entries env [] [] [] (RgConfigs reg) of
        Inl err \<Rightarrow> Inl err
      | Inr entries \<Rightarrow>
          let configs = sort_slice (compareRegistryEntries env) entries;
              given = trim_space (RgDefaultAlias reg);
              wanted = (if given = [] then DefaultAlias else given);
              chosen =
                (if registryHasAlias configs wanted \<or> wanted = DefaultAlias then wanted
                 else if registryHasAlias configs DefaultAlias then DefaultAlias
                 else case configs of e # _ \<Rightarrow> EntAlias e | [] \<Rightarrow> DefaultAlias)
          in Inr \<lparr>RgDefaultAlias = chosen, RgConfigs = configs\<rparr>)"

section \<open>Fresh names\<close>

definition candidate :: "string \<Rightarrow> nat \<Rightarrow> string" where
  "candidate base k = (if k = 1 then base else base @ ''-'' @ show_nat k)"

text \<open>
  The loops of nextAvailableBundlePath, nextAvailableAlias and nextAvailableBuiltinBackupDir: they
  have no bound, so the number of tries is an argument and running out of it is None.
\<close>

fun next_free :: "nat \<Rightarrow> (string \<Rightarrow> bool) \<Rightarrow> string \<Rightarrow> nat \<Rightarrow> string option" where
  "next_free 0 taken base k = None"
| "next_free (Suc tries) taken base k =
     (if taken (candidate base k) then next_free tries taken base (Suc k) else Some (candidate base k))"

text \<open>The builder of slugifyBundlePath: what it holds, and lastDash\<close>

fun slug_runes :: "string \<Rightarrow> bool \<Rightarrow> (string \<times> rune_kind) list \<Rightarrow> string" where
  "slug_runes out lastDash [] = out"
| "slug_runes out lastDash ((r, kind) # rs) =
     (case kind of
        LetterOrDigit \<Rightarrow> slug_runes (out @ r) False rs
      | Separator \<Rightarrow> if out = [] \<or> lastDash then slug_runes out lastDash rs else slug_runes (out @ ''-'') True rs
      | OtherRune \<Rightarrow> slug_runes out lastDash rs)"

definition trim_dashes :: "string \<Rightarrow> string" where
  "trim_dashes s = rev (dropWhile (\<lambda>c. c = CHR ''-'') (rev (dropWhile (\<lambda>c. c = CHR ''-'') s)))"

definition slugifyBundlePath :: "cat_env \<Rightarrow> string \<Rightarrow> string" where
  "slugifyBundlePath env alias =
     (let result = trim_dashes (slug_runes [] False (catRunes env (trim_space (catLower env alias))))
      in if result = [] then ''config'' else result)"

definition nextAvailableBundlePath :: "cat_env \<Rightarrow> nat \<Rightarrow> Registry \<Rightarrow> string \<Rightarrow> string option" where
  "nextAvailableBundlePath env tries reg alias =
     (let base = slugifyBundlePath env alias;
          seen = map (\<lambda>e. canonicalRegistryBundlePathKey env (EntPath e)) (RgConfigs reg)
      in next_free tries (\<lambda>c. canonicalRegistryBundlePathKey env c \<in> set seen) (if base = [] then ''config'' else base) 1)"

definition nextAvailableAlias :: "nat \<Rightarrow> Registry \<Rightarrow> string \<Rightarrow> string option" where
  "nextAvailableAlias tries reg base =
     (let base = trim_space base
      in next_free tries (\<lambda>c. registryHasAlias (RgConfigs reg) c) (if base = [] then ''config'' else base) 1)"

section \<open>Files below the configuration directory\<close>

text \<open>
  The regular files by their segments below taskconfigs.  A directory is there while it holds a file;
  what fails is what these paths make fail: a file in the place of a directory or the other way
  round.
\<close>

type_synonym files = "(string list, string) gomap"

datatype stat = StatFile | StatDir | StatMissing | StatBlocked

definition Stat_path :: "files \<Rightarrow> string list \<Rightarrow> stat" where
  "Stat_path fs p =
     (if map_of fs p \<noteq> None then StatFile
      else if list_ex (\<lambda>(q, _). strict_prefix p q) fs then StatDir
      else if list_ex (\<lambda>(q, _). strict_prefix q p) fs then StatBlocked
      else StatMissing)"

text \<open>os.ReadFile: None is a file that does not exist\<close>

definition read_path :: "files \<Rightarrow> string list \<Rightarrow> cat_error + string option" where
  "read_path fs p =
     (case Stat_path fs p of
        StatFile \<Rightarrow> Inr (map_of fs p) | StatMissing \<Rightarrow> Inr None | StatDir \<Rightarrow> Inl CatReadFailed | StatBlocked \<Rightarrow> Inl CatReadFailed)"

definition writeManagedAssetFile :: "string list \<Rightarrow> string \<Rightarrow> files \<Rightarrow> cat_error option \<times> files" where
  "writeManagedAssetFile destPath data fs =
     (if Stat_path fs destPath \<in> {StatDir, StatBlocked} then (Some CatWriteFailed, fs)
      else (None, map_put destPath data fs))"

definition ensureManagedAssetFile :: "string list \<Rightarrow> string \<Rightarrow> files \<Rightarrow> cat_error option \<times> files" where
  "ensureManagedAssetFile destPath data fs =
     (case Stat_path fs destPath of
        StatFile \<Rightarrow> (None, fs) | StatDir \<Rightarrow> (None, fs) | StatBlocked \<Rightarrow> (Some CatReadFailed, fs)
      | StatMissing \<Rightarrow> writeManagedAssetFile destPath data fs)"

definition remove_all :: "string list \<Rightarrow> files \<Rightarrow> files" where
  "remove_all d fs = filter (\<lambda>(p, _). \<not> prefix d p) fs"

definition rename_dir :: "string list \<Rightarrow> string list \<Rightarrow> files \<Rightarrow> files" where
  "rename_dir src dst fs = map (\<lambda>(p, data). (if prefix src p then dst @ drop (length src) p else p, data)) fs"

text \<open>The writes of a loop, up to the first that fails\<close>

fun write_all ::
  "(string list \<Rightarrow> string \<Rightarrow> files \<Rightarrow> cat_error option \<times> files) \<Rightarrow> (string list \<times> string) list \<Rightarrow> files \<Rightarrow>
     cat_error option \<times> files" where
  "write_all write [] fs = (None, fs)"
| "write_all write ((p, data) # rest) fs =
     (case write p data fs of
        (Some err, fs) \<Rightarrow> (Some err, fs)
      | (None, fs) \<Rightarrow> write_all write rest fs)"

text \<open>copyDir, from one tree into another: filepath.Walk visits in the order of the segments\<close>

definition files_below :: "string list \<Rightarrow> files \<Rightarrow> (string list \<times> string) list" where
  "files_below d fs =
     map (\<lambda>(p, data). (drop (length d) p, data))
       (sort_slice (\<lambda>a b. fst a < fst b) (filter (\<lambda>(p, _). strict_prefix d p) fs))"

definition copyDir :: "files \<Rightarrow> string list \<Rightarrow> string list \<Rightarrow> files \<Rightarrow> cat_error option \<times> files" where
  "copyDir srcFiles src dst fs =
     (if Stat_path srcFiles src \<noteq> StatDir then (Some SourceInvalid, fs)
      else write_all writeManagedAssetFile (map (\<lambda>(rel, data). (dst @ rel, data)) (files_below src srcFiles)) fs)"

section \<open>Builtin bundles\<close>

definition builtinConfigAsset :: "string \<Rightarrow> string" where
  "builtinConfigAsset bid = ''defaults/'' @ bid @ ''.yaml''"

definition prompt_asset :: "string list \<Rightarrow> string" where
  "prompt_asset segs = ''defaults/prompts/'' @ join_on slash segs"

text \<open>
  builtinAssetFiles with builtinPromptDestPath and the file's content: the asset, where it goes in
  the bundle, and its data, in the order of the asset paths.
\<close>

definition builtinAssetFiles :: "cat_env \<Rightarrow> string \<Rightarrow> (string \<times> string list \<times> string) list" where
  "builtinAssetFiles env bid =
     sort_slice (\<lambda>a b. fst a < fst b)
       ((builtinConfigAsset bid, [managedConfigFile], catConfig env bid) #
        map (\<lambda>(segs, data). (prompt_asset segs, ''prompts'' # segs, data)) (catPrompts env))"

definition builtinBundleRevision :: "cat_env \<Rightarrow> string \<Rightarrow> string" where
  "builtinBundleRevision env bid =
     catHash env (concat (map (\<lambda>(asset, _, data). asset @ [CHR 0x00] @ data @ [CHR 0x00]) (builtinAssetFiles env bid)))"

definition readBuiltinBundleRevision :: "string list \<Rightarrow> files \<Rightarrow> cat_error + string" where
  "readBuiltinBundleRevision bundleDir fs =
     (case read_path fs (bundleDir @ [managedBuiltinRevisionFile]) of
        Inl err \<Rightarrow> Inl err
      | Inr None \<Rightarrow> Inr []
      | Inr (Some data) \<Rightarrow> Inr (trim_space data))"

definition writeBuiltinBundleRevision :: "string list \<Rightarrow> string \<Rightarrow> files \<Rightarrow> cat_error option \<times> files" where
  "writeBuiltinBundleRevision bundleDir revision =
     writeManagedAssetFile (bundleDir @ [managedBuiltinRevisionFile]) (revision @ [CHR 0x0A])"

definition builtinConfigMatchesEmbedded :: "cat_env \<Rightarrow> string \<Rightarrow> string \<Rightarrow> cat_error + bool" where
  "builtinConfigMatchesEmbedded env currentData expectedData =
     (if currentData = expectedData then Inr True
      else
        (case catYaml env currentData of
           None \<Rightarrow> Inr False
         | Some currentRaw \<Rightarrow>
             (case catYaml env expectedData of
                None \<Rightarrow> Inl YamlFailed
              | Some expectedRaw \<Rightarrow> Inr (currentRaw\<lparr>rawRuntime := None\<rparr> = expectedRaw\<lparr>rawRuntime := None\<rparr>))))"

fun assets_match :: "cat_env \<Rightarrow> string list \<Rightarrow> files \<Rightarrow> (string \<times> string list \<times> string) list \<Rightarrow> cat_error + bool" where
  "assets_match env bundleDir fs [] = Inr True"
| "assets_match env bundleDir fs ((asset, dest, expectedData) # rest) =
     (case read_path fs (bundleDir @ dest) of
        Inl err \<Rightarrow> Inl err
      | Inr None \<Rightarrow> Inr False
      | Inr (Some currentData) \<Rightarrow>
          if dest = [managedConfigFile] then
            (case builtinConfigMatchesEmbedded env currentData expectedData of
               Inl err \<Rightarrow> Inl err
             | Inr same \<Rightarrow> if same then assets_match env bundleDir fs rest else Inr False)
          else if currentData = expectedData then assets_match env bundleDir fs rest
          else Inr False)"

definition builtinBundleMatchesCurrentAssets :: "cat_env \<Rightarrow> string list \<Rightarrow> string \<Rightarrow> files \<Rightarrow> cat_error + bool" where
  "builtinBundleMatchesCurrentAssets env bundleDir bid fs = assets_match env bundleDir fs (builtinAssetFiles env bid)"

text \<open>The runtime the bundle's configuration names, if it names a supported one\<close>

definition loadExplicitBuiltinRuntime :: "cat_env \<Rightarrow> string list \<Rightarrow> files \<Rightarrow> cat_error + string option" where
  "loadExplicitBuiltinRuntime env bundleDir fs =
     (case read_path fs (bundleDir @ [managedConfigFile]) of
        Inl err \<Rightarrow> Inl err
      | Inr None \<Rightarrow> Inr None
      | Inr (Some data) \<Rightarrow>
          (case catYaml env data of
             None \<Rightarrow> Inr None
           | Some raw \<Rightarrow>
               (case rawRuntime raw of
                  None \<Rightarrow> Inr None
                | Some r \<Rightarrow> if IsSupportedRuntime (trim_space r) then Inr (Some (trim_space r)) else Inr None)))"

definition nextAvailableBuiltinBackupDir :: "nat \<Rightarrow> files \<Rightarrow> string \<Rightarrow> cat_error + string list" where
  "nextAvailableBuiltinBackupDir tries fs bid =
     (case next_free tries (\<lambda>c. Stat_path fs [c] \<noteq> StatMissing) (''backup-'' @ bid) 1 of
        None \<Rightarrow> Inl TriesExhausted | Some c \<Rightarrow> Inr [c])"

definition backupBuiltinBundle :: "nat \<Rightarrow> string \<Rightarrow> string list \<Rightarrow> files \<Rightarrow> cat_error option \<times> files" where
  "backupBuiltinBundle tries bid bundleDir fs =
     (case Stat_path fs bundleDir of
        StatMissing \<Rightarrow> (None, fs)
      | StatBlocked \<Rightarrow> (Some CatReadFailed, fs)
      | StatFile \<Rightarrow> (Some BundleNotDirectory, fs)
      | StatDir \<Rightarrow>
          (case nextAvailableBuiltinBackupDir tries fs bid of
             Inl err \<Rightarrow> (Some err, fs)
           | Inr backupDir \<Rightarrow> (None, rename_dir bundleDir backupDir fs)))"

definition builtinAssetDataForWrite ::
  "cat_env \<Rightarrow> string \<Rightarrow> string \<Rightarrow> string \<Rightarrow> string option \<Rightarrow> cat_error + string" where
  "builtinAssetDataForWrite env bid asset data pinnedRuntime =
     (if asset \<noteq> builtinConfigAsset bid then Inr data
      else (case pinnedRuntime of
              None \<Rightarrow> Inr data
            | Some r \<Rightarrow> (case catPin env data r of None \<Rightarrow> Inl YamlFailed | Some d \<Rightarrow> Inr d)))"

text \<open>The loop of writeBuiltinBundle over the assets\<close>

fun write_assets ::
  "cat_env \<Rightarrow> string \<Rightarrow> string list \<Rightarrow> bool \<Rightarrow> string option \<Rightarrow> (string \<times> string list \<times> string) list \<Rightarrow> files \<Rightarrow>
     cat_error option \<times> files" where
  "write_assets env bid bundleDir overwrite pinned [] fs = (None, fs)"
| "write_assets env bid bundleDir overwrite pinned ((asset, dest, embedded) # rest) fs =
     (case builtinAssetDataForWrite env bid asset embedded pinned of
        Inl err \<Rightarrow> (Some err, fs)
      | Inr data \<Rightarrow>
          (case (if overwrite then writeManagedAssetFile (bundleDir @ dest) data fs
                 else ensureManagedAssetFile (bundleDir @ dest) data fs) of
             (Some err, fs) \<Rightarrow> (Some err, fs)
           | (None, fs) \<Rightarrow> write_assets env bid bundleDir overwrite pinned rest fs))"

definition writeBuiltinBundle ::
  "cat_env \<Rightarrow> string list \<Rightarrow> string \<Rightarrow> bool \<Rightarrow> string option \<Rightarrow> files \<Rightarrow> cat_error option \<times> files" where
  "writeBuiltinBundle env bundleDir bid overwrite pinned fs =
     (case write_assets env bid bundleDir overwrite pinned (builtinAssetFiles env bid) fs of
        (Some err, fs) \<Rightarrow> (Some err, fs)
      | (None, fs) \<Rightarrow> writeBuiltinBundleRevision bundleDir (builtinBundleRevision env bid) fs)"

definition syncBuiltinBundle :: "cat_env \<Rightarrow> nat \<Rightarrow> string \<Rightarrow> files \<Rightarrow> cat_error option \<times> files" where
  "syncBuiltinBundle env tries bid fs =
     (let bundleDir = path_segments (builtinBundlePath bid)
      in case readBuiltinBundleRevision bundleDir fs of
           Inl err \<Rightarrow> (Some err, fs)
         | Inr currentRevision \<Rightarrow>
             if currentRevision = builtinBundleRevision env bid then writeBuiltinBundle env bundleDir bid False None fs
             else
               (case builtinBundleMatchesCurrentAssets env bundleDir bid fs of
                  Inl err \<Rightarrow> (Some err, fs)
                | Inr matchesCurrent \<Rightarrow>
                    if matchesCurrent then writeBuiltinBundle env bundleDir bid False None fs
                    else
                      (case loadExplicitBuiltinRuntime env bundleDir fs of
                         Inl err \<Rightarrow> (Some err, fs)
                       | Inr pinnedRuntime \<Rightarrow>
                           (case backupBuiltinBundle tries bid bundleDir fs of
                              (Some err, fs) \<Rightarrow> (Some err, fs)
                            | (None, fs) \<Rightarrow> writeBuiltinBundle env bundleDir bid True pinnedRuntime fs))))"

section \<open>The registry file\<close>

text \<open>What taskconfig.json holds; an interrupted os.WriteFile leaves a file that is not JSON.\<close>

datatype catalogue_file = NoCatalogue | BadCatalogue | StoredCatalogue Registry

datatype write_outcome = Written | Untouched | Torn

record cat_store =
  CtFile :: catalogue_file
  CtFiles :: files

text \<open>
  What a call meets outside the program: the outcomes of writing the registry in the call itself, in
  seedTaskConfigFromLegacyIfNeeded and in ensureBuiltinDefaults, the store of the legacy root (None
  when the task home is not overridden or is that root), and a bound of the tries for a fresh name.
\<close>

record cat_io =
  ioSave :: write_outcome
  ioSeed :: write_outcome
  ioDefaults :: write_outcome
  ioLegacy :: "cat_store option"
  ioTries :: nat

definition LoadRegistry :: "cat_env \<Rightarrow> cat_store \<Rightarrow> cat_error + Registry" where
  "LoadRegistry env st =
     (case CtFile st of
        NoCatalogue \<Rightarrow> Inr \<lparr>RgDefaultAlias = [], RgConfigs = []\<rparr>
      | BadCatalogue \<Rightarrow> Inl RegistryUnreadable
      | StoredCatalogue reg \<Rightarrow> normalizeRegistry env reg)"

definition SaveRegistry :: "cat_env \<Rightarrow> write_outcome \<Rightarrow> Registry \<Rightarrow> cat_store \<Rightarrow> cat_error option \<times> cat_store" where
  "SaveRegistry env out reg st =
     (case normalizeRegistry env reg of
        Inl err \<Rightarrow> (Some err, st)
      | Inr normalized \<Rightarrow>
          (case out of
             Written \<Rightarrow> (None, st\<lparr>CtFile := StoredCatalogue normalized\<rparr>)
           | Untouched \<Rightarrow> (Some CatWriteFailed, st)
           | Torn \<Rightarrow> (Some CatWriteFailed, st\<lparr>CtFile := BadCatalogue\<rparr>)))"

definition registryEntryByAlias :: "RegistryEntry list \<Rightarrow> string \<Rightarrow> RegistryEntry option" where
  "registryEntryByAlias entries alias = find (\<lambda>e. EntAlias e = alias) entries"

definition registryEntryByBuiltinID :: "RegistryEntry list \<Rightarrow> string \<Rightarrow> RegistryEntry option" where
  "registryEntryByBuiltinID entries builtinID = find (\<lambda>e. EntBuiltinID e = builtinID) entries"

definition registryEntryIndex :: "RegistryEntry list \<Rightarrow> string \<Rightarrow> nat option" where
  "registryEntryIndex entries alias = first_index (\<lambda>e. EntAlias e = alias) entries"

text \<open>
  resolveRegistryEntryPath, with paths below taskconfigs as segments: the bundle's directory and its
  configuration.  The result of filepath.Rel leaves the directory when the clean path does.
\<close>

definition resolveRegistryEntryPath :: "cat_env \<Rightarrow> string \<Rightarrow> cat_error + string list \<times> string list" where
  "resolveRegistryEntryPath env relPath =
     (case normalizeRegistryBundlePath env relPath of
        Inl err \<Rightarrow> Inl err
      | Inr clean \<Rightarrow>
          let segs = path_segments clean
          in if segs \<noteq> [] \<and> hd segs = ''..'' then Inl BundlePathOutside else Inr (segs, segs @ [managedConfigFile]))"

section \<open>The builtins in the registry\<close>

definition isSeedableUserEntry :: "cat_env \<Rightarrow> RegistryEntry \<Rightarrow> bool" where
  "isSeedableUserEntry env entry \<longleftrightarrow>
     \<not> isBuiltinEntry entry \<and>
     (case normalizeRegistryBundlePath env (EntPath entry) of
        Inl err \<Rightarrow> False
      | Inr clean \<Rightarrow> clean \<notin> (\<lambda>(bid, _). builtinBundlePath bid) ` set builtinDefs)"

text \<open>The loop over the bundles to copy: a failed copy ends the seeding without a registry.\<close>

fun seed_bundles :: "cat_env \<Rightarrow> files \<Rightarrow> RegistryEntry list \<Rightarrow> files \<Rightarrow> bool \<times> files" where
  "seed_bundles env srcFiles [] fs = (True, fs)"
| "seed_bundles env srcFiles (entry # rest) fs =
     (case normalizeRegistryBundlePath env (EntPath entry) of
        Inl err \<Rightarrow> seed_bundles env srcFiles rest fs
      | Inr path \<Rightarrow>
          let dir = path_segments path
          in if Stat_path srcFiles dir \<in> {StatMissing, StatBlocked} then seed_bundles env srcFiles rest fs
             else (case copyDir srcFiles dir dir fs of
                     (Some err, fs) \<Rightarrow> (False, fs)
                   | (None, fs) \<Rightarrow> seed_bundles env srcFiles rest fs))"

definition seedTaskConfigFromLegacyIfNeeded :: "cat_env \<Rightarrow> cat_io \<Rightarrow> cat_store \<Rightarrow> cat_error option \<times> cat_store" where
  "seedTaskConfigFromLegacyIfNeeded env io st =
     (case ioLegacy io of
        None \<Rightarrow> (None, st)
      | Some legacy \<Rightarrow>
          if CtFile st \<noteq> NoCatalogue then (None, st)
          else
            (case LoadRegistry env legacy of
               Inl err \<Rightarrow> (None, st)
             | Inr sourceReg \<Rightarrow>
                 let seeded = sourceReg\<lparr>RgConfigs := filter (isSeedableUserEntry env) (RgConfigs sourceReg)\<rparr>
                 in if RgConfigs seeded = [] then (None, st)
                    else (case seed_bundles env (CtFiles legacy) (RgConfigs seeded) (CtFiles st) of
                            (False, fs) \<Rightarrow> (None, st\<lparr>CtFiles := fs\<rparr>)
                          | (True, fs) \<Rightarrow> SaveRegistry env (ioSeed io) seeded (st\<lparr>CtFiles := fs\<rparr>))))"

text \<open>The loop of ensureBuiltinDefaults over the builtins\<close>

fun ensure_builtins ::
  "cat_env \<Rightarrow> nat \<Rightarrow> string list \<Rightarrow> Registry \<Rightarrow> bool \<Rightarrow> files \<Rightarrow> (cat_error + Registry \<times> bool) \<times> files" where
  "ensure_builtins env tries [] reg changed fs = (Inr (reg, changed), fs)"
| "ensure_builtins env tries (bid # bids) reg changed fs =
     (if registryEntryByBuiltinID (RgConfigs reg) bid \<noteq> None then
        (case syncBuiltinBundle env tries bid fs of
           (Some err, fs) \<Rightarrow> (Inl err, fs)
         | (None, fs) \<Rightarrow> ensure_builtins env tries bids reg changed fs)
      else
        (case (if registryHasAlias (RgConfigs reg) bid then nextAvailableAlias tries reg (''builtin-'' @ bid) else Some bid) of
           None \<Rightarrow> (Inl TriesExhausted, fs)
         | Some alias \<Rightarrow>
             let reg = reg\<lparr>RgConfigs := RgConfigs reg @ [\<lparr>EntAlias = alias, EntPath = builtinBundlePath bid, EntBuiltinID = bid\<rparr>]\<rparr>
             in (case syncBuiltinBundle env tries bid fs of
                   (Some err, fs) \<Rightarrow> (Inl err, fs)
                 | (None, fs) \<Rightarrow> ensure_builtins env tries bids reg True fs)))"

definition ensureBuiltinDefaults :: "cat_env \<Rightarrow> cat_io \<Rightarrow> cat_store \<Rightarrow> (cat_error + Registry) \<times> cat_store" where
  "ensureBuiltinDefaults env io st =
     (case seedTaskConfigFromLegacyIfNeeded env io st of
        (Some err, st) \<Rightarrow> (Inl err, st)
      | (None, st) \<Rightarrow>
          (case LoadRegistry env st of
             Inl err \<Rightarrow> (Inl err, st)
           | Inr reg \<Rightarrow>
               (case ensure_builtins env (ioTries io) (map fst builtinDefs) reg False (CtFiles st) of
                  (Inl err, fs) \<Rightarrow> (Inl err, st\<lparr>CtFiles := fs\<rparr>)
                | (Inr (reg, changed), fs) \<Rightarrow>
                    let st = st\<lparr>CtFiles := fs\<rparr>
                    in if changed \<or> CtFile st = NoCatalogue then
                         (case SaveRegistry env (ioDefaults io) reg st of
                            (Some err, st) \<Rightarrow> (Inl err, st)
                          | (None, st) \<Rightarrow> (LoadRegistry env st, st))
                       else (normalizeRegistry env reg, st))))"

record CatalogEntry =
  CeAlias :: string
  CePath :: "string list"
  CeBuiltinID :: string
  CeBuiltin :: bool

record Catalog =
  CgDefaultAlias :: string
  CgEntries :: "CatalogEntry list"

definition Catalog_Entry :: "Catalog \<Rightarrow> string \<Rightarrow> CatalogEntry option" where
  "Catalog_Entry c alias = find (\<lambda>e. CeAlias e = alias) (CgEntries c)"

definition firstNonEmptyAlias :: "string list \<Rightarrow> string" where
  "firstNonEmptyAlias values =
     (case filter (\<lambda>v. v \<noteq> []) (map trim_space values) of [] \<Rightarrow> [] | v # _ \<Rightarrow> v)"

definition DefaultEntry :: "Catalog \<Rightarrow> CatalogEntry option" where
  "DefaultEntry c =
     (case Catalog_Entry c (firstNonEmptyAlias [CgDefaultAlias c, DefaultAlias]) of
        Some e \<Rightarrow> Some e
      | None \<Rightarrow>
          (case Catalog_Entry c DefaultAlias of
             Some e \<Rightarrow> Some e
           | None \<Rightarrow> (case CgEntries c of e # _ \<Rightarrow> Some e | [] \<Rightarrow> None)))"

fun catalog_entries :: "cat_env \<Rightarrow> RegistryEntry list \<Rightarrow> cat_error + CatalogEntry list" where
  "catalog_entries env [] = Inr []"
| "catalog_entries env (entry # rest) =
     (case resolveRegistryEntryPath env (EntPath entry) of
        Inl err \<Rightarrow> Inl err
      | Inr (dir, fullPath) \<Rightarrow>
          (case catalog_entries env rest of
             Inl err \<Rightarrow> Inl err
           | Inr entries \<Rightarrow>
               Inr (\<lparr>CeAlias = EntAlias entry, CePath = fullPath, CeBuiltinID = EntBuiltinID entry,
                     CeBuiltin = isBuiltinEntry entry\<rparr> # entries)))"

definition LoadCatalog :: "cat_env \<Rightarrow> cat_io \<Rightarrow> cat_store \<Rightarrow> (cat_error + Catalog) \<times> cat_store" where
  "LoadCatalog env io st =
     (case ensureBuiltinDefaults env io st of
        (Inl err, st) \<Rightarrow> (Inl err, st)
      | (Inr reg, st) \<Rightarrow>
          (case catalog_entries env (RgConfigs reg) of
             Inl err \<Rightarrow> (Inl err, st)
           | Inr entries \<Rightarrow>
               let defaultAlias = firstNonEmptyAlias [RgDefaultAlias reg, DefaultAlias];
                   catalog = \<lparr>CgDefaultAlias = defaultAlias, CgEntries = entries\<rparr>;
                   chosen =
                     (if Catalog_Entry catalog defaultAlias \<noteq> None then defaultAlias
                      else if Catalog_Entry catalog DefaultAlias \<noteq> None then DefaultAlias
                      else case entries of e # _ \<Rightarrow> CeAlias e | [] \<Rightarrow> defaultAlias)
               in (Inr (catalog\<lparr>CgDefaultAlias := chosen\<rparr>), st)))"

section \<open>Operations\<close>

text \<open>
  BundlePathForConfigPath, for paths without a trailing slash: the directory of the configuration,
  below the configuration directory.
\<close>

definition dir_part :: "string \<Rightarrow> string" where
  "dir_part path = rev (dropWhile (\<lambda>c. c \<noteq> slash) (rev path))"

definition BundlePathForConfigPath :: "cat_env \<Rightarrow> string \<Rightarrow> cat_error + string list" where
  "BundlePathForConfigPath env configPath =
     (let configPath = trim_space configPath; dir = path_segments (dir_part configPath); root = path_segments (catDir env)
      in if configPath = [] then Inl SourceRequired
         else if \<not> IsAbs configPath then Inl SourceInvalid
         else if dir = root then Inl SourceInvalid
         else if prefix root dir then Inr (drop (length root) dir)
         else Inl SourceInvalid)"

text \<open>validateManagedConfigPath, with the bundle's directory as its result\<close>

definition validateManagedConfigPath :: "cat_env \<Rightarrow> files \<Rightarrow> string \<Rightarrow> cat_error + string list" where
  "validateManagedConfigPath env fs configPath =
     (if Base configPath \<noteq> managedConfigFile \<or> last configPath = slash then Inl SourceInvalid
      else
        (case BundlePathForConfigPath env configPath of
           Inl err \<Rightarrow> Inl SourceInvalid
         | Inr dir \<Rightarrow> if Stat_path fs (dir @ [managedConfigFile]) = StatFile then Inr dir else Inl SourceInvalid))"

definition CloneConfig :: "cat_env \<Rightarrow> cat_io \<Rightarrow> string \<Rightarrow> string \<Rightarrow> cat_store \<Rightarrow> (cat_error + Catalog) \<times> cat_store" where
  "CloneConfig env io alias sourceConfigPath st =
     (let alias = trim_space alias; sourceConfigPath = trim_space sourceConfigPath
      in if alias = [] then (Inl AliasMissing, st)
         else if sourceConfigPath = [] then (Inl SourceRequired, st)
         else
           (case validateManagedConfigPath env (CtFiles st) sourceConfigPath of
              Inl err \<Rightarrow> (Inl err, st)
            | Inr sourceDir \<Rightarrow>
                (case LoadRegistry env st of
                   Inl err \<Rightarrow> (Inl err, st)
                 | Inr reg \<Rightarrow>
                     if registryEntryByAlias (RgConfigs reg) alias \<noteq> None then (Inl (AliasExists alias), st)
                     else
                       (case nextAvailableBundlePath env (ioTries io) reg alias of
                          None \<Rightarrow> (Inl TriesExhausted, st)
                        | Some bundlePath \<Rightarrow>
                            let destDir = path_segments bundlePath
                            in (case copyDir (CtFiles st) sourceDir destDir (CtFiles st) of
                                  (Some err, fs) \<Rightarrow> (Inl err, st\<lparr>CtFiles := remove_all destDir fs\<rparr>)
                                | (None, fs) \<Rightarrow>
                                    let st = st\<lparr>CtFiles := fs\<rparr>;
                                        reg = reg\<lparr>RgConfigs := RgConfigs reg @
                                          [\<lparr>EntAlias = alias, EntPath = bundlePath, EntBuiltinID = []\<rparr>]\<rparr>
                                    in (case SaveRegistry env (ioSave io) reg st of
                                          (Some err, st) \<Rightarrow> (Inl err, st\<lparr>CtFiles := remove_all destDir (CtFiles st)\<rparr>)
                                        | (None, st) \<Rightarrow> LoadCatalog env io st))))))"

text \<open>What the operations that only save a registry end with\<close>

definition save_then_load :: "cat_env \<Rightarrow> cat_io \<Rightarrow> Registry \<Rightarrow> cat_store \<Rightarrow> (cat_error + Catalog) \<times> cat_store" where
  "save_then_load env io reg st =
     (case SaveRegistry env (ioSave io) reg st of
        (Some err, st) \<Rightarrow> (Inl err, st)
      | (None, st) \<Rightarrow> LoadCatalog env io st)"

definition RenameConfigAlias :: "cat_env \<Rightarrow> cat_io \<Rightarrow> string \<Rightarrow> string \<Rightarrow> cat_store \<Rightarrow> (cat_error + Catalog) \<times> cat_store" where
  "RenameConfigAlias env io currentAlias nextAlias st =
     (let currentAlias = trim_space currentAlias; nextAlias = trim_space nextAlias
      in if currentAlias = [] then (Inl AliasMissing, st)
         else if nextAlias = [] then (Inl AliasMissing, st)
         else if currentAlias = nextAlias then LoadCatalog env io st
         else
           (case LoadRegistry env st of
              Inl err \<Rightarrow> (Inl err, st)
            | Inr reg \<Rightarrow>
                (case registryEntryIndex (RgConfigs reg) currentAlias of
                   None \<Rightarrow> (Inl (AliasUnknown currentAlias), st)
                 | Some i \<Rightarrow>
                     if registryEntryByAlias (RgConfigs reg) nextAlias \<noteq> None then (Inl (AliasExists nextAlias), st)
                     else if isBuiltinEntry (RgConfigs reg ! i) then (Inl (BuiltinFixed currentAlias), st)
                     else
                       let configs = (RgConfigs reg)[i := (RgConfigs reg ! i)\<lparr>EntAlias := nextAlias\<rparr>];
                           default = (if RgDefaultAlias reg = currentAlias then nextAlias else RgDefaultAlias reg)
                       in save_then_load env io \<lparr>RgDefaultAlias = default, RgConfigs = configs\<rparr> st)))"

definition SetDefaultConfig :: "cat_env \<Rightarrow> cat_io \<Rightarrow> string \<Rightarrow> cat_store \<Rightarrow> (cat_error + Catalog) \<times> cat_store" where
  "SetDefaultConfig env io alias st =
     (let alias = trim_space alias
      in if alias = [] then (Inl AliasMissing, st)
         else
           (case LoadRegistry env st of
              Inl err \<Rightarrow> (Inl err, st)
            | Inr reg \<Rightarrow>
                if registryEntryByAlias (RgConfigs reg) alias = None then (Inl (AliasUnknown alias), st)
                else save_then_load env io (reg\<lparr>RgDefaultAlias := alias\<rparr>) st))"

definition DeleteConfig :: "cat_env \<Rightarrow> cat_io \<Rightarrow> string \<Rightarrow> cat_store \<Rightarrow> (cat_error + Catalog) \<times> cat_store" where
  "DeleteConfig env io alias st =
     (let alias = trim_space alias
      in if alias = [] then (Inl AliasMissing, st)
         else
           (case LoadRegistry env st of
              Inl err \<Rightarrow> (Inl err, st)
            | Inr reg \<Rightarrow>
                (case registryEntryIndex (RgConfigs reg) alias of
                   None \<Rightarrow> (Inl (AliasUnknown alias), st)
                 | Some i \<Rightarrow>
                     let entry = RgConfigs reg ! i
                     in if isBuiltinEntry entry then (Inl (BuiltinFixed alias), st)
                        else
                          let configs = take i (RgConfigs reg) @ drop (Suc i) (RgConfigs reg);
                              default = (if RgDefaultAlias reg = alias then DefaultAlias else RgDefaultAlias reg)
                          in (case SaveRegistry env (ioSave io) \<lparr>RgDefaultAlias = default, RgConfigs = configs\<rparr> st of
                                (Some err, st) \<Rightarrow> (Inl err, st)
                              | (None, st) \<Rightarrow>
                                  LoadCatalog env io
                                    (st\<lparr>CtFiles := remove_all (path_segments (EntPath entry)) (CtFiles st)\<rparr>)))))"

definition ResetBuiltinConfig :: "cat_env \<Rightarrow> cat_io \<Rightarrow> string \<Rightarrow> cat_store \<Rightarrow> (cat_error + Catalog) \<times> cat_store" where
  "ResetBuiltinConfig env io alias st =
     (let alias = trim_space alias
      in if alias = [] then (Inl AliasMissing, st)
         else
           (case LoadRegistry env st of
              Inl err \<Rightarrow> (Inl err, st)
            | Inr reg \<Rightarrow>
                (case registryEntryByAlias (RgConfigs reg) alias of
                   None \<Rightarrow> (Inl (AliasUnknown alias), st)
                 | Some entry \<Rightarrow>
                     if \<not> isBuiltinEntry entry then (Inl (NotBuiltin alias), st)
                     else
                       (case resolveRegistryEntryPath env (EntPath entry) of
                          Inl err \<Rightarrow> (Inl err, st)
                        | Inr (bundleDir, _) \<Rightarrow>
                            (case writeBuiltinBundle env bundleDir (EntBuiltinID entry) True None
                                    (remove_all bundleDir (CtFiles st)) of
                               (Some err, fs) \<Rightarrow> (Inl err, st\<lparr>CtFiles := fs\<rparr>)
                             | (None, fs) \<Rightarrow> LoadCatalog env io (st\<lparr>CtFiles := fs\<rparr>))))))"

text \<open>
  Load, the new runtime and yaml.Marshal, then os.WriteFile: what SetConfigRuntime and the loop of
  SetBuiltinRuntimes do with one configuration
\<close>

definition write_runtime :: "cat_env \<Rightarrow> string \<Rightarrow> string \<Rightarrow> files \<Rightarrow> cat_error option \<times> files" where
  "write_runtime env path runtime fs =
     (case resolveRegistryEntryPath env path of
        Inl err \<Rightarrow> (Some err, fs)
      | Inr (_, configPath) \<Rightarrow>
          (case read_path fs configPath of
             Inl err \<Rightarrow> (Some err, fs)
           | Inr None \<Rightarrow> (Some CatReadFailed, fs)
           | Inr (Some data) \<Rightarrow>
               (case parse_config (catGo env) (catYaml env) data of
                  Inl err \<Rightarrow> (Some (ConfigInvalid err), fs)
                | Inr cfg \<Rightarrow>
                    (case catMarshal env (cfg\<lparr>Runtime := runtime\<rparr>) of
                       None \<Rightarrow> (Some MarshalFailed, fs)
                     | Some text \<Rightarrow> (None, map_put configPath text fs)))))"

fun write_runtimes :: "cat_env \<Rightarrow> string \<Rightarrow> RegistryEntry list \<Rightarrow> files \<Rightarrow> cat_error option \<times> files" where
  "write_runtimes env runtime [] fs = (None, fs)"
| "write_runtimes env runtime (entry # rest) fs =
     (if \<not> isBuiltinEntry entry then write_runtimes env runtime rest fs
      else (case write_runtime env (EntPath entry) runtime fs of
              (Some err, fs) \<Rightarrow> (Some err, fs)
            | (None, fs) \<Rightarrow> write_runtimes env runtime rest fs))"

definition SetBuiltinRuntimes :: "cat_env \<Rightarrow> cat_io \<Rightarrow> string \<Rightarrow> cat_store \<Rightarrow> (cat_error + Catalog) \<times> cat_store" where
  "SetBuiltinRuntimes env io runtime st =
     (if \<not> IsSupportedRuntime runtime then (Inl (RuntimeUnsupported runtime), st)
      else
        (case ensureBuiltinDefaults env io st of
           (Inl err, st) \<Rightarrow> (Inl err, st)
         | (Inr reg, st) \<Rightarrow>
             (case write_runtimes env runtime (RgConfigs reg) (CtFiles st) of
                (Some err, fs) \<Rightarrow> (Inl err, st\<lparr>CtFiles := fs\<rparr>)
              | (None, fs) \<Rightarrow> LoadCatalog env io (st\<lparr>CtFiles := fs\<rparr>))))"

definition SetConfigRuntime :: "cat_env \<Rightarrow> cat_io \<Rightarrow> string \<Rightarrow> string \<Rightarrow> cat_store \<Rightarrow> (cat_error + Catalog) \<times> cat_store" where
  "SetConfigRuntime env io alias runtime st =
     (let alias = trim_space alias
      in if alias = [] then (Inl AliasMissing, st)
         else if \<not> IsSupportedRuntime runtime then (Inl (RuntimeUnsupported runtime), st)
         else
           (case LoadRegistry env st of
              Inl err \<Rightarrow> (Inl err, st)
            | Inr reg \<Rightarrow>
                (case registryEntryByAlias (RgConfigs reg) alias of
                   None \<Rightarrow> (Inl (AliasUnknown alias), st)
                 | Some entry \<Rightarrow>
                     (case write_runtime env (EntPath entry) runtime (CtFiles st) of
                        (Some err, fs) \<Rightarrow> (Inl err, st\<lparr>CtFiles := fs\<rparr>)
                      | (None, fs) \<Rightarrow> LoadCatalog env io (st\<lparr>CtFiles := fs\<rparr>)))))"

end
