(* ===== verification/Bundles.thy ===== *)
theory Bundles
  imports Catalogue Numbers
begin

text \<open>
  The catalogue of task configurations under every sequence of its operations: the registry stays
  readable and names each bundle once, the builtins come back whenever the catalogue is loaded, and an
  operation leaves the bundles it does not name alone.
\<close>

section \<open>What the catalogue relies on\<close>

definition plain_char :: "char \<Rightarrow> bool" where
  "plain_char c \<longleftrightarrow> (CHR ''a'' \<le> c \<and> c \<le> CHR ''z'') \<or> c = CHR ''-'' \<or> c = slash"

text \<open>A bundle's name: letters and digits of catRunes, dashes and decimal digits\<close>

definition name_piece :: "cat_env \<Rightarrow> string \<Rightarrow> bool" where
  "name_piece env p \<longleftrightarrow>
     p = ''-'' \<or> (\<exists>c. p = [c] \<and> CHR ''0'' \<le> c \<and> c \<le> CHR ''9'') \<or> (\<exists>c. p = [c] \<and> CHR ''a'' \<le> c \<and> c \<le> CHR ''z'') \<or>
     (\<exists>s. (p, LetterOrDigit) \<in> set (catRunes env s))"

definition name_shaped :: "cat_env \<Rightarrow> string \<Rightarrow> bool" where
  "name_shaped env s \<longleftrightarrow> (\<exists>ps. s = concat ps \<and> list_all (name_piece env) ps)"

definition no_dots :: "string list \<Rightarrow> bool" where
  "no_dots d \<longleftrightarrow> list_all (\<lambda>s. CHR ''.'' \<notin> set s) d"

text \<open>A file's path: directories without dots, and a name with an extension\<close>

definition path_shaped :: "string list \<Rightarrow> bool" where
  "path_shaped p \<longleftrightarrow> p \<noteq> [] \<and> CHR ''.'' \<in> set (last p) \<and> no_dots (butlast p)"

text \<open>
  Documented behaviour: strings.ToLower maps each rune and leaves ASCII but for capitals alone; the
  bytes of letters and digits hold no ASCII punctuation, and no letter is white space.  Of the
  embedded files: the configurations of the builtins decode, as do their edits, and the prompts are
  files with an extension.
\<close>

definition cat_env_ok :: "cat_env \<Rightarrow> bool" where
  "cat_env_ok env \<longleftrightarrow>
     (\<forall>s. list_all plain_char s \<longrightarrow> catLower env s = s) \<and>
     (\<forall>s k. catLower env (s @ ''-'' @ show_nat k) = catLower env s @ ''-'' @ show_nat k) \<and>
     (\<forall>s. slash \<in> set (catLower env s) \<longleftrightarrow> slash \<in> set s) \<and>
     (\<forall>s r. (r, LetterOrDigit) \<in> set (catRunes env s) \<longrightarrow>
        r \<noteq> [] \<and> CHR ''-'' \<notin> set r \<and> CHR ''.'' \<notin> set r \<and> slash \<notin> set r) \<and>
     (\<forall>s. name_shaped env s \<longrightarrow> trim_space s = s) \<and>
     list_all (\<lambda>(segs, _). path_shaped segs) (catPrompts env) \<and>
     list_all (\<lambda>(bid, _). catYaml env (catConfig env bid) \<noteq> None \<and> (\<forall>r. catPin env (catConfig env bid) r \<noteq> None)) builtinDefs"

lemma env_plain: "cat_env_ok env \<Longrightarrow> list_all plain_char s \<Longrightarrow> catLower env s = s"
  and env_suffix: "cat_env_ok env \<Longrightarrow> catLower env (s @ ''-'' @ show_nat k) = catLower env s @ ''-'' @ show_nat k"
  and env_slash: "cat_env_ok env \<Longrightarrow> slash \<in> set (catLower env s) \<longleftrightarrow> slash \<in> set s"
  and env_rune: "cat_env_ok env \<Longrightarrow> (r, LetterOrDigit) \<in> set (catRunes env s) \<Longrightarrow>
    r \<noteq> [] \<and> CHR ''-'' \<notin> set r \<and> CHR ''.'' \<notin> set r \<and> slash \<notin> set r"
  and env_trim: "cat_env_ok env \<Longrightarrow> name_shaped env s \<Longrightarrow> trim_space s = s"
  and env_prompts: "cat_env_ok env \<Longrightarrow> list_all (\<lambda>(segs, _). path_shaped segs) (catPrompts env)"
  and env_builtins: "cat_env_ok env \<Longrightarrow> bid \<in> fst ` set builtinDefs \<Longrightarrow>
    catYaml env (catConfig env bid) \<noteq> None \<and> catPin env (catConfig env bid) r \<noteq> None"
  unfolding cat_env_ok_def by (blast | fastforce simp: list_all_iff)+

section \<open>Names\<close>

lemma name_piece_chars:
  assumes "cat_env_ok env" "name_piece env p"
  shows "p \<noteq> []" "CHR ''.'' \<notin> set p" "slash \<notin> set p" "p = ''-'' \<or> CHR ''-'' \<notin> set p"
  using assms(2) env_rune [OF assms(1)] unfolding name_piece_def
  by (auto simp: less_eq_char_def)

lemma name_chars:
  assumes "cat_env_ok env" "name_shaped env s"
  shows "CHR ''.'' \<notin> set s" "slash \<notin> set s"
  using assms(2) name_piece_chars(2,3) [OF assms(1)] by (auto simp: name_shaped_def list_all_iff)

lemma name_append: "name_shaped env a \<Longrightarrow> name_shaped env b \<Longrightarrow> name_shaped env (a @ b)"
  unfolding name_shaped_def by (metis concat_append list_all_append)

lemma name_chars_shaped: "list_all (\<lambda>c. name_piece env [c]) s \<Longrightarrow> name_shaped env s"
  unfolding name_shaped_def by (rule exI [of _ "map (\<lambda>c. [c]) s"]) (simp add: list_all_iff)

lemma name_number: "name_shaped env (''-'' @ show_nat k)"
  by (rule name_chars_shaped) (use digit_range [of _ k] in \<open>auto simp: list_all_iff name_piece_def\<close>)

lemma name_candidate: "name_shaped env base \<Longrightarrow> name_shaped env (candidate base k)"
  using name_append [OF _ name_number] by (simp add: candidate_def)

lemma show_nat_inj: "show_nat m = show_nat n \<longleftrightarrow> m = n"
  by (metis digits_value_show_nat of_nat_eq_iff option.inject)

lemma candidate_Nil: "candidate base j = [] \<Longrightarrow> base = []"
  by (auto simp: candidate_def split: if_splits)

lemma candidate_inj: "candidate base j = candidate base k \<longleftrightarrow> j = k"
  by (auto simp: candidate_def show_nat_inj)

lemma drop_dashes:
  assumes "list_all (\<lambda>p. p = ''-'' \<or> p \<noteq> [] \<and> CHR ''-'' \<notin> set p) ps"
  shows "dropWhile (\<lambda>c. c = CHR ''-'') (concat ps) = concat (dropWhile (\<lambda>p. p = ''-'') ps)"
  using assms
proof (induction ps)
  case (Cons p ps)
  show ?case
  proof (cases "p = ''-''")
    case False
    then obtain c cs where "p = c # cs" "c \<noteq> CHR ''-''" using Cons.prems by (cases p) auto
    then show ?thesis using False by simp
  qed (use Cons in simp)
qed simp

lemma slug_runes_shaped:
  assumes "cat_env_ok env" "set rs \<subseteq> set (catRunes env s)" "name_shaped env out"
  shows "name_shaped env (slug_runes out lastDash rs)"
  using assms(2,3)
proof (induction out lastDash rs rule: slug_runes.induct)
  case (2 out lastDash r kind rs)
  have "name_shaped env ''-''" by (rule name_chars_shaped) (simp add: name_piece_def)
  moreover have "kind = LetterOrDigit \<Longrightarrow> name_shaped env r"
    using "2.prems"(1) unfolding name_shaped_def
    by (intro exI [of _ "[r]"]) (auto simp: name_piece_def)
  ultimately show ?case using 2 by (auto split: rune_kind.splits intro: name_append)
qed simp

lemma trim_dashes_shaped:
  assumes "cat_env_ok env" "name_shaped env s"
  shows "name_shaped env (trim_dashes s)"
proof -
  obtain ps where ps: "s = concat ps" "list_all (name_piece env) ps" using assms(2) by (auto simp: name_shaped_def)
  let ?qs = "dropWhile (\<lambda>p. p = ''-'') ps" and ?ok = "\<lambda>p. p = ''-'' \<or> p \<noteq> [] \<and> CHR ''-'' \<notin> set p"
  have ok: "name_piece env p \<Longrightarrow> ?ok p \<and> ?ok (rev p)" for p
    using name_piece_chars(1,4) [OF assms(1), of p] by auto
  have "set ?qs \<subseteq> set ps" using set_dropWhileD by fastforce
  then have qs: "list_all (name_piece env) ?qs" using ps(2) by (auto simp: list_all_iff)
  have "list_all ?ok ps" using ps(2) ok by (auto simp: list_all_iff)
  from drop_dashes [OF this] have 1: "dropWhile (\<lambda>c. c = CHR ''-'') s = concat ?qs" unfolding ps(1) .
  have "list_all ?ok (map rev (rev ?qs))" using qs ok by (auto simp: list_all_iff)
  from drop_dashes [OF this]
  have 2: "trim_dashes s = rev (concat (dropWhile (\<lambda>p. p = ''-'') (map rev (rev ?qs))))"
    unfolding trim_dashes_def 1 by (simp add: rev_concat rev_map)
  have "dropWhile (\<lambda>p. p = ''-'') (map rev (rev ?qs)) = map rev (dropWhile (\<lambda>p. p = ''-'') (rev ?qs))"
    by (simp add: dropWhile_map comp_def rev_swap)
  then have "trim_dashes s = concat (rev (dropWhile (\<lambda>p. p = ''-'') (rev ?qs)))"
    using 2 by (simp add: rev_concat rev_map comp_def)
  moreover have "list_all (name_piece env) (rev (dropWhile (\<lambda>p. p = ''-'') (rev ?qs)))"
    using qs set_dropWhileD [of _ "\<lambda>p. p = ''-''" "rev ?qs"] by (auto simp: list_all_iff)
  ultimately show ?thesis unfolding name_shaped_def by blast
qed

lemma slug_shaped:
  assumes "cat_env_ok env"
  shows "name_shaped env (slugifyBundlePath env alias)" "slugifyBundlePath env alias \<noteq> []"
proof -
  have e: "name_shaped env []" by (simp add: name_shaped_def exI [of _ "[]"])
  have c: "name_shaped env ''config''" by (rule name_chars_shaped) (simp add: name_piece_def less_eq_char_def)
  show "name_shaped env (slugifyBundlePath env alias)"
    using trim_dashes_shaped [OF assms slug_runes_shaped [OF assms subset_refl e]] c
    by (simp add: slugifyBundlePath_def Let_def)
  show "slugifyBundlePath env alias \<noteq> []" by (simp add: slugifyBundlePath_def Let_def)
qed

lemma next_free_Some: "next_free tries taken base k = Some c \<Longrightarrow> \<not> taken c \<and> (\<exists>j. c = candidate base j)"
  by (induction tries taken base k rule: next_free.induct) (auto split: if_splits)

lemma next_free_None:
  "next_free tries taken base k = None \<Longrightarrow> j \<in> {k..<k + tries} \<Longrightarrow> taken (candidate base j)"
proof (induction tries taken base k rule: next_free.induct)
  case (2 tries taken base k)
  then show ?case by (cases "j = k") (auto split: if_splits)
qed simp

text \<open>The loops end: they have tried every name before they have tried more names than are taken.\<close>

lemma next_free_ends:
  assumes "finite S" "card S < tries" "\<And>c. taken c \<Longrightarrow> f c \<in> S" "\<And>j k. f (candidate base j) = f (candidate base k) \<Longrightarrow> j = k"
  shows "next_free tries taken base 1 \<noteq> None"
proof
  assume "next_free tries taken base 1 = None"
  from next_free_None [OF this] have "(\<lambda>j. f (candidate base j)) ` {1..<1 + tries} \<subseteq> S" using assms(3) by blast
  moreover have "inj_on (\<lambda>j. f (candidate base j)) {1..<1 + tries}" using assms(4) by (auto intro: inj_onI)
  ultimately have "card {1..<1 + tries} \<le> card S" using assms(1) card_inj_on_le by blast
  then show False using assms(2) by simp
qed

section \<open>Files\<close>

definition files_ok :: "files \<Rightarrow> bool" where
  "files_ok fs \<longleftrightarrow> list_all (\<lambda>(p, _). path_shaped p) fs"

text \<open>What is left of the files outside some directories\<close>

definition keeps_files :: "string list set \<Rightarrow> files \<Rightarrow> files \<Rightarrow> bool" where
  "keeps_files D fs fs' \<longleftrightarrow> (\<forall>p v. map_of fs p = Some v \<longrightarrow> (\<forall>d\<in>D. \<not> prefix d p) \<longrightarrow> map_of fs' p = Some v)"

lemma keeps_files_refl [simp]: "keeps_files D fs fs"
  by (simp add: keeps_files_def)

lemma keeps_files_trans: "keeps_files D fs fs' \<Longrightarrow> keeps_files D fs' fs'' \<Longrightarrow> keeps_files D fs fs''"
  by (simp add: keeps_files_def)

lemma keeps_files_mono: "keeps_files D fs fs' \<Longrightarrow> \<forall>d\<in>D. \<exists>e\<in>E. prefix e d \<Longrightarrow> keeps_files E fs fs'"
  unfolding keeps_files_def by (meson prefix_order.trans)

lemma keeps_files_put: "d \<in> D \<Longrightarrow> keeps_files D fs (map_put (d @ dest) data fs)"
  by (auto simp: keeps_files_def map_of_put)

lemma files_put: "files_ok fs \<Longrightarrow> path_shaped p \<Longrightarrow> files_ok (map_put p data fs)"
  unfolding files_ok_def by (induction p data fs rule: map_put.induct) auto

lemma files_shaped: "files_ok fs \<Longrightarrow> map_of fs p = Some v \<Longrightarrow> path_shaped p"
  by (auto simp: files_ok_def list_all_iff dest: map_of_SomeD)

lemma no_dots_append [simp]: "no_dots (a @ b) \<longleftrightarrow> no_dots a \<and> no_dots b"
  by (simp add: no_dots_def)

lemma path_shaped_append: "no_dots d \<Longrightarrow> path_shaped dest \<Longrightarrow> path_shaped (d @ dest)"
  by (simp add: path_shaped_def butlast_append)

lemma path_shaped_file [simp]: "path_shaped [managedConfigFile]" "path_shaped [managedBuiltinRevisionFile]"
  by (simp_all add: path_shaped_def managedConfigFile_def managedBuiltinRevisionFile_def no_dots_def)

text \<open>Neither is a file in the place of a directory nor the other way round.\<close>

lemma path_shaped_dots: "path_shaped p \<Longrightarrow> \<not> no_dots p"
  unfolding path_shaped_def no_dots_def list_all_iff by (meson last_in_set)

lemma strict_prefix_no_dots: "path_shaped q \<Longrightarrow> strict_prefix p q \<Longrightarrow> no_dots p"
  unfolding path_shaped_def strict_prefix_def prefix_def
  by (metis append_is_Nil_conv append_self_conv butlast_append no_dots_append)

lemma stat_file:
  assumes "files_ok fs" "path_shaped p"
  shows "Stat_path fs p = (if map_of fs p = None then StatMissing else StatFile)"
proof -
  have "\<not> strict_prefix p q \<and> \<not> strict_prefix q p" if "(q, v) \<in> set fs" for q v
    using assms that strict_prefix_no_dots path_shaped_dots by (fastforce simp: files_ok_def list_all_iff)
  then have "\<not> list_ex (\<lambda>(q, _). strict_prefix p q) fs" "\<not> list_ex (\<lambda>(q, _). strict_prefix q p) fs"
    by (auto simp: list_ex_iff)
  then show ?thesis by (simp add: Stat_path_def)
qed

lemma stat_dir:
  assumes "files_ok fs" "no_dots d"
  shows "Stat_path fs d = (if list_ex (\<lambda>(q, _). strict_prefix d q) fs then StatDir else StatMissing)"
proof -
  have "\<not> strict_prefix q d \<and> q \<noteq> d" if "(q, v) \<in> set fs" for q v
  proof -
    have "path_shaped q" using assms(1) that by (auto simp: files_ok_def list_all_iff)
    then have "\<not> no_dots q" by (rule path_shaped_dots)
    then show ?thesis using assms(2) by (auto simp: strict_prefix_def prefix_def)
  qed
  then have "d \<notin> fst ` set fs" "\<not> list_ex (\<lambda>(q, _). strict_prefix q d) fs"
    by (fastforce simp: list_ex_iff)+
  then have "map_of fs d = None" "\<not> list_ex (\<lambda>(q, _). strict_prefix q d) fs"
    by (simp_all add: map_of_eq_None_iff)
  then show ?thesis by (simp add: Stat_path_def)
qed

lemma read_shaped: "files_ok fs \<Longrightarrow> path_shaped p \<Longrightarrow> read_path fs p = Inr (map_of fs p)"
  by (simp add: read_path_def stat_file)

lemma write_shaped: "files_ok fs \<Longrightarrow> path_shaped p \<Longrightarrow> writeManagedAssetFile p data fs = (None, map_put p data fs)"
  by (simp add: writeManagedAssetFile_def stat_file)

lemma ensure_shaped:
  "files_ok fs \<Longrightarrow> path_shaped p \<Longrightarrow>
     ensureManagedAssetFile p data fs = (None, if map_of fs p = None then map_put p data fs else fs)"
  by (simp add: ensureManagedAssetFile_def stat_file write_shaped)

lemma write_all_shaped:
  assumes "files_ok fs" "list_all (\<lambda>(p, _). path_shaped p \<and> prefix d p) ws"
  shows "\<exists>fs'. write_all writeManagedAssetFile ws fs = (None, fs') \<and> files_ok fs' \<and> keeps_files {d} fs fs'"
  using assms
proof (induction ws arbitrary: fs)
  case (Cons w ws)
  obtain p data where w: "w = (p, data)" by (cases w)
  then have p: "path_shaped p" "prefix d p" using Cons.prems(2) by auto
  then obtain dest where dest: "p = d @ dest" by (auto simp: prefix_def)
  have "files_ok (map_put p data fs)" using Cons.prems(1) p(1) by (rule files_put)
  moreover have "keeps_files {d} fs (map_put p data fs)" unfolding dest by (rule keeps_files_put) simp
  ultimately show ?case
    using Cons.IH [of "map_put p data fs"] Cons.prems p(1) by (auto simp: w write_shaped intro: keeps_files_trans)
qed simp

lemma below_shaped:
  assumes "files_ok fs" "(rel, data) \<in> set (files_below d fs)"
  shows "path_shaped rel"
proof -
  obtain p where p: "(p, data) \<in> set fs" "strict_prefix d p" "rel = drop (length d) p"
    using assms(2) by (auto simp: files_below_def)
  then obtain q where "p = d @ q" "q \<noteq> []" by (auto simp: strict_prefix_def prefix_def)
  then show ?thesis using assms(1) p by (auto simp: files_ok_def list_all_iff path_shaped_def butlast_append)
qed

lemma copy_shaped:
  assumes "files_ok srcFiles" "files_ok fs" "no_dots dst"
  shows "files_ok (snd (copyDir srcFiles src dst fs))" "keeps_files {dst} fs (snd (copyDir srcFiles src dst fs))"
    "fst (copyDir srcFiles src dst fs) \<in> {None, Some SourceInvalid}"
    "Stat_path srcFiles src = StatDir \<Longrightarrow> fst (copyDir srcFiles src dst fs) = None"
proof -
  let ?ws = "map (\<lambda>(rel, data). (dst @ rel, data)) (files_below src srcFiles)"
  have "list_all (\<lambda>(p, _). path_shaped p \<and> prefix dst p) ?ws"
    using below_shaped [OF assms(1)] path_shaped_append [OF assms(3)] by (auto simp: list_all_iff)
  from write_all_shaped [OF assms(2) this]
  show "files_ok (snd (copyDir srcFiles src dst fs))" "keeps_files {dst} fs (snd (copyDir srcFiles src dst fs))"
    "fst (copyDir srcFiles src dst fs) \<in> {None, Some SourceInvalid}"
    "Stat_path srcFiles src = StatDir \<Longrightarrow> fst (copyDir srcFiles src dst fs) = None"
    using assms(2) by (auto simp: copyDir_def)
qed

lemma remove_shaped: "files_ok fs \<Longrightarrow> files_ok (remove_all d fs)"
  by (simp add: files_ok_def remove_all_def list_all_iff)

lemma map_of_remove_all: "map_of (remove_all d fs) p = (if prefix d p then None else map_of fs p)"
  unfolding remove_all_def by (induction fs) auto

lemma keeps_files_remove: "keeps_files {d} fs (remove_all d fs)"
  by (simp add: keeps_files_def map_of_remove_all)

lemma rename_shaped:
  assumes "files_ok fs" "no_dots dst" "no_dots src"
  shows "files_ok (rename_dir src dst fs)"
proof -
  have "path_shaped (dst @ drop (length src) p)" if "path_shaped p" "prefix src p" for p
  proof -
    have q: "p = src @ drop (length src) p" (is "_ = _ @ ?q") using that(2) by (auto simp: prefix_def)
    have "?q \<noteq> []" using path_shaped_dots [OF that(1)] assms(3) q by (metis append_Nil2)
    moreover have "path_shaped (src @ ?q)" using that(1) q by simp
    ultimately show ?thesis using assms(2) by (auto simp: path_shaped_def butlast_append)
  qed
  then show ?thesis using assms(1) by (auto simp: files_ok_def rename_dir_def list_all_iff)
qed

lemma keeps_files_rename:
  assumes "Stat_path fs dst = StatMissing"
  shows "keeps_files {src} fs (rename_dir src dst fs)"
proof -
  have "\<not> prefix dst q" if "(q, v) \<in> set fs" for q v
    using assms that by (auto simp: Stat_path_def list_ex_iff strict_prefix_def map_of_eq_None_iff rev_image_eqI split: if_splits)
  then have "map_of (rename_dir src dst fs) p = map_of fs p" if "\<not> prefix src p" "\<not> prefix dst p" for p
    unfolding rename_dir_def using that by (induction fs) (auto simp: prefix_def)
  moreover have "\<not> prefix dst p" if "map_of fs p = Some v" for p v
    using that \<open>\<And>v q. (q, v) \<in> set fs \<Longrightarrow> \<not> prefix dst q\<close> map_of_SomeD by fastforce
  ultimately show ?thesis by (simp add: keeps_files_def)
qed

section \<open>Builtin bundles\<close>

definition builtin_ids :: "string list" where
  "builtin_ids = map fst builtinDefs"

definition assets_present :: "cat_env \<Rightarrow> string \<Rightarrow> files \<Rightarrow> bool" where
  "assets_present env bid fs \<longleftrightarrow>
     list_all (\<lambda>(_, dest, _). map_of fs ([''builtin'', bid] @ dest) \<noteq> None) (builtinAssetFiles env bid)"

lemma builtin_cases:
  assumes "bid \<in> set builtin_ids"
  shows "bid = ''default'' \<or> bid = ''plan-only'' \<or> bid = ''single-run'' \<or> bid = ''autonomous'' \<or> bid = ''yolo''"
  using assms by (simp add: builtin_ids_def builtinDefs_def)

lemma builtin_segments: "bid \<in> set builtin_ids \<Longrightarrow> path_segments (builtinBundlePath bid) = [''builtin'', bid]"
  using builtin_cases [of bid]
  by (auto simp: builtinBundlePath_def path_segments_def raw_segments_def IsAbs_def)

lemma builtin_no_dots: "bid \<in> set builtin_ids \<Longrightarrow> no_dots [''builtin'', bid]"
  using builtin_cases [of bid] by (auto simp: no_dots_def)

lemma prompt_not_config: "bid \<in> set builtin_ids \<Longrightarrow> prompt_asset segs \<noteq> builtinConfigAsset bid"
  using builtin_cases [of bid] by (auto simp: prompt_asset_def builtinConfigAsset_def)

lemma asset_cases:
  assumes "cat_env_ok env" "bid \<in> set builtin_ids" "(asset, dest, data) \<in> set (builtinAssetFiles env bid)"
  shows "path_shaped dest \<and> (asset = builtinConfigAsset bid \<longrightarrow> data = catConfig env bid) \<and>
    (dest = [managedConfigFile] \<longrightarrow> data = catConfig env bid)"
proof -
  consider (config) "asset = builtinConfigAsset bid" "dest = [managedConfigFile]" "data = catConfig env bid"
    | (prompt) segs where "asset = prompt_asset segs" "dest = ''prompts'' # segs" "(segs, data) \<in> set (catPrompts env)"
    using assms(3) unfolding builtinAssetFiles_def set_sort_any by auto
  then show ?thesis
  proof cases
    case prompt
    then have "path_shaped segs" using env_prompts [OF assms(1)] by (auto simp: list_all_iff)
    then show ?thesis
      using prompt prompt_not_config [OF assms(2)] by (auto simp: path_shaped_def no_dots_def managedConfigFile_def)
  qed simp
qed

lemma env_ids:
  assumes "cat_env_ok env" "bid \<in> set builtin_ids"
  shows "catYaml env (catConfig env bid) \<noteq> None" "catPin env (catConfig env bid) r \<noteq> None"
  using env_builtins [OF assms(1), of bid] assms(2) by (auto simp: builtin_ids_def)

lemma asset_data:
  assumes "cat_env_ok env" "bid \<in> set builtin_ids" "(asset, dest, data) \<in> set (builtinAssetFiles env bid)"
  shows "\<exists>d. builtinAssetDataForWrite env bid asset data pinned = Inr d"
  using asset_cases [OF assms] env_ids(2) [OF assms(1,2), of "the pinned"]
  by (auto simp: builtinAssetDataForWrite_def split: option.splits)

lemma put_keeps_present: "map_of fs p \<noteq> None \<Longrightarrow> map_of (map_put q data fs) p \<noteq> None"
  by (simp add: map_of_put)

lemma write_assets_shaped:
  assumes "cat_env_ok env" "bid \<in> set builtin_ids" "files_ok fs" "no_dots dir" "set as \<subseteq> set (builtinAssetFiles env bid)"
  shows "\<exists>fs'. write_assets env bid dir overwrite pinned as fs = (None, fs') \<and> files_ok fs' \<and> keeps_files {dir} fs fs' \<and>
    (\<forall>p. map_of fs p \<noteq> None \<longrightarrow> map_of fs' p \<noteq> None) \<and> (\<forall>(_, dest, _)\<in>set as. map_of fs' (dir @ dest) \<noteq> None)"
  using assms(3,5)
proof (induction as arbitrary: fs)
  case (Cons a as)
  obtain asset dest data where a: "a = (asset, dest, data)" by (cases a)
  then have mem: "(asset, dest, data) \<in> set (builtinAssetFiles env bid)" using Cons.prems(2) by simp
  then have dest: "path_shaped (dir @ dest)" using asset_cases [OF assms(1,2)] path_shaped_append [OF assms(4)] by blast
  obtain d where d: "builtinAssetDataForWrite env bid asset data pinned = Inr d"
    using asset_data [OF assms(1,2) mem] by blast
  let ?put = "map_put (dir @ dest) d fs"
  let ?fs = "if overwrite \<or> map_of fs (dir @ dest) = None then ?put else fs"
  have "(if overwrite then writeManagedAssetFile (dir @ dest) d fs else ensureManagedAssetFile (dir @ dest) d fs) = (None, ?fs)"
    using Cons.prems(1) dest by (simp add: write_shaped ensure_shaped)
  then have step: "write_assets env bid dir overwrite pinned (a # as) fs = write_assets env bid dir overwrite pinned as ?fs"
    by (simp add: a d)
  have ok: "files_ok ?fs" using files_put [OF Cons.prems(1) dest] Cons.prems(1) by simp
  have kept: "keeps_files {dir} fs ?fs" using keeps_files_put [of dir "{dir}"] by simp
  have more: "\<forall>p. map_of fs p \<noteq> None \<longrightarrow> map_of ?fs p \<noteq> None" by (simp add: map_of_put)
  have here: "map_of ?fs (dir @ dest) \<noteq> None" by (simp add: map_of_put)
  obtain fs' where fs': "write_assets env bid dir overwrite pinned as ?fs = (None, fs')" "files_ok fs'" "keeps_files {dir} ?fs fs'"
    "\<forall>p. map_of ?fs p \<noteq> None \<longrightarrow> map_of fs' p \<noteq> None" "\<forall>(_, dest, _)\<in>set as. map_of fs' (dir @ dest) \<noteq> None"
    using Cons.IH [OF ok] Cons.prems(2) by auto
  show ?case unfolding step
    using fs' keeps_files_trans [OF kept fs'(3)] more here by (intro exI [of _ fs']) (simp add: a)
qed simp

lemma write_bundle_shaped:
  assumes "cat_env_ok env" "bid \<in> set builtin_ids" "files_ok fs" "no_dots dir"
  shows "\<exists>fs'. writeBuiltinBundle env dir bid overwrite pinned fs = (None, fs') \<and> files_ok fs' \<and> keeps_files {dir} fs fs' \<and>
    (\<forall>(_, dest, _)\<in>set (builtinAssetFiles env bid). map_of fs' (dir @ dest) \<noteq> None)"
proof -
  obtain fs1 where fs1: "write_assets env bid dir overwrite pinned (builtinAssetFiles env bid) fs = (None, fs1)" "files_ok fs1"
    "keeps_files {dir} fs fs1" "\<forall>(_, dest, _)\<in>set (builtinAssetFiles env bid). map_of fs1 (dir @ dest) \<noteq> None"
    using write_assets_shaped [OF assms subset_refl, of overwrite pinned] by blast
  let ?p = "dir @ [managedBuiltinRevisionFile]" and ?d = "builtinBundleRevision env bid @ [CHR 0x0A]"
  have "path_shaped ?p" using path_shaped_append [OF assms(4)] by simp
  then have "writeBuiltinBundle env dir bid overwrite pinned fs = (None, map_put ?p ?d fs1)" "files_ok (map_put ?p ?d fs1)"
    using fs1 by (simp_all add: writeBuiltinBundle_def writeBuiltinBundleRevision_def write_shaped files_put)
  moreover have "keeps_files {dir} fs (map_put ?p ?d fs1)" using fs1(3) keeps_files_put [of dir "{dir}"] by (auto intro: keeps_files_trans)
  moreover have "\<forall>(_, dest, _)\<in>set (builtinAssetFiles env bid). map_of (map_put ?p ?d fs1) (dir @ dest) \<noteq> None"
    using fs1(4) by (auto simp: map_of_put)
  ultimately show ?thesis by blast
qed

lemma assets_match_shaped:
  assumes "cat_env_ok env" "bid \<in> set builtin_ids" "files_ok fs" "no_dots dir" "set as \<subseteq> set (builtinAssetFiles env bid)"
  shows "\<exists>b. assets_match env dir fs as = Inr b"
  using assms(5)
proof (induction as)
  case (Cons a as)
  obtain asset dest data where a: "a = (asset, dest, data)" by (cases a)
  then have c: "path_shaped dest" "dest = [managedConfigFile] \<longrightarrow> data = catConfig env bid"
    using asset_cases [OF assms(1,2)] Cons.prems by auto
  have "read_path fs (dir @ dest) = Inr (map_of fs (dir @ dest))"
    using assms(3) path_shaped_append [OF assms(4) c(1)] by (rule read_shaped)
  moreover have "\<exists>b. builtinConfigMatchesEmbedded env cur (catConfig env bid) = Inr b" for cur
    using env_ids(1) [OF assms(1,2)]
    by (auto simp: builtinConfigMatchesEmbedded_def split: option.splits)
  then obtain m where "builtinConfigMatchesEmbedded env cur (catConfig env bid) = Inr (m cur)" for cur by metis
  ultimately show ?case using Cons c(2) by (auto simp: a split: option.splits)
qed (simp add: exI [of _ True])

definition firsts :: "files \<Rightarrow> string set" where
  "firsts fs = (\<lambda>(p, _). hd p) ` set fs"

lemma finite_firsts [simp]: "finite (firsts fs)"
  by (simp add: firsts_def)

lemma backup_shaped:
  assumes "files_ok fs" "bid \<in> set builtin_ids"
  shows "files_ok (snd (backupBuiltinBundle tries bid [''builtin'', bid] fs))"
    "keeps_files {[''builtin'', bid]} fs (snd (backupBuiltinBundle tries bid [''builtin'', bid] fs))"
    "fst (backupBuiltinBundle tries bid [''builtin'', bid] fs) \<in> {None, Some TriesExhausted}"
    "card (firsts fs) < tries \<Longrightarrow> fst (backupBuiltinBundle tries bid [''builtin'', bid] fs) = None"
proof -
  let ?dir = "[''builtin'', bid]" and ?taken = "\<lambda>c. Stat_path fs [c] \<noteq> StatMissing" and ?base = "''backup-'' @ bid"
  have dir: "Stat_path fs ?dir \<in> {StatDir, StatMissing}"
    using stat_dir [OF assms(1) builtin_no_dots [OF assms(2)]] by simp
  have dot: "CHR ''.'' \<notin> set ?base" using builtin_cases [OF assms(2)] by auto
  have nd: "no_dots [candidate ?base k]" for k
    using dot digit_range [of "CHR ''.''" k] by (auto simp: no_dots_def candidate_def)
  have new: "Stat_path fs [c] = StatMissing \<and> no_dots [c]" if "next_free tries ?taken ?base 1 = Some c" for c
    using next_free_Some [OF that] nd by auto
  show "files_ok (snd (backupBuiltinBundle tries bid ?dir fs))" "keeps_files {?dir} fs (snd (backupBuiltinBundle tries bid ?dir fs))"
    "fst (backupBuiltinBundle tries bid ?dir fs) \<in> {None, Some TriesExhausted}"
    using dir assms(1) new rename_shaped [OF assms(1) _ builtin_no_dots [OF assms(2)]] keeps_files_rename
    by (auto simp: backupBuiltinBundle_def nextAvailableBuiltinBackupDir_def split: stat.splits option.splits)
  assume tries: "card (firsts fs) < tries"
  have "(q, v) \<in> set fs \<Longrightarrow> q \<noteq> []" for q v using assms(1) by (auto simp: files_ok_def list_all_iff path_shaped_def)
  then have taken: "c \<in> firsts fs" if "?taken c" for c
  proof -
    have "(\<exists>v. ([c], v) \<in> set fs) \<or> (\<exists>q v. (q, v) \<in> set fs \<and> strict_prefix [c] q) \<or>
        (\<exists>q v. (q, v) \<in> set fs \<and> strict_prefix q [c])"
      using that unfolding Stat_path_def by (auto simp: list_ex_iff dest: map_of_SomeD split: if_splits)
    then obtain q v where "(q, v) \<in> set fs" "q \<noteq> []" "q = [c] \<or> strict_prefix [c] q \<or> strict_prefix q [c]"
      using \<open>\<And>v q. (q, v) \<in> set fs \<Longrightarrow> q \<noteq> []\<close> by blast
    moreover from this(2,3) have "hd q = c" by (auto simp: strict_prefix_def prefix_def Cons_eq_append_conv)
    ultimately show ?thesis unfolding firsts_def by (intro image_eqI [of _ _ "(q, v)"]) simp_all
  qed
  have "next_free tries ?taken ?base 1 \<noteq> None"
    by (rule next_free_ends [where f = "\<lambda>c. c", OF finite_firsts tries taken]) (simp_all add: candidate_inj)
  then show "fst (backupBuiltinBundle tries bid ?dir fs) = None"
    using dir by (auto simp: backupBuiltinBundle_def nextAvailableBuiltinBackupDir_def split: stat.splits option.splits)
qed

lemma sync_shaped:
  assumes "cat_env_ok env" "bid \<in> set builtin_ids" "files_ok fs"
  shows "files_ok (snd (syncBuiltinBundle env tries bid fs))"
    "keeps_files {[''builtin'', bid]} fs (snd (syncBuiltinBundle env tries bid fs))"
    "fst (syncBuiltinBundle env tries bid fs) = None \<Longrightarrow> assets_present env bid (snd (syncBuiltinBundle env tries bid fs))"
    "card (firsts fs) < tries \<Longrightarrow> fst (syncBuiltinBundle env tries bid fs) = None"
proof -
  let ?dir = "[''builtin'', bid]"
  note nd = builtin_no_dots [OF assms(2)]
  have "\<exists>rev. readBuiltinBundleRevision ?dir fs = Inr rev"
    using read_shaped [OF assms(3) path_shaped_append [OF nd path_shaped_file(2)]]
    by (auto simp: readBuiltinBundleRevision_def split: option.splits)
  then obtain rev where rev: "readBuiltinBundleRevision ?dir fs = Inr rev" by blast
  obtain b where b: "builtinBundleMatchesCurrentAssets env ?dir bid fs = Inr b"
    using assets_match_shaped [OF assms(1,2,3) nd subset_refl] by (auto simp: builtinBundleMatchesCurrentAssets_def)
  have "\<exists>pin. loadExplicitBuiltinRuntime env ?dir fs = Inr pin"
    using read_shaped [OF assms(3) path_shaped_append [OF nd path_shaped_file(1)]]
    by (auto simp: loadExplicitBuiltinRuntime_def split: option.splits)
  then obtain pin where pin: "loadExplicitBuiltinRuntime env ?dir fs = Inr pin" by blast
  let ?bk = "backupBuiltinBundle tries bid ?dir fs"
  let ?r = "syncBuiltinBundle env tries bid fs"
  let ?good = "\<lambda>r. files_ok (snd r) \<and> keeps_files {?dir} fs (snd r) \<and> (fst r = None \<longrightarrow> assets_present env bid (snd r))"
  note sync = syncBuiltinBundle_def builtin_segments [OF assms(2)] rev b pin
  have written: "?good (writeBuiltinBundle env ?dir bid ow p fs1) \<and> fst (writeBuiltinBundle env ?dir bid ow p fs1) = None"
    if "files_ok fs1" "keeps_files {?dir} fs fs1" for ow p fs1
    using write_bundle_shaped [OF assms(1,2) that(1) nd, of ow p] keeps_files_trans [OF that(2)]
    by (auto simp: assets_present_def list_all_iff)
  have bk: "files_ok (snd ?bk)" "keeps_files {?dir} fs (snd ?bk)" "fst ?bk \<in> {None, Some TriesExhausted}"
    using backup_shaped [OF assms(3,2)] by simp_all
  obtain e fs1 where e: "?bk = (e, fs1)" by (cases ?bk)
  have "?good ?r \<and> (fst ?bk = None \<longrightarrow> fst ?r = None)"
    using written [OF assms(3) keeps_files_refl] written [of fs1] bk
    by (auto simp: sync e Let_def split: option.splits)
  then show "files_ok (snd ?r)" "keeps_files {?dir} fs (snd ?r)" "fst ?r = None \<Longrightarrow> assets_present env bid (snd ?r)"
    "card (firsts fs) < tries \<Longrightarrow> fst ?r = None"
    using backup_shaped(4) [OF assms(3,2)] by auto
qed

text \<open>More tries change nothing once there are enough.\<close>

lemma next_free_mono: "next_free m taken base k = Some c \<Longrightarrow> m \<le> n \<Longrightarrow> next_free n taken base k = Some c"
proof (induction m taken base k arbitrary: n rule: next_free.induct)
  case (2 tries taken base k)
  then obtain l where "n = Suc l" by (cases n) auto
  with 2 show ?case by (auto split: if_splits)
qed simp

lemma sync_mono:
  "syncBuiltinBundle env m bid fs = (None, fs') \<Longrightarrow> m \<le> n \<Longrightarrow> syncBuiltinBundle env n bid fs = (None, fs')"
  by (auto simp: syncBuiltinBundle_def backupBuiltinBundle_def nextAvailableBuiltinBackupDir_def Let_def
      dest: next_free_mono split: sum.splits if_splits option.splits stat.splits prod.splits)

lemma alias_mono: "nextAvailableAlias m reg base = Some c \<Longrightarrow> m \<le> n \<Longrightarrow> nextAvailableAlias n reg base = Some c"
  unfolding nextAvailableAlias_def Let_def by (rule next_free_mono)

lemma ensure_mono:
  "ensure_builtins env m bids reg ch fs = (Inr x, fs') \<Longrightarrow> m \<le> n \<Longrightarrow> ensure_builtins env n bids reg ch fs = (Inr x, fs')"
proof (induction bids arbitrary: reg ch fs)
  case (Cons bid bids)
  let ?name = "\<lambda>t. if registryHasAlias (RgConfigs reg) bid then nextAvailableAlias t reg (''builtin-'' @ bid) else Some bid"
  let ?new = "\<lambda>a. reg\<lparr>RgConfigs := RgConfigs reg @ [\<lparr>EntAlias = a, EntPath = builtinBundlePath bid, EntBuiltinID = bid\<rparr>]\<rparr>"
  have named: "?name m = Some a \<Longrightarrow> ?name n = Some a" for a
    using alias_mono [OF _ Cons.prems(2)] by (cases "registryHasAlias (RgConfigs reg) bid") simp_all
  show ?case
  proof (cases "registryEntryByBuiltinID (RgConfigs reg) bid = None")
    case True
    then obtain a fs1 where a: "?name m = Some a" "syncBuiltinBundle env m bid fs = (None, fs1)"
      "ensure_builtins env m bids (?new a) True fs1 = (Inr x, fs')"
      using Cons.prems(1) by (auto simp: Let_def split: option.splits prod.splits if_splits)
    from Cons.IH [OF a(3) Cons.prems(2)] sync_mono [OF a(2) Cons.prems(2)] named [OF a(1)] True show ?thesis
      by (auto simp: Let_def)
  next
    case False
    then obtain fs1 where a: "syncBuiltinBundle env m bid fs = (None, fs1)" "ensure_builtins env m bids reg ch fs1 = (Inr x, fs')"
      using Cons.prems(1) by (auto split: option.splits prod.splits)
    from Cons.IH [OF a(2) Cons.prems(2)] sync_mono [OF a(1) Cons.prems(2)] False show ?thesis by simp
  qed
qed simp

section \<open>The registry\<close>

definition bundle_entry_ok :: "cat_env \<Rightarrow> RegistryEntry \<Rightarrow> bool" where
  "bundle_entry_ok env e \<longleftrightarrow>
     EntAlias e \<noteq> [] \<and> trim_space (EntAlias e) = EntAlias e \<and>
     (EntBuiltinID e \<in> set builtin_ids \<and> EntPath e = builtinBundlePath (EntBuiltinID e) \<or>
      EntBuiltinID e = [] \<and> EntPath e \<noteq> [] \<and> name_shaped env (EntPath e))"

definition entries_ok :: "cat_env \<Rightarrow> RegistryEntry list \<Rightarrow> bool" where
  "entries_ok env es \<longleftrightarrow>
     list_all (bundle_entry_ok env) es \<and> distinct (map EntAlias es) \<and>
     distinct (map (\<lambda>e. canonicalRegistryBundlePathKey env (EntPath e)) es) \<and>
     distinct (filter (\<lambda>b. b \<noteq> []) (map EntBuiltinID es))"

lemma entries_ok_perm:
  assumes "mset es = mset es'"
  shows "entries_ok env es \<longleftrightarrow> entries_ok env es'"
proof -
  have m: "mset (map f es) = mset (map f es')" for f :: "RegistryEntry \<Rightarrow> string" using assms by simp
  have "mset (filter (\<lambda>b. b \<noteq> []) (map EntBuiltinID es)) = mset (filter (\<lambda>b. b \<noteq> []) (map EntBuiltinID es'))"
    unfolding mset_filter m ..
  moreover have "list_all (bundle_entry_ok env) es = list_all (bundle_entry_ok env) es'"
    unfolding list_all_iff using mset_eq_setD [OF assms] by simp
  ultimately show ?thesis
    unfolding entries_ok_def
    using mset_eq_imp_distinct_iff [OF m [of EntAlias]]
      mset_eq_imp_distinct_iff [OF m [of "\<lambda>e. canonicalRegistryBundlePathKey env (EntPath e)"]]
      mset_eq_imp_distinct_iff by blast
qed

lemma clean_name:
  assumes "s \<noteq> []" "slash \<notin> set s" "CHR ''.'' \<notin> set s"
  shows "path_segments s = [s]" "Clean s = s" "\<not> IsAbs s" "Ext s = []"
proof -
  have sp: "split_on slash s = [s]" using assms(2) by (rule split_on_single)
  have abs: "\<not> IsAbs s" using assms(1,2) by (cases s) (auto simp: IsAbs_def)
  have "s \<noteq> ''.''" "s \<noteq> ''..''" using assms(3) by auto
  then have "path_segments s = [s]" using assms(1) abs by (simp add: path_segments_def raw_segments_def sp)
  then show "path_segments s = [s]" "Clean s = s" "\<not> IsAbs s" using abs by (simp_all add: Clean_def render_path_def)
  have "CHR ''.'' \<notin> set (takeWhile (\<lambda>c. c \<noteq> slash) (rev s))" using assms(3) by (metis set_rev set_takeWhileD)
  then show "Ext s = []" by (simp add: Ext_def)
qed

lemma user_path:
  assumes "cat_env_ok env" "name_shaped env s" "s \<noteq> []"
  shows "normalizeRegistryBundlePath env s = Inr s" "path_segments s = [s]"
    "slash \<notin> set (canonicalRegistryBundlePathKey env s)" "canonicalRegistryBundlePathKey env s = catLower env s"
proof -
  note c = name_chars [OF assms(1,2)] and t = env_trim [OF assms(1,2)]
  note n = clean_name [OF assms(3) c(2,1)]
  have "s \<noteq> ''.''" "s \<noteq> ''..''" "\<not> prefix ''../'' s" using c by (auto simp: prefix_def)
  then show "normalizeRegistryBundlePath env s = Inr s"
    using n assms(3) env_plain [OF assms(1), of "[]"] by (simp add: normalizeRegistryBundlePath_def t)
  show "path_segments s = [s]" by (rule n(1))
  show "canonicalRegistryBundlePathKey env s = catLower env s" by (simp add: canonicalRegistryBundlePathKey_def t)
  then show "slash \<notin> set (canonicalRegistryBundlePathKey env s)" using env_slash [OF assms(1)] c(2) by simp
qed

lemma builtin_path:
  assumes "cat_env_ok env" "bid \<in> set builtin_ids"
  shows "normalizeRegistryBundlePath env (builtinBundlePath bid) = Inr (builtinBundlePath bid)"
    "canonicalRegistryBundlePathKey env (builtinBundlePath bid) = builtinBundlePath bid"
proof -
  have t: "trim_space (builtinBundlePath bid) = builtinBundlePath bid"
    using builtin_cases [OF assms(2)] by (intro trim_space_plain) (auto simp: builtinBundlePath_def go_spaces_def)
  have l: "list_all plain_char (builtinBundlePath bid)"
    using builtin_cases [OF assms(2)] by (auto simp: builtinBundlePath_def plain_char_def less_eq_char_def)
  show "canonicalRegistryBundlePathKey env (builtinBundlePath bid) = builtinBundlePath bid"
    using env_plain [OF assms(1) l] by (simp add: canonicalRegistryBundlePathKey_def t)
  have c: "Clean (builtinBundlePath bid) = builtinBundlePath bid"
    using builtin_segments [OF assms(2)] by (simp add: Clean_def render_path_def IsAbs_def builtinBundlePath_def)
  have e: "Ext (builtinBundlePath bid) = []"
    using builtin_cases [OF assms(2)] by (auto simp: builtinBundlePath_def Ext_def)
  show "normalizeRegistryBundlePath env (builtinBundlePath bid) = Inr (builtinBundlePath bid)"
    using env_plain [OF assms(1), of "[]"]
    unfolding normalizeRegistryBundlePath_def Let_def t c e
    by (simp add: builtinBundlePath_def IsAbs_def)
qed

lemma builtin_id:
  assumes "bid \<in> set builtin_ids"
  shows "IsBuiltinID bid" "trim_space bid = bid" "bid \<noteq> []"
proof -
  show t: "trim_space bid = bid"
    using builtin_cases [OF assms] by (intro trim_space_plain) (auto simp: go_spaces_def)
  show "IsBuiltinID bid" using assms by (simp add: IsBuiltinID_def t builtin_ids_def)
  show "bid \<noteq> []" using builtin_cases [OF assms] by auto
qed

lemma not_builtin_Nil [simp]: "\<not> IsBuiltinID []"
  by (simp add: IsBuiltinID_def builtinDefs_def)

lemma entry_path:
  assumes "cat_env_ok env" "bundle_entry_ok env e"
  shows "normalizeRegistryBundlePath env (EntPath e) = Inr (EntPath e)"
    "IsBuiltinID (EntBuiltinID e) \<longleftrightarrow> EntBuiltinID e \<noteq> []"
    "\<not> IsBuiltinID (EntBuiltinID e) \<Longrightarrow> path_segments (EntPath e) = [EntPath e]"
  using assms(2) builtin_path(1) [OF assms(1)] user_path(1,2) [OF assms(1)] builtin_id
  by (auto simp: bundle_entry_ok_def)

lemma normalize_entries_id:
  assumes "cat_env_ok env" "entries_ok env es"
    "set as \<inter> EntAlias ` set es = {}" "set ps \<inter> (\<lambda>e. canonicalRegistryBundlePathKey env (EntPath e)) ` set es = {}"
    "\<forall>b\<in>set bs. b \<noteq> [] \<longrightarrow> b \<notin> EntBuiltinID ` set es"
  shows "normalize_entries env as ps bs es = Inr es"
  using assms(2-)
proof (induction es arbitrary: as ps bs)
  case (Cons e es)
  have e: "bundle_entry_ok env e" and es: "entries_ok env es" using Cons.prems(1) by (auto simp: entries_ok_def split: if_splits)
  note path = entry_path [OF assms(1) e]
  have new: "EntAlias e \<notin> EntAlias ` set es"
    "canonicalRegistryBundlePathKey env (EntPath e) \<notin> (\<lambda>e. canonicalRegistryBundlePathKey env (EntPath e)) ` set es"
    "EntBuiltinID e \<noteq> [] \<Longrightarrow> EntBuiltinID e \<notin> EntBuiltinID ` set es"
    using Cons.prems(1) by (auto simp: entries_ok_def)
  let ?bs = "if IsBuiltinID (EntBuiltinID e) then EntBuiltinID e # bs else bs"
  have "normalize_entries env (EntAlias e # as) (canonicalRegistryBundlePathKey env (EntPath e) # ps) ?bs es = Inr es"
    using Cons.prems new path(2) by (intro Cons.IH [OF es]) auto
  then show ?case
    using Cons.prems e path(1,2) by (cases e) (auto simp: bundle_entry_ok_def Let_def)
qed simp

lemma normalize_registry_ok:
  assumes "cat_env_ok env" "entries_ok env (RgConfigs reg)"
  shows "\<exists>d. normalizeRegistry env reg = Inr \<lparr>RgDefaultAlias = d, RgConfigs = sort_slice (compareRegistryEntries env) (RgConfigs reg)\<rparr>"
    "entries_ok env (sort_slice (compareRegistryEntries env) (RgConfigs reg))"
proof -
  have "normalize_entries env [] [] [] (RgConfigs reg) = Inr (RgConfigs reg)"
    by (rule normalize_entries_id [OF assms]) simp_all
  then show "\<exists>d. normalizeRegistry env reg = Inr \<lparr>RgDefaultAlias = d, RgConfigs = sort_slice (compareRegistryEntries env) (RgConfigs reg)\<rparr>"
    by (simp add: normalizeRegistry_def Let_def)
  show "entries_ok env (sort_slice (compareRegistryEntries env) (RgConfigs reg))"
    using entries_ok_perm [OF mset_sort_any [of "compareRegistryEntries env" "RgConfigs reg"]] assms(2) by simp
qed

definition store_ok :: "cat_env \<Rightarrow> cat_store \<Rightarrow> bool" where
  "store_ok env st \<longleftrightarrow>
     files_ok (CtFiles st) \<and>
     (case CtFile st of
        NoCatalogue \<Rightarrow> True | BadCatalogue \<Rightarrow> False | StoredCatalogue reg \<Rightarrow> entries_ok env (RgConfigs reg))"

definition io_ok :: "cat_env \<Rightarrow> cat_io \<Rightarrow> bool" where
  "io_ok env io \<longleftrightarrow>
     Torn \<notin> {ioSave io, ioSeed io, ioDefaults io} \<and> (\<forall>l. ioLegacy io = Some l \<longrightarrow> store_ok env l)"

lemma entries_ok_Nil [simp]: "entries_ok env []"
  by (simp add: entries_ok_def)

lemma entries_ok_Cons: "entries_ok env (e # es) \<Longrightarrow> entries_ok env es"
  by (auto simp: entries_ok_def split: if_splits)

lemma entries_ok_filter: "entries_ok env es \<Longrightarrow> entries_ok env (filter P es)"
  by (induction es) (auto simp: entries_ok_def split: if_splits)

lemma load_ok:
  assumes "cat_env_ok env" "store_ok env st"
  shows "\<exists>reg. LoadRegistry env st = Inr reg \<and> entries_ok env (RgConfigs reg)"
proof (cases "CtFile st")
  case (StoredCatalogue reg)
  then show ?thesis using normalize_registry_ok [OF assms(1), of reg] assms(2) by (auto simp: LoadRegistry_def store_ok_def)
qed (use assms in \<open>auto simp: LoadRegistry_def store_ok_def\<close>)

lemma save_ok:
  assumes "cat_env_ok env" "store_ok env st" "entries_ok env (RgConfigs reg)" "out \<noteq> Torn"
  shows "\<exists>r. SaveRegistry env out reg st = (if out = Written then (None, st\<lparr>CtFile := StoredCatalogue r\<rparr>) else (Some CatWriteFailed, st)) \<and>
    mset (RgConfigs r) = mset (RgConfigs reg) \<and> store_ok env (st\<lparr>CtFile := StoredCatalogue r\<rparr>)"
proof -
  obtain d where d: "normalizeRegistry env reg = Inr \<lparr>RgDefaultAlias = d, RgConfigs = sort_slice (compareRegistryEntries env) (RgConfigs reg)\<rparr>"
    using normalize_registry_ok(1) [OF assms(1,3)] by blast
  then show ?thesis
    using assms(2,4) normalize_registry_ok(2) [OF assms(1,3)]
    by (intro exI [of _ "\<lparr>RgDefaultAlias = d, RgConfigs = sort_slice (compareRegistryEntries env) (RgConfigs reg)\<rparr>"])
      (cases out; simp add: SaveRegistry_def mset_sort_any store_ok_def)
qed

lemma entry_dir:
  assumes "cat_env_ok env" "bundle_entry_ok env e"
  shows "path_segments (EntPath e) =
      (if isBuiltinEntry e then [''builtin'', EntBuiltinID e] else [EntPath e])"
    "no_dots (path_segments (EntPath e))"
    "resolveRegistryEntryPath env (EntPath e) = Inr (path_segments (EntPath e), path_segments (EntPath e) @ [managedConfigFile])"
proof -
  consider (builtin) "EntBuiltinID e \<in> set builtin_ids" "EntPath e = builtinBundlePath (EntBuiltinID e)"
    | (user) "EntBuiltinID e = []" "EntPath e \<noteq> []" "name_shaped env (EntPath e)"
    using assms(2) by (auto simp: bundle_entry_ok_def)
  then have "path_segments (EntPath e) = (if isBuiltinEntry e then [''builtin'', EntBuiltinID e] else [EntPath e]) \<and>
    no_dots (path_segments (EntPath e))"
  proof cases
    case builtin
    then show ?thesis
      using builtin_segments [OF builtin(1)] builtin_id(1) [OF builtin(1)] builtin_no_dots [OF builtin(1)]
      by (simp add: isBuiltinEntry_def)
  next
    case user
    then show ?thesis
      using user_path(2) [OF assms(1) user(3,2)] name_chars(1) [OF assms(1) user(3)] by (simp add: isBuiltinEntry_def no_dots_def)
  qed
  then show segs: "path_segments (EntPath e) = (if isBuiltinEntry e then [''builtin'', EntBuiltinID e] else [EntPath e])"
    and nd: "no_dots (path_segments (EntPath e))" by blast+
  have "path_segments (EntPath e) \<noteq> [] \<and> hd (path_segments (EntPath e)) \<noteq> ''..''"
    using nd by (auto simp: segs no_dots_def)
  then show "resolveRegistryEntryPath env (EntPath e) = Inr (path_segments (EntPath e), path_segments (EntPath e) @ [managedConfigFile])"
    using entry_path(1) [OF assms] by (simp add: resolveRegistryEntryPath_def Let_def)
qed

section \<open>The builtins in the registry\<close>

lemma fresh_alias:
  assumes "cat_env_ok env" "bid \<in> set builtin_ids"
    "(if registryHasAlias (RgConfigs reg) bid then nextAvailableAlias tries reg (''builtin-'' @ bid) else Some bid) = Some a"
  shows "a \<notin> EntAlias ` set (RgConfigs reg)" "a \<noteq> []" "trim_space a = a"
proof -
  have low: "name_shaped env bid \<and> name_shaped env (''builtin-'' @ bid)"
    using builtin_cases [OF assms(2)] by (intro conjI name_chars_shaped) (auto simp: name_piece_def less_eq_char_def)
  then have t: "trim_space (''builtin-'' @ bid) = ''builtin-'' @ bid" using env_trim [OF assms(1)] by blast
  have "a \<notin> EntAlias ` set (RgConfigs reg) \<and> (\<exists>j. a = candidate (''builtin-'' @ bid) j) \<or>
      a = bid \<and> a \<notin> EntAlias ` set (RgConfigs reg)"
  proof (cases "registryHasAlias (RgConfigs reg) bid")
    case True
    then have "next_free tries (\<lambda>c. registryHasAlias (RgConfigs reg) c) (''builtin-'' @ bid) 1 = Some a"
      using assms(3) unfolding nextAvailableAlias_def t by (simp add: Let_def)
    from next_free_Some [OF this] show ?thesis by (auto simp: registryHasAlias_def)
  qed (use assms(3) in \<open>simp add: registryHasAlias_def\<close>)
  then show "a \<notin> EntAlias ` set (RgConfigs reg)" "a \<noteq> []" "trim_space a = a"
    using builtin_id(3) [OF assms(2)] low name_candidate env_trim [OF assms(1)] by (auto dest: candidate_Nil [OF sym])
qed

lemma alias_ends: "\<exists>n a. nextAvailableAlias n reg base = Some a"
proof -
  let ?S = "EntAlias ` set (RgConfigs reg)" and ?b = "if trim_space base = [] then ''config'' else trim_space base"
  have "next_free (Suc (card ?S)) (\<lambda>c. registryHasAlias (RgConfigs reg) c) ?b 1 \<noteq> None"
    by (rule next_free_ends [where S = ?S and f = "\<lambda>c. c"]) (simp_all add: candidate_inj registryHasAlias_def)
  then show ?thesis unfolding nextAvailableAlias_def Let_def by blast
qed

lemma builtin_added:
  assumes "cat_env_ok env" "entries_ok env es" "bid \<in> set builtin_ids" "bid \<notin> EntBuiltinID ` set es"
    "a \<notin> EntAlias ` set es" "a \<noteq> []" "trim_space a = a"
  shows "entries_ok env (es @ [\<lparr>EntAlias = a, EntPath = builtinBundlePath bid, EntBuiltinID = bid\<rparr>])"
proof -
  have "canonicalRegistryBundlePathKey env (EntPath e) \<noteq> builtinBundlePath bid" if "e \<in> set es" for e
  proof -
    have "bundle_entry_ok env e" using assms(2) that by (auto simp: entries_ok_def list_all_iff)
    then consider "EntBuiltinID e \<in> set builtin_ids" "EntPath e = builtinBundlePath (EntBuiltinID e)"
      | "EntPath e \<noteq> []" "name_shaped env (EntPath e)" by (auto simp: bundle_entry_ok_def)
    then show ?thesis
    proof cases
      case 1
      then show ?thesis
        using builtin_path(2) [OF assms(1) 1(1)] assms(4) that by (auto simp: builtinBundlePath_def)
    next
      case 2
      have "slash \<in> set (builtinBundlePath bid)" by (simp add: builtinBundlePath_def)
      then show ?thesis using user_path(3) [OF assms(1) 2(2,1)] by auto
    qed
  qed
  then have "builtinBundlePath bid \<notin> (\<lambda>e. canonicalRegistryBundlePathKey env (EntPath e)) ` set es" by (metis imageE)
  then show ?thesis
    using assms(2-) builtin_path(2) [OF assms(1,3)] by (auto simp: entries_ok_def bundle_entry_ok_def)
qed

lemma present_kept:
  "keeps_files {[''builtin'', b]} fs fs' \<Longrightarrow> bid \<noteq> b \<Longrightarrow> assets_present env bid fs \<Longrightarrow> assets_present env bid fs'"
  by (fastforce simp: keeps_files_def assets_present_def list_all_iff)

definition builtins_ready :: "cat_env \<Rightarrow> string list \<Rightarrow> RegistryEntry list \<Rightarrow> files \<Rightarrow> bool" where
  "builtins_ready env bids es fs \<longleftrightarrow> (\<forall>bid\<in>set bids. bid \<in> EntBuiltinID ` set es \<and> assets_present env bid fs)"

text \<open>One round of the loop\<close>

lemma ensure_round:
  assumes "cat_env_ok env" "bid \<in> set builtin_ids" "entries_ok env (RgConfigs reg)"
  shows "(\<exists>e. ensure_builtins env tries (bid # bids) reg ch fs = (Inl e, fs) \<or>
            fst (syncBuiltinBundle env tries bid fs) = Some e \<and>
            ensure_builtins env tries (bid # bids) reg ch fs = (Inl e, snd (syncBuiltinBundle env tries bid fs))) \<or>
    (\<exists>reg1 ch1. ensure_builtins env tries (bid # bids) reg ch fs =
        ensure_builtins env tries bids reg1 ch1 (snd (syncBuiltinBundle env tries bid fs)) \<and>
      fst (syncBuiltinBundle env tries bid fs) = None \<and>
      entries_ok env (RgConfigs reg1) \<and> bid \<in> EntBuiltinID ` set (RgConfigs reg1) \<and>
      set (RgConfigs reg) \<subseteq> set (RgConfigs reg1))"
proof -
  obtain r fs1 where s: "syncBuiltinBundle env tries bid fs = (r, fs1)" by (cases "syncBuiltinBundle env tries bid fs")
  show ?thesis
  proof (cases "registryEntryByBuiltinID (RgConfigs reg) bid = None")
    case True
    then have new: "bid \<notin> EntBuiltinID ` set (RgConfigs reg)" by (auto simp: registryEntryByBuiltinID_def find_None_iff)
    let ?a = "if registryHasAlias (RgConfigs reg) bid then nextAvailableAlias tries reg (''builtin-'' @ bid) else Some bid"
    show ?thesis
    proof (cases ?a)
      case None
      with True have "ensure_builtins env tries (bid # bids) reg ch fs = (Inl TriesExhausted, fs)"
        unfolding ensure_builtins.simps by simp
      then show ?thesis by blast
    next
      case (Some a)
      from fresh_alias [OF assms(1,2) Some] builtin_added [OF assms(1,3,2) new]
      have "entries_ok env (RgConfigs reg @ [\<lparr>EntAlias = a, EntPath = builtinBundlePath bid, EntBuiltinID = bid\<rparr>])" by blast
      then show ?thesis using True Some s
        by (cases r) (auto simp: Let_def intro!: exI [of _ "reg\<lparr>RgConfigs := RgConfigs reg @ [\<lparr>EntAlias = a, EntPath = builtinBundlePath bid, EntBuiltinID = bid\<rparr>]\<rparr>"])
    qed
  next
    case False
    then have "bid \<in> EntBuiltinID ` set (RgConfigs reg)" by (auto simp: registryEntryByBuiltinID_def find_Some_iff)
    with False s assms(3) show ?thesis by (cases r) auto
  qed
qed

lemma ensure_loop:
  assumes "cat_env_ok env" "set bids \<subseteq> set builtin_ids" "entries_ok env (RgConfigs reg)" "files_ok fs"
    "ensure_builtins env tries bids reg ch fs = (r, fs')" "distinct (bids @ done_ids)" "builtins_ready env done_ids (RgConfigs reg) fs"
  shows "files_ok fs' \<and> keeps_files {[''builtin'']} fs fs' \<and>
    (\<forall>reg' ch'. r = Inr (reg', ch') \<longrightarrow>
       entries_ok env (RgConfigs reg') \<and> builtins_ready env (bids @ done_ids) (RgConfigs reg') fs')"
  using assms(2-)
proof (induction bids arbitrary: reg ch fs done_ids)
  case (Cons bid bids)
  let ?s = "syncBuiltinBundle env tries bid fs"
  have bid: "bid \<in> set builtin_ids" "set bids \<subseteq> set builtin_ids" using Cons.prems(1) by simp_all
  note sync = sync_shaped [OF assms(1) bid(1) Cons.prems(3), of tries]
  have kept: "keeps_files {[''builtin'']} fs (snd ?s)" using sync(2) by (rule keeps_files_mono) simp
  from ensure_round [OF assms(1) bid(1) Cons.prems(2), of tries bids ch fs]
  consider (failed) e fs1 where "ensure_builtins env tries (bid # bids) reg ch fs = (Inl e, fs1)" "fs1 = fs \<or> fs1 = snd ?s"
    | (done1) reg1 ch1 where "ensure_builtins env tries (bid # bids) reg ch fs = ensure_builtins env tries bids reg1 ch1 (snd ?s)"
      "fst ?s = None" "entries_ok env (RgConfigs reg1)" "bid \<in> EntBuiltinID ` set (RgConfigs reg1)"
      "set (RgConfigs reg) \<subseteq> set (RgConfigs reg1)" by blast
  then show ?case
  proof cases
    case failed
    then show ?thesis using Cons.prems(3,4) sync(1) kept by auto
  next
    case done1
    have "builtins_ready env (bid # done_ids) (RgConfigs reg1) (snd ?s)"
      unfolding builtins_ready_def
    proof (intro ballI conjI)
      fix b assume b: "b \<in> set (bid # done_ids)"
      then show "b \<in> EntBuiltinID ` set (RgConfigs reg1)"
        using done1(4) image_mono [OF done1(5), of EntBuiltinID] Cons.prems(6)
        unfolding builtins_ready_def list.set(2) by blast
      show "assets_present env b (snd ?s)"
      proof (cases "b = bid")
        case False
        then have "assets_present env b fs" using b Cons.prems(6) by (auto simp: builtins_ready_def)
        from present_kept [OF sync(2) False this] show ?thesis .
      qed (use sync(3) [OF done1(2)] in simp)
    qed
    moreover have "ensure_builtins env tries bids reg1 ch1 (snd ?s) = (r, fs')" using Cons.prems(4) done1(1) by simp
    moreover have "distinct (bids @ bid # done_ids)" using Cons.prems(5) by auto
    ultimately have ih: "files_ok fs' \<and> keeps_files {[''builtin'']} (snd ?s) fs' \<and>
      (\<forall>reg' ch'. r = Inr (reg', ch') \<longrightarrow> entries_ok env (RgConfigs reg') \<and>
         builtins_ready env (bids @ bid # done_ids) (RgConfigs reg') fs')"
      by (intro Cons.IH [OF bid(2) done1(3) sync(1)]) simp_all
    show ?thesis
      using ih keeps_files_trans [OF kept] by (auto simp: builtins_ready_def)
  qed
qed auto

lemma ensure_ends:
  assumes "cat_env_ok env" "set bids \<subseteq> set builtin_ids" "entries_ok env (RgConfigs reg)" "files_ok fs"
  shows "\<exists>n x fs'. ensure_builtins env n bids reg ch fs = (Inr x, fs')"
  using assms(2-)
proof (induction bids arbitrary: reg ch fs)
  case (Cons bid bids)
  have bid: "bid \<in> set builtin_ids" "set bids \<subseteq> set builtin_ids" using Cons.prems(1) by simp_all
  let ?a = "\<lambda>t. if registryHasAlias (RgConfigs reg) bid then nextAvailableAlias t reg (''builtin-'' @ bid) else Some bid"
  let ?n = "Suc (card (firsts fs))"
  have named: "\<exists>l a. ?a l = Some a" using alias_ends [of reg "''builtin-'' @ bid"] by auto
  then obtain l a where a: "?a l = Some a" by blast
  have a_mono: "?a k = Some a" if "l \<le> k" for k
    using a alias_mono [OF _ that] by (cases "registryHasAlias (RgConfigs reg) bid") simp_all
  note sync = sync_shaped [OF assms(1) bid(1) Cons.prems(3), of ?n]
  define fs1 where "fs1 = snd (syncBuiltinBundle env ?n bid fs)"
  have synced: "syncBuiltinBundle env ?n bid fs = (None, fs1)" using sync(4) by (simp add: fs1_def prod_eq_iff)
  have ok1: "files_ok fs1" using sync(1) by (simp add: fs1_def)
  let ?new = "reg\<lparr>RgConfigs := RgConfigs reg @ [\<lparr>EntAlias = a, EntPath = builtinBundlePath bid, EntBuiltinID = bid\<rparr>]\<rparr>"
  show ?case
  proof (cases "registryEntryByBuiltinID (RgConfigs reg) bid = None")
    case True
    then have "bid \<notin> EntBuiltinID ` set (RgConfigs reg)" by (auto simp: registryEntryByBuiltinID_def find_None_iff)
    then have "entries_ok env (RgConfigs ?new)"
      using builtin_added [OF assms(1) Cons.prems(2) bid(1)] fresh_alias [OF assms(1) bid(1) a] by simp
    from Cons.IH [OF bid(2) this ok1, of True]
    obtain m x fs' where m: "ensure_builtins env m bids ?new True fs1 = (Inr x, fs')" by blast
    let ?k = "max l (max ?n m)"
    have "?a ?k = Some a" by (rule a_mono) simp
    moreover have "syncBuiltinBundle env ?k bid fs = (None, fs1)" by (rule sync_mono [OF synced]) simp
    moreover have "ensure_builtins env ?k bids ?new True fs1 = (Inr x, fs')" by (rule ensure_mono [OF m]) simp
    ultimately have "ensure_builtins env ?k (bid # bids) reg ch fs = (Inr x, fs')"
      using True unfolding ensure_builtins.simps by (simp add: Let_def)
    then show ?thesis by blast
  next
    case False
    from Cons.IH [OF bid(2) Cons.prems(2) ok1, of ch]
    obtain m x fs' where m: "ensure_builtins env m bids reg ch fs1 = (Inr x, fs')" by blast
    let ?k = "max ?n m"
    have "syncBuiltinBundle env ?k bid fs = (None, fs1)" by (rule sync_mono [OF synced]) simp
    moreover have "ensure_builtins env ?k bids reg ch fs1 = (Inr x, fs')" by (rule ensure_mono [OF m]) simp
    ultimately have "ensure_builtins env ?k (bid # bids) reg ch fs = (Inr x, fs')" using False by simp
    then show ?thesis by blast
  qed
qed auto

lemma seed_bundles_shaped:
  assumes "cat_env_ok env" "files_ok srcFiles" "list_all (bundle_entry_ok env) es" "files_ok fs"
  shows "files_ok (snd (seed_bundles env srcFiles es fs))"
  using assms(3,4)
proof (induction es arbitrary: fs)
  case (Cons e es)
  then have e: "bundle_entry_ok env e" "list_all (bundle_entry_ok env) es" by simp_all
  let ?dir = "path_segments (EntPath e)"
  note path = entry_path(1) [OF assms(1) e(1)]
  obtain r fs1 where c: "copyDir srcFiles ?dir ?dir fs = (r, fs1)" by (cases "copyDir srcFiles ?dir ?dir fs")
  then have "files_ok fs1" using copy_shaped(1) [OF assms(2) Cons.prems(2) entry_dir(2) [OF assms(1) e(1)], of ?dir] by simp
  then show ?case using Cons.IH [OF e(2)] Cons.prems(2) c by (auto simp: path Let_def split: option.splits)
qed simp

lemma seed_ok:
  assumes "cat_env_ok env" "store_ok env st" "io_ok env io"
  shows "store_ok env (snd (seedTaskConfigFromLegacyIfNeeded env io st))"
    "fst (seedTaskConfigFromLegacyIfNeeded env io st) \<noteq> None \<Longrightarrow> ioSeed io \<noteq> Written"
    "CtFile st \<noteq> NoCatalogue \<Longrightarrow> seedTaskConfigFromLegacyIfNeeded env io st = (None, st)"
proof -
  let ?r = "seedTaskConfigFromLegacyIfNeeded env io st"
  have "store_ok env (snd ?r) \<and> (fst ?r \<noteq> None \<longrightarrow> ioSeed io \<noteq> Written)"
  proof (cases "ioLegacy io = None \<or> CtFile st \<noteq> NoCatalogue")
    case False
    then obtain legacy where l: "ioLegacy io = Some legacy" "CtFile st = NoCatalogue" by auto
    then have lok: "store_ok env legacy" "ioSeed io \<noteq> Torn" using assms(3) by (auto simp: io_ok_def)
    obtain src where src: "LoadRegistry env legacy = Inr src" "entries_ok env (RgConfigs src)"
      using load_ok [OF assms(1) lok(1)] by blast
    define seeded where "seeded = src\<lparr>RgConfigs := filter (isSeedableUserEntry env) (RgConfigs src)\<rparr>"
    have ok: "entries_ok env (RgConfigs seeded)" using entries_ok_filter [OF src(2)] by (simp add: seeded_def)
    obtain b fs where b: "seed_bundles env (CtFiles legacy) (RgConfigs seeded) (CtFiles st) = (b, fs)"
      by (cases "seed_bundles env (CtFiles legacy) (RgConfigs seeded) (CtFiles st)")
    have "files_ok fs"
      using seed_bundles_shaped [OF assms(1), of "CtFiles legacy" "RgConfigs seeded" "CtFiles st"] lok(1) assms(2) ok b
      by (auto simp: store_ok_def entries_ok_def)
    then have st: "store_ok env (st\<lparr>CtFiles := fs\<rparr>)" using assms(2) by (simp add: store_ok_def)
    have eq: "?r = (if RgConfigs seeded = [] then (None, st)
        else if b then SaveRegistry env (ioSeed io) seeded (st\<lparr>CtFiles := fs\<rparr>) else (None, st\<lparr>CtFiles := fs\<rparr>))"
      using l src(1) b by (simp add: seedTaskConfigFromLegacyIfNeeded_def seeded_def Let_def split: bool.splits)
    show ?thesis
      using save_ok [OF assms(1) st ok lok(2)] st assms(2) unfolding eq by auto
  qed (auto simp: seedTaskConfigFromLegacyIfNeeded_def assms(2) split: option.split)
  then show "store_ok env (snd ?r)" "fst ?r \<noteq> None \<Longrightarrow> ioSeed io \<noteq> Written" by blast+
  show "?r = (None, st)" if "CtFile st \<noteq> NoCatalogue"
    using that by (simp add: seedTaskConfigFromLegacyIfNeeded_def split: option.split)
qed

text \<open>What a call has done to a store: the invariant, and the files outside some directories\<close>

definition served :: "cat_env \<Rightarrow> string list set \<Rightarrow> cat_store \<Rightarrow> cat_store \<Rightarrow> bool" where
  "served env D st st' \<longleftrightarrow>
     store_ok env st' \<and>
     (CtFile st \<noteq> NoCatalogue \<longrightarrow> CtFile st' \<noteq> NoCatalogue \<and> keeps_files (insert [''builtin''] D) (CtFiles st) (CtFiles st'))"

lemma served_refl: "store_ok env st \<Longrightarrow> served env D st st"
  by (simp add: served_def)

lemma served_trans: "served env D st st' \<Longrightarrow> served env D st' st'' \<Longrightarrow> served env D st st''"
  by (auto simp: served_def intro: keeps_files_trans)

lemma served_mono: "served env {} st st' \<Longrightarrow> served env D st st'"
  by (auto simp: served_def elim!: keeps_files_mono)

lemma builtin_ids_fine: "set builtin_ids \<subseteq> set builtin_ids" "distinct (builtin_ids @ [])"
  by (simp_all add: builtin_ids_def builtinDefs_def)

lemma ready_perm: "mset es = mset es' \<Longrightarrow> builtins_ready env bids es fs \<longleftrightarrow> builtins_ready env bids es' fs"
  unfolding builtins_ready_def by (metis mset_eq_setD)

lemma ensure_defaults_ok:
  assumes "cat_env_ok env" "store_ok env st" "io_ok env io" "ensureBuiltinDefaults env io st = (r, st')"
  shows "served env {} st st' \<and>
    (\<forall>reg. r = Inr reg \<longrightarrow> entries_ok env (RgConfigs reg) \<and> builtins_ready env builtin_ids (RgConfigs reg) (CtFiles st'))"
proof -
  note seed = seed_ok [OF assms(1-3)]
  obtain s st1 where s: "seedTaskConfigFromLegacyIfNeeded env io st = (s, st1)"
    by (cases "seedTaskConfigFromLegacyIfNeeded env io st")
  have st1: "store_ok env st1" "served env {} st st1"
    using seed s assms(2) by (auto simp: served_def)
  show ?thesis
  proof (cases s)
    case (Some e)
    then show ?thesis using assms(4) st1(2) s by (auto simp: ensureBuiltinDefaults_def)
  next
    case None
    obtain reg where reg: "LoadRegistry env st1 = Inr reg" "entries_ok env (RgConfigs reg)" using load_ok [OF assms(1) st1(1)] by blast
    obtain e fs where e: "ensure_builtins env (ioTries io) builtin_ids reg False (CtFiles st1) = (e, fs)"
      by (cases "ensure_builtins env (ioTries io) builtin_ids reg False (CtFiles st1)")
    have f1: "files_ok (CtFiles st1)" using st1(1) by (simp add: store_ok_def)
    have loop: "files_ok fs" "keeps_files {[''builtin'']} (CtFiles st1) fs"
      "\<And>reg' ch'. e = Inr (reg', ch') \<Longrightarrow> entries_ok env (RgConfigs reg') \<and> builtins_ready env builtin_ids (RgConfigs reg') fs"
      using ensure_loop [OF assms(1) builtin_ids_fine(1) reg(2) f1 e builtin_ids_fine(2)] by (auto simp: builtins_ready_def)
    define st2 where "st2 = st1\<lparr>CtFiles := fs\<rparr>"
    have st2: "store_ok env st2" "CtFile st2 = CtFile st1" "served env {} st1 st2"
      using st1(1) loop(1,2) by (auto simp: st2_def store_ok_def served_def)
    have s2: "served env {} st st2" using st1(2) st2(3) by (rule served_trans)
    show ?thesis
    proof (cases e)
      case (Inl err)
      then show ?thesis using assms(4) s None reg(1) e s2 by (auto simp: ensureBuiltinDefaults_def builtin_ids_def st2_def)
    next
      case (Inr p)
      then obtain reg' ch' where p: "e = Inr (reg', ch')" by (cases p) simp
      note r' = loop(3) [OF p]
      have run: "ensureBuiltinDefaults env io st =
          (if ch' \<or> CtFile st2 = NoCatalogue then
             (case SaveRegistry env (ioDefaults io) reg' st2 of
                (Some err, st3) \<Rightarrow> (Inl err, st3) | (None, st3) \<Rightarrow> (LoadRegistry env st3, st3))
           else (normalizeRegistry env reg', st2))"
        using s None reg(1) e p by (simp add: ensureBuiltinDefaults_def builtin_ids_def st2_def Let_def)
      have out: "ioDefaults io \<noteq> Torn" using assms(3) by (auto simp: io_ok_def)
      have norm: "\<exists>n. normalizeRegistry env rr = Inr n \<and> entries_ok env (RgConfigs n) \<and> mset (RgConfigs n) = mset (RgConfigs rr)"
        if "entries_ok env (RgConfigs rr)" for rr
        using normalize_registry_ok [OF assms(1) that] by (auto simp: mset_sort_any)
      have f2: "CtFiles st2 = fs" by (simp add: st2_def)
      show ?thesis
      proof (cases "ch' \<or> CtFile st2 = NoCatalogue")
        case True
        obtain rr where rr: "SaveRegistry env (ioDefaults io) reg' st2 =
            (if ioDefaults io = Written then (None, st2\<lparr>CtFile := StoredCatalogue rr\<rparr>) else (Some CatWriteFailed, st2))"
          "mset (RgConfigs rr) = mset (RgConfigs reg')" "store_ok env (st2\<lparr>CtFile := StoredCatalogue rr\<rparr>)"
          using save_ok [OF assms(1) st2(1) conjunct1 [OF r'] out] by blast
        have rok: "entries_ok env (RgConfigs rr)" using rr(3) by (simp add: store_ok_def)
        obtain n where n: "normalizeRegistry env rr = Inr n" "entries_ok env (RgConfigs n)" "mset (RgConfigs n) = mset (RgConfigs rr)"
          using norm [OF rok] by blast
        have ready: "builtins_ready env builtin_ids (RgConfigs n) fs"
          using ready_perm [of "RgConfigs n" "RgConfigs reg'"] n(3) rr(2) r' by simp
        have s3: "served env {} st (st2\<lparr>CtFile := StoredCatalogue rr\<rparr>)" using s2 rr(3) by (auto simp: served_def)
        show ?thesis
          using run True rr(1) n ready s3 s2 assms(4) f2 by (auto simp: LoadRegistry_def split: if_splits)
      next
        case False
        obtain n where n: "normalizeRegistry env reg' = Inr n" "entries_ok env (RgConfigs n)" "mset (RgConfigs n) = mset (RgConfigs reg')"
          using norm [OF conjunct1 [OF r']] by blast
        have "builtins_ready env builtin_ids (RgConfigs n) fs" using ready_perm [OF n(3)] r' by simp
        then show ?thesis using run False n s2 assms(4) f2 by auto
      qed
    qed
  qed
qed

section \<open>The operations\<close>

lemma catalog_entries_ok:
  assumes "cat_env_ok env" "list_all (bundle_entry_ok env) es"
  shows "catalog_entries env es =
    Inr (map (\<lambda>e. \<lparr>CeAlias = EntAlias e, CePath = path_segments (EntPath e) @ [managedConfigFile],
                   CeBuiltinID = EntBuiltinID e, CeBuiltin = isBuiltinEntry e\<rparr>) es)"
  using assms(2) by (induction es) (simp_all add: entry_dir(3) [OF assms(1)])

lemma load_catalog_ok:
  assumes "cat_env_ok env" "store_ok env st" "io_ok env io"
  shows "served env D st (snd (LoadCatalog env io st))"
proof -
  obtain r st' where e: "ensureBuiltinDefaults env io st = (r, st')" by (cases "ensureBuiltinDefaults env io st")
  from ensure_defaults_ok [OF assms e] have "served env D st st'" by (auto intro: served_mono)
  moreover have "snd (LoadCatalog env io st) = st'" by (auto simp: LoadCatalog_def e Let_def split: sum.split)
  ultimately show ?thesis by simp
qed

lemma then_load_ok:
  assumes "cat_env_ok env" "io_ok env io" "served env D st st1"
  shows "served env D st (snd (LoadCatalog env io st1))"
  using load_catalog_ok [OF assms(1) _ assms(2)] served_trans [OF assms(3)] assms(3) by (simp add: served_def)

lemma saved_served:
  assumes "cat_env_ok env" "store_ok env st" "entries_ok env (RgConfigs reg)" "out \<noteq> Torn"
    "SaveRegistry env out reg st = (e, st1)"
  shows "served env D st st1" "CtFiles st1 = CtFiles st"
  using save_ok [OF assms(1-4)] assms(2,5) by (auto simp: served_def split: if_splits)

lemma save_then_load_ok:
  assumes "cat_env_ok env" "store_ok env st" "io_ok env io" "entries_ok env (RgConfigs reg)"
  shows "served env D st (snd (save_then_load env io reg st))"
proof -
  obtain e st1 where s: "SaveRegistry env (ioSave io) reg st = (e, st1)" by (cases "SaveRegistry env (ioSave io) reg st")
  have "ioSave io \<noteq> Torn" using assms(3) by (auto simp: io_ok_def)
  from saved_served(1) [OF assms(1,2,4) this s] have "served env D st st1" .
  then show ?thesis
    using then_load_ok [OF assms(1,3)] by (cases e) (auto simp: save_then_load_def s)
qed

lemma with_files:
  assumes "store_ok env st" "files_ok fs" "keeps_files {d} (CtFiles st) fs" "[''builtin''] = d \<or> d \<in> D \<or> prefix [''builtin''] d"
  shows "served env D st (st\<lparr>CtFiles := fs\<rparr>)"
proof -
  have "\<forall>d'\<in>{d}. \<exists>e\<in>insert [''builtin''] D. prefix e d'" using assms(4) by auto
  from keeps_files_mono [OF assms(3) this] show ?thesis using assms(1,2) by (auto simp: served_def store_ok_def)
qed

text \<open>Which bundles an operation may change: those of the alias it names, and new ones\<close>

datatype cat_op =
    CatLoad
  | CatClone string string
  | CatRename string string
  | CatDefault string
  | CatDelete string
  | CatReset string
  | CatRuntimes string
  | CatRuntime string string

fun cat_run :: "cat_env \<Rightarrow> cat_io \<Rightarrow> cat_op \<Rightarrow> cat_store \<Rightarrow> (cat_error + Catalog) \<times> cat_store" where
  "cat_run env io CatLoad st = LoadCatalog env io st"
| "cat_run env io (CatClone alias source) st = CloneConfig env io alias source st"
| "cat_run env io (CatRename current new) st = RenameConfigAlias env io current new st"
| "cat_run env io (CatDefault alias) st = SetDefaultConfig env io alias st"
| "cat_run env io (CatDelete alias) st = DeleteConfig env io alias st"
| "cat_run env io (CatReset alias) st = ResetBuiltinConfig env io alias st"
| "cat_run env io (CatRuntimes runtime) st = SetBuiltinRuntimes env io runtime st"
| "cat_run env io (CatRuntime alias runtime) st = SetConfigRuntime env io alias runtime st"

fun named_alias :: "cat_op \<Rightarrow> string option" where
  "named_alias (CatDelete alias) = Some (trim_space alias)"
| "named_alias (CatRuntime alias runtime) = Some (trim_space alias)"
| "named_alias op = None"

definition may_change :: "cat_env \<Rightarrow> cat_op \<Rightarrow> Registry \<Rightarrow> string list set" where
  "may_change env op reg =
     {[path] | path. canonicalRegistryBundlePathKey env path \<notin>
        (\<lambda>e. canonicalRegistryBundlePathKey env (EntPath e)) ` set (RgConfigs reg)} \<union>
     {path_segments (EntPath e) | e. e \<in> set (RgConfigs reg) \<and> named_alias op = Some (EntAlias e)}"

lemma entry_in: "entries_ok env es \<Longrightarrow> e \<in> set es \<Longrightarrow> bundle_entry_ok env e"
  by (simp add: entries_ok_def list_all_iff)

lemma builtin_prefix:
  "cat_env_ok env \<Longrightarrow> bundle_entry_ok env e \<Longrightarrow> isBuiltinEntry e \<Longrightarrow> prefix [''builtin''] (path_segments (EntPath e))"
  by (simp add: entry_dir(1))

lemma clone_path:
  assumes "cat_env_ok env" "nextAvailableBundlePath env tries reg alias = Some path"
  shows "name_shaped env path" "path \<noteq> []"
    "canonicalRegistryBundlePathKey env path \<notin> (\<lambda>e. canonicalRegistryBundlePathKey env (EntPath e)) ` set (RgConfigs reg)"
proof -
  let ?s = "slugifyBundlePath env alias"
  note slug = slug_shaped [OF assms(1), of "alias"]
  have "next_free tries (\<lambda>c. canonicalRegistryBundlePathKey env c \<in>
      set (map (\<lambda>e. canonicalRegistryBundlePathKey env (EntPath e)) (RgConfigs reg))) ?s 1 = Some path"
    using assms(2) slug(2) by (simp add: nextAvailableBundlePath_def Let_def)
  from next_free_Some [OF this]
  show "name_shaped env path" "path \<noteq> []"
    "canonicalRegistryBundlePathKey env path \<notin> (\<lambda>e. canonicalRegistryBundlePathKey env (EntPath e)) ` set (RgConfigs reg)"
    using name_candidate [OF slug(1)] slug(2) candidate_Nil by auto
qed

lemma user_added:
  assumes "entries_ok env es" "name_shaped env path" "path \<noteq> []" "a \<notin> EntAlias ` set es" "a \<noteq> []" "trim_space a = a"
    "canonicalRegistryBundlePathKey env path \<notin> (\<lambda>e. canonicalRegistryBundlePathKey env (EntPath e)) ` set es"
  shows "entries_ok env (es @ [\<lparr>EntAlias = a, EntPath = path, EntBuiltinID = []\<rparr>])"
  using assms by (auto simp: entries_ok_def bundle_entry_ok_def)

lemma clone_ok:
  assumes "cat_env_ok env" "store_ok env st" "io_ok env io" "LoadRegistry env st = Inr reg" "entries_ok env (RgConfigs reg)"
  shows "served env (may_change env (CatClone alias source) reg) st (snd (CloneConfig env io alias source st))"
proof -
  let ?D = "may_change env (CatClone alias source) reg" and ?a = "trim_space alias"
  note refl = served_refl [OF assms(2), of ?D]
  show ?thesis
  proof (cases "?a = [] \<or> trim_space source = [] \<or> registryEntryByAlias (RgConfigs reg) ?a \<noteq> None \<or>
      (\<exists>e. validateManagedConfigPath env (CtFiles st) (trim_space source) = Inl e) \<or>
      nextAvailableBundlePath env (ioTries io) reg ?a = None")
    case True
    then have "snd (CloneConfig env io alias source st) = st"
      using assms(4) by (auto simp: CloneConfig_def Let_def split: sum.split)
    with refl show ?thesis by simp
  next
    case False
    then obtain sourceDir path where v: "validateManagedConfigPath env (CtFiles st) (trim_space source) = Inr sourceDir"
      "nextAvailableBundlePath env (ioTries io) reg ?a = Some path" by (meson not_None_eq sum.exhaust)
    from False have a: "?a \<noteq> []" "trim_space source \<noteq> []" "?a \<notin> EntAlias ` set (RgConfigs reg)"
      by (auto simp: registryEntryByAlias_def find_None_iff)
    note path = clone_path [OF assms(1) v(2)]
    have dir: "path_segments path = [path]" using user_path(2) [OF assms(1) path(1,2)] .
    have D: "[path] \<in> ?D" using path(3) by (auto simp: may_change_def)
    have nd: "no_dots [path]" using name_chars(1) [OF assms(1) path(1)] by (simp add: no_dots_def)
    obtain e fs where c: "copyDir (CtFiles st) sourceDir [path] (CtFiles st) = (e, fs)"
      by (cases "copyDir (CtFiles st) sourceDir [path] (CtFiles st)")
    have fst: "files_ok (CtFiles st)" using assms(2) by (simp add: store_ok_def)
    have fs: "files_ok fs" "keeps_files {[path]} (CtFiles st) fs" using copy_shaped [OF fst fst nd, of sourceDir] c by simp_all
    have s1: "served env ?D st (st\<lparr>CtFiles := fs\<rparr>)" using with_files [OF assms(2) fs] D by blast
    define reg1 where "reg1 = reg\<lparr>RgConfigs := RgConfigs reg @ [\<lparr>EntAlias = ?a, EntPath = path, EntBuiltinID = []\<rparr>]\<rparr>"
    have r1: "entries_ok env (RgConfigs reg1)"
      using user_added [OF assms(5) path(1,2) a(3,1) trim_space_idem path(3)] by (simp add: reg1_def)
    obtain e2 st2 where s2: "SaveRegistry env (ioSave io) reg1 (st\<lparr>CtFiles := fs\<rparr>) = (e2, st2)"
      by (cases "SaveRegistry env (ioSave io) reg1 (st\<lparr>CtFiles := fs\<rparr>)")
    have out: "ioSave io \<noteq> Torn" using assms(3) by (auto simp: io_ok_def)
    have ok1: "store_ok env (st\<lparr>CtFiles := fs\<rparr>)" using s1 by (simp add: served_def)
    have s3: "served env ?D st st2" "CtFiles st2 = fs"
      using served_trans [OF s1] saved_served [OF assms(1) ok1 r1 out s2] by auto
    have cleaned: "served env ?D st (st0\<lparr>CtFiles := remove_all [path] (CtFiles st0)\<rparr>)" if "served env ?D st st0" for st0
    proof -
      have "store_ok env st0" "files_ok (CtFiles st0)" using that by (simp_all add: served_def store_ok_def)
      from with_files [OF this(1) remove_shaped [OF this(2)] keeps_files_remove] D
      have "served env ?D st0 (st0\<lparr>CtFiles := remove_all [path] (CtFiles st0)\<rparr>)" by blast
      with that show ?thesis by (rule served_trans)
    qed
    have "CloneConfig env io alias source st =
        (case e of Some err \<Rightarrow> (Inl err, st\<lparr>CtFiles := remove_all [path] fs\<rparr>)
         | None \<Rightarrow> (case e2 of Some err \<Rightarrow> (Inl err, st2\<lparr>CtFiles := remove_all [path] (CtFiles st2)\<rparr>)
                    | None \<Rightarrow> LoadCatalog env io st2))"
      using False v assms(4) c s2 dir by (simp add: CloneConfig_def Let_def reg1_def split: option.split)
    then show ?thesis
      using cleaned [OF s1] cleaned [OF s3(1)] then_load_ok [OF assms(1,3) s3(1)] by (simp split: option.split)
  qed
qed

lemma at_index:
  assumes "i < length xs"
  shows "mset (xs ! i # take i xs @ drop (Suc i) xs) = mset xs"
    "mset (x # take i xs @ drop (Suc i) xs) = mset (xs[i := x])"
proof -
  show "mset (xs ! i # take i xs @ drop (Suc i) xs) = mset xs"
    using arg_cong [OF id_take_nth_drop [OF assms], of mset] by simp
  show "mset (x # take i xs @ drop (Suc i) xs) = mset (xs[i := x])"
    by (simp add: upd_conv_take_nth_drop [OF assms])
qed

lemma entry_found:
  assumes "entries_ok env (RgConfigs reg)" "registryEntryIndex (RgConfigs reg) a = Some i"
  shows "i < length (RgConfigs reg)" "EntAlias (RgConfigs reg ! i) = a" "bundle_entry_ok env (RgConfigs reg ! i)"
    "entries_ok env (take i (RgConfigs reg) @ drop (Suc i) (RgConfigs reg))"
proof -
  show i: "i < length (RgConfigs reg)" "EntAlias (RgConfigs reg ! i) = a"
    using first_index_Some [of _ "RgConfigs reg" i] assms(2) by (auto simp: registryEntryIndex_def)
  show "bundle_entry_ok env (RgConfigs reg ! i)" using entry_in [OF assms(1)] i(1) by simp
  have "entries_ok env (RgConfigs reg ! i # take i (RgConfigs reg) @ drop (Suc i) (RgConfigs reg))"
    using entries_ok_perm [OF at_index(1) [OF i(1)]] assms(1) by simp
  then show "entries_ok env (take i (RgConfigs reg) @ drop (Suc i) (RgConfigs reg))" by (rule entries_ok_Cons)
qed

lemma renamed_ok:
  assumes "entries_ok env es" "i < length es" "b \<notin> EntAlias ` set es" "b \<noteq> []" "trim_space b = b"
  shows "entries_ok env (es[i := (es ! i)\<lparr>EntAlias := b\<rparr>])"
proof -
  let ?rest = "take i es @ drop (Suc i) es"
  have m: "mset (es ! i # ?rest) = mset es" by (rule at_index(1) [OF assms(2)])
  have "entries_ok env (es ! i # ?rest)" using entries_ok_perm [OF m] assms(1) by simp
  moreover have "b \<notin> EntAlias ` set ?rest" using assms(3) by (auto dest: in_set_takeD in_set_dropD)
  moreover have "entries_ok env (x # r) \<Longrightarrow> b \<notin> EntAlias ` set r \<Longrightarrow> entries_ok env (x\<lparr>EntAlias := b\<rparr> # r)" for x r
    using assms(4,5) by (auto simp: entries_ok_def bundle_entry_ok_def)
  ultimately have "entries_ok env ((es ! i)\<lparr>EntAlias := b\<rparr> # ?rest)" by blast
  then show ?thesis using entries_ok_perm [OF at_index(2) [OF assms(2)]] by blast
qed

lemma rename_ok:
  assumes "cat_env_ok env" "store_ok env st" "io_ok env io" "LoadRegistry env st = Inr reg" "entries_ok env (RgConfigs reg)"
  shows "served env D st (snd (RenameConfigAlias env io current new st))"
proof -
  let ?a = "trim_space current" and ?b = "trim_space new"
  note refl = served_refl [OF assms(2), of D] and loaded = load_catalog_ok [OF assms(1-3), of D]
  show ?thesis
  proof (cases "registryEntryIndex (RgConfigs reg) ?a = None \<or> registryEntryByAlias (RgConfigs reg) ?b \<noteq> None \<or> ?b = []")
    case True
    then show ?thesis using refl loaded assms(4) by (auto simp: RenameConfigAlias_def Let_def split: option.split)
  next
    case False
    then obtain i where i: "registryEntryIndex (RgConfigs reg) ?a = Some i" by auto
    have b: "?b \<notin> EntAlias ` set (RgConfigs reg)" "?b \<noteq> []" using False by (auto simp: registryEntryByAlias_def find_None_iff)
    have "entries_ok env ((RgConfigs reg)[i := (RgConfigs reg ! i)\<lparr>EntAlias := ?b\<rparr>])"
      using renamed_ok [OF assms(5) entry_found(1) [OF assms(5) i] b trim_space_idem] .
    then have "served env D st (snd (save_then_load env io
        \<lparr>RgDefaultAlias = d, RgConfigs = (RgConfigs reg)[i := (RgConfigs reg ! i)\<lparr>EntAlias := ?b\<rparr>]\<rparr> st))" for d
      using save_then_load_ok [OF assms(1-3)] by simp
    then show ?thesis using refl loaded assms(4) i by (auto simp: RenameConfigAlias_def Let_def)
  qed
qed

lemma default_ok:
  assumes "cat_env_ok env" "store_ok env st" "io_ok env io" "LoadRegistry env st = Inr reg" "entries_ok env (RgConfigs reg)"
  shows "served env D st (snd (SetDefaultConfig env io alias st))"
  using save_then_load_ok [OF assms(1-3), of "reg\<lparr>RgDefaultAlias := trim_space alias\<rparr>" D] served_refl [OF assms(2), of D] assms(4,5)
  by (simp add: SetDefaultConfig_def Let_def)

lemma delete_ok:
  assumes "cat_env_ok env" "store_ok env st" "io_ok env io" "LoadRegistry env st = Inr reg" "entries_ok env (RgConfigs reg)"
  shows "served env (may_change env (CatDelete alias) reg) st (snd (DeleteConfig env io alias st))"
proof -
  let ?D = "may_change env (CatDelete alias) reg" and ?a = "trim_space alias"
  note refl = served_refl [OF assms(2), of ?D]
  show ?thesis
  proof (cases "registryEntryIndex (RgConfigs reg) ?a")
    case None
    then show ?thesis using refl assms(4) by (simp add: DeleteConfig_def Let_def)
  next
    case (Some i)
    note e = entry_found [OF assms(5) Some]
    let ?e = "RgConfigs reg ! i" and ?rest = "take i (RgConfigs reg) @ drop (Suc i) (RgConfigs reg)"
    let ?dir = "path_segments (EntPath ?e)"
    define reg1 where "reg1 = \<lparr>RgDefaultAlias = (if RgDefaultAlias reg = ?a then DefaultAlias else RgDefaultAlias reg), RgConfigs = ?rest\<rparr>"
    have D: "?dir \<in> ?D" using e(1,2) by (auto simp: may_change_def intro!: exI [of _ ?e])
    obtain s st1 where s: "SaveRegistry env (ioSave io) reg1 st = (s, st1)" by (cases "SaveRegistry env (ioSave io) reg1 st")
    have out: "ioSave io \<noteq> Torn" using assms(3) by (auto simp: io_ok_def)
    have ok1: "entries_ok env (RgConfigs reg1)" using e(4) by (simp add: reg1_def)
    have s1: "served env ?D st st1" using saved_served(1) [OF assms(1,2) ok1 out s] .
    then have st1: "store_ok env st1" "files_ok (CtFiles st1)" by (simp_all add: served_def store_ok_def)
    have "served env ?D st1 (st1\<lparr>CtFiles := remove_all ?dir (CtFiles st1)\<rparr>)"
      using with_files [OF st1(1) remove_shaped [OF st1(2)] keeps_files_remove] D by blast
    then have "served env ?D st (st1\<lparr>CtFiles := remove_all ?dir (CtFiles st1)\<rparr>)" by (rule served_trans [OF s1])
    from then_load_ok [OF assms(1,3) this] s1 refl show ?thesis
      using assms(4) Some s by (auto simp: DeleteConfig_def Let_def reg1_def split: option.split)
  qed
qed

lemma found_alias: "registryEntryByAlias es a = Some e \<Longrightarrow> e \<in> set es \<and> EntAlias e = a"
  by (auto simp: registryEntryByAlias_def find_Some_iff)

lemma reset_ok:
  assumes "cat_env_ok env" "store_ok env st" "io_ok env io" "LoadRegistry env st = Inr reg" "entries_ok env (RgConfigs reg)"
  shows "served env D st (snd (ResetBuiltinConfig env io alias st))"
proof -
  let ?a = "trim_space alias"
  note refl = served_refl [OF assms(2), of D]
  show ?thesis
  proof (cases "registryEntryByAlias (RgConfigs reg) ?a")
    case None
    then show ?thesis using refl assms(4) by (simp add: ResetBuiltinConfig_def Let_def)
  next
    case (Some e)
    then have e: "bundle_entry_ok env e" using found_alias entry_in [OF assms(5)] by blast
    show ?thesis
    proof (cases "isBuiltinEntry e")
      case False
      then show ?thesis using refl assms(4) Some by (simp add: ResetBuiltinConfig_def Let_def)
    next
      case True
      let ?dir = "path_segments (EntPath e)" and ?fs = "remove_all (path_segments (EntPath e)) (CtFiles st)"
      have bid: "EntBuiltinID e \<in> set builtin_ids" using e True by (auto simp: bundle_entry_ok_def isBuiltinEntry_def)
      have fs: "files_ok ?fs" using assms(2) by (simp add: remove_shaped store_ok_def)
      obtain fs' where fs': "writeBuiltinBundle env ?dir (EntBuiltinID e) True None ?fs = (None, fs')" "files_ok fs'" "keeps_files {?dir} ?fs fs'"
        using write_bundle_shaped [OF assms(1) bid fs entry_dir(2) [OF assms(1) e], of True None] by blast
      have "keeps_files {?dir} (CtFiles st) fs'" using keeps_files_remove fs'(3) by (rule keeps_files_trans)
      then have "served env D st (st\<lparr>CtFiles := fs'\<rparr>)"
        using with_files [OF assms(2) fs'(2)] builtin_prefix [OF assms(1) e True] by blast
      from then_load_ok [OF assms(1,3) this] refl show ?thesis
        using assms(4) Some True fs'(1) entry_dir(3) [OF assms(1) e] by (simp add: ResetBuiltinConfig_def Let_def)
    qed
  qed
qed

lemma write_runtime_ok:
  assumes "cat_env_ok env" "bundle_entry_ok env e" "files_ok fs"
  shows "files_ok (snd (write_runtime env (EntPath e) runtime fs))"
    "keeps_files {path_segments (EntPath e)} fs (snd (write_runtime env (EntPath e) runtime fs))"
proof -
  let ?p = "path_segments (EntPath e) @ [managedConfigFile]"
  have p: "path_shaped ?p" using path_shaped_append [OF entry_dir(2) [OF assms(1,2)]] by simp
  have "snd (write_runtime env (EntPath e) runtime fs) = fs \<or> (\<exists>text. snd (write_runtime env (EntPath e) runtime fs) = map_put ?p text fs)"
    unfolding write_runtime_def entry_dir(3) [OF assms(1,2)] by (auto split: sum.split option.split)
  then show "files_ok (snd (write_runtime env (EntPath e) runtime fs))"
    "keeps_files {path_segments (EntPath e)} fs (snd (write_runtime env (EntPath e) runtime fs))"
    using assms(3) files_put [OF assms(3) p] keeps_files_put [of "path_segments (EntPath e)"] by auto
qed

lemma write_runtimes_ok:
  assumes "cat_env_ok env" "list_all (bundle_entry_ok env) es" "files_ok fs"
  shows "files_ok (snd (write_runtimes env runtime es fs)) \<and> keeps_files {[''builtin'']} fs (snd (write_runtimes env runtime es fs))"
  using assms(2,3)
proof (induction es arbitrary: fs)
  case (Cons e es)
  then have e: "bundle_entry_ok env e" "list_all (bundle_entry_ok env) es" by simp_all
  obtain r fs1 where w: "write_runtime env (EntPath e) runtime fs = (r, fs1)" by (cases "write_runtime env (EntPath e) runtime fs")
  note ok = write_runtime_ok [OF assms(1) e(1) Cons.prems(2), of runtime]
  show ?case
  proof (cases "isBuiltinEntry e")
    case True
    then have "keeps_files {[''builtin'']} fs fs1"
      using ok(2) w builtin_prefix [OF assms(1) e(1) True] by (auto elim: keeps_files_mono)
    then show ?thesis using Cons.IH [OF e(2), of fs1] ok(1) w True by (auto intro: keeps_files_trans split: option.split)
  qed (use Cons.IH [OF e(2) Cons.prems(2)] in simp)
qed simp

lemma runtimes_ok:
  assumes "cat_env_ok env" "store_ok env st" "io_ok env io"
  shows "served env D st (snd (SetBuiltinRuntimes env io runtime st))"
proof -
  obtain r st1 where e: "ensureBuiltinDefaults env io st = (r, st1)" by (cases "ensureBuiltinDefaults env io st")
  note d = ensure_defaults_ok [OF assms e]
  then have s1: "served env D st st1" by (auto intro: served_mono)
  then have st1: "store_ok env st1" "files_ok (CtFiles st1)" by (simp_all add: served_def store_ok_def)
  show ?thesis
  proof (cases r)
    case (Inr reg)
    then have "list_all (bundle_entry_ok env) (RgConfigs reg)" using d by (simp add: entries_ok_def)
    note w = write_runtimes_ok [OF assms(1) this st1(2), of runtime]
    obtain x fs where x: "write_runtimes env runtime (RgConfigs reg) (CtFiles st1) = (x, fs)"
      by (cases "write_runtimes env runtime (RgConfigs reg) (CtFiles st1)")
    have "served env D st1 (st1\<lparr>CtFiles := fs\<rparr>)" using w x with_files [OF st1(1), of fs "[''builtin'']"] by simp
    with s1 have s2: "served env D st (st1\<lparr>CtFiles := fs\<rparr>)" by (rule served_trans)
    from then_load_ok [OF assms(1,3) this] s2 served_refl [OF assms(2), of D] show ?thesis
      using e Inr x by (auto simp: SetBuiltinRuntimes_def split: option.split)
  qed (use e s1 served_refl [OF assms(2), of D] in \<open>simp add: SetBuiltinRuntimes_def\<close>)
qed

lemma runtime_ok:
  assumes "cat_env_ok env" "store_ok env st" "io_ok env io" "LoadRegistry env st = Inr reg" "entries_ok env (RgConfigs reg)"
  shows "served env (may_change env (CatRuntime alias runtime) reg) st (snd (SetConfigRuntime env io alias runtime st))"
proof -
  let ?D = "may_change env (CatRuntime alias runtime) reg" and ?a = "trim_space alias"
  note refl = served_refl [OF assms(2), of ?D]
  show ?thesis
  proof (cases "registryEntryByAlias (RgConfigs reg) ?a")
    case None
    then show ?thesis using refl assms(4) by (simp add: SetConfigRuntime_def Let_def)
  next
    case (Some e)
    then have m: "e \<in> set (RgConfigs reg)" "EntAlias e = ?a" using found_alias by blast+
    then have e: "bundle_entry_ok env e" using entry_in [OF assms(5)] by blast
    let ?dir = "path_segments (EntPath e)"
    have D: "?dir \<in> ?D" using m by (auto simp: may_change_def)
    obtain r fs where w: "write_runtime env (EntPath e) runtime (CtFiles st) = (r, fs)"
      by (cases "write_runtime env (EntPath e) runtime (CtFiles st)")
    have "files_ok (CtFiles st)" using assms(2) by (simp add: store_ok_def)
    from write_runtime_ok [OF assms(1) e this, of runtime] w
    have "served env ?D st (st\<lparr>CtFiles := fs\<rparr>)" using with_files [OF assms(2)] D by simp
    from then_load_ok [OF assms(1,3) this] this refl show ?thesis
      using assms(4) Some w by (auto simp: SetConfigRuntime_def Let_def split: option.split)
  qed
qed

lemma operation_served:
  assumes "cat_env_ok env" "store_ok env st" "io_ok env io" "LoadRegistry env st = Inr reg"
  shows "served env (may_change env op reg) st (snd (cat_run env io op st))"
proof -
  have ok: "entries_ok env (RgConfigs reg)" using load_ok [OF assms(1,2)] assms(4) by auto
  note all = assms ok
  show ?thesis
    by (cases op)
      (use load_catalog_ok [OF assms(1-3)] clone_ok [OF all] rename_ok [OF all] default_ok [OF all] delete_ok [OF all]
        reset_ok [OF all] runtimes_ok [OF assms(1-3)] runtime_ok [OF all] in simp_all)
qed

section \<open>Every history of the catalogue\<close>

text \<open>
  From an empty root: operations, with any outcome of writing the registry but a torn one and the
  store of a legacy root this program built, and edits by the user, who writes and removes files that
  are named like the ones of a bundle.
\<close>

inductive cat_reaches :: "cat_env \<Rightarrow> cat_store \<Rightarrow> bool" for env where
  cat_start: "cat_reaches env \<lparr>CtFile = NoCatalogue, CtFiles = []\<rparr>"
| cat_operation: "cat_reaches env st \<Longrightarrow> Torn \<notin> {ioSave io, ioSeed io, ioDefaults io} \<Longrightarrow>
    (\<forall>l. ioLegacy io = Some l \<longrightarrow> cat_reaches env l) \<Longrightarrow> cat_reaches env (snd (cat_run env io op st))"
| cat_edit: "cat_reaches env st \<Longrightarrow> path_shaped p \<Longrightarrow>
    cat_reaches env (st\<lparr>CtFiles := map_put p data (CtFiles st)\<rparr>)"
| cat_erase: "cat_reaches env st \<Longrightarrow> cat_reaches env (st\<lparr>CtFiles := remove_all p (CtFiles st)\<rparr>)"

lemma reached_ok: "cat_reaches env st \<Longrightarrow> cat_env_ok env \<Longrightarrow> store_ok env st"
proof (induction rule: cat_reaches.induct)
  case (cat_operation st io op)
  then have st: "store_ok env st" and io: "io_ok env io" by (auto simp: io_ok_def)
  obtain reg where reg: "LoadRegistry env st = Inr reg" using load_ok [OF cat_operation.prems st] by blast
  from operation_served [OF cat_operation.prems st io reg] show ?case by (simp add: served_def)
qed (auto simp: store_ok_def files_ok_def files_put [unfolded files_ok_def] remove_shaped [unfolded files_ok_def])

definition outside_ok :: "cat_env \<Rightarrow> cat_io \<Rightarrow> bool" where
  "outside_ok env io \<longleftrightarrow>
     Torn \<notin> {ioSave io, ioSeed io, ioDefaults io} \<and> (\<forall>l. ioLegacy io = Some l \<longrightarrow> cat_reaches env l)"

lemma outside_io: "outside_ok env io \<Longrightarrow> cat_env_ok env \<Longrightarrow> io_ok env io"
  using reached_ok by (auto simp: outside_ok_def io_ok_def)

lemma find_entry: "(\<exists>e\<in>set es. CeAlias e = a) \<Longrightarrow> Catalog_Entry \<lparr>CgDefaultAlias = d, CgEntries = es\<rparr> a \<noteq> None"
  by (auto simp: Catalog_Entry_def find_None_iff)

text \<open>What LoadCatalog makes of a good registry\<close>

lemma catalog_of_registry:
  assumes "cat_env_ok env" "ensureBuiltinDefaults env io st = (Inr reg, st')" "entries_ok env (RgConfigs reg)"
    "builtins_ready env builtin_ids (RgConfigs reg) (CtFiles st')"
  shows "\<exists>cat. LoadCatalog env io st = (Inr cat, st') \<and> DefaultEntry cat \<noteq> None \<and>
    Catalog_Entry cat (CgDefaultAlias cat) \<noteq> None \<and> distinct (map CeAlias (CgEntries cat)) \<and>
    (\<forall>bid\<in>set builtin_ids. (\<exists>e\<in>set (CgEntries cat). CeBuiltinID e = bid \<and> CePath e = [''builtin'', bid, managedConfigFile]) \<and>
       assets_present env bid (CtFiles st'))"
proof -
  let ?entry = "\<lambda>e. \<lparr>CeAlias = EntAlias e, CePath = path_segments (EntPath e) @ [managedConfigFile],
    CeBuiltinID = EntBuiltinID e, CeBuiltin = isBuiltinEntry e\<rparr>"
  let ?es = "map ?entry (RgConfigs reg)"
  have all: "list_all (bundle_entry_ok env) (RgConfigs reg)" using assms(3) by (simp add: entries_ok_def)
  note entries = catalog_entries_ok [OF assms(1) all]
  obtain e0 where e0: "e0 \<in> set (RgConfigs reg)" using assms(4) by (auto simp: builtins_ready_def builtin_ids_def builtinDefs_def)
  then obtain e1 es1 where cons: "?es = e1 # es1" by (cases "RgConfigs reg") auto
  let ?d = "firstNonEmptyAlias [RgDefaultAlias reg, DefaultAlias]"
  define chosen where "chosen =
    (if Catalog_Entry \<lparr>CgDefaultAlias = ?d, CgEntries = ?es\<rparr> ?d \<noteq> None then ?d
     else if Catalog_Entry \<lparr>CgDefaultAlias = ?d, CgEntries = ?es\<rparr> DefaultAlias \<noteq> None then DefaultAlias
     else case ?es of e # _ \<Rightarrow> CeAlias e | [] \<Rightarrow> ?d)"
  let ?cat = "\<lparr>CgDefaultAlias = chosen, CgEntries = ?es\<rparr>"
  have run: "LoadCatalog env io st = (Inr ?cat, st')"
    unfolding LoadCatalog_def assms(2) chosen_def by (simp add: entries Let_def)
  have "Catalog_Entry ?cat chosen \<noteq> None"
  proof -
    let ?f = "\<lambda>a. find (\<lambda>e. CeAlias e = a) ?es"
    have look: "Catalog_Entry \<lparr>CgDefaultAlias = x, CgEntries = ?es\<rparr> a = ?f a" for x a by (simp add: Catalog_Entry_def)
    have first: "?f (CeAlias e1) \<noteq> None" unfolding cons by simp
    have "chosen = (if ?f ?d \<noteq> None then ?d else if ?f DefaultAlias \<noteq> None then DefaultAlias else CeAlias e1)"
      unfolding chosen_def look by (simp only: cons list.case)
    then have "?f chosen \<noteq> None" using first by presburger
    then show ?thesis unfolding look .
  qed
  moreover have "DefaultEntry ?cat \<noteq> None" by (auto simp: DefaultEntry_def cons split: option.split)
  moreover have "distinct (map CeAlias ?es)" using assms(3) by (simp add: entries_ok_def comp_def)
  moreover have "\<forall>bid\<in>set builtin_ids. (\<exists>e\<in>set ?es. CeBuiltinID e = bid \<and> CePath e = [''builtin'', bid, managedConfigFile]) \<and>
       assets_present env bid (CtFiles st')"
  proof
    fix bid assume b: "bid \<in> set builtin_ids"
    then obtain e where e: "e \<in> set (RgConfigs reg)" "EntBuiltinID e = bid" "assets_present env bid (CtFiles st')"
      using assms(4) by (auto simp: builtins_ready_def)
    have "isBuiltinEntry e" using builtin_id(1) [OF b] e(2) by (simp add: isBuiltinEntry_def)
    then have "path_segments (EntPath e) = [''builtin'', bid]"
      using entry_dir(1) [OF assms(1) entry_in [OF assms(3) e(1)]] e(2) by simp
    with e show "(\<exists>e\<in>set ?es. CeBuiltinID e = bid \<and> CePath e = [''builtin'', bid, managedConfigFile]) \<and>
       assets_present env bid (CtFiles st')" by (auto intro!: bexI [of _ e])
  qed
  ultimately show ?thesis using run by (intro exI [of _ ?cat]) simp
qed

text \<open>Enough tries, and a registry that can be written\<close>

lemma defaults_end:
  assumes "cat_env_ok env" "store_ok env st" "io_ok env io" "ioSeed io = Written" "ioDefaults io = Written"
  shows "\<exists>n. \<forall>m\<ge>n. \<exists>reg st'. ensureBuiltinDefaults env (io\<lparr>ioTries := m\<rparr>) st = (Inr reg, st')"
proof -
  note seed = seed_ok [OF assms(1-3)]
  obtain st1 where s: "seedTaskConfigFromLegacyIfNeeded env io st = (None, st1)"
    using seed(2) assms(4) by (cases "seedTaskConfigFromLegacyIfNeeded env io st") auto
  have up: "ioLegacy (io\<lparr>ioTries := m\<rparr>) = ioLegacy io" "ioSeed (io\<lparr>ioTries := m\<rparr>) = ioSeed io" for m by simp_all
  have same: "seedTaskConfigFromLegacyIfNeeded env (io\<lparr>ioTries := m\<rparr>) st = (None, st1)" for m
    using s unfolding seedTaskConfigFromLegacyIfNeeded_def up .
  have st1: "store_ok env st1" using seed(1) s by simp
  then have f1: "files_ok (CtFiles st1)" by (simp add: store_ok_def)
  obtain reg where reg: "LoadRegistry env st1 = Inr reg" "entries_ok env (RgConfigs reg)" using load_ok [OF assms(1) st1] by blast
  obtain n x fs where n: "ensure_builtins env n builtin_ids reg False (CtFiles st1) = (Inr x, fs)"
    using ensure_ends [OF assms(1) subset_refl reg(2) f1] by blast
  obtain reg1 ch where x: "x = (reg1, ch)" by (cases x)
  have "entries_ok env (RgConfigs reg1)" "files_ok fs"
    using ensure_loop [OF assms(1) builtin_ids_fine(1) reg(2) f1 n builtin_ids_fine(2)] x by (auto simp: builtins_ready_def)
  then have norm: "\<exists>r. normalizeRegistry env reg1 = Inr r" and st2: "store_ok env (st1\<lparr>CtFiles := fs\<rparr>)"
    using normalize_registry_ok [OF assms(1), of reg1] st1 by (auto simp: store_ok_def)
  obtain rr where rr: "SaveRegistry env Written reg1 (st1\<lparr>CtFiles := fs\<rparr>) = (None, (st1\<lparr>CtFiles := fs\<rparr>)\<lparr>CtFile := StoredCatalogue rr\<rparr>)"
    "store_ok env ((st1\<lparr>CtFiles := fs\<rparr>)\<lparr>CtFile := StoredCatalogue rr\<rparr>)"
    using save_ok [OF assms(1) st2, of reg1 Written] \<open>entries_ok env (RgConfigs reg1)\<close> by auto
  have load: "\<exists>r. LoadRegistry env ((st1\<lparr>CtFiles := fs\<rparr>)\<lparr>CtFile := StoredCatalogue rr\<rparr>) = Inr r"
    using load_ok [OF assms(1) rr(2)] by blast
  have "\<exists>reg st'. ensureBuiltinDefaults env (io\<lparr>ioTries := m\<rparr>) st = (Inr reg, st')" if "n \<le> m" for m
  proof -
    have e: "ensure_builtins env m (map fst builtinDefs) reg False (CtFiles st1) = (Inr (reg1, ch), fs)"
      using ensure_mono [OF n that] by (simp add: x builtin_ids_def)
    show ?thesis
      unfolding ensureBuiltinDefaults_def same
      using reg(1) e rr(1) load norm assms(5) by (auto simp: Let_def)
  qed
  then show ?thesis by blast
qed


text \<open>
  C28: An operation leaves the bundles alone that it does not name: whatever it does and however it
  fails, every file of a registered user bundle is kept as it is, unless the operation deletes the
  bundle's alias or sets its runtime, or the bundle's path is builtin.
\<close>

theorem other_bundles_are_kept:
  assumes "cat_env_ok env" "cat_reaches env st" "outside_ok env io" "LoadRegistry env st = Inr reg"
    "e \<in> set (RgConfigs reg)" "EntBuiltinID e = []" "EntPath e \<noteq> ''builtin''" "named_alias op \<noteq> Some (EntAlias e)"
    "map_of (CtFiles st) (EntPath e # rel) = Some data"
  shows "map_of (CtFiles (snd (cat_run env io op st))) (EntPath e # rel) = Some data"
proof -
  have st: "store_ok env st" and io: "io_ok env io" using reached_ok outside_io assms(1-3) by blast+
  have ok: "entries_ok env (RgConfigs reg)" using load_ok [OF assms(1) st] assms(4) by auto
  have stored: "CtFile st \<noteq> NoCatalogue" using assms(4,5) by (auto simp: LoadRegistry_def)
  have keys: "distinct (map (\<lambda>e. canonicalRegistryBundlePathKey env (EntPath e)) (RgConfigs reg))"
    using ok by (simp add: entries_ok_def)
  have "\<not> prefix d (EntPath e # rel)" if "d \<in> insert [''builtin''] (may_change env op reg)" for d
  proof
    assume p: "prefix d (EntPath e # rel)"
    from that consider "d = [''builtin'']"
      | path where "d = [path]" "canonicalRegistryBundlePathKey env path \<notin>
          (\<lambda>e. canonicalRegistryBundlePathKey env (EntPath e)) ` set (RgConfigs reg)"
      | e' where "d = path_segments (EntPath e')" "e' \<in> set (RgConfigs reg)" "named_alias op = Some (EntAlias e')"
      by (auto simp: may_change_def)
    then show False
    proof cases
      case 3
      have "EntPath e' = EntPath e"
        using p assms(7) entry_dir(1) [OF assms(1) entry_in [OF ok 3(2)]] 3(1) by (auto split: if_splits)
      then have "e' = e" using keys 3(2) assms(5) by (auto simp: distinct_map inj_on_def)
      with 3(3) assms(8) show False by simp
    qed (use p assms(5,7) in auto)
  qed
  moreover have "keeps_files (insert [''builtin''] (may_change env op reg)) (CtFiles st) (CtFiles (snd (cat_run env io op st)))"
    using operation_served [OF assms(1) st io assms(4), of op] stored by (simp add: served_def)
  ultimately show ?thesis using assms(9) unfolding keeps_files_def by blast
qed

text \<open>
  C40: The exception is real: a user's alias may read builtin, its bundle then is the directory that
  holds the bundles of all builtins, and a clone under such an alias whose registry cannot be written
  removes them all, with whatever the user has changed in them.
\<close>

theorem clone_named_builtin_removes_the_builtins:
  assumes "cat_env_ok env" "cat_reaches env st" "outside_ok env io" "ioSave io = Untouched" "0 < ioTries io"
    "LoadRegistry env st = Inr reg" "trim_space alias = alias" "alias \<noteq> []" "registryEntryByAlias (RgConfigs reg) alias = None"
    "slugifyBundlePath env alias = ''builtin''"
    "''builtin'' \<notin> (\<lambda>e. canonicalRegistryBundlePathKey env (EntPath e)) ` set (RgConfigs reg)"
    "trim_space source \<noteq> []" "validateManagedConfigPath env (CtFiles st) (trim_space source) = Inr sourceDir"
  shows "\<exists>err st'. CloneConfig env io alias source st = (Inl err, st') \<and>
    (\<forall>rel. map_of (CtFiles st') (''builtin'' # rel) = None)"
proof -
  have st: "store_ok env st" and io: "io_ok env io" using reached_ok outside_io assms(1-3) by blast+
  have ok: "entries_ok env (RgConfigs reg)" using load_ok [OF assms(1) st] assms(6) by auto
  have key: "canonicalRegistryBundlePathKey env ''builtin'' = ''builtin''"
    using slug_shaped(1) [OF assms(1), of "alias"] assms(10) user_path(4) [OF assms(1), of "''builtin''"]
      env_plain [OF assms(1), of "''builtin''"] by (simp add: plain_char_def less_eq_char_def)
  obtain t where t: "ioTries io = Suc t" using assms(5) by (cases "ioTries io") auto
  have path: "nextAvailableBundlePath env (ioTries io) reg alias = Some ''builtin''"
    using assms(11) by (simp add: nextAvailableBundlePath_def assms(10) t candidate_def key Let_def)
  have dir: "path_segments ''builtin'' = [''builtin'']" by (rule clean_name(1)) simp_all
  obtain e fs where c: "copyDir (CtFiles st) sourceDir [''builtin''] (CtFiles st) = (e, fs)"
    by (cases "copyDir (CtFiles st) sourceDir [''builtin''] (CtFiles st)")
  have gone: "map_of (remove_all [''builtin''] fs) (''builtin'' # rel) = None" for rel by (simp add: map_of_remove_all)
  let ?reg = "reg\<lparr>RgConfigs := RgConfigs reg @ [\<lparr>EntAlias = alias, EntPath = ''builtin'', EntBuiltinID = []\<rparr>]\<rparr>"
  obtain err where s: "SaveRegistry env (ioSave io) ?reg (st\<lparr>CtFiles := fs\<rparr>) = (Some err, st\<lparr>CtFiles := fs\<rparr>)"
    by (cases "normalizeRegistry env ?reg") (auto simp: SaveRegistry_def assms(4))
  show ?thesis
    using gone by (cases e) (auto simp: CloneConfig_def Let_def assms(6-9,12,13) path dir c s)
qed

section \<open>A concrete root\<close>

definition demo_kind :: "char \<Rightarrow> rune_kind" where
  "demo_kind c =
     (if CHR ''a'' \<le> c \<and> c \<le> CHR ''z'' \<or> CHR ''0'' \<le> c \<and> c \<le> CHR ''9'' then LetterOrDigit
      else if c = CHR ''-'' then Separator else OtherRune)"

definition demo_raw :: rawConfig where
  "demo_raw =
     \<lparr>rawVersion = Some 1, rawDescription = None, rawRuntime = None, rawModel = None, rawThinkingLevel = None,
      rawClarification = None, rawTopo = None, rawNodeDefinitions = []\<rparr>"

definition demo_cat :: cat_env where
  "demo_cat =
     \<lparr>catLower = (\<lambda>s. s), catRunes = map (\<lambda>c. ([c], demo_kind c)), catDir = ''/c'', catConfig = (\<lambda>bid. bid),
      catPrompts = [([''p.md''], ''do'')], catHash = (\<lambda>s. ''h''), catGo = plain_env, catYaml = (\<lambda>s. Some demo_raw),
      catMarshal = (\<lambda>c. Some ''m''), catPin = (\<lambda>s r. Some s)\<rparr>"

definition demo_io :: cat_io where
  "demo_io = \<lparr>ioSave = Written, ioSeed = Written, ioDefaults = Written, ioLegacy = None, ioTries = 1\<rparr>"

definition demo_root :: cat_store where
  "demo_root =
     \<lparr>CtFile = NoCatalogue,
      CtFiles = [([''x'', ''config.yaml''], ''mine''), ([''builtin'', ''default'', ''config.yaml''], ''edited'')]\<rparr>"

lemma demo_name: "name_shaped demo_cat s \<Longrightarrow> list_all (\<lambda>c. demo_kind c \<noteq> OtherRune) s"
  by (fastforce simp: name_shaped_def name_piece_def list_all_iff demo_kind_def demo_cat_def split: if_splits)

lemma demo_trim: "list_all (\<lambda>c. demo_kind c \<noteq> OtherRune) s \<Longrightarrow> trim_space s = s"
proof (cases "s = []")
  case False
  have spaces: "demo_kind c = OtherRune" if "c \<in> set (map hd go_spaces) \<union> set (map last go_spaces)" for c
    using that by (auto simp: go_spaces_def demo_kind_def less_eq_char_def)
  assume "list_all (\<lambda>c. demo_kind c \<noteq> OtherRune) s"
  then have "demo_kind (hd s) \<noteq> OtherRune" "demo_kind (last s) \<noteq> OtherRune" using False by (simp_all add: list_all_iff)
  with spaces show ?thesis by (intro trim_space_plain) blast+
qed simp

lemma demo_cat_ok: "cat_env_ok demo_cat"
  unfolding cat_env_ok_def
  using demo_trim demo_name
  by (auto simp: demo_cat_def demo_kind_def builtinDefs_def path_shaped_def no_dots_def split: if_splits)

lemma demo_outside: "outside_ok demo_cat demo_io" "outside_ok demo_cat (demo_io\<lparr>ioSave := Untouched\<rparr>)"
  "outside_ok demo_cat (demo_io\<lparr>ioDefaults := Untouched\<rparr>)"
  by (simp_all add: outside_ok_def demo_io_def)

lemma demo_root_reached: "cat_reaches demo_cat demo_root"
proof -
  have "cat_reaches demo_cat \<lparr>CtFile = NoCatalogue, CtFiles = [([''x'', ''config.yaml''], ''mine'')]\<rparr>"
    using cat_edit [OF cat_start, of "[''x'', ''config.yaml'']" demo_cat "''mine''"] by (simp add: path_shaped_def no_dots_def)
  from cat_edit [OF this, of "[''builtin'', ''default'', ''config.yaml'']" "''edited''"]
  show ?thesis by (simp add: path_shaped_def no_dots_def demo_root_def)
qed

lemma demo_load: "LoadRegistry demo_cat demo_root = Inr \<lparr>RgDefaultAlias = [], RgConfigs = []\<rparr>"
  by (simp add: LoadRegistry_def demo_root_def)

lemma demo_trims: "trim_space ''/c/x/config.yaml'' = ''/c/x/config.yaml''" "trim_space ''builtin'' = ''builtin''" "trim_space ''u'' = ''u''"
  by (rule trim_space_plain; simp add: go_spaces_def)+

lemma demo_source: "validateManagedConfigPath demo_cat (CtFiles demo_root) ''/c/x/config.yaml'' = Inr [''x'']"
proof -
  have "BundlePathForConfigPath demo_cat ''/c/x/config.yaml'' = Inr [''x'']"
    unfolding BundlePathForConfigPath_def demo_trims
    by (simp add: demo_cat_def dir_part_def path_segments_def raw_segments_def IsAbs_def)
  moreover have "Base ''/c/x/config.yaml'' = managedConfigFile" by (simp add: Base_def managedConfigFile_def)
  ultimately show ?thesis by (simp add: validateManagedConfigPath_def Stat_path_def demo_root_def managedConfigFile_def)
qed

lemma demo_slugs: "slugifyBundlePath demo_cat ''builtin'' = ''builtin''" "slugifyBundlePath demo_cat ''u'' = ''u''"
  unfolding slugifyBundlePath_def
  by (simp_all add: demo_cat_def demo_trims demo_kind_def trim_dashes_def less_eq_char_def)


theorem clone_named_builtin_removes_the_builtins_witness:
  "\<exists>err st'. CloneConfig demo_cat (demo_io\<lparr>ioSave := Untouched\<rparr>) ''builtin'' ''/c/x/config.yaml'' demo_root = (Inl err, st') \<and>
    (\<forall>rel. map_of (CtFiles st') (''builtin'' # rel) = None)"
  by (rule clone_named_builtin_removes_the_builtins [OF demo_cat_ok demo_root_reached demo_outside(2) _ _ demo_load])
    (simp_all add: demo_io_def demo_trims demo_slugs demo_source registryEntryByAlias_def)

text \<open>A clone whose catalogue cannot be saved again after it: the registry holds the clone alone.\<close>

lemma untouched_registry:
  assumes "ioDefaults io = Untouched" "CtFile st \<noteq> NoCatalogue"
  shows "CtFile (snd (LoadCatalog env io st)) = CtFile st"
proof -
  have "CtFile (snd (ensureBuiltinDefaults env io st)) = CtFile st"
    using assms seed_ok(3)
    by (auto simp: ensureBuiltinDefaults_def seedTaskConfigFromLegacyIfNeeded_def SaveRegistry_def Let_def
        split: sum.split option.split prod.split)
  then show ?thesis by (auto simp: LoadCatalog_def Let_def split: sum.split prod.split)
qed

definition demo_bundle :: RegistryEntry where
  "demo_bundle = \<lparr>EntAlias = ''u'', EntPath = ''u'', EntBuiltinID = []\<rparr>"

definition demo_store :: cat_store where
  "demo_store = snd (CloneConfig demo_cat (demo_io\<lparr>ioDefaults := Untouched\<rparr>) ''u'' ''/c/x/config.yaml'' demo_root)"

lemma demo_store_reached: "cat_reaches demo_cat demo_store"
  using cat_operation [OF demo_root_reached, of "demo_io\<lparr>ioDefaults := Untouched\<rparr>" "CatClone ''u'' ''/c/x/config.yaml''"]
  by (simp add: demo_store_def demo_io_def)

lemma demo_store_parts:
  "\<exists>reg. LoadRegistry demo_cat demo_store = Inr reg \<and> demo_bundle \<in> set (RgConfigs reg)"
  "map_of (CtFiles demo_store) [''u'', ''config.yaml''] = Some ''mine''"
proof -
  let ?io = "demo_io\<lparr>ioDefaults := Untouched\<rparr>" and ?reg = "\<lparr>RgDefaultAlias = [], RgConfigs = [demo_bundle]\<rparr>"
  let ?fs = "CtFiles demo_root @ [([''u'', ''config.yaml''], ''mine'')]"
  let ?st = "\<lparr>CtFile = NoCatalogue, CtFiles = ?fs\<rparr>"
  have shaped: "name_shaped demo_cat ''u''" using slug_shaped(1) [OF demo_cat_ok, of "''u''"] by (simp add: demo_slugs)
  have e: "entries_ok demo_cat (RgConfigs ?reg)"
    using shaped by (simp add: entries_ok_def bundle_entry_ok_def demo_bundle_def demo_trims)
  have path: "nextAvailableBundlePath demo_cat (ioTries ?io) \<lparr>RgDefaultAlias = [], RgConfigs = []\<rparr> ''u'' = Some ''u''"
    by (simp add: nextAvailableBundlePath_def demo_slugs demo_io_def candidate_def Let_def)
  have dir: "path_segments ''u'' = [''u'']" by (rule clean_name(1)) simp_all
  have copied: "copyDir (CtFiles demo_root) [''x''] [''u''] (CtFiles demo_root) = (None, ?fs)"
    by (simp add: copyDir_def Stat_path_def demo_root_def files_below_def writeManagedAssetFile_def strict_prefix_def)
  have ok: "store_ok demo_cat ?st" by (simp add: store_ok_def files_ok_def demo_root_def path_shaped_def no_dots_def)
  obtain r where r: "SaveRegistry demo_cat Written ?reg ?st = (None, ?st\<lparr>CtFile := StoredCatalogue r\<rparr>)"
    "mset (RgConfigs r) = mset (RgConfigs ?reg)" "store_ok demo_cat (?st\<lparr>CtFile := StoredCatalogue r\<rparr>)"
    using save_ok [OF demo_cat_ok ok e, of Written] by auto
  let ?st1 = "?st\<lparr>CtFile := StoredCatalogue r\<rparr>"
  have run: "demo_store = snd (LoadCatalog demo_cat ?io ?st1)"
    using demo_load demo_source path dir copied r(1)
    by (simp add: demo_store_def CloneConfig_def demo_trims registryEntryByAlias_def Let_def demo_bundle_def demo_io_def demo_root_def)
  have io: "io_ok demo_cat ?io" by (rule outside_io [OF demo_outside(3) demo_cat_ok])
  have "served demo_cat {} ?st1 demo_store" unfolding run by (rule load_catalog_ok [OF demo_cat_ok r(3) io])
  then have k: "keeps_files {[''builtin'']} (CtFiles ?st1) (CtFiles demo_store)" by (simp add: served_def)
  show "map_of (CtFiles demo_store) [''u'', ''config.yaml''] = Some ''mine''"
    using k by (auto simp: keeps_files_def demo_root_def)
  have "CtFile demo_store = StoredCatalogue r" unfolding run using untouched_registry [of ?io ?st1] by simp
  moreover have "entries_ok demo_cat (RgConfigs r)" using r(3) by (simp add: store_ok_def)
  moreover have "set (RgConfigs r) = {demo_bundle}" using mset_eq_setD [OF r(2)] by simp
  ultimately show "\<exists>reg. LoadRegistry demo_cat demo_store = Inr reg \<and> demo_bundle \<in> set (RgConfigs reg)"
    using normalize_registry_ok(1) [OF demo_cat_ok, of r] by (auto simp: LoadRegistry_def)
qed

theorem other_bundles_are_kept_witness:
  "map_of (CtFiles (snd (cat_run demo_cat demo_io (CatClone ''v'' ''/c/x/config.yaml'') demo_store))) [''u'', ''config.yaml''] = Some ''mine''"
proof -
  obtain reg where reg: "LoadRegistry demo_cat demo_store = Inr reg" "demo_bundle \<in> set (RgConfigs reg)"
    using demo_store_parts(1) by blast
  from other_bundles_are_kept [OF demo_cat_ok demo_store_reached demo_outside(1) reg,
      of "CatClone ''v'' ''/c/x/config.yaml''" "[''config.yaml'']" "''mine''"]
  show ?thesis using demo_store_parts(2) by (simp add: demo_bundle_def)
qed

end
