(* ===== verification/Worktrees.thy ===== *)
theory Worktrees
  imports Paths "HOL-Library.Sublist"
begin

text \<open>
  Worktrees (cli/internal/worktree): the paths of a working directory in a repository and in its
  worktree, the store of mappings from sessions to worktrees, and MirrorCheckout, which makes one
  checkout equal to another.  What git prints, the resolution of links and os.Stat are arguments.
\<close>

section \<open>Paths in a worktree (worktree.go)\<close>

datatype worktree_error =
    RootUnavailable
  | CwdUnavailable
  | EscapesRoot
  | NoRelativePath
  | CwdInvalid
  | CwdNotDirectory
  | MappingUnavailable
  | ExclusionIsRoot
  | UnsupportedMode "string list"
  | PermissionDenied "string list"
  | NotADirectory "string list"
  | GitFailed

definition BranchName :: "string \<Rightarrow> string" where
  "BranchName wtID = ''muxagent/'' @ wtID"

text \<open>filepath.Rel of two clean paths\<close>

fun strip_common :: "string list \<Rightarrow> string list \<Rightarrow> string list \<times> string list" where
  "strip_common (b # bs) (t # ts) = (if b = t then strip_common bs ts else (b # bs, t # ts))"
| "strip_common bs ts = (bs, ts)"

definition Rel :: "string \<Rightarrow> string \<Rightarrow> string option" where
  "Rel basepath targpath =
     (if IsAbs basepath \<noteq> IsAbs targpath then None
      else
        (case strip_common (path_segments basepath) (path_segments targpath) of
           (bs, ts) \<Rightarrow>
             if ''..'' \<in> set bs then None
             else Some (render_path False (replicate (length bs) ''..'' @ ts))))"

text \<open>canonical is canonicalExistingPath: links resolved, None for a path that does not exist\<close>

definition escapes :: "string \<Rightarrow> bool" where
  "escapes relPath \<longleftrightarrow> relPath = ''..'' \<or> prefix ''../'' relPath"

definition NormalizeRepoRelativePath :: "(string \<Rightarrow> string option) \<Rightarrow> string \<Rightarrow> string \<Rightarrow> worktree_error + string" where
  "NormalizeRepoRelativePath canonical repoRoot cwd =
     (case canonical repoRoot of
        None \<Rightarrow> Inl RootUnavailable
      | Some canonicalRepoRoot \<Rightarrow>
          (case canonical cwd of
             None \<Rightarrow> Inl CwdUnavailable
           | Some canonicalCWD \<Rightarrow>
               (case Rel canonicalRepoRoot canonicalCWD of
                  None \<Rightarrow> Inl NoRelativePath
                | Some relPath \<Rightarrow> if escapes (Clean relPath) then Inl EscapesRoot else Inr (Clean relPath))))"

definition cleanRelativeCWD :: "string \<Rightarrow> worktree_error + string" where
  "cleanRelativeCWD relativeCWD =
     (let relPath = Clean (trim_space relativeCWD)
      in if relPath = [] \<or> relPath = ''.'' then Inr ''.''
         else if IsAbs relPath \<or> escapes relPath then Inl CwdInvalid
         else Inr relPath)"

definition WorktreeCWDPath :: "string \<Rightarrow> string \<Rightarrow> worktree_error + string" where
  "WorktreeCWDPath worktreePath relativeCWD =
     (case cleanRelativeCWD relativeCWD of
        Inl err \<Rightarrow> Inl err
      | Inr relPath \<Rightarrow>
          if relPath = ''.'' then Inr (Clean worktreePath) else Inr (Join_path [Clean worktreePath, relPath]))"

text \<open>stat tells whether a path exists and is a directory\<close>

definition ResolveWorktreeCWD ::
  "(string \<Rightarrow> string option) \<Rightarrow> (string \<Rightarrow> bool option) \<Rightarrow> string \<Rightarrow> string \<Rightarrow> worktree_error + string" where
  "ResolveWorktreeCWD canonical stat worktreePath relativeCWD =
     (case canonical worktreePath of
        None \<Rightarrow> Inl RootUnavailable
      | Some canonicalRoot \<Rightarrow>
          (case cleanRelativeCWD relativeCWD of
             Inl err \<Rightarrow> Inl err
           | Inr relPath \<Rightarrow>
               let target = (if relPath = ''.'' then canonicalRoot else Join_path [canonicalRoot, relPath])
               in (case stat target of
                     None \<Rightarrow> Inl CwdUnavailable
                   | Some isDir \<Rightarrow> if isDir then Inr target else Inl CwdNotDirectory)))"

text \<open>DirtyChangeCount, on what git status --porcelain prints; None is a failed run\<close>

definition DirtyChangeCount :: "string option \<Rightarrow> worktree_error + nat" where
  "DirtyChangeCount out =
     (case out of
        None \<Rightarrow> Inl GitFailed
      | Some text \<Rightarrow>
          let trimmed = trim_space text
          in if trimmed = [] then Inr 0 else Inr (length (split_on (CHR 0x0A) trimmed)))"

section \<open>The store of mappings (store.go)\<close>

record Mapping =
  MapWorktreeID :: string
  MapWorktreePath :: string
  MapRepoRoot :: string
  MapBranchName :: string
  MapRelativeCWD :: string

datatype mapping_file = NoMappings | BadMappings | Mappings "(string, Mapping) gomap"

record mapping_store =
  msMappings :: "(string, Mapping) gomap"
  msFile :: mapping_file

definition NewStore :: "mapping_file \<Rightarrow> mapping_store" where
  "NewStore file = \<lparr>msMappings = [], msFile = file\<rparr>"

definition Store_Load :: "mapping_store \<Rightarrow> bool \<times> mapping_store" where
  "Store_Load s =
     (case msFile s of
        NoMappings \<Rightarrow> (True, s\<lparr>msMappings := []\<rparr>)
      | BadMappings \<Rightarrow> (False, s)
      | Mappings m \<Rightarrow> (True, s\<lparr>msMappings := m\<rparr>))"

definition Store_Save :: "bool \<Rightarrow> mapping_store \<Rightarrow> bool \<times> mapping_store" where
  "Store_Save written s = (if written then (True, s\<lparr>msFile := Mappings (msMappings s)\<rparr>) else (False, s))"

definition Store_Set :: "string \<Rightarrow> Mapping \<Rightarrow> mapping_store \<Rightarrow> mapping_store" where
  "Store_Set sessionID m s = s\<lparr>msMappings := map_put sessionID m (msMappings s)\<rparr>"

definition Store_Get :: "mapping_store \<Rightarrow> string \<Rightarrow> Mapping option" where
  "Store_Get s sessionID = map_of (msMappings s) sessionID"

definition Store_Delete :: "string \<Rightarrow> mapping_store \<Rightarrow> mapping_store" where
  "Store_Delete sessionID s = s\<lparr>msMappings := map_del sessionID (msMappings s)\<rparr>"

definition ResolveMappedCWD ::
  "(string \<Rightarrow> string option) \<Rightarrow> (string \<Rightarrow> bool option) \<Rightarrow> Mapping option \<Rightarrow> worktree_error + string" where
  "ResolveMappedCWD canonical stat mapping =
     (case mapping of
        None \<Rightarrow> Inl MappingUnavailable
      | Some m \<Rightarrow> ResolveWorktreeCWD canonical stat (MapWorktreePath m) (MapRelativeCWD m))"

section \<open>Mirroring a checkout\<close>

text \<open>
  What is below a checkout's root, by segments: directories and files with their permissions, links,
  and the modes mirrorEntry refuses.
\<close>

datatype file_node = DirNode nat | FileNode string nat | LinkNode string | OtherNode

type_synonym tree = "(string list, file_node) gomap"

text \<open>The owner may change a directory with write and search permission.\<close>

definition may_write :: "nat \<Rightarrow> bool" where
  "may_write perm \<longleftrightarrow> perm div 64 mod 8 \<in> {3, 7}"

definition parent_writable :: "tree \<Rightarrow> string list \<Rightarrow> bool" where
  "parent_writable t p \<longleftrightarrow>
     butlast p = [] \<or> (case map_of t (butlast p) of Some (DirNode perm) \<Rightarrow> may_write perm | _ \<Rightarrow> False)"

definition create_at :: "string list \<Rightarrow> file_node \<Rightarrow> tree \<Rightarrow> worktree_error + tree" where
  "create_at p node t = (if parent_writable t p then Inr (map_put p node t) else Inl (PermissionDenied p))"

text \<open>os.MkdirAll, from the directory pre on\<close>

fun mkdirs :: "nat \<Rightarrow> string list \<Rightarrow> string list \<Rightarrow> tree \<Rightarrow> worktree_error + tree" where
  "mkdirs perm pre [] t = Inr t"
| "mkdirs perm pre (s # ss) t =
     (case map_of t (pre @ [s]) of
        Some (DirNode _) \<Rightarrow> mkdirs perm (pre @ [s]) ss t
      | Some _ \<Rightarrow> Inl (NotADirectory (pre @ [s]))
      | None \<Rightarrow>
          (case create_at (pre @ [s]) (DirNode perm) t of
             Inl err \<Rightarrow> Inl err
           | Inr t \<Rightarrow> mkdirs perm (pre @ [s]) ss t))"

text \<open>os.RemoveAll: the parent and each directory that is not empty have to be writable.\<close>

definition removable :: "tree \<Rightarrow> string list \<Rightarrow> bool" where
  "removable t p \<longleftrightarrow>
     map_of t p = None \<or>
     parent_writable t p \<and> list_all (\<lambda>(q, _). \<not> strict_prefix p q \<or> parent_writable t q) t"

definition remove_path :: "string list \<Rightarrow> tree \<Rightarrow> worktree_error + tree" where
  "remove_path p t =
     (if removable t p then Inr (filter (\<lambda>(q, _). \<not> prefix p q) t) else Inl (PermissionDenied p))"

definition ensureDirectory :: "string list \<Rightarrow> nat \<Rightarrow> tree \<Rightarrow> worktree_error + tree" where
  "ensureDirectory path mode t =
     (case (case map_of t path of
              None \<Rightarrow> Inr t
            | Some (DirNode _) \<Rightarrow> Inr t
            | Some _ \<Rightarrow> remove_path path t) of
        Inl err \<Rightarrow> Inl err
      | Inr t \<Rightarrow>
          (case mkdirs mode [] path t of
             Inl err \<Rightarrow> Inl err
           | Inr t \<Rightarrow> Inr (map_put path (DirNode mode) t)))"

text \<open>The directory of the path, os.RemoveAll, and the new link or file\<close>

definition replace_at :: "string list \<Rightarrow> file_node \<Rightarrow> tree \<Rightarrow> worktree_error + tree" where
  "replace_at path node t =
     (case mkdirs 493 [] (butlast path) t of
        Inl err \<Rightarrow> Inl err
      | Inr t \<Rightarrow>
          (case remove_path path t of
             Inl err \<Rightarrow> Inl err
           | Inr t \<Rightarrow> create_at path node t))"

definition mirrorEntry :: "string list \<Rightarrow> file_node \<Rightarrow> tree \<Rightarrow> worktree_error + tree" where
  "mirrorEntry path node t =
     (case node of
        DirNode perm \<Rightarrow> ensureDirectory path perm t
      | LinkNode target \<Rightarrow> replace_at path node t
      | FileNode data perm \<Rightarrow> replace_at path node t
      | OtherNode \<Rightarrow> Inl (UnsupportedMode path))"

definition isGitMetadataPath :: "string list \<Rightarrow> bool" where
  "isGitMetadataPath relPath \<longleftrightarrow> prefix [''.git''] relPath"

definition shouldExcludeMirrorPath :: "string list \<Rightarrow> string list list \<Rightarrow> bool" where
  "shouldExcludeMirrorPath relPath exclusions \<longleftrightarrow> list_ex (\<lambda>e. prefix e relPath) exclusions"

fun clean_exclusions :: "string list \<Rightarrow> worktree_error + string list" where
  "clean_exclusions [] = Inr []"
| "clean_exclusions (p # ps) =
     (case cleanRelativeCWD p of
        Inl err \<Rightarrow> Inl err
      | Inr x \<Rightarrow>
          if x = ''.'' then Inl ExclusionIsRoot
          else (case clean_exclusions ps of Inl err \<Rightarrow> Inl err | Inr xs \<Rightarrow> Inr (x # xs)))"

definition normalizeMirrorExcludePrefixes :: "string list \<Rightarrow> worktree_error + string list" where
  "normalizeMirrorExcludePrefixes excl =
     (case clean_exclusions excl of Inl err \<Rightarrow> Inl err | Inr xs \<Rightarrow> Inr (sort_slice (<) xs))"

text \<open>
  filepath.Walk with the two tests of MirrorCheckout: what it visits and does not skip, in the order
  of the segments.  A directory that is skipped is skipped with all it holds.
\<close>

definition mirrored :: "string list list \<Rightarrow> string list \<Rightarrow> bool" where
  "mirrored exclusions relPath \<longleftrightarrow> \<not> isGitMetadataPath relPath \<and> \<not> shouldExcludeMirrorPath relPath exclusions"

definition walk_tree :: "string list list \<Rightarrow> tree \<Rightarrow> (string list \<times> file_node) list" where
  "walk_tree exclusions t = filter (\<lambda>(p, _). mirrored exclusions p) (sort_slice (\<lambda>a b. fst a < fst b) t)"

fun mirror_entries :: "(string list \<times> file_node) list \<Rightarrow> tree \<Rightarrow> worktree_error + tree" where
  "mirror_entries [] t = Inr t"
| "mirror_entries ((p, node) # rest) t =
     (case mirrorEntry p node t of Inl err \<Rightarrow> Inl err | Inr t \<Rightarrow> mirror_entries rest t)"

fun remove_stale :: "string list set \<Rightarrow> string list list \<Rightarrow> tree \<Rightarrow> worktree_error + tree" where
  "remove_stale sourceEntries [] t = Inr t"
| "remove_stale sourceEntries (p # ps) t =
     (if p \<in> sourceEntries then remove_stale sourceEntries ps t
      else (case remove_path p t of Inl err \<Rightarrow> Inl err | Inr t \<Rightarrow> remove_stale sourceEntries ps t))"

definition MirrorCheckout :: "tree \<Rightarrow> tree \<Rightarrow> string list \<Rightarrow> worktree_error + tree" where
  "MirrorCheckout source destination excludePrefixes =
     (case normalizeMirrorExcludePrefixes excludePrefixes of
        Inl err \<Rightarrow> Inl err
      | Inr excl \<Rightarrow>
          let exclusions = map path_segments excl; entries = walk_tree exclusions source
          in (case mirror_entries entries destination of
                Inl err \<Rightarrow> Inl err
              | Inr t \<Rightarrow>
                  remove_stale (set (map fst entries))
                    (sort_slice (\<lambda>a b. length b < length a) (map fst (walk_tree exclusions t))) t))"


section \<open>What a mirror is\<close>

text \<open>A checkout: every entry is below the root or below a directory of it.\<close>

definition tree_ok :: "tree \<Rightarrow> bool" where
  "tree_ok t \<longleftrightarrow> map_ok t \<and>
     (\<forall>p. map_of t p \<noteq> None \<longrightarrow> p \<noteq> [] \<and> (butlast p \<noteq> [] \<longrightarrow> (\<exists>perm. map_of t (butlast p) = Some (DirNode perm))))"

definition writable_tree :: "tree \<Rightarrow> bool" where
  "writable_tree t \<longleftrightarrow> list_all (\<lambda>(_, node). case node of DirNode perm \<Rightarrow> may_write perm | _ \<Rightarrow> True) t"

abbreviation is_dir_at :: "tree \<Rightarrow> string list \<Rightarrow> bool" where
  "is_dir_at t p \<equiv> \<exists>perm. map_of t p = Some (DirNode perm)"

lemma writable_at: "writable_tree t \<Longrightarrow> map_of t p = Some (DirNode perm) \<Longrightarrow> may_write perm"
  unfolding writable_tree_def list_all_iff by (fastforce dest: map_of_SomeD)

lemma tree_okI:
  assumes "map_ok t" "\<And>p. map_of t p \<noteq> None \<Longrightarrow> p \<noteq> [] \<and> (butlast p = [] \<or> is_dir_at t (butlast p))"
  shows "tree_ok t"
  using assms unfolding tree_ok_def by blast

lemma tree_not_Nil: "tree_ok t \<Longrightarrow> map_of t [] = None"
  unfolding tree_ok_def by blast

lemma tree_parent: "tree_ok t \<Longrightarrow> map_of t p \<noteq> None \<Longrightarrow> butlast p \<noteq> [] \<Longrightarrow> is_dir_at t (butlast p)"
  unfolding tree_ok_def by blast

text \<open>Every directory on the way to an entry is there.\<close>

lemma tree_above:
  assumes "tree_ok t" "map_of t p \<noteq> None" "strict_prefix q p" "q \<noteq> []"
  shows "is_dir_at t q"
  using assms(2,3)
proof (induction p rule: rev_induct)
  case (snoc x p)
  have pq: "prefix q p" using snoc.prems(2) by (auto simp: strict_prefix_def prefix_snoc)
  then have "p \<noteq> []" using assms(4) by auto
  then have dir: "is_dir_at t p" using tree_parent [OF assms(1) snoc.prems(1)] by simp
  show ?case
  proof (cases "q = p")
    case False
    then show ?thesis using snoc.IH dir pq by (metis option.distinct(1) strict_prefix_def)
  qed (use dir in simp)
qed simp

lemma parent_fine: "tree_ok t \<Longrightarrow> writable_tree t \<Longrightarrow> map_of t p \<noteq> None \<Longrightarrow> parent_writable t p"
  using tree_parent writable_at unfolding parent_writable_def by fastforce

lemma removable_fine:
  assumes "tree_ok t" "writable_tree t"
  shows "removable t p"
proof -
  have "map_of t q \<noteq> None" if "(q, n) \<in> set t" for q n
    using that by (simp add: map_of_eq_None_iff rev_image_eqI)
  then show ?thesis using parent_fine [OF assms] unfolding removable_def list_all_iff by auto
qed

definition without :: "string list \<Rightarrow> tree \<Rightarrow> tree" where
  "without p t = filter (\<lambda>(q, _). \<not> prefix p q) t"

lemma map_of_without: "map_of (without p t) q = (if prefix p q then None else map_of t q)"
  unfolding without_def by (induction t) auto

lemma without_fine:
  assumes "tree_ok t" "writable_tree t"
  shows "tree_ok (without p t)" "writable_tree (without p t)" "remove_path p t = Inr (without p t)"
proof -
  have k: "map_ok (without p t)" using assms(1) unfolding without_def tree_ok_def by (simp add: distinct_map_filter)
  show "tree_ok (without p t)"
  proof (rule tree_okI [OF k])
    fix q assume "map_of (without p t) q \<noteq> None"
    then have q: "\<not> prefix p q" "map_of t q \<noteq> None" by (simp_all add: map_of_without split: if_splits)
    have "\<not> prefix p (butlast q)" using q(1) by (metis prefix_order.trans prefixeq_butlast)
    moreover have "q \<noteq> []" using q(2) tree_not_Nil [OF assms(1)] by auto
    ultimately show "q \<noteq> [] \<and> (butlast q = [] \<or> is_dir_at (without p t) (butlast q))"
      using tree_parent [OF assms(1) q(2)] by (auto simp: map_of_without)
  qed
  show "writable_tree (without p t)" using assms(2) by (simp add: writable_tree_def without_def list_all_iff)
  show "remove_path p t = Inr (without p t)" using removable_fine [OF assms] by (simp add: remove_path_def without_def)
qed

lemma put_fine:
  assumes "tree_ok t" "writable_tree t" "p \<noteq> []" "butlast p = [] \<or> is_dir_at t (butlast p)"
    "\<And>q. strict_prefix p q \<Longrightarrow> map_of t q \<noteq> None \<Longrightarrow> \<exists>perm. node = DirNode perm"
    "\<And>perm. node = DirNode perm \<Longrightarrow> may_write perm"
  shows "tree_ok (map_put p node t)" "writable_tree (map_put p node t)"
proof -
  have "map_ok t" using assms(1) by (simp add: tree_ok_def)
  then have k: "map_ok (map_put p node t)" by (rule map_ok_put)
  have p: "butlast p \<noteq> p" using assms(3) by (metis append_butlast_last_id append_self_conv not_Cons_self2)
  show "tree_ok (map_put p node t)"
  proof (rule tree_okI [OF k])
    fix q assume q: "map_of (map_put p node t) q \<noteq> None"
    show "q \<noteq> [] \<and> (butlast q = [] \<or> is_dir_at (map_put p node t) (butlast q))"
    proof (cases "q = p")
      case True
      then show ?thesis using assms(3,4) p by (auto simp: map_of_put)
    next
      case False
      then have t: "map_of t q \<noteq> None" using q by (simp add: map_of_put)
      then have ne: "q \<noteq> []" using tree_not_Nil [OF assms(1)] by auto
      show ?thesis
      proof (cases "butlast q = p")
        case True
        then have "strict_prefix p q" using ne False by (metis prefixeq_butlast strict_prefix_def)
        then show ?thesis using assms(5) t True ne by (auto simp: map_of_put)
      next
        case False
        then show ?thesis using tree_parent [OF assms(1) t] ne by (auto simp: map_of_put)
      qed
    qed
  qed
  have "set (map_put p node t) \<subseteq> insert (p, node) (set t)" by (induction p node t rule: map_put.induct) auto
  then show "writable_tree (map_put p node t)"
    using assms(2,6) unfolding writable_tree_def list_all_iff by (auto split: file_node.splits)
qed

lemma create_fine:
  assumes "writable_tree t" "butlast p = [] \<or> is_dir_at t (butlast p)"
  shows "create_at p node t = Inr (map_put p node t)"
  using assms writable_at unfolding create_at_def parent_writable_def by fastforce

lemma mkdirs_there:
  assumes "\<And>ss' ss''. ss = ss' @ ss'' \<Longrightarrow> ss' \<noteq> [] \<Longrightarrow> is_dir_at t (pre @ ss')"
  shows "mkdirs perm pre ss t = Inr t"
  using assms
proof (induction ss arbitrary: pre)
  case (Cons s ss)
  have "is_dir_at t (pre @ [s])" using Cons.prems [of "[s]" ss] by simp
  moreover have "mkdirs perm (pre @ [s]) ss t = Inr t"
  proof (rule Cons.IH)
    fix ss' ss'' assume "ss = ss' @ ss''" "ss' \<noteq> []"
    then show "is_dir_at t ((pre @ [s]) @ ss')" using Cons.prems [of "s # ss'" ss''] by simp
  qed
  ultimately show ?case by auto
qed simp

lemma mkdirs_append:
  "mkdirs perm pre (as @ bs) t = (case mkdirs perm pre as t of Inl err \<Rightarrow> Inl err | Inr t \<Rightarrow> mkdirs perm (pre @ as) bs t)"
  by (induction as arbitrary: pre t) (auto split: option.split file_node.split sum.split)

text \<open>The directories above an entry\<close>

definition dirs_above :: "tree \<Rightarrow> string list \<Rightarrow> bool" where
  "dirs_above t p \<longleftrightarrow> (\<forall>q. strict_prefix q p \<longrightarrow> q \<noteq> [] \<longrightarrow> is_dir_at t q)"

lemma above_parent: "dirs_above t p \<Longrightarrow> p \<noteq> [] \<Longrightarrow> butlast p = [] \<or> is_dir_at t (butlast p)"
  unfolding dirs_above_def by (metis append_butlast_last_id not_Cons_self2 prefixeq_butlast self_append_conv strict_prefix_def)

lemma above_mkdirs:
  assumes "dirs_above t p" "p \<noteq> []"
  shows "mkdirs perm [] (butlast p) t = Inr t"
proof (rule mkdirs_there)
  fix ss' ss'' assume s: "butlast p = ss' @ ss''" "ss' \<noteq> []"
  have "p = ss' @ ss'' @ [last p]" using assms(2) s(1) by (metis append_assoc append_butlast_last_id)
  then have "strict_prefix ss' p" by (simp add: strict_prefix_def) (metis append_self_conv prefixI snoc_eq_iff_butlast)
  then show "is_dir_at t ([] @ ss')" using assms(1) s(2) by (simp add: dirs_above_def)
qed

definition entry_placed :: "string list \<Rightarrow> file_node \<Rightarrow> tree \<Rightarrow> tree \<Rightarrow> bool" where
  "entry_placed p node t t' \<longleftrightarrow>
     tree_ok t' \<and> writable_tree t' \<and>
     (\<forall>q. map_of t' q =
        (if q = p then Some node else if prefix p q \<and> (\<forall>perm. node \<noteq> DirNode perm) then None else map_of t q))"

lemma replace_fine:
  assumes "tree_ok t" "writable_tree t" "p \<noteq> []" "dirs_above t p" "\<And>perm. node \<noteq> DirNode perm"
  shows "\<exists>t'. replace_at p node t = Inr t' \<and> entry_placed p node t t'"
proof -
  let ?w = "without p t"
  note w = without_fine [OF assms(1,2), of p]
  have parent: "butlast p = [] \<or> is_dir_at ?w (butlast p)"
  proof -
    have "\<not> prefix p (butlast p)" using assms(3)
      by (metis append_butlast_last_id not_Cons_self2 prefix_order.antisym prefixeq_butlast self_append_conv)
    then show ?thesis using above_parent [OF assms(4,3)] by (auto simp: map_of_without)
  qed
  have "create_at p node ?w = Inr (map_put p node ?w)" by (rule create_fine [OF w(2) parent])
  then have run: "replace_at p node t = Inr (map_put p node ?w)"
    by (simp add: replace_at_def above_mkdirs [OF assms(4,3)] w(3))
  have "tree_ok (map_put p node ?w)" "writable_tree (map_put p node ?w)"
    using put_fine [OF w(1,2) assms(3) parent, of node] assms(5) by (auto simp: map_of_without strict_prefix_def)
  then have "entry_placed p node t (map_put p node ?w)" using assms(5) by (auto simp: entry_placed_def map_of_put map_of_without)
  with run show ?thesis by blast
qed

lemma ensure_directory_fine:
  assumes "tree_ok t" "writable_tree t" "p \<noteq> []" "dirs_above t p" "may_write perm"
  shows "\<exists>t'. ensureDirectory p perm t = Inr t' \<and> entry_placed p (DirNode perm) t t'"
proof -
  note parent = above_parent [OF assms(4,3)]
  have last: "p = butlast p @ [last p]" using assms(3) by simp
  show ?thesis
  proof (cases "is_dir_at t p")
    case True
    then obtain old where old: "map_of t p = Some (DirNode old)" by blast
    have "mkdirs perm [] (butlast p @ [last p]) t = Inr t"
      unfolding mkdirs_append above_mkdirs [OF assms(4,3)] using old last by simp
    then have "ensureDirectory p perm t = Inr (map_put p (DirNode perm) t)"
      using old assms(3) by (simp add: ensureDirectory_def)
    moreover have "tree_ok (map_put p (DirNode perm) t)" "writable_tree (map_put p (DirNode perm) t)"
      using put_fine [OF assms(1-3) parent, of "DirNode perm"] assms(5) by auto
    ultimately show ?thesis by (intro exI [of _ "map_put p (DirNode perm) t"]) (auto simp: entry_placed_def map_of_put)
  next
    case False
    let ?w = "without p t"
    note w = without_fine [OF assms(1,2), of p]
    have gone: "map_of ?w q = (if q = p then None else map_of t q)" for q
      using tree_above [OF assms(1), of q p] False assms(3)
      by (cases "map_of t q") (auto simp: map_of_without strict_prefix_def)
    have first: "(case map_of t p of None \<Rightarrow> Inr t | Some (DirNode x) \<Rightarrow> Inr t | Some _ \<Rightarrow> remove_path p t) =
        Inr (if map_of t p = None then t else ?w)"
      using False w(3) by (auto split: option.split file_node.split)
    let ?t = "if map_of t p = None then t else ?w"
    have t: "tree_ok ?t" "writable_tree ?t" "map_of ?t q = (if q = p then None else map_of t q)" for q
      using assms(1,2) w gone by auto
    have above: "dirs_above ?t p" using assms(4) t(3) by (auto simp: dirs_above_def)
    note parent = above_parent [OF above assms(3)]
    have c: "create_at p (DirNode perm) ?t = Inr (map_put p (DirNode perm) ?t)" by (rule create_fine [OF t(2) parent])
    have "mkdirs perm [] (butlast p @ [last p]) ?t = Inr (map_put p (DirNode perm) ?t)"
      unfolding mkdirs_append above_mkdirs [OF above assms(3)] using c t(3) [of p] last by simp
    then have run: "ensureDirectory p perm t = Inr (map_put p (DirNode perm) (map_put p (DirNode perm) ?t))"
      unfolding ensureDirectory_def first using assms(3) by simp
    have one: "tree_ok (map_put p (DirNode perm) ?t)" "writable_tree (map_put p (DirNode perm) ?t)"
      using put_fine [OF t(1,2) assms(3) parent, of "DirNode perm"] assms(5) by auto
    have "butlast p = [] \<or> is_dir_at (map_put p (DirNode perm) ?t) (butlast p)" using parent by (auto simp: map_of_put)
    then have "tree_ok (map_put p (DirNode perm) (map_put p (DirNode perm) ?t))"
      "writable_tree (map_put p (DirNode perm) (map_put p (DirNode perm) ?t))"
      using put_fine [OF one assms(3), of "DirNode perm"] assms(5) by auto
    then show ?thesis using run t(3) by (auto simp: entry_placed_def map_of_put)
  qed
qed

lemma mirror_entry_fine:
  assumes "tree_ok t" "writable_tree t" "p \<noteq> []" "dirs_above t p" "node \<noteq> OtherNode"
    "\<And>perm. node = DirNode perm \<Longrightarrow> may_write perm"
  shows "\<exists>t'. mirrorEntry p node t = Inr t' \<and> entry_placed p node t t'"
  using replace_fine [OF assms(1-4), of node] ensure_directory_fine [OF assms(1-4)] assms(5,6)
  by (cases node) (auto simp: mirrorEntry_def)

section \<open>The walk over the source\<close>

interpretation walk_sort: key_order "\<lambda>a b :: string list \<times> file_node. fst a < fst b" fst
  by unfold_locales simp

interpretation depth_sort: key_order "\<lambda>a b :: string list. length b < length a" "\<lambda>p. - int (length p)"
  by unfold_locales simp

lemma prefix_before: "strict_prefix q p \<Longrightarrow> q < (p :: string list)"
proof (induction q arbitrary: p)
  case Nil
  then show ?case by (cases p) auto
next
  case (Cons x q)
  then obtain p' where "p = x # p'" "strict_prefix q p'" by (cases p) auto
  with Cons.IH show ?case by simp
qed

lemma mirrored_prefix: "mirrored ex p \<Longrightarrow> prefix q p \<Longrightarrow> mirrored ex q"
  unfolding mirrored_def isGitMetadataPath_def shouldExcludeMirrorPath_def list_ex_iff
  by (meson prefix_order.trans)

text \<open>After the entries S of the source have been mirrored\<close>

definition mirrored_so_far :: "tree \<Rightarrow> tree \<Rightarrow> string list set \<Rightarrow> tree \<Rightarrow> bool" where
  "mirrored_so_far src dst S t \<longleftrightarrow>
     tree_ok t \<and> writable_tree t \<and>
     (\<forall>p. map_of t p =
        (if p \<in> S then map_of src p
         else if \<exists>q\<in>S. strict_prefix q p \<and> \<not> is_dir_at src q then None
         else map_of dst p))"

lemma mirror_step:
  assumes "mirrored_so_far src dst S t" "tree_ok src" "writable_tree src" "map_of src p = Some node" "node \<noteq> OtherNode"
    "\<And>q. strict_prefix q p \<Longrightarrow> q \<noteq> [] \<Longrightarrow> q \<in> S" "S \<subseteq> dom (map_of src)"
  shows "\<exists>t'. mirrorEntry p node t = Inr t' \<and> mirrored_so_far src dst (insert p S) t'"
proof -
  have t: "tree_ok t" "writable_tree t" using assms(1) by (simp_all add: mirrored_so_far_def)
  have look: "map_of t q =
      (if q \<in> S then map_of src q else if \<exists>r\<in>S. strict_prefix r q \<and> \<not> is_dir_at src r then None else map_of dst q)" for q
    using assms(1) unfolding mirrored_so_far_def by blast
  have ne: "p \<noteq> []" using assms(4) tree_not_Nil [OF assms(2)] by auto
  have src_above: "is_dir_at src q" if "strict_prefix q p" "q \<noteq> []" for q
    using tree_above [OF assms(2) _ that] assms(4) by simp
  have above: "dirs_above t p" unfolding dirs_above_def using src_above assms(6) by (simp add: look)
  obtain t' where t': "mirrorEntry p node t = Inr t'" "entry_placed p node t t'"
    using mirror_entry_fine [OF t ne above assms(5)] writable_at [OF assms(3)] assms(4) by blast
  have "map_of t' q = (if q \<in> insert p S then map_of src q
      else if \<exists>r\<in>insert p S. strict_prefix r q \<and> \<not> is_dir_at src r then None else map_of dst q)" for q
  proof (cases "q = p")
    case True
    then show ?thesis using t'(2) assms(4) by (simp add: entry_placed_def)
  next
    case False
    show ?thesis
    proof (cases "\<exists>perm. node = DirNode perm")
      case True
      then have "map_of t' q = map_of t q" using t'(2) False by (auto simp: entry_placed_def)
      then show ?thesis using look [of q] False True assms(4) by auto
    next
      case plain: False
      then have l: "map_of t' q = (if prefix p q then None else map_of t q)" using t'(2) False by (auto simp: entry_placed_def)
      have "q \<notin> S" if "prefix p q"
      proof
        assume "q \<in> S"
        then have "map_of src q \<noteq> None" using assms(7) by auto
        then have "is_dir_at src p" using tree_above [OF assms(2)] that False ne by (auto simp: strict_prefix_def)
        then show False using plain assms(4) by auto
      qed
      moreover have "\<not> is_dir_at src p" using plain assms(4) by auto
      ultimately show ?thesis using l look [of q] False by (auto simp: strict_prefix_def)
    qed
  qed
  then show ?thesis using t' by (auto simp: entry_placed_def mirrored_so_far_def)
qed

lemma mirror_entries_fine:
  assumes "mirrored_so_far src dst S t" "tree_ok src" "writable_tree src" "sorted_wrt (<) (map fst ws)"
    "\<And>p node. (p, node) \<in> set ws \<Longrightarrow> map_of src p = Some node \<and> node \<noteq> OtherNode"
    "\<And>p q. p \<in> fst ` set ws \<Longrightarrow> strict_prefix q p \<Longrightarrow> q \<noteq> [] \<Longrightarrow> q \<in> S \<union> fst ` set ws" "S \<subseteq> dom (map_of src)"
  shows "\<exists>t'. mirror_entries ws t = Inr t' \<and> mirrored_so_far src dst (S \<union> fst ` set ws) t'"
  using assms(1,4-)
proof (induction ws arbitrary: S t)
  case (Cons w ws)
  obtain p node where w: "w = (p, node)" by (cases w)
  have p: "map_of src p = Some node" "node \<noteq> OtherNode" using Cons.prems(3) [of p node] w by simp_all
  have later: "p < q" if "q \<in> fst ` set ws" for q using Cons.prems(2) that w by auto
  have above: "q \<in> S" if "strict_prefix q p" "q \<noteq> []" for q
  proof -
    have "q < p" using prefix_before [OF that(1)] .
    then have "q \<notin> fst ` set (w # ws)" using later w by (auto dest: order.asym)
    then show ?thesis using Cons.prems(4) [of p q] that w by auto
  qed
  obtain t1 where t1: "mirrorEntry p node t = Inr t1" "mirrored_so_far src dst (insert p S) t1"
    using mirror_step [OF Cons.prems(1) assms(2,3) p above Cons.prems(5)] by blast
  have "\<exists>t'. mirror_entries ws t1 = Inr t' \<and> mirrored_so_far src dst (insert p S \<union> fst ` set ws) t'"
  proof (rule Cons.IH [OF t1(2)])
    show "sorted_wrt (<) (map fst ws)" using Cons.prems(2) by simp
    show "insert p S \<subseteq> dom (map_of src)" using Cons.prems(5) p by auto
    show "map_of src q = Some n \<and> n \<noteq> OtherNode" if "(q, n) \<in> set ws" for q n
      using Cons.prems(3) [of q n] that by simp
    show "q \<in> insert p S \<union> fst ` set ws" if "r \<in> fst ` set ws" "strict_prefix q r" "q \<noteq> []" for r q
      using Cons.prems(4) [of r q] that w by auto
  qed
  then show ?case using t1(1) w by simp
qed simp

lemma walk_tree_set:
  assumes "tree_ok t"
  shows "(p, node) \<in> set (walk_tree ex t) \<longleftrightarrow> map_of t p = Some node \<and> mirrored ex p"
    "sorted_wrt (<) (map fst (walk_tree ex t))"
proof -
  have k: "map_ok t" using assms by (simp add: tree_ok_def)
  show "(p, node) \<in> set (walk_tree ex t) \<longleftrightarrow> map_of t p = Some node \<and> mirrored ex p"
    using map_of_ok_mem [OF k] by (auto simp: walk_tree_def)
  have m: "mset (map fst (sort_slice (\<lambda>a b. fst a < fst b) t)) = mset (map fst t)" by (simp add: mset_sort_any)
  have "sorted (map fst (sort_slice (\<lambda>a b. fst a < fst b) t))" by (rule walk_sort.sorted_sort_slice)
  moreover have "distinct (map fst (sort_slice (\<lambda>a b. fst a < fst b) t))" using mset_eq_imp_distinct_iff [OF m] k by blast
  ultimately have "sorted_wrt (<) (map fst (sort_slice (\<lambda>a b. fst a < fst b) t))" by (simp add: strict_sorted_iff)
  then show "sorted_wrt (<) (map fst (walk_tree ex t))"
    unfolding walk_tree_def by (simp add: sorted_wrt_map sorted_wrt_filter)
qed

lemma walk_keys:
  assumes "tree_ok t"
  shows "p \<in> set (map fst (walk_tree ex t)) \<longleftrightarrow> map_of t p \<noteq> None \<and> mirrored ex p"
proof -
  have "p \<in> set (map fst (walk_tree ex t)) \<longleftrightarrow> (\<exists>node. (p, node) \<in> set (walk_tree ex t))" by force
  then show ?thesis by (auto simp: walk_tree_set(1) [OF assms])
qed

lemma remove_stale_fine:
  assumes "tree_ok t" "writable_tree t"
  shows "\<exists>t'. remove_stale S ps t = Inr t' \<and> tree_ok t' \<and> writable_tree t' \<and>
    (\<forall>q. map_of t' q = (if \<exists>p\<in>set ps. p \<notin> S \<and> prefix p q then None else map_of t q))"
  using assms
proof (induction ps arbitrary: t)
  case (Cons p ps)
  note w = without_fine [OF Cons.prems, of p]
  show ?case
  proof (cases "p \<in> S")
    case True
    then show ?thesis using Cons.IH [OF Cons.prems] by auto
  next
    case False
    obtain t' where "remove_stale S ps (without p t) = Inr t'" "tree_ok t'" "writable_tree t'"
      "\<forall>q. map_of t' q = (if \<exists>p\<in>set ps. p \<notin> S \<and> prefix p q then None else map_of (without p t) q)"
      using Cons.IH [OF w(1,2)] by blast
    then show ?thesis using False w(3) by (intro exI [of _ t']) (auto simp: map_of_without)
  qed
qed simp

text \<open>The second pass, over a destination that holds the mirrored entries\<close>

lemma stale_removed:
  assumes "mirrored_so_far src dst (set (map fst (walk_tree ex src))) t" "tree_ok src"
    "\<forall>q. map_of t' q =
      (if \<exists>p\<in>set (map fst (walk_tree ex t)). p \<notin> set (map fst (walk_tree ex src)) \<and> prefix p q then None else map_of t q)"
  shows "map_of t' p =
    (if mirrored ex p then map_of src p
     else if \<forall>q. strict_prefix q p \<longrightarrow> q \<noteq> [] \<longrightarrow> mirrored ex q \<longrightarrow> is_dir_at src q then map_of dst p else None)"
proof -
  let ?K = "set (map fst (walk_tree ex src))"
  have t: "tree_ok t" using assms(1) by (simp add: mirrored_so_far_def)
  have K: "q \<in> ?K \<longleftrightarrow> map_of src q \<noteq> None \<and> mirrored ex q" for q by (rule walk_keys [OF assms(2)])
  have look: "map_of t q =
      (if q \<in> ?K then map_of src q else if \<exists>r\<in>?K. strict_prefix r q \<and> \<not> is_dir_at src r then None else map_of dst q)" for q
    using assms(1) unfolding mirrored_so_far_def by blast
  have gone: "map_of t' q = (if \<exists>r. map_of t r \<noteq> None \<and> mirrored ex r \<and> map_of src r = None \<and> prefix r q then None else map_of t q)" for q
  proof -
    have "(\<exists>r\<in>set (map fst (walk_tree ex t)). r \<notin> ?K \<and> prefix r q) \<longleftrightarrow>
        (\<exists>r. map_of t r \<noteq> None \<and> mirrored ex r \<and> map_of src r = None \<and> prefix r q)"
      unfolding Bex_def walk_keys [OF t] K by auto
    then show ?thesis using spec [OF assms(3), of q] by presburger
  qed
  show ?thesis
  proof (cases "mirrored ex p")
    case True
    show ?thesis
    proof (cases "map_of src p = None")
      case None: True
      then have "map_of t p \<noteq> None \<Longrightarrow> map_of t' p = None" using gone [of p] True by auto
      moreover have "map_of t p = None \<Longrightarrow> map_of t' p = None" using gone [of p] by simp
      ultimately show ?thesis using True None by auto
    next
      case False
      then have "map_of src r \<noteq> None" if "prefix r p" "map_of t r \<noteq> None" for r
        using tree_above [OF assms(2) False, of r] that tree_not_Nil [OF t]
        by (cases "r = p"; cases "r = []") (auto simp: strict_prefix_def)
      then have no: "\<not> (\<exists>r. map_of t r \<noteq> None \<and> mirrored ex r \<and> map_of src r = None \<and> prefix r p)" by blast
      have "map_of t' p = map_of t p" using gone [of p] unfolding if_not_P [OF no] .
      then show ?thesis using look [of p] K [of p] True False by simp
    qed
  next
    case False
    then have p: "p \<notin> ?K" using K by blast
    show ?thesis
    proof (cases "\<forall>q. strict_prefix q p \<longrightarrow> q \<noteq> [] \<longrightarrow> mirrored ex q \<longrightarrow> is_dir_at src q")
      case True
      have "map_of src r \<noteq> None" if "prefix r p" "map_of t r \<noteq> None" "mirrored ex r" for r
        using True that False tree_not_Nil [OF t] by (cases "r = p") (auto simp: strict_prefix_def)
      then have no: "\<not> (\<exists>r. map_of t r \<noteq> None \<and> mirrored ex r \<and> map_of src r = None \<and> prefix r p)" by blast
      have "map_of t' p = map_of t p" using gone [of p] unfolding if_not_P [OF no] .
      moreover have nb: "\<not> (\<exists>r\<in>?K. strict_prefix r p \<and> \<not> is_dir_at src r)"
        using True K tree_not_Nil [OF assms(2)] by metis
      have "map_of t p = map_of dst p" using look [of p] unfolding if_not_P [OF p] if_not_P [OF nb] .
      ultimately show ?thesis using True False by simp
    next
      case blocked: False
      then obtain q where q: "strict_prefix q p" "q \<noteq> []" "mirrored ex q" "\<not> is_dir_at src q" by blast
      have "map_of t' p = None"
      proof (cases "map_of t p = None")
        case True
        then show ?thesis using gone [of p] by simp
      next
        case there: False
        then have dir: "is_dir_at t q" using tree_above [OF t _ q(1,2)] by simp
        have "map_of src q = None"
        proof (rule ccontr)
          assume "map_of src q \<noteq> None"
          then have "q \<in> ?K" using K q(3) by blast
          then have lost: "\<exists>r\<in>?K. strict_prefix r p \<and> \<not> is_dir_at src r" using q(1,4) by blast
          have "map_of t p = None" using look [of p] unfolding if_not_P [OF p] if_P [OF lost] .
          then show False using there by simp
        qed
        then show ?thesis using gone [of p] dir q by (auto simp: strict_prefix_def)
      qed
      then show ?thesis using False blocked by auto
    qed
  qed
qed


text \<open>
  A source and a destination: the excluded b/m is lost with b, which the source does not have, and the
  excluded a/k is kept.
\<close>

definition demo_source_tree :: tree where
  "demo_source_tree = [([''a''], DirNode 493), ([''a'', ''x''], FileNode ''new'' 420)]"

definition demo_target_tree :: tree where
  "demo_target_tree =
     [([''.git''], FileNode ''g'' 420), ([''a''], DirNode 493), ([''a'', ''k''], FileNode ''k'' 420),
      ([''a'', ''x''], LinkNode ''old''), ([''b''], DirNode 493), ([''b'', ''m''], FileNode ''m'' 420)]"

lemma demo_trees:
  "tree_ok demo_source_tree" "tree_ok demo_target_tree" "writable_tree demo_source_tree" "writable_tree demo_target_tree"
  by (auto simp: tree_ok_def demo_source_tree_def demo_target_tree_def writable_tree_def may_write_def split: if_splits)

lemma demo_exclusions: "normalizeMirrorExcludePrefixes [''b/m'', ''a/k''] = Inr [''a/k'', ''b/m'']"
proof -
  have t: "trim_space ''b/m'' = ''b/m''" "trim_space ''a/k'' = ''a/k''"
    by (rule trim_space_plain; simp add: go_spaces_def)+
  have "cleanRelativeCWD ''b/m'' = Inr ''b/m''" "cleanRelativeCWD ''a/k'' = Inr ''a/k''"
    unfolding cleanRelativeCWD_def t
    by (simp_all add: Clean_def path_segments_def raw_segments_def render_path_def IsAbs_def escapes_def)
  then show ?thesis by (simp add: normalizeMirrorExcludePrefixes_def less_char_def)
qed


text \<open>
  A directory gets its permissions before its files are created: a read-only directory that is not
  empty cannot be mirrored.
\<close>

lemma read_only_directory_fails:
  "MirrorCheckout [([''a''], DirNode 365), ([''a'', ''x''], FileNode ''v'' 292)] [] [] = Inl (PermissionDenied [''a'', ''x''])"
  by (simp add: MirrorCheckout_def normalizeMirrorExcludePrefixes_def walk_tree_def mirrored_def isGitMetadataPath_def
      shouldExcludeMirrorPath_def mirrorEntry_def ensureDirectory_def replace_at_def create_at_def parent_writable_def
      remove_path_def removable_def may_write_def)

end
