(* ===== verification/Spec2Isabelle.thy ===== *)
theory Spec2Isabelle
  imports History EventBuffer Authorization Identity Reachable Restart Guards RelayClient GitStatus TaskHistory Framing Clients Bundles Worktrees
begin

text \<open>
  A verification development for muxagent (https://github.com/LaLanMo/muxagent), a tool that runs
  coding agents along user-defined task graphs on a developer's machine and lets remote clients
  reach that machine through a relay.  It models the parts of the Go code that decide: which task
  configurations are accepted, how a task moves along its graph, what a task's history says about
  its state, which events a reconnecting client gets, and who may talk to whom over the relay.

  The program and its theories.

  \<^item> Prelude, Values: Go's slices, maps, integers, TrimSpace and sort.Slice, and the dynamic values
    (interface{}) of decoded documents with comparableValueKey and the number tests of
    cli/internal/taskconfig/config.go.
  \<^item> Schema: result schemas (config.go validateSchema and validateAgentStructuredOutputSchema,
    schema_validate.go).  conforms is the abstract meaning of a schema; ValidateValue decides it.
  \<^item> TaskConfig, Validate, WellFormed: the configuration structs, their raw forms and defaults,
    Validate, and the declarative well_formed_config that Validate decides.
  \<^item> Domain: tasks and their derived state (cli/internal/taskdomain/types.go, retry.go).
  \<^item> Engine, Routing, Scheduling, History: the token engine (cli/internal/taskengine/engine.go).  An
    Engine value is the engine's maps: pending arrivals, started nodes and the token of each run.
    Routing is about one completion, Scheduling about joins and all sequences of engine calls
    (engine_trace), History about iteration limits and DeriveBlockedSteps.
  \<^item> Json, Store, Lineage: the task database (cli/internal/taskstore/store.go): its three tables, the
    statements and transactions on them, the JSON and time columns, and the recursive lineage queries.
  \<^item> Envelope: answers to clarification questions, output envelopes and their recovery
    (cli/internal/taskexecutor/envelope.go, taskruntime/input_validation.go, recovery.go).
  \<^item> Paths, Runtime, Commands, Provenance: filepath, and the task runtime (cli/internal/taskruntime):
    the Service over store, engine and event bus, its commands, the node runner, retry and recovery,
    and the step relation svc_step of commands, progress, ends of agent runs and restarts.
  \<^item> RuntimeLogic, Topology, Completion, Reachable: proof rules for handlers (locale invariant_logic,
    interpreted with the runtime's invariant good), and the proof that every step keeps it.
    Guards: what a command needs before it changes anything; Restart: what a new process has lost;
    RuntimeDemo: a task run through the model, for the witnesses.
  \<^item> EventBuffer: the ring buffer of events (cli/internal/agentchat/eventbuf.go), refining an
    abstract bounded log (locale bounded_log).
  \<^item> RelayBase, Tokens: rows, repositories, signed messages and tokens of the relay
    (relay/internal/domain, repository, infra/crypto, service/ws_tokens.go).
  \<^item> Sessions, Relay, Authorization: the session registry and hub (ws_session_registry.go,
    ws_hub.go), HandleConnection with its handlers (ws_service.go), and the step relation
    relay_step over all connections with its invariant.
  \<^item> Keyring, Pairing, Identity: keyring updates and pairing (service/keyring.go, auth.go,
    api/keyring.go), and the step relation db_step of these services with the chain invariant.
  \<^item> Numbers, MachineKeyring: the machine's copy of its master's keyring (cli/internal/keyring) and the
    handlers that serve it (relay/internal/api/keyring.go).  Sync is a fold of sync_update over a
    served page; the lemmas relate it to the relay's table (ring_replays, tracks) and, without trust
    in the relay, to signed chains of trusted keys (trusted, after_replies).
  \<^item> RelayClient: the machine's end of the relay protocol (cli/internal/relayws).  Its operations on the
    connection state are definitions, and cstep interleaves them the way the goroutines can: one step
    is one section under the state lock or one write; writer says who holds the write lock.
  \<^item> GitStatus: the parsers of git status and git worktree, paging through changed files, and Snapshot
    (cli/internal/gitstatus).
  \<^item> StreamEvents, TaskHistory: the events executors stream and their merge
    (cli/internal/taskexecutor/stream.go), and the history files of runs with torn writes and the
    merge of recovered records (cli/internal/taskhistory/history.go).
  \<^item> Framing, Workspaces: the frames of the app server's protocol and its registry of directories
    (cli/internal/appserver/framing.go, registry.go).  The registry refines the map from directories
    to workspace identifiers (abstract_step), in memory and on disk.
  \<^item> AppServer, Clients: the local server (appserver/server.go, pending.go, runtime_manager.go,
    protocol.go).  A server value is the Server struct with its runtime manager; a handler maps the
    parameters of a method to its answer and the next server; app_step interleaves connections, actors
    and their goroutines, one step per section under the server's lock or send into a channel.
    Clients proves the invariants of that relation: methods are tame, connections presented, every
    notification placed.
  \<^item> Catalogue, Bundles: the catalogue of task configurations (taskconfig/registry.go,
    registry_ops.go, builtins.go).  A store is the registry file and the files below taskconfigs; an
    operation maps it to its result and the next store.  Bundles proves what every history of
    operations, failed writes and user edits (cat_reaches) keeps, and that the search for fresh names
    ends.
  \<^item> Worktrees: worktree/worktree.go and store.go.  A checkout is a map from paths to directories,
    files and links; MirrorCheckout is its two walks and the removal of stale paths, and
    mirror_makes_checkouts_equal says what is in the destination afterwards.

  How they interact.  Validate guards what the engine relies on: the routing theorems assume
  well_formed_config, which Validate decides, and ValidateValue for the output.  The engine reports
  transitions, and the derived state (Domain) is computed from the recorded runs alone.  In the relay,
  the pairing and keyring services write the database that the WebSocket service reads; the theorem
  below shows that their steps are among those the relay's invariant allows.  The machine's keyring
  follows the relay's keyring table through ListUpdates and Sync, and the relay client accepts sessions
  by the tokens that this keyring verifies.  The task runtime (Runtime) sees a history file only as
  the list of records that TaskHistory reads from its bytes.

  What the lemmas show.  Validation decides well-formedness; validated graphs route every agent
  completion; joins wait for exactly the started predecessors; iteration limits hold; derived views do
  not depend on storage order; replays are exact and paging loses nothing; tokens are sound, complete
  and of disjoint kinds; sessions are exclusive, expire, and need signatures of both ends; frames stay
  within one master; keyrings are verifiable chains; revocation is
  final; recorded runs follow their config's topology, and commands change nothing before their checks.  Some theorems record
  faults of the code: optional_branch_field_is_not_exhaustive, closed_connection_stays_registered,
  oversized_event_is_lost_without_gap, restart_forgets_join_arrivals, status_signature_is_ambiguous,
  revocation_can_be_redirected, installSession_overtakes_a_sender, undecodable_name_stalls_paging,
  append_after_torn_write_loses_history, refused_takeover_lifts_the_restriction and
  clone_named_builtin_removes_the_builtins.  A machine's keyring copy catches up with the relay's and
  trusts only signed chains; encrypted frames stay in acknowledged sessions of the open connection;
  what git prints is parsed back and paged without loss; a torn history file loses one record.
  Frames cut at any byte lose only what is incomplete, and workspaces keep their identifiers over
  renames, removals and restarts.  The app server serves connections that presented its token, keeps
  every notification in one place and acknowledges a command once.  The catalogue of configurations
  always loads again with all its builtins, and an operation keeps the bundles it does not name.  A mirrored checkout equals its source.

  Conventions and bounds.  Strings are byte strings.  A Go map is an association list with distinct
  keys (map_ok).  Counters and sequence numbers of the event buffer and the epochs are 64-bit words
  where they can wrap; iteration counts, list lengths and keyring numbers are mathematical integers, as
  they grow by one per stored row and cannot reach the width; the connection epoch of the relay client,
  a uint64 in the code, grows by one per connect and close and is a natural number.  Numbers that are
  printed and read back (keyring numbers in a query) are shown to fit 64 bits where that is used.  Instants are nanoseconds.  Every modelled
  function is total; loops are structural or have a measure, but for the recursion of
  afterNodeCompletedInternal through terminal nodes, which takes fuel: more of it than the sum of the
  iteration limits over the targets of a configuration's edges is never used up
  (handlers_never_run_out_of_fuel).  A handler of the runtime is one step, with a possible failure of
  the disk at each of its statements; SaveNodeRun and the timestamp it sets are one statement.  Errors are values of
  error types, with the messages' text where the program passes it on.  A call of a service takes one
  instant and is one step; one frame of a connection is one step, as all calls about a client's
  sessions come from that client's own goroutine.  Arguments of the model stand for Ed25519, SHA-256,
  base64, UUID parsing and printing, JSON decoding of frames, randomness, the clock, and the
  outcome of network writes; the environment records go_env, relay_env, ws_env and auth_env hold them.
  In the later theories client_env adds X25519, HKDF and XChaCha20-Poly1305, git_env and git_run the
  runs of git, json_codec the JSON text of a history record, of which only that it is one line, an
  object that starts with its first field, and that what is read is a JSON text is used (codec_ok).

  Not modelled: the texts of prompts and input files, the executors and agent runtimes (external
  processes), the texts stream.go builds for display, the providers' own logs (provider_backfill.go, a
  reader per provider whose result is an argument of Load), dialling and the dispatch loop of the relay
  client with the RPC methods it passes to agentchat, the app server's methods that only read stores, run git, edit configurations or ask the daemon (their
  answers are readings),
  the runs of git that make and remove worktrees, the terminal, desktop and mobile interfaces, push notifications, HTTP routing, rate limits, logging, and gorm's SQL, of which only the effect on rows is modelled.
\<close>

section \<open>The services and the relay together\<close>

text \<open>
  Every step of the pairing and keyring services on the database is a step the relay's invariant
  allows, so the isolation of masters holds while machines are paired and keys change.
\<close>

theorem service_steps_are_relay_steps:
  assumes "relay_reaches d w" and "db_step env (rDb (wRelay w)) d'"
  shows "relay_reaches d (w\<lparr>wRelay := (wRelay w)\<lparr>rDb := d'\<rparr>\<rparr>)"
  using assms(1)
proof (rule relay_reaches_step)
  show "relay_step w (w\<lparr>wRelay := (wRelay w)\<lparr>rDb := d'\<rparr>\<rparr>)"
    by (rule step_db) (rule db_step_masters [OF assms(2)])
qed

end
